(* ===== verification/Prelude.thy ===== *)
theory Prelude
  imports Main
begin

text \<open>
  What every theory of the development shares: the names of the Python types, the German
  letters, the row operations of a table, generic lemmas on lists, and the three interfaces
  the components state as locales: an operation that may be repeated (\<open>replayable\<close>), a
  machine with an invariant (\<open>machine\<close>), and a list of half-open windows of which the
  first that holds an instant counts (\<open>window_family\<close>).
\<close>

section \<open>Types\<close>

text \<open>
  Python's unbounded integers are \<open>int\<close>. An instant is the number of microseconds since
  1970-01-01 00:00 UTC, the resolution of \<open>datetime\<close>. A primary key is a number: the code
  compares keys and prints them and does nothing else with them. A Python string is a list of
  HOL characters, read as Latin-1: one character per code point, which covers every letter of
  the sentences modelled here.
\<close>

type_synonym instant = int
type_synonym uuid = nat
type_synonym str = string
type_synonym cents = int

abbreviation ae :: char where "ae \<equiv> CHR 0xE4"
abbreviation oe :: char where "oe \<equiv> CHR 0xF6"
abbreviation ue :: char where "ue \<equiv> CHR 0xFC"
abbreviation sz :: char where "sz \<equiv> CHR 0xDF"
abbreviation Ue :: char where "Ue \<equiv> CHR 0xDC"

named_theorems row_simps \<open>how reading a row meets writing one\<close>
named_theorems frame_simps \<open>what an operation leaves alone\<close>

section \<open>Rows of a table\<close>

text \<open>A table is the list of its rows. \<open>upd_rows p f\<close> is UPDATE ... WHERE p.\<close>

definition upd_rows :: "('r \<Rightarrow> bool) \<Rightarrow> ('r \<Rightarrow> 'r) \<Rightarrow> 'r list \<Rightarrow> 'r list" where
  "upd_rows p f rs = map (\<lambda>r. if p r then f r else r) rs"

lemma upd_rows_simps [simp]:
  "upd_rows p f [] = []"
  "upd_rows p f (r # rs) = (if p r then f r else r) # upd_rows p f rs"
  by (simp_all add: upd_rows_def)

lemma length_upd_rows [simp]: "length (upd_rows p f rs) = length rs"
  by (simp add: upd_rows_def)

lemma upd_rows_append [simp]: "upd_rows p f (xs @ ys) = upd_rows p f xs @ upd_rows p f ys"
  by (simp add: upd_rows_def)

lemma set_upd_rows:
  "set (upd_rows p f rs) = f ` {r \<in> set rs. p r} \<union> {r \<in> set rs. \<not> p r}"
  by (auto simp: upd_rows_def image_iff)

lemma upd_rows_id: "(\<And>r. r \<in> set rs \<Longrightarrow> p r \<Longrightarrow> f r = r) \<Longrightarrow> upd_rows p f rs = rs"
  by (induction rs) auto

lemma map_upd_rows [row_simps]:
  "(\<And>r. g (f r) = g r) \<Longrightarrow> map g (upd_rows p f rs) = map g rs"
  by (induction rs) auto

lemma filter_upd_rows [row_simps]:
  "(\<And>r. q (f r) = q r) \<Longrightarrow> filter q (upd_rows p f rs) = upd_rows p f (filter q rs)"
  by (induction rs) auto

lemma find_upd_rows:
  assumes "\<And>r. q (f r) = q r"
  shows "find q (upd_rows p f rs) = map_option (\<lambda>r. if p r then f r else r) (find q rs)"
  using assms by (induction rs) auto

lemma upd_rows_twice: "(\<And>r. p (f r) = p r) \<Longrightarrow>
    upd_rows p g (upd_rows p f rs) = upd_rows p (\<lambda>r. g (f r)) rs"
  by (induction rs) auto

text \<open>One row after another, each under its own key: the same as all at once.\<close>

lemma fold_upd_rows:
  assumes "distinct (map k es)" and "\<And>e x. k (g e x) = k x"
  shows "fold (\<lambda>e. upd_rows (\<lambda>x. k x = k e) (g e)) es rs =
    map (\<lambda>x. case find (\<lambda>e. k e = k x) es of None \<Rightarrow> x | Some e \<Rightarrow> g e x) rs"
  using assms(1)
proof (induction es arbitrary: rs)
  case (Cons e es)
  have "find (\<lambda>y. k y = k e) es = None"
    using Cons.prems by (auto simp: find_None_iff image_iff)
  then show ?case
    using Cons by (auto simp: upd_rows_def assms(2) eq_commute intro!: map_cong)
qed simp

lemma find_SomeD: "find p xs = Some x \<Longrightarrow> p x \<and> x \<in> set xs"
  by (auto simp: find_Some_iff)

lemma find_NoneD: "find p xs = None \<Longrightarrow> x \<in> set xs \<Longrightarrow> \<not> p x"
  by (auto simp: find_None_iff)

lemma find_append_new: "find p (xs @ ys) = (case find p xs of Some x \<Rightarrow> Some x | None \<Rightarrow> find p ys)"
  by (induction xs) auto

lemma find_cong_key:
  "find p xs = None \<longleftrightarrow> (\<forall>x \<in> set xs. \<not> p x)"
  by (auto simp: find_None_iff)

lemma distinct_key_find:
  assumes "distinct (map k xs)" "x \<in> set xs"
  shows "find (\<lambda>y. k y = k x) xs = Some x"
  using assms by (induction xs) (auto simp: image_iff)

lemma sort_key_Nil [simp]: "sort_key f xs = [] \<longleftrightarrow> xs = []"
proof -
  have "length (sort_key f xs) = length xs" by simp
  then show ?thesis by (cases xs; cases "sort_key f xs") simp_all
qed

section \<open>Sums of a list\<close>

lemma sum_list_map_upd_le:
  "(\<And>r. r \<in> set rs \<Longrightarrow> g r \<le> (h r :: int)) \<Longrightarrow> sum_list (map g rs) \<le> sum_list (map h rs)"
  by (induction rs) (auto simp: add_mono)

lemma sum_list_nonneg_int: "(\<And>x. x \<in> set xs \<Longrightarrow> 0 \<le> g x) \<Longrightarrow> (0::int) \<le> sum_list (map g xs)"
  by (induction xs) auto

section \<open>Results\<close>

text \<open>A result is \<open>Inl\<close> of what was raised or \<open>Inr\<close> of what was returned. Sequencing, a loop that
  carries a state, and a loop that collects answers; each stops at the first raise.\<close>

definition andthen :: "'e + 'a \<Rightarrow> ('a \<Rightarrow> 'e + 'b) \<Rightarrow> 'e + 'b" where
  "andthen m k = (case m of Inl e \<Rightarrow> Inl e | Inr x \<Rightarrow> k x)"

fun fold_res :: "('a \<Rightarrow> 's \<Rightarrow> 'e + 's) \<Rightarrow> 'a list \<Rightarrow> 's \<Rightarrow> 'e + 's" where
  "fold_res f [] s = Inr s"
| "fold_res f (x # xs) s = andthen (f x s) (fold_res f xs)"

fun map_res :: "('a \<Rightarrow> 'e + 'b) \<Rightarrow> 'a list \<Rightarrow> 'e + 'b list" where
  "map_res f [] = Inr []"
| "map_res f (x # xs) = andthen (f x) (\<lambda>y. andthen (map_res f xs) (\<lambda>ys. Inr (y # ys)))"

lemma andthen_simps [simp]: "andthen (Inl e) k = Inl e" "andthen (Inr x) k = k x"
  by (simp_all add: andthen_def)

lemma andthen_Inr [simp]: "andthen m k = Inr y \<longleftrightarrow> (\<exists>x. m = Inr x \<and> k x = Inr y)"
  by (cases m) simp_all

lemma andthen_Inl: "andthen m k = Inl e \<longleftrightarrow> m = Inl e \<or> (\<exists>x. m = Inr x \<and> k x = Inl e)"
  by (cases m) simp_all

lemma if_raise_Inr [simp]:
  "(if b then Inl e else m) = Inr y \<longleftrightarrow> \<not> b \<and> m = Inr y"
  "(if b then m else Inl e) = Inr y \<longleftrightarrow> b \<and> m = Inr y"
  by simp_all

lemma map_res_Inr: "map_res f xs = Inr ys \<longleftrightarrow> list_all2 (\<lambda>x y. f x = Inr y) xs ys"
proof (induction xs arbitrary: ys)
  case (Cons x xs)
  then show ?case by (cases ys) auto
qed auto

lemma fold_res_invariant:
  assumes "fold_res f xs s = Inr t" and "P s"
    and "\<And>x s t. x \<in> set xs \<Longrightarrow> P s \<Longrightarrow> f x s = Inr t \<Longrightarrow> P t"
  shows "P t"
  using assms
proof (induction xs arbitrary: s)
  case (Cons x xs)
  then obtain s' where "f x s = Inr s'" "fold_res f xs s' = Inr t" by auto
  then show ?case using Cons.IH [of s'] Cons.prems by auto
qed simp

lemma fold_res_append:
  "fold_res f (xs @ ys) s = andthen (fold_res f xs s) (fold_res f ys)"
proof (induction xs arbitrary: s)
  case (Cons x xs)
  then show ?case by (cases "f x s") simp_all
qed simp

section \<open>Interfaces\<close>

text \<open>
  An operation over a state \<open>'s\<close> that answers or raises. \<open>replayable\<close> is the contract the
  code states for its confirming operations: "each further call reads the same state". Once it
  has answered, a repetition gives the same answer and writes nothing.
\<close>

locale replayable =
  fixes op :: "'s \<Rightarrow> 'e + 'r \<times> 's"
  assumes replay: "op s = Inr (r, s') \<Longrightarrow> op s' = Inr (r, s')"
begin

primrec repeat_op :: "nat \<Rightarrow> 's \<Rightarrow> 'e + 'r list \<times> 's" where
  "repeat_op 0 s = Inr ([], s)"
| "repeat_op (Suc n) s =
     (case op s of Inl e \<Rightarrow> Inl e
      | Inr (r, s') \<Rightarrow>
          (case repeat_op n s' of Inl e \<Rightarrow> Inl e | Inr (rs, s'') \<Rightarrow> Inr (r # rs, s'')))"

lemma repeat_after: "op s = Inr (r, s') \<Longrightarrow> repeat_op n s' = Inr (replicate n r, s')"
  by (induction n) (auto dest: replay)

lemma repeat_same: "op s = Inr (r, s') \<Longrightarrow> repeat_op (Suc n) s = Inr (replicate (Suc n) r, s')"
  by (simp add: repeat_after)

end

text \<open>A machine whose every step keeps an invariant: it holds in every reachable state.\<close>

locale machine =
  fixes step :: "'s \<Rightarrow> 's \<Rightarrow> bool" and inv :: "'s \<Rightarrow> bool"
  assumes step_inv: "step s t \<Longrightarrow> inv s \<Longrightarrow> inv t"
begin

lemma steps_inv: "step\<^sup>*\<^sup>* s t \<Longrightarrow> inv s \<Longrightarrow> inv t"
  by (induction rule: rtranclp_induct) (auto dest: step_inv)

end

text \<open>
  Windows \<open>[lo w, hi w)\<close> of one day, and the first that holds an instant: opening windows and
  capacity windows are read the same way.
\<close>

locale window_family =
  fixes lo :: "'w \<Rightarrow> int" and hi :: "'w \<Rightarrow> int" and holds :: "'w \<Rightarrow> int \<Rightarrow> bool"
  assumes holds_iff: "holds w t \<longleftrightarrow> lo w \<le> t \<and> t < hi w"
begin

definition first_at :: "'w list \<Rightarrow> int \<Rightarrow> 'w option" where
  "first_at ws t = find (\<lambda>w. holds w t) ws"

lemma first_at_Some: "first_at ws t = Some w \<Longrightarrow> w \<in> set ws \<and> lo w \<le> t \<and> t < hi w"
  by (auto simp: first_at_def holds_iff dest: find_SomeD)

lemma first_at_None_iff: "first_at ws t = None \<longleftrightarrow> (\<forall>w \<in> set ws. t < lo w \<or> hi w \<le> t)"
  by (auto simp: first_at_def find_None_iff holds_iff not_le not_less)

lemma first_at_unique:
  assumes "\<forall>w \<in> set ws. \<forall>v \<in> set ws. w \<noteq> v \<longrightarrow> hi w \<le> lo v \<or> hi v \<le> lo w"
    and "w \<in> set ws" and "holds w t"
  shows "first_at ws t = Some w"
proof -
  from assms(2,3) have "first_at ws t \<noteq> None" by (auto simp: first_at_def find_None_iff)
  then obtain v where v: "first_at ws t = Some v" by blast
  from first_at_Some [OF v] assms have "v = w" by (fastforce simp: holds_iff)
  with v show ?thesis by simp
qed

end

text \<open>
  A worker that takes one due entry of a table at a time and writes it back no longer due. The
  provider promises which entry it takes and that a handled entry is not due again; the client
  then knows that enough rounds empty the table of due entries, each handled once.
\<close>

locale drain =
  fixes ident :: "'e \<Rightarrow> uuid" and due :: "'e \<Rightarrow> bool"
    and pick :: "'e list \<Rightarrow> 'e option" and handle :: "nat \<Rightarrow> 'e \<Rightarrow> 'e"
  assumes pick_Some: "pick es = Some e \<Longrightarrow> e \<in> set es \<and> due e"
    and pick_None: "pick es = None \<Longrightarrow> e \<in> set es \<Longrightarrow> \<not> due e"
    and handled_not_due: "due e \<Longrightarrow> \<not> due (handle i e)"
    and handled_ident: "ident (handle i e) = ident e"
begin

fun rounds :: "nat \<Rightarrow> nat \<Rightarrow> 'e list \<Rightarrow> 'e list" where
  "rounds i 0 es = es"
| "rounds i (Suc n) es =
     (case pick es of None \<Rightarrow> es
      | Some e \<Rightarrow> rounds (Suc i) n (upd_rows (\<lambda>x. ident x = ident e) (handle i) es))"

lemma count_due_step:
  assumes "distinct (map ident es)" and "e \<in> set es" and "due e"
  shows "length (filter due es)
    = Suc (length (filter due (upd_rows (\<lambda>x. ident x = ident e) (handle i) es)))"
  using assms
proof (induction es)
  case (Cons x es)
  show ?case
  proof (cases "x = e")
    case True
    then have "upd_rows (\<lambda>x. ident x = ident e) (handle i) es = es"
      using Cons.prems by (auto intro!: upd_rows_id simp: image_iff)
    then show ?thesis using True Cons.prems handled_not_due by simp
  next
    case False
    then have "ident x \<noteq> ident e" using Cons.prems by (auto simp: image_iff)
    then show ?thesis using False Cons by auto
  qed
qed simp

lemma distinct_handled:
  "distinct (map ident es) \<Longrightarrow>
   distinct (map ident (upd_rows (\<lambda>x. ident x = ident e) (handle i) es))"
  by (simp add: map_upd_rows handled_ident)

lemma rounds_drain:
  assumes "distinct (map ident es)" and "length (filter due es) \<le> n"
  shows "\<forall>e \<in> set (rounds i n es). \<not> due e"
  using assms
proof (induction i n es rule: rounds.induct)
  case (1 i es)
  then show ?case by (simp add: filter_empty_conv)
next
  case (2 i n es)
  show ?case
  proof (cases "pick es")
    case None
    then show ?thesis using pick_None by simp
  next
    case (Some e)
    with pick_Some have e: "e \<in> set es" "due e" by blast+
    show ?thesis
      using 2(1) [OF Some distinct_handled [OF 2(2)]] count_due_step [OF 2(2) e, of i] 2(3) Some
      by simp
  qed
qed

end

end
