(* ===== verification/PyTime.thy ===== *)
theory PyTime
  imports Prelude
begin

text \<open>
  \<open>api/core/time.py\<close> and what it uses of \<open>datetime\<close>, \<open>zoneinfo\<close> and \<open>calendar\<close>: a time zone
  as its list of transitions, the wall clock with the \<open>fold\<close> of PEP 495, the change to UTC and
  back, the business day and its bounds, months added to a date. The transitions themselves
  come from the IANA database, so a zone is an argument of every definition.
\<close>

section \<open>Durations, dates and clock times\<close>

text \<open>A clock time is its microseconds since midnight, a date its days since 1970-01-01.\<close>

definition SECOND :: int where "SECOND = 1000000"
definition MINUTE :: int where "MINUTE = 60000000"
definition HOUR :: int where "HOUR = 3600000000"
definition DAY :: int where "DAY = 86400000000"

lemmas time_units = SECOND_def MINUTE_def HOUR_def DAY_def

text \<open>\<open>date.weekday()\<close>: Monday is 0; 1970-01-01 was a Thursday.\<close>

definition weekday :: "int \<Rightarrow> int" where
  "weekday d = (d + 3) mod 7"

lemma weekday_range: "0 \<le> weekday d \<and> weekday d \<le> 6"
  unfolding weekday_def by presburger

section \<open>Zones\<close>

text \<open>
  A local \<open>datetime\<close> is the wall clock (microseconds since 1970-01-01 00:00 of the wall) and
  its \<open>fold\<close>. A zone is the offset before the first transition and the transitions in order:
  the UTC instant of each and the offset from then on.
\<close>

record local_dt =
  wall :: int
  fold_bit :: bool

record zone =
  base_offset :: int
  transitions :: "(instant \<times> int) list"

text \<open>\<open>ZoneInfo.fromutc\<close>: the offset at an instant, and whether its wall time is the second of two.\<close>

fun scan_utc :: "int \<Rightarrow> bool \<Rightarrow> (instant \<times> int) list \<Rightarrow> instant \<Rightarrow> int \<times> bool" where
  "scan_utc off f [] u = (off, f)"
| "scan_utc off f ((t, off') # ts) u =
     (if t \<le> u then scan_utc off' (u - t < off - off') ts u else (off, f))"

text \<open>\<open>ZoneInfo.utcoffset\<close>: the offset of a wall time, by its \<open>fold\<close> where the wall reads twice
  or not at all.\<close>

fun scan_wall :: "int \<Rightarrow> (instant \<times> int) list \<Rightarrow> bool \<Rightarrow> int \<Rightarrow> int" where
  "scan_wall off [] f w = off"
| "scan_wall off ((t, off') # ts) f w =
     (if t + (if f then min off off' else max off off') \<le> w
      then scan_wall off' ts f w else off)"

definition astimezone :: "zone \<Rightarrow> instant \<Rightarrow> local_dt" where
  "astimezone z u =
     (let (off, f) = scan_utc (base_offset z) False (transitions z) u
      in \<lparr>wall = u + off, fold_bit = f\<rparr>)"

definition utc_of :: "zone \<Rightarrow> local_dt \<Rightarrow> instant" where
  "utc_of z l = wall l - scan_wall (base_offset z) (transitions z) (fold_bit l) (wall l)"

definition ldate :: "local_dt \<Rightarrow> int" where "ldate l = wall l div DAY"
definition ltime :: "local_dt \<Rightarrow> int" where "ltime l = wall l mod DAY"

text \<open>\<open>datetime.combine(day, time, tzinfo=zone)\<close>, with a time of \<open>fold\<close> 0.\<close>

definition combine :: "int \<Rightarrow> int \<Rightarrow> local_dt" where
  "combine d t = \<lparr>wall = d * DAY + t, fold_bit = False\<rparr>"

lemma combine_sel [simp]: "wall (combine d t) = d * DAY + t" "fold_bit (combine d t) = False"
  by (simp_all add: combine_def)

lemma DAY_pos [simp]: "0 < DAY" by (simp add: DAY_def)

lemma ldate_ltime: "wall l = ldate l * DAY + ltime l" "0 \<le> ltime l" "ltime l < DAY"
  by (simp_all add: ldate_def ltime_def)

lemma date_of_wall: "0 \<le> t \<Longrightarrow> t < DAY \<Longrightarrow> (d * DAY + t) div DAY = d \<and> (d * DAY + t) mod DAY = t"
  by (simp add: DAY_def)

section \<open>A zone that is in order\<close>

text \<open>
  Offsets stay below a day (\<open>datetime\<close> refuses others) and the transitions are at least four
  days apart. Every zone the program serves satisfies it: summer time begins and ends once a
  year.
\<close>

fun wf_trans :: "int \<Rightarrow> (instant \<times> int) list \<Rightarrow> bool" where
  "wf_trans off [] = (\<bar>off\<bar> < DAY)"
| "wf_trans off ((t, off') # ts) =
     (\<bar>off\<bar> < DAY \<and> (case ts of [] \<Rightarrow> True | (t', _) # _ \<Rightarrow> t + 4 * DAY \<le> t') \<and> wf_trans off' ts)"

definition wf_zone :: "zone \<Rightarrow> bool" where
  "wf_zone z = wf_trans (base_offset z) (transitions z)"

text \<open>Central European time over 2026 and 2027, the zone of the pilot.\<close>

definition berlin :: zone where
  "berlin = \<lparr>base_offset = HOUR,
     transitions = [(1774746000000000, 2 * HOUR), (1792890000000000, HOUR),
                    (1806195600000000, 2 * HOUR), (1824944400000000, HOUR)]\<rparr>"

lemma wf_berlin: "wf_zone berlin"
  by (simp add: wf_zone_def berlin_def HOUR_def DAY_def)

lemma wf_trans_off: "wf_trans off ts \<Longrightarrow> \<bar>off\<bar> < DAY"
  by (cases ts) auto

lemma scan_utc_off: "wf_trans off ts \<Longrightarrow> \<bar>fst (scan_utc off f ts u)\<bar> < DAY"
  by (induction off f ts u rule: scan_utc.induct) auto

lemma scan_utc_before:
  "(case ts of [] \<Rightarrow> True | (t, _) # _ \<Rightarrow> u < t) \<Longrightarrow> scan_utc off f ts u = (off, f)"
  by (cases ts) auto

lemma scan_roundtrip:
  assumes "wf_trans off ts"
    and "f \<Longrightarrow> (case ts of [] \<Rightarrow> True | (t, _) # _ \<Rightarrow> u + 2 * DAY \<le> t \<or> t \<le> u)"
  shows "scan_wall off ts (snd (scan_utc off f ts u)) (u + fst (scan_utc off f ts u))
         = fst (scan_utc off f ts u)"
  using assms
proof (induction off f ts u rule: scan_utc.induct)
  case (1 off f u)
  then show ?case by simp
next
  case (2 off f t off' ts u)
  have o: "\<bar>off\<bar> < DAY" and o': "\<bar>off'\<bar> < DAY" and wf': "wf_trans off' ts"
    using 2(2) wf_trans_off by auto
  show ?case
  proof (cases "t \<le> u")
    case False
    moreover have "\<not> t + (if f then min off off' else max off off') \<le> u + off"
      using False 2(3) o o' by (auto simp: min_def max_def DAY_def)
    ultimately show ?thesis by simp
  next
    case True
    let ?f = "u - t < off - off'"
    let ?r = "scan_utc off' ?f ts u"
    have IH: "scan_wall off' ts (snd ?r) (u + fst ?r) = fst ?r"
    proof (rule 2(1) [OF True wf'])
      assume "?f"
      then show "case ts of [] \<Rightarrow> True | (t', _) # _ \<Rightarrow> u + 2 * DAY \<le> t' \<or> t' \<le> u"
        using 2(2) o o' by (auto split: list.splits)
    qed
    have r: "\<bar>fst ?r\<bar> < DAY" using scan_utc_off [OF wf'] .
    have "t + (if snd ?r then min off off' else max off off') \<le> u + fst ?r"
    proof (cases "case ts of [] \<Rightarrow> True | (t', _) # _ \<Rightarrow> u < t'")
      case True': True
      have eq: "?r = (off', ?f)" using scan_utc_before [OF True'] .
      show ?thesis unfolding eq using True o o' by (auto simp: min_def max_def)
    next
      case False
      then have "t + 4 * DAY \<le> u" using 2(2) by (auto split: list.splits)
      then show ?thesis using o o' r by (auto simp: min_def max_def)
    qed
    with True IH show ?thesis by simp
  qed
qed

lemma utc_of_astimezone: "wf_zone z \<Longrightarrow> utc_of z (astimezone z u) = u"
  using scan_roundtrip [of "base_offset z" "transitions z" False u]
  by (simp add: wf_zone_def utc_of_def astimezone_def case_prod_beta)

text \<open>
  Where the wall reads each time once, the order of wall times is the order of instants. A wall
  time is plain when no transition skips it or repeats it.
\<close>

fun plain_wall :: "int \<Rightarrow> (instant \<times> int) list \<Rightarrow> int \<Rightarrow> bool" where
  "plain_wall off [] w = True"
| "plain_wall off ((t, off') # ts) w =
     ((w < t + min off off' \<or> t + max off off' \<le> w) \<and> plain_wall off' ts w)"

definition plain :: "zone \<Rightarrow> int \<Rightarrow> bool" where
  "plain z w = plain_wall (base_offset z) (transitions z) w"

lemma scan_wall_past:
  assumes "wf_trans off ts" and "t + off \<le> w"
    and "case ts of [] \<Rightarrow> True | (t', _) # _ \<Rightarrow> t \<le> t'"
  shows "t \<le> w - scan_wall off ts False w"
  using assms
proof (induction ts arbitrary: off t)
  case Nil
  then show ?case by simp
next
  case (Cons p ts)
  obtain t' off' where p: "p = (t', off')" by force
  show ?case
  proof (cases "t' + max off off' \<le> w")
    case False
    then show ?thesis using Cons.prems p by simp
  next
    case True
    have "t' \<le> w - scan_wall off' ts False w"
      by (rule Cons.IH) (use True p Cons.prems in \<open>auto split: list.splits simp: DAY_def\<close>)
    then show ?thesis using True p Cons.prems by simp
  qed
qed

lemma wall_order_list:
  assumes "wf_trans off ts" and "plain_wall off ts w"
  shows "w - scan_wall off ts False w \<le> u \<longleftrightarrow> w \<le> u + fst (scan_utc off f ts u)"
  using assms
proof (induction off f ts u rule: scan_utc.induct)
  case (1 off f u)
  then show ?case by auto
next
  case (2 off f t off' ts u)
  have o: "\<bar>off\<bar> < DAY" and o': "\<bar>off'\<bar> < DAY" and wf': "wf_trans off' ts"
    using 2(2) wf_trans_off by auto
  let ?r = "scan_utc off' (u - t < off - off') ts u"
  have r: "\<bar>fst ?r\<bar> < DAY" using scan_utc_off [OF wf'] .
  show ?case
  proof (cases "w < t + min off off'")
    case True
    have "t \<le> u \<Longrightarrow> t + off' \<le> u + fst ?r"
    proof (cases "case ts of [] \<Rightarrow> True | (t', _) # _ \<Rightarrow> u < t'")
      case True
      then show "t \<le> u \<Longrightarrow> t + off' \<le> u + fst ?r" by (simp add: scan_utc_before)
    next
      case False
      then have "t + 4 * DAY \<le> u" using 2(2) by (auto split: list.splits)
      then show "t \<le> u \<Longrightarrow> t + off' \<le> u + fst ?r" using o' r by simp
    qed
    then show ?thesis using True by (auto simp: min_def max_def split: if_splits)
  next
    case False
    then have pass: "t + max off off' \<le> w" and pl: "plain_wall off' ts w" using 2(3) by auto
    have "t \<le> w - scan_wall off' ts False w"
      by (rule scan_wall_past)
        (use pass 2(2) o o' in \<open>auto split: list.splits simp: DAY_def\<close>)
    then show ?thesis using pass 2(1) [OF _ wf' pl] by auto
  qed
qed

lemma wall_order:
  "wf_zone z \<Longrightarrow> plain z w \<Longrightarrow>
   utc_of z \<lparr>wall = w, fold_bit = False\<rparr> \<le> u \<longleftrightarrow> w \<le> wall (astimezone z u)"
  using wall_order_list [of "base_offset z" "transitions z" w u False]
  by (simp add: wf_zone_def plain_def utc_of_def astimezone_def case_prod_beta)

section \<open>api/core/time.py\<close>

text \<open>A \<open>datetime\<close> argument with or without a time zone; \<open>None\<close> is the ValueError.\<close>

datatype py_datetime = Naive local_dt | Aware instant

fun to_local :: "py_datetime \<Rightarrow> zone \<Rightarrow> local_dt option" where
  "to_local (Naive l) z = None"
| "to_local (Aware u) z = Some (astimezone z u)"

fun to_utc :: "py_datetime \<Rightarrow> zone \<Rightarrow> instant" where
  "to_utc (Naive l) z = utc_of z l"
| "to_utc (Aware u) z = u"

definition DAY_STARTS_AT :: int where "DAY_STARTS_AT = 5 * HOUR"

definition business_day :: "instant \<Rightarrow> zone \<Rightarrow> int \<Rightarrow> int" where
  "business_day u z day_starts_at =
     (let local = astimezone z u
      in if ltime local < day_starts_at then ldate local - 1 else ldate local)"

definition business_day_bounds_utc :: "int \<Rightarrow> zone \<Rightarrow> int \<Rightarrow> instant \<times> instant" where
  "business_day_bounds_utc day z day_starts_at =
     (utc_of z (combine day day_starts_at), utc_of z (combine (day + 1) day_starts_at))"

lemma business_day_iff_wall:
  assumes "0 \<le> s" "s < DAY"
  shows "business_day u z s = d \<longleftrightarrow>
    d * DAY + s \<le> wall (astimezone z u) \<and> wall (astimezone z u) < (d + 1) * DAY + s"
proof -
  let ?l = "astimezone z u"
  have eq: "wall ?l = ldate ?l * DAY + ltime ?l" by (rule ldate_ltime)
  have r: "0 \<le> ltime ?l" "ltime ?l < DAY" by (simp_all add: ldate_ltime)
  have "business_day u z s = d \<longleftrightarrow> (if ltime ?l < s then ldate ?l = d + 1 else ldate ?l = d)"
    by (auto simp: business_day_def Let_def)
  also have "\<dots> \<longleftrightarrow> d * DAY + s \<le> wall ?l \<and> wall ?l < (d + 1) * DAY + s"
    unfolding eq using r assms unfolding DAY_def by (cases "ltime ?l < s") (simp_all, linarith+)
  finally show ?thesis .
qed

text \<open>The UTC bounds of a business day hold exactly the instants of that business day, also
  across a change of the clock, as long as the clock does not jump over or repeat the minute the
  day begins. An order just before five counts for the evening before.\<close>

theorem business_day_bounds:
  assumes "wf_zone z" and "0 \<le> s" and "s < DAY"
    and "plain z (d * DAY + s)" and "plain z ((d + 1) * DAY + s)"
  shows "business_day u z s = d \<longleftrightarrow>
    fst (business_day_bounds_utc d z s) \<le> u \<and> u < snd (business_day_bounds_utc d z s)"
proof -
  have "fst (business_day_bounds_utc d z s) \<le> u \<longleftrightarrow> d * DAY + s \<le> wall (astimezone z u)"
    using wall_order [OF assms(1,4)] by (simp add: business_day_bounds_utc_def combine_def)
  moreover have "u < snd (business_day_bounds_utc d z s) \<longleftrightarrow>
      wall (astimezone z u) < (d + 1) * DAY + s"
    using wall_order [OF assms(1,5), of u]
    by (simp add: business_day_bounds_utc_def combine_def not_le [symmetric])
  ultimately show ?thesis using business_day_iff_wall [OF assms(2,3)] by simp
qed

text \<open>The business day of 28 March 2026 (day 20540) ends after the clock went forward: it has 23
  hours, and its last microsecond still belongs to it.\<close>

theorem business_day_bounds_witness:
  "business_day_bounds_utc 20540 berlin DAY_STARTS_AT = (1774670400000000, 1774753200000000) \<and>
   business_day 1774753199999999 berlin DAY_STARTS_AT = 20540"
proof -
  have b: "business_day_bounds_utc 20540 berlin DAY_STARTS_AT = (1774670400000000, 1774753200000000)"
    by (simp add: business_day_bounds_utc_def berlin_def utc_of_def DAY_STARTS_AT_def
        HOUR_def DAY_def)
  have s: "0 \<le> DAY_STARTS_AT" "DAY_STARTS_AT < DAY"
    by (simp_all add: DAY_STARTS_AT_def HOUR_def DAY_def)
  have "plain berlin (20540 * DAY + DAY_STARTS_AT)"
    "plain berlin ((20540 + 1) * DAY + DAY_STARTS_AT)"
    by (simp_all add: plain_def berlin_def DAY_STARTS_AT_def HOUR_def DAY_def)
  from business_day_bounds [OF wf_berlin s this, of 1774753199999999] b show ?thesis by simp
qed

text \<open>Storing in UTC loses nothing: an instant shown in the tenant's zone and read back is the
  same instant, in the repeated hour of autumn too, because the wall time carries its fold.\<close>

theorem to_utc_to_local:
  assumes "wf_zone z"
  shows "map_option (utc_of z) (to_local (Aware u) z) = Some u"
  using utc_of_astimezone [OF assms] by simp

text \<open>Half past two on 25 October 2026, the second time.\<close>

theorem to_utc_to_local_witness:
  "astimezone berlin 1792891800000000 = \<lparr>wall = 1792895400000000, fold_bit = True\<rparr> \<and>
   map_option (utc_of berlin) (to_local (Aware 1792891800000000) berlin) = Some 1792891800000000"
  using to_utc_to_local [OF wf_berlin, of 1792891800000000]
  by (simp add: astimezone_def berlin_def HOUR_def)

section \<open>Months\<close>

record ymd =
  ymd_year :: int
  ymd_month :: int
  ymd_day :: int

definition leap_year :: "int \<Rightarrow> bool" where
  "leap_year y \<longleftrightarrow> y mod 4 = 0 \<and> (y mod 100 \<noteq> 0 \<or> y mod 400 = 0)"

text \<open>\<open>calendar.monthrange(year, month)[1]\<close>\<close>

definition month_days :: "int \<Rightarrow> int \<Rightarrow> int" where
  "month_days y m =
     (if m = 2 then (if leap_year y then 29 else 28)
      else if m \<in> {4, 6, 9, 11} then 30 else 31)"

definition valid_ymd :: "ymd \<Rightarrow> bool" where
  "valid_ymd d \<longleftrightarrow> 1 \<le> ymd_year d \<and> ymd_year d \<le> 9999 \<and> 1 \<le> ymd_month d \<and> ymd_month d \<le> 12 \<and>
     1 \<le> ymd_day d \<and> ymd_day d \<le> month_days (ymd_year d) (ymd_month d)"

text \<open>\<open>None\<close> is the ValueError of \<open>date\<close> for a year outside 1..9999.\<close>

definition add_months :: "ymd \<Rightarrow> int \<Rightarrow> ymd option" where
  "add_months d months =
     (let months = months + (ymd_month d - 1);
          y = ymd_year d + months div 12;
          m = months mod 12 + 1
      in if 1 \<le> y \<and> y \<le> 9999
         then Some \<lparr>ymd_year = y, ymd_month = m, ymd_day = min (ymd_day d) (month_days y m)\<rparr> else None)"

lemma month_days_range: "28 \<le> month_days y m \<and> month_days y m \<le> 31"
  by (simp add: month_days_def)

text \<open>A date some months later is a real date, exactly that many months on, on the same day or
  on the last day of a shorter month: a period in months never runs into the month after.\<close>

theorem add_months_exact:
  assumes "valid_ymd d" and "add_months d n = Some e"
  shows "valid_ymd e \<and> 12 * ymd_year e + ymd_month e = 12 * ymd_year d + ymd_month d + n \<and>
    (ymd_day e = ymd_day d \<or> ymd_day e = month_days (ymd_year e) (ymd_month e) \<and> ymd_day e < ymd_day d)"
proof -
  let ?k = "n + (ymd_month d - 1)"
  have e: "e = \<lparr>ymd_year = ymd_year d + ?k div 12, ymd_month = ?k mod 12 + 1,
      ymd_day = min (ymd_day d) (month_days (ymd_year d + ?k div 12) (?k mod 12 + 1))\<rparr>"
    and y: "1 \<le> ymd_year d + ?k div 12" "ymd_year d + ?k div 12 \<le> 9999"
    using assms(2) by (auto simp: add_months_def Let_def split: if_splits)
  have "12 * (?k div 12) + ?k mod 12 = ?k" by simp
  then have "12 * ymd_year e + ymd_month e = 12 * ymd_year d + ymd_month d + n" unfolding e by simp
  moreover have "valid_ymd e"
    using assms(1) y month_days_range [of "ymd_year d + ?k div 12" "?k mod 12 + 1"]
    unfolding e valid_ymd_def by auto
  moreover have "ymd_day e = ymd_day d \<or> ymd_day e = month_days (ymd_year e) (ymd_month e) \<and> ymd_day e < ymd_day d"
    unfolding e by auto
  ultimately show ?thesis by blast
qed

theorem add_months_exact_witness:
  "add_months \<lparr>ymd_year = 2027, ymd_month = 11, ymd_day = 30\<rparr> 3 = Some \<lparr>ymd_year = 2028, ymd_month = 2, ymd_day = 29\<rparr> \<and>
   valid_ymd \<lparr>ymd_year = 2028, ymd_month = 2, ymd_day = 29\<rparr>"
proof -
  have a: "add_months \<lparr>ymd_year = 2027, ymd_month = 11, ymd_day = 30\<rparr> 3 =
      Some \<lparr>ymd_year = 2028, ymd_month = 2, ymd_day = 29\<rparr>"
    by (simp add: add_months_def month_days_def leap_year_def)
  have "valid_ymd \<lparr>ymd_year = 2027, ymd_month = 11, ymd_day = 30\<rparr>"
    by (simp add: valid_ymd_def month_days_def)
  from add_months_exact [OF this a] a show ?thesis by blast
qed


section \<open>The calendar of \<open>datetime.date\<close>\<close>

text \<open>Days before the first of January, the first of a month, and the date of a day and back.\<close>

definition before_year :: "int \<Rightarrow> int" where
  "before_year y = 365 * (y - 1) + (y - 1) div 4 - (y - 1) div 100 + (y - 1) div 400"

fun months_before :: "int \<Rightarrow> nat \<Rightarrow> int" where
  "months_before y 0 = 0"
| "months_before y (Suc m) = months_before y m + month_days y (int m + 1)"

definition date_of_ymd :: "ymd \<Rightarrow> int" where
  "date_of_ymd e = before_year (ymd_year e) + months_before (ymd_year e) (nat (ymd_month e - 1))
     + ymd_day e - 1 - 719162"

text \<open>The month that holds a day of the year (from 0), from month \<open>m\<close> on.\<close>

fun month_scan :: "int \<Rightarrow> nat \<Rightarrow> nat \<Rightarrow> int \<Rightarrow> int \<times> int" where
  "month_scan y 0 m n = (int m, n + 1)"
| "month_scan y (Suc k) m n =
     (if n < month_days y (int m) then (int m, n + 1)
      else month_scan y k (Suc m) (n - month_days y (int m)))"

definition year_of_date :: "int \<Rightarrow> int" where
  "year_of_date d =
     (let n = d + 719162; y = n * 400 div 146097 + 1
      in if n < before_year y then y - 1 else if before_year (y + 1) \<le> n then y + 1 else y)"

definition ymd_of_date :: "int \<Rightarrow> ymd" where
  "ymd_of_date d =
     (let y = year_of_date d; (m, k) = month_scan y 11 1 (d + 719162 - before_year y)
      in \<lparr>ymd_year = y, ymd_month = m, ymd_day = k\<rparr>)"

lemma div_bounds: "0 < (k::int) \<Longrightarrow> k * (n div k) \<le> n \<and> n < k * (n div k) + k"
  using mult_div_mod_eq [of k n] pos_mod_bound [of k n] pos_mod_sign [of k n] by linarith

lemma leap_sum:
  "(r \<Longrightarrow> q) \<Longrightarrow> (q \<Longrightarrow> p) \<Longrightarrow>
   b + 365 + (if p then 1 else 0) - (if q then 1 else 0) + (if r then 1 else 0) =
   b + (if p \<and> (\<not> q \<or> r) then 366 else 365 :: int)"
  by auto

lemma before_year_Suc: "before_year (y + 1) = before_year y + (if leap_year y then 366 else 365)"
  (is "?lhs = ?rhs")
proof -
  have step: "(y - 1) div k + (if y mod k = 0 then 1 else 0) = y div k" if "1 < k" for k :: int
  proof -
    show ?thesis
    proof (cases "y mod k = 0")
      case True
      then have "y - 1 = k * (y div k - 1) + (k - 1)"
        using mult_div_mod_eq [of k y] by (simp add: algebra_simps)
      then have "(y - 1) div k = y div k - 1"
        using that by (intro int_div_pos_eq [of _ _ _ "k - 1"]) auto
      then show ?thesis using True by simp
    next
      case False
      have b: "0 \<le> y mod k" "y mod k < k" using that by simp_all
      have "y - 1 = k * (y div k) + (y mod k - 1)" using mult_div_mod_eq [of k y] by linarith
      then have "(y - 1) div k = y div k"
        using that False b by (intro int_div_pos_eq [of _ _ _ "y mod k - 1"]) auto
      then show ?thesis using False by simp
    qed
  qed
  have s4: "(y - 1) div 4 + (if y mod 4 = 0 then 1 else 0) = y div 4"
    and s100: "(y - 1) div 100 + (if y mod 100 = 0 then 1 else 0) = y div 100"
    and s400: "(y - 1) div 400 + (if y mod 400 = 0 then 1 else 0) = y div 400"
    by (rule step, simp)+
  have c: "y mod 400 = 0 \<Longrightarrow> y mod 100 = 0" "y mod 100 = 0 \<Longrightarrow> y mod 4 = 0" by presburger+
  have "before_year (y + 1) = 365 * y + y div 4 - y div 100 + y div 400" by (simp add: before_year_def)
  also have "\<dots> = before_year y + 365 + (if y mod 4 = 0 then 1 else 0)
      - (if y mod 100 = 0 then 1 else 0) + (if y mod 400 = 0 then 1 else 0)"
    unfolding before_year_def
    by (subst s4 [symmetric], subst s100 [symmetric], subst s400 [symmetric]) (simp only: algebra_simps)
  also have "\<dots> = ?rhs"
    unfolding leap_year_def by (rule leap_sum [OF c])
  finally show ?thesis .
qed

lemma year_of_date:
  "before_year (year_of_date d) \<le> d + 719162 \<and> d + 719162 < before_year (year_of_date d + 1)"
proof -
  define n where "n = d + 719162"
  define y where "y = n * 400 div 146097 + 1"
  have y: "146097 * (y - 1) \<le> n * 400" "n * 400 < 146097 * (y - 1) + 146097"
    using div_bounds [of 146097 "n * 400"] by (simp_all add: y_def)
  have b: "4 * ((y - 1) div 4) \<le> y - 1" "y - 1 < 4 * ((y - 1) div 4) + 4"
    "100 * ((y - 1) div 100) \<le> y - 1" "y - 1 < 100 * ((y - 1) div 100) + 100"
    "400 * ((y - 1) div 400) \<le> y - 1" "y - 1 < 400 * ((y - 1) div 400) + 400"
    using div_bounds [of 4 "y - 1"] div_bounds [of 100 "y - 1"] div_bounds [of 400 "y - 1"]
    by simp_all
  define a4 a100 a400 where "a4 = (y - 1) div 4" and "a100 = (y - 1) div 100"
    and "a400 = (y - 1) div 400"
  note defs = a4_def [symmetric] a100_def [symmetric] a400_def [symmetric]
  note bs = b [unfolded defs]
  have yr: "before_year y = 365 * (y - 1) + a4 - a100 + a400" by (simp add: before_year_def defs)
  have "400 * before_year y \<le> 400 * (n + 3)" using y bs unfolding yr by (simp add: algebra_simps)
  then have low: "before_year y \<le> n + 3" by simp
  have "400 * n < 400 * (before_year y + 369)" using y bs unfolding yr by (simp add: algebra_simps)
  then have high: "n < before_year y + 369" by simp
  have s: "before_year y + 365 \<le> before_year (y + 1)" "before_year (y + 1) \<le> before_year y + 366"
    "before_year (y + 1) + 365 \<le> before_year (y + 1 + 1)"
    "before_year (y - 1) + 365 \<le> before_year y"
    using before_year_Suc [of y] before_year_Suc [of "y + 1"] before_year_Suc [of "y - 1"]
    by (auto split: if_splits)
  have e: "year_of_date d =
      (if n < before_year y then y - 1 else if before_year (y + 1) \<le> n then y + 1 else y)"
    by (simp add: year_of_date_def n_def y_def Let_def)
  show ?thesis unfolding e n_def [symmetric]
  proof (cases "n < before_year y")
    case True
    then show "before_year (if n < before_year y then y - 1 else if before_year (y + 1) \<le> n
        then y + 1 else y) \<le> n \<and> n < before_year ((if n < before_year y then y - 1 else if
        before_year (y + 1) \<le> n then y + 1 else y) + 1)" using s low by simp
  next
    case False
    then show "before_year (if n < before_year y then y - 1 else if before_year (y + 1) \<le> n
        then y + 1 else y) \<le> n \<and> n < before_year ((if n < before_year y then y - 1 else if
        before_year (y + 1) \<le> n then y + 1 else y) + 1)" using s high by auto
  qed
qed

lemma months_before_12: "months_before y 12 = (if leap_year y then 366 else 365)"
  by (simp add: eval_nat_numeral month_days_def)

lemma month_scan:
  assumes "0 \<le> n" and "n < months_before y (k + m) - months_before y (m - 1)" and "0 < m"
  shows "case month_scan y k m n of (mo, dy) \<Rightarrow>
     int m \<le> mo \<and> mo \<le> int (m + k) \<and> 1 \<le> dy \<and> dy \<le> month_days y mo \<and>
     months_before y (nat (mo - 1)) + dy - 1 = months_before y (m - 1) + n"
  using assms
proof (induction k arbitrary: m n)
  case 0
  then obtain j where m: "m = Suc j" by (cases m) auto
  have "months_before y m = months_before y (m - 1) + month_days y (int m)"
    by (simp add: m add.commute)
  moreover have "nat (int m - 1) = m - 1" using 0 by simp
  ultimately show ?case using 0 by simp
next
  case (Suc k)
  obtain j where m: "m = Suc j" using Suc.prems by (cases m) auto
  show ?case
  proof (cases "n < month_days y (int m)")
    case True
    have "nat (int m - 1) = m - 1" using Suc.prems by simp
    then show ?thesis using Suc.prems(1) True by (simp add: m add.commute)
  next
    case False
    have "case month_scan y k (Suc m) (n - month_days y (int m)) of (mo, dy) \<Rightarrow>
        int (Suc m) \<le> mo \<and> mo \<le> int (Suc m + k) \<and> 1 \<le> dy \<and> dy \<le> month_days y mo \<and>
        months_before y (nat (mo - 1)) + dy - 1
          = months_before y (Suc m - 1) + (n - month_days y (int m))"
      by (rule Suc.IH) (use False Suc.prems in \<open>simp_all add: m add.commute\<close>)
    then show ?thesis using False by (auto simp: m add.commute split: prod.splits)
  qed
qed

text \<open>Every day has its date: valid in the years \<open>datetime\<close> knows, and the day it came from.\<close>

lemma ymd_of_date:
  "date_of_ymd (ymd_of_date d) = d \<and> 1 \<le> ymd_month (ymd_of_date d) \<and> ymd_month (ymd_of_date d) \<le> 12 \<and>
   1 \<le> ymd_day (ymd_of_date d) \<and>
   ymd_day (ymd_of_date d) \<le> month_days (ymd_year (ymd_of_date d)) (ymd_month (ymd_of_date d))"
proof -
  let ?y = "year_of_date d" and ?n = "d + 719162 - before_year (year_of_date d)"
  obtain mo dy where r: "month_scan ?y 11 (Suc 0) ?n = (mo, dy)" by force
  have "0 \<le> ?n" "?n < months_before ?y 12"
    using year_of_date [of d] before_year_Suc [of ?y] by (auto simp: months_before_12)
  then have "int 1 \<le> mo \<and> mo \<le> int (1 + 11) \<and> 1 \<le> dy \<and> dy \<le> month_days ?y mo \<and>
      months_before ?y (nat (mo - 1)) + dy - 1 = months_before ?y (1 - 1) + ?n"
    using month_scan [of ?n ?y 11 1] by (simp add: r)
  then show ?thesis by (simp add: ymd_of_date_def r Let_def date_of_ymd_def)
qed

end
