(* ===== verification/PyStr.thy ===== *)
theory PyStr
  imports Prelude
begin

text \<open>
  What the code uses of Python's strings: \<open>strip\<close>, \<open>split\<close>, \<open>join\<close>, \<open>casefold\<close>, \<open>startswith\<close>,
  \<open>str\<close> of an integer. Strings are Latin-1, see \<open>Prelude\<close>.
\<close>

section \<open>Whitespace\<close>

text \<open>The whitespace of \<open>str.isspace\<close> among the Latin-1 code points.\<close>

definition py_space :: "char \<Rightarrow> bool" where
  "py_space c \<longleftrightarrow> (let n = (of_char c :: nat)
     in 9 \<le> n \<and> n \<le> 13 \<or> 28 \<le> n \<and> n \<le> 32 \<or> n = 133 \<or> n = 160)"

definition py_strip :: "str \<Rightarrow> str" where
  "py_strip s = rev (dropWhile py_space (rev (dropWhile py_space s)))"

text \<open>\<open>s.split()\<close>: the runs of other characters; \<open>cur\<close> is the run read so far, reversed.\<close>

fun split_run :: "str \<Rightarrow> str \<Rightarrow> str list" where
  "split_run cur [] = (if cur = [] then [] else [rev cur])"
| "split_run cur (c # cs) =
     (if py_space c then (if cur = [] then split_run [] cs else rev cur # split_run [] cs)
      else split_run (c # cur) cs)"

definition py_split :: "str \<Rightarrow> str list" where
  "py_split s = split_run [] s"

fun py_join :: "str \<Rightarrow> str list \<Rightarrow> str" where
  "py_join sep [] = ''''"
| "py_join sep [x] = x"
| "py_join sep (x # y # xs) = x @ sep @ py_join sep (y # xs)"

definition py_startswith :: "str \<Rightarrow> str \<Rightarrow> bool" where
  "py_startswith s p \<longleftrightarrow> take (length p) s = p"

lemma py_strip_space_only: "py_strip s = [] \<longleftrightarrow> (\<forall>c \<in> set s. py_space c)"
proof -
  have "py_strip s = [] \<longleftrightarrow> (\<forall>c \<in> set (dropWhile py_space s). py_space c)"
    by (simp add: py_strip_def dropWhile_eq_Nil_conv)
  also have "\<dots> \<longleftrightarrow> (\<forall>c \<in> set s. py_space c)"
    by (metis dropWhile_eq_Nil_conv hd_dropWhile hd_in_set list.set(1) empty_iff)
  finally show ?thesis .
qed

section \<open>Case\<close>

text \<open>\<open>str.casefold\<close> on Latin-1: capitals to small letters and sharp s to "ss". (The micro sign,
  which folds to a Greek letter outside Latin-1, stays as it is: no other character folds to it.)\<close>

definition casefold_char :: "char \<Rightarrow> str" where
  "casefold_char c =
     (let n = (of_char c :: nat)
      in if 65 \<le> n \<and> n \<le> 90 \<or> 192 \<le> n \<and> n \<le> 222 \<and> n \<noteq> 215 then [char_of (n + 32)]
         else if n = 223 then ''ss'' else [c])"

definition casefold :: "str \<Rightarrow> str" where
  "casefold s = concat (map casefold_char s)"

section \<open>Numbers\<close>

text \<open>\<open>str(n)\<close> of a non-negative integer, and of any.\<close>

definition digit_char :: "nat \<Rightarrow> char" where
  "digit_char d = char_of (48 + d)"

fun str_nat :: "nat \<Rightarrow> str" where
  "str_nat n = (if n < 10 then [digit_char n] else str_nat (n div 10) @ [digit_char (n mod 10)])"

declare str_nat.simps [simp del]

definition str_int :: "int \<Rightarrow> str" where
  "str_int n = (if n < 0 then CHR ''-'' # str_nat (nat (- n)) else str_nat (nat n))"

definition is_digit :: "char \<Rightarrow> bool" where
  "is_digit c \<longleftrightarrow> 48 \<le> (of_char c :: nat) \<and> (of_char c :: nat) \<le> 57"

lemma of_digit_char [simp]: "d < 10 \<Longrightarrow> (of_char (digit_char d) :: nat) = 48 + d"
  by (simp add: digit_char_def)

lemma is_digit_digit_char [simp]: "d < 10 \<Longrightarrow> is_digit (digit_char d)"
  by (simp add: is_digit_def)

lemma digit_char_inject: "d < 10 \<Longrightarrow> e < 10 \<Longrightarrow> digit_char d = digit_char e \<Longrightarrow> d = e"
  by (metis add_left_cancel of_digit_char)

lemma str_nat_digits: "\<forall>c \<in> set (str_nat n). is_digit c"
proof (induction n rule: str_nat.induct)
  case (1 n)
  then show ?case by (subst str_nat.simps) auto
qed

lemma str_nat_nonempty [simp]: "str_nat n \<noteq> []" "[] \<noteq> str_nat n"
  by (subst str_nat.simps, simp)+

lemma str_nat_inject: "str_nat m = str_nat n \<Longrightarrow> m = n"
proof (induction m arbitrary: n rule: str_nat.induct)
  case (1 m)
  show ?case
  proof (cases "m < 10 \<or> n < 10")
    case True
    then show ?thesis
      using 1(2) str_nat.simps [of m] str_nat.simps [of n]
      by (auto split: if_splits intro: digit_char_inject)
  next
    case False
    then have m: "str_nat m = str_nat (m div 10) @ [digit_char (m mod 10)]"
      and n: "str_nat n = str_nat (n div 10) @ [digit_char (n mod 10)]"
      by (subst str_nat.simps, simp)+
    from 1(2) have "str_nat (m div 10) = str_nat (n div 10)"
      and d: "digit_char (m mod 10) = digit_char (n mod 10)"
      unfolding m n by auto
    then have "m div 10 = n div 10" using 1(1) False by simp
    moreover have "m mod 10 = n mod 10" using digit_char_inject [OF _ _ d] by simp
    ultimately show ?thesis by (metis div_mult_mod_eq)
  qed
qed

lemma str_int_inject: "0 \<le> m \<Longrightarrow> 0 \<le> n \<Longrightarrow> str_int m = str_int n \<Longrightarrow> m = n"
  using str_nat_inject [of "nat m" "nat n"] by (simp add: str_int_def)

lemma str_int_digits: "0 \<le> n \<Longrightarrow> \<forall>c \<in> set (str_int n). is_digit c"
  by (simp add: str_int_def str_nat_digits)

lemma str_int_nonempty [simp]: "str_int n \<noteq> []"
  by (simp add: str_int_def)


text \<open>\<open>f"{n:02d}"\<close> of a non-negative integer.\<close>

definition two_digits :: "int \<Rightarrow> str" where
  "two_digits n = (if n < 10 then CHR ''0'' # str_int n else str_int n)"

text \<open>\<open>str.upper\<close>; the capitals of the micro sign and of y with diaeresis lie outside Latin-1 and stay as they are.\<close>

definition upper :: "str \<Rightarrow> str" where
  "upper s = concat (map (\<lambda>c. let n = (of_char c :: nat) in
     if 97 \<le> n \<and> n \<le> 122 \<or> 224 \<le> n \<and> n \<le> 254 \<and> n \<noteq> 247 then [char_of (n - 32)]
     else if n = 223 then ''SS'' else [c]) s)"

text \<open>Where a separator that the front part does not contain splits a text.\<close>

lemma split_at_sep:
  assumes "c \<notin> set xs" and "c \<notin> set ys" and "xs @ c # s = ys @ c # t"
  shows "xs = ys \<and> s = t"
  using assms
proof (induction xs arbitrary: ys)
  case Nil
  then show ?case by (cases ys) auto
next
  case (Cons x xs)
  then show ?case by (cases ys) auto
qed

lemma no_space_digits: "\<forall>c \<in> set s. is_digit c \<Longrightarrow> CHR '' '' \<notin> set s"
  by (auto simp: is_digit_def)

end
