(* ===== verification/Store.thy ===== *)
theory Store
  imports PyTime PyStr
begin

text \<open>
  The tables of \<open>api/models/\<close> as records and lists of rows, the JSON of their \<open>JSONB\<close> columns,
  and the errors of \<open>api/core/errors.py\<close>. An enumeration that a CHECK constraint fixes is a
  datatype. \<open>db\<close> is one PostgreSQL database as a transaction sees it; \<open>tx_now\<close> is its
  \<open>now()\<close>, and \<open>next_id\<close> stands for \<open>gen_random_uuid()\<close>: a key no row uses. Every operation of
  the development is one transaction (the code serialises them by row and advisory locks); an
  operation that raises leaves the database as it was.
\<close>

section \<open>Errors\<close>

datatype err_kind =
  InvalidInput | NotFound | Ambiguous | Closed | OutOfZone | BelowMinimum | Conflict
  | TeamDecides | WindowFull | ServiceUnavailable | Unauthorized | UncaughtError

text \<open>The message is for the log and not modelled; \<open>say\<close> is what the guest hears. \<open>UncaughtError\<close>
  stands for an exception that is no \<open>AppError\<close> (a ValueError, a KeyError).\<close>

record app_error =
  err_kind :: err_kind
  err_say :: "str option"

definition raise_err :: "err_kind \<Rightarrow> str option \<Rightarrow> app_error + 'a" where
  "raise_err k say = Inl \<lparr>err_kind = k, err_say = say\<rparr>"

lemma raise_err_not_Inr [simp]: "raise_err k say \<noteq> Inr x" "Inr x \<noteq> raise_err k say"
  by (simp_all add: raise_err_def)

definition err_code :: "err_kind \<Rightarrow> str" where
  "err_code k = (case k of
     InvalidInput \<Rightarrow> ''invalid_input'' | NotFound \<Rightarrow> ''not_found'' | Ambiguous \<Rightarrow> ''ambiguous''
   | Closed \<Rightarrow> ''closed'' | OutOfZone \<Rightarrow> ''out_of_zone'' | BelowMinimum \<Rightarrow> ''below_minimum''
   | Conflict \<Rightarrow> ''conflict'' | TeamDecides \<Rightarrow> ''conflict'' | WindowFull \<Rightarrow> ''conflict''
   | ServiceUnavailable \<Rightarrow> ''service_unavailable'' | Unauthorized \<Rightarrow> ''invalid_input''
   | UncaughtError \<Rightarrow> ''service_unavailable'')"

definition err_status :: "err_kind \<Rightarrow> int" where
  "err_status k = (if k = Unauthorized then 401 else 200)"

definition SAY_ON_FAILURE :: str where
  "SAY_ON_FAILURE = ''Bei mir gibt es gerade eine technische St'' @ [oe] @
     ''rung. Ich verbinde Sie mit dem Restaurant.''"

section \<open>JSON\<close>

text \<open>\<open>JId\<close> is the text of a primary key and \<open>JTime\<close> the ISO text of an instant: strings that the
  code only compares, and reads back with \<open>UUID\<close> and \<open>fromisoformat\<close>.\<close>

datatype json = JNull | JBool bool | JInt int | JStr str | JId uuid | JTime instant
  | JList "json list" | JObj "(str \<times> json) list"

fun jget :: "str \<Rightarrow> json \<Rightarrow> json option" where
  "jget k (JObj kvs) = map_of kvs k"
| "jget k _ = None"

definition jopt :: "('a \<Rightarrow> json) \<Rightarrow> 'a option \<Rightarrow> json" where
  "jopt f x = (case x of None \<Rightarrow> JNull | Some v \<Rightarrow> f v)"

lemma jopt_simps [simp]: "jopt f None = JNull" "jopt f (Some v) = f v"
  by (simp_all add: jopt_def)

section \<open>api/models/tenants.py\<close>

datatype call_mode = Shadow | Overflow | Primary | Paused
datatype service = Dinein | Pickup | Delivery
datatype special_status = SetDay | Suggested | Dismissed

record tenant =
  t_id :: uuid
  t_name :: str
  t_timezone :: zone

record service_config =
  sc_tenant_id :: uuid
  call_mode :: call_mode
  delivery_enabled :: bool
  pickup_enabled :: bool
  reservations_enabled :: bool
  pickup_wait_standard_minutes :: int
  delivery_wait_standard_minutes :: int
  pickup_wait_today_minutes :: "int option"
  pickup_wait_today_until :: "instant option"
  delivery_wait_today_minutes :: "int option"
  delivery_wait_today_until :: "instant option"
  team_phone :: str
  max_call_seconds :: int
  reservation_lead_minutes :: int
  reservation_last_start_minutes :: int
  reservation_max_days_ahead :: int
  reservation_max_party_size :: int
  reservation_max_party_size_same_day :: int
  order_approval_above_cents :: int
  turn_deadline_seconds :: int
  order_approval_overdue_minutes :: int
  overflow_needs_approval :: bool
  privacy_notice_address :: "str option"
  max_concurrent_calls :: int
  call_mode_chosen_at :: "instant option"
  holiday_region :: "str option"

record bridge_heartbeat =
  hb_tenant_id :: uuid
  seen_at :: instant

record call_limit_window =
  lw_tenant_id :: uuid
  lw_weekday :: int
  lw_starts_at :: int
  lw_ends_at :: int
  max_calls :: int

record call_mode_window =
  mw_tenant_id :: uuid
  mw_weekday :: int
  mw_starts_at :: int
  mw_ends_at :: int
  mw_call_mode :: call_mode

record opening_hours =
  oh_tenant_id :: uuid
  oh_weekday :: int
  opens_at :: int
  closes_at :: int
  oh_service :: service

record special_day =
  sd_tenant_id :: uuid
  sd_date :: int
  sd_closed :: bool
  sd_opens_at :: "int option"
  sd_closes_at :: "int option"
  sd_note :: "str option"
  sd_status :: special_status
  like_weekday :: "int option"

record capacity =
  cap_tenant_id :: uuid
  cap_weekday :: int
  slot_start :: int
  slot_end :: int
  cap_max_guests :: int
  cap_slot_minutes :: int
  cap_notice_minutes :: int

text \<open>The CHECK constraints of these tables.\<close>

definition HOLIDAY_REGIONS :: "str list" where
  "HOLIDAY_REGIONS = [''BB'', ''BE'', ''BW'', ''BY'', ''HB'', ''HE'', ''HH'', ''MV'',
     ''NI'', ''NW'', ''RP'', ''SH'', ''SL'', ''SN'', ''ST'', ''TH'']"

definition service_config_check :: "service_config \<Rightarrow> bool" where
  "service_config_check c \<longleftrightarrow>
     (pickup_wait_today_minutes c = None \<longleftrightarrow> pickup_wait_today_until c = None) \<and>
     (delivery_wait_today_minutes c = None \<longleftrightarrow> delivery_wait_today_until c = None) \<and>
     0 \<le> reservation_lead_minutes c \<and> 0 \<le> reservation_last_start_minutes c \<and>
     0 \<le> reservation_max_days_ahead c \<and> 0 \<le> reservation_max_party_size c \<and>
     0 \<le> reservation_max_party_size_same_day c \<and> 0 \<le> order_approval_above_cents c \<and>
     1 \<le> turn_deadline_seconds c \<and> 1 \<le> order_approval_overdue_minutes c \<and>
     1 \<le> max_concurrent_calls c \<and>
     (case privacy_notice_address c of None \<Rightarrow> True | Some a \<Rightarrow> \<exists>x \<in> set a. \<not> py_space x) \<and>
     (case holiday_region c of None \<Rightarrow> True | Some r \<Rightarrow> r \<in> set HOLIDAY_REGIONS)"

definition limit_window_check :: "call_limit_window \<Rightarrow> bool" where
  "limit_window_check w \<longleftrightarrow> 0 \<le> lw_weekday w \<and> lw_weekday w \<le> 6 \<and>
     lw_starts_at w < lw_ends_at w \<and> 1 \<le> max_calls w"

definition mode_window_check :: "call_mode_window \<Rightarrow> bool" where
  "mode_window_check w \<longleftrightarrow> 0 \<le> mw_weekday w \<and> mw_weekday w \<le> 6 \<and>
     mw_starts_at w < mw_ends_at w \<and> mw_call_mode w \<noteq> Paused"

definition opening_hours_check :: "opening_hours \<Rightarrow> bool" where
  "opening_hours_check r \<longleftrightarrow> 0 \<le> oh_weekday r \<and> oh_weekday r \<le> 6"

definition special_day_check :: "special_day \<Rightarrow> bool" where
  "special_day_check r \<longleftrightarrow>
     (case like_weekday r of None \<Rightarrow> True
      | Some w \<Rightarrow> 0 \<le> w \<and> w \<le> 6 \<and> \<not> sd_closed r \<and> sd_opens_at r = None \<and> sd_closes_at r = None)"

definition capacity_check :: "capacity \<Rightarrow> bool" where
  "capacity_check r \<longleftrightarrow> 0 \<le> cap_weekday r \<and> cap_weekday r \<le> 6 \<and> 0 < cap_slot_minutes r \<and>
     0 \<le> cap_max_guests r \<and> 0 \<le> cap_notice_minutes r"

section \<open>api/models/calls.py\<close>

datatype intent = IReservation | IPickup | IDelivery | IInfo | IComplaint | IUnknown
datatype outcome = Completed | Transferred | OCallback | Abandoned | OError
datatype callback_reason = Complaint | NotUnderstood | HumanRequested | OutOfScope
datatype callback_status = OpenCb | DoneCb

text \<open>An entry of \<open>calls.tool_calls\<close>, as far as the domain reads it.\<close>

record tool_call =
  tc_name :: str
  tc_ok :: bool
  tc_error_code :: "str option"

record call =
  c_id :: uuid
  c_tenant_id :: uuid
  external_session_id :: str
  caller_id :: "str option"
  started_at :: instant
  ended_at :: "instant option"
  duration_seconds :: "int option"
  c_intent :: "intent option"
  c_outcome :: "outcome option"
  transfer_reason :: "str option"
  cost_cents :: "int option"
  c_model :: "str option"
  tool_calls :: "tool_call list"
  delete_after :: int

record callback =
  cb_id :: uuid
  cb_tenant_id :: uuid
  cb_call_id :: uuid
  cb_phone :: str
  cb_reason :: callback_reason
  cb_summary :: str
  cb_status :: callback_status
  done_by :: "str option"
  done_at :: "instant option"
  cb_created_at :: instant
  cb_deleted_at :: "instant option"

section \<open>api/models/reservations.py\<close>

datatype reservation_status = RDraft | RConfirmed | RCancelled
datatype reservation_source = SAgent | STablet

record reservation =
  r_id :: uuid
  r_tenant_id :: uuid
  r_call_id :: "uuid option"
  r_source :: reservation_source
  r_status :: reservation_status
  guest_name :: str
  r_phone :: str
  r_booked_on_own_line :: bool
  party_size :: int
  reserved_for :: instant
  r_note :: "str option"
  r_idempotency_key :: str
  r_created_at :: instant
  r_deleted_at :: "instant option"

record reservation_table =
  rt_tenant_id :: uuid
  rt_reservation_id :: uuid
  rt_table_id :: uuid

definition reservation_check :: "reservation \<Rightarrow> bool" where
  "reservation_check r \<longleftrightarrow> (r_source r = SAgent \<longleftrightarrow> r_call_id r \<noteq> None) \<and> 0 < party_size r"

section \<open>api/models/floor_plan.py\<close>

text \<open>Of the floor plan, the columns a booking reads.\<close>

record dining_table =
  dt_id :: uuid
  dt_tenant_id :: uuid
  dt_name :: str
  dt_deleted_at :: "instant option"

record table_combination =
  tcb_tenant_id :: uuid
  table_a_id :: uuid
  table_b_id :: uuid

section \<open>api/models/menu.py\<close>

record menu_item =
  m_id :: uuid
  m_tenant_id :: uuid
  m_number :: str
  m_name :: str
  category :: str
  price_cents :: cents
  active :: bool
  sold_out_until :: "instant option"
  description :: "str option"
  pos_code :: "str option"
  register_price_cents :: "cents option"
  register_price_rejected :: bool

record item_option =
  io_id :: uuid
  io_menu_item_id :: uuid
  group_name :: str
  option_name :: str
  price_delta_cents :: cents
  is_default :: bool
  required :: bool
  price_reason :: "str option"

definition menu_item_check :: "menu_item \<Rightarrow> bool" where
  "menu_item_check m \<longleftrightarrow> 0 \<le> price_cents m \<and>
     (case register_price_cents m of None \<Rightarrow> \<not> register_price_rejected m | Some p \<Rightarrow> 0 \<le> p)"

section \<open>api/models/customers.py\<close>

record delivery_zone =
  z_id :: uuid
  z_tenant_id :: uuid
  z_name :: str
  z_by_postal_code :: bool
  postal_codes :: "str list"
  z_fee_cents :: cents
  z_min_order_cents :: cents
  z_eta_minutes :: int
  z_active :: bool

record customer =
  cu_id :: uuid
  cu_tenant_id :: uuid
  cu_phone :: str
  cu_name :: str
  last_order_at :: "instant option"
  last_contact_at :: instant
  order_count :: int
  blocked :: bool
  cu_created_at :: instant

record address =
  a_id :: uuid
  a_tenant_id :: uuid
  a_customer_id :: uuid
  street :: str
  house_number :: str
  postal_code :: str
  city :: str
  floor_note :: "str option"
  a_zone_id :: "uuid option"
  a_is_default :: bool

record recognition_objection =
  ro_tenant_id :: uuid
  ro_phone :: str

section \<open>api/models/orders.py\<close>

datatype order_type = OPickup | ODelivery
datatype order_status = ODraft | OConfirmed | OApproved | OHandedOver | OCancelled

text \<open>The three values of \<open>orders.handover_state\<close> and of \<open>outbox.status\<close>.\<close>

datatype delivery_state = PENDING | SENT | FAILED

text \<open>An entry of the JSON list \<open>order_items.options\<close>.\<close>

record chosen_option =
  co_group :: str
  co_option :: str
  co_price_delta_cents :: cents

record order =
  o_id :: uuid
  o_tenant_id :: uuid
  o_call_id :: uuid
  o_type :: order_type
  o_status :: order_status
  o_customer_id :: "uuid option"
  o_address_id :: "uuid option"
  o_phone :: str
  o_booked_on_own_line :: bool
  customer_name :: str
  items_total_cents :: cents
  delivery_fee_cents :: cents
  total_cents :: cents
  ready_at :: "instant option"
  o_note :: "str option"
  o_idempotency_key :: str
  pickup_code :: "str option"
  handover_state :: "delivery_state option"
  register_entered_at :: "instant option"
  o_created_at :: instant
  o_deleted_at :: "instant option"

record order_item =
  oi_id :: uuid
  oi_tenant_id :: uuid
  oi_order_id :: uuid
  oi_menu_item_id :: uuid
  quantity :: int
  unit_price_cents :: cents
  oi_options :: "chosen_option list"
  oi_note :: "str option"
  oi_created_at :: instant

definition order_check :: "order \<Rightarrow> bool" where
  "order_check r \<longleftrightarrow> 0 \<le> items_total_cents r \<and> 0 \<le> delivery_fee_cents r \<and>
     total_cents r = items_total_cents r + delivery_fee_cents r \<and>
     (o_address_id r = None \<or> o_type r = ODelivery)"

definition order_item_check :: "order_item \<Rightarrow> bool" where
  "order_item_check r \<longleftrightarrow> 0 < quantity r \<and> 0 \<le> unit_price_cents r"

section \<open>api/models/outbox.py, api/models/audit.py\<close>

record outbox_event =
  ev_id :: uuid
  ev_tenant_id :: uuid
  event_type :: str
  ev_payload :: json
  ev_status :: delivery_state
  attempts :: nat
  next_attempt_at :: instant
  last_error :: "str option"
  sent_at :: "instant option"
  ev_created_at :: instant

record audit_log =
  au_tenant_id :: uuid
  au_at :: instant
  actor :: str
  action :: str
  au_entity :: str
  entity_id :: "uuid option"
  au_payload :: json

section \<open>The database\<close>

record db =
  tenants :: "tenant list"
  service_configs :: "service_config list"
  heartbeats :: "bridge_heartbeat list"
  call_limit_windows :: "call_limit_window list"
  call_mode_windows :: "call_mode_window list"
  opening_hours_rows :: "opening_hours list"
  special_days :: "special_day list"
  capacities :: "capacity list"
  calls :: "call list"
  callbacks :: "callback list"
  reservations :: "reservation list"
  reservation_tables :: "reservation_table list"
  dining_tables :: "dining_table list"
  table_combinations :: "table_combination list"
  menu_items :: "menu_item list"
  item_options :: "item_option list"
  delivery_zones :: "delivery_zone list"
  customers :: "customer list"
  addresses :: "address list"
  objections :: "recognition_objection list"
  orders :: "order list"
  order_items :: "order_item list"
  outbox :: "outbox_event list"
  audit :: "audit_log list"
  tx_now :: instant
  next_id :: uuid

text \<open>\<open>session.get(Model, key)\<close>\<close>

definition get_tenant :: "db \<Rightarrow> uuid \<Rightarrow> tenant option" where
  "get_tenant d i = find (\<lambda>t. t_id t = i) (tenants d)"

definition get_config :: "db \<Rightarrow> uuid \<Rightarrow> service_config option" where
  "get_config d i = find (\<lambda>c. sc_tenant_id c = i) (service_configs d)"

definition get_call :: "db \<Rightarrow> uuid \<Rightarrow> call option" where
  "get_call d i = find (\<lambda>c. c_id c = i) (calls d)"

definition get_order :: "db \<Rightarrow> uuid \<Rightarrow> order option" where
  "get_order d i = find (\<lambda>r. o_id r = i) (orders d)"

definition get_reservation :: "db \<Rightarrow> uuid \<Rightarrow> reservation option" where
  "get_reservation d i = find (\<lambda>r. r_id r = i) (reservations d)"

definition get_address :: "db \<Rightarrow> uuid \<Rightarrow> address option" where
  "get_address d i = find (\<lambda>r. a_id r = i) (addresses d)"

text \<open>\<open>session.add(AuditLog(...))\<close>: \<open>at\<close> is the database's clock.\<close>

definition add_audit :: "uuid \<Rightarrow> str \<Rightarrow> str \<Rightarrow> str \<Rightarrow> uuid \<Rightarrow> json \<Rightarrow> db \<Rightarrow> db" where
  "add_audit tid who what ent eid payload d =
     d\<lparr>audit := audit d @ [\<lparr>au_tenant_id = tid, au_at = tx_now d, actor = who, action = what,
        au_entity = ent, entity_id = Some eid, au_payload = payload\<rparr>]\<rparr>"

text \<open>Attribute writes on a loaded row.\<close>

definition set_order :: "uuid \<Rightarrow> (order \<Rightarrow> order) \<Rightarrow> db \<Rightarrow> db" where
  "set_order i f d = d\<lparr>orders := upd_rows (\<lambda>r. o_id r = i) f (orders d)\<rparr>"

definition set_event :: "uuid \<Rightarrow> (outbox_event \<Rightarrow> outbox_event) \<Rightarrow> db \<Rightarrow> db" where
  "set_event i f d = d\<lparr>outbox := upd_rows (\<lambda>e. ev_id e = i) f (outbox d)\<rparr>"

definition set_reservation :: "uuid \<Rightarrow> (reservation \<Rightarrow> reservation) \<Rightarrow> db \<Rightarrow> db" where
  "set_reservation i f d = d\<lparr>reservations := upd_rows (\<lambda>r. r_id r = i) f (reservations d)\<rparr>"

text \<open>A database without rows, for examples.\<close>

definition empty_db :: db where
  "empty_db = \<lparr>tenants = [], service_configs = [], heartbeats = [], call_limit_windows = [],
     call_mode_windows = [], opening_hours_rows = [], special_days = [], capacities = [],
     calls = [], callbacks = [], reservations = [], reservation_tables = [], dining_tables = [],
     table_combinations = [], menu_items = [], item_options = [], delivery_zones = [],
     customers = [], addresses = [], objections = [], orders = [], order_items = [],
     outbox = [], audit = [], tx_now = 0, next_id = 1\<rparr>"

end
