(* ===== verification/Customers.thy ===== *)
theory Customers
  imports Store
begin

text \<open>
  Who a number is: telephone numbers in E.164 (\<open>api/domain/customers/phone.py\<close>), the folding of
  names (\<open>fold\<close> of \<open>api/domain/menu/numberwords.py\<close>), the recognition of a customer on the line of
  the call (\<open>lookup.py\<close>) and what a contact does to a customer (\<open>note_contact\<close> of \<open>contact.py\<close>).
\<close>

section \<open>api/domain/customers/phone.py\<close>

definition DEFAULT_COUNTRY_CODE :: str where "DEFAULT_COUNTRY_CODE = ''49''"

definition SAY_INVALID_PHONE :: str where
  "SAY_INVALID_PHONE = ''Die Rufnummer habe ich nicht verstanden. K'' @ [oe] @
     ''nnen Sie sie noch einmal sagen?''"

definition E164 :: "str \<Rightarrow> bool" where
  "E164 s = (case s of
     c # d # ds \<Rightarrow> c = CHR ''+'' \<and> is_digit d \<and> d \<noteq> CHR ''0'' \<and> 6 \<le> length ds \<and> length ds \<le> 14 \<and>
       list_all is_digit ds
   | _ \<Rightarrow> False)"

text \<open>\<open>TRUNK_IN_BRACKETS\<close>: what follows a \<open>\(\s*0\s*\)\<close> whose opening bracket was just read.\<close>

definition bracket_end :: "str \<Rightarrow> str option" where
  "bracket_end cs = (case dropWhile py_space cs of
     [] \<Rightarrow> None
   | c # r \<Rightarrow> if c \<noteq> CHR ''0'' then None
       else case dropWhile py_space r of [] \<Rightarrow> None | c' # r' \<Rightarrow> if c' = CHR '')'' then Some r' else None)"

lemma bracket_end_length:
  assumes "bracket_end cs = Some r"
  shows "length r < length cs"
proof -
  obtain c x c' where "dropWhile py_space cs = c # x" "dropWhile py_space x = c' # r"
    using assms by (auto simp: bracket_end_def split: list.splits if_splits)
  then show ?thesis
    using length_dropWhile_le [of py_space cs] length_dropWhile_le [of py_space x] by simp
qed

function trunk_sub :: "str \<Rightarrow> str \<Rightarrow> str" where
  "trunk_sub repl [] = []"
| "trunk_sub repl (c # cs) =
     (case (if c = CHR ''('' then bracket_end cs else None) of
        Some rest \<Rightarrow> repl @ trunk_sub repl rest
      | None \<Rightarrow> c # trunk_sub repl cs)"
  by pat_completeness auto
termination
  by (relation "measure (\<lambda>(_, s). length s)")
    (auto split: if_splits dest: bracket_end_length)

definition phone_noise :: "char \<Rightarrow> bool" where
  "phone_noise c \<longleftrightarrow> py_space c \<or> c \<in> {CHR ''-'', CHR ''/'', CHR ''('', CHR '')'', CHR ''.''}"

definition phone_digits :: "str \<Rightarrow> str \<Rightarrow> str" where
  "phone_digits cc digits =
     (if py_startswith digits ''00'' then CHR ''+'' # drop 2 digits
      else if py_startswith digits ''0'' then CHR ''+'' # cc @ drop 1 digits
      else if digits \<noteq> [] \<and> \<not> py_startswith digits ''+'' then CHR ''+'' # digits
      else digits)"

definition normalize_phone :: "str \<Rightarrow> str \<Rightarrow> app_error + str" where
  "normalize_phone cc raw =
     (let text = py_strip raw;
          international = py_startswith text ''+'' \<or> py_startswith text ''00'';
          text = trunk_sub (if international then '''' else ''0'') text;
          digits = phone_digits cc (filter (\<lambda>c. \<not> phone_noise c) text)
      in if \<not> E164 digits then raise_err InvalidInput (Some SAY_INVALID_PHONE) else Inr digits)"

definition number_or_none :: "str option \<Rightarrow> str option" where
  "number_or_none raw =
     (case raw of None \<Rightarrow> None
      | Some s \<Rightarrow> if s = [] then None
          else case normalize_phone DEFAULT_COUNTRY_CODE s of Inr p \<Rightarrow> Some p | Inl _ \<Rightarrow> None)"

subsection \<open>What normalisation gives\<close>

lemma py_strip_ends: "\<not> py_space (hd s) \<Longrightarrow> \<not> py_space (last s) \<Longrightarrow> py_strip s = s"
  by (cases "s = []") (simp_all add: py_strip_def dropWhile_eq_self_iff [THEN iffD2] hd_rev)

lemma py_strip_id: "\<forall>c \<in> set s. \<not> py_space c \<Longrightarrow> py_strip s = s"
  by (cases "s = []") (simp_all add: py_strip_ends py_strip_def [of "[]"])

lemma trunk_sub_id: "CHR ''('' \<notin> set s \<Longrightarrow> trunk_sub repl s = s"
  by (induction s) auto

lemma digit_facts:
  "is_digit c \<Longrightarrow> \<not> py_space c \<and> \<not> phone_noise c \<and> c \<noteq> CHR ''('' \<and> c \<noteq> CHR ''+''"
  by (auto simp: is_digit_def py_space_def phone_noise_def)

lemma plus_facts: "\<not> py_space (CHR ''+'')" "\<not> phone_noise (CHR ''+'')"
  by (simp_all add: py_space_def phone_noise_def)

text \<open>A text of digits with at most a plus in front passes the cleaning unchanged.\<close>

lemma normalize_clean:
  assumes "\<forall>c \<in> set s. is_digit c \<or> c = CHR ''+''"
  shows "normalize_phone cc s = (let digits = phone_digits cc s in
    if \<not> E164 digits then raise_err InvalidInput (Some SAY_INVALID_PHONE) else Inr digits)"
proof -
  have c: "\<not> py_space c \<and> \<not> phone_noise c \<and> c \<noteq> CHR ''(''" if "c \<in> set s" for c
    using that assms digit_facts [of c] plus_facts by auto
  then have "py_strip s = s" by (simp add: py_strip_id)
  moreover have "trunk_sub r s = s" for r using c by (intro trunk_sub_id) auto
  moreover have "filter (\<lambda>c. \<not> phone_noise c) s = s" using c by (simp add: filter_id_conv)
  ultimately show ?thesis by (simp add: normalize_phone_def Let_def)
qed

lemma E164_clean: "E164 p \<Longrightarrow> \<forall>c \<in> set p. is_digit c \<or> c = CHR ''+''"
  by (auto simp: E164_def list_all_iff split: list.splits)

lemma E164_plus: "E164 p \<Longrightarrow> phone_digits cc p = p"
  by (auto simp: E164_def phone_digits_def py_startswith_def split: list.splits)

lemma normalize_E164: "E164 p \<Longrightarrow> normalize_phone cc p = Inr p"
  by (simp add: normalize_clean E164_clean E164_plus)

text \<open>C40. A number that is accepted is one in E.164, and normalising it again, with whatever country
  code, gives itself: what the tables hold and what a later comparison computes are the same
  text.\<close>

theorem normalize_phone_key:
  assumes "normalize_phone cc raw = Inr p"
  shows "E164 p \<and> normalize_phone cc' p = Inr p \<and> number_or_none (Some p) = Some p"
proof -
  have p: "E164 p" using assms by (auto simp: normalize_phone_def Let_def split: if_splits)
  then have "p \<noteq> []" by (auto simp: E164_def)
  then show ?thesis using p normalize_E164 by (simp add: number_or_none_def)
qed

text \<open>A number of Baden-Baden, dictated with slash, blanks and dashes.\<close>

definition example_dictated :: str where "example_dictated = '' 07221 / 555-1234''"

theorem normalize_phone_key_witness:
  "normalize_phone ''49'' example_dictated = Inr ''+4972215551234'' \<and>
   E164 ''+4972215551234'' \<and> normalize_phone ''41'' ''+4972215551234'' = Inr ''+4972215551234''"
proof -
  have r: "normalize_phone ''49'' example_dictated = Inr ''+4972215551234''" by code_simp
  from normalize_phone_key [OF r, of "''41''"] r show ?thesis by simp
qed

text \<open>The German ways to write a number, national, with 00, with the plus and with the zero in
  brackets, all give the same key.\<close>

lemma phone_spellings:
  assumes "list_all is_digit ds" and "ds = d # ds'" and "d \<noteq> CHR ''0''"
    and "5 \<le> length ds" and "length ds \<le> 13"
  shows "\<forall>s \<in> {''0'' @ ds, ''0049'' @ ds, ''+49'' @ ds, ''+49 (0) '' @ ds, ''(0)'' @ ds}.
    normalize_phone DEFAULT_COUNTRY_CODE s = Inr (''+49'' @ ds)"
proof -
  have e: "E164 (''+49'' @ ds)" using assms by (simp add: E164_def is_digit_def)
  have dig: "\<forall>c \<in> set ds. is_digit c" using assms(1) by (simp add: list_all_iff)
  have c: "\<not> py_space c \<and> \<not> phone_noise c \<and> c \<noteq> CHR ''(''" if "c \<in> set ds" for c
    using that dig digit_facts by blast
  have t: "trunk_sub r ds = ds" for r using c by (intro trunk_sub_id) auto
  have f: "filter (\<lambda>c. \<not> phone_noise c) ds = ds" using c by (simp add: filter_id_conv)
  have l: "py_strip (x # s @ ds) = x # s @ ds" if "\<not> py_space x" for x s
    using that c [of "last ds"] assms(2) by (intro py_strip_ends) simp_all
  have be: "bracket_end (CHR ''0'' # CHR '')'' # s) = Some s" for s
    by (simp add: bracket_end_def py_space_def)
  note sp = l [of "CHR ''+''"] l [of "CHR ''(''"]
  have 1: "normalize_phone DEFAULT_COUNTRY_CODE (''0'' @ ds) = Inr (''+49'' @ ds)"
    using dig e assms(2,3)
    by (subst normalize_clean)
      (auto simp: phone_digits_def py_startswith_def DEFAULT_COUNTRY_CODE_def is_digit_def)
  have 2: "normalize_phone DEFAULT_COUNTRY_CODE (''0049'' @ ds) = Inr (''+49'' @ ds)"
    using dig e
    by (subst normalize_clean) (auto simp: phone_digits_def py_startswith_def is_digit_def)
  have 3: "normalize_phone DEFAULT_COUNTRY_CODE (''+49 (0) '' @ ds) = Inr (''+49'' @ ds)"
    using e sp(1) [of "''49 (0) ''"] t f be
    by (simp add: normalize_phone_def py_startswith_def phone_digits_def phone_noise_def py_space_def)
  have 4: "normalize_phone DEFAULT_COUNTRY_CODE (''(0)'' @ ds) = Inr (''+49'' @ ds)"
    using e sp(2) [of "''0)''"] t f be assms(2,3)
    by (simp add: normalize_phone_def py_startswith_def phone_digits_def phone_noise_def py_space_def
        DEFAULT_COUNTRY_CODE_def)
  show ?thesis using 1 2 3 4 normalize_E164 [OF e] by simp
qed

section \<open>fold of api/domain/menu/numberwords.py\<close>

text \<open>\<open>str.lower\<close> on Latin-1, then the umlauts in two letters.\<close>

definition lower_char :: "char \<Rightarrow> char" where
  "lower_char c =
     (let n = (of_char c :: nat)
      in if 65 \<le> n \<and> n \<le> 90 \<or> 192 \<le> n \<and> n \<le> 222 \<and> n \<noteq> 215 then char_of (n + 32) else c)"

definition umlaut :: "char \<Rightarrow> str" where
  "umlaut c = (if c = ae then ''ae'' else if c = oe then ''oe'' else if c = ue then ''ue''
     else if c = sz then ''ss'' else [c])"

definition fold_name :: "str \<Rightarrow> str" where
  "fold_name s = concat (map (\<lambda>c. umlaut (lower_char c)) s)"

section \<open>api/domain/customers/lookup.py\<close>

definition SAY_SAME_ADDRESS :: str where
  "SAY_SAME_ADDRESS = ''An dieselbe Adresse wie beim letzten Mal?''"

record customer_match =
  cm_found :: bool
  cm_customer_id :: "uuid option"
  cm_address_id :: "uuid option"
  cm_say :: "str option"

definition not_found_match :: customer_match where
  "not_found_match = \<lparr>cm_found = False, cm_customer_id = None, cm_address_id = None, cm_say = None\<rparr>"

definition objected :: "db \<Rightarrow> uuid \<Rightarrow> str \<Rightarrow> bool" where
  "objected d tid phone \<longleftrightarrow> list_ex (\<lambda>x. ro_tenant_id x = tid \<and> ro_phone x = phone) (objections d)"

definition line_of :: "db \<Rightarrow> uuid \<Rightarrow> uuid \<Rightarrow> str option" where
  "line_of d tid cid =
     (case get_call d cid of None \<Rightarrow> None
      | Some c \<Rightarrow> if c_tenant_id c \<noteq> tid then None else number_or_none (caller_id c))"

definition someone :: "uuid \<Rightarrow> str \<Rightarrow> customer \<Rightarrow> bool" where
  "someone tid phone c \<longleftrightarrow> cu_tenant_id c = tid \<and> cu_phone c = phone \<and> (order_count c > 0 \<or> blocked c)"

definition find_customer :: "db \<Rightarrow> uuid \<Rightarrow> str \<Rightarrow> str option \<Rightarrow> app_error + customer_match" where
  "find_customer d tid caller name =
     andthen (normalize_phone DEFAULT_COUNTRY_CODE caller) (\<lambda>phone.
       if objected d tid phone then Inr not_found_match
       else let cs = filter (someone tid phone) (customers d);
                cs = (case name of None \<Rightarrow> cs
                      | Some n \<Rightarrow> filter (\<lambda>c. fold_name (cu_name c) = fold_name (py_strip n)) cs)
            in case cs of
                 [c] \<Rightarrow> if blocked c then Inr not_found_match
                   else let aid = map_option a_id (find (\<lambda>a. a_customer_id a = cu_id c \<and> a_is_default a) (addresses d))
                        in Inr \<lparr>cm_found = True, cm_customer_id = Some (cu_id c), cm_address_id = aid,
                                cm_say = (if aid = None then None else Some SAY_SAME_ADDRESS)\<rparr>
               | _ \<Rightarrow> Inr not_found_match)"

definition recognize :: "db \<Rightarrow> uuid \<Rightarrow> uuid \<Rightarrow> str option \<Rightarrow> app_error + customer_match" where
  "recognize d tid cid name =
     (case line_of d tid cid of None \<Rightarrow> Inr not_found_match
      | Some line \<Rightarrow> find_customer d tid line name)"

section \<open>api/domain/customers/contact.py\<close>

definition note_contact :: "uuid \<Rightarrow> uuid \<Rightarrow> str \<Rightarrow> instant \<Rightarrow> str option \<Rightarrow> db \<Rightarrow> db" where
  "note_contact tid cid phone at name d =
     (if Some phone \<noteq> line_of d tid cid \<or> objected d tid phone then d
      else d\<lparr>customers := upd_rows
             (\<lambda>c. someone tid phone c \<and>
                  (case name of None \<Rightarrow> True | Some n \<Rightarrow> fold_name (cu_name c) = fold_name n))
             (\<lambda>c. c\<lparr>last_contact_at := at\<rparr>) (customers d)\<rparr>)"

definition note_order :: "order \<Rightarrow> instant \<Rightarrow> db \<Rightarrow> db" where
  "note_order r at d =
     (case o_customer_id r of
        None \<Rightarrow> note_contact (o_tenant_id r) (o_call_id r) (o_phone r) at (Some (customer_name r)) d
      | Some cu \<Rightarrow>
          if Some (o_phone r) \<noteq> line_of d (o_tenant_id r) (o_call_id r) then d
          else d\<lparr>customers := upd_rows (\<lambda>c. cu_id c = cu)
                 (\<lambda>c. c\<lparr>last_contact_at := at, last_order_at := Some at, order_count := order_count c + 1\<rparr>)
                 (customers d)\<rparr>)"

section \<open>Nobody is guessed\<close>

lemma number_or_none_E164: "number_or_none raw = Some p \<Longrightarrow> E164 p"
  by (auto simp: number_or_none_def normalize_phone_def Let_def split: option.splits if_splits sum.splits)

lemma line_of_E164: "line_of d tid cid = Some p \<Longrightarrow> E164 p"
  by (auto simp: line_of_def dest: number_or_none_E164 split: option.splits if_splits)

text \<open>C37. Whoever is recognised is a customer of this tenant on the line the call came from, not
  blocked, with an order counted and no objection on the number, and nobody else on the number
  answers to the name that was said.\<close>

theorem recognize_never_guesses:
  assumes "recognize d tid cid name = Inr m" and "cm_found m"
  shows "\<exists>c \<in> set (customers d). cm_customer_id m = Some (cu_id c) \<and> cu_tenant_id c = tid \<and>
    line_of d tid cid = Some (cu_phone c) \<and> \<not> blocked c \<and> 0 < order_count c \<and>
    \<not> objected d tid (cu_phone c) \<and>
    (\<forall>c' \<in> set (customers d). someone tid (cu_phone c) c' \<and>
       (case name of None \<Rightarrow> True | Some n \<Rightarrow> fold_name (cu_name c') = fold_name (py_strip n)) \<longrightarrow> c' = c)"
proof -
  let ?ok = "\<lambda>c. case name of None \<Rightarrow> True | Some n \<Rightarrow> fold_name (cu_name c) = fold_name (py_strip n)"
  obtain line where line: "line_of d tid cid = Some line"
    using assms by (auto simp: recognize_def not_found_match_def split: option.splits)
  have "normalize_phone DEFAULT_COUNTRY_CODE line = Inr line"
    using normalize_E164 [OF line_of_E164 [OF line]] .
  moreover have "(case name of None \<Rightarrow> xs
      | Some n \<Rightarrow> filter (\<lambda>c. fold_name (cu_name c) = fold_name (py_strip n)) xs) = filter ?ok xs" for xs
    by (simp split: option.splits)
  ultimately obtain c where obj: "\<not> objected d tid line" and b: "\<not> blocked c"
    and id: "cm_customer_id m = Some (cu_id c)"
    and cs: "filter ?ok (filter (someone tid line) (customers d)) = [c]"
    using assms line
    by (auto simp: recognize_def find_customer_def Let_def not_found_match_def
        split: option.splits if_splits list.splits)
  have mem: "x = c \<longleftrightarrow> x \<in> set (customers d) \<and> someone tid line x \<and> ?ok x" for x
    using arg_cong [OF cs, of set] by auto
  then have c: "c \<in> set (customers d)" "someone tid line c" by blast+
  then show ?thesis using obj b id line mem by (intro bexI [of _ c]) (auto simp: someone_def)
qed

text \<open>Two names on one line: the family and, without an order counted, a stranger.\<close>

definition family_db :: db where
  "family_db = empty_db\<lparr>
     calls := [\<lparr>c_id = 3, c_tenant_id = 7, external_session_id = ''s'', caller_id = Some ''07221 5551234'',
       started_at = 0, ended_at = None, duration_seconds = None, c_intent = None, c_outcome = None,
       transfer_reason = None, cost_cents = None, c_model = None, tool_calls = [], delete_after = 0\<rparr>],
     customers := [
       \<lparr>cu_id = 11, cu_tenant_id = 7, cu_phone = ''+4972215551234'', cu_name = ''Bauer'',
        last_order_at = Some 0, last_contact_at = 0, order_count = 2, blocked = False,
        cu_created_at = 0\<rparr>,
       \<lparr>cu_id = 12, cu_tenant_id = 7, cu_phone = ''+4972215551234'', cu_name = ''Kraus'',
        last_order_at = None, last_contact_at = 0, order_count = 0, blocked = False,
        cu_created_at = 0\<rparr>],
     addresses := [\<lparr>a_id = 21, a_tenant_id = 7, a_customer_id = 11, street = ''Lange Str.'',
        house_number = ''1'', postal_code = ''76530'', city = ''Baden-Baden'', floor_note = None,
        a_zone_id = None, a_is_default = True\<rparr>]\<rparr>"

theorem recognize_never_guesses_witness:
  "line_of family_db 7 3 = Some ''+4972215551234'' \<and>
   (\<exists>c \<in> set (customers family_db). cu_id c = 11 \<and> cu_tenant_id c = 7 \<and> 0 < order_count c)"
proof -
  have r: "recognize family_db 7 3 None = Inr \<lparr>cm_found = True, cm_customer_id = Some 11,
    cm_address_id = Some 21, cm_say = Some SAY_SAME_ADDRESS\<rparr>" by code_simp
  have l: "line_of family_db 7 3 = Some ''+4972215551234''" by code_simp
  from recognize_never_guesses [OF r] show ?thesis using l by force
qed

text \<open>A contact touches the customers only.\<close>

lemma note_contact_frame [simp]:
  "tenants (note_contact tid cid p at n d) = tenants d"
  "service_configs (note_contact tid cid p at n d) = service_configs d"
  "special_days (note_contact tid cid p at n d) = special_days d"
  "capacities (note_contact tid cid p at n d) = capacities d"
  "calls (note_contact tid cid p at n d) = calls d"
  "reservations (note_contact tid cid p at n d) = reservations d"
  "reservation_tables (note_contact tid cid p at n d) = reservation_tables d"
  "dining_tables (note_contact tid cid p at n d) = dining_tables d"
  "orders (note_contact tid cid p at n d) = orders d"
  "order_items (note_contact tid cid p at n d) = order_items d"
  "addresses (note_contact tid cid p at n d) = addresses d"
  "delivery_zones (note_contact tid cid p at n d) = delivery_zones d"
  "outbox (note_contact tid cid p at n d) = outbox d"
  "audit (note_contact tid cid p at n d) = audit d"
  "tx_now (note_contact tid cid p at n d) = tx_now d"
  "next_id (note_contact tid cid p at n d) = next_id d"
  by (simp_all add: note_contact_def)

end
