(* ===== verification/Spoken.thy ===== *)
theory Spoken
  imports Store
begin

text \<open>
  What the agent says: times and numbers as one says them on the telephone
  (\<open>api/domain/reservations/spoken.py\<close>) and the sentence that reads an order back
  (\<open>api/domain/ordering/readback.py\<close>).
\<close>

section \<open>api/domain/reservations/spoken.py\<close>

definition HOURS :: "str list" where
  "HOURS = [''ein'', ''zwei'', ''drei'', ''vier'', ''f'' @ [ue] @ ''nf'', ''sechs'', ''sieben'',
     ''acht'', ''neun'', ''zehn'', ''elf'', ''zw'' @ [oe] @ ''lf'']"

text \<open>\<open>hour24 % 12 or 12\<close>; \<open>HOURS\<close> is a dict from 1 to 12.\<close>

definition hour_word :: "int \<Rightarrow> bool \<Rightarrow> str" where
  "hour_word hour24 standalone =
     (let h = (if hour24 mod 12 = 0 then 12 else hour24 mod 12)
      in if h = 1 \<and> standalone then ''eins'' else HOURS ! nat (h - 1))"

definition WEEKDAYS :: "str list" where
  "WEEKDAYS = [''Montag'', ''Dienstag'', ''Mittwoch'', ''Donnerstag'', ''Freitag'', ''Samstag'',
     ''Sonntag'']"

definition MONTHS :: "str list" where
  "MONTHS = [''Januar'', ''Februar'', ''M'' @ [ae] @ ''rz'', ''April'', ''Mai'', ''Juni'', ''Juli'',
     ''August'', ''September'', ''Oktober'', ''November'', ''Dezember'']"

definition COUNTS :: "str list" where
  "COUNTS = [''eine'', ''zwei'', ''drei'', ''vier'', ''f'' @ [ue] @ ''nf'', ''sechs'', ''sieben'',
     ''acht'', ''neun'', ''zehn'', ''elf'', ''zw'' @ [oe] @ ''lf'']"

definition count_word :: "int \<Rightarrow> str option" where
  "count_word n = (if 1 \<le> n \<and> n \<le> 12 then Some (COUNTS ! nat (n - 1)) else None)"

definition spoken_date :: "local_dt \<Rightarrow> int option \<Rightarrow> str" where
  "spoken_date dt today =
     (let d = ldate dt
      in if today = Some d then ''heute''
         else if (case today of None \<Rightarrow> False | Some t \<Rightarrow> d = t + 1) then ''morgen''
         else ''am '' @ WEEKDAYS ! nat (weekday d) @ '', den '' @ str_int (ymd_day (ymd_of_date d)) @
              ''. '' @ MONTHS ! nat (ymd_month (ymd_of_date d) - 1))"

definition spoken_party_size :: "int \<Rightarrow> str" where
  "spoken_party_size n =
     (if n = 1 then ''eine Person''
      else (case count_word n of Some w \<Rightarrow> w | None \<Rightarrow> str_int n) @ '' Personen'')"

definition hour_of :: "local_dt \<Rightarrow> int" where "hour_of dt = ltime dt div HOUR"
definition minute_of :: "local_dt \<Rightarrow> int" where "minute_of dt = ltime dt div MINUTE mod 60"

definition spoken_hm :: "int \<Rightarrow> int \<Rightarrow> str" where
  "spoken_hm hour minute =
     (if minute = 0 then hour_word hour False @ '' Uhr''
      else if minute = 30 then ''halb '' @ hour_word (hour + 1) True
      else if minute = 15 then ''viertel nach '' @ hour_word hour True
      else if minute = 45 then ''viertel vor '' @ hour_word (hour + 1) True
      else str_int hour @ '' Uhr '' @ str_int minute)"

definition spoken_time :: "local_dt \<Rightarrow> str" where
  "spoken_time dt = spoken_hm (hour_of dt) (minute_of dt)"

definition spoken_daytime :: "local_dt \<Rightarrow> str" where
  "spoken_daytime dt =
     (let hour = hour_of dt;
          daytime = (if 5 \<le> hour \<and> hour < 11 then ''morgens''
                     else if 11 \<le> hour \<and> hour < 14 then ''mittags''
                     else if 14 \<le> hour \<and> hour < 17 then ''nachmittags''
                     else if 17 \<le> hour \<and> hour < 23 then ''abends'' else ''nachts'')
      in daytime @ '' um '' @ (if minute_of dt = 0 then hour_word hour True else spoken_time dt))"

text \<open>\<open>strftime("%H:%M")\<close>, and the minutes and the clock of \<open>_clock\<close> in \<open>status/service.py\<close>.\<close>

definition strftime_hm :: "local_dt \<Rightarrow> str" where
  "strftime_hm dt = two_digits (hour_of dt) @ '':'' @ two_digits (minute_of dt)"

lemma hour_range: "0 \<le> hour_of dt \<and> hour_of dt < 24"
proof -
  have "0 \<le> ltime dt" "ltime dt < 24 * 3600000000" using ldate_ltime(2,3) [of dt] by (simp_all add: DAY_def)
  with div_bounds [of 3600000000 "ltime dt"]
  have "3600000000 * (ltime dt div 3600000000) < 3600000000 * 24"
    "0 < 3600000000 * (ltime dt div 3600000000) + 3600000000" by linarith+
  then show ?thesis by (simp add: hour_of_def HOUR_def)
qed

lemma minute_range: "0 \<le> minute_of dt \<and> minute_of dt < 60"
  by (simp add: minute_of_def)

section \<open>api/domain/ordering/readback.py\<close>

definition SAME_ADDRESS :: str where
  "SAME_ADDRESS = ''an dieselbe Adresse wie beim letzten Mal''"

record spoken_line =
  sp_number :: str
  sp_name :: str
  sp_quantity :: int
  sp_options :: "chosen_option list"
  sp_note :: "str option"

text \<open>\<open>_count\<close>\<close>

definition count_of :: "int \<Rightarrow> str" where
  "count_of n = (if n = 1 then ''ein'' else str_int n)"

definition spoken_euro :: "cents \<Rightarrow> str" where
  "spoken_euro c =
     (let euros = c div 100; rest = c mod 100
      in if rest = 0 then count_of euros @ '' Euro''
         else if euros = 0 then count_of rest @ '' Cent''
         else if rest \<ge> 10 then count_of euros @ '' Euro '' @ str_int rest
         else count_of euros @ '' Euro '' @ count_of rest @ '' Cent'')"

definition spoken_times :: "int \<Rightarrow> str" where
  "spoken_times n =
     (if n = 1 then ''einmal''
      else case count_word n of Some w \<Rightarrow> w @ ''mal'' | None \<Rightarrow> str_int n @ '' mal'')"

text \<open>\<open>str.capitalize\<close> on these words: the first letter, the rest is small already.\<close>

definition capitalize :: "str \<Rightarrow> str" where
  "capitalize s = (case s of [] \<Rightarrow> []
     | c # cs \<Rightarrow> (let n = (of_char c :: nat)
                 in if 97 \<le> n \<and> n \<le> 122 then char_of (n - 32) else c) # cs)"

definition spoken_line_text :: "spoken_line \<Rightarrow> str" where
  "spoken_line_text l =
     capitalize (spoken_times (sp_quantity l)) @ '' Nummer '' @ sp_number l @ '' '' @ sp_name l @
     (if sp_options l = [] then []
      else '' mit '' @ py_join '' und '' (map co_option (sp_options l))) @
     (case sp_note l of None \<Rightarrow> [] | Some n \<Rightarrow> (if n = [] then [] else '', '' @ n)) @ ''.''"

definition spoken_address :: "address \<Rightarrow> str" where
  "spoken_address a =
     ''an die Adresse '' @ street a @ '' '' @ house_number a @ '', '' @ postal_code a @ '' '' @ city a @
     (case floor_note a of None \<Rightarrow> [] | Some n \<Rightarrow> (if n = [] then [] else '', '' @ n))"

definition readback :: "order \<Rightarrow> spoken_line list \<Rightarrow> address option \<Rightarrow> bool \<Rightarrow> str" where
  "readback ord ls addr name_heard =
     py_join '' '' (map spoken_line_text ls) @
     (case o_note ord of None \<Rightarrow> []
      | Some n \<Rightarrow> (if n = [] then [] else '' F'' @ [ue] @ ''r die ganze Bestellung: '' @ n @ ''.'')) @
     '' Macht '' @ spoken_euro (total_cents ord) @
     (if delivery_fee_cents ord \<noteq> 0
      then '' inklusive '' @ spoken_euro (delivery_fee_cents ord) @ '' Liefergeb'' @ [ue] @ ''hr'' else []) @
     (case ready_at ord of None \<Rightarrow> []
      | Some r \<Rightarrow>
          (let minutes = str_int ((r - o_created_at ord) div MINUTE)
           in if o_type ord = ODelivery
              then '', Lieferung in etwa '' @ minutes @ '' Minuten '' @
                   (case addr of Some a \<Rightarrow> spoken_address a | None \<Rightarrow> SAME_ADDRESS)
              else '', abholbereit in etwa '' @ minutes @ '' Minuten'')) @
     (if name_heard then '', auf den Namen '' @ customer_name ord else []) @
     ''. Passt das so?''"

section \<open>No two prices sound alike\<close>

lemma count_of_no_space: "0 \<le> n \<Longrightarrow> CHR '' '' \<notin> set (count_of n)"
  using str_int_digits [of n] by (auto simp: count_of_def dest: no_space_digits)

lemma str_int_no_space: "0 \<le> n \<Longrightarrow> CHR '' '' \<notin> set (str_int n)"
  using str_int_digits [of n] no_space_digits by blast

lemma str_int_not_ein: "0 \<le> n \<Longrightarrow> str_int n \<noteq> ''ein''"
  using str_int_digits [of n] by (auto simp: is_digit_def)

lemma count_of_inject: "0 \<le> m \<Longrightarrow> 0 \<le> n \<Longrightarrow> count_of m = count_of n \<Longrightarrow> m = n"
  using str_int_not_ein str_int_inject by (auto simp: count_of_def split: if_splits)

text \<open>The tail after the first number: "Euro", "Cent", "Euro 30" or "Euro 5 Cent".\<close>

definition euro_head :: "cents \<Rightarrow> int" where
  "euro_head c = (if c mod 100 \<noteq> 0 \<and> c div 100 = 0 then c mod 100 else c div 100)"

definition euro_tail :: "cents \<Rightarrow> str" where
  "euro_tail c =
     (if c mod 100 = 0 then ''Euro'' else if c div 100 = 0 then ''Cent''
      else if c mod 100 \<ge> 10 then ''Euro '' @ str_int (c mod 100)
      else ''Euro '' @ count_of (c mod 100) @ '' Cent'')"

lemma spoken_euro_parts: "spoken_euro c = count_of (euro_head c) @ CHR '' '' # euro_tail c"
  by (auto simp: spoken_euro_def euro_head_def euro_tail_def Let_def)

definition only_cents :: "cents \<Rightarrow> bool" where
  "only_cents c \<longleftrightarrow> c mod 100 \<noteq> 0 \<and> c div 100 = 0"

lemma euro_tail_inject:
  assumes "euro_tail a = euro_tail b"
  shows "only_cents a = only_cents b \<and> (only_cents a \<or> a mod 100 = b mod 100)"
proof -
  have sep: "str_int i \<noteq> count_of j @ '' Cent''" if "0 \<le> i" for i j
  proof
    assume "str_int i = count_of j @ '' Cent''"
    then have "CHR '' '' \<in> set (str_int i)" by simp
    with str_int_no_space [OF that] show False by blast
  qed
  have inj: "0 \<le> a mod 100" "0 \<le> b mod 100" by simp_all
  note s = sep [OF inj(1)] sep [OF inj(2)] sep [OF inj(1), symmetric] sep [OF inj(2), symmetric]
  show ?thesis
    using assms str_int_inject [OF inj] count_of_inject [OF inj]
    by (simp add: euro_tail_def only_cents_def s split: if_split_asm)
qed

text \<open>No two sums sound alike: the price the guest hears names exactly one number of cents.\<close>

theorem spoken_euro_unique:
  assumes "0 \<le> a" and "0 \<le> b" and "spoken_euro a = spoken_euro b"
  shows "a = b"
proof -
  have h: "0 \<le> euro_head a" "0 \<le> euro_head b" 
    using assms(1,2) by (simp_all add: euro_head_def pos_imp_zdiv_nonneg_iff)
  from split_at_sep [OF count_of_no_space [OF h(1)] count_of_no_space [OF h(2)]] assms(3)
  have "count_of (euro_head a) = count_of (euro_head b)" and t: "euro_tail a = euro_tail b"
    by (simp_all add: spoken_euro_parts)
  then have eq: "euro_head a = euro_head b" using count_of_inject h by blast
  have "a div 100 = b div 100 \<and> a mod 100 = b mod 100"
    using euro_tail_inject [OF t] eq by (auto simp: euro_head_def only_cents_def split: if_splits)
  then show ?thesis by (metis div_mult_mod_eq)
qed

theorem spoken_euro_unique_witness:
  "spoken_euro 1705 = ''17 Euro 5 Cent'' \<and> spoken_euro 1750 = ''17 Euro 50'' \<and>
   spoken_euro 1705 \<noteq> spoken_euro 1750"
proof -
  have "spoken_euro 1705 = ''17 Euro 5 Cent''" "spoken_euro 1750 = ''17 Euro 50''" by code_simp+
  moreover have "spoken_euro 1705 \<noteq> spoken_euro 1750"
    using spoken_euro_unique [of 1705 1750] by auto
  ultimately show ?thesis by blast
qed

end
