(* ===== verification/Hours.thy ===== *)
theory Hours
  imports Spoken
begin

text \<open>
  When the restaurant is open: \<open>api/domain/status/hours.py\<close>. A window is a pair of local
  datetimes \<open>[opens, closes)\<close> in the zone of the tenant; the code compares them with the local
  time of the same zone, so the wall clock decides and the fold does not.
\<close>

section \<open>api/domain/status/hours.py\<close>

type_synonym window = "local_dt \<times> local_dt"

definition LOOKAHEAD_DAYS :: nat where "LOOKAHEAD_DAYS = 14"

record hours_data =
  regular :: "opening_hours list"
  special :: "int \<Rightarrow> special_day option"

definition load_hours :: "db \<Rightarrow> uuid \<Rightarrow> int \<Rightarrow> nat \<Rightarrow> hours_data" where
  "load_hours d tid start days =
     \<lparr>regular = filter (\<lambda>r. oh_tenant_id r = tid) (opening_hours_rows d),
      special = map_of (rev (map (\<lambda>r. (sd_date r, r))
        (filter (\<lambda>r. sd_tenant_id r = tid \<and> sd_status r = SetDay \<and>
                     start - 1 \<le> sd_date r \<and> sd_date r \<le> start + int days) (special_days d))))\<rparr>"

text \<open>\<open>_window\<close>\<close>

definition window_of :: "int \<Rightarrow> int \<Rightarrow> int \<Rightarrow> window" where
  "window_of d opens closes =
     (combine d opens, combine (if closes \<le> opens then d + 1 else d) closes)"

text \<open>\<open>sorted\<close> of the pairs: by the opening, then by the closing.\<close>

definition sort_windows :: "window list \<Rightarrow> window list" where
  "sort_windows ws = sort_key (\<lambda>w. wall (fst w)) (sort_key (\<lambda>w. wall (snd w)) ws)"

definition weekday_windows :: "hours_data \<Rightarrow> int \<Rightarrow> int \<Rightarrow> service \<Rightarrow> window list" where
  "weekday_windows data d wd s =
     sort_windows (map (\<lambda>r. window_of d (opens_at r) (closes_at r))
       (filter (\<lambda>r. oh_service r = s \<and> oh_weekday r = wd) (regular data)))"

definition windows_for_day :: "hours_data \<Rightarrow> int \<Rightarrow> service \<Rightarrow> window list" where
  "windows_for_day data d s =
     (case special data d of
        None \<Rightarrow> weekday_windows data d (weekday d) s
      | Some sp \<Rightarrow>
          if sd_closed sp then []
          else case (sd_opens_at sp, sd_closes_at sp) of
            (Some opn, Some cls) \<Rightarrow> [window_of d opn cls]
          | _ \<Rightarrow> weekday_windows data d
                 (case like_weekday sp of Some w \<Rightarrow> w | None \<Rightarrow> weekday d) s)"

definition window_holds :: "window \<Rightarrow> int \<Rightarrow> bool" where
  "window_holds w t \<longleftrightarrow> wall (fst w) \<le> t \<and> t < wall (snd w)"

text \<open>Of the day before and of today the first window that holds.\<close>

definition open_window_at :: "hours_data \<Rightarrow> instant \<Rightarrow> service \<Rightarrow> zone \<Rightarrow> window option" where
  "open_window_at data now s z =
     (let l = astimezone z now
      in case find (\<lambda>w. window_holds w (wall l)) (windows_for_day data (ldate l - 1) s) of
           Some w \<Rightarrow> Some w
         | None \<Rightarrow> find (\<lambda>w. window_holds w (wall l)) (windows_for_day data (ldate l) s))"

definition openings_after ::
  "hours_data \<Rightarrow> service list \<Rightarrow> int \<Rightarrow> int \<Rightarrow> local_dt list" where
  "openings_after data ss t d =
     concat (map (\<lambda>s. map fst (filter (\<lambda>w. t < wall (fst w)) (windows_for_day data d s))) ss)"

text \<open>\<open>n\<close> more days to look at, from day \<open>d\<close> on.\<close>

fun first_opening ::
  "hours_data \<Rightarrow> service list \<Rightarrow> int \<Rightarrow> int \<Rightarrow> nat \<Rightarrow> local_dt option" where
  "first_opening data ss t d 0 = None"
| "first_opening data ss t d (Suc n) =
     (let os = openings_after data ss t d
      in if os \<noteq> [] then Some (arg_min_list wall os) else first_opening data ss t (d + 1) n)"

definition next_opening ::
  "hours_data \<Rightarrow> instant \<Rightarrow> service list \<Rightarrow> zone \<Rightarrow> nat \<Rightarrow> local_dt option" where
  "next_opening data now ss z days =
     (let l = astimezone z now in first_opening data ss (wall l) (ldate l) (days + 1))"

section \<open>Windows of a day\<close>

text \<open>Times of day are below a day, as in the columns of type \<open>time\<close>.\<close>

definition clock_time :: "int \<Rightarrow> bool" where
  "clock_time t \<longleftrightarrow> 0 \<le> t \<and> t < DAY"

definition hours_ok :: "hours_data \<Rightarrow> bool" where
  "hours_ok data \<longleftrightarrow>
     (\<forall>r \<in> set (regular data). clock_time (opens_at r) \<and> clock_time (closes_at r)) \<and>
     (\<forall>d sp. special data d = Some sp \<longrightarrow>
        (case sd_opens_at sp of None \<Rightarrow> True | Some t \<Rightarrow> clock_time t) \<and>
        (case sd_closes_at sp of None \<Rightarrow> True | Some t \<Rightarrow> clock_time t))"

text \<open>A window begins on its day and lasts at most a day.\<close>

definition window_of_day :: "int \<Rightarrow> window \<Rightarrow> bool" where
  "window_of_day d w \<longleftrightarrow> d * DAY \<le> wall (fst w) \<and> wall (fst w) < (d + 1) * DAY \<and>
     wall (fst w) < wall (snd w) \<and> wall (snd w) \<le> wall (fst w) + DAY \<and>
     \<not> fold_bit (fst w) \<and> \<not> fold_bit (snd w)"

lemma window_of_in_day:
  "clock_time opn \<Longrightarrow> clock_time cls \<Longrightarrow> window_of_day d (window_of d opn cls)"
  by (auto simp: window_of_day_def window_of_def clock_time_def algebra_simps)

lemma set_sort_windows [simp]: "set (sort_windows ws) = set ws"
  by (simp add: sort_windows_def)

lemma weekday_windows_in_day:
  "hours_ok data \<Longrightarrow> w \<in> set (weekday_windows data d wd s) \<Longrightarrow> window_of_day d w"
  by (auto simp: weekday_windows_def hours_ok_def intro: window_of_in_day)

lemma windows_in_day:
  assumes "hours_ok data" and "w \<in> set (windows_for_day data d s)"
  shows "window_of_day d w"
proof (cases "special data d")
  case None
  then show ?thesis using assms weekday_windows_in_day by (simp add: windows_for_day_def)
next
  case (Some sp)
  then have "(case sd_opens_at sp of None \<Rightarrow> True | Some t \<Rightarrow> clock_time t) \<and>
      (case sd_closes_at sp of None \<Rightarrow> True | Some t \<Rightarrow> clock_time t)"
    using assms(1) by (simp add: hours_ok_def)
  then show ?thesis
    using assms Some weekday_windows_in_day [OF assms(1)]
    by (auto simp: windows_for_day_def split: if_splits option.splits intro: window_of_in_day)
qed

interpretation open_hours: window_family "\<lambda>w. wall (fst w)" "\<lambda>w. wall (snd w)" window_holds
  by unfold_locales (simp add: window_holds_def)

lemma open_window_first:
  "open_window_at data now s z =
   open_hours.first_at (windows_for_day data (ldate (astimezone z now) - 1) s @
     windows_for_day data (ldate (astimezone z now)) s) (wall (astimezone z now))"
  by (simp add: open_window_at_def open_hours.first_at_def find_append_new Let_def)

lemma holds_near:
  assumes "window_of_day d w" and "window_holds w (wall l)"
  shows "d = ldate l - 1 \<or> d = ldate l"
proof -
  have l: "ldate l * DAY \<le> wall l" "wall l < ldate l * DAY + DAY" using ldate_ltime [of l] by simp_all
  have 1: "d * DAY \<le> wall l" "wall l < d * DAY + 2 * DAY"
    using assms by (auto simp: window_of_day_def window_holds_def algebra_simps)
  have "d * DAY < (ldate l + 1) * DAY" using 1 l by (simp add: algebra_simps)
  then have "d < ldate l + 1" by (rule mult_right_less_imp_less) (rule less_imp_le [OF DAY_pos])
  moreover have "ldate l * DAY < (d + 2) * DAY" using 1 l by (simp add: algebra_simps)
  then have "ldate l < d + 2" by (rule mult_right_less_imp_less) (rule less_imp_le [OF DAY_pos])
  ultimately show ?thesis by linarith
qed

text \<open>Looking at today and the day before is enough: whenever any window of any day holds this
  moment, past midnight too, a window is found, and a found window does hold it.\<close>

theorem open_window_complete:
  assumes "hours_ok data"
  shows "open_window_at data now s z \<noteq> None \<longleftrightarrow>
    (\<exists>d. \<exists>w \<in> set (windows_for_day data d s). window_holds w (wall (astimezone z now)))"
    (is "?found \<longleftrightarrow> ?some")
proof
  assume ?found
  then obtain w where "open_window_at data now s z = Some w" by blast
  from open_hours.first_at_Some [OF this [unfolded open_window_first]] show ?some
    by (auto simp: window_holds_def)
next
  assume ?some
  then obtain d w where w: "w \<in> set (windows_for_day data d s)"
    and h: "window_holds w (wall (astimezone z now))" by blast
  from holds_near [OF windows_in_day [OF assms w] h] w
  have "w \<in> set (windows_for_day data (ldate (astimezone z now) - 1) s @
      windows_for_day data (ldate (astimezone z now)) s)" by auto
  with h show ?found
    unfolding open_window_first open_hours.first_at_def find_None_iff by blast
qed

section \<open>The next opening\<close>

lemma opening_in_day:
  assumes "hours_ok data" and "o' \<in> set (openings_after data ss t d)"
  shows "t < wall o' \<and> d * DAY \<le> wall o' \<and> wall o' < (d + 1) * DAY"
  using assms windows_in_day by (fastforce simp: openings_after_def window_of_day_def)

lemma arg_min_list_least:
  assumes "xs \<noteq> []"
  shows "arg_min_list f xs \<in> set xs \<and> (\<forall>x \<in> set xs. f (arg_min_list f xs) \<le> (f x :: int))"
proof -
  have "f (arg_min_list f xs) = Min (f ` set xs)" using assms by (rule f_arg_min_list_f)
  then show ?thesis using assms by (simp add: arg_min_list_in)
qed

lemma first_opening_spec:
  assumes "hours_ok data"
  shows "case first_opening data ss t d n of
      None \<Rightarrow> \<forall>k < n. openings_after data ss t (d + int k) = []
    | Some opn \<Rightarrow> \<exists>k < n. opn \<in> set (openings_after data ss t (d + int k)) \<and>
        (\<forall>j. \<forall>x \<in> set (openings_after data ss t (d + int j)). wall opn \<le> wall x)"
proof (induction n arbitrary: d)
  case 0
  then show ?case by simp
next
  case (Suc n)
  let ?os = "openings_after data ss t d"
  show ?case
  proof (cases "?os = []")
    case True
    then have eq: "first_opening data ss t d (Suc n) = first_opening data ss t (d + 1) n" by simp
    note IH = Suc.IH [of "d + 1"]
    show ?thesis
    proof (cases "first_opening data ss t (d + 1) n")
      case None
      then have "\<forall>k < n. openings_after data ss t (d + int (Suc k)) = []"
        using IH by (simp add: add.assoc)
      then have "\<forall>k < Suc n. openings_after data ss t (d + int k) = []"
        using True less_Suc_eq_0_disj by (auto simp: less_Suc_eq_0_disj)
      then show ?thesis using eq None by simp
    next
      case (Some opn)
      with IH obtain k where k: "k < n" "opn \<in> set (openings_after data ss t (d + int (Suc k)))"
        and least: "\<And>j x. x \<in> set (openings_after data ss t (d + int (Suc j))) \<Longrightarrow> wall opn \<le> wall x"
        by (auto simp: add.assoc)
      have "wall opn \<le> wall x" if "x \<in> set (openings_after data ss t (d + int j))" for j x
        using that least True by (cases j) auto
      then show ?thesis using eq Some k by (auto intro!: exI [of _ "Suc k"])
    qed
  next
    case False
    have m: "arg_min_list wall ?os \<in> set ?os"
      and least: "\<And>x. x \<in> set ?os \<Longrightarrow> wall (arg_min_list wall ?os) \<le> wall x"
      using arg_min_list_least [OF False, of wall] by blast+
    have later: "wall (arg_min_list wall ?os) \<le> wall x"
      if x: "x \<in> set (openings_after data ss t (d + int j))" for j x
    proof (cases j)
      case 0
      then show ?thesis using x least by simp
    next
      case (Suc i)
      have "(d + 1) * DAY \<le> (d + int j) * DAY" using Suc by (simp add: mult_right_mono)
      then show ?thesis
        using opening_in_day [OF assms m] opening_in_day [OF assms x] by linarith
    qed
    have "first_opening data ss t d (Suc n) = Some (arg_min_list wall ?os)" using False by simp
    then show ?thesis using m later by (auto intro!: exI [of _ 0])
  qed
qed

text \<open>The moment a closed restaurant names is its true next opening: it lies ahead, belongs to
  a service asked for, and none of these services opens earlier from now on. Without one there
  is none on any of the days looked at.\<close>

theorem next_opening_first:
  assumes "hours_ok data"
  shows "case next_opening data now ss z days of
      None \<Rightarrow> \<forall>k \<le> days. openings_after data ss (wall (astimezone z now))
                          (ldate (astimezone z now) + int k) = []
    | Some opn \<Rightarrow> wall (astimezone z now) < wall opn \<and>
        (\<exists>s \<in> set ss. \<exists>d. \<exists>w \<in> set (windows_for_day data d s). opn = fst w) \<and>
        (\<forall>k. \<forall>x \<in> set (openings_after data ss (wall (astimezone z now))
                          (ldate (astimezone z now) + int k)). wall opn \<le> wall x)"
proof -
  let ?t = "wall (astimezone z now)" and ?d = "ldate (astimezone z now)"
  have spec: "case next_opening data now ss z days of
      None \<Rightarrow> \<forall>k < days + 1. openings_after data ss ?t (?d + int k) = []
    | Some opn \<Rightarrow> \<exists>k < days + 1. opn \<in> set (openings_after data ss ?t (?d + int k)) \<and>
        (\<forall>j. \<forall>x \<in> set (openings_after data ss ?t (?d + int j)). wall opn \<le> wall x)"
    unfolding next_opening_def Let_def by (rule first_opening_spec [OF assms])
  show ?thesis
  proof (cases "next_opening data now ss z days")
    case None
    then show ?thesis using spec by simp
  next
    case (Some opn)
    then obtain k where k: "opn \<in> set (openings_after data ss ?t (?d + int k))"
      and least: "\<forall>j. \<forall>x \<in> set (openings_after data ss ?t (?d + int j)). wall opn \<le> wall x"
      using spec by auto
    have "\<exists>s \<in> set ss. \<exists>d. \<exists>w \<in> set (windows_for_day data d s). opn = fst w"
      using k by (auto simp: openings_after_def)
    then show ?thesis using Some least opening_in_day [OF assms k] by simp
  qed
qed


section \<open>An evening across midnight\<close>

text \<open>Saturdays from 18:00 to 01:00, Sundays closed by a special day.\<close>

definition example_hours :: hours_data where
  "example_hours =
     \<lparr>regular = [\<lparr>oh_tenant_id = 7, oh_weekday = 5, opens_at = 18 * HOUR, closes_at = 1 * HOUR,
                  oh_service = Pickup\<rparr>],
      special = (\<lambda>_. None)(20548 := Some \<lparr>sd_tenant_id = 7, sd_date = 20548, sd_closed = True,
        sd_opens_at = None, sd_closes_at = None, sd_note = None, sd_status = SetDay,
        like_weekday = None\<rparr>)\<rparr>"

lemma example_hours_ok: "hours_ok example_hours"
  by (simp add: hours_ok_def example_hours_def clock_time_def time_units)

definition half_past_midnight :: instant where
  "half_past_midnight = 20548 * DAY - 2 * HOUR + 30 * MINUTE"

lemma half_past_midnight_local:
  "astimezone berlin half_past_midnight = \<lparr>wall = 20548 * DAY + 30 * MINUTE, fold_bit = False\<rparr>"
  by (simp add: half_past_midnight_def astimezone_def berlin_def time_units)

theorem open_window_complete_witness:
  "open_window_at example_hours half_past_midnight Pickup berlin \<noteq> None \<and>
   windows_for_day example_hours 20548 Pickup = []"
proof -
  have w: "window_of 20547 (18 * HOUR) (1 * HOUR) \<in> set (windows_for_day example_hours 20547 Pickup)"
    by (simp add: windows_for_day_def weekday_windows_def example_hours_def weekday_def)
  have "window_holds (window_of 20547 (18 * HOUR) (1 * HOUR)) (wall (astimezone berlin half_past_midnight))"
    by (simp add: half_past_midnight_local window_holds_def window_of_def time_units)
  with w open_window_complete [OF example_hours_ok, of half_past_midnight Pickup berlin]
  have "open_window_at example_hours half_past_midnight Pickup berlin \<noteq> None" by blast
  then show ?thesis by (simp add: windows_for_day_def example_hours_def)
qed

theorem next_opening_first_witness:
  "next_opening example_hours half_past_midnight [Pickup] berlin LOOKAHEAD_DAYS =
     Some (combine 20554 (18 * HOUR)) \<and>
   wall (astimezone berlin half_past_midnight) < 20554 * DAY + 18 * HOUR"
proof -
  have eq: "next_opening example_hours half_past_midnight [Pickup] berlin LOOKAHEAD_DAYS =
      Some (combine 20554 (18 * HOUR))" by code_simp
  then show ?thesis
    using next_opening_first [OF example_hours_ok, where now = half_past_midnight and ss = "[Pickup]"
        and z = berlin and days = LOOKAHEAD_DAYS]
    by simp
qed

end
