(* ===== verification/Status.thy ===== *)
theory Status
  imports Hours
begin

text \<open>
  The live state of the restaurant: the wait a guest is told (\<open>api/domain/status/waits.py\<close>), the
  call mode (\<open>mode.py\<close>), what goes right now (\<open>service.py\<close>), the print bridge's sign of life
  (\<open>bridge.py\<close>), the switches of the tablet (\<open>config.py\<close>) and who answers a call
  (\<open>api/domain/calls/routing.py\<close>).
\<close>

section \<open>api/domain/status/waits.py\<close>

text \<open>The code looks the column up by the name of the service; there is none for \<open>Dinein\<close> (a
  KeyError, the value is left open here).\<close>

fun standard_wait :: "service_config \<Rightarrow> service \<Rightarrow> int" where
  "standard_wait c Pickup = pickup_wait_standard_minutes c"
| "standard_wait c Delivery = delivery_wait_standard_minutes c"

fun today_minutes :: "service_config \<Rightarrow> service \<Rightarrow> int option" where
  "today_minutes c Pickup = pickup_wait_today_minutes c"
| "today_minutes c Delivery = delivery_wait_today_minutes c"

fun today_until :: "service_config \<Rightarrow> service \<Rightarrow> instant option" where
  "today_until c Pickup = pickup_wait_today_until c"
| "today_until c Delivery = delivery_wait_today_until c"

definition holds_today :: "service_config \<Rightarrow> service \<Rightarrow> instant \<Rightarrow> bool" where
  "holds_today c s now = (case today_until c s of None \<Rightarrow> False | Some u \<Rightarrow> now < u)"

text \<open>The CHECK of the table pairs the minutes with their end, so the minutes are there.\<close>

definition current_wait :: "service_config \<Rightarrow> service \<Rightarrow> instant \<Rightarrow> int" where
  "current_wait c s now = (if holds_today c s now then the (today_minutes c s) else standard_wait c s)"

section \<open>api/domain/status/mode.py\<close>

text \<open>\<open>CAUTION.index\<close>; a window never holds \<open>Paused\<close> (CHECK, \<open>mode_window_check\<close>).\<close>

definition caution :: "call_mode \<Rightarrow> int" where
  "caution m = (case m of Shadow \<Rightarrow> 0 | Overflow \<Rightarrow> 1 | Primary \<Rightarrow> 2 | Paused \<Rightarrow> 3)"

record mode_now =
  mn_mode :: call_mode
  mn_planned_until :: "local_dt option"

definition mode_windows_at :: "db \<Rightarrow> tenant \<Rightarrow> local_dt \<Rightarrow> call_mode_window list" where
  "mode_windows_at d t l =
     filter (\<lambda>w. mw_tenant_id w = t_id t \<and> mw_weekday w = weekday (ldate l) \<and>
                 mw_starts_at w \<le> ltime l \<and> ltime l < mw_ends_at w) (call_mode_windows d)"

text \<open>The windows that began after the team's last tap.\<close>

definition planned_windows ::
  "db \<Rightarrow> tenant \<Rightarrow> service_config \<Rightarrow> instant \<Rightarrow> call_mode_window list" where
  "planned_windows d t c now =
     (let l = astimezone (t_timezone t) now
      in filter (\<lambda>w. case call_mode_chosen_at c of None \<Rightarrow> True
                  | Some chosen \<Rightarrow> chosen < utc_of (t_timezone t) (combine (ldate l) (mw_starts_at w)))
           (mode_windows_at d t l))"

definition mode_at :: "db \<Rightarrow> tenant \<Rightarrow> service_config \<Rightarrow> instant \<Rightarrow> mode_now" where
  "mode_at d t c now =
     (if call_mode c = Paused then \<lparr>mn_mode = Paused, mn_planned_until = None\<rparr>
      else let l = astimezone (t_timezone t) now; planned = planned_windows d t c now
           in if planned = [] then \<lparr>mn_mode = call_mode c, mn_planned_until = None\<rparr>
              else let mode = arg_min_list caution (map mw_call_mode planned);
                       ends = map mw_ends_at (filter (\<lambda>w. mw_call_mode w = mode) planned)
                   in \<lparr>mn_mode = mode,
                       mn_planned_until = Some (combine (ldate l) (arg_min_list uminus ends))\<rparr>)"

section \<open>api/domain/calls/routing.py\<close>

definition AI_ANSWERS :: "call_mode list" where "AI_ANSWERS = [Overflow, Primary]"

record call_routing =
  ai_answers :: bool
  cr_mode :: call_mode
  call_limit :: int
  cr_team_phone :: str
  cr_tenant_name :: str
  cr_max_call_seconds :: int
  cr_turn_deadline_seconds :: int
  cr_privacy_notice_address :: "str option"

definition tenant_named :: "db \<Rightarrow> str \<Rightarrow> app_error + uuid" where
  "tenant_named d name =
     (case map t_id (filter (\<lambda>t. t_name t = name) (tenants d)) of
        [i] \<Rightarrow> Inr i | _ \<Rightarrow> raise_err NotFound None)"

definition limits_at :: "db \<Rightarrow> tenant \<Rightarrow> instant \<Rightarrow> int list" where
  "limits_at d t now =
     (let l = astimezone (t_timezone t) now
      in map max_calls (filter (\<lambda>w. lw_tenant_id w = t_id t \<and> lw_weekday w = weekday (ldate l) \<and>
           lw_starts_at w \<le> ltime l \<and> ltime l < lw_ends_at w) (call_limit_windows d)))"

definition call_limit_at :: "db \<Rightarrow> tenant \<Rightarrow> service_config \<Rightarrow> instant \<Rightarrow> int" where
  "call_limit_at d t c now =
     (let ls = limits_at d t now
      in if ls = [] then max_concurrent_calls c else arg_min_list id ls)"

definition route_call :: "db \<Rightarrow> uuid \<Rightarrow> instant \<Rightarrow> app_error + call_routing" where
  "route_call d tid now =
     (case (get_tenant d tid, get_config d tid) of
        (Some t, Some c) \<Rightarrow>
          (let mode = mn_mode (mode_at d t c now); ai = mode \<in> set AI_ANSWERS
           in Inr \<lparr>ai_answers = ai, cr_mode = mode,
                  call_limit = (if ai then call_limit_at d t c now else max_concurrent_calls c),
                  cr_team_phone = team_phone c, cr_tenant_name = t_name t,
                  cr_max_call_seconds = max_call_seconds c,
                  cr_turn_deadline_seconds = turn_deadline_seconds c,
                  cr_privacy_notice_address = privacy_notice_address c\<rparr>)
      | _ \<Rightarrow> raise_err NotFound None)"

definition takes_call :: "call_routing \<Rightarrow> int \<Rightarrow> bool" where
  "takes_call r open_calls \<longleftrightarrow> ai_answers r \<and> open_calls < call_limit r"

section \<open>api/domain/status/service.py\<close>

definition SAY_NO_RESERVATIONS :: str where
  "SAY_NO_RESERVATIONS = ''Reservierungen nehmen wir gerade nicht an.''"

definition service_open_at :: "db \<Rightarrow> uuid \<Rightarrow> instant \<Rightarrow> zone \<Rightarrow> service \<Rightarrow> bool" where
  "service_open_at d tid at z s =
     (open_window_at (load_hours d tid (ldate (astimezone z at)) LOOKAHEAD_DAYS) at s z \<noteq> None)"

definition pickup_open :: "db \<Rightarrow> uuid \<Rightarrow> service_config \<Rightarrow> instant \<Rightarrow> zone \<Rightarrow> bool" where
  "pickup_open d tid c at z \<longleftrightarrow> pickup_enabled c \<and> service_open_at d tid at z Pickup"

definition say_paused :: "bool \<Rightarrow> bool \<Rightarrow> bool \<Rightarrow> bool \<Rightarrow> str option" where
  "say_paused pickup_paused delivery_paused pickup_possible delivery_possible =
     (if pickup_paused \<and> delivery_paused then Some ''Abholung und Lieferung sind gerade pausiert.''
      else if pickup_paused then
        Some (''Abholung ist gerade pausiert.'' @
              (if delivery_possible then '' Lieferung ist m'' @ [oe] @ ''glich.'' else []))
      else if delivery_paused then
        Some (''Lieferung ist gerade pausiert.'' @
              (if pickup_possible then '' Abholung ist m'' @ [oe] @ ''glich.'' else []))
      else None)"

text \<open>\<open>_clock\<close>\<close>

definition clock_say :: "local_dt \<Rightarrow> str" where
  "clock_say dt =
     (if minute_of dt = 0 then str_int (hour_of dt) @ '' Uhr''
      else str_int (hour_of dt) @ '':'' @ two_digits (minute_of dt) @ '' Uhr'')"

definition say_closed :: "local_dt option \<Rightarrow> instant \<Rightarrow> zone \<Rightarrow> str" where
  "say_closed opn now z =
     (case opn of None \<Rightarrow> ''Wir haben derzeit geschlossen.''
      | Some o' \<Rightarrow>
          (let ahead = ldate o' - ldate (astimezone z now);
               when' = (if ahead = 0 then ''heute'' else if ahead = 1 then ''morgen''
                        else ''am '' @ WEEKDAYS ! nat (weekday (ldate o')))
           in ''Wir haben gerade geschlossen. Wir '' @ [oe] @ ''ffnen wieder '' @ when' @ '' um '' @
              clock_say o' @ ''.''))"

record service_status =
  ss_is_open :: bool
  ss_closes_at :: "instant option"
  ss_pickup_enabled :: bool
  ss_delivery_enabled :: bool
  ss_reservations_enabled :: bool
  ss_pickup_wait_minutes :: int
  ss_delivery_wait_minutes :: int
  ss_call_mode :: call_mode
  ss_say :: "str option"

definition SERVICES :: "service list" where "SERVICES = [Dinein, Pickup, Delivery]"

definition switched_on :: "service_config \<Rightarrow> service \<Rightarrow> bool" where
  "switched_on c s = (case s of Pickup \<Rightarrow> pickup_enabled c | Delivery \<Rightarrow> delivery_enabled c | Dinein \<Rightarrow> True)"

definition get_service_status :: "db \<Rightarrow> uuid \<Rightarrow> instant \<Rightarrow> app_error + service_status" where
  "get_service_status d tid now =
     (case (get_tenant d tid, get_config d tid) of
        (Some t, Some c) \<Rightarrow>
          (let z = t_timezone t;
               data = load_hours d tid (ldate (astimezone z now)) LOOKAHEAD_DAYS;
               enabled = filter (switched_on c) SERVICES;
               actives = List.map_filter (\<lambda>s. open_window_at data now s z) enabled;
               is_open = actives \<noteq> [];
               pickup = open_window_at data now Pickup z \<noteq> None;
               delivery = open_window_at data now Delivery z \<noteq> None;
               say = (if \<not> is_open
                      then Some (say_closed (next_opening data now enabled z LOOKAHEAD_DAYS) now z)
                      else say_paused (pickup \<and> \<not> pickup_enabled c) (delivery \<and> \<not> delivery_enabled c)
                             (pickup \<and> pickup_enabled c) (delivery \<and> delivery_enabled c));
               say = (if reservations_enabled c then say
                      else case say of None \<Rightarrow> Some SAY_NO_RESERVATIONS
                           | Some s \<Rightarrow> Some (s @ '' '' @ SAY_NO_RESERVATIONS))
           in Inr \<lparr>ss_is_open = is_open,
                  ss_closes_at = (if is_open
                    then Some (utc_of z (arg_min_list (\<lambda>l. - wall l) (map snd actives))) else None),
                  ss_pickup_enabled = pickup \<and> pickup_enabled c,
                  ss_delivery_enabled = delivery \<and> delivery_enabled c,
                  ss_reservations_enabled = reservations_enabled c,
                  ss_pickup_wait_minutes = current_wait c Pickup now,
                  ss_delivery_wait_minutes = current_wait c Delivery now,
                  ss_call_mode = mn_mode (mode_at d t c now),
                  ss_say = say\<rparr>)
      | _ \<Rightarrow> raise_err NotFound None)"

section \<open>api/domain/status/bridge.py\<close>

definition WRITE_EVERY_SECONDS :: int where "WRITE_EVERY_SECONDS = 30"

text \<open>INSERT ... ON CONFLICT DO UPDATE ... WHERE: a new row, or the old one if it is older.\<close>

definition note_poll :: "uuid \<Rightarrow> instant \<Rightarrow> db \<Rightarrow> db" where
  "note_poll tid now d =
     (if find (\<lambda>h. hb_tenant_id h = tid) (heartbeats d) = None
      then d\<lparr>heartbeats := heartbeats d @ [\<lparr>hb_tenant_id = tid, seen_at = now\<rparr>]\<rparr>
      else d\<lparr>heartbeats := upd_rows
               (\<lambda>h. hb_tenant_id h = tid \<and> seen_at h < now - WRITE_EVERY_SECONDS * SECOND)
               (\<lambda>h. h\<lparr>seen_at := now\<rparr>) (heartbeats d)\<rparr>)"

record silence =
  since :: "instant option"

text \<open>The two settings of the operator: the tenant with a print bridge, and the minutes of silence.\<close>

definition bridge_silence ::
  "uuid option \<Rightarrow> int \<Rightarrow> db \<Rightarrow> tenant \<Rightarrow> instant \<Rightarrow> silence option" where
  "bridge_silence bridge_tenant silent_minutes d t now =
     (if bridge_tenant \<noteq> Some (t_id t) then None
      else let seen = map_option seen_at (find (\<lambda>h. hb_tenant_id h = t_id t) (heartbeats d));
               limit = silent_minutes * MINUTE
           in if (case seen of None \<Rightarrow> False | Some s \<Rightarrow> now - s < limit) then None
              else let z = t_timezone t;
                       data = load_hours d (t_id t) (ldate (astimezone z now)) 1;
                       ws = List.map_filter (\<lambda>s. open_window_at data now s z) [Pickup, Delivery]
                   in if ws = [] \<or> now - utc_of z (arg_min_list wall (map fst ws)) < limit then None
                      else Some \<lparr>since = seen\<rparr>)"

end
