(* ===== verification/Menu.thy ===== *)
theory Menu
  imports Store "HOL-Library.AList"
begin

text \<open>
  Dishes, their options and their prices: \<open>api/domain/menu/items.py\<close>,
  \<open>api/domain/ordering/pricing.py\<close> and the positions of
  \<open>api/domain/ordering/validation.py\<close>. The agent names a dish by its key and options by their
  names; every price comes from the rows of the menu.
\<close>

section \<open>api/domain/menu/items.py\<close>

definition option_key :: "str \<Rightarrow> str" where
  "option_key t = casefold (py_join '' '' (py_split t))"

definition is_sold_out :: "menu_item \<Rightarrow> instant \<Rightarrow> bool" where
  "is_sold_out item now = (case sold_out_until item of None \<Rightarrow> False | Some u \<Rightarrow> now < u)"

definition active_items :: "db \<Rightarrow> uuid \<Rightarrow> menu_item list" where
  "active_items d tid = filter (\<lambda>m. m_tenant_id m = tid \<and> active m) (menu_items d)"

definition active_numbers :: "db \<Rightarrow> uuid \<Rightarrow> (str \<times> str) list" where
  "active_numbers d tid = map (\<lambda>m. (m_number m, category m)) (active_items d tid)"

definition active_count :: "db \<Rightarrow> uuid \<Rightarrow> nat" where
  "active_count d tid = length (active_items d tid)"

record option_out =
  oo_name :: str
  oo_price_delta_cents :: cents
  oo_default :: bool
  oo_reason :: "str option"

record option_group =
  og_group :: str
  og_required :: bool
  og_options :: "option_out list"

text \<open>ORDER BY group, default first, option. The order of two texts is the collation of the
  database: \<open>coll\<close> is the rank it gives a text. Three stable sorts, the last one weighs most.\<close>

definition order_options :: "(str \<Rightarrow> int) \<Rightarrow> item_option list \<Rightarrow> item_option list" where
  "order_options coll os =
     sort_key (\<lambda>x. coll (group_name x))
       (sort_key (\<lambda>x. if is_default x then 0 else 1 :: int)
         (sort_key (\<lambda>x. coll (option_name x)) os))"

definition option_of :: "item_option \<Rightarrow> option_out" where
  "option_of x = \<lparr>oo_name = option_name x, oo_price_delta_cents = price_delta_cents x,
     oo_default = is_default x, oo_reason = price_reason x\<rparr>"

text \<open>One row into the groups of its dish: a dict of groups in the order of their first row.\<close>

fun add_option :: "item_option \<Rightarrow> option_group list \<Rightarrow> option_group list" where
  "add_option x [] = [\<lparr>og_group = group_name x, og_required = required x, og_options = [option_of x]\<rparr>]"
| "add_option x (g # gs) =
     (if og_group g = group_name x then g\<lparr>og_options := og_options g @ [option_of x]\<rparr> # gs
      else g # add_option x gs)"

text \<open>The answer for one dish; a dish without options has no entry, read as the empty list.\<close>

definition option_groups :: "(str \<Rightarrow> int) \<Rightarrow> db \<Rightarrow> uuid \<Rightarrow> option_group list" where
  "option_groups coll d item_id =
     fold add_option
       (order_options coll (filter (\<lambda>x. io_menu_item_id x = item_id) (item_options d))) []"

section \<open>api/domain/ordering/pricing.py\<close>

record line =
  ln_item :: menu_item
  ln_quantity :: int
  ln_options :: "chosen_option list"
  ln_note :: "str option"

definition row_cents :: "cents \<Rightarrow> chosen_option list \<Rightarrow> cents" where
  "row_cents unit opts = unit + sum_list (map co_price_delta_cents opts)"

definition unit_cents :: "line \<Rightarrow> cents" where
  "unit_cents l = row_cents (price_cents (ln_item l)) (ln_options l)"

definition items_total_cents_of :: "line list \<Rightarrow> cents" where
  "items_total_cents_of ls = sum_list (map (\<lambda>l. unit_cents l * ln_quantity l) ls)"

lemma items_total_nonneg:
  "(\<And>l. l \<in> set ls \<Longrightarrow> 0 \<le> unit_cents l \<and> 0 \<le> ln_quantity l) \<Longrightarrow> 0 \<le> items_total_cents_of ls"
  unfolding items_total_cents_of_def by (rule sum_list_nonneg_int) simp

section \<open>api/schemas/orders.py\<close>

definition MAX_QUANTITY :: int where "MAX_QUANTITY = 30"
definition MAX_ITEMS :: nat where "MAX_ITEMS = 30"
definition NOTE_MAX :: nat where "NOTE_MAX = 200"

record option_choice =
  ch_group :: str
  ch_name :: str

record order_item_in =
  in_menu_item_id :: uuid
  in_quantity :: int
  in_options :: "option_choice list"
  in_note :: "str option"

text \<open>What pydantic lets through.\<close>

definition order_item_in_ok :: "order_item_in \<Rightarrow> bool" where
  "order_item_in_ok i \<longleftrightarrow> 1 \<le> in_quantity i \<and> in_quantity i \<le> MAX_QUANTITY \<and>
     length (in_options i) \<le> 10 \<and>
     list_all (\<lambda>c. ch_group c \<noteq> [] \<and> length (ch_group c) \<le> 100 \<and>
                   ch_name c \<noteq> [] \<and> length (ch_name c) \<le> 100) (in_options i) \<and>
     (case in_note i of None \<Rightarrow> True | Some n \<Rightarrow> length n \<le> NOTE_MAX)"

section \<open>api/domain/ordering/validation.py: the positions\<close>

definition SAY_ITEM_UNKNOWN :: str where
  "SAY_ITEM_UNKNOWN = ''Ein Gericht habe ich nicht auf der Karte gefunden. K'' @ [oe] @
     ''nnen Sie mir die Nummer sagen?''"

definition SAY_MENU_BROKEN :: str where
  "SAY_MENU_BROKEN =
     ''Das kann ich gerade nicht sicher aufnehmen. Ich verbinde Sie mit dem Restaurant.''"

definition SAY_OPTION_UNKNOWN :: "str \<Rightarrow> str \<Rightarrow> str" where
  "SAY_OPTION_UNKNOWN opt dish = opt @ '' gibt es zu '' @ dish @ '' nicht.''"

definition SAY_OPTION_MISSING :: "str \<Rightarrow> str \<Rightarrow> str" where
  "SAY_OPTION_MISSING grp dish =
     ''Welche Auswahl bei '' @ grp @ '' m'' @ [oe] @ ''chten Sie zu '' @ dish @ ''?''"

definition SAY_OPTION_REPEATED :: "str \<Rightarrow> str \<Rightarrow> str" where
  "SAY_OPTION_REPEATED opt dish =
     opt @ '' zu '' @ dish @ '' habe ich schon. Einmal '' @ opt @ '', richtig?''"

definition SAY_OPTION_TWICE :: "str \<Rightarrow> str \<Rightarrow> str" where
  "SAY_OPTION_TWICE grp dish = ''Bei '' @ grp @ '' zu '' @ dish @
     '' geht nur eine Auswahl. Welche m'' @ [oe] @ ''chten Sie?''"

definition SAY_SOLD_OUT :: "str \<Rightarrow> str" where
  "SAY_SOLD_OUT dish = dish @ '' ist heute leider aus.''"

text \<open>The options of one dish: group key to option key to row, in the order of the rows.\<close>

type_synonym offered = "(str \<times> (str \<times> item_option) list) list"

definition group_of :: "offered \<Rightarrow> str \<Rightarrow> (str \<times> item_option) list" where
  "group_of off k = (case map_of off k of None \<Rightarrow> [] | Some g \<Rightarrow> g)"

definition offer :: "item_option \<Rightarrow> offered \<Rightarrow> app_error + offered" where
  "offer x off =
     (let grp = group_of off (option_key (group_name x));
          name = option_key (option_name x)
      in if (case grp of [] \<Rightarrow> False
             | (_, first) # _ \<Rightarrow> group_name first \<noteq> group_name x \<or> required first \<noteq> required x)
         then raise_err ServiceUnavailable (Some SAY_MENU_BROKEN)
         else if name \<in> fst ` set grp
         then raise_err ServiceUnavailable (Some SAY_MENU_BROKEN)
         else Inr (AList.update (option_key (group_name x)) (grp @ [(name, x)]) off))"

definition offer_row ::
  "item_option \<Rightarrow> (uuid \<Rightarrow> offered) \<Rightarrow> app_error + (uuid \<Rightarrow> offered)" where
  "offer_row x off =
     andthen (offer x (off (io_menu_item_id x))) (\<lambda>o'. Inr (off(io_menu_item_id x := o')))"

definition find_offer :: "offered \<Rightarrow> option_choice \<Rightarrow> item_option option" where
  "find_offer off c = map_of (group_of off (option_key (ch_group c))) (option_key (ch_name c))"

definition pick_choice ::
  "menu_item \<Rightarrow> offered \<Rightarrow> option_choice \<Rightarrow> item_option list \<Rightarrow> app_error + item_option list" where
  "pick_choice item off c picked =
     (case find_offer off c of
        None \<Rightarrow> raise_err InvalidInput (Some (SAY_OPTION_UNKNOWN (ch_name c) (m_name item)))
      | Some x \<Rightarrow>
          if x \<in> set picked
          then raise_err InvalidInput (Some (SAY_OPTION_REPEATED (option_name x) (m_name item)))
          else Inr (picked @ [x]))"

text \<open>A required group has exactly one choice.\<close>

definition check_group ::
  "menu_item \<Rightarrow> item_option list \<Rightarrow> str \<times> (str \<times> item_option) list \<Rightarrow> unit \<Rightarrow> app_error + unit" where
  "check_group item picked g u =
     (case snd g of [] \<Rightarrow> Inr ()
      | (_, first) # _ \<Rightarrow>
          if \<not> required first then Inr ()
          else let n = length (filter (\<lambda>x. option_key (group_name x) = fst g) picked)
               in if n = 0
                  then raise_err InvalidInput (Some (SAY_OPTION_MISSING (group_name first) (m_name item)))
                  else if n > 1
                  then raise_err InvalidInput (Some (SAY_OPTION_TWICE (group_name first) (m_name item)))
                  else Inr ())"

definition chosen_of :: "item_option \<Rightarrow> chosen_option" where
  "chosen_of x = \<lparr>co_group = group_name x, co_option = option_name x,
     co_price_delta_cents = price_delta_cents x\<rparr>"

definition line_options ::
  "menu_item \<Rightarrow> option_choice list \<Rightarrow> offered \<Rightarrow> app_error + chosen_option list" where
  "line_options item wanted off =
     andthen (fold_res (pick_choice item off) wanted []) (\<lambda>picked.
     andthen (fold_res (check_group item picked) off ()) (\<lambda>_.
       let opts = map chosen_of picked
       in if row_cents (price_cents item) opts < 0
          then raise_err ServiceUnavailable (Some SAY_MENU_BROKEN)
          else Inr opts))"

text \<open>\<open>(note or "").strip() or None\<close>\<close>

definition clean_note :: "str option \<Rightarrow> str option" where
  "clean_note n = (case n of None \<Rightarrow> None
     | Some s \<Rightarrow> (if py_strip s = [] then None else Some (py_strip s)))"

definition validated_line ::
  "menu_item list \<Rightarrow> (uuid \<Rightarrow> offered) \<Rightarrow> instant \<Rightarrow> order_item_in \<Rightarrow> app_error + line" where
  "validated_line menu off now wanted =
     (case find (\<lambda>m. m_id m = in_menu_item_id wanted) menu of
        None \<Rightarrow> raise_err UncaughtError None
      | Some item \<Rightarrow>
          if is_sold_out item now
          then raise_err Conflict (Some (SAY_SOLD_OUT (m_name item)))
          else andthen (line_options item (in_options wanted) (off (m_id item))) (\<lambda>opts.
                 Inr \<lparr>ln_item = item, ln_quantity = in_quantity wanted, ln_options = opts,
                      ln_note = clean_note (in_note wanted)\<rparr>))"

definition validated_lines ::
  "db \<Rightarrow> uuid \<Rightarrow> order_item_in list \<Rightarrow> instant \<Rightarrow> app_error + line list" where
  "validated_lines d tid items now =
     (let ids = map in_menu_item_id items;
          menu = filter (\<lambda>m. m_id m \<in> set ids) (active_items d tid)
      in if \<not> list_all (\<lambda>i. i \<in> m_id ` set menu) ids
         then raise_err NotFound (Some SAY_ITEM_UNKNOWN)
         else andthen (fold_res offer_row (filter (\<lambda>x. io_menu_item_id x \<in> set ids) (item_options d))
                        (\<lambda>_. []))
                (\<lambda>off. map_res (validated_line menu off now) items))"

section \<open>What a checked position is\<close>

text \<open>The dict of groups after some rows were read: every entry is one of these rows under its own
  keys, the rows of one group agree, and no row is lost.\<close>

definition entry_ok :: "item_option set \<Rightarrow> uuid \<Rightarrow> str \<Rightarrow> str \<Rightarrow> bool \<Rightarrow> str \<times> item_option \<Rightarrow> bool" where
  "entry_ok rows i k gn rq p \<longleftrightarrow> snd p \<in> rows \<and> io_menu_item_id (snd p) = i \<and>
     fst p = option_key (option_name (snd p)) \<and> k = option_key (group_name (snd p)) \<and>
     group_name (snd p) = gn \<and> required (snd p) = rq"

definition group_ok :: "item_option set \<Rightarrow> uuid \<Rightarrow> str \<times> (str \<times> item_option) list \<Rightarrow> bool" where
  "group_ok rows i kg \<longleftrightarrow> snd kg \<noteq> [] \<and>
     (\<exists>gn rq. list_all (entry_ok rows i (fst kg) gn rq) (snd kg))"

definition offered_ok :: "item_option set \<Rightarrow> (uuid \<Rightarrow> offered) \<Rightarrow> bool" where
  "offered_ok rows off \<longleftrightarrow>
     (\<forall>i. \<forall>kg \<in> set (off i). group_ok rows i kg) \<and>
     (\<forall>x \<in> rows. (option_key (option_name x), x) \<in>
        set (group_of (off (io_menu_item_id x)) (option_key (group_name x))))"

lemma group_of_mem: "group_of off k \<noteq> [] \<Longrightarrow> (k, group_of off k) \<in> set off"
  by (auto simp: group_of_def split: option.splits dest: map_of_SomeD)

lemma group_of_update [simp]:
  "group_of (AList.update k g off) k' = (if k' = k then g else group_of off k')"
  by (simp add: group_of_def update_conv' fun_upd_apply)

lemma set_update_sub: "kg \<in> set (AList.update k g off) \<Longrightarrow> kg = (k, g) \<or> kg \<in> set off"
  by (induction off) (auto split: if_splits)

lemma entry_ok_mono: "entry_ok rows i k gn rq p \<Longrightarrow> entry_ok (insert x rows) i k gn rq p"
  by (simp add: entry_ok_def)

lemma group_ok_mono: "group_ok rows i kg \<Longrightarrow> group_ok (insert x rows) i kg"
  unfolding group_ok_def by (blast intro: list.pred_mono_strong entry_ok_mono)

lemma group_ok_snoc:
  assumes "g \<noteq> [] \<Longrightarrow> group_ok rows (io_menu_item_id x) (k, g)"
    and "case g of [] \<Rightarrow> True | (_, f) # _ \<Rightarrow> group_name f = group_name x \<and> required f = required x"
    and "k = option_key (group_name x)" and "n = option_key (option_name x)"
  shows "group_ok (insert x rows) (io_menu_item_id x) (k, g @ [(n, x)])"
proof (cases g)
  case Nil
  then show ?thesis using assms(3,4) by (auto simp: group_ok_def entry_ok_def)
next
  case (Cons p ps)
  obtain m f where p: "p = (m, f)" by force
  obtain gn rq where g: "list_all (entry_ok rows (io_menu_item_id x) k gn rq) g"
    using assms(1) Cons by (auto simp: group_ok_def)
  then have "gn = group_name x" "rq = required x"
    using assms(2) by (auto simp: Cons p entry_ok_def)
  moreover have "list_all (entry_ok (insert x rows) (io_menu_item_id x) k gn rq) g"
    using g by (rule list.pred_mono_strong) (rule entry_ok_mono)
  ultimately have "list_all (entry_ok (insert x rows) (io_menu_item_id x) k gn rq) (g @ [(n, x)])"
    using assms(3,4) by (simp add: entry_ok_def)
  then show ?thesis unfolding group_ok_def by auto
qed

lemma offer_row_ok:
  assumes "offer_row x off = Inr off'" and "offered_ok rows off"
  shows "offered_ok (insert x rows) off'"
proof -
  let ?i = "io_menu_item_id x"
  let ?k = "option_key (group_name x)"
  let ?n = "option_key (option_name x)"
  let ?g = "group_of (off ?i) ?k"
  have off': "off' = off(?i := AList.update ?k (?g @ [(?n, x)]) (off ?i))"
    and agree: "case ?g of [] \<Rightarrow> True | (_, f) # _ \<Rightarrow> group_name f = group_name x \<and> required f = required x"
    using assms(1)
    by (auto simp: offer_row_def offer_def Let_def raise_err_def split: if_splits list.splits)
  have new: "group_ok (insert x rows) ?i (?k, ?g @ [(?n, x)])"
  proof (rule group_ok_snoc [OF _ agree])
    show "group_ok rows ?i (?k, ?g)" if "?g \<noteq> []"
      using group_of_mem [OF that] assms(2) by (auto simp: offered_ok_def)
  qed simp_all
  have "group_ok (insert x rows) i kg" if "kg \<in> set (off' i)" for i kg
  proof (cases "i = ?i")
    case True
    then have "kg \<in> set (AList.update ?k (?g @ [(?n, x)]) (off ?i))" using that off' by simp
    from set_update_sub [OF this] consider "kg = (?k, ?g @ [(?n, x)])" | "kg \<in> set (off ?i)"
      by blast
    then show ?thesis
    proof cases
      case 1
      then show ?thesis using new True by simp
    next
      case 2
      then have "group_ok rows ?i kg" using assms(2) by (simp add: offered_ok_def)
      then show ?thesis unfolding True by (rule group_ok_mono)
    qed
  next
    case False
    then show ?thesis using that off' assms(2) group_ok_mono by (auto simp: offered_ok_def)
  qed
  moreover have "(option_key (option_name y), y) \<in>
      set (group_of (off' (io_menu_item_id y)) (option_key (group_name y)))"
    if "y \<in> insert x rows" for y
    using that assms(2) by (auto simp: off' offered_ok_def)
  ultimately show ?thesis unfolding offered_ok_def by blast
qed

lemma offer_rows_ok:
  assumes "fold_res offer_row xs off = Inr off'" and "offered_ok rows off"
  shows "offered_ok (set xs \<union> rows) off'"
  using assms
proof (induction xs arbitrary: off rows)
  case (Cons x xs)
  then obtain off1 where 1: "offer_row x off = Inr off1" "fold_res offer_row xs off1 = Inr off'"
    by auto
  have "offered_ok (set xs \<union> insert x rows) off'"
    using Cons.IH [OF 1(2) offer_row_ok [OF 1(1) Cons.prems(2)]] .
  then show ?case by simp
qed simp

lemma offered_ok_empty: "offered_ok {} (\<lambda>_. [])"
  by (simp add: offered_ok_def)

text \<open>What the choices of a guest pick.\<close>

definition choice_is :: "option_choice \<Rightarrow> item_option \<Rightarrow> bool" where
  "choice_is c x \<longleftrightarrow> option_key (group_name x) = option_key (ch_group c) \<and>
     option_key (option_name x) = option_key (ch_name c)"

lemma find_offer_ok:
  assumes "offered_ok rows off" and "find_offer (off i) c = Some x"
  shows "x \<in> rows \<and> io_menu_item_id x = i \<and> choice_is c x"
proof -
  let ?k = "option_key (ch_group c)"
  have mem: "(option_key (ch_name c), x) \<in> set (group_of (off i) ?k)"
    using assms(2) by (auto simp: find_offer_def dest: map_of_SomeD)
  then have "group_of (off i) ?k \<noteq> []" by auto
  from group_of_mem [OF this] assms(1) have "group_ok rows i (?k, group_of (off i) ?k)"
    by (auto simp: offered_ok_def)
  with mem show ?thesis by (auto simp: group_ok_def entry_ok_def choice_is_def list_all_iff)
qed

lemma pick_choices:
  assumes "fold_res (pick_choice item (off i)) wanted ps = Inr qs" and "offered_ok rows off"
  shows "\<exists>xs. qs = ps @ xs \<and> (distinct ps \<longrightarrow> distinct qs) \<and>
    list_all2 (\<lambda>c x. x \<in> rows \<and> io_menu_item_id x = i \<and> choice_is c x) wanted xs"
  using assms(1)
proof (induction wanted arbitrary: ps)
  case Nil
  then show ?case by simp
next
  case (Cons c cs)
  then obtain ps' where 1: "pick_choice item (off i) c ps = Inr ps'"
    and 2: "fold_res (pick_choice item (off i)) cs ps' = Inr qs" by auto
  obtain x where x: "find_offer (off i) c = Some x" "x \<notin> set ps" "ps' = ps @ [x]"
    using 1 by (auto simp: pick_choice_def raise_err_def split: option.splits if_splits)
  from Cons.IH [OF 2] obtain xs where xs: "qs = ps' @ xs" "distinct ps' \<longrightarrow> distinct qs"
    "list_all2 (\<lambda>c x. x \<in> rows \<and> io_menu_item_id x = i \<and> choice_is c x) cs xs" by blast
  show ?case
    using x xs find_offer_ok [OF assms(2) x(1)] by (intro exI [of _ "x # xs"]) auto
qed

lemma check_groups:
  assumes "fold_res (check_group item picked) gs () = Inr u" and "kg \<in> set gs"
    and "snd kg \<noteq> []" and "required (snd (hd (snd kg)))"
  shows "length (filter (\<lambda>x. option_key (group_name x) = fst kg) picked) = 1"
  using assms
proof (induction gs)
  case (Cons g gs)
  show ?case
  proof (cases "kg = g")
    case True
    let ?n = "length (filter (\<lambda>x. option_key (group_name x) = fst kg) picked)"
    have "check_group item picked kg () = Inr ()" using Cons.prems(1) True by auto
    then have "?n \<noteq> 0 \<and> \<not> ?n > 1"
      using Cons.prems(3,4)
      by (cases "snd kg")
        (simp_all add: check_group_def Let_def raise_err_def split: if_splits prod.splits)
    then show ?thesis by linarith
  qed (use Cons in auto)
qed simp


text \<open>A line that is what the guest asked for, at the prices of the menu: an active dish of the
  tenant that is not out today, each option a row of that dish under the name the guest used, and
  exactly one choice in every group the dish requires.\<close>

definition line_from_menu ::
  "db \<Rightarrow> uuid \<Rightarrow> instant \<Rightarrow> order_item_in \<Rightarrow> line \<Rightarrow> bool" where
  "line_from_menu d tid now i l \<longleftrightarrow>
     ln_item l \<in> set (active_items d tid) \<and> m_id (ln_item l) = in_menu_item_id i \<and>
     \<not> is_sold_out (ln_item l) now \<and> ln_quantity l = in_quantity i \<and> 0 \<le> unit_cents l \<and>
     (\<exists>xs. ln_options l = map chosen_of xs \<and> distinct xs \<and>
        list_all2 (\<lambda>c x. x \<in> set (item_options d) \<and> io_menu_item_id x = in_menu_item_id i \<and>
                         choice_is c x) (in_options i) xs) \<and>
     (\<forall>x \<in> set (item_options d). io_menu_item_id x = in_menu_item_id i \<and> required x \<longrightarrow>
        length (filter (\<lambda>o'. option_key (co_group o') = option_key (group_name x)) (ln_options l)) = 1)"

lemma group_required:
  assumes "offered_ok rows off" and "x \<in> rows" and "required x"
  shows "\<exists>kg \<in> set (off (io_menu_item_id x)). fst kg = option_key (group_name x) \<and> snd kg \<noteq> [] \<and>
    required (snd (hd (snd kg)))"
proof -
  let ?k = "option_key (group_name x)"
  let ?g = "group_of (off (io_menu_item_id x)) ?k"
  have mem: "(option_key (option_name x), x) \<in> set ?g" using assms(1,2) by (simp add: offered_ok_def)
  then have ne: "?g \<noteq> []" by auto
  have in_off: "(?k, ?g) \<in> set (off (io_menu_item_id x))" by (rule group_of_mem [OF ne])
  then have "group_ok rows (io_menu_item_id x) (?k, ?g)" using assms(1) by (simp add: offered_ok_def)
  then obtain gn rq where all: "list_all (entry_ok rows (io_menu_item_id x) ?k gn rq) ?g"
    by (auto simp: group_ok_def)
  have "entry_ok rows (io_menu_item_id x) ?k gn rq (option_key (option_name x), x)"
    using all mem unfolding list_all_iff by blast
  then have "rq = required x" by (simp add: entry_ok_def)
  moreover have "entry_ok rows (io_menu_item_id x) ?k gn rq (hd ?g)"
    using all ne by (simp add: list_all_iff)
  ultimately have "required (snd (hd ?g))" using assms(3) by (simp add: entry_ok_def)
  with ne show ?thesis by (intro bexI [OF _ in_off]) simp
qed

lemma filter_chosen:
  "length (filter (\<lambda>o'. option_key (co_group o') = k) (map chosen_of xs)) =
   length (filter (\<lambda>x. option_key (group_name x) = k) xs)"
  by (induction xs) (simp_all add: chosen_of_def)

lemma validated_line_from_menu:
  assumes "validated_line menu off now i = Inr l" and "set menu \<subseteq> set (active_items d tid)"
    and "offered_ok rows off" and "rows \<subseteq> set (item_options d)"
    and "\<forall>x \<in> set (item_options d). io_menu_item_id x = in_menu_item_id i \<longrightarrow> x \<in> rows"
  shows "line_from_menu d tid now i l"
proof -
  obtain item opts where item: "find (\<lambda>m. m_id m = in_menu_item_id i) menu = Some item"
    and sold: "\<not> is_sold_out item now"
    and opts: "line_options item (in_options i) (off (m_id item)) = Inr opts"
    and l: "l = \<lparr>ln_item = item, ln_quantity = in_quantity i, ln_options = opts,
        ln_note = clean_note (in_note i)\<rparr>"
    using assms(1) by (auto simp: validated_line_def raise_err_def split: option.splits if_splits)
  from find_SomeD [OF item] assms(2)
  have mem: "item \<in> set (active_items d tid)" "m_id item = in_menu_item_id i" by auto
  obtain picked u where p: "fold_res (pick_choice item (off (m_id item))) (in_options i) [] = Inr picked"
    and c: "fold_res (check_group item picked) (off (m_id item)) () = Inr u"
    and o: "opts = map chosen_of picked" "0 \<le> row_cents (price_cents item) opts"
    using opts by (auto simp: line_options_def Let_def raise_err_def split: if_splits)
  from pick_choices [OF p assms(3)] have d: "distinct picked"
    and la: "list_all2 (\<lambda>c x. x \<in> rows \<and> io_menu_item_id x = m_id item \<and> choice_is c x)
      (in_options i) picked" by auto
  have la': "list_all2 (\<lambda>c x. x \<in> set (item_options d) \<and> io_menu_item_id x = in_menu_item_id i \<and>
      choice_is c x) (in_options i) picked"
    by (rule list_all2_mono [OF la]) (use assms(4) mem(2) in auto)
  have req: "length (filter (\<lambda>o'. option_key (co_group o') = option_key (group_name x)) opts) = 1"
    if x: "x \<in> set (item_options d)" "io_menu_item_id x = in_menu_item_id i" "required x" for x
  proof -
    have "x \<in> rows" using assms(5) x by blast
    from group_required [OF assms(3) this x(3)] obtain kg where
      "kg \<in> set (off (m_id item))" "fst kg = option_key (group_name x)" "snd kg \<noteq> []"
      "required (snd (hd (snd kg)))" using x(2) mem(2) by auto
    then show ?thesis using check_groups [OF c, of kg] unfolding o(1) filter_chosen by simp
  qed
  show ?thesis
    unfolding line_from_menu_def l using mem sold o d la' req
    by (auto simp: unit_cents_def)
qed

text \<open>What \<open>draft_order\<close> takes from the agent are keys, names and quantities: every position it
  accepts is an active dish of this restaurant that is not out today, its options are rows of
  that dish with the prices of the rows, every required group has exactly one choice, and no
  price is negative.\<close>

theorem validated_lines_from_menu:
  assumes "validated_lines d tid items now = Inr ls"
  shows "list_all2 (line_from_menu d tid now) items ls"
proof -
  let ?ids = "map in_menu_item_id items"
  let ?menu = "filter (\<lambda>m. m_id m \<in> set ?ids) (active_items d tid)"
  let ?rows = "filter (\<lambda>x. io_menu_item_id x \<in> set ?ids) (item_options d)"
  obtain off where off: "fold_res offer_row ?rows (\<lambda>_. []) = Inr off"
    and ls: "map_res (validated_line ?menu off now) items = Inr ls"
    using assms by (auto simp: validated_lines_def Let_def raise_err_def split: if_splits)
  have ok: "offered_ok (set ?rows) off" using offer_rows_ok [OF off offered_ok_empty] by simp
  have "list_all2 (\<lambda>i l. validated_line ?menu off now i = Inr l) items ls"
    using ls by (simp add: map_res_Inr)
  then show ?thesis
  proof (rule list.rel_mono_strong)
    fix i l
    assume "i \<in> set items" and l: "validated_line ?menu off now i = Inr l"
    then show "line_from_menu d tid now i l"
      by (intro validated_line_from_menu [OF l _ ok]) auto
  qed
qed


definition example_dish :: menu_item where
  "example_dish = \<lparr>m_id = 12, m_tenant_id = 7, m_number = ''12'', m_name = ''Ente'',
     category = ''Ente'', price_cents = 950, active = True, sold_out_until = None,
     description = None, pos_code = None, register_price_cents = None, register_price_rejected = False\<rparr>"

definition example_option :: "uuid \<Rightarrow> str \<Rightarrow> cents \<Rightarrow> item_option" where
  "example_option i name delta = \<lparr>io_id = i, io_menu_item_id = 12, group_name = ''Sauce'',
     option_name = name, price_delta_cents = delta, is_default = False, required = True,
     price_reason = None\<rparr>"

definition example_menu :: db where
  "example_menu = empty_db\<lparr>menu_items := [example_dish],
     item_options := [example_option 1 ''Curry'' 0, example_option 2 ''Erdnuss'' 50]\<rparr>"

definition example_wanted :: order_item_in where
  "example_wanted = \<lparr>in_menu_item_id = 12, in_quantity = 2,
     in_options = [\<lparr>ch_group = ''sauce'', ch_name = '' ERDNUSS''\<rparr>], in_note = Some '' ''\<rparr>"

definition example_line :: line where
  "example_line = \<lparr>ln_item = example_dish, ln_quantity = 2,
     ln_options = [chosen_of (example_option 2 ''Erdnuss'' 50)], ln_note = None\<rparr>"

lemma example_lines: "validated_lines example_menu 7 [example_wanted] 0 = Inr [example_line]"
  by code_simp

text \<open>Two ducks with the peanut sauce, said in capitals, cost twenty euros; without a sauce the
  order is refused.\<close>

theorem validated_lines_from_menu_witness:
  "list_all2 (line_from_menu example_menu 7 0) [example_wanted] [example_line] \<and>
   items_total_cents_of [example_line] = 2000 \<and>
   validated_lines example_menu 7 [example_wanted\<lparr>in_options := []\<rparr>] 0 =
     raise_err InvalidInput (Some (SAY_OPTION_MISSING ''Sauce'' ''Ente''))"
proof (intro conjI)
  show "list_all2 (line_from_menu example_menu 7 0) [example_wanted] [example_line]"
    by (rule validated_lines_from_menu [OF example_lines])
  show "items_total_cents_of [example_line] = 2000" by code_simp
  show "validated_lines example_menu 7 [example_wanted\<lparr>in_options := []\<rparr>] 0 =
      raise_err InvalidInput (Some (SAY_OPTION_MISSING ''Sauce'' ''Ente''))" by code_simp
qed

end
