(* ===== verification/Delivery.thy ===== *)
theory Delivery
  imports Customers Status Menu
begin

text \<open>
  Where an order goes: the zone of a postal code (\<open>api/domain/delivery/zones.py\<close>), under whom a
  delivery runs and to which address (\<open>address.py\<close>), and the checks before the sum of an order
  (\<open>require_*\<close> of \<open>api/domain/ordering/validation.py\<close>).
\<close>

section \<open>api/domain/delivery/zones.py\<close>

definition POSTAL_CODE :: "str \<Rightarrow> bool" where
  "POSTAL_CODE s \<longleftrightarrow> length s = 5 \<and> list_all is_digit s"

definition SAY_POSTAL_CODE_NOT_UNDERSTOOD :: str where
  "SAY_POSTAL_CODE_NOT_UNDERSTOOD = ''Die Postleitzahl habe ich nicht verstanden. K'' @ [oe] @
     ''nnen Sie sie noch einmal sagen?''"
definition SAY_OUT_OF_ZONE_NO_PICKUP :: str where
  "SAY_OUT_OF_ZONE_NO_PICKUP = ''Dorthin liefern wir leider nicht.''"
definition SAY_OUT_OF_ZONE :: str where
  "SAY_OUT_OF_ZONE = SAY_OUT_OF_ZONE_NO_PICKUP @ '' M'' @ [oe] @ ''chten Sie stattdessen abholen?''"

record delivery_check =
  dc_zone_id :: uuid
  dc_zone_name :: str
  dc_fee_cents :: cents
  dc_min_order_cents :: cents
  dc_eta_minutes :: int

definition postal_digits :: "str \<Rightarrow> str" where
  "postal_digits s = concat (py_split s)"

definition out_of_zone_say :: "db \<Rightarrow> uuid \<Rightarrow> instant \<Rightarrow> str" where
  "out_of_zone_say d tid now =
     (case (get_tenant d tid, get_config d tid) of
        (Some t, Some c) \<Rightarrow> if pickup_open d tid c now (t_timezone t) then SAY_OUT_OF_ZONE
          else SAY_OUT_OF_ZONE_NO_PICKUP
      | _ \<Rightarrow> SAY_OUT_OF_ZONE_NO_PICKUP)"

definition zones_for :: "db \<Rightarrow> uuid \<Rightarrow> str \<Rightarrow> delivery_zone list" where
  "zones_for d tid code =
     filter (\<lambda>z. z_tenant_id z = tid \<and> z_active z \<and> z_by_postal_code z \<and> code \<in> set (postal_codes z))
       (delivery_zones d)"

definition check_delivery :: "db \<Rightarrow> uuid \<Rightarrow> str \<Rightarrow> instant \<Rightarrow> app_error + delivery_check" where
  "check_delivery d tid postal now =
     (let code = postal_digits postal in
      if \<not> POSTAL_CODE code then raise_err InvalidInput (Some SAY_POSTAL_CODE_NOT_UNDERSTOOD)
      else case zones_for d tid code of
             [] \<Rightarrow> raise_err OutOfZone (Some (out_of_zone_say d tid now))
           | [z] \<Rightarrow> Inr \<lparr>dc_zone_id = z_id z, dc_zone_name = z_name z, dc_fee_cents = z_fee_cents z,
                dc_min_order_cents = z_min_order_cents z, dc_eta_minutes = z_eta_minutes z\<rparr>
           | _ \<Rightarrow> raise_err ServiceUnavailable (Some SAY_ON_FAILURE))"

text \<open>The last zone answer of the call: the entries from the end.\<close>

fun last_zone_answer :: "tool_call list \<Rightarrow> bool" where
  "last_zone_answer [] = False"
| "last_zone_answer (e # es) =
     (if tc_error_code e = Some (err_code OutOfZone) then True
      else if tc_name e = ''check_delivery'' \<and> tc_ok e then False
      else last_zone_answer es)"

definition told_out_of_zone :: "db \<Rightarrow> uuid \<Rightarrow> uuid \<Rightarrow> bool" where
  "told_out_of_zone d tid cid =
     (case get_call d cid of None \<Rightarrow> False
      | Some c \<Rightarrow> c_tenant_id c = tid \<and> last_zone_answer (rev (tool_calls c)))"

section \<open>api/domain/ordering/validation.py: open, and enough\<close>

definition SAY_PICKUP_CLOSED :: str where
  "SAY_PICKUP_CLOSED = ''Abholung ist gerade leider nicht m'' @ [oe] @ ''glich.''"
definition SAY_DELIVERY_CLOSED :: str where
  "SAY_DELIVERY_CLOSED = ''Lieferung ist gerade leider nicht m'' @ [oe] @ ''glich.''"
definition SAY_OFFER_PICKUP :: str where
  "SAY_OFFER_PICKUP = ''M'' @ [oe] @ ''chten Sie abholen?''"
definition SAY_OFFER_DELIVERY :: str where
  "SAY_OFFER_DELIVERY = ''M'' @ [oe] @ ''chten Sie liefern lassen?''"
definition SAY_BELOW_MINIMUM :: "str \<Rightarrow> str" where
  "SAY_BELOW_MINIMUM missing = ''Bis zum Mindestbestellwert fehlen noch '' @ missing @
     ''. M'' @ [oe] @ ''chten Sie noch etwas dazunehmen?''"

definition pickup_closed_say :: "db \<Rightarrow> uuid \<Rightarrow> service_config \<Rightarrow> instant \<Rightarrow> zone \<Rightarrow> uuid \<Rightarrow> str" where
  "pickup_closed_say d tid c now z cid =
     (if delivery_enabled c \<and> call_mode c \<noteq> Paused \<and> service_open_at d tid now z Delivery \<and>
         \<not> told_out_of_zone d tid cid
      then SAY_PICKUP_CLOSED @ '' '' @ SAY_OFFER_DELIVERY else SAY_PICKUP_CLOSED)"

definition delivery_closed_say :: "db \<Rightarrow> uuid \<Rightarrow> service_config \<Rightarrow> instant \<Rightarrow> zone \<Rightarrow> str" where
  "delivery_closed_say d tid c now z =
     (if pickup_open d tid c now z then SAY_DELIVERY_CLOSED @ '' '' @ SAY_OFFER_PICKUP
      else SAY_DELIVERY_CLOSED)"

definition require_pickup_open ::
  "db \<Rightarrow> tenant \<Rightarrow> service_config \<Rightarrow> instant \<Rightarrow> uuid \<Rightarrow> app_error + unit" where
  "require_pickup_open d t c now cid =
     (let z = t_timezone t in
      if \<not> pickup_open d (t_id t) c now z
      then raise_err Closed (Some (pickup_closed_say d (t_id t) c now z cid)) else Inr ())"

definition require_delivery_open ::
  "db \<Rightarrow> tenant \<Rightarrow> service_config \<Rightarrow> instant \<Rightarrow> app_error + unit" where
  "require_delivery_open d t c now =
     (let z = t_timezone t in
      if \<not> delivery_enabled c \<or> call_mode c = Paused \<or> \<not> service_open_at d (t_id t) now z Delivery
      then raise_err Closed (Some (delivery_closed_say d (t_id t) c now z)) else Inr ())"

definition require_minimum :: "cents \<Rightarrow> delivery_check \<Rightarrow> app_error + unit" where
  "require_minimum items zone =
     (let missing = dc_min_order_cents zone - items in
      if missing > 0 then raise_err BelowMinimum (Some (SAY_BELOW_MINIMUM (spoken_euro missing)))
      else Inr ())"

section \<open>api/domain/delivery/address.py\<close>

definition SAY_WHICH_ADDRESS :: str where
  "SAY_WHICH_ADDRESS = ''An welche Adresse d'' @ [ue] @ ''rfen wir liefern? Bitte nennen Sie mir Postleitzahl, Stra'' @
     [sz] @ ''e und Hausnummer.''"
definition SAY_WHICH_NAME :: str where
  "SAY_WHICH_NAME = ''Auf welchen Namen darf ich die Bestellung notieren?''"

record order_address =
  oa_street :: str
  oa_house_number :: str
  oa_postal_code :: str
  oa_city :: str
  oa_floor_note :: "str option"

record order_customer =
  oc_name :: "str option"
  oc_phone :: str
  oc_address_id :: "uuid option"
  oc_address :: "order_address option"

record place =
  p_name :: str
  p_name_heard :: bool
  p_zone :: delivery_check
  p_spoken :: "order_address option"
  p_stored :: "address option"
  p_customer_id :: "uuid option"
  p_own_line :: bool

definition get_customer :: "db \<Rightarrow> uuid \<Rightarrow> customer option" where
  "get_customer d i = find (\<lambda>c. cu_id c = i) (customers d)"

definition or_empty :: "str option \<Rightarrow> str" where
  "or_empty s = (case s of None \<Rightarrow> [] | Some x \<Rightarrow> x)"

definition blocked_line :: "db \<Rightarrow> uuid \<Rightarrow> str \<Rightarrow> str option \<Rightarrow> bool" where
  "blocked_line d tid phone line \<longleftrightarrow>
     list_ex (\<lambda>c. cu_tenant_id c = tid \<and> (cu_phone c = phone \<or> Some (cu_phone c) = line) \<and> blocked c)
       (customers d)"

text \<open>\<open>place\<close> only reads: the address said, or the stored default of the customer who is recognised
  on the line.\<close>

definition find_place ::
  "db \<Rightarrow> uuid \<Rightarrow> order_customer \<Rightarrow> str \<Rightarrow> str option \<Rightarrow> instant \<Rightarrow> app_error + place" where
  "find_place d tid wanted phone line now =
     (let name = py_strip (or_empty (oc_name wanted)) in
      if blocked_line d tid phone line then raise_err ServiceUnavailable (Some SAY_ON_FAILURE)
      else if oc_address wanted = None \<and> oc_address_id wanted = None
      then raise_err InvalidInput (Some SAY_WHICH_ADDRESS)
      else let own_line = (Some phone = line) in
        andthen (if own_line then find_customer d tid phone (if name = [] then None else Some name)
                 else Inr not_found_match) (\<lambda>m.
          if oc_address wanted = None \<and> (\<not> cm_found m \<or> cm_address_id m \<noteq> oc_address_id wanted)
          then raise_err InvalidInput (Some SAY_WHICH_ADDRESS)
          else let known = Option.bind (cm_customer_id m) (get_customer d);
                   runs_under = (if name \<noteq> [] then name
                                 else case known of Some c \<Rightarrow> cu_name c | None \<Rightarrow> [])
               in if runs_under = [] then raise_err InvalidInput (Some SAY_WHICH_NAME)
                  else andthen
                    (case oc_address wanted of
                       Some a \<Rightarrow> Inr (oa_postal_code a, None)
                     | None \<Rightarrow> (case Option.bind (oc_address_id wanted) (get_address d) of
                                 None \<Rightarrow> raise_err UncaughtError None
                               | Some s \<Rightarrow> Inr (postal_code s, Some s))) (\<lambda>(postal, stored).
                    andthen (check_delivery d tid postal now) (\<lambda>zone.
                      Inr \<lparr>p_name = runs_under, p_name_heard = (name \<noteq> []), p_zone = zone,
                           p_spoken = oc_address wanted, p_stored = stored,
                           p_customer_id = map_option cu_id known, p_own_line = own_line\<rparr>))))"

text \<open>\<open>_customer\<close>: the recognised one, the row an earlier draft of this call wrote, or a new row.\<close>

definition customers_of_call :: "db \<Rightarrow> uuid \<Rightarrow> str \<Rightarrow> customer list" where
  "customers_of_call d cid phone =
     sort_key cu_created_at (filter (\<lambda>c. cu_phone c = phone \<and>
       list_ex (\<lambda>r. o_customer_id r = Some (cu_id c) \<and> o_call_id r = cid) (orders d)) (customers d))"

definition new_customer :: "uuid \<Rightarrow> str \<Rightarrow> str \<Rightarrow> db \<Rightarrow> customer" where
  "new_customer tid phone name d =
     \<lparr>cu_id = next_id d, cu_tenant_id = tid, cu_phone = phone, cu_name = name, last_order_at = None,
      last_contact_at = tx_now d, order_count = 0, blocked = False, cu_created_at = tx_now d\<rparr>"

definition keep_customer ::
  "uuid \<Rightarrow> uuid \<Rightarrow> str \<Rightarrow> place \<Rightarrow> db \<Rightarrow> app_error + customer \<times> db" where
  "keep_customer tid cid phone pl d =
     (case p_customer_id pl of
        Some i \<Rightarrow> (case get_customer d i of None \<Rightarrow> raise_err UncaughtError None | Some c \<Rightarrow> Inr (c, d))
      | None \<Rightarrow>
          (case (if p_own_line pl \<and> \<not> objected d tid phone
                 then find (\<lambda>c. fold_name (cu_name c) = fold_name (p_name pl)) (customers_of_call d cid phone)
                 else None) of
             Some c \<Rightarrow> Inr (c, d)
           | None \<Rightarrow> let c = new_customer tid phone (p_name pl) d
                     in Inr (c, d\<lparr>customers := customers d @ [c], next_id := Suc (next_id d)\<rparr>)))"

text \<open>\<open>_wanted\<close> and \<open>_same\<close>\<close>

definition wanted_address :: "uuid \<Rightarrow> uuid \<Rightarrow> order_address \<Rightarrow> db \<Rightarrow> address" where
  "wanted_address tid cu said d =
     \<lparr>a_id = next_id d, a_tenant_id = tid, a_customer_id = cu, street = py_strip (oa_street said),
      house_number = py_strip (oa_house_number said), postal_code = postal_digits (oa_postal_code said),
      city = py_strip (oa_city said),
      floor_note = (let n = py_strip (or_empty (oa_floor_note said)) in if n = [] then None else Some n),
      a_zone_id = None, a_is_default = False\<rparr>"

definition same_key :: "address \<Rightarrow> str list" where
  "same_key a = map fold_name [street a, house_number a, postal_code a, city a, or_empty (floor_note a)]"

definition same_address :: "address \<Rightarrow> order_address \<Rightarrow> db \<Rightarrow> bool" where
  "same_address a said d \<longleftrightarrow> same_key a = same_key (wanted_address (a_tenant_id a) (a_customer_id a) said d)"

definition address_row :: "uuid \<Rightarrow> uuid \<Rightarrow> order_address \<Rightarrow> db \<Rightarrow> address \<times> db" where
  "address_row tid cu said d =
     (let wanted = wanted_address tid cu said d in
      case find (\<lambda>a. a_customer_id a = cu \<and> same_key a = same_key wanted) (addresses d) of
        Some a \<Rightarrow> (a, d)
      | None \<Rightarrow> (wanted, d\<lparr>addresses := addresses d @ [wanted], next_id := Suc (next_id d)\<rparr>))"

definition keep ::
  "uuid \<Rightarrow> uuid \<Rightarrow> str \<Rightarrow> place \<Rightarrow> db \<Rightarrow> app_error + (customer \<times> address) \<times> db" where
  "keep tid cid phone pl d =
     andthen (keep_customer tid cid phone pl d) (\<lambda>(c, d).
       andthen (case p_stored pl of
                  Some a \<Rightarrow> Inr (a, d)
                | None \<Rightarrow> (case p_spoken pl of None \<Rightarrow> raise_err UncaughtError None
                           | Some said \<Rightarrow> Inr (address_row tid (cu_id c) said d))) (\<lambda>(a, d).
         let zid = Some (dc_zone_id (p_zone pl))
         in Inr ((c, a\<lparr>a_zone_id := zid\<rparr>),
              d\<lparr>addresses := upd_rows (\<lambda>x. a_id x = a_id a) (\<lambda>x. x\<lparr>a_zone_id := zid\<rparr>) (addresses d)\<rparr>)))"

end
