(* ===== verification/Outbox.thy ===== *)
theory Outbox
  imports Store
begin

text \<open>
  The cold path: \<open>api/events/types.py\<close>, \<open>api/events/outbox.py\<close> (write an event, book a delivery
  or a failed attempt) and \<open>api/events/dispatcher.py\<close> (drain the outbox towards n8n). The HTTP
  request to n8n is a parameter: what the \<open>i\<close>-th sending of a run answers.
\<close>

section \<open>api/events/types.py\<close>

definition ORDER_CONFIRMED :: str where "ORDER_CONFIRMED = ''order.confirmed''"
definition RESERVATION_CONFIRMED :: str where "RESERVATION_CONFIRMED = ''reservation.confirmed''"
definition CALLBACK_CREATED :: str where "CALLBACK_CREATED = ''callback.created''"
definition ORDER_HANDOVER_FAILED :: str where "ORDER_HANDOVER_FAILED = ''order.handover_failed''"
definition DAILY_REPORT :: str where "DAILY_REPORT = ''daily.report''"

lemmas event_names = ORDER_CONFIRMED_def RESERVATION_CONFIRMED_def CALLBACK_CREATED_def
  ORDER_HANDOVER_FAILED_def DAILY_REPORT_def

definition EVENT_TYPES :: "str list" where
  "EVENT_TYPES = [ORDER_CONFIRMED, RESERVATION_CONFIRMED, CALLBACK_CREATED,
     ORDER_HANDOVER_FAILED, DAILY_REPORT]"

text \<open>What the print bridge fetches; the dispatcher leaves it alone.\<close>

definition KITCHEN :: "str list" where "KITCHEN = [ORDER_CONFIRMED]"

section \<open>api/events/outbox.py\<close>

definition BACKOFF_SECONDS :: "int list" where "BACKOFF_SECONDS = [5, 30, 120, 600]"
definition MAX_ATTEMPTS :: nat where "MAX_ATTEMPTS = length BACKOFF_SECONDS + 1"
definition LAST_ERROR_MAX :: nat where "LAST_ERROR_MAX = 500"

lemma MAX_ATTEMPTS_5: "MAX_ATTEMPTS = 5"
  by (simp add: MAX_ATTEMPTS_def BACKOFF_SECONDS_def)

text \<open>The new row with the defaults of the table: pending, no attempt, due at once.\<close>

definition new_event :: "uuid \<Rightarrow> str \<Rightarrow> json \<Rightarrow> db \<Rightarrow> outbox_event" where
  "new_event tid etype payload d =
     \<lparr>ev_id = next_id d, ev_tenant_id = tid, event_type = etype, ev_payload = payload,
      ev_status = PENDING, attempts = 0, next_attempt_at = tx_now d, last_error = None,
      sent_at = None, ev_created_at = tx_now d\<rparr>"

definition enqueue :: "uuid \<Rightarrow> str \<Rightarrow> json \<Rightarrow> db \<Rightarrow> app_error + outbox_event \<times> db" where
  "enqueue tid etype payload d =
     (if etype \<notin> set EVENT_TYPES then raise_err UncaughtError None
      else let e = new_event tid etype payload d
           in Inr (e, d\<lparr>outbox := outbox d @ [e], next_id := Suc (next_id d)\<rparr>))"

definition mark_sent :: "instant \<Rightarrow> bool \<Rightarrow> outbox_event \<Rightarrow> outbox_event" where
  "mark_sent now count_attempt e =
     e\<lparr>ev_status := SENT, sent_at := Some now,
       attempts := (if count_attempt then Suc (attempts e) else attempts e),
       last_error := None\<rparr>"

text \<open>\<open>BACKOFF_SECONDS[event.attempts - 1]\<close>: before any attempt the index is -1, the last.\<close>

definition backoff :: "nat \<Rightarrow> int" where
  "backoff n = (if n = 0 then last BACKOFF_SECONDS else BACKOFF_SECONDS ! (n - 1))"

definition mark_attempt_failed ::
  "str \<Rightarrow> instant \<Rightarrow> bool \<Rightarrow> outbox_event \<Rightarrow> bool \<times> outbox_event" where
  "mark_attempt_failed err now count_attempt e =
     (let n = (if count_attempt then Suc (attempts e) else attempts e);
          e = e\<lparr>attempts := n, last_error := Some (take LAST_ERROR_MAX err)\<rparr>
      in if n \<ge> MAX_ATTEMPTS
         then (True, e\<lparr>ev_status := FAILED, next_attempt_at := now\<rparr>)
         else (False, e\<lparr>next_attempt_at := now + backoff n * SECOND\<rparr>))"

lemma backoff_pos: "n < MAX_ATTEMPTS \<Longrightarrow> 5 \<le> backoff n"
proof -
  assume "n < MAX_ATTEMPTS"
  then have "n \<in> {0, 1, 2, 3, 4}" by (auto simp: MAX_ATTEMPTS_5)
  then show ?thesis by (auto simp: backoff_def BACKOFF_SECONDS_def)
qed

lemma enqueue_known [simp]:
  "etype \<in> set EVENT_TYPES \<Longrightarrow> enqueue tid etype payload d =
     Inr (new_event tid etype payload d,
       d\<lparr>outbox := outbox d @ [new_event tid etype payload d], next_id := Suc (next_id d)\<rparr>)"
  by (simp add: enqueue_def Let_def)

lemma mark_sent_sel [simp]:
  "ev_id (mark_sent now c e) = ev_id e" "ev_tenant_id (mark_sent now c e) = ev_tenant_id e"
  "event_type (mark_sent now c e) = event_type e" "ev_payload (mark_sent now c e) = ev_payload e"
  "ev_status (mark_sent now c e) = SENT" "sent_at (mark_sent now c e) = Some now"
  "next_attempt_at (mark_sent now c e) = next_attempt_at e"
  "ev_created_at (mark_sent now c e) = ev_created_at e"
  "attempts (mark_sent now c e) = (if c then Suc (attempts e) else attempts e)"
  "last_error (mark_sent now c e) = None"
  by (simp_all add: mark_sent_def)

lemma mark_attempt_failed_sel [simp]:
  "ev_id (snd (mark_attempt_failed err now c e)) = ev_id e"
  "ev_tenant_id (snd (mark_attempt_failed err now c e)) = ev_tenant_id e"
  "event_type (snd (mark_attempt_failed err now c e)) = event_type e"
  "ev_payload (snd (mark_attempt_failed err now c e)) = ev_payload e"
  "ev_created_at (snd (mark_attempt_failed err now c e)) = ev_created_at e"
  "sent_at (snd (mark_attempt_failed err now c e)) = sent_at e"
  "attempts (snd (mark_attempt_failed err now c e)) = (if c then Suc (attempts e) else attempts e)"
  "last_error (snd (mark_attempt_failed err now c e)) = Some (take LAST_ERROR_MAX err)"
  by (simp_all add: mark_attempt_failed_def Let_def)

section \<open>api/events/dispatcher.py\<close>

record dispatch_result =
  res_sent :: nat
  res_retried :: nat
  res_failed :: nat

definition handled :: "dispatch_result \<Rightarrow> nat" where
  "handled r = res_sent r + res_retried r + res_failed r"

definition event_due :: "instant \<Rightarrow> outbox_event \<Rightarrow> bool" where
  "event_due now e \<longleftrightarrow> ev_status e = PENDING \<and> next_attempt_at e \<le> now \<and> event_type e \<notin> set KITCHEN"

text \<open>\<open>locked\<close> are the rows another transaction holds: SKIP LOCKED passes over them.\<close>

definition claim_due :: "(uuid \<Rightarrow> bool) \<Rightarrow> instant \<Rightarrow> outbox_event list \<Rightarrow> outbox_event option" where
  "claim_due locked now es =
     (case sort_key next_attempt_at (filter (\<lambda>e. event_due now e \<and> \<not> locked (ev_id e)) es) of
        [] \<Rightarrow> None | e # _ \<Rightarrow> Some e)"

text \<open>One sending: \<open>None\<close> is a delivery, \<open>Some\<close> the text of the exception. The event is booked by
  the rules of the outbox and the counters of the run follow.\<close>

definition book :: "str option \<Rightarrow> instant \<Rightarrow> outbox_event \<Rightarrow> outbox_event" where
  "book answer now e =
     (case answer of None \<Rightarrow> mark_sent now True e
      | Some exc \<Rightarrow> snd (mark_attempt_failed exc now True e))"

definition count_result ::
  "str option \<Rightarrow> instant \<Rightarrow> outbox_event \<Rightarrow> dispatch_result \<Rightarrow> dispatch_result" where
  "count_result answer now e r =
     (case answer of None \<Rightarrow> r\<lparr>res_sent := Suc (res_sent r)\<rparr>
      | Some exc \<Rightarrow> (if fst (mark_attempt_failed exc now True e)
                    then r\<lparr>res_failed := Suc (res_failed r)\<rparr>
                    else r\<lparr>res_retried := Suc (res_retried r)\<rparr>))"

fun dispatch_loop ::
  "(nat \<Rightarrow> outbox_event \<Rightarrow> str option) \<Rightarrow> (uuid \<Rightarrow> bool) \<Rightarrow> (nat \<Rightarrow> instant) \<Rightarrow> nat \<Rightarrow> nat
   \<Rightarrow> dispatch_result \<Rightarrow> outbox_event list \<Rightarrow> dispatch_result \<times> outbox_event list" where
  "dispatch_loop send locked clock i 0 r es = (r, es)"
| "dispatch_loop send locked clock i (Suc n) r es =
     (case claim_due locked (clock i) es of None \<Rightarrow> (r, es)
      | Some e \<Rightarrow>
          dispatch_loop send locked clock (Suc i) n (count_result (send i e) (clock i) e r)
            (upd_rows (\<lambda>x. ev_id x = ev_id e) (\<lambda>x. book (send i x) (clock i) x) es))"

definition dispatch_once ::
  "(nat \<Rightarrow> outbox_event \<Rightarrow> str option) \<Rightarrow> (uuid \<Rightarrow> bool) \<Rightarrow> (nat \<Rightarrow> instant) \<Rightarrow> nat
   \<Rightarrow> db \<Rightarrow> dispatch_result \<times> db" where
  "dispatch_once send locked clock limit d =
     (let (r, es) = dispatch_loop send locked clock 0 limit
            \<lparr>res_sent = 0, res_retried = 0, res_failed = 0\<rparr> (outbox d)
      in (r, d\<lparr>outbox := es\<rparr>))"

section \<open>What the outbox rules keep\<close>

text \<open>A row of the dispatcher: pending rows still have an attempt left, failed ones have none, and
  a sent row has its time.\<close>

definition event_ok :: "outbox_event \<Rightarrow> bool" where
  "event_ok e \<longleftrightarrow>
     (case ev_status e of
        PENDING \<Rightarrow> attempts e < MAX_ATTEMPTS
      | SENT \<Rightarrow> attempts e \<le> MAX_ATTEMPTS \<and> sent_at e \<noteq> None \<and> last_error e = None
      | FAILED \<Rightarrow> attempts e = MAX_ATTEMPTS \<and> last_error e \<noteq> None)"

lemma book_sel [simp]:
  "ev_id (book a now e) = ev_id e" "event_type (book a now e) = event_type e"
  "ev_payload (book a now e) = ev_payload e" "attempts (book a now e) = Suc (attempts e)"
  "ev_created_at (book a now e) = ev_created_at e" "ev_tenant_id (book a now e) = ev_tenant_id e"
  by (simp_all add: book_def split: option.split)

lemma book_not_due: "\<not> event_due now (book a now e)"
proof (cases a)
  case None
  then show ?thesis by (simp add: book_def event_due_def)
next
  case (Some exc)
  then show ?thesis
    using backoff_pos [of "Suc (attempts e)"]
    by (auto simp: book_def event_due_def mark_attempt_failed_def Let_def SECOND_def)
qed

lemma book_ok: "ev_status e = PENDING \<Longrightarrow> event_ok e \<Longrightarrow> event_ok (book a now e)"
  by (auto simp: book_def event_ok_def mark_attempt_failed_def mark_sent_def Let_def
      split: option.splits)

lemma claim_due_Some:
  "claim_due locked now es = Some e \<Longrightarrow>
   e \<in> set es \<and> event_due now e \<and> \<not> locked (ev_id e) \<and>
   (\<forall>x \<in> set es. event_due now x \<and> \<not> locked (ev_id x) \<longrightarrow> next_attempt_at e \<le> next_attempt_at x)"
proof -
  let ?fs = "filter (\<lambda>e. event_due now e \<and> \<not> locked (ev_id e)) es"
  assume "claim_due locked now es = Some e"
  then obtain rest where srt: "sort_key next_attempt_at ?fs = e # rest"
    by (auto simp: claim_due_def split: list.splits)
  have "sorted (map next_attempt_at (e # rest))" using sorted_sort_key srt by metis
  moreover have "set (e # rest) = set ?fs" using set_sort srt by metis
  ultimately show ?thesis by auto
qed

lemma claim_due_None:
  "claim_due locked now es = None \<longleftrightarrow> (\<forall>e \<in> set es. \<not> (event_due now e \<and> \<not> locked (ev_id e)))"
proof -
  let ?fs = "filter (\<lambda>e. event_due now e \<and> \<not> locked (ev_id e)) es"
  have "claim_due locked now es = None \<longleftrightarrow> sort_key next_attempt_at ?fs = []"
    by (auto simp: claim_due_def split: list.splits)
  also have "\<dots> \<longleftrightarrow> ?fs = []" by (rule sort_key_Nil)
  also have "\<dots> \<longleftrightarrow> (\<forall>e \<in> set es. \<not> (event_due now e \<and> \<not> locked (ev_id e)))"
    by (simp add: filter_empty_conv)
  finally show ?thesis .
qed

interpretation dispatcher: drain ev_id "\<lambda>e. event_due now e \<and> \<not> locked (ev_id e)"
  "claim_due locked now" "\<lambda>i e. book (send i e) now e" for now locked send
proof unfold_locales
  show "e \<in> set es \<and> event_due now e \<and> \<not> locked (ev_id e)"
    if "claim_due locked now es = Some e" for es e
    using claim_due_Some [OF that] by blast
  show "\<not> (event_due now e \<and> \<not> locked (ev_id e))"
    if "claim_due locked now es = None" "e \<in> set es" for es e
    using that claim_due_None by blast
qed (simp_all add: book_not_due)

lemma dispatch_loop_rounds:
  "snd (dispatch_loop send locked (\<lambda>_. now) i n r es) = dispatcher.rounds locked now send i n es"
  by (induction n arbitrary: i r es) (simp_all split: option.split)

lemma distinct_ids_book:
  "distinct (map ev_id es) \<Longrightarrow>
   distinct (map ev_id (upd_rows p (\<lambda>x. book (f x) now x) es))"
  by (simp add: map_upd_rows)

lemma rows_of_id:
  "distinct (map ev_id es) \<Longrightarrow> e \<in> set es \<Longrightarrow> x \<in> set es \<Longrightarrow> ev_id x = ev_id e \<Longrightarrow> x = e"
  by (auto simp: distinct_map inj_on_def)

text \<open>Whatever holds of every row and survives a booking holds after a run.\<close>

lemma dispatch_loop_keeps:
  assumes "distinct (map ev_id es)" and "\<forall>e \<in> set es. P e"
    and "\<And>e a now. P e \<Longrightarrow> event_due now e \<Longrightarrow> P (book a now e)"
  shows "\<forall>e \<in> set (snd (dispatch_loop send locked clock i n r es)). P e"
  using assms(1,2)
proof (induction n arbitrary: i r es)
  case 0
  then show ?case by simp
next
  case (Suc n)
  show ?case
  proof (cases "claim_due locked (clock i) es")
    case None
    then show ?thesis using Suc.prems by simp
  next
    case (Some e)
    from claim_due_Some [OF Some] have e: "e \<in> set es" "event_due (clock i) e" by blast+
    let ?es = "upd_rows (\<lambda>x. ev_id x = ev_id e) (\<lambda>x. book (send i x) (clock i) x) es"
    have "P (book (send i x) (clock i) x)" if "x \<in> set es" "ev_id x = ev_id e" for x
      using rows_of_id [OF Suc.prems(1) e(1) that] e Suc.prems(2) assms(3) by blast
    then have "\<forall>x \<in> set ?es. P x" using Suc.prems(2) by (auto simp: set_upd_rows)
    then show ?thesis
      using Suc.IH [OF distinct_ids_book [OF Suc.prems(1)]] Some by simp
  qed
qed

lemma dispatch_once_outbox:
  "outbox (snd (dispatch_once send locked clock limit d)) =
   snd (dispatch_loop send locked clock 0 limit
          \<lparr>res_sent = 0, res_retried = 0, res_failed = 0\<rparr> (outbox d))"
  by (simp add: dispatch_once_def case_prod_beta)

lemma handled_count_result: "handled (count_result a now e r) = Suc (handled r)"
  by (auto simp: handled_def count_result_def split: option.split)

lemma dispatch_loop_handled:
  assumes "distinct (map ev_id es)"
  shows "handled (fst (dispatch_loop send locked (\<lambda>_. now) i n r es)) = handled r +
    min n (length (filter (\<lambda>e. event_due now e \<and> \<not> locked (ev_id e)) es))"
  using assms
proof (induction n arbitrary: i r es)
  case 0
  then show ?case by simp
next
  case (Suc n)
  show ?case
  proof (cases "claim_due locked now es")
    case None
    then have "filter (\<lambda>e. event_due now e \<and> \<not> locked (ev_id e)) es = []"
      using claim_due_None by (simp add: filter_empty_conv)
    then show ?thesis using None by simp
  next
    case (Some e)
    from claim_due_Some [OF Some] have e: "e \<in> set es" "event_due now e \<and> \<not> locked (ev_id e)"
      by blast+
    let ?es = "upd_rows (\<lambda>x. ev_id x = ev_id e) (\<lambda>x. book (send i x) now x) es"
    have "length (filter (\<lambda>e. event_due now e \<and> \<not> locked (ev_id e)) es) =
        Suc (length (filter (\<lambda>e. event_due now e \<and> \<not> locked (ev_id e)) ?es))"
      using dispatcher.count_due_step [where now = now and locked = locked and send = send and i = i,
          OF Suc.prems e] .
    then show ?thesis
      using Suc.IH [OF distinct_ids_book [OF Suc.prems]] Some by (simp add: handled_count_result)
  qed
qed

text \<open>One run of the dispatcher with room for every due event leaves none due: each is delivered,
  given up, or put off to a later moment, and the kitchen tickets are not touched.\<close>

theorem dispatch_once_drains:
  assumes "distinct (map ev_id (outbox d))"
    and "length (filter (\<lambda>e. event_due now e \<and> \<not> locked (ev_id e)) (outbox d)) \<le> limit"
  shows "(\<forall>e \<in> set (outbox (snd (dispatch_once send locked (\<lambda>_. now) limit d))).
       event_due now e \<longrightarrow> locked (ev_id e)) \<and>
    handled (fst (dispatch_once send locked (\<lambda>_. now) limit d)) =
      length (filter (\<lambda>e. event_due now e \<and> \<not> locked (ev_id e)) (outbox d))"
proof
  show "\<forall>e \<in> set (outbox (snd (dispatch_once send locked (\<lambda>_. now) limit d))).
      event_due now e \<longrightarrow> locked (ev_id e)"
    using dispatcher.rounds_drain [OF assms]
    by (auto simp: dispatch_once_outbox dispatch_loop_rounds)
  show "handled (fst (dispatch_once send locked (\<lambda>_. now) limit d)) =
      length (filter (\<lambda>e. event_due now e \<and> \<not> locked (ev_id e)) (outbox d))"
    using dispatch_loop_handled [OF assms(1)] assms(2)
    by (simp add: dispatch_once_def case_prod_beta handled_def)
qed

definition example_events :: "outbox_event list" where
  "example_events =
     [(new_event 7 DAILY_REPORT JNull empty_db)\<lparr>ev_id := 1, next_attempt_at := 30, attempts := 4\<rparr>,
      (new_event 7 RESERVATION_CONFIRMED JNull empty_db)\<lparr>ev_id := 2, next_attempt_at := 20\<rparr>,
      (new_event 7 ORDER_CONFIRMED JNull empty_db)\<lparr>ev_id := 3\<rparr>]"

text \<open>Two events are due at 50; n8n takes the second and refuses the first for the fifth time.\<close>

theorem dispatch_once_drains_witness:
  "handled (fst (dispatch_once (\<lambda>_ e. if ev_id e = 1 then Some ''down'' else None) (\<lambda>_. False)
     (\<lambda>_. 50) 10 (empty_db\<lparr>outbox := example_events\<rparr>))) = 2 \<and>
   map ev_status (outbox (snd (dispatch_once (\<lambda>_ e. if ev_id e = 1 then Some ''down'' else None)
     (\<lambda>_. False) (\<lambda>_. 50) 10 (empty_db\<lparr>outbox := example_events\<rparr>)))) = [FAILED, SENT, PENDING]"
proof -
  let ?send = "\<lambda>(_ :: nat) e. if ev_id e = 1 then Some ''down'' else None"
  have h1: "distinct (map ev_id (outbox (empty_db\<lparr>outbox := example_events\<rparr>)))"
    by (simp add: example_events_def)
  have due: "filter (\<lambda>e. event_due 50 e \<and> \<not> (\<lambda>_. False) (ev_id e))
      (outbox (empty_db\<lparr>outbox := example_events\<rparr>)) = take 2 example_events"
    by (simp add: example_events_def event_due_def new_event_def empty_db_def KITCHEN_def
        event_names)
  have "map ev_status (outbox (snd (dispatch_once ?send (\<lambda>_. False) (\<lambda>_. 50) 10
      (empty_db\<lparr>outbox := example_events\<rparr>)))) = [FAILED, SENT, PENDING]"
    by code_simp
  moreover have "handled (fst (dispatch_once ?send (\<lambda>_. False) (\<lambda>_. 50) 10
      (empty_db\<lparr>outbox := example_events\<rparr>))) = 2"
    using dispatch_once_drains [OF h1, where now = 50 and locked = "\<lambda>_. False" and limit = 10
        and send = ?send] by (simp only: due) (simp add: example_events_def)
  ultimately show ?thesis by blast
qed

text \<open>No run of the dispatcher breaks the outbox: a pending event has an attempt left, a failed one
  used all five and names its error, a sent one has its time, whatever n8n answers, whichever rows
  are locked and however the clock runs.\<close>

theorem dispatch_once_event_ok:
  assumes "distinct (map ev_id (outbox d))" and "\<forall>e \<in> set (outbox d). event_ok e"
  shows "\<forall>e \<in> set (outbox (snd (dispatch_once send locked clock limit d))). event_ok e"
  unfolding dispatch_once_outbox
  by (rule dispatch_loop_keeps [OF assms]) (auto simp: event_due_def intro: book_ok)

theorem dispatch_once_event_ok_witness:
  "\<exists>d. outbox d = example_events \<and>
     list_all event_ok (outbox (snd (dispatch_once (\<lambda>_ _. Some ''down'') (\<lambda>_. False) int 3 d)))"
proof (intro exI conjI)
  let ?d = "empty_db\<lparr>outbox := example_events\<rparr>"
  show "outbox ?d = example_events" by simp
  have h: "distinct (map ev_id (outbox ?d))" "\<forall>e \<in> set (outbox ?d). event_ok e"
    by (simp_all add: example_events_def event_ok_def new_event_def MAX_ATTEMPTS_5)
  show "list_all event_ok
      (outbox (snd (dispatch_once (\<lambda>_ _. Some ''down'') (\<lambda>_. False) int 3 ?d)))"
    using dispatch_once_event_ok [OF h] by (simp add: list_all_iff)
qed

text \<open>The attempts of one event that n8n never takes: the moments it is tried.\<close>

fun failing_attempts :: "instant \<Rightarrow> nat \<Rightarrow> outbox_event \<Rightarrow> instant list \<times> outbox_event" where
  "failing_attempts now 0 e = ([], e)"
| "failing_attempts now (Suc n) e =
     (if event_due now e
      then let e' = book (Some ''x'') now e;
               (ts, e'') = failing_attempts (next_attempt_at e') n e'
           in (now # ts, e'')
      else ([], e))"

lemma failing_stop: "\<not> event_due now e \<Longrightarrow> failing_attempts now n e = ([], e)"
  by (cases n) simp_all

lemma failing_retry:
  assumes "event_due now e" and "attempts e = k" and "k < 4"
  shows "book (Some ''x'') now e = e\<lparr>attempts := Suc k, last_error := Some ''x'',
      next_attempt_at := now + BACKOFF_SECONDS ! k * SECOND\<rparr>"
    and "event_due (now + BACKOFF_SECONDS ! k * SECOND) (book (Some ''x'') now e)"
  using assms
  by (simp_all add: book_def mark_attempt_failed_def Let_def event_due_def MAX_ATTEMPTS_5
      LAST_ERROR_MAX_def backoff_def)

lemma failing_step:
  assumes "event_due now e" and "attempts e = k" and "k < 4"
  shows "failing_attempts now (Suc n) e =
     (let (ts, e') = failing_attempts (now + BACKOFF_SECONDS ! k * SECOND) n (book (Some ''x'') now e)
      in (now # ts, e'))"
  using assms failing_retry(1) [OF assms] by (simp add: Let_def)

text \<open>C33. An event n8n never takes is tried exactly five times, after 5 s, 30 s, 2 min and 10 min more,
  and then fails for good: it is never due again and nothing is retried without end.\<close>

theorem failing_event_gives_up:
  assumes "event_due now e" and "attempts e = 0" and "5 \<le> n"
  shows "fst (failing_attempts now n e) =
      [now, now + 5 * SECOND, now + 35 * SECOND, now + 155 * SECOND, now + 755 * SECOND] \<and>
    ev_status (snd (failing_attempts now n e)) = FAILED \<and>
    attempts (snd (failing_attempts now n e)) = MAX_ATTEMPTS \<and>
    \<not> event_due later (snd (failing_attempts now n e))"
proof -
  obtain m where n: "n = Suc (Suc (Suc (Suc (Suc m))))"
    using le_Suc_ex [OF assms(3)] by (auto simp: eval_nat_numeral)
  let ?e = "\<lambda>k t e. book (Some ''x'') t e"
  define t1 where "t1 = now + 5 * SECOND"
  define t2 where "t2 = t1 + 30 * SECOND"
  define t3 where "t3 = t2 + 120 * SECOND"
  define t4 where "t4 = t3 + 600 * SECOND"
  define e1 where "e1 = book (Some ''x'') now e"
  define e2 where "e2 = book (Some ''x'') t1 e1"
  define e3 where "e3 = book (Some ''x'') t2 e2"
  define e4 where "e4 = book (Some ''x'') t3 e3"
  define e5 where "e5 = book (Some ''x'') t4 e4"
  note b = BACKOFF_SECONDS_def
  have d1: "event_due t1 e1" and a1: "attempts e1 = 1"
    using failing_retry(2) [OF assms(1,2)] assms(2) by (simp_all add: t1_def e1_def b)
  have d2: "event_due t2 e2" and a2: "attempts e2 = 2"
    using failing_retry(2) [OF d1 a1] a1 by (simp_all add: t2_def e2_def b)
  have d3: "event_due t3 e3" and a3: "attempts e3 = 3"
    using failing_retry(2) [OF d2 a2] a2 by (simp_all add: t3_def e3_def b)
  have d4: "event_due t4 e4" and a4: "attempts e4 = 4"
    using failing_retry(2) [OF d3 a3] a3 by (simp_all add: t4_def e4_def b)
  have e5: "ev_status e5 = FAILED" "attempts e5 = 5"
    using a4 by (simp_all add: e5_def book_def mark_attempt_failed_def Let_def MAX_ATTEMPTS_5)
  then have nd: "\<not> event_due u e5" for u by (simp add: event_due_def)
  have "failing_attempts now n e = ([now, t1, t2, t3, t4], e5)"
    using failing_step [OF assms(1,2)] failing_step [OF d1 a1] failing_step [OF d2 a2]
      failing_step [OF d3 a3] d4 failing_stop [OF nd]
    by (simp add: n b Let_def flip: t1_def e1_def t2_def e2_def t3_def e3_def t4_def e4_def e5_def)
  then show ?thesis
    using e5 nd by (simp add: MAX_ATTEMPTS_5 t1_def t2_def t3_def t4_def)
qed

theorem failing_event_gives_up_witness:
  "ev_status (snd (failing_attempts 20 5 (hd (tl example_events)))) = FAILED"
proof -
  have "event_due 20 (hd (tl example_events))" "attempts (hd (tl example_events)) = 0"
    by (simp_all add: example_events_def event_due_def new_event_def KITCHEN_def event_names)
  from failing_event_gives_up [OF this, of 5 0] show ?thesis by simp
qed

end
