(* ===== verification/Ticket.thy ===== *)
theory Ticket
  imports Menu Spoken Outbox
begin

text \<open>
  The kitchen slip of an order: the names as they were read to the guest
  (\<open>api/domain/ordering/labels.py\<close>), the payload of the event (\<open>order_event_payload\<close> in
  \<open>api/domain/ordering/confirm.py\<close>) and the rule that no old state overtakes a new one
  (\<open>api/domain/ordering/ticket.py\<close>).
\<close>

section \<open>api/domain/ordering/labels.py\<close>

definition ACTION_DRAFT_CREATED :: str where "ACTION_DRAFT_CREATED = ''order.draft_created''"
definition ACTION_CORRECTED :: str where "ACTION_CORRECTED = ''order.corrected''"
definition LABEL_ACTIONS :: "str list" where
  "LABEL_ACTIONS = [ACTION_DRAFT_CREATED, ACTION_CORRECTED]"

text \<open>Number and name per position, as the JSON list of lists of the audit log.\<close>

type_synonym labels = "(str \<times> str) list"

definition labels_json :: "labels \<Rightarrow> json" where
  "labels_json ls = JList (map (\<lambda>(n, m). JList [JStr n, JStr m]) ls)"

fun label_of_json :: "json \<Rightarrow> (str \<times> str) option" where
  "label_of_json (JList [JStr n, JStr m]) = Some (n, m)"
| "label_of_json _ = None"

fun all_some :: "'a option list \<Rightarrow> 'a list option" where
  "all_some [] = Some []"
| "all_some (None # xs) = None"
| "all_some (Some x # xs) = map_option ((#) x) (all_some xs)"

fun labels_of_json :: "json \<Rightarrow> labels option" where
  "labels_of_json (JList js) = all_some (map label_of_json js)"
| "labels_of_json _ = None"

lemma labels_of_labels_json [simp]: "labels_of_json (labels_json ls) = Some ls"
  by (induction ls) (auto simp: labels_json_def)

definition order_audit :: "db \<Rightarrow> uuid \<Rightarrow> str list \<Rightarrow> audit_log list" where
  "order_audit d oid acts =
     filter (\<lambda>a. au_entity a = ''order'' \<and> entity_id a = Some oid \<and> action a \<in> set acts) (audit d)"

text \<open>The rows are in the order of their ids: the last one counts.\<close>

definition current_labels :: "db \<Rightarrow> uuid \<Rightarrow> labels option" where
  "current_labels d oid =
     (case order_audit d oid LABEL_ACTIONS of [] \<Rightarrow> None
      | as \<Rightarrow> Option.bind (jget ''labels'' (au_payload (last as))) labels_of_json)"

definition menu_labels :: "db \<Rightarrow> order_item list \<Rightarrow> app_error + labels" where
  "menu_labels d rows =
     map_res (\<lambda>r. case find (\<lambda>m. m_id m = oi_menu_item_id r) (menu_items d) of
                None \<Rightarrow> raise_err UncaughtError None
              | Some m \<Rightarrow> Inr (m_number m, m_name m)) rows"

definition labels_for_rows ::
  "db \<Rightarrow> uuid \<Rightarrow> order_item list \<Rightarrow> labels option \<Rightarrow> app_error + labels" where
  "labels_for_rows d oid rows known =
     (case (case known of Some ls \<Rightarrow> Some ls | None \<Rightarrow> current_labels d oid) of
        Some ls \<Rightarrow> (if length ls = length rows then Inr ls else menu_labels d rows)
      | None \<Rightarrow> menu_labels d rows)"

section \<open>draft.py: the snapshot of the draft\<close>

text \<open>\<open>_snapshot\<close>: the payload of the entry the draft wrote, with the names of now.\<close>

definition draft_snapshot :: "db \<Rightarrow> uuid \<Rightarrow> app_error + json \<times> labels" where
  "draft_snapshot d oid =
     (case order_audit d oid [ACTION_DRAFT_CREATED] of
        [] \<Rightarrow> raise_err ServiceUnavailable (Some SAY_ON_FAILURE)
      | a # _ \<Rightarrow> (case current_labels d oid of None \<Rightarrow> raise_err UncaughtError None
                 | Some ls \<Rightarrow> Inr (au_payload a, ls)))"

definition draft_labels :: "db \<Rightarrow> uuid \<Rightarrow> app_error + labels" where
  "draft_labels d oid = andthen (draft_snapshot d oid) (\<lambda>s. Inr (snd s))"

section \<open>confirm.py: the payload of the event\<close>

definition address_json :: "db \<Rightarrow> order \<Rightarrow> json" where
  "address_json d ord =
     (case Option.bind (o_address_id ord) (get_address d) of None \<Rightarrow> JNull
      | Some a \<Rightarrow> JObj [(''street'', JStr (street a)), (''house_number'', JStr (house_number a)),
          (''postal_code'', JStr (postal_code a)), (''city'', JStr (city a)),
          (''floor_note'', jopt JStr (floor_note a))])"

definition order_type_str :: "order_type \<Rightarrow> str" where
  "order_type_str t = (case t of OPickup \<Rightarrow> ''pickup'' | ODelivery \<Rightarrow> ''delivery'')"

definition option_json :: "chosen_option \<Rightarrow> json" where
  "option_json c = JObj [(''group'', JStr (co_group c)), (''option'', JStr (co_option c)),
     (''price_delta_cents'', JInt (co_price_delta_cents c))]"

definition item_json :: "order_item \<times> (str \<times> str) \<Rightarrow> json" where
  "item_json p = (case p of (row, number, name) \<Rightarrow>
     JObj [(''number'', JStr number), (''name'', JStr name), (''quantity'', JInt (quantity row)),
       (''unit_price_cents'', JInt (unit_price_cents row)),
       (''options'', JList (map option_json (oi_options row))), (''note'', jopt JStr (oi_note row))])"

definition rows_of_order :: "db \<Rightarrow> uuid \<Rightarrow> order_item list" where
  "rows_of_order d oid = sort_key oi_created_at (filter (\<lambda>r. oi_order_id r = oid) (order_items d))"

text \<open>\<open>zip(..., strict=True)\<close> raises when the names do not match the rows one by one.\<close>

definition order_event_payload :: "db \<Rightarrow> order \<Rightarrow> int \<Rightarrow> str option \<Rightarrow> app_error + json" where
  "order_event_payload d ord rv reason =
     (let rows = rows_of_order d (o_id ord) in
      andthen (draft_labels d (o_id ord)) (\<lambda>ls.
        if length ls \<noteq> length rows then raise_err UncaughtError None
        else Inr (JObj
          [(''order_id'', JId (o_id ord)), (''call_id'', JId (o_call_id ord)),
           (''type'', JStr (order_type_str (o_type ord))), (''pickup_code'', jopt JStr (pickup_code ord)),
           (''customer_name'', JStr (customer_name ord)), (''phone'', JStr (o_phone ord)),
           (''ready_at'', jopt JTime (ready_at ord)), (''address'', address_json d ord),
           (''note'', jopt JStr (o_note ord)), (''revision'', JInt rv),
           (''correction_reason'', jopt JStr reason),
           (''items_total_cents'', JInt (items_total_cents ord)),
           (''delivery_fee_cents'', JInt (delivery_fee_cents ord)),
           (''total_cents'', JInt (total_cents ord)),
           (''items'', JList (map item_json (zip rows ls)))])))"

section \<open>api/domain/ordering/ticket.py\<close>

definition ACTION_CANCELLED :: str where "ACTION_CANCELLED = ''order.cancelled''"
definition CANCELLED :: str where "CANCELLED = ''cancelled''"

definition order_revision :: "db \<Rightarrow> order \<Rightarrow> int" where
  "order_revision d ord =
     int (length (filter (\<lambda>a. au_tenant_id a = o_tenant_id ord)
       (order_audit d (o_id ord) [ACTION_CORRECTED, ACTION_CANCELLED])))"

definition ticket_of :: "uuid \<Rightarrow> uuid \<Rightarrow> outbox_event \<Rightarrow> bool" where
  "ticket_of tid oid e \<longleftrightarrow> ev_tenant_id e = tid \<and> event_type e \<in> set KITCHEN \<and>
     jget ''order_id'' (ev_payload e) = Some (JId oid)"

definition json_text :: "json option \<Rightarrow> str option" where
  "json_text j = (case j of Some (JStr s) \<Rightarrow> Some s | _ \<Rightarrow> None)"

definition last_reason :: "db \<Rightarrow> order \<Rightarrow> str option" where
  "last_reason d ord =
     (case sort_key ev_created_at (filter (ticket_of (o_tenant_id ord) (o_id ord)) (outbox d)) of
        [] \<Rightarrow> None
      | es \<Rightarrow> json_text (jget ''correction_reason'' (ev_payload (last es))))"

text \<open>A ticket nobody has tried to send is written anew; otherwise there is a new event. \<open>locked\<close>
  are the rows another transaction sends right now (SKIP LOCKED).\<close>

definition unsent_tickets :: "(uuid \<Rightarrow> bool) \<Rightarrow> db \<Rightarrow> order \<Rightarrow> outbox_event list" where
  "unsent_tickets locked d ord =
     sort_key ev_created_at (filter (\<lambda>e. ticket_of (o_tenant_id ord) (o_id ord) e \<and>
       ev_status e = PENDING \<and> attempts e = 0 \<and> \<not> locked (ev_id e)) (outbox d))"

definition send_ticket ::
  "(uuid \<Rightarrow> bool) \<Rightarrow> order \<Rightarrow> str option \<Rightarrow> db \<Rightarrow> app_error + outbox_event \<times> db" where
  "send_ticket locked ord reason d =
     (let unsent = unsent_tickets locked d ord; current = order_revision d ord in
      if unsent \<noteq> []
      then let e = last unsent;
               reason = (case json_text (jget ''correction_reason'' (ev_payload e)) of
                           None \<Rightarrow> None | Some s \<Rightarrow> (if s = [] then None else reason))
           in andthen (order_event_payload d ord current reason) (\<lambda>p.
                let f = (\<lambda>e. e\<lparr>ev_payload := p, next_attempt_at := tx_now d\<rparr>)
                in Inr (f e, set_event (ev_id e) f d))
      else andthen (order_event_payload d ord current reason) (\<lambda>p.
             enqueue (o_tenant_id ord) ORDER_CONFIRMED p d))"

section \<open>A sent ticket is fresh\<close>

lemma order_confirmed_known [simp]: "ORDER_CONFIRMED \<in> set EVENT_TYPES" "ORDER_CONFIRMED \<in> set KITCHEN"
  "ORDER_HANDOVER_FAILED \<in> set EVENT_TYPES" "ORDER_HANDOVER_FAILED \<notin> set KITCHEN"
  by (simp_all add: EVENT_TYPES_def KITCHEN_def event_names)

text \<open>The keys the payload is read by.\<close>

lemma payload_fields:
  assumes "order_event_payload d ord rv reason = Inr p"
  shows "jget ''order_id'' p = Some (JId (o_id ord))" "jget ''revision'' p = Some (JInt rv)"
    "jget ''correction_reason'' p = Some (jopt JStr reason)"
    "jget ''ready_at'' p = Some (jopt JTime (ready_at ord))"
  using assms by (auto simp: order_event_payload_def Let_def raise_err_def split: if_splits)

lemma unsent_mem:
  "e \<in> set (unsent_tickets locked d ord) \<longleftrightarrow>
   e \<in> set (outbox d) \<and> ticket_of (o_tenant_id ord) (o_id ord) e \<and> ev_status e = PENDING \<and>
   attempts e = 0 \<and> \<not> locked (ev_id e)"
  by (auto simp: unsent_tickets_def)

lemma set_event_mem:
  "e \<in> set (outbox d) \<Longrightarrow> ev_id e = i \<Longrightarrow> f e \<in> set (outbox (set_event i f d))"
  by (auto simp: set_event_def set_upd_rows)

lemma set_event_frame [simp, frame_simps]:
  "orders (set_event i f d) = orders d" "audit (set_event i f d) = audit d"
  "order_items (set_event i f d) = order_items d" "tenants (set_event i f d) = tenants d"
  "addresses (set_event i f d) = addresses d" "heartbeats (set_event i f d) = heartbeats d"
  "tx_now (set_event i f d) = tx_now d" "next_id (set_event i f d) = next_id d"
  by (simp_all add: set_event_def)

text \<open>After the order is sent to the kitchen, a ticket of it that nobody has tried to send lies
  in the outbox, due at once, in the state of now: its revision counts every correction and the
  cancellation. Every other event is as it was.\<close>

theorem send_ticket_fresh:
  assumes "send_ticket locked ord reason d = Inr (e, d')"
  shows "e \<in> set (outbox d') \<and> ticket_of (o_tenant_id ord) (o_id ord) e \<and> ev_status e = PENDING \<and>
    attempts e = 0 \<and> next_attempt_at e = tx_now d \<and>
    jget ''revision'' (ev_payload e) = Some (JInt (order_revision d ord)) \<and>
    filter (\<lambda>x. ev_id x \<noteq> ev_id e) (outbox d') = filter (\<lambda>x. ev_id x \<noteq> ev_id e) (outbox d)"
proof (cases "unsent_tickets locked d ord = []")
  case True
  then obtain p where p: "order_event_payload d ord (order_revision d ord) reason = Inr p"
    and e: "e = new_event (o_tenant_id ord) ORDER_CONFIRMED p d"
    and d': "d' = d\<lparr>outbox := outbox d @ [e], next_id := Suc (next_id d)\<rparr>"
    using assms by (auto simp: send_ticket_def Let_def)
  show ?thesis by (simp add: d' e new_event_def ticket_of_def payload_fields [OF p])
next
  case False
  let ?e = "last (unsent_tickets locked d ord)"
  have "?e \<in> set (unsent_tickets locked d ord)" using False by simp
  then have m: "?e \<in> set (outbox d)" "ticket_of (o_tenant_id ord) (o_id ord) ?e"
    "ev_status ?e = PENDING" "attempts ?e = 0" by (auto simp: unsent_mem)
  obtain p reason' where p: "order_event_payload d ord (order_revision d ord) reason' = Inr p"
    and e: "e = ?e\<lparr>ev_payload := p, next_attempt_at := tx_now d\<rparr>"
    and d': "d' = set_event (ev_id ?e) (\<lambda>e. e\<lparr>ev_payload := p, next_attempt_at := tx_now d\<rparr>) d"
    using assms False by (auto simp: send_ticket_def Let_def)
  have others: "filter (\<lambda>x. ev_id x \<noteq> i) (upd_rows (\<lambda>x. ev_id x = i)
      (\<lambda>e. e\<lparr>ev_payload := p, next_attempt_at := t\<rparr>) es) = filter (\<lambda>x. ev_id x \<noteq> i) es" for i t es
    by (induction es) auto
  have "e \<in> set (outbox d')" unfolding e d' by (rule set_event_mem) (use m in simp_all)
  then show ?thesis using m others
    by (simp add: e d' ticket_of_def payload_fields [OF p] set_event_def)
qed


section \<open>An order at the counter\<close>

definition example_order :: order where
  "example_order = \<lparr>o_id = 50, o_tenant_id = 7, o_call_id = 40, o_type = OPickup, o_status = OConfirmed,
     o_customer_id = None, o_address_id = None, o_phone = ''+49151'', o_booked_on_own_line = True,
     customer_name = ''Li'', items_total_cents = 2000, delivery_fee_cents = 0, total_cents = 2000,
     ready_at = Some (30 * MINUTE), o_note = None, o_idempotency_key = ''k'', pickup_code = Some ''A1'',
     handover_state = Some PENDING, register_entered_at = None, o_created_at = 0, o_deleted_at = None\<rparr>"

definition example_item :: order_item where
  "example_item = \<lparr>oi_id = 51, oi_tenant_id = 7, oi_order_id = 50, oi_menu_item_id = 12, quantity = 2,
     unit_price_cents = 950, oi_options = [chosen_of (example_option 2 ''Erdnuss'' 50)], oi_note = None,
     oi_created_at = 0\<rparr>"

definition example_draft_audit :: audit_log where
  "example_draft_audit = \<lparr>au_tenant_id = 7, au_at = 0, actor = ''agent'', action = ACTION_DRAFT_CREATED,
     au_entity = ''order'', entity_id = Some 50,
     au_payload = JObj [(''labels'', labels_json [(''12'', ''Ente'')]), (''warnings'', JList [])]\<rparr>"

definition order_db :: db where
  "order_db = empty_db\<lparr>tenants := [\<lparr>t_id = 7, t_name = ''Lotus'', t_timezone = berlin\<rparr>],
     orders := [example_order], order_items := [example_item], audit := [example_draft_audit],
     next_id := 100, tx_now := 5\<rparr>"

definition example_payload :: json where
  "example_payload = (case order_event_payload order_db example_order 0 None of Inl _ \<Rightarrow> JNull | Inr p \<Rightarrow> p)"

lemma example_payload: "order_event_payload order_db example_order 0 None = Inr example_payload"
proof -
  have "\<not> isl (order_event_payload order_db example_order 0 None)" by code_simp
  then show ?thesis by (auto simp: example_payload_def split: sum.splits)
qed

lemma example_revision: "order_revision order_db example_order = 0"
  by code_simp

definition ticket_db :: db where
  "ticket_db = order_db\<lparr>outbox := [new_event 7 ORDER_CONFIRMED example_payload order_db], next_id := 101\<rparr>"

lemma example_send: "send_ticket (\<lambda>_. False) example_order None order_db =
    Inr (new_event 7 ORDER_CONFIRMED example_payload order_db, ticket_db)"
proof -
  have "unsent_tickets (\<lambda>_. False) order_db example_order = []" by code_simp
  moreover have "o_tenant_id example_order = 7" "outbox order_db = []" "next_id order_db = 100"
    by (simp_all add: example_order_def order_db_def empty_db_def)
  ultimately show ?thesis
    by (simp add: send_ticket_def example_revision example_payload ticket_db_def)
qed

theorem send_ticket_fresh_witness:
  "jget ''revision'' (ev_payload (new_event 7 ORDER_CONFIRMED example_payload order_db)) = Some (JInt 0) \<and>
   new_event 7 ORDER_CONFIRMED example_payload order_db \<in> set (outbox ticket_db)"
  using send_ticket_fresh [OF example_send] by (simp add: example_revision)

end
