(* ===== verification/Capacity.thy ===== *)
theory Capacity
  imports Hours
begin

text \<open>
  The seats: the capacity windows of a day and the guests who hold them
  (\<open>api/domain/reservations/capacity.py\<close>), the notice of a weekday (\<open>notice.py\<close>). The bounds of a
  window are local datetimes of the tenant's zone; a stored reservation is an instant, and Python
  compares the two as instants.
\<close>

section \<open>api/domain/reservations/capacity.py\<close>

record capacity_window =
  cw_start :: local_dt
  cw_end :: local_dt
  cw_max_guests :: int
  cw_slot_minutes :: int
  cw_notice_minutes :: int

text \<open>\<open>contains\<close> of an instant, and of a local time of the same zone.\<close>

definition cw_contains :: "zone \<Rightarrow> capacity_window \<Rightarrow> instant \<Rightarrow> bool" where
  "cw_contains z w at \<longleftrightarrow> utc_of z (cw_start w) \<le> at \<and> at < utc_of z (cw_end w)"

definition cw_contains_local :: "capacity_window \<Rightarrow> local_dt \<Rightarrow> bool" where
  "cw_contains_local w l \<longleftrightarrow> wall (cw_start w) \<le> wall l \<and> wall l < wall (cw_end w)"

text \<open>\<open>grid\<close>: the loop from the start to the end. \<open>cursor += step\<close> moves the wall clock. The CHECK
  of the column keeps the step above zero; without it the loop of the code would not end.\<close>

function grid_from :: "int \<Rightarrow> int \<Rightarrow> int \<Rightarrow> local_dt list" where
  "grid_from step cursor end =
     (if cursor < end \<and> 0 < step
      then \<lparr>wall = cursor, fold_bit = False\<rparr> # grid_from step (cursor + step) end else [])"
  by pat_completeness auto
termination
  by (relation "measure (\<lambda>(s, c, e). nat (e - c))") auto

declare grid_from.simps [simp del]

definition grid :: "capacity_window \<Rightarrow> local_dt list" where
  "grid w = grid_from (cw_slot_minutes w * MINUTE) (wall (cw_start w)) (wall (cw_end w))"

definition like_of :: "db \<Rightarrow> uuid \<Rightarrow> int \<Rightarrow> int option" where
  "like_of d tid day =
     (case find (\<lambda>s. sd_tenant_id s = tid \<and> sd_date s = day \<and> sd_status s = SetDay \<and> like_weekday s \<noteq> None)
             (special_days d) of
        None \<Rightarrow> None | Some s \<Rightarrow> like_weekday s)"

definition capacity_window_of :: "int \<Rightarrow> capacity \<Rightarrow> capacity_window" where
  "capacity_window_of day r =
     \<lparr>cw_start = combine day (slot_start r),
      cw_end = combine (if slot_end r \<le> slot_start r then day + 1 else day) (slot_end r),
      cw_max_guests = cap_max_guests r, cw_slot_minutes = cap_slot_minutes r,
      cw_notice_minutes = cap_notice_minutes r\<rparr>"

definition capacity_windows :: "db \<Rightarrow> uuid \<Rightarrow> int \<Rightarrow> capacity_window list" where
  "capacity_windows d tid day =
     (let wd = (case like_of d tid day of None \<Rightarrow> weekday day | Some w \<Rightarrow> w)
      in sort_key (\<lambda>w. wall (cw_start w)) (map (capacity_window_of day)
           (filter (\<lambda>r. cap_tenant_id r = tid \<and> cap_weekday r = wd) (capacities d))))"

text \<open>The seats of a draft count while its call can confirm it; not those of the asking call.\<close>

definition live_draft :: "db \<Rightarrow> instant \<Rightarrow> int \<Rightarrow> uuid option \<Rightarrow> reservation \<Rightarrow> bool" where
  "live_draft d now lifetime cid r \<longleftrightarrow>
     r_status r = RDraft \<and>
     (case r_call_id r of None \<Rightarrow> False
      | Some c \<Rightarrow> (case get_call d c of None \<Rightarrow> True | Some k \<Rightarrow> ended_at k = None) \<and>
                 now - lifetime < r_created_at r \<and> cid \<noteq> Some c)"

definition counts :: "db \<Rightarrow> uuid \<Rightarrow> instant \<Rightarrow> int \<Rightarrow> uuid option \<Rightarrow> reservation \<Rightarrow> bool" where
  "counts d tid now lifetime cid r \<longleftrightarrow>
     r_tenant_id r = tid \<and> (r_status r = RConfirmed \<or> live_draft d now lifetime cid r) \<and>
     r_deleted_at r = None"

definition first_window :: "zone \<Rightarrow> capacity_window list \<Rightarrow> instant \<Rightarrow> capacity_window option" where
  "first_window z ws at = find (\<lambda>w. cw_contains z w at) ws"

definition booked_rows ::
  "db \<Rightarrow> uuid \<Rightarrow> zone \<Rightarrow> capacity_window list \<Rightarrow> instant \<Rightarrow> int \<Rightarrow> uuid option \<Rightarrow> reservation list" where
  "booked_rows d tid z ws now lifetime cid =
     (let lo = utc_of z (arg_min_list wall (map cw_start ws));
          hi = utc_of z (arg_min_list (\<lambda>l. - wall l) (map cw_end ws))
      in filter (\<lambda>r. counts d tid now lifetime cid r \<and> lo \<le> reserved_for r \<and> reserved_for r < hi)
           (reservations d))"

text \<open>\<open>booked_guests\<close>: a dict from window to guests, read here at one window. Each row counts for the
  first window that holds it.\<close>

definition booked_guests ::
  "db \<Rightarrow> uuid \<Rightarrow> zone \<Rightarrow> capacity_window list \<Rightarrow> instant \<Rightarrow> int \<Rightarrow> uuid option \<Rightarrow> capacity_window \<Rightarrow> int" where
  "booked_guests d tid z ws now lifetime cid w =
     sum_list (map party_size (filter (\<lambda>r. first_window z ws (reserved_for r) = Some w)
       (booked_rows d tid z ws now lifetime cid)))"

definition windows_around :: "db \<Rightarrow> uuid \<Rightarrow> int \<Rightarrow> capacity_window list" where
  "windows_around d tid day = capacity_windows d tid (day - 1) @ capacity_windows d tid day"

definition window_load ::
  "db \<Rightarrow> uuid \<Rightarrow> instant \<Rightarrow> zone \<Rightarrow> instant \<Rightarrow> int \<Rightarrow> uuid option \<Rightarrow> capacity_window option \<times> int" where
  "window_load d tid at z now lifetime cid =
     (let ws = windows_around d tid (ldate (astimezone z at))
      in case first_window z ws at of
           None \<Rightarrow> (None, 0)
         | Some w \<Rightarrow> (Some w, booked_guests d tid z ws now lifetime cid w))"

definition has_room :: "db \<Rightarrow> reservation \<Rightarrow> zone \<Rightarrow> instant \<Rightarrow> int \<Rightarrow> bool" where
  "has_room d r z now lifetime =
     (case window_load d (r_tenant_id r) (reserved_for r) z now lifetime (r_call_id r) of
        (None, _) \<Rightarrow> False
      | (Some w, booked) \<Rightarrow> booked + party_size r \<le> cw_max_guests w)"

section \<open>api/domain/reservations/notice.py\<close>

definition ACTION_NOTICE :: str where "ACTION_NOTICE = ''capacity.notice_changed''"
definition MAX_NOTICE_MINUTES :: int where "MAX_NOTICE_MINUTES = 1440"

definition notice_rows :: "db \<Rightarrow> uuid \<Rightarrow> int \<Rightarrow> capacity list" where
  "notice_rows d tid wd = filter (\<lambda>r. cap_tenant_id r = tid \<and> cap_weekday r = wd) (capacities d)"

definition max_of :: "int list \<Rightarrow> int" where
  "max_of xs = foldr max xs (hd xs)"

text \<open>The notice of one weekday: the largest of its rows, none without rows.\<close>

definition notice_of :: "db \<Rightarrow> uuid \<Rightarrow> int \<Rightarrow> int option" where
  "notice_of d tid wd =
     (case map cap_notice_minutes (notice_rows d tid wd) of
        [] \<Rightarrow> None | x # xs \<Rightarrow> Some (max_of (x # xs)))"

definition weekday_notices :: "db \<Rightarrow> uuid \<Rightarrow> (int \<times> int option) list" where
  "weekday_notices d tid = map (\<lambda>wd. (wd, notice_of d tid wd)) [0, 1, 2, 3, 4, 5, 6]"

definition set_notice :: "uuid \<Rightarrow> str \<Rightarrow> int \<times> int \<Rightarrow> db \<Rightarrow> app_error + db" where
  "set_notice tid who = (\<lambda>(wd, minutes) d.
     case notice_of d tid wd of
       None \<Rightarrow> raise_err InvalidInput None
     | Some before \<Rightarrow>
        (let d = (if minutes = before then d
                  else add_audit tid who ACTION_NOTICE ''capacity'' tid
                    (JObj [(''weekday'', JInt wd), (''from'', JInt before), (''to'', JInt minutes)]) d)
         in Inr (d\<lparr>capacities := upd_rows (\<lambda>r. cap_tenant_id r = tid \<and> cap_weekday r = wd)
                     (\<lambda>r. r\<lparr>cap_notice_minutes := minutes\<rparr>) (capacities d)\<rparr>)))"

text \<open>The dict \<open>minutes_by_weekday\<close> is the list of its items.\<close>

definition set_notices :: "uuid \<Rightarrow> (int \<times> int) list \<Rightarrow> str \<Rightarrow> db \<Rightarrow> app_error + db" where
  "set_notices tid ms who d =
     (if \<not> list_all (\<lambda>(_, m). 0 \<le> m \<and> m \<le> MAX_NOTICE_MINUTES) ms
      then raise_err InvalidInput
        (Some (''Der Vorlauf geht von 0 bis '' @ str_int MAX_NOTICE_MINUTES @ '' Minuten.''))
      else fold_res (set_notice tid who) ms d)"

section \<open>Windows and instants\<close>

interpretation seats: window_family "\<lambda>w. utc_of z (cw_start w)" "\<lambda>w. utc_of z (cw_end w)"
    "cw_contains z" for z
  by unfold_locales (simp add: cw_contains_def)

interpretation wall_seats: window_family "\<lambda>w. wall (cw_start w)" "\<lambda>w. wall (cw_end w)"
    "\<lambda>w t. cw_contains_local w \<lparr>wall = t, fold_bit = False\<rparr>"
  by unfold_locales (simp add: cw_contains_local_def)

lemma first_window_seats: "first_window z ws at = seats.first_at z ws at"
  by (simp add: first_window_def seats.first_at_def)

text \<open>The order of plain wall times is the order of their instants.\<close>

lemma plain_mono:
  assumes "wf_zone z" and "plain z a" and "plain z b" and "a \<le> b"
  shows "utc_of z \<lparr>wall = a, fold_bit = False\<rparr> \<le> utc_of z \<lparr>wall = b, fold_bit = False\<rparr>"
  using assms wall_order [of z a] wall_order [of z b "utc_of z \<lparr>wall = b, fold_bit = False\<rparr>"]
  by (auto intro: order_trans)

text \<open>A window whose bounds the clock reads once.\<close>

definition plain_window :: "zone \<Rightarrow> capacity_window \<Rightarrow> bool" where
  "plain_window z w \<longleftrightarrow> plain z (wall (cw_start w)) \<and> plain z (wall (cw_end w)) \<and>
     \<not> fold_bit (cw_start w) \<and> \<not> fold_bit (cw_end w)"

lemma no_fold: "\<not> fold_bit l \<Longrightarrow> \<lparr>wall = wall l, fold_bit = False\<rparr> = (l :: local_dt)"
  by (cases l) simp

lemma contains_iff_local:
  assumes "wf_zone z" and "plain_window z w"
  shows "cw_contains z w at \<longleftrightarrow> cw_contains_local w (astimezone z at)"
  using assms wall_order [of z "wall (cw_start w)" at] wall_order [of z "wall (cw_end w)" at]
  by (auto simp: plain_window_def cw_contains_def cw_contains_local_def no_fold)

lemma capacity_window_of_day:
  "w \<in> set (capacity_windows d tid day) \<Longrightarrow>
   \<exists>r \<in> set (capacities d). cap_tenant_id r = tid \<and> w = capacity_window_of day r"
  by (auto simp: capacity_windows_def)

lemma window_no_fold:
  "w \<in> set (capacity_windows d tid day) \<Longrightarrow> \<not> fold_bit (cw_start w) \<and> \<not> fold_bit (cw_end w)"
  by (auto dest!: capacity_window_of_day simp: capacity_window_of_def)

section \<open>The slots of a window\<close>

lemma grid_from_iff:
  assumes "0 < step"
  shows "l \<in> set (grid_from step c e) \<longleftrightarrow>
    \<not> fold_bit l \<and> wall l < e \<and> (\<exists>k::nat. wall l = c + int k * step)"
  using assms
proof (induction step c e rule: grid_from.induct)
  case (1 step c e)
  show ?case
  proof (cases "c < e")
    case True
    have "(\<exists>k::nat. wall l = c + int k * step) \<longleftrightarrow>
        wall l = c \<or> (\<exists>k::nat. wall l = c + step + int k * step)"
    proof -
      have "(\<exists>k. P k) \<longleftrightarrow> P 0 \<or> (\<exists>k. P (Suc k))" for P :: "nat \<Rightarrow> bool"
        by (metis not0_implies_Suc)
      from this [of "\<lambda>k. wall l = c + int k * step"] show ?thesis by (simp add: algebra_simps)
    qed
    moreover have "l = \<lparr>wall = c, fold_bit = False\<rparr> \<longleftrightarrow> wall l = c \<and> \<not> fold_bit l"
      by (cases l) simp
    ultimately show ?thesis using 1 True by (subst grid_from.simps) auto
  next
    case False
    then have "e \<le> c + int k * step" for k using 1(2) by (simp add: add_increasing2)
    then show ?thesis using False by (subst grid_from.simps) (auto simp: not_less)
  qed
qed

text \<open>The slots offered in a window are its start and every further step before its end: none
  lies outside the window and none is left out.\<close>

lemma grid_slots:
  assumes "0 < cw_slot_minutes w"
  shows "l \<in> set (grid w) \<longleftrightarrow> \<not> fold_bit l \<and> cw_contains_local w l \<and>
    (wall l - wall (cw_start w)) mod (cw_slot_minutes w * MINUTE) = 0"
proof -
  let ?s = "cw_slot_minutes w * MINUTE"
  have s: "0 < ?s" using assms by (simp add: MINUTE_def)
  have "(\<exists>k::nat. wall l = wall (cw_start w) + int k * ?s) \<longleftrightarrow>
      wall (cw_start w) \<le> wall l \<and> (wall l - wall (cw_start w)) mod ?s = 0" (is "?l \<longleftrightarrow> ?r")
  proof
    assume ?l
    then obtain k :: nat where "wall l = wall (cw_start w) + int k * ?s" by blast
    then show ?r using s by simp
  next
    assume r: ?r
    then have "?s dvd wall l - wall (cw_start w)" by (simp add: mod_eq_0_iff_dvd)
    then obtain k where k: "wall l - wall (cw_start w) = ?s * k" by (rule dvdE)
    with r have "0 \<le> ?s * k" by simp
    with s have "0 \<le> k" by (simp only: zero_le_mult_iff) linarith
    with k show ?l by (intro exI [of _ "nat k"]) (simp add: mult.commute)
  qed
  then show ?thesis
    using grid_from_iff [OF s] by (auto simp: grid_def cw_contains_local_def)
qed

section \<open>The guests of a window\<close>

text \<open>
  What a window must never exceed, independent of how the code adds it up: the guests of the
  confirmed reservations that begin in it.
\<close>

definition seated_in :: "uuid \<Rightarrow> zone \<Rightarrow> capacity_window \<Rightarrow> reservation \<Rightarrow> bool" where
  "seated_in tid z w r \<longleftrightarrow> r_tenant_id r = tid \<and> r_status r = RConfirmed \<and> r_deleted_at r = None \<and>
     cw_contains z w (reserved_for r)"

definition guests_in :: "db \<Rightarrow> uuid \<Rightarrow> zone \<Rightarrow> capacity_window \<Rightarrow> int" where
  "guests_in d tid z w = sum_list (map party_size (filter (seated_in tid z w) (reservations d)))"

text \<open>The plan of the seats: no window begins or ends in an hour the clock skips or repeats, and two
  windows never overlap.\<close>

definition windows_of :: "db \<Rightarrow> uuid \<Rightarrow> capacity_window set" where
  "windows_of d tid = (\<Union>day. set (capacity_windows d tid day))"

definition seats_planned :: "db \<Rightarrow> uuid \<Rightarrow> zone \<Rightarrow> bool" where
  "seats_planned d tid z \<longleftrightarrow>
     (\<forall>w \<in> windows_of d tid. plain z (wall (cw_start w)) \<and> plain z (wall (cw_end w))) \<and>
     (\<forall>w \<in> windows_of d tid. \<forall>v \<in> windows_of d tid. w \<noteq> v \<longrightarrow>
        wall (cw_end w) \<le> wall (cw_start v) \<or> wall (cw_end v) \<le> wall (cw_start w))"

lemma planned_plain: "seats_planned d tid z \<Longrightarrow> w \<in> windows_of d tid \<Longrightarrow> plain_window z w"
  by (auto simp: seats_planned_def plain_window_def windows_of_def dest: window_no_fold)

lemma windows_around_of: "set (windows_around d tid day) \<subseteq> windows_of d tid"
  by (auto simp: windows_around_def windows_of_def)

lemma plain_window_mono:
  assumes "wf_zone z" and "plain_window z w" and "plain_window z v"
  shows "wall (cw_start w) \<le> wall (cw_start v) \<Longrightarrow> utc_of z (cw_start w) \<le> utc_of z (cw_start v)"
    and "wall (cw_end w) \<le> wall (cw_start v) \<Longrightarrow> utc_of z (cw_end w) \<le> utc_of z (cw_start v)"
    and "wall (cw_end w) \<le> wall (cw_end v) \<Longrightarrow> utc_of z (cw_end w) \<le> utc_of z (cw_end v)"
  using assms plain_mono [OF assms(1), of "wall (cw_start w)" "wall (cw_start v)"]
    plain_mono [OF assms(1), of "wall (cw_end w)" "wall (cw_start v)"]
    plain_mono [OF assms(1), of "wall (cw_end w)" "wall (cw_end v)"]
  by (auto simp: plain_window_def no_fold)

lemma planned_disjoint:
  assumes "wf_zone z" and "seats_planned d tid z"
    and "w \<in> windows_of d tid" and "v \<in> windows_of d tid" and "w \<noteq> v"
  shows "utc_of z (cw_end w) \<le> utc_of z (cw_start v) \<or> utc_of z (cw_end v) \<le> utc_of z (cw_start w)"
proof -
  have "wall (cw_end w) \<le> wall (cw_start v) \<or> wall (cw_end v) \<le> wall (cw_start w)"
    using assms(2-5) by (simp add: seats_planned_def)
  then show ?thesis using plain_window_mono(2) [OF assms(1)] planned_plain [OF assms(2)] assms(3,4) by blast
qed

text \<open>At most one window holds an instant.\<close>

lemma planned_unique:
  assumes "wf_zone z" and "seats_planned d tid z"
    and "w \<in> windows_of d tid" and "v \<in> windows_of d tid"
    and "cw_contains z w at" and "cw_contains z v at"
  shows "w = v"
  using planned_disjoint [OF assms(1-4)] assms(5,6) by (force simp: cw_contains_def)

lemma planned_first:
  assumes "wf_zone z" and "seats_planned d tid z"
    and "set ws \<subseteq> windows_of d tid" and "w \<in> set ws" and "cw_contains z w at"
  shows "first_window z ws at = Some w"
  unfolding first_window_seats
  by (rule seats.first_at_unique) (use planned_disjoint [OF assms(1,2)] assms(3-5) in \<open>auto\<close>)

lemma sum_list_filter_mono:
  assumes "\<And>r. r \<in> set rs \<Longrightarrow> P r \<Longrightarrow> Q r" and "\<And>r. r \<in> set rs \<Longrightarrow> 0 \<le> (g r :: int)"
  shows "sum_list (map g (filter P rs)) \<le> sum_list (map g (filter Q rs))"
  using assms by (induction rs) (auto intro: add_increasing)

definition parties_positive :: "db \<Rightarrow> bool" where
  "parties_positive d \<longleftrightarrow> (\<forall>r \<in> set (reservations d). 0 < party_size r)"

lemma booked_covers:
  assumes z: "wf_zone z" and p: "seats_planned d tid z" and pos: "parties_positive d"
    and ws: "set ws \<subseteq> windows_of d tid" and w: "w \<in> set ws"
  shows "guests_in d tid z w \<le> booked_guests d tid z ws now lifetime cid w"
proof -
  let ?lo = "arg_min_list wall (map cw_start ws)"
  let ?hi = "arg_min_list (\<lambda>l. - wall l) (map cw_end ws)"
  have ne: "map cw_start ws \<noteq> []" "map cw_end ws \<noteq> []" using w by auto
  obtain a where a: "a \<in> set ws" "?lo = cw_start a"
    using arg_min_list_least [OF ne(1), of wall] by auto
  obtain b where b: "b \<in> set ws" "?hi = cw_end b"
    using arg_min_list_least [OF ne(2), of "\<lambda>l. - wall l"] by auto
  have "wall (cw_start a) \<le> wall (cw_start w)" "wall (cw_end w) \<le> wall (cw_end b)"
    using arg_min_list_least [OF ne(1), of wall] arg_min_list_least [OF ne(2), of "\<lambda>l. - wall l"] a b w
    by auto
  moreover have "plain_window z a" "plain_window z b" "plain_window z w"
    using planned_plain [OF p] ws w a b by blast+
  ultimately have bounds: "utc_of z ?lo \<le> utc_of z (cw_start w)" "utc_of z (cw_end w) \<le> utc_of z ?hi"
    unfolding a(2) b(2) using plain_window_mono [OF z] by blast+
  have "counts d tid now lifetime cid r \<and> utc_of z ?lo \<le> reserved_for r \<and> reserved_for r < utc_of z ?hi \<and>
      first_window z ws (reserved_for r) = Some w" if "seated_in tid z w r" for r
    using that bounds planned_first [OF z p ws w]
    by (auto simp: seated_in_def counts_def cw_contains_def)
  then show ?thesis
    unfolding guests_in_def booked_guests_def booked_rows_def Let_def filter_filter
    using pos by (intro sum_list_filter_mono) (auto simp: parties_positive_def)
qed

text \<open>When the code finds room for a party, its window holds the party next to every guest already
  confirmed for it.\<close>

lemma has_room_enough:
  assumes "wf_zone z" and "seats_planned d (r_tenant_id r) z" and "parties_positive d"
    and "has_room d r z now lifetime"
  shows "\<exists>w \<in> windows_of d (r_tenant_id r). cw_contains z w (reserved_for r) \<and>
    guests_in d (r_tenant_id r) z w + party_size r \<le> cw_max_guests w"
proof -
  let ?ws = "windows_around d (r_tenant_id r) (ldate (astimezone z (reserved_for r)))"
  obtain w where w: "first_window z ?ws (reserved_for r) = Some w"
    and room: "booked_guests d (r_tenant_id r) z ?ws now lifetime (r_call_id r) w + party_size r \<le> cw_max_guests w"
    using assms(4) by (auto simp: has_room_def window_load_def Let_def split: option.splits)
  from w have mem: "w \<in> set ?ws" "cw_contains z w (reserved_for r)"
    by (auto simp: first_window_def dest: find_SomeD)
  have "guests_in d (r_tenant_id r) z w
      \<le> booked_guests d (r_tenant_id r) z ?ws now lifetime (r_call_id r) w"
    by (rule booked_covers [OF assms(1-3) windows_around_of mem(1)])
  then show ?thesis using room mem windows_around_of by force
qed

section \<open>Setting the notices\<close>

lemma max_of_const:
  assumes "xs \<noteq> []" and "\<forall>x \<in> set xs. x = m"
  shows "max_of xs = m"
proof -
  have "foldr max ys m = m" if "\<forall>x \<in> set ys. x = m" for ys :: "int list"
    using that by (induction ys) auto
  moreover have "hd xs = m" using assms by (cases xs) auto
  ultimately show ?thesis using assms(2) by (simp add: max_of_def)
qed

lemma notice_of_alt:
  "notice_of d tid wd = (let xs = map cap_notice_minutes (notice_rows d tid wd)
     in if xs = [] then None else Some (max_of xs))"
  by (simp add: notice_of_def split: list.splits)

lemma notice_of_set:
  assumes "set_notice tid who (wd, m) d = Inr d'"
  shows "notice_of d' tid wd' = (if wd' = wd then Some m else notice_of d tid wd')"
proof -
  let ?p = "\<lambda>r. cap_tenant_id r = tid \<and> cap_weekday r = wd"
  have c: "capacities d' = upd_rows ?p (\<lambda>r. r\<lparr>cap_notice_minutes := m\<rparr>) (capacities d)"
    using assms by (auto simp: set_notice_def Let_def add_audit_def split: option.splits)
  have some: "notice_rows d tid wd \<noteq> []"
    using assms by (auto simp: set_notice_def notice_of_alt Let_def split: option.splits if_splits)
  have rows: "notice_rows d' tid wd' = upd_rows ?p (\<lambda>r. r\<lparr>cap_notice_minutes := m\<rparr>) (notice_rows d tid wd')"
    unfolding notice_rows_def c by (rule filter_upd_rows) simp
  show ?thesis
  proof (cases "wd' = wd")
    case True
    have "max_of (map cap_notice_minutes (notice_rows d' tid wd)) = m"
      using some rows True by (intro max_of_const) (auto simp: upd_rows_def notice_rows_def)
    then show ?thesis using True some rows by (simp add: notice_of_alt Let_def upd_rows_def)
  next
    case False
    then have "notice_rows d' tid wd' = notice_rows d tid wd'"
      unfolding rows by (intro upd_rows_id) (auto simp: notice_rows_def)
    then show ?thesis using False by (simp add: notice_of_alt)
  qed
qed

lemma set_notices_steps:
  assumes "fold_res (set_notice tid who) ms d = Inr d'" and "distinct (map fst ms)"
  shows "notice_of d' tid wd = (case map_of ms wd of None \<Rightarrow> notice_of d tid wd | Some m \<Rightarrow> Some m)"
  using assms
proof (induction ms arbitrary: d)
  case (Cons p ms)
  obtain k m where p: "p = (k, m)" by force
  obtain d1 where 1: "set_notice tid who (k, m) d = Inr d1" "fold_res (set_notice tid who) ms d1 = Inr d'"
    using Cons.prems(1) p by auto
  have "k \<notin> fst ` set ms" using Cons.prems(2) p by auto
  then have "map_of ms k = None" by (simp add: map_of_eq_None_iff)
  then show ?case using Cons.IH [OF 1(2)] Cons.prems(2) notice_of_set [OF 1(1)] p
    by (auto split: option.splits)
qed simp

text \<open>The notices the tablet sets are read back as they were set, every other weekday keeps its
  own, each lies between none and a day, and of a window nothing but its notice changes.\<close>

theorem set_notices_read_back:
  assumes "set_notices tid ms who d = Inr d'" and "distinct (map fst ms)"
  shows "weekday_notices d' tid = map (\<lambda>(wd, n). (wd, case map_of ms wd of None \<Rightarrow> n | Some m \<Rightarrow> Some m))
      (weekday_notices d tid)
    \<and> (\<forall>(wd, m) \<in> set ms. 0 \<le> m \<and> m \<le> MAX_NOTICE_MINUTES)
    \<and> map (cap_notice_minutes_update (\<lambda>_. 0)) (capacities d')
      = map (cap_notice_minutes_update (\<lambda>_. 0)) (capacities d)"
proof -
  have ok: "list_all (\<lambda>(_, m). 0 \<le> m \<and> m \<le> MAX_NOTICE_MINUTES) ms"
    and run: "fold_res (set_notice tid who) ms d = Inr d'"
    using assms(1) by (simp_all add: set_notices_def split: if_splits)
  have step: "map (cap_notice_minutes_update (\<lambda>_. 0)) (capacities t)
      = map (cap_notice_minutes_update (\<lambda>_. 0)) (capacities s)"
    if "set_notice tid who p s = Inr t" for p s t
    using that
    by (cases p) (auto simp: set_notice_def add_audit_def Let_def upd_rows_def split: option.splits)
  have "map (cap_notice_minutes_update (\<lambda>_. 0)) (capacities d')
      = map (cap_notice_minutes_update (\<lambda>_. 0)) (capacities d)"
    by (rule fold_res_invariant [OF run, where P = "\<lambda>s. map (cap_notice_minutes_update (\<lambda>_. 0)) (capacities s)
      = map (cap_notice_minutes_update (\<lambda>_. 0)) (capacities d)"]) (auto dest: step)
  then show ?thesis
    using ok set_notices_steps [OF run assms(2)] by (auto simp: weekday_notices_def list_all_iff)
qed

text \<open>Fridays and Saturdays in the evening.\<close>

definition example_seats :: "capacity list" where
  "example_seats =
     [\<lparr>cap_tenant_id = 7, cap_weekday = 4, slot_start = 18 * HOUR, slot_end = 22 * HOUR,
       cap_max_guests = 20, cap_slot_minutes = 30, cap_notice_minutes = 0\<rparr>,
      \<lparr>cap_tenant_id = 7, cap_weekday = 5, slot_start = 18 * HOUR, slot_end = 22 * HOUR,
       cap_max_guests = 20, cap_slot_minutes = 30, cap_notice_minutes = 15\<rparr>]"

theorem set_notices_read_back_witness:
  "weekday_notices (case set_notices 7 [(4, 60), (5, 15)] ''tablet'' (empty_db\<lparr>capacities := example_seats\<rparr>)
     of Inl _ \<Rightarrow> empty_db | Inr d' \<Rightarrow> d') 7
   = [(0, None), (1, None), (2, None), (3, None), (4, Some 60), (5, Some 15), (6, None)]"
proof -
  let ?d = "empty_db\<lparr>capacities := example_seats\<rparr>"
  have "\<not> isl (set_notices 7 [(4, 60), (5, 15)] ''tablet'' ?d)" by code_simp
  then obtain d' where d': "set_notices 7 [(4, 60), (5, 15)] ''tablet'' ?d = Inr d'"
    by (cases "set_notices 7 [(4, 60), (5, 15)] ''tablet'' ?d") auto
  have "weekday_notices ?d 7
      = [(0, None), (1, None), (2, None), (3, None), (4, Some 0), (5, Some 15), (6, None)]"
    by code_simp
  then show ?thesis using set_notices_read_back [OF d'] by (simp add: d')
qed

end
