(* ===== verification/Slots.thy ===== *)
theory Slots
  imports Capacity
begin

text \<open>
  Is a table free at the time the guest wishes, and if not, which two times of the same service
  are (\<open>check_slot\<close> of \<open>api/domain/reservations/slots.py\<close>), with every sentence the guest hears.
  The functions nested in \<open>check_slot\<close> share its variables; they are the record \<open>wish\<close> here.
\<close>

section \<open>api/domain/reservations/slots.py: what the question reads\<close>

definition MAX_ALTERNATIVES :: nat where "MAX_ALTERNATIVES = 2"
definition UNAMBIGUOUS :: int where "UNAMBIGUOUS = 6 * HOUR"

definition ASK_OTHER_TIME :: str where "ASK_OTHER_TIME = ''Zu welcher anderen Uhrzeit passt es Ihnen?''"

definition ASK_OTHER_DAY :: str where
  "ASK_OTHER_DAY = ''Auch sp'' @ [ae] @ ''ter an dem Tag geht es leider nicht mehr. Welcher andere Tag passt Ihnen?''"

definition SAY_RESERVATIONS_OFF :: str where
  "SAY_RESERVATIONS_OFF = ''Reservierungen nehmen wir gerade leider nicht an.''"

definition SAY_PAST :: str where "SAY_PAST = ''Dieser Zeitpunkt ist schon vorbei.''"

record slot_check =
  sl_available :: bool
  sl_alternatives :: "instant list"
  sl_team_callback :: bool
  sl_say :: "str option"

record wish =
  w_config :: service_config
  w_zone :: zone
  w_now :: instant
  w_at :: instant
  w_party :: int
  w_hours :: hours_data
  w_today :: "window list"
  w_services :: "window list"
  w_windows :: "capacity_window list"
  w_booked :: "capacity_window \<Rightarrow> int"

definition w_local :: "wish \<Rightarrow> local_dt" where
  "w_local x = astimezone (w_zone x) (w_at x)"

definition wish_of ::
  "db \<Rightarrow> uuid \<Rightarrow> tenant \<Rightarrow> service_config \<Rightarrow> instant \<Rightarrow> int \<Rightarrow> instant \<Rightarrow> uuid option \<Rightarrow> wish" where
  "wish_of d tid t c at party now cid =
     (let z = t_timezone t;
          today = ldate (astimezone z at);
          data = load_hours d tid (today - 1) 2;
          today_services = windows_for_day data today Dinein;
          ws = windows_around d tid today
      in \<lparr>w_config = c, w_zone = z, w_now = now, w_at = at, w_party = party, w_hours = data,
          w_today = today_services,
          w_services = windows_for_day data (today - 1) Dinein @ today_services,
          w_windows = ws,
          w_booked = booked_guests d tid z ws now (max_call_seconds c * SECOND) cid\<rparr>)"

definition startable :: "wish \<Rightarrow> local_dt \<Rightarrow> window \<Rightarrow> bool" where
  "startable x at srv \<longleftrightarrow>
     wall (fst srv) + reservation_lead_minutes (w_config x) * MINUTE \<le> wall at \<and>
     wall at \<le> wall (snd srv) - reservation_last_start_minutes (w_config x) * MINUTE \<and>
     wall at < wall (snd srv)"

definition window_for :: "capacity_window list \<Rightarrow> local_dt \<Rightarrow> capacity_window option" where
  "window_for ws at = find (\<lambda>w. cw_contains_local w at) ws"

definition seats_free :: "wish \<Rightarrow> local_dt \<Rightarrow> bool" where
  "seats_free x at =
     (case window_for (w_windows x) at of None \<Rightarrow> False
      | Some w \<Rightarrow> w_booked x w + w_party x \<le> cw_max_guests w)"

definition inside_notice :: "wish \<Rightarrow> local_dt \<Rightarrow> bool" where
  "inside_notice x at =
     (case window_for (w_windows x) at of None \<Rightarrow> False
      | Some w \<Rightarrow> utc_of (w_zone x) at < w_now x + cw_notice_minutes w * MINUTE)"

definition seated :: "wish \<Rightarrow> local_dt \<Rightarrow> window \<Rightarrow> bool" where
  "seated x at srv \<longleftrightarrow> startable x at srv \<and> seats_free x at"

definition fits :: "wish \<Rightarrow> local_dt \<Rightarrow> window \<Rightarrow> bool" where
  "fits x at srv \<longleftrightarrow> seated x at srv \<and> \<not> inside_notice x at"

definition free_slots :: "wish \<Rightarrow> (local_dt \<Rightarrow> window \<Rightarrow> bool) \<Rightarrow> window \<Rightarrow> local_dt list" where
  "free_slots x fit srv =
     filter (\<lambda>s. wall s \<noteq> wall (w_local x) \<and> w_now x < utc_of (w_zone x) s \<and> fit s srv)
       (concat (map grid (w_windows x)))"

definition distance :: "wish \<Rightarrow> local_dt \<Rightarrow> int" where
  "distance x slot = \<bar>utc_of (w_zone x) slot - utc_of (w_zone x) (w_local x)\<bar>"

section \<open>Sentences\<close>

definition say_too_far_ahead :: "int \<Rightarrow> str" where
  "say_too_far_ahead max_days =
     (if max_days = 0 then ''Tische reserviere ich nur f'' @ [ue] @ ''r heute. Passt es Ihnen heute?''
      else ''So weit im Voraus kann ich noch keinen Tisch reservieren, h'' @ [oe] @ ''chstens '' @
           (if max_days = 1 then ''einen Tag'' else str_int max_days @ '' Tage'') @
           '' im Voraus. Welcher fr'' @ [ue] @ ''here Tag passt Ihnen?'')"

definition say_team_decides :: "int \<Rightarrow> bool \<Rightarrow> str" where
  "say_team_decides party today_only =
     ''F'' @ [ue] @ ''r '' @ spoken_party_size party @ (if today_only then '' noch heute'' else []) @
     '' kann ich den Tisch nicht selbst zusagen, das bespricht das Team pers'' @ [oe] @
     ''nlich mit Ihnen.''"

definition say_team_decides_time :: "local_dt \<Rightarrow> str" where
  "say_team_decides_time wish = ''Um '' @ spoken_time wish @
     '' kann ich den Tisch nicht selbst zusagen, das bespricht das Team pers'' @ [oe] @
     ''nlich mit Ihnen.''"

text \<open>\<open>text.split(" ", 1)\<close> of a text with a blank.\<close>

definition split_blank :: "str \<Rightarrow> str \<times> str" where
  "split_blank s = (takeWhile (\<lambda>c. c \<noteq> CHR '' '') s, drop 1 (dropWhile (\<lambda>c. c \<noteq> CHR '' '') s))"

text \<open>\<open>_spoken_options\<close>, with the daytime said last.\<close>

fun spoken_options_from :: "zone \<Rightarrow> local_dt \<Rightarrow> str option \<Rightarrow> local_dt list \<Rightarrow> str list" where
  "spoken_options_from z wish previous [] = []"
| "spoken_options_from z wish previous (slot # slots) =
     (if \<bar>utc_of z slot - utc_of z wish\<bar> < UNAMBIGUOUS
      then spoken_time slot # spoken_options_from z wish None slots
      else let (daytime, clock) = split_blank (spoken_daytime slot)
           in (if Some daytime = previous then clock else daytime @ '' '' @ clock) #
              spoken_options_from z wish (Some daytime) slots)"

definition say_with_options :: "zone \<Rightarrow> str \<Rightarrow> local_dt \<Rightarrow> local_dt list \<Rightarrow> str" where
  "say_with_options z lead_in wish alternatives =
     (if alternatives = [] then lead_in @ '' '' @ ASK_OTHER_TIME
      else lead_in @ '' '' @
           capitalize (py_join '' oder '' (spoken_options_from z wish None alternatives)) @ '' ginge.'')"

definition say_too_soon :: "zone \<Rightarrow> bool \<Rightarrow> local_dt \<Rightarrow> local_dt list \<Rightarrow> bool \<Rightarrow> str" where
  "say_too_soon z free wish alternatives day_over =
     (let lead_in = (if free
        then ''Laut unseren Reservierungen ist zu der Zeit noch Platz, '' @
             ''aber so kurzfristig kann ich Ihnen keinen Tisch fest zusagen.''
        else ''Laut unseren Reservierungen ist zu der Zeit leider alles belegt, '' @
             ''und so kurzfristig kann ich keinen Tisch reservieren.'')
      in if day_over then lead_in @ '' '' @ ASK_OTHER_DAY
         else say_with_options z lead_in wish alternatives)"

definition say_full_evening :: "zone \<Rightarrow> local_dt \<Rightarrow> local_dt list \<Rightarrow> str" where
  "say_full_evening z wish alternatives =
     (if alternatives = []
      then ''Um '' @ spoken_time wish @ '' ist leider nichts frei, auch nicht kurz davor oder danach.''
      else say_with_options z (''Um '' @ spoken_time wish @ '' ist leider voll.'') wish alternatives)"

section \<open>check_slot\<close>

definition unavailable :: "zone \<Rightarrow> local_dt list \<Rightarrow> str \<Rightarrow> slot_check" where
  "unavailable z chosen say =
     \<lparr>sl_available = False, sl_alternatives = map (utc_of z) chosen, sl_team_callback = False,
      sl_say = Some say\<rparr>"

text \<open>\<open>_is_morning\<close>; \<open>first_open\<close> is the first opening of the day.\<close>

definition is_morning :: "zone \<Rightarrow> local_dt \<Rightarrow> window list \<Rightarrow> window list \<Rightarrow> bool" where
  "is_morning z l services today =
     (let wish = utc_of z l; first_open = utc_of z (fst (hd today));
          closed_before = filter (\<lambda>c. c \<le> wish) (map (\<lambda>s. utc_of z (snd s)) services);
          last_close = (if closed_before \<noteq> [] then arg_min_list uminus closed_before
                        else utc_of z (combine (ldate l) 0))
      in if first_open \<le> wish then False else first_open - wish < wish - last_close)"

definition wish_limit :: "wish \<Rightarrow> bool \<Rightarrow> int" where
  "wish_limit x same_day =
     (let c = w_config x
      in if same_day then min (reservation_max_party_size c) (reservation_max_party_size_same_day c)
         else reservation_max_party_size c)"

text \<open>The wish lies in an open service.\<close>

definition chosen_slots :: "wish \<Rightarrow> window \<Rightarrow> local_dt list" where
  "chosen_slots x srv =
     take MAX_ALTERNATIVES (sort_key (distance x) (sort_key wall
       (filter (\<lambda>s. distance x s < UNAMBIGUOUS) (free_slots x (fits x) srv))))"

definition answer_open :: "wish \<Rightarrow> window \<Rightarrow> slot_check" where
  "answer_open x srv =
     (let l = w_local x; chosen = chosen_slots x srv;
          say = (if startable x l srv \<and> inside_notice x l
                 then say_too_soon (w_zone x) (seats_free x l) l chosen
                   (chosen = [] \<and> \<not> list_ex (\<lambda>s. free_slots x (fits x) s \<noteq> []) (w_services x))
                 else if startable x l srv then say_full_evening (w_zone x) l chosen
                 else say_with_options (w_zone x)
                   (''Um '' @ spoken_time l @ '' k'' @ [oe] @ ''nnen wir leider keinen Tisch reservieren.'')
                   l chosen)
      in unavailable (w_zone x) chosen say)"

text \<open>The wish lies in none.\<close>

definition later_slots :: "wish \<Rightarrow> local_dt list option" where
  "later_slots x =
     find (\<lambda>ss. ss \<noteq> []) (map (\<lambda>s. take MAX_ALTERNATIVES (free_slots x (fits x) s)) (w_today x))"

definition answer_closed :: "wish \<Rightarrow> slot_check" where
  "answer_closed x =
     (let l = w_local x; z = w_zone x; um = ''Um '' @ spoken_time l
      in if w_today x = [] then
           unavailable z [] (''Am '' @ WEEKDAYS ! nat (weekday (ldate l)) @ '' haben wir leider geschlossen.'')
         else if is_morning z l (w_services x) (w_today x) then
           (case later_slots x of
              Some chosen \<Rightarrow>
                unavailable z chosen (say_with_options z (um @ '' haben wir noch geschlossen.'') l chosen)
            | None \<Rightarrow>
                if list_ex (\<lambda>s. free_slots x (seated x) s \<noteq> []) (w_today x)
                then unavailable z [] (um @ '' haben wir noch geschlossen, '' @
                       ''und so kurzfristig kann ich keinen Tisch reservieren.'')
                else unavailable z [] (um @ '' haben wir noch geschlossen, '' @
                       ''und an dem Tag ist leider nichts mehr frei.''))
         else unavailable z [] (um @ '' haben wir leider geschlossen. '' @ ASK_OTHER_TIME))"

definition answer_wish :: "wish \<Rightarrow> int \<Rightarrow> slot_check" where
  "answer_wish x days_ahead =
     (let l = w_local x; service = open_window_at (w_hours x) (w_at x) Dinein (w_zone x)
      in case service of
           None \<Rightarrow> answer_closed x
         | Some srv \<Rightarrow>
             if startable x l srv \<and> window_for (w_windows x) l = None
             then \<lparr>sl_available = False, sl_alternatives = [], sl_team_callback = True,
                   sl_say = Some (say_team_decides_time l)\<rparr>
             else if fits x l srv then
               (if wish_limit x (days_ahead = 0) < w_party x
                then \<lparr>sl_available = False, sl_alternatives = [], sl_team_callback = True,
                      sl_say = Some (say_team_decides (w_party x)
                        (w_party x \<le> reservation_max_party_size (w_config x)))\<rparr>
                else \<lparr>sl_available = True, sl_alternatives = [], sl_team_callback = False, sl_say = None\<rparr>)
             else answer_open x srv)"

definition check_slot ::
  "db \<Rightarrow> uuid \<Rightarrow> instant \<Rightarrow> int \<Rightarrow> instant \<Rightarrow> uuid option \<Rightarrow> app_error + slot_check" where
  "check_slot d tid at party now cid =
     (case (get_tenant d tid, get_config d tid) of
        (Some t, Some c) \<Rightarrow>
          (if \<not> reservations_enabled c then Inr (unavailable (t_timezone t) [] SAY_RESERVATIONS_OFF)
           else if at \<le> now then raise_err InvalidInput (Some SAY_PAST)
           else let z = t_timezone t;
                    days_ahead = ldate (astimezone z at) - ldate (astimezone z now)
                in if reservation_max_days_ahead c < days_ahead
                   then Inr (unavailable z [] (say_too_far_ahead (reservation_max_days_ahead c)))
                   else Inr (answer_wish (wish_of d tid t c at party now cid) days_ahead))
      | _ \<Rightarrow> raise_err NotFound None)"

section \<open>What is offered\<close>

text \<open>A time the restaurant can keep for the party, stated by the rows and not by the search: ahead,
  in a service with its distances to opening and closing, in a capacity window with room left, and
  not inside its notice.\<close>

definition can_be_kept :: "wish \<Rightarrow> local_dt \<Rightarrow> bool" where
  "can_be_kept x l \<longleftrightarrow> w_now x < utc_of (w_zone x) l \<and>
     (\<exists>srv \<in> set (w_services x). startable x l srv) \<and>
     (\<exists>w \<in> set (w_windows x). cw_contains_local w l \<and> w_booked x w + w_party x \<le> cw_max_guests w \<and>
        w_now x + cw_notice_minutes w * MINUTE \<le> utc_of (w_zone x) l)"

lemma wish_of_sel [simp]:
  "w_config (wish_of d tid t c at party now cid) = c"
  "w_zone (wish_of d tid t c at party now cid) = t_timezone t"
  "w_at (wish_of d tid t c at party now cid) = at"
  "w_party (wish_of d tid t c at party now cid) = party"
  "w_now (wish_of d tid t c at party now cid) = now"
  "w_windows (wish_of d tid t c at party now cid) =
     windows_around d tid (ldate (astimezone (t_timezone t) at))"
  "w_booked (wish_of d tid t c at party now cid) =
     booked_guests d tid (t_timezone t) (windows_around d tid (ldate (astimezone (t_timezone t) at)))
       now (max_call_seconds c * SECOND) cid"
  by (simp_all add: wish_of_def Let_def)

lemma fits_kept:
  assumes "fits x l srv" and "srv \<in> set (w_services x)" and "w_now x < utc_of (w_zone x) l"
  shows "can_be_kept x l"
proof -
  obtain w where w: "window_for (w_windows x) l = Some w"
    and "w_booked x w + w_party x \<le> cw_max_guests w"
    and "w_now x + cw_notice_minutes w * MINUTE \<le> utc_of (w_zone x) l"
    using assms(1) by (auto simp: fits_def seated_def seats_free_def inside_notice_def split: option.splits)
  moreover have "w \<in> set (w_windows x) \<and> cw_contains_local w l"
    using w by (auto simp: window_for_def dest: find_SomeD)
  ultimately show ?thesis using assms by (auto simp: can_be_kept_def fits_def seated_def)
qed

lemma free_slot:
  assumes "s \<in> set (free_slots x (fits x) srv)" and "srv \<in> set (w_services x)"
  shows "s \<in> set (concat (map grid (w_windows x))) \<and> wall s \<noteq> wall (w_local x) \<and> can_be_kept x s"
  using assms(1) by (auto simp: free_slots_def intro: fits_kept [OF _ assms(2)])

lemma take_sort_key_least:
  assumes "x \<in> set (take n (sort_key f xs))" and "y \<in> set xs" and "y \<notin> set (take n (sort_key f xs))"
  shows "f x \<le> (f y :: int)"
proof -
  let ?s = "sort_key f xs"
  have "set ?s = set (take n ?s) \<union> set (drop n ?s)" by (metis append_take_drop_id set_append)
  then have "y \<in> set (drop n ?s)" using assms(2,3) by auto
  moreover have "sorted (map f (take n ?s) @ map f (drop n ?s))"
    by (metis append_take_drop_id map_append sorted_sort_key)
  ultimately show ?thesis using assms(1) by (auto simp: sorted_append)
qed

lemma chosen_slots_facts:
  assumes "s \<in> set (chosen_slots x srv)"
  shows "s \<in> set (free_slots x (fits x) srv)" and "distance x s < UNAMBIGUOUS"
    and "s' \<in> set (free_slots x (fits x) srv) \<Longrightarrow> s' \<notin> set (chosen_slots x srv) \<Longrightarrow>
      distance x s \<le> distance x s'"
proof -
  let ?near = "filter (\<lambda>s. distance x s < UNAMBIGUOUS) (free_slots x (fits x) srv)"
  have in_near: "s \<in> set ?near" using assms by (auto simp: chosen_slots_def dest: in_set_takeD)
  then show "s \<in> set (free_slots x (fits x) srv)" and near: "distance x s < UNAMBIGUOUS" by auto
  show "distance x s \<le> distance x s'"
    if s': "s' \<in> set (free_slots x (fits x) srv)" "s' \<notin> set (chosen_slots x srv)"
  proof (cases "distance x s' < UNAMBIGUOUS")
    case True
    then have "s' \<in> set (sort_key wall ?near)" using s' by simp
    with assms s'(2) show ?thesis unfolding chosen_slots_def by (intro take_sort_key_least)
  qed (use near in simp)
qed

lemma later_slots_facts:
  assumes "later_slots x = Some ss"
  shows "length ss \<le> MAX_ALTERNATIVES"
    and "s \<in> set ss \<Longrightarrow> \<exists>srv \<in> set (w_today x). s \<in> set (free_slots x (fits x) srv)"
proof -
  obtain srv where srv: "srv \<in> set (w_today x)"
    and ss: "ss = take MAX_ALTERNATIVES (free_slots x (fits x) srv)"
    using assms by (auto simp: later_slots_def dest!: find_SomeD)
  show "length ss \<le> MAX_ALTERNATIVES" by (simp add: ss)
  show "\<exists>srv \<in> set (w_today x). s \<in> set (free_slots x (fits x) srv)" if "s \<in> set ss"
    using that srv ss by (auto dest: in_set_takeD)
qed

lemma w_services_wish:
  "w_services (wish_of d tid t c at party now cid) =
     windows_for_day (w_hours (wish_of d tid t c at party now cid)) (ldate (astimezone (t_timezone t) at) - 1) Dinein
     @ w_today (wish_of d tid t c at party now cid)"
  by (simp add: wish_of_def Let_def)

lemma open_service_in:
  assumes "open_window_at (w_hours x) (w_at x) Dinein (w_zone x) = Some srv"
    and "x = wish_of d tid t c at party now cid"
  shows "srv \<in> set (w_services x)"
  using open_hours.first_at_Some [OF assms(1) [unfolded open_window_first]]
  by (auto simp: assms(2) w_services_wish wish_of_def Let_def)

text \<open>C23. Whatever the agent is told it may offer can be kept. An available wish is ahead, in a
  service, in a window with room for the party, outside its notice, within the horizon and the
  limit of the party. Otherwise at most two alternatives are named, each such a time of the grid
  and not the wish itself; inside an open service they lie under six hours away, and no free
  slot left out is nearer.\<close>

theorem check_slot_offers:
  assumes "check_slot d tid at party now cid = Inr r"
    and "get_tenant d tid = Some t" and "get_config d tid = Some c" and "wf_zone (t_timezone t)"
    and "x = wish_of d tid t c at party now cid"
  shows "(sl_available r \<longrightarrow> sl_alternatives r = [] \<and> can_be_kept x (w_local x) \<and>
      ldate (w_local x) - ldate (astimezone (t_timezone t) now) \<le> reservation_max_days_ahead c \<and>
      party \<le> reservation_max_party_size c)
    \<and> length (sl_alternatives r) \<le> MAX_ALTERNATIVES
    \<and> (\<forall>a \<in> set (sl_alternatives r). \<exists>s \<in> set (concat (map grid (w_windows x))).
        a = utc_of (t_timezone t) s \<and> wall s \<noteq> wall (w_local x) \<and> can_be_kept x s \<and>
        (\<forall>srv. open_window_at (w_hours x) at Dinein (t_timezone t) = Some srv \<longrightarrow>
           \<bar>a - at\<bar> < UNAMBIGUOUS \<and>
           (\<forall>s' \<in> set (free_slots x (fits x) srv).
              utc_of (t_timezone t) s' \<notin> set (sl_alternatives r) \<longrightarrow> distance x s \<le> distance x s')))"
    (is "?av \<and> ?len \<and> ?alts")
proof (cases "reservations_enabled c \<and>
    \<not> reservation_max_days_ahead c < ldate (w_local x) - ldate (astimezone (t_timezone t) now)")
  case False
  then show ?thesis using assms(1-3,5)
    by (auto simp: check_slot_def unavailable_def Let_def w_local_def split: if_splits)
next
  case True
  let ?z = "t_timezone t" and ?ahead = "ldate (w_local x) - ldate (astimezone (t_timezone t) now)"
  have fut: "now < at" and r: "r = answer_wish x ?ahead"
    using assms(1-3,5) True by (auto simp: check_slot_def Let_def w_local_def split: if_splits)
  have same: "utc_of ?z (w_local x) = at"
    using assms(5) utc_of_astimezone [OF assms(4)] by (simp add: w_local_def)
  have z: "w_zone x = ?z" and now: "w_now x = now" and at: "w_at x = at" using assms(5) by simp_all
  show ?thesis
  proof (cases "open_window_at (w_hours x) at Dinein ?z")
    case None
    then have rc: "r = answer_closed x" using r z at by (simp add: answer_wish_def Let_def)
    have kept: "\<exists>s' \<in> set (concat (map grid (w_windows x))). utc_of ?z s = utc_of ?z s' \<and>
        wall s' \<noteq> wall (w_local x) \<and> can_be_kept x s'"
      if ss: "later_slots x = Some ss" "s \<in> set ss" for s ss
    proof -
      obtain srv where "srv \<in> set (w_today x)" "s \<in> set (free_slots x (fits x) srv)"
        using later_slots_facts(2) [OF ss] by blast
      then show ?thesis using free_slot assms(5) w_services_wish by (metis Un_iff set_append)
    qed
    show ?thesis
      using None kept later_slots_facts(1)
      by (auto simp: rc answer_closed_def Let_def unavailable_def z split: option.splits)
  next
    case (Some srv)
    then have srv: "srv \<in> set (w_services x)" using open_service_in assms(5) z at by metis
    have pick: "fits x (w_local x) srv \<and> party \<le> reservation_max_party_size c \<and> sl_alternatives r = []"
      if "sl_available r"
      using that Some assms(5)
      by (auto simp: r z at answer_wish_def answer_open_def unavailable_def Let_def wish_limit_def
          split: if_splits)
    have alts: "sl_alternatives r = [] \<or> sl_alternatives r = map (utc_of ?z) (chosen_slots x srv)"
      using Some by (simp add: r z at answer_wish_def answer_open_def unavailable_def Let_def)
    have "?av" using pick fits_kept [OF _ srv] True same fut z now by auto
    moreover have "?len" using alts by (auto simp: chosen_slots_def)
    moreover have "?alts"
    proof
      fix a assume a: "a \<in> set (sl_alternatives r)"
      then obtain s where s: "s \<in> set (chosen_slots x srv)" "a = utc_of ?z s" using alts by force
      have far: "\<bar>a - at\<bar> < UNAMBIGUOUS"
        using chosen_slots_facts(2) [OF s(1)] by (simp add: distance_def z same s(2))
      have near: "distance x s \<le> distance x s'"
        if "s' \<in> set (free_slots x (fits x) srv)" "utc_of ?z s' \<notin> set (sl_alternatives r)" for s'
        using that a alts chosen_slots_facts(3) [OF s(1), of s'] by force
      show "\<exists>s \<in> set (concat (map grid (w_windows x))).
        a = utc_of (t_timezone t) s \<and> wall s \<noteq> wall (w_local x) \<and> can_be_kept x s \<and>
        (\<forall>srv. open_window_at (w_hours x) at Dinein (t_timezone t) = Some srv \<longrightarrow>
           \<bar>a - at\<bar> < UNAMBIGUOUS \<and>
           (\<forall>s' \<in> set (free_slots x (fits x) srv).
              utc_of (t_timezone t) s' \<notin> set (sl_alternatives r) \<longrightarrow> distance x s \<le> distance x s'))"
        using free_slot [OF chosen_slots_facts(1) [OF s(1)] srv] s(2) far near Some
        by (intro bexI [of _ s]) auto
    qed
    ultimately show ?thesis by blast
  qed
qed

end
