(* ===== verification/Switches.thy ===== *)
theory Switches
  imports Status
begin

text \<open>
  The switches of the tablet's header, \<open>api/domain/status/config.py\<close>: the emergency stop and its
  way back, the mode switch, pickup, delivery and reservations on and off, the wait for today
  and the standard wait. Each locks the configuration, writes the audit log with the value
  before and after, and commits. The theorems say what a tap means for the calls after it.
\<close>

section \<open>api/domain/status/config.py\<close>

definition ACTOR_TABLET :: str where "ACTOR_TABLET = ''gui:tablet''"
definition ACTION_MODE :: str where "ACTION_MODE = ''service_config.mode_changed''"
definition ACTION_DELIVERY :: str where "ACTION_DELIVERY = ''service_config.delivery_changed''"
definition ACTION_PICKUP :: str where "ACTION_PICKUP = ''service_config.pickup_changed''"
definition ACTION_RESERVATIONS :: str where "ACTION_RESERVATIONS = ''service_config.reservations_changed''"
definition ACTION_WAIT :: str where "ACTION_WAIT = ''service_config.wait_changed''"
definition ACTION_WAIT_STANDARD :: str where "ACTION_WAIT_STANDARD = ''service_config.wait_standard_changed''"

definition RESUME_FALLBACK :: call_mode where "RESUME_FALLBACK = Shadow"
definition MAX_WAIT_MINUTES :: int where "MAX_WAIT_MINUTES = 180"
definition MIN_WAIT_MINUTES :: int where "MIN_WAIT_MINUTES = 10"

definition mode_str :: "call_mode \<Rightarrow> str" where
  "mode_str m = (case m of Shadow \<Rightarrow> ''shadow'' | Overflow \<Rightarrow> ''overflow'' | Primary \<Rightarrow> ''primary''
     | Paused \<Rightarrow> ''paused'')"

definition mode_of_str :: "str \<Rightarrow> call_mode option" where
  "mode_of_str s = find (\<lambda>m. mode_str m = s) [Shadow, Overflow, Primary, Paused]"

lemma mode_of_mode_str [simp]: "mode_of_str (mode_str m) = Some m"
  by (cases m) (simp_all add: mode_of_str_def mode_str_def)

lemma mode_str_inject [simp]: "mode_str m = mode_str n \<longleftrightarrow> m = n"
  by (cases m; cases n) (simp_all add: mode_str_def)

definition locked_config :: "db \<Rightarrow> uuid \<Rightarrow> app_error + service_config" where
  "locked_config d tid = (case get_config d tid of None \<Rightarrow> raise_err NotFound None | Some c \<Rightarrow> Inr c)"

definition set_config :: "uuid \<Rightarrow> (service_config \<Rightarrow> service_config) \<Rightarrow> db \<Rightarrow> db" where
  "set_config tid f d = d\<lparr>service_configs := upd_rows (\<lambda>c. sc_tenant_id c = tid) f (service_configs d)\<rparr>"

text \<open>The audit entry, then the change of the row.\<close>

definition change_config ::
  "uuid \<Rightarrow> str \<Rightarrow> str \<Rightarrow> json \<Rightarrow> (service_config \<Rightarrow> service_config) \<Rightarrow> db \<Rightarrow> db" where
  "change_config tid who what payload f d =
     set_config tid f (add_audit tid who what ''service_config'' tid payload d)"

definition mode_before_pause :: "db \<Rightarrow> uuid \<Rightarrow> str" where
  "mode_before_pause d tid =
     (case filter (\<lambda>a. au_tenant_id a = tid \<and> action a = ACTION_MODE \<and>
             jget ''to'' (au_payload a) = Some (JStr (mode_str Paused))) (audit d) of
        [] \<Rightarrow> mode_str RESUME_FALLBACK
      | as \<Rightarrow> (case jget ''from'' (au_payload (last as)) of
                Some (JStr s) \<Rightarrow> (if s = [] \<or> s = mode_str Paused then mode_str RESUME_FALLBACK else s)
              | _ \<Rightarrow> mode_str RESUME_FALLBACK))"

definition from_to :: "json \<Rightarrow> json \<Rightarrow> json" where
  "from_to a b = JObj [(''from'', a), (''to'', b)]"

definition pause_ai :: "uuid \<Rightarrow> str \<Rightarrow> db \<Rightarrow> app_error + service_config \<times> db" where
  "pause_ai tid who d =
     andthen (locked_config d tid) (\<lambda>c.
       if call_mode c \<noteq> Paused
       then Inr (c\<lparr>call_mode := Paused\<rparr>,
         change_config tid who ACTION_MODE (from_to (JStr (mode_str (call_mode c))) (JStr (mode_str Paused)))
           (\<lambda>c. c\<lparr>call_mode := Paused\<rparr>) d)
       else Inr (c, d))"

text \<open>A mode the log names and the table does not know fails its CHECK at the commit.\<close>

definition resume_ai :: "uuid \<Rightarrow> str \<Rightarrow> db \<Rightarrow> app_error + service_config \<times> db" where
  "resume_ai tid who d =
     andthen (locked_config d tid) (\<lambda>c.
       if call_mode c = Paused
       then (case mode_of_str (mode_before_pause d tid) of
               None \<Rightarrow> raise_err UncaughtError None
             | Some m \<Rightarrow> Inr (c\<lparr>call_mode := m\<rparr>,
                 change_config tid who ACTION_MODE (from_to (JStr (mode_str Paused)) (JStr (mode_str m)))
                   (\<lambda>c. c\<lparr>call_mode := m\<rparr>) d))
       else Inr (c, d))"

definition set_mode :: "uuid \<Rightarrow> call_mode \<Rightarrow> str \<Rightarrow> instant \<Rightarrow> db \<Rightarrow> app_error + service_config \<times> db" where
  "set_mode tid mode who now d =
     (if mode = Paused then raise_err InvalidInput None
      else andthen (locked_config d tid) (\<lambda>c.
        if call_mode c = Paused then raise_err InvalidInput None
        else case get_tenant d tid of None \<Rightarrow> raise_err NotFound None
          | Some t \<Rightarrow>
              (let holding = mn_mode (mode_at d t c now)
               in if holding \<noteq> mode
                  then Inr (c\<lparr>call_mode := mode, call_mode_chosen_at := Some now\<rparr>,
                    change_config tid who ACTION_MODE (from_to (JStr (mode_str holding)) (JStr (mode_str mode)))
                      (\<lambda>c. c\<lparr>call_mode := mode, call_mode_chosen_at := Some now\<rparr>) d)
                  else Inr (c, d))))"

definition set_switch ::
  "(service_config \<Rightarrow> bool) \<Rightarrow> (bool \<Rightarrow> service_config \<Rightarrow> service_config) \<Rightarrow> str \<Rightarrow> uuid \<Rightarrow> bool \<Rightarrow> str
   \<Rightarrow> db \<Rightarrow> app_error + service_config \<times> db" where
  "set_switch get put what tid enabled who d =
     andthen (locked_config d tid) (\<lambda>c.
       if get c \<noteq> enabled
       then Inr (put enabled c,
         change_config tid who what (from_to (JBool (get c)) (JBool enabled)) (put enabled) d)
       else Inr (c, d))"

definition set_delivery :: "uuid \<Rightarrow> bool \<Rightarrow> str \<Rightarrow> db \<Rightarrow> app_error + service_config \<times> db" where
  "set_delivery = set_switch delivery_enabled (\<lambda>b c. c\<lparr>delivery_enabled := b\<rparr>) ACTION_DELIVERY"

definition set_pickup :: "uuid \<Rightarrow> bool \<Rightarrow> str \<Rightarrow> db \<Rightarrow> app_error + service_config \<times> db" where
  "set_pickup = set_switch pickup_enabled (\<lambda>b c. c\<lparr>pickup_enabled := b\<rparr>) ACTION_PICKUP"

definition set_reservations :: "uuid \<Rightarrow> bool \<Rightarrow> str \<Rightarrow> db \<Rightarrow> app_error + service_config \<times> db" where
  "set_reservations =
     set_switch reservations_enabled (\<lambda>b c. c\<lparr>reservations_enabled := b\<rparr>) ACTION_RESERVATIONS"

definition next_wait :: "int \<Rightarrow> int \<Rightarrow> int" where
  "next_wait before step =
     (let size = \<bar>step\<bar>
      in if step < 0
         then (let low = min MIN_WAIT_MINUTES before
               in if before \<le> low then before else max ((before - 1) div size * size) low)
         else (let ceiling = max MAX_WAIT_MINUTES before
               in if ceiling \<le> before then before else min ((before div size + 1) * size) ceiling))"

text \<open>\<open>STANDARD_FIELDS\<close> knows two services.\<close>

definition known_service :: "service \<Rightarrow> app_error + unit" where
  "known_service s = (if s = Dinein then raise_err InvalidInput None else Inr ())"

definition checked_minutes :: "service \<Rightarrow> int \<Rightarrow> app_error + unit" where
  "checked_minutes s minutes =
     andthen (known_service s) (\<lambda>_.
       if \<not> (MIN_WAIT_MINUTES \<le> minutes \<and> minutes \<le> MAX_WAIT_MINUTES)
       then raise_err InvalidInput (Some (''Die Wartezeit geht von '' @ str_int MIN_WAIT_MINUTES @ '' bis '' @
              str_int MAX_WAIT_MINUTES @ '' Minuten.''))
       else Inr ())"

definition service_str :: "service \<Rightarrow> str" where
  "service_str s = (case s of Dinein \<Rightarrow> ''dinein'' | Pickup \<Rightarrow> ''pickup'' | Delivery \<Rightarrow> ''delivery'')"

definition put_today :: "service \<Rightarrow> (int \<times> instant) option \<Rightarrow> service_config \<Rightarrow> service_config" where
  "put_today s v c =
     (if s = Pickup
      then c\<lparr>pickup_wait_today_minutes := map_option fst v, pickup_wait_today_until := map_option snd v\<rparr>
      else c\<lparr>delivery_wait_today_minutes := map_option fst v, delivery_wait_today_until := map_option snd v\<rparr>)"

definition put_standard :: "service \<Rightarrow> int \<Rightarrow> service_config \<Rightarrow> service_config" where
  "put_standard s v c =
     (if s = Pickup then c\<lparr>pickup_wait_standard_minutes := v\<rparr> else c\<lparr>delivery_wait_standard_minutes := v\<rparr>)"

definition set_today ::
  "service_config \<Rightarrow> service \<Rightarrow> int \<Rightarrow> instant \<Rightarrow> str \<Rightarrow> (str \<times> json) list \<Rightarrow> db
   \<Rightarrow> app_error + service_config \<times> db" where
  "set_today c s minutes now who facts d =
     (let before = current_wait c s now; tid = sc_tenant_id c
      in if minutes = before then Inr (c, d)
         else case get_tenant d tid of None \<Rightarrow> raise_err UncaughtError None
           | Some t \<Rightarrow>
               (let z = t_timezone t;
                    until = snd (business_day_bounds_utc (business_day now z DAY_STARTS_AT) z DAY_STARTS_AT)
                in Inr (put_today s (Some (minutes, until)) c,
                     change_config tid who ACTION_WAIT
                       (JObj ([(''service'', JStr (service_str s))] @ facts @
                          [(''from'', JInt before), (''to'', JInt minutes), (''until'', JTime until)]))
                       (put_today s (Some (minutes, until))) d)))"

definition change_wait ::
  "uuid \<Rightarrow> service \<Rightarrow> int \<Rightarrow> str \<Rightarrow> instant \<Rightarrow> db \<Rightarrow> app_error + service_config \<times> db" where
  "change_wait tid s minutes who now d =
     andthen (known_service s) (\<lambda>_.
       if minutes = 0 then raise_err InvalidInput None
       else andthen (locked_config d tid) (\<lambda>c.
         set_today c s (next_wait (current_wait c s now) minutes) now who [(''step'', JInt minutes)] d))"

definition set_wait ::
  "uuid \<Rightarrow> service \<Rightarrow> int \<Rightarrow> str \<Rightarrow> instant \<Rightarrow> db \<Rightarrow> app_error + service_config \<times> db" where
  "set_wait tid s minutes who now d =
     andthen (checked_minutes s minutes) (\<lambda>_.
     andthen (locked_config d tid) (\<lambda>c.
       set_today c s minutes now who [(''typed'', JBool True)] d))"

definition set_standard_wait ::
  "uuid \<Rightarrow> service \<Rightarrow> int \<Rightarrow> str \<Rightarrow> db \<Rightarrow> app_error + service_config \<times> db" where
  "set_standard_wait tid s minutes who d =
     andthen (checked_minutes s minutes) (\<lambda>_.
     andthen (locked_config d tid) (\<lambda>c.
       let before = standard_wait c s
       in if minutes \<noteq> before
          then Inr (put_standard s minutes c,
            change_config tid who ACTION_WAIT_STANDARD
              (JObj [(''service'', JStr (service_str s)), (''from'', JInt before), (''to'', JInt minutes)])
              (put_standard s minutes) d)
          else Inr (c, d)))"

definition reset_wait ::
  "uuid \<Rightarrow> service \<Rightarrow> str \<Rightarrow> instant \<Rightarrow> db \<Rightarrow> app_error + service_config \<times> db" where
  "reset_wait tid s who now d =
     andthen (known_service s) (\<lambda>_.
     andthen (locked_config d tid) (\<lambda>c.
       if holds_today c s now
       then Inr (put_today s None c,
         change_config tid who ACTION_WAIT
           (JObj [(''service'', JStr (service_str s)), (''reset'', JBool True),
                  (''from'', JInt (current_wait c s now)), (''to'', JInt (standard_wait c s))])
           (put_today s None) d)
       else Inr (c, d)))"


section \<open>Reading what a tap wrote\<close>

lemma change_config_frame [simp, frame_simps]:
  "tenants (change_config tid who what p f d) = tenants d"
  "call_mode_windows (change_config tid who what p f d) = call_mode_windows d"
  "call_limit_windows (change_config tid who what p f d) = call_limit_windows d"
  "audit (change_config tid who what p f d) = audit d @ [\<lparr>au_tenant_id = tid, au_at = tx_now d,
     actor = who, action = what, au_entity = ''service_config'', entity_id = Some tid, au_payload = p\<rparr>]"
  by (simp_all add: change_config_def set_config_def add_audit_def)

lemma get_tenant_change [simp]: "get_tenant (change_config tid who what p f d) i = get_tenant d i"
  by (simp add: get_tenant_def)

lemma get_config_change:
  assumes "get_config d tid = Some c" and "\<And>c. sc_tenant_id (f c) = sc_tenant_id c"
  shows "get_config (change_config tid who what p f d) tid = Some (f c)"
proof -
  have "find (\<lambda>c. sc_tenant_id c = tid) (upd_rows (\<lambda>c. sc_tenant_id c = tid) f (service_configs d)) =
      map_option (\<lambda>c. if sc_tenant_id c = tid then f c else c)
        (find (\<lambda>c. sc_tenant_id c = tid) (service_configs d))"
    by (rule find_upd_rows) (simp add: assms(2))
  moreover have "sc_tenant_id c = tid" using assms(1) by (auto simp: get_config_def dest: find_SomeD)
  ultimately show ?thesis
    using assms(1) by (simp add: change_config_def set_config_def add_audit_def get_config_def)
qed

lemma set_config_same:
  assumes "locked_config d tid = Inr c" shows "get_config d tid = Some c" and "sc_tenant_id c = tid"
  using assms by (auto simp: locked_config_def raise_err_def get_config_def dest: find_SomeD split: option.splits)

lemma planned_windows_change [simp]:
  "planned_windows (change_config tid who what p f d) t c now = planned_windows d t c now"
  by (simp add: planned_windows_def mode_windows_at_def)

section \<open>The emergency stop\<close>

lemma paused_mode: "call_mode c = Paused \<Longrightarrow> mn_mode (mode_at d t c now) = Paused"
  by (simp add: mode_at_def)

text \<open>C15. After a tap on the emergency stop the agent answers no call of this restaurant, whatever
  the weekly windows say and however many lines are free: every call rings the team.\<close>

theorem emergency_stop:
  assumes "pause_ai tid who d = Inr (c, d')" and "route_call d' tid now = Inr r"
  shows "\<not> takes_call r n \<and> cr_mode r = Paused"
proof -
  obtain c0 where c0: "locked_config d tid = Inr c0" using assms(1) by (auto simp: pause_ai_def)
  have "\<exists>c'. get_config d' tid = Some c' \<and> call_mode c' = Paused"
  proof (cases "call_mode c0 = Paused")
    case True
    then show ?thesis using assms(1) c0 set_config_same(1) [OF c0] by (simp add: pause_ai_def)
  next
    case False
    then have "d' = change_config tid who ACTION_MODE
        (from_to (JStr (mode_str (call_mode c0))) (JStr (mode_str Paused))) (\<lambda>c. c\<lparr>call_mode := Paused\<rparr>) d"
      using assms(1) c0 by (simp add: pause_ai_def)
    then show ?thesis using get_config_change [OF set_config_same(1) [OF c0]] by simp
  qed
  then obtain c' where "get_config d' tid = Some c'" "call_mode c' = Paused" by blast
  then have "cr_mode r = Paused \<and> \<not> ai_answers r"
    using assms(2)
    by (auto simp: route_call_def Let_def paused_mode AI_ANSWERS_def raise_err_def split: option.splits)
  then show ?thesis by (simp add: takes_call_def)
qed

text \<open>Switching the agent back on restores the mode the pause found, whatever stood in the log
  before.\<close>

theorem pause_resume:
  assumes "get_config d tid = Some c" and "call_mode c \<noteq> Paused"
    and "pause_ai tid who d = Inr (c1, d1)" and "resume_ai tid who' d1 = Inr (c2, d2)"
  shows "get_config d2 tid = Some c \<and> c2 = c"
proof -
  let ?f = "\<lambda>c. c\<lparr>call_mode := Paused\<rparr>"
  have d1: "d1 = change_config tid who ACTION_MODE
      (from_to (JStr (mode_str (call_mode c))) (JStr (mode_str Paused))) ?f d"
    using assms(1-3) by (simp add: pause_ai_def locked_config_def)
  have c1: "get_config d1 tid = Some (?f c)"
    unfolding d1 by (rule get_config_change [OF assms(1)]) simp
  have m: "mode_before_pause d1 tid = mode_str (call_mode c)"
    using assms(2) by (cases "call_mode c")
      (simp_all add: mode_before_pause_def d1 from_to_def list.case_eq_if mode_str_def)
  have r: "c2 = (?f c)\<lparr>call_mode := call_mode c\<rparr>"
    "d2 = change_config tid who' ACTION_MODE (from_to (JStr (mode_str Paused)) (JStr (mode_str (call_mode c))))
       (\<lambda>x. x\<lparr>call_mode := call_mode c\<rparr>) d1"
    using assms(4) c1 m by (auto simp: resume_ai_def locked_config_def)
  have "get_config d2 tid = Some ((?f c)\<lparr>call_mode := call_mode c\<rparr>)"
    unfolding r(2) by (rule get_config_change [OF c1]) simp
  then show ?thesis by (simp add: r(1))
qed

section \<open>The mode switch\<close>

lemma mode_without_plan:
  "call_mode c \<noteq> Paused \<Longrightarrow> planned_windows d t c now = [] \<Longrightarrow> mn_mode (mode_at d t c now) = call_mode c"
  by (simp add: mode_at_def)

text \<open>The windows of a weekday begin at wall times that every day has once.\<close>

definition windows_plain :: "db \<Rightarrow> tenant \<Rightarrow> instant \<Rightarrow> bool" where
  "windows_plain d t now \<longleftrightarrow>
     (\<forall>w \<in> set (call_mode_windows d). plain (t_timezone t)
        (ldate (astimezone (t_timezone t) now) * DAY + mw_starts_at w))"

lemma window_began:
  assumes "wf_zone (t_timezone t)" and "windows_plain d t now"
    and "w \<in> set (mode_windows_at d t (astimezone (t_timezone t) now))"
  shows "utc_of (t_timezone t) (combine (ldate (astimezone (t_timezone t) now)) (mw_starts_at w)) \<le> now"
proof -
  let ?z = "t_timezone t" and ?l = "astimezone (t_timezone t) now"
  have w: "w \<in> set (call_mode_windows d)" "mw_starts_at w \<le> ltime ?l"
    using assms(3) by (auto simp: mode_windows_at_def)
  then have "plain ?z (ldate ?l * DAY + mw_starts_at w)" using assms(2) by (simp add: windows_plain_def)
  moreover have "ldate ?l * DAY + mw_starts_at w \<le> wall ?l" using w(2) ldate_ltime(1) [of ?l] by simp
  ultimately show ?thesis using wall_order [OF assms(1)] by (simp add: combine_def)
qed

text \<open>A tap on the mode switch holds from this moment on, against every window that runs.\<close>

theorem set_mode_holds:
  assumes "set_mode tid mode who now d = Inr (c, d')"
    and "get_tenant d tid = Some t" and "wf_zone (t_timezone t)" and "windows_plain d t now"
  shows "get_config d' tid = Some c \<and> mn_mode (mode_at d' t c now) = mode"
proof -
  obtain c0 where c0: "locked_config d tid = Inr c0" and np: "call_mode c0 \<noteq> Paused" "mode \<noteq> Paused"
    and r: "if mn_mode (mode_at d t c0 now) \<noteq> mode
      then c = c0\<lparr>call_mode := mode, call_mode_chosen_at := Some now\<rparr> \<and>
        d' = change_config tid who ACTION_MODE
          (from_to (JStr (mode_str (mn_mode (mode_at d t c0 now)))) (JStr (mode_str mode)))
          (\<lambda>c. c\<lparr>call_mode := mode, call_mode_chosen_at := Some now\<rparr>) d
      else c = c0 \<and> d' = d"
    using assms(1,2) by (auto simp: set_mode_def raise_err_def Let_def split: if_splits)
  show ?thesis
  proof (cases "mn_mode (mode_at d t c0 now) = mode")
    case True
    then show ?thesis using r set_config_same [OF c0] by simp
  next
    case False
    let ?f = "\<lambda>c. c\<lparr>call_mode := mode, call_mode_chosen_at := Some now\<rparr>"
    have d': "d' = change_config tid who ACTION_MODE
          (from_to (JStr (mode_str (mn_mode (mode_at d t c0 now)))) (JStr (mode_str mode))) ?f d"
      and c: "c = ?f c0" using False r by auto
    have "planned_windows d t c now = []"
      using window_began [OF assms(3,4)]
      by (auto simp: planned_windows_def Let_def filter_empty_conv not_less c)
    then have "mn_mode (mode_at d' t c now) = mode" using np by (simp add: mode_without_plan d' c)
    moreover have "get_config d' tid = Some c"
      unfolding d' c by (rule get_config_change) (use set_config_same [OF c0] in simp_all)
    ultimately show ?thesis by simp
  qed
qed

section \<open>Who takes a call\<close>

text \<open>C27. The agent takes a call only in overflow or primary, never past the most cautious window
  that holds and never with as many calls open as any limit that holds now allows.\<close>

theorem takes_call_within_limits:
  assumes "route_call d tid now = Inr r" and "takes_call r n"
    and "get_tenant d tid = Some t" and "get_config d tid = Some c"
  shows "cr_mode r \<in> {Overflow, Primary} \<and> call_mode c \<noteq> Paused \<and>
    (\<forall>w \<in> set (planned_windows d t c now). caution (cr_mode r) \<le> caution (mw_call_mode w)) \<and>
    (if limits_at d t now = [] then n < max_concurrent_calls c
     else \<forall>m \<in> set (limits_at d t now). n < m)"
proof -
  let ?m = "mn_mode (mode_at d t c now)"
  have r: "ai_answers r = (?m \<in> set AI_ANSWERS)" "cr_mode r = ?m"
    "call_limit r = (if ?m \<in> set AI_ANSWERS then call_limit_at d t c now else max_concurrent_calls c)"
    using assms by (auto simp: route_call_def Let_def)
  then have m: "?m \<in> {Overflow, Primary}" and n: "n < call_limit_at d t c now"
    using assms(2) by (auto simp: takes_call_def AI_ANSWERS_def split: if_splits)
  then have np: "call_mode c \<noteq> Paused" using paused_mode by fastforce
  have "caution ?m \<le> caution (mw_call_mode w)" if w: "w \<in> set (planned_windows d t c now)" for w
  proof -
    have ne: "map mw_call_mode (planned_windows d t c now) \<noteq> []" using w by auto
    then have "?m = arg_min_list caution (map mw_call_mode (planned_windows d t c now))"
      using np by (simp add: mode_at_def Let_def)
    then show ?thesis using arg_min_list_least [OF ne, of caution] w by auto
  qed
  moreover have "if limits_at d t now = [] then n < max_concurrent_calls c
     else \<forall>m \<in> set (limits_at d t now). n < m"
    using n arg_min_list_least [of "limits_at d t now" id]
    by (auto simp: call_limit_at_def Let_def split: if_splits)
  ultimately show ?thesis using m np r by simp
qed


section \<open>The wait\<close>

text \<open>A tap on "+15" goes to the next multiple of the step above the wait, a tap on "-15" to the
  next one below it, cut off at the limits.\<close>

theorem next_wait_exact:
  assumes "step \<noteq> 0" and "MIN_WAIT_MINUTES \<le> w" and "w \<le> MAX_WAIT_MINUTES"
  shows "MIN_WAIT_MINUTES \<le> next_wait w step \<and> next_wait w step \<le> MAX_WAIT_MINUTES \<and>
    (if step < 0
     then next_wait w step \<le> w \<and> (w > MIN_WAIT_MINUTES \<longrightarrow> next_wait w step < w) \<and>
       (\<forall>k. step dvd k \<and> k < w \<longrightarrow> k \<le> next_wait w step) \<and>
       (next_wait w step = MIN_WAIT_MINUTES \<or> step dvd next_wait w step)
     else w \<le> next_wait w step \<and> (w < MAX_WAIT_MINUTES \<longrightarrow> w < next_wait w step) \<and>
       (\<forall>k. step dvd k \<and> w < k \<longrightarrow> next_wait w step \<le> k) \<and>
       (next_wait w step = MAX_WAIT_MINUTES \<or> step dvd next_wait w step))"
proof (cases "step < 0")
  case True
  define s where "s = - step"
  have s: "0 < s" "step = - s" using True by (simp_all add: s_def)
  have nw: "next_wait w step = (if w \<le> 10 then w else max ((w - 1) div s * s) 10)"
    using s assms(2) by (simp add: next_wait_def Let_def MIN_WAIT_MINUTES_def)
  have b: "s * ((w - 1) div s) \<le> w - 1" "w - 1 < s * ((w - 1) div s) + s" using div_bounds [OF s(1)] by blast+
  have k: "k \<le> (w - 1) div s * s" if "s dvd k" "k < w" for k
  proof -
    obtain j where j: "k = s * j" using \<open>s dvd k\<close> by (auto elim: dvdE)
    have "s * j < s * ((w - 1) div s + 1)" using b that(2) j by (simp add: algebra_simps)
    then have "j < (w - 1) div s + 1" using s(1) by (rule mult_left_less_imp_less [OF _ less_imp_le])
    then have "s * j \<le> s * ((w - 1) div s)" using s(1) by (intro mult_left_mono) auto
    then show ?thesis by (simp add: j mult.commute)
  qed
  have below: "k \<le> next_wait w step" if "step dvd k" "k < w" for k
  proof -
    have "s dvd k" using that(1) s(2) by simp
    from k [OF this that(2)] that(2) show ?thesis unfolding nw by auto
  qed
  have div: "next_wait w step = MIN_WAIT_MINUTES \<or> step dvd next_wait w step"
    using assms(2) s(2) unfolding nw by (auto simp: max_def MIN_WAIT_MINUTES_def)
  show ?thesis using True assms b below div s nw
    by (simp add: MIN_WAIT_MINUTES_def MAX_WAIT_MINUTES_def mult.commute max_def split: if_splits)
next
  case False
  then have s: "0 < step" using assms(1) by simp
  have nw: "next_wait w step = (if 180 \<le> w then w else min ((w div step + 1) * step) 180)"
    using s assms(3) by (simp add: next_wait_def Let_def MAX_WAIT_MINUTES_def)
  have b: "step * (w div step) \<le> w" "w < step * (w div step) + step" using div_bounds [OF s] by blast+
  have k: "(w div step + 1) * step \<le> k" if "step dvd k" "w < k" for k
  proof -
    obtain j where j: "k = step * j" using \<open>step dvd k\<close> by (auto elim: dvdE)
    have "step * (w div step) < step * j" using b that(2) j by linarith
    then have "w div step < j" using s by simp
    then have "step * (w div step + 1) \<le> step * j" using s by (intro mult_left_mono) auto
    then show ?thesis by (simp add: j mult.commute)
  qed
  have above: "next_wait w step \<le> k" if "step dvd k" "w < k" for k
    using k [OF that] that(2) unfolding nw by auto
  have div: "next_wait w step = MAX_WAIT_MINUTES \<or> step dvd next_wait w step"
    using assms(3) unfolding nw by (auto simp: min_def MAX_WAIT_MINUTES_def)
  have less: "w < (w div step + 1) * step" using b by (simp add: algebra_simps)
  show ?thesis using False assms above div less nw
    by (simp add: MIN_WAIT_MINUTES_def MAX_WAIT_MINUTES_def split: if_splits)
qed

text \<open>The waits of a configuration: the standards and the waits for today within the limits.\<close>

definition wait_range :: "int \<Rightarrow> bool" where
  "wait_range m \<longleftrightarrow> MIN_WAIT_MINUTES \<le> m \<and> m \<le> MAX_WAIT_MINUTES"

definition waits_ok :: "service_config \<Rightarrow> bool" where
  "waits_ok c \<longleftrightarrow> (\<forall>s \<in> {Pickup, Delivery}. wait_range (standard_wait c s) \<and>
     (case today_until c s of None \<Rightarrow> True
      | Some u \<Rightarrow> (case today_minutes c s of None \<Rightarrow> False | Some m \<Rightarrow> wait_range m)))"

lemma current_wait_ok: "waits_ok c \<Longrightarrow> s \<noteq> Dinein \<Longrightarrow> wait_range (current_wait c s now)"
  by (cases s) (auto simp: waits_ok_def current_wait_def holds_today_def split: option.splits)

lemma put_today_ok: "waits_ok c \<Longrightarrow> wait_range m \<Longrightarrow> waits_ok (put_today s (Some (m, u)) c)"
  "waits_ok c \<Longrightarrow> waits_ok (put_today s None c)"
  by (auto simp: waits_ok_def put_today_def split: option.splits)

lemma put_standard_ok: "waits_ok c \<Longrightarrow> wait_range m \<Longrightarrow> waits_ok (put_standard s m c)"
  by (auto simp: waits_ok_def put_standard_def split: option.splits)

lemma put_sel [simp]: "sc_tenant_id (put_today s v c) = sc_tenant_id c"
  "sc_tenant_id (put_standard s m c) = sc_tenant_id c"
  by (simp_all add: put_today_def put_standard_def)

text \<open>Every tap of the header, at any moment.\<close>

inductive switch_step :: "uuid \<Rightarrow> db \<Rightarrow> db \<Rightarrow> bool" for tid where
  pause: "pause_ai tid who d = Inr (c, d') \<Longrightarrow> switch_step tid d d'"
| resume: "resume_ai tid who d = Inr (c, d') \<Longrightarrow> switch_step tid d d'"
| mode: "set_mode tid m who now d = Inr (c, d') \<Longrightarrow> switch_step tid d d'"
| delivery: "set_delivery tid b who d = Inr (c, d') \<Longrightarrow> switch_step tid d d'"
| pickup: "set_pickup tid b who d = Inr (c, d') \<Longrightarrow> switch_step tid d d'"
| reservation: "set_reservations tid b who d = Inr (c, d') \<Longrightarrow> switch_step tid d d'"
| step_wait: "change_wait tid s n who now d = Inr (c, d') \<Longrightarrow> switch_step tid d d'"
| typed_wait: "set_wait tid s n who now d = Inr (c, d') \<Longrightarrow> switch_step tid d d'"
| standard: "set_standard_wait tid s n who d = Inr (c, d') \<Longrightarrow> switch_step tid d d'"
| reset: "reset_wait tid s who now d = Inr (c, d') \<Longrightarrow> switch_step tid d d'"

definition tenant_waits_ok :: "uuid \<Rightarrow> db \<Rightarrow> bool" where
  "tenant_waits_ok tid d \<longleftrightarrow> (case get_config d tid of None \<Rightarrow> True | Some c \<Rightarrow> waits_ok c)"

lemma keep_waits:
  assumes "locked_config d tid = Inr c" and "waits_ok (f c)" and "\<And>c. sc_tenant_id (f c) = sc_tenant_id c"
  shows "tenant_waits_ok tid (change_config tid who what p f d)"
  using get_config_change [OF set_config_same(1) [OF assms(1)] assms(3)] assms(2)
  by (simp add: tenant_waits_ok_def)

lemma set_today_waits:
  assumes "locked_config d tid = Inr c" and "waits_ok c" and "wait_range m"
    and "set_today c s m now who facts d = Inr (c', d')"
  shows "tenant_waits_ok tid d'"
proof (cases "m = current_wait c s now")
  case True
  then show ?thesis
    using assms(2,4) set_config_same [OF assms(1)] by (simp add: set_today_def tenant_waits_ok_def)
next
  case False
  note c = set_config_same(2) [OF assms(1)]
  obtain t where "get_tenant d tid = Some t"
    using assms(4) False c by (auto simp: set_today_def Let_def raise_err_def split: option.splits)
  then obtain p u where "d' = change_config tid who ACTION_WAIT p (put_today s (Some (m, u))) d"
    using assms(4) False c by (auto simp: set_today_def Let_def)
  then show ?thesis
    using keep_waits [where f = "put_today s (Some (m, u))", OF assms(1) put_today_ok(1) [OF assms(2,3)]]
    by simp
qed

lemma switch_step_waits:
  assumes "switch_step tid d d'" and "tenant_waits_ok tid d"
  shows "tenant_waits_ok tid d'"
proof -
  have ok: "waits_ok c" if "locked_config d tid = Inr c" for c
    using assms(2) set_config_same(1) [OF that] by (simp add: tenant_waits_ok_def)
  have frame: "waits_ok (c\<lparr>call_mode := m\<rparr>)" "waits_ok (c\<lparr>call_mode := m, call_mode_chosen_at := t\<rparr>)"
    "waits_ok (c\<lparr>delivery_enabled := b\<rparr>)" "waits_ok (c\<lparr>pickup_enabled := b\<rparr>)"
    "waits_ok (c\<lparr>reservations_enabled := b\<rparr>)" if "waits_ok c" for c m t b
    using that by (simp_all add: waits_ok_def cong: option.case_cong)
  from assms(1) show ?thesis
  proof cases
    case (pause who c)
    then show ?thesis using ok frame assms(2) keep_waits
      by (auto simp: pause_ai_def split: if_splits)
  next
    case (resume who c)
    then show ?thesis using ok frame assms(2) keep_waits
      by (auto simp: resume_ai_def raise_err_def split: if_splits option.splits)
  next
    case (mode m who now c)
    then show ?thesis using ok frame assms(2) keep_waits
      by (auto simp: set_mode_def Let_def raise_err_def split: if_splits option.splits)
  next
    case (delivery b who c)
    then show ?thesis using ok frame assms(2) keep_waits
      by (auto simp: set_delivery_def set_switch_def split: if_splits)
  next
    case (pickup b who c)
    then show ?thesis using ok frame assms(2) keep_waits
      by (auto simp: set_pickup_def set_switch_def split: if_splits)
  next
    case (reservation b who c)
    then show ?thesis using ok frame assms(2) keep_waits
      by (auto simp: set_reservations_def set_switch_def split: if_splits)
  next
    case (step_wait s n who now c)
    then obtain c0 where c0: "locked_config d tid = Inr c0" and n: "n \<noteq> 0" "s \<noteq> Dinein"
      and r: "set_today c0 s (next_wait (current_wait c0 s now) n) now who [(''step'', JInt n)] d = Inr (c, d')"
      by (auto simp: change_wait_def known_service_def raise_err_def split: if_splits)
    have "wait_range (next_wait (current_wait c0 s now) n)"
      using next_wait_exact [OF n(1)] current_wait_ok [OF ok [OF c0] n(2)] by (simp add: wait_range_def)
    then show ?thesis using set_today_waits [OF c0 ok [OF c0] _ r] by simp
  next
    case (typed_wait s n who now c)
    then show ?thesis using ok set_today_waits
      by (auto simp: set_wait_def checked_minutes_def raise_err_def wait_range_def split: if_splits)
  next
    case (standard s n who c)
    then show ?thesis using ok assms(2) keep_waits put_standard_ok
      by (auto simp: set_standard_wait_def checked_minutes_def Let_def raise_err_def wait_range_def split: if_splits)
  next
    case (reset s who now c)
    then show ?thesis using ok assms(2) keep_waits put_today_ok(2)
      by (auto simp: reset_wait_def raise_err_def split: if_splits)
  qed
qed

interpretation header: machine "switch_step tid" "tenant_waits_ok tid" for tid
  by unfold_locales (rule switch_step_waits)


text \<open>From a configuration in order no sequence of taps leaves the limits: the wait a guest is
  told is always between ten minutes and three hours.\<close>

theorem wait_always_in_range:
  assumes "(switch_step tid)\<^sup>*\<^sup>* d d'" and "get_config d tid = Some c" and "waits_ok c"
    and "get_config d' tid = Some c'" and "s \<noteq> Dinein"
  shows "MIN_WAIT_MINUTES \<le> current_wait c' s now \<and> current_wait c' s now \<le> MAX_WAIT_MINUTES"
proof -
  have "tenant_waits_ok tid d" using assms(2,3) by (simp add: tenant_waits_ok_def)
  from header.steps_inv [OF assms(1) this] assms(4) have "waits_ok c'" by (simp add: tenant_waits_ok_def)
  from current_wait_ok [OF this assms(5)] show ?thesis by (simp add: wait_range_def)
qed

section \<open>A restaurant\<close>

definition example_config :: service_config where
  "example_config = \<lparr>sc_tenant_id = 7, call_mode = Primary, delivery_enabled = True,
     pickup_enabled = True, reservations_enabled = True, pickup_wait_standard_minutes = 20,
     delivery_wait_standard_minutes = 45, pickup_wait_today_minutes = None,
     pickup_wait_today_until = None, delivery_wait_today_minutes = None,
     delivery_wait_today_until = None, team_phone = ''+495711234'', max_call_seconds = 600,
     reservation_lead_minutes = 30, reservation_last_start_minutes = 60,
     reservation_max_days_ahead = 60, reservation_max_party_size = 12,
     reservation_max_party_size_same_day = 8, order_approval_above_cents = 10000,
     turn_deadline_seconds = 20, order_approval_overdue_minutes = 5, overflow_needs_approval = True,
     privacy_notice_address = None, max_concurrent_calls = 2, call_mode_chosen_at = None,
     holiday_region = None\<rparr>"

definition example_tenant :: tenant where
  "example_tenant = \<lparr>t_id = 7, t_name = ''Lotus'', t_timezone = berlin\<rparr>"

text \<open>Sundays from midnight to 22:00 the agent only listens in.\<close>

definition example_db :: db where
  "example_db = empty_db\<lparr>tenants := [example_tenant], service_configs := [example_config],
     call_mode_windows := [\<lparr>mw_tenant_id = 7, mw_weekday = 6, mw_starts_at = 0,
       mw_ends_at = 22 * HOUR, mw_call_mode = Shadow\<rparr>]\<rparr>"

lemma example_rows [simp]: "get_tenant example_db 7 = Some example_tenant"
  "get_config example_db 7 = Some example_config"
  by (simp_all add: example_db_def get_tenant_def get_config_def example_tenant_def example_config_def)

definition paused_db :: db where
  "paused_db = change_config 7 ACTOR_TABLET ACTION_MODE (from_to (JStr ''primary'') (JStr ''paused''))
     (\<lambda>c. c\<lparr>call_mode := Paused\<rparr>) example_db"

lemma example_pause: "pause_ai 7 ACTOR_TABLET example_db = Inr (example_config\<lparr>call_mode := Paused\<rparr>, paused_db)"
  by (simp add: pause_ai_def locked_config_def paused_db_def example_config_def mode_str_def)

theorem emergency_stop_witness:
  "\<exists>r. route_call paused_db 7 half_past_midnight = Inr r \<and> \<not> takes_call r 0"
proof -
  have "\<exists>r. route_call paused_db 7 half_past_midnight = Inr r"
    using get_config_change [OF example_rows(2)]
    by (auto simp: route_call_def paused_db_def Let_def)
  then obtain r where r: "route_call paused_db 7 half_past_midnight = Inr r" by blast
  from emergency_stop [OF example_pause r] r show ?thesis by blast
qed

theorem pause_resume_witness:
  "\<exists>c d. resume_ai 7 ACTOR_TABLET paused_db = Inr (c, d) \<and> get_config d 7 = Some example_config"
proof -
  have "\<not> isl (resume_ai 7 ACTOR_TABLET paused_db)" by code_simp
  then obtain c d where r: "resume_ai 7 ACTOR_TABLET paused_db = Inr (c, d)"
    by (cases "resume_ai 7 ACTOR_TABLET paused_db") auto
  have "call_mode example_config \<noteq> Paused" by (simp add: example_config_def)
  from pause_resume [OF example_rows(2) this example_pause r] r show ?thesis by blast
qed

text \<open>At half past midnight on a Sunday the window says shadow; the team taps primary.\<close>

definition tapped_config :: service_config where
  "tapped_config = example_config\<lparr>call_mode := Primary, call_mode_chosen_at := Some half_past_midnight\<rparr>"

theorem set_mode_holds_witness:
  "mn_mode (mode_at example_db example_tenant example_config half_past_midnight) = Shadow \<and>
   (\<exists>d. set_mode 7 Primary ACTOR_TABLET half_past_midnight example_db = Inr (tapped_config, d) \<and>
      mn_mode (mode_at d example_tenant tapped_config half_past_midnight) = Primary)"
proof -
  have before: "mn_mode (mode_at example_db example_tenant example_config half_past_midnight) = Shadow"
    by code_simp
  obtain d where d: "set_mode 7 Primary ACTOR_TABLET half_past_midnight example_db = Inr (tapped_config, d)"
    using before by (simp add: set_mode_def locked_config_def tapped_config_def example_config_def Let_def)
  have "ldate (astimezone berlin half_past_midnight) * DAY = 20548 * DAY"
    by (simp add: half_past_midnight_local ldate_def time_units)
  then have "windows_plain example_db example_tenant half_past_midnight"
    by (simp add: windows_plain_def example_db_def example_tenant_def)
      (simp add: plain_def berlin_def time_units)
  from set_mode_holds [OF d example_rows(1) _ this] before d wf_berlin show ?thesis
    by (auto simp: example_tenant_def)
qed

theorem takes_call_within_limits_witness:
  "\<exists>r. route_call (example_db\<lparr>call_mode_windows := []\<rparr>) 7 half_past_midnight = Inr r \<and>
     takes_call r 1 \<and> cr_mode r \<in> {Overflow, Primary}"
proof -
  let ?d = "example_db\<lparr>call_mode_windows := []\<rparr>"
  have rows: "get_tenant ?d 7 = Some example_tenant" "get_config ?d 7 = Some example_config"
    using example_rows by (simp_all add: get_tenant_def get_config_def)
  have "case route_call ?d 7 half_past_midnight of Inl e \<Rightarrow> False | Inr r \<Rightarrow> takes_call r 1" by code_simp
  then obtain r where r: "route_call ?d 7 half_past_midnight = Inr r" "takes_call r 1"
    by (auto split: sum.splits)
  from takes_call_within_limits [OF r rows] r show ?thesis by blast
qed

theorem next_wait_exact_witness: "next_wait 10 15 = 15 \<and> next_wait 30 15 = 45 \<and> next_wait 17 (- 15) = 15"
proof -
  have "(15::int) dvd next_wait 10 15 \<or> next_wait 10 15 = MAX_WAIT_MINUTES"
    using next_wait_exact [of 15 10] by (auto simp: MIN_WAIT_MINUTES_def MAX_WAIT_MINUTES_def)
  then show ?thesis by (simp add: next_wait_def MIN_WAIT_MINUTES_def MAX_WAIT_MINUTES_def)
qed

theorem wait_always_in_range_witness:
  "\<exists>c d c'. change_wait 7 Pickup 15 ACTOR_TABLET half_past_midnight example_db = Inr (c, d) \<and>
     get_config d 7 = Some c' \<and> current_wait c' Pickup half_past_midnight \<le> MAX_WAIT_MINUTES"
proof -
  have "case change_wait 7 Pickup 15 ACTOR_TABLET half_past_midnight example_db of Inl e \<Rightarrow> False
      | Inr (c, d) \<Rightarrow> get_config d 7 \<noteq> None" by code_simp
  then obtain c d c' where r: "change_wait 7 Pickup 15 ACTOR_TABLET half_past_midnight example_db = Inr (c, d)"
    and c': "get_config d 7 = Some c'" by (auto split: sum.splits)
  have "(switch_step 7)\<^sup>*\<^sup>* example_db d" using switch_step.step_wait [OF r] by blast
  moreover have "waits_ok example_config"
    by (simp add: waits_ok_def example_config_def wait_range_def MIN_WAIT_MINUTES_def MAX_WAIT_MINUTES_def)
  ultimately have "current_wait c' Pickup half_past_midnight \<le> MAX_WAIT_MINUTES"
    using wait_always_in_range [OF _ example_rows(2) _ c', of Pickup half_past_midnight] by blast
  with r c' show ?thesis by blast
qed

end
