(* ===== verification/Booking.thy ===== *)
theory Booking
  imports Slots Customers Switches Outbox "HOL-Library.Char_ord" "HOL-Library.List_Lexorder"
begin

text \<open>
  A table, from the draft to the booking: the agent's draft
  (\<open>api/domain/reservations/create.py\<close>), the entry of the team on the tablet (\<open>manual.py\<close>) and the
  two steps from draft to confirmed (\<open>api/domain/confirm.py\<close>). Each operation is one transaction
  under the day lock of \<open>lock_capacity_days\<close>; the branches that repair two simultaneous inserts of
  one key do not arise in a serial order and are left out.
\<close>

section \<open>api/domain/reservations/create.py\<close>

definition ACTOR_AGENT :: str where "ACTOR_AGENT = ''agent''"
definition ACTION_TABLE_DRAFTED :: str where "ACTION_TABLE_DRAFTED = ''reservation.draft_created''"

record create_reservation_request =
  cr_tenant_id :: uuid
  cr_call_id :: uuid
  cr_idempotency_key :: str
  cr_guest_name :: str
  cr_phone :: str
  cr_party_size :: int
  cr_reserved_for :: instant
  cr_note :: "str option"

record reservation_draft =
  rd_reservation_id :: uuid
  rd_status :: reservation_status
  rd_reserved_for :: instant
  rd_party_size :: int
  rd_guest_name :: str
  rd_phone :: str
  rd_note :: "str option"
  rd_readback :: str

text \<open>\<open>_by_key\<close>: the key is unique over all tenants.\<close>

definition reservation_by_key :: "db \<Rightarrow> str \<Rightarrow> reservation option" where
  "reservation_by_key d key = find (\<lambda>r. r_idempotency_key r = key) (reservations d)"

text \<open>\<open>(text or "").strip() or None\<close>\<close>

definition strip_or_none :: "str option \<Rightarrow> str option" where
  "strip_or_none n = (case n of None \<Rightarrow> None
     | Some s \<Rightarrow> if py_strip s = [] then None else Some (py_strip s))"

definition table_readback :: "reservation \<Rightarrow> zone \<Rightarrow> str" where
  "table_readback r z =
     (let l = astimezone z (reserved_for r);
          when' = spoken_date l (Some (ldate (astimezone z (r_created_at r))))
      in ''Ein Tisch f'' @ [ue] @ ''r '' @ spoken_party_size (party_size r) @ '' '' @ when' @ '' um '' @
         spoken_time l @ '', auf den Namen '' @ guest_name r @
         (case r_note r of None \<Rightarrow> [] | Some n \<Rightarrow> if n = [] then [] else '', mit dem Hinweis: '' @ n) @
         ''. Passt das so?'')"

definition reservation_draft_of :: "reservation \<Rightarrow> zone \<Rightarrow> reservation_draft" where
  "reservation_draft_of r z =
     \<lparr>rd_reservation_id = r_id r, rd_status = r_status r, rd_reserved_for = reserved_for r,
      rd_party_size = party_size r, rd_guest_name = guest_name r, rd_phone = r_phone r,
      rd_note = r_note r, rd_readback = table_readback r z\<rparr>"

definition replay_reservation ::
  "reservation \<Rightarrow> uuid \<Rightarrow> uuid \<Rightarrow> zone \<Rightarrow> app_error + reservation_draft" where
  "replay_reservation r tid cid z =
     (if r_tenant_id r \<noteq> tid \<or> r_call_id r \<noteq> Some cid then raise_err Conflict None
      else Inr (reservation_draft_of r z))"

definition new_reservation ::
  "create_reservation_request \<Rightarrow> call \<Rightarrow> str \<Rightarrow> instant \<Rightarrow> db \<Rightarrow> reservation" where
  "new_reservation req c phone now d =
     \<lparr>r_id = next_id d, r_tenant_id = cr_tenant_id req, r_call_id = Some (cr_call_id req),
      r_source = SAgent, r_status = RDraft, guest_name = py_strip (cr_guest_name req),
      r_phone = phone,
      r_booked_on_own_line = (Some phone = number_or_none (caller_id c)),
      party_size = cr_party_size req, reserved_for = cr_reserved_for req,
      r_note = strip_or_none (cr_note req), r_idempotency_key = cr_idempotency_key req,
      r_created_at = now, r_deleted_at = None\<rparr>"

definition create_reservation ::
  "create_reservation_request \<Rightarrow> instant \<Rightarrow> db \<Rightarrow> app_error + reservation_draft \<times> db" where
  "create_reservation req now d =
     (let tid = cr_tenant_id req; cid = cr_call_id req in
      case get_tenant d tid of None \<Rightarrow> raise_err NotFound None
      | Some t \<Rightarrow>
       (let z = t_timezone t in
        case reservation_by_key d (cr_idempotency_key req) of
          Some existing \<Rightarrow> andthen (replay_reservation existing tid cid z) (\<lambda>a. Inr (a, d))
        | None \<Rightarrow>
         (case get_call d cid of None \<Rightarrow> raise_err NotFound (Some SAY_ON_FAILURE)
          | Some c \<Rightarrow>
             if c_tenant_id c \<noteq> tid then raise_err NotFound (Some SAY_ON_FAILURE)
             else if py_strip (cr_guest_name req) = [] then raise_err InvalidInput None
             else andthen (normalize_phone DEFAULT_COUNTRY_CODE (cr_phone req)) (\<lambda>phone.
               andthen (check_slot d tid (cr_reserved_for req) (cr_party_size req) now (Some cid)) (\<lambda>slot.
                 if sl_team_callback slot then raise_err TeamDecides (sl_say slot)
                 else if \<not> sl_available slot then raise_err Conflict (sl_say slot)
                 else let r = new_reservation req c phone now d;
                          d = d\<lparr>reservations := reservations d @ [r], next_id := Suc (next_id d)\<rparr>;
                          d = add_audit tid ACTOR_AGENT ACTION_TABLE_DRAFTED ''reservation'' (r_id r)
                                (JObj [(''call_id'', JId cid), (''party_size'', JInt (cr_party_size req)),
                                       (''reserved_for'', JTime (cr_reserved_for req))]) d
                      in Inr (reservation_draft_of r z, d))))))"

section \<open>api/domain/reservations/manual.py\<close>

definition SAY_NO_NAME :: str where "SAY_NO_NAME = ''Bitte einen Namen eintragen.''"
definition SAY_TABLE_GONE :: str where
  "SAY_TABLE_GONE = ''Diesen Tisch gibt es im Raumplan nicht mehr.''"
definition SAY_NOT_COMBINED :: str where
  "SAY_NOT_COMBINED = ''Diese beiden Tische sind im Raumplan nicht kombiniert.''"
definition SAY_SAME_TABLE :: str where
  "SAY_SAME_TABLE = ''Ein Tisch kann nur einmal gew'' @ [ae] @ ''hlt werden.''"

record tablet_request =
  tq_tenant_id :: uuid
  tq_idempotency_key :: str
  tq_guest_name :: str
  tq_phone :: "str option"
  tq_party_size :: int
  tq_reserved_for :: instant
  tq_note :: "str option"
  tq_table_ids :: "uuid list"

record tablet_draft =
  td_reservation_id :: uuid
  td_status :: reservation_status
  td_reserved_for :: instant
  td_party_size :: int
  td_guest_name :: str
  td_phone :: str
  td_note :: "str option"
  td_tables :: "str list"
  td_window_start :: "local_dt option"
  td_window_end :: "local_dt option"
  td_booked_guests :: int
  td_max_guests :: "int option"
  td_needs_override :: bool

definition window_fits :: "capacity_window option \<Rightarrow> int \<Rightarrow> int \<Rightarrow> bool" where
  "window_fits w booked party =
     (case w of None \<Rightarrow> False | Some v \<Rightarrow> booked + party \<le> cw_max_guests v)"

definition say_full :: "zone \<Rightarrow> capacity_window option \<Rightarrow> int \<Rightarrow> str" where
  "say_full z w booked =
     (case w of None \<Rightarrow> ''Zu dieser Zeit gibt es kein Reservierungsfenster.''
      | Some v \<Rightarrow> ''Das Fenster '' @ strftime_hm (cw_start v) @ '' bis '' @ strftime_hm (cw_end v) @
          '' Uhr hat '' @ str_int booked @ '' von '' @ str_int (cw_max_guests v) @ '' Pl'' @ [ae] @
          ''tzen belegt.'')"

definition seated_on :: "(str \<Rightarrow> int) \<Rightarrow> db \<Rightarrow> uuid \<Rightarrow> dining_table list" where
  "seated_on coll d rid =
     sort_key (\<lambda>t. coll (dt_name t))
       (concat (map (\<lambda>t. map (\<lambda>_. t) (filter (\<lambda>x. rt_table_id x = dt_id t \<and> rt_reservation_id x = rid)
          (reservation_tables d))) (dining_tables d)))"

text \<open>Another confirmed reservation holds the table: in the window, or outside every window at the
  same time.\<close>

definition holds_table ::
  "db \<Rightarrow> uuid \<Rightarrow> zone \<Rightarrow> instant \<Rightarrow> capacity_window option \<Rightarrow> uuid option \<Rightarrow> uuid \<Rightarrow> bool" where
  "holds_table d tid z at w exclude table \<longleftrightarrow>
     list_ex (\<lambda>x. rt_table_id x = table \<and>
       list_ex (\<lambda>r. r_id r = rt_reservation_id x \<and> r_tenant_id r = tid \<and> Some (r_id r) \<noteq> exclude \<and>
           r_status r = RConfirmed \<and> r_deleted_at r = None \<and>
           (case w of Some v \<Rightarrow> cw_contains z v (reserved_for r) | None \<Rightarrow> reserved_for r = at))
         (reservations d)) (reservation_tables d)"

definition taken_tables ::
  "(str \<Rightarrow> int) \<Rightarrow> db \<Rightarrow> uuid \<Rightarrow> zone \<Rightarrow> uuid list \<Rightarrow> instant \<Rightarrow> capacity_window option \<Rightarrow>
    uuid option \<Rightarrow> str list" where
  "taken_tables coll d tid z ids at w exclude =
     sort_key coll (remdups (map dt_name
       (filter (\<lambda>t. dt_id t \<in> set ids \<and> holds_table d tid z at w exclude (dt_id t)) (dining_tables d))))"

definition say_taken :: "str list \<Rightarrow> instant \<Rightarrow> zone \<Rightarrow> str" where
  "say_taken names at z =
     (let (word, verb) = (if length names = 1 then (''Tisch'', ''ist'') else (''Die Tische'', ''sind''))
      in word @ '' '' @ py_join '' und '' names @ '' '' @ verb @ '' um '' @
         strftime_hm (astimezone z at) @ '' Uhr schon vergeben.'')"

definition draft_lifetime :: "db \<Rightarrow> uuid \<Rightarrow> app_error + int" where
  "draft_lifetime d tid =
     (case get_config d tid of None \<Rightarrow> raise_err NotFound None
      | Some c \<Rightarrow> Inr (max_call_seconds c * SECOND))"

definition combined :: "db \<Rightarrow> uuid \<Rightarrow> uuid list \<Rightarrow> bool" where
  "combined d tid ids \<longleftrightarrow>
     list_ex (\<lambda>p. tcb_tenant_id p = tid \<and> [table_a_id p, table_b_id p] = sort ids) (table_combinations d)"

definition seating :: "db \<Rightarrow> uuid \<Rightarrow> uuid list \<Rightarrow> app_error + dining_table list" where
  "seating d tid ids =
     (if \<not> distinct ids then raise_err InvalidInput (Some SAY_SAME_TABLE)
      else if ids = [] then Inr []
      else let tables = filter (\<lambda>t. dt_id t \<in> set ids \<and> dt_tenant_id t = tid \<and> dt_deleted_at t = None)
                  (dining_tables d)
           in if length tables \<noteq> length ids then raise_err NotFound (Some SAY_TABLE_GONE)
              else if length ids = 2 \<and> \<not> combined d tid ids
              then raise_err InvalidInput (Some SAY_NOT_COMBINED)
              else Inr tables)"

definition describe ::
  "(str \<Rightarrow> int) \<Rightarrow> db \<Rightarrow> reservation \<Rightarrow> zone \<Rightarrow> instant \<Rightarrow> app_error + tablet_draft" where
  "describe coll d r z now =
     andthen (draft_lifetime d (r_tenant_id r)) (\<lambda>lifetime.
       let (w, booked) = window_load d (r_tenant_id r) (reserved_for r) z now lifetime None
       in Inr \<lparr>td_reservation_id = r_id r, td_status = r_status r, td_reserved_for = reserved_for r,
           td_party_size = party_size r, td_guest_name = guest_name r, td_phone = r_phone r,
           td_note = r_note r, td_tables = map dt_name (seated_on coll d (r_id r)),
           td_window_start = map_option cw_start w, td_window_end = map_option cw_end w,
           td_booked_guests = booked, td_max_guests = map_option cw_max_guests w,
           td_needs_override = (\<not> window_fits w booked (party_size r))\<rparr>)"

definition replay_tablet ::
  "(str \<Rightarrow> int) \<Rightarrow> db \<Rightarrow> reservation \<Rightarrow> uuid \<Rightarrow> zone \<Rightarrow> instant \<Rightarrow> app_error + tablet_draft" where
  "replay_tablet coll d r tid z now =
     (if r_tenant_id r \<noteq> tid \<or> r_source r \<noteq> STablet then raise_err Conflict None
      else describe coll d r z now)"

definition new_tablet_reservation :: "tablet_request \<Rightarrow> str \<Rightarrow> instant \<Rightarrow> db \<Rightarrow> reservation" where
  "new_tablet_reservation req phone now d =
     \<lparr>r_id = next_id d, r_tenant_id = tq_tenant_id req, r_call_id = None, r_source = STablet,
      r_status = RDraft, guest_name = py_strip (tq_guest_name req), r_phone = phone,
      r_booked_on_own_line = False, party_size = tq_party_size req,
      reserved_for = tq_reserved_for req, r_note = strip_or_none (tq_note req),
      r_idempotency_key = tq_idempotency_key req, r_created_at = now, r_deleted_at = None\<rparr>"

definition tablet_phone :: "str option \<Rightarrow> app_error + str" where
  "tablet_phone p =
     (case strip_or_none p of None \<Rightarrow> Inr '''' | Some raw \<Rightarrow> normalize_phone DEFAULT_COUNTRY_CODE raw)"

definition create_tablet_reservation ::
  "(str \<Rightarrow> int) \<Rightarrow> tablet_request \<Rightarrow> instant \<Rightarrow> str \<Rightarrow> db \<Rightarrow> app_error + tablet_draft \<times> db" where
  "create_tablet_reservation coll req now who d =
     (let tid = tq_tenant_id req; at = tq_reserved_for req in
      case get_tenant d tid of None \<Rightarrow> raise_err NotFound None
      | Some t \<Rightarrow>
       (let z = t_timezone t in
        case reservation_by_key d (tq_idempotency_key req) of
          Some existing \<Rightarrow> andthen (replay_tablet coll d existing tid z now) (\<lambda>a. Inr (a, d))
        | None \<Rightarrow>
           if py_strip (tq_guest_name req) = [] then raise_err InvalidInput (Some SAY_NO_NAME)
           else andthen (tablet_phone (tq_phone req)) (\<lambda>phone.
             if at \<le> now then raise_err InvalidInput (Some SAY_PAST)
             else andthen (seating d tid (tq_table_ids req)) (\<lambda>tables.
               andthen (draft_lifetime d tid) (\<lambda>lifetime.
                 let w = fst (window_load d tid at z now lifetime None);
                     taken = taken_tables coll d tid z (map dt_id tables) at w None
                 in if taken \<noteq> [] then raise_err Conflict (Some (say_taken taken at z))
                    else let r = new_tablet_reservation req phone now d;
                             d = d\<lparr>reservations := reservations d @ [r], next_id := Suc (next_id d),
                                   reservation_tables := reservation_tables d @
                                     map (\<lambda>t. \<lparr>rt_tenant_id = tid, rt_reservation_id = r_id r,
                                               rt_table_id = dt_id t\<rparr>) tables\<rparr>;
                             d = add_audit tid who ACTION_TABLE_DRAFTED ''reservation'' (r_id r)
                                   (JObj [(''source'', JStr ''tablet''), (''party_size'', JInt (tq_party_size req)),
                                     (''reserved_for'', JTime at),
                                     (''tables'', JList (map JStr (sort (map dt_name tables))))]) d
                         in andthen (describe coll d r z now) (\<lambda>a. Inr (a, d)))))))"

section \<open>api/domain/confirm.py: the table\<close>

datatype handover_word = Queued | AwaitingApproval

record confirmation =
  cf_handover :: handover_word
  cf_pickup_code :: "str option"

definition CONFIRMED :: confirmation where
  "CONFIRMED = \<lparr>cf_handover = Queued, cf_pickup_code = None\<rparr>"

definition SAY_CANCELLED :: str where
  "SAY_CANCELLED = ''Diese Reservierung wurde bereits storniert. Ich verbinde Sie mit dem Restaurant.''"
definition SAY_TABLET_CANCELLED :: str where
  "SAY_TABLET_CANCELLED = ''Diese Reservierung wurde bereits storniert.''"
definition SAY_SEATS_GONE :: str where
  "SAY_SEATS_GONE = ''Dieser Tisch ist in der Zwischenzeit leider vergeben worden. '' @ ASK_OTHER_TIME"

definition source_word :: "reservation_source \<Rightarrow> str" where
  "source_word s = (case s of SAgent \<Rightarrow> ''agent'' | STablet \<Rightarrow> ''tablet'')"

definition ACTION_TABLE_CONFIRMED :: str where "ACTION_TABLE_CONFIRMED = ''reservation.confirmed''"

text \<open>\<open>_book\<close>\<close>

definition reservation_event :: "reservation \<Rightarrow> json" where
  "reservation_event r =
     JObj [(''reservation_id'', JId (r_id r)), (''call_id'', jopt JId (r_call_id r)),
       (''source'', JStr (source_word (r_source r))), (''guest_name'', JStr (guest_name r)),
       (''phone'', JStr (r_phone r)), (''party_size'', JInt (party_size r)),
       (''reserved_for'', JTime (reserved_for r)), (''note'', jopt JStr (r_note r))]"

definition book_table :: "reservation \<Rightarrow> str \<Rightarrow> json \<Rightarrow> db \<Rightarrow> app_error + db" where
  "book_table r who payload d =
     (let d = set_reservation (r_id r) (\<lambda>r. r\<lparr>r_status := RConfirmed\<rparr>) d;
          d = add_audit (r_tenant_id r) who ACTION_TABLE_CONFIRMED ''reservation'' (r_id r) payload d
      in andthen (enqueue (r_tenant_id r) RESERVATION_CONFIRMED (reservation_event r) d)
           (\<lambda>(_, d). Inr d))"

record confirm_request =
  cq_tenant_id :: uuid
  cq_call_id :: uuid
  cq_entity_id :: uuid
  cq_idempotency_key :: str

definition confirm_reservation ::
  "confirm_request \<Rightarrow> tenant \<Rightarrow> instant \<Rightarrow> db \<Rightarrow> app_error + confirmation \<times> db" where
  "confirm_reservation req t now d =
     (let tid = cq_tenant_id req; cid = cq_call_id req in
      case get_reservation d (cq_entity_id req) of
        None \<Rightarrow> raise_err NotFound (Some SAY_ON_FAILURE)
      | Some r \<Rightarrow>
          if r_tenant_id r \<noteq> tid \<or> r_call_id r \<noteq> Some cid \<or> r_deleted_at r \<noteq> None
          then raise_err NotFound (Some SAY_ON_FAILURE)
          else if r_status r = RCancelled then raise_err Conflict (Some SAY_CANCELLED)
          else if r_status r = RConfirmed then Inr (CONFIRMED, d)
          else case get_config d tid of None \<Rightarrow> raise_err NotFound (Some SAY_ON_FAILURE)
          | Some c \<Rightarrow>
              if \<not> reservations_enabled c then raise_err Conflict (Some SAY_RESERVATIONS_OFF)
              else if \<not> has_room d r (t_timezone t) now (max_call_seconds c * SECOND)
              then raise_err Conflict (Some SAY_SEATS_GONE)
              else let d = note_contact tid cid (r_phone r) now (Some (guest_name r)) d
                   in andthen (book_table r ACTOR_AGENT
                        (JObj [(''call_id'', JId cid), (''idempotency_key'', JStr (cq_idempotency_key req))]) d)
                        (\<lambda>d. Inr (CONFIRMED, d)))"

text \<open>\<open>confirm\<close> with \<open>entity = "reservation"\<close>: the tenant, the call, then the table.\<close>

definition confirm_table :: "confirm_request \<Rightarrow> instant \<Rightarrow> db \<Rightarrow> app_error + confirmation \<times> db" where
  "confirm_table req now d =
     (case get_tenant d (cq_tenant_id req) of None \<Rightarrow> raise_err NotFound None
      | Some t \<Rightarrow>
         (case get_call d (cq_call_id req) of None \<Rightarrow> raise_err NotFound (Some SAY_ON_FAILURE)
          | Some c \<Rightarrow> if c_tenant_id c \<noteq> cq_tenant_id req then raise_err NotFound (Some SAY_ON_FAILURE)
              else confirm_reservation req t now d))"

definition confirm_tablet ::
  "(str \<Rightarrow> int) \<Rightarrow> uuid \<Rightarrow> uuid \<Rightarrow> bool \<Rightarrow> str \<Rightarrow> instant \<Rightarrow> db \<Rightarrow> app_error + confirmation \<times> db" where
  "confirm_tablet coll tid rid override who now d =
     (case get_tenant d tid of None \<Rightarrow> raise_err NotFound None
      | Some t \<Rightarrow>
       (case get_reservation d rid of None \<Rightarrow> raise_err NotFound None
        | Some r \<Rightarrow>
           if r_tenant_id r \<noteq> tid \<or> r_source r \<noteq> STablet \<or> r_deleted_at r \<noteq> None
           then raise_err NotFound None
           else if r_status r = RCancelled then raise_err Conflict (Some SAY_TABLET_CANCELLED)
           else if r_status r = RConfirmed then Inr (CONFIRMED, d)
           else if reserved_for r \<le> now then raise_err Conflict (Some SAY_PAST)
           else let z = t_timezone t in
             andthen (seating d tid (map dt_id (seated_on coll d (r_id r)))) (\<lambda>tables.
             andthen (draft_lifetime d tid) (\<lambda>lifetime.
               let (w, booked) = window_load d tid (reserved_for r) z now lifetime None;
                   taken = taken_tables coll d tid z (map dt_id tables) (reserved_for r) w (Some (r_id r));
                   full = (\<not> window_fits w booked (party_size r))
               in if taken \<noteq> [] then raise_err Conflict (Some (say_taken taken (reserved_for r) z))
                  else if full \<and> \<not> override then raise_err WindowFull (Some (say_full z w booked))
                  else andthen (book_table r who
                         (JObj [(''source'', JStr ''tablet''), (''override'', JBool full)]) d)
                         (\<lambda>d. Inr (CONFIRMED, d))))))"

end
