(* ===== verification/Ordering.thy ===== *)
theory Ordering
  imports Delivery Ticket Booking
begin

text \<open>
  An order from the guest's words to the kitchen: the draft with its sum
  (\<open>api/domain/ordering/draft.py\<close>) and the yes (\<open>api/domain/ordering/confirm.py\<close>), which gives the
  pickup code and decides by mode and amount whether the kitchen gets the slip at once.
\<close>

section \<open>api/schemas/orders.py\<close>

record draft_request =
  dr_tenant_id :: uuid
  dr_call_id :: uuid
  dr_idempotency_key :: str
  dr_type :: order_type
  dr_customer :: order_customer
  dr_items :: "order_item_in list"
  dr_note :: "str option"

definition draft_request_ok :: "draft_request \<Rightarrow> bool" where
  "draft_request_ok q \<longleftrightarrow> dr_idempotency_key q \<noteq> [] \<and> length (dr_idempotency_key q) \<le> 128 \<and>
     dr_items q \<noteq> [] \<and> length (dr_items q) \<le> MAX_ITEMS \<and> list_all order_item_in_ok (dr_items q) \<and>
     (case dr_note q of None \<Rightarrow> True | Some n \<Rightarrow> length n \<le> NOTE_MAX)"

record order_draft =
  od_order_id :: uuid
  od_status :: order_status
  od_items_total_cents :: cents
  od_delivery_fee_cents :: cents
  od_total_cents :: cents
  od_ready_at :: "instant option"
  od_warnings :: "str list"
  od_readback :: str

section \<open>api/domain/ordering/draft.py\<close>

definition WARNING_READY_AFTER_CLOSE :: str where
  "WARNING_READY_AFTER_CLOSE = ''ready_after_close''"

definition order_by_key :: "db \<Rightarrow> str \<Rightarrow> order option" where
  "order_by_key d k = find (\<lambda>r. o_idempotency_key r = k) (orders d)"

text \<open>\<open>_ready_at\<close>: rounded up to the full minute.\<close>

definition ready_at_of :: "instant \<Rightarrow> int \<Rightarrow> instant" where
  "ready_at_of now wait =
     (let ready = now + wait * MINUTE; floored = ready - ready mod MINUTE
      in if floored = ready then floored else floored + MINUTE)"

definition order_service :: "order_type \<Rightarrow> service" where
  "order_service t = (case t of OPickup \<Rightarrow> Pickup | ODelivery \<Rightarrow> service.Delivery)"

definition draft_warnings :: "db \<Rightarrow> order \<Rightarrow> zone \<Rightarrow> str list" where
  "draft_warnings d r z =
     (case ready_at r of None \<Rightarrow> []
      | Some at \<Rightarrow> if \<not> service_open_at d (o_tenant_id r) at z (order_service (o_type r))
          then [WARNING_READY_AFTER_CLOSE] else [])"

definition draft_response :: "order \<Rightarrow> str \<Rightarrow> str list \<Rightarrow> order_draft" where
  "draft_response r spoken warnings =
     \<lparr>od_order_id = o_id r, od_status = o_status r, od_items_total_cents = items_total_cents r,
      od_delivery_fee_cents = delivery_fee_cents r, od_total_cents = total_cents r,
      od_ready_at = ready_at r, od_warnings = warnings, od_readback = spoken\<rparr>"

definition labels_of_lines :: "line list \<Rightarrow> labels" where
  "labels_of_lines ls = map (\<lambda>l. (m_number (ln_item l), m_name (ln_item l))) ls"

text \<open>\<open>_spoken\<close>, and the same of the rows in a replay.\<close>

definition spoken_of :: "line list \<Rightarrow> labels \<Rightarrow> spoken_line list" where
  "spoken_of ls labels =
     map (\<lambda>(l, number, name). \<lparr>sp_number = number, sp_name = name, sp_quantity = ln_quantity l,
            sp_options = ln_options l, sp_note = ln_note l\<rparr>) (zip ls labels)"

definition spoken_rows :: "order_item list \<Rightarrow> labels \<Rightarrow> spoken_line list" where
  "spoken_rows rows labels =
     map (\<lambda>(r, number, name). \<lparr>sp_number = number, sp_name = name, sp_quantity = quantity r,
            sp_options = oi_options r, sp_note = oi_note r\<rparr>) (zip rows labels)"

text \<open>The truth value of a JSON value, and a list of texts.\<close>

fun json_truth :: "json \<Rightarrow> bool" where
  "json_truth JNull = False"
| "json_truth (JBool b) = b"
| "json_truth (JInt n) = (n \<noteq> 0)"
| "json_truth (JStr s) = (s \<noteq> [])"
| "json_truth (JId _) = True"
| "json_truth (JTime _) = True"
| "json_truth (JList xs) = (xs \<noteq> [])"
| "json_truth (JObj kvs) = (kvs \<noteq> [])"

definition strs_of_json :: "json \<Rightarrow> str list option" where
  "strs_of_json j = (case j of JList js \<Rightarrow> all_some (map (\<lambda>x. json_text (Some x)) js) | _ \<Rightarrow> None)"

definition replay_order ::
  "db \<Rightarrow> order \<Rightarrow> uuid \<Rightarrow> uuid \<Rightarrow> app_error + order_draft" where
  "replay_order d r tid cid =
     (if o_tenant_id r \<noteq> tid \<or> o_call_id r \<noteq> cid then raise_err Conflict None
      else andthen (draft_snapshot d (o_id r)) (\<lambda>(snapshot, labels).
        let rows = rows_of_order d (o_id r) in
        if length rows \<noteq> length labels then raise_err UncaughtError None
        else let addr = (if (case jget ''address_heard'' snapshot of None \<Rightarrow> False | Some j \<Rightarrow> json_truth j)
                         then Option.bind (o_address_id r) (get_address d) else None);
                 name_heard = (case jget ''name_heard'' snapshot of None \<Rightarrow> True | Some j \<Rightarrow> json_truth j);
                 said = readback r (spoken_rows rows labels) addr name_heard
             in case Option.bind (jget ''warnings'' snapshot) strs_of_json of
                  None \<Rightarrow> raise_err UncaughtError None
                | Some ws \<Rightarrow> Inr (draft_response r said ws)))"

text \<open>What is decided before anything is written.\<close>

record order_plan =
  pl_phone :: str
  pl_line :: "str option"
  pl_lines :: "line list"
  pl_name :: str
  pl_fee :: cents
  pl_wait :: int
  pl_where :: "place option"

definition plan_order ::
  "draft_request \<Rightarrow> tenant \<Rightarrow> service_config \<Rightarrow> instant \<Rightarrow> db \<Rightarrow> app_error + order_plan" where
  "plan_order q t c now d =
     (let tid = dr_tenant_id q in
      case get_call d (dr_call_id q) of None \<Rightarrow> raise_err NotFound (Some SAY_ON_FAILURE)
      | Some call \<Rightarrow>
        if c_tenant_id call \<noteq> tid then raise_err NotFound (Some SAY_ON_FAILURE)
        else let delivery = (dr_type q = ODelivery);
                 name = py_strip (or_empty (oc_name (dr_customer q))) in
        if name = [] \<and> \<not> delivery then raise_err InvalidInput (Some SAY_WHICH_NAME)
        else andthen (normalize_phone DEFAULT_COUNTRY_CODE (oc_phone (dr_customer q))) (\<lambda>phone.
        let caller_line = number_or_none (caller_id call) in
        andthen (if delivery then require_delivery_open d t c now
                 else require_pickup_open d t c now (dr_call_id q)) (\<lambda>_.
        andthen (validated_lines d tid (dr_items q) now) (\<lambda>lines.
        let total = items_total_cents_of lines; wait = current_wait c Pickup now in
        if delivery
        then andthen (find_place d tid (dr_customer q) phone caller_line now) (\<lambda>wh.
             andthen (require_minimum total (p_zone wh)) (\<lambda>_.
             Inr \<lparr>pl_phone = phone, pl_line = caller_line, pl_lines = lines, pl_name = p_name wh,
                  pl_fee = dc_fee_cents (p_zone wh),
                  pl_wait = max (current_wait c service.Delivery now) (dc_eta_minutes (p_zone wh)),
                  pl_where = Some wh\<rparr>))
        else Inr \<lparr>pl_phone = phone, pl_line = caller_line, pl_lines = lines, pl_name = name,
                  pl_fee = 0, pl_wait = wait, pl_where = None\<rparr>))))"

definition new_order ::
  "draft_request \<Rightarrow> order_plan \<Rightarrow> (customer \<times> address) option \<Rightarrow> instant \<Rightarrow> db \<Rightarrow> order" where
  "new_order q p wh now d =
     (let total = items_total_cents_of (pl_lines p) in
      \<lparr>o_id = next_id d, o_tenant_id = dr_tenant_id q, o_call_id = dr_call_id q, o_type = dr_type q,
       o_status = ODraft, o_customer_id = map_option (\<lambda>w. cu_id (fst w)) wh,
       o_address_id = map_option (\<lambda>w. a_id (snd w)) wh, o_phone = pl_phone p,
       o_booked_on_own_line = (Some (pl_phone p) = pl_line p), customer_name = pl_name p,
       items_total_cents = total, delivery_fee_cents = pl_fee p, total_cents = total + pl_fee p,
       ready_at = Some (ready_at_of now (pl_wait p)), o_note = strip_or_none (dr_note q),
       o_idempotency_key = dr_idempotency_key q, pickup_code = None, handover_state = None,
       register_entered_at = None, o_created_at = now, o_deleted_at = None\<rparr>)"

text \<open>The positions: their order is the microsecond of their creation.\<close>

definition new_item :: "draft_request \<Rightarrow> uuid \<Rightarrow> uuid \<Rightarrow> instant \<Rightarrow> nat \<times> line \<Rightarrow> order_item" where
  "new_item q oid first_id now il = (case il of (position, l) \<Rightarrow>
     \<lparr>oi_id = first_id + position, oi_tenant_id = dr_tenant_id q, oi_order_id = oid,
      oi_menu_item_id = m_id (ln_item l), quantity = ln_quantity l,
      unit_price_cents = price_cents (ln_item l), oi_options = ln_options l, oi_note = ln_note l,
      oi_created_at = now + int position\<rparr>)"

definition draft_audit ::
  "draft_request \<Rightarrow> nat \<Rightarrow> cents \<Rightarrow> bool \<Rightarrow> bool \<Rightarrow> labels \<Rightarrow> str list \<Rightarrow> json" where
  "draft_audit q positions sum_cents name_heard address_heard labels warnings =
     JObj [(''call_id'', JId (dr_call_id q)), (''type'', JStr (order_type_str (dr_type q))),
       (''positions'', JInt (int positions)), (''total_cents'', JInt sum_cents),
       (''name_heard'', JBool name_heard), (''address_heard'', JBool address_heard),
       (''labels'', labels_json labels), (''warnings'', JList (map JStr warnings))]"

definition write_draft ::
  "draft_request \<Rightarrow> zone \<Rightarrow> order_plan \<Rightarrow> (customer \<times> address) option \<Rightarrow> instant \<Rightarrow> db \<Rightarrow> order_draft \<times> db" where
  "write_draft q z p wh now d =
     (let r = new_order q p wh now d;
          d = d\<lparr>orders := orders d @ [r], next_id := Suc (next_id d)\<rparr>;
          items = map (new_item q (o_id r) (next_id d) now) (List.enumerate 0 (pl_lines p));
          d = d\<lparr>order_items := order_items d @ items, next_id := next_id d + length (pl_lines p)\<rparr>;
          warnings = draft_warnings d r z;
          labels = labels_of_lines (pl_lines p);
          name_heard = (case pl_where p of None \<Rightarrow> True | Some w \<Rightarrow> p_name_heard w);
          spoken = (case pl_where p of None \<Rightarrow> None
                    | Some w \<Rightarrow> if p_stored w \<noteq> None then None else map_option snd wh);
          draft = draft_response r (readback r (spoken_of (pl_lines p) labels) spoken name_heard) warnings
      in (draft, add_audit (dr_tenant_id q) ACTOR_AGENT ACTION_DRAFT_CREATED ''order'' (o_id r)
            (draft_audit q (length (pl_lines p)) (total_cents r) name_heard (spoken \<noteq> None) labels warnings) d))"

definition draft_order :: "draft_request \<Rightarrow> instant \<Rightarrow> db \<Rightarrow> app_error + order_draft \<times> db" where
  "draft_order q now d =
     (let tid = dr_tenant_id q in
      case (get_tenant d tid, get_config d tid) of
        (Some t, Some c) \<Rightarrow>
          (case order_by_key d (dr_idempotency_key q) of
             Some r \<Rightarrow> andthen (replay_order d r tid (dr_call_id q)) (\<lambda>a. Inr (a, d))
           | None \<Rightarrow> andthen (plan_order q t c now d) (\<lambda>p.
               case pl_where p of
                 None \<Rightarrow> Inr (write_draft q (t_timezone t) p None now d)
               | Some w \<Rightarrow> andthen (keep tid (dr_call_id q) (pl_phone p) w d) (\<lambda>(ca, d).
                   Inr (write_draft q (t_timezone t) p (Some ca) now d))))
      | _ \<Rightarrow> raise_err NotFound None)"

section \<open>api/domain/ordering/confirm.py\<close>

definition ACTION_CONFIRMED :: str where "ACTION_CONFIRMED = ''order.confirmed''"
definition DIRECT_MODE :: call_mode where "DIRECT_MODE = Primary"
definition PICKUP_PREFIX :: str where "PICKUP_PREFIX = ''A''"
definition SAY_ORDER_CANCELLED :: str where
  "SAY_ORDER_CANCELLED = ''Diese Bestellung wurde bereits storniert. Ich verbinde Sie mit dem Restaurant.''"
definition ALREADY_CONFIRMED :: "order_status list" where
  "ALREADY_CONFIRMED = [OConfirmed, OApproved, OHandedOver]"

definition waits_for :: "order \<Rightarrow> call_mode \<Rightarrow> service_config \<Rightarrow> str option" where
  "waits_for r mode c =
     (let unseen = (mode = DIRECT_MODE \<or> mode = Overflow \<and> \<not> overflow_needs_approval c) in
      if \<not> unseen then Some ''mode''
      else let limit = order_approval_above_cents c
           in if limit = 0 \<or> total_cents r > limit then Some ''amount'' else None)"

definition order_answer :: "order \<Rightarrow> confirmation" where
  "order_answer r = \<lparr>cf_handover = (if handover_state r \<noteq> None then Queued else AwaitingApproval),
     cf_pickup_code = pickup_code r\<rparr>"

text \<open>The codes given out in the business day of the order.\<close>

definition codes_issued :: "db \<Rightarrow> uuid \<Rightarrow> instant \<times> instant \<Rightarrow> order list" where
  "codes_issued d tid w =
     filter (\<lambda>r. o_tenant_id r = tid \<and> pickup_code r \<noteq> None \<and> fst w \<le> o_created_at r \<and>
       o_created_at r < snd w) (orders d)"

definition next_pickup_code :: "db \<Rightarrow> order \<Rightarrow> zone \<Rightarrow> str" where
  "next_pickup_code d r z =
     (let day = business_day (o_created_at r) z DAY_STARTS_AT;
          issued = length (codes_issued d (o_tenant_id r) (business_day_bounds_utc day z DAY_STARTS_AT))
      in PICKUP_PREFIX @ str_nat (issued + 1))"

definition confirm_audit :: "confirm_request \<Rightarrow> str \<Rightarrow> call_mode \<Rightarrow> str option \<Rightarrow> json" where
  "confirm_audit q code mode waits =
     JObj [(''call_id'', JId (cq_call_id q)), (''idempotency_key'', JStr (cq_idempotency_key q)),
       (''pickup_code'', JStr code), (''call_mode'', JStr (mode_str mode)),
       (''waits_for'', jopt JStr waits)]"

text \<open>A service the team switched off between the read-back and the yes.\<close>

definition require_switched_on ::
  "order \<Rightarrow> tenant \<Rightarrow> service_config \<Rightarrow> uuid \<Rightarrow> instant \<Rightarrow> db \<Rightarrow> app_error + unit" where
  "require_switched_on r t c cid now d =
     (if o_type r = ODelivery \<and> \<not> delivery_enabled c
      then raise_err Conflict (Some (delivery_closed_say d (t_id t) c now (t_timezone t)))
      else if o_type r = OPickup \<and> \<not> pickup_enabled c
      then raise_err Conflict (Some (pickup_closed_say d (t_id t) c now (t_timezone t) cid))
      else Inr ())"

definition put_confirmed :: "str \<Rightarrow> bool \<Rightarrow> order \<Rightarrow> order" where
  "put_confirmed code direct r =
     r\<lparr>o_status := OConfirmed, pickup_code := Some code,
       handover_state := (if direct then Some PENDING else None)\<rparr>"

definition write_confirm ::
  "confirm_request \<Rightarrow> order \<Rightarrow> zone \<Rightarrow> call_mode \<Rightarrow> service_config \<Rightarrow> instant \<Rightarrow> db \<Rightarrow>
   app_error + confirmation \<times> db" where
  "write_confirm q r z mode c now d =
     (let waits = waits_for r mode c; direct = (waits = None); code = next_pickup_code d r z;
          d = set_order (o_id r) (put_confirmed code direct) d;
          r = put_confirmed code direct r;
          d = note_order r now d;
          d = add_audit (cq_tenant_id q) ACTOR_AGENT ACTION_CONFIRMED ''order'' (o_id r)
                (confirm_audit q code mode waits) d
      in andthen (if direct
                  then andthen (order_event_payload d r 0 None) (\<lambda>p.
                       andthen (enqueue (cq_tenant_id q) ORDER_CONFIRMED p d) (\<lambda>(_, d). Inr d))
                  else Inr d)
           (\<lambda>d. Inr (order_answer r, d)))"

definition confirm_order :: "confirm_request \<Rightarrow> instant \<Rightarrow> db \<Rightarrow> app_error + confirmation \<times> db" where
  "confirm_order q now d =
     (let tid = cq_tenant_id q in
      case get_order d (cq_entity_id q) of None \<Rightarrow> raise_err NotFound (Some SAY_ON_FAILURE)
      | Some r \<Rightarrow>
        if o_tenant_id r \<noteq> tid \<or> o_call_id r \<noteq> cq_call_id q \<or> o_deleted_at r \<noteq> None
        then raise_err NotFound (Some SAY_ON_FAILURE)
        else if o_status r = OCancelled then raise_err Conflict (Some SAY_ORDER_CANCELLED)
        else if o_status r \<in> set ALREADY_CONFIRMED then Inr (order_answer r, d)
        else case (get_config d tid, get_tenant d tid) of
          (Some c, Some t) \<Rightarrow>
            andthen (require_switched_on r t c (cq_call_id q) now d) (\<lambda>_.
              write_confirm q r (t_timezone t) (mn_mode (mode_at d t c now)) c now d)
        | _ \<Rightarrow> raise_err NotFound (Some SAY_ON_FAILURE))"

text \<open>\<open>confirm\<close> with \<open>entity = "order"\<close>\<close>

definition confirm_ordered :: "confirm_request \<Rightarrow> instant \<Rightarrow> db \<Rightarrow> app_error + confirmation \<times> db" where
  "confirm_ordered q now d =
     (case get_tenant d (cq_tenant_id q) of None \<Rightarrow> raise_err NotFound None
      | Some t \<Rightarrow>
         (case get_call d (cq_call_id q) of None \<Rightarrow> raise_err NotFound (Some SAY_ON_FAILURE)
          | Some c \<Rightarrow> if c_tenant_id c \<noteq> cq_tenant_id q then raise_err NotFound (Some SAY_ON_FAILURE)
              else confirm_order q now d))"

section \<open>What a draft writes\<close>

lemma andthen_raise [simp]: "andthen (raise_err k s) f = raise_err k s"
  by (simp add: raise_err_def)

lemma address_row_form:
  assumes "address_row tid cu said d = (a, d')"
  shows "\<exists>ads n. d' = d\<lparr>addresses := ads, next_id := n\<rparr> \<and> next_id d \<le> n"
proof -
  have "d' = d\<lparr>addresses := addresses d @ [a], next_id := Suc (next_id d)\<rparr> \<or> d' = d"
    using assms by (auto simp: address_row_def Let_def split: option.splits)
  moreover have "d = d\<lparr>addresses := addresses d, next_id := next_id d\<rparr>" by simp
  ultimately show ?thesis by (metis le_SucI order_refl)
qed

lemma keep_form:
  assumes "keep tid cid phone pl d = Inr (ca, d')"
  shows "\<exists>cs ads n. d' = d\<lparr>customers := cs, addresses := ads, next_id := n\<rparr> \<and> next_id d \<le> n"
proof -
  obtain c d1 where c: "keep_customer tid cid phone pl d = Inr (c, d1)"
    using assms by (auto simp: keep_def)
  have 1: "\<exists>cs n. d1 = d\<lparr>customers := cs, next_id := n\<rparr> \<and> next_id d \<le> n"
  proof -
    have "d1 = d \<or> d1 = d\<lparr>customers := customers d @ [c], next_id := Suc (next_id d)\<rparr>"
      using c by (auto simp: keep_customer_def Let_def split: option.splits)
    moreover have "d = d\<lparr>customers := customers d, next_id := next_id d\<rparr>" by simp
    ultimately show ?thesis by (metis le_SucI order_refl)
  qed
  obtain a d2 where d2: "d2 = d1 \<or> (\<exists>said. (a, d2) = address_row tid (cu_id c) said d1)"
    and d': "\<exists>ads. d' = d2\<lparr>addresses := ads\<rparr>"
    using assms c by (auto simp: keep_def Let_def split: option.splits) (metis surj_pair)+
  have 2: "\<exists>ads n. d2 = d1\<lparr>addresses := ads, next_id := n\<rparr> \<and> next_id d1 \<le> n"
    using d2
  proof
    assume "d2 = d1"
    then show ?thesis by (intro exI [of _ "addresses d1"] exI [of _ "next_id d1"]) simp
  next
    assume "\<exists>said. (a, d2) = address_row tid (cu_id c) said d1"
    then show ?thesis using address_row_form by metis
  qed
  obtain cs n1 ads n ads' where "d1 = d\<lparr>customers := cs, next_id := n1\<rparr>" "next_id d \<le> n1"
    "d2 = d1\<lparr>addresses := ads, next_id := n\<rparr>" "next_id d1 \<le> n" "d' = d2\<lparr>addresses := ads'\<rparr>"
    using 1 2 d' by blast
  then have "d' = d\<lparr>customers := cs, addresses := ads', next_id := n\<rparr> \<and> next_id d \<le> n" by simp
  then show ?thesis by blast
qed

text \<open>A new draft: what was planned, for a delivery with its customer and address, is written.\<close>

lemma draft_order_new:
  assumes "draft_order q now d = Inr (a, d')" and "order_by_key d (dr_idempotency_key q) = None"
  obtains t c p wh d1 cs ads n where "get_tenant d (dr_tenant_id q) = Some t"
    and "get_config d (dr_tenant_id q) = Some c" and "plan_order q t c now d = Inr p"
    and "d1 = d\<lparr>customers := cs, addresses := ads, next_id := n\<rparr>" and "next_id d \<le> n"
    and "write_draft q (t_timezone t) p wh now d1 = (a, d')"
    and "wh = None \<longleftrightarrow> pl_where p = None"
    and "case pl_where p of None \<Rightarrow> True
      | Some w \<Rightarrow> \<exists>ca. wh = Some ca \<and> keep (dr_tenant_id q) (dr_call_id q) (pl_phone p) w d = Inr (ca, d1)"
proof -
  obtain t c p where t: "get_tenant d (dr_tenant_id q) = Some t"
    and c: "get_config d (dr_tenant_id q) = Some c" and p: "plan_order q t c now d = Inr p"
    using assms by (auto simp: draft_order_def Let_def split: option.splits)
  show thesis
  proof (cases "pl_where p")
    case None
    then have wr: "write_draft q (t_timezone t) p None now d = (a, d')"
      using assms t c p by (simp add: draft_order_def)
    have "d = d\<lparr>customers := customers d, addresses := addresses d, next_id := next_id d\<rparr>" by simp
    from that [OF t c p this order_refl wr] None show ?thesis by simp
  next
    case (Some w)
    then obtain ca d1 where k: "keep (dr_tenant_id q) (dr_call_id q) (pl_phone p) w d = Inr (ca, d1)"
      and wr: "write_draft q (t_timezone t) p (Some ca) now d1 = (a, d')"
      using assms t c p by (auto simp: draft_order_def)
    from keep_form [OF k] obtain cs ads n where
      "d1 = d\<lparr>customers := cs, addresses := ads, next_id := n\<rparr>" "next_id d \<le> n" by blast
    from that [OF t c p this wr] Some k show ?thesis by simp
  qed
qed

text \<open>What was planned, read off the checks.\<close>

lemma check_delivery_zone:
  "check_delivery d tid code now = Inr zn \<Longrightarrow> \<exists>z \<in> set (delivery_zones d). z_tenant_id z = tid \<and>
     z_active z \<and> dc_fee_cents zn = z_fee_cents z \<and> dc_min_order_cents zn = z_min_order_cents z \<and>
     dc_eta_minutes zn = z_eta_minutes z"
proof -
  assume a: "check_delivery d tid code now = Inr zn"
  then obtain z where zs: "zones_for d tid (postal_digits code) = [z]"
    and zn: "dc_fee_cents zn = z_fee_cents z" "dc_min_order_cents zn = z_min_order_cents z"
      "dc_eta_minutes zn = z_eta_minutes z"
    by (auto simp: check_delivery_def Let_def split: if_splits list.splits)
  have "z \<in> set (zones_for d tid (postal_digits code))" unfolding zs by simp
  then show ?thesis using zn by (auto simp: zones_for_def)
qed

lemma find_place_zone:
  assumes "find_place d tid cu phone line now = Inr w"
  shows "\<exists>code. check_delivery d tid code now = Inr (p_zone w)" and "p_name w \<noteq> []"
  using assms by (auto simp: find_place_def Let_def split: if_splits option.splits)

lemma plan_order_parts:
  assumes "plan_order q t c now d = Inr p"
  shows "validated_lines d (dr_tenant_id q) (dr_items q) now = Inr (pl_lines p)"
    and "pl_name p \<noteq> []"
    and "pl_where p = None \<longleftrightarrow> dr_type q = OPickup"
    and "pl_where p = None \<Longrightarrow> pl_fee p = 0 \<and> pl_wait p = current_wait c Pickup now"
    and "pl_where p = Some w \<Longrightarrow>
      (\<exists>code. check_delivery d (dr_tenant_id q) code now = Inr (p_zone w)) \<and>
      pl_fee p = dc_fee_cents (p_zone w) \<and> dc_min_order_cents (p_zone w) \<le> items_total_cents_of (pl_lines p) \<and>
      pl_wait p = max (current_wait c service.Delivery now) (dc_eta_minutes (p_zone w))"
proof -
  have ty: "dr_type q \<noteq> ODelivery \<longleftrightarrow> dr_type q = OPickup" by (cases "dr_type q") simp_all
  obtain call phone where ph: "normalize_phone DEFAULT_COUNTRY_CODE (oc_phone (dr_customer q)) = Inr phone"
    and call: "get_call d (dr_call_id q) = Some call"
    using assms by (auto simp: plan_order_def Let_def split: option.splits if_splits)
  note s = assms [unfolded plan_order_def Let_def call ph option.case andthen_simps]
  show "validated_lines d (dr_tenant_id q) (dr_items q) now = Inr (pl_lines p)"
    using s by (auto split: if_splits)
  show "pl_name p \<noteq> []" using s find_place_zone(2) by (auto split: if_splits)
  show "pl_where p = None \<longleftrightarrow> dr_type q = OPickup" using s ty by (auto split: if_splits)
  show "pl_where p = None \<Longrightarrow> pl_fee p = 0 \<and> pl_wait p = current_wait c Pickup now"
    using s by (auto split: if_splits)
  show "(\<exists>code. check_delivery d (dr_tenant_id q) code now = Inr (p_zone w)) \<and>
      pl_fee p = dc_fee_cents (p_zone w) \<and> dc_min_order_cents (p_zone w) \<le> items_total_cents_of (pl_lines p) \<and>
      pl_wait p = max (current_wait c service.Delivery now) (dc_eta_minutes (p_zone w))"
    if "pl_where p = Some w"
    using s that find_place_zone(1) by (auto simp: require_minimum_def Let_def split: if_splits)
qed

lemma ready_at_of:
  "now + wait * MINUTE \<le> ready_at_of now wait" "ready_at_of now wait < now + wait * MINUTE + MINUTE"
  "ready_at_of now wait mod MINUTE = 0"
proof -
  let ?r = "now + wait * MINUTE"
  have m: "0 \<le> ?r mod MINUTE" "?r mod MINUTE < MINUTE" by (simp_all add: MINUTE_def)
  have f: "(?r - ?r mod MINUTE) mod MINUTE = 0" by (metis minus_mod_eq_mult_div mod_mult_self1_is_0)
  show "?r \<le> ready_at_of now wait" "ready_at_of now wait < ?r + MINUTE"
    using m by (auto simp: ready_at_of_def Let_def MINUTE_def)
  show "ready_at_of now wait mod MINUTE = 0"
    using f by (auto simp: ready_at_of_def Let_def)
qed

definition row_of_line :: "uuid \<Rightarrow> line \<Rightarrow> order_item \<Rightarrow> bool" where
  "row_of_line oid l x \<longleftrightarrow> oi_order_id x = oid \<and> oi_menu_item_id x = m_id (ln_item l) \<and>
     quantity x = ln_quantity l \<and> unit_price_cents x = price_cents (ln_item l) \<and>
     oi_options x = ln_options l \<and> oi_note x = ln_note l"

definition rows_total :: "order_item list \<Rightarrow> cents" where
  "rows_total rows = sum_list (map (\<lambda>x. row_cents (unit_price_cents x) (oi_options x) * quantity x) rows)"

lemma rows_total_simps [simp]:
  "rows_total [] = 0"
  "rows_total (x # xs) = row_cents (unit_price_cents x) (oi_options x) * quantity x + rows_total xs"
  "rows_total (xs @ ys) = rows_total xs + rows_total ys"
  by (simp_all add: rows_total_def)

definition new_items :: "draft_request \<Rightarrow> uuid \<Rightarrow> uuid \<Rightarrow> instant \<Rightarrow> nat \<Rightarrow> line list \<Rightarrow> order_item list" where
  "new_items q oid i now k ls = map (new_item q oid i now) (List.enumerate k ls)"

lemma new_items_simps [simp]:
  "new_items q oid i now k [] = []"
  "new_items q oid i now k (l # ls) = new_item q oid i now (k, l) # new_items q oid i now (Suc k) ls"
  by (simp_all add: new_items_def)

lemma new_item_sel [simp]:
  "oi_order_id (new_item q oid i now p) = oid" "oi_created_at (new_item q oid i now (k, l)) = now + int k"
  "row_of_line oid l (new_item q oid i now (k, l))" "oi_id (new_item q oid i now (k, l)) = i + k"
  by (cases p; simp add: new_item_def row_of_line_def)+

lemma new_items_rows: "list_all2 (row_of_line oid) ls (new_items q oid i now k ls)"
  by (induction ls arbitrary: k) simp_all

lemma rows_total_lines: "list_all2 (row_of_line oid) ls rows \<Longrightarrow> rows_total rows = items_total_cents_of ls"
  by (induction rule: list_all2_induct)
    (simp_all add: row_of_line_def items_total_cents_of_def unit_cents_def mult.commute)

text \<open>The rows a new draft adds.\<close>

lemma write_draft_rows:
  assumes "write_draft q z p wh now d = (a, d')"
  shows "orders d' = orders d @ [new_order q p wh now d]"
    and "order_items d' = order_items d @ new_items q (next_id d) (Suc (next_id d)) now 0 (pl_lines p)"
    and "outbox d' = outbox d" and "tenants d' = tenants d" and "service_configs d' = service_configs d"
    and "addresses d' = addresses d" and "next_id d' = Suc (next_id d) + length (pl_lines p)"
    and "\<exists>s ws. a = draft_response (new_order q p wh now d) s ws"
  using assms by (auto simp: write_draft_def Let_def new_items_def new_order_def add_audit_def)

lemma lines_nonneg:
  "list_all2 (line_from_menu d tid now) items ls \<Longrightarrow> list_all order_item_in_ok items \<Longrightarrow> l \<in> set ls \<Longrightarrow>
   0 \<le> unit_cents l \<and> 0 \<le> ln_quantity l"
  by (induction rule: list_all2_induct) (auto simp: line_from_menu_def order_item_in_ok_def)

text \<open>C24. The sum of an order comes from the menu, never from the agent: every position is an active
  dish of the restaurant at its price of now, the total is the sum of the rows that are stored
  plus the fee of the one active zone of the address, the minimum of that zone is reached, and the
  time promised is the full minute after the wait of now. A draft tells nobody: there is no event,
  no pickup code, no handover.\<close>

theorem draft_sum:
  assumes "draft_order q now d = Inr (a, d')"
    and "order_by_key d (dr_idempotency_key q) = None" and "draft_request_ok q"
    and "\<forall>z \<in> set (delivery_zones d). 0 \<le> z_fee_cents z"
  shows "\<exists>r ls rows wait at c. get_config d (dr_tenant_id q) = Some c \<and>
    orders d' = orders d @ [r] \<and> order_items d' = order_items d @ rows \<and> outbox d' = outbox d \<and>
    od_order_id a = o_id r \<and> od_total_cents a = total_cents r \<and> o_tenant_id r = dr_tenant_id q \<and>
    o_status r = ODraft \<and> pickup_code r = None \<and> handover_state r = None \<and> order_check r \<and>
    list_all2 (line_from_menu d (dr_tenant_id q) now) (dr_items q) ls \<and>
    list_all2 (row_of_line (o_id r)) ls rows \<and> items_total_cents r = rows_total rows \<and>
    (dr_type q = OPickup \<longrightarrow> delivery_fee_cents r = 0) \<and>
    (dr_type q = ODelivery \<longrightarrow> (\<exists>z \<in> set (delivery_zones d). z_tenant_id z = dr_tenant_id q \<and>
       z_active z \<and> delivery_fee_cents r = z_fee_cents z \<and>
       z_min_order_cents z \<le> items_total_cents r \<and> z_eta_minutes z \<le> wait)) \<and>
    current_wait c (order_service (dr_type q)) now \<le> wait \<and> ready_at r = Some at \<and>
    now + wait * MINUTE \<le> at \<and> at < now + wait * MINUTE + MINUTE \<and> at mod MINUTE = 0"
proof -
  obtain t c p wh d1 cs ads n where c: "get_config d (dr_tenant_id q) = Some c"
    and p: "plan_order q t c now d = Inr p"
    and d1: "d1 = d\<lparr>customers := cs, addresses := ads, next_id := n\<rparr>"
    and w: "write_draft q (t_timezone t) p wh now d1 = (a, d')" and wh: "wh = None \<longleftrightarrow> pl_where p = None"
    by (rule draft_order_new [OF assms(1,2)], rule that; assumption)
  let ?r = "new_order q p wh now d1"
  let ?rows = "new_items q (next_id d1) (Suc (next_id d1)) now 0 (pl_lines p)"
  note pp = plan_order_parts [OF p]
  have lines: "list_all2 (line_from_menu d (dr_tenant_id q) now) (dr_items q) (pl_lines p)"
    by (rule validated_lines_from_menu [OF pp(1)])
  have "0 \<le> unit_cents l \<and> 0 \<le> ln_quantity l" if "l \<in> set (pl_lines p)" for l
    by (rule lines_nonneg [OF lines _ that]) (use assms(3) in \<open>simp add: draft_request_ok_def\<close>)
  then have nonneg: "0 \<le> items_total_cents_of (pl_lines p)" by (rule items_total_nonneg) blast
  have zone: "\<exists>z \<in> set (delivery_zones d). z_tenant_id z = dr_tenant_id q \<and> z_active z \<and>
      pl_fee p = z_fee_cents z \<and> z_min_order_cents z \<le> items_total_cents_of (pl_lines p) \<and>
      z_eta_minutes z \<le> pl_wait p" if ty: "dr_type q = ODelivery"
  proof -
    obtain x where x: "pl_where p = Some x" using pp(3) ty by (cases "pl_where p") auto
    from pp(5) [OF x] check_delivery_zone show ?thesis by fastforce
  qed
  have fee: "dr_type q = OPickup \<longrightarrow> pl_fee p = 0" using pp(3,4) by blast
  have "0 \<le> pl_fee p" using zone fee assms(4) by (cases "dr_type q") auto
  then have check: "order_check ?r" using nonneg fee wh pp(3)
    by (cases "dr_type q") (auto simp: order_check_def new_order_def Let_def)
  have wait: "current_wait c (order_service (dr_type q)) now \<le> pl_wait p"
    using pp(3-5) by (cases "dr_type q"; cases "pl_where p") (auto simp: order_service_def)
  define r where "r = ?r"
  define rows where "rows = ?rows"
  have r: "o_tenant_id r = dr_tenant_id q" "o_status r = ODraft" "pickup_code r = None"
    "handover_state r = None" "items_total_cents r = items_total_cents_of (pl_lines p)"
    "delivery_fee_cents r = pl_fee p" "ready_at r = Some (ready_at_of now (pl_wait p))"
    "o_id r = next_id d1"
    by (simp_all add: r_def new_order_def Let_def)
  have d': "orders d' = orders d @ [r]" "order_items d' = order_items d @ rows" "outbox d' = outbox d"
    using write_draft_rows [OF w] by (simp_all add: d1 r_def rows_def)
  have a: "od_order_id a = o_id r" "od_total_cents a = total_cents r"
    using write_draft_rows(8) [OF w] by (auto simp: draft_response_def r_def)
  have rows: "list_all2 (row_of_line (o_id r)) (pl_lines p) rows"
    unfolding r rows_def by (rule new_items_rows)
  have total: "items_total_cents r = rows_total rows" using rows_total_lines [OF rows] r by simp
  show ?thesis
    by (rule exI [of _ r], rule exI [of _ "pl_lines p"], rule exI [of _ rows], rule exI [of _ "pl_wait p"],
        rule exI [of _ "ready_at_of now (pl_wait p)"], rule exI [of _ c])
      (use c d' a r check lines rows total zone fee wait ready_at_of in \<open>simp add: r_def [symmetric]\<close>)
qed

section \<open>The same key, the same answer\<close>

text \<open>Keys that no row uses yet, as \<open>gen_random_uuid()\<close> gives them, and one row per address key.\<close>

definition keys_fresh :: "db \<Rightarrow> bool" where
  "keys_fresh d \<longleftrightarrow> (\<forall>r \<in> set (orders d). o_id r < next_id d) \<and>
     (\<forall>x \<in> set (order_items d). oi_order_id x < next_id d) \<and>
     (\<forall>x \<in> set (audit d). au_entity x = ''order'' \<longrightarrow> (case entity_id x of None \<Rightarrow> True | Some i \<Rightarrow> i < next_id d)) \<and>
     (\<forall>x \<in> set (addresses d). a_id x < next_id d) \<and> distinct (map a_id (addresses d))"

lemma keep_address:
  assumes "keep tid cid phone pl d = Inr ((c, a), d')" and "p_stored pl = None" and "keys_fresh d"
  shows "get_address d' (a_id a) = Some a"
proof -
  obtain c' d1 said a0 d2 where k: "keep_customer tid cid phone pl d = Inr (c', d1)"
    and r: "address_row tid (cu_id c') said d1 = (a0, d2)"
    and a: "a = a0\<lparr>a_zone_id := Some (dc_zone_id (p_zone pl))\<rparr>"
    and d': "addresses d' = upd_rows (\<lambda>x. a_id x = a_id a0) (\<lambda>x. x\<lparr>a_zone_id := Some (dc_zone_id (p_zone pl))\<rparr>)
      (addresses d2)"
    using assms(1,2) by (auto simp: keep_def Let_def split: option.splits)
  have d1: "addresses d1 = addresses d" "next_id d \<le> next_id d1"
    using k by (auto simp: keep_customer_def Let_def split: option.splits)
  have "find (\<lambda>x. a_id x = a_id a0) (addresses d2) = Some a0"
  proof (cases "find (\<lambda>a. a_customer_id a = cu_id c' \<and> same_key a = same_key (wanted_address tid (cu_id c') said d1))
      (addresses d1)")
    case None
    then have n: "d2 = d1\<lparr>addresses := addresses d1 @ [a0], next_id := Suc (next_id d1)\<rparr>" "a_id a0 = next_id d1"
      using r by (auto simp: address_row_def Let_def wanted_address_def)
    have "find (\<lambda>x. a_id x = next_id d1) (addresses d) = None"
      using assms(3) d1(2) by (fastforce simp: find_None_iff keys_fresh_def)
    then show ?thesis using n d1 by (simp add: find_append_new)
  next
    case (Some x)
    then have "a0 = x" "d2 = d1" "x \<in> set (addresses d)"
      using r d1 by (auto simp: address_row_def Let_def dest: find_SomeD)
    then show ?thesis using assms(3) d1 by (simp add: keys_fresh_def distinct_key_find)
  qed
  then show ?thesis unfolding get_address_def d' a by (subst find_upd_rows) simp_all
qed

lemma new_items_sorted: "sorted (map oi_created_at (new_items q oid i now k ls))"
proof (induction ls arbitrary: k)
  case (Cons l ls)
  have "now + int k \<le> oi_created_at x" if "x \<in> set (new_items q oid i now j ls)" "k \<le> j" for x j
    using that by (induction ls arbitrary: j) (auto simp: Suc_le_eq)
  then show ?case using Cons by auto
qed simp

lemma new_items_spoken:
  "spoken_rows (new_items q oid i now k ls) labels = spoken_of ls labels"
  unfolding spoken_rows_def spoken_of_def
  by (induction ls arbitrary: k labels) (auto simp: new_item_def zip_Cons1 split: list.split)

lemma new_items_length [simp]: "length (new_items q oid i now k ls) = length ls"
  by (simp add: new_items_def)

lemma strs_of_strs [simp]: "strs_of_json (JList (map JStr ws)) = Some ws"
  by (induction ws) (simp_all add: strs_of_json_def json_text_def)

lemma write_draft_replay:
  assumes w: "write_draft q z p wh now d1 = (a, d')" and f: "keys_fresh d"
    and d1: "orders d1 = orders d" "order_items d1 = order_items d" "audit d1 = audit d" "next_id d \<le> next_id d1"
    and addr: "case pl_where p of None \<Rightarrow> True | Some w \<Rightarrow> (\<exists>ca. wh = Some ca \<and>
      (p_stored w = None \<longrightarrow> get_address d1 (a_id (snd ca)) = Some (snd ca)))"
  shows "replay_order d' (new_order q p wh now d1) (dr_tenant_id q) (dr_call_id q) = Inr a"
proof -
  define r where "r = new_order q p wh now d1"
  define ls where "ls = labels_of_lines (pl_lines p)"
  define heard where "heard = (case pl_where p of None \<Rightarrow> True | Some w \<Rightarrow> p_name_heard w)"
  define spoken where "spoken = (case pl_where p of None \<Rightarrow> None
    | Some w \<Rightarrow> if p_stored w \<noteq> None then None else map_option snd wh)"
  obtain ws e where a: "a = draft_response r (readback r (spoken_of (pl_lines p) ls) spoken heard) ws"
    and au: "audit d' = audit d @ [e]" "action e = ACTION_DRAFT_CREATED" "au_entity e = ''order''"
      "entity_id e = Some (o_id r)"
      "au_payload e = draft_audit q (length (pl_lines p)) (total_cents r) heard (spoken \<noteq> None) ls ws"
    using w d1(3) by (auto simp: write_draft_def Let_def r_def ls_def heard_def spoken_def add_audit_def)
  have id: "o_id r = next_id d1" by (simp add: r_def new_order_def Let_def)
  have none: "\<not> (au_entity x = ''order'' \<and> entity_id x = Some (o_id r))" if "x \<in> set (audit d)" for x
    using f that d1(4) id by (fastforce simp: keys_fresh_def)
  have "order_audit d' (o_id r) acts = (if ACTION_DRAFT_CREATED \<in> set acts then [e] else [])" for acts
    using none au by (auto simp: order_audit_def filter_empty_conv)
  then have snap: "draft_snapshot d' (o_id r) =
      Inr (draft_audit q (length (pl_lines p)) (total_cents r) heard (spoken \<noteq> None) ls ws, ls)"
    using au by (simp add: draft_snapshot_def current_labels_def LABEL_ACTIONS_def draft_audit_def)
  have noitem: "filter (\<lambda>x. oi_order_id x = o_id r) (order_items d) = []"
    using f d1(4) id by (fastforce simp: keys_fresh_def filter_empty_conv)
  have rows: "rows_of_order d' (o_id r) = new_items q (o_id r) (Suc (o_id r)) now 0 (pl_lines p)"
    using write_draft_rows(2) [OF w] d1(2) noitem new_items_rows
    by (simp add: rows_of_order_def id sort_key_id_if_sorted new_items_sorted list_all2_conv_all_nth
        filter_id_conv all_set_conv_all_nth row_of_line_def)
  have addr': "(if spoken \<noteq> None then Option.bind (o_address_id r) (get_address d') else None) = spoken"
    using addr write_draft_rows(6) [OF w]
    by (auto simp: spoken_def r_def new_order_def Let_def get_address_def split: option.splits if_splits)
  have "length ls = length (pl_lines p)" by (simp add: ls_def labels_of_lines_def)
  moreover have "o_tenant_id r = dr_tenant_id q" "o_call_id r = dr_call_id q"
    by (simp_all add: r_def new_order_def Let_def)
  ultimately show ?thesis
    using addr' unfolding r_def [symmetric]
    by (simp add: replay_order_def snap rows new_items_spoken Let_def a draft_audit_def)
qed

lemma replay_order_own:
  "replay_order d r tid cid = Inr a \<Longrightarrow> o_tenant_id r = tid \<and> o_call_id r = cid"
  by (auto simp: replay_order_def split: if_splits)

lemma draft_order_known:
  assumes "get_tenant d (dr_tenant_id q) = Some t" and "get_config d (dr_tenant_id q) = Some c"
    and "order_by_key d (dr_idempotency_key q) = Some r"
  shows "draft_order q now d = andthen (replay_order d r (dr_tenant_id q) (dr_call_id q)) (\<lambda>a. Inr (a, d))"
  using assms by (simp add: draft_order_def)

text \<open>After a draft its key leads to it, and the replay reads what was answered.\<close>

lemma draft_order_stored:
  assumes "draft_order q now d = Inr (a, d')" and "keys_fresh d"
  obtains t c r where "get_tenant d' (dr_tenant_id q) = Some t" and "get_config d' (dr_tenant_id q) = Some c"
    and "order_by_key d' (dr_idempotency_key q) = Some r"
    and "replay_order d' r (dr_tenant_id q) (dr_call_id q) = Inr a"
proof (cases "order_by_key d (dr_idempotency_key q)")
  case (Some r)
  then show thesis
    using assms(1) that by (auto simp: draft_order_def Let_def split: option.splits)
next
  case None
  obtain t c p wh d1 cs ads n where t: "get_tenant d (dr_tenant_id q) = Some t"
    and c: "get_config d (dr_tenant_id q) = Some c"
    and d1: "d1 = d\<lparr>customers := cs, addresses := ads, next_id := n\<rparr>" "next_id d \<le> n"
    and w: "write_draft q (t_timezone t) p wh now d1 = (a, d')"
    and k: "case pl_where p of None \<Rightarrow> True
      | Some w \<Rightarrow> \<exists>ca. wh = Some ca \<and> keep (dr_tenant_id q) (dr_call_id q) (pl_phone p) w d = Inr (ca, d1)"
    by (rule draft_order_new [OF assms(1) None], rule that; assumption)
  note f = write_draft_rows [OF w]
  have addr: "case pl_where p of None \<Rightarrow> True | Some w \<Rightarrow> (\<exists>ca. wh = Some ca \<and>
      (p_stored w = None \<longrightarrow> get_address d1 (a_id (snd ca)) = Some (snd ca)))"
  proof (cases "pl_where p")
    case (Some w)
    with k obtain cu ad where "wh = Some (cu, ad)"
      and "keep (dr_tenant_id q) (dr_call_id q) (pl_phone p) w d = Inr ((cu, ad), d1)" by auto
    then show ?thesis using keep_address [OF _ _ assms(2)] Some by simp
  qed simp
  have "replay_order d' (new_order q p wh now d1) (dr_tenant_id q) (dr_call_id q) = Inr a"
    by (rule write_draft_replay [OF w assms(2) _ _ _ _ addr]) (simp_all add: d1)
  moreover have "order_by_key d' (dr_idempotency_key q) = Some (new_order q p wh now d1)"
    using None f(1) d1 by (simp add: order_by_key_def find_append_new new_order_def Let_def)
  moreover have "get_tenant d' (dr_tenant_id q) = Some t" "get_config d' (dr_tenant_id q) = Some c"
    using t c f d1 by (simp_all add: get_tenant_def get_config_def)
  ultimately show thesis using that by blast
qed

text \<open>C30. The key of a draft answers for good: asked again, at any later time, it gives the same
  sum, time, warnings and sentence, read back from the rows and the audit log, and writes nothing;
  another call under the same key gets a refusal and not the guest's order.\<close>

theorem draft_replay:
  assumes "draft_order q now d = Inr (a, d')" and "keys_fresh d"
  shows "draft_order q later d' = Inr (a, d') \<and>
    (\<forall>cid. cid \<noteq> dr_call_id q \<longrightarrow>
       draft_order (q\<lparr>dr_call_id := cid\<rparr>) later d' = raise_err Conflict None)"
proof -
  obtain t c r where h: "get_tenant d' (dr_tenant_id q) = Some t" "get_config d' (dr_tenant_id q) = Some c"
    "order_by_key d' (dr_idempotency_key q) = Some r"
    "replay_order d' r (dr_tenant_id q) (dr_call_id q) = Inr a"
    by (rule draft_order_stored [OF assms])
  have "draft_order q later d' = Inr (a, d')" using draft_order_known [OF h(1-3)] h(4) by simp
  moreover have "draft_order (q\<lparr>dr_call_id := cid\<rparr>) later d' = raise_err Conflict None"
    if "cid \<noteq> dr_call_id q" for cid
    using that replay_order_own [OF h(4)] draft_order_known [of d' "q\<lparr>dr_call_id := cid\<rparr>" t c r later] h
    by (simp add: replay_order_def)
  ultimately show ?thesis by blast
qed

section \<open>A Friday at noon\<close>

definition noon :: instant where "noon = 20546 * DAY + 10 * HOUR"

definition all_friday :: "service \<Rightarrow> opening_hours" where
  "all_friday s = \<lparr>oh_tenant_id = 7, oh_weekday = 4, opens_at = 11 * HOUR, closes_at = 22 * HOUR, oh_service = s\<rparr>"

definition west :: delivery_zone where
  "west = \<lparr>z_id = 31, z_tenant_id = 7, z_name = ''West'', z_by_postal_code = True, postal_codes = [''76530''],
     z_fee_cents = 250, z_min_order_cents = 1500, z_eta_minutes = 50, z_active = True\<rparr>"

definition lunch_db :: db where
  "lunch_db = empty_db\<lparr>tenants := [example_tenant], service_configs := [example_config],
     opening_hours_rows := [all_friday Pickup, all_friday service.Delivery],
     calls := calls family_db, menu_items := [example_dish],
     item_options := [example_option 1 ''Curry'' 0, example_option 2 ''Erdnuss'' 50],
     delivery_zones := [west], customers := customers family_db, addresses := addresses family_db,
     next_id := 100, tx_now := noon\<rparr>"

definition ducks :: draft_request where
  "ducks = \<lparr>dr_tenant_id = 7, dr_call_id = 3, dr_idempotency_key = ''k1'', dr_type = ODelivery,
     dr_customer = \<lparr>oc_name = Some ''Bauer'', oc_phone = ''07221 5551234'', oc_address_id = None,
       oc_address = Some \<lparr>oa_street = ''Kurze Str.'', oa_house_number = ''2'', oa_postal_code = ''76 530'',
         oa_city = ''Baden-Baden'', oa_floor_note = None\<rparr>\<rparr>,
     dr_items = [example_wanted], dr_note = None\<rparr>"

definition part :: "'e + 'a \<times> db \<Rightarrow> db" where
  "part r = (case r of Inl _ \<Rightarrow> empty_db | Inr (_, d) \<Rightarrow> d)"

definition answer_of :: "'e + 'a \<times> 's \<Rightarrow> 'a option" where
  "answer_of r = (case r of Inl _ \<Rightarrow> None | Inr (a, _) \<Rightarrow> Some a)"

lemma answered: "answer_of r = Some a \<Longrightarrow> r = Inr (a, part r)"
  by (auto simp: answer_of_def part_def split: sum.splits)

definition ducks_order :: order where
  "ducks_order = \<lparr>o_id = 101, o_tenant_id = 7, o_call_id = 3, o_type = ODelivery, o_status = ODraft,
     o_customer_id = Some 11, o_address_id = Some 100, o_phone = ''+4972215551234'',
     o_booked_on_own_line = True, customer_name = ''Bauer'', items_total_cents = 2000,
     delivery_fee_cents = 250, total_cents = 2250, ready_at = Some (noon + 50 * MINUTE), o_note = None,
     o_idempotency_key = ''k1'', pickup_code = None, handover_state = None, register_entered_at = None,
     o_created_at = noon, o_deleted_at = None\<rparr>"

definition short_street :: address where
  "short_street = \<lparr>a_id = 100, a_tenant_id = 7, a_customer_id = 11, street = ''Kurze Str.'',
     house_number = ''2'', postal_code = ''76530'', city = ''Baden-Baden'', floor_note = None,
     a_zone_id = Some 31, a_is_default = False\<rparr>"

definition ducks_db :: db where
  "ducks_db = lunch_db\<lparr>addresses := addresses family_db @ [short_street], orders := [ducks_order],
     order_items := [\<lparr>oi_id = 102, oi_tenant_id = 7, oi_order_id = 101, oi_menu_item_id = 12, quantity = 2,
       unit_price_cents = 950, oi_options = [chosen_of (example_option 2 ''Erdnuss'' 50)], oi_note = None,
       oi_created_at = noon\<rparr>],
     audit := [\<lparr>au_tenant_id = 7, au_at = noon, actor = ACTOR_AGENT, action = ACTION_DRAFT_CREATED,
       au_entity = ''order'', entity_id = Some 101, au_payload = JObj [(''call_id'', JId 3),
         (''type'', JStr ''delivery''), (''positions'', JInt 1), (''total_cents'', JInt 2250),
         (''name_heard'', JBool True), (''address_heard'', JBool True),
         (''labels'', labels_json [(''12'', ''Ente'')]), (''warnings'', JList [])]\<rparr>],
     next_id := 103\<rparr>"

definition ducks_draft :: order_draft where
  "ducks_draft = \<lparr>od_order_id = 101, od_status = ODraft, od_items_total_cents = 2000,
     od_delivery_fee_cents = 250, od_total_cents = 2250, od_ready_at = Some (noon + 50 * MINUTE),
     od_warnings = [], od_readback = ''Zweimal Nummer 12 Ente mit Erdnuss. Macht 22 Euro 50 inklusive '' @
       ''2 Euro 50 Liefergeb'' @ [ue] @ ''hr, Lieferung in etwa 50 Minuten an die Adresse Kurze Str. 2, '' @
       ''76530 Baden-Baden, auf den Namen Bauer. Passt das so?''\<rparr>"

lemma ducks_drafted: "draft_order ducks noon lunch_db = Inr (ducks_draft, ducks_db)"
  by code_simp

lemma lunch_fresh: "keys_fresh lunch_db" "order_by_key lunch_db (dr_idempotency_key ducks) = None"
  "draft_request_ok ducks" "\<forall>z \<in> set (delivery_zones lunch_db). 0 \<le> z_fee_cents z"
  by (simp_all add: keys_fresh_def lunch_db_def family_db_def empty_db_def order_by_key_def ducks_def west_def
      draft_request_ok_def order_item_in_ok_def example_wanted_def MAX_ITEMS_def MAX_QUANTITY_def NOTE_MAX_def)

theorem draft_sum_witness:
  "od_total_cents ducks_draft = 2250 \<and> length (orders ducks_db) = 1 \<and>
   (\<exists>rows. order_items ducks_db = rows \<and> rows_total rows = 2000) \<and> outbox ducks_db = []"
proof -
  note h = draft_sum [OF ducks_drafted lunch_fresh(2-4)]
  have "orders lunch_db = []" "order_items lunch_db = []" "outbox lunch_db = []"
    "dr_type ducks = ODelivery" "delivery_zones lunch_db = [west]"
    by (simp_all add: lunch_db_def empty_db_def ducks_def)
  moreover have "od_total_cents ducks_draft = 2250" "z_fee_cents west = 250"
    by (simp_all add: ducks_draft_def west_def)
  ultimately show ?thesis using h by (auto simp: order_check_def)
qed

theorem draft_replay_witness:
  "draft_order ducks (noon + DAY) ducks_db = Inr (ducks_draft, ducks_db) \<and>
   draft_order (ducks\<lparr>dr_call_id := 4\<rparr>) (noon + DAY) ducks_db = raise_err Conflict None"
  using draft_replay [OF ducks_drafted lunch_fresh(1), of "noon + DAY"] by (simp add: ducks_def)

end
