(* ===== verification/Kitchen.thy ===== *)
theory Kitchen
  imports Ticket Status
begin

text \<open>
  The way of a slip to the printer, \<open>api/domain/ordering/handover.py\<close>: the print bridge in the
  restaurant fetches due tickets, prints and reports back; a watchdog turns a card red when the
  kitchen does not have its slip; a cancelled order takes its tickets back. An event of the
  kitchen is written by \<open>send_ticket\<close> and \<open>confirm_order\<close> alone, so its payload has an order and
  a whole number as its revision, or none.
\<close>

section \<open>The slip\<close>

definition LEASE_SECONDS :: int where "LEASE_SECONDS = 60"
definition PICKUP_TIMEOUT_SECONDS :: int where "PICKUP_TIMEOUT_SECONDS = 60"
definition CLAIM_LIMIT_MAX :: int where "CLAIM_LIMIT_MAX = 10"

definition SLIP_FIELDS :: "str list" where
  "SLIP_FIELDS = [''order_id'', ''type'', ''pickup_code'', ''customer_name'', ''ready_at'', ''address'',
     ''note'', ''revision'', ''correction_reason'', ''items_total_cents'', ''delivery_fee_cents'',
     ''total_cents'', ''items'']"

definition ITEM_FIELDS :: "str list" where
  "ITEM_FIELDS = [''quantity'', ''number'', ''name'', ''options'', ''note'']"

definition NOT_ON_A_CANCELLATION :: "str list" where
  "NOT_ON_A_CANCELLATION = [''address'', ''note'']"

text \<open>\<open>{k: payload[k] for k in FIELDS if k in payload and k not in drop}\<close>\<close>

definition pick_fields :: "str list \<Rightarrow> str list \<Rightarrow> json \<Rightarrow> (str \<times> json) list" where
  "pick_fields ks out p =
     List.map_filter (\<lambda>k. if k \<in> set out then None else map_option (Pair k) (jget k p)) ks"

definition slip :: "json \<Rightarrow> json" where
  "slip payload =
     (let cancelled = (json_text (jget ''correction_reason'' payload) = Some CANCELLED);
          out = (if cancelled then NOT_ON_A_CANCELLATION else []);
          kvs = pick_fields SLIP_FIELDS out payload;
          items = (case map_of kvs ''items'' of Some (JList js) \<Rightarrow> js | _ \<Rightarrow> [])
      in JObj (AList.update ''items''
           (JList (map (\<lambda>i. JObj (pick_fields ITEM_FIELDS out i)) items)) kvs))"

section \<open>Revisions\<close>

definition payload_revision :: "json \<Rightarrow> int option" where
  "payload_revision p = (case jget ''revision'' p of Some (JInt n) \<Rightarrow> Some n | _ \<Rightarrow> None)"

definition revision_column :: "outbox_event \<Rightarrow> int option" where
  "revision_column e = payload_revision (ev_payload e)"

definition revision_of :: "outbox_event \<Rightarrow> int" where
  "revision_of e = (case revision_column e of None \<Rightarrow> 0 | Some n \<Rightarrow> n)"

definition same_order :: "outbox_event \<Rightarrow> outbox_event \<Rightarrow> bool" where
  "same_order e x \<longleftrightarrow> ev_tenant_id x = ev_tenant_id e \<and> event_type x \<in> set KITCHEN \<and>
     jget ''order_id'' (ev_payload x) = jget ''order_id'' (ev_payload e)"

definition newest_revision :: "db \<Rightarrow> outbox_event \<Rightarrow> int option" where
  "newest_revision d e =
     (case List.map_filter revision_column (filter (same_order e) (outbox d)) of
        [] \<Rightarrow> None | ns \<Rightarrow> Some (Max (set ns)))"

definition newest_or_0 :: "db \<Rightarrow> outbox_event \<Rightarrow> int" where
  "newest_or_0 d e = (case newest_revision d e of None \<Rightarrow> 0 | Some n \<Rightarrow> n)"

definition is_current :: "db \<Rightarrow> outbox_event \<Rightarrow> bool" where
  "is_current d e \<longleftrightarrow> newest_or_0 d e \<le> revision_of e"

section \<open>A slip at the register\<close>

definition WITHDRAWN :: str where "WITHDRAWN = ''not printed: order cancelled''"
definition UNANSWERED :: str where "UNANSWERED = ''no answer: ''"

definition tickets_of :: "db \<Rightarrow> order \<Rightarrow> outbox_event list" where
  "tickets_of d ord = filter (ticket_of (o_tenant_id ord) (o_id ord)) (outbox d)"

text \<open>Picked up, and no error came back.\<close>

definition maybe_printed :: "outbox_event \<Rightarrow> bool" where
  "maybe_printed e \<longleftrightarrow> attempts e > 0 \<and>
     (case last_error e of None \<Rightarrow> True | Some s \<Rightarrow> py_startswith s UNANSWERED)"

definition may_hold_a_slip :: "db \<Rightarrow> order \<Rightarrow> bool" where
  "may_hold_a_slip d ord \<longleftrightarrow> list_ex maybe_printed (tickets_of d ord)"

definition unprinted :: "outbox_event \<Rightarrow> bool" where
  "unprinted e \<longleftrightarrow> ev_status e = PENDING \<and> (attempts e = 0 \<or> last_error e \<noteq> None)"

definition withdraw_event :: "instant \<Rightarrow> outbox_event \<Rightarrow> outbox_event" where
  "withdraw_event now e = (mark_sent now False e)\<lparr>last_error := Some WITHDRAWN\<rparr>"

definition withdraw_tickets ::
  "(uuid \<Rightarrow> bool) \<Rightarrow> order \<Rightarrow> instant \<Rightarrow> db \<Rightarrow> bool \<times> db" where
  "withdraw_tickets locked ord now d =
     (let d' = d\<lparr>outbox := upd_rows (\<lambda>e. ticket_of (o_tenant_id ord) (o_id ord) e \<and> unprinted e \<and>
                   \<not> locked (ev_id e)) (withdraw_event now) (outbox d)\<rparr>;
          held = list_ex (\<lambda>e. ev_status e = PENDING) (tickets_of d' ord)
      in (held \<or> may_hold_a_slip d' ord, d'))"

section \<open>The card\<close>

definition ACTION_HANDOVER_SENT :: str where "ACTION_HANDOVER_SENT = ''order.handover_sent''"
definition ACTION_HANDOVER_FAILED :: str where "ACTION_HANDOVER_FAILED = ''order.handover_failed''"

definition order_of_event :: "db \<Rightarrow> outbox_event \<Rightarrow> order option" where
  "order_of_event d e =
     (case jget ''order_id'' (ev_payload e) of
        Some (JId i) \<Rightarrow> find (\<lambda>r. o_id r = i \<and> o_tenant_id r = ev_tenant_id e) (orders d)
      | _ \<Rightarrow> None)"

definition handover_audit ::
  "outbox_event \<Rightarrow> order \<Rightarrow> str \<Rightarrow> str option \<Rightarrow> db \<Rightarrow> db" where
  "handover_audit e ord what reason d =
     add_audit (o_tenant_id ord) ''system'' what ''order'' (o_id ord)
       (JObj ([(''call_id'', JId (o_call_id ord)), (''event_id'', JId (ev_id e)),
               (''revision'', JInt (revision_of e))] @
              (case reason of None \<Rightarrow> [] | Some s \<Rightarrow> (if s = [] then [] else [(''reason'', JStr s)])))) d"

definition set_handover :: "uuid \<Rightarrow> delivery_state option \<Rightarrow> db \<Rightarrow> db" where
  "set_handover i st d = set_order i (\<lambda>r. r\<lparr>handover_state := st\<rparr>) d"

definition failed_payload :: "outbox_event \<Rightarrow> order \<Rightarrow> str \<Rightarrow> json" where
  "failed_payload e ord reason =
     JObj [(''order_id'', JId (o_id ord)), (''call_id'', JId (o_call_id ord)),
       (''pickup_code'', jopt JStr (pickup_code ord)), (''revision'', JInt (revision_of e)),
       (''reason'', JStr reason)]"

text \<open>The type of the event is known, so \<open>enqueue\<close> does not raise.\<close>

definition to_red :: "outbox_event \<Rightarrow> str \<Rightarrow> db \<Rightarrow> db" where
  "to_red e reason d =
     (case order_of_event d e of None \<Rightarrow> d
      | Some ord \<Rightarrow>
          if \<not> is_current d e then d
          else if handover_state ord \<noteq> Some PENDING then d
          else let d1 = set_handover (o_id ord) (Some FAILED) d;
                   d2 = handover_audit e ord ACTION_HANDOVER_FAILED (Some reason) d1
               in case enqueue (ev_tenant_id e) ORDER_HANDOVER_FAILED (failed_payload e ord reason) d2 of
                    Inl _ \<Rightarrow> d2 | Inr (_, d3) \<Rightarrow> d3)"

definition to_sent :: "outbox_event \<Rightarrow> db \<Rightarrow> db" where
  "to_sent e d =
     (case order_of_event d e of None \<Rightarrow> d
      | Some ord \<Rightarrow>
          if \<not> is_current d e then d
          else if handover_state ord \<in> {Some PENDING, Some FAILED}
          then handover_audit e ord ACTION_HANDOVER_SENT None (set_handover (o_id ord) (Some SENT) d)
          else d)"

text \<open>\<open>_supersede\<close>\<close>

definition supersede :: "int \<Rightarrow> instant \<Rightarrow> outbox_event \<Rightarrow> outbox_event" where
  "supersede newest now e =
     (let unanswered = (attempts e > 0 \<and> last_error e = None);
          head = (if unanswered then UNANSWERED else ''nicht gedruckt: '')
      in (mark_sent now False e)\<lparr>last_error := Some (head @ ''ueberholt von Revision '' @ str_int newest)\<rparr>)"

section \<open>The bridge fetches\<close>

record kitchen_ticket =
  tk_id :: uuid
  tk_attempt :: nat
  tk_slip :: json
  tk_ready_time :: "str option"
  tk_print_time :: str

definition claimable :: "uuid \<Rightarrow> instant \<Rightarrow> outbox_event \<Rightarrow> bool" where
  "claimable tid now e \<longleftrightarrow> ev_tenant_id e = tid \<and> event_type e \<in> set KITCHEN \<and> ev_status e = PENDING \<and>
     next_attempt_at e \<le> now \<and> attempts e < MAX_ATTEMPTS"

definition lease :: "instant \<Rightarrow> outbox_event \<Rightarrow> outbox_event" where
  "lease now e = e\<lparr>attempts := Suc (attempts e), last_error := None,
     next_attempt_at := now + LEASE_SECONDS * SECOND\<rparr>"

definition hand_out :: "zone \<Rightarrow> str \<Rightarrow> outbox_event \<Rightarrow> kitchen_ticket" where
  "hand_out z print_time e =
     \<lparr>tk_id = ev_id e, tk_attempt = attempts e, tk_slip = slip (ev_payload e),
      tk_ready_time = (case jget ''ready_at'' (ev_payload e) of
          Some (JTime u) \<Rightarrow> Some (strftime_hm (astimezone z u)) | _ \<Rightarrow> None),
      tk_print_time = print_time\<rparr>"

definition claim_event ::
  "zone \<Rightarrow> instant \<Rightarrow> outbox_event \<Rightarrow> kitchen_ticket list \<times> db \<Rightarrow> kitchen_ticket list \<times> db" where
  "claim_event z now e s =
     (case s of (ts, d) \<Rightarrow>
        let newest = newest_or_0 d e
        in if revision_of e < newest then (ts, set_event (ev_id e) (supersede newest now) d)
           else (ts @ [hand_out z (strftime_hm (astimezone z now)) (lease now e)],
                 set_event (ev_id e) (lease now) d))"

definition claim_rows :: "(uuid \<Rightarrow> bool) \<Rightarrow> uuid \<Rightarrow> instant \<Rightarrow> int \<Rightarrow> db \<Rightarrow> outbox_event list" where
  "claim_rows locked tid now limit d =
     take (nat (max 1 (min limit CLAIM_LIMIT_MAX)))
       (sort_key ev_created_at (filter (\<lambda>e. claimable tid now e \<and> \<not> locked (ev_id e)) (outbox d)))"

definition claim_tickets ::
  "(uuid \<Rightarrow> bool) \<Rightarrow> uuid \<Rightarrow> instant \<Rightarrow> int \<Rightarrow> db \<Rightarrow> app_error + kitchen_ticket list \<times> db" where
  "claim_tickets locked tid now limit d =
     (let rows = claim_rows locked tid now limit d in
      if rows = [] then Inr ([], note_poll tid now d)
      else case get_tenant d tid of None \<Rightarrow> raise_err UncaughtError None
        | Some t \<Rightarrow>
            (let (ts, d') = fold (claim_event (t_timezone t) now) rows ([], d)
             in Inr (ts, note_poll tid now d')))"

section \<open>The bridge reports\<close>

definition PRINT_FAILED :: str where "PRINT_FAILED = ''Druck fehlgeschlagen''"

definition ack_reason :: "str option \<Rightarrow> str" where
  "ack_reason err =
     (let s = py_strip (case err of None \<Rightarrow> PRINT_FAILED | Some e \<Rightarrow> (if e = [] then PRINT_FAILED else e))
      in if s = [] then PRINT_FAILED else s)"

definition ack_ticket ::
  "uuid \<Rightarrow> uuid \<Rightarrow> bool \<Rightarrow> instant \<Rightarrow> str option \<Rightarrow> db \<Rightarrow> app_error + delivery_state \<times> db" where
  "ack_ticket tid eid ok now err d =
     (case find (\<lambda>e. ev_id e = eid \<and> ev_tenant_id e = tid \<and> event_type e \<in> set KITCHEN) (outbox d) of
        None \<Rightarrow> raise_err NotFound None
      | Some e \<Rightarrow>
          if ev_status e \<noteq> PENDING then Inr (ev_status e, d)
          else if ok
          then Inr (SENT, to_sent e (set_event eid (mark_sent now False) d))
          else let reason = ack_reason err; f = (\<lambda>e. snd (mark_attempt_failed reason now False e))
               in Inr (ev_status (f e), to_red e reason (set_event eid f d)))"

section \<open>The watchdog\<close>

definition stale :: "instant \<Rightarrow> outbox_event \<Rightarrow> bool" where
  "stale now e \<longleftrightarrow> event_type e \<in> set KITCHEN \<and> ev_status e = PENDING \<and>
     next_attempt_at e \<le> now - PICKUP_TIMEOUT_SECONDS * SECOND"

text \<open>A join by the key of the order alone, as the query has it.\<close>

definition sweep_candidates :: "instant \<Rightarrow> db \<Rightarrow> uuid list" where
  "sweep_candidates now d =
     map ev_id (sort_key ev_created_at (filter (\<lambda>e. stale now e \<and>
       list_ex (\<lambda>r. jget ''order_id'' (ev_payload e) = Some (JId (o_id r)) \<and>
                    (handover_state r = Some PENDING \<or> attempts e \<ge> MAX_ATTEMPTS)) (orders d)) (outbox d)))"

definition sweep_reason :: "outbox_event \<Rightarrow> str" where
  "sweep_reason e = (if attempts e \<noteq> 0 then ''Druckbruecke hat nicht zurueckgemeldet''
     else ''Druckbruecke hat den Bon nicht abgeholt'')"

definition sweep_event :: "(uuid \<Rightarrow> bool) \<Rightarrow> instant \<Rightarrow> uuid \<Rightarrow> nat \<times> db \<Rightarrow> nat \<times> db" where
  "sweep_event locked now eid s =
     (case s of (turned, d) \<Rightarrow>
        case find (\<lambda>e. ev_id e = eid) (outbox d) of None \<Rightarrow> (turned, d)
        | Some e \<Rightarrow>
            if \<not> stale now e \<or> locked eid then (turned, d)
            else if attempts e \<ge> MAX_ATTEMPTS \<and> revision_of e < newest_or_0 d e
            then (turned, set_event eid (supersede (newest_or_0 d e) now) d)
            else let d1 = (if attempts e \<ge> MAX_ATTEMPTS
                           then set_event eid (\<lambda>x. x\<lparr>ev_status := FAILED\<rparr>) d else d);
                     before = map_option handover_state (order_of_event d1 e);
                     d2 = to_red e (sweep_reason e) d1;
                     after = map_option handover_state (order_of_event d2 e)
                 in (if order_of_event d1 e \<noteq> None \<and> before \<noteq> after then Suc turned else turned, d2))"

definition sweep :: "(uuid \<Rightarrow> bool) \<Rightarrow> instant \<Rightarrow> db \<Rightarrow> nat \<times> db" where
  "sweep locked now d = fold (sweep_event locked now) (sweep_candidates now d) (0, d)"


section \<open>What the bridge sees\<close>

lemma map_of_pick_fields:
  "map_of (pick_fields ks out p) k = (if k \<in> set ks \<and> k \<notin> set out then jget k p else None)"
  by (induction ks) (auto simp: pick_fields_def List.map_filter_simps split: option.splits)

lemma pick_fields_keys: "kv \<in> set (pick_fields ks out p) \<Longrightarrow> fst kv \<in> set ks \<and> fst kv \<notin> set out"
  by (auto simp: pick_fields_def List.map_filter_def split: if_splits)

lemma slip_get:
  "jget k (slip p) =
     (if k = ''items'' then Some (JList (map (\<lambda>i. JObj (pick_fields ITEM_FIELDS
         (if json_text (jget ''correction_reason'' p) = Some CANCELLED then NOT_ON_A_CANCELLATION else []) i))
         (case jget ''items'' p of Some (JList js) \<Rightarrow> js | _ \<Rightarrow> [])))
      else if k \<in> set SLIP_FIELDS \<and>
        \<not> (json_text (jget ''correction_reason'' p) = Some CANCELLED \<and> k \<in> set NOT_ON_A_CANCELLATION)
      then jget k p else None)"
proof -
  have i: "''items'' \<in> set SLIP_FIELDS" "''items'' \<notin> set NOT_ON_A_CANCELLATION"
    by (simp_all add: SLIP_FIELDS_def NOT_ON_A_CANCELLATION_def)
  show ?thesis
    by (simp add: slip_def Let_def update_conv' map_of_pick_fields i)
qed

text \<open>C36. What a stolen kitchen token can read of an order: the fields of the slip and nothing else,
  so no telephone number and no call, and of a cancelled order neither address nor any note.\<close>

theorem slip_hides:
  assumes "jget k (slip p) = Some v"
  shows "k \<in> set SLIP_FIELDS \<and> k \<noteq> ''phone'' \<and> k \<noteq> ''call_id'' \<and>
    (k = ''items'' \<or> jget k p = Some v) \<and>
    (k = ''items'' \<longrightarrow> (\<exists>items. v = JList (map JObj items) \<and>
       (\<forall>kvs \<in> set items. fst ` set kvs \<subseteq> set ITEM_FIELDS))) \<and>
    (json_text (jget ''correction_reason'' p) = Some CANCELLED \<longrightarrow>
       k \<noteq> ''address'' \<and> k \<noteq> ''note'' \<and>
       (k = ''items'' \<longrightarrow> (\<exists>items. v = JList (map JObj items) \<and>
          (\<forall>kvs \<in> set items. ''note'' \<notin> fst ` set kvs))))"
proof -
  let ?out = "if json_text (jget ''correction_reason'' p) = Some CANCELLED
    then NOT_ON_A_CANCELLATION else []"
  let ?js = "case jget ''items'' p of Some (JList js) \<Rightarrow> js | _ \<Rightarrow> []"
  have f: "''items'' \<in> set SLIP_FIELDS" "''phone'' \<notin> set SLIP_FIELDS" "''call_id'' \<notin> set SLIP_FIELDS"
    by (simp_all add: SLIP_FIELDS_def)
  have a: "set NOT_ON_A_CANCELLATION = {''address'', ''note''}" by (simp add: NOT_ON_A_CANCELLATION_def)
  show ?thesis
  proof (cases "k = ''items''")
    case False
    then show ?thesis using assms f by (auto simp: slip_get a split: if_splits)
  next
    case True
    define items where "items = map (pick_fields ITEM_FIELDS ?out) ?js"
    have v: "v = JList (map JObj items)" 
      using assms unfolding True slip_get items_def by (auto simp: o_def split del: if_split)
    have keys: "fst kv \<in> set ITEM_FIELDS \<and> fst kv \<notin> set ?out" if kvs: "kvs \<in> set items" and kv: "kv \<in> set kvs" for kvs kv
    proof -
      obtain j where j: "kvs = pick_fields ITEM_FIELDS ?out j"
        using kvs unfolding items_def set_map by blast
      show ?thesis by (rule pick_fields_keys) (use kv j in simp)
    qed
    have "\<forall>kvs \<in> set items. fst ` set kvs \<subseteq> set ITEM_FIELDS" using keys by blast
    moreover have "''note'' \<notin> fst ` set kvs"
      if "json_text (jget ''correction_reason'' p) = Some CANCELLED" "kvs \<in> set items" for kvs
      using keys [OF that(2)] that(1) a by fastforce
    ultimately show ?thesis using True f v by blast
  qed
qed

theorem slip_hides_witness:
  "jget ''phone'' example_payload = Some (JStr ''+49151'') \<and> jget ''phone'' (slip example_payload) = None \<and>
   jget ''total_cents'' (slip example_payload) = Some (JInt 2000)"
proof -
  have "jget ''phone'' example_payload = Some (JStr ''+49151'')"
    "jget ''total_cents'' (slip example_payload) = Some (JInt 2000)" by code_simp+
  moreover have "jget ''phone'' (slip example_payload) = None"
    using slip_hides [of "''phone''" example_payload] by (cases "jget ''phone'' (slip example_payload)") auto
  ultimately show ?thesis by blast
qed


section \<open>One pickup\<close>

text \<open>Revisions are read from tenant, type and payload of the kitchen's events, which no step of the
  bridge touches.\<close>

definition ticket_view :: "outbox_event \<Rightarrow> uuid \<times> str \<times> json" where
  "ticket_view e = (ev_tenant_id e, event_type e, ev_payload e)"

definition kitchen_view :: "db \<Rightarrow> (uuid \<times> str \<times> json) list" where
  "kitchen_view d = map ticket_view (filter (\<lambda>e. event_type e \<in> set KITCHEN) (outbox d))"

lemma newest_of_view:
  "List.map_filter revision_column (filter (same_order e) es) =
   List.map_filter (\<lambda>v. payload_revision (snd (snd v)))
     (filter (\<lambda>v. fst v = ev_tenant_id e \<and> jget ''order_id'' (snd (snd v)) = jget ''order_id'' (ev_payload e))
       (map ticket_view (filter (\<lambda>e. event_type e \<in> set KITCHEN) es)))"
  by (simp add: List.map_filter_def filter_map o_def ticket_view_def same_order_def
      revision_column_def conj_ac)

lemma newest_cong:
  assumes "kitchen_view d' = kitchen_view d"
  shows "newest_or_0 d' e = newest_or_0 d e"
proof -
  have "List.map_filter revision_column (filter (same_order e) (outbox d')) =
      List.map_filter revision_column (filter (same_order e) (outbox d))"
    unfolding newest_of_view using assms unfolding kitchen_view_def by (simp only:)
  then show ?thesis unfolding newest_or_0_def newest_revision_def by (simp only:)
qed

lemma current_cong: "kitchen_view d' = kitchen_view d \<Longrightarrow> is_current d' e = is_current d e"
  using newest_cong [of d' d e] by (simp add: is_current_def)

lemma kitchen_view_upd:
  "(\<And>e. ticket_view (f e) = ticket_view e) \<Longrightarrow>
   map ticket_view (filter (\<lambda>e. event_type e \<in> set KITCHEN) (upd_rows p f es)) =
   map ticket_view (filter (\<lambda>e. event_type e \<in> set KITCHEN) es)"
  by (induction es) (auto simp: ticket_view_def)

lemma kitchen_view_set_event:
  "(\<And>e. ticket_view (f e) = ticket_view e) \<Longrightarrow> kitchen_view (set_event i f d) = kitchen_view d"
  by (simp add: kitchen_view_def set_event_def kitchen_view_upd)

lemma lease_sel [simp]:
  "ev_id (lease now e) = ev_id e" "ticket_view (lease now e) = ticket_view e"
  "event_type (lease now e) = event_type e" "ev_payload (lease now e) = ev_payload e"
  "ev_tenant_id (lease now e) = ev_tenant_id e" "ev_status (lease now e) = ev_status e"
  "attempts (lease now e) = Suc (attempts e)" "last_error (lease now e) = None"
  "next_attempt_at (lease now e) = now + LEASE_SECONDS * SECOND"
  by (simp_all add: lease_def ticket_view_def)

lemma supersede_sel [simp]:
  "ev_id (supersede n now e) = ev_id e" "ticket_view (supersede n now e) = ticket_view e"
  "event_type (supersede n now e) = event_type e" "ev_payload (supersede n now e) = ev_payload e"
  "ev_tenant_id (supersede n now e) = ev_tenant_id e" "ev_status (supersede n now e) = SENT"
  "attempts (supersede n now e) = attempts e"
  by (simp_all add: supersede_def ticket_view_def Let_def)

text \<open>What one pickup does to a row it selected.\<close>

definition claimed :: "db \<Rightarrow> instant \<Rightarrow> outbox_event \<Rightarrow> outbox_event \<Rightarrow> outbox_event" where
  "claimed d now e = (if is_current d e then lease now else supersede (newest_or_0 d e) now)"

lemma claimed_sel [simp]: "ev_id (claimed d now e x) = ev_id x" "ticket_view (claimed d now e x) = ticket_view x"
  by (simp_all add: claimed_def)

lemma claim_fold:
  assumes "kitchen_view d' = kitchen_view d"
  shows "fold (claim_event z now) rows (ts, d') =
    (ts @ map (\<lambda>e. hand_out z (strftime_hm (astimezone z now)) (lease now e)) (filter (is_current d) rows),
     d'\<lparr>outbox := fold (\<lambda>e. upd_rows (\<lambda>x. ev_id x = ev_id e) (claimed d now e)) rows (outbox d')\<rparr>)"
  using assms
proof (induction rows arbitrary: ts d')
  case (Cons e rows)
  have step: "claim_event z now e (ts, d') =
      (if is_current d e then ts @ [hand_out z (strftime_hm (astimezone z now)) (lease now e)] else ts,
       set_event (ev_id e) (claimed d now e) d')"
    using newest_cong [OF Cons.prems, of e]
    by (simp add: claim_event_def claimed_def is_current_def Let_def not_le)
  have "kitchen_view (set_event (ev_id e) (claimed d now e) d') = kitchen_view d"
    using Cons.prems by (simp add: kitchen_view_set_event)
  from Cons.IH [OF this] show ?case by (simp add: step set_event_def)
qed simp

lemma claim_rows_mem:
  "e \<in> set (claim_rows locked tid now limit d) \<Longrightarrow> e \<in> set (outbox d) \<and> claimable tid now e \<and> \<not> locked (ev_id e)"
  unfolding claim_rows_def by (drule in_set_takeD) simp

lemma distinct_claim_rows:
  assumes "distinct (map ev_id (outbox d))"
  shows "distinct (map ev_id (claim_rows locked tid now limit d))"
proof -
  let ?fs = "filter (\<lambda>e. claimable tid now e \<and> \<not> locked (ev_id e)) (outbox d)"
  have "distinct (map ev_id ?fs)" using assms by (rule distinct_map_filter)
  then have "distinct (map ev_id (sort_key ev_created_at ?fs))"
    by (simp add: distinct_map)
  then show ?thesis unfolding claim_rows_def take_map [symmetric] by (rule distinct_take)
qed

lemma find_row:
  assumes "distinct (map ev_id rows)" and "set rows \<subseteq> set es" and "distinct (map ev_id es)" and "x \<in> set es"
  shows "find (\<lambda>e. ev_id e = ev_id x) rows = (if x \<in> set rows then Some x else None)"
proof (cases "x \<in> set rows")
  case True
  then show ?thesis using distinct_key_find [OF assms(1)] by (simp add: eq_commute)
next
  case False
  then have "\<forall>e \<in> set rows. ev_id e \<noteq> ev_id x"
    using rows_of_id [OF assms(3,4)] assms(2) by blast
  then show ?thesis using False by (simp add: find_None_iff)
qed

text \<open>One pickup in closed form.\<close>

lemma claim_tickets_form:
  assumes "claim_tickets locked tid now limit d = Inr (ts, d')" and "distinct (map ev_id (outbox d))"
  obtains z where
    "ts = map (\<lambda>e. hand_out z (strftime_hm (astimezone z now)) (lease now e))
       (filter (is_current d) (claim_rows locked tid now limit d))"
    "outbox d' = map (\<lambda>x. if x \<in> set (claim_rows locked tid now limit d) then claimed d now x x else x) (outbox d)"
    "orders d' = orders d" "audit d' = audit d" "next_id d' = next_id d"
proof -
  let ?rows = "claim_rows locked tid now limit d"
  have np: "outbox (note_poll tid now x) = outbox x" "orders (note_poll tid now x) = orders x"
    "audit (note_poll tid now x) = audit x" "next_id (note_poll tid now x) = next_id x" for x
    by (simp_all add: note_poll_def)
  show thesis
  proof (cases "?rows = []")
    case True
    then show thesis using assms(1) np by (intro that) (auto simp: claim_tickets_def)
  next
    case False
    obtain t where "get_tenant d tid = Some t"
      using assms(1) False by (auto simp: claim_tickets_def Let_def raise_err_def split: option.splits)
    with assms(1) False have t: "ts = map (\<lambda>e. hand_out (t_timezone t)
          (strftime_hm (astimezone (t_timezone t) now)) (lease now e)) (filter (is_current d) ?rows)"
      and d': "d' = note_poll tid now
        (d\<lparr>outbox := fold (\<lambda>e. upd_rows (\<lambda>x. ev_id x = ev_id e) (claimed d now e)) ?rows (outbox d)\<rparr>)"
      by (simp_all add: claim_tickets_def Let_def claim_fold)
    have fold: "fold (\<lambda>e. upd_rows (\<lambda>x. ev_id x = ev_id e) (claimed d now e)) ?rows (outbox d) =
        map (\<lambda>x. case find (\<lambda>e. ev_id e = ev_id x) ?rows of None \<Rightarrow> x | Some e \<Rightarrow> claimed d now e x) (outbox d)"
      by (rule fold_upd_rows [OF distinct_claim_rows [OF assms(2)]]) simp
    have "outbox d' = map (\<lambda>x. if x \<in> set ?rows then claimed d now x x else x) (outbox d)"
      unfolding d' np fold
      by (auto simp: fold find_row [OF distinct_claim_rows [OF assms(2)] _ assms(2)] claim_rows_mem subset_iff
          intro!: map_cong)
    then show thesis by (rule that [OF t]) (simp_all add: d' np)
  qed
qed


lemma current_newest:
  assumes "is_current d e" and "x \<in> set (outbox d)" and "same_order e x"
  shows "revision_of x \<le> max 0 (revision_of e)"
proof (cases "revision_column x")
  case None
  then show ?thesis by (simp add: revision_of_def)
next
  case (Some n)
  let ?ns = "List.map_filter revision_column (filter (same_order e) (outbox d))"
  have mem: "n \<in> set ?ns" using assms(2,3) Some by (force simp: List.map_filter_def)
  then obtain m ms where ns: "?ns = m # ms" by (cases ?ns) auto
  then have "newest_or_0 d e = Max (set ?ns)" by (simp add: newest_or_0_def newest_revision_def)
  moreover have "n \<le> Max (set ?ns)" using mem by (intro Max_ge) auto
  ultimately show ?thesis using assms(1) Some by (simp add: is_current_def revision_of_def)
qed

lemma claimed_current:
  assumes "claim_tickets locked tid now limit d = Inr (ts, d')" and "distinct (map ev_id (outbox d))"
  shows "length ts \<le> 10 \<and> distinct (map tk_id ts) \<and>
    (\<forall>t \<in> set ts. \<exists>e \<in> set (outbox d). claimable tid now e \<and> \<not> locked (ev_id e) \<and>
       tk_id t = ev_id e \<and> tk_slip t = slip (ev_payload e) \<and> tk_attempt t = Suc (attempts e) \<and>
       (\<forall>x \<in> set (outbox d). same_order e x \<longrightarrow> revision_of x \<le> max 0 (revision_of e)) \<and>
       lease now e \<in> set (outbox d'))"
proof -
  let ?rows = "claim_rows locked tid now limit d"
  obtain z where ts: "ts = map (\<lambda>e. hand_out z (strftime_hm (astimezone z now)) (lease now e))
       (filter (is_current d) ?rows)"
    and out: "outbox d' = map (\<lambda>x. if x \<in> set ?rows then claimed d now x x else x) (outbox d)"
    by (rule claim_tickets_form [OF assms]) blast
  have "length ?rows \<le> 10"
    by (simp add: claim_rows_def CLAIM_LIMIT_MAX_def)
  with length_filter_le [of "is_current d" ?rows]
  have "length (filter (is_current d) ?rows) \<le> 10" by (rule order_trans)
  then have "length ts \<le> 10" by (simp add: ts)
  moreover have "map tk_id ts = map ev_id (filter (is_current d) ?rows)" by (simp add: ts hand_out_def)
  then have "distinct (map tk_id ts)" using distinct_map_filter [OF distinct_claim_rows [OF assms(2)]] by simp
  moreover have "\<exists>e \<in> set (outbox d). claimable tid now e \<and> \<not> locked (ev_id e) \<and>
       tk_id t = ev_id e \<and> tk_slip t = slip (ev_payload e) \<and> tk_attempt t = Suc (attempts e) \<and>
       (\<forall>x \<in> set (outbox d). same_order e x \<longrightarrow> revision_of x \<le> max 0 (revision_of e)) \<and>
       lease now e \<in> set (outbox d')" if t: "t \<in> set ts" for t
  proof -
    obtain e where e: "e \<in> set ?rows" "is_current d e"
      and te: "t = hand_out z (strftime_hm (astimezone z now)) (lease now e)" using t ts by auto
    from claim_rows_mem [OF e(1)] have m: "e \<in> set (outbox d)" "claimable tid now e" "\<not> locked (ev_id e)"
      by auto
    have "lease now e \<in> set (outbox d')"
      unfolding out using m(1) e by (force simp: claimed_def)
    then show ?thesis using m te current_newest [OF e(2)] by (auto simp: hand_out_def)
  qed
  ultimately show ?thesis by blast
qed

text \<open>C8. What the print bridge is handed: at most ten tickets, none of them twice, each a due ticket
  of its own restaurant of which no newer revision exists, as its slip; each is leased for a
  minute and its attempt is counted.\<close>

theorem claim_hands_out_current:
  assumes "claim_tickets locked tid now limit d = Inr (ts, d')" and "distinct (map ev_id (outbox d))"
  shows "length ts \<le> 10 \<and> distinct (map tk_id ts) \<and>
    (\<forall>t \<in> set ts. \<exists>e \<in> set (outbox d). claimable tid now e \<and> \<not> locked (ev_id e) \<and>
       tk_id t = ev_id e \<and> tk_slip t = slip (ev_payload e) \<and> tk_attempt t = Suc (attempts e) \<and>
       (\<forall>x \<in> set (outbox d). same_order e x \<longrightarrow> revision_of x \<le> max 0 (revision_of e)) \<and>
       lease now e \<in> set (outbox d'))"
  by (rule claimed_current [OF assms])

text \<open>A leased ticket is not handed out again before the minute is over, to whichever bridge asks:
  two pickups within a minute never hold the same ticket.\<close>

theorem lease_holds:
  assumes "claim_tickets locked tid now limit d = Inr (ts, d1)" and "distinct (map ev_id (outbox d))"
    and "claim_tickets locked' tid' now' limit' d1 = Inr (ts', d2)"
    and "now' < now + LEASE_SECONDS * SECOND"
  shows "tk_id ` set ts \<inter> tk_id ` set ts' = {}"
proof -
  let ?rows = "claim_rows locked tid now limit d"
  obtain z where ts: "ts = map (\<lambda>e. hand_out z (strftime_hm (astimezone z now)) (lease now e))
       (filter (is_current d) ?rows)"
    and out: "outbox d1 = map (\<lambda>x. if x \<in> set ?rows then claimed d now x x else x) (outbox d)"
    by (rule claim_tickets_form [OF assms(1,2)]) blast
  have ids: "map ev_id (outbox d1) = map ev_id (outbox d)" by (simp add: out)
  then have dist: "distinct (map ev_id (outbox d1))" using assms(2) by simp
  have False if i: "i \<in> tk_id ` set ts" "i \<in> tk_id ` set ts'" for i
  proof -
    obtain e where e: "e \<in> set ?rows" "is_current d e" "ev_id e = i" using i(1) ts by (auto simp: hand_out_def)
    have "e \<in> set (outbox d)" using claim_rows_mem [OF e(1)] by simp
    then have l: "lease now e \<in> set (outbox d1)" unfolding out using e by (force simp: claimed_def)
    obtain x where x: "x \<in> set (outbox d1)" "claimable tid' now' x" "ev_id x = i"
      using claimed_current [OF assms(3) dist] i(2) by fastforce
    have "x = lease now e" using rows_of_id [OF dist l x(1)] e x by simp
    then show False using x(2) assms(4) by (simp add: claimable_def)
  qed
  then show ?thesis by blast
qed

section \<open>Reports\<close>

lemma add_audit_frame [simp, frame_simps]:
  "outbox (add_audit t w a n i p d) = outbox d" "orders (add_audit t w a n i p d) = orders d"
  "next_id (add_audit t w a n i p d) = next_id d" "tx_now (add_audit t w a n i p d) = tx_now d"
  "tenants (add_audit t w a n i p d) = tenants d"
  by (simp_all add: add_audit_def)

lemma set_handover_frame [simp, frame_simps]:
  "outbox (set_handover i st d) = outbox d" "next_id (set_handover i st d) = next_id d"
  "audit (set_handover i st d) = audit d" "tx_now (set_handover i st d) = tx_now d"
  by (simp_all add: set_handover_def set_order_def)

lemma handover_audit_frame [simp, frame_simps]:
  "outbox (handover_audit e r w s d) = outbox d" "orders (handover_audit e r w s d) = orders d"
  "next_id (handover_audit e r w s d) = next_id d" "tx_now (handover_audit e r w s d) = tx_now d"
  by (simp_all add: handover_audit_def)

lemma to_sent_outbox [simp]: "outbox (to_sent e d) = outbox d" "next_id (to_sent e d) = next_id d"
  by (simp_all add: to_sent_def split: option.split)

text \<open>A red card adds at most its alarm to the outbox, and that is no ticket.\<close>

lemma to_red_outbox:
  "\<exists>new. outbox (to_red e reason d) = outbox d @ new \<and> (\<forall>x \<in> set new. event_type x \<notin> set KITCHEN) \<and>
     map ev_id new = [next_id d..<next_id (to_red e reason d)] \<and> next_id d \<le> next_id (to_red e reason d)"
  by (auto simp: to_red_def Let_def new_event_def split: option.split)

definition ack_find :: "uuid \<Rightarrow> uuid \<Rightarrow> outbox_event list \<Rightarrow> outbox_event option" where
  "ack_find tid eid = find (\<lambda>e. ev_id e = eid \<and> ev_tenant_id e = tid \<and> event_type e \<in> set KITCHEN)"

lemma ack_find_after:
  assumes "ack_find tid eid (outbox d) = Some e"
    and "outbox d' = outbox (set_event eid f d) @ new" and "\<And>x. ev_id (f x) = ev_id x"
    and "\<And>x. ev_tenant_id (f x) = ev_tenant_id x" and "\<And>x. event_type (f x) = event_type x"
  shows "ack_find tid eid (outbox d') = Some (f e)"
proof -
  have "ev_id e = eid" using assms(1) by (auto simp: ack_find_def dest: find_SomeD)
  have "ack_find tid eid (upd_rows (\<lambda>x. ev_id x = eid) f (outbox d)) =
      map_option (\<lambda>x. if ev_id x = eid then f x else x) (ack_find tid eid (outbox d))"
    unfolding ack_find_def by (rule find_upd_rows) (simp add: assms(3-5))
  then have "ack_find tid eid (upd_rows (\<lambda>x. ev_id x = eid) f (outbox d)) = Some (f e)"
    using assms(1) \<open>ev_id e = eid\<close> by simp
  then show ?thesis unfolding assms(2) by (simp add: ack_find_def find_append_new set_event_def)
qed

lemma ack_ticket_def':
  "ack_ticket tid eid ok now err d =
     (case ack_find tid eid (outbox d) of None \<Rightarrow> raise_err NotFound None
      | Some e \<Rightarrow>
          if ev_status e \<noteq> PENDING then Inr (ev_status e, d)
          else if ok then Inr (SENT, to_sent e (set_event eid (mark_sent now False) d))
          else Inr (ev_status (snd (mark_attempt_failed (ack_reason err) now False e)),
                 to_red e (ack_reason err) (set_event eid (\<lambda>e. snd (mark_attempt_failed (ack_reason err) now False e)) d)))"
  unfolding ack_ticket_def ack_find_def Let_def by simp

text \<open>The answer is the state the row now has.\<close>

lemma ack_ticket_row:
  assumes "ack_ticket tid eid ok now err d = Inr (st, d')"
  shows "\<exists>e. ack_find tid eid (outbox d') = Some e \<and> ev_status e = st"
proof -
  obtain e where e: "ack_find tid eid (outbox d) = Some e"
    using assms by (auto simp: ack_ticket_def' raise_err_def split: option.splits)
  consider "ev_status e \<noteq> PENDING" | "ev_status e = PENDING" ok | "ev_status e = PENDING" "\<not> ok" by blast
  then show ?thesis
  proof cases
    case 1
    then show ?thesis using assms e by (auto simp: ack_ticket_def')
  next
    case 2
    then have r: "st = SENT" "d' = to_sent e (set_event eid (mark_sent now False) d)"
      using assms e by (auto simp: ack_ticket_def')
    have "ack_find tid eid (outbox d') = Some (mark_sent now False e)"
      by (rule ack_find_after [OF e, where new = "[]"]) (simp_all add: r)
    then show ?thesis by (simp add: r)
  next
    case 3
    let ?f = "\<lambda>e. snd (mark_attempt_failed (ack_reason err) now False e)"
    have r: "st = ev_status (?f e)" "d' = to_red e (ack_reason err) (set_event eid ?f d)"
      using 3 assms e by (auto simp: ack_ticket_def')
    obtain new where "outbox d' = outbox (set_event eid ?f d) @ new"
      using to_red_outbox [of e "ack_reason err" "set_event eid ?f d"] r(2) by blast
    then have "ack_find tid eid (outbox d') = Some (?f e)"
      by (rule ack_find_after [OF e]) simp_all
    then show ?thesis by (simp add: r)
  qed
qed

text \<open>Once a ticket is reported as printed or given up, every further report, good or bad and
  whenever it comes, reads the same state and changes nothing.\<close>

theorem ack_repeated:
  assumes "ack_ticket tid eid ok now err d = Inr (st, d')" and "st \<noteq> PENDING"
  shows "ack_ticket tid eid ok' now' err' d' = Inr (st, d')"
  using ack_ticket_row [OF assms(1)] assms(2) by (auto simp: ack_ticket_def')

lemma ack_ok_final: "ack_ticket tid eid True now err d = Inr (st, d') \<Longrightarrow> st \<noteq> PENDING"
  by (auto simp: ack_ticket_def' raise_err_def split: option.splits if_splits)

interpretation good_report: replayable "ack_ticket tid eid True now err" for tid eid now err
proof
  fix d st d'
  assume a: "ack_ticket tid eid True now err d = Inr (st, d')"
  from ack_ok_final [OF a] ack_ticket_row [OF a] show "ack_ticket tid eid True now err d' = Inr (st, d')"
    by (auto simp: ack_ticket_def')
qed


section \<open>The card follows the newest revision\<close>

lemma get_order_set_handover:
  assumes "get_order d i = Some r"
  shows "get_order (set_handover j st d) i = Some (if i = j then r\<lparr>handover_state := st\<rparr> else r)"
proof -
  have "find (\<lambda>r. o_id r = i) (upd_rows (\<lambda>r. o_id r = j) (\<lambda>r. r\<lparr>handover_state := st\<rparr>) (orders d)) =
      map_option (\<lambda>r. if o_id r = j then r\<lparr>handover_state := st\<rparr> else r) (find (\<lambda>r. o_id r = i) (orders d))"
    by (rule find_upd_rows) simp
  moreover have "o_id r = i" using assms by (auto simp: get_order_def dest: find_SomeD)
  ultimately show ?thesis using assms by (auto simp: get_order_def set_handover_def set_order_def)
qed

lemma get_order_set_handover_None:
  "get_order d i = None \<Longrightarrow> get_order (set_handover j st d) i = None"
  by (auto simp: get_order_def set_handover_def set_order_def set_upd_rows find_None_iff)

lemma get_order_cong: "orders d' = orders d \<Longrightarrow> get_order d' i = get_order d i"
  by (simp add: get_order_def)

lemma orders_to_red:
  "orders (to_red e reason d) =
     (case order_of_event d e of
        Some r \<Rightarrow> if is_current d e \<and> handover_state r = Some PENDING
                 then orders (set_handover (o_id r) (Some FAILED) d) else orders d
      | None \<Rightarrow> orders d)"
  by (simp add: to_red_def Let_def split: option.split)

lemma orders_to_sent:
  "orders (to_sent e d) =
     (case order_of_event d e of
        Some r \<Rightarrow> if is_current d e \<and> handover_state r \<in> {Some PENDING, Some FAILED}
                 then orders (set_handover (o_id r) (Some SENT) d) else orders d
      | None \<Rightarrow> orders d)"
  by (simp add: to_sent_def split: option.split)

lemma order_of_event_cong:
  "orders d' = orders d \<Longrightarrow> ticket_view e' = ticket_view e \<Longrightarrow> order_of_event d' e' = order_of_event d e"
  by (simp add: order_of_event_def ticket_view_def cong: option.case_cong json.case_cong)

lemma order_of_event_id:
  "order_of_event d e = Some r \<Longrightarrow> jget ''order_id'' (ev_payload e) = Some (JId (o_id r)) \<and> r \<in> set (orders d)"
  by (auto simp: order_of_event_def dest: find_SomeD split: option.splits json.splits)

lemma mark_view [simp]: "ticket_view (mark_sent now c e) = ticket_view e"
  "ticket_view (snd (mark_attempt_failed err now c e)) = ticket_view e"
  by (simp_all add: ticket_view_def)

text \<open>C25. A report moves a card only when no newer slip of the order exists, and only to what was
  reported: green by a printed slip, red by a failed one. A slip that was overtaken never turns
  the card of the order the kitchen is cooking.\<close>

theorem card_follows_newest:
  assumes "ack_ticket tid eid ok now err d = Inr (st, d')" and "get_order d' i \<noteq> get_order d i"
  shows "\<exists>e r. e \<in> set (outbox d) \<and> ev_id e = eid \<and> is_current d e \<and>
    jget ''order_id'' (ev_payload e) = Some (JId i) \<and> get_order d i = Some r \<and>
    get_order d' i = Some (r\<lparr>handover_state := (if ok then Some SENT else Some FAILED)\<rparr>)"
proof -
  obtain e where e: "ack_find tid eid (outbox d) = Some e" and p: "ev_status e = PENDING"
    using assms by (auto simp: ack_ticket_def' raise_err_def split: option.splits if_splits)
  let ?f = "if ok then mark_sent now False else (\<lambda>e. snd (mark_attempt_failed (ack_reason err) now False e))"
  let ?d = "set_event eid ?f d"
  have d': "orders d' = orders (if ok then to_sent e ?d else to_red e (ack_reason err) ?d)"
    using assms(1) e p by (auto simp: ack_ticket_def')
  have mem: "e \<in> set (outbox d)" "ev_id e = eid" using e by (auto simp: ack_find_def dest: find_SomeD)
  have cur: "is_current ?d e = is_current d e"
    by (rule current_cong, rule kitchen_view_set_event) simp
  have oe: "order_of_event ?d e = order_of_event d e" by (rule order_of_event_cong) simp_all
  define new where "new = (if ok then SENT else FAILED)"
  obtain r where r: "order_of_event d e = Some r" and c: "is_current d e"
    and o: "orders d' = orders (set_handover (o_id r) (Some new) ?d)"
  proof (cases "order_of_event d e")
    case None
    then have "orders d' = orders d" using d' oe by (auto simp: orders_to_red orders_to_sent)
    then show thesis using assms(2) by (simp add: get_order_def)
  next
    case (Some r)
    show thesis
    proof (cases "is_current d e \<and> orders d' = orders (set_handover (o_id r) (Some new) ?d)")
      case True
      then show thesis using Some that by blast
    next
      case False
      then have "orders d' = orders d"
        using d' oe cur Some by (auto simp: orders_to_red orders_to_sent new_def split: if_splits)
      then show thesis using assms(2) by (simp add: get_order_def)
    qed
  qed
  have g: "get_order d' i = get_order (set_handover (o_id r) (Some new) ?d) i" by (rule get_order_cong [OF o])
  have gd: "get_order ?d i = get_order d i" by (rule get_order_cong) simp
  obtain r' where r': "get_order d i = Some r'"
    using assms(2) g gd get_order_set_handover_None by (cases "get_order d i") auto
  then have g': "get_order d' i = Some (if i = o_id r then r'\<lparr>handover_state := Some new\<rparr> else r')"
    unfolding g by (intro get_order_set_handover) (simp add: gd)
  then have "i = o_id r" using assms(2) r' by (auto split: if_splits)
  then show ?thesis
    using g' r' mem c order_of_event_id [OF r] by (auto simp: new_def intro!: exI [of _ e] exI [of _ r'])
qed


section \<open>The watchdog leaves no card green\<close>

lemma event_find_id: "find (\<lambda>e. ev_id e = i) es = Some e \<Longrightarrow> ev_id e = i \<and> e \<in> set es"
  by (auto dest: find_SomeD)

text \<open>One step of the watchdog on one event: what it does to the outbox and to the cards.\<close>

definition card_of :: "db \<Rightarrow> uuid \<Rightarrow> delivery_state option option" where
  "card_of d i = map_option handover_state (get_order d i)"

definition only_reddens :: "db \<Rightarrow> db \<Rightarrow> bool" where
  "only_reddens d d' \<longleftrightarrow>
     map (\<lambda>r. (o_id r, o_tenant_id r)) (orders d') = map (\<lambda>r. (o_id r, o_tenant_id r)) (orders d) \<and>
     (\<forall>i. card_of d' i = card_of d i \<or> card_of d i = Some (Some PENDING) \<and> card_of d' i = Some (Some FAILED))"

lemma only_reddens_refl: "orders d' = orders d \<Longrightarrow> only_reddens d d'"
  by (simp add: only_reddens_def card_of_def get_order_def)

lemma only_reddens_trans: "only_reddens a b \<Longrightarrow> only_reddens b c \<Longrightarrow> only_reddens a c"
  unfolding only_reddens_def by (metis option.inject delivery_state.distinct(3))

lemma only_reddens_set:
  assumes "card_of d i = Some (Some PENDING)"
  shows "only_reddens d (set_handover i (Some FAILED) d)"
proof -
  have "card_of (set_handover i (Some FAILED) d) j =
      (if j = i then Some (Some FAILED) else card_of d j)" for j
  proof (cases "get_order d j")
    case None
    then show ?thesis using assms get_order_set_handover_None [OF None] by (auto simp: card_of_def)
  next
    case (Some r)
    then show ?thesis using get_order_set_handover [OF Some] by (simp add: card_of_def)
  qed
  moreover have "map (\<lambda>r. (o_id r, o_tenant_id r)) (orders (set_handover i (Some FAILED) d)) =
      map (\<lambda>r. (o_id r, o_tenant_id r)) (orders d)"
    by (simp add: set_handover_def set_order_def map_upd_rows)
  ultimately show ?thesis using assms unfolding only_reddens_def by simp
qed

lemma order_of_event_get:
  assumes "distinct (map o_id (orders d))" and "order_of_event d e = Some r"
  shows "get_order d (o_id r) = Some r"
  using distinct_key_find [OF assms(1)] order_of_event_id [OF assms(2)] by (simp add: get_order_def)

lemma to_red_cards:
  assumes "distinct (map o_id (orders d))"
  shows "only_reddens d (to_red e reason d)"
    and "order_of_event d e = Some r \<Longrightarrow> is_current d e \<Longrightarrow> handover_state r = Some PENDING \<Longrightarrow>
      card_of (to_red e reason d) (o_id r) = Some (Some FAILED)"
proof -
  show "only_reddens d (to_red e reason d)"
  proof (cases "\<exists>r. order_of_event d e = Some r \<and> is_current d e \<and> handover_state r = Some PENDING")
    case True
    then obtain r where r: "order_of_event d e = Some r" "is_current d e" "handover_state r = Some PENDING"
      by blast
    have "card_of d (o_id r) = Some (Some PENDING)"
      using order_of_event_get [OF assms r(1)] r(3) by (simp add: card_of_def)
    from only_reddens_set [OF this]
    have "only_reddens d (set_handover (o_id r) (Some FAILED) d)" .
    moreover have "orders (to_red e reason d) = orders (set_handover (o_id r) (Some FAILED) d)"
      using r by (simp add: orders_to_red)
    ultimately show ?thesis using only_reddens_refl only_reddens_trans by blast
  next
    case False
    then have "orders (to_red e reason d) = orders d" by (auto simp: orders_to_red split: option.split)
    then show ?thesis by (rule only_reddens_refl)
  qed
  show "order_of_event d e = Some r \<Longrightarrow> is_current d e \<Longrightarrow> handover_state r = Some PENDING \<Longrightarrow>
      card_of (to_red e reason d) (o_id r) = Some (Some FAILED)"
  proof -
    assume r: "order_of_event d e = Some r" "is_current d e" "handover_state r = Some PENDING"
    have "get_order (to_red e reason d) (o_id r) = get_order (set_handover (o_id r) (Some FAILED) d) (o_id r)"
      using r by (intro get_order_cong) (simp add: orders_to_red)
    then show "card_of (to_red e reason d) (o_id r) = Some (Some FAILED)"
      using get_order_set_handover [OF order_of_event_get [OF assms r(1)]] by (simp add: card_of_def)
  qed
qed

text \<open>What the loop of the watchdog keeps: the view of the kitchen, the rows still to come, the keys.\<close>

definition sweep_keeps :: "uuid \<Rightarrow> db \<Rightarrow> db \<Rightarrow> bool" where
  "sweep_keeps eid d d' \<longleftrightarrow> kitchen_view d' = kitchen_view d \<and> only_reddens d d' \<and>
     (\<forall>i e. i \<noteq> eid \<and> find (\<lambda>e. ev_id e = i) (outbox d) = Some e \<longrightarrow>
            find (\<lambda>e. ev_id e = i) (outbox d') = Some e)"

lemma find_other_upd:
  assumes "i \<noteq> eid" and "\<And>x. ev_id (f x) = ev_id x" and "find (\<lambda>e. ev_id e = i) es = Some e"
  shows "find (\<lambda>e. ev_id e = i) (upd_rows (\<lambda>x. ev_id x = eid) f es @ new) = Some e"
proof -
  have "find (\<lambda>e. ev_id e = i) (upd_rows (\<lambda>x. ev_id x = eid) f es) =
      map_option (\<lambda>x. if ev_id x = eid then f x else x) (find (\<lambda>e. ev_id e = i) es)"
    by (rule find_upd_rows) (simp add: assms(2))
  then show ?thesis using assms(1,3) event_find_id [OF assms(3)] by (simp add: find_append_new)
qed

lemma sweep_keeps_refl: "sweep_keeps i d d"
  by (simp add: sweep_keeps_def only_reddens_refl)

lemma sweep_keeps_event:
  assumes "\<And>x. ev_id (f x) = ev_id x" and "\<And>x. ticket_view (f x) = ticket_view x"
  shows "sweep_keeps eid d (set_event eid f d)"
  unfolding sweep_keeps_def
proof (intro conjI allI impI)
  show "kitchen_view (set_event eid f d) = kitchen_view d" by (rule kitchen_view_set_event) (rule assms(2))
  show "only_reddens d (set_event eid f d)" by (rule only_reddens_refl) simp
  show "find (\<lambda>e. ev_id e = i) (outbox (set_event eid f d)) = Some e"
    if "i \<noteq> eid \<and> find (\<lambda>e. ev_id e = i) (outbox d) = Some e" for i e
    using find_other_upd [where new = "[]" and f = f, OF _ assms(1)] that by (simp add: set_event_def)
qed

lemma sweep_keeps_red:
  assumes "distinct (map o_id (orders d))"
  shows "sweep_keeps eid d (to_red e reason d)"
proof -
  obtain new where new: "outbox (to_red e reason d) = outbox d @ new"
    and nk: "\<forall>x \<in> set new. event_type x \<notin> set KITCHEN" using to_red_outbox by blast
  have "filter (\<lambda>e. event_type e \<in> set KITCHEN) new = []" using nk by (simp add: filter_empty_conv)
  then have "kitchen_view (to_red e reason d) = kitchen_view d" by (simp add: kitchen_view_def new)
  then show ?thesis
    using to_red_cards(1) [OF assms] by (simp add: sweep_keeps_def new find_append_new)
qed

lemma sweep_keeps_trans: "sweep_keeps i a b \<Longrightarrow> sweep_keeps i b c \<Longrightarrow> sweep_keeps i a c"
  unfolding sweep_keeps_def using only_reddens_trans by auto

lemma reddens_distinct:
  assumes "only_reddens d d'" and "distinct (map o_id (orders d))"
  shows "distinct (map o_id (orders d'))"
proof -
  have "map o_id (orders x) = map fst (map (\<lambda>r. (o_id r, o_tenant_id r)) (orders x))" for x by simp
  then show ?thesis using assms unfolding only_reddens_def by metis
qed

lemma reddens_order:
  assumes "only_reddens d d'" and "distinct (map o_id (orders d))" and "order_of_event d e = Some r"
  shows "\<exists>r'. order_of_event d' e = Some r' \<and> o_id r' = o_id r \<and> card_of d' (o_id r) = Some (handover_state r')"
proof -
  have i: "jget ''order_id'' (ev_payload e) = Some (JId (o_id r))" "r \<in> set (orders d)"
    using order_of_event_id [OF assms(3)] by simp_all
  have t: "o_tenant_id r = ev_tenant_id e"
    using assms(3) i(1) by (auto simp: order_of_event_def dest: find_SomeD)
  have "(o_id r, o_tenant_id r) \<in> set (map (\<lambda>r. (o_id r, o_tenant_id r)) (orders d))" using i(2) by simp
  also have "\<dots> = set (map (\<lambda>r. (o_id r, o_tenant_id r)) (orders d'))"
    using assms(1) by (simp add: only_reddens_def)
  finally have "order_of_event d' e \<noteq> None" by (auto simp: order_of_event_def i(1) t find_None_iff)
  then obtain r' where r': "order_of_event d' e = Some r'" by blast
  then have "o_id r' = o_id r" using order_of_event_id [OF r'] i(1) by simp
  then show ?thesis
    using r' order_of_event_get [OF reddens_distinct [OF assms(1,2)] r'] by (auto simp: card_of_def)
qed

lemma sweep_event_keeps:
  assumes "distinct (map o_id (orders d))"
  shows "sweep_keeps eid d (snd (sweep_event locked now eid (n, d)))"
proof (cases "find (\<lambda>e. ev_id e = eid) (outbox d)")
  case None
  then show ?thesis by (simp add: sweep_event_def sweep_keeps_refl)
next
  case (Some e)
  let ?d1 = "if attempts e \<ge> MAX_ATTEMPTS then set_event eid (\<lambda>x. x\<lparr>ev_status := FAILED\<rparr>) d else d"
  have 1: "sweep_keeps eid d ?d1"
    using sweep_keeps_event [of "\<lambda>x. x\<lparr>ev_status := FAILED\<rparr>"] by (simp add: sweep_keeps_refl ticket_view_def)
  have "distinct (map o_id (orders ?d1))" using assms by simp
  from sweep_keeps_trans [OF 1 sweep_keeps_red [OF this]]
  have 2: "sweep_keeps eid d (to_red e (sweep_reason e) ?d1)" .
  have 3: "sweep_keeps eid d (set_event eid (supersede m now) d)" for m
    by (rule sweep_keeps_event) simp_all
  show ?thesis
    using Some 2 3 sweep_keeps_refl by (simp add: sweep_event_def Let_def)
qed

text \<open>A stale ticket of the newest revision whose card is green turns it red.\<close>

lemma sweep_event_reddens:
  assumes "distinct (map o_id (orders d))" and "find (\<lambda>e. ev_id e = eid) (outbox d) = Some e"
    and "stale now e" and "is_current d e" and "order_of_event d e = Some r" and "\<not> locked eid"
    and "handover_state r = Some PENDING \<or> handover_state r = Some FAILED"
  shows "card_of (snd (sweep_event locked now eid (n, d))) (o_id r) = Some (Some FAILED)"
proof -
  let ?d1 = "if attempts e \<ge> MAX_ATTEMPTS then set_event eid (\<lambda>x. x\<lparr>ev_status := FAILED\<rparr>) d else d"
  have eq: "snd (sweep_event locked now eid (n, d)) = to_red e (sweep_reason e) ?d1"
    using assms(2,3,4,6) by (simp add: sweep_event_def Let_def is_current_def)
  have o: "orders ?d1 = orders d" by simp
  have c: "is_current ?d1 e" using assms(4)
    by (simp add: current_cong [OF kitchen_view_set_event] ticket_view_def)
  have r: "order_of_event ?d1 e = Some r" using assms(5) order_of_event_cong [OF o] by simp
  have d: "distinct (map o_id (orders ?d1))" using assms(1) by simp
  show ?thesis
  proof (cases "handover_state r = Some PENDING")
    case True
    show ?thesis unfolding eq by (rule to_red_cards(2) [OF d r c True])
  next
    case False
    then have "card_of ?d1 (o_id r) = Some (Some FAILED)"
      using assms(7) order_of_event_get [OF d r] by (simp add: card_of_def)
    then show ?thesis unfolding eq using to_red_cards(1) [OF d, of e "sweep_reason e"]
      unfolding only_reddens_def by (metis delivery_state.distinct(3) option.inject)
  qed
qed


lemma sweep_fold_keeps:
  assumes "distinct (map o_id (orders d))" and "eid \<notin> set eids"
    and "find (\<lambda>e. ev_id e = eid) (outbox d) = Some e"
  shows "kitchen_view (snd (fold (sweep_event locked now) eids (n, d))) = kitchen_view d \<and>
    only_reddens d (snd (fold (sweep_event locked now) eids (n, d))) \<and>
    find (\<lambda>e. ev_id e = eid) (outbox (snd (fold (sweep_event locked now) eids (n, d)))) = Some e"
  using assms
proof (induction eids arbitrary: n d)
  case Nil
  then show ?case by (simp add: only_reddens_refl)
next
  case (Cons i eids)
  obtain m d1 where s: "sweep_event locked now i (n, d) = (m, d1)" by force
  have k: "sweep_keeps i d d1" using sweep_event_keeps [OF Cons.prems(1), of i locked now n] s by simp
  then have 1: "distinct (map o_id (orders d1))" "only_reddens d d1" "kitchen_view d1 = kitchen_view d"
    "find (\<lambda>e. ev_id e = eid) (outbox d1) = Some e"
    using reddens_distinct Cons.prems by (auto simp: sweep_keeps_def)
  show ?case
    using Cons.IH [OF 1(1) _ 1(4), of m] Cons.prems(2) 1 only_reddens_trans by (auto simp: s)
qed

text \<open>C22. No order stays green while the kitchen does not have it: after a run of the watchdog the
  card of every order is red that was still pending and whose newest ticket lay due for a minute,
  unless another worker holds the row of that ticket at this moment. (A card that says printed or
  cancelled by then is left as it is, and a row that is held is left to its holder.)\<close>

theorem sweep_reddens:
  assumes "distinct (map ev_id (outbox d))" and "distinct (map o_id (orders d))"
    and "e \<in> set (outbox d)" and "stale now e" and "is_current d e"
    and "order_of_event d e = Some r" and "handover_state r = Some PENDING" and "\<not> locked (ev_id e)"
  shows "map_option handover_state (get_order (snd (sweep locked now d)) (o_id r)) = Some (Some FAILED)"
proof -
  let ?run = "\<lambda>eids s. fold (sweep_event locked now) eids s"
  have f: "find (\<lambda>x. ev_id x = ev_id e) (outbox d) = Some e" by (rule distinct_key_find [OF assms(1,3)])
  have "ev_id e \<in> set (sweep_candidates now d)"
    using assms(3,4,7) order_of_event_id [OF assms(6)]
    by (auto simp: sweep_candidates_def list_ex_iff intro!: imageI)
  then obtain xs ys where split: "sweep_candidates now d = xs @ ev_id e # ys" and x: "ev_id e \<notin> set xs"
    by (meson split_list_first)
  obtain n1 d1 where 1: "?run xs (0, d) = (n1, d1)" by force
  from sweep_fold_keeps [OF assms(2) x f, of locked now 0]
  have k: "kitchen_view d1 = kitchen_view d" "only_reddens d d1"
    "find (\<lambda>x. ev_id x = ev_id e) (outbox d1) = Some e" by (simp_all add: 1)
  obtain r1 where r1: "order_of_event d1 e = Some r1" "o_id r1 = o_id r"
    "card_of d1 (o_id r) = Some (handover_state r1)"
    using reddens_order [OF k(2) assms(2,6)] by blast
  have "card_of d (o_id r) = Some (Some PENDING)"
    using order_of_event_get [OF assms(2,6)] assms(7) by (simp add: card_of_def)
  then have h: "handover_state r1 = Some PENDING \<or> handover_state r1 = Some FAILED"
    using k(2) r1(3) unfolding only_reddens_def by (metis option.inject)
  note dist1 = reddens_distinct [OF k(2) assms(2)]
  obtain n2 d2 where 2: "sweep_event locked now (ev_id e) (n1, d1) = (n2, d2)" by force
  have c2: "card_of d2 (o_id r) = Some (Some FAILED)"
    using sweep_event_reddens [where locked = locked and n = n1, OF dist1 k(3) assms(4) _ r1(1) assms(8) h]
      current_cong [OF k(1)] assms(5) r1(2) by (simp add: 2)
  have "sweep_keeps (ev_id e) d1 d2" using sweep_event_keeps [OF dist1, of "ev_id e" locked now n1] 2 by simp
  then have "only_reddens d1 d2" by (simp add: sweep_keeps_def)
  note dist2 = reddens_distinct [OF this dist1]
  have "only_reddens d' (snd (?run zs (n, d')))" if "distinct (map o_id (orders d'))" for zs n d'
    using that
  proof (induction zs arbitrary: n d')
    case Nil
    then show ?case by (simp add: only_reddens_refl)
  next
    case (Cons i zs)
    obtain m d3 where s: "sweep_event locked now i (n, d') = (m, d3)" by force
    have o: "only_reddens d' d3"
      using sweep_event_keeps [OF Cons.prems, of i locked now n] s by (simp add: sweep_keeps_def)
    show ?case
      using Cons.IH [OF reddens_distinct [OF o Cons.prems], of m] only_reddens_trans [OF o] by (simp add: s)
  qed
  from this [OF dist2, of ys n2] have "card_of (snd (?run ys (n2, d2))) (o_id r) = Some (Some FAILED)"
    using c2 unfolding only_reddens_def by (metis delivery_state.distinct(3) option.inject)
  then show ?thesis by (simp add: sweep_def split 1 2 card_of_def)
qed

end
