(* ===== verification/Correction.thy ===== *)
theory Correction
  imports Ordering Kitchen "HOL-Library.Product_Lexorder"
begin

text \<open>
  The correction of a confirmed order on the tablet (\<open>api/domain/ordering/correction.py\<close>) and the
  default address that may move with it (\<open>settle_default\<close> of \<open>board.py\<close>). Preview and saving
  compute with the same plan; what is saved is read off the rows.
\<close>

section \<open>What the tablet sends\<close>

definition REASONS :: "(str \<times> str) list" where
  "REASONS = [(''wrong_item'', ''falsches Gericht''), (''wrong_quantity'', ''falsche Menge''),
     (''wrong_address'', ''falsche Adresse''), (''other'', ''Sonstiges'')]"
definition DELIVERY_ONLY :: "str list" where "DELIVERY_ONLY = [''wrong_address'']"
definition EDITABLE :: "order_status list" where "EDITABLE = [OConfirmed, OApproved]"

definition NO_CHANGE :: str where "NO_CHANGE = ''Noch nichts ge'' @ [ae] @ ''ndert.''"
definition NO_POSITION :: str where
  "NO_POSITION = ''Mindestens ein Gericht muss bleiben. Eine leere Bestellung ist eine Stornierung.''"
definition MISSING_OPTION :: "str \<Rightarrow> str \<Rightarrow> str \<Rightarrow> str" where
  "MISSING_OPTION number name groups = ''Bei '' @ number @ '' '' @ name @ '' fehlt noch: '' @ groups @ ''.''"
definition STALE :: str where
  "STALE = ''Die Bestellung wurde inzwischen ge'' @ [ae] @ ''ndert. Bitte nochmal pr'' @ [ue] @ ''fen.''"
definition NOTE_KEPT :: str where
  "NOTE_KEPT = ''Position mit Hinweis: bitte Tauschen statt Entfernen, oder den Hinweis ausdr'' @ [ue] @
     ''cklich streichen.''"
definition ADDRESS_INCOMPLETE :: str where
  "ADDRESS_INCOMPLETE = ''F'' @ [ue] @ ''r die neue Adresse fehlen noch Angaben: Stra'' @ [sz] @
     ''e, Hausnummer, Postleitzahl und Ort.''"
definition ADDRESS_TOO_LONG :: str where "ADDRESS_TOO_LONG = ''Die neue Adresse ist zu lang.''"
definition ADDRESS_POSTAL_CODE :: "str \<Rightarrow> str" where
  "ADDRESS_POSTAL_CODE code = ''Postleitzahl '' @ code @ '' gibt es so nicht: bitte f'' @ [ue] @ ''nf Ziffern.''"
definition ADDRESS_OUT_OF_ZONE :: "str \<Rightarrow> str" where
  "ADDRESS_OUT_OF_ZONE code = ''Dorthin liefern wir nicht: '' @ code @ '' liegt in keinem Liefergebiet.''"
definition ADDRESS_TWO_ZONES :: "str \<Rightarrow> str" where
  "ADDRESS_TWO_ZONES code = ''Postleitzahl '' @ code @
     '' steht in mehreren Liefergebieten: bitte die Liefergebiete pr'' @ [ue] @ ''fen.''"
definition ADDRESS_NO_CUSTOMER :: str where
  "ADDRESS_NO_CUSTOMER = ''Die Kundendaten dieser Bestellung sind gel'' @ [oe] @ ''scht: die Adresse l'' @ [ae] @
     ''sst sich nicht '' @ [ae] @ ''ndern.''"

text \<open>The German quotation marks of this sentence lie outside Latin-1; \<open>CHR 0x22\<close> stands for both.\<close>

definition NEW_ADDRESS_NEEDED :: str where
  "NEW_ADDRESS_NEEDED = [CHR 0x22] @ ''Falsche Adresse'' @ [CHR 0x22] @ '' geht nur mit einer neuen Adresse.''"

record row_edit =
  re_order_item_id :: uuid
  re_quantity :: int
  swap_to :: "uuid option"
  re_options :: "option_choice list"
  drop_note :: bool

record add_edit =
  ae_menu_item_id :: uuid
  ae_quantity :: int
  ae_options :: "option_choice list"

record address_edit =
  ed_street :: str
  ed_house_number :: str
  ed_postal_code :: str
  ed_city :: str
  ed_floor_note :: str

record correction_request =
  cr_version :: str
  cr_rows :: "row_edit list"
  cr_added :: "add_edit list"
  cr_edit_id :: str
  cr_address :: "address_edit option"

section \<open>The plan\<close>

datatype line_kind = Kept | Changed | Removed | Swapped | Added

record planned_line =
  pln_kind :: line_kind
  pln_number :: str
  pln_name :: str
  pln_quantity :: int
  pln_unit_price_cents :: cents
  pln_options :: "chosen_option list"
  pln_note :: "str option"
  pln_menu_item_id :: uuid
  pln_groups :: "option_group list"
  pln_missing :: "str list"
  pln_sold_out :: bool
  pln_order_item_id :: "uuid option"

definition pln_cents :: "planned_line \<Rightarrow> cents" where
  "pln_cents l = row_cents (pln_unit_price_cents l) (pln_options l) * pln_quantity l"

record address_plan =
  ap_delivery :: bool
  ap_current :: "address option"
  ap_changed :: bool
  ap_new :: "order_address option"
  ap_zone :: "delivery_check option"
  ap_blocker :: "str option"

record correction_plan =
  cp_order_id :: uuid
  cp_version :: str
  cp_rows :: "planned_line list"
  cp_added :: "planned_line list"
  cp_before_total_cents :: cents
  cp_items_total_cents :: cents
  cp_total_cents :: cents
  cp_changed :: bool
  cp_blockers :: "str list"
  cp_reasons :: "(str \<times> str) list"
  cp_before_fee_cents :: cents
  cp_fee_cents :: cents
  cp_where :: address_plan

text \<open>The fingerprint: \<open>md5\<close> is the hex digest of the text of a JSON value.\<close>

definition version_row :: "order_item \<Rightarrow> json" where
  "version_row r = JList [JId (oi_id r), JId (oi_menu_item_id r), JInt (quantity r),
     JInt (unit_price_cents r), JList (map option_json (oi_options r)), jopt JStr (oi_note r)]"

definition order_version :: "(json \<Rightarrow> str) \<Rightarrow> order_item list \<Rightarrow> order \<Rightarrow> str" where
  "order_version md5 rows r =
     md5 (JList (map version_row rows @
       (if o_address_id r \<noteq> None \<or> delivery_fee_cents r \<noteq> 0
        then [JList [case o_address_id r of None \<Rightarrow> JStr ''None'' | Some a \<Rightarrow> JId a,
                     JInt (delivery_fee_cents r)]]
        else [])))"

text \<open>\<open>_order\<close> and \<open>_rows\<close>\<close>

definition live_order :: "db \<Rightarrow> uuid \<Rightarrow> uuid \<Rightarrow> order option" where
  "live_order d tid oid =
     find (\<lambda>r. o_id r = oid \<and> o_tenant_id r = tid \<and> o_deleted_at r = None) (orders d)"

definition order_rows :: "db \<Rightarrow> order \<Rightarrow> order_item list" where
  "order_rows d r =
     sort_key (\<lambda>x. (oi_created_at x, oi_id x))
       (filter (\<lambda>x. oi_tenant_id x = o_tenant_id r \<and> oi_order_id x = o_id r) (order_items d))"

definition reasons_for :: "order \<Rightarrow> (str \<times> str) list" where
  "reasons_for r =
     (if o_type r = ODelivery then REASONS else filter (\<lambda>kv. fst kv \<notin> set DELIVERY_ONLY) REASONS)"

definition already_saved :: "db \<Rightarrow> order \<Rightarrow> str \<Rightarrow> bool" where
  "already_saved d r edit_id \<longleftrightarrow>
     list_ex (\<lambda>a. au_tenant_id a = o_tenant_id r \<and> jget ''edit_id'' (au_payload a) = Some (JStr edit_id))
       (order_audit d (o_id r) [ACTION_CORRECTED])"

text \<open>A dict of the edits: the last one of a position counts.\<close>

definition edit_of :: "correction_request \<Rightarrow> uuid \<Rightarrow> row_edit option" where
  "edit_of q i = find (\<lambda>e. re_order_item_id e = i) (rev (cr_rows q))"

definition no_edit :: "order_item \<Rightarrow> row_edit" where
  "no_edit r = \<lparr>re_order_item_id = oi_id r, re_quantity = quantity r, swap_to = None, re_options = [],
     drop_note = False\<rparr>"

definition row_edits :: "order_item list \<Rightarrow> correction_request \<Rightarrow> app_error + row_edit list" where
  "row_edits rows q =
     (if \<not> list_all (\<lambda>e. re_order_item_id e \<in> oi_id ` set rows) (cr_rows q)
      then raise_err Conflict (Some STALE)
      else Inr (map (\<lambda>r. case edit_of q (oi_id r) of None \<Rightarrow> no_edit r | Some e \<Rightarrow> e) rows))"

definition has_note :: "order_item \<Rightarrow> bool" where
  "has_note r \<longleftrightarrow> (case oi_note r of None \<Rightarrow> False | Some n \<Rightarrow> n \<noteq> [])"

definition note_lost :: "order_item list \<Rightarrow> row_edit \<Rightarrow> bool" where
  "note_lost rows e \<longleftrightarrow> re_quantity e = 0 \<and>
     list_ex (\<lambda>r. oi_id r = re_order_item_id e \<and> has_note r) rows"

definition check_notes :: "order_item list \<Rightarrow> correction_request \<Rightarrow> app_error + unit" where
  "check_notes rows q =
     (if list_ex (\<lambda>e. note_lost rows e \<and> \<not> drop_note e) (cr_rows q)
      then raise_err InvalidInput (Some NOTE_KEPT) else Inr ())"

definition checked_quantity :: "int \<Rightarrow> bool \<Rightarrow> app_error + int" where
  "checked_quantity v allow_zero =
     (if (if allow_zero then 0 else 1) \<le> v \<and> v \<le> MAX_QUANTITY then Inr v else raise_err InvalidInput None)"

definition menu_for :: "db \<Rightarrow> uuid \<Rightarrow> uuid list \<Rightarrow> app_error + menu_item list" where
  "menu_for d tid ids =
     (let menu = filter (\<lambda>m. m_id m \<in> set ids) (active_items d tid)
      in if list_all (\<lambda>i. i \<in> m_id ` set menu) ids then Inr menu else raise_err InvalidInput None)"

text \<open>\<open>_options\<close>: \<open>picked\<close> is a dict of the chosen ones per group key.\<close>

definition group_by_key :: "option_group list \<Rightarrow> str \<Rightarrow> option_group option" where
  "group_by_key offered k = find (\<lambda>g. option_key (og_group g) = k) (rev offered)"

definition group_keys :: "option_group list \<Rightarrow> str list" where
  "group_keys offered = rev (remdups (rev (map (\<lambda>g. option_key (og_group g)) offered)))"

definition picked_in :: "(str \<times> chosen_option list) list \<Rightarrow> str \<Rightarrow> chosen_option list" where
  "picked_in picked k = (case map_of picked k of None \<Rightarrow> [] | Some cs \<Rightarrow> cs)"

definition pick_option ::
  "option_group list \<Rightarrow> option_choice \<Rightarrow> (str \<times> chosen_option list) list \<Rightarrow>
   app_error + (str \<times> chosen_option list) list" where
  "pick_option offered c picked =
     (case group_by_key offered (option_key (ch_group c)) of
        None \<Rightarrow> raise_err InvalidInput None
      | Some g \<Rightarrow>
          (case find (\<lambda>x. option_key (oo_name x) = option_key (ch_name c)) (og_options g) of
             None \<Rightarrow> raise_err InvalidInput None
           | Some x \<Rightarrow>
               let chosen = picked_in picked (option_key (og_group g)) in
               if list_ex (\<lambda>y. co_option y = oo_name x) chosen then Inr picked
               else if og_required g \<and> chosen \<noteq> [] then raise_err InvalidInput None
               else Inr (AList.update (option_key (og_group g))
                      (chosen @ [\<lparr>co_group = og_group g, co_option = oo_name x,
                                  co_price_delta_cents = oo_price_delta_cents x\<rparr>]) picked)))"

definition options_for ::
  "menu_item \<Rightarrow> option_group list \<Rightarrow> option_choice list \<Rightarrow> app_error + chosen_option list" where
  "options_for item offered choices =
     andthen (fold_res (pick_option offered) choices []) (\<lambda>picked.
       let opts = concat (map (picked_in picked) (group_keys offered))
       in if row_cents (price_cents item) opts < 0 then raise_err InvalidInput None else Inr opts)"

definition new_line ::
  "(uuid \<Rightarrow> option_group list) \<Rightarrow> line_kind \<Rightarrow> menu_item list \<Rightarrow> uuid \<Rightarrow> int \<Rightarrow> option_choice list \<Rightarrow>
   str option \<Rightarrow> instant \<Rightarrow> app_error + planned_line" where
  "new_line groups kind menu item_id qty choices nt now =
     (case find (\<lambda>m. m_id m = item_id) menu of
        None \<Rightarrow> raise_err UncaughtError None
      | Some item \<Rightarrow>
          let offered = groups item_id in
          andthen (options_for item offered choices) (\<lambda>opts.
            let chosen = map (\<lambda>x. option_key (co_group x)) opts
            in Inr \<lparr>pln_kind = kind, pln_number = m_number item, pln_name = m_name item, pln_quantity = qty,
                 pln_unit_price_cents = price_cents item, pln_options = opts, pln_note = nt,
                 pln_menu_item_id = m_id item, pln_groups = offered,
                 pln_missing = map og_group (filter (\<lambda>g. og_required g \<and>
                   option_key (og_group g) \<notin> set chosen) offered),
                 pln_sold_out = is_sold_out item now, pln_order_item_id = None\<rparr>))"

definition choice_keys :: "chosen_option list \<Rightarrow> (str \<times> str) list" where
  "choice_keys os = sort (map (\<lambda>x. (option_key (co_group x), option_key (co_option x))) os)"

definition stored_line :: "line_kind \<Rightarrow> order_item \<Rightarrow> str \<times> str \<Rightarrow> int \<Rightarrow> planned_line" where
  "stored_line kind row label qty =
     \<lparr>pln_kind = kind, pln_number = fst label, pln_name = snd label, pln_quantity = qty,
      pln_unit_price_cents = unit_price_cents row, pln_options = oi_options row, pln_note = oi_note row,
      pln_menu_item_id = oi_menu_item_id row, pln_groups = [], pln_missing = [], pln_sold_out = False,
      pln_order_item_id = None\<rparr>"

definition plan_row ::
  "(uuid \<Rightarrow> option_group list) \<Rightarrow> menu_item list \<Rightarrow> instant \<Rightarrow> order_item \<times> (str \<times> str) \<times> row_edit \<Rightarrow>
   app_error + planned_line" where
  "plan_row groups menu now x = (case x of (row, label, edit) \<Rightarrow>
     andthen (checked_quantity (re_quantity edit) True) (\<lambda>qty.
       let stored = stored_line (if qty \<noteq> quantity row then Changed else Kept) row label qty in
       andthen
         (if qty = 0 then Inr (stored_line Removed row label (quantity row))
          else case swap_to edit of
            None \<Rightarrow> Inr stored
          | Some new \<Rightarrow>
              andthen (new_line groups Swapped menu new qty (re_options edit) (oi_note row) now) (\<lambda>l.
                if new = oi_menu_item_id row
                then if choice_keys (pln_options l) = choice_keys (oi_options row)
                     then Inr (stored\<lparr>pln_groups := pln_groups l\<rparr>)
                     else Inr (l\<lparr>pln_unit_price_cents := unit_price_cents row\<rparr>)
                else Inr l))
         (\<lambda>l. Inr (l\<lparr>pln_order_item_id := Some (oi_id row)\<rparr>))))"

definition plan_added ::
  "(uuid \<Rightarrow> option_group list) \<Rightarrow> menu_item list \<Rightarrow> instant \<Rightarrow> add_edit \<Rightarrow> app_error + planned_line" where
  "plan_added groups menu now a =
     andthen (checked_quantity (ae_quantity a) False) (\<lambda>qty.
       new_line groups Added menu (ae_menu_item_id a) qty (ae_options a) None now)"

text \<open>\<open>_where\<close>\<close>

definition typed_address :: "address_edit \<Rightarrow> order_address" where
  "typed_address e = \<lparr>oa_street = py_strip (ed_street e), oa_house_number = py_strip (ed_house_number e),
     oa_postal_code = py_strip (ed_postal_code e), oa_city = py_strip (ed_city e),
     oa_floor_note = (let n = py_strip (ed_floor_note e) in if n = [] then None else Some n)\<rparr>"

definition address_short :: "order_address \<Rightarrow> bool" where
  "address_short a \<longleftrightarrow> length (oa_street a) \<le> 200 \<and> length (oa_house_number a) \<le> 20 \<and>
     length (oa_postal_code a) \<le> 40 \<and> length (oa_city a) \<le> 200 \<and>
     (case oa_floor_note a of None \<Rightarrow> True | Some n \<Rightarrow> length n \<le> NOTE_MAX)"

definition plan_where ::
  "db \<Rightarrow> order \<Rightarrow> address_edit option \<Rightarrow> instant \<Rightarrow> app_error + address_plan" where
  "plan_where d r edit now =
     (let delivery = (o_type r = ODelivery);
          current = (if delivery then Option.bind (o_address_id r) (get_address d) else None);
          wh = \<lparr>ap_delivery = delivery, ap_current = current, ap_changed = False, ap_new = None,
                ap_zone = None, ap_blocker = None\<rparr>;
          blocked_by = (\<lambda>s. Inr (wh\<lparr>ap_changed := True, ap_blocker := Some s\<rparr>)) in
      case edit of None \<Rightarrow> Inr wh
      | Some e \<Rightarrow>
          if \<not> delivery then raise_err InvalidInput None
          else let said = typed_address e in
            if [] \<in> {oa_street said, oa_house_number said, oa_postal_code said, oa_city said}
            then blocked_by ADDRESS_INCOMPLETE
            else if \<not> address_short said then blocked_by ADDRESS_TOO_LONG
            else if (case current of None \<Rightarrow> False | Some a \<Rightarrow> same_address a said d) then Inr wh
            else let code = postal_digits (oa_postal_code said) in
              if o_customer_id r = None then blocked_by ADDRESS_NO_CUSTOMER
              else (case check_delivery d (o_tenant_id r) code now of
                      Inr zone \<Rightarrow> Inr (wh\<lparr>ap_changed := True, ap_new := Some said, ap_zone := Some zone\<rparr>)
                    | Inl err \<Rightarrow>
                        if err_kind err = OutOfZone then blocked_by (ADDRESS_OUT_OF_ZONE code)
                        else if err_kind err = InvalidInput then blocked_by (ADDRESS_POSTAL_CODE code)
                        else if err_kind err = ServiceUnavailable then blocked_by (ADDRESS_TWO_ZONES code)
                        else Inl err))"

definition remaining :: "planned_line list \<Rightarrow> planned_line list \<Rightarrow> planned_line list" where
  "remaining rows added = filter (\<lambda>l. pln_kind l \<noteq> Removed) rows @ added"

definition plan_blockers :: "bool \<Rightarrow> planned_line list \<Rightarrow> str option \<Rightarrow> str list" where
  "plan_blockers changed left blocker =
     (if \<not> changed then [NO_CHANGE] else []) @ (if left = [] then [NO_POSITION] else []) @
     concat (map (\<lambda>l. if pln_missing l = [] then []
       else [MISSING_OPTION (pln_number l) (pln_name l) (py_join '', '' (pln_missing l))]) left) @
     (case blocker of None \<Rightarrow> [] | Some b \<Rightarrow> [b])"

text \<open>The sums, the change and what blocks it.\<close>

definition finished_plan ::
  "(json \<Rightarrow> str) \<Rightarrow> order \<Rightarrow> order_item list \<Rightarrow> planned_line list \<Rightarrow> planned_line list \<Rightarrow> address_plan \<Rightarrow>
   correction_plan" where
  "finished_plan md5 r rows planned added wh =
     (let left = remaining planned added;
          items_total = sum_list (map pln_cents left);
          fee = (case ap_zone wh of Some z \<Rightarrow> dc_fee_cents z | None \<Rightarrow> delivery_fee_cents r);
          changed = (added \<noteq> [] \<or> list_ex (\<lambda>l. pln_kind l \<noteq> Kept) planned \<or> ap_changed wh)
      in \<lparr>cp_order_id = o_id r, cp_version = order_version md5 rows r, cp_rows = planned, cp_added = added,
          cp_before_total_cents = total_cents r, cp_items_total_cents = items_total,
          cp_total_cents = items_total + fee, cp_changed = changed,
          cp_blockers = plan_blockers changed left (ap_blocker wh), cp_reasons = reasons_for r,
          cp_before_fee_cents = delivery_fee_cents r, cp_fee_cents = fee, cp_where = wh\<rparr>)"

definition plan_correction ::
  "(str \<Rightarrow> int) \<Rightarrow> (json \<Rightarrow> str) \<Rightarrow> db \<Rightarrow> order \<Rightarrow> order_item list \<Rightarrow> correction_request \<Rightarrow> instant \<Rightarrow>
   app_error + correction_plan" where
  "plan_correction coll md5 d r rows q now =
     andthen (row_edits rows q) (\<lambda>edits.
     andthen (labels_for_rows d (o_id r) rows None) (\<lambda>labels.
     andthen (menu_for d (o_tenant_id r)
                (List.map_filter swap_to edits @ map ae_menu_item_id (cr_added q))) (\<lambda>menu.
     let groups = option_groups coll d in
     andthen (map_res (plan_row groups menu now) (zip rows (zip labels edits))) (\<lambda>planned.
     andthen (map_res (plan_added groups menu now) (cr_added q)) (\<lambda>added.
     andthen (plan_where d r (cr_address q) now) (\<lambda>wh.
       Inr (finished_plan md5 r rows planned added wh)))))))"

definition preview_correction ::
  "(str \<Rightarrow> int) \<Rightarrow> (json \<Rightarrow> str) \<Rightarrow> db \<Rightarrow> uuid \<Rightarrow> uuid \<Rightarrow> correction_request option \<Rightarrow> instant \<Rightarrow>
   app_error + correction_plan" where
  "preview_correction coll md5 d tid oid q now =
     (case live_order d tid oid of None \<Rightarrow> raise_err NotFound (Some STALE)
      | Some r \<Rightarrow>
          if o_status r \<notin> set EDITABLE then raise_err Conflict (Some STALE)
          else let rows = order_rows d r; v = order_version md5 rows r in
            (case q of
               None \<Rightarrow> plan_correction coll md5 d r rows \<lparr>cr_version = v, cr_rows = [], cr_added = [],
                 cr_edit_id = [], cr_address = None\<rparr> now
             | Some q \<Rightarrow> if cr_version q \<noteq> v then raise_err Conflict None
                 else plan_correction coll md5 d r rows q now))"

section \<open>board.py: the default address\<close>

definition ACTION_REGISTER_ENTERED :: str where "ACTION_REGISTER_ENTERED = ''order.register_entered''"
definition CLOCK_MARGIN :: int where "CLOCK_MARGIN = HOUR"

definition ever_marked :: "db \<Rightarrow> order \<Rightarrow> bool" where
  "ever_marked d r \<longleftrightarrow> register_entered_at r \<noteq> None \<or>
     list_ex (\<lambda>a. au_tenant_id a = o_tenant_id r \<and> au_at a \<ge> o_created_at r - CLOCK_MARGIN)
       (order_audit d (o_id r) [ACTION_REGISTER_ENTERED])"

definition default_candidates :: "db \<Rightarrow> order \<Rightarrow> order list" where
  "default_candidates d r =
     sort_key (\<lambda>x. (o_created_at x, o_id x)) (filter (\<lambda>x. o_tenant_id x = o_tenant_id r \<and>
       o_customer_id x = o_customer_id r \<and> o_address_id x \<noteq> None \<and> o_status x \<noteq> OCancelled \<and>
       o_deleted_at x = None \<and> ever_marked d x) (orders d))"

definition settle_default :: "order \<Rightarrow> db \<Rightarrow> db" where
  "settle_default r d =
     (if o_customer_id r = None \<or> o_address_id r = None \<or>
         Some (o_phone r) \<noteq> line_of d (o_tenant_id r) (o_call_id r) then d
      else let newest = (case default_candidates d r of [] \<Rightarrow> None | xs \<Rightarrow> o_address_id (last xs));
               cleared = upd_rows (\<lambda>a. Some (a_customer_id a) = o_customer_id r \<and> a_is_default a)
                 (\<lambda>a. a\<lparr>a_is_default := False\<rparr>) (addresses d)
           in d\<lparr>addresses := (case newest of None \<Rightarrow> cleared
                | Some i \<Rightarrow> upd_rows (\<lambda>a. a_id a = i) (\<lambda>a. a\<lparr>a_is_default := True\<rparr>) cleared)\<rparr>)"

definition settle_default_if_marked :: "order \<Rightarrow> db \<Rightarrow> db" where
  "settle_default_if_marked r d =
     (if list_ex (\<lambda>x. o_id x = o_id r \<and> ever_marked d x) (orders d) then settle_default r d else d)"

section \<open>Saving\<close>

definition put_line :: "planned_line \<Rightarrow> order_item \<Rightarrow> order_item" where
  "put_line l x =
     (let x = x\<lparr>quantity := pln_quantity l\<rparr>
      in if pln_kind l = Swapped
         then x\<lparr>oi_menu_item_id := pln_menu_item_id l, unit_price_cents := pln_unit_price_cents l,
                oi_options := pln_options l\<rparr>
         else x)"

definition save_row :: "planned_line \<times> row_edit \<Rightarrow> order_item list \<Rightarrow> order_item list" where
  "save_row le items = (case le of (l, e) \<Rightarrow>
     if pln_kind l = Removed then filter (\<lambda>x. oi_id x \<noteq> re_order_item_id e) items
     else upd_rows (\<lambda>x. oi_id x = re_order_item_id e) (put_line l) items)"

definition added_item :: "order \<Rightarrow> uuid \<Rightarrow> instant \<Rightarrow> nat \<times> planned_line \<Rightarrow> order_item" where
  "added_item r first_id last_at kl = (case kl of (k, l) \<Rightarrow>
     \<lparr>oi_id = first_id + k, oi_tenant_id = o_tenant_id r, oi_order_id = o_id r,
      oi_menu_item_id = pln_menu_item_id l, quantity = pln_quantity l,
      unit_price_cents = pln_unit_price_cents l, oi_options = pln_options l, oi_note = None,
      oi_created_at = last_at + int (Suc k)\<rparr>)"

definition save_lines ::
  "order \<Rightarrow> order_item list \<Rightarrow> row_edit list \<Rightarrow> planned_line list \<Rightarrow> planned_line list \<Rightarrow> db \<Rightarrow> db" where
  "save_lines r rows edits planned added d =
     d\<lparr>order_items := fold save_row (zip planned edits) (order_items d) @
         map (added_item r (next_id d) (max_of (map oi_created_at rows))) (List.enumerate 0 added),
       next_id := next_id d + length added\<rparr>"

text \<open>\<open>_move\<close>\<close>

definition move_order ::
  "order \<Rightarrow> uuid \<Rightarrow> order_address \<Rightarrow> delivery_check \<Rightarrow> db \<Rightarrow> order \<times> db" where
  "move_order r cu said zone d =
     (let (a, d) = address_row (o_tenant_id r) cu said d;
          d = d\<lparr>addresses := upd_rows (\<lambda>x. a_id x = a_id a)
                 (\<lambda>x. x\<lparr>a_zone_id := Some (dc_zone_id zone)\<rparr>) (addresses d)\<rparr>
      in (r\<lparr>o_address_id := Some (a_id a), delivery_fee_cents := dc_fee_cents zone\<rparr>, d))"

definition audit_line :: "order_item \<times> (str \<times> str) \<Rightarrow> json" where
  "audit_line rl = (case rl of (r, number, name) \<Rightarrow>
     JObj [(''number'', JStr number), (''name'', JStr name), (''quantity'', JInt (quantity r)),
       (''options'', JList (map (JStr \<circ> co_option) (oi_options r))),
       (''unit_price_cents'', JInt (unit_price_cents r))])"

definition correction_audit ::
  "order \<Rightarrow> order \<Rightarrow> correction_request \<Rightarrow> str \<Rightarrow> order_item list \<Rightarrow> labels \<Rightarrow> order_item list \<Rightarrow> labels \<Rightarrow>
   bool \<Rightarrow> json" where
  "correction_audit before after q reason rows labels after_rows after_labels moved =
     JObj [(''call_id'', JId (o_call_id after)), (''edit_id'', JStr (cr_edit_id q)), (''reason'', JStr reason),
       (''before'', JList (map audit_line (zip rows labels))),
       (''after'', JList (map audit_line (zip after_rows after_labels))),
       (''before_total_cents'', JInt (total_cents before)), (''after_total_cents'', JInt (total_cents after)),
       (''address_changed'', JBool moved), (''before_fee_cents'', JInt (delivery_fee_cents before)),
       (''after_fee_cents'', JInt (delivery_fee_cents after)), (''labels'', labels_json after_labels),
       (''note_dropped'', JBool (list_ex (\<lambda>e. drop_note e \<and> note_lost rows e) (cr_rows q)))]"

text \<open>What is checked before anything is written: the rows, their names, the edits and the plan.\<close>

definition correction_checks ::
  "(str \<Rightarrow> int) \<Rightarrow> (json \<Rightarrow> str) \<Rightarrow> db \<Rightarrow> order \<Rightarrow> correction_request \<Rightarrow> str \<Rightarrow> instant \<Rightarrow>
   app_error + (row_edit list \<times> labels) \<times> correction_plan" where
  "correction_checks coll md5 d r q reason now =
     (if reason \<notin> fst ` set (reasons_for r) then raise_err InvalidInput None
      else let rows = order_rows d r in
        if cr_version q \<noteq> order_version md5 rows r then raise_err Conflict (Some STALE)
        else andthen (plan_correction coll md5 d r rows q now) (\<lambda>plan.
          case cp_blockers plan of b # _ \<Rightarrow> raise_err InvalidInput (Some b)
          | [] \<Rightarrow>
            if reason = ''wrong_address'' \<and> ap_new (cp_where plan) = None
            then raise_err InvalidInput (Some NEW_ADDRESS_NEEDED)
            else andthen (check_notes rows q) (\<lambda>_.
              andthen (labels_for_rows d (o_id r) rows None) (\<lambda>labels.
              andthen (row_edits rows q) (\<lambda>edits. Inr ((edits, labels), plan))))))"

text \<open>The rows and the order as they are saved; the total is that of the rows.\<close>

definition corrected_rows ::
  "order \<Rightarrow> row_edit list \<Rightarrow> correction_plan \<Rightarrow> db \<Rightarrow> db" where
  "corrected_rows r edits plan d =
     save_lines r (order_rows d r) edits (cp_rows plan) (cp_added plan) d"

definition corrected_order :: "order \<Rightarrow> correction_plan \<Rightarrow> db \<Rightarrow> order \<times> db" where
  "corrected_order r plan d =
     (let items_total = sum_list (map (\<lambda>x. row_cents (unit_price_cents x) (oi_options x) * quantity x)
            (order_rows d r));
          (r, d) = (case (ap_new (cp_where plan), ap_zone (cp_where plan), o_customer_id r) of
             (Some said, Some zone, Some cu) \<Rightarrow> move_order r cu said zone d
           | _ \<Rightarrow> (r, d));
          r = r\<lparr>items_total_cents := items_total, total_cents := items_total + delivery_fee_cents r,
                register_entered_at := None\<rparr>
      in (r, set_order (o_id r) (\<lambda>_. r) d))"

definition resend_corrected ::
  "(uuid \<Rightarrow> bool) \<Rightarrow> order \<Rightarrow> str \<Rightarrow> db \<Rightarrow> app_error + db" where
  "resend_corrected locked r reason d =
     (if handover_state r = None then Inr d
      else let reached = (handover_state r \<in> {Some PENDING, Some SENT} \<or> may_hold_a_slip d r)
           in andthen (send_ticket locked r (if reached then Some reason else None) d) (\<lambda>(_, d).
                Inr (set_handover (o_id r) (Some PENDING) d)))"

definition apply_correction ::
  "(uuid \<Rightarrow> bool) \<Rightarrow> (str \<Rightarrow> int) \<Rightarrow> (json \<Rightarrow> str) \<Rightarrow> uuid \<Rightarrow> uuid \<Rightarrow> correction_request \<Rightarrow> str \<Rightarrow> str \<Rightarrow>
   instant \<Rightarrow> db \<Rightarrow> app_error + db" where
  "apply_correction locked coll md5 tid oid q reason who now d =
     (case live_order d tid oid of None \<Rightarrow> raise_err NotFound (Some STALE)
      | Some r \<Rightarrow>
          if o_status r \<notin> set EDITABLE then raise_err Conflict (Some STALE)
          else if cr_edit_id q \<noteq> [] \<and> already_saved d r (cr_edit_id q) then Inr d
          else andthen (correction_checks coll md5 d r q reason now) (\<lambda>((edits, labels), plan).
            let rows = order_rows d r;
                d = corrected_rows r edits plan d;
                after_rows = order_rows d r;
                kept = remaining (cp_rows plan) (cp_added plan);
                after_labels = map (\<lambda>l. (pln_number l, pln_name l)) kept
            in if rows = [] \<or> length after_rows \<noteq> length after_labels then raise_err UncaughtError None
               else let (r', d) = corrected_order r plan d;
                        moved = (ap_new (cp_where plan) \<noteq> None);
                        d = add_audit (o_tenant_id r) who ACTION_CORRECTED ''order'' (o_id r)
                              (correction_audit r r' q reason rows labels after_rows after_labels moved) d;
                        d = (if moved then settle_default_if_marked r' d else d)
                    in resend_corrected locked r' reason d))"

end
