(* ===== verification/Board.thy ===== *)
theory Board
  imports Correction
begin

text \<open>
  The column "Neue Bestellungen" of the tablet (\<open>api/domain/ordering/board.py\<close>): which orders are in
  it and in which order, and the taps on a card: "Passt", "Nochmal senden", "In Kasse eingegeben"
  and "Storniert".
\<close>

section \<open>The taps\<close>

definition ACTION_APPROVED :: str where "ACTION_APPROVED = ''order.approved''"
definition ACTION_RESENT :: str where "ACTION_RESENT = ''order.resent''"
definition MARKABLE :: "order_status list" where "MARKABLE = [OApproved, OHandedOver]"
definition RESENDABLE :: "order_status list" where "RESENDABLE = [OConfirmed, OApproved, OCancelled]"
definition CORRECTED_SINCE :: str where
  "CORRECTED_SINCE = ''Die Bestellung wurde inzwischen korrigiert. Bitte die neue Fassung eingeben.''"

definition version_of :: "(json \<Rightarrow> str) \<Rightarrow> db \<Rightarrow> order \<Rightarrow> str" where
  "version_of md5 d r = order_version md5 (order_rows d r) r"

definition approve_order ::
  "(uuid \<Rightarrow> bool) \<Rightarrow> uuid \<Rightarrow> uuid \<Rightarrow> str \<Rightarrow> db \<Rightarrow> app_error + order \<times> db" where
  "approve_order locked tid oid who d =
     (case live_order d tid oid of None \<Rightarrow> raise_err NotFound None
      | Some r \<Rightarrow>
          if o_status r = OApproved then Inr (r, d)
          else if o_status r \<noteq> OConfirmed then raise_err Conflict (Some STALE)
          else if handover_state r = Some FAILED then raise_err Conflict None
          else let released = (handover_state r = None);
                   r = r\<lparr>o_status := OApproved\<rparr>;
                   d = set_order oid (\<lambda>x. x\<lparr>o_status := OApproved\<rparr>) d in
            andthen (if released
                     then andthen (send_ticket locked r None d) (\<lambda>(_, d).
                            Inr (r\<lparr>handover_state := Some PENDING\<rparr>, set_handover oid (Some PENDING) d))
                     else Inr (r, d)) (\<lambda>(r, d).
              Inr (r, add_audit tid who ACTION_APPROVED ''order'' oid
                (JObj [(''call_id'', JId (o_call_id r)), (''released'', JBool released)]) d)))"

definition resend_order ::
  "(uuid \<Rightarrow> bool) \<Rightarrow> uuid \<Rightarrow> uuid \<Rightarrow> str \<Rightarrow> db \<Rightarrow> app_error + order \<times> db" where
  "resend_order locked tid oid who d =
     (case live_order d tid oid of None \<Rightarrow> raise_err NotFound None
      | Some r \<Rightarrow>
          if handover_state r \<noteq> Some FAILED \<or> o_status r \<notin> set RESENDABLE then Inr (r, d)
          else let reason = (if o_status r = OCancelled then Some CANCELLED else last_reason d r) in
            andthen (send_ticket locked r reason d) (\<lambda>(_, d).
              let d = set_handover oid (Some PENDING) d
              in Inr (r\<lparr>handover_state := Some PENDING\<rparr>, add_audit tid who ACTION_RESENT ''order'' oid
                   (JObj [(''call_id'', JId (o_call_id r))]) d)))"

definition mark_entered ::
  "(json \<Rightarrow> str) \<Rightarrow> uuid \<Rightarrow> uuid \<Rightarrow> str \<Rightarrow> str \<Rightarrow> instant \<Rightarrow> db \<Rightarrow> app_error + order \<times> db" where
  "mark_entered md5 tid oid seen who now d =
     (case live_order d tid oid of None \<Rightarrow> raise_err NotFound None
      | Some r \<Rightarrow>
          if register_entered_at r \<noteq> None then Inr (r, d)
          else if o_status r \<notin> set MARKABLE then raise_err Conflict (Some STALE)
          else let current = version_of md5 d r in
            if current \<noteq> seen then raise_err Conflict (Some CORRECTED_SINCE)
            else let r = r\<lparr>register_entered_at := Some now\<rparr>;
                     d = set_order oid (\<lambda>x. x\<lparr>register_entered_at := Some now\<rparr>) d;
                     d = settle_default r d
                 in Inr (r, add_audit tid who ACTION_REGISTER_ENTERED ''order'' oid
                      (JObj [(''call_id'', JId (o_call_id r)), (''version'', JStr current)]) d))"

definition cancel_order ::
  "(uuid \<Rightarrow> bool) \<Rightarrow> (json \<Rightarrow> str) \<Rightarrow> uuid \<Rightarrow> uuid \<Rightarrow> str \<Rightarrow> str \<Rightarrow> instant \<Rightarrow> db \<Rightarrow> app_error + order \<times> db" where
  "cancel_order locked md5 tid oid seen who now d =
     (case live_order d tid oid of None \<Rightarrow> raise_err NotFound None
      | Some r \<Rightarrow>
          if o_status r = OCancelled then Inr (r, d)
          else if o_status r \<notin> set ALREADY_CONFIRMED then raise_err Conflict (Some STALE)
          else let current = version_of md5 d r in
            if current \<noteq> seen then raise_err Conflict (Some STALE)
            else let (slip, d) = withdraw_tickets locked r now d;
                     r = r\<lparr>o_status := OCancelled\<rparr>;
                     d = set_order oid (\<lambda>x. x\<lparr>o_status := OCancelled\<rparr>) d;
                     d = settle_default_if_marked r d;
                     h = (if slip then Some PENDING else None);
                     r = r\<lparr>handover_state := h\<rparr>;
                     d = set_handover oid h d;
                     d = add_audit tid who ACTION_CANCELLED ''order'' oid
                           (JObj [(''call_id'', JId (o_call_id r)), (''version'', JStr current),
                              (''note_sent'', JBool slip)]) d
                 in if slip then andthen (send_ticket locked r (Some CANCELLED) d) (\<lambda>(_, d). Inr (r, d))
                    else Inr (r, d))"

section \<open>The column\<close>

record board_line =
  bl_number :: str
  bl_name :: str
  bl_quantity :: int
  bl_options :: "str list"
  bl_note :: "str option"

record board_order =
  bo_order :: order
  bo_corrected :: "str option"
  bo_lines :: "board_line list"
  bo_waiting_since :: "instant option"
  bo_overdue :: bool
  bo_register_late :: bool
  bo_version :: str
  bo_address :: "address option"

text \<open>\<open>_unmarked\<close> and \<open>_filters\<close>\<close>

definition unmarked :: "order \<Rightarrow> bool" where
  "unmarked r \<longleftrightarrow> o_status r \<in> set ALREADY_CONFIRMED \<and> register_entered_at r = None"

definition on_board :: "uuid \<Rightarrow> order \<Rightarrow> bool" where
  "on_board tid r \<longleftrightarrow> o_tenant_id r = tid \<and> o_deleted_at r = None \<and>
     (unmarked r \<or> o_status r \<in> set RESENDABLE \<and> handover_state r = Some FAILED)"

text \<open>\<open>_waiting_since\<close>: from the entry of the yes, else from the creation.\<close>

definition waits :: "uuid \<Rightarrow> order \<Rightarrow> bool" where
  "waits tid r \<longleftrightarrow> o_tenant_id r = tid \<and> o_deleted_at r = None \<and> o_status r = OConfirmed \<and> handover_state r = None"

definition yes_at :: "db \<Rightarrow> order \<Rightarrow> instant option" where
  "yes_at d r =
     (case map au_at (filter (\<lambda>a. au_tenant_id a = o_tenant_id r \<and> au_at a \<ge> o_created_at r - CLOCK_MARGIN)
             (order_audit d (o_id r) [ACTION_CONFIRMED])) of
        [] \<Rightarrow> None | t # ts \<Rightarrow> Some (fold min ts t))"

definition waiting_since :: "db \<Rightarrow> uuid \<Rightarrow> order \<Rightarrow> instant option" where
  "waiting_since d tid r =
     (if waits tid r then Some (case yes_at d r of Some t \<Rightarrow> t | None \<Rightarrow> o_created_at r) else None)"

definition is_overdue :: "db \<Rightarrow> uuid \<Rightarrow> instant \<Rightarrow> order \<Rightarrow> bool" where
  "is_overdue d tid now r =
     (case get_config d tid of None \<Rightarrow> False
      | Some c \<Rightarrow> (case waiting_since d tid r of None \<Rightarrow> False
                 | Some t \<Rightarrow> t \<le> now - order_approval_overdue_minutes c * MINUTE))"

definition is_late :: "zone \<Rightarrow> instant \<Rightarrow> order \<Rightarrow> bool" where
  "is_late z now r \<longleftrightarrow> register_entered_at r = None \<and>
     o_created_at r < fst (business_day_bounds_utc (business_day now z DAY_STARTS_AT) z DAY_STARTS_AT)"

definition card_rank :: "db \<Rightarrow> uuid \<Rightarrow> zone \<Rightarrow> instant \<Rightarrow> order \<Rightarrow> int" where
  "card_rank d tid z now r =
     (if handover_state r = Some FAILED then 0 else if is_overdue d tid now r then 1
      else if is_late z now r then 2 else 3)"

definition failed_first :: "order \<Rightarrow> int" where
  "failed_first r = (if handover_state r = Some FAILED then 0 else 1)"

text \<open>Sorted by the query, then again by rank; \<open>sorted\<close> is stable.\<close>

definition board_orders :: "db \<Rightarrow> uuid \<Rightarrow> zone \<Rightarrow> instant \<Rightarrow> order list" where
  "board_orders d tid z now =
     sort_key (card_rank d tid z now)
       (sort_key (\<lambda>r. (failed_first r, o_created_at r, o_id r)) (filter (on_board tid) (orders d)))"

text \<open>\<open>payload["reason"]\<close> of the last correction.\<close>

definition correction_reason :: "db \<Rightarrow> order \<Rightarrow> app_error + str option" where
  "correction_reason d r =
     (case filter (\<lambda>a. au_tenant_id a = o_tenant_id r) (order_audit d (o_id r) [ACTION_CORRECTED]) of
        [] \<Rightarrow> Inr None
      | as \<Rightarrow> (case json_text (jget ''reason'' (au_payload (last as))) of
                None \<Rightarrow> raise_err UncaughtError None | Some s \<Rightarrow> Inr (Some s)))"

definition board_line_of :: "order_item \<times> (str \<times> str) \<Rightarrow> board_line" where
  "board_line_of rl = (case rl of (row, number, name) \<Rightarrow>
     \<lparr>bl_number = number, bl_name = name, bl_quantity = quantity row, bl_options = map co_option (oi_options row),
      bl_note = oi_note row\<rparr>)"

definition board_card ::
  "(json \<Rightarrow> str) \<Rightarrow> db \<Rightarrow> uuid \<Rightarrow> zone \<Rightarrow> instant \<Rightarrow> order \<Rightarrow> app_error + board_order" where
  "board_card md5 d tid z now r =
     (let rows = order_rows d r in
      andthen (correction_reason d r) (\<lambda>corrected.
      andthen (labels_for_rows d (o_id r) rows (current_labels d (o_id r))) (\<lambda>labels.
        Inr \<lparr>bo_order = r, bo_corrected = corrected, bo_lines = map board_line_of (zip rows labels),
             bo_waiting_since = waiting_since d tid r, bo_overdue = is_overdue d tid now r,
             bo_register_late = is_late z now r, bo_version = order_version md5 rows r,
             bo_address = (case Option.bind (o_address_id r) (get_address d) of None \<Rightarrow> None
               | Some a \<Rightarrow> if a_tenant_id a = tid then Some a else None)\<rparr>)))"

definition list_new ::
  "(json \<Rightarrow> str) \<Rightarrow> db \<Rightarrow> uuid \<Rightarrow> zone \<Rightarrow> instant \<Rightarrow> app_error + board_order list" where
  "list_new md5 d tid z now = map_res (board_card md5 d tid z now) (board_orders d tid z now)"

definition unmarked_before :: "db \<Rightarrow> uuid \<Rightarrow> instant \<Rightarrow> order list" where
  "unmarked_before d tid before =
     sort_key (\<lambda>r. (o_created_at r, o_id r)) (filter (\<lambda>r. o_tenant_id r = tid \<and> o_deleted_at r = None \<and>
       o_created_at r < before \<and> unmarked r) (orders d))"

end
