(* ===== verification/Release.thy ===== *)
theory Release
  imports Ordering
begin

text \<open>
  The guest's yes to an order (\<open>confirm_order\<close>): when the kitchen gets the slip, that a yes counts
  once, and that no error of an order leaves the guest without a sentence.
\<close>

section \<open>What a yes writes\<close>

lemma put_confirmed_sel [simp]:
  "o_id (put_confirmed code b r) = o_id r" "o_tenant_id (put_confirmed code b r) = o_tenant_id r"
  "o_call_id (put_confirmed code b r) = o_call_id r" "o_status (put_confirmed code b r) = OConfirmed"
  "pickup_code (put_confirmed code b r) = Some code" "o_deleted_at (put_confirmed code b r) = o_deleted_at r"
  "handover_state (put_confirmed code b r) = (if b then Some PENDING else None)"
  "total_cents (put_confirmed code b r) = total_cents r" "o_created_at (put_confirmed code b r) = o_created_at r"
  "o_type (put_confirmed code b r) = o_type r"
  by (simp_all add: put_confirmed_def)

lemma note_order_frame [simp, frame_simps]:
  "orders (note_order r at d) = orders d" "order_items (note_order r at d) = order_items d"
  "outbox (note_order r at d) = outbox d" "audit (note_order r at d) = audit d"
  "tenants (note_order r at d) = tenants d" "calls (note_order r at d) = calls d"
  "service_configs (note_order r at d) = service_configs d" "next_id (note_order r at d) = next_id d"
  "tx_now (note_order r at d) = tx_now d" "addresses (note_order r at d) = addresses d"
  by (simp_all add: note_order_def note_contact_def split: option.splits)

text \<open>Everything but the customers after a yes: the row, the audit entry and, if direct, one event.\<close>

lemma write_confirm_form:
  assumes "write_confirm q r z mode c now d = Inr (a, d')"
  obtains code where "code = next_pickup_code d r z"
    and "a = order_answer (put_confirmed code (waits_for r mode c = None) r)"
    and "orders d' = upd_rows (\<lambda>x. o_id x = o_id r) (put_confirmed code (waits_for r mode c = None)) (orders d)"
    and "order_items d' = order_items d" and "tenants d' = tenants d" and "calls d' = calls d"
    and "addresses d' = addresses d" and "next_id d \<le> next_id d'"
    and "\<exists>p. audit d' = audit d @ [\<lparr>au_tenant_id = cq_tenant_id q, au_at = tx_now d, actor = ACTOR_AGENT,
      action = ACTION_CONFIRMED, au_entity = ''order'', entity_id = Some (o_id r), au_payload = p\<rparr>] \<and>
      jget ''waits_for'' p = Some (jopt JStr (waits_for r mode c))"
    and "if waits_for r mode c = None
      then \<exists>p d1. order_event_payload d1 (put_confirmed code True r) 0 None = Inr p \<and> tx_now d1 = tx_now d \<and>
        next_id d1 = next_id d \<and>
        outbox d' = outbox d @ [new_event (cq_tenant_id q) ORDER_CONFIRMED p d1] \<and> next_id d' = Suc (next_id d)
      else outbox d' = outbox d \<and> next_id d' = next_id d"
proof -
  define code where "code = next_pickup_code d r z"
  define b where "b = (waits_for r mode c = None)"
  define d1 where "d1 = add_audit (cq_tenant_id q) ACTOR_AGENT ACTION_CONFIRMED ''order'' (o_id r)
    (confirm_audit q code mode (waits_for r mode c))
    (note_order (put_confirmed code b r) now (set_order (o_id r) (put_confirmed code b) d))"
  have w: "andthen (if b then andthen (order_event_payload d1 (put_confirmed code b r) 0 None) (\<lambda>p.
        andthen (enqueue (cq_tenant_id q) ORDER_CONFIRMED p d1) (\<lambda>(_, d). Inr d)) else Inr d1)
      (\<lambda>d. Inr (order_answer (put_confirmed code b r), d)) = Inr (a, d')"
    using assms unfolding write_confirm_def Let_def code_def b_def d1_def put_confirmed_sel .
  have d1: "orders d1 = upd_rows (\<lambda>x. o_id x = o_id r) (put_confirmed code b) (orders d)"
    "order_items d1 = order_items d" "tenants d1 = tenants d" "calls d1 = calls d" "addresses d1 = addresses d"
    "outbox d1 = outbox d" "next_id d1 = next_id d" "tx_now d1 = tx_now d"
    "audit d1 = audit d @ [\<lparr>au_tenant_id = cq_tenant_id q, au_at = tx_now d, actor = ACTOR_AGENT,
      action = ACTION_CONFIRMED, au_entity = ''order'', entity_id = Some (o_id r),
      au_payload = confirm_audit q code mode (waits_for r mode c)\<rparr>]"
    by (simp_all add: d1_def add_audit_def set_order_def)
  have p: "jget ''waits_for'' (confirm_audit q code mode x) = Some (jopt JStr x)" for x
    by (simp add: confirm_audit_def)
  show thesis
  proof (cases b)
    case True
    then obtain p where p1: "order_event_payload d1 (put_confirmed code b r) 0 None = Inr p"
      and d': "d' = d1\<lparr>outbox := outbox d1 @ [new_event (cq_tenant_id q) ORDER_CONFIRMED p d1],
        next_id := Suc (next_id d1)\<rparr>" and a: "a = order_answer (put_confirmed code b r)"
      using w by auto
    show ?thesis
      by (rule that [of code]) (use p1 d' a d1 True p in \<open>auto simp: code_def b_def\<close>)
  next
    case False
    then have "d' = d1" "a = order_answer (put_confirmed code b r)" using w by auto
    then show ?thesis
      by (intro that [of code]) (use d1 False p in \<open>auto simp: code_def b_def\<close>)
  qed
qed

lemma confirm_order_cases:
  assumes "confirm_order q now d = Inr (a, d')"
  obtains r where "get_order d (cq_entity_id q) = Some r" and "o_tenant_id r = cq_tenant_id q"
    and "o_call_id r = cq_call_id q" and "o_deleted_at r = None"
    and "o_status r \<in> set ALREADY_CONFIRMED \<and> a = order_answer r \<and> d' = d \<or>
      o_status r = ODraft \<and> (\<exists>c t. get_config d (cq_tenant_id q) = Some c \<and>
        get_tenant d (cq_tenant_id q) = Some t \<and> require_switched_on r t c (cq_call_id q) now d = Inr () \<and>
        write_confirm q r (t_timezone t) (mn_mode (mode_at d t c now)) c now d = Inr (a, d'))"
proof -
  let ?tid = "cq_tenant_id q"
  obtain r where r: "get_order d (cq_entity_id q) = Some r" "o_tenant_id r = ?tid"
    "o_call_id r = cq_call_id q" "o_deleted_at r = None" "o_status r \<noteq> OCancelled"
    using assms by (auto simp: confirm_order_def Let_def split: option.splits if_splits)
  have "o_status r \<in> set ALREADY_CONFIRMED \<and> a = order_answer r \<and> d' = d \<or>
      o_status r = ODraft \<and> (\<exists>c t. get_config d ?tid = Some c \<and> get_tenant d ?tid = Some t \<and>
        require_switched_on r t c (cq_call_id q) now d = Inr () \<and>
        write_confirm q r (t_timezone t) (mn_mode (mode_at d t c now)) c now d = Inr (a, d'))"
    using assms r
    by (cases "o_status r") (auto simp: confirm_order_def Let_def ALREADY_CONFIRMED_def split: option.splits)
  with r that show thesis by blast
qed

lemma get_order_upd:
  assumes "\<And>r. o_id (f r) = o_id r" and "orders d' = upd_rows (\<lambda>x. o_id x = i) f (orders d)"
  shows "get_order d' i = map_option f (get_order d i)"
proof -
  have "get_order d' i = map_option (\<lambda>r. if o_id r = i then f r else r) (get_order d i)"
    unfolding get_order_def assms(2) by (rule find_upd_rows) (simp add: assms(1))
  moreover have "o_id r = i" if "get_order d i = Some r" for r
    using that by (auto simp: get_order_def dest: find_SomeD)
  ultimately show ?thesis by (cases "get_order d i") auto
qed

lemma get_order_other:
  assumes "\<And>r. o_id (f r) = o_id r" and "orders d' = upd_rows (\<lambda>x. o_id x = i) f (orders d)" and "j \<noteq> i"
  shows "get_order d' j = get_order d j"
proof -
  have "get_order d' j = map_option (\<lambda>r. if o_id r = i then f r else r) (get_order d j)"
    unfolding get_order_def assms(2) by (rule find_upd_rows) (simp add: assms(1))
  moreover have "o_id r = j" if "get_order d j = Some r" for r
    using that by (auto simp: get_order_def dest: find_SomeD)
  ultimately show ?thesis using assms(3) by (cases "get_order d j") auto
qed

section \<open>When the kitchen gets the slip\<close>

text \<open>C12. The kitchen gets an order at the yes only in the direct mode (or in overflow with the approval
  step off) and only up to the limit of the restaurant; then exactly one slip, of the first
  revision and due at once, lies in the outbox. In every other case the answer says that it
  waits, and nothing leaves. The order is confirmed and has a code in both cases.\<close>

theorem confirm_releases:
  assumes "confirm_order q now d = Inr (a, d')" and "get_order d (cq_entity_id q) = Some r"
    and "o_status r = ODraft" and "get_config d (cq_tenant_id q) = Some c"
    and "get_tenant d (cq_tenant_id q) = Some t"
  shows "(cf_handover a = Queued \<longleftrightarrow>
      (mn_mode (mode_at d t c now) = Primary \<or>
       mn_mode (mode_at d t c now) = Overflow \<and> \<not> overflow_needs_approval c) \<and>
      order_approval_above_cents c \<noteq> 0 \<and> total_cents r \<le> order_approval_above_cents c) \<and>
    (if cf_handover a = Queued
     then \<exists>e. outbox d' = outbox d @ [e] \<and> ticket_of (o_tenant_id r) (o_id r) e \<and> ev_status e = PENDING \<and>
       next_attempt_at e = tx_now d \<and> jget ''revision'' (ev_payload e) = Some (JInt 0)
     else outbox d' = outbox d) \<and>
    cf_pickup_code a = Some (next_pickup_code d r (t_timezone t)) \<and>
    (\<exists>r'. get_order d' (cq_entity_id q) = Some r' \<and> o_status r' = OConfirmed \<and>
       pickup_code r' = cf_pickup_code a \<and>
       handover_state r' = (if cf_handover a = Queued then Some PENDING else None))"
proof -
  let ?mode = "mn_mode (mode_at d t c now)"
  have id: "o_id r = cq_entity_id q" using assms(2) by (auto simp: get_order_def dest: find_SomeD)
  have tid: "o_tenant_id r = cq_tenant_id q"
    and w: "write_confirm q r (t_timezone t) ?mode c now d = Inr (a, d')"
    using confirm_order_cases [OF assms(1)] assms(2-5) by (auto simp: ALREADY_CONFIRMED_def)
  obtain code where code: "code = next_pickup_code d r (t_timezone t)"
    and a: "a = order_answer (put_confirmed code (waits_for r ?mode c = None) r)"
    and o: "orders d' = upd_rows (\<lambda>x. o_id x = o_id r) (put_confirmed code (waits_for r ?mode c = None)) (orders d)"
    and out: "if waits_for r ?mode c = None
      then \<exists>p d1. order_event_payload d1 (put_confirmed code True r) 0 None = Inr p \<and> tx_now d1 = tx_now d \<and>
        next_id d1 = next_id d \<and>
        outbox d' = outbox d @ [new_event (cq_tenant_id q) ORDER_CONFIRMED p d1] \<and> next_id d' = Suc (next_id d)
      else outbox d' = outbox d \<and> next_id d' = next_id d"
    by (rule write_confirm_form [OF w], rule that; assumption)
  have queued: "cf_handover a = Queued \<longleftrightarrow> waits_for r ?mode c = None"
    unfolding a by (simp add: order_answer_def)
  also have "\<dots> \<longleftrightarrow> (?mode = Primary \<or> ?mode = Overflow \<and> \<not> overflow_needs_approval c) \<and>
      order_approval_above_cents c \<noteq> 0 \<and> total_cents r \<le> order_approval_above_cents c"
    by (auto simp: waits_for_def Let_def DIRECT_MODE_def)
  finally have 1: "cf_handover a = Queued \<longleftrightarrow> \<dots>" .
  have 2: "if cf_handover a = Queued
     then \<exists>e. outbox d' = outbox d @ [e] \<and> ticket_of (o_tenant_id r) (o_id r) e \<and> ev_status e = PENDING \<and>
       next_attempt_at e = tx_now d \<and> jget ''revision'' (ev_payload e) = Some (JInt 0)
     else outbox d' = outbox d"
  proof (cases "waits_for r ?mode c = None")
    case True
    then obtain p d1 where p: "order_event_payload d1 (put_confirmed code True r) 0 None = Inr p"
      and "tx_now d1 = tx_now d" "outbox d' = outbox d @ [new_event (cq_tenant_id q) ORDER_CONFIRMED p d1]"
      using out by auto
    then show ?thesis using payload_fields [OF p] True queued by (simp add: new_event_def ticket_of_def tid)
  qed (use out queued in auto)
  have 3: "cf_pickup_code a = Some (next_pickup_code d r (t_timezone t))"
    unfolding a by (simp add: order_answer_def code)
  have "get_order d' (cq_entity_id q) = Some (put_confirmed code (waits_for r ?mode c = None) r)"
    using get_order_upd [OF _ o] assms(2) id by simp
  then have 4: "\<exists>r'. get_order d' (cq_entity_id q) = Some r' \<and> o_status r' = OConfirmed \<and>
       pickup_code r' = cf_pickup_code a \<and>
       handover_state r' = (if cf_handover a = Queued then Some PENDING else None)"
    using 3 code queued by auto
  from 1 2 3 4 show ?thesis by blast
qed

section \<open>A yes counts once\<close>

text \<open>After a yes the row answers, whatever happened to the mode, the switches or the menu since.\<close>

lemma confirm_ordered_again:
  assumes "confirm_ordered q now d = Inr (a, d')" and "orders e = orders d'" and "tenants e = tenants d'"
    and "calls e = calls d'"
  shows "confirm_ordered (q\<lparr>cq_idempotency_key := key\<rparr>) later e = Inr (a, e)"
proof -
  obtain t k where t: "get_tenant d (cq_tenant_id q) = Some t" and k: "get_call d (cq_call_id q) = Some k"
    "c_tenant_id k = cq_tenant_id q" and co: "confirm_order q now d = Inr (a, d')"
    using assms(1) by (auto simp: confirm_ordered_def split: option.splits if_splits)
  obtain r where r: "get_order d (cq_entity_id q) = Some r" "o_tenant_id r = cq_tenant_id q"
      "o_call_id r = cq_call_id q" "o_deleted_at r = None"
    and c: "o_status r \<in> set ALREADY_CONFIRMED \<and> a = order_answer r \<and> d' = d \<or>
      o_status r = ODraft \<and> (\<exists>c t. get_config d (cq_tenant_id q) = Some c \<and>
        get_tenant d (cq_tenant_id q) = Some t \<and> require_switched_on r t c (cq_call_id q) now d = Inr () \<and>
        write_confirm q r (t_timezone t) (mn_mode (mode_at d t c now)) c now d = Inr (a, d'))"
    by (rule confirm_order_cases [OF co], rule that; assumption)
  have id: "o_id r = cq_entity_id q" using r(1) by (auto simp: get_order_def dest: find_SomeD)
  have "\<exists>r'. get_order d' (cq_entity_id q) = Some r' \<and> o_tenant_id r' = cq_tenant_id q \<and>
      o_call_id r' = cq_call_id q \<and> o_deleted_at r' = None \<and> o_status r' \<in> set ALREADY_CONFIRMED \<and>
      a = order_answer r' \<and> tenants d' = tenants d \<and> calls d' = calls d"
    using c
  proof
    assume "o_status r = ODraft \<and> (\<exists>c t. get_config d (cq_tenant_id q) = Some c \<and>
        get_tenant d (cq_tenant_id q) = Some t \<and> require_switched_on r t c (cq_call_id q) now d = Inr () \<and>
        write_confirm q r (t_timezone t) (mn_mode (mode_at d t c now)) c now d = Inr (a, d'))"
    then obtain z m c where w: "write_confirm q r z m c now d = Inr (a, d')" by blast
    obtain code where a: "a = order_answer (put_confirmed code (waits_for r m c = None) r)"
      and o: "orders d' = upd_rows (\<lambda>x. o_id x = o_id r) (put_confirmed code (waits_for r m c = None)) (orders d)"
      and "tenants d' = tenants d" "calls d' = calls d"
      by (rule write_confirm_form [OF w], rule that; assumption)
    then show ?thesis using get_order_upd [OF _ o] r id by (simp add: ALREADY_CONFIRMED_def)
  qed (use r in auto)
  then obtain r' where r': "get_order e (cq_entity_id q) = Some r'" "o_tenant_id r' = cq_tenant_id q"
      "o_call_id r' = cq_call_id q" "o_deleted_at r' = None" "o_status r' \<in> set ALREADY_CONFIRMED"
      "a = order_answer r'" and e: "tenants e = tenants d" "calls e = calls d"
    using assms(2-4) by (auto simp: get_order_def)
  have "o_status r' \<noteq> OCancelled" using r'(5) by (auto simp: ALREADY_CONFIRMED_def)
  then show ?thesis
    using r' t k e by (simp add: confirm_ordered_def confirm_order_def get_tenant_def get_call_def)
qed

interpretation order_yes: replayable "confirm_ordered q now" for q now
proof
  fix d a d'
  assume "confirm_ordered q now d = Inr (a, d')"
  from confirm_ordered_again [OF this refl refl refl, of "cq_idempotency_key q" now]
  show "confirm_ordered q now d' = Inr (a, d')" by simp
qed

text \<open>An order is confirmed once: said again and again, with any key, at any time and after any
  change of mode, switches, hours or menu, the yes gives the same code and the same answer and
  writes nothing; only the call of the draft can say it.\<close>

theorem confirm_order_once:
  assumes "confirm_ordered q now d = Inr (a, d')"
  shows "(\<forall>n. order_yes.repeat_op q now (Suc n) d = Inr (replicate (Suc n) a, d')) \<and>
    (\<forall>e key later. orders e = orders d' \<and> tenants e = tenants d' \<and> calls e = calls d' \<longrightarrow>
       confirm_ordered (q\<lparr>cq_idempotency_key := key\<rparr>) later e = Inr (a, e)) \<and>
    (\<exists>r. get_order d (cq_entity_id q) = Some r \<and> o_call_id r = cq_call_id q \<and> o_tenant_id r = cq_tenant_id q)"
proof -
  have "confirm_order q now d = Inr (a, d')"
    using assms by (auto simp: confirm_ordered_def split: option.splits if_splits)
  then have "\<exists>r. get_order d (cq_entity_id q) = Some r \<and> o_call_id r = cq_call_id q \<and> o_tenant_id r = cq_tenant_id q"
    by (rule confirm_order_cases) blast
  then show ?thesis using order_yes.repeat_same [OF assms] confirm_ordered_again [OF assms] by blast
qed

section \<open>No error without a sentence\<close>

definition says :: "app_error \<Rightarrow> bool" where
  "says e \<longleftrightarrow> err_kind e \<noteq> UncaughtError \<and> err_say e \<noteq> None"

lemma says_raise [simp]: "raise_err k s = Inl e \<Longrightarrow> says e \<longleftrightarrow> k \<noteq> UncaughtError \<and> s \<noteq> None"
  by (auto simp: raise_err_def says_def)

lemma raise_says: "raise_err k (Some s) = Inl e \<Longrightarrow> k \<noteq> UncaughtError \<Longrightarrow> says e"
  by simp

text \<open>An operation each error of which has its sentence.\<close>

definition speaks :: "app_error + 'a \<Rightarrow> bool" where
  "speaks m \<longleftrightarrow> (\<forall>e. m = Inl e \<longrightarrow> says e)"

lemma speaks_Inr [simp]: "speaks (Inr x)"
  by (simp add: speaks_def)

lemma speaks_raise [simp]: "speaks (raise_err k s) \<longleftrightarrow> k \<noteq> UncaughtError \<and> s \<noteq> None"
  by (auto simp: speaks_def raise_err_def says_def)

lemma speaks_andthen: "speaks m \<Longrightarrow> (\<And>x. m = Inr x \<Longrightarrow> speaks (f x)) \<Longrightarrow> speaks (andthen m f)"
  by (cases m) (simp_all add: speaks_def)

lemma speaks_map_res: "(\<And>x. x \<in> set xs \<Longrightarrow> speaks (f x)) \<Longrightarrow> speaks (map_res f xs)"
  by (induction xs) (auto intro!: speaks_andthen)

lemma speaks_fold_res: "(\<And>x s. x \<in> set xs \<Longrightarrow> speaks (f x s)) \<Longrightarrow> speaks (fold_res f xs s)"
  by (induction xs arbitrary: s) (auto intro!: speaks_andthen)

lemma speaks_if: "(b \<Longrightarrow> speaks x) \<Longrightarrow> (\<not> b \<Longrightarrow> speaks y) \<Longrightarrow> speaks (if b then x else y)"
  by simp

lemmas speaks_intros = speaks_andthen speaks_map_res speaks_fold_res

lemma speaks_phone: "speaks (normalize_phone cc raw)"
  by (auto simp: normalize_phone_def Let_def)

lemma speaks_open: "speaks (require_pickup_open d t c now cid)" "speaks (require_delivery_open d t c now)"
  "speaks (require_minimum n z)" "speaks (check_delivery d tid code now)"
  by (auto simp: require_pickup_open_def require_delivery_open_def require_minimum_def check_delivery_def Let_def
      split: list.splits)

lemma speaks_lines: "speaks (validated_lines d tid items now)"
proof -
  let ?ids = "map in_menu_item_id items"
  let ?menu = "filter (\<lambda>m. m_id m \<in> set ?ids) (active_items d tid)"
  have "speaks (offer_row x off)" for x off
    by (auto simp: offer_row_def offer_def Let_def intro!: speaks_andthen split: list.splits)
  moreover have "speaks (line_options item w off)" for item w off
    by (auto simp: line_options_def pick_choice_def check_group_def Let_def
        intro!: speaks_intros split: option.splits list.splits)
  then have "speaks (validated_line ?menu off now i)" if "i \<in> set items" "list_all (\<lambda>i. i \<in> m_id ` set ?menu) ?ids" for off i
  proof -
    have "in_menu_item_id i \<in> m_id ` set ?menu" using that by (simp add: list_all_iff)
    then obtain m where "m \<in> set ?menu" "m_id m = in_menu_item_id i" by auto
    then have "find (\<lambda>m. m_id m = in_menu_item_id i) ?menu \<noteq> None" unfolding find_None_iff by blast
    then show ?thesis using \<open>\<And>item w off. speaks (line_options item w off)\<close>
      by (auto simp: validated_line_def intro!: speaks_andthen)
  qed
  ultimately show ?thesis
    unfolding validated_lines_def Let_def by (auto intro!: speaks_intros)
qed

lemma found_address:
  assumes "find_customer d tid p n = Inr m" and "cm_found m" and "cm_address_id m = Some i"
  shows "\<exists>a. get_address d i = Some a"
proof -
  obtain c where "map_option a_id (find (\<lambda>a. a_customer_id a = c \<and> a_is_default a) (addresses d)) = Some i"
  proof -
    have "cm_found m \<Longrightarrow> \<exists>c. cm_address_id m =
        map_option a_id (find (\<lambda>a. a_customer_id a = c \<and> a_is_default a) (addresses d))"
      using assms(1) by (auto simp: find_customer_def Let_def not_found_match_def split: if_splits list.splits)
        (rule exI, erule arg_cong [where f = "map_option a_id", THEN trans, symmetric], simp)
    then show thesis using that assms(2,3) by (metis)
  qed
  then obtain a where "a \<in> set (addresses d)" "a_id a = i" by (auto dest: find_SomeD)
  then have "find (\<lambda>x. a_id x = i) (addresses d) \<noteq> None" by (auto simp: find_None_iff)
  then show ?thesis by (simp add: get_address_def)
qed

lemma speaks_place: "speaks (find_place d tid cu phone line now)"
proof -
  have 1: "speaks (find_customer d tid p n)" for p n
    by (auto simp: find_customer_def Let_def intro!: speaks_andthen speaks_phone split: list.splits)
  have 2: "speaks (case oc_address cu of Some a \<Rightarrow> Inr (oa_postal_code a, None)
      | None \<Rightarrow> (case Option.bind (oc_address_id cu) (get_address d) of
          None \<Rightarrow> raise_err UncaughtError None | Some s \<Rightarrow> Inr (postal_code s, Some s)))"
    if m: "(if Some phone = line then find_customer d tid phone n else Inr not_found_match) = Inr m"
      and c: "\<not> (oc_address cu = None \<and> (\<not> cm_found m \<or> cm_address_id m \<noteq> oc_address_id cu))"
      and ne: "\<not> (oc_address cu = None \<and> oc_address_id cu = None)" for m n
  proof (cases "oc_address cu")
    case None
    then obtain i where i: "oc_address_id cu = Some i" "cm_found m" "cm_address_id m = Some i" using c ne by auto
    then have "find_customer d tid phone n = Inr m" using m by (auto simp: not_found_match_def split: if_splits)
    from found_address [OF this i(2,3)] show ?thesis using None i by auto
  qed simp
  show ?thesis
    unfolding find_place_def Let_def
    by (intro speaks_if speaks_andthen 1 2 speaks_Inr; (assumption | simp add: speaks_open split: prod.split)?)
      (auto intro!: speaks_andthen speaks_open)
qed

lemma get_customer_id: "get_customer d i = Some c \<Longrightarrow> cu_id c = i"
  by (auto simp: get_customer_def dest: find_SomeD)

lemma place_parts:
  assumes "find_place d tid cu phone line now = Inr w"
  shows "p_stored w = None \<Longrightarrow> p_spoken w \<noteq> None"
    and "p_customer_id w = Some i \<Longrightarrow> get_customer d i \<noteq> None"
proof -
  note s = assms [unfolded find_place_def Let_def]
  show "p_stored w = None \<Longrightarrow> p_spoken w \<noteq> None"
    using s by (auto split: if_splits option.splits)
  have "p_customer_id w = Some i \<Longrightarrow> \<exists>m c. Option.bind m (get_customer d) = Some c \<and> cu_id c = i"
    using s by (auto split: if_splits option.splits; blast)
  then show "p_customer_id w = Some i \<Longrightarrow> get_customer d i \<noteq> None"
    by (auto simp: bind_eq_Some_conv dest: get_customer_id)
qed

lemma speaks_keep:
  assumes "find_place d tid cu phone line now = Inr w"
  shows "speaks (keep tid cid ph w d)"
  unfolding keep_def keep_customer_def Let_def using place_parts [OF assms]
  by (auto intro!: speaks_andthen split: option.splits prod.splits)

text \<open>C34. No error of a new draft reaches the guest without a sentence, and none is a crash: whatever the
  agent sends and whatever the rows of menu, zones and customers hold, the draft is refused with a
  reason of its own and a sentence; only an unknown restaurant has none.\<close>

theorem draft_order_errors:
  assumes "draft_order q now d = Inl e" and "order_by_key d (dr_idempotency_key q) = None"
  shows "err_kind e \<noteq> UncaughtError \<and>
    (err_say e = None \<longrightarrow> err_kind e = NotFound \<and>
       (get_tenant d (dr_tenant_id q) = None \<or> get_config d (dr_tenant_id q) = None))"
proof (cases "get_tenant d (dr_tenant_id q) = None \<or> get_config d (dr_tenant_id q) = None")
  case True
  then have "draft_order q now d = raise_err NotFound None"
    by (auto simp: draft_order_def Let_def split: option.splits)
  then show ?thesis using assms(1) True by (auto simp: raise_err_def)
next
  case False
  then obtain t c where tc: "get_tenant d (dr_tenant_id q) = Some t" "get_config d (dr_tenant_id q) = Some c" by auto
  have plan: "speaks (plan_order q t c now d)"
    unfolding plan_order_def Let_def
    by (auto intro!: speaks_andthen speaks_phone speaks_open speaks_lines speaks_place split: option.splits)
  have place: "\<exists>line. find_place d (dr_tenant_id q) (dr_customer q) (pl_phone p) line now = Inr w"
    if "plan_order q t c now d = Inr p" "pl_where p = Some w" for p w
    using that by (auto simp: plan_order_def Let_def split: option.splits if_splits)
  have "speaks (draft_order q now d)"
    unfolding draft_order_def Let_def tc assms(2) prod.case option.case
  proof (rule speaks_andthen [OF plan])
    fix p
    assume p: "plan_order q t c now d = Inr p"
    show "speaks (case pl_where p of None \<Rightarrow> Inr (write_draft q (t_timezone t) p None now d)
      | Some w \<Rightarrow> andthen (keep (dr_tenant_id q) (dr_call_id q) (pl_phone p) w d) (\<lambda>(ca, d).
          Inr (write_draft q (t_timezone t) p (Some ca) now d)))"
      using place [OF p] speaks_keep by (auto split: option.splits intro!: speaks_andthen)
  qed
  then have "says e" using assms(1) by (simp add: speaks_def)
  then show ?thesis by (auto simp: says_def)
qed

section \<open>The yes to two ducks\<close>

definition ducks_yes :: confirm_request where
  "ducks_yes = \<lparr>cq_tenant_id = 7, cq_call_id = 3, cq_entity_id = 101, cq_idempotency_key = ''y1''\<rparr>"

definition cooked_db :: db where
  "cooked_db = part (confirm_ordered ducks_yes (noon + MINUTE) ducks_db)"

definition a1 :: confirmation where "a1 = \<lparr>cf_handover = Queued, cf_pickup_code = Some ''A1''\<rparr>"

lemma ducks_confirmed: "confirm_ordered ducks_yes (noon + MINUTE) ducks_db = Inr (a1, cooked_db)"
  unfolding cooked_db_def by (rule answered) code_simp

lemma ducks_rows: "get_order ducks_db 101 = Some ducks_order" "get_config ducks_db 7 = Some example_config"
  "get_tenant ducks_db 7 = Some example_tenant"
  by (simp_all add: ducks_db_def lunch_db_def get_order_def get_config_def get_tenant_def ducks_order_def
      example_config_def example_tenant_def)

text \<open>In the direct mode, below the limit of a hundred euros, the ducks go to the kitchen at once.\<close>

theorem confirm_releases_witness:
  "total_cents ducks_order \<le> order_approval_above_cents example_config \<and>
   (\<exists>e. outbox cooked_db = [e] \<and> ticket_of 7 101 e \<and> ev_status e = PENDING)"
proof -
  have c: "confirm_order ducks_yes (noon + MINUTE) ducks_db = Inr (a1, cooked_db)"
    using ducks_confirmed by (simp add: confirm_ordered_def split: option.splits if_splits)
  have y: "cq_entity_id ducks_yes = 101" "cq_tenant_id ducks_yes = 7" by (simp_all add: ducks_yes_def)
  have "o_status ducks_order = ODraft" "o_tenant_id ducks_order = 7" "o_id ducks_order = 101"
    "cf_handover a1 = Queued" "outbox ducks_db = []"
    by (simp_all add: ducks_order_def a1_def ducks_db_def lunch_db_def empty_db_def)
  then show ?thesis
    using confirm_releases [OF c, unfolded y, OF ducks_rows(1) _ ducks_rows(2,3)] by auto
qed

theorem confirm_order_once_witness:
  "confirm_ordered (ducks_yes\<lparr>cq_idempotency_key := ''y2''\<rparr>) (noon + DAY)
     (cooked_db\<lparr>service_configs := [example_config\<lparr>call_mode := Paused\<rparr>]\<rparr>) =
   Inr (a1, cooked_db\<lparr>service_configs := [example_config\<lparr>call_mode := Paused\<rparr>]\<rparr>)"
  using confirm_order_once [OF ducks_confirmed] by simp

text \<open>A postal code nobody delivers to.\<close>

definition far_ducks :: draft_request where
  "far_ducks = ducks\<lparr>dr_customer := (dr_customer ducks)\<lparr>oc_address := Some \<lparr>oa_street = ''Weg'',
     oa_house_number = ''1'', oa_postal_code = ''70173'', oa_city = ''Stuttgart'', oa_floor_note = None\<rparr>\<rparr>\<rparr>"

definition too_far :: app_error where
  "too_far = \<lparr>err_kind = OutOfZone, err_say = Some SAY_OUT_OF_ZONE\<rparr>"

theorem draft_order_errors_witness:
  "draft_order far_ducks noon lunch_db = Inl too_far \<and> err_kind too_far \<noteq> UncaughtError"
proof -
  have r: "draft_order far_ducks noon lunch_db = Inl too_far" by code_simp
  have "order_by_key lunch_db (dr_idempotency_key far_ducks) = None"
    by (simp add: order_by_key_def lunch_db_def empty_db_def)
  from draft_order_errors [OF r this] r show ?thesis by blast
qed

end
