(* ===== verification/Saving.thy ===== *)
theory Saving
  imports Correction Release
begin

text \<open>
  A saved correction is the correction the team saw: the rows that are stored afterwards, read in
  the order of the card, are the lines of the preview, and the sums are its sums.
\<close>

section \<open>Sorting\<close>

lemma insort_append:
  "\<forall>y \<in> set ys. f a \<le> f y \<Longrightarrow> insort_key f a (xs @ ys) = insort_key f a xs @ ys"
proof (induction xs)
  case Nil
  then show ?case by (cases ys) auto
qed auto

lemma sort_append:
  "\<forall>a \<in> set xs. \<forall>b \<in> set ys. f a \<le> f b \<Longrightarrow> sort_key f (xs @ ys) = sort_key f xs @ sort_key f ys"
  by (induction xs) (simp_all add: insort_append)

lemma sort_map_key: "(\<And>x. f (h x) = f x) \<Longrightarrow> sort_key f (map h xs) = map h (sort_key f xs)"
proof -
  assume k: "\<And>x. f (h x) = f x"
  have "insort_key f (h a) (map h ys) = map h (insort_key f a ys)" for a ys
    by (induction ys) (simp_all add: k)
  then show ?thesis by (induction xs) simp_all
qed

section \<open>The rows after a correction\<close>

lemma put_line_sel [simp]: "oi_id (put_line l x) = oi_id x" "oi_tenant_id (put_line l x) = oi_tenant_id x"
  "oi_order_id (put_line l x) = oi_order_id x" "oi_created_at (put_line l x) = oi_created_at x"
  "oi_note (put_line l x) = oi_note x"
  by (simp_all add: put_line_def Let_def)

definition line_for :: "(planned_line \<times> row_edit) list \<Rightarrow> order_item \<Rightarrow> planned_line option" where
  "line_for les x = map_option fst (find (\<lambda>le. re_order_item_id (snd le) = oi_id x) les)"

definition stays :: "(planned_line \<times> row_edit) list \<Rightarrow> order_item \<Rightarrow> bool" where
  "stays les x \<longleftrightarrow> (case line_for les x of None \<Rightarrow> True | Some l \<Rightarrow> pln_kind l \<noteq> Removed)"

definition written :: "(planned_line \<times> row_edit) list \<Rightarrow> order_item \<Rightarrow> order_item" where
  "written les x = (case line_for les x of None \<Rightarrow> x | Some l \<Rightarrow> put_line l x)"

lemma written_sel [simp]: "oi_id (written les x) = oi_id x" "oi_tenant_id (written les x) = oi_tenant_id x"
  "oi_order_id (written les x) = oi_order_id x" "oi_created_at (written les x) = oi_created_at x"
  "oi_note (written les x) = oi_note x"
  by (simp_all add: written_def split: option.splits)

text \<open>One position after another, each under its own key: the same as all at once.\<close>

lemma fold_save_row:
  assumes "distinct (map (re_order_item_id \<circ> snd) les)"
  shows "fold save_row les items = map (written les) (filter (stays les) items)"
  using assms
proof (induction les arbitrary: items)
  case Nil
  have "stays [] = (\<lambda>_. True)" "written [] = (\<lambda>x. x)"
    by (auto simp: stays_def written_def line_for_def fun_eq_iff)
  then show ?case by simp
next
  case (Cons le les)
  obtain l e where le: "le = (l, e)" by force
  have other: "line_for les x = None" if "oi_id x = re_order_item_id e" for x
    using Cons.prems that le by (force simp: line_for_def find_None_iff)
  have s: "stays (le # les) x = (if oi_id x = re_order_item_id e then pln_kind l \<noteq> Removed else stays les x)" for x
    by (simp add: stays_def line_for_def le)
  have w: "written (le # les) x = (if oi_id x = re_order_item_id e then put_line l x else written les x)" for x
    by (simp add: written_def line_for_def le)
  have o: "stays les x" "written les x = x" if "oi_id x = re_order_item_id e" for x
    using other [OF that] by (simp_all add: stays_def written_def)
  have "map (written les) (filter (stays les) (save_row le items)) =
      map (written (le # les)) (filter (stays (le # les)) items)"
    by (induction items) (auto simp: save_row_def le o s [unfolded le] w [unfolded le])
  then show ?case using Cons by simp
qed

text \<open>Read in the order of the card: the old positions in their order, then the new ones.\<close>

lemma order_rows_saved:
  assumes les: "distinct (map (re_order_item_id \<circ> snd) (zip planned edits))"
    and fresh: "\<forall>x \<in> set (order_items d). oi_id x < next_id d" and ne: "order_rows d r \<noteq> []"
  shows "order_rows (save_lines r (order_rows d r) edits planned added d) r =
    map (written (zip planned edits)) (filter (stays (zip planned edits)) (order_rows d r)) @
    map (added_item r (next_id d) (max_of (map oi_created_at (order_rows d r)))) (List.enumerate 0 added)"
proof -
  let ?k = "\<lambda>x. (oi_created_at x, oi_id x)"
  let ?own = "\<lambda>x. oi_tenant_id x = o_tenant_id r \<and> oi_order_id x = o_id r"
  let ?les = "zip planned edits"
  let ?last = "max_of (map oi_created_at (order_rows d r))"
  let ?new = "map (added_item r (next_id d) ?last) (List.enumerate 0 added)"
  have own_new: "filter ?own ?new = ?new"
    by (auto simp: filter_id_conv added_item_def)
  have swap: "filter ?own (map (written ?les) xs) = map (written ?les) (filter ?own xs)" for xs
    by (induction xs) auto
  have last: "oi_created_at x \<le> ?last" if "x \<in> set (order_rows d r)" for x
  proof -
    have "y \<in> set ys \<Longrightarrow> y \<le> foldr max ys z" for y z :: int and ys by (induction ys) auto
    then show ?thesis using that by (simp add: max_of_def)
  qed
  have sorted_new: "sort_key ?k ?new = ?new"
  proof (rule sort_key_id_if_sorted)
    have "sorted (map (?k \<circ> added_item r (next_id d) ?last) (List.enumerate n added))" for n
    proof (induction added arbitrary: n)
      case (Cons l ls)
      have "?k (added_item r (next_id d) ?last (n, l)) \<le> ?k (added_item r (next_id d) ?last p)"
        if "p \<in> set (List.enumerate (Suc n) ls)" for p
      proof -
        have "Suc n \<le> fst p" using that by (simp only: in_set_enumerate_eq)
        then show ?thesis by (cases p) (simp add: added_item_def less_eq_prod_def)
      qed
      then show ?case using Cons [of "Suc n"] by (simp del: map_map)
    qed simp
    then show "sorted (map ?k ?new)" by simp
  qed
  have le: "\<forall>a \<in> set (map (written ?les) (filter ?own (filter (stays ?les) (order_items d)))).
      \<forall>b \<in> set ?new. ?k a \<le> ?k b"
  proof (intro ballI)
    fix a b
    assume "a \<in> set (map (written ?les) (filter ?own (filter (stays ?les) (order_items d))))" "b \<in> set ?new"
    then obtain x p where a: "a = written ?les x" "x \<in> set (order_rows d r)"
      and b: "b = added_item r (next_id d) ?last p"
      by (auto simp: order_rows_def)
    have "oi_created_at a < oi_created_at b"
      using last [OF a(2)] by (cases p) (simp add: a b added_item_def)
    then show "?k a \<le> ?k b" by (simp add: less_eq_prod_def)
  qed
  have "order_rows (save_lines r (order_rows d r) edits planned added d) r =
      sort_key ?k (map (written ?les) (filter ?own (filter (stays ?les) (order_items d))) @ ?new)"
    by (subst order_rows_def) (simp add: save_lines_def fold_save_row [OF les] swap own_new del: map_map filter_filter)
  also have "\<dots> = map (written ?les) (sort_key ?k (filter ?own (filter (stays ?les) (order_items d)))) @ ?new"
    using sort_append [OF le] sorted_new sort_map_key [of ?k "written ?les"] by simp
  also have "sort_key ?k (filter ?own (filter (stays ?les) (order_items d))) = filter (stays ?les) (order_rows d r)"
    unfolding order_rows_def filter_sort [symmetric]
    by (simp add: conj_commute)
  finally show ?thesis .
qed

section \<open>Rows and lines\<close>

type_synonym position = "uuid \<times> int \<times> cents \<times> chosen_option list"

definition item_view :: "order_item \<Rightarrow> position" where
  "item_view x = (oi_menu_item_id x, quantity x, unit_price_cents x, oi_options x)"

definition line_view :: "planned_line \<Rightarrow> position" where
  "line_view l = (pln_menu_item_id l, pln_quantity l, pln_unit_price_cents l, pln_options l)"

definition view_cents :: "position \<Rightarrow> cents" where
  "view_cents p = (case p of (_, n, unit, opts) \<Rightarrow> row_cents unit opts * n)"

lemma rows_total_view: "rows_total xs = sum_list (map view_cents (map item_view xs))"
  by (simp add: rows_total_def item_view_def view_cents_def o_def)

lemma lines_total_view: "sum_list (map pln_cents ls) = sum_list (map view_cents (map line_view ls))"
  by (simp add: line_view_def view_cents_def pln_cents_def [abs_def] o_def)

lemma new_line_kind:
  "new_line groups kind menu i n cs nt now = Inr l \<Longrightarrow> pln_kind l = kind \<and> pln_quantity l = n \<and> pln_note l = nt"
  by (auto simp: new_line_def Let_def split: option.splits)

lemma plan_row_view:
  assumes "plan_row groups menu now (row, label, edit) = Inr l" and "pln_kind l \<noteq> Removed"
  shows "item_view (put_line l row) = line_view l"
proof (cases "swap_to edit")
  case None
  then show ?thesis using assms
    by (auto simp: plan_row_def Let_def stored_line_def put_line_def item_view_def line_view_def split: if_splits)
next
  case (Some new)
  have "(\<exists>n. new_line groups Swapped menu new n (re_options edit) (oi_note row) now = Inr m) \<Longrightarrow> pln_kind m = Swapped" for m
    using new_line_kind by blast
  with Some show ?thesis using assms
    by (fastforce simp: plan_row_def Let_def stored_line_def put_line_def item_view_def line_view_def split: if_splits)
qed

lemma added_view: "map item_view (map (added_item r i t) (List.enumerate k ls)) = map line_view ls"
  by (induction ls arbitrary: k) (simp_all add: added_item_def item_view_def line_view_def)

lemma edit_key: "edit_of q i = Some e \<Longrightarrow> re_order_item_id e = i"
  by (auto simp: edit_of_def dest: find_SomeD)

lemma row_edits_keys:
  "row_edits rows q = Inr edits \<Longrightarrow> map re_order_item_id edits = map oi_id rows"
  by (auto simp: row_edits_def no_edit_def dest: edit_key split: option.splits if_splits)

lemma line_for_zip:
  assumes "map re_order_item_id edits = map oi_id rows" and "distinct (map oi_id rows)"
    and "(x, l) \<in> set (zip rows planned)" and "length planned = length rows"
  shows "line_for (zip planned edits) x = Some l"
proof -
  have len: "length edits = length rows" using assms(1) by (metis length_map)
  obtain i where i: "i < length rows" "x = rows ! i" "l = planned ! i"
    using assms(3) by (auto simp: in_set_zip)
  have key: "re_order_item_id (edits ! j) = oi_id (rows ! j)" if "j < length rows" for j
    using assms(1) that len by (metis nth_map)
  let ?zs = "zip planned edits"
  have "distinct (map (re_order_item_id \<circ> snd) ?zs)"
    using assms(1,2,4) len by (simp add: map_map [symmetric] del: map_map)
  moreover have "(planned ! i, edits ! i) \<in> set ?zs" using i(1) assms(4) len by (auto simp: in_set_zip)
  ultimately have "find (\<lambda>le. re_order_item_id (snd le) = re_order_item_id (edits ! i)) ?zs
      = Some (planned ! i, edits ! i)"
    using distinct_key_find [of "re_order_item_id \<circ> snd" ?zs "(planned ! i, edits ! i)"] by simp
  then show ?thesis using key [OF i(1)] i by (simp add: line_for_def)
qed

text \<open>The rows that are stored, read in the order of the card, are the lines of the plan.\<close>

lemma saved_view:
  assumes edits: "row_edits (order_rows d r) q = Inr edits"
    and plan: "map_res (plan_row groups menu now) (zip (order_rows d r) (zip labels edits)) = Inr planned"
    and len: "length labels = length (order_rows d r)"
    and keys: "distinct (map oi_id (order_items d))" "\<forall>x \<in> set (order_items d). oi_id x < next_id d"
    and ne: "order_rows d r \<noteq> []"
  shows "map item_view (order_rows (save_lines r (order_rows d r) edits planned added d) r) =
    map line_view (remaining planned added)"
proof -
  let ?rows = "order_rows d r"
  let ?les = "zip planned edits"
  have e: "map re_order_item_id edits = map oi_id ?rows" by (rule row_edits_keys [OF edits])
  have elen: "length edits = length ?rows" using e by (metis length_map)
  have dist: "distinct (map oi_id ?rows)"
    using keys(1) by (auto simp: order_rows_def distinct_map intro: inj_on_subset)
  have la: "list_all2 (\<lambda>x l. plan_row groups menu now x = Inr l) (zip ?rows (zip labels edits)) planned"
    using plan by (simp add: map_res_Inr)
  then have plen: "length planned = length ?rows" using len elen by (auto dest: list_all2_lengthD)
  have lf: "line_for ?les x = Some l" if "(x, l) \<in> set (zip ?rows planned)" for x l
    by (rule line_for_zip [OF e dist that plen])
  have view: "item_view (put_line l x) = line_view l"
    if "(x, l) \<in> set (zip ?rows planned)" "pln_kind l \<noteq> Removed" for x l
  proof -
    obtain i where i: "i < length ?rows" "x = ?rows ! i" "l = planned ! i"
      using \<open>(x, l) \<in> set (zip ?rows planned)\<close> by (auto simp: in_set_zip)
    then have "plan_row groups menu now (x, labels ! i, edits ! i) = Inr l"
      using la len elen plen by (auto simp: list_all2_conv_all_nth)
    from plan_row_view [OF this] that show ?thesis by blast
  qed
  have dk: "distinct (map (re_order_item_id \<circ> snd) ?les)"
    using e dist plen elen by (simp add: map_map [symmetric] del: map_map)
  let ?zs = "zip ?rows planned"
  have zs: "?rows = map fst ?zs" "planned = map snd ?zs" using plen by simp_all
  have "map item_view (map (written ?les) (filter (stays ?les) ?rows)) =
      map (\<lambda>z. item_view (written ?les (fst z))) (filter (\<lambda>z. stays ?les (fst z)) ?zs)"
    by (subst zs(1)) (simp add: filter_map o_def)
  also have "\<dots> = map (\<lambda>z. line_view (snd z)) (filter (\<lambda>z. pln_kind (snd z) \<noteq> Removed) ?zs)"
  proof (rule map_cong)
    show "filter (\<lambda>z. stays ?les (fst z)) ?zs = filter (\<lambda>z. pln_kind (snd z) \<noteq> Removed) ?zs"
      by (rule filter_cong [OF refl]) (use lf in \<open>auto simp: stays_def\<close>)
    show "item_view (written ?les (fst z)) = line_view (snd z)"
      if "z \<in> set (filter (\<lambda>z. pln_kind (snd z) \<noteq> Removed) ?zs)" for z
    proof -
      have z: "(fst z, snd z) \<in> set ?zs" "pln_kind (snd z) \<noteq> Removed" using that by simp_all
      show ?thesis using lf [OF z(1)] view [OF z] by (simp add: written_def)
    qed
  qed
  also have "\<dots> = map line_view (filter (\<lambda>l. pln_kind l \<noteq> Removed) planned)"
    using filter_map [of "\<lambda>l. pln_kind l \<noteq> Removed" snd ?zs] plen by (simp add: o_def)
  finally show ?thesis
    unfolding order_rows_saved [OF dk keys(2) ne] by (simp only: map_append added_view remaining_def)
qed

section \<open>The whole correction\<close>

lemma live_order_facts:
  "live_order d tid oid = Some r \<Longrightarrow> o_id r = oid \<and> o_tenant_id r = tid \<and> o_deleted_at r = None \<and> r \<in> set (orders d)"
  by (auto simp: live_order_def dest: find_SomeD)

lemma live_order_put:
  assumes "live_order d tid oid = Some r" and "o_id r' = oid" and "o_tenant_id r' = tid" and "o_deleted_at r' = None"
    and "orders d' = upd_rows (\<lambda>x. o_id x = oid) (\<lambda>_. r') (orders d)"
  shows "live_order d' tid oid = Some r'"
proof -
  have "find (\<lambda>r. o_id r = oid \<and> o_tenant_id r = tid \<and> o_deleted_at r = None) (upd_rows (\<lambda>x. o_id x = oid) (\<lambda>_. r') xs) = Some r'"
    if "find (\<lambda>r. o_id r = oid \<and> o_tenant_id r = tid \<and> o_deleted_at r = None) xs = Some r" for xs
    using that assms(2-4) by (induction xs) (auto split: if_splits)
  then show ?thesis using assms(1,5) by (simp add: live_order_def)
qed

lemma live_order_upd:
  assumes "live_order d tid oid = Some r"
    and "\<And>x. o_id (f x) = o_id x" "\<And>x. o_tenant_id (f x) = o_tenant_id x" "\<And>x. o_deleted_at (f x) = o_deleted_at x"
    and "orders d' = upd_rows (\<lambda>x. o_id x = oid) f (orders d)"
  shows "live_order d' tid oid = Some (f r)"
  using assms(1) live_order_facts [OF assms(1)] unfolding live_order_def assms(5)
  by (subst find_upd_rows) (simp_all add: assms(2-4))

lemma send_ticket_frame:
  assumes "send_ticket locked r reason d = Inr (e, d')"
  shows "orders d' = orders d" "order_items d' = order_items d" "audit d' = audit d" "tenants d' = tenants d"
    "addresses d' = addresses d" "calls d' = calls d" "service_configs d' = service_configs d" "tx_now d' = tx_now d"
    "next_id d \<le> next_id d'"
  using assms by (auto simp: send_ticket_def Let_def set_event_def split: if_splits)

lemma settle_default_frame [simp]:
  "orders (settle_default r d) = orders d" "order_items (settle_default r d) = order_items d"
  "audit (settle_default r d) = audit d" "outbox (settle_default r d) = outbox d"
  "tenants (settle_default r d) = tenants d" "calls (settle_default r d) = calls d"
  "next_id (settle_default r d) = next_id d" "tx_now (settle_default r d) = tx_now d"
  "service_configs (settle_default r d) = service_configs d"
  by (simp_all add: settle_default_def Let_def)

lemma settle_if_frame [simp]:
  "orders (settle_default_if_marked r d) = orders d" "order_items (settle_default_if_marked r d) = order_items d"
  "audit (settle_default_if_marked r d) = audit d" "outbox (settle_default_if_marked r d) = outbox d"
  "tenants (settle_default_if_marked r d) = tenants d" "calls (settle_default_if_marked r d) = calls d"
  "next_id (settle_default_if_marked r d) = next_id d" "tx_now (settle_default_if_marked r d) = tx_now d"
  "service_configs (settle_default_if_marked r d) = service_configs d"
  by (simp_all add: settle_default_if_marked_def)

lemma move_order_form:
  assumes "(r1, d1) = move_order r cu said z d"
  shows "(\<exists>ads n. d1 = d\<lparr>addresses := ads, next_id := n\<rparr> \<and> next_id d \<le> n) \<and>
    (\<exists>a. r1 = r\<lparr>o_address_id := Some a, delivery_fee_cents := dc_fee_cents z\<rparr>)"
proof -
  obtain a d2 where a: "address_row (o_tenant_id r) cu said d = (a, d2)" by force
  from address_row_form [OF a] obtain ads n where "d2 = d\<lparr>addresses := ads, next_id := n\<rparr>" "next_id d \<le> n" by blast
  then have "d1 = d\<lparr>addresses := addresses d1, next_id := n\<rparr>" "next_id d \<le> n"
    "r1 = r\<lparr>o_address_id := Some (a_id a), delivery_fee_cents := dc_fee_cents z\<rparr>"
    using assms a by (simp_all add: move_order_def)
  then show ?thesis by blast
qed

text \<open>The order as the correction leaves it, before the slip: what it keeps and what it sets.\<close>

definition moves_to :: "order \<Rightarrow> correction_plan \<Rightarrow> bool" where
  "moves_to r plan \<longleftrightarrow> ap_new (cp_where plan) \<noteq> None \<and> ap_zone (cp_where plan) \<noteq> None \<and> o_customer_id r \<noteq> None"

lemma corrected_order_form:
  assumes "corrected_order r plan d = (r', d')"
  shows "orders d' = upd_rows (\<lambda>x. o_id x = o_id r) (\<lambda>_. r') (orders d)" "order_items d' = order_items d"
    "audit d' = audit d" "outbox d' = outbox d" "tenants d' = tenants d" "calls d' = calls d"
    "service_configs d' = service_configs d" "tx_now d' = tx_now d" "next_id d \<le> next_id d'"
    "o_id r' = o_id r" "o_tenant_id r' = o_tenant_id r" "o_deleted_at r' = o_deleted_at r"
    "o_status r' = o_status r" "handover_state r' = handover_state r" "o_call_id r' = o_call_id r"
    "pickup_code r' = pickup_code r" "o_created_at r' = o_created_at r" "o_type r' = o_type r"
    "register_entered_at r' = None" "items_total_cents r' = rows_total (order_rows d r)"
    "total_cents r' = items_total_cents r' + delivery_fee_cents r'"
    "delivery_fee_cents r' = (case (ap_new (cp_where plan), ap_zone (cp_where plan), o_customer_id r) of
       (Some _, Some z, Some _) \<Rightarrow> dc_fee_cents z | _ \<Rightarrow> delivery_fee_cents r)"
    "o_address_id r = None \<Longrightarrow> ap_new (cp_where plan) = None \<Longrightarrow> o_address_id r' = None"
proof -
  define m where "m = (case (ap_new (cp_where plan), ap_zone (cp_where plan), o_customer_id r) of
      (Some said, Some zone, Some cu) \<Rightarrow> move_order r cu said zone d | _ \<Rightarrow> (r, d))"
  obtain r1 d1 where m1: "m = (r1, d1)" by force
  have r1: "r1 = r \<and> d1 = d \<and> \<not> moves_to r plan \<or>
      (\<exists>cu said z. ap_new (cp_where plan) = Some said \<and> ap_zone (cp_where plan) = Some z \<and>
         o_customer_id r = Some cu \<and> (r1, d1) = move_order r cu said z d)"
    using m1 by (auto simp: m_def moves_to_def split: option.splits)
  then have d1: "orders d1 = orders d \<and> order_items d1 = order_items d \<and> audit d1 = audit d \<and>
      outbox d1 = outbox d \<and> tenants d1 = tenants d \<and> calls d1 = calls d \<and>
      service_configs d1 = service_configs d \<and> tx_now d1 = tx_now d \<and> next_id d \<le> next_id d1"
    using move_order_form by (fastforce simp: eq_commute)
  have k: "r1 = r \<or> (\<exists>a f. r1 = r\<lparr>o_address_id := Some a, delivery_fee_cents := f\<rparr>)"
    using r1 move_order_form by metis
  have keep: "o_id r1 = o_id r \<and> o_tenant_id r1 = o_tenant_id r \<and> o_deleted_at r1 = o_deleted_at r \<and>
      o_status r1 = o_status r \<and> handover_state r1 = handover_state r \<and> o_call_id r1 = o_call_id r \<and>
      pickup_code r1 = pickup_code r \<and> o_created_at r1 = o_created_at r \<and> o_type r1 = o_type r"
    using k by auto
  have fee: "delivery_fee_cents r1 = (case (ap_new (cp_where plan), ap_zone (cp_where plan), o_customer_id r) of
       (Some _, Some z, Some _) \<Rightarrow> dc_fee_cents z | _ \<Rightarrow> delivery_fee_cents r)"
    using r1
  proof
    assume "r1 = r \<and> d1 = d \<and> \<not> moves_to r plan"
    then show ?thesis by (auto simp: moves_to_def split: option.splits)
  next
    assume "\<exists>cu said z. ap_new (cp_where plan) = Some said \<and> ap_zone (cp_where plan) = Some z \<and>
         o_customer_id r = Some cu \<and> (r1, d1) = move_order r cu said z d"
    then show ?thesis using move_order_form by fastforce
  qed
  have addr: "ap_new (cp_where plan) = None \<Longrightarrow> o_address_id r1 = o_address_id r" using r1 by auto
  have r': "r' = r1\<lparr>items_total_cents := rows_total (order_rows d r),
      total_cents := rows_total (order_rows d r) + delivery_fee_cents r1, register_entered_at := None\<rparr>"
    and d': "d' = set_order (o_id r) (\<lambda>_. r') d1"
    using assms [unfolded corrected_order_def Let_def, folded m_def, unfolded m1 prod.case] keep
    by (auto simp: rows_total_def)
  show "orders d' = upd_rows (\<lambda>x. o_id x = o_id r) (\<lambda>_. r') (orders d)" "order_items d' = order_items d"
    "audit d' = audit d" "outbox d' = outbox d" "tenants d' = tenants d" "calls d' = calls d"
    "service_configs d' = service_configs d" "tx_now d' = tx_now d" "next_id d \<le> next_id d'"
    using d1 by (simp_all add: d' set_order_def)
  show "o_id r' = o_id r" "o_tenant_id r' = o_tenant_id r" "o_deleted_at r' = o_deleted_at r"
    "o_status r' = o_status r" "handover_state r' = handover_state r" "o_call_id r' = o_call_id r"
    "pickup_code r' = pickup_code r" "o_created_at r' = o_created_at r" "o_type r' = o_type r"
    "register_entered_at r' = None" "items_total_cents r' = rows_total (order_rows d r)"
    "total_cents r' = items_total_cents r' + delivery_fee_cents r'"
    using keep by (simp_all add: r')
  show "delivery_fee_cents r' = (case (ap_new (cp_where plan), ap_zone (cp_where plan), o_customer_id r) of
       (Some _, Some z, Some _) \<Rightarrow> dc_fee_cents z | _ \<Rightarrow> delivery_fee_cents r)"
    using fee by (simp add: r')
  show "o_address_id r = None \<Longrightarrow> ap_new (cp_where plan) = None \<Longrightarrow> o_address_id r' = None"
    using addr by (simp add: r')
qed

lemma labels_length: "labels_for_rows d oid rows known = Inr ls \<Longrightarrow> length ls = length rows"
  by (auto simp: labels_for_rows_def menu_labels_def map_res_Inr dest: list_all2_lengthD
      split: option.splits if_splits)

lemma plan_where_zone:
  assumes "plan_where d r edit now = Inr wh" and "ap_zone wh \<noteq> None"
  shows "ap_new wh \<noteq> None \<and> o_customer_id r \<noteq> None"
  using assms by (auto simp: plan_where_def Let_def split: option.splits if_splits sum.splits)

lemma plan_correction_parts:
  assumes "plan_correction coll md5 d r rows q now = Inr plan"
  obtains edits labels menu where "row_edits rows q = Inr edits" and "length labels = length rows"
    and "map_res (plan_row (option_groups coll d) menu now) (zip rows (zip labels edits)) = Inr (cp_rows plan)"
    and "cp_items_total_cents plan = sum_list (map pln_cents (remaining (cp_rows plan) (cp_added plan)))"
    and "cp_total_cents plan = cp_items_total_cents plan + cp_fee_cents plan"
    and "cp_fee_cents plan = (case ap_zone (cp_where plan) of Some z \<Rightarrow> dc_fee_cents z | None \<Rightarrow> delivery_fee_cents r)"
    and "ap_zone (cp_where plan) \<noteq> None \<Longrightarrow> ap_new (cp_where plan) \<noteq> None \<and> o_customer_id r \<noteq> None"
proof -
  obtain edits labels menu planned added wh where p: "row_edits rows q = Inr edits"
    "labels_for_rows d (o_id r) rows None = Inr labels"
    "map_res (plan_row (option_groups coll d) menu now) (zip rows (zip labels edits)) = Inr planned"
    "plan_where d r (cr_address q) now = Inr wh" and plan: "finished_plan md5 r rows planned added wh = plan"
    using assms by (auto simp: plan_correction_def Let_def)
  show thesis
    by (rule that [OF p(1) labels_length [OF p(2)], of menu])
      (use p plan_where_zone in \<open>simp_all add: plan [symmetric] finished_plan_def Let_def\<close>)
qed

lemma correction_checks_parts:
  assumes "correction_checks coll md5 d r q reason now = Inr ((edits, labels), plan)"
  shows "plan_correction coll md5 d r (order_rows d r) q now = Inr plan" and "cp_blockers plan = []"
    and "row_edits (order_rows d r) q = Inr edits" and "cr_version q = order_version md5 (order_rows d r) r"
    and "check_notes (order_rows d r) q = Inr ()" and "reason \<in> fst ` set (reasons_for r)"
    and "reason = ''wrong_address'' \<Longrightarrow> ap_new (cp_where plan) \<noteq> None"
  using assms by (auto simp: correction_checks_def Let_def split: if_splits list.splits)

lemma apply_correction_cases:
  assumes "apply_correction locked coll md5 tid oid q reason who now d = Inr d'"
  obtains (again) r where "live_order d tid oid = Some r" and "already_saved d r (cr_edit_id q)" and "d' = d"
  | (saved) r edits labels plan r' d2 p where "live_order d tid oid = Some r" and "o_status r \<in> set EDITABLE"
    and "correction_checks coll md5 d r q reason now = Inr ((edits, labels), plan)"
    and "order_rows d r \<noteq> []"
    and "corrected_order r plan (corrected_rows r edits plan d) = (r', d2)"
    and "resend_corrected locked r' reason
      ((if ap_new (cp_where plan) \<noteq> None then settle_default_if_marked r' else id)
        (add_audit (o_tenant_id r) who ACTION_CORRECTED ''order'' (o_id r) p d2)) = Inr d'"
    and "jget ''labels'' p = Some (labels_json (map (\<lambda>l. (pln_number l, pln_name l))
      (remaining (cp_rows plan) (cp_added plan))))"
proof -
  obtain r where r: "live_order d tid oid = Some r" and st: "o_status r \<in> set EDITABLE"
    using assms by (auto simp: apply_correction_def split: option.splits if_splits)
  show thesis
  proof (cases "cr_edit_id q \<noteq> [] \<and> already_saved d r (cr_edit_id q)")
    case True
    have "apply_correction locked coll md5 tid oid q reason who now d = Inr d"
      unfolding apply_correction_def r option.case
      by (subst if_not_P, simp add: st, subst if_P, rule True, rule refl)
    then show ?thesis using again [OF r] True assms by simp
  next
    case False
    have "\<exists>x. correction_checks coll md5 d r q reason now = Inr x"
    proof (cases "correction_checks coll md5 d r q reason now")
      case (Inl e)
      have "apply_correction locked coll md5 tid oid q reason who now d = Inl e"
        unfolding apply_correction_def r option.case
        by (subst if_not_P, simp add: st, subst if_not_P, rule False) (simp only: Inl andthen_simps)
      then show ?thesis using assms by simp
    qed simp
    then obtain edits labels plan where c: "correction_checks coll md5 d r q reason now = Inr ((edits, labels), plan)"
      by (metis prod.exhaust)
    obtain r' d2 where o: "corrected_order r plan (corrected_rows r edits plan d) = (r', d2)" by force
    define al where "al = map (\<lambda>l. (pln_number l, pln_name l)) (remaining (cp_rows plan) (cp_added plan))"
    define p where "p = correction_audit r r' q reason (order_rows d r) labels
      (order_rows (corrected_rows r edits plan d) r) al (ap_new (cp_where plan) \<noteq> None)"
    let ?resent = "resend_corrected locked r' reason
      ((if ap_new (cp_where plan) \<noteq> None then settle_default_if_marked r' else id)
        (add_audit (o_tenant_id r) who ACTION_CORRECTED ''order'' (o_id r) p d2))"
    have "apply_correction locked coll md5 tid oid q reason who now d =
        (if order_rows d r = [] \<or> length (order_rows (corrected_rows r edits plan d) r) \<noteq> length al
         then raise_err UncaughtError None else ?resent)"
      unfolding apply_correction_def r option.case
      by (subst if_not_P, simp add: st, subst if_not_P, rule False)
        (simp only: c andthen_simps prod.case Let_def o al_def [symmetric] p_def [symmetric]
          if_distrib [where f = "\<lambda>f. f _"] if_distribR id_apply)
    then have "order_rows d r \<noteq> []" "?resent = Inr d'"
      using assms by (auto split: if_splits)
    moreover have "jget ''labels'' p = Some (labels_json al)" by (simp add: p_def correction_audit_def)
    ultimately show ?thesis using saved [OF r st c _ o] by (simp add: al_def)
  qed
qed

lemma order_rows_cong:
  "order_items d' = order_items d \<Longrightarrow> o_id r' = o_id r \<Longrightarrow> o_tenant_id r' = o_tenant_id r \<Longrightarrow>
   order_rows d' r' = order_rows d r"
  by (simp add: order_rows_def)

lemma resend_form:
  assumes "resend_corrected locked r reason d = Inr d'"
  shows "handover_state r = None \<and> d' = d \<or> handover_state r \<noteq> None \<and>
    (\<exists>e why d1. send_ticket locked r why d = Inr (e, d1) \<and> d' = set_handover (o_id r) (Some PENDING) d1)"
  using assms by (auto simp: resend_corrected_def Let_def split: if_splits)

lemma resend_orders:
  assumes "resend_corrected locked r reason d = Inr d'"
  shows "order_items d' = order_items d" "audit d' = audit d" "tenants d' = tenants d" "calls d' = calls d"
    "next_id d \<le> next_id d'" "tx_now d' = tx_now d"
    "orders d' = (if handover_state r = None then orders d
       else upd_rows (\<lambda>x. o_id x = o_id r) (\<lambda>x. x\<lparr>handover_state := Some PENDING\<rparr>) (orders d))"
  using resend_form [OF assms] by (auto simp: set_handover_def set_order_def dest: send_ticket_frame)

lemma settle_choice [simp]:
  "orders ((if b then settle_default_if_marked r else id) d) = orders d"
  "order_items ((if b then settle_default_if_marked r else id) d) = order_items d"
  "audit ((if b then settle_default_if_marked r else id) d) = audit d"
  "outbox ((if b then settle_default_if_marked r else id) d) = outbox d"
  "tenants ((if b then settle_default_if_marked r else id) d) = tenants d"
  "calls ((if b then settle_default_if_marked r else id) d) = calls d"
  "next_id ((if b then settle_default_if_marked r else id) d) = next_id d"
  "tx_now ((if b then settle_default_if_marked r else id) d) = tx_now d"
  by simp_all

text \<open>The row of the order that a saved correction leaves behind.\<close>

lemma saved_order:
  assumes r: "live_order d tid oid = Some r"
    and o: "corrected_order r plan (corrected_rows r edits plan d) = (r', d2)"
    and e: "resend_corrected locked r' reason
      ((if b then settle_default_if_marked r' else id) (add_audit t who a en i p d2)) = Inr d'"
  shows "\<exists>h. live_order d' tid oid = Some (r'\<lparr>handover_state := h\<rparr>) \<and>
    order_items d' = order_items (corrected_rows r edits plan d)"
proof -
  note f = corrected_order_form [OF o] and g = resend_orders [OF e]
  note i = live_order_facts [OF r]
  have "live_order (corrected_rows r edits plan d) tid oid = Some r"
    using r by (simp add: live_order_def corrected_rows_def save_lines_def)
  from live_order_put [OF this _ _ _ f(1) [unfolded conjunct1 [OF i]]] i f(10-12)
  have "live_order d2 tid oid = Some r'" by simp
  then have l: "live_order ((if b then settle_default_if_marked r' else id) (add_audit t who a en i p d2)) tid oid = Some r'"
    by (simp add: live_order_def)
  have "r' = r'\<lparr>handover_state := handover_state r'\<rparr>" by simp
  moreover have "live_order d' tid oid = Some (r'\<lparr>handover_state := Some PENDING\<rparr>)" if "handover_state r' \<noteq> None"
    by (rule live_order_upd [OF l, where f = "\<lambda>x. x\<lparr>handover_state := Some PENDING\<rparr>"])
      (use g(7) that i f(10) in simp_all)
  moreover have "live_order d' tid oid = Some r'" if "handover_state r' = None"
    using g(7) that l by (simp add: live_order_def)
  moreover have "order_items d' = order_items (corrected_rows r edits plan d)"
    using g(1) f(2) by (simp add: add_audit_def)
  ultimately show ?thesis by metis
qed

text \<open>C20. What is saved is what was previewed: the rows of the order, read in the order of the card, are
  position by position the lines of the preview with their prices, and items, fee and total are
  those of the preview and the sum of the rows. The mark of the register is gone.\<close>

theorem correction_saves_preview:
  assumes "preview_correction coll md5 d tid oid (Some q) now = Inr plan"
    and "apply_correction locked coll md5 tid oid q reason who now d = Inr d'"
    and "\<And>r. live_order d tid oid = Some r \<Longrightarrow> \<not> already_saved d r (cr_edit_id q)"
    and "distinct (map oi_id (order_items d))" and "\<forall>x \<in> set (order_items d). oi_id x < next_id d"
  shows "\<exists>r'. live_order d' tid oid = Some r' \<and>
    map item_view (order_rows d' r') = map line_view (remaining (cp_rows plan) (cp_added plan)) \<and>
    items_total_cents r' = cp_items_total_cents plan \<and> delivery_fee_cents r' = cp_fee_cents plan \<and>
    total_cents r' = cp_total_cents plan \<and> items_total_cents r' = rows_total (order_rows d' r') \<and>
    total_cents r' = items_total_cents r' + delivery_fee_cents r' \<and> register_entered_at r' = None"
  using assms(2)
proof (cases rule: apply_correction_cases)
  case (again r)
  then show ?thesis using assms(3) by blast
next
  case (saved r edits labels plan' r' d2 p)
  let ?d1 = "corrected_rows r edits plan' d"
  note c = correction_checks_parts [OF saved(3)]
  have "plan' = plan"
    using assms(1) c(1,4) saved(1,2) by (simp add: preview_correction_def Let_def)
  note o = saved(5) [unfolded \<open>plan' = plan\<close>] and e = saved(6) [unfolded \<open>plan' = plan\<close>]
  obtain edits' labels' menu where pl: "row_edits (order_rows d r) q = Inr edits'" "length labels' = length (order_rows d r)"
    "map_res (plan_row (option_groups coll d) menu now) (zip (order_rows d r) (zip labels' edits')) = Inr (cp_rows plan)"
    and sums: "cp_items_total_cents plan = sum_list (map pln_cents (remaining (cp_rows plan) (cp_added plan)))"
      "cp_total_cents plan = cp_items_total_cents plan + cp_fee_cents plan"
    and fee: "cp_fee_cents plan = (case ap_zone (cp_where plan) of Some z \<Rightarrow> dc_fee_cents z | None \<Rightarrow> delivery_fee_cents r)"
    and zone: "ap_zone (cp_where plan) \<noteq> None \<Longrightarrow> ap_new (cp_where plan) \<noteq> None \<and> o_customer_id r \<noteq> None"
    by (rule plan_correction_parts [OF c(1) [unfolded \<open>plan' = plan\<close>]], rule that; assumption)
  have "edits' = edits" using pl(1) c(3) by simp
  note view = saved_view [OF pl(1,3,2) assms(4,5) saved(4), unfolded \<open>edits' = edits\<close>]
  obtain h where h: "live_order d' tid oid = Some (r'\<lparr>handover_state := h\<rparr>)"
    and it: "order_items d' = order_items (corrected_rows r edits plan d)"
    using saved_order [OF saved(1) o e] by blast
  note f = corrected_order_form [OF o]
  have rows: "order_rows d' (r'\<lparr>handover_state := h\<rparr>) = order_rows (corrected_rows r edits plan d) r"
    by (rule order_rows_cong) (simp_all add: it f(10,11))
  have v: "map item_view (order_rows (corrected_rows r edits plan d) r) =
      map line_view (remaining (cp_rows plan) (cp_added plan))"
    unfolding corrected_rows_def by (rule view)
  have total: "rows_total (order_rows (corrected_rows r edits plan d) r) = cp_items_total_cents plan"
    unfolding rows_total_view v sums(1) lines_total_view ..
  have "delivery_fee_cents r' = cp_fee_cents plan"
    using f(22) zone unfolding fee by (auto split: option.splits)
  then show ?thesis
    using h rows v total f(19-21) sums(2) by (intro exI [of _ "r'\<lparr>handover_state := h\<rparr>"]) simp
qed

section \<open>A third duck\<close>

text \<open>The ducks wait for the team; the team makes three of two.\<close>

definition waiting_order :: order where
  "waiting_order = ducks_order\<lparr>o_status := OConfirmed, pickup_code := Some ''A1''\<rparr>"

definition waiting_db :: db where
  "waiting_db = ducks_db\<lparr>orders := [waiting_order]\<rparr>"

definition digest :: "json \<Rightarrow> str" where
  "digest j = (case j of JList xs \<Rightarrow> str_nat (length xs) | _ \<Rightarrow> [])"

definition by_length :: "str \<Rightarrow> int" where "by_length s = int (length s)"

definition third_duck :: correction_request where
  "third_duck = \<lparr>cr_version = ''2'', cr_rows = [\<lparr>re_order_item_id = 102, re_quantity = 3, swap_to = None,
     re_options = [], drop_note = False\<rparr>], cr_added = [], cr_edit_id = ''e1'', cr_address = None\<rparr>"

definition third_plan :: "app_error + correction_plan" where
  "third_plan = preview_correction by_length digest waiting_db 7 101 (Some third_duck) noon"

definition nobody :: "uuid \<Rightarrow> bool" where "nobody i = False"

definition third_saved :: "app_error + db" where
  "third_saved = apply_correction nobody by_length digest 7 101 third_duck ''wrong_quantity'' ACTOR_TABLET noon waiting_db"

theorem correction_saves_preview_witness:
  "\<exists>plan d' r'. third_plan = Inr plan \<and> third_saved = Inr d' \<and> live_order d' 7 101 = Some r' \<and>
     cp_total_cents plan = 3250 \<and> total_cents r' = 3250 \<and> rows_total (order_rows d' r') = 3000"
proof -
  have "(case third_plan of Inl _ \<Rightarrow> False | Inr p \<Rightarrow> cp_total_cents p = 3250 \<and> cp_items_total_cents p = 3000)"
    by code_simp
  then obtain plan where p: "third_plan = Inr plan" "cp_total_cents plan = 3250" "cp_items_total_cents plan = 3000"
    by (auto split: sum.splits)
  have "\<not> isl third_saved" by code_simp
  then obtain d' where s: "third_saved = Inr d'" by (auto simp: isl_def split: sum.splits) (metis sum.collapse(2) sum.exhaust_sel)
  have "\<not> already_saved waiting_db waiting_order ''e1''" by code_simp
  moreover have "live_order waiting_db 7 101 = Some waiting_order"
    by (simp add: waiting_db_def live_order_def waiting_order_def ducks_order_def)
  ultimately have a: "\<not> already_saved waiting_db r (cr_edit_id third_duck)" if "live_order waiting_db 7 101 = Some r" for r
    using that by (simp add: third_duck_def)
  have k: "distinct (map oi_id (order_items waiting_db))" "\<forall>x \<in> set (order_items waiting_db). oi_id x < next_id waiting_db"
    by (simp_all add: waiting_db_def ducks_db_def)
  from correction_saves_preview [OF p(1) [unfolded third_plan_def] s [unfolded third_saved_def] a k] p s
  show ?thesis by metis
qed

end
