(* ===== verification/KitchenRun.thy ===== *)
theory KitchenRun
  imports Board Saving
begin

text \<open>
  The kitchen's outbox as a machine: pickups, reports, the watchdog, new and withdrawn tickets in
  any order, at any time, from any number of bridges and tablets. The ghost state \<open>held\<close> are the
  tickets the bridge may have printed: picked up, and no print error came back for the last
  pickup.
\<close>

section \<open>How a step changes the outbox\<close>

text \<open>Every row stays under its key, new rows get the next keys, and \<open>Q\<close> relates the old and the
  new value of a row.\<close>

definition evolves :: "(outbox_event \<Rightarrow> outbox_event \<Rightarrow> bool) \<Rightarrow> db \<Rightarrow> db \<Rightarrow> bool" where
  "evolves Q d d' \<longleftrightarrow> next_id d \<le> next_id d' \<and>
     (\<exists>f new. outbox d' = map f (outbox d) @ new \<and> (\<forall>e \<in> set (outbox d). ev_id (f e) = ev_id e \<and> Q e (f e)) \<and>
        distinct (map ev_id new) \<and> (\<forall>e \<in> set new. next_id d \<le> ev_id e \<and> ev_id e < next_id d'))"

definition keys_ok :: "db \<Rightarrow> bool" where
  "keys_ok d \<longleftrightarrow> distinct (map ev_id (outbox d)) \<and> (\<forall>e \<in> set (outbox d). ev_id e < next_id d)"

lemma evolvesI:
  assumes "outbox d' = map f (outbox d) @ new" and "next_id d \<le> next_id d'"
    and "\<And>e. e \<in> set (outbox d) \<Longrightarrow> ev_id (f e) = ev_id e \<and> Q e (f e)"
    and "distinct (map ev_id new)" and "\<And>e. e \<in> set new \<Longrightarrow> next_id d \<le> ev_id e \<and> ev_id e < next_id d'"
  shows "evolves Q d d'"
  using assms unfolding evolves_def by blast

lemma evolves_keys: "evolves Q d d' \<Longrightarrow> keys_ok d \<Longrightarrow> keys_ok d'"
proof -
  assume "evolves Q d d'" and k: "keys_ok d"
  then obtain f new where o: "outbox d' = map f (outbox d) @ new" and le: "next_id d \<le> next_id d'"
    and f: "\<forall>e \<in> set (outbox d). ev_id (f e) = ev_id e" and n: "distinct (map ev_id new)"
    "\<forall>e \<in> set new. next_id d \<le> ev_id e \<and> ev_id e < next_id d'" by (auto simp: evolves_def)
  have ids: "map ev_id (map f (outbox d)) = map ev_id (outbox d)" using f by simp
  have "distinct (map ev_id (outbox d'))"
    unfolding o map_append distinct_append ids using k n by (fastforce simp: keys_ok_def)
  moreover have "\<forall>e \<in> set (outbox d'). ev_id e < next_id d'"
    unfolding o using f n le k by (fastforce simp: keys_ok_def)
  ultimately show "keys_ok d'" by (simp add: keys_ok_def)
qed

lemma evolves_trans:
  assumes "evolves Q a b" and "evolves Q b c" and "\<And>x y z. Q x y \<Longrightarrow> Q y z \<Longrightarrow> Q x z"
  shows "evolves Q a c"
proof -
  obtain f new where 1: "outbox b = map f (outbox a) @ new" "next_id a \<le> next_id b"
    "\<forall>e \<in> set (outbox a). ev_id (f e) = ev_id e \<and> Q e (f e)" "distinct (map ev_id new)"
    "\<forall>e \<in> set new. next_id a \<le> ev_id e \<and> ev_id e < next_id b" using assms(1) by (auto simp: evolves_def)
  obtain g new' where 2: "outbox c = map g (outbox b) @ new'" "next_id b \<le> next_id c"
    "\<forall>e \<in> set (outbox b). ev_id (g e) = ev_id e \<and> Q e (g e)" "distinct (map ev_id new')"
    "\<forall>e \<in> set new'. next_id b \<le> ev_id e \<and> ev_id e < next_id c" using assms(2) by (auto simp: evolves_def)
  have ids: "map ev_id (map g new) = map ev_id new" using 1(1) 2(3) by simp
  show ?thesis
  proof (rule evolvesI [where f = "g \<circ> f" and new = "map g new @ new'"])
    show "distinct (map ev_id (map g new @ new'))"
      unfolding map_append distinct_append ids using 1(4,5) 2(4,5) by fastforce
    show "next_id a \<le> ev_id e \<and> ev_id e < next_id c" if "e \<in> set (map g new @ new')" for e
      using that 1(1,2,5) 2(2,3,5) by fastforce
  qed (use 1 2 assms(3) in auto)
qed

lemma evolves_upd:
  assumes "outbox d' = upd_rows p f (outbox d)" and "next_id d' = next_id d"
    and "\<And>e. ev_id (f e) = ev_id e" and "\<And>e. e \<in> set (outbox d) \<Longrightarrow> p e \<Longrightarrow> Q e (f e)" and "\<And>e. Q e e"
  shows "evolves Q d d'"
  by (rule evolvesI [where f = "\<lambda>e. if p e then f e else e" and new = "[]"])
    (use assms in \<open>auto simp: upd_rows_def\<close>)

lemma evolves_same: "outbox d' = outbox d \<Longrightarrow> next_id d \<le> next_id d' \<Longrightarrow> (\<And>e. Q e e) \<Longrightarrow> evolves Q d d'"
  by (rule evolvesI [where f = id and new = "[]"]) auto

lemma evolves_new:
  assumes "outbox d' = outbox d @ [e]" and "ev_id e = next_id d" and "next_id d' = Suc (next_id d)"
    and "\<And>e. Q e e"
  shows "evolves Q d d'"
  by (rule evolvesI [where f = id and new = "[e]"]) (use assms in auto)

section \<open>What a step may do to a ticket that may be printed\<close>

definition held_ok :: "outbox_event \<Rightarrow> bool" where
  "held_ok e \<longleftrightarrow> event_type e \<in> set KITCHEN \<and> attempts e > 0 \<and>
     (last_error e = None \<or>
      ev_status e \<noteq> PENDING \<and> (case last_error e of None \<Rightarrow> True | Some s \<Rightarrow> py_startswith s UNANSWERED))"

definition same_ticket :: "outbox_event \<Rightarrow> outbox_event \<Rightarrow> bool" where
  "same_ticket e e' \<longleftrightarrow> ev_tenant_id e' = ev_tenant_id e \<and> event_type e' = event_type e \<and>
     jget ''order_id'' (ev_payload e') = jget ''order_id'' (ev_payload e) \<and>
     (attempts e > 0 \<longrightarrow> attempts e' > 0 \<and> ev_payload e' = ev_payload e)"

definition keeps_held :: "outbox_event \<Rightarrow> outbox_event \<Rightarrow> bool" where
  "keeps_held e e' \<longleftrightarrow> same_ticket e e' \<and> (held_ok e \<longrightarrow> held_ok e')"

lemma keeps_held_refl [simp]: "keeps_held e e"
  by (simp add: keeps_held_def same_ticket_def)

lemma keeps_held_trans: "keeps_held x y \<Longrightarrow> keeps_held y z \<Longrightarrow> keeps_held x z"
  by (auto simp: keeps_held_def same_ticket_def)

lemma held_maybe_printed: "held_ok e \<Longrightarrow> maybe_printed e"
  by (auto simp: held_ok_def maybe_printed_def split: option.splits)

lemma startswith_append [simp]: "py_startswith (p @ s) p"
  by (simp add: py_startswith_def)

lemma same_ticket_view: "ticket_view e' = ticket_view e \<Longrightarrow> attempts e \<le> attempts e' \<Longrightarrow> same_ticket e e'"
  by (auto simp: ticket_view_def same_ticket_def)

lemma keeps_lease: "keeps_held e (lease now e)" "event_type e \<in> set KITCHEN \<Longrightarrow> held_ok (lease now e)"
  by (simp_all add: keeps_held_def held_ok_def same_ticket_def)

lemma keeps_supersede:
  assumes "ev_status e = PENDING" shows "keeps_held e (supersede n now e)"
proof -
  have "attempts (supersede n now e) = attempts e" by (simp add: supersede_def Let_def)
  then have "same_ticket e (supersede n now e)" by (intro same_ticket_view) simp_all
  moreover have "held_ok e \<Longrightarrow> held_ok (supersede n now e)"
    using assms by (auto simp: held_ok_def supersede_def Let_def)
  ultimately show ?thesis by (simp add: keeps_held_def)
qed

lemma keeps_sent: "keeps_held e (mark_sent now False e)"
  by (simp add: keeps_held_def same_ticket_view held_ok_def)

lemma keeps_failed: "keeps_held e (e\<lparr>ev_status := FAILED\<rparr>)"
  by (auto simp: keeps_held_def same_ticket_def held_ok_def)

lemma keeps_withdraw: "unprinted e \<Longrightarrow> keeps_held e (withdraw_event now e)"
  by (auto simp: keeps_held_def same_ticket_def held_ok_def unprinted_def withdraw_event_def split: option.splits)

section \<open>The steps\<close>

lemma claim_evolves:
  assumes "claim_tickets locked tid now limit d = Inr (ts, d')" and "keys_ok d"
  shows "evolves keeps_held d d'"
    and "\<forall>i \<in> tk_id ` set ts. \<exists>e \<in> set (outbox d'). ev_id e = i \<and> held_ok e"
proof -
  let ?rows = "claim_rows locked tid now limit d"
  have dist: "distinct (map ev_id (outbox d))" using assms(2) by (simp add: keys_ok_def)
  obtain z where o: "outbox d' = map (\<lambda>x. if x \<in> set ?rows then claimed d now x x else x) (outbox d)"
    and n: "next_id d' = next_id d" by (rule claim_tickets_form [OF assms(1) dist]) blast
  have "keeps_held x (claimed d now x x)" if "x \<in> set ?rows" for x
    using claim_rows_mem [OF that] keeps_lease(1) keeps_supersede by (auto simp: claimed_def claimable_def)
  then show "evolves keeps_held d d'" 
    by (intro evolvesI [where f = "\<lambda>x. if x \<in> set ?rows then claimed d now x x else x" and new = "[]"])
      (simp_all add: o n)
  show "\<forall>i \<in> tk_id ` set ts. \<exists>e \<in> set (outbox d'). ev_id e = i \<and> held_ok e"
  proof
    fix i
    assume "i \<in> tk_id ` set ts"
    then obtain e where e: "claimable tid now e" "i = ev_id e" "lease now e \<in> set (outbox d')"
      using claimed_current [OF assms(1) dist] by fastforce
    show "\<exists>e \<in> set (outbox d'). ev_id e = i \<and> held_ok e"
      using e keeps_lease(2) by (intro bexI [OF _ e(3)]) (simp add: claimable_def)
  qed
qed

lemma to_red_evolves: "evolves keeps_held d (to_red e reason d)"
proof -
  obtain new where "outbox (to_red e reason d) = outbox d @ new"
    "map ev_id new = [next_id d..<next_id (to_red e reason d)]" "next_id d \<le> next_id (to_red e reason d)"
    using to_red_outbox by blast
  moreover from this(2) have "distinct (map ev_id new)"
    "\<And>x. x \<in> set new \<Longrightarrow> next_id d \<le> ev_id x \<and> ev_id x < next_id (to_red e reason d)"
    by (metis distinct_upt, metis atLeastLessThan_iff image_eqI list.set_map set_upt)
  ultimately show ?thesis by (intro evolvesI [where f = id and new = new]) auto
qed

lemma set_event_evolves:
  assumes "keys_ok d" and "find (\<lambda>e. ev_id e = i) (outbox d) = Some e"
    and "\<And>e. ev_id (f e) = ev_id e" and "Q e (f e)" and "\<And>e. Q e e"
  shows "evolves Q d (set_event i f d)"
proof (rule evolves_upd [where p = "\<lambda>e. ev_id e = i" and f = f])
  show "Q x (f x)" if "x \<in> set (outbox d)" "ev_id x = i" for x
  proof -
    have "e \<in> set (outbox d)" "ev_id e = i" using assms(2) by (auto dest: find_SomeD)
    then have "x = e" using rows_of_id [of "outbox d"] assms(1) that by (simp add: keys_ok_def)
    then show ?thesis using assms(4) by simp
  qed
qed (simp_all add: set_event_def assms)

lemma ack_find_key:
  assumes "keys_ok d" and "ack_find tid eid (outbox d) = Some e"
  shows "find (\<lambda>e. ev_id e = eid) (outbox d) = Some e"
proof -
  have "e \<in> set (outbox d)" "ev_id e = eid" using assms(2) by (auto simp: ack_find_def dest: find_SomeD)
  then show ?thesis using distinct_key_find [of ev_id "outbox d" e] assms(1) by (simp add: keys_ok_def)
qed

lemma ack_good_evolves:
  assumes "ack_ticket tid eid True now err d = Inr (st, d')" and "keys_ok d"
  shows "evolves keeps_held d d'"
proof -
  obtain e where e: "ack_find tid eid (outbox d) = Some e"
    using assms(1) by (auto simp: ack_ticket_def' raise_err_def split: option.splits)
  show ?thesis
  proof (cases "ev_status e = PENDING")
    case True
    have "evolves keeps_held d (set_event eid (mark_sent now False) d)"
      by (rule set_event_evolves [OF assms(2) ack_find_key [OF assms(2) e]]) (simp_all add: keeps_sent)
    moreover have "evolves keeps_held x (to_sent e x)" for x by (rule evolves_same) simp_all
    ultimately have "evolves keeps_held d (to_sent e (set_event eid (mark_sent now False) d))"
      using evolves_trans keeps_held_trans by blast
    then show ?thesis using assms(1) e True by (simp add: ack_ticket_def')
  next
    case False
    then show ?thesis using assms(1) e by (auto simp: ack_ticket_def' intro: evolves_same)
  qed
qed

text \<open>A print error touches the one ticket it reports.\<close>

definition keeps_held_but :: "uuid \<Rightarrow> outbox_event \<Rightarrow> outbox_event \<Rightarrow> bool" where
  "keeps_held_but i e e' \<longleftrightarrow> same_ticket e e' \<and> (ev_id e \<noteq> i \<longrightarrow> keeps_held e e' \<and> ev_id e' = ev_id e)"

lemma ack_bad_evolves:
  assumes "ack_ticket tid eid False now err d = Inr (st, d')" and "keys_ok d"
  shows "evolves (keeps_held_but eid) d d'"
proof -
  obtain e where e: "ack_find tid eid (outbox d) = Some e"
    using assms(1) by (auto simp: ack_ticket_def' raise_err_def split: option.splits)
  let ?f = "\<lambda>e. snd (mark_attempt_failed (ack_reason err) now False e)"
  have id: "ev_id e = eid" using e by (auto simp: ack_find_def dest: find_SomeD)
  have refl: "keeps_held_but eid x x" for x by (simp add: keeps_held_but_def same_ticket_def)
  have weak: "evolves (keeps_held_but eid) x y" if "evolves keeps_held x y" for x y
  proof -
    obtain f new where "outbox y = map f (outbox x) @ new" "next_id x \<le> next_id y"
      "\<forall>e \<in> set (outbox x). ev_id (f e) = ev_id e \<and> keeps_held e (f e)" "distinct (map ev_id new)"
      "\<forall>e \<in> set new. next_id x \<le> ev_id e \<and> ev_id e < next_id y" using \<open>evolves keeps_held x y\<close> by (auto simp: evolves_def)
    then show ?thesis
      by (intro evolvesI [where f = f and new = new]) (auto simp: keeps_held_but_def keeps_held_def)
  qed
  show ?thesis
  proof (cases "ev_status e = PENDING")
    case True
    have 1: "evolves (keeps_held_but eid) d (set_event eid ?f d)"
      by (rule set_event_evolves [OF assms(2) ack_find_key [OF assms(2) e]])
        (simp_all add: refl keeps_held_but_def same_ticket_def id)
    have "evolves (keeps_held_but eid) d (to_red e (ack_reason err) (set_event eid ?f d))"
    proof (rule evolves_trans [OF 1 weak [OF to_red_evolves]])
      show "keeps_held_but eid x y \<Longrightarrow> keeps_held_but eid y z \<Longrightarrow> keeps_held_but eid x z" for x y z
        using keeps_held_trans by (auto simp: keeps_held_but_def same_ticket_def)
    qed
    then show ?thesis using assms(1) e True by (simp add: ack_ticket_def')
  next
    case False
    then show ?thesis using assms(1) e refl by (auto simp: ack_ticket_def' intro: evolves_same)
  qed
qed

lemma sweep_event_evolves:
  assumes "keys_ok d"
  shows "evolves keeps_held d (snd (sweep_event locked now eid (n, d)))"
proof (cases "find (\<lambda>e. ev_id e = eid) (outbox d)")
  case None
  then show ?thesis by (simp add: sweep_event_def evolves_same)
next
  case (Some e)
  have sup: "evolves keeps_held d (set_event eid (supersede m now) d)" if "stale now e" for m
    by (rule set_event_evolves [OF assms Some]) (use that in \<open>simp_all add: keeps_supersede stale_def\<close>)
  have "evolves keeps_held d (set_event eid (\<lambda>x. x\<lparr>ev_status := FAILED\<rparr>) d)"
    by (rule set_event_evolves [OF assms Some]) (simp_all add: keeps_failed)
  then have red: "evolves keeps_held d (to_red e (sweep_reason e)
      (if attempts e \<ge> MAX_ATTEMPTS then set_event eid (\<lambda>x. x\<lparr>ev_status := FAILED\<rparr>) d else d))"
    using evolves_trans [OF _ to_red_evolves] keeps_held_trans to_red_evolves by auto
  show ?thesis using Some sup red by (simp add: sweep_event_def Let_def evolves_same)
qed

lemma sweep_evolves:
  assumes "keys_ok d"
  shows "evolves keeps_held d (snd (fold (sweep_event locked now) eids (n, d)))"
  using assms
proof (induction eids arbitrary: n d)
  case Nil
  then show ?case by (simp add: evolves_same)
next
  case (Cons i eids)
  obtain m d1 where s: "sweep_event locked now i (n, d) = (m, d1)" by force
  have 1: "evolves keeps_held d d1" using sweep_event_evolves [OF Cons.prems, of locked now i n] s by simp
  from evolves_trans [OF 1 Cons.IH [OF evolves_keys [OF 1 Cons.prems], of m]] keeps_held_trans
  show ?case by (simp add: s)
qed

lemma send_evolves:
  assumes "send_ticket locked ord reason d = Inr (e, d')" and "keys_ok d"
  shows "evolves keeps_held d d'"
proof (cases "unsent_tickets locked d ord = []")
  case True
  then obtain p where "d' = d\<lparr>outbox := outbox d @ [new_event (o_tenant_id ord) ORDER_CONFIRMED p d],
      next_id := Suc (next_id d)\<rparr>"
    using assms(1) by (auto simp: send_ticket_def Let_def)
  then show ?thesis by (intro evolves_new) (auto simp: new_event_def)
next
  case False
  let ?e = "last (unsent_tickets locked d ord)"
  have "?e \<in> set (unsent_tickets locked d ord)" using False by simp
  then have m: "?e \<in> set (outbox d)" "ticket_of (o_tenant_id ord) (o_id ord) ?e" "attempts ?e = 0"
    by (auto simp: unsent_mem)
  obtain p reason' where p: "order_event_payload d ord (order_revision d ord) reason' = Inr p"
    and d': "d' = set_event (ev_id ?e) (\<lambda>e. e\<lparr>ev_payload := p, next_attempt_at := tx_now d\<rparr>) d"
    using assms(1) False by (auto simp: send_ticket_def Let_def)
  have "find (\<lambda>x. ev_id x = ev_id ?e) (outbox d) = Some ?e"
    using distinct_key_find [of ev_id "outbox d" ?e] m(1) assms(2) by (simp add: keys_ok_def)
  then show ?thesis unfolding d'
    by (rule set_event_evolves [OF assms(2)])
      (use m payload_fields [OF p] in \<open>simp_all add: keeps_held_def same_ticket_def held_ok_def ticket_of_def\<close>)
qed

lemma withdraw_event_sel [simp]: "ev_id (withdraw_event now e) = ev_id e"
  "ticket_view (withdraw_event now e) = ticket_view e"
  by (simp_all add: withdraw_event_def ticket_view_def)

lemma withdraw_evolves: "evolves keeps_held d (snd (withdraw_tickets locked ord now d))"
  by (rule evolves_upd [where f = "withdraw_event now" and p = "\<lambda>e. ticket_of (o_tenant_id ord) (o_id ord) e \<and>
        unprinted e \<and> \<not> locked (ev_id e)"])
    (simp_all add: withdraw_tickets_def Let_def keeps_withdraw)


section \<open>The operations on orders\<close>

lemma keeps_held_steps: "evolves keeps_held a b \<Longrightarrow> evolves keeps_held b c \<Longrightarrow> evolves keeps_held a c"
  using evolves_trans keeps_held_trans by blast

lemma aside_evolves: "outbox d' = outbox d \<Longrightarrow> next_id d \<le> next_id d' \<Longrightarrow> evolves keeps_held d d'"
  by (rule evolves_same) simp_all

lemma keys_aside: "outbox d' = outbox d \<Longrightarrow> next_id d \<le> next_id d' \<Longrightarrow> keys_ok d \<Longrightarrow> keys_ok d'"
  by (rule evolves_keys [OF aside_evolves])

text \<open>An operation that sends the order between writes to other tables.\<close>

lemma send_between:
  assumes "outbox a = outbox d" and "next_id d \<le> next_id a" and "send_ticket locked ord reason a = Inr (e, b)"
    and "outbox d' = outbox b" and "next_id b \<le> next_id d'" and "keys_ok d"
  shows "evolves keeps_held d d'"
  using keeps_held_steps [OF keeps_held_steps [OF aside_evolves [OF assms(1,2)] send_evolves [OF assms(3)]]
      aside_evolves [OF assms(4,5)]] keys_aside [OF assms(1,2,6)] by blast

lemma draft_evolves:
  assumes "draft_order q now d = Inr (a, d')" shows "evolves keeps_held d d'"
proof (cases "order_by_key d (dr_idempotency_key q)")
  case (Some r)
  then have "d' = d" using assms by (auto simp: draft_order_def Let_def split: option.splits)
  then show ?thesis by (simp add: aside_evolves)
next
  case None
  obtain t c p wh d1 cs ads n where d1: "d1 = d\<lparr>customers := cs, addresses := ads, next_id := n\<rparr>" "next_id d \<le> n"
    and w: "write_draft q (t_timezone (t :: tenant)) p wh now d1 = (a, d')"
    by (rule draft_order_new [OF assms None], rule that; assumption)
  from write_draft_rows [OF w] d1 show ?thesis by (intro aside_evolves) simp_all
qed

lemma confirm_evolves:
  assumes "confirm_ordered q now d = Inr (a, d')" shows "evolves keeps_held d d'"
proof -
  have "confirm_order q now d = Inr (a, d')"
    using assms by (auto simp: confirm_ordered_def split: option.splits if_splits)
  then show ?thesis
  proof (rule confirm_order_cases)
    fix r
    assume "o_status r \<in> set ALREADY_CONFIRMED \<and> a = order_answer r \<and> d' = d \<or>
      o_status r = ODraft \<and> (\<exists>c t. get_config d (cq_tenant_id q) = Some c \<and> get_tenant d (cq_tenant_id q) = Some t \<and>
        require_switched_on r t c (cq_call_id q) now d = Inr () \<and>
        write_confirm q r (t_timezone t) (mn_mode (mode_at d t c now)) c now d = Inr (a, d'))"
    then consider "d' = d" | z m c where "write_confirm q r z m c now d = Inr (a, d')" by blast
    then show ?thesis
    proof cases
      case 2
      let ?b = "waits_for r m c = None"
      from 2 have "if ?b then \<exists>p d1. next_id d1 = next_id d \<and>
          outbox d' = outbox d @ [new_event (cq_tenant_id q) ORDER_CONFIRMED p d1] \<and> next_id d' = Suc (next_id d)
        else outbox d' = outbox d \<and> next_id d' = next_id d"
        by (rule write_confirm_form) (auto split: if_splits)
      then show ?thesis by (auto simp: new_event_def split: if_splits intro: aside_evolves evolves_new)
    qed (simp add: aside_evolves)
  qed
qed

lemma approve_evolves:
  assumes "approve_order locked tid oid who d = Inr (r, d')" and "keys_ok d" shows "evolves keeps_held d d'"
proof -
  obtain x where x: "live_order d tid oid = Some x" using assms(1) by (auto simp: approve_order_def split: option.splits)
  let ?d = "set_order oid (\<lambda>x. x\<lparr>o_status := OApproved\<rparr>) d"
  consider "outbox d' = outbox d" "next_id d' = next_id d"
    | e d2 where "send_ticket locked (x\<lparr>o_status := OApproved\<rparr>) None ?d = Inr (e, d2)" "outbox d' = outbox d2" "next_id d' = next_id d2"
    using assms(1) x
    by (auto simp: approve_order_def Let_def set_order_def set_handover_def add_audit_def split: if_splits)
  then show ?thesis
  proof cases
    case 1
    then show ?thesis by (intro aside_evolves) simp_all
  next
    case 2
    show ?thesis by (rule send_between [OF _ _ 2(1,2) _ assms(2)]) (simp_all add: set_order_def 2(3))
  qed
qed

lemma resend_evolves:
  assumes "resend_order locked tid oid who d = Inr (r, d')" and "keys_ok d" shows "evolves keeps_held d d'"
proof -
  obtain x where x: "live_order d tid oid = Some x" using assms(1) by (auto simp: resend_order_def split: option.splits)
  consider "d' = d" | e why d2 where "send_ticket locked x why d = Inr (e, d2)" "outbox d' = outbox d2" "next_id d' = next_id d2"
    using assms(1) x by (auto simp: resend_order_def Let_def set_handover_def set_order_def add_audit_def split: if_splits)
  then show ?thesis by cases (auto intro: aside_evolves send_between [OF _ _ _ _ _ assms(2)])
qed

lemma entered_evolves:
  assumes "mark_entered md5 tid oid seen who now d = Inr (r, d')" shows "evolves keeps_held d d'"
  using assms by (intro aside_evolves)
    (auto simp: mark_entered_def Let_def raise_err_def set_order_def add_audit_def split: option.splits if_splits)

lemma corrected_evolves:
  assumes "apply_correction locked coll md5 tid oid q reason who now d = Inr d'" and "keys_ok d"
  shows "evolves keeps_held d d'"
  using assms(1)
proof (cases rule: apply_correction_cases)
  case (again r)
  then show ?thesis by (simp add: aside_evolves)
next
  case (saved r edits labels plan r' d2 p)
  let ?d1 = "corrected_rows r edits plan d"
  let ?d3 = "(if ap_new (cp_where plan) \<noteq> None then settle_default_if_marked r' else id)
        (add_audit (o_tenant_id r) who ACTION_CORRECTED ''order'' (o_id r) p d2)"
  have "outbox ?d1 = outbox d" "next_id d \<le> next_id ?d1" by (simp_all add: corrected_rows_def save_lines_def)
  then have 3: "outbox ?d3 = outbox d" "next_id d \<le> next_id ?d3"
    using corrected_order_form(4,9) [OF saved(5)] by (simp_all add: add_audit_def)
  from resend_form [OF saved(6)] show ?thesis
  proof
    assume "handover_state r' = None \<and> d' = ?d3"
    then show ?thesis using 3 aside_evolves by simp
  next
    assume "handover_state r' \<noteq> None \<and> (\<exists>e why d1. send_ticket locked r' why ?d3 = Inr (e, d1) \<and>
      d' = set_handover (o_id r') (Some PENDING) d1)"
    then obtain e why d1 where s: "send_ticket locked r' why ?d3 = Inr (e, d1)" "d' = set_handover (o_id r') (Some PENDING) d1"
      by blast
    show ?thesis by (rule send_between [OF 3 s(1) _ _ assms(2)]) (simp_all add: s(2) set_handover_def set_order_def)
  qed
qed

text \<open>What "Storniert" writes: the tickets that are surely not printed are withdrawn, and where a slip may exist, one
  more ticket says that the order is cancelled.\<close>

lemma cancel_form:
  assumes "cancel_order locked md5 tid oid seen who now d = Inr (r', d')" and "live_order d tid oid = Some r"
    and "o_status r \<noteq> OCancelled" and "withdraw_tickets locked r now d = (sl, dw)"
  obtains dc where "outbox dc = outbox dw" and "next_id dc = next_id d"
    and "r' = r\<lparr>o_status := OCancelled, handover_state := if sl then Some PENDING else None\<rparr>"
    and "if sl then \<exists>e. send_ticket locked r' (Some CANCELLED) dc = Inr (e, d') else d' = dc"
proof -
  have n: "next_id dw = next_id d" using assms(4) by (auto simp: withdraw_tickets_def Let_def)
  define dc where "dc p = add_audit tid who ACTION_CANCELLED ''order'' oid p (set_handover oid (if sl then Some PENDING else None)
    (settle_default_if_marked (r\<lparr>o_status := OCancelled\<rparr>) (set_order oid (\<lambda>x. x\<lparr>o_status := OCancelled\<rparr>) dw)))" for p
  obtain p where "r' = r\<lparr>o_status := OCancelled, handover_state := if sl then Some PENDING else None\<rparr>"
    and "if sl then \<exists>e. send_ticket locked r' (Some CANCELLED) (dc p) = Inr (e, d') else d' = dc p"
    using assms by (auto simp: cancel_order_def Let_def dc_def split: if_splits)
  then show thesis
    by (intro that [of "dc p"]) (simp_all add: dc_def add_audit_def set_handover_def set_order_def n)
qed

lemma cancel_evolves:
  assumes "cancel_order locked md5 tid oid seen who now d = Inr (r', d')" and "keys_ok d"
  shows "evolves keeps_held d d'"
proof -
  obtain r where r: "live_order d tid oid = Some r" using assms(1) by (auto simp: cancel_order_def split: option.splits)
  show ?thesis
  proof (cases "o_status r = OCancelled")
    case True
    then have "d' = d" using assms(1) r by (simp add: cancel_order_def)
    then show ?thesis by (simp add: aside_evolves)
  next
    case False
    obtain sl dw where w: "withdraw_tickets locked r now d = (sl, dw)" by force
    have 1: "evolves keeps_held d dw" using withdraw_evolves [of d locked r now] w by simp
    note k = evolves_keys [OF 1 assms(2)]
    have n: "next_id dw = next_id d" using w by (auto simp: withdraw_tickets_def Let_def)
    obtain dc where dc: "outbox dc = outbox dw" "next_id dc = next_id d"
      "if sl then \<exists>e. send_ticket locked r' (Some CANCELLED) dc = Inr (e, d') else d' = dc"
      by (rule cancel_form [OF assms(1) r False w], rule that; assumption)
    have "evolves keeps_held dw d'"
    proof (cases sl)
      case True
      then obtain e where "send_ticket locked r' (Some CANCELLED) dc = Inr (e, d')" using dc(3) by auto
      from send_between [OF dc(1) _ this refl _ k] show ?thesis using dc(2) n by simp
    next
      case False
      then show ?thesis using dc n by (intro aside_evolves) simp_all
    qed
    with 1 show ?thesis by (rule keeps_held_steps)
  qed
qed

text \<open>The note that voids a slip: a ticket nobody has fetched yet, which says that the order is cancelled.\<close>

definition voids :: "uuid \<Rightarrow> uuid \<Rightarrow> outbox_event \<Rightarrow> bool" where
  "voids tid oid e \<longleftrightarrow> ticket_of tid oid e \<and> ev_status e = PENDING \<and> attempts e = 0 \<and> next_attempt_at e = ev_created_at e \<and>
     jget ''correction_reason'' (ev_payload e) = Some (JStr CANCELLED)"

lemma cancel_voids:
  assumes "cancel_order locked md5 tid oid seen who now d = Inr (r', d')" and "live_order d tid oid = Some r"
    and "o_status r \<noteq> OCancelled" and "fst (withdraw_tickets locked r now d)"
  shows "o_status r' = OCancelled \<and> handover_state r' = Some PENDING \<and>
    (\<exists>es e. outbox d' = es @ [e] \<and> length es = length (outbox d) \<and> voids tid oid e)"
proof -
  obtain dw where w: "withdraw_tickets locked r now d = (True, dw)" using assms(4) by (cases "withdraw_tickets locked r now d") auto
  obtain dc where dc: "outbox dc = outbox dw" and r0: "r' = r\<lparr>o_status := OCancelled, handover_state := if True then Some PENDING else None\<rparr>"
    and s0: "if True then \<exists>e. send_ticket locked r' (Some CANCELLED) dc = Inr (e, d') else d' = dc"
    by (rule cancel_form [OF assms(1-3) w], rule that; assumption)
  obtain e where s: "send_ticket locked r' (Some CANCELLED) dc = Inr (e, d')" using s0 by auto
  have r': "r' = r\<lparr>o_status := OCancelled, handover_state := Some PENDING\<rparr>" using r0 by simp
  have id: "o_id r' = oid" "o_tenant_id r' = tid" using live_order_facts [OF assms(2)] by (simp_all add: r')
  have dw: "outbox dw = upd_rows (\<lambda>e. ticket_of (o_tenant_id r) (o_id r) e \<and> unprinted e \<and> \<not> locked (ev_id e))
      (withdraw_event now) (outbox d)"
    using w by (auto simp: withdraw_tickets_def Let_def)
  then have "unsent_tickets locked dc r' = []"
    by (auto simp: unsent_tickets_def filter_empty_conv dc set_upd_rows r' unprinted_def withdraw_event_def ticket_of_def)
  then obtain p where p: "order_event_payload dc r' (order_revision dc r') (Some CANCELLED) = Inr p"
    and d': "d' = dc\<lparr>outbox := outbox dc @ [new_event tid ORDER_CONFIRMED p dc], next_id := Suc (next_id dc)\<rparr>"
    using s id by (auto simp: send_ticket_def Let_def)
  have "voids tid oid (new_event tid ORDER_CONFIRMED p dc)"
    using payload_fields [OF p] id by (simp add: voids_def new_event_def ticket_of_def)
  then show ?thesis by (simp add: d' dc dw r')
qed

section \<open>The machine\<close>

text \<open>Every operation that touches a ticket but the deletion of data: \<open>drafted\<close> to \<open>corrected\<close> the orders of the agent and
  of the tablet, the others the bridge, its reports and the watchdog. \<open>elsewhere\<close> leaves the outbox alone.\<close>

inductive kitchen_step :: "uuid set \<times> db \<Rightarrow> uuid set \<times> db \<Rightarrow> bool" where
  pickup: "claim_tickets locked tid now limit d = Inr (ts, d') \<Longrightarrow>
    kitchen_step (held, d) (held \<union> tk_id ` set ts, d')"
| printed: "ack_ticket tid eid True now err d = Inr (st, d') \<Longrightarrow> kitchen_step (held, d) (held, d')"
| print_error: "ack_ticket tid eid False now err d = Inr (st, d') \<Longrightarrow>
    kitchen_step (held, d) (held - {eid}, d')"
| watchdog: "kitchen_step (held, d) (held, snd (sweep locked now d))"
| drafted: "draft_order dq now d = Inr (a, d') \<Longrightarrow> kitchen_step (held, d) (held, d')"
| said_yes: "confirm_ordered q now d = Inr (b, d') \<Longrightarrow> kitchen_step (held, d) (held, d')"
| approved: "approve_order locked tid oid who d = Inr (r, d') \<Longrightarrow> kitchen_step (held, d) (held, d')"
| resent: "resend_order locked tid oid who d = Inr (r, d') \<Longrightarrow> kitchen_step (held, d) (held, d')"
| entered: "mark_entered md5 tid oid seen who now d = Inr (r, d') \<Longrightarrow> kitchen_step (held, d) (held, d')"
| cancelled: "cancel_order locked md5 tid oid seen who now d = Inr (r, d') \<Longrightarrow> kitchen_step (held, d) (held, d')"
| corrected: "apply_correction locked coll md5 tid oid cq reason who now d = Inr d' \<Longrightarrow> kitchen_step (held, d) (held, d')"
| send: "send_ticket locked ord reason d = Inr (e, d') \<Longrightarrow> kitchen_step (held, d) (held, d')"
| elsewhere: "outbox d' = outbox d \<Longrightarrow> next_id d \<le> next_id d' \<Longrightarrow> kitchen_step (held, d) (held, d')"

text \<open>All but the report of a print error keep what may be printed.\<close>

lemma kitchen_step_cases:
  assumes "kitchen_step (held, d) (held', d')" and "keys_ok d"
  obtains ts locked tid now limit where "claim_tickets locked tid now limit d = Inr (ts, d')" and "held' = held \<union> tk_id ` set ts"
    | tid eid now err st where "ack_ticket tid eid False now err d = Inr (st, d')" and "held' = held - {eid}"
    | "evolves keeps_held d d'" and "held' = held"
  using assms(1)
proof cases
  case (pickup locked tid now limit ts)
  then show ?thesis using that(1) by blast
next
  case (print_error tid eid now err st)
  then show ?thesis using that(2) by blast
next
  case (printed tid eid now err st)
  then show ?thesis using that(3) ack_good_evolves assms(2) by blast
next
  case (watchdog locked now)
  then show ?thesis using that(3) sweep_evolves [OF assms(2)] by (simp add: sweep_def)
next
  case drafted
  then show ?thesis using that(3) draft_evolves by blast
next
  case said_yes
  then show ?thesis using that(3) confirm_evolves by blast
next
  case approved
  then show ?thesis using that(3) approve_evolves assms(2) by blast
next
  case resent
  then show ?thesis using that(3) resend_evolves assms(2) by blast
next
  case entered
  then show ?thesis using that(3) entered_evolves by blast
next
  case cancelled
  then show ?thesis using that(3) cancel_evolves assms(2) by blast
next
  case corrected
  then show ?thesis using that(3) corrected_evolves assms(2) by blast
next
  case send
  then show ?thesis using that(3) send_evolves assms(2) by blast
next
  case elsewhere
  then show ?thesis using that(3) aside_evolves by blast
qed

definition held_inv :: "uuid set \<times> db \<Rightarrow> bool" where
  "held_inv s \<longleftrightarrow> keys_ok (snd s) \<and> (\<forall>i \<in> fst s. \<exists>e \<in> set (outbox (snd s)). ev_id e = i \<and> held_ok e)"

lemma held_after:
  assumes "evolves Q d d'" and "held_inv (held, d)"
    and "\<And>e e'. Q e e' \<Longrightarrow> ev_id e \<notin> gone \<Longrightarrow> held_ok e \<Longrightarrow> held_ok e'"
  shows "held_inv (held - gone, d')"
proof -
  obtain f new where o: "outbox d' = map f (outbox d) @ new"
    and f: "\<forall>e \<in> set (outbox d). ev_id (f e) = ev_id e \<and> Q e (f e)" using assms(1) by (auto simp: evolves_def)
  have "\<exists>e \<in> set (outbox d'). ev_id e = i \<and> held_ok e" if i: "i \<in> held - gone" for i
  proof -
    obtain e where e: "e \<in> set (outbox d)" "ev_id e = i" "held_ok e"
      using assms(2) i by (auto simp: held_inv_def)
    then have "held_ok (f e)" using assms(3) f i by blast
    then show ?thesis using e f by (intro bexI [of _ "f e"]) (auto simp: o)
  qed
  then show ?thesis using assms(2) evolves_keys [OF assms(1)] by (simp add: held_inv_def)
qed

lemma held_kept: "evolves keeps_held d d' \<Longrightarrow> held_inv (held, d) \<Longrightarrow> held_inv (held, d')"
  using held_after [of keeps_held d d' held "{}"] by (simp add: keeps_held_def)

lemma kitchen_step_inv:
  assumes "kitchen_step s t" and "held_inv s"
  shows "held_inv t"
proof -
  obtain held d held' d' where st: "s = (held, d)" "t = (held', d')" by (cases s, cases t) auto
  have k: "keys_ok d" using assms(2) by (simp add: held_inv_def st)
  have inv: "held_inv (held, d)" using assms(2) by (simp add: st)
  from assms(1) have "kitchen_step (held, d) (held', d')" by (simp add: st)
  then show ?thesis
  using k proof (cases rule: kitchen_step_cases)
    case (1 ts locked tid now limit)
    have "held_inv (held, d')" by (rule held_kept [OF claim_evolves(1) [OF 1(1) k] inv])
    then show ?thesis using claim_evolves(2) [OF 1(1) k] by (auto simp: held_inv_def st 1(2))
  next
    case (2 tid eid now err st')
    show ?thesis
      using held_after [OF ack_bad_evolves [OF 2(1) k] inv, of "{eid}"]
      by (auto simp: keeps_held_but_def keeps_held_def st 2(2))
  next
    case 3
    then show ?thesis using held_kept [OF 3(1) inv] by (simp add: st)
  qed
qed

interpretation kitchen: machine kitchen_step held_inv
  by unfold_locales (rule kitchen_step_inv)

lemma held_slip:
  assumes "held_inv (held, d)" and "i \<in> held"
    and "\<forall>e \<in> set (outbox d). ev_id e = i \<longrightarrow> ticket_of (o_tenant_id ord) (o_id ord) e"
  shows "may_hold_a_slip d ord"
  using assms held_maybe_printed
  by (fastforce simp: held_inv_def may_hold_a_slip_def tickets_of_def list_ex_iff)

lemma withdraw_knows:
  assumes "held_inv (held, d)" and "i \<in> held"
    and "\<forall>e \<in> set (outbox d). ev_id e = i \<longrightarrow> ticket_of (o_tenant_id ord) (o_id ord) e"
  shows "fst (withdraw_tickets locked ord now d)"
proof -
  let ?d = "snd (withdraw_tickets locked ord now d)"
  have "held_inv (held, ?d)" using held_kept [OF withdraw_evolves assms(1)] .
  moreover have "\<forall>e \<in> set (outbox ?d). ev_id e = i \<longrightarrow> ticket_of (o_tenant_id ord) (o_id ord) e"
    using assms(3)
    by (auto simp: withdraw_tickets_def Let_def set_upd_rows withdraw_event_def ticket_of_def)
  ultimately have "may_hold_a_slip ?d ord" using held_slip assms(2) by blast
  then show ?thesis by (simp add: withdraw_tickets_def Let_def)
qed

text \<open>C5. Whatever the agent, the bridge, the tablets and the watchdog do, in any order, while no data is deleted: as long
  as the bridge may have printed a ticket of an order, because it fetched it and reported no error since, the program
  knows it; and when the order is cancelled then, one more ticket lies in the outbox, which nobody has fetched yet and
  which says that the order is cancelled: the note that voids the slip.\<close>

theorem possible_slip_is_known:
  assumes "kitchen_step\<^sup>*\<^sup>* (held, d) (held', d')" and "held_inv (held, d)" and "i \<in> held'"
    and "\<forall>e \<in> set (outbox d'). ev_id e = i \<longrightarrow> ticket_of (o_tenant_id ord) (o_id ord) e"
  shows "may_hold_a_slip d' ord \<and>
    (\<forall>locked md5 seen who now r d''. live_order d' (o_tenant_id ord) (o_id ord) = Some ord \<and> o_status ord \<noteq> OCancelled \<and>
       cancel_order locked md5 (o_tenant_id ord) (o_id ord) seen who now d' = Inr (r, d'') \<longrightarrow>
       o_status r = OCancelled \<and> handover_state r = Some PENDING \<and>
       (\<exists>es e. outbox d'' = es @ [e] \<and> length es = length (outbox d') \<and> voids (o_tenant_id ord) (o_id ord) e))"
proof (intro conjI allI impI)
  note inv = kitchen.steps_inv [OF assms(1,2)]
  show "may_hold_a_slip d' ord" by (rule held_slip [OF inv assms(3,4)])
  fix locked md5 seen who now r d''
  assume c: "live_order d' (o_tenant_id ord) (o_id ord) = Some ord \<and> o_status ord \<noteq> OCancelled \<and>
    cancel_order locked md5 (o_tenant_id ord) (o_id ord) seen who now d' = Inr (r, d'')"
  have "fst (withdraw_tickets locked ord now d')" by (rule withdraw_knows [OF inv assms(3,4)])
  with c show "o_status r = OCancelled" "handover_state r = Some PENDING"
    "\<exists>es e. outbox d'' = es @ [e] \<and> length es = length (outbox d') \<and> voids (o_tenant_id ord) (o_id ord) e"
    using cancel_voids by blast+
qed


section \<open>One slip from the outbox to the register\<close>

definition leased_tickets :: "kitchen_ticket list" where
  "leased_tickets = (case claim_tickets nobody 7 10 5 ticket_db of Inl _ \<Rightarrow> [] | Inr (ts, _) \<Rightarrow> ts)"

definition leased_db :: db where
  "leased_db = (case claim_tickets nobody 7 10 5 ticket_db of Inl _ \<Rightarrow> ticket_db | Inr (_, d) \<Rightarrow> d)"

lemma result_parts:
  "\<not> isl r \<Longrightarrow> r = Inr (case r of Inl _ \<Rightarrow> a | Inr (x, _) \<Rightarrow> x, case r of Inl _ \<Rightarrow> b | Inr (_, y) \<Rightarrow> y)"
  by (cases r) (auto split: prod.split)

lemma example_claim: "claim_tickets nobody 7 10 5 ticket_db = Inr (leased_tickets, leased_db)"
  unfolding leased_tickets_def leased_db_def by (rule result_parts) code_simp

lemma ticket_db_keys: "keys_ok ticket_db"
  by (simp add: keys_ok_def ticket_db_def new_event_def order_db_def)

lemma ticket_db_distinct: "distinct (map ev_id (outbox ticket_db))"
  using ticket_db_keys by (simp add: keys_ok_def)

theorem claim_hands_out_current_witness:
  "map tk_id leased_tickets = [100] \<and> map tk_attempt leased_tickets = [1] \<and> length leased_tickets \<le> 10"
proof -
  have "map tk_id leased_tickets = [100]" "map tk_attempt leased_tickets = [1]" by code_simp+
  then show ?thesis using claim_hands_out_current [OF example_claim ticket_db_distinct] by blast
qed

definition second_tickets :: "kitchen_ticket list" where
  "second_tickets = (case claim_tickets nobody 7 11 5 leased_db of Inl _ \<Rightarrow> [] | Inr (ts, _) \<Rightarrow> ts)"

definition second_db :: db where
  "second_db = (case claim_tickets nobody 7 11 5 leased_db of Inl _ \<Rightarrow> ticket_db | Inr (_, d) \<Rightarrow> d)"

theorem lease_holds_witness:
  "claim_tickets nobody 7 11 5 leased_db = Inr (second_tickets, second_db) \<and> second_tickets = [] \<and>
   tk_id ` set leased_tickets \<inter> tk_id ` set second_tickets = {}"
proof -
  have r: "claim_tickets nobody 7 11 5 leased_db = Inr (second_tickets, second_db)"
    unfolding second_tickets_def second_db_def by (rule result_parts) code_simp
  have "second_tickets = []" by code_simp
  moreover have "(11::int) < 10 + LEASE_SECONDS * SECOND" by (simp add: LEASE_SECONDS_def SECOND_def)
  ultimately show ?thesis using lease_holds [OF example_claim ticket_db_distinct r] r by blast
qed

definition printed_db :: db where
  "printed_db = (case ack_ticket 7 100 True 20 None leased_db of Inl _ \<Rightarrow> ticket_db | Inr (_, d) \<Rightarrow> d)"

lemma example_ack: "ack_ticket 7 100 True 20 None leased_db = Inr (SENT, printed_db)"
proof -
  let ?r = "ack_ticket 7 100 True 20 None leased_db"
  have "\<not> isl ?r" "(case ?r of Inl _ \<Rightarrow> PENDING | Inr (x, _) \<Rightarrow> x) = SENT" by code_simp+
  with result_parts [of ?r PENDING ticket_db] show ?thesis by (simp add: printed_db_def)
qed

theorem ack_repeated_witness:
  "ack_ticket 7 100 False 30 (Some ''paper'') printed_db = Inr (SENT, printed_db)"
  using ack_repeated [OF example_ack] by simp

theorem card_follows_newest_witness:
  "\<exists>r. get_order leased_db 50 = Some r \<and> handover_state r = Some PENDING \<and>
     get_order printed_db 50 = Some (r\<lparr>handover_state := Some SENT\<rparr>)"
proof -
  have "map_option handover_state (get_order leased_db 50) = Some (Some PENDING)"
    "map_option handover_state (get_order printed_db 50) = Some (Some SENT)" by code_simp+
  then have "get_order printed_db 50 \<noteq> get_order leased_db 50" by auto
  from card_follows_newest [OF example_ack this]
    \<open>map_option handover_state (get_order leased_db 50) = Some (Some PENDING)\<close>
  show ?thesis by auto
qed

text \<open>Two minutes later nobody has fetched the slip.\<close>

theorem sweep_reddens_witness:
  "map_option handover_state (get_order (snd (sweep nobody (120 * SECOND) ticket_db)) 50) = Some (Some FAILED)"
proof -
  let ?e = "hd (outbox ticket_db)"
  have o: "orders ticket_db = [example_order]" by (simp add: ticket_db_def order_db_def)
  have e: "?e \<in> set (outbox ticket_db)" by (simp add: ticket_db_def)
  have s: "stale (120 * SECOND) ?e" "is_current ticket_db ?e" by code_simp+
  have r: "order_of_event ticket_db ?e = Some example_order"
  proof -
    have "order_of_event ticket_db ?e \<noteq> None" by code_simp
    then show ?thesis using order_of_event_id o by fastforce
  qed
  have h: "handover_state example_order = Some PENDING" "o_id example_order = 50"
    by (simp_all add: example_order_def)
  show ?thesis
    using sweep_reddens [OF ticket_db_distinct _ e s r h(1), of nobody] o h(2) by (simp add: nobody_def)
qed

definition plain_md5 :: "json \<Rightarrow> str" where "plain_md5 j = []"

definition voided_db :: db where
  "voided_db = (case cancel_order nobody plain_md5 7 50 [] ''tablet'' 99 leased_db of Inl _ \<Rightarrow> leased_db | Inr (_, d) \<Rightarrow> d)"

lemma example_cancel: "\<exists>r. cancel_order nobody plain_md5 7 50 [] ''tablet'' 99 leased_db = Inr (r, voided_db)"
proof -
  have "\<not> isl (cancel_order nobody plain_md5 7 50 [] ''tablet'' 99 leased_db)" by code_simp
  from result_parts [OF this, of example_order leased_db] show ?thesis unfolding voided_db_def by blast
qed

theorem possible_slip_is_known_witness:
  "\<exists>held d. kitchen_step\<^sup>*\<^sup>* ({}, ticket_db) (held, d) \<and> 100 \<in> held \<and> may_hold_a_slip d example_order \<and>
     d = leased_db \<and> (\<exists>es e. outbox voided_db = es @ [e] \<and> length es = 1 \<and> voids 7 50 e)"
proof -
  let ?held = "{} \<union> tk_id ` set leased_tickets"
  have run: "kitchen_step\<^sup>*\<^sup>* ({}, ticket_db) (?held, leased_db)"
    using kitchen_step.pickup [OF example_claim, of "{}"] by blast
  have "map tk_id leased_tickets = [100]" by code_simp
  then have i: "100 \<in> ?held" by (metis Un_iff list.set_intros(1) list.set_map)
  have inv: "held_inv ({}, ticket_db)" using ticket_db_keys by (simp add: held_inv_def)
  have "list_all (\<lambda>e. ticket_of 7 50 e) (outbox leased_db)" by code_simp
  then have t: "\<forall>e \<in> set (outbox leased_db). ev_id e = 100 \<longrightarrow>
      ticket_of (o_tenant_id example_order) (o_id example_order) e"
    by (simp add: list_all_iff example_order_def)
  have o: "live_order leased_db 7 50 = Some example_order" "o_status example_order \<noteq> OCancelled"
    "o_tenant_id example_order = 7" "o_id example_order = 50" "length (outbox leased_db) = 1"
    by code_simp+
  from example_cancel possible_slip_is_known [OF run inv i t] o
  have "\<exists>es e. outbox voided_db = es @ [e] \<and> length es = 1 \<and> voids 7 50 e" by metis
  then show ?thesis using run i possible_slip_is_known [OF run inv i t] by blast
qed

end
