(* ===== verification/BookingRun.thy ===== *)
theory BookingRun
  imports Booking
begin

text \<open>
  The bookings of a tenant as a machine: drafts of the agent and of the tablet, the guest's yes,
  the team's confirming tap, and whatever the rest of the program does to other tables, in any
  order. The invariant says who may fill a window beyond its seats (the team, on its word) and that
  no table is given away twice.
\<close>

section \<open>The invariant\<close>

definition rows_ok :: "db \<Rightarrow> bool" where
  "rows_ok d \<longleftrightarrow> distinct (map r_id (reservations d)) \<and> distinct (map dt_id (dining_tables d)) \<and>
     (\<forall>r \<in> set (reservations d). r_id r < next_id d \<and> reservation_check r) \<and>
     (\<forall>x \<in> set (reservation_tables d). rt_reservation_id x < next_id d \<and>
        rt_table_id x \<in> dt_id ` set (dining_tables d) \<and>
        (\<forall>r \<in> set (reservations d). r_id r = rt_reservation_id x \<longrightarrow> r_source r = STablet)) \<and>
     (\<forall>c \<in> set (capacities d). clock_time (slot_start c) \<and> clock_time (slot_end c))"

text \<open>The payload of a booking the team made against the seats.\<close>

definition override_note :: json where
  "override_note = JObj [(''source'', JStr ''tablet''), (''override'', JBool True)]"

definition on_team_word :: "db \<Rightarrow> reservation \<Rightarrow> bool" where
  "on_team_word d r \<longleftrightarrow> (\<exists>a \<in> set (audit d). action a = ACTION_TABLE_CONFIRMED \<and>
     entity_id a = Some (r_id r) \<and> au_payload a = override_note)"

definition seats_kept :: "db \<Rightarrow> uuid \<Rightarrow> zone \<Rightarrow> bool" where
  "seats_kept d tid z \<longleftrightarrow> (\<forall>w \<in> windows_of d tid. guests_in d tid z w \<le> cw_max_guests w \<or>
     (\<exists>r \<in> set (reservations d). seated_in tid z w r \<and> on_team_word d r))"

definition booked_row :: "uuid \<Rightarrow> reservation \<Rightarrow> bool" where
  "booked_row tid r \<longleftrightarrow> r_tenant_id r = tid \<and> r_status r = RConfirmed \<and> r_deleted_at r = None"

definition tables_at :: "db \<Rightarrow> uuid \<Rightarrow> uuid set" where
  "tables_at d rid = {rt_table_id x |x. x \<in> set (reservation_tables d) \<and> rt_reservation_id x = rid}"

definition same_turn :: "db \<Rightarrow> uuid \<Rightarrow> zone \<Rightarrow> instant \<Rightarrow> instant \<Rightarrow> bool" where
  "same_turn d tid z a b \<longleftrightarrow> a = b \<or> (\<exists>w \<in> windows_of d tid. cw_contains z w a \<and> cw_contains z w b)"

definition tables_kept :: "db \<Rightarrow> uuid \<Rightarrow> zone \<Rightarrow> bool" where
  "tables_kept d tid z \<longleftrightarrow> (\<forall>r \<in> set (reservations d). \<forall>s \<in> set (reservations d).
     booked_row tid r \<and> booked_row tid s \<and> r_id r \<noteq> r_id s \<and>
     tables_at d (r_id r) \<inter> tables_at d (r_id s) \<noteq> {} \<longrightarrow>
     \<not> same_turn d tid z (reserved_for r) (reserved_for s))"

definition booking_inv :: "uuid \<Rightarrow> zone \<Rightarrow> db \<Rightarrow> bool" where
  "booking_inv tid z d \<longleftrightarrow> map_option t_timezone (get_tenant d tid) = Some z \<and> wf_zone z \<and>
     rows_ok d \<and> seats_planned d tid z \<and> seats_kept d tid z \<and> tables_kept d tid z"

section \<open>The machine\<close>

text \<open>What the rest of the program does while the house is booked: it writes no reservation, keeps the plan of
  the seats, the special days and the tenants, removes no table of the plan that a reservation names, and
  only adds to the audit log. Not part of it are the answers that open or close a special day and so
  change the seats of that day (\<open>holidays.py\<close>), and the erasure and the deletion job, which take
  reservations and entries of the log away.\<close>

definition elsewhere :: "db \<Rightarrow> db \<Rightarrow> bool" where
  "elsewhere d d' \<longleftrightarrow> reservations d' = reservations d \<and> reservation_tables d' = reservation_tables d \<and>
     capacities d' = capacities d \<and> special_days d' = special_days d \<and> tenants d' = tenants d \<and>
     dt_id ` set (dining_tables d) \<subseteq> dt_id ` set (dining_tables d') \<and>
     (distinct (map dt_id (dining_tables d)) \<longrightarrow> distinct (map dt_id (dining_tables d'))) \<and> next_id d \<le> next_id d' \<and>
     set (audit d) \<subseteq> set (audit d')"

inductive booking_step :: "(str \<Rightarrow> int) \<Rightarrow> uuid \<Rightarrow> db \<Rightarrow> db \<Rightarrow> bool" for coll tid where
  draft: "create_reservation req now d = Inr (a, d') \<Longrightarrow> cr_tenant_id req = tid \<Longrightarrow>
    1 \<le> cr_party_size req \<Longrightarrow> booking_step coll tid d d'"
| entry: "create_tablet_reservation coll req now who d = Inr (b, d') \<Longrightarrow> tq_tenant_id req = tid \<Longrightarrow>
    1 \<le> tq_party_size req \<Longrightarrow> booking_step coll tid d d'"
| yes: "confirm_table creq now d = Inr (c, d') \<Longrightarrow> cq_tenant_id creq = tid \<Longrightarrow> booking_step coll tid d d'"
| tap: "confirm_tablet coll tid rid override who now d = Inr (c, d') \<Longrightarrow> booking_step coll tid d d'"
| other: "elsewhere d d' \<Longrightarrow> booking_step coll tid d d'"

section \<open>What happens elsewhere\<close>

lemma windows_of_cong:
  "capacities d' = capacities d \<Longrightarrow> special_days d' = special_days d \<Longrightarrow>
   capacity_windows d' tid day = capacity_windows d tid day \<and> windows_of d' tid = windows_of d tid"
  by (simp add: windows_of_def capacity_windows_def like_of_def)

lemma seats_planned_cong: "windows_of d' tid = windows_of d tid \<Longrightarrow> seats_planned d' tid z = seats_planned d tid z"
  by (simp add: seats_planned_def)

lemma elsewhere_trans: "elsewhere a b \<Longrightarrow> elsewhere b c \<Longrightarrow> elsewhere a c"
  by (auto simp: elsewhere_def)

lemma elsewhere_inv:
  assumes e: "elsewhere d d'" and i: "booking_inv tid z d"
  shows "booking_inv tid z d'"
proof -
  have w: "windows_of d' tid = windows_of d tid" using e windows_of_cong [of d' d] by (simp add: elsewhere_def)
  have fields: "reservations d' = reservations d" "reservation_tables d' = reservation_tables d"
    "capacities d' = capacities d" and more: "next_id d \<le> next_id d'" "set (audit d) \<subseteq> set (audit d')"
    "dt_id ` set (dining_tables d) \<subseteq> dt_id ` set (dining_tables d')"
    "distinct (map dt_id (dining_tables d)) \<Longrightarrow> distinct (map dt_id (dining_tables d'))"
    using e by (simp_all add: elsewhere_def)
  have "rows_ok d" using i by (simp add: booking_inv_def)
  then have "rows_ok d'" unfolding rows_ok_def fields
    using more(1,3,4) by (meson order.strict_trans2 subsetD)
  moreover have word: "on_team_word d r \<Longrightarrow> on_team_word d' r" for r
    using more(2) by (auto simp: on_team_word_def)
  have "seats_kept d tid z" using i by (simp add: booking_inv_def)
  then have "seats_kept d' tid z" unfolding seats_kept_def w guests_in_def fields
    using word by blast
  moreover have "tables_kept d' tid z" using e i w
    by (simp add: booking_inv_def tables_kept_def elsewhere_def tables_at_def same_turn_def)
  moreover have "get_tenant d' tid = get_tenant d tid" using e by (simp add: get_tenant_def elsewhere_def)
  ultimately show ?thesis using i seats_planned_cong [OF w] by (simp add: booking_inv_def)
qed

lemma elsewhere_contact: "elsewhere d (note_contact tid cid p at n d)"
  by (simp add: elsewhere_def)

text \<open>A booking is the change of the status after the entries in the audit log and the outbox.\<close>

lemma book_table_split:
  assumes "book_table r who p d = Inr d'"
  obtains d1 where "elsewhere d d1"
    and "d' = set_reservation (r_id r) (\<lambda>r. r\<lparr>r_status := RConfirmed\<rparr>) d1"
    and "\<exists>a \<in> set (audit d1). action a = ACTION_TABLE_CONFIRMED \<and> entity_id a = Some (r_id r) \<and> au_payload a = p"
proof -
  let ?a = "\<lparr>au_tenant_id = r_tenant_id r, au_at = tx_now d, actor = who, action = ACTION_TABLE_CONFIRMED,
    au_entity = ''reservation'', entity_id = Some (r_id r), au_payload = p\<rparr>"
  let ?d1 = "d\<lparr>audit := audit d @ [?a],
    outbox := outbox d @ [new_event (r_tenant_id r) RESERVATION_CONFIRMED (reservation_event r) d],
    next_id := Suc (next_id d)\<rparr>"
  have k: "RESERVATION_CONFIRMED \<in> set EVENT_TYPES" by (simp add: EVENT_TYPES_def)
  have "d' = (set_reservation (r_id r) (\<lambda>r. r\<lparr>r_status := RConfirmed\<rparr>) d)\<lparr>audit := audit d @ [?a],
    outbox := outbox d @ [new_event (r_tenant_id r) RESERVATION_CONFIRMED (reservation_event r) d],
    next_id := Suc (next_id d)\<rparr>"
    using assms k
    by (simp add: book_table_def enqueue_def add_audit_def set_reservation_def new_event_def Let_def)
  then have "d' = set_reservation (r_id r) (\<lambda>r. r\<lparr>r_status := RConfirmed\<rparr>) ?d1"
    by (simp add: set_reservation_def)
  moreover have "elsewhere d ?d1" by (auto simp: elsewhere_def)
  ultimately show thesis using that [of ?d1] by simp
qed

section \<open>A draft becomes a booking\<close>

lemma sum_upd_one:
  assumes "distinct (map k rs)" and "r \<in> set rs" and "\<not> P r" and "g (f r) = (g r :: int)"
  shows "sum_list (map g (filter P (upd_rows (\<lambda>x. k x = k r) f rs)))
    = sum_list (map g (filter P rs)) + (if P (f r) then g r else 0)"
  using assms
proof (induction rs)
  case (Cons x rs)
  show ?case
  proof (cases "x = r")
    case True
    then have "upd_rows (\<lambda>x. k x = k r) f rs = rs"
      using Cons.prems(1) by (auto intro!: upd_rows_id simp: image_iff)
    then show ?thesis using True Cons.prems by simp
  next
    case False
    then have "k x \<noteq> k r" "r \<in> set rs" using Cons.prems by (auto simp: image_iff)
    then show ?thesis using Cons by simp
  qed
qed simp

abbreviation mark_booked :: "uuid \<Rightarrow> db \<Rightarrow> db" where
  "mark_booked rid \<equiv> set_reservation rid (\<lambda>r. r\<lparr>r_status := RConfirmed\<rparr>)"

lemma mark_booked_sel [simp]:
  "reservations (set_reservation rid f d) = upd_rows (\<lambda>r. r_id r = rid) f (reservations d)"
  "reservation_tables (set_reservation rid f d) = reservation_tables d"
  "dining_tables (set_reservation rid f d) = dining_tables d"
  "capacities (set_reservation rid f d) = capacities d"
  "special_days (set_reservation rid f d) = special_days d"
  "tenants (set_reservation rid f d) = tenants d"
  "service_configs (set_reservation rid f d) = service_configs d"
  "calls (set_reservation rid f d) = calls d"
  "audit (set_reservation rid f d) = audit d"
  "next_id (set_reservation rid f d) = next_id d"
  by (simp_all add: set_reservation_def)

text \<open>The row of a draft that is booked: every other row stays, and so does what it says.\<close>

lemma same_row:
  "rows_ok d \<Longrightarrow> r \<in> set (reservations d) \<Longrightarrow> s \<in> set (reservations d) \<Longrightarrow> r_id r = r_id s \<Longrightarrow> r = s"
  by (metis distinct_map inj_onD rows_ok_def)

lemma booked_rows_of:
  assumes "rows_ok d" and "r \<in> set (reservations d)" and "s \<in> set (reservations (mark_booked (r_id r) d))"
  shows "s \<in> set (reservations d) \<and> s \<noteq> r \<and> r_id s \<noteq> r_id r \<or> s = r\<lparr>r_status := RConfirmed\<rparr>"
proof -
  obtain x where x: "x \<in> set (reservations d)"
    "s = (if r_id x = r_id r then x\<lparr>r_status := RConfirmed\<rparr> else x)"
    using assms(3) by (auto simp: upd_rows_def)
  then show ?thesis using same_row [OF assms(1) x(1) assms(2)] by (cases "r_id x = r_id r") auto
qed

lemma mark_booked_rows_ok:
  assumes ok: "rows_ok d"
  shows "rows_ok (mark_booked rid d)"
proof -
  let ?rs = "upd_rows (\<lambda>r. r_id r = rid) (\<lambda>r. r\<lparr>r_status := RConfirmed\<rparr>) (reservations d)"
  have 1: "map r_id ?rs = map r_id (reservations d)" by (simp add: map_upd_rows)
  have 2: "\<exists>x \<in> set (reservations d). r_id r = r_id x \<and> r_source r = r_source x \<and>
      r_call_id r = r_call_id x \<and> party_size r = party_size x" if "r \<in> set ?rs" for r
    using that by (auto simp: upd_rows_def)
  have 3: "r_id r < next_id d \<and> reservation_check r" if "r \<in> set ?rs" for r
    using 2 [OF that] ok by (auto simp: rows_ok_def reservation_check_def)
  have 4: "r_source r = STablet"
    if "r \<in> set ?rs" "x \<in> set (reservation_tables d)" "r_id r = rt_reservation_id x" for r x
    using 2 [OF that(1)] that(2,3) ok unfolding rows_ok_def by metis
  have 5: "distinct (map r_id (reservations d))" "distinct (map dt_id (dining_tables d))"
    "\<forall>x \<in> set (reservation_tables d). rt_reservation_id x < next_id d \<and>
       rt_table_id x \<in> dt_id ` set (dining_tables d)"
    "\<forall>c \<in> set (capacities d). clock_time (slot_start c) \<and> clock_time (slot_end c)"
    using ok unfolding rows_ok_def by blast+
  show ?thesis
    unfolding rows_ok_def mark_booked_sel 1
    using 5 3 4 by blast
qed

lemma mark_booked_inv:
  assumes i: "booking_inv tid z d" and r: "r \<in> set (reservations d)" "r_tenant_id r = tid"
    "r_status r = RDraft" "r_deleted_at r = None"
    and room: "\<And>w. w \<in> windows_of d tid \<Longrightarrow> cw_contains z w (reserved_for r) \<Longrightarrow>
      guests_in d tid z w + party_size r \<le> cw_max_guests w \<or> on_team_word d r"
    and free: "\<And>s. s \<in> set (reservations d) \<Longrightarrow> booked_row tid s \<Longrightarrow>
      tables_at d (r_id s) \<inter> tables_at d (r_id r) \<noteq> {} \<Longrightarrow>
      \<not> same_turn d tid z (reserved_for s) (reserved_for r)"
  shows "booking_inv tid z (mark_booked (r_id r) d)"
proof -
  let ?d = "mark_booked (r_id r) d" and ?r = "r\<lparr>r_status := RConfirmed\<rparr>"
  have ok: "rows_ok d" using i by (simp add: booking_inv_def)
  then have dist: "distinct (map r_id (reservations d))" by (simp add: rows_ok_def)
  have w: "windows_of ?d tid = windows_of d tid" by (simp add: windows_of_cong [of ?d d])
  have g: "guests_in ?d tid z v = guests_in d tid z v + (if cw_contains z v (reserved_for r) then party_size r else 0)" for v
    unfolding guests_in_def mark_booked_sel
    by (subst sum_upd_one [OF dist r(1)]) (use r in \<open>simp_all add: seated_in_def\<close>)
  have in_new: "?r \<in> set (reservations ?d)" using r(1) by (force simp: upd_rows_def)
  have word: "on_team_word ?d s = on_team_word d s" for s by (simp add: on_team_word_def)
  have "seats_kept ?d tid z"
    unfolding seats_kept_def w
  proof
    fix v assume v: "v \<in> windows_of d tid"
    show "guests_in ?d tid z v \<le> cw_max_guests v \<or>
        (\<exists>s \<in> set (reservations ?d). seated_in tid z v s \<and> on_team_word ?d s)"
    proof (cases "cw_contains z v (reserved_for r)")
      case True
      have "seated_in tid z v ?r" using True r by (simp add: seated_in_def)
      moreover have "on_team_word ?d ?r = on_team_word d r" by (simp add: on_team_word_def)
      ultimately show ?thesis using room [OF v True] g [of v] True in_new by auto
    next
      case False
      have stay: "s \<in> set (reservations ?d)" if "s \<in> set (reservations d)" "seated_in tid z v s" for s
        using that r same_row [OF ok that(1) r(1)] by (force simp: upd_rows_def seated_in_def)
      have "guests_in d tid z v \<le> cw_max_guests v \<or>
          (\<exists>s \<in> set (reservations d). seated_in tid z v s \<and> on_team_word d s)"
        using i v by (simp add: booking_inv_def seats_kept_def)
      then show ?thesis using g [of v] False stay word by auto
    qed
  qed
  moreover have "tables_kept ?d tid z"
    unfolding tables_kept_def
  proof (intro ballI impI)
    fix a b assume a: "a \<in> set (reservations ?d)" and b: "b \<in> set (reservations ?d)"
      and h: "booked_row tid a \<and> booked_row tid b \<and> r_id a \<noteq> r_id b \<and>
        tables_at ?d (r_id a) \<inter> tables_at ?d (r_id b) \<noteq> {}"
    have t: "tables_at ?d = tables_at d" by (simp add: tables_at_def fun_eq_iff)
    have turn: "same_turn ?d tid z = same_turn d tid z" by (simp add: same_turn_def w fun_eq_iff)
    have sym: "same_turn d tid z x y = same_turn d tid z y x" for x y by (auto simp: same_turn_def)
    have old: "\<not> same_turn d tid z (reserved_for a) (reserved_for b)"
      if "a \<in> set (reservations d)" "b \<in> set (reservations d)"
      using i that h t by (auto simp: booking_inv_def tables_kept_def)
    show "\<not> same_turn ?d tid z (reserved_for a) (reserved_for b)"
    proof -
      consider "a \<in> set (reservations d)" "b \<in> set (reservations d)"
        | "a \<in> set (reservations d)" "b = ?r" | "a = ?r" "b \<in> set (reservations d)"
        using booked_rows_of [OF ok r(1) a] booked_rows_of [OF ok r(1) b] h by auto
      then show ?thesis
      proof cases
        case 1
        then show ?thesis unfolding turn by (rule old)
      next
        case 2
        then show ?thesis using free [of a] h unfolding t turn by simp
      next
        case 3
        then have "tables_at d (r_id b) \<inter> tables_at d (r_id r) \<noteq> {}" using h t by (simp add: Int_commute)
        then show ?thesis using free [of b] h 3 unfolding turn sym [of "reserved_for a"] by simp
      qed
    qed
  qed
  moreover have "get_tenant ?d tid = get_tenant d tid" by (simp add: get_tenant_def)
  ultimately show ?thesis
    using i mark_booked_rows_ok [OF ok] seats_planned_cong [OF w] by (simp add: booking_inv_def)
qed

section \<open>The steps keep the invariant\<close>

lemma inv_parts:
  assumes "booking_inv tid z d"
  shows "wf_zone z" "rows_ok d" "seats_planned d tid z" "parties_positive d"
    "map_option t_timezone (get_tenant d tid) = Some z"
  using assms by (auto simp: booking_inv_def rows_ok_def reservation_check_def parties_positive_def)

text \<open>A window that holds an instant is one of its day or of the day before.\<close>

lemma holder_around:
  assumes i: "booking_inv tid z d" and w: "w \<in> windows_of d tid" and c: "cw_contains z w at"
  shows "w \<in> set (windows_around d tid (ldate (astimezone z at)))"
proof -
  obtain day where day: "w \<in> set (capacity_windows d tid day)" using w by (auto simp: windows_of_def)
  then obtain k where k: "k \<in> set (capacities d)" "w = capacity_window_of day k"
    using capacity_window_of_day by blast
  then have "clock_time (slot_start k)" "clock_time (slot_end k)"
    using inv_parts(2) [OF i] by (auto simp: rows_ok_def)
  then have "window_of_day day (window_of day (slot_start k) (slot_end k))" by (rule window_of_in_day)
  moreover have "window_holds (window_of day (slot_start k) (slot_end k)) (wall (astimezone z at))"
    using c contains_iff_local [OF inv_parts(1) [OF i] planned_plain [OF inv_parts(3) [OF i] w]] k(2)
    by (simp add: cw_contains_local_def window_holds_def window_of_def capacity_window_of_def)
  ultimately have "day = ldate (astimezone z at) - 1 \<or> day = ldate (astimezone z at)" by (rule holds_near)
  then show ?thesis using day by (auto simp: windows_around_def)
qed

lemma elsewhere_row:
  "elsewhere d d1 \<Longrightarrow> guests_in d1 tid z w = guests_in d tid z w \<and> windows_of d1 tid = windows_of d tid \<and>
   tables_at d1 = tables_at d \<and> same_turn d1 tid z = same_turn d tid z"
  using windows_of_cong [of d1 d]
  by (simp add: elsewhere_def guests_in_def tables_at_def same_turn_def fun_eq_iff)

lemma agent_row_no_tables:
  assumes "rows_ok d" and "r \<in> set (reservations d)" and "r_call_id r \<noteq> None"
  shows "tables_at d (r_id r) = {}"
proof -
  have "r_source r = SAgent" using assms by (auto simp: rows_ok_def reservation_check_def)
  moreover have "r_source r = STablet" if "x \<in> set (reservation_tables d)" "rt_reservation_id x = r_id r" for x
    using assms(1,2) that by (auto simp: rows_ok_def)
  ultimately show ?thesis by (auto simp: tables_at_def)
qed

lemma yes_inv:
  assumes s: "confirm_table req now d = Inr (c, d')" and tid: "cq_tenant_id req = tid"
    and i: "booking_inv tid z d"
  shows "booking_inv tid z d'"
proof -
  obtain t where t: "get_tenant d tid = Some t" and s1: "confirm_reservation req t now d = Inr (c, d')"
    using s tid by (auto simp: confirm_table_def split: option.splits if_splits)
  have z: "t_timezone t = z" using i t by (simp add: booking_inv_def)
  obtain r where get: "get_reservation d (cq_entity_id req) = Some r" and row: "r_tenant_id r = tid"
      "r_call_id r = Some (cq_call_id req)" "r_deleted_at r = None" and st: "r_status r \<noteq> RCancelled"
    using s1 tid by (auto simp: confirm_reservation_def Let_def split: option.splits if_splits)
  have r: "r \<in> set (reservations d)" using get by (auto simp: get_reservation_def dest: find_SomeD)
  show ?thesis
  proof (cases "r_status r = RConfirmed")
    case True
    then have "d' = d" using s1 get row tid by (simp add: confirm_reservation_def Let_def)
    then show ?thesis using i by simp
  next
    case False
    then have draft: "r_status r = RDraft" using st by (cases "r_status r") auto
    let ?n = "note_contact tid (cq_call_id req) (r_phone r) now (Some (guest_name r)) d"
    obtain k where k: "get_config d tid = Some k" "reservations_enabled k"
      and room: "has_room d r z now (max_call_seconds k * SECOND)"
      using s1 get row tid draft z
      by (auto simp: confirm_reservation_def Let_def split: option.splits if_splits)
    obtain p where b: "book_table r ACTOR_AGENT p ?n = Inr d'"
      using s1 get row tid draft z k room by (auto simp: confirm_reservation_def Let_def)
    obtain d1 where d1: "elsewhere ?n d1" and d': "d' = mark_booked (r_id r) d1"
      using book_table_split [OF b] by blast
    have e: "elsewhere d d1" using elsewhere_trans [OF elsewhere_contact d1] .
    have i1: "booking_inv tid z d1" using elsewhere_inv [OF e i] .
    have r1: "r \<in> set (reservations d1)" using r e by (simp add: elsewhere_def)
    obtain w where w: "w \<in> windows_of d tid" "cw_contains z w (reserved_for r)"
      "guests_in d tid z w + party_size r \<le> cw_max_guests w"
      using has_room_enough [of z d r, OF inv_parts(1) [OF i] _ inv_parts(4) [OF i] room]
        inv_parts(3) [OF i] row(1) by auto
    show ?thesis
      unfolding d'
    proof (rule mark_booked_inv [OF i1 r1 row(1) draft row(3)])
      fix v assume v: "v \<in> windows_of d1 tid" "cw_contains z v (reserved_for r)"
      then have "v = w" using planned_unique [OF inv_parts(1) [OF i] inv_parts(3) [OF i] _ w(1)]
        elsewhere_row [OF e] w(2) by auto
      then show "guests_in d1 tid z v + party_size r \<le> cw_max_guests v \<or> on_team_word d1 r"
        using w(3) elsewhere_row [OF e] by simp
    next
      fix s assume "tables_at d1 (r_id s) \<inter> tables_at d1 (r_id r) \<noteq> {}"
      then show "\<not> same_turn d1 tid z (reserved_for s) (reserved_for r)"
        using agent_row_no_tables [OF inv_parts(2) [OF i1] r1] row(2) by simp
    qed
  qed
qed

lemma window_load_cases:
  assumes "window_load d tid at z now l cid = (w, n)"
  shows "w = first_window z (windows_around d tid (ldate (astimezone z at))) at"
    and "w = Some v \<Longrightarrow>
      n = booked_guests d tid z (windows_around d tid (ldate (astimezone z at))) now l cid v"
  using assms by (auto simp: window_load_def Let_def split: option.splits)

lemma window_at:
  assumes i: "booking_inv tid z d" and w: "window_load d tid at z now l cid = (w, n)"
  shows "v \<in> windows_of d tid \<Longrightarrow> cw_contains z v at \<Longrightarrow> w = Some v"
    and "w = Some v \<Longrightarrow> v \<in> windows_of d tid \<and> cw_contains z v at \<and> guests_in d tid z v \<le> n"
proof -
  let ?ws = "windows_around d tid (ldate (astimezone z at))"
  show "w = Some v" if "v \<in> windows_of d tid" "cw_contains z v at"
    using planned_first [OF inv_parts(1,3) [OF i] windows_around_of holder_around [OF i that] that(2)]
      window_load_cases(1) [OF w] by simp
  show "v \<in> windows_of d tid \<and> cw_contains z v at \<and> guests_in d tid z v \<le> n" if v: "w = Some v"
  proof -
    have mem: "v \<in> set ?ws" "cw_contains z v at"
      using find_SomeD [of "\<lambda>w. cw_contains z w at" ?ws v] v window_load_cases(1) [OF w]
      by (simp_all add: first_window_def)
    then show ?thesis
      using booked_covers [OF inv_parts(1,3,4) [OF i] windows_around_of mem(1)]
        window_load_cases(2) [OF w v] subsetD [OF windows_around_of mem(1)] by simp
  qed
qed

text \<open>With nothing taken, no other booking of the same turn holds one of the tables.\<close>

lemma taken_none:
  assumes "taken_tables coll d tid z ids at w (Some rid) = []"
    and "t \<in> set ids" and "t \<in> dt_id ` set (dining_tables d)" and "t \<in> tables_at d (r_id s)"
    and "s \<in> set (reservations d)" and "booked_row tid s" and "r_id s \<noteq> rid"
  shows "case w of Some v \<Rightarrow> \<not> cw_contains z v (reserved_for s) | None \<Rightarrow> reserved_for s \<noteq> at"
proof -
  obtain x where x: "x \<in> set (reservation_tables d)" "rt_table_id x = t" "rt_reservation_id x = r_id s"
    using assms(4) by (auto simp: tables_at_def)
  have "\<not> holds_table d tid z at w (Some rid) t"
    using assms(1-3) by (auto simp: taken_tables_def filter_empty_conv)
  then have "\<not> (r_id s = rt_reservation_id x \<and> r_tenant_id s = tid \<and> Some (r_id s) \<noteq> Some rid \<and>
      r_status s = RConfirmed \<and> r_deleted_at s = None \<and>
      (case w of Some v \<Rightarrow> cw_contains z v (reserved_for s) | None \<Rightarrow> reserved_for s = at))"
    using x(1,2) assms(5) unfolding holds_table_def list_ex_iff by blast
  then show ?thesis
    using x(3) assms(6,7) by (auto simp: booked_row_def split: option.splits)
qed

lemma seated_on_ids:
  assumes "rows_ok d"
  shows "set (map dt_id (seated_on coll d rid)) = tables_at d rid"
proof -
  have "rt_table_id x \<in> dt_id ` set (dining_tables d)" if "x \<in> set (reservation_tables d)" for x
    using assms that by (auto simp: rows_ok_def)
  then show ?thesis by (force simp: seated_on_def tables_at_def image_iff)
qed

lemma seating_ids:
  assumes "seating d tid ids = Inr tables" and "distinct (map dt_id (dining_tables d))"
  shows "set (map dt_id tables) = set ids"
proof (cases "ids = []")
  case True
  then show ?thesis using assms(1) by (simp add: seating_def)
next
  case False
  then have d: "distinct ids" and l: "length tables = length ids"
    and t: "tables = filter (\<lambda>t. dt_id t \<in> set ids \<and> dt_tenant_id t = tid \<and> dt_deleted_at t = None)
      (dining_tables d)"
    using assms(1) by (auto simp: seating_def Let_def split: if_splits)
  have "distinct (map dt_id tables)" unfolding t using assms(2) by (rule distinct_map_filter)
  then have "card (set (map dt_id tables)) = card (set ids)"
    using d l by (metis distinct_card length_map)
  moreover have "set (map dt_id tables) \<subseteq> set ids" by (auto simp: t)
  ultimately show ?thesis by (intro card_subset_eq) simp_all
qed

lemma tap_inv:
  assumes s: "confirm_tablet coll tid rid override who now d = Inr (c, d')" and i: "booking_inv tid z d"
  shows "booking_inv tid z d'"
proof -
  obtain t where t: "get_tenant d tid = Some t" and z: "t_timezone t = z"
    using inv_parts(5) [OF i] by auto
  obtain r where get: "get_reservation d rid = Some r" and row: "r_tenant_id r = tid" "r_source r = STablet"
      "r_deleted_at r = None" and st: "r_status r \<noteq> RCancelled"
    using s t by (auto simp: confirm_tablet_def split: option.splits if_splits)
  have r: "r \<in> set (reservations d)" using get by (auto simp: get_reservation_def dest: find_SomeD)
  show ?thesis
  proof (cases "r_status r = RConfirmed")
    case True
    then have "d' = d" using s t get row by (simp add: confirm_tablet_def)
    then show ?thesis using i by simp
  next
    case False
    then have draft: "r_status r = RDraft" using st by (cases "r_status r") auto
    obtain tables l where seat: "seating d tid (map dt_id (seated_on coll d (r_id r))) = Inr tables"
      and life: "draft_lifetime d tid = Inr l"
      using s t get row draft by (auto simp: confirm_tablet_def Let_def split: if_splits)
    obtain w n where load: "window_load d tid (reserved_for r) z now l None = (w, n)" by force
    let ?full = "\<not> window_fits w n (party_size r)"
    have taken: "taken_tables coll d tid z (map dt_id tables) (reserved_for r) w (Some (r_id r)) = []"
      and b: "book_table r who (JObj [(''source'', JStr ''tablet''), (''override'', JBool ?full)]) d = Inr d'"
      using s t get row draft seat life load z
      by (auto simp: confirm_tablet_def Let_def split: if_splits)
    obtain d1 where e: "elsewhere d d1" and d': "d' = mark_booked (r_id r) d1"
      and noted: "\<exists>a \<in> set (audit d1). action a = ACTION_TABLE_CONFIRMED \<and> entity_id a = Some (r_id r) \<and>
        au_payload a = JObj [(''source'', JStr ''tablet''), (''override'', JBool ?full)]"
      using book_table_split [OF b] by blast
    have i1: "booking_inv tid z d1" using elsewhere_inv [OF e i] .
    have r1: "r \<in> set (reservations d1)" using r e by (simp add: elsewhere_def)
    have ids: "set (map dt_id tables) = tables_at d (r_id r)"
      using seating_ids [OF seat] seated_on_ids [OF inv_parts(2) [OF i]] inv_parts(2) [OF i]
      by (simp add: rows_ok_def)
    show ?thesis
      unfolding d'
    proof (rule mark_booked_inv [OF i1 r1 row(1) draft row(3)])
      fix v assume v: "v \<in> windows_of d1 tid" "cw_contains z v (reserved_for r)"
      then have w: "w = Some v" using window_at(1) [OF i load] elsewhere_row [OF e] by simp
      show "guests_in d1 tid z v + party_size r \<le> cw_max_guests v \<or> on_team_word d1 r"
      proof (cases "window_fits w n (party_size r)")
        case True
        then show ?thesis using window_at(2) [OF i load w] elsewhere_row [OF e] w
          by (simp add: window_fits_def)
      next
        case False
        then show ?thesis using noted by (auto simp: on_team_word_def override_note_def)
      qed
    next
      fix s assume s: "s \<in> set (reservations d1)" "booked_row tid s"
        "tables_at d1 (r_id s) \<inter> tables_at d1 (r_id r) \<noteq> {}"
      have sd: "s \<in> set (reservations d)" using s(1) e by (simp add: elsewhere_def)
      obtain k where k: "k \<in> tables_at d (r_id s)" "k \<in> tables_at d (r_id r)"
        using s(3) elsewhere_row [OF e] by auto
      have "k \<in> dt_id ` set (dining_tables d)"
        using k(1) inv_parts(2) [OF i] by (auto simp: tables_at_def rows_ok_def)
      moreover have "r_id s \<noteq> r_id r"
        using same_row [OF inv_parts(2) [OF i] sd r] draft s(2) by (auto simp: booked_row_def)
      ultimately have clash: "case w of Some v \<Rightarrow> \<not> cw_contains z v (reserved_for s)
          | None \<Rightarrow> reserved_for s \<noteq> reserved_for r"
        using taken_none [OF taken _ _ k(1) sd s(2)] k(2) ids by simp
      have "\<not> same_turn d tid z (reserved_for s) (reserved_for r)"
      proof
        assume "same_turn d tid z (reserved_for s) (reserved_for r)"
        then consider "reserved_for s = reserved_for r"
          | v where "v \<in> windows_of d tid" "cw_contains z v (reserved_for s)" "cw_contains z v (reserved_for r)"
          by (auto simp: same_turn_def)
        then show False
        proof cases
          case 1
          then show ?thesis using clash window_at(2) [OF i load] by (cases w) auto
        next
          case (2 v)
          then show ?thesis using clash window_at(1) [OF i load 2(1) 2(3)] by simp
        qed
      qed
      then show "\<not> same_turn d1 tid z (reserved_for s) (reserved_for r)"
        using elsewhere_row [OF e] by simp
    qed
  qed
qed

text \<open>A new draft seats nobody.\<close>

lemma add_draft_inv:
  assumes i: "booking_inv tid z d" and r: "r_id r = next_id d" "r_status r = RDraft" "reservation_check r"
    and x: "\<forall>x \<in> set xs. rt_reservation_id x = r_id r \<and> rt_table_id x \<in> dt_id ` set (dining_tables d)"
    and src: "xs \<noteq> [] \<Longrightarrow> r_source r = STablet"
  shows "booking_inv tid z (d\<lparr>reservations := reservations d @ [r], next_id := Suc (next_id d),
    reservation_tables := reservation_tables d @ xs\<rparr>)" (is "booking_inv tid z ?d")
proof -
  have ok: "rows_ok d" using inv_parts(2) [OF i] .
  have w: "windows_of ?d tid = windows_of d tid" by (simp add: windows_of_cong [of ?d d])
  have new: "r_id s < next_id d" "r_id s \<noteq> r_id r" if "s \<in> set (reservations d)" for s
    using that ok r(1) by (auto simp: rows_ok_def)
  have newt: "rt_reservation_id y < next_id d" if "y \<in> set (reservation_tables d)" for y
    using that ok by (auto simp: rows_ok_def)
  have "rows_ok ?d"
  proof -
    have "r_id r \<notin> r_id ` set (reservations d)" using new(2) by force
    then have 1: "distinct (map r_id (reservations ?d))" using ok by (simp add: rows_ok_def)
    have 2: "\<forall>s \<in> set (reservations ?d). r_id s < next_id ?d \<and> reservation_check s"
      using ok r by (auto simp: rows_ok_def less_Suc_eq)
    have 3: "\<forall>y \<in> set (reservation_tables ?d). rt_reservation_id y < next_id ?d \<and>
        rt_table_id y \<in> dt_id ` set (dining_tables ?d)"
      using ok x r(1) by (auto simp: rows_ok_def less_Suc_eq)
    have 4: "r_source s = STablet"
      if "y \<in> set (reservation_tables ?d)" "s \<in> set (reservations ?d)" "r_id s = rt_reservation_id y" for y s
    proof (cases "s = r")
      case True
      then have "y \<notin> set (reservation_tables d)" using newt [of y] that(3) r(1) by auto
      then have "xs \<noteq> []" using that(1) by auto
      then show ?thesis using src True by simp
    next
      case False
      then have "s \<in> set (reservations d)" using that(2) by simp
      then have "y \<in> set (reservation_tables d)" using that(1,3) x new by auto
      then show ?thesis using ok \<open>s \<in> set (reservations d)\<close> that(3) by (auto simp: rows_ok_def)
    qed
    have 5: "distinct (map dt_id (dining_tables ?d))"
      "\<forall>c \<in> set (capacities ?d). clock_time (slot_start c) \<and> clock_time (slot_end c)"
      using ok by (simp_all add: rows_ok_def)
    show ?thesis unfolding rows_ok_def using 1 2 3 4 5 by blast
  qed
  moreover have "guests_in ?d tid z v = guests_in d tid z v" for v
    using r(2) by (simp add: guests_in_def seated_in_def)
  then have "seats_kept ?d tid z"
    using i w by (auto simp: booking_inv_def seats_kept_def on_team_word_def)
  moreover have "tables_kept ?d tid z"
  proof -
    have "tables_at ?d (r_id s) = tables_at d (r_id s)" if "s \<in> set (reservations d)" for s
      using x new [OF that] by (auto simp: tables_at_def)
    moreover have "same_turn ?d tid z = same_turn d tid z" by (simp add: same_turn_def w fun_eq_iff)
    ultimately show ?thesis using i r(2) by (auto simp: booking_inv_def tables_kept_def booked_row_def)
  qed
  moreover have "get_tenant ?d tid = get_tenant d tid" by (simp add: get_tenant_def)
  ultimately show ?thesis using i seats_planned_cong [OF w] by (simp add: booking_inv_def)
qed

lemma elsewhere_audit: "elsewhere d (add_audit tid who what ent eid p d)"
  by (auto simp: elsewhere_def add_audit_def)

lemma draft_inv:
  assumes s: "create_reservation req now d = Inr (a, d')" and party: "1 \<le> cr_party_size req"
    and i: "booking_inv tid z d"
  shows "booking_inv tid z d'"
proof (cases "reservation_by_key d (cr_idempotency_key req)")
  case (Some r)
  then have "d' = d" using s by (auto simp: create_reservation_def Let_def split: option.splits)
  then show ?thesis using i by simp
next
  case None
  then obtain c phone p where d': "d' = add_audit (cr_tenant_id req) ACTOR_AGENT ACTION_TABLE_DRAFTED
      ''reservation'' (r_id (new_reservation req c phone now d)) p
      (d\<lparr>reservations := reservations d @ [new_reservation req c phone now d], next_id := Suc (next_id d)\<rparr>)"
    using s by (auto simp: create_reservation_def Let_def split: option.splits if_splits)
  have "booking_inv tid z (d\<lparr>reservations := reservations d @ [new_reservation req c phone now d],
      next_id := Suc (next_id d), reservation_tables := reservation_tables d @ []\<rparr>)"
    by (rule add_draft_inv [OF i]) (use party in \<open>simp_all add: new_reservation_def reservation_check_def\<close>)
  then show ?thesis unfolding d' using elsewhere_inv [OF elsewhere_audit] by simp
qed

lemma seating_known: "seating d tid ids = Inr tables \<Longrightarrow> set tables \<subseteq> set (dining_tables d)"
  by (auto simp: seating_def Let_def split: if_splits)

lemma entry_inv:
  assumes s: "create_tablet_reservation coll req now who d = Inr (a, d')" and party: "1 \<le> tq_party_size req"
    and i: "booking_inv tid z d"
  shows "booking_inv tid z d'"
proof (cases "reservation_by_key d (tq_idempotency_key req)")
  case (Some r)
  then have "d' = d" using s by (auto simp: create_tablet_reservation_def Let_def split: option.splits)
  then show ?thesis using i by simp
next
  case None
  define rows where "rows tables r = map (\<lambda>t. \<lparr>rt_tenant_id = tq_tenant_id req, rt_reservation_id = r_id r,
    rt_table_id = dt_id t\<rparr>) tables" for tables :: "dining_table list" and r :: reservation
  obtain phone p tables where seat: "seating d (tq_tenant_id req) (tq_table_ids req) = Inr tables"
    and d': "d' = add_audit (tq_tenant_id req) who ACTION_TABLE_DRAFTED
      ''reservation'' (r_id (new_tablet_reservation req phone now d)) p
      (d\<lparr>reservations := reservations d @ [new_tablet_reservation req phone now d], next_id := Suc (next_id d),
         reservation_tables := reservation_tables d @ rows tables (new_tablet_reservation req phone now d)\<rparr>)"
    using s None
    by (auto simp: create_tablet_reservation_def Let_def rows_def split: option.splits if_splits)
  have "booking_inv tid z (d\<lparr>reservations := reservations d @ [new_tablet_reservation req phone now d],
      next_id := Suc (next_id d),
      reservation_tables := reservation_tables d @ rows tables (new_tablet_reservation req phone now d)\<rparr>)"
    by (rule add_draft_inv [OF i])
      (use party seating_known [OF seat] in
        \<open>auto simp: new_tablet_reservation_def reservation_check_def rows_def\<close>)
  then show ?thesis unfolding d' using elsewhere_inv [OF elsewhere_audit] by simp
qed

interpretation booking: machine "booking_step coll tid" "booking_inv tid z" for coll tid z
proof unfold_locales
  fix s t assume "booking_step coll tid s t" "booking_inv tid z s"
  then show "booking_inv tid z t"
  proof (induction rule: booking_step.induct)
    case (draft req now d a d')
    then show ?case by (simp add: draft_inv)
  next
    case (entry req now who d b d')
    then show ?case by (simp add: entry_inv)
  next
    case (yes creq now d c d')
    then show ?case by (simp add: yes_inv)
  next
    case (tap rid override who now d c d')
    then show ?case by (simp add: tap_inv)
  next
    case (other d d')
    then show ?case by (simp add: elsewhere_inv)
  qed
qed

section \<open>Seats and tables\<close>

text \<open>C11. However drafts, yeses of guests and taps of the team interleave, a capacity window never
  holds more confirmed guests than it has seats, unless the team overbooked it: then one of its
  reservations carries the team's word in the audit log.\<close>

theorem never_overbooked:
  assumes "(booking_step coll tid)\<^sup>*\<^sup>* d d'" and "booking_inv tid z d"
    and "w \<in> set (capacity_windows d' tid day)" and "cw_max_guests w < guests_in d' tid z w"
  shows "\<exists>r \<in> set (reservations d'). seated_in tid z w r \<and>
    (\<exists>a \<in> set (audit d'). action a = ACTION_TABLE_CONFIRMED \<and> entity_id a = Some (r_id r) \<and>
       au_payload a = override_note)"
  using booking.steps_inv [OF assms(1,2)] assms(3,4)
  by (fastforce simp: booking_inv_def seats_kept_def windows_of_def on_team_word_def)

text \<open>C29. No table is given away twice: two confirmed reservations on the same table never begin in
  the same capacity window, nor at the same time.\<close>

theorem no_table_twice:
  assumes "(booking_step coll tid)\<^sup>*\<^sup>* d d'" and "booking_inv tid z d"
    and "r \<in> set (reservations d')" and "s \<in> set (reservations d')"
    and "booked_row tid r" and "booked_row tid s" and "r_id r \<noteq> r_id s"
    and "k \<in> tables_at d' (r_id r)" and "k \<in> tables_at d' (r_id s)"
  shows "reserved_for r \<noteq> reserved_for s \<and>
    (\<forall>day. \<forall>w \<in> set (capacity_windows d' tid day).
       \<not> (cw_contains z w (reserved_for r) \<and> cw_contains z w (reserved_for s)))"
  using booking.steps_inv [OF assms(1,2)] assms(3-9)
  by (fastforce simp: booking_inv_def tables_kept_def windows_of_def same_turn_def)

end
