(* ===== verification/Evening.thy ===== *)
theory Evening
  imports BookingRun
begin

text \<open>
  The guest's yes to a table: it is asked once, it answers the same ever after, it finds the seats
  the draft was promised, and only the call of the draft can say it. With an evening of one
  restaurant on which the properties of the bookings are applied.
\<close>

section \<open>The yes\<close>

text \<open>What a yes does: to a draft it writes the booking, to a booking nothing.\<close>

lemma confirm_table_cases:
  assumes "confirm_table req now d = Inr (c, d')"
  obtains t k r where "get_tenant d (cq_tenant_id req) = Some t"
    and "get_call d (cq_call_id req) = Some k" and "c_tenant_id k = cq_tenant_id req"
    and "get_reservation d (cq_entity_id req) = Some r" and "r_tenant_id r = cq_tenant_id req"
    and "r_call_id r = Some (cq_call_id req)" and "r_deleted_at r = None" and "c = CONFIRMED"
    and "r_status r = RConfirmed \<and> d' = d \<or> r_status r = RDraft \<and>
      (\<exists>p. book_table r ACTOR_AGENT p
        (note_contact (cq_tenant_id req) (cq_call_id req) (r_phone r) now (Some (guest_name r)) d) = Inr d')"
proof -
  let ?tid = "cq_tenant_id req" and ?cid = "cq_call_id req"
  obtain t k where t: "get_tenant d ?tid = Some t" and k: "get_call d ?cid = Some k"
    "c_tenant_id k = ?tid" and s: "confirm_reservation req t now d = Inr (c, d')"
    using assms by (auto simp: confirm_table_def split: option.splits if_splits)
  obtain r where r: "get_reservation d (cq_entity_id req) = Some r" "r_tenant_id r = ?tid"
    "r_call_id r = Some ?cid" "r_deleted_at r = None" "r_status r \<noteq> RCancelled"
    using s by (auto simp: confirm_reservation_def Let_def split: option.splits if_splits)
  have "c = CONFIRMED"
    using s by (auto simp: confirm_reservation_def Let_def split: option.splits if_splits)
  moreover have "r_status r = RConfirmed \<and> d' = d \<or> r_status r = RDraft \<and>
      (\<exists>p. book_table r ACTOR_AGENT p (note_contact ?tid ?cid (r_phone r) now (Some (guest_name r)) d) = Inr d')"
    using s r
    by (cases "r_status r") (auto simp: confirm_reservation_def Let_def split: option.splits if_splits)
  ultimately show thesis using that t k r by blast
qed

text \<open>The database after a booking.\<close>

lemma book_table_db:
  assumes "book_table r who p d = Inr d'"
  shows "reservations d' = upd_rows (\<lambda>x. r_id x = r_id r) (\<lambda>r. r\<lparr>r_status := RConfirmed\<rparr>) (reservations d)"
    and "outbox d' = outbox d @ [new_event (r_tenant_id r) RESERVATION_CONFIRMED (reservation_event r) d]"
    and "tenants d' = tenants d" and "calls d' = calls d"
  using assms
  by (auto simp: book_table_def enqueue_def EVENT_TYPES_def set_reservation_def add_audit_def
      new_event_def Let_def)

lemma get_reservation_upd:
  "(\<And>r. r_id (f r) = r_id r) \<Longrightarrow> reservations d' = upd_rows (\<lambda>x. r_id x = i) f (reservations d) \<Longrightarrow>
   get_reservation d' i = map_option f (get_reservation d i)"
  by (auto simp: get_reservation_def find_upd_rows dest: find_SomeD split: option.splits)
    (cases "find (\<lambda>r. r_id r = i) (reservations d)"; auto dest: find_SomeD)

lemma confirm_table_again:
  assumes "confirm_table req now d = Inr (c, d')"
  shows "confirm_table (req\<lparr>cq_idempotency_key := key\<rparr>) later d' = Inr (c, d')"
  using confirm_table_cases [OF assms]
proof cases
  case (1 t k r)
  let ?n = "note_contact (cq_tenant_id req) (cq_call_id req) (r_phone r) now (Some (guest_name r)) d"
  have id: "r_id r = cq_entity_id req" using 1(4) by (auto simp: get_reservation_def dest: find_SomeD)
  have "get_tenant d' (cq_tenant_id req) = Some t \<and> get_call d' (cq_call_id req) = Some k \<and>
      get_reservation d' (cq_entity_id req) = Some (r\<lparr>r_status := RConfirmed\<rparr>)"
  proof (cases "r_status r = RConfirmed")
    case True
    then show ?thesis using 1 by simp
  next
    case False
    then obtain p where b: "book_table r ACTOR_AGENT p ?n = Inr d'" using 1(9) by blast
    show ?thesis
      using 1 book_table_db [OF b] get_reservation_upd [of "\<lambda>r. r\<lparr>r_status := RConfirmed\<rparr>" d' "r_id r" d]
      by (simp add: get_tenant_def get_call_def id)
  qed
  then show ?thesis
    using 1 by (simp add: confirm_table_def confirm_reservation_def Let_def)
qed

interpretation table_yes: replayable "confirm_table req now" for req now
proof unfold_locales
  fix d c d' assume "confirm_table req now d = Inr (c, d')"
  from confirm_table_again [OF this, of "cq_idempotency_key req" now]
  show "confirm_table req now d' = Inr (c, d')" by simp
qed

text \<open>A table is confirmed once. Only its own call can do it, the first yes writes one event to
  the outbox, and from then on every yes of that call, whenever it comes and with whatever key,
  gives the same answer and writes nothing.\<close>

theorem confirm_table_once:
  assumes "confirm_table req now d = Inr (c, d')"
  shows "(\<exists>r. get_reservation d (cq_entity_id req) = Some r \<and> r_tenant_id r = cq_tenant_id req \<and>
      r_call_id r = Some (cq_call_id req) \<and>
      (r_status r = RConfirmed \<and> d' = d \<or> r_status r = RDraft \<and>
        outbox d' = outbox d @ [new_event (r_tenant_id r) RESERVATION_CONFIRMED (reservation_event r) d])) \<and>
    confirm_table (req\<lparr>cq_idempotency_key := key\<rparr>) later d' = Inr (c, d') \<and>
    table_yes.repeat_op req now (Suc n) d = Inr (replicate (Suc n) c, d')"
  using confirm_table_cases [OF assms]
proof cases
  case (1 t k r)
  then have "\<exists>r. get_reservation d (cq_entity_id req) = Some r \<and> r_tenant_id r = cq_tenant_id req \<and>
      r_call_id r = Some (cq_call_id req) \<and>
      (r_status r = RConfirmed \<and> d' = d \<or> r_status r = RDraft \<and>
        outbox d' = outbox d @ [new_event (r_tenant_id r) RESERVATION_CONFIRMED (reservation_event r) d])"
    using book_table_db(2) [of r ACTOR_AGENT] by (fastforce simp: new_event_def)
  then show ?thesis
    using confirm_table_again [OF assms] table_yes.repeat_same [OF assms] by blast
qed

section \<open>A draft and its seats\<close>

lemma window_for_first:
  assumes "wf_zone z" and "seats_planned d tid z" and "set ws \<subseteq> windows_of d tid"
  shows "window_for ws (astimezone z at) = first_window z ws at"
proof -
  have "cw_contains z w at = cw_contains_local w (astimezone z at)" if "w \<in> set ws" for w
    using contains_iff_local [OF assms(1) planned_plain [OF assms(2)]] that assms(3) by blast
  then show ?thesis unfolding window_for_def first_window_def by (intro find_cong) simp_all
qed

text \<open>Later, fewer drafts count.\<close>

lemma counts_later:
  "counts d tid later l cid r \<Longrightarrow> now \<le> later \<Longrightarrow> counts d tid now l cid r"
  by (auto simp: counts_def live_draft_def split: option.splits)

lemma booked_later:
  assumes "calls d' = calls d" and "reservations d' = reservations d @ [r]" and "parties_positive d"
    and "r_status r = RDraft" and "r_call_id r = cid" and "now \<le> later"
  shows "booked_guests d' tid z ws later l cid w \<le> booked_guests d tid z ws now l cid w"
proof -
  have "get_call d' = get_call d" using assms(1) by (simp add: get_call_def fun_eq_iff)
  then have c: "counts d' tid later l cid x = counts d tid later l cid x" for x
    by (simp only: counts_def live_draft_def)
  have "\<not> counts d' tid later l cid r"
    using assms(4,5) by (auto simp: counts_def live_draft_def split: option.splits)
  then have "booked_guests d' tid z ws later l cid w = booked_guests d tid z ws later l cid w"
    unfolding booked_guests_def booked_rows_def Let_def assms(2) filter_append c by simp
  also have "\<dots> \<le> booked_guests d tid z ws now l cid w"
    unfolding booked_guests_def booked_rows_def Let_def filter_filter
    using assms(3) counts_later [OF _ assms(6)]
    by (intro sum_list_filter_mono) (auto simp: parties_positive_def less_imp_le)
  finally show ?thesis .
qed

text \<open>What a new draft was checked for.\<close>

lemma create_reservation_new:
  assumes "create_reservation req now d = Inr (a, d')"
    and "reservation_by_key d (cr_idempotency_key req) = None"
  obtains t k c phone where "get_tenant d (cr_tenant_id req) = Some t"
    and "get_call d (cr_call_id req) = Some k" and "c_tenant_id k = cr_tenant_id req"
    and "get_config d (cr_tenant_id req) = Some c" and "reservations_enabled c"
    and "seats_free (wish_of d (cr_tenant_id req) t c (cr_reserved_for req) (cr_party_size req) now
      (Some (cr_call_id req))) (astimezone (t_timezone t) (cr_reserved_for req))"
    and "a = reservation_draft_of (new_reservation req k phone now d) (t_timezone t)"
    and "reservations d' = reservations d @ [new_reservation req k phone now d]"
    and "tenants d' = tenants d" and "calls d' = calls d" and "service_configs d' = service_configs d"
    and "capacities d' = capacities d" and "special_days d' = special_days d"
proof -
  let ?tid = "cr_tenant_id req"
  obtain t k phone slot where h: "get_tenant d ?tid = Some t" "get_call d (cr_call_id req) = Some k"
      "c_tenant_id k = ?tid"
    and slot: "check_slot d ?tid (cr_reserved_for req) (cr_party_size req) now (Some (cr_call_id req)) = Inr slot"
      "sl_available slot"
    and a: "a = reservation_draft_of (new_reservation req k phone now d) (t_timezone t)"
    and d': "reservations d' = reservations d @ [new_reservation req k phone now d]"
      "tenants d' = tenants d" "calls d' = calls d" "service_configs d' = service_configs d"
      "capacities d' = capacities d" "special_days d' = special_days d"
    using assms
    by (auto simp: create_reservation_def Let_def add_audit_def split: option.splits if_splits)
  obtain c where c: "get_config d ?tid = Some c" using slot(1) h(1)
    by (auto simp: check_slot_def split: option.splits)
  let ?x = "wish_of d ?tid t c (cr_reserved_for req) (cr_party_size req) now (Some (cr_call_id req))"
  have "reservations_enabled c \<and> (\<exists>n. slot = answer_wish ?x n)"
    using slot h(1) c by (auto simp: check_slot_def unavailable_def Let_def split: if_splits)
  then obtain n where en: "reservations_enabled c" and n: "slot = answer_wish ?x n" by blast
  have "seats_free ?x (w_local ?x)"
    using slot(2) unfolding n
    by (auto simp: answer_wish_def answer_closed_def answer_open_def unavailable_def Let_def fits_def
        seated_def split: option.splits if_splits)
  then show thesis using that [OF h c en _ a d'] by (simp add: w_local_def)
qed

text \<open>The seats of a draft are there at the yes: as long as nobody else's booking, draft or switch
  comes in between, the call that made the draft can confirm it at any later time, also when its
  drafts have run out.\<close>

theorem draft_keeps_seats:
  assumes s: "create_reservation req now d = Inr (a, d')"
    and new: "reservation_by_key d (cr_idempotency_key req) = None"
    and i: "booking_inv (cr_tenant_id req) z d" and later: "now \<le> later"
  shows "\<exists>d''. confirm_table \<lparr>cq_tenant_id = cr_tenant_id req, cq_call_id = cr_call_id req,
    cq_entity_id = rd_reservation_id a, cq_idempotency_key = key\<rparr> later d' = Inr (CONFIRMED, d'')"
proof -
  let ?tid = "cr_tenant_id req" and ?cid = "Some (cr_call_id req)" and ?at = "cr_reserved_for req"
  obtain t k c phone where h: "get_tenant d ?tid = Some t" "get_call d (cr_call_id req) = Some k"
      "c_tenant_id k = ?tid" "get_config d ?tid = Some c" "reservations_enabled c"
    and free: "seats_free (wish_of d ?tid t c ?at (cr_party_size req) now ?cid)
      (astimezone (t_timezone t) ?at)"
    and a: "a = reservation_draft_of (new_reservation req k phone now d) (t_timezone t)"
    and d': "reservations d' = reservations d @ [new_reservation req k phone now d]"
      "tenants d' = tenants d" "calls d' = calls d" "service_configs d' = service_configs d"
      "capacities d' = capacities d" "special_days d' = special_days d"
    using create_reservation_new [OF s new] by blast
  define r where "r = new_reservation req k phone now d"
  let ?ws = "windows_around d ?tid (ldate (astimezone z ?at))"
  have z: "t_timezone t = z" using inv_parts(5) [OF i] h(1) by simp
  have row: "r_tenant_id r = ?tid" "r_call_id r = ?cid" "r_status r = RDraft" "reserved_for r = ?at"
    "party_size r = cr_party_size req" "r_deleted_at r = None" "r_id r = next_id d"
    by (simp_all add: r_def new_reservation_def)
  have ws: "windows_around d' ?tid (ldate (astimezone z ?at)) = ?ws"
    using windows_of_cong [OF d'(5,6)] by (simp add: windows_around_def)
  obtain w where w: "window_for ?ws (astimezone z ?at) = Some w"
    and room: "booked_guests d ?tid z ?ws now (max_call_seconds c * SECOND) ?cid w + cr_party_size req
      \<le> cw_max_guests w"
    using free z by (auto simp: seats_free_def split: option.splits)
  have first: "first_window z ?ws ?at = Some w"
    using window_for_first [OF inv_parts(1,3) [OF i] windows_around_of] w by simp
  have "booked_guests d' ?tid z ?ws later (max_call_seconds c * SECOND) ?cid w
      \<le> booked_guests d ?tid z ?ws now (max_call_seconds c * SECOND) ?cid w"
    using d' row later by (intro booked_later [OF _ _ inv_parts(4) [OF i]]) (simp_all add: r_def)
  then have "has_room d' r z later (max_call_seconds c * SECOND)"
    using room first row ws by (simp add: has_room_def window_load_def Let_def)
  moreover have "r_id s \<noteq> next_id d" if "s \<in> set (reservations d)" for s
    using inv_parts(2) [OF i] that by (auto simp: rows_ok_def)
  then have "find (\<lambda>s. r_id s = next_id d) (reservations d) = None" by (auto simp: find_None_iff)
  then have "get_reservation d' (next_id d) = Some r"
    using row(7) by (simp add: get_reservation_def d'(1) find_append_new r_def)
  moreover have "rd_reservation_id a = next_id d"
    using row(7) by (simp add: a reservation_draft_of_def r_def)
  moreover have "get_tenant d' ?tid = Some t" "get_config d' ?tid = Some c"
    "get_call d' (cr_call_id req) = Some k"
    using h d' by (simp_all add: get_tenant_def get_config_def get_call_def)
  ultimately show ?thesis
    using h row z
    by (auto simp: confirm_table_def confirm_reservation_def Let_def book_table_def enqueue_def EVENT_TYPES_def)
qed

section \<open>A Friday\<close>

text \<open>Two seatings on Fridays, 18:00 to 20:00 and 20:00 to 22:00, twenty seats each. Fourteen guests
  are booked at 19:00 and six at 20:30 on the same table; the team has a draft for eight at 19:30.\<close>

definition friday :: int where "friday = 20546"
definition friday_noon :: instant where "friday_noon = friday * DAY + 10 * HOUR"
definition seven_pm :: instant where "seven_pm = friday * DAY + 17 * HOUR"

definition friday_seats :: "capacity list" where
  "friday_seats =
     [\<lparr>cap_tenant_id = 7, cap_weekday = 4, slot_start = 18 * HOUR, slot_end = 20 * HOUR,
       cap_max_guests = 20, cap_slot_minutes = 30, cap_notice_minutes = 30\<rparr>,
      \<lparr>cap_tenant_id = 7, cap_weekday = 4, slot_start = 20 * HOUR, slot_end = 22 * HOUR,
       cap_max_guests = 20, cap_slot_minutes = 30, cap_notice_minutes = 0\<rparr>]"

definition friday_row :: "uuid \<Rightarrow> reservation_status \<Rightarrow> int \<Rightarrow> instant \<Rightarrow> reservation" where
  "friday_row i st party at =
     \<lparr>r_id = i, r_tenant_id = 7, r_call_id = None, r_source = STablet, r_status = st,
      guest_name = ''Lang'', r_phone = [], r_booked_on_own_line = False, party_size = party,
      reserved_for = at, r_note = None, r_idempotency_key = str_nat i, r_created_at = friday_noon,
      r_deleted_at = None\<rparr>"

definition friday_db :: db where
  "friday_db = empty_db\<lparr>tenants := [example_tenant], service_configs := [example_config],
     opening_hours_rows := [\<lparr>oh_tenant_id = 7, oh_weekday = 4, opens_at = 17 * HOUR,
       closes_at = 23 * HOUR, oh_service = Dinein\<rparr>],
     capacities := friday_seats, calls := calls family_db, customers := customers family_db,
     dining_tables := [\<lparr>dt_id = 31, dt_tenant_id = 7, dt_name = ''4'', dt_deleted_at = None\<rparr>,
       \<lparr>dt_id = 32, dt_tenant_id = 7, dt_name = ''5'', dt_deleted_at = None\<rparr>],
     reservations := [friday_row 40 RConfirmed 14 seven_pm,
       friday_row 41 RDraft 8 (seven_pm + 30 * MINUTE),
       friday_row 42 RConfirmed 6 (seven_pm + 90 * MINUTE)],
     reservation_tables := [\<lparr>rt_tenant_id = 7, rt_reservation_id = 40, rt_table_id = 31\<rparr>,
       \<lparr>rt_tenant_id = 7, rt_reservation_id = 41, rt_table_id = 32\<rparr>,
       \<lparr>rt_tenant_id = 7, rt_reservation_id = 42, rt_table_id = 31\<rparr>],
     next_id := 100\<rparr>"

text \<open>The changes of the clock in Berlin happen before four in the morning.\<close>

lemma berlin_plain:
  assumes "4 * HOUR \<le> t" and "t < DAY"
  shows "plain berlin (day * DAY + t)"
proof -
  have x: "day * DAY + t < k * DAY \<or> k * DAY + 4 * HOUR \<le> day * DAY + t" for k
  proof (cases "day < k")
    case True
    then have "(day + 1) * DAY \<le> k * DAY" by (intro mult_right_mono) (simp_all add: DAY_def)
    then have "day * DAY + DAY \<le> k * DAY" by (simp only: distrib_right mult_1)
    then show ?thesis using assms by linarith
  next
    case False
    then have "k * DAY \<le> day * DAY" by (intro mult_right_mono) (simp_all add: DAY_def)
    then show ?thesis using assms by linarith
  qed
  show ?thesis
    using x [of 20541] x [of 20751] x [of 20905] x [of 21122]
    by (simp add: plain_def berlin_def time_units) linarith
qed

lemma friday_windows:
  assumes "w \<in> windows_of friday_db 7"
  shows "\<exists>day. \<exists>s \<in> {18, 20}.
     cw_start w = combine day (s * HOUR) \<and> cw_end w = combine day ((s + 2) * HOUR) \<and> cw_max_guests w = 20 \<and>
     w = capacity_window_of day (friday_seats ! (if s = 18 then 0 else 1))"
proof -
  obtain day r where r: "r \<in> set friday_seats" and w: "w = capacity_window_of day r"
    using assms capacity_window_of_day by (fastforce simp: windows_of_def friday_db_def)
  have "\<exists>s \<in> {18, 20}. r = friday_seats ! (if s = (18 :: int) then 0 else 1) \<and> slot_start r = s * HOUR \<and>
      slot_end r = (s + 2) * HOUR \<and> cap_max_guests r = 20"
    using r by (auto simp: friday_seats_def)
  then show ?thesis unfolding w by (auto simp: capacity_window_of_def time_units)
qed

lemma friday_planned: "seats_planned friday_db 7 berlin"
proof -
  have "plain berlin (wall (cw_start w)) \<and> plain berlin (wall (cw_end w))"
    if in_w: "w \<in> windows_of friday_db 7" for w
  proof -
    obtain day s where w: "s \<in> {18, 20 :: int}" "cw_start w = combine day (s * HOUR)"
      "cw_end w = combine day ((s + 2) * HOUR)"
      using friday_windows [OF in_w] by blast
    have "plain berlin (day * DAY + s * HOUR)" "plain berlin (day * DAY + (s + 2) * HOUR)"
      by (rule berlin_plain; use w(1) in \<open>auto simp: time_units\<close>)+
    then show ?thesis by (simp add: w)
  qed
  moreover have "wall (cw_end w) \<le> wall (cw_start v) \<or> wall (cw_end v) \<le> wall (cw_start w)"
    if two: "w \<in> windows_of friday_db 7" "v \<in> windows_of friday_db 7" "w \<noteq> v" for w v
  proof -
    obtain a s where w: "s \<in> {18, 20 :: int}" "cw_start w = combine a (s * HOUR)"
      "cw_end w = combine a ((s + 2) * HOUR)" "w = capacity_window_of a (friday_seats ! (if s = 18 then 0 else 1))"
      using friday_windows [OF two(1)] by blast
    obtain b u where v: "u \<in> {18, 20 :: int}" "cw_start v = combine b (u * HOUR)"
      "cw_end v = combine b ((u + 2) * HOUR)" "v = capacity_window_of b (friday_seats ! (if u = 18 then 0 else 1))"
      using friday_windows [OF two(2)] by blast
    consider "a < b" | "b < a" | "a = b" "s \<noteq> u" using two(3) w(4) v(4) by fastforce
    then show ?thesis
      using w(1-3) v(1-3) by cases (auto simp: time_units)
  qed
  ultimately show ?thesis by (auto simp: seats_planned_def)
qed

lemma friday_inv: "booking_inv 7 berlin friday_db"
proof -
  have ok: "rows_ok friday_db" by code_simp
  have seats: "seats_kept friday_db 7 berlin"
    unfolding seats_kept_def
  proof (intro ballI disjI1)
    fix w assume "w \<in> windows_of friday_db 7"
    then have "cw_max_guests w = 20" using friday_windows by blast
    moreover have "guests_in friday_db 7 berlin w \<le> 20"
      by (simp add: guests_in_def friday_db_def friday_row_def seated_in_def)
    ultimately show "guests_in friday_db 7 berlin w \<le> cw_max_guests w" by simp
  qed
  have apart: "\<not> same_turn friday_db 7 berlin seven_pm (seven_pm + 90 * MINUTE)"
  proof
    assume "same_turn friday_db 7 berlin seven_pm (seven_pm + 90 * MINUTE)"
    then obtain w where w: "w \<in> windows_of friday_db 7" and c: "cw_contains berlin w seven_pm"
      "cw_contains berlin w (seven_pm + 90 * MINUTE)"
      by (auto simp: same_turn_def time_units)
    note local = contains_iff_local [OF wf_berlin planned_plain [OF friday_planned w]]
    have "wall (astimezone berlin seven_pm) = friday * DAY + 19 * HOUR"
      "wall (astimezone berlin (seven_pm + 90 * MINUTE)) = friday * DAY + 20 * HOUR + 30 * MINUTE"
      by (simp_all add: astimezone_def berlin_def seven_pm_def friday_def time_units)
    then have between: "wall (cw_start w) \<le> friday * DAY + 19 * HOUR"
      "friday * DAY + 20 * HOUR + 30 * MINUTE < wall (cw_end w)"
      using c unfolding local cw_contains_local_def by simp_all
    obtain day s where "s \<in> {18, 20 :: int}" "cw_start w = combine day (s * HOUR)"
      "cw_end w = combine day ((s + 2) * HOUR)"
      using friday_windows [OF w] by blast
    with between show False by (auto simp: time_units friday_def) presburger+
  qed
  have "tables_kept friday_db 7 berlin"
    using apart
    by (auto simp: tables_kept_def friday_db_def friday_row_def tables_at_def booked_row_def same_turn_def)
  then show ?thesis
    using ok seats friday_planned wf_berlin
    by (simp add: booking_inv_def friday_db_def get_tenant_def example_tenant_def)
qed

text \<open>The team's draft for eight fills the first seating beyond its seats, on the team's word.\<close>

definition friday_tap :: "app_error + confirmation \<times> db" where
  "friday_tap = confirm_tablet (\<lambda>s. int (length s)) 7 41 True ''tablet'' friday_noon friday_db"

definition early_seating :: capacity_window where
  "early_seating = capacity_window_of friday (hd friday_seats)"

theorem never_overbooked_witness:
  "\<exists>c d. friday_tap = Inr (c, d) \<and> guests_in d 7 berlin early_seating = 22 \<and>
     (\<exists>r \<in> set (reservations d). seated_in 7 berlin early_seating r \<and>
        (\<exists>a \<in> set (audit d). entity_id a = Some (r_id r) \<and> au_payload a = override_note))"
proof -
  have "case friday_tap of Inl _ \<Rightarrow> False | Inr (_, d) \<Rightarrow>
      guests_in d 7 berlin early_seating = 22 \<and> early_seating \<in> set (capacity_windows d 7 friday)"
    by code_simp
  then obtain c d where t: "friday_tap = Inr (c, d)" and g: "guests_in d 7 berlin early_seating = 22"
    and w: "early_seating \<in> set (capacity_windows d 7 friday)"
    by (auto split: sum.splits)
  let ?coll = "\<lambda>s :: str. int (length s)"
  have "(booking_step ?coll 7)\<^sup>*\<^sup>* friday_db d"
    using booking_step.tap [OF t [unfolded friday_tap_def]] by blast
  moreover have "cw_max_guests early_seating = 20"
    by (simp add: early_seating_def friday_seats_def capacity_window_of_def)
  ultimately show ?thesis using never_overbooked [OF _ friday_inv w] t g by fastforce
qed

theorem no_table_twice_witness:
  "seven_pm \<noteq> seven_pm + 90 * MINUTE \<and> \<not> (cw_contains berlin early_seating seven_pm \<and>
     cw_contains berlin early_seating (seven_pm + 90 * MINUTE))"
proof -
  have rows: "friday_row 40 RConfirmed 14 seven_pm \<in> set (reservations friday_db)"
    "friday_row 42 RConfirmed 6 (seven_pm + 90 * MINUTE) \<in> set (reservations friday_db)"
    by (simp_all add: friday_db_def)
  have k: "31 \<in> tables_at friday_db (r_id (friday_row 40 RConfirmed 14 seven_pm))"
    "31 \<in> tables_at friday_db (r_id (friday_row 42 RConfirmed 6 (seven_pm + 90 * MINUTE)))"
    by (force simp: tables_at_def friday_db_def friday_row_def)+
  have "early_seating \<in> set (capacity_windows friday_db 7 friday)" by code_simp
  then show ?thesis
    using no_table_twice [OF rtranclp.rtrancl_refl friday_inv rows _ _ _ k]
    by (auto simp: booked_row_def friday_row_def)
qed

text \<open>A guest of the line of \<open>family_db\<close> asks for eight at 19:00: the first seating is full, the next
  begins at eight.\<close>

theorem check_slot_offers_witness:
  "\<exists>r a. check_slot friday_db 7 seven_pm 8 friday_noon (Some 3) = Inr r \<and> a \<in> set (sl_alternatives r) \<and>
     a \<noteq> seven_pm \<and> \<bar>a - seven_pm\<bar> < UNAMBIGUOUS \<and> length (sl_alternatives r) \<le> 2"
proof -
  have "case check_slot friday_db 7 seven_pm 8 friday_noon (Some 3) of Inl _ \<Rightarrow> False
      | Inr r \<Rightarrow> seven_pm + HOUR \<in> set (sl_alternatives r)" by code_simp
  then obtain r where r: "check_slot friday_db 7 seven_pm 8 friday_noon (Some 3) = Inr r"
    and a: "seven_pm + HOUR \<in> set (sl_alternatives r)"
    by (auto split: sum.splits)
  have rows: "get_tenant friday_db 7 = Some example_tenant" "get_config friday_db 7 = Some example_config"
    by (simp_all add: friday_db_def get_tenant_def get_config_def example_tenant_def example_config_def)
  have z: "wf_zone (t_timezone example_tenant)" using wf_berlin by (simp add: example_tenant_def)
  have "open_window_at (w_hours (wish_of friday_db 7 example_tenant example_config seven_pm 8 friday_noon (Some 3)))
      seven_pm Dinein (t_timezone example_tenant) \<noteq> None" by code_simp
  then have "\<bar>seven_pm + HOUR - seven_pm\<bar> < UNAMBIGUOUS" "length (sl_alternatives r) \<le> MAX_ALTERNATIVES"
    using check_slot_offers [OF r rows z refl] a by fastforce+
  then show ?thesis using r a by (auto simp: MAX_ALTERNATIVES_def time_units)
qed

text \<open>At 20:00 there is room for eight; the call says yes an hour after its draft ran out.\<close>

definition lang_wish :: create_reservation_request where
  "lang_wish = \<lparr>cr_tenant_id = 7, cr_call_id = 3, cr_idempotency_key = ''k'', cr_guest_name = '' Lang '',
     cr_phone = ''07221 5551234'', cr_party_size = 8, cr_reserved_for = seven_pm + HOUR, cr_note = None\<rparr>"

theorem draft_keeps_seats_witness:
  "\<exists>a d' d''. create_reservation lang_wish friday_noon friday_db = Inr (a, d') \<and>
     confirm_table \<lparr>cq_tenant_id = 7, cq_call_id = 3, cq_entity_id = rd_reservation_id a,
       cq_idempotency_key = ''j''\<rparr> (friday_noon + HOUR) d' = Inr (CONFIRMED, d'')"
proof -
  have "\<not> isl (create_reservation lang_wish friday_noon friday_db)" by code_simp
  then obtain a d' where s: "create_reservation lang_wish friday_noon friday_db = Inr (a, d')"
    by (cases "create_reservation lang_wish friday_noon friday_db") auto
  have "reservation_by_key friday_db (cr_idempotency_key lang_wish) = None" by code_simp
  from draft_keeps_seats [OF s this _, of berlin "friday_noon + HOUR" "''j''"] s friday_inv
  show ?thesis by (auto simp: lang_wish_def time_units)
qed

definition lang_db :: db where
  "lang_db = (case create_reservation lang_wish friday_noon friday_db of Inl _ \<Rightarrow> empty_db | Inr (_, d) \<Rightarrow> d)"

definition lang_yes :: confirm_request where
  "lang_yes = \<lparr>cq_tenant_id = 7, cq_call_id = 3, cq_entity_id = 100, cq_idempotency_key = ''j''\<rparr>"

theorem confirm_table_once_witness:
  "\<exists>d'. confirm_table lang_yes friday_noon lang_db = Inr (CONFIRMED, d') \<and> length (outbox d') = 1 \<and>
     confirm_table (lang_yes\<lparr>cq_idempotency_key := ''other''\<rparr>) (friday_noon + HOUR) d' = Inr (CONFIRMED, d')"
proof -
  have "case confirm_table lang_yes friday_noon lang_db of Inl _ \<Rightarrow> False
      | Inr (c, d') \<Rightarrow> cf_handover c = Queued \<and> cf_pickup_code c = None \<and> length (outbox d') = 1" by code_simp
  then obtain d' where s: "confirm_table lang_yes friday_noon lang_db = Inr (CONFIRMED, d')"
    and l: "length (outbox d') = 1"
    by (auto simp: CONFIRMED_def split: sum.splits)
  show ?thesis using confirm_table_once [OF s, of "''other''" "friday_noon + HOUR" 0] s l by blast
qed

end
