(* ===== verification/OrderLife.thy ===== *)
theory OrderLife
  imports KitchenRun
begin

text \<open>
  The life of an order as the tablet and the kitchen see it, stated as a small machine, and the proof
  that every operation on orders at work (draft, yes, the four taps, the correction, the
  bridge and the watchdog) takes the steps of that machine and no other. With it: the kitchen gets
  only what a guest confirmed and, where the mode or the amount asks for it, the team released; and
  no two orders of a business day share a pickup code.
\<close>

section \<open>The specification\<close>

text \<open>A draft; an order that waits for "Passt"; one the kitchen has or gets, ticked off or not, with
  the state of its slip; a cancelled one with the state of its note, if there is one.\<close>

datatype life = Drafted | Waiting | AtKitchen bool delivery_state | Withdrawn "delivery_state option" | Bad

inductive life_move :: "life \<Rightarrow> life \<Rightarrow> bool" where
  yes_waits: "life_move Drafted Waiting"
| yes_cooks: "life_move Drafted (AtKitchen False PENDING)"
| released: "life_move Waiting (AtKitchen True PENDING)"
| checked: "s \<noteq> FAILED \<Longrightarrow> life_move (AtKitchen False s) (AtKitchen True s)"
| sent_again: "life_move (AtKitchen b s) (AtKitchen b PENDING)"
| slip_printed: "life_move (AtKitchen b s) (AtKitchen b SENT)"
| slip_failed: "life_move (AtKitchen b PENDING) (AtKitchen b FAILED)"
| erased: "life_move Drafted (Withdrawn None)"
| storno_waiting: "life_move Waiting (Withdrawn h)"
| storno_cooking: "life_move (AtKitchen b s) (Withdrawn h)"
| note_again: "life_move (Withdrawn (Some s)) (Withdrawn (Some PENDING))"
| note_printed: "life_move (Withdrawn (Some s)) (Withdrawn (Some SENT))"
| note_failed: "life_move (Withdrawn (Some PENDING)) (Withdrawn (Some FAILED))"

inductive_cases life_moveE: "life_move x y"
inductive_simps from_bad: "life_move Bad y"
inductive_simps to_bad: "life_move x Bad"
inductive_simps from_drafted: "life_move Drafted y"
inductive_simps to_drafted: "life_move x Drafted"
inductive_simps from_withdrawn: "life_move (Withdrawn h) y"

definition life_of :: "order \<Rightarrow> life" where
  "life_of r =
     (case (o_status r, handover_state r) of
        (ODraft, None) \<Rightarrow> Drafted
      | (OConfirmed, None) \<Rightarrow> Waiting
      | (OConfirmed, Some s) \<Rightarrow> AtKitchen False s
      | (OApproved, Some s) \<Rightarrow> AtKitchen True s
      | (OCancelled, h) \<Rightarrow> Withdrawn h
      | _ \<Rightarrow> Bad)"

lemma moves_not_bad: "life_move\<^sup>*\<^sup>* x y \<Longrightarrow> x \<noteq> Bad \<Longrightarrow> y \<noteq> Bad"
  by (induction rule: rtranclp_induct) (auto simp: to_bad)

text \<open>A cancelled order stays cancelled, and none becomes a draft again.\<close>

lemma moves_withdrawn: "life_move\<^sup>*\<^sup>* (Withdrawn h) y \<Longrightarrow> \<exists>h'. y = Withdrawn h'"
  by (induction rule: rtranclp_induct) (auto simp: from_withdrawn)

section \<open>What the log says\<close>

definition confirmed :: "db \<Rightarrow> uuid \<Rightarrow> bool" where
  "confirmed d i \<longleftrightarrow> order_audit d i [ACTION_CONFIRMED] \<noteq> []"

definition direct_yes :: "db \<Rightarrow> uuid \<Rightarrow> bool" where
  "direct_yes d i \<longleftrightarrow> list_ex (\<lambda>a. jget ''waits_for'' (au_payload a) = Some JNull) (order_audit d i [ACTION_CONFIRMED])"

definition cleared :: "db \<Rightarrow> uuid \<Rightarrow> bool" where
  "cleared d i \<longleftrightarrow> confirmed d i \<and> (direct_yes d i \<or> order_audit d i [ACTION_APPROVED] \<noteq> [])"

text \<open>The orders of which the kitchen got, or will get, a slip.\<close>

definition slip_ids :: "db \<Rightarrow> uuid set" where
  "slip_ids d = {i. \<exists>v \<in> set (kitchen_view d). jget ''order_id'' (snd (snd v)) = Some (JId i)}"

lemma slip_ids_event:
  "i \<in> slip_ids d \<longleftrightarrow> (\<exists>e \<in> set (outbox d). event_type e \<in> set KITCHEN \<and> jget ''order_id'' (ev_payload e) = Some (JId i))"
  by (auto simp: slip_ids_def kitchen_view_def ticket_view_def)

definition log_grows :: "db \<Rightarrow> db \<Rightarrow> bool" where
  "log_grows d d' \<longleftrightarrow> (\<exists>as. audit d' = audit d @ as) \<and> tenants d' = tenants d \<and> next_id d \<le> next_id d'"

lemma log_growsI [intro]:
  "audit d' = audit d @ as \<Longrightarrow> tenants d' = tenants d \<Longrightarrow> next_id d \<le> next_id d' \<Longrightarrow> log_grows d d'"
  by (auto simp: log_grows_def)

lemma log_grows_refl [simp]: "log_grows d d"
  by (simp add: log_grows_def)

lemma log_grows_trans: "log_grows a b \<Longrightarrow> log_grows b c \<Longrightarrow> log_grows a c"
  by (auto simp: log_grows_def)

lemma log_mono:
  assumes "log_grows d d'"
  shows "confirmed d i \<Longrightarrow> confirmed d' i" and "cleared d i \<Longrightarrow> cleared d' i"
  using assms by (auto simp: log_grows_def confirmed_def direct_yes_def cleared_def order_audit_def)

text \<open>The log does not keep everything: a pass of the deletion job drops its old entries, and a draft that an
  erasure takes never had any. \<open>X\<close> are the orders of which nothing is asked.\<close>

definition confirmed_or :: "uuid set \<Rightarrow> db \<Rightarrow> uuid \<Rightarrow> bool" where
  "confirmed_or X d i \<longleftrightarrow> i \<in> X \<or> confirmed d i"

definition cleared_or :: "uuid set \<Rightarrow> db \<Rightarrow> uuid \<Rightarrow> bool" where
  "cleared_or X d i \<longleftrightarrow> i \<in> X \<or> cleared d i"

lemma every_or_none [simp]: "confirmed_or UNIV d i" "cleared_or UNIV d i" "confirmed_or {} d i \<longleftrightarrow> confirmed d i"
    "cleared_or {} d i \<longleftrightarrow> cleared d i"
  by (simp_all add: confirmed_or_def cleared_or_def)

lemma log_mono_or:
  assumes "log_grows d d'"
  shows "confirmed_or X d i \<Longrightarrow> confirmed_or X d' i" and "cleared_or X d i \<Longrightarrow> cleared_or X d' i"
  using log_mono [OF assms] by (auto simp: confirmed_or_def cleared_or_def)

section \<open>One step\<close>

text \<open>What a step may do to a row, and to the rows and slips together; \<open>K\<close> is what else it keeps.\<close>

definition row_step :: "uuid set \<Rightarrow> db \<Rightarrow> order \<Rightarrow> order \<Rightarrow> bool" where
  "row_step X d' r r' \<longleftrightarrow> o_id r' = o_id r \<and> o_tenant_id r' = o_tenant_id r \<and> o_created_at r' = o_created_at r \<and>
     (life_of r \<noteq> Bad \<longrightarrow> life_move\<^sup>*\<^sup>* (life_of r) (life_of r')) \<and>
     (handover_state r' \<noteq> None \<longrightarrow> handover_state r \<noteq> None \<or> cleared_or X d' (o_id r)) \<and>
     (o_status r' \<noteq> ODraft \<longrightarrow> o_status r \<noteq> ODraft \<or> confirmed_or X d' (o_id r))"

lemma row_step_refl [simp]: "row_step X d r r"
  by (simp add: row_step_def)

definition effect :: "uuid set \<Rightarrow> (order \<Rightarrow> order \<Rightarrow> bool) \<Rightarrow> db \<Rightarrow> db \<Rightarrow> bool" where
  "effect X K d d' \<longleftrightarrow> log_grows d d' \<and> slip_ids d' \<subseteq> slip_ids d \<union> {i. cleared_or X d' i} \<and>
     (\<exists>f new. orders d' = map f (orders d) @ new \<and> (\<forall>r \<in> set (orders d). row_step X d' r (f r) \<and> K r (f r)) \<and>
        distinct (map o_id new) \<and>
        (\<forall>r \<in> set new. life_of r = Drafted \<and> pickup_code r = None \<and> next_id d \<le> o_id r \<and> o_id r < next_id d'))"

definition same_code :: "order \<Rightarrow> order \<Rightarrow> bool" where
  "same_code r r' \<longleftrightarrow> pickup_code r' = pickup_code r"

lemma same_code_refl [simp]: "same_code r r"
  by (simp add: same_code_def)

text \<open>All that holds between two steps.\<close>

definition life_inv :: "uuid set \<Rightarrow> db \<Rightarrow> bool" where
  "life_inv X d \<longleftrightarrow> distinct (map o_id (orders d)) \<and> (\<forall>i \<in> slip_ids d. cleared_or X d i) \<and>
     (\<forall>r \<in> set (orders d). o_id r < next_id d \<and> life_of r \<noteq> Bad \<and>
        (handover_state r \<noteq> None \<longrightarrow> cleared_or X d (o_id r)) \<and>
        (o_status r \<noteq> ODraft \<longrightarrow> confirmed_or X d (o_id r)))"

lemma effect_inv:
  assumes "effect X K d d'" and "life_inv X d"
  shows "life_inv X d'"
proof -
  obtain f new where g: "log_grows d d'" and s: "slip_ids d' \<subseteq> slip_ids d \<union> {i. cleared_or X d' i}"
    and o: "orders d' = map f (orders d) @ new" and f: "\<forall>r \<in> set (orders d). row_step X d' r (f r)"
    and n: "distinct (map o_id new)" "\<forall>r \<in> set new. life_of r = Drafted \<and> next_id d \<le> o_id r \<and> o_id r < next_id d'"
    using assms(1) unfolding effect_def by blast
  have ids: "map o_id (map f (orders d)) = map o_id (orders d)" using f by (simp add: row_step_def)
  have lt: "\<forall>r \<in> set (orders d). o_id r < next_id d" using assms(2) by (simp add: life_inv_def)
  have "distinct (map o_id (orders d'))"
    unfolding o map_append distinct_append ids using assms(2) n lt by (fastforce simp: life_inv_def)
  moreover have "\<forall>i \<in> slip_ids d'. cleared_or X d' i"
    using s assms(2) log_mono_or(2) [OF g] by (auto simp: life_inv_def)
  moreover have "o_id r < next_id d' \<and> life_of r \<noteq> Bad \<and> (handover_state r \<noteq> None \<longrightarrow> cleared_or X d' (o_id r)) \<and>
      (o_status r \<noteq> ODraft \<longrightarrow> confirmed_or X d' (o_id r))" if r: "r \<in> set (orders d')" for r
  proof (cases "r \<in> set new")
    case True
    then have "life_of r = Drafted" using n by blast
    then have "o_status r = ODraft \<and> handover_state r = None"
      by (auto simp: life_of_def split: order_status.splits option.splits)
    then show ?thesis using True n \<open>life_of r = Drafted\<close> by simp
  next
    case False
    then obtain x where x: "x \<in> set (orders d)" "r = f x" using r o by auto
    have st: "row_step X d' x (f x)" using f x by blast
    have iv: "life_of x \<noteq> Bad" "handover_state x \<noteq> None \<Longrightarrow> cleared_or X d (o_id x)"
        "o_status x \<noteq> ODraft \<Longrightarrow> confirmed_or X d (o_id x)" "o_id x < next_id d"
      using assms(2) x(1) by (auto simp: life_inv_def)
    have "o_id r < next_id d'" using iv(4) g st x(2) by (simp add: row_step_def log_grows_def)
    moreover have "life_of r \<noteq> Bad" using moves_not_bad st iv(1) x(2) by (auto simp: row_step_def)
    moreover have "handover_state r \<noteq> None \<longrightarrow> cleared_or X d' (o_id r)"
      using st iv(2) log_mono_or(2) [OF g] x(2) by (auto simp: row_step_def)
    moreover have "o_status r \<noteq> ODraft \<longrightarrow> confirmed_or X d' (o_id r)"
      using st iv(3) log_mono_or(1) [OF g] x(2) by (auto simp: row_step_def)
    ultimately show ?thesis by blast
  qed
  ultimately show ?thesis by (simp add: life_inv_def)
qed

text \<open>One row under its key.\<close>

lemma effect_upd:
  assumes "orders d' = upd_rows (\<lambda>x. o_id x = oid) f (orders d)" and "life_inv X d" and "r \<in> set (orders d)"
    and "o_id r = oid" and "row_step X d' r (f r)" and "K r (f r)" and "\<And>x. K x x"
    and "log_grows d d'" and "slip_ids d' \<subseteq> slip_ids d \<union> {i. cleared_or X d' i}"
  shows "effect X K d d'"
proof -
  have one: "x = r" if "x \<in> set (orders d)" "o_id x = oid" for x
    using assms(2-4) that by (auto simp: life_inv_def distinct_map dest: inj_onD)
  have "orders d' = map (\<lambda>x. if o_id x = oid then f x else x) (orders d) @ []"
    using assms(1) by (simp add: upd_rows_def)
  moreover have "\<forall>x \<in> set (orders d). row_step X d' x (if o_id x = oid then f x else x) \<and>
      K x (if o_id x = oid then f x else x)"
    using one assms(5-7) by auto
  ultimately show ?thesis unfolding effect_def using assms(8,9) by (intro conjI exI) auto
qed

lemma effect_code:
  assumes "orders d' = upd_rows (\<lambda>x. o_id x = oid) f (orders d)" and "life_inv X d" and "r \<in> set (orders d)"
    and "o_id r = oid" and "row_step X d' r (f r)" and "pickup_code (f r) = pickup_code r"
    and "log_grows d d'" and "slip_ids d' \<subseteq> slip_ids d \<union> {i. cleared_or X d' i}"
  shows "effect X same_code d d'"
  by (rule effect_upd [OF assms(1-5) _ _ assms(7,8)]) (simp_all add: same_code_def assms(6))

lemma effect_same:
  assumes "orders d' = orders d" and "\<And>x. K x x" and "log_grows d d'"
    and "slip_ids d' \<subseteq> slip_ids d \<union> {i. cleared_or X d' i}"
  shows "effect X K d d'"
  unfolding effect_def using assms by (intro conjI exI [of _ "\<lambda>x. x"] exI [of _ "[]"]) auto

lemma effect_refl [simp]: "(\<And>x. K x x) \<Longrightarrow> effect X K d d"
  by (rule effect_same) auto

section \<open>Slips\<close>

lemma slip_same: "kitchen_view d' = kitchen_view d \<Longrightarrow> slip_ids d' = slip_ids d"
  by (simp add: slip_ids_def)

lemma slip_outbox: "outbox d' = outbox d \<Longrightarrow> slip_ids d' = slip_ids d"
  by (rule slip_same) (simp add: kitchen_view_def)

lemma slip_new:
  assumes "outbox d' = outbox d @ [e]" and "jget ''order_id'' (ev_payload e) = Some (JId i)"
  shows "slip_ids d' \<subseteq> insert i (slip_ids d)"
  using assms by (auto simp: slip_ids_event)

lemma send_slips:
  assumes "send_ticket locked r reason d = Inr (e, d')"
  shows "slip_ids d' \<subseteq> insert (o_id r) (slip_ids d)"
proof (cases "unsent_tickets locked d r = []")
  case True
  then obtain p where p: "order_event_payload d r (order_revision d r) reason = Inr p"
    and d': "d' = d\<lparr>outbox := outbox d @ [new_event (o_tenant_id r) ORDER_CONFIRMED p d], next_id := Suc (next_id d)\<rparr>"
    using assms by (auto simp: send_ticket_def Let_def)
  show ?thesis
    by (rule slip_new [of _ _ "new_event (o_tenant_id r) ORDER_CONFIRMED p d"])
      (use payload_fields(1) [OF p] in \<open>simp_all add: d' new_event_def\<close>)
next
  case False
  then obtain p why where p: "order_event_payload d r (order_revision d r) why = Inr p"
    and d': "\<exists>i. d' = set_event i (\<lambda>e. e\<lparr>ev_payload := p, next_attempt_at := tx_now d\<rparr>) d"
    using assms by (auto simp: send_ticket_def Let_def)
  then show ?thesis using payload_fields(1) [OF p] by (auto simp: slip_ids_event set_event_def set_upd_rows)
qed

lemma withdraw_slips:
  "slip_ids (snd (withdraw_tickets locked r now d)) = slip_ids d"
proof (rule slip_same)
  show "kitchen_view (snd (withdraw_tickets locked r now d)) = kitchen_view d"
    unfolding withdraw_tickets_def Let_def snd_conv kitchen_view_def
    by (simp add: filter_upd_rows withdraw_event_def map_upd_rows ticket_view_def)
qed

lemma withdrawn_has_slip:
  assumes "fst (withdraw_tickets locked r now d)"
  shows "o_id r \<in> slip_ids d"
proof -
  let ?d = "snd (withdraw_tickets locked r now d)"
  have "tickets_of ?d r \<noteq> []"
    using assms by (auto simp: withdraw_tickets_def Let_def may_hold_a_slip_def)
  then obtain e where "e \<in> set (tickets_of ?d r)" by (cases "tickets_of ?d r") auto
  then have "o_id r \<in> slip_ids ?d" by (auto simp: tickets_of_def ticket_of_def slip_ids_event)
  then show ?thesis by (simp add: withdraw_slips)
qed

lemma withdraw_frame:
  "orders (snd (withdraw_tickets locked r now d)) = orders d"
  "audit (snd (withdraw_tickets locked r now d)) = audit d"
  "tenants (snd (withdraw_tickets locked r now d)) = tenants d"
  "order_items (snd (withdraw_tickets locked r now d)) = order_items d"
  "next_id (snd (withdraw_tickets locked r now d)) = next_id d"
  by (simp_all add: withdraw_tickets_def Let_def)

section \<open>Every operation\<close>

text \<open>The row an operation on the tablet locks.\<close>

lemma inv_row:
  assumes "life_inv X d" and "live_order d tid oid = Some r"
  shows "r \<in> set (orders d)" "o_id r = oid" "o_tenant_id r = tid" "life_of r \<noteq> Bad"
    "handover_state r \<noteq> None \<Longrightarrow> cleared_or X d oid" "o_status r \<noteq> ODraft \<Longrightarrow> confirmed_or X d oid"
  using live_order_facts [OF assms(2)] assms(1) by (auto simp: life_inv_def)

lemma draft_effect:
  assumes "draft_order q now d = Inr (a, d')"
  shows "effect X same_code d d'"
proof (cases "order_by_key d (dr_idempotency_key q)")
  case (Some r)
  then have "d' = d" using assms by (auto simp: draft_order_def Let_def split: option.splits)
  then show ?thesis by simp
next
  case None
  obtain t c p wh d1 cs ads n where d1: "d1 = d\<lparr>customers := cs, addresses := ads, next_id := n\<rparr>" "next_id d \<le> n"
    and w: "write_draft q (t_timezone (t :: tenant)) p wh now d1 = (a, d')"
    by (rule draft_order_new [OF assms None], rule that; assumption)
  note f = write_draft_rows [OF w]
  have "\<exists>x. audit d' = audit d @ [x]"
    using w d1 by (auto simp: write_draft_def Let_def add_audit_def)
  then have g: "log_grows d d'" using f d1 by (auto simp: log_grows_def)
  have s: "slip_ids d' = slip_ids d" by (rule slip_outbox) (simp add: f d1)
  have "life_of (new_order q p wh now d1) = Drafted" "pickup_code (new_order q p wh now d1) = None"
    "o_id (new_order q p wh now d1) = n"
    by (simp_all add: new_order_def Let_def life_of_def d1)
  then show ?thesis unfolding effect_def using g s f(1,7) d1
    by (intro conjI exI [of _ "\<lambda>x. x"] exI [of _ "[new_order q p wh now d1]"]) auto
qed

lemma confirm_effect:
  assumes "confirm_ordered q now d = Inr (a, d')" and "life_inv X d"
  shows "effect X (\<lambda>_ _. True) d d'"
proof -
  have c: "confirm_order q now d = Inr (a, d')"
    using assms by (auto simp: confirm_ordered_def split: option.splits if_splits)
  obtain r where r: "get_order d (cq_entity_id q) = Some r" "o_tenant_id r = cq_tenant_id q"
      and k: "o_status r \<in> set ALREADY_CONFIRMED \<and> a = order_answer r \<and> d' = d \<or>
      o_status r = ODraft \<and> (\<exists>c t. get_config d (cq_tenant_id q) = Some c \<and>
        get_tenant d (cq_tenant_id q) = Some t \<and> require_switched_on r t c (cq_call_id q) now d = Inr () \<and>
        write_confirm q r (t_timezone t) (mn_mode (mode_at d t c now)) c now d = Inr (a, d'))"
    by (rule confirm_order_cases [OF c], rule that; assumption)
  show ?thesis
    using k
  proof
    assume "o_status r = ODraft \<and> (\<exists>c t. get_config d (cq_tenant_id q) = Some c \<and>
        get_tenant d (cq_tenant_id q) = Some t \<and> require_switched_on r t c (cq_call_id q) now d = Inr () \<and>
        write_confirm q r (t_timezone t) (mn_mode (mode_at d t c now)) c now d = Inr (a, d'))"
    then obtain c z m where st: "o_status r = ODraft" and w: "write_confirm q r z m c now d = Inr (a, d')"
      by blast
    let ?b = "waits_for r m c = None"
    obtain code where o: "orders d' = upd_rows (\<lambda>x. o_id x = o_id r) (put_confirmed code ?b) (orders d)"
      and te: "tenants d' = tenants d" and ni: "next_id d \<le> next_id d'"
      and au: "\<exists>p. audit d' = audit d @ [\<lparr>au_tenant_id = cq_tenant_id q, au_at = tx_now d, actor = ACTOR_AGENT,
        action = ACTION_CONFIRMED, au_entity = ''order'', entity_id = Some (o_id r), au_payload = p\<rparr>] \<and>
        jget ''waits_for'' p = Some (jopt JStr (waits_for r m c))"
      and out: "if ?b then \<exists>p d1. order_event_payload d1 (put_confirmed code True r) 0 None = Inr p \<and>
          tx_now d1 = tx_now d \<and> next_id d1 = next_id d \<and>
          outbox d' = outbox d @ [new_event (cq_tenant_id q) ORDER_CONFIRMED p d1] \<and> next_id d' = Suc (next_id d)
        else outbox d' = outbox d \<and> next_id d' = next_id d"
      by (rule write_confirm_form [OF w], rule that; assumption)
    have g: "log_grows d d'" using au te ni by (auto simp: log_grows_def)
    have cf: "confirmed_or X d' (o_id r)" and cl: "?b \<Longrightarrow> cleared_or X d' (o_id r)"
      using au by (auto simp: confirmed_or_def confirmed_def cleared_or_def cleared_def direct_yes_def order_audit_def)
    have mem: "r \<in> set (orders d)" using r(1) by (auto simp: get_order_def dest: find_SomeD)
    then have nb: "life_of r \<noteq> Bad" using assms(2) by (simp add: life_inv_def)
    have "slip_ids d' \<subseteq> slip_ids d \<union> {i. cleared_or X d' i}"
    proof (cases ?b)
      case True
      then obtain p d1 where p: "order_event_payload d1 (put_confirmed code True r) 0 None = Inr p"
        and x: "outbox d' = outbox d @ [new_event (cq_tenant_id q) ORDER_CONFIRMED p d1]" using out by auto
      have "slip_ids d' \<subseteq> insert (o_id r) (slip_ids d)"
        by (rule slip_new [OF x]) (use payload_fields(1) [OF p] in \<open>simp add: new_event_def\<close>)
      then show ?thesis using cl [OF True] by blast
    next
      case False
      then show ?thesis using out slip_outbox [of d' d] by auto
    qed
    moreover have "row_step X d' r (put_confirmed code ?b r)"
      using st nb cf cl yes_waits yes_cooks
      by (auto simp: row_step_def life_of_def split: option.splits)
    ultimately show ?thesis using effect_upd [OF o assms(2) mem refl _ _ _ g, of "\<lambda>_ _. True"] by blast
  qed simp
qed

text \<open>The tablet: the row that is locked, and what is written under its key.\<close>

lemma approve_effect:
  assumes "approve_order locked tid oid who d = Inr (r', d')" and "life_inv X d"
  shows "effect X same_code d d'"
proof -
  obtain r where r: "live_order d tid oid = Some r"
    using assms(1) by (auto simp: approve_order_def split: option.splits)
  note i = inv_row [OF assms(2) r]
  show ?thesis
  proof (cases "o_status r = OApproved")
    case True
    then have "d' = d" using assms(1) r by (simp add: approve_order_def)
    then show ?thesis by simp
  next
    case False
    then have st: "o_status r = OConfirmed" "handover_state r \<noteq> Some FAILED"
      using assms(1) r by (auto simp: approve_order_def split: if_splits)
    let ?d1 = "set_order oid (\<lambda>x. x\<lparr>o_status := OApproved\<rparr>) d"
    have cf: "confirmed_or X d oid" using i(6) st by simp
    show ?thesis
    proof (cases "handover_state r")
      case None
      obtain e d2 p where s: "send_ticket locked (r\<lparr>o_status := OApproved\<rparr>) None ?d1 = Inr (e, d2)"
        and d': "d' = add_audit tid who ACTION_APPROVED ''order'' oid p (set_handover oid (Some PENDING) d2)"
        using assms(1) r st None by (auto simp: approve_order_def Let_def)
      note f = send_ticket_frame [OF s]
      let ?f = "\<lambda>x. x\<lparr>o_status := OApproved, handover_state := Some PENDING\<rparr>"
      have o: "orders d' = upd_rows (\<lambda>x. o_id x = oid) ?f (orders d)"
        using f(1) by (simp add: d' set_handover_def set_order_def upd_rows_twice)
      have g: "log_grows d d'" using f by (auto simp: d' add_audit_def set_handover_def set_order_def log_grows_def)
      have cl: "cleared_or X d' oid"
        using log_mono_or(1) [OF g cf] by (simp add: cleared_or_def cleared_def confirmed_or_def order_audit_def d' add_audit_def)
      have "slip_ids d2 \<subseteq> insert oid (slip_ids ?d1)" using send_slips [OF s] i(2) by simp
      then have "slip_ids d' \<subseteq> slip_ids d \<union> {i. cleared_or X d' i}"
        using cl slip_outbox [of d' d2] slip_outbox [of ?d1 d] by (auto simp: d' set_order_def)
      moreover have "row_step X d' r (?f r)"
        using i(2) cl st None released by (auto simp: row_step_def life_of_def)
      ultimately show ?thesis using effect_code [OF o assms(2) i(1,2) _ _ g] by simp
    next
      case (Some s)
      then obtain p where d': "d' = add_audit tid who ACTION_APPROVED ''order'' oid p ?d1"
        using assms(1) r st Some by (auto simp: approve_order_def Let_def)
      have o: "orders d' = upd_rows (\<lambda>x. o_id x = oid) (\<lambda>x. x\<lparr>o_status := OApproved\<rparr>) (orders d)"
        by (simp add: d' set_order_def)
      have g: "log_grows d d'" by (auto simp: d' add_audit_def set_order_def log_grows_def)
      have "row_step X d' r (r\<lparr>o_status := OApproved\<rparr>)"
        using i st Some checked [of s] log_mono_or [OF g] by (auto simp: row_step_def life_of_def)
      moreover have "slip_ids d' = slip_ids d" by (rule slip_outbox) (simp add: d' set_order_def)
      ultimately show ?thesis using effect_code [OF o assms(2) i(1,2) _ _ g] by simp
    qed
  qed
qed

lemma resend_effect:
  assumes "resend_order locked tid oid who d = Inr (r', d')" and "life_inv X d"
  shows "effect X same_code d d'"
proof -
  obtain r where r: "live_order d tid oid = Some r"
    using assms(1) by (auto simp: resend_order_def split: option.splits)
  note i = inv_row [OF assms(2) r]
  show ?thesis
  proof (cases "handover_state r \<noteq> Some FAILED \<or> o_status r \<notin> set RESENDABLE")
    case True
    then have "d' = d" using assms(1) r by (auto simp: resend_order_def)
    then show ?thesis by simp
  next
    case False
    then obtain e d2 p reason where s: "send_ticket locked r reason d = Inr (e, d2)"
      and d': "d' = add_audit tid who ACTION_RESENT ''order'' oid p (set_handover oid (Some PENDING) d2)"
      using assms(1) r by (auto simp: resend_order_def Let_def)
    note f = send_ticket_frame [OF s]
    let ?f = "\<lambda>x. x\<lparr>handover_state := Some PENDING\<rparr>"
    have o: "orders d' = upd_rows (\<lambda>x. o_id x = oid) ?f (orders d)"
      using f(1) by (simp add: d' set_handover_def set_order_def)
    have g: "log_grows d d'" using f by (auto simp: d' add_audit_def set_handover_def set_order_def log_grows_def)
    have cl: "cleared_or X d' oid" using log_mono_or(2) [OF g i(5)] False by simp
    have "slip_ids d2 \<subseteq> insert oid (slip_ids d)" using send_slips [OF s] i(2) by simp
    then have "slip_ids d' \<subseteq> slip_ids d \<union> {i. cleared_or X d' i}" using cl slip_outbox [of d' d2] by (auto simp: d')
    moreover have "row_step X d' r (?f r)"
      using i False sent_again [of False FAILED] sent_again [of True FAILED] note_again [of FAILED]
      by (auto simp: row_step_def life_of_def RESENDABLE_def split: order_status.splits)
    ultimately show ?thesis using effect_code [OF o assms(2) i(1,2) _ _ g] by simp
  qed
qed

lemma mark_effect:
  assumes "mark_entered md5 tid oid seen who now d = Inr (r', d')" and "life_inv X d"
  shows "effect X same_code d d'"
proof -
  obtain r where r: "live_order d tid oid = Some r"
    using assms(1) by (auto simp: mark_entered_def split: option.splits)
  note i = inv_row [OF assms(2) r]
  show ?thesis
  proof (cases "register_entered_at r")
    case (Some t)
    then have "d' = d" using assms(1) r by (simp add: mark_entered_def)
    then show ?thesis by simp
  next
    case None
    let ?f = "\<lambda>x. x\<lparr>register_entered_at := Some now\<rparr>"
    obtain p where d': "d' = add_audit tid who ACTION_REGISTER_ENTERED ''order'' oid p
        (settle_default (?f r) (set_order oid ?f d))"
      using assms(1) r None by (auto simp: mark_entered_def Let_def split: if_splits)
    have o: "orders d' = upd_rows (\<lambda>x. o_id x = oid) ?f (orders d)" by (simp add: d' set_order_def)
    have g: "log_grows d d'" by (auto simp: d' add_audit_def set_order_def log_grows_def)
    have "row_step X d' r (?f r)" using i log_mono_or [OF g] by (auto simp: row_step_def life_of_def)
    moreover have "slip_ids d' = slip_ids d" by (rule slip_outbox) (simp add: d' set_order_def)
    ultimately show ?thesis using effect_code [OF o assms(2) i(1,2) _ _ g] by simp
  qed
qed

lemma cancel_effect:
  assumes "cancel_order locked md5 tid oid seen who now d = Inr (r', d')" and "life_inv X d"
  shows "effect X same_code d d'"
proof -
  obtain r where r: "live_order d tid oid = Some r"
    using assms(1) by (auto simp: cancel_order_def split: option.splits)
  note i = inv_row [OF assms(2) r]
  show ?thesis
  proof (cases "o_status r = OCancelled")
    case True
    then have "d' = d" using assms(1) r by (simp add: cancel_order_def)
    then show ?thesis by simp
  next
    case False
    obtain slip dw where w: "withdraw_tickets locked r now d = (slip, dw)" by force
    let ?h = "if slip then Some PENDING else None"
    let ?f = "\<lambda>x. x\<lparr>o_status := OCancelled, handover_state := ?h\<rparr>"
    have st: "o_status r \<in> set ALREADY_CONFIRMED" using assms(1) r False by (auto simp: cancel_order_def split: if_splits)
    obtain p dc where dc: "dc = add_audit tid who ACTION_CANCELLED ''order'' oid p (set_handover oid ?h
        (settle_default_if_marked (r\<lparr>o_status := OCancelled\<rparr>) (set_order oid (\<lambda>x. x\<lparr>o_status := OCancelled\<rparr>) dw)))"
      and d': "d' = dc \<and> \<not> slip \<or> slip \<and> (\<exists>e. send_ticket locked (?f r) (Some CANCELLED) dc = Inr (e, d'))"
      using assms(1) r False st w by (auto simp: cancel_order_def Let_def split: if_splits)
    note wf = withdraw_frame [of locked r now d, unfolded w snd_conv]
    have od: "orders dc = upd_rows (\<lambda>x. o_id x = oid) ?f (orders d)"
      by (simp add: dc set_handover_def set_order_def upd_rows_twice wf)
    have gd: "log_grows d dc" by (auto simp: dc add_audit_def set_handover_def set_order_def log_grows_def wf)
    have "orders d' = orders dc \<and> audit d' = audit dc \<and> tenants d' = tenants dc \<and> next_id dc \<le> next_id d'"
      using d' by (auto dest: send_ticket_frame)
    then have o: "orders d' = upd_rows (\<lambda>x. o_id x = oid) ?f (orders d)" and g: "log_grows d d'"
      using od gd by (auto simp: log_grows_def)
    have sw: "slip_ids dw = slip_ids d" using withdraw_slips [of locked r now d] w by simp
    have sd: "slip_ids dc = slip_ids d" using slip_outbox [of dc dw] sw by (simp add: dc set_order_def)
    have cl: "slip \<Longrightarrow> cleared_or X d oid"
      using withdrawn_has_slip [of locked r now d] w i(2) assms(2) by (auto simp: life_inv_def)
    have "slip_ids d' \<subseteq> slip_ids d \<union> {i. cleared_or X d' i}"
      using d' sd cl log_mono_or(2) [OF g] send_slips i(2) by fastforce
    moreover have "row_step X d' r (?f r)"
      using i False st cl log_mono_or [OF g] storno_waiting storno_cooking
      by (auto simp: row_step_def life_of_def ALREADY_CONFIRMED_def split: order_status.splits option.splits)
    ultimately show ?thesis using effect_code [OF o assms(2) i(1,2) _ _ g] by simp
  qed
qed

lemma upd_const: "o_id r = oid \<Longrightarrow>
    upd_rows (\<lambda>x. o_id x = oid) g (upd_rows (\<lambda>x. o_id x = oid) (\<lambda>_. r) xs) = upd_rows (\<lambda>x. o_id x = oid) (\<lambda>_. g r) xs"
  by (induction xs) auto

lemma correction_effect:
  assumes "apply_correction locked coll md5 tid oid q reason who now d = Inr d'" and "life_inv X d"
  shows "effect X same_code d d'"
  using assms(1)
proof (cases rule: apply_correction_cases)
  case (again r)
  then show ?thesis by simp
next
  case (saved r edits labels plan r' d2 p)
  note i = inv_row [OF assms(2) saved(1)]
  let ?d1 = "corrected_rows r edits plan d"
  let ?d3 = "(if ap_new (cp_where plan) \<noteq> None then settle_default_if_marked r' else id)
        (add_audit (o_tenant_id r) who ACTION_CORRECTED ''order'' (o_id r) p d2)"
  let ?r = "if handover_state r' = None then r' else r'\<lparr>handover_state := Some PENDING\<rparr>"
  have d1: "orders ?d1 = orders d" "audit ?d1 = audit d" "outbox ?d1 = outbox d" "tenants ?d1 = tenants d"
    "next_id d \<le> next_id ?d1" by (simp_all add: corrected_rows_def save_lines_def)
  note f = corrected_order_form [OF saved(5)] and g = resend_orders [OF saved(6)]
  have id: "o_id r' = oid" using f(10) i(2) by simp
  have o: "orders d' = upd_rows (\<lambda>x. o_id x = oid) (\<lambda>_. ?r) (orders d)"
    using g(7) f(1,10) d1(1) i(2) id upd_const [OF id] by (cases "handover_state r'") simp_all
  have lg: "log_grows d d'" using g f d1 by (auto simp: log_grows_def add_audit_def)
  have cl: "handover_state r \<noteq> None \<Longrightarrow> cleared_or X d' oid" using i(5) log_mono_or(2) [OF lg] by blast
  have s3: "slip_ids ?d3 = slip_ids d" by (rule slip_outbox) (simp add: add_audit_def f d1)
  have "slip_ids d' \<subseteq> slip_ids d \<union> {i. cleared_or X d' i}"
    using resend_form [OF saved(6)]
  proof
    assume "handover_state r' = None \<and> d' = ?d3"
    then show ?thesis using s3 by auto
  next
    assume "handover_state r' \<noteq> None \<and> (\<exists>e why d4. send_ticket locked r' why ?d3 = Inr (e, d4) \<and>
      d' = set_handover (o_id r') (Some PENDING) d4)"
    then obtain e why d4 where h: "handover_state r' \<noteq> None" and s: "send_ticket locked r' why ?d3 = Inr (e, d4)"
      and d': "d' = set_handover (o_id r') (Some PENDING) d4" by blast
    have "slip_ids d' = slip_ids d4" by (rule slip_outbox) (simp add: d')
    then have "slip_ids d' \<subseteq> insert oid (slip_ids d)" using send_slips [OF s] s3 id by simp
    then show ?thesis using cl h f(14) by auto
  qed
  moreover have "row_step X d' r (?r)"
    using i f(10-19) cl saved(2) sent_again log_mono_or(1) [OF lg]
    by (auto simp: row_step_def life_of_def EDITABLE_def split: order_status.splits option.splits)
  ultimately show ?thesis
    using effect_code [OF o assms(2) i(1,2) _ _ lg] f(16) by simp
qed

text \<open>The bridge and the watchdog: two kinds of write to a card.\<close>

lemma row_step_trans:
  assumes "row_step X b r r1" and "row_step X c r1 r2" and "log_grows b c"
  shows "row_step X c r r2"
  using assms log_mono_or [OF assms(3)] moves_not_bad unfolding row_step_def
  by (metis (no_types, lifting) rtranclp_trans)

lemma effect_trans:
  assumes "effect X same_code a b" and "effect X same_code b c" and "length (orders b) = length (orders a)"
  shows "effect X same_code a c"
proof -
  obtain f new where 1: "log_grows a b" "slip_ids b \<subseteq> slip_ids a \<union> {i. cleared_or X b i}"
    "orders b = map f (orders a) @ new" "\<forall>r \<in> set (orders a). row_step X b r (f r) \<and> same_code r (f r)"
    "distinct (map o_id new)"
    "\<forall>r \<in> set new. life_of r = Drafted \<and> pickup_code r = None \<and> next_id a \<le> o_id r \<and> o_id r < next_id b"
    using assms(1) unfolding effect_def by blast
  obtain g new' where 2: "log_grows b c" "slip_ids c \<subseteq> slip_ids b \<union> {i. cleared_or X c i}"
    "orders c = map g (orders b) @ new'" "\<forall>r \<in> set (orders b). row_step X c r (g r) \<and> same_code r (g r)"
    "distinct (map o_id new')"
    "\<forall>r \<in> set new'. life_of r = Drafted \<and> pickup_code r = None \<and> next_id b \<le> o_id r \<and> o_id r < next_id c"
    using assms(2) unfolding effect_def by blast
  have "new = []" using 1(3) assms(3) by simp
  then have "orders c = map (g \<circ> f) (orders a) @ new'" using 1(3) 2(3) by simp
  moreover have "row_step X c r ((g \<circ> f) r) \<and> same_code r ((g \<circ> f) r)" if "r \<in> set (orders a)" for r
  proof -
    have "f r \<in> set (orders b)" using 1(3) that by simp
    then have "row_step X c (f r) (g (f r)) \<and> same_code (f r) (g (f r))" using 2(4) by blast
    then show ?thesis using 1(4) that row_step_trans [OF _ _ 2(1)] by (auto simp: same_code_def)
  qed
  moreover have "slip_ids c \<subseteq> slip_ids a \<union> {i. cleared_or X c i}"
    using 1(2) 2(2) log_mono_or(2) [OF 2(1)] by blast
  moreover have "log_grows a c" using log_grows_trans [OF 1(1) 2(1)] .
  moreover have "next_id a \<le> next_id b" using 1(1) by (simp add: log_grows_def)
  ultimately show ?thesis using 2(5,6) unfolding effect_def
    by (intro conjI exI [of _ "g \<circ> f"] exI [of _ new']) auto
qed

lemma to_red_view: "kitchen_view (to_red e reason d) = kitchen_view d"
proof -
  obtain new where "outbox (to_red e reason d) = outbox d @ new" "\<forall>x \<in> set new. event_type x \<notin> set KITCHEN"
    using to_red_outbox by blast
  then show ?thesis by (auto simp: kitchen_view_def filter_empty_conv)
qed

lemma to_red_log: "log_grows d (to_red e reason d)"
  by (auto simp: to_red_def Let_def log_grows_def handover_audit_def add_audit_def set_handover_def set_order_def
      split: option.splits)

lemma to_sent_log: "log_grows d (to_sent e d)"
  by (auto simp: to_sent_def log_grows_def handover_audit_def add_audit_def set_handover_def set_order_def
      split: option.splits)

text \<open>A slip report moves one card, whose order had a slip.\<close>

lemma card_effect:
  assumes "life_inv X d" and "order_of_event d e = Some r" and "handover_state r = Some s"
    and "orders d' = orders (set_handover (o_id r) (Some s') d)" and "log_grows d d'"
    and "kitchen_view d' = kitchen_view d" and "s' = SENT \<or> s = PENDING \<and> s' = FAILED"
  shows "effect X same_code d d'"
proof (rule effect_code)
  show "r \<in> set (orders d)" using order_of_event_id [OF assms(2)] by simp
  then have i: "life_of r \<noteq> Bad" "cleared_or X d (o_id r)" "o_status r \<noteq> ODraft \<Longrightarrow> confirmed_or X d (o_id r)"
    using assms(1,3) by (auto simp: life_inv_def)
  show "row_step X d' r (r\<lparr>handover_state := Some s'\<rparr>)"
    using i assms(3,7) log_mono_or [OF assms(5)] slip_printed slip_failed note_printed note_failed
    by (auto simp: row_step_def life_of_def split: order_status.splits)
  show "orders d' = upd_rows (\<lambda>x. o_id x = o_id r) (\<lambda>x. x\<lparr>handover_state := Some s'\<rparr>) (orders d)"
    using assms(4) by (simp add: set_handover_def set_order_def)
qed (use assms slip_same [OF assms(6)] in auto)

lemma to_red_effect: "life_inv X d \<Longrightarrow> effect X same_code d (to_red e reason d)"
proof (cases "\<exists>r. order_of_event d e = Some r \<and> is_current d e \<and> handover_state r = Some PENDING")
  case True
  assume inv: "life_inv X d"
  obtain r where r: "order_of_event d e = Some r" "is_current d e" "handover_state r = Some PENDING" using True by blast
  show ?thesis
    by (rule card_effect [OF inv r(1,3) _ to_red_log to_red_view, where s' = FAILED])
      (use r in \<open>simp_all add: orders_to_red\<close>)
next
  case False
  then have "orders (to_red e reason d) = orders d" by (auto simp: orders_to_red split: option.split)
  then show ?thesis by (rule effect_same) (simp_all add: to_red_log slip_same [OF to_red_view])
qed

lemma to_sent_effect: "life_inv X d \<Longrightarrow> effect X same_code d (to_sent e d)"
proof (cases "\<exists>r s. order_of_event d e = Some r \<and> is_current d e \<and> handover_state r = Some s \<and> s \<in> {PENDING, FAILED}")
  case True
  assume inv: "life_inv X d"
  obtain r s where r: "order_of_event d e = Some r" "is_current d e" "handover_state r = Some s" "s \<in> {PENDING, FAILED}"
    using True by blast
  have o: "orders (to_sent e d) = orders (set_handover (o_id r) (Some SENT) d)"
    using r by (cases s) (simp_all add: orders_to_sent)
  have "kitchen_view (to_sent e d) = kitchen_view d" by (simp add: kitchen_view_def)
  from card_effect [OF inv r(1,3) o to_sent_log this] show ?thesis by simp
next
  case False
  have "orders (to_sent e d) = orders d"
  proof (cases "order_of_event d e")
    case (Some r)
    then have "\<not> (is_current d e \<and> handover_state r \<in> {Some PENDING, Some FAILED})" using False by auto
    then show ?thesis using Some by (simp only: orders_to_sent option.case if_False)
  qed (simp add: orders_to_sent)
  then show ?thesis
    by (rule effect_same) (simp_all add: to_sent_log slip_outbox [of "to_sent e d" d])
qed

lemma set_event_effect:
  assumes "\<And>x. ticket_view (f x) = ticket_view x"
  shows "effect X same_code d (set_event i f d)"
proof (rule effect_same)
  show "slip_ids (set_event i f d) \<subseteq> slip_ids d \<union> {j. cleared_or X (set_event i f d) j}"
    by (simp add: slip_same [OF kitchen_view_set_event [OF assms]])
qed (simp_all add: log_grows_def set_event_def)

lemma ack_effect:
  assumes "ack_ticket tid eid ok now err d = Inr (st, d')" and "life_inv X d"
  shows "effect X same_code d d'"
proof -
  have two: "effect X same_code d (g (set_event eid f d))"
    if "\<And>x. ticket_view (f x) = ticket_view x" "\<And>d. life_inv X d \<Longrightarrow> effect X same_code d (g d)" for f g
  proof -
    have 1: "effect X same_code d (set_event eid f d)" by (rule set_event_effect) (rule that)
    show ?thesis by (rule effect_trans [OF 1 that(2) [OF effect_inv [OF 1 assms(2)]]]) (simp add: set_event_def)
  qed
  obtain e where e: "ack_find tid eid (outbox d) = Some e"
    using assms(1) by (auto simp: ack_ticket_def' split: option.splits)
  consider "d' = d" | "d' = to_sent e (set_event eid (mark_sent now False) d)"
    | "d' = to_red e (ack_reason err) (set_event eid (\<lambda>e. snd (mark_attempt_failed (ack_reason err) now False e)) d)"
    using assms(1) e by (auto simp: ack_ticket_def' split: if_splits)
  then show ?thesis
  proof cases
    case 2
    then show ?thesis using two [of "mark_sent now False" "to_sent e"] to_sent_effect by simp
  next
    case 3
    then show ?thesis using two [of _ "to_red e (ack_reason err)"] to_red_effect by simp
  qed simp
qed

lemma claim_effect:
  assumes "claim_tickets locked tid now limit d = Inr (ts, d')"
  shows "effect X same_code d d'"
proof -
  have view: "kitchen_view (d\<lparr>outbox := fold (\<lambda>e. upd_rows (\<lambda>x. ev_id x = ev_id e) (claimed d now e)) rows es\<rparr>) =
      kitchen_view (d\<lparr>outbox := es\<rparr>)" for rows es
  proof (induction rows arbitrary: es)
    case (Cons e rows)
    have "kitchen_view (set_event (ev_id e) (claimed d now e) (d\<lparr>outbox := es\<rparr>)) = kitchen_view (d\<lparr>outbox := es\<rparr>)"
      by (rule kitchen_view_set_event) simp
    then show ?case using Cons by (simp add: set_event_def)
  qed simp
  have np: "kitchen_view (note_poll t n x) = kitchen_view x" "orders (note_poll t n x) = orders x"
    "audit (note_poll t n x) = audit x" "tenants (note_poll t n x) = tenants x" "next_id (note_poll t n x) = next_id x"
    for t n x by (simp_all add: note_poll_def kitchen_view_def)
  let ?rows = "claim_rows locked tid now limit d"
  have "kitchen_view d' = kitchen_view d \<and> orders d' = orders d \<and> audit d' = audit d \<and> tenants d' = tenants d \<and>
      next_id d' = next_id d"
  proof (cases "?rows = []")
    case True
    then show ?thesis using assms by (auto simp: claim_tickets_def np)
  next
    case False
    then obtain t where "get_tenant d tid = Some t"
      using assms by (auto simp: claim_tickets_def split: option.splits)
    with assms False have "d' = note_poll tid now
        (d\<lparr>outbox := fold (\<lambda>e. upd_rows (\<lambda>x. ev_id x = ev_id e) (claimed d now e)) ?rows (outbox d)\<rparr>)"
      by (simp add: claim_tickets_def Let_def claim_fold)
    then show ?thesis using view [of ?rows "outbox d"] by (simp add: np)
  qed
  then have v: "kitchen_view d' = kitchen_view d" and o: "orders d' = orders d" and g: "log_grows d d'"
    by (simp_all add: log_grows_def)
  show ?thesis by (rule effect_same [OF o _ g]) (simp_all add: slip_same [OF v])
qed

lemma sweep_event_effect:
  assumes "life_inv X d"
  shows "effect X same_code d (snd (sweep_event locked now eid (n, d)))" and
    "length (orders (snd (sweep_event locked now eid (n, d)))) = length (orders d)"
proof -
  have len: "length (orders (to_red e reason x)) = length (orders x)" for e reason x
    by (simp add: orders_to_red set_handover_def set_order_def split: option.split)
  have 1: "effect X same_code d (if b then set_event eid (\<lambda>x. x\<lparr>ev_status := FAILED\<rparr>) d else d)" for b
    using set_event_effect [of "\<lambda>x. x\<lparr>ev_status := FAILED\<rparr>"] by (simp add: ticket_view_def)
  have 2: "effect X same_code d (to_red e reason (if b then set_event eid (\<lambda>x. x\<lparr>ev_status := FAILED\<rparr>) d else d))"
    for e reason b
    by (rule effect_trans [OF 1 to_red_effect [OF effect_inv [OF 1 assms]]]) (simp add: set_event_def)
  have 3: "effect X same_code d (set_event eid (supersede m now) d)" for m
    by (rule set_event_effect) simp
  show "effect X same_code d (snd (sweep_event locked now eid (n, d)))"
    using 2 3 by (simp add: sweep_event_def Let_def split: option.splits)
  show "length (orders (snd (sweep_event locked now eid (n, d)))) = length (orders d)"
    by (simp add: sweep_event_def Let_def len set_event_def split: option.splits)
qed

lemma sweep_effect: "life_inv X d \<Longrightarrow> effect X same_code d (snd (sweep locked now d))"
proof -
  have "effect X same_code d (snd (fold (sweep_event locked now) eids (n, d))) \<and>
      length (orders (snd (fold (sweep_event locked now) eids (n, d)))) = length (orders d)"
    if "life_inv X d" for eids n d
    using that
  proof (induction eids arbitrary: n d)
    case (Cons i eids)
    obtain m d1 where s: "sweep_event locked now i (n, d) = (m, d1)" by force
    have e: "effect X same_code d d1" "length (orders d1) = length (orders d)"
      using sweep_event_effect [OF Cons.prems, of locked now i n] s by simp_all
    show ?case using Cons.IH [OF effect_inv [OF e(1) Cons.prems], of m] effect_trans [OF e(1)] e(2) s by simp
  qed simp
  then show "life_inv X d \<Longrightarrow> effect X same_code d (snd (sweep locked now d))" by (simp add: sweep_def)
qed

end
