(* ===== verification/OrderRun.thy ===== *)
theory OrderRun
  imports OrderLife "HOL-Library.Multiset"
begin

text \<open>
  The orders of the house as a machine: drafts and the guest's yes, the taps of the tablet, the
  corrections, the bridge and the watchdog, in any order and at any time. The kitchen gets only what
  was confirmed and released, and the pickup codes of a business day are \<open>A1\<close>, \<open>A2\<close>, \<open>A3\<close> without a
  gap and without a second of a kind. The two jobs that write orders as well, the erasure of a person
  and the deletion job, are not steps here, since they drop the slips and entries of the log these
  statements speak of; \<open>OrderHouse\<close> adds them.
\<close>

section \<open>The machine\<close>

text \<open>\<open>elsewhere\<close> is any write that leaves orders, slips and log alone: the clock, bookings, customers,
  switches, answers for special days.\<close>

inductive order_step :: "db \<Rightarrow> db \<Rightarrow> bool" where
  drafted: "draft_order dq now d = Inr (a, d') \<Longrightarrow> order_step d d'"
| said_yes: "confirm_ordered q now d = Inr (b, d') \<Longrightarrow> order_step d d'"
| approved: "approve_order locked tid oid who d = Inr (r, d') \<Longrightarrow> order_step d d'"
| resent: "resend_order locked tid oid who d = Inr (r, d') \<Longrightarrow> order_step d d'"
| entered: "mark_entered md5 tid oid seen who now d = Inr (r, d') \<Longrightarrow> order_step d d'"
| cancelled: "cancel_order locked md5 tid oid seen who now d = Inr (r, d') \<Longrightarrow> order_step d d'"
| corrected: "apply_correction locked coll md5 tid oid cq reason who now d = Inr d' \<Longrightarrow> order_step d d'"
| fetched: "claim_tickets locked tid now limit d = Inr (ts, d') \<Longrightarrow> order_step d d'"
| reported: "ack_ticket tid eid ok now err d = Inr (st, d') \<Longrightarrow> order_step d d'"
| watched: "d' = snd (sweep locked now d) \<Longrightarrow> order_step d d'"
| elsewhere: "orders d' = orders d \<Longrightarrow> kitchen_view d' = kitchen_view d \<Longrightarrow> log_grows d d' \<Longrightarrow> order_step d d'"

lemma elsewhere_effect:
  assumes "orders d' = orders d" and "kitchen_view d' = kitchen_view d" and "log_grows d d'"
  shows "effect X same_code d d'"
  by (rule effect_same [OF assms(1) _ assms(3)]) (simp_all add: slip_same [OF assms(2)])

text \<open>Only the yes writes a code.\<close>

lemma order_step_cases:
  assumes "order_step d d'" and "life_inv X d"
  obtains "effect X same_code d d'" | q now b where "confirm_ordered q now d = Inr (b, d')"
  using assms(1)
proof cases
  case said_yes
  then show ?thesis using that(2) by blast
next
  case drafted
  then show ?thesis using that(1) draft_effect by blast
next
  case approved
  then show ?thesis using that(1) approve_effect assms(2) by blast
next
  case resent
  then show ?thesis using that(1) resend_effect assms(2) by blast
next
  case entered
  then show ?thesis using that(1) mark_effect assms(2) by blast
next
  case cancelled
  then show ?thesis using that(1) cancel_effect assms(2) by blast
next
  case corrected
  then show ?thesis using that(1) correction_effect assms(2) by blast
next
  case fetched
  then show ?thesis using that(1) claim_effect by blast
next
  case reported
  then show ?thesis using that(1) ack_effect assms(2) by blast
next
  case watched
  then show ?thesis using that(1) sweep_effect assms(2) by blast
next
  case elsewhere
  then show ?thesis using that(1) elsewhere_effect by blast
qed

abbreviation "any_code \<equiv> \<lambda>(_ :: order) (_ :: order). True"

lemma effect_any: "effect X K d d' \<Longrightarrow> effect X any_code d d'"
  by (fastforce simp: effect_def)

lemma order_step_effect:
  assumes "order_step d d'" and "life_inv X d"
  shows "effect X any_code d d'"
  using assms by (rule order_step_cases) (auto intro: effect_any confirm_effect assms(2))

interpretation order: machine order_step "life_inv X"
  by unfold_locales (rule effect_inv [OF order_step_effect])

lemma life_inv_empty: "orders d = [] \<Longrightarrow> kitchen_view d = [] \<Longrightarrow> life_inv X d"
  by (simp add: life_inv_def slip_ids_def)

lemma log_steps: "order_step\<^sup>*\<^sup>* d d' \<Longrightarrow> life_inv X d \<Longrightarrow> log_grows d d'"
proof (induction rule: rtranclp_induct)
  case (step b c)
  have "effect X any_code b c" using order_step_effect [OF step(2) order.steps_inv [OF step(1) step.prems]] .
  then show ?case using step log_grows_trans by (auto simp: effect_def)
qed simp

section \<open>What the kitchen gets\<close>

text \<open>C2. The kitchen gets nothing a guest did not confirm: in every run of drafts, yeses, taps,
  corrections, pickups, reports and watchdogs from an empty order book, each slip in the outbox, sent or not, belongs to an order with a yes in the log, and
  either that yes went straight to the kitchen or the team has tapped "Passt" on it; and each order
  that is in the handover has such entries.\<close>

theorem kitchen_needs_yes:
  assumes "order_step\<^sup>*\<^sup>* d d'" and "orders d = []" and "outbox d = []"
  shows "(\<forall>e i. e \<in> set (outbox d') \<and> event_type e \<in> set KITCHEN \<and> jget ''order_id'' (ev_payload e) = Some (JId i) \<longrightarrow>
       order_audit d' i [ACTION_CONFIRMED] \<noteq> [] \<and>
       ((\<exists>a \<in> set (order_audit d' i [ACTION_CONFIRMED]). jget ''waits_for'' (au_payload a) = Some JNull) \<or>
        order_audit d' i [ACTION_APPROVED] \<noteq> [])) \<and>
    (\<forall>r \<in> set (orders d'). (o_status r = ODraft \<longleftrightarrow> life_of r = Drafted) \<and>
       (o_status r \<noteq> ODraft \<longrightarrow> order_audit d' (o_id r) [ACTION_CONFIRMED] \<noteq> []) \<and>
       (handover_state r \<noteq> None \<longrightarrow> cleared d' (o_id r)))"
proof -
  have "life_inv {} d'"
    by (rule order.steps_inv [OF assms(1) life_inv_empty]) (simp_all add: assms kitchen_view_def)
  then have s: "\<forall>i \<in> slip_ids d'. cleared d' i"
    and o: "\<forall>r \<in> set (orders d'). life_of r \<noteq> Bad \<and> (handover_state r \<noteq> None \<longrightarrow> cleared d' (o_id r)) \<and>
      (o_status r \<noteq> ODraft \<longrightarrow> confirmed d' (o_id r))" by (simp_all add: life_inv_def)
  have "o_status r = ODraft \<longleftrightarrow> life_of r = Drafted" if "life_of r \<noteq> Bad" for r
    using that by (simp add: life_of_def split: order_status.splits option.splits)
  moreover have "cleared d' i" if "e \<in> set (outbox d')" "event_type e \<in> set KITCHEN"
      "jget ''order_id'' (ev_payload e) = Some (JId i)" for e i
    using s that by (auto simp: slip_ids_event)
  ultimately show ?thesis using o
    by (auto simp: cleared_def confirmed_def direct_yes_def list_ex_iff)
qed


section \<open>The pickup codes of a business day\<close>

definition nth_code :: "nat \<Rightarrow> str option" where
  "nth_code k = Some (PICKUP_PREFIX @ str_nat k)"

lemma nth_code_inj: "inj nth_code"
  by (rule injI) (auto simp: nth_code_def dest: str_nat_inject)

definition day_codes :: "zone \<Rightarrow> uuid \<Rightarrow> int \<Rightarrow> order list \<Rightarrow> str option list" where
  "day_codes z tid day rs = map pickup_code (filter (\<lambda>r. o_tenant_id r = tid \<and> pickup_code r \<noteq> None \<and>
     fst (business_day_bounds_utc day z DAY_STARTS_AT) \<le> o_created_at r \<and>
     o_created_at r < snd (business_day_bounds_utc day z DAY_STARTS_AT)) rs)"

lemma day_codes_issued:
  "day_codes z tid day (orders d) = map pickup_code (codes_issued d tid (business_day_bounds_utc day z DAY_STARTS_AT))"
  by (simp add: day_codes_def codes_issued_def)

lemma day_codes_append: "day_codes z tid day (xs @ ys) = day_codes z tid day xs @ day_codes z tid day ys"
  by (simp add: day_codes_def)

lemma day_codes_map:
  assumes "\<forall>r \<in> set rs. o_tenant_id (f r) = o_tenant_id r \<and> pickup_code (f r) = pickup_code r \<and>
    o_created_at (f r) = o_created_at r"
  shows "day_codes z tid day (map f rs) = day_codes z tid day rs"
  using assms by (induction rs) (auto simp: day_codes_def)

lemma day_codes_none: "\<forall>r \<in> set rs. pickup_code r = None \<Longrightarrow> day_codes z tid day rs = []"
  by (auto simp: day_codes_def filter_empty_conv)

text \<open>No change of the clock touches the hour in which a business day begins.\<close>

definition plain_days :: "zone \<Rightarrow> bool" where
  "plain_days z \<longleftrightarrow> wf_zone z \<and> (\<forall>day. plain z (day * DAY + DAY_STARTS_AT))"

lemma day_bounds:
  assumes "plain_days z"
  shows "fst (business_day_bounds_utc day z DAY_STARTS_AT) \<le> u \<and> u < snd (business_day_bounds_utc day z DAY_STARTS_AT)
    \<longleftrightarrow> business_day u z DAY_STARTS_AT = day"
proof -
  have z: "wf_zone z" and p: "plain z (k * DAY + DAY_STARTS_AT)" for k
    using assms by (simp_all add: plain_days_def)
  have "0 \<le> DAY_STARTS_AT" "DAY_STARTS_AT < DAY" by (simp_all add: DAY_STARTS_AT_def HOUR_def DAY_def)
  from business_day_iff_wall [OF this, of u z day] show ?thesis
    using wall_order [OF z p, of day u] wall_order [OF z p, of "day + 1" u]
    by (simp add: business_day_bounds_utc_def combine_def not_le [symmetric])
qed

lemma day_codes_of:
  assumes "plain_days z"
  shows "day_codes z tid day rs = map pickup_code (filter (\<lambda>r. o_tenant_id r = tid \<and> pickup_code r \<noteq> None \<and>
    business_day (o_created_at r) z DAY_STARTS_AT = day) rs)"
  unfolding day_codes_def using day_bounds [OF assms] by simp

definition codes_run :: "str option list \<Rightarrow> bool" where
  "codes_run cs \<longleftrightarrow> mset cs = mset (map nth_code [1..<Suc (length cs)])"

lemma codes_run_next:
  assumes "codes_run (as @ bs)"
  shows "codes_run (as @ nth_code (Suc (length (as @ bs))) # bs)"
  using assms by (simp add: codes_run_def)

definition codes_inv :: "db \<Rightarrow> bool" where
  "codes_inv d \<longleftrightarrow> life_inv {} d \<and> (\<forall>r \<in> set (orders d). o_status r = ODraft \<longrightarrow> pickup_code r = None) \<and>
     (\<forall>tid t day. get_tenant d tid = Some t \<and> plain_days (t_timezone t) \<longrightarrow>
        codes_run (day_codes (t_timezone t) tid day (orders d)))"

lemma get_tenant_log: "log_grows d d' \<Longrightarrow> get_tenant d' = get_tenant d"
  by (auto simp: log_grows_def get_tenant_def)

lemma same_code_codes:
  assumes "effect {} same_code d d'" and "codes_inv d"
  shows "codes_inv d'"
proof -
  obtain f new where g: "log_grows d d'" and o: "orders d' = map f (orders d) @ new"
    and f: "\<forall>r \<in> set (orders d). row_step {} d' r (f r) \<and> same_code r (f r)"
    and n: "\<forall>r \<in> set new. pickup_code r = None"
    using assms(1) unfolding effect_def by blast
  have inv: "life_inv {} d" using assms(2) by (simp add: codes_inv_def)
  have "day_codes z tid day (orders d') = day_codes z tid day (orders d)" for z tid day
    unfolding o day_codes_append day_codes_none [OF n] append_Nil2
    by (rule day_codes_map) (use f in \<open>auto simp: row_step_def same_code_def\<close>)
  moreover have "pickup_code r = None" if r: "r \<in> set (orders d')" and dr: "o_status r = ODraft" for r
  proof (cases "r \<in> set new")
    case False
    then obtain x where x: "x \<in> set (orders d)" "r = f x" using r o by auto
    have nb: "life_of x \<noteq> Bad" using inv x(1) by (simp add: life_inv_def)
    then have m: "life_move\<^sup>*\<^sup>* (life_of x) (life_of r)" using f x by (auto simp: row_step_def)
    then have "life_of r = Drafted" using dr moves_not_bad [OF m nb]
      by (simp add: life_of_def split: option.splits)
    then have "life_of x = Drafted" using m by (auto elim: rtranclp.cases simp: to_drafted)
    then have "o_status x = ODraft" by (simp add: life_of_def split: order_status.splits option.splits)
    then show ?thesis using assms(2) f x by (auto simp: codes_inv_def same_code_def)
  qed (use n in blast)
  ultimately show ?thesis
    using assms(2) effect_inv [OF assms(1) inv] get_tenant_log [OF g] by (auto simp: codes_inv_def)
qed


lemma split_row:
  assumes "r \<in> set rs" and "distinct (map o_id rs)"
  obtains xs ys where "rs = xs @ r # ys" and "upd_rows (\<lambda>x. o_id x = o_id r) f rs = xs @ f r # ys"
proof -
  obtain xs ys where rs: "rs = xs @ r # ys" using assms(1) by (auto dest: split_list)
  have "upd_rows (\<lambda>x. o_id x = o_id r) f zs = zs" if "o_id r \<notin> o_id ` set zs" for zs
    using that by (induction zs) auto
  moreover have "o_id r \<notin> o_id ` set xs" "o_id r \<notin> o_id ` set ys" using assms(2) rs by auto
  ultimately have "upd_rows (\<lambda>x. o_id x = o_id r) f rs = xs @ f r # ys" unfolding rs by (simp add: upd_rows_def)
  then show thesis using that rs by blast
qed

text \<open>The yes gives the next code of the day the order was taken, and touches no other day.\<close>

lemma yes_codes:
  assumes "confirm_ordered q now d = Inr (a, d')" and "codes_inv d"
  shows "codes_inv d'"
proof -
  have inv: "life_inv {} d" using assms(2) by (simp add: codes_inv_def)
  have inv': "life_inv {} d'" using effect_inv [OF confirm_effect [OF assms(1) inv] inv] .
  have c: "confirm_order q now d = Inr (a, d')"
    using assms(1) by (auto simp: confirm_ordered_def split: option.splits if_splits)
  obtain r where r: "get_order d (cq_entity_id q) = Some r" "o_tenant_id r = cq_tenant_id q"
      and k: "o_status r \<in> set ALREADY_CONFIRMED \<and> a = order_answer r \<and> d' = d \<or>
      o_status r = ODraft \<and> (\<exists>c t. get_config d (cq_tenant_id q) = Some c \<and>
        get_tenant d (cq_tenant_id q) = Some t \<and> require_switched_on r t c (cq_call_id q) now d = Inr () \<and>
        write_confirm q r (t_timezone t) (mn_mode (mode_at d t c now)) c now d = Inr (a, d'))"
    by (rule confirm_order_cases [OF c], rule that; assumption)
  show ?thesis
    using k
  proof
    assume "o_status r = ODraft \<and> (\<exists>c t. get_config d (cq_tenant_id q) = Some c \<and>
        get_tenant d (cq_tenant_id q) = Some t \<and> require_switched_on r t c (cq_call_id q) now d = Inr () \<and>
        write_confirm q r (t_timezone t) (mn_mode (mode_at d t c now)) c now d = Inr (a, d'))"
    then obtain c t m where st: "o_status r = ODraft" and t: "get_tenant d (o_tenant_id r) = Some t"
      and w: "write_confirm q r (t_timezone t) m c now d = Inr (a, d')" using r(2) by auto
    let ?b = "waits_for r m c = None"
    obtain code where code: "code = next_pickup_code d r (t_timezone t)"
      and o: "orders d' = upd_rows (\<lambda>x. o_id x = o_id r) (put_confirmed code ?b) (orders d)"
      and te: "tenants d' = tenants d"
      by (rule write_confirm_form [OF w], rule that; assumption)
    define r' where "r' = put_confirmed code ?b r"
    have mem: "r \<in> set (orders d)" using r(1) by (auto simp: get_order_def dest: find_SomeD)
    have no: "pickup_code r = None" using assms(2) mem st by (auto simp: codes_inv_def)
    obtain xs ys where od: "orders d = xs @ r # ys" and od': "orders d' = xs @ r' # ys"
      using split_row [OF mem, of "put_confirmed code ?b"] inv o by (auto simp: life_inv_def r'_def)
    have sel: "o_tenant_id r' = o_tenant_id r" "o_created_at r' = o_created_at r" "pickup_code r' = Some code"
      "o_status r' = OConfirmed" by (simp_all add: r'_def)
    have "codes_run (day_codes (t_timezone u) tid day (orders d'))"
      if u: "get_tenant d tid = Some u" and pl: "plain_days (t_timezone u)" for tid u day
    proof -
      let ?z = "t_timezone u"
      have old: "codes_run (day_codes ?z tid day (orders d))" using assms(2) u pl by (auto simp: codes_inv_def)
      have eq: "day_codes ?z tid day (orders d) = day_codes ?z tid day xs @ day_codes ?z tid day ys"
        unfolding od by (simp add: day_codes_def no)
      show ?thesis
      proof (cases "o_tenant_id r = tid \<and> business_day (o_created_at r) ?z DAY_STARTS_AT = day")
        case True
        then have "u = t" using t u by simp
        have "length (codes_issued d tid (business_day_bounds_utc day ?z DAY_STARTS_AT)) =
            length (day_codes ?z tid day (orders d))" unfolding day_codes_issued by simp
        then have "Some code = nth_code (Suc (length (day_codes ?z tid day xs @ day_codes ?z tid day ys)))"
          using True code eq \<open>u = t\<close> by (simp add: next_pickup_code_def nth_code_def Let_def)
        moreover have "day_codes ?z tid day (orders d') = day_codes ?z tid day xs @ Some code # day_codes ?z tid day ys"
          unfolding od' day_codes_of [OF pl] using True sel by simp
        ultimately show ?thesis using codes_run_next old eq by simp
      next
        case False
        then have "day_codes ?z tid day (orders d') = day_codes ?z tid day (orders d)"
          unfolding od od' day_codes_of [OF pl] using sel no by auto
        then show ?thesis using old by simp
      qed
    qed
    moreover have "get_tenant d' = get_tenant d" using te by (auto simp: get_tenant_def)
    moreover have "pickup_code x = None" if "x \<in> set (orders d')" "o_status x = ODraft" for x
      using that assms(2) od od' sel by (auto simp: codes_inv_def)
    ultimately show ?thesis using inv' by (auto simp: codes_inv_def)
  qed (use assms(2) in simp)
qed

interpretation codes: machine order_step codes_inv
proof
  fix d d'
  assume s: "order_step d d'" and i: "codes_inv d"
  then have "life_inv {} d" by (simp add: codes_inv_def)
  with s show "codes_inv d'" by (rule order_step_cases) (use i same_code_codes yes_codes in blast)+
qed


text \<open>C16. The counter never calls out a number twice: in every run of drafts, yeses, taps,
  corrections, pickups, reports and watchdogs from an empty order book, and whatever was taken, confirmed, changed or cancelled on which day, the pickup codes of
  the orders of a business day of a restaurant are exactly \<open>A1\<close> to \<open>An\<close>, one for each.\<close>

theorem pickup_codes_unique:
  assumes "order_step\<^sup>*\<^sup>* d d'" and "orders d = []" and "outbox d = []" and "get_tenant d' tid = Some t"
    and "wf_zone (t_timezone t)" and "\<And>k. plain (t_timezone t) (k * DAY + DAY_STARTS_AT)"
    and "coded = filter (\<lambda>r. o_tenant_id r = tid \<and> pickup_code r \<noteq> None \<and>
      business_day (o_created_at r) (t_timezone t) DAY_STARTS_AT = day) (orders d')"
  shows "distinct (map pickup_code coded) \<and>
    set (map pickup_code coded) = (\<lambda>k. Some (PICKUP_PREFIX @ str_nat k)) ` {1..length coded}"
proof -
  have start: "codes_inv d"
    using life_inv_empty [of d] assms(2,3) by (simp add: codes_inv_def kitchen_view_def day_codes_def codes_run_def)
  have pl: "plain_days (t_timezone t)" using assms(5,6) by (simp add: plain_days_def)
  have "codes_run (day_codes (t_timezone t) tid day (orders d'))"
    using codes.steps_inv [OF assms(1) start] assms(4) pl unfolding codes_inv_def by blast
  then have "codes_run (map pickup_code coded)" unfolding day_codes_of [OF pl] assms(7) .
  then have m: "mset (map pickup_code coded) = mset (map nth_code [1..<Suc (length coded)])"
    by (simp add: codes_run_def)
  have "distinct (map nth_code [1..<Suc (length coded)])"
    using nth_code_inj by (simp only: distinct_map) (auto intro: inj_on_subset)
  then have "distinct (map pickup_code coded)" using mset_eq_imp_distinct_iff [OF m] by blast
  moreover have "set (map pickup_code coded) = nth_code ` {1..length coded}"
    using mset_eq_setD [OF m] by (simp only: set_map set_upt atLeastLessThanSuc_atLeastAtMost)
  moreover have e: "(\<lambda>k. Some (PICKUP_PREFIX @ str_nat k)) = nth_code" by (rule ext) (simp add: nth_code_def)
  ultimately show ?thesis unfolding e by blast
qed

section \<open>A run: two ducks, drafted, confirmed and cooked\<close>

lemma lunch_run: "order_step\<^sup>*\<^sup>* lunch_db cooked_db" "orders lunch_db = []" "outbox lunch_db = []"
proof -
  have "order_step lunch_db ducks_db" by (rule drafted [OF ducks_drafted])
  moreover have "order_step ducks_db cooked_db" by (rule said_yes [OF ducks_confirmed])
  ultimately show "order_step\<^sup>*\<^sup>* lunch_db cooked_db" by simp
qed (simp_all add: lunch_db_def empty_db_def)

lemma cooked_order: "\<exists>r. orders cooked_db = [r] \<and> o_id r = 101 \<and> o_tenant_id r = 7 \<and> pickup_code r = Some ''A1'' \<and>
    handover_state r = Some PENDING \<and> o_status r = OConfirmed \<and> o_created_at r = noon"
proof -
  have "(case orders cooked_db of [r] \<Rightarrow> o_id r = 101 \<and> o_tenant_id r = 7 \<and> pickup_code r = Some ''A1'' \<and>
    handover_state r = Some PENDING \<and> o_status r = OConfirmed \<and> o_created_at r = noon | _ \<Rightarrow> False)" by code_simp
  then show ?thesis by (auto split: list.splits)
qed

theorem kitchen_needs_yes_witness:
  "\<exists>r. orders cooked_db = [r] \<and> o_id r = 101 \<and> order_audit cooked_db 101 [ACTION_CONFIRMED] \<noteq> [] \<and> cleared cooked_db 101"
proof -
  obtain r where r: "orders cooked_db = [r]" "o_id r = 101" "handover_state r = Some PENDING" "o_status r = OConfirmed"
    using cooked_order by blast
  then show ?thesis using kitchen_needs_yes [OF lunch_run] by simp
qed

theorem pickup_codes_unique_witness:
  "\<exists>r. orders cooked_db = [r] \<and> pickup_code r = Some ''A1'' \<and>
     set (map pickup_code (orders cooked_db)) = (\<lambda>k. Some (PICKUP_PREFIX @ str_nat k)) ` {1..1}"
proof -
  obtain r where r: "orders cooked_db = [r]" "o_tenant_id r = 7" "pickup_code r = Some ''A1''" "o_created_at r = noon"
    using cooked_order by blast
  have "tenants cooked_db = [example_tenant]" by code_simp
  then have t: "get_tenant cooked_db 7 = Some example_tenant" by (simp add: get_tenant_def example_tenant_def)
  have z: "t_timezone example_tenant = berlin" by (simp add: example_tenant_def)
  have p: "plain (t_timezone example_tenant) (k * DAY + DAY_STARTS_AT)" for k
    unfolding z by (simp add: plain_def berlin_def DAY_def DAY_STARTS_AT_def HOUR_def; presburger)
  have f: "orders cooked_db = filter (\<lambda>x. o_tenant_id x = 7 \<and> pickup_code x \<noteq> None \<and>
      business_day (o_created_at x) (t_timezone example_tenant) DAY_STARTS_AT =
      business_day noon (t_timezone example_tenant) DAY_STARTS_AT) (orders cooked_db)"
    using r by simp
  from pickup_codes_unique [OF lunch_run t _ p f] r wf_berlin show ?thesis by (simp add: z)
qed

end
