(* ===== verification/Consent.thy ===== *)
theory Consent
  imports Customers
begin

text \<open>
  What counts as an explicit yes, and whether a draft was read out (\<open>api/agent/consent.py\<close>): the word
  lists, the order of a question, the yes to a booking, the answer to a consent question, and the
  words that stop a recording. The patterns of the source are read as what they match: \<open>words\<close> are
  the runs of small letters (\<open>[a-z\<dots>]+\<close>), \<open>spoken\<close> the runs of \<open>\w\<close>.
\<close>

section \<open>Strings\<close>

definition py_lower :: "str \<Rightarrow> str" where
  "py_lower s = map lower_char s"

text \<open>\<open>str.isdigit\<close> on Latin-1 (with the superscripts), and \<open>\w\<close>: letters, numbers, the underscore.\<close>

definition py_isdigit :: "char \<Rightarrow> bool" where
  "py_isdigit c \<longleftrightarrow> is_digit c \<or> (of_char c :: nat) \<in> {178, 179, 185}"

definition word_char :: "char \<Rightarrow> bool" where
  "word_char c \<longleftrightarrow> (let n = (of_char c :: nat) in
     is_digit c \<or> 65 \<le> n \<and> n \<le> 90 \<or> 97 \<le> n \<and> n \<le> 122 \<or> n = 95 \<or>
     n \<in> {170, 178, 179, 181, 185, 186, 188, 189, 190} \<or> 192 \<le> n \<and> n \<noteq> 215 \<and> n \<noteq> 247)"

text \<open>\<open>[a-z\<dots>]\<close>: the small letters with the three umlauts and the sharp s.\<close>

definition small_letter :: "char \<Rightarrow> bool" where
  "small_letter c \<longleftrightarrow> 97 \<le> (of_char c :: nat) \<and> (of_char c :: nat) \<le> 122 \<or> c \<in> {ae, oe, ue, sz}"

text \<open>\<open>findall\<close> of \<open>[P]+\<close>; \<open>cur\<close> is the run read so far, reversed.\<close>

fun runs_from :: "(char \<Rightarrow> bool) \<Rightarrow> str \<Rightarrow> str \<Rightarrow> str list" where
  "runs_from P cur [] = (if cur = [] then [] else [rev cur])"
| "runs_from P cur (c # cs) =
     (if P c then runs_from P (c # cur) cs
      else if cur = [] then runs_from P [] cs else rev cur # runs_from P [] cs)"

definition words :: "str \<Rightarrow> str list" where
  "words s = runs_from small_letter [] s"

definition spoken :: "str \<Rightarrow> str list" where
  "spoken s = runs_from word_char [] s"

text \<open>\<open>sub\<close> of \<open>[P]+\<close>: each run replaced by \<open>f\<close> of it.\<close>

fun sub_runs :: "(char \<Rightarrow> bool) \<Rightarrow> (str \<Rightarrow> str) \<Rightarrow> str \<Rightarrow> str \<Rightarrow> str" where
  "sub_runs P f cur [] = (if cur = [] then [] else f (rev cur))"
| "sub_runs P f cur (c # cs) =
     (if P c then sub_runs P f (c # cur) cs
      else (if cur = [] then [] else f (rev cur)) @ c # sub_runs P f [] cs)"

text \<open>\<open>split\<close> at every character of a class, the empty pieces kept.\<close>

fun split_at :: "(char \<Rightarrow> bool) \<Rightarrow> str \<Rightarrow> str \<Rightarrow> str list" where
  "split_at P cur [] = [rev cur]"
| "split_at P cur (c # cs) = (if P c then rev cur # split_at P [] cs else split_at P (c # cur) cs)"

text \<open>\<open>str.replace\<close>, from the left and without overlaps.\<close>

function py_replace :: "str \<Rightarrow> str \<Rightarrow> str \<Rightarrow> str" where
  "py_replace p r [] = []"
| "py_replace p r (c # cs) =
     (if p \<noteq> [] \<and> py_startswith (c # cs) p then r @ py_replace p r (drop (length p) (c # cs))
      else c # py_replace p r cs)"
  by pat_completeness auto
termination by (relation "measure (\<lambda>(p, r, s). length s)") auto

definition py_rstrip :: "str \<Rightarrow> str" where
  "py_rstrip s = rev (dropWhile py_space (rev s))"

definition py_endswith :: "str \<Rightarrow> str \<Rightarrow> bool" where
  "py_endswith s p \<longleftrightarrow> py_startswith (rev s) (rev p)"

text \<open>\<open>str.rfind\<close>: the last place, or -1.\<close>

definition py_rfind :: "str \<Rightarrow> str \<Rightarrow> int" where
  "py_rfind s p = (case filter (\<lambda>i. py_startswith (drop i s) p) [0..<Suc (length s)] of
     [] \<Rightarrow> - 1 | x # xs \<Rightarrow> int (last (x # xs)))"

definition starts_with_any :: "str list \<Rightarrow> str \<Rightarrow> bool" where
  "starts_with_any ps s \<longleftrightarrow> list_ex (py_startswith s) ps"

section \<open>The words of a yes\<close>

definition YES :: "str list" where
  "YES = [''ja'', ''jawohl'', ''jo'', ''genau'', ''richtig'', ''passt'', ''stimmt'', ''korrekt'', ''okay'', ''ok'',
     ''einverstanden'', ''bestaetigt'', ''best'' @ [ae] @ ''tigt'']"

definition FILLER :: "str list" where
  "FILLER = [''gern'', ''gerne'', ''bitte'', ''danke'', ''dankesch'' @ [oe] @ ''n'', ''dankeschoen'',
     ''sch'' @ [oe] @ ''n'', ''schoen'', ''vielen'', ''dank'', ''so'', ''das'', ''alles'', ''ist'', ''es'', ''gut'',
     ''super'', ''prima'', ''perfekt'', ''wunderbar'', ''klar'', ''in'', ''ordnung'', ''doch'',
     ''nat'' @ [ue] @ ''rlich'', ''natuerlich'', ''sicher'']"

definition HARMLESS :: "str list" where
  "HARMLESS = [''kein problem'', ''nicht schlecht'']"

definition VERB_SUBJECT :: "(str \<times> str) list" where
  "VERB_SUBJECT = [(''ist'', ''das''), (''ist'', ''es''), (''stimmt'', ''das''), (''stimmt'', ''es''),
     (''passt'', ''das''), (''passt'', ''es''), (''ist'', ''alles'')]"

definition OUTSIDE_THE_CLAUSE :: "str list" where
  "OUTSIDE_THE_CLAUSE = [''danke'', ''dankesch'' @ [oe] @ ''n'', ''dankeschoen'', ''vielen'', ''dank'', ''bitte'']"

definition PLAIN_YES :: "str list" where
  "PLAIN_YES = [''ja'', ''jawohl'', ''jo'', ''genau'', ''passt'', ''stimmt'', ''einverstanden'', ''bestaetigt'',
     ''best'' @ [ae] @ ''tigt'']"

definition LEAD_INS :: "str list list" where
  "LEAD_INS = [[''ich'', ''wiederhole''], [''zur'', ''kontrolle''], [''zur'', ''sicherheit''],
     [''zusammengefasst''], [''also'']]"

definition sentence_end :: "char \<Rightarrow> bool" where
  "sentence_end c \<longleftrightarrow> c \<in> {CHR ''.'', CHR ''!'', CHR '';''}"

text \<open>\<open>_ELLIPTIC\<close> on the words of a sentence.\<close>

fun elliptic :: "str list \<Rightarrow> bool" where
  "elliptic (a # b # ws) =
     (a = ''alles'' \<and> (b \<in> {''richtig'', ''korrekt'', ''okay'', ''ok''} \<or>
        b = ''so'' \<and> ws \<noteq> [] \<and> hd ws \<in> {''richtig'', ''korrekt'', ''okay'', ''ok''}) \<or> elliptic (b # ws))"
| "elliptic _ = False"

definition outside :: "str \<Rightarrow> bool" where
  "outside w \<longleftrightarrow> w \<in> set YES \<or> w \<in> set OUTSIDE_THE_CLAUSE"

definition opens_with_ist :: "str list \<Rightarrow> bool" where
  "opens_with_ist ws = (case dropWhile outside ws of [] \<Rightarrow> False | w # _ \<Rightarrow> w = ''ist'')"

text \<open>A pair of verb and subject with nothing but words outside the clause before it.\<close>

fun verb_first :: "str list \<Rightarrow> bool" where
  "verb_first (a # b # ws) = ((a, b) \<in> set VERB_SUBJECT \<or> outside a \<and> verb_first (b # ws))"
| "verb_first _ = False"

definition asks :: "str \<Rightarrow> bool" where
  "asks lowered \<longleftrightarrow>
     (let sentences = map words (split_at sentence_end [] lowered) in
      list_ex verb_first sentences \<or>
      \<not> list_ex (\<lambda>w. w \<in> set PLAIN_YES) (concat sentences) \<and>
      list_ex (\<lambda>s. elliptic s \<or> opens_with_ist s) sentences)"

definition polite :: "str list \<Rightarrow> bool" where
  "polite ws \<longleftrightarrow> list_all (\<lambda>w. w \<in> set YES \<or> w \<in> set FILLER) ws"

definition neutral_start :: "str list \<Rightarrow> bool" where
  "neutral_start ws \<longleftrightarrow> (let rest = dropWhile (\<lambda>w. polite [w]) ws in rest = [] \<or> rest \<in> set LEAD_INS)"

definition is_yes :: "str \<Rightarrow> bool" where
  "is_yes text \<longleftrightarrow>
     (let lowered = py_lower text in
      if list_ex py_isdigit lowered then False
      else if CHR ''?'' \<in> set lowered \<or> asks lowered then False
      else let ws = words (fold (\<lambda>phrase s. py_replace phrase '' '' s) HARMLESS lowered)
           in list_ex (\<lambda>w. w \<in> set YES) ws \<and> list_all (\<lambda>w. w \<in> set YES \<or> w \<in> set FILLER) ws)"


section \<open>Read out\<close>

definition read_body :: "str \<Rightarrow> str" where
  "read_body readback =
     (let text = py_rstrip readback; cut = max (py_rfind text ''. '') (py_rfind text ''! '')
      in if py_endswith text ''?'' \<and> cut \<noteq> - 1 then take (nat cut) text else text)"

definition CONFIRMATION_QUESTIONS :: "str list list" where
  "CONFIRMATION_QUESTIONS = [[''passt'', ''das'', ''so''], [''passt'', ''das''], [''passt'', ''es'', ''so''],
     [''stimmt'', ''das'', ''so''], [''stimmt'', ''das''], [''ist'', ''das'', ''so'', ''richtig''],
     [''ist'', ''das'', ''richtig''], [''ist'', ''das'', ''so'', ''korrekt''], [''ist'', ''das'', ''korrekt'']]"

definition asks_to_confirm :: "str list \<Rightarrow> str list \<Rightarrow> bool" where
  "asks_to_confirm ws own \<longleftrightarrow> ws \<noteq> [] \<and> (ws = own \<or> ws \<in> set CONFIRMATION_QUESTIONS)"

definition read_out :: "str \<Rightarrow> str \<Rightarrow> bool" where
  "read_out say readback \<longleftrightarrow>
     (let body = read_body readback;
          draft = spoken (py_lower body);
          own_question = spoken (py_lower (drop (length body) (py_rstrip readback)));
          said = spoken (py_lower say);
          size = length draft;
          asks_itself = py_endswith (py_rstrip body) ''?''
      in size \<noteq> 0 \<and>
         list_ex (\<lambda>at. take size (drop at said) = draft \<and>
             (let after = drop (at + size) said
              in asks_to_confirm after own_question \<or> asks_itself \<and> after = []) \<and>
             neutral_start (take at said))
           [0..<Suc (length said) - size])"

section \<open>The answer to a consent question\<close>

datatype answer = Yes | No | Unclear

definition ALLERGY_QUESTION :: str where
  "ALLERGY_QUESTION = ''Darf ich die Allergie als Hinweis f'' @ [ue] @ ''r die K'' @ [ue] @ ''che notieren?''"

definition NOTE_IT :: "str list" where
  "NOTE_IT = [''notieren'', ''aufschreiben'', ''weitergeben'', ''sie'', ''unbedingt'', ''auf'', ''jeden'', ''fall'',
     ''duerfen'', ''d'' @ [ue] @ ''rfen'']"

definition NO_WORDS :: "str list" where
  "NO_WORDS = [''nein'', ''nee'', ''ne'', ''n'' @ [oe], ''noe'']"

definition NO_FILLER :: "str list" where
  "NO_FILLER = filter (\<lambda>w. w \<noteq> ''doch'') FILLER @ [''lieber'', ''besser'', ''nicht'', ''n'' @ [oe] @ ''tig'', ''noetig'']"

definition consent_answer :: "str \<Rightarrow> str list \<Rightarrow> str list \<Rightarrow> answer" where
  "consent_answer text about refuse =
     (let lowered = py_lower text;
          rest = sub_runs small_letter (\<lambda>w. if w \<in> set about \<and> w \<notin> set YES then '' '' else w) [] lowered
      in if is_yes text \<or> is_yes rest then Yes
         else if CHR ''?'' \<in> set lowered \<or> list_ex py_isdigit lowered then Unclear
         else let ws = words lowered in
           if (list_ex (\<lambda>w. w \<in> set NO_WORDS) ws \<or> ''nicht'' \<in> set ws) \<and>
              list_all (\<lambda>w. w \<in> set NO_WORDS \<or> w \<in> set NO_FILLER \<or> w \<in> set about \<or> w \<in> set refuse) ws
           then No else Unclear)"

section \<open>The recording\<close>

definition RECORD_IT :: "str list" where
  "RECORD_IT = [''ich'', ''bin'', ''damit'', ''wir'', ''sie'', ''d'' @ [ue] @ ''rfen'', ''duerfen'',
     ''k'' @ [oe] @ ''nnen'', ''koennen'', ''aufnehmen'', ''aufzeichnen'', ''einverstanden'']"

definition RECORDED :: "str list" where
  "RECORDED = [''aufnahme'', ''aufzeichnung'', ''mitschnitt'', ''aufnehmen'', ''aufzeichnen'', ''aufgenommen'',
     ''aufgezeichnet'', ''aufzunehmen'', ''aufzuzeichnen'', ''aufnahmen'', ''aufzeichnungen'', ''mitschnitte'']"

definition SPLIT_VERBS :: "str list" where
  "SPLIT_VERBS = [''nehmen'', ''nehmt'', ''nimm'', ''zeichnen'', ''zeichnet'']"
definition PLAIN_NOT :: "str list" where
  "PLAIN_NOT = [''nicht'', ''nichts'', ''kein'', ''keine'']"
definition TAKE_BACK :: "str list" where
  "TAKE_BACK = [''widerruf'']"
definition CONSENT :: "str list" where
  "CONSENT = [''einwilligung'', ''zustimmung'', ''einverst'' @ [ae] @ ''ndnis'', ''einverstaendnis'']"
definition BACK :: "str list" where
  "BACK = [''zur'' @ [ue] @ ''ck'', ''zurueck'']"
definition REFUSE :: "str list" where
  "REFUSE = [''m'' @ [oe] @ ''chte'', ''moechte'', ''will'', ''dagegen'', ''auf'', ''keinen'', ''fall'']"
definition STOPPED :: "str list" where
  "STOPPED = [''stop'', ''beend'', ''l'' @ [oe] @ ''sch'', ''loesch'', ''abbrech'', ''ende'',
     ''aufh'' @ [oe] @ ''r'', ''aufhoer'']"
definition NOT_WORDS :: "str list" where
  "NOT_WORDS = [''aus'', ''nicht'', ''keine'', ''kein'', ''ohne'', ''weg'', ''abschalten'']"
definition RECORDING_NOUNS :: "str list" where
  "RECORDING_NOUNS = [''aufnahme'', ''aufzeichnung'', ''mitschnitt'']"
definition HEAR :: "str list" where
  "HEAR = [''h'' @ [oe] @ ''r'', ''hoer'']"
definition ONLY_A_STOP :: "str list" where
  "ONLY_A_STOP = [''sie'', ''die'', ''ich'', ''will'', ''m'' @ [oe] @ ''chte'', ''moechte'', ''werden'', ''wieder'',
     ''jetzt'', ''mich'', ''uns'', ''auf'', ''das'', ''meine'', ''mehr'', ''bin'', ''damit''] @
     SPLIT_VERBS @ CONSENT @ BACK @ [''nehme'', ''einverstanden'']"

definition says_any :: "str list \<Rightarrow> str list \<Rightarrow> bool" where
  "says_any list ws \<longleftrightarrow> list_ex (\<lambda>w. w \<in> set list) ws"

definition stop_in_one_word :: "str \<Rightarrow> bool" where
  "stop_in_one_word w =
     (case find (py_startswith w) RECORDING_NOUNS of None \<Rightarrow> False
      | Some noun \<Rightarrow> let rest = drop (length noun) w
          in starts_with_any STOPPED rest \<or> starts_with_any STOPPED (drop 1 rest))"

definition stops_recording :: "str \<Rightarrow> bool" where
  "stops_recording text =
     (let ws = words (py_lower text) in
      if list_ex (\<lambda>w. stop_in_one_word w \<or> starts_with_any TAKE_BACK w) ws then True
      else if says_any CONSENT ws \<and> says_any BACK ws then True
      else if ''nicht'' \<in> set ws \<and> ''mehr'' \<in> set ws \<and> ''einverstanden'' \<in> set ws then True
      else if ''auf'' \<in> set ws \<and> says_any SPLIT_VERBS ws \<and> says_any PLAIN_NOT ws then True
      else let split_stop = (''auf'' \<in> set ws \<and> list_ex (starts_with_any HEAR) ws)
        in says_any RECORDED ws \<and>
           (split_stop \<or> list_ex (\<lambda>w. w \<in> set NOT_WORDS \<or> starts_with_any STOPPED w) ws))"

definition only_stops_recording :: "str \<Rightarrow> bool" where
  "only_stops_recording text \<longleftrightarrow> stops_recording text \<and>
     list_all (\<lambda>w. w \<in> set RECORDED \<or> w \<in> set NOT_WORDS \<or> starts_with_any STOPPED w \<or> starts_with_any HEAR w \<or>
        starts_with_any TAKE_BACK w \<or> stop_in_one_word w \<or> w \<in> set FILLER \<or> w \<in> set ONLY_A_STOP)
       (words (py_lower text))"

definition asks_back :: "str list \<Rightarrow> bool" where
  "asks_back ws \<longleftrightarrow> take 2 (dropWhile (\<lambda>w. w \<in> set OUTSIDE_THE_CLAUSE) ws) = [''bin'', ''ich'']"

definition recording_answer :: "str \<Rightarrow> answer" where
  "recording_answer text =
     (if stops_recording text then No
      else if list_ex (\<lambda>s. asks_back (words s)) (split_at sentence_end [] (py_lower text)) then Unclear
      else consent_answer text RECORD_IT REFUSE)"

definition bare_recording_answer :: "str \<Rightarrow> bool" where
  "bare_recording_answer text \<longleftrightarrow>
     (let a = recording_answer text in
      a = Yes \<or> a = No \<and> (only_stops_recording text \<or> consent_answer text RECORD_IT REFUSE = No))"

definition CLAUSE_MARKS :: str where "CLAUSE_MARKS = '',.!?;:''"
definition ANSWER_WORDS :: "str list" where "ANSWER_WORDS = NO_WORDS @ [''ja'']"
definition NEGATIONS :: "str list" where "NEGATIONS = [''nicht'', ''nie'', ''kein'', ''ohne'']"

definition answer_clause :: "str \<Rightarrow> bool" where
  "answer_clause clause =
     (if list_ex py_isdigit clause \<or> \<not> bare_recording_answer clause then False
      else stops_recording clause \<or>
        \<not> list_ex (\<lambda>w. w \<notin> set NO_WORDS \<and> starts_with_any NEGATIONS w) (words (py_lower clause)))"

text \<open>The loop over \<open>text + ","\<close>: \<open>stop\<close> is the place of the character, \<open>beg\<close> the start of its clause.\<close>

fun answer_cut :: "str \<Rightarrow> str \<Rightarrow> nat \<Rightarrow> nat \<Rightarrow> nat \<Rightarrow> nat" where
  "answer_cut text [] stop beg kept = kept"
| "answer_cut text (c # cs) stop beg kept =
     (if c \<notin> set CLAUSE_MARKS then answer_cut text cs (Suc stop) beg kept
      else let clause = drop beg (take stop text)
        in if py_strip clause = [] then answer_cut text cs (Suc stop) (Suc stop) kept
           else if \<not> answer_clause clause then kept
           else answer_cut text cs (Suc stop) (Suc stop) stop)"

text \<open>The end of the leading answer words; \<open>cur\<close> is the word read so far, reversed, \<open>at\<close> the place.\<close>

fun answer_words_end :: "str \<Rightarrow> str \<Rightarrow> nat \<Rightarrow> nat \<Rightarrow> nat" where
  "answer_words_end cur [] at kept =
     (if cur \<noteq> [] \<and> py_lower (rev cur) \<in> set ANSWER_WORDS then at else kept)"
| "answer_words_end cur (c # cs) at kept =
     (if word_char c then answer_words_end (c # cur) cs (Suc at) kept
      else if cur = [] then answer_words_end [] cs (Suc at) kept
      else if py_lower (rev cur) \<in> set ANSWER_WORDS then answer_words_end [] cs (Suc at) at
      else kept)"

definition after_recording_answer :: "str \<Rightarrow> str" where
  "after_recording_answer text =
     (let cut = answer_cut text (text @ '','') 0 0 0;
          cut = (if cut = 0 then answer_words_end [] text 0 0 else cut);
          rest = dropWhile (\<lambda>c. c \<in> set (CLAUSE_MARKS @ [CHR '' '', char_of (9 :: nat), char_of (10 :: nat)])) (drop cut text)
      in if rest \<noteq> [] then rest else text)"

section \<open>A bare answer\<close>

definition PRESENT :: "str list" where
  "PRESENT = [''ich'', ''bin'', ''noch'', ''da'', ''hier'', ''dran'', ''am'', ''apparat'']"

definition bare_answer :: "str \<Rightarrow> bool" where
  "bare_answer text =
     (if list_ex py_isdigit text then False
      else let ws = words (py_lower text);
               rest = py_join '' '' (filter (\<lambda>w. w \<notin> set PRESENT) ws)
           in if rest = [] then ws \<noteq> [] else consent_answer rest NOTE_IT [] \<noteq> Unclear)"


section \<open>A read-back said word for word is read out\<close>

lemma runs_from_stop: "\<not> P c \<Longrightarrow> runs_from P cur (xs @ c # ys) = runs_from P cur xs @ runs_from P [] (c # ys)"
  by (induction xs arbitrary: cur) auto

lemma runs_from_ne: "cur \<noteq> [] \<or> (\<exists>c \<in> set xs. P c) \<Longrightarrow> runs_from P cur xs \<noteq> []"
  by (induction xs arbitrary: cur) auto

lemma py_rstrip_last: "s \<noteq> [] \<Longrightarrow> \<not> py_space (last s) \<Longrightarrow> py_rstrip s = s"
  by (cases s rule: rev_cases) (auto simp: py_rstrip_def)

text \<open>The last place of a text that no suffix behind it begins with.\<close>

lemma filter_last:
  assumes "Q k" and "k < n" and "\<And>i. k < i \<Longrightarrow> i < n \<Longrightarrow> \<not> Q i"
  shows "\<exists>xs. filter Q [0..<n] = xs @ [k]"
proof -
  have "[0..<n] = [0..<k] @ k # [Suc k..<n]"
    using assms(2) by (metis upt_add_eq_append upt_conv_Cons le_add_diff_inverse less_imp_le zero_le add_0)
  moreover have "filter Q [Suc k..<n] = []" using assms(3) by (auto simp: filter_empty_conv)
  ultimately show ?thesis using assms(1) by simp
qed

lemma py_rfind_at:
  assumes "py_startswith (drop k s) p" and "k \<le> length s"
    and "\<And>i. k < i \<Longrightarrow> i \<le> length s \<Longrightarrow> \<not> py_startswith (drop i s) p"
  shows "py_rfind s p = int k"
proof -
  obtain xs where "filter (\<lambda>i. py_startswith (drop i s) p) [0..<Suc (length s)] = xs @ [k]"
    using filter_last [of "\<lambda>i. py_startswith (drop i s) p" k "Suc (length s)"] assms by force
  then show ?thesis by (cases xs) (simp_all add: py_rfind_def del: upt_Suc)
qed

lemma py_rfind_le:
  assumes "\<And>i. k < i \<Longrightarrow> i \<le> length s \<Longrightarrow> \<not> py_startswith (drop i s) p"
  shows "py_rfind s p \<le> int k"
proof -
  let ?xs = "filter (\<lambda>i. py_startswith (drop i s) p) [0..<Suc (length s)]"
  show ?thesis
  proof (cases ?xs)
    case (Cons y ys)
    then have "last ?xs \<in> set ?xs" by (intro last_in_set) simp
    then have "last ?xs \<le> length s" "py_startswith (drop (last ?xs) s) p" by auto
    then have "last ?xs \<le> k" using assms [of "last ?xs"] by (cases "k < last ?xs") auto
    then show ?thesis using Cons by (simp add: py_rfind_def del: upt_Suc)
  qed (simp add: py_rfind_def del: upt_Suc)
qed

definition CLOSING :: str where "CLOSING = ''. Passt das so?''"

lemma closing_tail:
  assumes "length b < i" and "i \<le> length (b @ CLOSING)"
  shows "\<not> py_startswith (drop i (b @ CLOSING)) ''. ''" and "\<not> py_startswith (drop i (b @ CLOSING)) ''! ''"
proof -
  have "i - length b \<in> {1..15}" using assms by (auto simp: CLOSING_def)
  then have "i - length b \<in> set [1..<16]" by auto
  moreover have "list_all (\<lambda>j. \<not> py_startswith (drop j CLOSING) ''. '' \<and> \<not> py_startswith (drop j CLOSING) ''! '') [1..<16]"
    by code_simp
  ultimately have t: "\<not> py_startswith (drop (i - length b) CLOSING) ''. '' \<and>
      \<not> py_startswith (drop (i - length b) CLOSING) ''! ''"
    by (auto simp: list_all_iff)
  have "drop i (b @ CLOSING) = drop (i - length b) CLOSING" using assms(1) by simp
  then show "\<not> py_startswith (drop i (b @ CLOSING)) ''. ''" and "\<not> py_startswith (drop i (b @ CLOSING)) ''! ''"
    using t by simp_all
qed

lemma read_body_closing: "read_body (b @ CLOSING) = b" "py_rstrip (b @ CLOSING) = b @ CLOSING"
proof -
  show r: "py_rstrip (b @ CLOSING) = b @ CLOSING"
    by (rule py_rstrip_last) (simp_all add: CLOSING_def py_space_def)
  have "py_rfind (b @ CLOSING) ''. '' = int (length b)"
    by (rule py_rfind_at) (use closing_tail in \<open>auto simp: py_startswith_def CLOSING_def\<close>)
  moreover have "py_rfind (b @ CLOSING) ''! '' \<le> int (length b)"
    by (rule py_rfind_le) (use closing_tail in auto)
  moreover have "py_endswith (b @ CLOSING) ''?''" by (simp add: py_endswith_def py_startswith_def CLOSING_def)
  ultimately have m: "max (py_rfind (b @ CLOSING) ''. '') (py_rfind (b @ CLOSING) ''! '') = int (length b)"
    and e: "py_endswith (b @ CLOSING) ''?''" by simp_all
  show "read_body (b @ CLOSING) = b" unfolding read_body_def r Let_def m using e by simp
qed

lemma spoken_append: "\<not> word_char c \<Longrightarrow> spoken (xs @ c # ys) = spoken xs @ spoken (c # ys)"
  by (simp add: spoken_def runs_from_stop)

lemma read_out_verbatim:
  assumes "c \<in> set b" and "word_char (lower_char c)"
  shows "read_out (b @ CLOSING) (b @ CLOSING)"
proof -
  define draft where "draft = spoken (py_lower b)"
  have low: "py_lower CLOSING = CHR ''.'' # '' passt das so?''" by code_simp
  have own: "spoken (CHR ''.'' # '' passt das so?'') = [''passt'', ''das'', ''so'']" by code_simp
  have "\<not> word_char CHR ''.''" by code_simp
  then have said: "spoken (py_lower (b @ CLOSING)) = draft @ [''passt'', ''das'', ''so'']"
    using spoken_append [of "CHR ''.''" "py_lower b" "'' passt das so?''"] low own
    by (simp add: py_lower_def draft_def)
  have "spoken (py_lower CLOSING) = [''passt'', ''das'', ''so'']" unfolding low by (rule own)
  moreover have "draft \<noteq> []"
    unfolding draft_def spoken_def by (rule runs_from_ne) (use assms in \<open>auto simp: py_lower_def\<close>)
  moreover have "neutral_start []" by (simp add: neutral_start_def)
  moreover have "asks_to_confirm [''passt'', ''das'', ''so''] [''passt'', ''das'', ''so'']"
    by (simp add: asks_to_confirm_def)
  ultimately show ?thesis
    unfolding read_out_def Let_def read_body_closing said draft_def [symmetric]
    by (auto simp: list_ex_iff draft_def [symmetric] intro!: bexI [of _ 0])
qed

end
