(* ===== verification/Vault.thy ===== *)
theory Vault
  imports Consent
begin

text \<open>
  What the house forgets: the recordings and the consent log of a call (\<open>api/domain/calls/recordings.py\<close>,
  \<open>consent.py\<close>), the log of the requests of guests about their data, what a row loses when its personal
  data goes (\<open>api/domain/customers/personal.py\<close>), and the deletion job (\<open>api/jobs/retention.py\<close>) with the
  periods of \<open>api/config.py\<close>. The folder of the recordings is the list of the names of its files.
\<close>

section \<open>The other tables\<close>

record recording =
  rc_id :: uuid
  rc_tenant_id :: uuid
  rc_call_id :: uuid
  file_name :: str
  rc_started_at :: instant
  withdrawn_at :: "instant option"

record consent_row =
  cl_tenant_id :: uuid
  cl_call_id :: uuid
  cl_question :: str
  cl_answer :: answer
  answered_at :: instant

datatype request_kind = Access | Erasure | Objection
datatype request_channel = ByPhone | ByMail | InPerson
datatype request_outcome = RqDone | RqNotVerified | RqRefused | RqWithdrawn

record data_request =
  dq_id :: uuid
  dq_tenant_id :: uuid
  reference :: str
  dq_kind :: request_kind
  dq_channel :: request_channel
  received_at :: instant
  dq_deadline :: int
  verification_note :: "str option"
  dq_answered_at :: "instant option"
  dq_outcome :: "request_outcome option"
  dq_delete_after :: "int option"

record house =
  h_db :: db
  recordings :: "recording list"
  consents :: "consent_row list"
  requests :: "data_request list"
  folder :: "str list"

section \<open>api/domain/calls/recordings.py and consent.py\<close>

text \<open>\<open>Path(file_name).name\<close>, and \<open>delete_file\<close>: \<open>stuck\<close> are the names whose removal raises an OSError.\<close>

definition path_of :: "str \<Rightarrow> str" where
  "path_of name = (case filter (\<lambda>p. p \<noteq> [] \<and> p \<noteq> ''.'') (split_at (\<lambda>c. c = CHR ''/'') [] name) of
     [] \<Rightarrow> [] | ps \<Rightarrow> last ps)"

definition delete_file :: "(str \<Rightarrow> bool) \<Rightarrow> str \<Rightarrow> str list \<Rightarrow> str list option" where
  "delete_file stuck name files =
     (if stuck (path_of name) then None else Some (filter (\<lambda>f. f \<noteq> path_of name) files))"

text \<open>\<open>free\<close> is the free space of the folder's disk in bytes, \<open>None\<close> without the folder.\<close>

definition room_for_a_recording :: "int \<Rightarrow> int option \<Rightarrow> bool" where
  "room_for_a_recording min_free_mb free = (case free of None \<Rightarrow> True | Some b \<Rightarrow> min_free_mb * 1024 * 1024 \<le> b)"

text \<open>No room, no such call, or the unique key of the table: a call has one recording.\<close>

datatype recording_error = NoRoomForARecording | NoCall | SecondRecording

definition open_recording ::
  "int \<Rightarrow> int option \<Rightarrow> uuid \<Rightarrow> uuid \<Rightarrow> instant \<Rightarrow> house \<Rightarrow> recording_error + str \<times> house" where
  "open_recording min_free_mb free tid cid now h =
     (if \<not> room_for_a_recording min_free_mb free then Inl NoRoomForARecording
      else case get_call (h_db h) cid of None \<Rightarrow> Inl NoCall
        | Some c \<Rightarrow>
            if list_ex (\<lambda>r. rc_call_id r = cid) (recordings h) then Inl SecondRecording
            else let name = external_session_id c @ ''.wav''
                 in Inr (name, h\<lparr>recordings := recordings h @ [\<lparr>rc_id = next_id (h_db h), rc_tenant_id = tid, rc_call_id = cid,
                      file_name = name, rc_started_at = now, withdrawn_at = None\<rparr>],
                      h_db := (h_db h)\<lparr>next_id := Suc (next_id (h_db h))\<rparr>\<rparr>))"

definition withdraw_recording :: "uuid \<Rightarrow> uuid \<Rightarrow> instant \<Rightarrow> house \<Rightarrow> house" where
  "withdraw_recording tid cid now h =
     h\<lparr>recordings := upd_rows (\<lambda>r. rc_tenant_id r = tid \<and> rc_call_id r = cid \<and> withdrawn_at r = None)
        (\<lambda>r. r\<lparr>withdrawn_at := Some now\<rparr>) (recordings h)\<rparr>"

definition call_with_running_recording :: "uuid \<Rightarrow> str \<Rightarrow> house \<Rightarrow> uuid option" where
  "call_with_running_recording tid session h =
     map_option c_id (find (\<lambda>c. c_tenant_id c = tid \<and> external_session_id c = session \<and>
        list_ex (\<lambda>r. rc_call_id r = c_id c \<and> withdrawn_at r = None) (recordings h)) (calls (h_db h)))"

definition record_consent :: "uuid \<Rightarrow> uuid \<Rightarrow> str \<Rightarrow> answer \<Rightarrow> instant \<Rightarrow> house \<Rightarrow> house" where
  "record_consent tid cid question answer now h =
     h\<lparr>consents := consents h @ [\<lparr>cl_tenant_id = tid, cl_call_id = cid, cl_question = question,
        cl_answer = answer, answered_at = now\<rparr>]\<rparr>"

section \<open>api/domain/customers/personal.py\<close>

definition order_gone :: "order \<Rightarrow> order" where
  "order_gone r = r\<lparr>customer_name := [], o_phone := [], o_note := None, o_customer_id := None, o_address_id := None\<rparr>"

definition callback_gone :: "callback \<Rightarrow> callback" where
  "callback_gone r = r\<lparr>cb_phone := [], cb_summary := []\<rparr>"

definition order_day :: "order \<Rightarrow> instant" where
  "order_day r = (case ready_at r of Some t \<Rightarrow> t | None \<Rightarrow> o_created_at r)"

definition OUTBOX_KEEP :: "str list" where
  "OUTBOX_KEEP = [''order_id'', ''reservation_id'', ''callback_id'', ''call_id'', ''revision'']"

text \<open>\<open>jsonb_strip_nulls\<close>: a null is left out.\<close>

definition kept_value :: "str \<Rightarrow> json \<Rightarrow> json option" where
  "kept_value k p = (case jget k p of None \<Rightarrow> None | Some v \<Rightarrow> if v = JNull then None else Some v)"

definition thin_payload :: "json \<Rightarrow> json" where
  "thin_payload p = JObj (List.map_filter (\<lambda>k. map_option (Pair k) (kept_value k p)) OUTBOX_KEEP)"

text \<open>\<open>payload = thin_payload()\<close>: two JSON objects with the same entries are the same, in any order.\<close>

definition is_thin :: "json \<Rightarrow> bool" where
  "is_thin p = (case p of JObj kvs \<Rightarrow> list_all (\<lambda>(k, v). k \<in> set OUTBOX_KEEP \<and> v \<noteq> JNull) kvs | _ \<Rightarrow> False)"

section \<open>The periods\<close>

text \<open>The settings of \<open>api/config.py\<close> the job reads, with their limits and the two validators.\<close>

definition MAX_RETENTION_DAYS :: int where "MAX_RETENTION_DAYS = 3660"

record periods =
  caller_id_days :: int
  guest_details_days :: int
  callback_days :: int
  customer_days :: int
  outbox_sent_days :: int
  outbox_unsent_days :: int
  outbox_row_days :: int
  audit_log_days :: int
  allergy_note_days :: int
  recording_days :: int
  consent_log_years :: int
  request_details_months :: int
  request_log_years :: int

definition default_periods :: periods where
  "default_periods = \<lparr>caller_id_days = 90, guest_details_days = 90, callback_days = 90, customer_days = 730,
     outbox_sent_days = 7, outbox_unsent_days = 30, outbox_row_days = 90, audit_log_days = 365,
     allergy_note_days = 0, recording_days = 30, consent_log_years = 3, request_details_months = 3, request_log_years = 3\<rparr>"

definition day_period :: "int \<Rightarrow> bool" where
  "day_period n \<longleftrightarrow> 1 \<le> n \<and> n \<le> MAX_RETENTION_DAYS"

definition outbox_rows_outlive_their_payloads :: "periods \<Rightarrow> bool" where
  "outbox_rows_outlive_their_payloads p \<longleftrightarrow> max (outbox_sent_days p) (outbox_unsent_days p) \<le> outbox_row_days p"

definition payload_copies_go_before_their_rows :: "periods \<Rightarrow> bool" where
  "payload_copies_go_before_their_rows p \<longleftrightarrow>
     outbox_unsent_days p + outbox_sent_days p \<le> guest_details_days p \<and>
     outbox_unsent_days p + outbox_sent_days p \<le> callback_days p"

definition periods_ok :: "periods \<Rightarrow> bool" where
  "periods_ok p \<longleftrightarrow>
     list_all day_period [caller_id_days p, guest_details_days p, callback_days p, customer_days p, outbox_sent_days p,
       outbox_unsent_days p, outbox_row_days p, audit_log_days p, recording_days p] \<and>
     0 \<le> allergy_note_days p \<and> allergy_note_days p \<le> MAX_RETENTION_DAYS \<and>
     1 \<le> consent_log_years p \<and> consent_log_years p \<le> 10 \<and>
     1 \<le> request_details_months p \<and> request_details_months p \<le> 12 \<and>
     1 \<le> request_log_years p \<and> request_log_years p \<le> 10 \<and>
     outbox_rows_outlive_their_payloads p \<and> payload_copies_go_before_their_rows p"

definition ago :: "instant \<Rightarrow> int \<Rightarrow> instant" where
  "ago now days = now - days * DAY"

end
