(* ===== verification/Retention.thy ===== *)
theory Retention
  imports Vault
begin

text \<open>
  The deletion job (\<open>api/jobs/retention.py\<close>): personal data goes when its period ends. A pass runs twelve
  steps, each in a savepoint of its own; a step that fails is rolled back and the others go on. What a
  pass has to achieve is written down as \<open>kept\<close>: nothing personal is left that is past its period.
\<close>

section \<open>Notes with an allergy\<close>

text \<open>\<open>allergi|unvertr(ae|AE)glich|intoleran\<close> with the umlaut, in any case.\<close>

definition ALLERGY :: "str list" where
  "ALLERGY = [''allergi'', ''unvertr'' @ [ae] @ ''glich'', ''unvertraeglich'', ''intoleran'']"

definition names_allergy :: "str \<Rightarrow> bool" where
  "names_allergy s \<longleftrightarrow> (let low = py_lower s in list_ex (\<lambda>i. starts_with_any ALLERGY (drop i low)) [0..<length low])"

definition allergy_note :: "str option \<Rightarrow> bool" where
  "allergy_note n = (case n of None \<Rightarrow> False | Some s \<Rightarrow> names_allergy s)"

lemma no_note [simp]: "\<not> allergy_note None"
  by (simp add: allergy_note_def)

fun clear_note :: "json \<Rightarrow> json" where
  "clear_note (JStr s) = (if names_allergy s then JNull else JStr s)"
| "clear_note j = j"

text \<open>\<open>{**d, "note": clean(d["note"])}\<close>\<close>

definition clean_key :: "(str \<times> json) list \<Rightarrow> (str \<times> json) list" where
  "clean_key kvs = map (\<lambda>(k, v). (k, if k = ''note'' then clear_note v else v)) kvs"

fun clean_item :: "json \<Rightarrow> json" where
  "clean_item (JObj kvs) = JObj (clean_key kvs)"
| "clean_item j = j"

fun clean_items :: "json \<Rightarrow> json" where
  "clean_items (JList xs) = JList (map clean_item xs)"
| "clean_items j = j"

fun without_allergy :: "json \<Rightarrow> json" where
  "without_allergy (JObj kvs) = JObj (map (\<lambda>(k, v). (k, if k = ''items'' then clean_items v else v)) (clean_key kvs))"
| "without_allergy j = j"

section \<open>The steps\<close>

text \<open>Every step gives the rows it changed: \<open>session.execute(statement).rowcount\<close>.\<close>

definition hits :: "('r \<Rightarrow> bool) \<Rightarrow> 'r list \<Rightarrow> int" where
  "hits p rs = int (length (filter p rs))"

definition drop_rows :: "('r \<Rightarrow> bool) \<Rightarrow> 'r list \<Rightarrow> 'r list" where
  "drop_rows p rs = filter (\<lambda>r. \<not> p r) rs"

text \<open>\<open>_allergy_notes\<close>: of a tenant, up to the start of the business day \<open>days\<close> ago. \<open>locked\<close> are the events
  the bridge or the dispatcher holds.\<close>

definition allergy_cutoff :: "periods \<Rightarrow> instant \<Rightarrow> tenant \<Rightarrow> instant" where
  "allergy_cutoff p now t =
     fst (business_day_bounds_utc (business_day now (t_timezone t) DAY_STARTS_AT - allergy_note_days p) (t_timezone t) DAY_STARTS_AT)"

definition old_order :: "tenant \<Rightarrow> instant \<Rightarrow> order \<Rightarrow> bool" where
  "old_order t cutoff r \<longleftrightarrow> o_tenant_id r = t_id t \<and> order_day r < cutoff"

definition old_table :: "tenant \<Rightarrow> instant \<Rightarrow> reservation \<Rightarrow> bool" where
  "old_table t cutoff r \<longleftrightarrow> r_tenant_id r = t_id t \<and> reserved_for r < cutoff"

definition ids_of_orders :: "(order \<Rightarrow> bool) \<Rightarrow> db \<Rightarrow> uuid list" where
  "ids_of_orders q d = map o_id (filter q (orders d))"

definition ids_of_tables :: "(reservation \<Rightarrow> bool) \<Rightarrow> db \<Rightarrow> uuid list" where
  "ids_of_tables q d = map r_id (filter q (reservations d))"

text \<open>\<open>payload[key].astext in ids\<close>\<close>

definition names_row :: "str \<Rightarrow> uuid list \<Rightarrow> json \<Rightarrow> bool" where
  "names_row k ids p = (case jget k p of Some (JId i) \<Rightarrow> i \<in> set ids | _ \<Rightarrow> False)"

definition about_rows :: "uuid \<Rightarrow> uuid list \<Rightarrow> uuid list \<Rightarrow> outbox_event \<Rightarrow> bool" where
  "about_rows tid os ts e \<longleftrightarrow> ev_tenant_id e = tid \<and>
     (names_row ''order_id'' os (ev_payload e) \<or> names_row ''reservation_id'' ts (ev_payload e))"

definition copy_with_allergy :: "(uuid \<Rightarrow> bool) \<Rightarrow> uuid \<Rightarrow> uuid list \<Rightarrow> uuid list \<Rightarrow> outbox_event \<Rightarrow> bool" where
  "copy_with_allergy locked tid os ts e \<longleftrightarrow> about_rows tid os ts e \<and> \<not> locked (ev_id e) \<and>
     without_allergy (ev_payload e) \<noteq> ev_payload e"

definition allergy_notes_of :: "(uuid \<Rightarrow> bool) \<Rightarrow> periods \<Rightarrow> instant \<Rightarrow> tenant \<Rightarrow> db \<Rightarrow> db \<times> int" where
  "allergy_notes_of locked p now t d =
     (let cutoff = allergy_cutoff p now t;
          os = ids_of_orders (old_order t cutoff) d;
          ts = ids_of_tables (old_table t cutoff) d;
          item = (\<lambda>r. oi_order_id r \<in> set os \<and> allergy_note (oi_note r));
          ord = (\<lambda>r. o_id r \<in> set os \<and> allergy_note (o_note r));
          tab = (\<lambda>r. r_id r \<in> set ts \<and> allergy_note (r_note r));
          copy = copy_with_allergy locked (t_id t) os ts
      in (d\<lparr>order_items := upd_rows item (\<lambda>r. r\<lparr>oi_note := None\<rparr>) (order_items d),
            orders := upd_rows ord (\<lambda>r. r\<lparr>o_note := None\<rparr>) (orders d),
            reservations := upd_rows tab (\<lambda>r. r\<lparr>r_note := None\<rparr>) (reservations d),
            outbox := upd_rows copy (\<lambda>e. e\<lparr>ev_payload := without_allergy (ev_payload e)\<rparr>) (outbox d)\<rparr>,
          hits item (order_items d) + hits ord (orders d) + hits tab (reservations d) + hits copy (outbox d)))"

fun per_tenant :: "(tenant \<Rightarrow> 's \<Rightarrow> 's \<times> int) \<Rightarrow> tenant list \<Rightarrow> 's \<Rightarrow> 's \<times> int" where
  "per_tenant f [] s = (s, 0)"
| "per_tenant f (t # ts) s = (let (s1, n) = f t s; (s2, m) = per_tenant f ts s1 in (s2, n + m))"

text \<open>The name of a period and the rows it changed.\<close>

type_synonym counts = "(str \<times> int) list"

definition on_db :: "(db \<Rightarrow> db \<times> 'c) \<Rightarrow> house \<Rightarrow> house \<times> 'c" where
  "on_db f h = (let (d, n) = f (h_db h) in (h\<lparr>h_db := d\<rparr>, n))"

definition allergy_notes :: "(uuid \<Rightarrow> bool) \<Rightarrow> periods \<Rightarrow> instant \<Rightarrow> db \<Rightarrow> db \<times> counts" where
  "allergy_notes locked p now d =
     (let (d', n) = per_tenant (allergy_notes_of locked p now) (tenants d) d in (d', [(''allergy_notes'', n)]))"

text \<open>\<open>_guest_details\<close>\<close>

definition named_order :: "instant \<Rightarrow> order \<Rightarrow> bool" where
  "named_order cutoff r \<longleftrightarrow> order_day r < cutoff \<and>
     (customer_name r \<noteq> [] \<or> o_phone r \<noteq> [] \<or> o_note r \<noteq> None \<or> o_customer_id r \<noteq> None \<or> o_address_id r \<noteq> None)"

definition table_gone :: "reservation \<Rightarrow> reservation" where
  "table_gone r = r\<lparr>guest_name := [], r_phone := [], r_note := None\<rparr>"

definition named_table :: "instant \<Rightarrow> reservation \<Rightarrow> bool" where
  "named_table cutoff r \<longleftrightarrow> reserved_for r < cutoff \<and> (guest_name r \<noteq> [] \<or> r_phone r \<noteq> [] \<or> r_note r \<noteq> None)"

definition guest_details_step :: "instant \<Rightarrow> db \<Rightarrow> db \<times> counts" where
  "guest_details_step cutoff d =
     (let os = ids_of_orders (\<lambda>r. order_day r < cutoff) d;
          item = (\<lambda>r. oi_order_id r \<in> set os \<and> oi_note r \<noteq> None)
      in (d\<lparr>order_items := upd_rows item (\<lambda>r. r\<lparr>oi_note := None\<rparr>) (order_items d),
            orders := upd_rows (named_order cutoff) order_gone (orders d),
            reservations := upd_rows (named_table cutoff) table_gone (reservations d)\<rparr>,
          [(''orders'', hits (named_order cutoff) (orders d)), (''order_item_notes'', hits item (order_items d)),
           (''reservations'', hits (named_table cutoff) (reservations d))]))"

definition known_caller :: "instant \<Rightarrow> call \<Rightarrow> bool" where
  "known_caller cutoff c \<longleftrightarrow> started_at c < cutoff \<and> caller_id c \<noteq> None"

definition caller_ids_step :: "instant \<Rightarrow> db \<Rightarrow> db \<times> counts" where
  "caller_ids_step cutoff d =
     (d\<lparr>calls := upd_rows (known_caller cutoff) (\<lambda>c. c\<lparr>caller_id := None\<rparr>) (calls d)\<rparr>,
      [(''caller_ids'', hits (known_caller cutoff) (calls d))])"

definition named_callback :: "instant \<Rightarrow> callback \<Rightarrow> bool" where
  "named_callback cutoff r \<longleftrightarrow> (case done_at r of Some t \<Rightarrow> t | None \<Rightarrow> cb_created_at r) < cutoff \<and>
     (cb_phone r \<noteq> [] \<or> cb_summary r \<noteq> [])"

definition callbacks_step :: "instant \<Rightarrow> db \<Rightarrow> db \<times> counts" where
  "callbacks_step cutoff d =
     (d\<lparr>callbacks := upd_rows (named_callback cutoff) callback_gone (callbacks d)\<rparr>,
      [(''callbacks'', hits (named_callback cutoff) (callbacks d))])"

text \<open>A customer who goes takes the addresses along; an order keeps only cleared links.\<close>

definition drop_customers :: "(customer \<Rightarrow> bool) \<Rightarrow> db \<Rightarrow> db" where
  "drop_customers q d =
     (let ids = map cu_id (filter q (customers d));
          ads = map a_id (filter (\<lambda>a. a_customer_id a \<in> set ids) (addresses d));
          cut = (\<lambda>gone link. case link of None \<Rightarrow> None | Some i \<Rightarrow> if i \<in> set gone then None else Some i)
      in d\<lparr>customers := drop_rows q (customers d),
           addresses := drop_rows (\<lambda>a. a_customer_id a \<in> set ids) (addresses d),
           orders := map (\<lambda>r. r\<lparr>o_customer_id := cut ids (o_customer_id r), o_address_id := cut ads (o_address_id r)\<rparr>) (orders d)\<rparr>)"

definition old_customer :: "periods \<Rightarrow> instant \<Rightarrow> customer \<Rightarrow> bool" where
  "old_customer p now c \<longleftrightarrow> last_contact_at c < ago now (customer_days p) \<or>
     order_count c = 0 \<and> last_contact_at c = cu_created_at c \<and> last_contact_at c < ago now (guest_details_days p)"

definition customers_step :: "periods \<Rightarrow> instant \<Rightarrow> db \<Rightarrow> db \<times> counts" where
  "customers_step p now d =
     (drop_customers (old_customer p now) d, [(''customers'', hits (old_customer p now) (customers d))])"

text \<open>\<open>_outbox_payloads\<close>\<close>

definition UNSENT_EXPIRED :: "int \<Rightarrow> str" where
  "UNSENT_EXPIRED days = ''payload removed after '' @ str_int days @ '' days unsent, never sent''"

definition sent_copy :: "instant \<Rightarrow> outbox_event \<Rightarrow> bool" where
  "sent_copy cutoff e \<longleftrightarrow> ev_status e = SENT \<and> (case sent_at e of None \<Rightarrow> False | Some t \<Rightarrow> t < cutoff) \<and> \<not> is_thin (ev_payload e)"

definition unsent_copy :: "instant \<Rightarrow> outbox_event \<Rightarrow> bool" where
  "unsent_copy cutoff e \<longleftrightarrow> ev_status e \<noteq> SENT \<and> ev_created_at e < cutoff \<and> \<not> is_thin (ev_payload e)"

definition expire :: "int \<Rightarrow> outbox_event \<Rightarrow> outbox_event" where
  "expire days e = e\<lparr>ev_payload := thin_payload (ev_payload e), ev_status := FAILED,
     last_error := (if ev_status e = PENDING then Some (UNSENT_EXPIRED days) else last_error e)\<rparr>"

definition outbox_payloads_step :: "periods \<Rightarrow> instant \<Rightarrow> db \<Rightarrow> db \<times> counts" where
  "outbox_payloads_step p now d =
     (let sent = sent_copy (ago now (outbox_sent_days p)); unsent = unsent_copy (ago now (outbox_unsent_days p));
          os = upd_rows sent (\<lambda>e. e\<lparr>ev_payload := thin_payload (ev_payload e)\<rparr>) (outbox d)
      in (d\<lparr>outbox := upd_rows unsent (expire (outbox_unsent_days p)) os\<rparr>,
          [(''outbox_payloads'', hits sent (outbox d) + hits unsent os)]))"

definition outbox_rows_step :: "instant \<Rightarrow> db \<Rightarrow> db \<times> counts" where
  "outbox_rows_step cutoff d =
     (d\<lparr>outbox := drop_rows (\<lambda>e. ev_created_at e < cutoff) (outbox d)\<rparr>,
      [(''outbox_rows'', hits (\<lambda>e. ev_created_at e < cutoff) (outbox d))])"

definition audit_step :: "instant \<Rightarrow> db \<Rightarrow> db \<times> counts" where
  "audit_step cutoff d =
     (d\<lparr>audit := drop_rows (\<lambda>a. au_at a < cutoff) (audit d)\<rparr>, [(''audit_entries'', hits (\<lambda>a. au_at a < cutoff) (audit d))])"


text \<open>\<open>_recordings\<close>: a row goes only with its file.\<close>

definition due_recording :: "instant \<Rightarrow> recording \<Rightarrow> bool" where
  "due_recording cutoff r \<longleftrightarrow> withdrawn_at r \<noteq> None \<or> rc_started_at r < cutoff"

fun delete_recordings :: "(str \<Rightarrow> bool) \<Rightarrow> recording list \<Rightarrow> str list \<Rightarrow> recording list \<times> str list" where
  "delete_recordings stuck [] files = ([], files)"
| "delete_recordings stuck (r # rs) files =
     (case delete_file stuck (file_name r) files of
        None \<Rightarrow> delete_recordings stuck rs files
      | Some files \<Rightarrow> let (gone, files) = delete_recordings stuck rs files in (r # gone, files))"

definition recordings_step :: "(str \<Rightarrow> bool) \<Rightarrow> instant \<Rightarrow> house \<Rightarrow> house \<times> counts" where
  "recordings_step stuck cutoff h =
     (let (gone, files) = delete_recordings stuck (filter (due_recording cutoff) (recordings h)) (folder h)
      in (h\<lparr>recordings := drop_rows (\<lambda>r. r \<in> set gone) (recordings h), folder := files\<rparr>,
          [(''recordings'', int (length gone))]))"

text \<open>\<open>_consent_answers\<close>: from before the first of January of the year \<open>years\<close> ago, in the restaurant's zone.\<close>

definition consent_cutoff :: "periods \<Rightarrow> instant \<Rightarrow> tenant \<Rightarrow> instant" where
  "consent_cutoff p now t =
     utc_of (t_timezone t) (combine (date_of_ymd \<lparr>ymd_year = ymd_year (ymd_of_date (ldate (astimezone (t_timezone t) now)))
        - consent_log_years p, ymd_month = 1, ymd_day = 1\<rparr>) 0)"

definition old_consent :: "periods \<Rightarrow> instant \<Rightarrow> tenant \<Rightarrow> consent_row \<Rightarrow> bool" where
  "old_consent p now t r \<longleftrightarrow> cl_tenant_id r = t_id t \<and> answered_at r < consent_cutoff p now t"

definition consents_of :: "periods \<Rightarrow> instant \<Rightarrow> tenant \<Rightarrow> house \<Rightarrow> house \<times> int" where
  "consents_of p now t h = (h\<lparr>consents := drop_rows (old_consent p now t) (consents h)\<rparr>, hits (old_consent p now t) (consents h))"

text \<open>\<open>answered_at + make_interval(months)\<close>, in the database's time zone, UTC.\<close>

definition plus_months :: "instant \<Rightarrow> int \<Rightarrow> instant option" where
  "plus_months u m = map_option (\<lambda>e. date_of_ymd e * DAY + u mod DAY) (add_months (ymd_of_date (u div DAY)) m)"

definition detailed_request :: "periods \<Rightarrow> instant \<Rightarrow> data_request \<Rightarrow> bool" where
  "detailed_request p now r \<longleftrightarrow> verification_note r \<noteq> None \<and>
     (case dq_answered_at r of None \<Rightarrow> False
      | Some t \<Rightarrow> (case plus_months t (request_details_months p) of None \<Rightarrow> False | Some u \<Rightarrow> u < now))"

definition request_details_step :: "periods \<Rightarrow> instant \<Rightarrow> house \<Rightarrow> house \<times> counts" where
  "request_details_step p now h =
     (h\<lparr>requests := upd_rows (detailed_request p now) (\<lambda>r. r\<lparr>verification_note := None\<rparr>) (requests h)\<rparr>,
      [(''request_details'', hits (detailed_request p now) (requests h))])"

definition old_request :: "instant \<Rightarrow> tenant \<Rightarrow> data_request \<Rightarrow> bool" where
  "old_request now t r \<longleftrightarrow> dq_tenant_id r = t_id t \<and>
     (case dq_delete_after r of None \<Rightarrow> False | Some d \<Rightarrow> d < ldate (astimezone (t_timezone t) now))"

definition request_rows_of :: "instant \<Rightarrow> tenant \<Rightarrow> house \<Rightarrow> house \<times> int" where
  "request_rows_of now t h = (h\<lparr>requests := drop_rows (old_request now t) (requests h)\<rparr>, hits (old_request now t) (requests h))"

definition each_tenant :: "str \<Rightarrow> (tenant \<Rightarrow> house \<Rightarrow> house \<times> int) \<Rightarrow> house \<Rightarrow> house \<times> counts" where
  "each_tenant name f h = (let (h', n) = per_tenant f (tenants (h_db h)) h in (h', [(name, n)]))"

section \<open>One pass\<close>

text \<open>\<open>purge\<close>: the steps in their order. \<open>fails\<close> are the names of the steps that raised: rolled back,
  logged, and the others go on. The result is the house, the counts and the steps that failed.\<close>

definition purge_steps ::
  "(uuid \<Rightarrow> bool) \<Rightarrow> (str \<Rightarrow> bool) \<Rightarrow> periods \<Rightarrow> instant \<Rightarrow> (str \<times> (house \<Rightarrow> house \<times> counts)) list" where
  "purge_steps locked stuck p now =
     [(''allergy_notes'', on_db (allergy_notes locked p now)),
      (''guest_details'', on_db (guest_details_step (ago now (guest_details_days p)))),
      (''caller_ids'', on_db (caller_ids_step (ago now (caller_id_days p)))),
      (''callbacks'', on_db (callbacks_step (ago now (callback_days p)))),
      (''customers'', on_db (customers_step p now)),
      (''outbox_payloads'', on_db (outbox_payloads_step p now)),
      (''outbox_rows'', on_db (outbox_rows_step (ago now (outbox_row_days p)))),
      (''audit_entries'', on_db (audit_step (ago now (audit_log_days p)))),
      (''recordings'', recordings_step stuck (ago now (recording_days p))),
      (''consent_answers'', each_tenant ''consent_answers'' (consents_of p now)),
      (''request_details'', request_details_step p now),
      (''request_rows'', each_tenant ''request_rows'' (request_rows_of now))]"

fun run_steps :: "(str \<Rightarrow> bool) \<Rightarrow> (str \<times> (house \<Rightarrow> house \<times> counts)) list \<Rightarrow> house \<Rightarrow> house \<times> counts \<times> str list" where
  "run_steps fails [] h = (h, [], [])"
| "run_steps fails ((name, f) # fs) h =
     (if fails name then let (h', c, bad) = run_steps fails fs h in (h', c, name # bad)
      else let (h1, c1) = f h; (h', c, bad) = run_steps fails fs h1 in (h', c1 @ c, bad))"

definition purge ::
  "(uuid \<Rightarrow> bool) \<Rightarrow> (str \<Rightarrow> bool) \<Rightarrow> (str \<Rightarrow> bool) \<Rightarrow> periods \<Rightarrow> instant \<Rightarrow> house \<Rightarrow> house \<times> counts \<times> str list" where
  "purge locked stuck fails p now h = run_steps fails (purge_steps locked stuck p now) h"

section \<open>What is past its period\<close>

text \<open>The goal of every step.\<close>

definition allergies_gone :: "(uuid \<Rightarrow> bool) \<Rightarrow> periods \<Rightarrow> instant \<Rightarrow> tenant \<Rightarrow> db \<Rightarrow> bool" where
  "allergies_gone locked p now t d \<longleftrightarrow>
     (let cutoff = allergy_cutoff p now t;
          os = ids_of_orders (old_order t cutoff) d; ts = ids_of_tables (old_table t cutoff) d
      in (\<forall>r \<in> set (orders d). o_id r \<in> set os \<longrightarrow> \<not> allergy_note (o_note r)) \<and>
         (\<forall>r \<in> set (order_items d). oi_order_id r \<in> set os \<longrightarrow> \<not> allergy_note (oi_note r)) \<and>
         (\<forall>r \<in> set (reservations d). r_id r \<in> set ts \<longrightarrow> \<not> allergy_note (r_note r)) \<and>
         (\<forall>e \<in> set (outbox d). about_rows (t_id t) os ts e \<and> \<not> locked (ev_id e) \<longrightarrow>
            without_allergy (ev_payload e) = ev_payload e))"

definition guests_gone :: "instant \<Rightarrow> db \<Rightarrow> bool" where
  "guests_gone cutoff d \<longleftrightarrow>
     (\<forall>r \<in> set (orders d). order_day r < cutoff \<longrightarrow> order_gone r = r \<and>
        (\<forall>i \<in> set (order_items d). oi_order_id i = o_id r \<longrightarrow> oi_note i = None)) \<and>
     (\<forall>r \<in> set (reservations d). reserved_for r < cutoff \<longrightarrow> guest_name r = [] \<and> r_phone r = [] \<and> r_note r = None)"

definition callers_gone :: "instant \<Rightarrow> db \<Rightarrow> bool" where
  "callers_gone cutoff d \<longleftrightarrow> (\<forall>c \<in> set (calls d). started_at c < cutoff \<longrightarrow> caller_id c = None)"

definition callbacks_gone :: "instant \<Rightarrow> db \<Rightarrow> bool" where
  "callbacks_gone cutoff d \<longleftrightarrow> (\<forall>r \<in> set (callbacks d).
     (case done_at r of Some t \<Rightarrow> t | None \<Rightarrow> cb_created_at r) < cutoff \<longrightarrow> cb_phone r = [] \<and> cb_summary r = [])"

definition customers_gone :: "periods \<Rightarrow> instant \<Rightarrow> db \<Rightarrow> bool" where
  "customers_gone p now d \<longleftrightarrow> (\<forall>c \<in> set (customers d). \<not> old_customer p now c)"

definition payloads_gone :: "periods \<Rightarrow> instant \<Rightarrow> db \<Rightarrow> bool" where
  "payloads_gone p now d \<longleftrightarrow> (\<forall>e \<in> set (outbox d).
     (if ev_status e = SENT then \<exists>t. sent_at e = Some t \<and> t < ago now (outbox_sent_days p)
      else ev_created_at e < ago now (outbox_unsent_days p)) \<longrightarrow> is_thin (ev_payload e))"

definition events_gone :: "instant \<Rightarrow> db \<Rightarrow> bool" where
  "events_gone cutoff d \<longleftrightarrow> (\<forall>e \<in> set (outbox d). cutoff \<le> ev_created_at e)"

definition audit_gone :: "instant \<Rightarrow> db \<Rightarrow> bool" where
  "audit_gone cutoff d \<longleftrightarrow> (\<forall>a \<in> set (audit d). cutoff \<le> au_at a)"

definition recordings_gone :: "(str \<Rightarrow> bool) \<Rightarrow> instant \<Rightarrow> house \<Rightarrow> bool" where
  "recordings_gone stuck cutoff h \<longleftrightarrow> (\<forall>r \<in> set (recordings h). due_recording cutoff r \<longrightarrow> stuck (path_of (file_name r)))"

definition consents_gone :: "periods \<Rightarrow> instant \<Rightarrow> house \<Rightarrow> bool" where
  "consents_gone p now h \<longleftrightarrow> (\<forall>t \<in> set (tenants (h_db h)). \<forall>r \<in> set (consents h). \<not> old_consent p now t r)"

definition details_gone :: "periods \<Rightarrow> instant \<Rightarrow> house \<Rightarrow> bool" where
  "details_gone p now h \<longleftrightarrow> (\<forall>r \<in> set (requests h). \<not> detailed_request p now r)"

definition requests_gone :: "instant \<Rightarrow> house \<Rightarrow> bool" where
  "requests_gone now h \<longleftrightarrow> (\<forall>t \<in> set (tenants (h_db h)). \<forall>r \<in> set (requests h). \<not> old_request now t r)"

definition reached :: "(uuid \<Rightarrow> bool) \<Rightarrow> (str \<Rightarrow> bool) \<Rightarrow> periods \<Rightarrow> instant \<Rightarrow> house \<Rightarrow> (str \<times> bool) list" where
  "reached locked stuck p now h = (let d = h_db h in
     [(''allergy_notes'', \<forall>t \<in> set (tenants d). allergies_gone locked p now t d),
      (''guest_details'', guests_gone (ago now (guest_details_days p)) d),
      (''caller_ids'', callers_gone (ago now (caller_id_days p)) d),
      (''callbacks'', callbacks_gone (ago now (callback_days p)) d),
      (''customers'', customers_gone p now d),
      (''outbox_payloads'', payloads_gone p now d),
      (''outbox_rows'', events_gone (ago now (outbox_row_days p)) d),
      (''audit_entries'', audit_gone (ago now (audit_log_days p)) d),
      (''recordings'', recordings_gone stuck (ago now (recording_days p)) h),
      (''consent_answers'', consents_gone p now h),
      (''request_details'', details_gone p now h),
      (''request_rows'', requests_gone now h)])"

section \<open>Rows only fade\<close>

text \<open>What any step may do to a row: take personal fields away, or take the row away where its table
  lets rows go; a payload keeps the ids of what it is about.\<close>

definition fade_order :: "order \<Rightarrow> order \<Rightarrow> bool" where
  "fade_order r r' \<longleftrightarrow> order_gone r' = order_gone r \<and> customer_name r' \<in> {customer_name r, []} \<and> o_phone r' \<in> {o_phone r, []} \<and>
     o_note r' \<in> {o_note r, None} \<and> o_customer_id r' \<in> {o_customer_id r, None} \<and> o_address_id r' \<in> {o_address_id r, None}"

definition fade_item :: "order_item \<Rightarrow> order_item \<Rightarrow> bool" where
  "fade_item r r' \<longleftrightarrow> r' = r \<or> r' = r\<lparr>oi_note := None\<rparr>"

definition fade_table :: "reservation \<Rightarrow> reservation \<Rightarrow> bool" where
  "fade_table r r' \<longleftrightarrow> table_gone r' = table_gone r \<and> guest_name r' \<in> {guest_name r, []} \<and>
     r_phone r' \<in> {r_phone r, []} \<and> r_note r' \<in> {r_note r, None}"

definition fade_payload :: "json \<Rightarrow> json \<Rightarrow> bool" where
  "fade_payload p q \<longleftrightarrow> (\<forall>k i. jget k q = Some (JId i) \<longrightarrow> jget k p = Some (JId i)) \<and>
     (without_allergy p = p \<longrightarrow> without_allergy q = q) \<and> (is_thin p \<longrightarrow> is_thin q)"

definition fade_event :: "outbox_event \<Rightarrow> outbox_event \<Rightarrow> bool" where
  "fade_event e e' \<longleftrightarrow> ev_id e' = ev_id e \<and> ev_tenant_id e' = ev_tenant_id e \<and> ev_created_at e' = ev_created_at e \<and>
     sent_at e' = sent_at e \<and> (ev_status e' = SENT \<longleftrightarrow> ev_status e = SENT) \<and> fade_payload (ev_payload e) (ev_payload e')"

definition fade_request :: "data_request \<Rightarrow> data_request \<Rightarrow> bool" where
  "fade_request r r' \<longleftrightarrow> r' = r \<or> r' = r\<lparr>verification_note := None\<rparr>"

definition from_rows :: "('r \<Rightarrow> 'r \<Rightarrow> bool) \<Rightarrow> 'r list \<Rightarrow> 'r list \<Rightarrow> bool" where
  "from_rows R rs rs' \<longleftrightarrow> (\<forall>r' \<in> set rs'. \<exists>r \<in> set rs. R r r')"

definition fades :: "house \<Rightarrow> house \<Rightarrow> bool" where
  "fades h h' \<longleftrightarrow> (let d = h_db h; d' = h_db h' in
     tenants d' = tenants d \<and> list_all2 fade_order (orders d) (orders d') \<and>
     list_all2 fade_item (order_items d) (order_items d') \<and> list_all2 fade_table (reservations d) (reservations d') \<and>
     list_all2 (\<lambda>c c'. c' = c \<or> c' = c\<lparr>caller_id := None\<rparr>) (calls d) (calls d') \<and>
     list_all2 (\<lambda>r r'. r' = r \<or> r' = callback_gone r) (callbacks d) (callbacks d') \<and>
     set (customers d') \<subseteq> set (customers d) \<and> from_rows fade_event (outbox d) (outbox d') \<and>
     set (audit d') \<subseteq> set (audit d) \<and> set (recordings h') \<subseteq> set (recordings h) \<and>
     set (consents h') \<subseteq> set (consents h) \<and> from_rows fade_request (requests h) (requests h'))"


lemma fade_refl [simp]: "fade_order r r" "fade_item i i" "fade_table s s" "fade_payload p p" "fade_event e e" "fade_request q q"
  by (simp_all add: fade_order_def fade_table_def fade_item_def fade_payload_def fade_event_def fade_request_def)

lemma or_empty_trans: "y \<in> {x, e} \<Longrightarrow> z \<in> {y, e} \<Longrightarrow> z \<in> {x, e}"
  by auto

lemma fade_order_trans: "fade_order a b \<Longrightarrow> fade_order b c \<Longrightarrow> fade_order a c"
  unfolding fade_order_def by (elim conjE, intro conjI, simp) (erule (1) or_empty_trans)+

lemma fade_table_trans: "fade_table a b \<Longrightarrow> fade_table b c \<Longrightarrow> fade_table a c"
  unfolding fade_table_def by (elim conjE, intro conjI, simp) (erule (1) or_empty_trans)+

lemma fade_event_trans: "fade_event a b \<Longrightarrow> fade_event b c \<Longrightarrow> fade_event a c"
  by (auto simp: fade_event_def fade_payload_def)

lemma from_rows_refl: "(\<And>r. R r r) \<Longrightarrow> from_rows R rs rs"
  by (auto simp: from_rows_def)

lemma from_rows_trans: "(\<And>a b c. R a b \<Longrightarrow> R b c \<Longrightarrow> R a c) \<Longrightarrow> from_rows R xs ys \<Longrightarrow> from_rows R ys zs \<Longrightarrow> from_rows R xs zs"
  unfolding from_rows_def by metis

lemma from_rows_upd: "(\<And>r. R r r) \<Longrightarrow> (\<And>r. p r \<Longrightarrow> R r (f r)) \<Longrightarrow> from_rows R rs (upd_rows p f rs)"
  by (auto simp: from_rows_def set_upd_rows)

lemma from_rows_drop: "(\<And>r. R r r) \<Longrightarrow> from_rows R rs (drop_rows p rs)"
  by (auto simp: from_rows_def drop_rows_def)

lemma set_drop_rows [simp]: "set (drop_rows p rs) = {r \<in> set rs. \<not> p r}"
  by (auto simp: drop_rows_def)

lemma all2_upd: "(\<And>r. R r r) \<Longrightarrow> (\<And>r. p r \<Longrightarrow> R r (f r)) \<Longrightarrow> list_all2 R rs (upd_rows p f rs)"
  by (induction rs) auto

lemma all2_map: "(\<And>r. R r (f r)) \<Longrightarrow> list_all2 R rs (map f rs)"
  by (induction rs) auto

lemma fades_refl [simp]: "fades h h"
  unfolding fades_def Let_def by (intro conjI list.rel_refl from_rows_refl) simp_all

lemma all2_trans: "list_all2 R xs ys \<Longrightarrow> list_all2 R ys zs \<Longrightarrow> (\<And>u v w. R u v \<Longrightarrow> R v w \<Longrightarrow> R u w) \<Longrightarrow> list_all2 R xs zs"
  by (rule list_all2_trans [of R R R]) blast+

lemma fades_trans:
  assumes "fades a b" and "fades b c"
  shows "fades a c"
proof -
  note f = assms [unfolded fades_def Let_def]
  show ?thesis
    unfolding fades_def Let_def
  proof (intro conjI)
    show "list_all2 fade_order (orders (h_db a)) (orders (h_db c))"
      using f fade_order_trans by (blast intro: all2_trans)
    show "list_all2 fade_item (order_items (h_db a)) (order_items (h_db c))"
      by (rule all2_trans [where ys = "order_items (h_db b)"]) (use f in \<open>auto simp: fade_item_def\<close>)
    show "list_all2 fade_table (reservations (h_db a)) (reservations (h_db c))"
      using f fade_table_trans by (blast intro: all2_trans)
    show "list_all2 (\<lambda>x y. y = x \<or> y = x\<lparr>caller_id := None\<rparr>) (calls (h_db a)) (calls (h_db c))"
      by (rule all2_trans [where ys = "calls (h_db b)"]) (use f in auto)
    show "list_all2 (\<lambda>x y. y = x \<or> y = callback_gone x) (callbacks (h_db a)) (callbacks (h_db c))"
      by (rule all2_trans [where ys = "callbacks (h_db b)"]) (use f in \<open>auto simp: callback_gone_def\<close>)
    show "from_rows fade_event (outbox (h_db a)) (outbox (h_db c))"
      by (rule from_rows_trans [where ys = "outbox (h_db b)"]) (use f fade_event_trans in blast)+
    show "from_rows fade_request (requests a) (requests c)"
      by (rule from_rows_trans [where ys = "requests b"]) (use f in \<open>auto simp: fade_request_def\<close>)
  qed (use f in auto)
qed


section \<open>Payloads\<close>

lemma map_of_filtered: "map_of (List.map_filter (\<lambda>k. map_option (Pair k) (g k)) ks) k = (if k \<in> set ks then g k else None)"
  by (induction ks) (auto simp: map_filter_simps split: option.split)

lemma jget_thin: "jget k (thin_payload p) = (if k \<in> set OUTBOX_KEEP then kept_value k p else None)"
  by (simp add: thin_payload_def map_of_filtered)

lemma not_kept: "''note'' \<notin> set OUTBOX_KEEP" "''items'' \<notin> set OUTBOX_KEEP"
  by (simp_all add: OUTBOX_KEEP_def)

lemma is_thin_thin [simp]: "is_thin (thin_payload p)"
  by (auto simp: is_thin_def thin_payload_def list_all_iff map_filter_def kept_value_def split: option.splits if_splits)

lemma thin_no_allergy: "is_thin p \<Longrightarrow> without_allergy p = p"
proof (cases p)
  case (JObj kvs)
  assume "is_thin p"
  then have "\<forall>(k, v) \<in> set kvs. k \<noteq> ''note'' \<and> k \<noteq> ''items''"
    using not_kept by (auto simp: JObj is_thin_def list_all_iff)
  then show ?thesis by (auto simp: JObj clean_key_def intro!: map_idI)
qed simp_all

lemma clean_note_id [simp]: "clear_note (clear_note v) = clear_note v" "clear_note v = JId i \<longleftrightarrow> v = JId i"
  by (cases v; simp)+

lemma clean_key_id [simp]: "clean_key (clean_key kvs) = clean_key kvs"
  by (simp add: clean_key_def comp_def case_prod_beta)

lemma clean_items_id [simp]: "clean_items (clean_items v) = clean_items v" "clean_items v = JId i \<longleftrightarrow> v = JId i"
proof -
  have "clean_item (clean_item x) = clean_item x" for x by (cases x) simp_all
  then show "clean_items (clean_items v) = clean_items v" by (cases v) (simp_all add: comp_def)
qed (cases v; simp)

lemma without_allergy_id [simp]: "without_allergy (without_allergy p) = without_allergy p"
  by (cases p) (simp_all add: clean_key_def comp_def case_prod_beta)

lemma jget_without: "jget k (without_allergy p) = Some (JId i) \<Longrightarrow> jget k p = Some (JId i)"
proof (cases p)
  case (JObj kvs)
  have "map_of (map (\<lambda>x. (fst x, g (fst x) (snd x))) kvs) k = map_option (g k) (map_of kvs k)" for g :: "str \<Rightarrow> json \<Rightarrow> json"
    by (induction kvs) auto
  from this [of "\<lambda>k v. if k = ''items'' then clean_items (if k = ''note'' then clear_note v else v)
      else if k = ''note'' then clear_note v else v"]
  have "jget k (without_allergy p) = map_option (\<lambda>v. if k = ''items'' then clean_items (if k = ''note'' then clear_note v else v)
      else if k = ''note'' then clear_note v else v) (jget k p)"
    by (simp add: JObj clean_key_def comp_def case_prod_beta)
  moreover assume "jget k (without_allergy p) = Some (JId i)"
  ultimately obtain v where v: "jget k p = Some v"
    and "(if k = ''items'' then clean_items (if k = ''note'' then clear_note v else v)
      else if k = ''note'' then clear_note v else v) = JId i" by (cases "jget k p") simp_all
  from this(2) have "v = JId i" by (cases "k = ''items''"; cases "k = ''note''"; simp)
  with v show ?thesis by simp
qed simp_all

lemma fade_without [simp]: "fade_payload p (without_allergy p)"
  by (auto simp: fade_payload_def thin_no_allergy dest: jget_without)

lemma fade_thin [simp]: "fade_payload p (thin_payload p)"
  by (auto simp: fade_payload_def jget_thin kept_value_def thin_no_allergy split: option.splits if_splits)


section \<open>Every step lets rows fade\<close>

lemma fade_order_gone [simp]: "fade_order r (order_gone r)" "fade_order r (r\<lparr>o_note := None\<rparr>)"
  by (simp_all add: fade_order_def order_gone_def)

lemma fade_table_gone [simp]: "fade_table r (table_gone r)" "fade_table r (r\<lparr>r_note := None\<rparr>)"
  by (simp_all add: fade_table_def table_gone_def)

lemma fade_item_gone [simp]: "fade_item r (r\<lparr>oi_note := None\<rparr>)"
  by (simp add: fade_item_def)

text \<open>A step on the database alone, and a loop over the tenants.\<close>

lemma fades_db: "fades h (h\<lparr>h_db := d\<rparr>) \<Longrightarrow> f (h_db h) = (d, n) \<Longrightarrow> on_db f h = (h', c) \<Longrightarrow> fades h h'"
  by (simp add: on_db_def)

lemma fades_tables:
  assumes "list_all2 fade_order (orders (h_db h)) os" and "list_all2 fade_item (order_items (h_db h)) is"
    and "list_all2 fade_table (reservations (h_db h)) ts" and "from_rows fade_event (outbox (h_db h)) es"
  shows "fades h (h\<lparr>h_db := (h_db h)\<lparr>order_items := is, orders := os, reservations := ts, outbox := es\<rparr>\<rparr>)"
  using assms by (simp add: fades_def Let_def list.rel_refl from_rows_refl)

lemma fades_allergy_of: "fades h (h\<lparr>h_db := fst (allergy_notes_of locked p now t (h_db h))\<rparr>)"
  unfolding allergy_notes_of_def Let_def fst_conv
  by (rule fades_tables) (auto intro!: all2_upd from_rows_upd simp: fade_event_def)

lemma per_tenant_fades:
  assumes "\<And>t s. R s (fst (f t s))" and "\<And>s. R s s" and "\<And>a b c. R a b \<Longrightarrow> R b c \<Longrightarrow> R a c"
  shows "R s (fst (per_tenant f ts s))"
proof (induction ts arbitrary: s)
  case (Cons t ts)
  then show ?case using assms(1) [of s t] assms(3) by (fastforce simp: case_prod_beta Let_def)
qed (simp add: assms(2))

lemma fades_allergy: "fades h (fst (on_db (allergy_notes locked p now) h))"
proof -
  let ?R = "\<lambda>d d'. \<forall>h. h_db h = d \<longrightarrow> fades h (h\<lparr>h_db := d'\<rparr>)"
  have "?R (h_db h) (fst (per_tenant (allergy_notes_of locked p now) (tenants (h_db h)) (h_db h)))"
  proof (rule per_tenant_fades [where R = ?R])
    show "?R s (fst (allergy_notes_of locked p now t s))" for t s using fades_allergy_of by blast
    show "?R s s" for s by auto
    show "?R a c" if "?R a b" "?R b c" for a b c
      using that fades_trans by (metis (no_types, lifting) house.select_convs(1) house.surjective house.update_convs(1))
  qed
  then show ?thesis by (simp add: on_db_def allergy_notes_def case_prod_beta Let_def)
qed

lemma fades_guests: "fades h (fst (on_db (guest_details_step c) h))"
  by (simp add: on_db_def guest_details_step_def Let_def fades_def list.rel_refl from_rows_refl all2_upd)

lemma fades_callers: "fades h (fst (on_db (caller_ids_step c) h))"
  by (simp add: on_db_def caller_ids_step_def fades_def Let_def list.rel_refl from_rows_refl all2_upd)

lemma fades_callbacks: "fades h (fst (on_db (callbacks_step c) h))"
  by (simp add: on_db_def callbacks_step_def fades_def Let_def list.rel_refl from_rows_refl all2_upd)

lemma fades_customers: "fades h (fst (on_db (customers_step p now) h))"
proof -
  have "list_all2 fade_order rs (map (\<lambda>r. r\<lparr>o_customer_id := cut ids (o_customer_id r), o_address_id := cut ads (o_address_id r)\<rparr>) rs)"
    if "cut = (\<lambda>gone link. case link of None \<Rightarrow> None | Some i \<Rightarrow> if i \<in> set gone then None else Some i)"
    for rs :: "order list" and ids ads :: "uuid list" and cut
    by (rule all2_map) (simp add: that fade_order_def order_gone_def split: option.split)
  from this [OF refl] show ?thesis
    by (auto simp: on_db_def customers_step_def drop_customers_def fades_def Let_def list.rel_refl from_rows_refl)
qed

lemma fades_payloads: "fades h (fst (on_db (outbox_payloads_step p now) h))"
proof -
  have "from_rows fade_event es (upd_rows q (expire n) (upd_rows s (\<lambda>e. e\<lparr>ev_payload := thin_payload (ev_payload e)\<rparr>) es))"
    if "\<And>e. q e \<Longrightarrow> ev_status e \<noteq> SENT" for es q s n
    by (rule from_rows_trans [OF fade_event_trans from_rows_upd from_rows_upd])
      (auto simp: fade_event_def expire_def dest: that)
  moreover have "ev_status e \<noteq> SENT" if "unsent_copy c e" for c e using that by (simp add: unsent_copy_def)
  ultimately have "from_rows fade_event es (upd_rows (unsent_copy c) (expire n)
      (upd_rows s (\<lambda>e. e\<lparr>ev_payload := thin_payload (ev_payload e)\<rparr>) es))" for es c s n by blast
  then show ?thesis
    by (simp add: on_db_def outbox_payloads_step_def fades_def Let_def list.rel_refl from_rows_refl)
qed

lemma fades_events: "fades h (fst (on_db (outbox_rows_step c) h))"
  by (simp add: on_db_def outbox_rows_step_def fades_def Let_def list.rel_refl from_rows_refl from_rows_drop)

lemma fades_audit: "fades h (fst (on_db (audit_step c) h))"
  by (auto simp: on_db_def audit_step_def fades_def Let_def list.rel_refl from_rows_refl)

lemma fades_recordings: "fades h (fst (recordings_step stuck c h))"
  by (auto simp: recordings_step_def case_prod_beta fades_def Let_def list.rel_refl from_rows_refl)

lemma fades_consents: "fades h (fst (each_tenant name (consents_of p now) h))"
proof -
  have "fades h (fst (per_tenant (consents_of p now) ts h))" for ts
    by (rule per_tenant_fades [OF _ fades_refl fades_trans])
      (auto simp: consents_of_def fades_def Let_def list.rel_refl from_rows_refl)
  then show ?thesis by (simp add: each_tenant_def case_prod_beta)
qed

lemma fades_details: "fades h (fst (request_details_step p now h))"
  by (simp add: request_details_step_def fades_def Let_def list.rel_refl from_rows_refl from_rows_upd fade_request_def)

lemma fades_requests: "fades h (fst (each_tenant name (request_rows_of now) h))"
proof -
  have "fades h (fst (per_tenant (request_rows_of now) ts h))" for ts
    by (rule per_tenant_fades [OF _ fades_refl fades_trans])
      (auto simp: request_rows_of_def fades_def Let_def list.rel_refl from_rows_refl from_rows_drop)
  then show ?thesis by (simp add: each_tenant_def case_prod_beta)
qed

lemmas step_fades = fades_allergy fades_guests fades_callers fades_callbacks fades_customers fades_payloads
  fades_events fades_audit fades_recordings fades_consents fades_details fades_requests


section \<open>What was reached stays\<close>

lemma fade_order_same: "fade_order r r' \<Longrightarrow> o_id r' = o_id r \<and> o_tenant_id r' = o_tenant_id r \<and> order_day r' = order_day r"
proof -
  assume "fade_order r r'"
  then have e: "order_gone r' = order_gone r" by (simp add: fade_order_def)
  have "o_id (order_gone x) = o_id x" "o_tenant_id (order_gone x) = o_tenant_id x" "order_day (order_gone x) = order_day x" for x
    by (simp_all add: order_gone_def order_day_def split: option.split)
  with e show ?thesis by metis
qed

lemma fade_table_same: "fade_table r r' \<Longrightarrow> r_id r' = r_id r \<and> r_tenant_id r' = r_tenant_id r \<and> reserved_for r' = reserved_for r"
proof -
  assume "fade_table r r'"
  then have e: "table_gone r' = table_gone r" by (simp add: fade_table_def)
  have "r_id (table_gone x) = r_id x" "r_tenant_id (table_gone x) = r_tenant_id x" "reserved_for (table_gone x) = reserved_for x" for x
    by (simp_all add: table_gone_def)
  with e show ?thesis by metis
qed

lemma all2_filter_map: "list_all2 R xs ys \<Longrightarrow> (\<And>x y. R x y \<Longrightarrow> g y = g x \<and> q y = q x) \<Longrightarrow> map g (filter q ys) = map g (filter q xs)"
  by (induction rule: list_all2_induct) auto

lemma all2_back: "list_all2 R xs ys \<Longrightarrow> y \<in> set ys \<Longrightarrow> \<exists>x \<in> set xs. R x y"
  by (metis in_set_conv_nth list_all2_conv_all_nth)

lemma fades_ids:
  assumes "fades h h'"
  shows "ids_of_orders (old_order t c) (h_db h') = ids_of_orders (old_order t c) (h_db h)"
    and "ids_of_tables (old_table t c) (h_db h') = ids_of_tables (old_table t c) (h_db h)"
proof -
  have "list_all2 fade_order (orders (h_db h)) (orders (h_db h'))" "list_all2 fade_table (reservations (h_db h)) (reservations (h_db h'))"
    using assms by (simp_all add: fades_def Let_def)
  from all2_filter_map [OF this(1), of o_id "old_order t c"] all2_filter_map [OF this(2), of r_id "old_table t c"]
  show "ids_of_orders (old_order t c) (h_db h') = ids_of_orders (old_order t c) (h_db h)"
    and "ids_of_tables (old_table t c) (h_db h') = ids_of_tables (old_table t c) (h_db h)"
    using fade_order_same fade_table_same by (simp_all add: ids_of_orders_def ids_of_tables_def old_order_def old_table_def)
qed

lemma fades_rows:
  assumes "fades h h'"
  shows "r' \<in> set (orders (h_db h')) \<Longrightarrow> \<exists>r \<in> set (orders (h_db h)). fade_order r r'"
    and "i' \<in> set (order_items (h_db h')) \<Longrightarrow> \<exists>i \<in> set (order_items (h_db h)). fade_item i i'"
    and "s' \<in> set (reservations (h_db h')) \<Longrightarrow> \<exists>s \<in> set (reservations (h_db h)). fade_table s s'"
    and "c' \<in> set (calls (h_db h')) \<Longrightarrow> \<exists>c \<in> set (calls (h_db h)). c' = c \<or> c' = c\<lparr>caller_id := None\<rparr>"
    and "b' \<in> set (callbacks (h_db h')) \<Longrightarrow> \<exists>b \<in> set (callbacks (h_db h)). b' = b \<or> b' = callback_gone b"
    and "e' \<in> set (outbox (h_db h')) \<Longrightarrow> \<exists>e \<in> set (outbox (h_db h)). fade_event e e'"
    and "q' \<in> set (requests h') \<Longrightarrow> \<exists>q \<in> set (requests h). fade_request q q'"
    and "tenants (h_db h') = tenants (h_db h)"
proof -
  note f = assms [unfolded fades_def Let_def from_rows_def]
  from f have o: "list_all2 fade_order (orders (h_db h)) (orders (h_db h'))"
    and i: "list_all2 fade_item (order_items (h_db h)) (order_items (h_db h'))"
    and s: "list_all2 fade_table (reservations (h_db h)) (reservations (h_db h'))"
    and c: "list_all2 (\<lambda>c c'. c' = c \<or> c' = c\<lparr>caller_id := None\<rparr>) (calls (h_db h)) (calls (h_db h'))"
    and b: "list_all2 (\<lambda>r r'. r' = r \<or> r' = callback_gone r) (callbacks (h_db h)) (callbacks (h_db h'))" by simp_all
  show "r' \<in> set (orders (h_db h')) \<Longrightarrow> \<exists>r \<in> set (orders (h_db h)). fade_order r r'" by (rule all2_back [OF o])
  show "i' \<in> set (order_items (h_db h')) \<Longrightarrow> \<exists>i \<in> set (order_items (h_db h)). fade_item i i'" by (rule all2_back [OF i])
  show "s' \<in> set (reservations (h_db h')) \<Longrightarrow> \<exists>s \<in> set (reservations (h_db h)). fade_table s s'" by (rule all2_back [OF s])
  show "c' \<in> set (calls (h_db h')) \<Longrightarrow> \<exists>c \<in> set (calls (h_db h)). c' = c \<or> c' = c\<lparr>caller_id := None\<rparr>" by (rule all2_back [OF c])
  show "b' \<in> set (callbacks (h_db h')) \<Longrightarrow> \<exists>b \<in> set (callbacks (h_db h)). b' = b \<or> b' = callback_gone b" by (rule all2_back [OF b])
qed (use assms in \<open>simp_all add: fades_def Let_def from_rows_def\<close>)

lemma note_stays: "fade_order r r' \<Longrightarrow> \<not> allergy_note (o_note r) \<Longrightarrow> \<not> allergy_note (o_note r')"
  "fade_item i i' \<Longrightarrow> \<not> allergy_note (oi_note i) \<Longrightarrow> \<not> allergy_note (oi_note i')"
  "fade_table s s' \<Longrightarrow> \<not> allergy_note (r_note s) \<Longrightarrow> \<not> allergy_note (r_note s')"
  by (auto simp: fade_order_def fade_item_def fade_table_def allergy_note_def)

lemma names_row_iff: "names_row k ids p \<longleftrightarrow> (\<exists>i. jget k p = Some (JId i) \<and> i \<in> set ids)"
  by (simp add: names_row_def split: option.split json.split)

lemma about_stays: "fade_event e e' \<Longrightarrow> about_rows tid os ts e' \<Longrightarrow> about_rows tid os ts e"
  by (auto simp: fade_event_def fade_payload_def about_rows_def names_row_iff)

lemma allergies_stay:
  assumes f: "fades h h'" and a: "allergies_gone locked p now t (h_db h)"
  shows "allergies_gone locked p now t (h_db h')"
proof -
  let ?c = "allergy_cutoff p now t"
  let ?os = "ids_of_orders (old_order t ?c) (h_db h)" and ?ts = "ids_of_tables (old_table t ?c) (h_db h)"
  from a have go: "\<And>r. r \<in> set (orders (h_db h)) \<Longrightarrow> o_id r \<in> set ?os \<Longrightarrow> \<not> allergy_note (o_note r)"
    and gi: "\<And>r. r \<in> set (order_items (h_db h)) \<Longrightarrow> oi_order_id r \<in> set ?os \<Longrightarrow> \<not> allergy_note (oi_note r)"
    and gt: "\<And>r. r \<in> set (reservations (h_db h)) \<Longrightarrow> r_id r \<in> set ?ts \<Longrightarrow> \<not> allergy_note (r_note r)"
    and ge: "\<And>e. e \<in> set (outbox (h_db h)) \<Longrightarrow> about_rows (t_id t) ?os ?ts e \<Longrightarrow> \<not> locked (ev_id e) \<Longrightarrow>
      without_allergy (ev_payload e) = ev_payload e" by (simp_all add: allergies_gone_def Let_def)
  have "\<not> allergy_note (o_note r')" if r': "r' \<in> set (orders (h_db h'))" "o_id r' \<in> set ?os" for r'
  proof -
    obtain r where r: "r \<in> set (orders (h_db h))" "fade_order r r'" using fades_rows(1) [OF f r'(1)] by blast
    then have "o_id r' = o_id r" using fade_order_same by blast
    then show ?thesis using note_stays(1) [OF r(2)] go [OF r(1)] r'(2) by simp
  qed
  moreover have "\<not> allergy_note (oi_note i')" if i': "i' \<in> set (order_items (h_db h'))" "oi_order_id i' \<in> set ?os" for i'
  proof -
    obtain i where i: "i \<in> set (order_items (h_db h))" "fade_item i i'" using fades_rows(2) [OF f i'(1)] by blast
    then have "oi_order_id i' = oi_order_id i" by (auto simp: fade_item_def)
    then show ?thesis using note_stays(2) [OF i(2)] gi [OF i(1)] i'(2) by simp
  qed
  moreover have "\<not> allergy_note (r_note s')" if s': "s' \<in> set (reservations (h_db h'))" "r_id s' \<in> set ?ts" for s'
  proof -
    obtain s where s: "s \<in> set (reservations (h_db h))" "fade_table s s'" using fades_rows(3) [OF f s'(1)] by blast
    then have "r_id s' = r_id s" using fade_table_same by blast
    then show ?thesis using note_stays(3) [OF s(2)] gt [OF s(1)] s'(2) by simp
  qed
  moreover have "without_allergy (ev_payload e') = ev_payload e'"
    if e': "e' \<in> set (outbox (h_db h'))" "about_rows (t_id t) ?os ?ts e'" "\<not> locked (ev_id e')" for e'
  proof -
    obtain e where e: "e \<in> set (outbox (h_db h))" "fade_event e e'" using fades_rows(6) [OF f e'(1)] by blast
    then have "without_allergy (ev_payload e) = ev_payload e"
      using ge [OF e(1) about_stays [OF e(2) e'(2)]] e'(3) by (simp add: fade_event_def)
    then show ?thesis using e(2) by (simp add: fade_event_def fade_payload_def)
  qed
  ultimately show ?thesis by (simp add: allergies_gone_def Let_def fades_ids [OF f])
qed

lemma order_gone_stays: "fade_order r r' \<Longrightarrow> order_gone r = r \<Longrightarrow> order_gone r' = r'"
proof -
  assume f: "fade_order r r'" and e: "order_gone r = r"
  have "customer_name (order_gone r) = [] \<and> o_phone (order_gone r) = [] \<and> o_note (order_gone r) = None \<and>
      o_customer_id (order_gone r) = None \<and> o_address_id (order_gone r) = None" by (simp add: order_gone_def)
  with e have "customer_name r = []" "o_phone r = []" "o_note r = None" "o_customer_id r = None" "o_address_id r = None"
    by simp_all
  then have "customer_name r' = []" "o_phone r' = []" "o_note r' = None" "o_customer_id r' = None" "o_address_id r' = None"
    using f by (simp_all add: fade_order_def)
  then show ?thesis by (simp add: order_gone_def)
qed


text \<open>Every goal but the recordings' is kept by any fading, and theirs because rows only go.\<close>

lemma guests_stay: "fades h h' \<Longrightarrow> guests_gone c (h_db h) \<Longrightarrow> guests_gone c (h_db h')"
proof -
  assume f: "fades h h'" and g: "guests_gone c (h_db h)"
  have "order_gone r' = r' \<and> (\<forall>i' \<in> set (order_items (h_db h')). oi_order_id i' = o_id r' \<longrightarrow> oi_note i' = None)"
    if r': "r' \<in> set (orders (h_db h'))" "order_day r' < c" for r'
  proof -
    obtain r where r: "r \<in> set (orders (h_db h))" "fade_order r r'" using fades_rows(1) [OF f r'(1)] by blast
    then have o: "order_day r < c" "o_id r' = o_id r" using r'(2) fade_order_same [OF r(2)] by simp_all
    have "oi_note i' = None" if i': "i' \<in> set (order_items (h_db h'))" "oi_order_id i' = o_id r'" for i'
    proof -
      obtain i where "i \<in> set (order_items (h_db h))" "fade_item i i'" using fades_rows(2) [OF f i'(1)] by blast
      then show ?thesis using g r(1) o i'(2) by (auto simp: guests_gone_def fade_item_def)
    qed
    then show ?thesis using g r o order_gone_stays [OF r(2)] by (simp add: guests_gone_def)
  qed
  moreover have "guest_name s' = [] \<and> r_phone s' = [] \<and> r_note s' = None"
    if s': "s' \<in> set (reservations (h_db h'))" "reserved_for s' < c" for s'
  proof -
    obtain s where s: "s \<in> set (reservations (h_db h))" "fade_table s s'" using fades_rows(3) [OF f s'(1)] by blast
    then have "guest_name s = [] \<and> r_phone s = [] \<and> r_note s = None"
      using g s'(2) fade_table_same [OF s(2)] by (simp add: guests_gone_def)
    then show ?thesis using s(2) by (auto simp: fade_table_def)
  qed
  ultimately show ?thesis by (simp add: guests_gone_def)
qed

lemma callers_stay: "fades h h' \<Longrightarrow> callers_gone c (h_db h) \<Longrightarrow> callers_gone c (h_db h')"
  unfolding callers_gone_def by (fastforce dest: fades_rows(4))

lemma callbacks_stay: "fades h h' \<Longrightarrow> callbacks_gone c (h_db h) \<Longrightarrow> callbacks_gone c (h_db h')"
  unfolding callbacks_gone_def by (fastforce dest: fades_rows(5) simp: callback_gone_def)

lemma customers_stay: "fades h h' \<Longrightarrow> customers_gone p now (h_db h) \<Longrightarrow> customers_gone p now (h_db h')"
  by (auto simp: customers_gone_def fades_def Let_def)

lemma payloads_stay:
  assumes f: "fades h h'" and g: "payloads_gone p now (h_db h)"
  shows "payloads_gone p now (h_db h')"
  unfolding payloads_gone_def
proof (intro ballI impI)
  fix e'
  assume e': "e' \<in> set (outbox (h_db h'))" and due: "if ev_status e' = SENT then \<exists>t. sent_at e' = Some t \<and> t < ago now (outbox_sent_days p)
    else ev_created_at e' < ago now (outbox_unsent_days p)"
  obtain e where e: "e \<in> set (outbox (h_db h))" "fade_event e e'" using fades_rows(6) [OF f e'] by blast
  then have "is_thin (ev_payload e)" using g due by (auto simp: payloads_gone_def fade_event_def split: if_splits)
  then show "is_thin (ev_payload e')" using e(2) by (simp add: fade_event_def fade_payload_def)
qed

lemma events_stay: "fades h h' \<Longrightarrow> events_gone c (h_db h) \<Longrightarrow> events_gone c (h_db h')"
  unfolding events_gone_def by (fastforce dest: fades_rows(6) simp: fade_event_def)

lemma audit_stays: "fades h h' \<Longrightarrow> audit_gone c (h_db h) \<Longrightarrow> audit_gone c (h_db h')"
  by (auto simp: audit_gone_def fades_def Let_def)

lemma recordings_stay: "fades h h' \<Longrightarrow> recordings_gone stuck c h \<Longrightarrow> recordings_gone stuck c h'"
  by (auto simp: recordings_gone_def fades_def Let_def)

lemma consents_stay: "fades h h' \<Longrightarrow> consents_gone p now h \<Longrightarrow> consents_gone p now h'"
  by (auto simp: consents_gone_def fades_def Let_def)

lemma details_stay: "fades h h' \<Longrightarrow> details_gone p now h \<Longrightarrow> details_gone p now h'"
  unfolding details_gone_def by (fastforce dest: fades_rows(7) simp: fade_request_def detailed_request_def)

lemma requests_stay: "fades h h' \<Longrightarrow> requests_gone now h \<Longrightarrow> requests_gone now h'"
  unfolding requests_gone_def
  using fades_rows(8) by (fastforce dest: fades_rows(7) simp: fade_request_def old_request_def)

section \<open>Every step reaches its goal\<close>

lemma guests_reach: "guests_gone c (fst (guest_details_step c d))"
proof -
  have "order_gone (order_gone r) = order_gone r" "order_day (order_gone r) = order_day r" "o_id (order_gone r) = o_id r" for r
    by (simp_all add: order_gone_def order_day_def split: option.split)
  moreover have "order_gone r = r" if "\<not> named_order c r" "order_day r < c" for r
    using that by (simp add: named_order_def order_gone_def)
  ultimately show ?thesis
    by (auto simp: guests_gone_def guest_details_step_def Let_def set_upd_rows ids_of_orders_def table_gone_def named_table_def)
qed

lemma callers_reach: "callers_gone c (fst (caller_ids_step c d))"
  by (auto simp: callers_gone_def caller_ids_step_def set_upd_rows known_caller_def)

lemma callbacks_reach: "callbacks_gone c (fst (callbacks_step c d))"
  by (auto simp: callbacks_gone_def callbacks_step_def set_upd_rows named_callback_def callback_gone_def)

lemma customers_reach: "customers_gone p now (fst (customers_step p now d))"
  by (simp add: customers_gone_def customers_step_def drop_customers_def Let_def)

lemma payloads_reach: "payloads_gone p now (fst (outbox_payloads_step p now d))"
  by (auto simp: payloads_gone_def outbox_payloads_step_def Let_def set_upd_rows sent_copy_def unsent_copy_def expire_def
      split: if_splits)

lemma events_reach: "events_gone c (fst (outbox_rows_step c d))"
  by (auto simp: events_gone_def outbox_rows_step_def)

lemma audit_reach: "audit_gone c (fst (audit_step c d))"
  by (auto simp: audit_gone_def audit_step_def)

lemma recordings_reach: "recordings_gone stuck c (fst (recordings_step stuck c h))"
proof -
  have "r \<in> set (fst (delete_recordings stuck rs files)) \<or> stuck (path_of (file_name r))" if "r \<in> set rs" for r rs files
    using that by (induction rs arbitrary: files) (auto simp: delete_file_def case_prod_beta Let_def)
  from this [of _ "filter (due_recording c) (recordings h)" "folder h"]
  show ?thesis by (fastforce simp: recordings_gone_def recordings_step_def case_prod_beta)
qed

lemma details_reach: "details_gone p now (fst (request_details_step p now h))"
  by (auto simp: details_gone_def request_details_step_def set_upd_rows detailed_request_def)

text \<open>A loop over the tenants reaches the goal of each of them when no turn undoes another's.\<close>

lemma per_tenant_reach:
  assumes "\<And>t s. Q t (fst (f t s))" and "\<And>t u s. Q t s \<Longrightarrow> Q t (fst (f u s))"
  shows "\<forall>t \<in> set ts. Q t (fst (per_tenant f ts s))"
proof -
  have keep: "Q t s \<Longrightarrow> Q t (fst (per_tenant f ts s))" for t s
    by (induction ts arbitrary: s) (auto simp: case_prod_beta Let_def dest: assms(2))
  show ?thesis
  proof (induction ts arbitrary: s)
    case (Cons u ts)
    have "Q t s \<Longrightarrow> Q t (fst (per_tenant f us s))" for t us s
      by (induction us arbitrary: s) (auto simp: case_prod_beta Let_def dest: assms(2))
    with Cons assms(1) show ?case by (auto simp: case_prod_beta Let_def)
  qed simp
qed


lemma fades_allergy_db: "h_db h = d \<Longrightarrow> fades h (h\<lparr>h_db := fst (allergy_notes_of locked p now t d)\<rparr>)"
  using fades_allergy_of by blast

lemma allergies_of_reach: "allergies_gone locked p now t (fst (allergy_notes_of locked p now t d))"
proof -
  let ?c = "allergy_cutoff p now t" and ?d = "fst (allergy_notes_of locked p now t d)"
  define h where "h = \<lparr>h_db = d, recordings = [], consents = [], requests = [], folder = []\<rparr>"
  have "fades h (h\<lparr>h_db := ?d\<rparr>)" by (rule fades_allergy_db) (simp add: h_def)
  from fades_ids [OF this] have os: "ids_of_orders (old_order t ?c) ?d = ids_of_orders (old_order t ?c) d"
    and ts: "ids_of_tables (old_table t ?c) ?d = ids_of_tables (old_table t ?c) d" by (simp_all add: h_def)
  have "about_rows tid os ts e" if "about_rows tid os ts (e\<lparr>ev_payload := without_allergy (ev_payload e)\<rparr>)" for tid os ts e
    by (rule about_stays [OF _ that]) (simp add: fade_event_def)
  then show ?thesis
    unfolding allergies_gone_def Let_def os ts
    by (auto simp: allergy_notes_of_def Let_def set_upd_rows copy_with_allergy_def)
qed

lemma allergies_reach:
  "\<forall>t \<in> set (tenants d). allergies_gone locked p now t (fst (allergy_notes locked p now d))"
proof -
  have "\<forall>t \<in> set ts. allergies_gone locked p now t (fst (per_tenant (allergy_notes_of locked p now) ts d))" for ts
  proof (rule per_tenant_reach)
    show "allergies_gone locked p now t (fst (allergy_notes_of locked p now t s))" for t s by (rule allergies_of_reach)
    fix t u s
    assume a: "allergies_gone locked p now t s"
    define h where "h = \<lparr>h_db = s, recordings = [], consents = [], requests = [], folder = []\<rparr>"
    have "fades h (h\<lparr>h_db := fst (allergy_notes_of locked p now u s)\<rparr>)" by (rule fades_allergy_db) (simp add: h_def)
    from allergies_stay [OF this] a show "allergies_gone locked p now t (fst (allergy_notes_of locked p now u s))"
      by (simp add: h_def)
  qed
  then show ?thesis by (simp add: allergy_notes_def case_prod_beta)
qed

lemma consents_reach: "consents_gone p now (fst (each_tenant name (consents_of p now) h))"
proof -
  have "\<forall>t \<in> set ts. \<forall>r \<in> set (consents (fst (per_tenant (consents_of p now) ts h))). \<not> old_consent p now t r" for ts
    by (rule per_tenant_reach) (auto simp: consents_of_def)
  moreover have "tenants (h_db (fst (each_tenant name (consents_of p now) h))) = tenants (h_db h)"
    using fades_rows(8) [OF fades_consents] .
  ultimately show ?thesis by (simp add: consents_gone_def each_tenant_def case_prod_beta)
qed

lemma requests_reach: "requests_gone now (fst (each_tenant name (request_rows_of now) h))"
proof -
  have "\<forall>t \<in> set ts. \<forall>r \<in> set (requests (fst (per_tenant (request_rows_of now) ts h))). \<not> old_request now t r" for ts
    by (rule per_tenant_reach) (auto simp: request_rows_of_def)
  moreover have "tenants (h_db (fst (each_tenant name (request_rows_of now) h))) = tenants (h_db h)"
    using fades_rows(8) [OF fades_requests] .
  ultimately show ?thesis by (simp add: requests_gone_def each_tenant_def case_prod_beta)
qed

section \<open>The pass\<close>

text \<open>Steps that let rows fade, each with a goal that fading keeps: after the pass every goal of a step
  that did not fail is reached.\<close>

locale fading_steps =
  fixes goal :: "str \<Rightarrow> house \<Rightarrow> bool" and steps :: "(str \<times> (house \<Rightarrow> house \<times> counts)) list"
  assumes step_fades: "(n, f) \<in> set steps \<Longrightarrow> fades h (fst (f h))"
    and step_reaches: "(n, f) \<in> set steps \<Longrightarrow> goal n (fst (f h))"
    and goal_stays: "n \<in> fst ` set steps \<Longrightarrow> fades h h' \<Longrightarrow> goal n h \<Longrightarrow> goal n h'"
begin

lemma run_fades: "set fs \<subseteq> set steps \<Longrightarrow> fades h (fst (run_steps fails fs h))"
proof (induction fs arbitrary: h)
  case (Cons x fs)
  obtain n f where x: "x = (n, f)" by (cases x)
  have "fades h (fst (f h))" by (rule step_fades [of n f]) (use Cons.prems in \<open>simp add: x\<close>)
  moreover have "fades k (fst (run_steps fails fs k))" for k using Cons by simp
  ultimately show ?case using fades_trans by (auto simp: x case_prod_beta Let_def)
qed simp

lemma run_reaches: "set fs \<subseteq> set steps \<Longrightarrow> (n, f) \<in> set fs \<Longrightarrow> \<not> fails n \<Longrightarrow> goal n (fst (run_steps fails fs h))"
proof (induction fs arbitrary: h)
  case (Cons x fs)
  obtain m g where x: "x = (m, g)" by (cases x)
  show ?case
  proof (cases "x = (n, f)")
    case True
    then have "goal n (fst (g h))" using step_reaches Cons.prems by (simp add: x)
    moreover have "fades (fst (g h)) (fst (run_steps fails fs (fst (g h))))" using run_fades Cons.prems(1) by simp
    moreover have "n \<in> fst ` set steps" using Cons.prems by force
    ultimately have "goal n (fst (run_steps fails fs (fst (g h))))" using goal_stays by blast
    then show ?thesis using True Cons.prems(3) by (simp add: x case_prod_beta Let_def)
  next
    case False
    then have "goal n (fst (run_steps fails fs k))" for k using Cons by simp
    then show ?thesis by (simp add: x case_prod_beta Let_def)
  qed
qed simp

end

definition goal_of :: "(uuid \<Rightarrow> bool) \<Rightarrow> (str \<Rightarrow> bool) \<Rightarrow> periods \<Rightarrow> instant \<Rightarrow> str \<Rightarrow> house \<Rightarrow> bool" where
  "goal_of locked stuck p now n h = (map_of (reached locked stuck p now h) n = Some True)"

lemma goal_of_eqs:
  "goal_of locked stuck p now ''allergy_notes'' h \<longleftrightarrow> (\<forall>t \<in> set (tenants (h_db h)). allergies_gone locked p now t (h_db h))"
  "goal_of locked stuck p now ''guest_details'' h \<longleftrightarrow> guests_gone (ago now (guest_details_days p)) (h_db h)"
  "goal_of locked stuck p now ''caller_ids'' h \<longleftrightarrow> callers_gone (ago now (caller_id_days p)) (h_db h)"
  "goal_of locked stuck p now ''callbacks'' h \<longleftrightarrow> callbacks_gone (ago now (callback_days p)) (h_db h)"
  "goal_of locked stuck p now ''customers'' h \<longleftrightarrow> customers_gone p now (h_db h)"
  "goal_of locked stuck p now ''outbox_payloads'' h \<longleftrightarrow> payloads_gone p now (h_db h)"
  "goal_of locked stuck p now ''outbox_rows'' h \<longleftrightarrow> events_gone (ago now (outbox_row_days p)) (h_db h)"
  "goal_of locked stuck p now ''audit_entries'' h \<longleftrightarrow> audit_gone (ago now (audit_log_days p)) (h_db h)"
  "goal_of locked stuck p now ''recordings'' h \<longleftrightarrow> recordings_gone stuck (ago now (recording_days p)) h"
  "goal_of locked stuck p now ''consent_answers'' h \<longleftrightarrow> consents_gone p now h"
  "goal_of locked stuck p now ''request_details'' h \<longleftrightarrow> details_gone p now h"
  "goal_of locked stuck p now ''request_rows'' h \<longleftrightarrow> requests_gone now h"
  by (simp_all add: goal_of_def reached_def Let_def)

lemmas stays = guests_stay callers_stay callbacks_stay customers_stay payloads_stay events_stay audit_stays
  recordings_stay consents_stay details_stay requests_stay
lemmas reaches = guests_reach callers_reach callbacks_reach customers_reach payloads_reach events_reach audit_reach
  recordings_reach consents_reach details_reach requests_reach

lemma purge_names: "fst ` set (purge_steps locked stuck p now) = {''allergy_notes'', ''guest_details'', ''caller_ids'', ''callbacks'',
    ''customers'', ''outbox_payloads'', ''outbox_rows'', ''audit_entries'', ''recordings'', ''consent_answers'', ''request_details'',
    ''request_rows''}"
  by (simp add: purge_steps_def)

lemma allergies_all_stay: "fades h h' \<Longrightarrow> \<forall>t \<in> set (tenants (h_db h)). allergies_gone locked p now t (h_db h) \<Longrightarrow>
    \<forall>t \<in> set (tenants (h_db h')). allergies_gone locked p now t (h_db h')"
  using allergies_stay fades_rows(8) by metis

lemma goals_stay:
  assumes "n \<in> fst ` set (purge_steps locked stuck p now)" and f: "fades h h'" and "goal_of locked stuck p now n h"
  shows "goal_of locked stuck p now n h'"
  using assms(1,3) unfolding purge_names
  by (elim insertE emptyE) (simp_all only: goal_of_eqs stays [OF f], rule allergies_all_stay [OF f])

interpretation retention: fading_steps "goal_of locked stuck p now" "purge_steps locked stuck p now"
proof unfold_locales
  fix n f and h h' :: house
  show "fades h (fst (f h))" if "(n, f) \<in> set (purge_steps locked stuck p now)"
    using that by (auto simp: purge_steps_def intro: step_fades)
  show "goal_of locked stuck p now n (fst (f h))" if "(n, f) \<in> set (purge_steps locked stuck p now)"
  proof -
    have t: "tenants (fst (allergy_notes locked p now (h_db h))) = tenants (h_db h)"
      using fades_rows(8) [OF fades_allergy [of h locked p now]] by (simp add: on_db_def case_prod_beta)
    show ?thesis
      using that unfolding purge_steps_def
      by (auto simp: goal_of_eqs on_db_def case_prod_beta t reaches allergies_reach [rule_format])
  qed
  show "goal_of locked stuck p now n h'" if "n \<in> fst ` set (purge_steps locked stuck p now)" "fades h h'" "goal_of locked stuck p now n h"
    using that by (rule goals_stay)
qed

section \<open>Nothing goes early\<close>

text \<open>What a pass may take, table by table: \<open>guest_due\<close> are the orders whose guest goes, \<open>allergy_due\<close> those of
  a business day of which the allergies go, \<open>old_customer\<close> the customers. What a pass leaves of a row
  is the row itself or, for a reason named here, less of it.\<close>

definition guest_due :: "periods \<Rightarrow> instant \<Rightarrow> order \<Rightarrow> bool" where
  "guest_due p now r \<longleftrightarrow> order_day r < ago now (guest_details_days p)"

definition allergy_due :: "periods \<Rightarrow> instant \<Rightarrow> db \<Rightarrow> uuid \<Rightarrow> bool" where
  "allergy_due p now d i \<longleftrightarrow> (\<exists>t \<in> set (tenants d). i \<in> set (ids_of_orders (old_order t (allergy_cutoff p now t)) d))"

definition allergy_table :: "periods \<Rightarrow> instant \<Rightarrow> db \<Rightarrow> uuid \<Rightarrow> bool" where
  "allergy_table p now d i \<longleftrightarrow> (\<exists>t \<in> set (tenants d). i \<in> set (ids_of_tables (old_table t (allergy_cutoff p now t)) d))"

definition customer_due :: "periods \<Rightarrow> instant \<Rightarrow> db \<Rightarrow> uuid \<Rightarrow> bool" where
  "customer_due p now d i \<longleftrightarrow> (\<exists>c \<in> set (customers d). cu_id c = i \<and> old_customer p now c)"

definition payload_due :: "periods \<Rightarrow> instant \<Rightarrow> outbox_event \<Rightarrow> bool" where
  "payload_due p now e \<longleftrightarrow>
     (if ev_status e = SENT then \<exists>t. sent_at e = Some t \<and> t < ago now (outbox_sent_days p)
      else ev_created_at e < ago now (outbox_unsent_days p))"

definition allergy_event :: "periods \<Rightarrow> instant \<Rightarrow> db \<Rightarrow> outbox_event \<Rightarrow> bool" where
  "allergy_event p now d e \<longleftrightarrow> (\<exists>t \<in> set (tenants d).
     about_rows (t_id t) (ids_of_orders (old_order t (allergy_cutoff p now t)) d) (ids_of_tables (old_table t (allergy_cutoff p now t)) d) e)"

definition keep_guest :: "periods \<Rightarrow> instant \<Rightarrow> db \<Rightarrow> order \<Rightarrow> order \<Rightarrow> bool" where
  "keep_guest p now d r r' \<longleftrightarrow> customer_name r' = customer_name r \<and> o_phone r' = o_phone r \<and>
     (o_note r' = o_note r \<or> allergy_note (o_note r) \<and> allergy_due p now d (o_id r)) \<and>
     (o_customer_id r' = o_customer_id r \<or> (\<exists>i. o_customer_id r = Some i \<and> customer_due p now d i)) \<and>
     (o_address_id r' = o_address_id r \<or>
        (\<exists>a \<in> set (addresses d). o_address_id r = Some (a_id a) \<and> customer_due p now d (a_customer_id a)))"

definition keep_order :: "periods \<Rightarrow> instant \<Rightarrow> db \<Rightarrow> order \<Rightarrow> order \<Rightarrow> bool" where
  "keep_order p now d r r' \<longleftrightarrow> fade_order r r' \<and> (guest_due p now r \<or> keep_guest p now d r r')"

definition keep_item :: "periods \<Rightarrow> instant \<Rightarrow> db \<Rightarrow> order_item \<Rightarrow> order_item \<Rightarrow> bool" where
  "keep_item p now d i i' \<longleftrightarrow> i' = i \<or> i' = i\<lparr>oi_note := None\<rparr> \<and>
     ((\<exists>r \<in> set (orders d). o_id r = oi_order_id i \<and> guest_due p now r) \<or>
      allergy_note (oi_note i) \<and> allergy_due p now d (oi_order_id i))"

definition keep_table :: "periods \<Rightarrow> instant \<Rightarrow> db \<Rightarrow> reservation \<Rightarrow> reservation \<Rightarrow> bool" where
  "keep_table p now d r r' \<longleftrightarrow> fade_table r r' \<and> (reserved_for r < ago now (guest_details_days p) \<or>
     guest_name r' = guest_name r \<and> r_phone r' = r_phone r \<and>
     (r_note r' = r_note r \<or> allergy_note (r_note r) \<and> allergy_table p now d (r_id r)))"

definition keep_event :: "periods \<Rightarrow> instant \<Rightarrow> db \<Rightarrow> outbox_event \<Rightarrow> outbox_event \<Rightarrow> bool" where
  "keep_event p now d e e' \<longleftrightarrow> fade_event e e' \<and> (payload_due p now e \<or> e' = e \<or>
     e' = e\<lparr>ev_payload := without_allergy (ev_payload e)\<rparr> \<and> allergy_event p now d e)"

definition other_tables :: "db \<Rightarrow> db" where
  "other_tables d = d\<lparr>orders := [], order_items := [], reservations := [], calls := [], callbacks := [], customers := [],
     addresses := [], outbox := [], audit := []\<rparr>"

definition spares_db :: "periods \<Rightarrow> instant \<Rightarrow> db \<Rightarrow> db \<Rightarrow> bool" where
  "spares_db p now d d' \<longleftrightarrow>
     list_all2 (keep_order p now d) (orders d) (orders d') \<and>
     list_all2 (keep_item p now d) (order_items d) (order_items d') \<and>
     list_all2 (keep_table p now d) (reservations d) (reservations d') \<and>
     list_all2 (\<lambda>c c'. c' = c \<or> c' = c\<lparr>caller_id := None\<rparr> \<and> started_at c < ago now (caller_id_days p)) (calls d) (calls d') \<and>
     list_all2 (\<lambda>r r'. r' = r \<or> r' = callback_gone r \<and>
       (case done_at r of Some t \<Rightarrow> t | None \<Rightarrow> cb_created_at r) < ago now (callback_days p)) (callbacks d) (callbacks d') \<and>
     {c \<in> set (customers d). \<not> old_customer p now c} \<subseteq> set (customers d') \<and> set (customers d') \<subseteq> set (customers d) \<and>
     {a \<in> set (addresses d). \<not> customer_due p now d (a_customer_id a)} \<subseteq> set (addresses d') \<and>
     set (addresses d') \<subseteq> set (addresses d) \<and>
     (\<forall>e \<in> set (outbox d). ago now (outbox_row_days p) \<le> ev_created_at e \<longrightarrow> (\<exists>e' \<in> set (outbox d'). keep_event p now d e e')) \<and>
     {a \<in> set (audit d). ago now (audit_log_days p) \<le> au_at a} \<subseteq> set (audit d') \<and>
     other_tables d' = other_tables d"

definition spares :: "periods \<Rightarrow> instant \<Rightarrow> house \<Rightarrow> house \<Rightarrow> bool" where
  "spares p now h h' \<longleftrightarrow> spares_db p now (h_db h) (h_db h') \<and>
     {r \<in> set (recordings h). \<not> due_recording (ago now (recording_days p)) r} \<subseteq> set (recordings h') \<and>
     {f \<in> set (folder h). \<forall>r \<in> set (recordings h). due_recording (ago now (recording_days p)) r \<longrightarrow> path_of (file_name r) \<noteq> f}
       \<subseteq> set (folder h') \<and>
     {r \<in> set (consents h). \<forall>t \<in> set (tenants (h_db h)). \<not> old_consent p now t r} \<subseteq> set (consents h') \<and>
     (\<forall>r \<in> set (requests h). (\<forall>t \<in> set (tenants (h_db h)). \<not> old_request now t r) \<longrightarrow>
        (\<exists>r' \<in> set (requests h'). r' = r \<or> r' = r\<lparr>verification_note := None\<rparr> \<and> detailed_request p now r))"

lemma keep_refl [simp]: "keep_order p now d r r" "keep_item p now d i i" "keep_table p now d s s" "keep_event p now d e e"
  by (simp_all add: keep_order_def keep_guest_def keep_item_def keep_table_def keep_event_def)

lemma spares_db_refl [simp]: "spares_db p now d d"
  unfolding spares_db_def by (intro conjI list.rel_refl ballI impI) (auto intro: keep_refl(4))

text \<open>Two passes in a row: what the second may take, the first might have taken.\<close>

lemma due_earlier:
  assumes "fades h h'" and d: "d = h_db h" "d' = h_db h'"
  shows "allergy_due p now d' i = allergy_due p now d i" and "allergy_table p now d' i = allergy_table p now d i" and "allergy_event p now d' e = allergy_event p now d e"
    and "customer_due p now d' i \<Longrightarrow> customer_due p now d i"
  using assms fades_rows(8) [OF assms(1)] fades_ids [OF assms(1)] customers_stay
  by (auto simp: allergy_due_def allergy_table_def allergy_event_def customer_due_def fades_def Let_def)

lemma fade_due: "fade_order r r' \<Longrightarrow> guest_due p now r' = guest_due p now r"
  "fade_event e e' \<Longrightarrow> payload_due p now e' = payload_due p now e"
  by (simp_all add: guest_due_def payload_due_def fade_event_def fade_order_same)

lemma keep_guest_earlier:
  assumes "keep_guest p now d' r s" and "fades h h'" and d: "d = h_db h" "d' = h_db h'" and "set (addresses d') \<subseteq> set (addresses d)"
  shows "keep_guest p now d r s"
  using assms(1,5) due_earlier(4) [OF assms(2) d] unfolding keep_guest_def due_earlier(1) [OF assms(2) d] by blast

lemma keep_guest_trans:
  assumes "keep_guest p now d r s" and "keep_guest p now d s t" and "fade_order r s"
  shows "keep_guest p now d r t"
  using assms(1,2) unfolding keep_guest_def conjunct1 [OF fade_order_same [OF assms(3)]] by (elim conjE, intro conjI) (metis | simp)+

lemma keep_order_trans:
  assumes "keep_order p now d r s" and "keep_order p now d' s t" and "fades h h'" and d: "d = h_db h" "d' = h_db h'"
    and "set (addresses d') \<subseteq> set (addresses d)"
  shows "keep_order p now d r t"
proof -
  have f: "fade_order r s" "fade_order s t" using assms(1,2) by (simp_all add: keep_order_def)
  have "guest_due p now r \<or> keep_guest p now d r s \<and> keep_guest p now d s t"
    using assms(1,2) fade_due(1) [OF f(1)] keep_guest_earlier [OF _ assms(3) d assms(6)] unfolding keep_order_def by blast
  then show ?thesis using keep_guest_trans [OF _ _ f(1)] fade_order_trans [OF f] unfolding keep_order_def by blast
qed

lemma keep_item_trans:
  assumes "keep_item p now d i j" and "keep_item p now d' j k" and "fades h h'" and d: "d = h_db h" "d' = h_db h'"
  shows "keep_item p now d i k"
proof (cases "k = j")
  case False
  then have k: "k = j\<lparr>oi_note := None\<rparr>" and r: "(\<exists>s \<in> set (orders d'). o_id s = oi_order_id j \<and> guest_due p now s) \<or>
      allergy_note (oi_note j) \<and> allergy_due p now d (oi_order_id j)"
    using assms(2) unfolding keep_item_def due_earlier(1) [OF assms(3) d] by blast+
  have "\<exists>r \<in> set (orders d). o_id r = oi_order_id j \<and> guest_due p now r"
    if s: "s \<in> set (orders d')" "o_id s = oi_order_id j \<and> guest_due p now s" for s
  proof -
    obtain r where f: "r \<in> set (orders d)" "fade_order r s" using fades_rows(1) [OF assms(3)] s(1) d by blast
    then show ?thesis using s(2) fade_due(1) [OF f(2)] fade_order_same [OF f(2)] by metis
  qed
  then have "(\<exists>r \<in> set (orders d). o_id r = oi_order_id j \<and> guest_due p now r) \<or>
      allergy_note (oi_note j) \<and> allergy_due p now d (oi_order_id j)" using r by blast
  then show ?thesis using assms(1) k unfolding keep_item_def by auto
qed (use assms(1) in simp)

lemma keep_table_trans:
  assumes "keep_table p now d r s" and "keep_table p now d' s t" and "fades h h'" and d: "d = h_db h" "d' = h_db h'"
  shows "keep_table p now d r t"
proof -
  have f: "fade_table r s" "fade_table s t" using assms(1,2) by (simp_all add: keep_table_def)
  show ?thesis
    using assms(1,2) fade_table_same [OF f(1)] fade_table_trans [OF f]
    unfolding keep_table_def due_earlier(2) [OF assms(3) d] by auto
qed

lemma keep_event_trans:
  assumes "keep_event p now d e f" and "keep_event p now d' f g" and "fades h h'" and d: "d = h_db h" "d' = h_db h'"
  shows "keep_event p now d e g"
proof -
  have t: "fade_event e f" "fade_event f g" using assms(1,2) by (simp_all add: keep_event_def)
  have "allergy_event p now d f \<Longrightarrow> allergy_event p now d e" using about_stays [OF t(1)] by (auto simp: allergy_event_def)
  then show ?thesis
    using assms(1,2) fade_due(2) [OF t(1)] due_earlier(3) [OF assms(3) d] fade_event_trans [OF t] unfolding keep_event_def by auto
qed

lemma all2_mix: "list_all2 P xs ys \<Longrightarrow> list_all2 Q ys zs \<Longrightarrow> (\<And>u v w. P u v \<Longrightarrow> Q v w \<Longrightarrow> R u w) \<Longrightarrow> list_all2 R xs zs"
  by (rule list_all2_trans [of P Q R]) blast+

lemma spares_trans:
  assumes "spares p now a b" and "spares p now b c" and "fades a b"
  shows "spares p now a c"
proof -
  let ?a = "h_db a" and ?b = "h_db b" and ?c = "h_db c"
  note f = assms(1,2) [unfolded spares_def spares_db_def]
  have t: "tenants ?b = tenants ?a" by (rule fades_rows(8) [OF assms(3)])
  have rb: "set (recordings b) \<subseteq> set (recordings a)" using assms(3) by (simp add: fades_def Let_def)
  note cu = due_earlier(4) [OF assms(3) refl refl]
  have ad: "set (addresses ?b) \<subseteq> set (addresses ?a)" by (insert f(1), elim conjE, assumption)
  have l: "list_all2 (keep_order p now ?a) (orders ?a) (orders ?b)" "list_all2 (keep_order p now ?b) (orders ?b) (orders ?c)"
    "list_all2 (keep_item p now ?a) (order_items ?a) (order_items ?b)" "list_all2 (keep_item p now ?b) (order_items ?b) (order_items ?c)"
    "list_all2 (keep_table p now ?a) (reservations ?a) (reservations ?b)"
    "list_all2 (keep_table p now ?b) (reservations ?b) (reservations ?c)"
    "{x \<in> set (addresses ?a). \<not> customer_due p now ?a (a_customer_id x)} \<subseteq> set (addresses ?b)"
    "{x \<in> set (addresses ?b). \<not> customer_due p now ?b (a_customer_id x)} \<subseteq> set (addresses ?c)"
    "{x \<in> set (folder a). \<forall>r \<in> set (recordings a). due_recording (ago now (recording_days p)) r \<longrightarrow> path_of (file_name r) \<noteq> x}
       \<subseteq> set (folder b)"
    "{x \<in> set (folder b). \<forall>r \<in> set (recordings b). due_recording (ago now (recording_days p)) r \<longrightarrow> path_of (file_name r) \<noteq> x}
       \<subseteq> set (folder c)"
    "{c \<in> set (customers ?a). \<not> old_customer p now c} \<subseteq> set (customers ?b)"
    "{c \<in> set (customers ?b). \<not> old_customer p now c} \<subseteq> set (customers ?c)"
    "{x \<in> set (audit ?a). ago now (audit_log_days p) \<le> au_at x} \<subseteq> set (audit ?b)"
    "{x \<in> set (audit ?b). ago now (audit_log_days p) \<le> au_at x} \<subseteq> set (audit ?c)"
    "{r \<in> set (recordings a). \<not> due_recording (ago now (recording_days p)) r} \<subseteq> set (recordings b)"
    "{r \<in> set (recordings b). \<not> due_recording (ago now (recording_days p)) r} \<subseteq> set (recordings c)"
    "set (customers ?b) \<subseteq> set (customers ?a)" "set (customers ?c) \<subseteq> set (customers ?b)"
    "set (addresses ?c) \<subseteq> set (addresses ?b)" "other_tables ?b = other_tables ?a" "other_tables ?c = other_tables ?b"
    by (insert f, elim conjE, assumption)+
  show ?thesis
    unfolding spares_def spares_db_def
  proof (intro conjI)
    show "list_all2 (keep_order p now ?a) (orders ?a) (orders ?c)"
      by (rule all2_mix [OF l(1) l(2) keep_order_trans [OF _ _ assms(3) refl refl ad]])
    show "list_all2 (keep_item p now ?a) (order_items ?a) (order_items ?c)"
      by (rule all2_mix [OF l(3) l(4) keep_item_trans [OF _ _ assms(3) refl refl]])
    show "list_all2 (keep_table p now ?a) (reservations ?a) (reservations ?c)"
      by (rule all2_mix [OF l(5) l(6) keep_table_trans [OF _ _ assms(3) refl refl]])
    show "list_all2 (\<lambda>c c'. c' = c \<or> c' = c\<lparr>caller_id := None\<rparr> \<and> started_at c < ago now (caller_id_days p)) (calls ?a) (calls ?c)"
      by (rule all2_trans [where ys = "calls ?b"]) (use f in auto)
    show "list_all2 (\<lambda>r r'. r' = r \<or> r' = callback_gone r \<and>
       (case done_at r of Some t \<Rightarrow> t | None \<Rightarrow> cb_created_at r) < ago now (callback_days p)) (callbacks ?a) (callbacks ?c)"
      by (rule all2_trans [where ys = "callbacks ?b"]) (use f in \<open>auto simp: callback_gone_def\<close>)
    show "{x \<in> set (addresses ?a). \<not> customer_due p now ?a (a_customer_id x)} \<subseteq> set (addresses ?c)"
      using l(7,8) cu by blast
    show "\<forall>e \<in> set (outbox ?a). ago now (outbox_row_days p) \<le> ev_created_at e \<longrightarrow> (\<exists>e' \<in> set (outbox ?c). keep_event p now ?a e e')"
    proof (intro ballI impI)
      fix e
      assume e: "e \<in> set (outbox ?a)" "ago now (outbox_row_days p) \<le> ev_created_at e"
      then obtain e1 where e1: "e1 \<in> set (outbox ?b)" "keep_event p now ?a e e1" using f(1) by blast
      then have "ev_created_at e1 = ev_created_at e" by (simp add: keep_event_def fade_event_def)
      then obtain e2 where "e2 \<in> set (outbox ?c)" "keep_event p now ?b e1 e2" using f(2) e(2) e1(1) by metis
      then show "\<exists>e' \<in> set (outbox ?c). keep_event p now ?a e e'" using keep_event_trans [OF e1(2) _ assms(3) refl refl] by blast
    qed
    show "{x \<in> set (folder a). \<forall>r \<in> set (recordings a). due_recording (ago now (recording_days p)) r \<longrightarrow> path_of (file_name r) \<noteq> x}
       \<subseteq> set (folder c)" using l(9,10) rb by blast
    show "{r \<in> set (consents a). \<forall>t \<in> set (tenants ?a). \<not> old_consent p now t r} \<subseteq> set (consents c)"
      using f unfolding t by blast
    show "\<forall>r \<in> set (requests a). (\<forall>t \<in> set (tenants ?a). \<not> old_request now t r) \<longrightarrow>
        (\<exists>r' \<in> set (requests c). r' = r \<or> r' = r\<lparr>verification_note := None\<rparr> \<and> detailed_request p now r)"
    proof (intro ballI impI)
      fix r
      assume r: "r \<in> set (requests a)" "\<forall>t \<in> set (tenants ?a). \<not> old_request now t r"
      then obtain s where s: "s \<in> set (requests b)" "s = r \<or> s = r\<lparr>verification_note := None\<rparr> \<and> detailed_request p now r"
        using f(1) by blast
      then have "old_request now t s = old_request now t r" for t by (auto simp: old_request_def)
      then obtain u where u: "u \<in> set (requests c)" "u = s \<or> u = s\<lparr>verification_note := None\<rparr> \<and> detailed_request p now s"
        using f(2) s(1) r(2) unfolding t by metis
      then show "\<exists>r' \<in> set (requests c). r' = r \<or> r' = r\<lparr>verification_note := None\<rparr> \<and> detailed_request p now r"
        using s(2) by (intro bexI [OF _ u(1)]) auto
    qed
    show "{c \<in> set (customers ?a). \<not> old_customer p now c} \<subseteq> set (customers ?c)" using l(11,12) by blast
    show "{x \<in> set (audit ?a). ago now (audit_log_days p) \<le> au_at x} \<subseteq> set (audit ?c)" using l(13,14) by blast
    show "{r \<in> set (recordings a). \<not> due_recording (ago now (recording_days p)) r} \<subseteq> set (recordings c)"
      using l(15,16) by blast
  qed (use ad l(17-21) in simp_all)
qed

text \<open>The steps, each with the reason why nothing goes early.\<close>

lemma self_row: "\<forall>r \<in> set rs. Q r \<longrightarrow> (\<exists>r' \<in> set rs. r' = r \<or> R r r')"
  by blast

lemma spares_refl [simp]: "spares p now h h"
  by (auto simp: spares_def intro: self_row)

lemma spares_dbI: "spares_db p now (h_db h) d \<Longrightarrow> spares p now h (h\<lparr>h_db := d\<rparr>)"
  by (simp add: spares_def self_row) blast

lemma on_db_spares: "spares_db p now (h_db h) (fst (f (h_db h))) \<Longrightarrow> spares p now h (fst (on_db f h))"
  by (simp add: on_db_def case_prod_beta spares_dbI)

lemma event_upd:
  assumes "\<And>x. q x \<Longrightarrow> keep_event p now d x (f x)" and "e \<in> set es"
  shows "\<exists>e' \<in> set (upd_rows q f es). keep_event p now d e e'"
  using assms(1) [of e] assms(2) keep_refl(4) by (cases "q e") (force simp: set_upd_rows)+

lemma tables_spare:
  assumes "list_all2 (keep_order p now d) (orders d) os" and "list_all2 (keep_item p now d) (order_items d) is"
    and "list_all2 (keep_table p now d) (reservations d) ts" and "\<And>e. e \<in> set (outbox d) \<Longrightarrow> \<exists>e' \<in> set es. keep_event p now d e e'"
  shows "spares_db p now d (d\<lparr>order_items := is, orders := os, reservations := ts, outbox := es\<rparr>)"
  using assms unfolding spares_db_def by (auto simp: other_tables_def intro!: list.rel_refl)

lemma outbox_spares:
  assumes "\<And>e. e \<in> set (outbox d) \<Longrightarrow> \<exists>e' \<in> set es. keep_event p now d e e'"
  shows "spares_db p now d (d\<lparr>outbox := es\<rparr>)"
  using assms unfolding spares_db_def by (auto simp: other_tables_def intro!: list.rel_refl)

lemma allergy_of_spares:
  assumes "t \<in> set (tenants d)"
  shows "spares_db p now d (fst (allergy_notes_of locked p now t d))"
  unfolding allergy_notes_of_def Let_def fst_conv
proof (rule tables_spare)
  let ?c = "allergy_cutoff p now t"
  let ?os = "ids_of_orders (old_order t ?c) d" and ?ts = "ids_of_tables (old_table t ?c) d"
  have due: "i \<in> set ?os \<Longrightarrow> allergy_due p now d i" "i \<in> set ?ts \<Longrightarrow> allergy_table p now d i" for i
    using assms by (auto simp: allergy_due_def allergy_table_def)
  show "list_all2 (keep_order p now d) (orders d)
      (upd_rows (\<lambda>r. o_id r \<in> set ?os \<and> allergy_note (o_note r)) (\<lambda>r. r\<lparr>o_note := None\<rparr>) (orders d))"
    by (rule all2_upd) (simp_all add: keep_order_def keep_guest_def due)
  show "list_all2 (keep_item p now d) (order_items d)
      (upd_rows (\<lambda>r. oi_order_id r \<in> set ?os \<and> allergy_note (oi_note r)) (\<lambda>r. r\<lparr>oi_note := None\<rparr>) (order_items d))"
    by (rule all2_upd) (simp_all add: keep_item_def due)
  show "list_all2 (keep_table p now d) (reservations d)
      (upd_rows (\<lambda>r. r_id r \<in> set ?ts \<and> allergy_note (r_note r)) (\<lambda>r. r\<lparr>r_note := None\<rparr>) (reservations d))"
    by (rule all2_upd) (simp_all add: keep_table_def due)
  show "\<exists>e' \<in> set (upd_rows (copy_with_allergy locked (t_id t) ?os ?ts) (\<lambda>e. e\<lparr>ev_payload := without_allergy (ev_payload e)\<rparr>) (outbox d)).
      keep_event p now d e e'" if "e \<in> set (outbox d)" for e
    by (rule event_upd [OF _ that])
      (use assms in \<open>auto simp: keep_event_def fade_event_def copy_with_allergy_def allergy_event_def\<close>)
qed

lemma allergy_all_spares: "set ts \<subseteq> set (tenants (h_db h)) \<Longrightarrow>
    spares p now h (h\<lparr>h_db := fst (per_tenant (allergy_notes_of locked p now) ts (h_db h))\<rparr>)"
proof (induction ts arbitrary: h)
  case Nil
  then show ?case by simp
next
  case (Cons t ts)
  let ?d = "fst (allergy_notes_of locked p now t (h_db h))"
  have "spares p now h (h\<lparr>h_db := ?d\<rparr>)" by (rule spares_dbI [OF allergy_of_spares]) (use Cons.prems in simp)
  moreover have f: "fades h (h\<lparr>h_db := ?d\<rparr>)" by (rule fades_allergy_of)
  moreover have "set ts \<subseteq> set (tenants (h_db (h\<lparr>h_db := ?d\<rparr>)))" using Cons.prems unfolding fades_rows(8) [OF f] by simp
  from Cons.IH [OF this] have "spares p now (h\<lparr>h_db := ?d\<rparr>) (h\<lparr>h_db := fst (per_tenant (allergy_notes_of locked p now) ts ?d)\<rparr>)" by simp
  ultimately show ?case using spares_trans by (simp add: case_prod_beta Let_def)
qed

lemma spares_allergy: "spares p now h (fst (on_db (allergy_notes locked p now) h))"
  using allergy_all_spares [OF order_refl] by (simp add: on_db_def allergy_notes_def case_prod_beta Let_def)

lemma spares_guests: "spares p now h (fst (on_db (guest_details_step (ago now (guest_details_days p))) h))"
proof (rule on_db_spares)
  let ?d = "h_db h" and ?c = "ago now (guest_details_days p)"
  have "spares_db p now ?d (?d\<lparr>order_items := upd_rows (\<lambda>r. oi_order_id r \<in> set (ids_of_orders (\<lambda>r. order_day r < ?c) ?d) \<and> oi_note r \<noteq> None)
        (\<lambda>r. r\<lparr>oi_note := None\<rparr>) (order_items ?d), orders := upd_rows (named_order ?c) order_gone (orders ?d),
      reservations := upd_rows (named_table ?c) table_gone (reservations ?d), outbox := outbox ?d\<rparr>)"
    by (rule tables_spare) (auto intro!: all2_upd intro: keep_refl(4) simp: keep_order_def keep_item_def keep_table_def guest_due_def
        named_order_def named_table_def ids_of_orders_def)
  then show "spares_db p now ?d (fst (guest_details_step ?c ?d))" by (simp add: guest_details_step_def Let_def)
qed

lemma spares_callers: "spares p now h (fst (on_db (caller_ids_step (ago now (caller_id_days p))) h))"
  by (rule on_db_spares) (auto simp: caller_ids_step_def spares_db_def other_tables_def known_caller_def
      intro!: all2_upd list.rel_refl intro: keep_refl(4))

lemma spares_callbacks: "spares p now h (fst (on_db (callbacks_step (ago now (callback_days p))) h))"
  by (rule on_db_spares) (auto simp: callbacks_step_def spares_db_def other_tables_def named_callback_def
      intro!: all2_upd list.rel_refl intro: keep_refl(4))

lemma cut_spares:
  fixes cut :: "uuid list \<Rightarrow> uuid option \<Rightarrow> uuid option"
  assumes "cut = (\<lambda>gone link. case link of None \<Rightarrow> None | Some i \<Rightarrow> if i \<in> set gone then None else Some i)"
    and "ids = map cu_id (filter (old_customer p now) (customers d))"
    and "ads = map a_id (filter (\<lambda>a. a_customer_id a \<in> set ids) (addresses d))"
  shows "keep_order p now d r (r\<lparr>o_customer_id := cut ids (o_customer_id r), o_address_id := cut ads (o_address_id r)\<rparr>)"
proof -
  have c: "cut gone link = link \<or> cut gone link = None \<and> (\<exists>i \<in> set gone. link = Some i)" for gone link
    by (simp add: assms(1) split: option.split)
  have i: "customer_due p now d i" if "i \<in> set ids" for i using that by (auto simp: assms(2) customer_due_def)
  have "\<exists>a \<in> set (addresses d). i = a_id a \<and> customer_due p now d (a_customer_id a)" if "i \<in> set ads" for i
    using that i by (auto simp: assms(3))
  moreover have "fade_order r (r\<lparr>o_customer_id := cut ids (o_customer_id r), o_address_id := cut ads (o_address_id r)\<rparr>)"
    using c [of ids "o_customer_id r"] c [of ads "o_address_id r"] by (auto simp: fade_order_def order_gone_def)
  ultimately show ?thesis
    unfolding keep_order_def keep_guest_def
    using c [of ids "o_customer_id r"] c [of ads "o_address_id r"] i by (auto simp del: insert_iff)
qed

lemma spares_customers: "spares p now h (fst (on_db (customers_step p now) h))"
proof (rule on_db_spares)
  show "spares_db p now (h_db h) (fst (customers_step p now (h_db h)))"
    unfolding customers_step_def fst_conv drop_customers_def Let_def spares_db_def
    by (auto intro!: all2_map cut_spares [OF refl refl refl] list.rel_refl intro: keep_refl(4)
        simp: other_tables_def customer_due_def)
qed

lemma spares_payloads: "spares p now h (fst (on_db (outbox_payloads_step p now) h))"
proof (rule on_db_spares)
  let ?d = "h_db h" and ?s = "sent_copy (ago now (outbox_sent_days p))" and ?u = "unsent_copy (ago now (outbox_unsent_days p))"
    and ?n = "outbox_unsent_days p"
  have s: "keep_event p now ?d x (x\<lparr>ev_payload := thin_payload (ev_payload x)\<rparr>)" if "?s x" for x
    using that by (auto simp: keep_event_def fade_event_def sent_copy_def payload_due_def split: option.splits)
  have u: "keep_event p now ?d x (expire ?n x)" if "?u x" for x
    using that by (auto simp: keep_event_def fade_event_def unsent_copy_def payload_due_def expire_def)
  have "\<exists>e' \<in> set (upd_rows ?u (expire ?n) (upd_rows ?s (\<lambda>e. e\<lparr>ev_payload := thin_payload (ev_payload e)\<rparr>) es)). keep_event p now ?d e e'"
    if e: "e \<in> set es" for e es
  proof -
    obtain e1 where e1: "e1 \<in> set (upd_rows ?s (\<lambda>e. e\<lparr>ev_payload := thin_payload (ev_payload e)\<rparr>) es)" "keep_event p now ?d e e1"
      using event_upd [OF s e] by blast
    obtain e2 where e2: "e2 \<in> set (upd_rows ?u (expire ?n) (upd_rows ?s (\<lambda>e. e\<lparr>ev_payload := thin_payload (ev_payload e)\<rparr>) es))"
      "keep_event p now ?d e1 e2" by (rule bexE [OF event_upd [OF u e1(1)]])
    show ?thesis by (rule bexI [OF _ e2(1)]) (rule keep_event_trans [OF e1(2) e2(2) fades_refl refl refl])
  qed
  then show "spares_db p now ?d (fst (outbox_payloads_step p now ?d))"
    unfolding outbox_payloads_step_def Let_def fst_conv by (rule outbox_spares)
qed

lemma spares_events: "spares p now h (fst (on_db (outbox_rows_step (ago now (outbox_row_days p))) h))"
  by (rule on_db_spares) (auto simp: outbox_rows_step_def spares_db_def other_tables_def intro!: list.rel_refl intro: keep_refl(4))

lemma spares_audit: "spares p now h (fst (on_db (audit_step (ago now (audit_log_days p))) h))"
  by (rule on_db_spares) (auto simp: audit_step_def spares_db_def other_tables_def intro!: list.rel_refl intro: keep_refl(4))

lemma spares_recordings: "spares p now h (fst (recordings_step stuck (ago now (recording_days p)) h))"
proof -
  have "set (fst (delete_recordings stuck rs files)) \<subseteq> set rs \<and>
      {f \<in> set files. \<forall>r \<in> set rs. path_of (file_name r) \<noteq> f} \<subseteq> set (snd (delete_recordings stuck rs files))" for rs files
    by (induction rs arbitrary: files) (fastforce simp: case_prod_beta Let_def delete_file_def split: option.splits if_splits)+
  from this [of "filter (due_recording (ago now (recording_days p))) (recordings h)" "folder h"]
  show ?thesis by (auto simp: recordings_step_def case_prod_beta spares_def intro: self_row)
qed

lemma spares_consents: "spares p now h (fst (each_tenant name (consents_of p now) h))"
proof -
  let ?f = "\<lambda>ts. fst (per_tenant (consents_of p now) ts h)"
  have "h_db (fst (per_tenant (consents_of p now) ts h)) = h_db h \<and> recordings (fst (per_tenant (consents_of p now) ts h)) = recordings h \<and>
      folder (fst (per_tenant (consents_of p now) ts h)) = folder h \<and> requests (fst (per_tenant (consents_of p now) ts h)) = requests h \<and>
      {r \<in> set (consents h). \<forall>t \<in> set ts. \<not> old_consent p now t r} \<subseteq> set (consents (fst (per_tenant (consents_of p now) ts h)))" for ts
  proof (induction ts arbitrary: h)
    case (Cons t ts)
    then show ?case using Cons [of "fst (consents_of p now t h)"] by (auto simp: case_prod_beta Let_def consents_of_def)
  qed simp
  then show ?thesis by (simp add: spares_def each_tenant_def case_prod_beta self_row) blast
qed

lemma spares_details: "spares p now h (fst (request_details_step p now h))"
  by (auto simp: request_details_step_def spares_def set_upd_rows)

lemma spares_requests: "spares p now h (fst (each_tenant name (request_rows_of now) h))"
proof -
  have "h_db (fst (per_tenant (request_rows_of now) ts h)) = h_db h \<and> recordings (fst (per_tenant (request_rows_of now) ts h)) = recordings h \<and>
      folder (fst (per_tenant (request_rows_of now) ts h)) = folder h \<and> consents (fst (per_tenant (request_rows_of now) ts h)) = consents h \<and>
      {r \<in> set (requests h). \<forall>t \<in> set ts. \<not> old_request now t r} \<subseteq> set (requests (fst (per_tenant (request_rows_of now) ts h)))" for ts
  proof (induction ts arbitrary: h)
    case (Cons t ts)
    then show ?case using Cons [of "fst (request_rows_of now t h)"] by (auto simp: case_prod_beta Let_def request_rows_of_def)
  qed simp
  then show ?thesis by (fastforce simp: spares_def each_tenant_def case_prod_beta)
qed

lemmas step_spares = spares_allergy spares_guests spares_callers spares_callbacks spares_customers spares_payloads
  spares_events spares_audit spares_recordings spares_consents spares_details spares_requests

lemma run_spares: "set fs \<subseteq> set (purge_steps locked stuck p now) \<Longrightarrow> spares p now h (fst (run_steps fails fs h))"
proof (induction fs arbitrary: h)
  case Nil
  then show ?case by simp
next
  case (Cons x fs)
  obtain n f where x: "x = (n, f)" by (cases x)
  then have m: "(n, f) \<in> set (purge_steps locked stuck p now)" using Cons.prems by simp
  then have "spares p now h (fst (f h))" by (auto simp: purge_steps_def intro: step_spares)
  moreover have "spares p now k (fst (run_steps fails fs k))" for k using Cons by simp
  moreover have "fades h (fst (f h))" by (rule retention.step_fades [OF m])
  ultimately have "spares p now h (fst (run_steps fails fs (fst (f h))))" using spares_trans by blast
  moreover have "spares p now h (fst (run_steps fails fs h))" using Cons by simp
  ultimately show ?case by (simp add: x case_prod_beta Let_def)
qed

section \<open>The pass does what is due and nothing else\<close>

lemma purge_goal:
  assumes "purge locked stuck fails p now h = (h', c, bad)" and "\<not> fails name"
    and "name \<in> fst ` set (purge_steps locked stuck p now)"
  shows "goal_of locked stuck p now name h'"
proof -
  obtain f where f: "(name, f) \<in> set (purge_steps locked stuck p now)" using assms(3) by force
  have "h' = fst (run_steps fails (purge_steps locked stuck p now) h)" using assms(1) by (simp add: purge_def)
  moreover have "goal_of locked stuck p now name (fst (run_steps fails (purge_steps locked stuck p now) h))"
    by (rule retention.run_reaches [OF _ f]) (use assms(2) in simp_all)
  ultimately show ?thesis by simp
qed



text \<open>C13. And nothing goes early or for good that has to stay. While its period runs, an order keeps name,
  number, note, customer and address, its lines keep their notes, a table name, number and note (a
  note that names an allergy until its business day is old enough), a call its number, a callback
  its text, a copy in the outbox its payload (but the allergies), and the rows of customers,
  addresses, outbox, log, recordings with their files, consents and requests stay; every other
  table stays as it is. And of every order, line, table, call and callback the amounts, times and
  states stay for good, in their order.\<close>

theorem purge_spares:
  assumes "purge locked stuck fails p now h = (h', c, bad)"
  shows "spares p now h h' \<and> map order_gone (orders (h_db h')) = map order_gone (orders (h_db h)) \<and>
    map (\<lambda>i. i\<lparr>oi_note := None\<rparr>) (order_items (h_db h')) = map (\<lambda>i. i\<lparr>oi_note := None\<rparr>) (order_items (h_db h)) \<and>
    map table_gone (reservations (h_db h')) = map table_gone (reservations (h_db h)) \<and>
    map (\<lambda>k. k\<lparr>caller_id := None\<rparr>) (calls (h_db h')) = map (\<lambda>k. k\<lparr>caller_id := None\<rparr>) (calls (h_db h)) \<and>
    map callback_gone (callbacks (h_db h')) = map callback_gone (callbacks (h_db h))"
proof -
  have h': "h' = fst (run_steps fails (purge_steps locked stuck p now) h)" using assms by (simp add: purge_def)
  have "spares p now h h'" unfolding h' by (rule run_spares [OF order_refl])
  moreover have "fades h h'" unfolding h' by (rule retention.run_fades [OF order_refl])
  moreover have "map g ys = map g xs" if "list_all2 R xs ys" "\<And>x y. R x y \<Longrightarrow> g y = g x" for R g xs ys
    using that(1) by (induction rule: list_all2_induct) (auto dest: that(2))
  note m = this
  ultimately show ?thesis
    unfolding fades_def Let_def
    by (auto intro!: m simp: fade_order_def fade_item_def fade_table_def callback_gone_def elim!: m)
qed


text \<open>With periods the settings accept, an order that loses its guest to the pass has no slip left that still
  names them, if the slip was written by the time the order was promised for and was sent before it
  would have been too old to send; a slip of a later correction goes with its own period.\<close>

lemma copies_go_first:
  assumes "purge locked stuck fails p now h = (h', c, bad)" and "\<not> fails ''outbox_payloads''" and "periods_ok p"
    and "order_day r < ago now (guest_details_days p)" and "e \<in> set (outbox (h_db h'))"
    and "jget ''order_id'' (ev_payload e) = Some (JId (o_id r))" and "ev_created_at e \<le> order_day r"
    and "ev_status e = SENT \<longrightarrow> (\<exists>t. sent_at e = Some t \<and> t \<le> ev_created_at e + outbox_unsent_days p * DAY)"
  shows "is_thin (ev_payload e) \<and> jget ''customer_name'' (ev_payload e) = None \<and> jget ''phone'' (ev_payload e) = None \<and>
    jget ''note'' (ev_payload e) = None"
proof -
  have "payloads_gone p now (h_db h')"
    using purge_goal [OF assms(1,2)] by (simp add: goal_of_eqs purge_names)
  moreover have c: "ev_created_at e < now - guest_details_days p * DAY" using assms(4,7) by (simp add: ago_def)
  moreover have "outbox_unsent_days p + outbox_sent_days p \<le> guest_details_days p" "0 \<le> outbox_sent_days p" "0 \<le> outbox_unsent_days p"
    using assms(3) by (simp_all add: periods_ok_def payload_copies_go_before_their_rows_def day_period_def)
  moreover from this have "outbox_unsent_days p * DAY + outbox_sent_days p * DAY \<le> guest_details_days p * DAY"
    "0 \<le> outbox_sent_days p * DAY" "0 \<le> outbox_unsent_days p * DAY"
    by (simp_all add: DAY_def)
  ultimately have t: "is_thin (ev_payload e)"
    using assms(5,8) by (force simp: payloads_gone_def ago_def)
  have "jget k (ev_payload e) = None" if "k \<notin> set OUTBOX_KEEP" for k
    using t that by (cases "ev_payload e") (auto simp: is_thin_def list_all_iff map_of_eq_None_iff)
  with t show ?thesis by (simp add: OUTBOX_KEEP_def)
qed


section \<open>A pass after two years\<close>

definition two_years :: instant where "two_years = 800 * DAY"

definition peanut_order :: order where
  "peanut_order = \<lparr>o_id = 41, o_tenant_id = 7, o_call_id = 3, o_type = OPickup, o_status = OConfirmed, o_customer_id = Some 11,
     o_address_id = None, o_phone = ''+4972215551234'', o_booked_on_own_line = True, customer_name = ''Bauer'',
     items_total_cents = 950, delivery_fee_cents = 0, total_cents = 950, ready_at = Some HOUR, o_note = Some ''Grund: Allergie'',
     o_idempotency_key = ''k'', pickup_code = Some ''A1'', handover_state = Some SENT, register_entered_at = None,
     o_created_at = 0, o_deleted_at = None\<rparr>"

definition peanut_slip :: outbox_event where
  "peanut_slip = \<lparr>ev_id = 42, ev_tenant_id = 7, event_type = ''order.confirmed'',
     ev_payload = JObj [(''order_id'', JId 41), (''customer_name'', JStr ''Bauer''), (''note'', JStr ''Grund: Allergie'')],
     ev_status = SENT, attempts = 1, next_attempt_at = 0, last_error = None, sent_at = Some MINUTE, ev_created_at = 0\<rparr>"

definition old_house :: house where
  "old_house = \<lparr>h_db = family_db\<lparr>tenants := [\<lparr>t_id = 7, t_name = ''Maex'', t_timezone = berlin\<rparr>], orders := [peanut_order],
     outbox := [peanut_slip]\<rparr>,
     recordings = [\<lparr>rc_id = 51, rc_tenant_id = 7, rc_call_id = 3, file_name = ''s.wav'', rc_started_at = 0, withdrawn_at = None\<rparr>],
     consents = [], requests = [], folder = [''s.wav'']\<rparr>"


text \<open>The peanut of the note goes with the night, the guest, the caller and the recording with their
  periods; the slip of the pickup keeps its number.\<close>

definition forgetful_house :: house where
  "forgetful_house = fst (purge (\<lambda>_. False) (\<lambda>_. False) (\<lambda>_. False) default_periods two_years old_house)"

lemma old_house_purged:
  "purge (\<lambda>_. False) (\<lambda>_. False) (\<lambda>_. False) default_periods two_years old_house = (forgetful_house,
     snd (purge (\<lambda>_. False) (\<lambda>_. False) (\<lambda>_. False) default_periods two_years old_house))"
  by (simp add: forgetful_house_def)


theorem purge_spares_witness:
  "map total_cents (orders (h_db forgetful_house)) = [950] \<and> map started_at (calls (h_db forgetful_house)) = [0]"
proof -
  obtain c bad where "purge (\<lambda>_. False) (\<lambda>_. False) (\<lambda>_. False) default_periods two_years old_house = (forgetful_house, c, bad)"
    using old_house_purged by (metis prod.collapse)
  from purge_spares [OF this]
  have "map order_gone (orders (h_db forgetful_house)) = map order_gone (orders (h_db old_house))"
    "map (\<lambda>k. k\<lparr>caller_id := None\<rparr>) (calls (h_db forgetful_house)) = map (\<lambda>k. k\<lparr>caller_id := None\<rparr>) (calls (h_db old_house))"
    by simp_all
  from arg_cong [OF this(1), of "map total_cents"] arg_cong [OF this(2), of "map started_at"]
  show ?thesis by (simp add: order_gone_def comp_def old_house_def family_db_def peanut_order_def)
qed

end
