(* ===== verification/Requests.thy ===== *)
theory Requests
  imports Retention Ticket "HOL-Library.List_Lexorder" "HOL-Library.Char_ord"
begin

text \<open>
  The requests of guests about their data (\<open>api/domain/customers/requests.py\<close>): the log with its deadlines,
  the verification of a person by what only they know, what an erasure takes and what it leaves, and the
  objection to being recognised. A Python set is the list of its members. The job that runs them
  (\<open>api/jobs/data_requests.py\<close>) writes the ledger before it commits.
\<close>

section \<open>The log\<close>

definition ACTOR_JOB :: str where "ACTOR_JOB = ''job:data_requests''"

definition LONGEST_DEADLINE_MONTHS :: int where "LONGEST_DEADLINE_MONTHS = 3"

definition request_kind_str :: "request_kind \<Rightarrow> str" where
  "request_kind_str k = (case k of Access \<Rightarrow> ''access'' | Erasure \<Rightarrow> ''erasure'' | Objection \<Rightarrow> ''objection'')"

definition request_channel_str :: "request_channel \<Rightarrow> str" where
  "request_channel_str c = (case c of ByPhone \<Rightarrow> ''phone'' | ByMail \<Rightarrow> ''mail'' | InPerson \<Rightarrow> ''in_person'')"

definition request_outcome_str :: "request_outcome \<Rightarrow> str" where
  "request_outcome_str r = (case r of RqDone \<Rightarrow> ''done'' | RqNotVerified \<Rightarrow> ''not_verified''
     | RqRefused \<Rightarrow> ''refused'' | RqWithdrawn \<Rightarrow> ''withdrawn'')"

text \<open>\<open>dsr_[0-9]{4}_[0-9]{3,}\<close>, \<open>int\<close> of the digits behind the last underscore, and \<open>f"{n:03d}"\<close>.\<close>

definition is_reference :: "str \<Rightarrow> bool" where
  "is_reference s \<longleftrightarrow> take 4 s = ''dsr_'' \<and> length (take 4 (drop 4 s)) = 4 \<and> list_all is_digit (take 4 (drop 4 s)) \<and>
     take 1 (drop 8 s) = ''_'' \<and> 3 \<le> length (drop 9 s) \<and> list_all is_digit (drop 9 s)"

definition digits_value :: "str \<Rightarrow> nat" where
  "digits_value s = foldl (\<lambda>n c. 10 * n + (of_char c - 48)) 0 s"

definition after_last_underscore :: "str \<Rightarrow> str" where
  "after_last_underscore s = rev (takeWhile (\<lambda>c. c \<noteq> CHR ''_'') (rev s))"

definition three_digits :: "nat \<Rightarrow> str" where
  "three_digits n = replicate (3 - length (str_nat n)) (CHR ''0'') @ str_nat n"

definition year_prefix :: "int \<Rightarrow> str" where
  "year_prefix year = ''dsr_'' @ str_int year @ ''_''"

definition taken_numbers :: "uuid \<Rightarrow> int \<Rightarrow> house \<Rightarrow> nat list" where
  "taken_numbers tid year h = map (\<lambda>r. digits_value (after_last_underscore (reference r)))
     (filter (\<lambda>r. dq_tenant_id r = tid \<and> py_startswith (reference r) (year_prefix year)) (requests h))"

definition next_reference :: "uuid \<Rightarrow> int \<Rightarrow> house \<Rightarrow> str" where
  "next_reference tid year h = year_prefix year @ three_digits (Max (set (0 # taken_numbers tid year h)) + 1)"

definition find_request :: "uuid \<Rightarrow> str \<Rightarrow> house \<Rightarrow> data_request option" where
  "find_request tid ref h = find (\<lambda>r. dq_tenant_id r = tid \<and> reference r = ref) (requests h)"

definition get_request :: "uuid \<Rightarrow> str \<Rightarrow> house \<Rightarrow> app_error + data_request" where
  "get_request tid ref h = (case find_request tid ref h of None \<Rightarrow> raise_err NotFound None | Some r \<Rightarrow> Inr r)"

definition open_requests :: "uuid \<Rightarrow> house \<Rightarrow> data_request list" where
  "open_requests tid h = sort_key dq_deadline (sort_key reference
     (filter (\<lambda>r. dq_tenant_id r = tid \<and> dq_answered_at r = None) (requests h)))"

text \<open>\<open>_audit\<close>: no name and no number.\<close>

definition request_audit :: "data_request \<Rightarrow> str \<Rightarrow> (str \<times> json) list \<Rightarrow> house \<Rightarrow> house" where
  "request_audit r what payload h =
     h\<lparr>h_db := add_audit (dq_tenant_id r) ACTOR_JOB what ''data_subject_request'' (dq_id r) (JObj payload) (h_db h)\<rparr>"

definition local_day :: "zone \<Rightarrow> instant \<Rightarrow> int" where
  "local_day z u = ldate (astimezone z u)"

definition months_later :: "int \<Rightarrow> int \<Rightarrow> app_error + int" where
  "months_later day n = (case add_months (ymd_of_date day) n of None \<Rightarrow> raise_err UncaughtError None
     | Some e \<Rightarrow> Inr (date_of_ymd e))"

definition pick_reference :: "uuid \<Rightarrow> int \<Rightarrow> str option \<Rightarrow> house \<Rightarrow> app_error + str" where
  "pick_reference tid year ref h =
     (case ref of None \<Rightarrow> Inr (next_reference tid year h)
      | Some s \<Rightarrow> if \<not> is_reference s then raise_err InvalidInput None
          else if find_request tid s h \<noteq> None then raise_err Conflict None else Inr s)"

definition log_request ::
  "uuid \<Rightarrow> request_kind \<Rightarrow> request_channel \<Rightarrow> str option \<Rightarrow> instant \<Rightarrow> zone \<Rightarrow> str option \<Rightarrow> house \<Rightarrow>
   app_error + data_request \<times> house" where
  "log_request tid kind channel note received z ref h =
     (let day = local_day z received in
      andthen (pick_reference tid (ymd_year (ymd_of_date day)) ref h) (\<lambda>s.
      andthen (months_later day 1) (\<lambda>until.
        let r = \<lparr>dq_id = next_id (h_db h), dq_tenant_id = tid, reference = s, dq_kind = kind, dq_channel = channel,
                 received_at = received, dq_deadline = until, verification_note = note, dq_answered_at = None,
                 dq_outcome = None, dq_delete_after = None\<rparr>
        in Inr (r, request_audit r ''data_subject.request_logged''
             [(''kind'', JStr (request_kind_str kind)), (''channel'', JStr (request_channel_str channel))]
             (h\<lparr>requests := requests h @ [r], h_db := (h_db h)\<lparr>next_id := Suc (next_id (h_db h))\<rparr>\<rparr>)))))"

definition put_request :: "data_request \<Rightarrow> house \<Rightarrow> house" where
  "put_request r h = h\<lparr>requests := upd_rows (\<lambda>x. dq_id x = dq_id r) (\<lambda>_. r) (requests h)\<rparr>"

definition extend_deadline :: "data_request \<Rightarrow> zone \<Rightarrow> house \<Rightarrow> app_error + house" where
  "extend_deadline r z h =
     andthen (months_later (local_day z (received_at r)) LONGEST_DEADLINE_MONTHS) (\<lambda>longest.
       if dq_answered_at r \<noteq> None \<or> longest \<le> dq_deadline r then raise_err Conflict None
       else Inr (request_audit r ''data_subject.deadline_extended'' [] (put_request (r\<lparr>dq_deadline := longest\<rparr>) h)))"

text \<open>\<open>date(year, 12, 31)\<close> raises for a year above 9999.\<close>

definition answer_request :: "int \<Rightarrow> data_request \<Rightarrow> request_outcome \<Rightarrow> instant \<Rightarrow> zone \<Rightarrow> house \<Rightarrow> app_error + house" where
  "answer_request log_years r outcome at z h =
     (if dq_answered_at r \<noteq> None then raise_err Conflict None
      else let day = local_day z at; year = ymd_year (ymd_of_date day) + log_years in
        if day < local_day z (received_at r) then raise_err InvalidInput None
        else if year > 9999 then raise_err UncaughtError None
        else Inr (request_audit r ''data_subject.request_answered'' [(''outcome'', JStr (request_outcome_str outcome))]
          (put_request (r\<lparr>dq_answered_at := Some at, dq_outcome := Some outcome,
             dq_delete_after := Some (date_of_ymd \<lparr>ymd_year = year, ymd_month = 12, ymd_day = 31\<rparr>)\<rparr>) h)))"

section \<open>Who it is\<close>

record details =
  de_name :: str
  de_days :: "int list"
  de_street :: "str option"
  de_house_number :: "str option"
  de_postal_code :: "str option"
  de_phones :: "str list"

datatype person_row = POrder order | PTable reservation | PCustomer customer

fun row_phone :: "person_row \<Rightarrow> str" where
  "row_phone (POrder r) = o_phone r"
| "row_phone (PTable r) = r_phone r"
| "row_phone (PCustomer c) = cu_phone c"

datatype kept_table = TOrders | TReservations | TCallbacks

record person =
  pe_phones :: "str list"
  pe_customers :: "customer list"
  pe_orders :: "order list"
  pe_tables :: "reservation list"
  pe_calls :: "call list"
  pe_callbacks :: "callback list"
  unclaimed_calls :: "call list"
  unclaimed_callbacks :: "callback list"
  open_rows :: "(kept_table \<times> uuid) list"

definition folded :: "str \<Rightarrow> str" where
  "folded s = fold_name (py_join '' '' (py_split s))"

text \<open>\<open>_on_day\<close> with \<open>_own_line\<close>, \<open>_by_day\<close>, \<open>_by_address\<close>.\<close>

definition by_day :: "db \<Rightarrow> uuid \<Rightarrow> int \<Rightarrow> zone \<Rightarrow> str \<Rightarrow> customer list" where
  "by_day d tid day z name = filter (\<lambda>c. cu_tenant_id c = tid \<and> order_count c > 0 \<and>
     ((case last_order_at c of None \<Rightarrow> False | Some t \<Rightarrow> local_day z t = day) \<or> local_day z (last_contact_at c) = day) \<and>
     folded (cu_name c) = name) (customers d)"

definition on_day :: "db \<Rightarrow> uuid \<Rightarrow> int \<Rightarrow> zone \<Rightarrow> str \<Rightarrow> person_row list" where
  "on_day d tid day z name =
     map POrder (filter (\<lambda>r. o_booked_on_own_line r \<and> local_day z (order_day r) = day \<and> o_tenant_id r = tid \<and>
       folded (customer_name r) = name) (orders d)) @
     map PTable (filter (\<lambda>r. r_booked_on_own_line r \<and> local_day z (reserved_for r) = day \<and> r_tenant_id r = tid \<and>
       folded (guest_name r) = name) (reservations d)) @
     map PCustomer (by_day d tid day z name)"

definition or_blank :: "str option \<Rightarrow> str" where
  "or_blank s = (case s of None \<Rightarrow> [] | Some t \<Rightarrow> t)"

definition lives_at :: "details \<Rightarrow> address \<Rightarrow> bool" where
  "lives_at x a \<longleftrightarrow> postal_code a = py_strip (or_blank (de_postal_code x)) \<and>
     folded (street a) = folded (or_blank (de_street x)) \<and>
     filter (\<lambda>c. c \<noteq> CHR '' '') (folded (house_number a)) = filter (\<lambda>c. c \<noteq> CHR '' '') (folded (or_blank (de_house_number x)))"

definition by_address :: "db \<Rightarrow> uuid \<Rightarrow> details \<Rightarrow> str \<Rightarrow> person_row list" where
  "by_address d tid x name = concat (map (\<lambda>c. map (\<lambda>_. PCustomer c) (filter (\<lambda>a. a_customer_id a = cu_id c \<and> lives_at x a) (addresses d)))
     (filter (\<lambda>c. cu_tenant_id c = tid \<and> order_count c > 0 \<and> folded (cu_name c) = name) (customers d)))"

text \<open>\<open>_names_on_calls\<close>\<close>

definition names_on :: "db \<Rightarrow> uuid \<Rightarrow> uuid \<Rightarrow> str list" where
  "names_on d tid cid =
     map (\<lambda>r. folded (customer_name r)) (filter (\<lambda>r. o_tenant_id r = tid \<and> customer_name r \<noteq> [] \<and> o_call_id r = cid) (orders d)) @
     map (\<lambda>r. folded (guest_name r)) (filter (\<lambda>r. r_tenant_id r = tid \<and> guest_name r \<noteq> [] \<and> r_call_id r = Some cid) (reservations d))"

definition without_prefix :: "str \<Rightarrow> str \<Rightarrow> str" where
  "without_prefix p s = (if py_startswith s p then drop (length p) s else s)"

definition national_digits :: "str \<Rightarrow> str" where
  "national_digits phone = without_prefix DEFAULT_COUNTRY_CODE (without_prefix ''+'' phone)"

definition contains_str :: "str \<Rightarrow> str \<Rightarrow> bool" where
  "contains_str s x \<longleftrightarrow> list_ex (\<lambda>i. py_startswith (drop i s) x) [0..<Suc (length s)]"

definition on_number :: "str list \<Rightarrow> call \<Rightarrow> bool" where
  "on_number phones c \<longleftrightarrow> (case caller_id c of None \<Rightarrow> False
     | Some line \<Rightarrow> list_ex (\<lambda>p. contains_str (filter is_digit line) (national_digits p)) phones)"

text \<open>\<open>_calls_and_callbacks\<close>: \<open>sole\<close> are the own calls with the name of nobody else.\<close>

definition own_calls :: "order list \<Rightarrow> reservation list \<Rightarrow> uuid list" where
  "own_calls os ts = map o_call_id os @ List.map_filter r_call_id ts"

definition sole_calls :: "db \<Rightarrow> uuid \<Rightarrow> order list \<Rightarrow> reservation list \<Rightarrow> uuid list" where
  "sole_calls d tid os ts =
     (let own_names = map (\<lambda>r. folded (customer_name r)) os @ map (\<lambda>r. folded (guest_name r)) ts
      in filter (\<lambda>c. set (names_on d tid c) \<subseteq> set own_names) (own_calls os ts))"

text \<open>\<open>on_offer\<close>: a row the guest may claim.\<close>

definition on_offer :: "db \<Rightarrow> uuid \<Rightarrow> order list \<Rightarrow> reservation list \<Rightarrow> uuid \<Rightarrow> bool" where
  "on_offer d tid os ts cid \<longleftrightarrow> cid \<notin> set (sole_calls d tid os ts) \<and>
     (cid \<in> set (own_calls os ts) \<or> names_on d tid cid = [])"

definition near_calls :: "db \<Rightarrow> uuid \<Rightarrow> order list \<Rightarrow> reservation list \<Rightarrow> str list \<Rightarrow> call list" where
  "near_calls d tid os ts phones = sort_key started_at (sort_key c_id
     (filter (\<lambda>c. c_tenant_id c = tid \<and> (c_id c \<in> set (own_calls os ts) \<or> on_number phones c)) (calls d)))"

definition near_callbacks :: "db \<Rightarrow> uuid \<Rightarrow> order list \<Rightarrow> reservation list \<Rightarrow> str list \<Rightarrow> callback list" where
  "near_callbacks d tid os ts phones = sort_key cb_created_at (sort_key cb_id
     (filter (\<lambda>b. cb_tenant_id b = tid \<and> (cb_call_id b \<in> set (own_calls os ts) \<or> cb_phone b \<in> set phones)) (callbacks d)))"

definition calls_and_callbacks ::
  "db \<Rightarrow> uuid \<Rightarrow> order list \<Rightarrow> reservation list \<Rightarrow> str list \<Rightarrow> uuid list \<Rightarrow>
   app_error + call list \<times> callback list \<times> call list \<times> callback list" where
  "calls_and_callbacks d tid os ts phones claimed =
     (let sole = sole_calls d tid os ts; offer = on_offer d tid os ts;
          cs = near_calls d tid os ts phones; bs = near_callbacks d tid os ts phones;
          mine = (\<lambda>i cid. cid \<in> set sole \<or> offer cid \<and> i \<in> set claimed);
          ask = (\<lambda>i cid. offer cid \<and> i \<notin> set claimed);
          offers = map c_id (filter (\<lambda>c. offer (c_id c)) cs) @ map cb_id (filter (\<lambda>b. offer (cb_call_id b)) bs)
      in if \<not> set claimed \<subseteq> set offers then raise_err InvalidInput None
         else Inr (filter (\<lambda>c. mine (c_id c) (c_id c)) cs, filter (\<lambda>b. mine (cb_id b) (cb_call_id b)) bs,
                   filter (\<lambda>c. ask (c_id c) (c_id c)) cs, filter (\<lambda>b. ask (cb_id b) (cb_call_id b)) bs))"

text \<open>\<open>_open_rows\<close>: what is still being served.\<close>

definition OPEN_ORDER_STATUSES :: "order_status list" where
  "OPEN_ORDER_STATUSES = [OConfirmed, OApproved]"

definition call_lifetime :: "db \<Rightarrow> uuid \<Rightarrow> int" where
  "call_lifetime d tid = (case get_config d tid of None \<Rightarrow> 0 | Some c \<Rightarrow> max_call_seconds c) * SECOND"

definition call_runs :: "db \<Rightarrow> uuid option \<Rightarrow> bool" where
  "call_runs d cid \<longleftrightarrow> (case Option.bind cid (get_call d) of None \<Rightarrow> False | Some c \<Rightarrow> ended_at c = None)"

definition live_draft_order :: "db \<Rightarrow> uuid \<Rightarrow> instant \<Rightarrow> order \<Rightarrow> bool" where
  "live_draft_order d tid now r \<longleftrightarrow> o_tenant_id r = tid \<and> o_status r = ODraft \<and> o_deleted_at r = None \<and>
     now - call_lifetime d tid < o_created_at r \<and> call_runs d (Some (o_call_id r))"

definition live_draft_table :: "db \<Rightarrow> uuid \<Rightarrow> instant \<Rightarrow> reservation \<Rightarrow> bool" where
  "live_draft_table d tid now r \<longleftrightarrow> r_tenant_id r = tid \<and> r_status r = RDraft \<and> r_deleted_at r = None \<and>
     now - call_lifetime d tid < r_created_at r \<and> call_runs d (r_call_id r)"

definition WAITING_KEYS :: "str list" where
  "WAITING_KEYS = [''order_id'', ''reservation_id'', ''callback_id'']"

definition waiting :: "db \<Rightarrow> uuid \<Rightarrow> uuid \<Rightarrow> bool" where
  "waiting d tid i \<longleftrightarrow> list_ex (\<lambda>e. ev_tenant_id e = tid \<and> ev_status e = PENDING \<and>
     list_ex (\<lambda>k. jget k (ev_payload e) = Some (JId i)) WAITING_KEYS) (outbox d)"

definition order_open :: "db \<Rightarrow> uuid \<Rightarrow> instant \<Rightarrow> order \<Rightarrow> bool" where
  "order_open d tid now r \<longleftrightarrow> waiting d tid (o_id r) \<or> live_draft_order d tid now r \<or>
     o_status r \<in> set OPEN_ORDER_STATUSES \<and> o_deleted_at r = None \<and> (handover_state r \<noteq> Some SENT \<or> now < order_day r)"

definition table_open :: "db \<Rightarrow> uuid \<Rightarrow> instant \<Rightarrow> reservation \<Rightarrow> bool" where
  "table_open d tid now r \<longleftrightarrow> waiting d tid (r_id r) \<or> live_draft_table d tid now r \<or>
     r_status r = RConfirmed \<and> r_deleted_at r = None \<and> now < reserved_for r"

definition callback_open :: "db \<Rightarrow> uuid \<Rightarrow> callback \<Rightarrow> bool" where
  "callback_open d tid b \<longleftrightarrow> waiting d tid (cb_id b) \<or> cb_status b = OpenCb \<and> cb_deleted_at b = None"

definition open_rows_of :: "db \<Rightarrow> uuid \<Rightarrow> order list \<Rightarrow> reservation list \<Rightarrow> callback list \<Rightarrow> instant \<Rightarrow> (kept_table \<times> uuid) list" where
  "open_rows_of d tid os ts bs now =
     map (\<lambda>r. (TOrders, o_id r)) (filter (order_open d tid now) os) @
     map (\<lambda>r. (TReservations, r_id r)) (filter (table_open d tid now) ts) @
     map (\<lambda>b. (TCallbacks, cb_id b)) (filter (callback_open d tid) bs)"

text \<open>\<open>_one_person\<close>, and what the details open.\<close>

definition one_person :: "str list \<Rightarrow> person_row list \<Rightarrow> app_error + person_row list" where
  "one_person said rows =
     (let rows = filter (\<lambda>r. said = [] \<or> row_phone r \<in> set said) rows
      in if 1 < length (remdups (map row_phone rows)) then raise_err Ambiguous None else Inr rows)"

definition has_address :: "details \<Rightarrow> bool" where
  "has_address x \<longleftrightarrow> or_blank (de_street x) \<noteq> [] \<and> or_blank (de_house_number x) \<noteq> [] \<and> or_blank (de_postal_code x) \<noteq> []"

definition opened :: "db \<Rightarrow> uuid \<Rightarrow> details \<Rightarrow> zone \<Rightarrow> person_row list list" where
  "opened d tid x z =
     (let name = folded (de_name x)
      in map (\<lambda>day. on_day d tid day z name) (de_days x) @ (if has_address x then [by_address d tid x name] else []))"

definition linked_customers :: "person_row list \<Rightarrow> uuid list" where
  "linked_customers found = List.map_filter (\<lambda>r. case r of PCustomer c \<Rightarrow> Some (cu_id c) | POrder r \<Rightarrow> o_customer_id r | PTable _ \<Rightarrow> None) found"

definition person_of ::
  "db \<Rightarrow> uuid \<Rightarrow> str \<Rightarrow> instant \<Rightarrow> uuid list \<Rightarrow> person_row list \<Rightarrow> app_error + person" where
  "person_of d tid name now claimed found =
     (let phones = remdups (map row_phone found);
          linked = linked_customers found;
          cus = filter (\<lambda>c. cu_tenant_id c = tid \<and> (cu_id c \<in> set linked \<or> cu_phone c \<in> set phones \<and> folded (cu_name c) = name)) (customers d);
          hangs = (\<lambda>r. case o_customer_id r of None \<Rightarrow> False | Some i \<Rightarrow> i \<in> set (map cu_id cus));
          os = sort_key o_created_at (sort_key o_id (filter (\<lambda>r. o_tenant_id r = tid \<and>
                 (hangs r \<or> o_phone r \<in> set phones \<and> folded (customer_name r) = name)) (orders d)));
          ts = sort_key r_created_at (sort_key r_id (filter (\<lambda>r. r_tenant_id r = tid \<and>
                 r_phone r \<in> set phones \<and> folded (guest_name r) = name) (reservations d)))
      in andthen (calls_and_callbacks d tid os ts phones claimed) (\<lambda>(cs, bs, ucs, ubs).
           Inr \<lparr>pe_phones = phones, pe_customers = cus, pe_orders = os, pe_tables = ts, pe_calls = cs, pe_callbacks = bs,
              unclaimed_calls = ucs, unclaimed_callbacks = ubs, open_rows = open_rows_of d tid os ts bs now\<rparr>))"

definition verify :: "db \<Rightarrow> uuid \<Rightarrow> details \<Rightarrow> zone \<Rightarrow> instant \<Rightarrow> uuid list \<Rightarrow> app_error + person" where
  "verify d tid x z now claimed =
     (let name = folded (de_name x) in
      if name = [] \<or> de_days x = [] \<and> \<not> has_address x then raise_err InvalidInput None
      else andthen (map_res (normalize_phone DEFAULT_COUNTRY_CODE) (de_phones x)) (\<lambda>said.
        andthen (map_res (one_person said) (opened d tid x z)) (\<lambda>parts.
          let found = concat parts in
          if found = [] then raise_err NotFound None
          else if 1 < length (remdups (map row_phone found)) \<and> said = [] then raise_err Ambiguous None
          else person_of d tid name now claimed found)))"

section \<open>Erasure and objection\<close>

text \<open>The ledger: table, row, what happened to it. \<open>_write\<close> puts down every row the statement hit.\<close>

type_synonym ledger = "(str \<times> uuid \<times> str) list"

definition hit_lines :: "str \<Rightarrow> str \<Rightarrow> ('r \<Rightarrow> uuid) \<Rightarrow> ('r \<Rightarrow> bool) \<Rightarrow> 'r list \<Rightarrow> ledger" where
  "hit_lines table what key p rs = map (\<lambda>r. (table, key r, what)) (filter p rs)"

definition require :: "data_request \<Rightarrow> request_kind \<Rightarrow> app_error + unit" where
  "require r kind = (if dq_kind r \<noteq> kind \<or> dq_answered_at r \<noteq> None then raise_err Conflict None else Inr ())"

text \<open>\<open>_event_of\<close>: by the row an event is about, never by its call.\<close>

definition event_of :: "uuid list \<Rightarrow> uuid list \<Rightarrow> uuid list \<Rightarrow> outbox_event \<Rightarrow> bool" where
  "event_of os ts bs e \<longleftrightarrow> names_row ''order_id'' os (ev_payload e) \<or> names_row ''reservation_id'' ts (ev_payload e) \<or>
     names_row ''callback_id'' bs (ev_payload e)"

definition own_call :: "uuid \<Rightarrow> call list \<Rightarrow> call \<Rightarrow> bool" where
  "own_call tid cs c \<longleftrightarrow> c_tenant_id c = tid \<and> c_id c \<in> set (map c_id cs) \<and> caller_id c \<noteq> None"

definition clear_calls :: "uuid \<Rightarrow> call list \<Rightarrow> house \<Rightarrow> ledger \<times> house" where
  "clear_calls tid cs h =
     (hit_lines ''calls'' ''cleared'' c_id (own_call tid cs) (calls (h_db h)),
      h\<lparr>h_db := (h_db h)\<lparr>calls := upd_rows (own_call tid cs) (\<lambda>c. c\<lparr>caller_id := None\<rparr>) (calls (h_db h))\<rparr>\<rparr>)"

definition order_erased :: "order \<Rightarrow> order" where
  "order_erased r = (order_gone r)\<lparr>o_status := (if o_status r = ODraft then OCancelled else o_status r)\<rparr>"

text \<open>What \<open>erase\<close> takes: the ids of the person's rows without the ones the guest keeps.\<close>

record targets =
  tg_tenant :: uuid
  tg_orders :: "uuid list"
  tg_tables :: "uuid list"
  tg_callbacks :: "uuid list"
  tg_customers :: "uuid list"
  tg_calls :: "call list"

definition targets_of :: "uuid \<Rightarrow> person \<Rightarrow> uuid list \<Rightarrow> targets" where
  "targets_of tid p keep = \<lparr>tg_tenant = tid, tg_orders = map o_id (pe_orders p),
     tg_tables = filter (\<lambda>i. i \<notin> set keep) (map r_id (pe_tables p)),
     tg_callbacks = filter (\<lambda>i. i \<notin> set keep) (map cb_id (pe_callbacks p)),
     tg_customers = map cu_id (pe_customers p), tg_calls = pe_calls p\<rparr>"

definition dead_event :: "targets \<Rightarrow> outbox_event \<Rightarrow> bool" where
  "dead_event g e \<longleftrightarrow> ev_tenant_id e = tg_tenant g \<and> event_of [] (tg_tables g) [] e"

definition thin_event :: "targets \<Rightarrow> outbox_event \<Rightarrow> bool" where
  "thin_event g e \<longleftrightarrow> ev_tenant_id e = tg_tenant g \<and> event_of (tg_orders g) [] (tg_callbacks g) e \<and> \<not> is_thin (ev_payload e)"

definition dead_table :: "targets \<Rightarrow> reservation \<Rightarrow> bool" where
  "dead_table g r \<longleftrightarrow> r_tenant_id r = tg_tenant g \<and> r_id r \<in> set (tg_tables g)"

definition noted_item :: "targets \<Rightarrow> order_item \<Rightarrow> bool" where
  "noted_item g r \<longleftrightarrow> oi_tenant_id r = tg_tenant g \<and> oi_order_id r \<in> set (tg_orders g) \<and> oi_note r \<noteq> None"

definition own_order :: "targets \<Rightarrow> order \<Rightarrow> bool" where
  "own_order g r \<longleftrightarrow> o_tenant_id r = tg_tenant g \<and> o_id r \<in> set (tg_orders g)"

definition told_callback :: "targets \<Rightarrow> callback \<Rightarrow> bool" where
  "told_callback g b \<longleftrightarrow> cb_tenant_id b = tg_tenant g \<and> cb_id b \<in> set (tg_callbacks g) \<and> (cb_phone b \<noteq> [] \<or> cb_summary b \<noteq> [])"

definition own_recording :: "targets \<Rightarrow> recording \<Rightarrow> bool" where
  "own_recording g r \<longleftrightarrow> rc_tenant_id r = tg_tenant g \<and> rc_call_id r \<in> set (map c_id (tg_calls g)) \<and> withdrawn_at r = None"

definition own_address :: "targets \<Rightarrow> address \<Rightarrow> bool" where
  "own_address g a \<longleftrightarrow> a_tenant_id a = tg_tenant g \<and> a_customer_id a \<in> set (tg_customers g)"

definition own_customer :: "targets \<Rightarrow> customer \<Rightarrow> bool" where
  "own_customer g c \<longleftrightarrow> cu_tenant_id c = tg_tenant g \<and> cu_id c \<in> set (tg_customers g)"

text \<open>An order whose customer or address goes loses the link (SET NULL).\<close>

definition cut_link :: "uuid list \<Rightarrow> uuid option \<Rightarrow> uuid option" where
  "cut_link gone link = (case link of None \<Rightarrow> None | Some i \<Rightarrow> if i \<in> set gone then None else Some i)"

definition unlinked :: "uuid list \<Rightarrow> uuid list \<Rightarrow> order \<Rightarrow> order" where
  "unlinked cus ads r = r\<lparr>o_customer_id := cut_link cus (o_customer_id r), o_address_id := cut_link ads (o_address_id r)\<rparr>"

definition erased_db :: "targets \<Rightarrow> db \<Rightarrow> ledger \<times> db" where
  "erased_db g d =
     (let left = drop_rows (dead_event g) (outbox d);
          ads = map a_id (filter (own_address g) (addresses d)); cus = map cu_id (filter (own_customer g) (customers d));
          tabs = map r_id (filter (dead_table g) (reservations d)); cs = own_call (tg_tenant g) (tg_calls g)
      in (hit_lines ''outbox'' ''deleted'' ev_id (dead_event g) (outbox d) @
          hit_lines ''outbox'' ''thinned'' ev_id (thin_event g) left @
          hit_lines ''reservations'' ''deleted'' r_id (dead_table g) (reservations d) @
          hit_lines ''order_items'' ''cleared'' oi_id (noted_item g) (order_items d) @
          hit_lines ''orders'' ''cleared'' o_id (own_order g) (orders d) @
          hit_lines ''callbacks'' ''cleared'' cb_id (told_callback g) (callbacks d) @
          hit_lines ''calls'' ''cleared'' c_id cs (calls d) @ [],
          d\<lparr>outbox := upd_rows (thin_event g) (\<lambda>e. e\<lparr>ev_payload := thin_payload (ev_payload e)\<rparr>) left,
            reservations := drop_rows (dead_table g) (reservations d),
            reservation_tables := drop_rows (\<lambda>t. rt_reservation_id t \<in> set tabs) (reservation_tables d),
            order_items := upd_rows (noted_item g) (\<lambda>r. r\<lparr>oi_note := None\<rparr>) (order_items d),
            orders := map (unlinked cus ads) (upd_rows (own_order g) order_erased (orders d)),
            callbacks := upd_rows (told_callback g) callback_gone (callbacks d),
            calls := upd_rows cs (\<lambda>c. c\<lparr>caller_id := None\<rparr>) (calls d),
            addresses := drop_rows (own_address g) (addresses d),
            customers := drop_rows (own_customer g) (customers d)\<rparr>))"

text \<open>\<open>Counter\<close>: how many rows of each table, in the order they came up.\<close>

definition counted :: "ledger \<Rightarrow> (str \<times> json) list" where
  "counted l = map (\<lambda>t. (t, JInt (int (length (filter (\<lambda>(t', _). t' = t) l))))) (rev (remdups (rev (map fst l))))"

definition erase :: "data_request \<Rightarrow> person \<Rightarrow> uuid list \<Rightarrow> house \<Rightarrow> app_error + ledger \<times> house" where
  "erase rq p keep h =
     andthen (require rq Erasure) (\<lambda>_.
       if \<not> set keep \<subseteq> set (map snd (filter (\<lambda>(t, i). t \<noteq> TOrders) (open_rows p))) then raise_err InvalidInput None
       else if list_ex (\<lambda>(t, i). i \<notin> set keep) (open_rows p) then raise_err Conflict None
       else let g = targets_of (dq_tenant_id rq) p keep;
                (l, d) = erased_db g (h_db h);
                l = l @ hit_lines ''recordings'' ''withdrawn'' rc_id (own_recording g) (recordings h) @
                    hit_lines ''addresses'' ''deleted'' a_id (own_address g) (addresses (h_db h)) @
                    hit_lines ''customers'' ''deleted'' cu_id (own_customer g) (customers (h_db h))
            in Inr (l, request_audit rq ''data_subject.erased'' (counted l)
                 (h\<lparr>h_db := d, recordings := upd_rows (own_recording g) (\<lambda>r. r\<lparr>withdrawn_at := Some (tx_now d)\<rparr>) (recordings h)\<rparr>)))"

definition objected_db :: "uuid \<Rightarrow> str list \<Rightarrow> db \<Rightarrow> db" where
  "objected_db tid phones d = d\<lparr>objections := objections d @
     map (\<lambda>p. \<lparr>ro_tenant_id = tid, ro_phone = p\<rparr>) (filter (\<lambda>p. \<not> objected d tid p) phones)\<rparr>"

definition record_objection :: "data_request \<Rightarrow> person \<Rightarrow> house \<Rightarrow> app_error + ledger \<times> house" where
  "record_objection rq p h =
     andthen (require rq Objection) (\<lambda>_.
       let (l, h1) = clear_calls (dq_tenant_id rq) (pe_calls p)
             (h\<lparr>h_db := objected_db (dq_tenant_id rq) (sort (pe_phones p)) (h_db h)\<rparr>)
       in Inr (l, request_audit rq ''data_subject.objection_recorded'' [] h1))"

section \<open>The job\<close>

text \<open>\<open>_finish\<close>: the lines of the ledger are out before the commit; \<open>stops\<close> is a process that dies in between.\<close>

record vault =
  v_house :: house
  ledger_file :: "(int \<times> str \<times> uuid \<times> str) list"

definition finish :: "bool \<Rightarrow> tenant \<Rightarrow> instant \<Rightarrow> vault \<Rightarrow> ledger \<times> house \<Rightarrow> vault" where
  "finish stops t now v lh =
     v\<lparr>ledger_file := ledger_file v @ map (Pair (local_day (t_timezone t) now)) (fst lh),
       v_house := (if stops then v_house v else snd lh)\<rparr>"

definition run_erase ::
  "bool \<Rightarrow> tenant \<Rightarrow> str \<Rightarrow> details \<Rightarrow> uuid list \<Rightarrow> uuid list \<Rightarrow> instant \<Rightarrow> vault \<Rightarrow> app_error + vault" where
  "run_erase stops t ref x claimed keep now v =
     andthen (get_request (t_id t) ref (v_house v)) (\<lambda>rq.
     andthen (verify (h_db (v_house v)) (t_id t) x (t_timezone t) now claimed) (\<lambda>p.
     andthen (erase rq p keep (v_house v)) (\<lambda>lh. Inr (finish stops t now v lh))))"

definition run_object ::
  "bool \<Rightarrow> tenant \<Rightarrow> str \<Rightarrow> details \<Rightarrow> uuid list \<Rightarrow> instant \<Rightarrow> vault \<Rightarrow> app_error + vault" where
  "run_object stops t ref x claimed now v =
     andthen (get_request (t_id t) ref (v_house v)) (\<lambda>rq.
     andthen (verify (h_db (v_house v)) (t_id t) x (t_timezone t) now claimed) (\<lambda>p.
     andthen (record_objection rq p (v_house v)) (\<lambda>lh. Inr (finish stops t now v lh))))"

section \<open>The copy\<close>

text \<open>\<open>access_copy\<close>: what the guest gets, what the team has to ask, and what is still open.\<close>

record item_copy =
  ic_number :: str
  ic_dish :: str
  ic_quantity :: int
  ic_options :: "chosen_option list"
  ic_note :: "str option"

record data_copy =
  dc_customers :: "(uuid \<times> str \<times> str \<times> instant option \<times> instant) list"
  dc_addresses :: "(str \<times> str \<times> str \<times> str \<times> str option) list"
  dc_orders :: "((uuid \<times> order_type \<times> order_status \<times> str \<times> str \<times> str option \<times> instant \<times> instant option \<times> cents) \<times> item_copy list) list"
  dc_tables :: "(uuid \<times> reservation_status \<times> str \<times> str \<times> int \<times> instant \<times> str option) list"
  dc_callbacks :: "(uuid \<times> uuid \<times> str \<times> callback_reason \<times> str \<times> callback_status \<times> instant) list"
  dc_calls :: "(uuid \<times> str option \<times> instant \<times> int option \<times> outcome option) list"
  dc_consents :: "(uuid \<times> str \<times> answer \<times> instant) list"
  dc_events :: "(str \<times> json \<times> instant) list"
  dc_recordings :: "(uuid \<times> str \<times> instant \<times> instant option) list"

record asked =
  as_calls :: "((uuid \<times> str option \<times> instant \<times> int option \<times> outcome option) \<times> bool) list"
  as_callbacks :: "(uuid \<times> uuid \<times> str \<times> callback_reason \<times> str \<times> callback_status \<times> instant) list"
  as_objections :: "str list"

definition call_fields :: "call \<Rightarrow> uuid \<times> str option \<times> instant \<times> int option \<times> outcome option" where
  "call_fields c = (c_id c, caller_id c, started_at c, duration_seconds c, c_outcome c)"

definition callback_fields :: "callback \<Rightarrow> uuid \<times> uuid \<times> str \<times> callback_reason \<times> str \<times> callback_status \<times> instant" where
  "callback_fields b = (cb_id b, cb_call_id b, cb_phone b, cb_reason b, cb_summary b, cb_status b, cb_created_at b)"

definition order_fields :: "order \<Rightarrow> uuid \<times> order_type \<times> order_status \<times> str \<times> str \<times> str option \<times> instant \<times> instant option \<times> cents" where
  "order_fields r = (o_id r, o_type r, o_status r, customer_name r, o_phone r, o_note r, o_created_at r, ready_at r, total_cents r)"

definition item_copies :: "db \<Rightarrow> uuid \<Rightarrow> uuid \<Rightarrow> app_error + item_copy list" where
  "item_copies d tid oid =
     (let rows = sort_key oi_created_at (sort_key oi_id (filter (\<lambda>r. oi_tenant_id r = tid \<and> oi_order_id r = oid) (order_items d)))
      in if rows = [] then Inr []
         else andthen (labels_for_rows d oid rows (current_labels d oid)) (\<lambda>ls.
           Inr (map (\<lambda>(r, number, dish). \<lparr>ic_number = number, ic_dish = dish, ic_quantity = quantity r,
                  ic_options = oi_options r, ic_note = oi_note r\<rparr>) (zip rows ls))))"

definition data_copy_of :: "uuid \<Rightarrow> person \<Rightarrow> item_copy list list \<Rightarrow> house \<Rightarrow> data_copy" where
  "data_copy_of tid p items h =
     (let d = h_db h; os = map o_id (pe_orders p); ts = map r_id (pe_tables p); bs = map cb_id (pe_callbacks p);
          cs = map c_id (pe_calls p)
      in \<lparr>dc_customers = map (\<lambda>c. (cu_id c, cu_name c, cu_phone c, last_order_at c, last_contact_at c)) (pe_customers p),
          dc_addresses = map (\<lambda>a. (street a, house_number a, postal_code a, city a, floor_note a))
            (filter (\<lambda>a. a_tenant_id a = tid \<and> a_customer_id a \<in> set (map cu_id (pe_customers p))) (addresses d)),
          dc_orders = zip (map order_fields (pe_orders p)) items,
          dc_tables = map (\<lambda>r. (r_id r, r_status r, guest_name r, r_phone r, party_size r, reserved_for r, r_note r)) (pe_tables p),
          dc_callbacks = map callback_fields (pe_callbacks p), dc_calls = map call_fields (pe_calls p),
          dc_consents = map (\<lambda>c. (cl_call_id c, cl_question c, cl_answer c, answered_at c))
            (filter (\<lambda>c. cl_tenant_id c = tid \<and> cl_call_id c \<in> set cs) (consents h)),
          dc_events = map (\<lambda>e. (event_type e, ev_payload e, ev_created_at e))
            (filter (\<lambda>e. ev_tenant_id e = tid \<and> event_of os ts bs e) (outbox d)),
          dc_recordings = map (\<lambda>r. (rc_call_id r, file_name r, rc_started_at r, withdrawn_at r))
            (filter (\<lambda>r. rc_tenant_id r = tid \<and> rc_call_id r \<in> set cs) (recordings h))\<rparr>)"

definition recorded :: "uuid \<Rightarrow> house \<Rightarrow> call \<Rightarrow> bool" where
  "recorded tid h c \<longleftrightarrow> list_ex (\<lambda>r. rc_tenant_id r = tid \<and> rc_call_id r = c_id c) (recordings h)"

definition access_copy :: "uuid \<Rightarrow> person \<Rightarrow> house \<Rightarrow> app_error + data_copy \<times> asked \<times> (kept_table \<times> uuid) list" where
  "access_copy tid p h =
     andthen (map_res (\<lambda>r. item_copies (h_db h) tid (o_id r)) (pe_orders p)) (\<lambda>items.
       Inr (data_copy_of tid p items h,
            \<lparr>as_calls = map (\<lambda>c. (call_fields c, recorded tid h c)) (unclaimed_calls p),
             as_callbacks = map callback_fields (unclaimed_callbacks p),
             as_objections = map ro_phone (filter (\<lambda>x. ro_tenant_id x = tid \<and> ro_phone x \<in> set (pe_phones p)) (objections (h_db h)))\<rparr>,
            open_rows p))"

end
