(* ===== verification/Privacy.thy ===== *)
theory Privacy
  imports Requests
begin

text \<open>
  What a request does to the rows of a guest: who verifies a person and what they get, that an erasure is
  complete and leaves everybody else alone, that the ledger names every row it changed, and that an
  objection ends the recognition.
\<close>

section \<open>What verifies a person\<close>

lemma one_person_Inr: "one_person said rows = Inr rs \<longleftrightarrow>
    rs = filter (\<lambda>r. said = [] \<or> row_phone r \<in> set said) rows \<and> length (remdups (map row_phone rs)) \<le> 1"
  by (auto simp: one_person_def Let_def raise_err_def)

lemma found_mem:
  assumes "map_res (one_person said) rows = Inr parts"
  shows "r \<in> set (concat parts) \<longleftrightarrow> r \<in> set (concat rows) \<and> (said = [] \<or> row_phone r \<in> set said)"
proof -
  have "list_all2 (\<lambda>x y. y = filter (\<lambda>r. said = [] \<or> row_phone r \<in> set said) x) rows parts"
    using assms by (auto simp: map_res_Inr one_person_Inr elim!: list_all2_mono)
  then show ?thesis by induction auto
qed

lemma verify_parts:
  assumes "verify d tid x z now claimed = Inr p"
  obtains said parts where "map_res (normalize_phone DEFAULT_COUNTRY_CODE) (de_phones x) = Inr said"
    and "map_res (one_person said) (opened d tid x z) = Inr parts" and "folded (de_name x) \<noteq> []"
    and "de_days x \<noteq> [] \<or> has_address x" and "concat parts \<noteq> []"
    and "1 < length (remdups (map row_phone (concat parts))) \<Longrightarrow> said \<noteq> []"
    and "person_of d tid (folded (de_name x)) now claimed (concat parts) = Inr p"
  using assms unfolding verify_def Let_def by (auto split: if_splits)

lemma person_fields:
  assumes "person_of d tid name now claimed found = Inr p"
  shows "set (pe_phones p) = row_phone ` set found"
    "pe_customers p = filter (\<lambda>c. cu_tenant_id c = tid \<and> (cu_id c \<in> set (linked_customers found) \<or>
       cu_phone c \<in> row_phone ` set found \<and> folded (cu_name c) = name)) (customers d)"
    "set (pe_orders p) = {r \<in> set (orders d). o_tenant_id r = tid \<and>
       ((\<exists>c \<in> set (pe_customers p). o_customer_id r = Some (cu_id c)) \<or>
        o_phone r \<in> row_phone ` set found \<and> folded (customer_name r) = name)}"
    "set (pe_tables p) = {r \<in> set (reservations d). r_tenant_id r = tid \<and> r_phone r \<in> row_phone ` set found \<and> folded (guest_name r) = name}"
    "calls_and_callbacks d tid (pe_orders p) (pe_tables p) (pe_phones p) claimed =
       Inr (pe_calls p, pe_callbacks p, unclaimed_calls p, unclaimed_callbacks p)"
    "open_rows p = open_rows_of d tid (pe_orders p) (pe_tables p) (pe_callbacks p) now"
proof -
  note unfolded = assms [unfolded person_of_def Let_def andthen_Inr case_prod_beta sum.inject]
  have ph: "pe_phones p = remdups (map row_phone found)" using unfolded by (elim exE conjE) (hypsubst, simp cong: option.case_cong)
  have cu: "pe_customers p = filter (\<lambda>c. cu_tenant_id c = tid \<and> (cu_id c \<in> set (linked_customers found) \<or>
       cu_phone c \<in> set (pe_phones p) \<and> folded (cu_name c) = name)) (customers d)"
    using unfolded by (elim exE conjE) (hypsubst, simp cong: option.case_cong)
  have os: "pe_orders p = sort_key o_created_at (sort_key o_id (filter (\<lambda>r. o_tenant_id r = tid \<and>
       ((case o_customer_id r of None \<Rightarrow> False | Some i \<Rightarrow> i \<in> set (map cu_id (pe_customers p))) \<or>
        o_phone r \<in> set (pe_phones p) \<and> folded (customer_name r) = name)) (orders d)))"
    using unfolded by (elim exE conjE) (hypsubst, simp cong: option.case_cong)
  have ts: "pe_tables p = sort_key r_created_at (sort_key r_id (filter (\<lambda>r. r_tenant_id r = tid \<and>
       r_phone r \<in> set (pe_phones p) \<and> folded (guest_name r) = name) (reservations d)))"
    using unfolded by (elim exE conjE) (hypsubst, simp cong: option.case_cong)
  show "calls_and_callbacks d tid (pe_orders p) (pe_tables p) (pe_phones p) claimed =
       Inr (pe_calls p, pe_callbacks p, unclaimed_calls p, unclaimed_callbacks p)"
    using unfolded by (elim exE conjE) (hypsubst, simp cong: option.case_cong)
  show "open_rows p = open_rows_of d tid (pe_orders p) (pe_tables p) (pe_callbacks p) now"
    using unfolded by (elim exE conjE) (hypsubst, simp cong: option.case_cong)
  have s: "set (pe_phones p) = row_phone ` set found" by (simp add: ph)
  show "set (pe_phones p) = row_phone ` set found" by (rule s)
  show "pe_customers p = filter (\<lambda>c. cu_tenant_id c = tid \<and> (cu_id c \<in> set (linked_customers found) \<or>
       cu_phone c \<in> row_phone ` set found \<and> folded (cu_name c) = name)) (customers d)"
    unfolding cu s by simp
  show "set (pe_orders p) = {r \<in> set (orders d). o_tenant_id r = tid \<and>
       ((\<exists>c \<in> set (pe_customers p). o_customer_id r = Some (cu_id c)) \<or>
        o_phone r \<in> row_phone ` set found \<and> folded (customer_name r) = name)}"
    unfolding os s set_sort set_filter by (intro Collect_cong conj_cong refl disj_cong) (auto split: option.split)
  show "set (pe_tables p) = {r \<in> set (reservations d). r_tenant_id r = tid \<and> r_phone r \<in> row_phone ` set found \<and> folded (guest_name r) = name}"
    unfolding ts s set_sort set_filter by simp
qed

lemma own_rows:
  assumes "calls_and_callbacks d tid os ts phones claimed = Inr (cs, bs, ucs, ubs)"
  shows "set cs = {c \<in> set (calls d). c_tenant_id c = tid \<and> (c_id c \<in> set (own_calls os ts) \<or> on_number phones c) \<and>
      (c_id c \<in> set (sole_calls d tid os ts) \<or> on_offer d tid os ts (c_id c) \<and> c_id c \<in> set claimed)}"
    and "set bs = {b \<in> set (callbacks d). cb_tenant_id b = tid \<and> (cb_call_id b \<in> set (own_calls os ts) \<or> cb_phone b \<in> set phones) \<and>
      (cb_call_id b \<in> set (sole_calls d tid os ts) \<or> on_offer d tid os ts (cb_call_id b) \<and> cb_id b \<in> set claimed)}"
  using assms by (auto simp: calls_and_callbacks_def Let_def near_calls_def near_callbacks_def raise_err_def split: if_splits)

text \<open>What a row has to show: the name, and the day or the address, on the line it was booked from.\<close>

definition proof_row :: "db \<Rightarrow> uuid \<Rightarrow> details \<Rightarrow> zone \<Rightarrow> person_row \<Rightarrow> bool" where
  "proof_row d tid x z row \<longleftrightarrow> (case row of
     POrder r \<Rightarrow> r \<in> set (orders d) \<and> o_tenant_id r = tid \<and> o_booked_on_own_line r \<and> folded (customer_name r) = folded (de_name x) \<and>
       local_day z (order_day r) \<in> set (de_days x)
   | PTable r \<Rightarrow> r \<in> set (reservations d) \<and> r_tenant_id r = tid \<and> r_booked_on_own_line r \<and> folded (guest_name r) = folded (de_name x) \<and>
       local_day z (reserved_for r) \<in> set (de_days x)
   | PCustomer c \<Rightarrow> c \<in> set (customers d) \<and> cu_tenant_id c = tid \<and> order_count c > 0 \<and> folded (cu_name c) = folded (de_name x) \<and>
       ((\<exists>t. last_order_at c = Some t \<and> local_day z t \<in> set (de_days x)) \<or> local_day z (last_contact_at c) \<in> set (de_days x) \<or>
        has_address x \<and> (\<exists>a \<in> set (addresses d). a_customer_id a = cu_id c \<and> lives_at x a)))"

lemma opened_mem: "row \<in> set (concat (opened d tid x z)) \<longleftrightarrow> proof_row d tid x z row"
proof -
  have o: "row \<in> set (concat (opened d tid x z)) \<longleftrightarrow>
      (\<exists>day \<in> set (de_days x). row \<in> set (on_day d tid day z (folded (de_name x)))) \<or>
      has_address x \<and> row \<in> set (by_address d tid x (folded (de_name x)))"
    by (auto simp: opened_def Let_def)
  show ?thesis
  proof (cases row)
    case (POrder r)
    show ?thesis unfolding o unfolding POrder by (auto simp: on_day_def by_address_def proof_row_def)
  next
    case (PTable r)
    show ?thesis unfolding o unfolding PTable by (auto simp: on_day_def by_address_def proof_row_def)
  next
    case (PCustomer c)
    have a: "PCustomer c \<in> set (on_day d tid day z n) \<longleftrightarrow> c \<in> set (customers d) \<and> cu_tenant_id c = tid \<and> order_count c > 0 \<and>
        folded (cu_name c) = n \<and> ((\<exists>t. last_order_at c = Some t \<and> local_day z t = day) \<or> local_day z (last_contact_at c) = day)" for day n
      unfolding on_day_def by_day_def by (cases "last_order_at c") auto
    have b: "PCustomer c \<in> set (by_address d tid x n) \<longleftrightarrow> c \<in> set (customers d) \<and> cu_tenant_id c = tid \<and> order_count c > 0 \<and>
        folded (cu_name c) = n \<and> (\<exists>a \<in> set (addresses d). a_customer_id a = cu_id c \<and> lives_at x a)" for n
      unfolding by_address_def by auto
    show ?thesis unfolding o unfolding PCustomer proof_row_def person_row.case a b by blast
  qed
qed

lemma opened_each: "rows \<in> set (opened d tid x z) \<Longrightarrow> r \<in> set rows \<Longrightarrow> proof_row d tid x z r"
  using opened_mem by fastforce

lemma verified:
  assumes "verify d tid x z now claimed = Inr p"
  shows "\<forall>n \<in> set (pe_phones p). \<exists>row. proof_row d tid x z row \<and> row_phone row = n"
    and "card (set (pe_phones p)) \<le> 1 \<or>
      (\<exists>said. map_res (normalize_phone DEFAULT_COUNTRY_CODE) (de_phones x) = Inr said \<and> set (pe_phones p) \<subseteq> set said)"
    and "\<forall>r \<in> set (pe_orders p). o_tenant_id r = tid \<and> (o_phone r \<in> set (pe_phones p) \<and> folded (customer_name r) = folded (de_name x) \<or>
      (\<exists>c \<in> set (pe_customers p). o_customer_id r = Some (cu_id c)))"
    and "\<forall>r \<in> set (pe_tables p). r_tenant_id r = tid \<and> r_phone r \<in> set (pe_phones p) \<and> folded (guest_name r) = folded (de_name x)"
    and "\<forall>c \<in> set (pe_customers p). cu_tenant_id c = tid \<and> (cu_phone c \<in> set (pe_phones p) \<and> folded (cu_name c) = folded (de_name x) \<or>
      (\<exists>r. proof_row d tid x z (POrder r) \<and> o_customer_id r = Some (cu_id c)) \<or>
      (\<exists>c'. proof_row d tid x z (PCustomer c') \<and> cu_id c' = cu_id c))"
    and "\<forall>c \<in> set (pe_calls p). c_tenant_id c = tid \<and> (c_id c \<in> set claimed \<or>
      set (names_on d tid (c_id c)) \<subseteq> (folded \<circ> customer_name) ` set (pe_orders p) \<union> (folded \<circ> guest_name) ` set (pe_tables p))"
proof -
  obtain said parts
    where said: "map_res (normalize_phone DEFAULT_COUNTRY_CODE) (de_phones x) = Inr said"
      and parts: "map_res (one_person said) (opened d tid x z) = Inr parts"
      and many: "1 < length (remdups (map row_phone (concat parts))) \<Longrightarrow> said \<noteq> []"
      and p: "person_of d tid (folded (de_name x)) now claimed (concat parts) = Inr p"
    by (rule verify_parts [OF assms], rule that; assumption)
  note f = person_fields [OF p]
  have found: "row \<in> set (concat parts) \<longleftrightarrow> proof_row d tid x z row \<and> (said = [] \<or> row_phone row \<in> set said)" for row
    using found_mem [OF parts] opened_mem by blast
  show "\<forall>n \<in> set (pe_phones p). \<exists>row. proof_row d tid x z row \<and> row_phone row = n"
    unfolding f(1) using found by blast
  show "card (set (pe_phones p)) \<le> 1 \<or>
      (\<exists>said. map_res (normalize_phone DEFAULT_COUNTRY_CODE) (de_phones x) = Inr said \<and> set (pe_phones p) \<subseteq> set said)"
  proof (cases "said = []")
    case True
    then have "length (remdups (map row_phone (concat parts))) \<le> 1" using many by fastforce
    then show ?thesis unfolding f(1) by (metis length_remdups_card_conv set_map)
  next
    case False
    then show ?thesis unfolding f(1) using found said by blast
  qed
  show "\<forall>r \<in> set (pe_orders p). o_tenant_id r = tid \<and> (o_phone r \<in> set (pe_phones p) \<and> folded (customer_name r) = folded (de_name x) \<or>
      (\<exists>c \<in> set (pe_customers p). o_customer_id r = Some (cu_id c)))"
    unfolding f(1,3) by blast
  show "\<forall>r \<in> set (pe_tables p). r_tenant_id r = tid \<and> r_phone r \<in> set (pe_phones p) \<and> folded (guest_name r) = folded (de_name x)"
    unfolding f(1,4) by blast
  have "i \<in> set (linked_customers rows) \<longleftrightarrow> (\<exists>r. POrder r \<in> set rows \<and> o_customer_id r = Some i) \<or> (\<exists>c. PCustomer c \<in> set rows \<and> cu_id c = i)" for i rows
    by (induction rows) (auto simp: linked_customers_def map_filter_simps split: person_row.splits option.splits)
  then show "\<forall>c \<in> set (pe_customers p). cu_tenant_id c = tid \<and> (cu_phone c \<in> set (pe_phones p) \<and> folded (cu_name c) = folded (de_name x) \<or>
      (\<exists>r. proof_row d tid x z (POrder r) \<and> o_customer_id r = Some (cu_id c)) \<or>
      (\<exists>c'. proof_row d tid x z (PCustomer c') \<and> cu_id c' = cu_id c))"
    unfolding f(1,2) using found by auto
  show "\<forall>c \<in> set (pe_calls p). c_tenant_id c = tid \<and> (c_id c \<in> set claimed \<or>
      set (names_on d tid (c_id c)) \<subseteq> (folded \<circ> customer_name) ` set (pe_orders p) \<union> (folded \<circ> guest_name) ` set (pe_tables p))"
    unfolding own_rows(1) [OF f(5)] by (auto simp: sole_calls_def Let_def)
qed

text \<open>C10. Nobody gets data for a number or a name alone: every number of the person handed over has a row
  that shows the name on its own line with a day or the address the guest named, and of several numbers
  the guest named each; every order, table and customer carries the name on such a number or hangs
  on a customer that was opened; and every call carries nobody else's name or was claimed by the guest.\<close>

theorem verify_needs_proof:
  assumes "verify d tid x z now claimed = Inr p"
  shows "(\<forall>n \<in> set (pe_phones p). \<exists>row. proof_row d tid x z row \<and> row_phone row = n) \<and>
    (card (set (pe_phones p)) \<le> 1 \<or>
      (\<exists>said. map_res (normalize_phone DEFAULT_COUNTRY_CODE) (de_phones x) = Inr said \<and> set (pe_phones p) \<subseteq> set said)) \<and>
    (\<forall>r \<in> set (pe_orders p). o_tenant_id r = tid \<and> (o_phone r \<in> set (pe_phones p) \<and> folded (customer_name r) = folded (de_name x) \<or>
      (\<exists>c \<in> set (pe_customers p). o_customer_id r = Some (cu_id c)))) \<and>
    (\<forall>r \<in> set (pe_tables p). r_tenant_id r = tid \<and> r_phone r \<in> set (pe_phones p) \<and> folded (guest_name r) = folded (de_name x)) \<and>
    (\<forall>c \<in> set (pe_customers p). cu_tenant_id c = tid \<and> (cu_phone c \<in> set (pe_phones p) \<and> folded (cu_name c) = folded (de_name x) \<or>
      (\<exists>r. proof_row d tid x z (POrder r) \<and> o_customer_id r = Some (cu_id c)) \<or>
      (\<exists>c'. proof_row d tid x z (PCustomer c') \<and> cu_id c' = cu_id c))) \<and>
    (\<forall>c \<in> set (pe_calls p). c_tenant_id c = tid \<and> (c_id c \<in> set claimed \<or>
      set (names_on d tid (c_id c)) \<subseteq> (folded \<circ> customer_name) ` set (pe_orders p) \<union> (folded \<circ> guest_name) ` set (pe_tables p)))"
  by (intro conjI) (rule verified [OF assms])+

section \<open>What an erasure takes\<close>

lemma erase_Inr:
  assumes "erase rq p keep h = Inr (l, h')"
  defines "g \<equiv> targets_of (dq_tenant_id rq) p keep"
  shows "h_db h' = (snd (erased_db g (h_db h)))\<lparr>audit := audit (h_db h')\<rparr>"
    and "recordings h' = upd_rows (own_recording g) (\<lambda>r. r\<lparr>withdrawn_at := Some (tx_now (h_db h))\<rparr>) (recordings h)"
    and "l = fst (erased_db g (h_db h)) @ hit_lines ''recordings'' ''withdrawn'' rc_id (own_recording g) (recordings h) @
      hit_lines ''addresses'' ''deleted'' a_id (own_address g) (addresses (h_db h)) @
      hit_lines ''customers'' ''deleted'' cu_id (own_customer g) (customers (h_db h))"
    and "consents h' = consents h" "requests h' = requests h" "folder h' = folder h"
    and "\<forall>(t, i) \<in> set (open_rows p). i \<in> set keep" and "dq_kind rq = Erasure" and "dq_answered_at rq = None"
  using assms
  by (auto simp: erase_def erased_db_def require_def request_audit_def add_audit_def Let_def raise_err_def list_ex_iff split: if_splits)

lemma erased_tables:
  assumes "erase rq p keep h = Inr (l, h')"
  defines "g \<equiv> targets_of (dq_tenant_id rq) p keep" and "d \<equiv> h_db h"
  shows "outbox (h_db h') = upd_rows (thin_event g) (\<lambda>e. e\<lparr>ev_payload := thin_payload (ev_payload e)\<rparr>) (drop_rows (dead_event g) (outbox d))"
    and "reservations (h_db h') = drop_rows (dead_table g) (reservations d)"
    and "order_items (h_db h') = upd_rows (noted_item g) (\<lambda>r. r\<lparr>oi_note := None\<rparr>) (order_items d)"
    and "orders (h_db h') = map (unlinked (map cu_id (filter (own_customer g) (customers d))) (map a_id (filter (own_address g) (addresses d))))
      (upd_rows (own_order g) order_erased (orders d))"
    and "callbacks (h_db h') = upd_rows (told_callback g) callback_gone (callbacks d)"
    and "calls (h_db h') = upd_rows (own_call (tg_tenant g) (tg_calls g)) (\<lambda>c. c\<lparr>caller_id := None\<rparr>) (calls d)"
    and "addresses (h_db h') = drop_rows (own_address g) (addresses d)"
    and "customers (h_db h') = drop_rows (own_customer g) (customers d)"
    and "objections (h_db h') = objections d" and "service_configs (h_db h') = service_configs d"
  unfolding g_def d_def by (subst erase_Inr(1) [OF assms(1)], simp add: erased_db_def Let_def)+

lemma folded_empty [simp]: "folded [] = []"
  by (simp add: folded_def py_split_def fold_name_def)

lemma order_erased_sel [simp]:
  "customer_name (order_erased r) = []" "o_phone (order_erased r) = []" "o_note (order_erased r) = None"
  "o_customer_id (order_erased r) = None" "o_address_id (order_erased r) = None" "o_id (order_erased r) = o_id r"
  "o_tenant_id (order_erased r) = o_tenant_id r" "o_status (order_erased r) \<noteq> ODraft" "order_gone (order_erased r) = order_erased r"
  by (simp_all add: order_erased_def order_gone_def)

lemma unlinked_sel [simp]:
  "customer_name (unlinked cs as r) = customer_name r" "o_phone (unlinked cs as r) = o_phone r" "o_note (unlinked cs as r) = o_note r"
  "o_id (unlinked cs as r) = o_id r" "o_tenant_id (unlinked cs as r) = o_tenant_id r" "o_status (unlinked cs as r) = o_status r"
  "order_day (unlinked cs as r) = order_day r" "o_booked_on_own_line (unlinked cs as r) = o_booked_on_own_line r"
  "unlinked cs as (order_erased r) = order_erased r"
  by (simp_all add: unlinked_def order_day_def cut_link_def order_erased_def order_gone_def split: option.split)

lemma targets_sel [simp]:
  "tg_tenant (targets_of tid p keep) = tid" "tg_orders (targets_of tid p keep) = map o_id (pe_orders p)"
  "set (tg_tables (targets_of tid p keep)) = r_id ` set (pe_tables p) - set keep"
  "set (tg_callbacks (targets_of tid p keep)) = cb_id ` set (pe_callbacks p) - set keep"
  "tg_customers (targets_of tid p keep) = map cu_id (pe_customers p)" "tg_calls (targets_of tid p keep) = pe_calls p"
  by (auto simp: targets_of_def)

text \<open>The orders that are left, each with the row it was.\<close>

lemma erased_order:
  assumes "erase rq p keep h = Inr (l, h')" and "r' \<in> set (orders (h_db h'))"
  obtains r cs as where "r \<in> set (orders (h_db h))"
    and "if o_tenant_id r = dq_tenant_id rq \<and> o_id r \<in> o_id ` set (pe_orders p) then r' = order_erased r else r' = unlinked cs as r"
  using assms(2) unfolding erased_tables(4) [OF assms(1)]
  by (fastforce simp: set_upd_rows own_order_def split: if_splits)

definition about_erased :: "person \<Rightarrow> uuid list \<Rightarrow> outbox_event \<Rightarrow> bool" where
  "about_erased p keep e \<longleftrightarrow> event_of (map o_id (pe_orders p)) [] (filter (\<lambda>i. i \<notin> set keep) (map cb_id (pe_callbacks p))) e"

text \<open>What is left of the person: nothing but what they chose to keep.\<close>

definition forgotten :: "uuid \<Rightarrow> person \<Rightarrow> uuid list \<Rightarrow> house \<Rightarrow> bool" where
  "forgotten tid p keep h \<longleftrightarrow> (let d = h_db h in
     (\<forall>r \<in> set (orders d). o_tenant_id r = tid \<and> o_id r \<in> o_id ` set (pe_orders p) \<longrightarrow> order_gone r = r \<and> o_status r \<noteq> ODraft) \<and>
     (\<forall>i \<in> set (order_items d). oi_tenant_id i = tid \<and> oi_order_id i \<in> o_id ` set (pe_orders p) \<longrightarrow> oi_note i = None) \<and>
     (\<forall>r \<in> set (reservations d). r_tenant_id r = tid \<and> r_id r \<in> r_id ` set (pe_tables p) \<longrightarrow> r_id r \<in> set keep) \<and>
     (\<forall>c \<in> set (customers d). cu_tenant_id c = tid \<longrightarrow> cu_id c \<notin> cu_id ` set (pe_customers p)) \<and>
     (\<forall>a \<in> set (addresses d). a_tenant_id a = tid \<longrightarrow> a_customer_id a \<notin> cu_id ` set (pe_customers p)) \<and>
     (\<forall>b \<in> set (callbacks d). cb_tenant_id b = tid \<and> cb_id b \<in> cb_id ` set (pe_callbacks p) - set keep \<longrightarrow> callback_gone b = b) \<and>
     (\<forall>c \<in> set (calls d). c_tenant_id c = tid \<and> c_id c \<in> c_id ` set (pe_calls p) \<longrightarrow> caller_id c = None) \<and>
     (\<forall>e \<in> set (outbox d). ev_tenant_id e = tid \<longrightarrow>
        \<not> event_of [] (filter (\<lambda>i. i \<notin> set keep) (map r_id (pe_tables p))) [] e \<and> (about_erased p keep e \<longrightarrow> is_thin (ev_payload e))) \<and>
     (\<forall>r \<in> set (recordings h). rc_tenant_id r = tid \<and> rc_call_id r \<in> c_id ` set (pe_calls p) \<longrightarrow> withdrawn_at r \<noteq> None))"

lemma thin_about: "event_of os ts bs (e\<lparr>ev_payload := thin_payload (ev_payload e)\<rparr>) \<Longrightarrow> event_of os ts bs e"
  by (auto simp: event_of_def names_row_iff jget_thin kept_value_def split: option.splits if_splits)

lemma erase_forgets: 
  assumes "erase rq p keep h = Inr (l, h')"
  shows "forgotten (dq_tenant_id rq) p keep h'"
proof -
  let ?g = "targets_of (dq_tenant_id rq) p keep"
  note t = erased_tables [OF assms]
  have ev: "\<not> event_of [] (filter (\<lambda>i. i \<notin> set keep) (map r_id (pe_tables p))) [] e \<and> (about_erased p keep e \<longrightarrow> is_thin (ev_payload e))"
    if mem: "e \<in> set (outbox (h_db h'))" and tid: "ev_tenant_id e = dq_tenant_id rq" for e
  proof -
    obtain e0 where e0: "\<not> dead_event ?g e0"
      and e: "e = (if thin_event ?g e0 then e0\<lparr>ev_payload := thin_payload (ev_payload e0)\<rparr> else e0)"
      using mem unfolding t(1) upd_rows_def set_map set_drop_rows by blast
    then have tid0: "ev_tenant_id e0 = dq_tenant_id rq" using tid by (auto split: if_splits)
    have "\<not> event_of [] (tg_tables ?g) [] e0" using e0 tid0 by (simp add: dead_event_def)
    then have "\<not> event_of [] (tg_tables ?g) [] e" unfolding e using thin_about by auto
    moreover have "is_thin (ev_payload e)" if "about_erased p keep e"
    proof (cases "thin_event ?g e0")
      case False
      then have "e = e0" by (simp add: e)
      then show ?thesis using False that tid0 by (simp add: thin_event_def about_erased_def targets_of_def)
    qed (simp add: e)
    ultimately show ?thesis by (simp add: targets_of_def)
  qed
  have od: "order_gone r' = r' \<and> o_status r' \<noteq> ODraft"
    if "r' \<in> set (orders (h_db h'))" "o_tenant_id r' = dq_tenant_id rq" "o_id r' \<in> o_id ` set (pe_orders p)" for r'
    by (rule erased_order [OF assms that(1)]) (use that(2,3) in \<open>auto split: if_splits\<close>)
  show ?thesis
    unfolding forgotten_def Let_def
    using ev od
    by (intro conjI; (blast | auto simp: t(2,3,5-8) erase_Inr(2) [OF assms] set_upd_rows noted_item_def dead_table_def own_customer_def
          own_address_def told_callback_def callback_gone_def own_call_def own_recording_def))
qed

text \<open>Every row that verifies the person belongs to it.\<close>

definition of_person :: "person \<Rightarrow> person_row \<Rightarrow> bool" where
  "of_person p row \<longleftrightarrow> (case row of POrder r \<Rightarrow> r \<in> set (pe_orders p) | PTable r \<Rightarrow> r \<in> set (pe_tables p)
     | PCustomer c \<Rightarrow> c \<in> set (pe_customers p))"

lemma proof_row_of_person:
  assumes "map_res (one_person said) (opened d tid x z) = Inr parts"
    and p: "person_of d tid (folded (de_name x)) now claimed (concat parts) = Inr p"
    and row: "proof_row d tid x z row" "said = [] \<or> row_phone row \<in> set said"
  shows "of_person p row"
proof -
  note f = person_fields [OF p]
  have r: "row \<in> set (concat parts)" using row found_mem [OF assms(1)] opened_mem by blast
  then have ph: "row_phone row \<in> row_phone ` set (concat parts)" by blast
  show ?thesis
  proof (cases row)
    case (POrder r)
    then show ?thesis using row(1) ph unfolding of_person_def f(3) by (simp add: proof_row_def)
  next
    case (PTable r)
    then show ?thesis using row(1) ph unfolding of_person_def f(4) by (simp add: proof_row_def)
  next
    case (PCustomer c)
    then show ?thesis using row(1) ph unfolding of_person_def f(2) by (simp add: proof_row_def)
  qed
qed

lemma no_proof_left:
  assumes "map_res (one_person said) (opened (h_db h) tid x z) = Inr parts"
    and p: "person_of (h_db h) tid (folded (de_name x)) now claimed (concat parts) = Inr p"
    and n: "folded (de_name x) \<noteq> []" and e: "erase rq p [] h = Inr (l, h')" and tid: "dq_tenant_id rq = tid"
    and row: "proof_row (h_db h') tid x z row"
  shows "said \<noteq> [] \<and> row_phone row \<notin> set said"
proof (rule ccontr)
  assume "\<not> (said \<noteq> [] \<and> row_phone row \<notin> set said)"
  then have s: "said = [] \<or> row_phone row \<in> set said" by blast
  note t = erased_tables [OF e] and own = proof_row_of_person [OF assms(1) p]
  show False
  proof (cases row)
    case (POrder r')
    then have "r' \<in> set (orders (h_db h'))" using row by (simp add: proof_row_def)
    from erased_order [OF e this] obtain r cs as where r: "r \<in> set (orders (h_db h))"
      and r': "if o_tenant_id r = dq_tenant_id rq \<and> o_id r \<in> o_id ` set (pe_orders p) then r' = order_erased r else r' = unlinked cs as r" .
    have other: "\<not> (o_tenant_id r = tid \<and> o_id r \<in> o_id ` set (pe_orders p))"
      using r' row n tid unfolding POrder by (auto simp: proof_row_def)
    then have u: "r' = unlinked cs as r" using r' tid by simp
    have "proof_row (h_db h) tid x z (POrder r)" using row r unfolding POrder u by (simp add: proof_row_def)
    moreover have "said = [] \<or> row_phone (POrder r) \<in> set said" using s unfolding POrder u by simp
    ultimately have "of_person p (POrder r)" by (rule own)
    then show False using other row r unfolding POrder u by (simp add: of_person_def proof_row_def)
  next
    case (PTable r)
    then have "proof_row (h_db h) tid x z row" using row by (simp add: proof_row_def t(2))
    from own [OF this s] show False using row by (auto simp: PTable proof_row_def t(2) of_person_def dead_table_def tid)
  next
    case (PCustomer c)
    then have "proof_row (h_db h) tid x z row" using row by (auto simp: proof_row_def t(7,8))
    from own [OF this s] show False using row by (auto simp: PCustomer proof_row_def t(8) of_person_def own_customer_def tid)
  qed
qed

text \<open>C4. An erasure forgets the person: every row of theirs is blank, thin or gone, but for the open tables and
  callbacks they chose to keep; and after an erasure that keeps nothing the same details find nobody any
  more, at any later time and whatever calls are claimed. (After one that keeps a table nothing is said of a
  second search: the kept row still shows who they are.)\<close>

theorem erasure_forgets:
  assumes "verify (h_db h) (dq_tenant_id rq) x z now claimed = Inr p" and "erase rq p keep h = Inr (l, h')"
  shows "forgotten (dq_tenant_id rq) p keep h' \<and>
    set keep \<subseteq> snd ` {row \<in> set (open_rows p). fst row \<noteq> TOrders} \<and> snd ` set (open_rows p) \<subseteq> set keep \<and>
    (keep = [] \<longrightarrow> verify (h_db h') (dq_tenant_id rq) x z later any = raise_err NotFound None)"
proof -
  obtain said parts where said: "map_res (normalize_phone DEFAULT_COUNTRY_CODE) (de_phones x) = Inr said"
    and parts: "map_res (one_person said) (opened (h_db h) (dq_tenant_id rq) x z) = Inr parts" and n: "folded (de_name x) \<noteq> []"
    and det: "de_days x \<noteq> [] \<or> has_address x"
    and p: "person_of (h_db h) (dq_tenant_id rq) (folded (de_name x)) now claimed (concat parts) = Inr p"
    by (rule verify_parts [OF assms(1)], rule that; assumption)
  have "verify (h_db h') (dq_tenant_id rq) x z later any = raise_err NotFound None" if k: "keep = []"
  proof -
    have "filter (\<lambda>r. said = [] \<or> row_phone r \<in> set said) rows = []" if "rows \<in> set (opened (h_db h') (dq_tenant_id rq) x z)" for rows
      using no_proof_left [OF parts p n assms(2) [unfolded k] refl] opened_each [OF that] by (auto simp: filter_empty_conv)
    then have "one_person said rows = Inr []" if "rows \<in> set (opened (h_db h') (dq_tenant_id rq) x z)" for rows
      using that by (simp add: one_person_def)
    then have "map_res (one_person said) rs = Inr (map (\<lambda>_. []) rs)" if "set rs \<subseteq> set (opened (h_db h') (dq_tenant_id rq) x z)" for rs
      using that by (induction rs) auto
    then show ?thesis using said n det by (auto simp: verify_def Let_def)
  qed
  moreover have "set keep \<subseteq> snd ` {row \<in> set (open_rows p). fst row \<noteq> TOrders} \<and> snd ` set (open_rows p) \<subseteq> set keep"
    using assms(2) by (auto simp: erase_def raise_err_def list_ex_iff case_prod_beta image_iff split: if_splits)
  ultimately show ?thesis using erase_forgets [OF assms(2)] by blast
qed

section \<open>The ledger\<close>

definition named :: "ledger \<Rightarrow> str \<Rightarrow> uuid \<Rightarrow> bool" where
  "named l t i \<longleftrightarrow> (\<exists>w. (t, i, w) \<in> set l)"

text \<open>Whatever the ledger does not name is as it was: the rows of the nine tables an erasure can touch, and
  everything else outright but for the log of what was done.\<close>

definition unnamed_same :: "ledger \<Rightarrow> house \<Rightarrow> house \<Rightarrow> bool" where
  "unnamed_same l h h' \<longleftrightarrow> (let d = h_db h; d' = h_db h' in
     filter (\<lambda>r. \<not> named l ''outbox'' (ev_id r)) (outbox d') = filter (\<lambda>r. \<not> named l ''outbox'' (ev_id r)) (outbox d) \<and>
     filter (\<lambda>r. \<not> named l ''reservations'' (r_id r)) (reservations d') = filter (\<lambda>r. \<not> named l ''reservations'' (r_id r)) (reservations d) \<and>
     filter (\<lambda>r. \<not> named l ''reservations'' (rt_reservation_id r)) (reservation_tables d') =
       filter (\<lambda>r. \<not> named l ''reservations'' (rt_reservation_id r)) (reservation_tables d) \<and>
     filter (\<lambda>r. \<not> named l ''order_items'' (oi_id r)) (order_items d') = filter (\<lambda>r. \<not> named l ''order_items'' (oi_id r)) (order_items d) \<and>
     filter (\<lambda>r. \<not> named l ''orders'' (o_id r)) (orders d') = filter (\<lambda>r. \<not> named l ''orders'' (o_id r)) (orders d) \<and>
     filter (\<lambda>r. \<not> named l ''callbacks'' (cb_id r)) (callbacks d') = filter (\<lambda>r. \<not> named l ''callbacks'' (cb_id r)) (callbacks d) \<and>
     filter (\<lambda>r. \<not> named l ''calls'' (c_id r)) (calls d') = filter (\<lambda>r. \<not> named l ''calls'' (c_id r)) (calls d) \<and>
     filter (\<lambda>r. \<not> named l ''addresses'' (a_id r)) (addresses d') = filter (\<lambda>r. \<not> named l ''addresses'' (a_id r)) (addresses d) \<and>
     filter (\<lambda>r. \<not> named l ''customers'' (cu_id r)) (customers d') = filter (\<lambda>r. \<not> named l ''customers'' (cu_id r)) (customers d) \<and>
     filter (\<lambda>r. \<not> named l ''recordings'' (rc_id r)) (recordings h') = filter (\<lambda>r. \<not> named l ''recordings'' (rc_id r)) (recordings h) \<and>
     d'\<lparr>outbox := [], reservations := [], reservation_tables := [], order_items := [], orders := [], callbacks := [], calls := [],
        addresses := [], customers := [], audit := []\<rparr> =
     d\<lparr>outbox := [], reservations := [], reservation_tables := [], order_items := [], orders := [], callbacks := [], calls := [],
        addresses := [], customers := [], audit := []\<rparr> \<and>
     consents h' = consents h \<and> requests h' = requests h \<and> folder h' = folder h)"

text \<open>An order's customer is of its tenant, and its address is one of its customer: the keys of the tables.\<close>

definition links_ok :: "db \<Rightarrow> bool" where
  "links_ok d \<longleftrightarrow> (\<forall>r \<in> set (orders d).
     (\<forall>c \<in> set (customers d). o_customer_id r = Some (cu_id c) \<longrightarrow> cu_tenant_id c = o_tenant_id r) \<and>
     (\<forall>a \<in> set (addresses d). o_address_id r = Some (a_id a) \<longrightarrow> o_customer_id r = Some (a_customer_id a)))"

lemma filter_upd_rows_named: "(\<And>r. r \<in> set rs \<Longrightarrow> p r \<Longrightarrow> \<not> q r \<and> \<not> q (f r)) \<Longrightarrow> filter q (upd_rows p f rs) = filter q rs"
  by (induction rs) auto

lemma filter_drop_named: "(\<And>r. r \<in> set rs \<Longrightarrow> p r \<Longrightarrow> \<not> q r) \<Longrightarrow> filter q (drop_rows p rs) = filter q rs"
  unfolding drop_rows_def by (induction rs) auto

lemma named_hit: "set (hit_lines t w key p rs) \<subseteq> set l \<Longrightarrow> r \<in> set rs \<Longrightarrow> p r \<Longrightarrow> named l t (key r)"
  by (auto simp: named_def hit_lines_def image_subset_iff)

lemma erase_links:
  assumes p: "person_of (h_db h) tid name now claimed found = Inr p" and l: "links_ok (h_db h)"
    and r: "r \<in> set (orders (h_db h))" "\<not> own_order (targets_of tid p keep) r"
  shows "unlinked (map cu_id (filter (own_customer (targets_of tid p keep)) (customers (h_db h))))
    (map a_id (filter (own_address (targets_of tid p keep)) (addresses (h_db h)))) r = r"
proof -
  note f = person_fields [OF p]
  have no: "o_customer_id r \<noteq> Some (cu_id c)" if c: "c \<in> set (pe_customers p)" for c
  proof
    assume s: "o_customer_id r = Some (cu_id c)"
    have "c \<in> set (customers (h_db h))" "cu_tenant_id c = tid" using c unfolding f(2) by simp_all
    with s l r(1) have "o_tenant_id r = tid" unfolding links_ok_def by metis
    moreover from this have "r \<in> set (pe_orders p)" unfolding f(3) using r(1) c s by blast
    ultimately show False using r(2) by (simp add: own_order_def)
  qed
  have "o_customer_id r \<noteq> Some i" if "i \<in> cu_id ` set (pe_customers p)" for i using no that by auto
  moreover have "o_address_id r \<noteq> Some (a_id a)" if "own_address (targets_of tid p keep) a" "a \<in> set (addresses (h_db h))" for a
    using that no l r(1) by (fastforce simp: own_address_def links_ok_def)
  ultimately show ?thesis
    by (auto simp: unlinked_def cut_link_def own_customer_def split: option.split)
qed

lemma erase_unnamed:
  assumes p: "person_of (h_db h) (dq_tenant_id rq) name now claimed found = Inr p"
    and e: "erase rq p keep h = Inr (l, h')" and lo: "links_ok (h_db h)"
  shows "unnamed_same l h h'"
proof -
  let ?g = "targets_of (dq_tenant_id rq) p keep"
  note t = erased_tables [OF e]
  have l: "set l = set (fst (erased_db ?g (h_db h))) \<union> set (hit_lines ''recordings'' ''withdrawn'' rc_id (own_recording ?g) (recordings h)) \<union>
      set (hit_lines ''addresses'' ''deleted'' a_id (own_address ?g) (addresses (h_db h))) \<union>
      set (hit_lines ''customers'' ''deleted'' cu_id (own_customer ?g) (customers (h_db h)))"
    unfolding erase_Inr(3) [OF e] by (simp add: Un_assoc)
  have rows: "set (hit_lines ''outbox'' ''deleted'' ev_id (dead_event ?g) (outbox (h_db h))) \<subseteq> set l"
      "set (hit_lines ''outbox'' ''thinned'' ev_id (thin_event ?g) (drop_rows (dead_event ?g) (outbox (h_db h)))) \<subseteq> set l"
      "set (hit_lines ''reservations'' ''deleted'' r_id (dead_table ?g) (reservations (h_db h))) \<subseteq> set l"
      "set (hit_lines ''order_items'' ''cleared'' oi_id (noted_item ?g) (order_items (h_db h))) \<subseteq> set l"
      "set (hit_lines ''orders'' ''cleared'' o_id (own_order ?g) (orders (h_db h))) \<subseteq> set l"
      "set (hit_lines ''callbacks'' ''cleared'' cb_id (told_callback ?g) (callbacks (h_db h))) \<subseteq> set l"
      "set (hit_lines ''calls'' ''cleared'' c_id (own_call (dq_tenant_id rq) (pe_calls p)) (calls (h_db h))) \<subseteq> set l"
      "set (hit_lines ''recordings'' ''withdrawn'' rc_id (own_recording ?g) (recordings h)) \<subseteq> set l"
      "set (hit_lines ''addresses'' ''deleted'' a_id (own_address ?g) (addresses (h_db h))) \<subseteq> set l"
      "set (hit_lines ''customers'' ''deleted'' cu_id (own_customer ?g) (customers (h_db h))) \<subseteq> set l"
    unfolding l by (auto simp: erased_db_def Let_def)
  note n = rows [THEN named_hit]
  have os: "filter (\<lambda>r. \<not> named l ''orders'' (o_id r)) (orders (h_db h')) = filter (\<lambda>r. \<not> named l ''orders'' (o_id r)) (orders (h_db h))"
  proof -
    let ?u = "unlinked (map cu_id (filter (own_customer ?g) (customers (h_db h)))) (map a_id (filter (own_address ?g) (addresses (h_db h))))"
    have m: "map ?u (upd_rows (own_order ?g) order_erased rs) = upd_rows (own_order ?g) order_erased rs" if "set rs \<subseteq> set (orders (h_db h))" for rs
      using that by (induction rs) (simp_all add: erase_links [OF p lo])
    show ?thesis unfolding t(4) m [OF order_refl] by (rule filter_upd_rows_named) (use n(5) in auto)
  qed
  have ev: "filter (\<lambda>r. \<not> named l ''outbox'' (ev_id r)) (outbox (h_db h')) = filter (\<lambda>r. \<not> named l ''outbox'' (ev_id r)) (outbox (h_db h))"
    unfolding t(1) using n(1,2) by (subst filter_upd_rows_named, force, subst filter_drop_named) auto
  have rt: "filter (\<lambda>r. \<not> named l ''reservations'' (rt_reservation_id r)) (reservation_tables (h_db h')) =
      filter (\<lambda>r. \<not> named l ''reservations'' (rt_reservation_id r)) (reservation_tables (h_db h))"
    by (subst erase_Inr(1) [OF e]) (use n(3) in \<open>auto simp: erased_db_def Let_def intro!: filter_drop_named\<close>)
  have rest: "(h_db h')\<lparr>outbox := [], reservations := [], reservation_tables := [], order_items := [], orders := [], callbacks := [], calls := [],
        addresses := [], customers := [], audit := []\<rparr> =
     (h_db h)\<lparr>outbox := [], reservations := [], reservation_tables := [], order_items := [], orders := [], callbacks := [], calls := [],
        addresses := [], customers := [], audit := []\<rparr>"
    by (subst erase_Inr(1) [OF e]) (simp add: erased_db_def Let_def)
  show ?thesis
    unfolding unnamed_same_def Let_def t(2,3,5-8) erase_Inr(2,4-6) [OF e]
    by (intro conjI os ev rt rest refl filter_upd_rows_named filter_drop_named; use n in \<open>force simp: callback_gone_def\<close>)
qed

text \<open>A row of the person, by the name of its table.\<close>

definition persons_row :: "person \<Rightarrow> uuid list \<Rightarrow> house \<Rightarrow> str \<Rightarrow> uuid \<Rightarrow> bool" where
  "persons_row p keep h t i \<longleftrightarrow> (let d = h_db h; os = o_id ` set (pe_orders p); cs = c_id ` set (pe_calls p) in
     t = ''orders'' \<and> i \<in> os \<or> t = ''order_items'' \<and> (\<exists>x \<in> set (order_items d). oi_id x = i \<and> oi_order_id x \<in> os) \<or>
     t = ''reservations'' \<and> i \<in> r_id ` set (pe_tables p) - set keep \<or> t = ''callbacks'' \<and> i \<in> cb_id ` set (pe_callbacks p) - set keep \<or>
     t = ''calls'' \<and> i \<in> cs \<or> t = ''customers'' \<and> i \<in> cu_id ` set (pe_customers p) \<or>
     t = ''addresses'' \<and> (\<exists>a \<in> set (addresses d). a_id a = i \<and> a_customer_id a \<in> cu_id ` set (pe_customers p)) \<or>
     t = ''recordings'' \<and> (\<exists>r \<in> set (recordings h). rc_id r = i \<and> rc_call_id r \<in> cs) \<or>
     t = ''outbox'' \<and> (\<exists>e \<in> set (outbox d). ev_id e = i \<and>
       event_of (map o_id (pe_orders p)) (map r_id (pe_tables p)) (map cb_id (pe_callbacks p)) e))"

lemma event_of_mono: "event_of os ts bs e \<Longrightarrow> set os \<subseteq> set os' \<Longrightarrow> set ts \<subseteq> set ts' \<Longrightarrow> set bs \<subseteq> set bs' \<Longrightarrow> event_of os' ts' bs' e"
  by (auto simp: event_of_def names_row_iff)

lemma hit_lines_mem: "(t, i, w) \<in> set (hit_lines t' w' key q rs) \<longleftrightarrow> t = t' \<and> w = w' \<and> (\<exists>r \<in> set rs. q r \<and> i = key r)"
  by (auto simp: hit_lines_def)

lemma erase_only_own:
  assumes e: "erase rq p keep h = Inr (l, h')" and m: "(t, i, w) \<in> set l"
  shows "persons_row p keep h t i"
proof -
  let ?g = "targets_of (dq_tenant_id rq) p keep"
  have ev: "event_of (map o_id (pe_orders p)) (map r_id (pe_tables p)) (map cb_id (pe_callbacks p)) e"
    if "dead_event ?g e \<or> thin_event ?g e" for e
    using that by (auto simp: dead_event_def thin_event_def targets_of_def elim!: event_of_mono)
  have own: "own_call (tg_tenant ?g) (tg_calls ?g) c \<Longrightarrow> c_id c \<in> c_id ` set (pe_calls p)" for c by (simp add: own_call_def)
  show ?thesis
    using m unfolding erase_Inr(3) [OF e] erased_db_def Let_def fst_conv set_append Un_iff hit_lines_mem persons_row_def
    by (elim disjE conjE bexE) (use ev own in \<open>force simp: dead_table_def noted_item_def own_order_def told_callback_def
        own_recording_def own_address_def own_customer_def hit_lines_mem\<close>)+
qed

lemma unnamed_same_refl [simp]: "unnamed_same l h h"
  by (simp add: unnamed_same_def Let_def)

text \<open>C17. The ledger file has it all: after an erasure it has grown by lines that name rows of this person and
  of nobody else, nothing outside these rows has changed in any table, amounts and days of the orders
  included, and that also when the process dies between the ledger and the commit.\<close>

theorem ledger_names_changes:
  assumes "run_erase stops t ref x claimed keep now v = Inr v'" and "links_ok (h_db (v_house v))"
  shows "\<exists>p lines. verify (h_db (v_house v)) (t_id t) x (t_timezone t) now claimed = Inr p \<and>
    ledger_file v' = ledger_file v @ lines \<and> unnamed_same (map snd lines) (v_house v) (v_house v') \<and>
    (\<forall>(day, table, i, what) \<in> set lines. persons_row p keep (v_house v) table i) \<and>
    (stops \<longrightarrow> v_house v' = v_house v)"
proof -
  let ?h = "v_house v"
  obtain rq p l h' where rq: "get_request (t_id t) ref ?h = Inr rq"
    and p: "verify (h_db ?h) (t_id t) x (t_timezone t) now claimed = Inr p"
    and e: "erase rq p keep ?h = Inr (l, h')" and v': "v' = finish stops t now v (l, h')"
    using assms(1) by (auto simp: run_erase_def)
  have tid: "dq_tenant_id rq = t_id t"
    using rq by (auto simp: get_request_def find_request_def raise_err_def dest: find_SomeD split: option.splits)
  obtain parts where p': "person_of (h_db ?h) (dq_tenant_id rq) (folded (de_name x)) now claimed (concat parts) = Inr p"
    by (rule verify_parts [OF p]) (rule that, simp add: tid)
  let ?lines = "map (Pair (local_day (t_timezone t) now)) l"
  have "unnamed_same l ?h h'" using p' e assms(2) by (rule erase_unnamed)
  moreover have "map snd ?lines = l" by (simp add: comp_def)
  moreover have "\<forall>(day, table, i, what) \<in> set ?lines. persons_row p keep ?h table i" using erase_only_own [OF e] by auto
  ultimately show ?thesis
    using p by (intro exI [of _ p] exI [of _ ?lines]) (simp add: v' finish_def)
qed

text \<open>C39. An objection ends the recognition: from then on no call on a number of the person is recognised,
  whoever the caller says they are, and the calls of the person have lost their number.\<close>

theorem objection_ends_recognition:
  assumes "record_objection rq p h = Inr (l, h')" and "n \<in> set (pe_phones p)"
    and "line_of (h_db h') (dq_tenant_id rq) cid = Some n"
  shows "recognize (h_db h') (dq_tenant_id rq) cid name = Inr not_found_match \<and>
    (\<forall>c \<in> set (calls (h_db h')). c_tenant_id c = dq_tenant_id rq \<and> c_id c \<in> c_id ` set (pe_calls p) \<longrightarrow> caller_id c = None)"
proof -
  have h': "objections (h_db h') = objections (objected_db (dq_tenant_id rq) (sort (pe_phones p)) (h_db h))"
    and cs: "calls (h_db h') = upd_rows (own_call (dq_tenant_id rq) (pe_calls p)) (\<lambda>c. c\<lparr>caller_id := None\<rparr>) (calls (h_db h))"
    using assms(1) by (auto simp: record_objection_def require_def clear_calls_def request_audit_def add_audit_def objected_db_def raise_err_def split: if_splits)
  have ob: "objected (h_db h') (dq_tenant_id rq) n"
    using assms(2) unfolding objected_def [of "h_db h'"] h'
    by (cases "objected (h_db h) (dq_tenant_id rq) n") (auto simp: objected_db_def list_ex_iff objected_def bex_Un)
  have "normalize_phone DEFAULT_COUNTRY_CODE n = Inr n"
    using normalize_E164 [OF line_of_E164 [OF assms(3)]] .
  then have "recognize (h_db h') (dq_tenant_id rq) cid name = Inr not_found_match"
    using assms(3) ob by (simp add: recognize_def find_customer_def)
  moreover have "\<forall>c \<in> set (calls (h_db h')). c_tenant_id c = dq_tenant_id rq \<and> c_id c \<in> c_id ` set (pe_calls p) \<longrightarrow> caller_id c = None"
    unfolding cs by (auto simp: set_upd_rows own_call_def)
  ultimately show ?thesis by blast
qed

section \<open>A guest who asks\<close>

definition bauer_request :: "request_kind \<Rightarrow> data_request" where
  "bauer_request k = \<lparr>dq_id = 61, dq_tenant_id = 7, reference = ''dsr_1970_001'', dq_kind = k, dq_channel = ByMail,
     received_at = two_years, dq_deadline = 831, verification_note = None, dq_answered_at = None, dq_outcome = None, dq_delete_after = None\<rparr>"

definition asked_house :: "request_kind \<Rightarrow> house" where
  "asked_house k = old_house\<lparr>requests := [bauer_request k]\<rparr>"

definition bauers_words :: details where
  "bauers_words = \<lparr>de_name = ''  BAUER'', de_days = [0], de_street = None, de_house_number = None, de_postal_code = None, de_phones = []\<rparr>"

definition bauer :: person where
  "bauer = \<lparr>pe_phones = [''+4972215551234''], pe_customers = [hd (customers family_db)], pe_orders = [peanut_order], pe_tables = [],
     pe_calls = calls family_db, pe_callbacks = [], unclaimed_calls = [], unclaimed_callbacks = [], open_rows = []\<rparr>"

lemma bauer_verified: "verify (h_db (asked_house k)) 7 bauers_words berlin two_years [] = Inr bauer"
proof -
  have "verify (h_db old_house) 7 bauers_words berlin two_years [] = Inr bauer" by code_simp
  then show ?thesis by (simp add: asked_house_def)
qed

theorem verify_needs_proof_witness:
  "pe_phones bauer = [''+4972215551234''] \<and> (\<exists>row. proof_row (h_db old_house) 7 bauers_words berlin row \<and> row_phone row = ''+4972215551234'')"
  using verify_needs_proof [OF bauer_verified [of Erasure]] by (simp add: bauer_def asked_house_def)

lemma bauer_erased:
  obtains l h' where "erase (bauer_request Erasure) bauer [] (asked_house Erasure) = Inr (l, h')" and "l \<noteq> []"
proof -
  have "case erase (bauer_request Erasure) bauer [] (asked_house Erasure) of Inl _ \<Rightarrow> False | Inr (l, _) \<Rightarrow> l \<noteq> []" by code_simp
  then show ?thesis using that by (auto split: sum.splits)
qed

theorem erasure_forgets_witness:
  "\<exists>l h'. erase (bauer_request Erasure) bauer [] (asked_house Erasure) = Inr (l, h') \<and>
     verify (h_db h') 7 bauers_words berlin (two_years + DAY) [3] = raise_err NotFound None"
proof -
  obtain l h' where e: "erase (bauer_request Erasure) bauer [] (asked_house Erasure) = Inr (l, h')"
    by (rule bauer_erased)
  have t: "dq_tenant_id (bauer_request Erasure) = 7" by (simp add: bauer_request_def)
  from erasure_forgets [OF bauer_verified [folded t] e] e show ?thesis by (auto simp: t)
qed

definition front_desk :: tenant where "front_desk = \<lparr>t_id = 7, t_name = ''Maex'', t_timezone = berlin\<rparr>"

theorem ledger_names_changes_witness:
  "\<exists>v'. run_erase True front_desk ''dsr_1970_001'' bauers_words [] [] two_years \<lparr>v_house = asked_house Erasure, ledger_file = []\<rparr> = Inr v' \<and>
     v_house v' = asked_house Erasure \<and> ledger_file v' \<noteq> []"
proof -
  let ?v = "\<lparr>v_house = asked_house Erasure, ledger_file = []\<rparr>"
  obtain l h' where e: "erase (bauer_request Erasure) bauer [] (asked_house Erasure) = Inr (l, h')" and l: "l \<noteq> []"
    by (rule bauer_erased)
  have "get_request 7 ''dsr_1970_001'' (asked_house Erasure) = Inr (bauer_request Erasure)"
    by (simp add: get_request_def find_request_def asked_house_def bauer_request_def)
  then obtain v' where v': "run_erase True front_desk ''dsr_1970_001'' bauers_words [] [] two_years ?v = Inr v'" "ledger_file v' \<noteq> []"
    using e l bauer_verified by (simp add: run_erase_def front_desk_def finish_def)
  have "links_ok (h_db (v_house ?v))" by (simp add: links_ok_def asked_house_def old_house_def family_db_def peanut_order_def)
  from ledger_names_changes [OF v'(1) this] v' show ?thesis by auto
qed

text \<open>The caller of the next day is on the same line and is not recognised any more.\<close>

definition next_call :: call where
  "next_call = (hd (calls family_db))\<lparr>c_id := 8, caller_id := Some ''+4972215551234''\<rparr>"

definition called_again :: house where
  "called_again = (asked_house Objection)\<lparr>h_db := (h_db (asked_house Objection))\<lparr>calls := calls family_db @ [next_call]\<rparr>\<rparr>"

theorem objection_ends_recognition_witness:
  "\<exists>l h'. record_objection (bauer_request Objection) bauer called_again = Inr (l, h') \<and>
     line_of (h_db h') 7 8 = Some ''+4972215551234'' \<and> recognize (h_db h') 7 8 None = Inr not_found_match"
proof -
  have "case record_objection (bauer_request Objection) bauer called_again of Inr (l, h') \<Rightarrow> line_of (h_db h') 7 8 = Some ''+4972215551234''
      | Inl _ \<Rightarrow> False" by code_simp
  then obtain l h' where o: "record_objection (bauer_request Objection) bauer called_again = Inr (l, h')"
    and line: "line_of (h_db h') 7 8 = Some ''+4972215551234''" by (auto split: sum.splits)
  have t: "dq_tenant_id (bauer_request Objection) = 7" by (simp add: bauer_request_def)
  have "''+4972215551234'' \<in> set (pe_phones bauer)" by (simp add: bauer_def)
  from objection_ends_recognition [OF o this] line o show ?thesis by (auto simp: t)
qed

end
