(* ===== verification/OrderHouse.thy ===== *)
theory OrderHouse
  imports OrderRun Privacy
begin

text \<open>
  The orders in the whole house: to the operations of \<open>OrderRun\<close> come the two jobs that change orders too,
  the erasure of a person and the pass of the deletion job, which also drop slips and entries of
  the log. What survives them is the life of every order.
\<close>

section \<open>The machine with the jobs\<close>

inductive house_step :: "house \<Rightarrow> house \<Rightarrow> bool" where
  worked: "order_step (h_db h) (h_db h') \<Longrightarrow> house_step h h'"
| person_erased: "erase rq p kept_ids h = Inr (l, h') \<Longrightarrow> house_step h h'"
| night_pass: "purge locked stuck fails p now h = (h', c, bad) \<Longrightarrow> house_step h h'"

text \<open>The rows of a good order book, and what a step may do to it: every row takes a way of its life,
  none goes, and the new ones began as drafts, under new ids.\<close>

definition good_book :: "db \<Rightarrow> bool" where
  "good_book d \<longleftrightarrow> distinct (map o_id (orders d)) \<and> (\<forall>r \<in> set (orders d). o_id r < next_id d \<and> life_of r \<noteq> Bad)"

definition goes_on :: "order \<Rightarrow> order \<Rightarrow> bool" where
  "goes_on r r' \<longleftrightarrow> o_id r' = o_id r \<and> life_move\<^sup>*\<^sup>* (life_of r) (life_of r')"

definition book_step :: "db \<Rightarrow> db \<Rightarrow> bool" where
  "book_step d d' \<longleftrightarrow> next_id d \<le> next_id d' \<and> (\<exists>old new. orders d' = old @ new \<and> list_all2 goes_on (orders d) old \<and>
     distinct (map o_id new) \<and> (\<forall>r \<in> set new. life_move\<^sup>*\<^sup>* Drafted (life_of r) \<and> next_id d \<le> o_id r \<and> o_id r < next_id d'))"

lemma good_book_life: "life_inv UNIV d \<longleftrightarrow> good_book d"
  by (simp add: life_inv_def good_book_def)

lemma goes_on_refl [simp]: "goes_on r r"
  by (simp add: goes_on_def)

lemma goes_on_trans: "goes_on a b \<Longrightarrow> goes_on b c \<Longrightarrow> goes_on a c"
  by (auto simp: goes_on_def)

lemma book_same: "list_all2 goes_on (orders d) (orders d') \<Longrightarrow> next_id d' = next_id d \<Longrightarrow> book_step d d'"
  unfolding book_step_def by (intro conjI exI [of _ "orders d'"] exI [of _ "[]"]) simp_all

lemma goes_on_ids: "list_all2 goes_on rs rs' \<Longrightarrow> map o_id rs' = map o_id rs"
  by (induction rule: list_all2_induct) (simp_all add: goes_on_def)

lemma book_step_good:
  assumes "book_step d d'" and "good_book d"
  shows "good_book d'"
proof -
  obtain old new where n: "next_id d \<le> next_id d'" and o: "orders d' = old @ new"
    and f: "list_all2 goes_on (orders d) old" and w: "distinct (map o_id new)"
      "\<forall>r \<in> set new. life_move\<^sup>*\<^sup>* Drafted (life_of r) \<and> next_id d \<le> o_id r \<and> o_id r < next_id d'"
    using assms(1) unfolding book_step_def by blast
  have came: "\<exists>x \<in> set (orders d). goes_on x r" if "r \<in> set old" for r by (rule all2_back [OF f that])
  have "o_id r < next_id d \<and> life_of r \<noteq> Bad" if r: "r \<in> set old" for r
  proof -
    obtain x where "x \<in> set (orders d)" "goes_on x r" using came [OF r] by blast
    then show ?thesis using assms(2) moves_not_bad by (auto simp: good_book_def goes_on_def)
  qed
  note old = this
  have "set (map o_id old) \<inter> set (map o_id new) = {}" using old w(2) by fastforce
  then have "distinct (map o_id (orders d'))"
    using assms(2) w(1) goes_on_ids [OF f] by (simp add: o good_book_def)
  moreover have "o_id r < next_id d' \<and> life_of r \<noteq> Bad" if "r \<in> set (orders d')" for r
    using that old w(2) n moves_not_bad by (fastforce simp: o)
  ultimately show ?thesis by (simp add: good_book_def)
qed

section \<open>The work on an order\<close>

lemma work_book:
  assumes "order_step d d'" and "good_book d"
  shows "book_step d d'"
proof -
  obtain f new where g: "log_grows d d'" and o: "orders d' = map f (orders d) @ new"
    and f: "\<forall>r \<in> set (orders d). row_step UNIV d' r (f r)" and w: "distinct (map o_id new)"
      "\<forall>r \<in> set new. life_of r = Drafted \<and> next_id d \<le> o_id r \<and> o_id r < next_id d'"
    using order_step_effect [OF assms(1), of UNIV] assms(2) unfolding good_book_life effect_def by blast
  have "list_all2 goes_on rs (map f rs)" if "set rs \<subseteq> set (orders d)" for rs
    using that f assms(2) by (induction rs) (auto simp: goes_on_def row_step_def good_book_def)
  moreover have "\<forall>r \<in> set new. life_move\<^sup>*\<^sup>* Drafted (life_of r)" using w(2) by simp
  ultimately show ?thesis using g o w unfolding book_step_def log_grows_def by blast
qed

section \<open>The erasure\<close>

lemma unlinked_life [simp]: "life_of (unlinked cs as r) = life_of r"
  by (simp add: unlinked_def life_of_def)

lemma erased_life: "life_of r \<noteq> Bad \<Longrightarrow> goes_on r (order_erased r)"
  by (auto simp: goes_on_def life_of_def order_erased_def order_gone_def intro!: r_into_rtranclp life_move.erased
      split: order_status.splits option.splits)

lemma erase_book:
  assumes "erase rq p kept_ids h = Inr (l, h')" and "good_book (h_db h)"
  shows "book_step (h_db h) (h_db h')"
proof (rule book_same)
  have "next_id (h_db h') = next_id ((snd (erased_db (targets_of (dq_tenant_id rq) p kept_ids) (h_db h)))\<lparr>audit := audit (h_db h')\<rparr>)"
    by (rule arg_cong [OF erase_Inr(1) [OF assms(1)]])
  then show "next_id (h_db h') = next_id (h_db h)" by (simp add: erased_db_def Let_def)
  have "list_all2 goes_on rs (map (unlinked cs as) (upd_rows (own_order g) order_erased rs))"
    if "set rs \<subseteq> set (orders (h_db h))" for rs cs as g
    using that assms(2)
  proof (induction rs)
    case (Cons r rs)
    then have "goes_on r (order_erased r)" by (simp add: erased_life good_book_def)
    then have "goes_on r (unlinked cs as (if own_order g r then order_erased r else r))" by (simp add: goes_on_def)
    then show ?case using Cons by (simp add: upd_rows_def)
  qed simp
  then show "list_all2 goes_on (orders (h_db h)) (orders (h_db h'))" unfolding erased_tables(4) [OF assms(1)] by simp
qed

section \<open>The pass\<close>

lemma fade_goes_on: "fade_order r r' \<Longrightarrow> goes_on r r'"
proof -
  assume "fade_order r r'"
  then have e: "order_gone r' = order_gone r" by (simp add: fade_order_def)
  have "o_id (order_gone x) = o_id x" "life_of (order_gone x) = life_of x" for x
    by (simp_all add: order_gone_def life_of_def)
  with e show ?thesis unfolding goes_on_def by (metis rtranclp.rtrancl_refl)
qed

lemma purge_book:
  assumes "purge locked stuck fails p now h = (h', c, bad)"
  shows "book_step (h_db h) (h_db h')"
proof -
  have h': "h' = fst (run_steps fails (purge_steps locked stuck p now) h)" using assms by (simp add: purge_def)
  have "fades h h'" unfolding h' by (rule retention.run_fades [OF order_refl])
  then have "list_all2 goes_on (orders (h_db h)) (orders (h_db h'))"
    unfolding fades_def Let_def by (auto elim!: list_all2_mono dest: fade_goes_on)
  moreover have "spares p now h h'" unfolding h' by (rule run_spares [OF order_refl])
  then have "other_tables (h_db h') = other_tables (h_db h)" by (simp add: spares_def spares_db_def)
  then have "next_id (other_tables (h_db h')) = next_id (other_tables (h_db h))" by simp
  then have "next_id (h_db h') = next_id (h_db h)" by (simp add: other_tables_def)
  ultimately show ?thesis by (rule book_same)
qed

lemma house_step_book: "house_step h h' \<Longrightarrow> good_book (h_db h) \<Longrightarrow> book_step (h_db h) (h_db h')"
  by (cases rule: house_step.cases) (auto intro: work_book erase_book purge_book)

interpretation house: machine house_step "\<lambda>h. good_book (h_db h)"
  by unfold_locales (rule book_step_good [OF house_step_book])

section \<open>The life of an order\<close>

lemma cancelled_stays: "goes_on x y \<Longrightarrow> o_status x = OCancelled \<Longrightarrow> o_status y = OCancelled"
proof -
  assume m: "goes_on x y" and "o_status x = OCancelled"
  then have "life_of x = Withdrawn (handover_state x)" by (simp add: life_of_def)
  then obtain h where "life_of y = Withdrawn h" using moves_withdrawn m unfolding goes_on_def by metis
  then show ?thesis by (simp add: life_of_def split: order_status.splits option.splits)
qed

lemma book_trans:
  assumes "book_step a b" and "book_step b c"
  shows "book_step a c"
proof -
  obtain old new where 1: "next_id a \<le> next_id b" "orders b = old @ new"
    "list_all2 goes_on (orders a) old" "distinct (map o_id new)"
    "\<forall>r \<in> set new. life_move\<^sup>*\<^sup>* Drafted (life_of r) \<and> next_id a \<le> o_id r \<and> o_id r < next_id b"
    using assms(1) unfolding book_step_def by blast
  obtain old' new' where 2: "next_id b \<le> next_id c" "orders c = old' @ new'"
    "list_all2 goes_on (orders b) old'" "distinct (map o_id new')"
    "\<forall>r \<in> set new'. life_move\<^sup>*\<^sup>* Drafted (life_of r) \<and> next_id b \<le> o_id r \<and> o_id r < next_id c"
    using assms(2) unfolding book_step_def by blast
  obtain xs ys where 3: "old' = xs @ ys" "list_all2 goes_on old xs" "list_all2 goes_on new ys"
    using 2(3) unfolding 1(2) by (auto simp: list_all2_append1)
  have y: "life_move\<^sup>*\<^sup>* Drafted (life_of r) \<and> next_id a \<le> o_id r \<and> o_id r < next_id b" if r: "r \<in> set ys" for r
  proof -
    obtain x where x: "x \<in> set new" "goes_on x r" using all2_back [OF 3(3) r] by blast
    then have "life_move\<^sup>*\<^sup>* Drafted (life_of x)" "next_id a \<le> o_id x \<and> o_id x < next_id b" using 1(5) by auto
    then show ?thesis using x(2) rtranclp_trans by (auto simp: goes_on_def)
  qed
  have "list_all2 goes_on (orders a) xs"
    by (rule all2_trans [OF 1(3) 3(2)]) (rule goes_on_trans)
  moreover have "set (map o_id ys) \<inter> set (map o_id new') = {}" using y 2(5) by fastforce
  then have "distinct (map o_id (ys @ new'))" using goes_on_ids [OF 3(3)] 1(4) 2(4) by simp
  moreover have "\<forall>r \<in> set (ys @ new'). life_move\<^sup>*\<^sup>* Drafted (life_of r) \<and> next_id a \<le> o_id r \<and> o_id r < next_id c"
    using y 2(1,5) 1(1) by (auto dest: order_trans less_le_trans)
  moreover have "orders c = xs @ (ys @ new')" using 2(2) 3(1) by simp
  moreover have "next_id a \<le> next_id c" using 1(1) 2(1) by simp
  ultimately show ?thesis unfolding book_step_def by blast
qed

lemma book_steps:
  assumes "house_step\<^sup>*\<^sup>* h h'" and "good_book (h_db h)"
  shows "book_step (h_db h) (h_db h')"
  using assms
proof (induction rule: rtranclp_induct)
  case base
  show ?case by (rule book_same) (simp_all add: list.rel_refl)
next
  case (step b c)
  have "good_book (h_db b)" by (rule house.steps_inv [OF step(1) step.prems])
  then show ?case using book_trans [OF step.IH [OF step.prems] house_step_book [OF step(2)]] by blast
qed

text \<open>C9. Whatever the agent, the guest, the team, the bridge and the watchdog do, and whatever an erasure
  or the deletion job takes, in any order, every order goes only the ways of its life: from draft to
  waiting or to the kitchen, or, erased, to cancelled; from waiting to the kitchen by a release only; from
  both to cancelled; and its slip from open to printed or failed and, sent again, back. No draft, yes
  or state is undone, a cancelled order stays cancelled, no order is lost, and a new one begins as a
  draft.\<close>

theorem order_refines:
  assumes "house_step\<^sup>*\<^sup>* h h'" and "good_book (h_db h)"
  shows "(\<forall>r \<in> set (orders (h_db h)). \<exists>r' \<in> set (orders (h_db h')). o_id r' = o_id r \<and>
       life_move\<^sup>*\<^sup>* (life_of r) (life_of r') \<and> (o_status r = OCancelled \<longrightarrow> o_status r' = OCancelled)) \<and>
    (\<forall>r' \<in> set (orders (h_db h')). (\<exists>r \<in> set (orders (h_db h)). o_id r' = o_id r \<and> life_move\<^sup>*\<^sup>* (life_of r) (life_of r')) \<or>
       o_id r' \<notin> o_id ` set (orders (h_db h)) \<and> life_move\<^sup>*\<^sup>* Drafted (life_of r')) \<and>
    good_book (h_db h')"
proof -
  have b: "book_step (h_db h) (h_db h')" using book_steps [OF assms] .
  then obtain old new where o: "orders (h_db h') = old @ new" "list_all2 goes_on (orders (h_db h)) old"
    and n: "\<forall>r \<in> set new. life_move\<^sup>*\<^sup>* Drafted (life_of r) \<and> next_id (h_db h) \<le> o_id r"
    unfolding book_step_def by blast
  have "\<exists>r' \<in> set old. goes_on r r'" if "r \<in> set (orders (h_db h))" for r
    using o(2) that by (metis in_set_conv_nth list_all2_conv_all_nth)
  moreover have "\<exists>r \<in> set (orders (h_db h)). goes_on r r'" if "r' \<in> set old" for r' by (rule all2_back [OF o(2) that])
  moreover have "o_id r' \<notin> o_id ` set (orders (h_db h))" if "r' \<in> set new" for r'
    using n that assms(2) by (fastforce simp: good_book_def)
  ultimately show ?thesis
    using n cancelled_stays book_step_good [OF b assms(2)] unfolding o(1) set_append goes_on_def by (intro conjI; blast)
qed

section \<open>Two ducks, cooked; and a draft, erased\<close>

definition house_of :: "db \<Rightarrow> house" where
  "house_of d = \<lparr>h_db = d, recordings = [], consents = [], requests = [], folder = []\<rparr>"

definition duck_guest :: person where
  "duck_guest = \<lparr>pe_phones = [], pe_customers = [], pe_orders = [ducks_order], pe_tables = [], pe_calls = [], pe_callbacks = [],
     unclaimed_calls = [], unclaimed_callbacks = [], open_rows = []\<rparr>"

lemma draft_erased:
  obtains h' where "house_step (house_of ducks_db) h'" and "map life_of (orders (h_db h')) = [Withdrawn None]"
proof -
  have "case erase (bauer_request Erasure) duck_guest [] (house_of ducks_db) of Inl _ \<Rightarrow> False
    | Inr (_, h') \<Rightarrow> map life_of (orders (h_db h')) = [Withdrawn None]" by code_simp
  then show ?thesis by (auto intro: that person_erased split: sum.splits)
qed

theorem order_refines_witness:
  "(\<exists>r \<in> set (orders cooked_db). o_id r = 101 \<and> life_move\<^sup>*\<^sup>* Drafted (life_of r) \<and> life_of r = AtKitchen False PENDING) \<and>
   (\<exists>h'. house_step (house_of ducks_db) h' \<and> (\<exists>r \<in> set (orders (h_db h')). life_move\<^sup>*\<^sup>* Drafted (life_of r) \<and> life_of r = Withdrawn None))"
proof -
  have d: "orders ducks_db = [ducks_order]" "life_of ducks_order = Drafted" "o_id ducks_order = 101"
    by (simp_all add: ducks_db_def ducks_order_def life_of_def)
  have "life_inv UNIV ducks_db"
    by (rule order.step_inv [OF drafted [OF ducks_drafted] life_inv_empty]) (simp_all add: lunch_run kitchen_view_def)
  then have i: "good_book (h_db (house_of ducks_db))" by (simp add: good_book_life house_of_def)
  have s: "house_step\<^sup>*\<^sup>* (house_of ducks_db) (house_of cooked_db)"
    using worked [of "house_of ducks_db" "house_of cooked_db"] said_yes [OF ducks_confirmed] by (simp add: house_of_def)
  obtain r where r: "orders cooked_db = [r]" "o_id r = 101" "handover_state r = Some PENDING" "o_status r = OConfirmed"
    using cooked_order by blast
  have "life_of r = AtKitchen False PENDING" using r by (simp add: life_of_def)
  then have 1: "\<exists>r \<in> set (orders cooked_db). o_id r = 101 \<and> life_move\<^sup>*\<^sup>* Drafted (life_of r) \<and> life_of r = AtKitchen False PENDING"
    using order_refines [OF s i] d r by (simp add: house_of_def)
  obtain h' where e: "house_step (house_of ducks_db) h'" "map life_of (orders (h_db h')) = [Withdrawn None]"
    by (rule draft_erased)
  then obtain x where x: "orders (h_db h') = [x]" "life_of x = Withdrawn None" by auto
  have "house_step\<^sup>*\<^sup>* (house_of ducks_db) h'" using e(1) by simp
  from order_refines [OF this i] have "life_move\<^sup>*\<^sup>* Drafted (life_of x)" using d x by (auto simp: house_of_def)
  then show ?thesis using 1 e(1) x by auto
qed

end
