(* ===== verification/Dialogue.thy ===== *)
theory Dialogue
  imports Consent Correction "HOL-Library.Multiset"
begin

text \<open>
  What the core keeps of a call between two sentences of the guest (\<open>api/agent/state.py\<close>): the stage,
  the draft that waits for its yes and whether the guest heard it, the dishes an order may name, the
  order as it stands. The model is the machine learning model of the call: whatever it answers is an
  argument here. The readers of guest text other than \<open>consent.py\<close> (\<open>guest_details.py\<close>,
  \<open>escalation.py\<close>, \<open>wishes.py\<close>) and the two pydantic adapters are the arguments \<open>readers\<close>: nothing
  proved of the dialogue depends on what they read.
\<close>

section \<open>The state of a call\<close>

datatype stage = SStart | SCollecting | SReadback | SConfirmed | SCallback | STransferred | SEnded

record allergy =
  al_ingredient :: "str option"
  al_own :: bool
  al_item :: "uuid option"

text \<open>\<open>_seen\<close>: what the state keeps of a search hit.\<close>

record seen_item =
  si_number :: str
  si_name :: str
  si_sold_out :: bool
  si_required :: "(str \<times> str list) list"
  si_optional :: "(str \<times> str list) list"

record cart_line =
  cl_item :: uuid
  cl_quantity :: int
  cl_options :: "option_choice list"
  cl_note :: "str option"

text \<open>The fields of \<open>ConversationState\<close> that the functions below read or write; a dictionary is an
  association list in the order of its insertions.\<close>

record conv =
  cv_call_id :: uuid
  cv_tenant_id :: uuid
  cv_intent :: "str option"
  cv_stage :: stage
  cv_slots :: "(str \<times> json) list"
  cv_reservation_id :: "uuid option"
  cv_order_id :: "uuid option"
  cv_readback :: "str option"
  cv_readback_heard :: bool
  cv_transferred :: bool
  cv_booking_say :: "str option"
  cv_known :: "uuid list"
  cv_offered :: "(uuid \<times> (str \<times> str)) list"
  cv_cart :: "cart_line list"
  cv_booked_cart :: "cart_line list"
  cv_seen :: "(uuid \<times> seen_item) list"
  cv_caller_phone :: "str option"
  cv_said_words :: "(str \<times> int) list"
  cv_said_numbers :: "str list"
  cv_asked_for_phone :: bool
  cv_greeted :: bool
  cv_last_say :: "str option"
  cv_service :: "(str \<times> bool) list option"
  cv_customer :: "(json \<times> json) option"
  cv_transfer_to :: "json option"
  cv_allergies :: "allergy list"
  cv_allergy_talk :: bool

text \<open>\<open>ToolResult\<close> of \<open>dispatch.py\<close>, and a call of the model.\<close>

record tool_result =
  tr_ok :: bool
  tr_data :: json
  tr_say :: "str option"
  tr_error_code :: "str option"
  tr_hint :: "str option"

record llm_call =
  tc_name :: str
  tc_args :: json

text \<open>The readers of guest text and of JSON that are not modelled.\<close>

record readers =
  rd_lines :: "json \<Rightarrow> order_item_in list option"
  rd_flag :: "json \<Rightarrow> bool option"
  rd_mentions_allergy :: "str \<Rightarrow> bool"
  rd_asks_about_allergies :: "str \<Rightarrow> bool"
  rd_is_question :: "str \<Rightarrow> bool"
  rd_asks_for_phone :: "str \<Rightarrow> bool \<Rightarrow> bool"
  rd_names_phone :: "str \<Rightarrow> bool"
  rd_numbers_said :: "str \<Rightarrow> str list"
  rd_words_said :: "str \<Rightarrow> (str \<times> int) list"
  rd_e164 :: "json \<Rightarrow> str"
  rd_name_said :: "json \<Rightarrow> (str \<times> int) list \<Rightarrow> bool"
  rd_clean_name :: "json \<Rightarrow> json"

section \<open>Helpers\<close>

text \<open>\<open>dict.get\<close> with what Python takes for empty.\<close>

definition json_list :: "json option \<Rightarrow> json list" where
  "json_list j = (case j of Some (JList xs) \<Rightarrow> xs | _ \<Rightarrow> [])"

definition text_of :: "json option \<Rightarrow> str" where
  "text_of j = (case j of Some (JStr s) \<Rightarrow> s | _ \<Rightarrow> [])"

definition truth_of :: "json option \<Rightarrow> bool" where
  "truth_of j = (case j of None \<Rightarrow> False | Some x \<Rightarrow> json_truth x)"

definition id_of :: "json option \<Rightarrow> uuid option" where
  "id_of j = (case j of Some (JId i) \<Rightarrow> Some i | _ \<Rightarrow> None)"

text \<open>The sentence as \<open>last_say\<close> keeps it; the ellipsis, which is not Latin-1, is three dots here.\<close>

definition LAST_SAY_MAX :: nat where "LAST_SAY_MAX = 300"

definition last_words :: "str \<Rightarrow> str" where
  "last_words say = (if length say \<le> LAST_SAY_MAX then say
     else ''...'' @ drop (length say - (LAST_SAY_MAX - 1)) say)"

definition SERVICE_FLAGS :: "str list" where
  "SERVICE_FLAGS = [''is_open'', ''pickup_enabled'', ''delivery_enabled'', ''reservations_enabled'']"

definition ADDRESS_SLOTS :: "str list" where
  "ADDRESS_SLOTS = [''street'', ''house_number'', ''postal_code'', ''city'', ''floor_note'']"

definition GUEST_SLOTS :: "str list" where
  "GUEST_SLOTS = [''party_size'', ''reserved_for'', ''guest_name'', ''phone'', ''note''] @ ADDRESS_SLOTS"

definition ORDER_WISHES :: "str list" where "ORDER_WISHES = [''pickup'', ''delivery'']"

section \<open>The order of the model\<close>

definition cart_line_of :: "order_item_in \<Rightarrow> cart_line" where
  "cart_line_of i = \<lparr>cl_item = in_menu_item_id i, cl_quantity = in_quantity i, cl_options = in_options i,
     cl_note = strip_or_none (in_note i)\<rparr>"

definition cart_lines :: "readers \<Rightarrow> json \<Rightarrow> cart_line list option" where
  "cart_lines E raw = map_option (map cart_line_of) (rd_lines E raw)"

text \<open>A line for comparison: the options sorted, in the comparison form.\<close>

definition line_key :: "cart_line \<Rightarrow> uuid \<times> int \<times> (str \<times> str) list \<times> str option" where
  "line_key l = (cl_item l, cl_quantity l,
     sort (map (\<lambda>o'. (option_key (ch_group o'), option_key (ch_name o'))) (cl_options l)), cl_note l)"

definition same_cart :: "cart_line list \<Rightarrow> cart_line list \<Rightarrow> bool" where
  "same_cart ls ms \<longleftrightarrow> mset (map line_key ls) = mset (map line_key ms)"

section \<open>Dropping a draft\<close>

definition CORRECTING :: "str list" where
  "CORRECTING = [''check_slot'', ''create_reservation'', ''draft_order'']"
definition MENU_LOOKUP :: "str list" where "MENU_LOOKUP = [''search_menu'']"
definition PICKUP_TOOLS :: "str list" where "PICKUP_TOOLS = ''draft_order'' # MENU_LOOKUP"

definition supersedes :: "str \<Rightarrow> tool_result \<Rightarrow> bool" where
  "supersedes name r \<longleftrightarrow> name = ''check_slot'' \<or> name \<in> set MENU_LOOKUP \<or> name \<in> set CORRECTING \<and> \<not> tr_ok r"

definition refused_for_good :: "str \<Rightarrow> tool_result \<Rightarrow> bool" where
  "refused_for_good name r \<longleftrightarrow> name = ''confirm'' \<and> \<not> tr_ok r \<and> tr_error_code r = Some ''conflict'' \<and> tr_hint r = None"

definition drop_readback :: "str \<Rightarrow> conv \<Rightarrow> conv" where
  "drop_readback name s =
     s\<lparr>cv_order_id := None, cv_reservation_id := None, cv_readback := None, cv_readback_heard := False,
       cv_intent := (if name \<notin> set PICKUP_TOOLS then Some ''reservation''
                     else if cv_intent s \<noteq> Some ''delivery'' then Some ''pickup'' else cv_intent s),
       cv_stage := SCollecting\<rparr>"

definition draft_replaced :: "str \<Rightarrow> conv \<Rightarrow> conv" where
  "draft_replaced name s = (if cv_stage s = SReadback then drop_readback name s else s)"

definition order_corrected :: "conv \<Rightarrow> conv" where
  "order_corrected s = (if cv_stage s = SReadback then drop_readback ''draft_order'' s else s)"

definition replace_cart :: "cart_line list \<Rightarrow> conv \<Rightarrow> conv" where
  "replace_cart ls s =
     (if same_cart ls (cv_cart s) then s
      else if cv_stage s = SConfirmed \<and> cv_cart s = [] \<and> same_cart ls (cv_booked_cart s) then s
      else (order_corrected s)\<lparr>cv_cart := ls\<rparr>)"

section \<open>What the guest said\<close>

definition number_set :: "str \<Rightarrow> conv \<Rightarrow> conv" where
  "number_set number s =
     (if cv_stage s = SReadback \<and> map_of (cv_slots s) ''phone'' \<noteq> Some (JStr number)
      then drop_readback (if cv_reservation_id s \<noteq> None then ''create_reservation'' else ''draft_order'') s else s)"

text \<open>\<open>state.slots.update\<close> and \<open>dict[k] = v\<close>.\<close>

definition put_slot :: "str \<Rightarrow> json \<Rightarrow> conv \<Rightarrow> conv" where
  "put_slot k v s = s\<lparr>cv_slots := AList.update k v (cv_slots s)\<rparr>"

definition note_word :: "str \<times> int \<Rightarrow> conv \<Rightarrow> conv" where
  "note_word wc s = (case wc of (w, n) \<Rightarrow>
     s\<lparr>cv_said_words := AList.update w (max (case map_of (cv_said_words s) w of None \<Rightarrow> 0 | Some m \<Rightarrow> m) n)
         (cv_said_words s)\<rparr>)"

definition note_number :: "str \<Rightarrow> conv \<Rightarrow> conv" where
  "note_number number s =
     put_slot ''phone'' (JStr number) (number_set number (s\<lparr>cv_said_numbers := List.insert number (cv_said_numbers s)\<rparr>))"

definition note_guest_details :: "readers \<Rightarrow> str \<Rightarrow> conv \<Rightarrow> bool \<times> conv" where
  "note_guest_details E text s =
     (let s = fold note_word (rd_words_said E text) s;
          numbers = (if cv_asked_for_phone s \<or> rd_names_phone E text then rd_numbers_said E text else [])
      in (numbers \<noteq> [], fold note_number numbers s))"


text \<open>What \<open>apply_state_patch\<close> takes of the details a model writes.\<close>

definition said_by_the_guest :: "readers \<Rightarrow> conv \<Rightarrow> str \<Rightarrow> json \<Rightarrow> bool" where
  "said_by_the_guest E s slot v =
     (if slot = ''guest_name'' then rd_name_said E v (cv_said_words s)
      else if slot = ''phone''
      then rd_e164 E v \<noteq> [] \<and> (Some (rd_e164 E v) = cv_caller_phone s \<or> rd_e164 E v \<in> set (cv_said_numbers s))
      else True)"

definition named_slots :: "readers \<Rightarrow> conv \<Rightarrow> (str \<times> json) list \<Rightarrow> (str \<times> json) list" where
  "named_slots E s patch =
     map (\<lambda>(k, v). (k, if k = ''phone'' then JStr (rd_e164 E v)
                       else if k = ''guest_name'' then rd_clean_name E v else v))
       (filter (\<lambda>(k, v). k \<in> set GUEST_SLOTS \<and> said_by_the_guest E s k v) patch)"

definition apply_state_patch :: "readers \<Rightarrow> (str \<times> json) list \<Rightarrow> conv \<Rightarrow> (str \<times> json) list \<times> conv" where
  "apply_state_patch E patch s =
     (let named = named_slots E s patch;
          s = (case map_of named ''phone'' of Some (JStr n) \<Rightarrow> number_set n s | _ \<Rightarrow> s);
          s = (if cv_stage s = SReadback \<and>
                  list_ex (\<lambda>(k, v). k \<in> set ADDRESS_SLOTS \<and> (case map_of (cv_slots s) k of None \<Rightarrow> JNull | Some x \<Rightarrow> x) \<noteq> v) named
               then drop_readback ''draft_order'' s else s)
      in (named, fold (\<lambda>(k, v). put_slot k v) named s))"

section \<open>api/agent/intent.py\<close>

definition py_in :: "str \<Rightarrow> str \<Rightarrow> bool" where
  "py_in p s \<longleftrightarrow> list_ex (\<lambda>i. py_startswith (drop i s) p) [0..<Suc (length s)]"

text \<open>\<open>nach\s+hause\<close> at the start of a text, and anywhere in it.\<close>

definition home_here :: "str \<Rightarrow> bool" where
  "home_here s \<longleftrightarrow> py_startswith s ''nach'' \<and>
     (let rest = drop 4 s in rest \<noteq> [] \<and> py_space (hd rest) \<and> py_startswith (dropWhile py_space rest) ''hause'')"

definition names_home :: "str \<Rightarrow> bool" where
  "names_home s \<longleftrightarrow> list_ex (\<lambda>i. home_here (drop i s)) [0..<length s]"

definition names_pickup :: "str \<Rightarrow> bool" where
  "names_pickup s \<longleftrightarrow> list_ex (\<lambda>p. py_in p s) [''abhol'', ''abzuhol'', ''abgehol'', ''mitnehm'', ''mitzunehm'']"

definition names_table :: "str \<Rightarrow> bool" where
  "names_table s \<longleftrightarrow> list_ex (\<lambda>w. w \<in> {''tisch'', ''tische'', ''tischen'', ''tisches''}) (spoken s) \<or> py_in ''reservier'' s"

definition rules_out :: "str \<Rightarrow> bool" where
  "rules_out s \<longleftrightarrow> list_ex (\<lambda>w. w \<in> {''nicht'', ''nichts'', ''kein'', ''keine'', ''keinem'', ''keinen'', ''keiner'', ''keines'',
     ''nein'', ''ohne'', ''statt'', ''anstatt''}) (spoken s)"

definition table_like :: "str \<Rightarrow> bool" where
  "table_like s \<longleftrightarrow> list_ex (\<lambda>p. py_in p s) [''tisch'', ''platz'', ''pl'' @ [ae] @ ''tz'', ''plaetz'', ''reserv'']"

definition names_the_way :: "str \<Rightarrow> bool" where
  "names_the_way text \<longleftrightarrow> (let s = py_lower text in names_pickup s \<or> py_in ''liefer'' s \<or> names_home s)"

definition heard_intent :: "str \<Rightarrow> str option" where
  "heard_intent text =
     (let s = py_lower text; table = table_like s; pickup = names_pickup s in
      if rules_out s then None
      else if py_in ''liefer'' s then (if pickup \<or> table then None else Some ''delivery'')
      else if pickup then (if table then None else Some ''pickup'')
      else if names_table s then Some ''reservation''
      else if table \<or> \<not> py_in ''bestell'' s then None
      else Some (if names_home s then ''delivery'' else ''pickup''))"

definition note_intent :: "str \<Rightarrow> conv \<Rightarrow> conv" where
  "note_intent text s =
     (case heard_intent text of None \<Rightarrow> s
      | Some wish \<Rightarrow>
          (case cv_intent s of
             Some i \<Rightarrow> if i \<in> set ORDER_WISHES \<and> wish \<in> set ORDER_WISHES \<and> names_the_way text \<and>
                 cv_order_id s = None \<and> cv_stage s \<noteq> SConfirmed
               then s\<lparr>cv_intent := Some wish\<rparr> else s
           | None \<Rightarrow>
               let shown = (if cv_cart s \<noteq> [] then ORDER_WISHES
                            else if list_ex (\<lambda>(k, v). k \<in> {''party_size'', ''reserved_for''}) (cv_slots s)
                            then [''reservation'']
                            else if cv_seen s \<noteq> [] then ORDER_WISHES else [wish])
               in if wish \<in> set shown then s\<lparr>cv_intent := Some wish\<rparr> else s))"

section \<open>What a tool result changes\<close>

definition to_read_out :: "tool_result \<Rightarrow> conv \<Rightarrow> conv" where
  "to_read_out r s = s\<lparr>cv_readback := (case jget ''readback'' (tr_data r) of Some (JStr t) \<Rightarrow> Some t | _ \<Rightarrow> None),
     cv_readback_heard := False\<rparr>"

definition group_of_json :: "json \<Rightarrow> str \<times> str list" where
  "group_of_json g = (text_of (jget ''group'' g), map (\<lambda>x. text_of (jget ''name'' x)) (json_list (jget ''options'' g)))"

definition seen_of :: "json \<Rightarrow> seen_item" where
  "seen_of hit =
     (let groups = (\<lambda>required. map group_of_json (filter (\<lambda>g. truth_of (jget ''required'' g) = required)
            (json_list (jget ''option_groups'' hit))))
      in \<lparr>si_number = text_of (jget ''number'' hit), si_name = text_of (jget ''name'' hit),
          si_sold_out = truth_of (jget ''sold_out'' hit), si_required = groups True, si_optional = groups False\<rparr>)"

text \<open>\<open>_to_dish\<close>: \<open>put_first\<close> writes the dish onto the first allergy that is \<open>free\<close>.\<close>

definition fold_ingredient :: "str option \<Rightarrow> str option" where
  "fold_ingredient i = (case i of None \<Rightarrow> None | Some t \<Rightarrow> if t = [] then None else Some (casefold t))"

fun put_first :: "('a \<Rightarrow> bool) \<Rightarrow> ('a \<Rightarrow> 'a) \<Rightarrow> 'a list \<Rightarrow> 'a list" where
  "put_first P f [] = []"
| "put_first P f (x # xs) = (if P x then f x # xs else x # put_first P f xs)"

definition to_dish :: "json option \<Rightarrow> uuid \<Rightarrow> conv \<Rightarrow> conv" where
  "to_dish ingredient i s =
     (let said = (case ingredient of Some (JStr t) \<Rightarrow> Some (casefold t) | _ \<Rightarrow> None);
          matches = (\<lambda>a. fold_ingredient (al_ingredient a) = said);
          same = filter matches (cv_allergies s);
          free = filter (\<lambda>a. al_item a = None) same in
      if same = [] \<or> list_ex (\<lambda>a. al_item a = Some i) same then s
      else if length (remdups (map al_own free)) > 1 then s
      else if free \<noteq> []
      then s\<lparr>cv_allergies := put_first (\<lambda>a. matches a \<and> al_item a = None) (\<lambda>a. a\<lparr>al_item := Some i\<rparr>) (cv_allergies s)\<rparr>
      else s\<lparr>cv_allergies := cv_allergies s @
             [(hd same)\<lparr>al_item := Some i, al_own := list_all al_own same\<rparr>]\<rparr>)"

definition CLEAR_MATCHES :: "str list" where
  "CLEAR_MATCHES = [''exact_number'', ''alias'', ''fuzzy_single'']"

definition note_part :: "json \<Rightarrow> conv \<Rightarrow> conv" where
  "note_part p s =
     (let hits = json_list (jget ''results'' p);
          clear = text_of (jget ''match_type'' p) \<in> set CLEAR_MATCHES;
          hits = (if clear then take 1 hits else hits);
          ids = List.map_filter (\<lambda>h. map_option (\<lambda>i. (i, h)) (id_of (jget ''menu_item_id'' h))) hits;
          s = (if clear then s\<lparr>cv_known := fold (\<lambda>(i, h). List.insert i) ids (cv_known s)\<rparr> else s);
          s = s\<lparr>cv_seen := fold (\<lambda>(i, h). AList.update i (seen_of h)) ids (cv_seen s)\<rparr>;
          wish = (case jget ''wish'' p of Some w \<Rightarrow> w | None \<Rightarrow> JNull);
          s = (if clear \<and> ids \<noteq> [] \<and> jget ''kind'' wish = Some (JStr ''allergy'')
               then to_dish (jget ''ingredient'' wish) (fst (hd ids)) s else s)
      in if clear then s
         else s\<lparr>cv_offered := fold (\<lambda>(i, h). AList.update i (text_of (jget ''number'' h), text_of (jget ''name'' h)))
                  ids (cv_offered s)\<rparr>)"

definition note_search :: "json \<Rightarrow> conv \<Rightarrow> conv" where
  "note_search data s =
     fold note_part (if jget ''match_type'' data = Some (JStr ''positions'') then json_list (jget ''positions'' data)
                     else [data]) s"

definition DRAFT_TOOLS :: "str list" where "DRAFT_TOOLS = [''create_reservation'', ''draft_order'']"

text \<open>The status of a draft that was decided since, if the tool replayed one.\<close>

definition decided :: "str \<Rightarrow> tool_result \<Rightarrow> bool" where
  "decided name r \<longleftrightarrow> name \<in> set DRAFT_TOOLS \<and>
     (case jget ''status'' (tr_data r) of None \<Rightarrow> False | Some j \<Rightarrow> j \<noteq> JStr ''draft'')"

definition service_flags :: "json \<Rightarrow> (str \<times> bool) list" where
  "service_flags data = List.map_filter (\<lambda>k. case jget k data of Some (JBool b) \<Rightarrow> Some (k, b) | _ \<Rightarrow> None) SERVICE_FLAGS"

definition took_draft :: "readers \<Rightarrow> str \<Rightarrow> tool_result \<Rightarrow> json \<Rightarrow> conv \<Rightarrow> conv" where
  "took_draft E name r args s =
     (if name = ''create_reservation''
      then to_read_out r (s\<lparr>cv_intent := Some ''reservation'', cv_reservation_id := id_of (jget ''reservation_id'' (tr_data r)),
             cv_order_id := None, cv_stage := SReadback, cv_booking_say := None\<rparr>)
      else let s = to_read_out r (s\<lparr>cv_intent := Some (case jget ''type'' args of None \<Rightarrow> ''pickup'' | j \<Rightarrow> text_of j),
                     cv_order_id := id_of (jget ''order_id'' (tr_data r)), cv_reservation_id := None,
                     cv_stage := SReadback, cv_booking_say := None\<rparr>)
           in case cart_lines E (case jget ''items'' args of None \<Rightarrow> JNull | Some j \<Rightarrow> j) of
                None \<Rightarrow> s | Some ls \<Rightarrow> s\<lparr>cv_cart := ls\<rparr>)"

definition took_result :: "readers \<Rightarrow> str \<Rightarrow> tool_result \<Rightarrow> json \<Rightarrow> conv \<Rightarrow> conv" where
  "took_result E name r args s =
     (let data = tr_data r in
      if name \<in> set DRAFT_TOOLS then took_draft E name r args s
      else if name = ''search_menu'' then note_search data s
      else if name = ''find_customer''
      then s\<lparr>cv_customer := (case (jget ''found'' data, jget ''address_id'' data) of
               (Some f, Some a) \<Rightarrow> Some (f, a) | _ \<Rightarrow> cv_customer s)\<rparr>
      else if name = ''get_item_details''
      then (if rd_flag E (case jget ''allergen_question'' args of None \<Rightarrow> JNull | Some j \<Rightarrow> j) = Some True
            then s\<lparr>cv_allergy_talk := True\<rparr> else s)
      else if name = ''get_service_status''
      then (let flags = service_flags data in
            if length flags = length SERVICE_FLAGS then s\<lparr>cv_service := Some flags\<rparr> else s)
      else if name = ''confirm''
      then (if cv_order_id s \<noteq> None then s\<lparr>cv_booked_cart := cv_cart s, cv_cart := []\<rparr> else s)
             \<lparr>cv_stage := SConfirmed, cv_readback := None, cv_readback_heard := False\<rparr>
      else if name = ''create_callback'' then s\<lparr>cv_stage := SCallback\<rparr>
      else if name = ''transfer_to_team'' \<and> truth_of (jget ''available'' data)
      then s\<lparr>cv_transferred := True, cv_stage := STransferred, cv_transfer_to := jget ''transfer_to'' data\<rparr>
      else s)"

definition apply_tool_result :: "readers \<Rightarrow> str \<Rightarrow> tool_result \<Rightarrow> json \<Rightarrow> conv \<Rightarrow> conv" where
  "apply_tool_result E name r args s =
     (let s = (if cv_stage s = SReadback \<and> supersedes name r then drop_readback name s else s);
          s = (if cv_stage s = SReadback \<and> refused_for_good name r
               then (drop_readback name s)\<lparr>cv_intent := cv_intent s\<rparr> else s)
      in if \<not> tr_ok r then s
         else if decided name r
         then (if jget ''status'' (tr_data r) = Some (JStr ''cancelled'') then s\<lparr>cv_booking_say := None\<rparr> else s)
         else took_result E name r args s)"

end
