(* ===== verification/Ladder.thy ===== *)
theory Ladder
  imports Dialogue
begin

text \<open>
  The ladder of understanding (\<open>api/agent/ladder.py\<close>): failed attempts per piece of information, two on a rung,
  three rungs before the call ends. And how a call is written off in the log (\<open>api/agent/outcome.py\<close>).
\<close>

section \<open>api/agent/ladder.py\<close>

definition MAX_LEVEL :: int where "MAX_LEVEL = 7"
definition FAILURES_BEFORE_LEVEL_UP :: int where "FAILURES_BEFORE_LEVEL_UP = 2"
definition LEVEL_UPS_BEFORE_END :: int where "LEVEL_UPS_BEFORE_END = 3"

record field_state =
  fs_level :: int
  failures_at_level :: int
  level_ups :: int

definition fresh_field :: field_state where
  "fresh_field = \<lparr>fs_level = 1, failures_at_level = 0, level_ups = 0\<rparr>"

text \<open>\<open>UnderstandingLadder\<close> is its dictionary, an association list in the order of its insertions.\<close>

type_synonym ladder = "(str \<times> field_state) list"

definition field_of :: "ladder \<Rightarrow> str \<Rightarrow> field_state" where
  "field_of l f = (case map_of l f of None \<Rightarrow> fresh_field | Some st \<Rightarrow> st)"

definition level_for :: "ladder \<Rightarrow> str \<Rightarrow> int" where
  "level_for l f = fs_level (field_of l f)"

definition failed_once :: "field_state \<Rightarrow> field_state" where
  "failed_once st =
     (let st = st\<lparr>failures_at_level := failures_at_level st + 1\<rparr>
      in if FAILURES_BEFORE_LEVEL_UP \<le> failures_at_level st \<and> fs_level st < MAX_LEVEL
         then st\<lparr>fs_level := fs_level st + 1, failures_at_level := 0, level_ups := level_ups st + 1\<rparr>
         else st)"

definition record_failure :: "str \<Rightarrow> ladder \<Rightarrow> int \<times> ladder" where
  "record_failure f l = (let st = failed_once (field_of l f) in (fs_level st, AList.update f st l))"

definition record_success :: "str \<Rightarrow> ladder \<Rightarrow> ladder" where
  "record_success f l = AList.delete f l"

definition should_end_call :: "ladder \<Rightarrow> str \<Rightarrow> bool" where
  "should_end_call l f \<longleftrightarrow> LEVEL_UPS_BEFORE_END \<le> level_ups (field_of l f)"

definition active_levels :: "ladder \<Rightarrow> (str \<times> int) list" where
  "active_levels l = map (\<lambda>(f, st). (f, fs_level st)) (filter (\<lambda>(f, st). 1 < fs_level st) l)"

section \<open>api/agent/outcome.py\<close>

text \<open>\<open>call_outcome\<close>: what the stage says. An intent the log does not know is none.\<close>

definition outcome_by_stage :: "stage \<Rightarrow> outcome" where
  "outcome_by_stage st = (case st of SConfirmed \<Rightarrow> Completed | STransferred \<Rightarrow> Transferred | SCallback \<Rightarrow> OCallback
     | _ \<Rightarrow> Abandoned)"

definition INTENT_NAMES :: "(str \<times> intent) list" where
  "INTENT_NAMES = [(''reservation'', IReservation), (''pickup'', IPickup), (''delivery'', IDelivery), (''info'', IInfo),
     (''complaint'', IComplaint), (''unknown'', IUnknown)]"

definition intent_of :: "str option \<Rightarrow> intent option" where
  "intent_of i = (case i of None \<Rightarrow> None | Some s \<Rightarrow> map_of INTENT_NAMES s)"

definition call_outcome :: "conv \<Rightarrow> outcome \<times> intent option" where
  "call_outcome s = (outcome_by_stage (cv_stage s), intent_of (cv_intent s))"

definition CLOSING_STAGES :: "stage list" where
  "CLOSING_STAGES = [SConfirmed, STransferred, SCallback, SEnded]"

section \<open>What the ladder promises\<close>

lemma field_of_failure: "field_of (snd (record_failure f l)) g = (if g = f then failed_once (field_of l f) else field_of l g)"
  by (simp add: record_failure_def Let_def field_of_def update_conv')

lemma field_of_success: "field_of (record_success f l) g = (if g = f then fresh_field else field_of l g)"
  by (simp add: record_success_def field_of_def delete_conv')

definition failures :: "str \<Rightarrow> nat \<Rightarrow> ladder \<Rightarrow> ladder" where
  "failures f n l = ((\<lambda>l. snd (record_failure f l)) ^^ n) l"

lemma field_of_failures: "field_of (failures f n l) g = (if g = f then (failed_once ^^ n) (field_of l f) else field_of l g)"
  by (induction n arbitrary: g) (simp_all add: failures_def field_of_failure)

text \<open>A rung is two failures; the seventh rung is the last.\<close>

lemma failed_once_rung:
  "failed_once \<lparr>fs_level = 1 + q, failures_at_level = r, level_ups = q\<rparr> =
     (if 1 \<le> r \<and> q < 6 then \<lparr>fs_level = 2 + q, failures_at_level = 0, level_ups = 1 + q\<rparr>
      else \<lparr>fs_level = 1 + q, failures_at_level = 1 + r, level_ups = q\<rparr>)"
  by (simp add: failed_once_def Let_def FAILURES_BEFORE_LEVEL_UP_def MAX_LEVEL_def)

lemma rungs: "n \<le> 12 \<Longrightarrow> (failed_once ^^ n) fresh_field =
    \<lparr>fs_level = 1 + int n div 2, failures_at_level = int n mod 2, level_ups = int n div 2\<rparr>"
proof (induction n)
  case (Suc n)
  then have ih: "(failed_once ^^ n) fresh_field =
    \<lparr>fs_level = 1 + int n div 2, failures_at_level = int n mod 2, level_ups = int n div 2\<rparr>" by simp
  have "failed_once \<lparr>fs_level = 1 + int n div 2, failures_at_level = int n mod 2, level_ups = int n div 2\<rparr> =
    \<lparr>fs_level = 1 + int (Suc n) div 2, failures_at_level = int (Suc n) mod 2, level_ups = int (Suc n) div 2\<rparr>"
    unfolding failed_once_rung using Suc.prems by (cases "even n") (auto elim!: evenE oddE)
  then show ?case by (simp only: funpow.simps o_apply ih)
qed (simp add: fresh_field_def)

lemma fresh_budget: "n \<le> 12 \<Longrightarrow> field_of l f = fresh_field \<Longrightarrow> should_end_call (failures f n l) f \<longleftrightarrow> 6 \<le> n"
  by (auto simp: should_end_call_def field_of_failures rungs LEVEL_UPS_BEFORE_END_def)

end
