(* ===== verification/Escalation.thy ===== *)
theory Escalation
  imports Ladder Vault
begin

text \<open>
  What the core hears in a sentence before the model is asked (\<open>api/agent/escalation.py\<close>): a complaint, the wish
  for a person, a cancellation, the question whether a person is on the line, a question about allergens beyond the
  database. And the fixed rules that answer a complaint (\<open>api/domain/callbacks/complaint_rules.py\<close>). The patterns are
  read as what they match. The readers of an allergy (\<open>menu/wishes.py\<close>, \<open>menu/pos_convert.py\<close>) are arguments.
\<close>

section \<open>Sentences\<close>

text \<open>\<open>SENTENCE.split\<close>: at blanks behind a mark.\<close>

definition sentence_mark :: "char \<Rightarrow> bool" where
  "sentence_mark c \<longleftrightarrow> c \<in> {CHR ''.'', CHR '';'', CHR ''!'', CHR ''?''}"

function sentences_from :: "str \<Rightarrow> str \<Rightarrow> str list" where
  "sentences_from acc [] = [rev acc]"
| "sentences_from acc (c # cs) =
     (if py_space c \<and> acc \<noteq> [] \<and> sentence_mark (hd acc) then rev acc # sentences_from [] (dropWhile py_space cs)
      else sentences_from (c # acc) cs)"
  by pat_completeness auto
termination
  by (relation "measure (\<lambda>(acc, s). length s)") (auto intro: le_imp_less_Suc length_dropWhile_le)

definition sentences :: "str \<Rightarrow> str list" where
  "sentences s = sentences_from [] s"

section \<open>The triggers\<close>

datatype escalation_reason = EComplaint | EHuman | ECancellation

definition TRIGGERS :: "(escalation_reason \<times> str list) list" where
  "TRIGGERS =
     [(EComplaint, [''beschwerde'', ''beschweren'', ''reklamation'', ''reklamieren'', [ae] @ ''rger'', [ae] @ ''rgerlich'',
        ''ge'' @ [ae] @ ''rgert'', ''unzufrieden'', ''schlechter service'']),
      (EHuman, [''mit einem menschen'', ''menschen sprechen'', ''jemanden sprechen'', ''mitarbeiter sprechen'',
        ''kollegen sprechen'', ''eine person sprechen'']),
      (ECancellation, [''storn'', ''r'' @ [ue] @ ''ckg'' @ [ae] @ ''ngig machen'', ''absagen'', ''abbestellen''])]"

definition says_one :: "str list \<Rightarrow> str \<Rightarrow> bool" where
  "says_one ps s \<longleftrightarrow> list_ex (\<lambda>p. py_in p s) ps"

definition check :: "str \<Rightarrow> escalation_reason option" where
  "check text = map_option fst (find (\<lambda>(r, ps). says_one ps (py_lower text)) TRIGGERS)"

section \<open>Allergens beyond the database\<close>

definition in_sentence :: "char \<Rightarrow> bool" where
  "in_sentence c \<longleftrightarrow> c \<notin> {CHR ''.'', CHR ''?'', CHR ''!''}"

text \<open>\<open>[^.?!]{0,40}\<close> before one of \<open>ps\<close> that \<open>ok\<close> accepts where it stands; the text before it is kept for the
  boundary of a word.\<close>

fun within :: "nat \<Rightarrow> (char option \<Rightarrow> str \<Rightarrow> bool) \<Rightarrow> char option \<Rightarrow> str \<Rightarrow> bool" where
  "within n ok prev s =
     (ok prev s \<or> (case (n, s) of (Suc m, c # cs) \<Rightarrow> in_sentence c \<and> within m ok (Some c) cs | _ \<Rightarrow> False))"

declare within.simps [simp del]

definition at_word :: "char option \<Rightarrow> bool" where
  "at_word prev \<longleftrightarrow> (case prev of None \<Rightarrow> True | Some c \<Rightarrow> \<not> word_char c)"

text \<open>The word \<open>w\<close> begins at position \<open>i\<close> of \<open>s\<close> and ends there; what follows, with the character before it.\<close>

definition word_at :: "str \<Rightarrow> nat \<Rightarrow> str \<Rightarrow> bool" where
  "word_at s i w \<longleftrightarrow> (i = 0 \<or> \<not> word_char (s ! (i - 1))) \<and> py_startswith (drop i s) w \<and>
     (case drop (i + length w) s of [] \<Rightarrow> True | c # _ \<Rightarrow> \<not> word_char c)"

definition behind :: "nat \<Rightarrow> str \<Rightarrow> str \<Rightarrow> (char option \<Rightarrow> str \<Rightarrow> bool) \<Rightarrow> bool" where
  "behind i w s ok \<longleftrightarrow> word_at s i w \<and> within 40 ok (Some (last w)) (drop (i + length w) s)"

definition shared_frying :: "str \<Rightarrow> bool" where
  "shared_frying s \<longleftrightarrow>
     list_ex (\<lambda>i. behind i ''zusammen mit'' s (\<lambda>prev rest. at_word prev \<and> py_startswith rest ''frittier'') \<or>
       behind i ''mit'' s (\<lambda>prev rest. at_word prev \<and> starts_with_any [''zusammen frittier'', ''zusammen gefrittier''] rest))
       [0..<length s]"

definition SAME :: "str list" where
  "SAME = concat (map (\<lambda>a. map (\<lambda>b. a @ b) [''selbe'', ''selben'']) [[], ''das'', ''dem'', ''den'', ''der'', ''die'']) @
     [''gleich''] @ concat (map (\<lambda>a. map (\<lambda>b. a @ b) [''e'', ''en'', ''em'', ''er'', ''es'']) [''gleich'', ''eigen'', ''separat'', ''getrennt''])"

definition VESSEL :: "str list" where
  "VESSEL = ['' '' @ [oe] @ ''l'', '' oel'', '' pfanne'', '' fritteuse'', '' friteuse'']"

definition same_vessel :: "str \<Rightarrow> bool" where
  "same_vessel s \<longleftrightarrow>
     list_ex (\<lambda>i. (i = 0 \<or> \<not> word_char (s ! (i - 1))) \<and>
       list_ex (\<lambda>w. py_startswith (drop i s) w \<and> starts_with_any VESSEL (drop (i + length w) s)) SAME) [0..<length s]"

definition asks_beyond_the_allergens :: "str \<Rightarrow> bool" where
  "asks_beyond_the_allergens text \<longleftrightarrow>
     (let s = py_lower text in says_one [''spuren'', ''kontamin'', ''verunreinig'', ''kreuzkontakt''] s \<or>
        same_vessel s \<or> shared_frying s)"

section \<open>Questions about allergies\<close>

record allergy_words =
  aw_mentions :: "str \<Rightarrow> bool"
  aw_denies :: "str \<Rightarrow> bool"
  aw_only_denies :: "str \<Rightarrow> bool"
  aw_allergen :: "str \<Rightarrow> bool"

definition speaks_of_allergies :: "allergy_words \<Rightarrow> str \<Rightarrow> bool" where
  "speaks_of_allergies A text \<longleftrightarrow> aw_mentions A text \<or> py_in ''allergen'' (py_lower text)"

definition is_question :: "str \<Rightarrow> bool" where
  "is_question text \<longleftrightarrow> CHR ''?'' \<in> set text \<or> asks (py_lower text)"

definition asks_about_allergies :: "allergy_words \<Rightarrow> str \<Rightarrow> bool" where
  "asks_about_allergies A text \<longleftrightarrow>
     (let said = filter (\<lambda>s. \<not> (aw_denies A s \<or> aw_only_denies A s)) (sentences text)
      in list_ex (speaks_of_allergies A) said \<and>
         list_ex (\<lambda>s. is_question s \<and> (speaks_of_allergies A s \<or> aw_allergen A s)) said)"

section \<open>Nothing but a complaint\<close>

definition TEAM_ONLY :: "str list" where
  "TEAM_ONLY = [''krank'', [ue] @ ''bel'', ''uebel'', ''erbroch'', ''durchfall'', ''vergift'', ''arzt'', [ae] @ ''rztin'',
     ''notaufnahme'', ''anwalt'', ''anw'' @ [ae] @ ''ltin'', ''polizei'', ''gesundheitsamt'', ''verbraucherzentrale'']"

definition WANTS :: "str list" where
  "WANTS = [''m'' @ [oe] @ ''chte'', ''m'' @ [oe] @ ''chten'', ''moechte'', ''moechten'', ''will'', ''wollen'', ''h'' @ [ae] @ ''tte'',
     ''h'' @ [ae] @ ''tten'', ''haette'', ''haetten'', ''nehme'', ''nehmen'', ''brauche'', ''brauchen'', ''bitte'', ''gern'', ''gerne'',
     ''bestelle'', ''bestellen'', ''abholen'', ''abzuholen'', ''mitnehmen'', ''mitzunehmen'', ''reservieren'', ''tisch'', ''tische'',
     ''tischen'', ''tisches'']"

text \<open>\<open>_WANTS_TO_COMPLAIN.sub\<close> on the words of the sentence: a wish, at most four words none of which is "und", and
  the word of the complaint.\<close>

fun complaint_ahead :: "nat \<Rightarrow> str list \<Rightarrow> str list option" where
  "complaint_ahead n [] = None"
| "complaint_ahead 0 (w # ws) = None"
| "complaint_ahead (Suc n) (w # ws) =
     (if starts_with_any [''beschwer'', ''reklam''] w then Some ws
      else if w = ''und'' then None else complaint_ahead n ws)"

lemma complaint_ahead_shorter: "complaint_ahead n ws = Some vs \<Longrightarrow> length vs < length ws"
  by (induction n ws rule: complaint_ahead.induct) (auto split: if_splits)

function without_complaint :: "str list \<Rightarrow> str list" where
  "without_complaint [] = []"
| "without_complaint (w # ws) =
     (if w \<in> set WANTS then (case complaint_ahead 5 ws of Some vs \<Rightarrow> without_complaint vs | None \<Rightarrow> w # without_complaint ws)
      else w # without_complaint ws)"
  by pat_completeness auto
termination
  by (relation "measure length") (auto dest: complaint_ahead_shorter)

definition only_a_complaint :: "allergy_words \<Rightarrow> str \<Rightarrow> bool" where
  "only_a_complaint A text \<longleftrightarrow>
     (let s = py_lower text
      in \<not> (list_ex (\<lambda>(r, ps). r \<noteq> EComplaint \<and> says_one ps s) TRIGGERS \<or> is_question text \<or>
             speaks_of_allergies A text \<or> aw_allergen A text \<or> asks_beyond_the_allergens text \<or>
             says_one TEAM_ONLY s \<or> list_ex (\<lambda>w. w \<in> set WANTS) (without_complaint (spoken s))))"

section \<open>Is a person on the line?\<close>

definition ASKING :: "(str \<times> str) list" where
  "ASKING = [(''sind'', ''sie''), (''bist'', ''du''), (''ist'', ''das''), (''ist'', ''da''), (''ist'', ''hier''), (''spreche'', ''ich''),
     (''rede'', ''ich''), (''bin'', ''ich''), (''telefoniere'', ''ich''), (''sie'', ''sind''), (''du'', ''bist'')]"

definition BETWEEN :: "str list" where
  "BETWEEN = [''hier'', ''da'', ''gerade'', ''jetzt'', ''denn'', ''eigentlich'', ''wirklich'', ''mit'',
     [ue] @ ''berhaupt'', ''ueberhaupt'', ''tats'' @ [ae] @ ''chlich'', ''tatsaechlich'', ''doch'', ''bei'',
     ''ein'', ''eine'', ''einem'', ''einer'', ''echt'', ''echte'', ''echter'', ''echten'',
     ''richtig'', ''richtige'', ''richtiger'', ''richtigen'',
     ''k'' @ [ue] @ ''nstliche'', ''kuenstliche'', ''k'' @ [ue] @ ''nstlichen'', ''kuenstlichen'']"

definition PERSON_OR_MACHINE :: "str list" where
  "PERSON_OR_MACHINE = [''mensch'', ''menschen'', ''person'', ''roboter'', ''bot'', ''chatbot'', ''maschine'',
     ''computer'', ''sprachcomputer'', ''ki'', ''intelligenz'', ''automat'', ''assistent'']"

definition NOTHING_ELSE :: "str list" where
  "NOTHING_ELSE = [''hallo'', ''guten'', ''tag'', ''abend'', ''morgen'', ''moin'', ''servus'', ''sagen'', ''sie'', ''mal'', ''kurz'', ''eine'',
     ''frage'', ''darf'', ''ich'', ''fragen'', ''entschuldigung'', ''also'', ''ja'', ''nein'', [ae] @ ''h'', [ae] @ ''hm'', ''hm'',
     ''ehrlich'', ''oder''] @ BETWEEN"

text \<open>\<open>_WORD.finditer\<close>: the words with where they start and end.\<close>

fun spans_from :: "nat \<Rightarrow> str \<Rightarrow> str \<Rightarrow> (str \<times> nat \<times> nat) list" where
  "spans_from i cur [] = (if cur = [] then [] else [(rev cur, i - length cur, i)])"
| "spans_from i cur (c # cs) =
     (if small_letter c then spans_from (Suc i) (c # cur) cs
      else (if cur = [] then [] else [(rev cur, i - length cur, i)]) @ spans_from (Suc i) [] cs)"

definition word_spans :: "str \<Rightarrow> (str \<times> nat \<times> nat) list" where
  "word_spans s = spans_from 0 [] s"

text \<open>The positions in the list of words are counted on; \<open>None\<close> when no person or machine follows.\<close>

fun person_or_machine :: "str list \<Rightarrow> nat \<Rightarrow> nat option" where
  "person_or_machine [] i = None"
| "person_or_machine (w # ws) i =
     (if w \<in> set BETWEEN then person_or_machine ws (Suc i)
      else if w \<in> set PERSON_OR_MACHINE then Some i else None)"

lemma person_or_machine_bounds: "person_or_machine ws i = Some j \<Longrightarrow> i \<le> j \<and> j < i + length ws"
  by (induction ws i rule: person_or_machine.induct) (auto split: if_splits)

text \<open>An either-or is one question: from one noun on to the next behind an "oder".\<close>

function either_or :: "str list \<Rightarrow> nat \<Rightarrow> nat" where
  "either_or ws i =
     (if i + 1 < length ws \<and> ws ! (i + 1) = ''oder''
      then case person_or_machine (drop (i + 2) ws) (i + 2) of None \<Rightarrow> i | Some j \<Rightarrow> either_or ws j
      else i)"
  by pat_completeness auto
termination
  by (relation "measure (\<lambda>(ws, i). length ws - i)") (auto dest!: person_or_machine_bounds)

declare either_or.simps [simp del]

definition question_spans :: "(str \<times> nat \<times> nat) list \<Rightarrow> (nat \<times> nat) list" where
  "question_spans spans =
     (let ws = map fst spans
      in List.map_filter (\<lambda>at.
           if (ws ! at, ws ! (at + 1)) \<notin> set ASKING then None
           else map_option (\<lambda>i. (fst (snd (spans ! at)), snd (snd (spans ! either_or ws i))))
                  (person_or_machine (drop (at + 2) ws) (at + 2)))
         [0..<length ws - 1])"

definition cut_span :: "nat \<times> nat \<Rightarrow> str \<Rightarrow> str" where
  "cut_span p s = take (fst p) s @ drop (snd p) s"

definition without_human_question :: "str \<Rightarrow> str option" where
  "without_human_question text =
     (let s = py_replace ''k.i.'' ''ki'' (py_lower text); found = question_spans (word_spans s)
      in if found = [] then None else Some (fold cut_span (rev found) s))"

definition asks_more :: "str \<Rightarrow> bool" where
  "asks_more rest \<longleftrightarrow> list_ex py_isdigit rest \<or> list_ex (\<lambda>w. w \<notin> set NOTHING_ELSE) (words rest)"

section \<open>api/domain/callbacks/complaint_rules.py\<close>

record complaint_rule =
  cpr_id :: uuid
  cpr_tenant_id :: uuid
  cpr_name :: str
  cpr_phrases :: "str list"
  cpr_cents :: int
  cpr_offer_say :: str
  cpr_granted_say :: str
  cpr_active :: bool

definition ACTION_REMEDY_BOOKED :: str where "ACTION_REMEDY_BOOKED = ''complaint.remedy_booked''"

definition spaced :: "str \<Rightarrow> str" where
  "spaced text = '' '' @ py_join '' '' (spoken (py_lower text)) @ '' ''"

text \<open>\<open>_DOUBT\<close>: a word of doubt between two blanks.\<close>

definition doubt_word :: "str \<Rightarrow> bool" where
  "doubt_word w \<longleftrightarrow> w \<in> set [''nicht'', ''nichts'', ''nie'', ''niemals'', ''nein'', ''ohne'', ''wenn'', ''falls'', ''ob'', ''vielleicht''] \<or>
     py_startswith w ''kein'' \<and> list_all word_char w"

definition doubtful :: "str \<Rightarrow> bool" where
  "doubtful s \<longleftrightarrow> (case split_at (\<lambda>c. c = CHR '' '') [] s of [] \<Rightarrow> False | p # ps \<Rightarrow> list_ex doubt_word (butlast ps))"

definition matching_rule :: "complaint_rule list \<Rightarrow> uuid \<Rightarrow> str \<Rightarrow> complaint_rule option" where
  "matching_rule rules tid said =
     (let ws = spaced said;
          hits = filter (\<lambda>r. cpr_tenant_id r = tid \<and> cpr_active r \<and> list_ex (\<lambda>p. py_in (spaced p) ws) (cpr_phrases r)) rules
      in case hits of
           [r] \<Rightarrow> if doubtful (fold (\<lambda>p s. py_replace (spaced p) '' '' s) (cpr_phrases r) ws) then None else Some r
         | _ \<Rightarrow> None)"

definition note_remedy :: "uuid \<Rightarrow> uuid \<Rightarrow> uuid \<Rightarrow> int \<Rightarrow> db \<Rightarrow> db" where
  "note_remedy tid cid rid cents d =
     add_audit tid ''agent'' ACTION_REMEDY_BOOKED ''complaint_rule'' rid (JObj [(''call_id'', JId cid), (''remedy_cents'', JInt cents)]) d"

end
