(* ===== verification/Guards.thy ===== *)
theory Guards
  imports Dialogue
begin

text \<open>
  What the core enforces whatever the model answers (\<open>api/agent/guards.py\<close>): a \<open>confirm\<close> only on a yes to
  the draft that was read out before this turn, an order only with dishes a search found or the guest
  heard by name, names and numbers only as the guest said them, no booking in the model's own words.
  \<open>unread_allergy_question\<close> and \<open>flag_the_allergy_question\<close> stand in \<open>Turn\<close>, where the fields of the call are
  that they read. Left out: \<open>allergen_claim\<close>, which reads with the word lists of the menu import.
\<close>

section \<open>The hints of a refusal\<close>

text \<open>For the model, part of what it reads; quotation marks that are not Latin-1 are plain ones here.\<close>

definition HINT_CONFIRM :: str where
  "HINT_CONFIRM = ''Abgelehnt: kein ausdr'' @ [ue] @
     ''ckliches Ja des Gastes auf den zuletzt vorgelesenen Entwurf. Erst den readback w'' @ [oe] @
     ''rtlich vorlesen (steht im Zustand, solange er nicht vorgelesen ist), dann auf ein '' @
     ''klares Ja warten.''"

definition HINT_NO_DRAFT :: str where
  "HINT_NO_DRAFT = ''Abgelehnt: es gibt keinen Entwurf, den der Gast best'' @ [ae] @ ''tigen k'' @ [oe] @ ''nnte. Erst '' @
     [CHR 0x60] @ ''draft_order'' @ [CHR 0x60] @ '' mit dem '' @ [CHR 0x60] @ ''cart'' @ [CHR 0x60] @
     '' aus dem Zustand aufrufen, bei einem Tisch '' @ [CHR 0x60] @ ''create_reservation'' @ [CHR 0x60] @
     '', dann dessen '' @ [CHR 0x60] @ ''readback'' @ [CHR 0x60] @
     '' vorlesen und auf ein klares Ja warten.''"

definition HINT_ITEM :: str where
  "HINT_ITEM = ''Abgelehnt: eine menu_item_id stammt nicht aus einem eindeutigen Treffer von '' @
     ''search_menu in diesem Anruf. Erst suchen; bei mehreren Treffern den Gast w'' @ [ae] @
     ''hlen lassen.''"

definition HINT_CART_ITEM :: str where
  "HINT_CART_ITEM = ''Abgelehnt: '' @ [CHR 0x60] @ ''cart'' @ [CHR 0x60] @
     '' nennt eine menu_item_id, die nicht aus einem eindeutigen Treffer von search_menu in '' @
     ''diesem Anruf stammt. Erst suchen; bei mehreren Treffern den Gast w'' @ [ae] @
     ''hlen lassen. Die Bestellung im Zustand ist unver'' @ [ae] @ ''ndert.''"

definition HINT_CART_SOLD_OUT :: str where
  "HINT_CART_SOLD_OUT = ''Abgelehnt: '' @ [CHR 0x60] @ ''cart'' @ [CHR 0x60] @
     '' nennt ein Gericht, das heute aus ist. Es kommt nicht in die Bestellung; sag dem '' @
     ''Gast, dass es aus ist. Die Bestellung im Zustand ist unver'' @ [ae] @ ''ndert.''"

definition HINT_CART_OPTION :: str where
  "HINT_CART_OPTION = ''Abgelehnt: '' @ [CHR 0x60] @ ''cart'' @ [CHR 0x60] @
     '' nennt eine Option, die es zu dem Gericht nicht gibt, dieselbe Option zweimal oder '' @
     ''zwei aus einer Pflichtgruppe. Die Optionen eines Gerichts stehen im Ergebnis von '' @
     ''search_menu und unter '' @ [CHR 0x60] @ ''open'' @ [CHR 0x60] @
     ''. Die Bestellung im Zustand ist unver'' @ [ae] @ ''ndert.''"

definition HINT_DRAFT_DIFFERS :: str where
  "HINT_DRAFT_DIFFERS = ''Abgelehnt: die '' @ [CHR 0x60] @ ''items'' @ [CHR 0x60] @ '' von draft_order sind nicht der '' @
     [CHR 0x60] @ ''cart'' @ [CHR 0x60] @ '' derselben Antwort. Beide m'' @ [ue] @
     ''ssen dieselbe Bestellung sein.''"

definition HINT_CART_FORM :: str where
  "HINT_CART_FORM = ''Abgelehnt: '' @ [CHR 0x60] @ ''cart'' @ [CHR 0x60] @ '' ist keine Liste von Positionen wie '' @
     [CHR 0x60] @ ''items'' @ [CHR 0x60] @
     '' von draft_order (menu_item_id, quantity, optional options und note). Die Bestellung '' @
     ''im Zustand ist unver'' @ [ae] @ ''ndert.''"

definition HINT_GUEST_NAME :: str where
  "HINT_GUEST_NAME = ''Abgelehnt: diesen Namen hat der Gast in diesem Anruf so nicht gesagt. Nie einen Namen '' @
     ''erfinden, erg'' @ [ae] @ ''nzen oder einen Platzhalter eintragen. Frag den Gast nach dem Namen und '' @
     [ue] @ ''bernimm ihn so, wie er ihn sagt, ohne Zusatz.''"

definition HINT_GUEST_PHONE :: str where
  "HINT_GUEST_PHONE = ''Abgelehnt: unter dieser Rufnummer wird nichts angelegt. Es gilt '' @ [CHR 0x60] @ ''phone'' @
     [CHR 0x60] @ '' aus '' @ [CHR 0x60] @ ''slots'' @ [CHR 0x60] @ '', Ziffer f'' @ [ue] @
     ''r Ziffer: die Nummer, von der der Gast anruft, oder die, die er als seine Rufnummer '' @
     ''genannt hat. Steht kein '' @ [CHR 0x60] @ ''phone'' @ [CHR 0x60] @ '' in '' @ [CHR 0x60] @ ''slots'' @
     [CHR 0x60] @ '', frag den Gast, unter welcher Rufnummer mit Vorwahl er erreichbar ist.''"

definition HINT_CALLBACK_PHONE :: str where
  "HINT_CALLBACK_PHONE = ''Abgelehnt: ein R'' @ [ue] @ ''ckruf braucht eine Rufnummer, und in '' @ [CHR 0x60] @ ''slots'' @
     [CHR 0x60] @ '' steht kein '' @ [CHR 0x60] @ ''phone'' @ [CHR 0x60] @
     ''; das Team ist gerade nicht erreichbar. Frag den Gast, unter welcher Nummer mit '' @
     ''Vorwahl er erreichbar ist.''"

definition HINT_NOT_BOOKED :: str where
  "HINT_NOT_BOOKED = ''Abgelehnt: eine Buchung und den Abholcode sagt der Kern, nicht du. Die W'' @ [oe] @ ''rter best'' @
     [ae] @ ''tigt, gebucht, reserviert, Abholcode und einen Code sagst du nie, auch nicht verneint '' @
     ''oder in einer Frage. Fragt der Gast nach seiner Buchung, sag '' @ [CHR 0x60] @ ''booking_say'' @
     [CHR 0x60] @ '' aus dem Zustand w'' @ [oe] @
     ''rtlich; sonst lies den readback vor und warte auf ein klares Ja.''"

definition HINT_ALLERGY_NOTE :: str where
  "HINT_ALLERGY_NOTE = ''Abgelehnt: ein '' @ [CHR 0x60] @ ''note'' @ [CHR 0x60] @
     '' nennt eine Allergie. Die Allergie des Gastes notiert der Kern selbst aus seinen '' @
     ''Worten; schreib sie nie in ein '' @ [CHR 0x60] @ ''note'' @ [CHR 0x60] @
     '', auch nicht verneint. Andere W'' @ [ue] @ ''nsche ('' @ [CHR 0x22] @ ''ohne Zwiebeln'' @ [CHR 0x22] @
     '', '' @ [CHR 0x22] @ ''Kinderstuhl'' @ [CHR 0x22] @ '') bleiben im '' @ [CHR 0x60] @ ''note'' @
     [CHR 0x60] @ ''. Ruf denselben Schritt ohne die Allergie noch einmal auf.''"

definition HINT_STATED_ALLERGY :: str where
  "HINT_STATED_ALLERGY = ''Abgelehnt: der Gast hat nur seine Allergie genannt und nichts gefragt. Der Kern '' @
     ''notiert sie f'' @ [ue] @ ''r die K'' @ [ue] @ ''che; pr'' @ [ue] @
     ''f keine Allergene und mach mit der Bestellung weiter.''"

section \<open>What the guest heard\<close>

text \<open>A text as whole words of a sentence, and a card number behind "Nummer" or "Nr.".\<close>

definition ends_word :: "str \<Rightarrow> bool" where
  "ends_word rest \<longleftrightarrow> rest = [] \<or> \<not> word_char (hd rest)"

definition starts_word :: "str \<Rightarrow> nat \<Rightarrow> bool" where
  "starts_word s i \<longleftrightarrow> i = 0 \<or> \<not> word_char (s ! (i - 1))"

definition whole_word :: "str \<Rightarrow> str \<Rightarrow> bool" where
  "whole_word p s \<longleftrightarrow> list_ex (\<lambda>i. starts_word s i \<and> py_startswith (drop i s) p \<and> ends_word (drop (i + length p) s))
     [0..<Suc (length s)]"

fun number_behind :: "str \<Rightarrow> str \<Rightarrow> bool" where
  "number_behind number s =
     (py_startswith s number \<and> ends_word (drop (length number) s) \<or>
      (case s of [] \<Rightarrow> False | c # cs \<Rightarrow> py_space c \<and> number_behind number cs))"

declare number_behind.simps [simp del]

definition says_number :: "str \<Rightarrow> str \<Rightarrow> bool" where
  "says_number number s \<longleftrightarrow>
     list_ex (\<lambda>i. starts_word s i \<and> list_ex (\<lambda>w. py_startswith (drop i s) w \<and> number_behind number (drop (i + length w) s))
        [''nummer'', ''nr'', ''nr.'']) [0..<length s]"

definition names_dish :: "str \<Rightarrow> str \<Rightarrow> str \<Rightarrow> bool" where
  "names_dish heard number name \<longleftrightarrow> name \<noteq> [] \<and> whole_word name heard \<or> number \<noteq> [] \<and> says_number number heard"

definition note_said :: "readers \<Rightarrow> str \<Rightarrow> conv \<Rightarrow> conv" where
  "note_said E say s =
     (let heard = py_lower say;
          named = map fst (filter (\<lambda>(i, number, name). names_dish heard (py_lower number) (py_lower name)) (cv_offered s))
      in s\<lparr>cv_readback_heard := (case cv_readback s of None \<Rightarrow> False | Some rb \<Rightarrow> read_out say rb),
           cv_last_say := Some (last_words say), cv_greeted := True,
           cv_asked_for_phone := rd_asks_for_phone E say (cv_asked_for_phone s),
           cv_known := fold List.insert named (cv_known s),
           cv_offered := filter (\<lambda>(i, label). i \<notin> set named) (cv_offered s)\<rparr>)"

section \<open>The draft that waits\<close>

definition readback_id :: "conv \<Rightarrow> uuid option" where
  "readback_id s =
     (if cv_stage s \<noteq> SReadback then None
      else case cv_order_id s of Some i \<Rightarrow> Some i | None \<Rightarrow> cv_reservation_id s)"

text \<open>\<open>TurnStart\<close> is its one field.\<close>

definition begin_turn :: "conv \<Rightarrow> uuid option" where
  "begin_turn s = (if cv_readback_heard s then readback_id s else None)"

definition may_confirm :: "conv \<Rightarrow> uuid option \<Rightarrow> str \<Rightarrow> llm_call \<Rightarrow> bool" where
  "may_confirm s start user_text call \<longleftrightarrow>
     start \<noteq> None \<and> readback_id s = start \<and> id_of (jget ''entity_id'' (tc_args call)) = start \<and> is_yes user_text"

definition unheard_readback :: "conv \<Rightarrow> str option" where
  "unheard_readback s = (if cv_stage s = SReadback \<and> \<not> cv_readback_heard s then cv_readback s else None)"

definition reread_on_yes :: "conv \<Rightarrow> uuid option \<Rightarrow> str \<Rightarrow> llm_call option \<Rightarrow> str option" where
  "reread_on_yes s start user_text call =
     (case call of None \<Rightarrow> None
      | Some c \<Rightarrow> if tc_name c \<noteq> ''confirm'' \<or> \<not> is_yes user_text then None
          else if may_confirm s start user_text c then None else unheard_readback s)"

section \<open>The order of the model\<close>

definition refused :: "str \<Rightarrow> str \<Rightarrow> tool_result" where
  "refused code hint = \<lparr>tr_ok = False, tr_data = JObj [], tr_say = None, tr_error_code = Some code, tr_hint = Some hint\<rparr>"

definition options_fit :: "seen_item option \<Rightarrow> cart_line \<Rightarrow> bool" where
  "options_fit seen l =
     (let required = (case seen of None \<Rightarrow> [] | Some x \<Rightarrow> si_required x);
          optional = (case seen of None \<Rightarrow> [] | Some x \<Rightarrow> si_optional x);
          offered = concat (map (\<lambda>(g, names). map (\<lambda>n. (option_key g, option_key n)) names) (required @ optional));
          chosen = map (\<lambda>o'. (option_key (ch_group o'), option_key (ch_name o'))) (cl_options l);
          groups = map fst chosen
      in list_all (\<lambda>c. c \<in> set offered) chosen \<and> distinct chosen \<and>
         list_all (\<lambda>(g, _). length (filter (\<lambda>k. k = option_key g) groups) \<le> 1) required)"

text \<open>\<open>take_cart\<close>: what was refused, if it was, and the state. The hint of a wrong form carries
  pydantic's words too, which are left out.\<close>

definition refused_cart :: "readers \<Rightarrow> cart_line list \<Rightarrow> conv \<Rightarrow> tool_result option" where
  "refused_cart E ls s =
     (if list_ex (\<lambda>l. rd_mentions_allergy E (case cl_note l of None \<Rightarrow> [] | Some n \<Rightarrow> n)) ls
      then Some (refused ''invalid_input'' HINT_ALLERGY_NOTE)
      else if \<not> list_all (\<lambda>l. cl_item l \<in> set (cv_known s)) ls then Some (refused ''invalid_input'' HINT_CART_ITEM)
      else if list_ex (\<lambda>l. case map_of (cv_seen s) (cl_item l) of None \<Rightarrow> False | Some x \<Rightarrow> si_sold_out x) ls
      then Some (refused ''conflict'' HINT_CART_SOLD_OUT)
      else if \<not> list_all (\<lambda>l. options_fit (map_of (cv_seen s) (cl_item l)) l) ls
      then Some (refused ''invalid_input'' HINT_CART_OPTION)
      else None)"

definition take_cart :: "readers \<Rightarrow> json \<Rightarrow> conv \<Rightarrow> tool_result option \<times> conv" where
  "take_cart E cart s =
     (case cart_lines E cart of
        None \<Rightarrow> (Some (refused ''invalid_input'' HINT_CART_FORM), order_corrected s)
      | Some ls \<Rightarrow>
          (case refused_cart E ls s of
             None \<Rightarrow> (None, replace_cart ls s)
           | Some r \<Rightarrow> (Some r, order_corrected s)))"

section \<open>The refusal of a call\<close>

definition NOTED :: "str list" where "NOTED = [''draft_order'', ''create_reservation'']"

text \<open>\<open>args.get(k)\<close>: a null is as good as nothing.\<close>

definition jval :: "str \<Rightarrow> json \<Rightarrow> json option" where
  "jval k j = (case jget k j of Some JNull \<Rightarrow> None | x \<Rightarrow> x)"

definition notes_of :: "llm_call \<Rightarrow> str list" where
  "notes_of c =
     (if tc_name c \<notin> set NOTED then []
      else List.map_filter (\<lambda>j. case j of Some (JStr n) \<Rightarrow> Some n | _ \<Rightarrow> None)
             (jget ''note'' (tc_args c) # map (jget ''note'') (json_list (jget ''items'' (tc_args c)))))"

definition states_an_allergy :: "readers \<Rightarrow> str \<Rightarrow> llm_call \<Rightarrow> bool" where
  "states_an_allergy E user_text c \<longleftrightarrow>
     rd_flag E (case jget ''allergen_question'' (tc_args c) of None \<Rightarrow> JNull | Some j \<Rightarrow> j) = Some True \<and>
     rd_mentions_allergy E user_text \<and>
     \<not> list_ex (rd_is_question E) (split_at (\<lambda>c. c = CHR '','') [] user_text) \<and>
     \<not> rd_asks_about_allergies E user_text"

definition is_object :: "json option \<Rightarrow> bool" where
  "is_object j = (case j of Some (JObj _) \<Rightarrow> True | _ \<Rightarrow> False)"

definition guest_details :: "llm_call \<Rightarrow> json option \<times> json option" where
  "guest_details c =
     (let args = tc_args c in
      if tc_name c = ''create_reservation'' then (jval ''guest_name'' args, jval ''phone'' args)
      else if tc_name c = ''create_callback'' then (None, jval ''phone'' args)
      else if tc_name c = ''find_customer'' then (jval ''guest_name'' args, None)
      else if tc_name c = ''draft_order''
      then (case jget ''customer'' args of Some (JObj kvs) \<Rightarrow> (jval ''name'' (JObj kvs), jval ''phone'' (JObj kvs))
            | _ \<Rightarrow> (None, None))
      else (None, None))"

definition books_under_a_number :: "llm_call \<Rightarrow> bool" where
  "books_under_a_number c =
     (if tc_name c = ''draft_order'' then is_object (jget ''customer'' (tc_args c))
      else tc_name c = ''create_reservation'' \<or> tc_name c = ''create_callback'')"

text \<open>\<open>e164\<close> of a value that may be missing.\<close>

definition e164_of :: "readers \<Rightarrow> json option \<Rightarrow> str" where
  "e164_of E j = rd_e164 E (case j of None \<Rightarrow> JNull | Some x \<Rightarrow> x)"

definition phone_counts :: "readers \<Rightarrow> conv \<Rightarrow> json option \<Rightarrow> bool" where
  "phone_counts E s phone =
     (let written = e164_of E phone in
      case map_of (cv_slots s) ''phone'' of
        Some cur \<Rightarrow> if cur \<noteq> JNull then written \<noteq> [] \<and> written = rd_e164 E cur
          else written \<noteq> [] \<and> (Some written = cv_caller_phone s \<or> written \<in> set (cv_said_numbers s))
      | None \<Rightarrow> written \<noteq> [] \<and> (Some written = cv_caller_phone s \<or> written \<in> set (cv_said_numbers s)))"

definition all_known :: "conv \<Rightarrow> llm_call \<Rightarrow> bool" where
  "all_known s c \<longleftrightarrow>
     list_all (\<lambda>item. \<not> is_object (Some item) \<or>
         (case id_of (jget ''menu_item_id'' item) of None \<Rightarrow> False | Some i \<Rightarrow> i \<in> set (cv_known s)))
       (json_list (jget ''items'' (tc_args c)))"

definition drafts_the_cart :: "readers \<Rightarrow> conv \<Rightarrow> llm_call \<Rightarrow> bool" where
  "drafts_the_cart E s c =
     (case cart_lines E (case jget ''items'' (tc_args c) of None \<Rightarrow> JNull | Some j \<Rightarrow> j) of
        None \<Rightarrow> True | Some ls \<Rightarrow> same_cart ls (cv_cart s))"

definition refusal :: "readers \<Rightarrow> conv \<Rightarrow> uuid option \<Rightarrow> str \<Rightarrow> llm_call \<Rightarrow> bool \<Rightarrow> tool_result option" where
  "refusal E s start user_text call cart_sent =
     (if list_ex (rd_mentions_allergy E) (notes_of call) then Some (refused ''invalid_input'' HINT_ALLERGY_NOTE)
      else if tc_name call = ''get_item_details'' \<and> states_an_allergy E user_text call
      then Some (refused ''invalid_input'' HINT_STATED_ALLERGY)
      else if tc_name call = ''confirm''
      then (if may_confirm s start user_text call then None
            else Some (refused ''conflict'' (if readback_id s \<noteq> None then HINT_CONFIRM else HINT_NO_DRAFT)))
      else let (name, phone) = guest_details call in
        if (case name of None \<Rightarrow> False | Some n \<Rightarrow> \<not> rd_name_said E n (cv_said_words s))
        then Some (refused ''invalid_input'' HINT_GUEST_NAME)
        else if e164_of E phone = [] \<and> books_under_a_number call
        then Some (refused ''invalid_input''
               (if tc_name call = ''create_callback'' \<and> \<not> truth_of (map_of (cv_slots s) ''phone'')
                then HINT_CALLBACK_PHONE else HINT_GUEST_PHONE))
        else if phone \<noteq> None \<and> \<not> phone_counts E s phone then Some (refused ''invalid_input'' HINT_GUEST_PHONE)
        else if tc_name call = ''draft_order''
        then (if \<not> all_known s call then Some (refused ''invalid_input'' HINT_ITEM)
              else if cart_sent \<and> \<not> drafts_the_cart E s call then Some (refused ''conflict'' HINT_DRAFT_DIFFERS)
              else None)
        else None)"

section \<open>No booking in the model's words\<close>

definition BOOKING_STEMS :: "str list" where
  "BOOKING_STEMS = [''best'' @ [ae] @ ''tigt'', ''bestaetigt'', ''gebucht'', ''reserviert'', ''aufgegeben'', ''aufgenommen'']"

definition blank_or_dash :: "char \<Rightarrow> bool" where
  "blank_or_dash c \<longleftrightarrow> py_space c \<or> c = CHR ''-''"

definition claim_here :: "str \<Rightarrow> bool" where
  "claim_here s \<longleftrightarrow> starts_with_any BOOKING_STEMS s \<or>
     py_startswith s ''abhol'' \<and> starts_with_any [''code'', ''nummer''] (dropWhile blank_or_dash (drop 5 s))"

definition claims_booking :: "str \<Rightarrow> bool" where
  "claims_booking text \<longleftrightarrow> (let s = py_lower text in list_ex (\<lambda>i. starts_word s i \<and> claim_here (drop i s)) [0..<length s])"

definition ascii_letter :: "char \<Rightarrow> bool" where
  "ascii_letter c \<longleftrightarrow> (let n = (of_char c :: nat) in 65 \<le> n \<and> n \<le> 90 \<or> 97 \<le> n \<and> n \<le> 122)"

text \<open>\<open>_SPLIT_CODE.sub\<close>: "B 99" written together; \<open>prev\<close> tells whether a word character stands before.\<close>

function join_codes :: "bool \<Rightarrow> str \<Rightarrow> str" where
  "join_codes prev [] = []"
| "join_codes prev (c # cs) =
     (let rest = dropWhile blank_or_dash cs; digits = takeWhile is_digit rest; behind = dropWhile is_digit rest
      in if \<not> prev \<and> ascii_letter c \<and> length rest < length cs \<and> digits \<noteq> [] \<and> length digits \<le> 4 \<and> ends_word behind
         then c # digits @ join_codes True behind
         else c # join_codes (word_char c) cs)"
  by pat_completeness auto
termination
  by (relation "measure (\<lambda>(p, s). length s)")
    (auto intro: le_imp_less_Suc [OF order_trans [OF length_dropWhile_le length_dropWhile_le]])

definition names_code_word :: "str \<Rightarrow> bool" where
  "names_code_word s \<longleftrightarrow>
     list_ex (\<lambda>i. starts_word s i \<and> (i = 0 \<or> s ! (i - 1) \<noteq> CHR ''-'') \<and> py_startswith (drop i s) ''code'' \<and>
        ends_word (drop (i + 4) s)) [0..<length s]"

definition code_shaped :: "str \<Rightarrow> bool" where
  "code_shaped w \<longleftrightarrow> w \<noteq> [] \<and>
     (ascii_letter (hd w) \<and> list_all is_digit (tl w) \<and> 1 \<le> length (tl w) \<and> length (tl w) \<le> 4 \<or>
      list_all is_digit w \<and> 3 \<le> length w \<and> length w \<le> 6)"

definition names_a_code :: "str \<Rightarrow> bool" where
  "names_a_code text \<longleftrightarrow>
     (let joined = join_codes False text in names_code_word (py_lower joined) \<and> list_ex code_shaped (spoken joined))"

text \<open>The core's own sentences taken out.\<close>

definition without_own :: "conv \<Rightarrow> str \<Rightarrow> str" where
  "without_own s say =
     fold (\<lambda>own rest. case own of None \<Rightarrow> rest | Some t \<Rightarrow> if t = [] then rest else py_replace t '' '' rest)
       [cv_booking_say s, cv_readback s] say"

definition false_booking :: "conv \<Rightarrow> str \<Rightarrow> tool_result option" where
  "false_booking s say =
     (let rest = without_own s say in
      if claims_booking rest \<or> names_a_code rest then Some (refused ''conflict'' HINT_NOT_BOOKED) else None)"

end
