(* ===== verification/Allergies.thy ===== *)
theory Allergies
  imports Escalation Guards
begin

text \<open>
  The allergies of the caller (\<open>api/agent/allergies.py\<close>): the core reads them from the guest's own words, asks what
  is missing, and writes them onto the draft that goes out, with their reason only after an explicit yes. How a
  sentence is read in detail (\<open>menu/wishes.py\<close>) is an argument.
\<close>

section \<open>The rest of the state of a call\<close>

text \<open>\<open>ConversationState\<close> beyond \<open>conv\<close>: what the core keeps for its own questions.\<close>

datatype recording_stage = RecAsked | RecOn | RecOff | RecWithdrawn

record remedy_offer =
  ro_rule_id :: uuid
  ro_name :: str
  ro_cents :: int
  ro_offer_say :: str
  ro_granted_say :: str
  ro_complaint :: str

record call_line =
  ln_conv :: conv
  ln_consent :: "answer option"
  ln_held :: "llm_call option"
  ln_which_asks :: int
  ln_handoff :: "str option"
  ln_waits :: "str option"
  ln_wait_asks :: int
  ln_wait_reason :: str
  ln_recording :: "recording_stage option"
  ln_file :: "str option"
  ln_offer :: "remedy_offer option"

definition on_conv :: "(conv \<Rightarrow> conv) \<Rightarrow> call_line \<Rightarrow> call_line" where
  "on_conv f l = l\<lparr>ln_conv := f (ln_conv l)\<rparr>"

section \<open>The readers\<close>

record guest_wish =
  ws_allergy :: bool
  ws_ingredient :: "str option"
  ws_another_adult :: bool

datatype which_answer = NothingNamed | TakenBack | Names guest_wish

record wish_words =
  ww_words :: allergy_words
  ww_classify :: "str \<Rightarrow> guest_wish option"
  ww_candidates :: "str \<Rightarrow> (str \<times> str) list"
  ww_which :: "str \<Rightarrow> which_answer \<times> str list"
  ww_in_full :: "str \<Rightarrow> str \<Rightarrow> bool"
  ww_orders :: "db \<Rightarrow> uuid \<Rightarrow> str \<Rightarrow> bool"
  ww_answers_only :: "str \<Rightarrow> bool"
  ww_named :: "str \<Rightarrow> int"
  ww_other_adult :: "str \<Rightarrow> bool"

definition mentions :: "wish_words \<Rightarrow> str \<Rightarrow> bool" where
  "mentions W text \<longleftrightarrow> aw_mentions (ww_words W) text"

section \<open>The questions of the core\<close>

definition SAY_ALLERGY_WHICH :: str where "SAY_ALLERGY_WHICH = ''Wogegen sind Sie allergisch?''"

definition say_allergy_which_for :: "str \<Rightarrow> str" where
  "say_allergy_which_for name = ''Wogegen sind Sie bei '' @ name @ '' allergisch?''"

text \<open>\<open>_ASKED_WHICH.search\<close>: whether it matches, with the dish if it names one.\<close>

definition asks_end :: "str \<Rightarrow> bool" where
  "asks_end s \<longleftrightarrow> py_startswith s '' allergisch?'' \<and> list_all py_space (drop 12 s)"

definition asked_here :: "str \<Rightarrow> str option option" where
  "asked_here s =
     (if \<not> py_startswith s ''Wogegen sind Sie'' then None
      else let rest = drop 16 s in
        if asks_end rest then Some None
        else if \<not> py_startswith rest '' bei '' then None
        else let d = drop 5 rest
          in map_option (\<lambda>k. Some (take k d))
               (find (\<lambda>k. CHR 0x0A \<notin> set (take k d) \<and> asks_end (drop k d)) [1..<length d]))"

definition asked_dish :: "str option \<Rightarrow> str option option" where
  "asked_dish say =
     (case say of None \<Rightarrow> None
      | Some s \<Rightarrow> (case List.map_filter (\<lambda>i. asked_here (drop i s)) [0..<length s] of [] \<Rightarrow> None | x # _ \<Rightarrow> Some x))"

definition asked_which :: "str option \<Rightarrow> bool" where
  "asked_which say \<longleftrightarrow> asked_dish say \<noteq> None"

definition still_open :: "conv \<Rightarrow> allergy list" where
  "still_open s = filter (\<lambda>a. al_ingredient a = None) (cv_allergies s)"

definition seen_name :: "conv \<Rightarrow> uuid option \<Rightarrow> str option" where
  "seen_name s i = (case i of None \<Rightarrow> None | Some k \<Rightarrow> map_option si_name (map_of (cv_seen s) k))"

definition question :: "call_line \<Rightarrow> str option" where
  "question l =
     (let s = ln_conv l in
      case still_open s of
        a # as \<Rightarrow>
          (case seen_name s (al_item a) of
             Some d \<Rightarrow> Some (if as \<noteq> [] \<and> d \<noteq> [] then say_allergy_which_for d else SAY_ALLERGY_WHICH)
           | None \<Rightarrow> Some SAY_ALLERGY_WHICH)
      | [] \<Rightarrow> if ln_consent l = None \<and> list_ex al_own (cv_allergies s) then Some ALLERGY_QUESTION else None)"

definition WHICH_ASKS :: int where "WHICH_ASKS = 2"

definition asked_out :: "call_line \<Rightarrow> str \<Rightarrow> bool" where
  "asked_out l q \<longleftrightarrow> asked_which (Some q) \<and> WHICH_ASKS \<le> ln_which_asks l"

definition answered :: "wish_words \<Rightarrow> conv \<Rightarrow> str \<Rightarrow> bool" where
  "answered W s text \<longleftrightarrow> still_open s = [] \<and> ww_answers_only W text"

section \<open>What the guest said\<close>

definition add_allergy :: "allergy \<Rightarrow> conv \<Rightarrow> conv" where
  "add_allergy a s =
     (let key = (\<lambda>x. (casefold (case al_ingredient x of None \<Rightarrow> [] | Some t \<Rightarrow> t), al_own x))
      in if al_ingredient a = None \<or>
            \<not> list_ex (\<lambda>b. key b = key a \<and> (al_item a = None \<or> al_item a = al_item b)) (cv_allergies s)
         then s\<lparr>cv_allergies := cv_allergies s @ [a]\<rparr> else s)"

definition read_whole :: "wish_words \<Rightarrow> str \<Rightarrow> guest_wish option" where
  "read_whole W text =
     (case ww_classify W text of None \<Rightarrow> None
      | Some whole \<Rightarrow>
          if \<not> ws_allergy whole then None
          else let whole = (if 1 < ww_named W text \<and> ww_other_adult W text then whole\<lparr>ws_another_adult := True\<rparr> else whole)
            in if ws_ingredient whole = None
               then (if aw_only_denies (ww_words W) text then None else Some whole)
               else let said = find (\<lambda>(d, w). mentions W w \<and> \<not> py_endswith d ''-'') (ww_candidates W text)
                 in case (case said of None \<Rightarrow> None | Some (d, w) \<Rightarrow> ww_classify W w) of
                      None \<Rightarrow> Some whole
                    | Some b \<Rightarrow>
                        if ws_ingredient b = None \<or> ws_ingredient b = ws_ingredient whole then Some whole
                        else Some (whole\<lparr>ws_ingredient := None, ws_another_adult := ws_another_adult whole \<or> ws_another_adult b\<rparr>))"

definition allergy_of_wish :: "guest_wish \<Rightarrow> allergy" where
  "allergy_of_wish w = \<lparr>al_ingredient = ws_ingredient w, al_own = (\<not> ws_another_adult w), al_item = None\<rparr>"

definition readings :: "wish_words \<Rightarrow> str \<Rightarrow> guest_wish list" where
  "readings W text =
     (let whole = read_whole W text; said = filter (mentions W) (sentences text)
      in List.map_filter id
           (if length said \<le> 1 then [whole]
            else let parts = map (read_whole W) said
              in parts @ (case whole of
                   Some w \<Rightarrow> if ws_ingredient w = None
                     then [Some (w\<lparr>ws_another_adult := list_ex (\<lambda>r. case r of None \<Rightarrow> False | Some x \<Rightarrow> ws_another_adult x) parts\<rparr>)]
                     else []
                 | None \<Rightarrow> [])))"

definition note_wish :: "wish_words \<Rightarrow> str \<Rightarrow> conv \<Rightarrow> conv" where
  "note_wish W text s =
     (if \<not> mentions W text then s else fold (\<lambda>w. add_allergy (allergy_of_wish w)) (readings W text) s)"

text \<open>\<open>_answer\<close>; with it, whether an open allergy was answered or taken back.\<close>

definition item_named :: "conv \<Rightarrow> str option \<Rightarrow> uuid option" where
  "item_named s dish =
     (case dish of None \<Rightarrow> None
      | Some d \<Rightarrow> if d = [] then None else map_option fst (find (\<lambda>(i, x). si_name x = d) (cv_seen s)))"

definition allergy_asked :: "conv \<Rightarrow> uuid option \<Rightarrow> allergy option" where
  "allergy_asked s i =
     (case (if i = None then None else find (\<lambda>a. al_item a = i) (still_open s)) of
        Some a \<Rightarrow> Some a | None \<Rightarrow> (case still_open s of [] \<Rightarrow> None | a # _ \<Rightarrow> Some a))"

definition answer_which :: "wish_words \<Rightarrow> db \<Rightarrow> str \<Rightarrow> str option \<Rightarrow> conv \<Rightarrow> bool \<times> conv" where
  "answer_which W d text dish s =
     (if ww_orders W d (cv_tenant_id s) text then (False, s)
      else let (answer, removals) = ww_which W text;
               answer = (case answer of
                   Names w \<Rightarrow> if mentions W text then (case read_whole W text of None \<Rightarrow> NothingNamed | Some x \<Rightarrow> Names x) else answer
                 | _ \<Rightarrow> answer)
        in case answer of
             NothingNamed \<Rightarrow> (False, s)
           | TakenBack \<Rightarrow>
               (case allergy_asked s (item_named s dish) of None \<Rightarrow> (False, s)
                | Some a \<Rightarrow> (True, s\<lparr>cv_allergies := remove1 a (cv_allergies s)\<rparr>))
           | Names w \<Rightarrow>
               if \<not> ww_in_full W text (py_join '' '' ((case ws_ingredient w of None \<Rightarrow> [] | Some t \<Rightarrow> t) # removals))
               then (False, note_wish W text s)
               else (case allergy_asked s (item_named s dish) of
                   None \<Rightarrow> (False, add_allergy \<lparr>al_ingredient = ws_ingredient w, al_own = (\<not> ws_another_adult w),
                              al_item = item_named s dish\<rparr> s)
                 | Some a \<Rightarrow> (True, add_allergy \<lparr>al_ingredient = ws_ingredient w, al_own = (al_own a \<and> \<not> ws_another_adult w),
                              al_item = (if al_item a = None then item_named s dish else al_item a)\<rparr>
                              (s\<lparr>cv_allergies := remove1 a (cv_allergies s)\<rparr>))))"

text \<open>A sentence without an allergy word carries on the one before it.\<close>

fun carried_on :: "wish_words \<Rightarrow> str list \<Rightarrow> str list \<Rightarrow> str list" where
  "carried_on W said [] = rev said"
| "carried_on W [] (x # xs) = carried_on W [x] xs"
| "carried_on W (p # ps) (x # xs) =
     (if mentions W x then carried_on W (x # p # ps) xs else carried_on W ((p @ '' '' @ x) # ps) xs)"

definition guest_asks_back :: "str \<Rightarrow> bool" where
  "guest_asks_back text \<longleftrightarrow> py_endswith (py_rstrip text) ''?'' \<or> without_human_question text \<noteq> None"

definition note_allergies :: "wish_words \<Rightarrow> db \<Rightarrow> str \<Rightarrow> call_line \<Rightarrow> call_line" where
  "note_allergies W d text l =
     (let s = ln_conv l; waiting = still_open s \<noteq> [] in
      case asked_dish (cv_last_say s) of
        None \<Rightarrow> l\<lparr>ln_conv := note_wish W text s\<rparr>
      | Some dish \<Rightarrow>
          (case carried_on W [] (sentences (py_strip text)) of
             [] \<Rightarrow> l
           | x # xs \<Rightarrow>
               let (filled, s) = answer_which W d x dish s
               in l\<lparr>ln_conv := fold (note_wish W) xs s,
                    ln_which_asks := (if filled then 0 else if waiting \<and> \<not> guest_asks_back text then ln_which_asks l + 1
                      else ln_which_asks l)\<rparr>))"

section \<open>What the kitchen reads\<close>

definition RESERVATION_NOTE_MAX :: nat where "RESERVATION_NOTE_MAX = 500"

definition allergy_warning :: "str \<Rightarrow> str" where
  "allergy_warning ingredient = ''WICHTIG: Keine '' @ ingredient @ ''. Grund: Allergie''"

text \<open>\<open>list(dict.fromkeys(xs))\<close>: each once, in the order they first came.\<close>

definition once :: "'a list \<Rightarrow> 'a list" where
  "once xs = rev (remdups (rev xs))"

definition listed :: "str list \<Rightarrow> str" where
  "listed ingredients =
     (let said = once (filter (\<lambda>i. i \<noteq> []) ingredients)
      in if length said < 2 then concat said else py_join '', '' (butlast said) @ '' und '' @ last said)"

definition capital :: "str \<Rightarrow> str" where
  "capital s = (case s of [] \<Rightarrow> [] | c # cs \<Rightarrow> upper [c] @ cs)"

definition join_note :: "bool \<Rightarrow> str list \<Rightarrow> str" where
  "join_note reasoned parts = (if reasoned then py_join ''. '' (map capital parts) else py_join '', '' parts)"

text \<open>The ingredient of an allergy that was read.\<close>

definition ingredient :: "allergy \<Rightarrow> str" where
  "ingredient a = (case al_ingredient a of None \<Rightarrow> [] | Some t \<Rightarrow> t)"

definition with_reason :: "answer option \<Rightarrow> allergy \<Rightarrow> bool" where
  "with_reason consent a \<longleftrightarrow> al_own a \<and> consent = Some Yes"

definition notice :: "answer option \<Rightarrow> allergy \<Rightarrow> str" where
  "notice consent a = (if with_reason consent a then allergy_warning (ingredient a) else ''ohne '' @ ingredient a)"

definition shared_notices :: "answer option \<Rightarrow> allergy list \<Rightarrow> str list" where
  "shared_notices consent as =
     (let reasons = map ingredient (filter (with_reason consent) as);
          plain = map ingredient (filter (\<lambda>a. \<not> with_reason consent a) as)
      in (if reasons \<noteq> [] then [allergy_warning (listed reasons)] else []) @
         (if plain \<noteq> [] then [''ohne '' @ listed plain] else []))"

definition noted_text :: "answer option \<Rightarrow> str option \<Rightarrow> allergy list \<Rightarrow> nat \<Rightarrow> str" where
  "noted_text consent note as limit =
     (let reasoned = list_ex (with_reason consent) as;
          notices = map (notice consent) as;
          said = py_strip (case note of None \<Rightarrow> [] | Some n \<Rightarrow> n);
          rest = (if said = [] then [] else [said]);
          full = join_note reasoned (once (notices @ rest));
          alone = join_note reasoned (once notices);
          shared = shared_notices consent as;
          with_said = join_note reasoned (shared @ rest)
      in if length full \<le> limit then full
         else if length alone \<le> limit then alone
         else if length with_said \<le> limit then with_said else join_note reasoned shared)"

text \<open>\<open>_noted\<close>: a note that is no text is left to the validation.\<close>

definition noted :: "answer option \<Rightarrow> json option \<Rightarrow> allergy list \<Rightarrow> nat \<Rightarrow> json option" where
  "noted consent note as limit =
     (if as = [] then note
      else case note of
        None \<Rightarrow> Some (JStr (noted_text consent None as limit))
      | Some (JStr n) \<Rightarrow> Some (JStr (noted_text consent (Some n) as limit))
      | _ \<Rightarrow> note)"

definition set_note :: "json option \<Rightarrow> (str \<times> json) list \<Rightarrow> (str \<times> json) list" where
  "set_note note kvs = (case note of None \<Rightarrow> AList.delete ''note'' kvs | Some n \<Rightarrow> AList.update ''note'' n kvs)"

definition with_note :: "answer option \<Rightarrow> allergy list \<Rightarrow> nat \<Rightarrow> (str \<times> json) list \<Rightarrow> (str \<times> json) list" where
  "with_note consent as limit kvs = set_note (noted consent (jval ''note'' (JObj kvs)) as limit) kvs"

definition line_noted :: "answer option \<Rightarrow> allergy list \<Rightarrow> json \<Rightarrow> json" where
  "line_noted consent as item =
     (case item of
        JObj kvs \<Rightarrow> JObj (with_note consent (filter (\<lambda>a. al_item a \<noteq> None \<and> al_item a = id_of (jget ''menu_item_id'' item)) as)
          NOTE_MAX kvs)
      | _ \<Rightarrow> item)"

definition line_ids :: "json list \<Rightarrow> uuid list" where
  "line_ids items = List.map_filter (\<lambda>i. case i of JObj _ \<Rightarrow> id_of (jget ''menu_item_id'' i) | _ \<Rightarrow> None) items"

definition off_the_lines :: "json list \<Rightarrow> allergy \<Rightarrow> bool" where
  "off_the_lines items a \<longleftrightarrow> (case al_item a of None \<Rightarrow> True | Some i \<Rightarrow> i \<notin> set (line_ids items))"

definition noted_call :: "answer option \<Rightarrow> conv \<Rightarrow> llm_call \<Rightarrow> llm_call" where
  "noted_call consent s call =
     (let read = filter (\<lambda>a. ingredient a \<noteq> []) (cv_allergies s) in
      if tc_name call \<notin> set NOTED \<or> read = [] then call
      else case tc_args call of
        JObj kvs \<Rightarrow>
          if tc_name call = ''create_reservation''
          then call\<lparr>tc_args := JObj (with_note consent read RESERVATION_NOTE_MAX kvs)\<rparr>
          else (case jget ''items'' (JObj kvs) of
              Some (JList items) \<Rightarrow>
                call\<lparr>tc_args := JObj (with_note consent (filter (off_the_lines items) read) NOTE_MAX
                  (AList.update ''items'' (JList (map (line_noted consent read) items)) kvs))\<rparr>
            | _ \<Rightarrow> call)
      | _ \<Rightarrow> call)"

definition draft_notes :: "llm_call \<Rightarrow> json option list" where
  "draft_notes c = jval ''note'' (tc_args c) #
     map (\<lambda>l. case l of JObj _ \<Rightarrow> jval ''note'' l | _ \<Rightarrow> None) (json_list (jget ''items'' (tc_args c)))"

definition note_fits :: "llm_call \<Rightarrow> llm_call \<Rightarrow> bool" where
  "note_fits call written \<longleftrightarrow> tc_name call \<notin> set NOTED \<or>
     (let limit = (if tc_name call = ''create_reservation'' then RESERVATION_NOTE_MAX else NOTE_MAX)
      in list_all (\<lambda>(n, b). case n of Some (JStr t) \<Rightarrow> length t \<le> limit \<or> n = b | _ \<Rightarrow> True)
           (zip (draft_notes call) (draft_notes written)))"

end
