(* ===== verification/CallRun.thy ===== *)
theory CallRun
  imports Guards Release
begin

text \<open>
  A whole call: the guest speaks, the model answers with patches, carts, tool calls and a sentence, the
  core lets a call through or refuses it (\<open>guards.refusal\<close>), the tools work on the database
  (\<open>dispatch.py\<close>). Every \<open>confirm\<close> that goes out, and with it every order of the call that is more than
  a draft, has a yes of the guest to a sentence that read that draft out.
\<close>

section \<open>Tools\<close>

text \<open>\<open>dispatch\<close>: what an error of the domain becomes, and \<open>OrderDraft.model_dump(mode="json")\<close>.\<close>

definition failed_result :: "app_error \<Rightarrow> tool_result" where
  "failed_result e = \<lparr>tr_ok = False,
     tr_data = JObj (if err_kind e = TeamDecides then [(''team_callback'', JBool True)] else []),
     tr_say = err_say e, tr_error_code = Some (err_code (err_kind e)), tr_hint = None\<rparr>"

definition ok_result :: "json \<Rightarrow> str option \<Rightarrow> tool_result" where
  "ok_result data say = \<lparr>tr_ok = True, tr_data = data, tr_say = say, tr_error_code = None, tr_hint = None\<rparr>"

definition order_status_str :: "order_status \<Rightarrow> str" where
  "order_status_str st = (case st of ODraft \<Rightarrow> ''draft'' | OConfirmed \<Rightarrow> ''confirmed'' | OApproved \<Rightarrow> ''approved''
     | OHandedOver \<Rightarrow> ''handed_over'' | OCancelled \<Rightarrow> ''cancelled'')"

definition order_draft_json :: "order_draft \<Rightarrow> json" where
  "order_draft_json a = JObj [(''order_id'', JId (od_order_id a)), (''status'', JStr (order_status_str (od_status a))),
     (''items_total_cents'', JInt (od_items_total_cents a)), (''delivery_fee_cents'', JInt (od_delivery_fee_cents a)),
     (''total_cents'', JInt (od_total_cents a)), (''ready_at'', jopt JTime (od_ready_at a)),
     (''warnings'', JList (map JStr (od_warnings a))), (''readback'', JStr (od_readback a))]"

definition dispatch_draft :: "draft_request \<Rightarrow> instant \<Rightarrow> db \<Rightarrow> tool_result \<times> db" where
  "dispatch_draft q now d = (case draft_order q now d of
     Inl e \<Rightarrow> (failed_result e, d) | Inr (a, d') \<Rightarrow> (ok_result (order_draft_json a) None, d'))"

definition confirmation_json :: "confirmation \<Rightarrow> json" where
  "confirmation_json c = JObj [(''status'', JStr ''confirmed''),
     (''handover'', JStr (case cf_handover c of Queued \<Rightarrow> ''queued'' | _ \<Rightarrow> ''awaiting_approval'')),
     (''pickup_code'', jopt JStr (cf_pickup_code c))]"

definition dispatch_confirm :: "confirm_request \<Rightarrow> instant \<Rightarrow> db \<Rightarrow> tool_result \<times> db" where
  "dispatch_confirm q now d = (case confirm_ordered q now d of
     Inl e \<Rightarrow> (failed_result e, d) | Inr (c, d') \<Rightarrow> (ok_result (confirmation_json c) None, d'))"

section \<open>The machine\<close>

datatype phase = Listening | Heard | Answering

record a_yes =
  y_id :: "uuid option"
  y_text :: str
  y_last :: "str option"

text \<open>The call with the database and what happened in it: the sentence that ended the last turn, the
  drafts the tools returned with their read-backs, and the confirms that went out with the guest's
  sentence and the sentence before it.\<close>

record talk =
  tk_conv :: conv
  tk_phase :: phase
  tk_start :: "uuid option"
  tk_text :: str
  tk_last :: "str option"
  tk_drafts :: "(uuid \<times> str) list"
  tk_yes :: "a_yes list"
  tk_db :: db

definition draft_view :: "conv \<Rightarrow> stage \<times> uuid option \<times> uuid option \<times> str option \<times> bool" where
  "draft_view s = (cv_stage s, cv_order_id s, cv_reservation_id s, cv_readback s, cv_readback_heard s)"

definition draft_entry :: "str \<Rightarrow> tool_result \<Rightarrow> (uuid \<times> str) list" where
  "draft_entry name r =
     (if name \<notin> set DRAFT_TOOLS \<or> \<not> tr_ok r \<or> decided name r then []
      else case (id_of (jget (if name = ''draft_order'' then ''order_id'' else ''reservation_id'') (tr_data r)),
                 jget ''readback'' (tr_data r)) of
             (Some i, Some (JStr t)) \<Rightarrow> [(i, t)] | _ \<Rightarrow> [])"

text \<open>A tool whose call was let through, with its result and the database after it.\<close>

definition after_tool :: "readers \<Rightarrow> llm_call \<Rightarrow> tool_result \<Rightarrow> db \<Rightarrow> talk \<Rightarrow> talk" where
  "after_tool E c r d t =
     t\<lparr>tk_conv := apply_tool_result E (tc_name c) r (tc_args c) (tk_conv t),
       tk_drafts := tk_drafts t @ draft_entry (tc_name c) r,
       tk_yes := tk_yes t @ (if tc_name c = ''confirm''
         then [\<lparr>y_id = id_of (jget ''entity_id'' (tc_args c)), y_text = tk_text t, y_last = tk_last t\<rparr>] else []),
       tk_db := d\<rparr>"

text \<open>Orders of this call that are no drafts come from no other place than this call's own yes
  (\<open>OrderRun\<close>: only a yes takes an order out of the draft, and only in its own call).\<close>

definition no_other_yes :: "uuid \<Rightarrow> db \<Rightarrow> db \<Rightarrow> bool" where
  "no_other_yes k d d' \<longleftrightarrow> (\<forall>r' \<in> set (orders d'). o_call_id r' = k \<and> o_status r' \<noteq> ODraft \<longrightarrow>
     (\<exists>r \<in> set (orders d). o_id r = o_id r' \<and> o_call_id r = k \<and> o_status r \<noteq> ODraft))"

text \<open>The steps of a call (\<open>loop.run_turn\<close>). \<open>guest\<close>: the guest has spoken; \<open>allergy\<close>, \<open>intent\<close>: what the core
  reads from it; \<open>turn\<close>: the model's part begins; \<open>patch\<close>, \<open>cart\<close>: what the model writes; \<open>refuse\<close>: a call
  the core refuses; \<open>draft\<close>, \<open>confirm\<close>, \<open>tool\<close>: one it lets through (\<open>invalid\<close>: with arguments the tool
  rejects); \<open>core\<close>: a callback or a handover of the core; \<open>says\<close>: a sentence ends the turn; \<open>silent\<close>: a turn
  that ends with a sentence the core does not note. \<open>aside\<close> stands for the loop's writes to other
  fields of the state and its end of the call, \<open>elsewhere\<close> for everybody else at the database. So the
  last sentence of a talk is the last one the core noted, not the last one that was spoken.\<close>

inductive call_step :: "readers \<Rightarrow> talk \<Rightarrow> talk \<Rightarrow> bool" for E where
  guest: "tk_phase t = Listening \<Longrightarrow>
    call_step E t (t\<lparr>tk_conv := snd (note_guest_details E text (tk_conv t)), tk_text := text, tk_phase := Heard\<rparr>)"
| allergy: "call_step E t (t\<lparr>tk_conv := draft_replaced name (tk_conv t)\<rparr>)"
| intent: "call_step E t (t\<lparr>tk_conv := note_intent text (tk_conv t)\<rparr>)"
| aside: "draft_view s = draft_view (tk_conv t) \<or> cv_stage s \<noteq> SReadback \<Longrightarrow> cv_call_id s = cv_call_id (tk_conv t) \<Longrightarrow>
    cv_tenant_id s = cv_tenant_id (tk_conv t) \<Longrightarrow> call_step E t (t\<lparr>tk_conv := s\<rparr>)"
| turn: "tk_phase t = Heard \<Longrightarrow>
    call_step E t (t\<lparr>tk_start := begin_turn (tk_conv t), tk_phase := Answering\<rparr>)"
| patch: "call_step E t (t\<lparr>tk_conv := snd (apply_state_patch E p (tk_conv t))\<rparr>)"
| cart: "call_step E t (t\<lparr>tk_conv := snd (take_cart E j (tk_conv t))\<rparr>)"
| refuse: "tk_phase t = Answering \<Longrightarrow> refusal E (tk_conv t) (tk_start t) (tk_text t) c sent = Some r \<Longrightarrow>
    call_step E t (t\<lparr>tk_conv := apply_tool_result E (tc_name c) r (tc_args c) (tk_conv t)\<rparr>)"
| draft: "tk_phase t = Answering \<Longrightarrow> refusal E (tk_conv t) (tk_start t) (tk_text t) c sent = None \<Longrightarrow>
    tc_name c = ''draft_order'' \<Longrightarrow> dr_call_id q = cv_call_id (tk_conv t) \<Longrightarrow> dr_tenant_id q = cv_tenant_id (tk_conv t) \<Longrightarrow>
    dispatch_draft q now (tk_db t) = (r, d') \<Longrightarrow> call_step E t (after_tool E c r d' t)"
| confirm: "tk_phase t = Answering \<Longrightarrow> refusal E (tk_conv t) (tk_start t) (tk_text t) c sent = None \<Longrightarrow>
    tc_name c = ''confirm'' \<Longrightarrow> cq_call_id q = cv_call_id (tk_conv t) \<Longrightarrow> cq_tenant_id q = cv_tenant_id (tk_conv t) \<Longrightarrow>
    id_of (jget ''entity_id'' (tc_args c)) = Some (cq_entity_id q) \<Longrightarrow>
    dispatch_confirm q now (tk_db t) = (r, d') \<Longrightarrow> call_step E t (after_tool E c r d' t)"
| tool: "tk_phase t = Answering \<Longrightarrow> refusal E (tk_conv t) (tk_start t) (tk_text t) c sent = None \<Longrightarrow>
    tc_name c \<noteq> ''draft_order'' \<Longrightarrow> no_other_yes (cv_call_id (tk_conv t)) (tk_db t) d' \<Longrightarrow>
    call_step E t (after_tool E c r d' t)"
| invalid: "tk_phase t = Answering \<Longrightarrow> refusal E (tk_conv t) (tk_start t) (tk_text t) c sent = None \<Longrightarrow>
    \<not> tr_ok r \<Longrightarrow> call_step E t (after_tool E c r (tk_db t) t)"
| core: "tc_name c \<in> {''create_callback'', ''transfer_to_team''} \<Longrightarrow> no_other_yes (cv_call_id (tk_conv t)) (tk_db t) d' \<Longrightarrow>
    call_step E t (after_tool E c r d' t)"
| elsewhere: "no_other_yes (cv_call_id (tk_conv t)) (tk_db t) d' \<Longrightarrow> call_step E t (t\<lparr>tk_db := d'\<rparr>)"
| says: "call_step E t (t\<lparr>tk_conv := note_said E say (tk_conv t), tk_last := Some say, tk_phase := Listening\<rparr>)"
| silent: "call_step E t (t\<lparr>tk_phase := Listening\<rparr>)"

section \<open>What the steps keep\<close>

definition dropped :: "conv \<Rightarrow> bool" where
  "dropped s \<longleftrightarrow> cv_stage s \<noteq> SReadback"

definition settles :: "conv \<Rightarrow> conv \<Rightarrow> bool" where
  "settles s s' \<longleftrightarrow> (draft_view s' = draft_view s \<or> dropped s') \<and> cv_call_id s' = cv_call_id s \<and> cv_tenant_id s' = cv_tenant_id s"

lemma settles_refl [simp]: "settles s s"
  by (simp add: settles_def)

lemma settles_trans: "settles a b \<Longrightarrow> settles b c \<Longrightarrow> settles a c"
  by (auto simp: settles_def draft_view_def dropped_def)

lemma settles_fold: "(\<And>x s. settles s (f x s)) \<Longrightarrow> settles s (fold f xs s)"
proof (induction xs arbitrary: s)
  case (Cons x xs)
  then show ?case using settles_trans [of s "f x s"] by simp
qed simp

lemma settles_drop: "settles s (drop_readback name s)"
  by (simp add: settles_def drop_readback_def dropped_def)

lemma settles_view: "draft_view s' = draft_view s \<Longrightarrow> cv_call_id s' = cv_call_id s \<Longrightarrow> cv_tenant_id s' = cv_tenant_id s \<Longrightarrow>
    settles s s'"
  by (simp add: settles_def)

lemma settles_ops [simp]:
  "settles s (draft_replaced name s)" "settles s (order_corrected s)" "settles s (put_slot k v s)"
  "settles s (note_word wc s)" "settles s (number_set n s)" "settles s (note_intent text s)"
proof -
  show "settles s (put_slot k v s)" by (rule settles_view) (simp_all add: put_slot_def draft_view_def)
  show "settles s (note_word wc s)" by (rule settles_view) (simp_all add: note_word_def draft_view_def split: prod.splits)
  show "settles s (note_intent text s)"
    by (rule settles_view) (simp_all add: note_intent_def Let_def draft_view_def split: option.splits)
qed (simp_all add: draft_replaced_def order_corrected_def number_set_def settles_drop)

lemma settles_number: "settles s (note_number n s)"
proof -
  have "settles s (s\<lparr>cv_said_numbers := List.insert n (cv_said_numbers s)\<rparr>)"
    by (rule settles_view) (simp_all add: draft_view_def)
  from settles_trans [OF settles_trans [OF this settles_ops(5)] settles_ops(3)]
  show ?thesis by (simp add: note_number_def)
qed

lemma settles_guest: "settles s (snd (note_guest_details E text s))"
  unfolding note_guest_details_def Let_def snd_conv
  by (rule settles_trans [OF settles_fold settles_fold]) (simp_all add: settles_number)

lemma settles_patch: "settles s (snd (apply_state_patch E p s))"
proof -
  have 1: "settles s (case x of Some (JStr n) \<Rightarrow> number_set n s | _ \<Rightarrow> s)" for x s
    by (simp split: option.split json.split)
  have 2: "settles s (if b then drop_readback nm s else s)" for b nm s by (simp add: settles_drop)
  have 3: "settles s (fold (\<lambda>(k, v). put_slot k v) xs s)" for xs s
    by (rule settles_fold) (simp split: prod.split)
  show ?thesis
    unfolding apply_state_patch_def Let_def snd_conv by (rule settles_trans [OF settles_trans [OF 1 2] 3])
qed

lemma settles_cart: "settles s (snd (take_cart E j s))"
proof -
  have "settles s ((order_corrected s)\<lparr>cv_cart := ls\<rparr>)" for ls
    by (rule settles_trans [OF settles_ops(2) settles_view]) (simp_all add: draft_view_def)
  then show ?thesis by (simp add: take_cart_def replace_cart_def split: option.split)
qed


lemma to_dish_sel [simp]: "cv_stage (to_dish j i s) = cv_stage s" "cv_order_id (to_dish j i s) = cv_order_id s"
  "cv_reservation_id (to_dish j i s) = cv_reservation_id s" "cv_readback (to_dish j i s) = cv_readback s"
  "cv_readback_heard (to_dish j i s) = cv_readback_heard s" "cv_call_id (to_dish j i s) = cv_call_id s"
  "cv_tenant_id (to_dish j i s) = cv_tenant_id s"
  by (simp_all add: to_dish_def Let_def)

lemma settles_search: "settles s (note_search data s)"
proof -
  have "settles s (note_part p s)" for p s
    by (rule settles_view) (simp_all add: note_part_def Let_def draft_view_def)
  then show ?thesis unfolding note_search_def by (rule settles_fold)
qed

text \<open>A result keeps the draft that waits, drops it, or is a new draft nobody has heard.\<close>

definition fresh_draft :: "str \<Rightarrow> tool_result \<Rightarrow> conv \<Rightarrow> conv \<Rightarrow> bool" where
  "fresh_draft name r s s' \<longleftrightarrow> name \<in> set DRAFT_TOOLS \<and> tr_ok r \<and> \<not> decided name r \<and> cv_stage s' = SReadback \<and>
     \<not> cv_readback_heard s' \<and>
     readback_id s' = id_of (jget (if name = ''draft_order'' then ''order_id'' else ''reservation_id'') (tr_data r)) \<and>
     cv_readback s' = (case jget ''readback'' (tr_data r) of Some (JStr t) \<Rightarrow> Some t | _ \<Rightarrow> None) \<and>
     cv_call_id s' = cv_call_id s \<and> cv_tenant_id s' = cv_tenant_id s"

lemma took_draft_fresh:
  assumes "name \<in> set DRAFT_TOOLS" and "tr_ok r" and "\<not> decided name r"
  shows "fresh_draft name r s (took_draft E name r args s)"
  using assms
  by (auto simp: fresh_draft_def took_draft_def to_read_out_def Let_def readback_id_def DRAFT_TOOLS_def split: option.splits)

lemma took_settles: "name \<notin> set DRAFT_TOOLS \<Longrightarrow> settles s (took_result E name r args s)"
  by (simp add: took_result_def Let_def settles_search, auto simp: settles_def draft_view_def dropped_def)

text \<open>What comes before the result is looked at settles the state.\<close>

lemma apply_first:
  obtains b where "settles s b"
    and "apply_tool_result E name r args s =
     (if \<not> tr_ok r then b
      else if decided name r
      then (if jget ''status'' (tr_data r) = Some (JStr ''cancelled'') then b\<lparr>cv_booking_say := None\<rparr> else b)
      else took_result E name r args b)"
proof -
  define a where "a = (if cv_stage s = SReadback \<and> supersedes name r then drop_readback name s else s)"
  define b where "b = (if cv_stage a = SReadback \<and> refused_for_good name r
    then (drop_readback name a)\<lparr>cv_intent := cv_intent a\<rparr> else a)"
  have 1: "settles s a" by (simp add: a_def settles_drop)
  have "settles a ((drop_readback name a)\<lparr>cv_intent := cv_intent a\<rparr>)"
    by (rule settles_trans [OF settles_drop settles_view]) (simp_all add: draft_view_def)
  then have "settles s b" unfolding b_def using settles_trans [OF 1] 1 by simp
  then show thesis by (rule that) (simp add: apply_tool_result_def Let_def a_def b_def)
qed

lemma apply_fresh:
  assumes "name \<in> set DRAFT_TOOLS" and "tr_ok r" and "\<not> decided name r"
  shows "fresh_draft name r s (apply_tool_result E name r args s)"
proof -
  obtain b where b: "settles s b" and e: "apply_tool_result E name r args s =
     (if \<not> tr_ok r then b
      else if decided name r
      then (if jget ''status'' (tr_data r) = Some (JStr ''cancelled'') then b\<lparr>cv_booking_say := None\<rparr> else b)
      else took_result E name r args b)" by (rule apply_first)
  have "fresh_draft name r b (took_result E name r args b)"
    using took_draft_fresh assms by (simp add: took_result_def)
  then show ?thesis using assms b unfolding e by (simp add: fresh_draft_def settles_def)
qed

lemma apply_cases:
  obtains "settles s (apply_tool_result E name r args s)"
    | "fresh_draft name r s (apply_tool_result E name r args s)"
proof (cases "tr_ok r \<and> \<not> decided name r \<and> name \<in> set DRAFT_TOOLS")
  case True
  then show thesis using that(2) apply_fresh by simp
next
  case False
  obtain b where b: "settles s b" and e: "apply_tool_result E name r args s =
     (if \<not> tr_ok r then b
      else if decided name r
      then (if jget ''status'' (tr_data r) = Some (JStr ''cancelled'') then b\<lparr>cv_booking_say := None\<rparr> else b)
      else took_result E name r args b)" by (rule apply_first)
  have "settles b (b\<lparr>cv_booking_say := None\<rparr>)" by (rule settles_view) (simp_all add: draft_view_def)
  then have "settles s (apply_tool_result E name r args s)"
    unfolding e using False b settles_trans [OF b] took_settles by auto
  then show thesis by (rule that(1))
qed

lemma apply_call: "cv_call_id (apply_tool_result E name r args s) = cv_call_id s"
  "cv_tenant_id (apply_tool_result E name r args s) = cv_tenant_id s"
  by (cases rule: apply_cases [of s E name r args]; simp add: settles_def fresh_draft_def)+

section \<open>The invariant\<close>

definition draft_known :: "talk \<Rightarrow> bool" where
  "draft_known t \<longleftrightarrow> (\<forall>i rb. readback_id (tk_conv t) = Some i \<and> cv_readback (tk_conv t) = Some rb \<longrightarrow> (i, rb) \<in> set (tk_drafts t))"

definition heard_out :: "talk \<Rightarrow> bool" where
  "heard_out t \<longleftrightarrow> (cv_stage (tk_conv t) = SReadback \<and> cv_readback_heard (tk_conv t) \<longrightarrow>
     (\<exists>rb say. cv_readback (tk_conv t) = Some rb \<and> tk_last t = Some say \<and> read_out say rb))"

text \<open>The draft \<open>i\<close> was read out by the sentence \<open>last\<close>.\<close>

definition read_to_guest :: "(uuid \<times> str) list \<Rightarrow> uuid \<Rightarrow> str option \<Rightarrow> bool" where
  "read_to_guest drafts i last_said \<longleftrightarrow> (\<exists>rb say. last_said = Some say \<and> read_out say rb \<and> (i, rb) \<in> set drafts)"

lemma read_to_guest_mono: "read_to_guest ds i l \<Longrightarrow> set ds \<subseteq> set es \<Longrightarrow> read_to_guest es i l"
  by (auto simp: read_to_guest_def)

definition start_ok :: "talk \<Rightarrow> bool" where
  "start_ok t \<longleftrightarrow> (tk_phase t = Answering \<longrightarrow>
     (\<forall>i. tk_start t = Some i \<longrightarrow> read_to_guest (tk_drafts t) i (tk_last t)))"

definition yes_ok :: "talk \<Rightarrow> bool" where
  "yes_ok t \<longleftrightarrow> (\<forall>y \<in> set (tk_yes t). is_yes (y_text y) \<and>
     (\<exists>i. y_id y = Some i \<and> read_to_guest (tk_drafts t) i (y_last y)))"

definition orders_said :: "uuid \<Rightarrow> talk \<Rightarrow> bool" where
  "orders_said k t \<longleftrightarrow> cv_call_id (tk_conv t) = k \<and>
     (\<forall>r \<in> set (orders (tk_db t)). o_call_id r = k \<and> o_status r \<noteq> ODraft \<longrightarrow> Some (o_id r) \<in> y_id ` set (tk_yes t))"

definition call_inv :: "uuid \<Rightarrow> talk \<Rightarrow> bool" where
  "call_inv k t \<longleftrightarrow> draft_known t \<and> heard_out t \<and> start_ok t \<and> yes_ok t \<and> orders_said k t"

lemma view_fields:
  assumes "draft_view s' = draft_view s"
  shows "readback_id s' = readback_id s" and "cv_readback s' = cv_readback s" and "cv_stage s' = cv_stage s"
    and "cv_readback_heard s' = cv_readback_heard s"
  using assms by (auto simp: draft_view_def readback_id_def split: option.splits)

lemma dropped_id: "dropped s \<Longrightarrow> readback_id s = None"
  by (simp add: dropped_def readback_id_def)

lemma settles_inv:
  assumes "call_inv k t" and "settles (tk_conv t) s"
  shows "call_inv k (t\<lparr>tk_conv := s\<rparr>)"
proof -
  have "draft_known (t\<lparr>tk_conv := s\<rparr>) \<and> heard_out (t\<lparr>tk_conv := s\<rparr>)"
  proof (cases "dropped s")
    case True
    then have "readback_id s = None" and "cv_stage s \<noteq> SReadback" by (simp_all add: dropped_id dropped_def)
    then show ?thesis by (simp add: draft_known_def heard_out_def)
  next
    case False
    then have "draft_view s = draft_view (tk_conv t)" using assms(2) by (simp add: settles_def)
    then have e: "readback_id s = readback_id (tk_conv t)" "cv_readback s = cv_readback (tk_conv t)"
      "cv_stage s = cv_stage (tk_conv t)" "cv_readback_heard s = cv_readback_heard (tk_conv t)"
      by (rule view_fields)+
    show ?thesis using assms(1) by (simp add: call_inv_def draft_known_def heard_out_def e)
  qed
  then show ?thesis
    using assms by (simp add: call_inv_def start_ok_def yes_ok_def orders_said_def settles_def)
qed

lemma no_other_yes_said: "orders_said k t \<Longrightarrow> no_other_yes k (tk_db t) d' \<Longrightarrow>
    \<forall>r \<in> set (orders d'). o_call_id r = k \<and> o_status r \<noteq> ODraft \<longrightarrow> Some (o_id r) \<in> y_id ` set (tk_yes t)"
  unfolding orders_said_def no_other_yes_def by metis


section \<open>Every step keeps it\<close>

lemma refusal_confirm:
  "refusal E s start text c sent = None \<Longrightarrow> tc_name c = ''confirm'' \<Longrightarrow> may_confirm s start text c"
  by (simp add: refusal_def split: if_splits)

lemma draft_entry_fresh:
  assumes "fresh_draft name r s s'" and "readback_id s' = Some i" and "cv_readback s' = Some rb"
  shows "(i, rb) \<in> set (draft_entry name r)"
  using assms by (auto simp: fresh_draft_def draft_entry_def split: option.splits json.splits)

definition yes_noted :: "talk \<Rightarrow> llm_call \<Rightarrow> bool" where
  "yes_noted t c \<longleftrightarrow> (tc_name c = ''confirm'' \<longrightarrow> is_yes (tk_text t) \<and>
     (\<exists>i. id_of (jget ''entity_id'' (tc_args c)) = Some i \<and> read_to_guest (tk_drafts t) i (tk_last t)))"

lemma yes_noted_let_through:
  assumes "call_inv k t" and "tk_phase t = Answering" and "refusal E (tk_conv t) (tk_start t) (tk_text t) c sent = None"
  shows "yes_noted t c"
  unfolding yes_noted_def
proof
  assume "tc_name c = ''confirm''"
  then have "may_confirm (tk_conv t) (tk_start t) (tk_text t) c" using assms(3) by (rule refusal_confirm [rotated])
  then show "is_yes (tk_text t) \<and>
      (\<exists>i. id_of (jget ''entity_id'' (tc_args c)) = Some i \<and> read_to_guest (tk_drafts t) i (tk_last t))"
    using assms(1,2) by (auto simp: may_confirm_def call_inv_def start_ok_def)
qed

lemma after_tool_inv:
  assumes inv: "call_inv k t" and c: "yes_noted t c"
    and d: "\<forall>x \<in> set (orders d'). o_call_id x = k \<and> o_status x \<noteq> ODraft \<longrightarrow>
      Some (o_id x) \<in> y_id ` set (tk_yes (after_tool E c r d' t))"
  shows "call_inv k (after_tool E c r d' t)"
proof -
  let ?t = "after_tool E c r d' t" and ?s = "apply_tool_result E (tc_name c) r (tc_args c) (tk_conv t)"
  have [simp]: "tk_conv ?t = ?s" "tk_phase ?t = tk_phase t" "tk_start ?t = tk_start t" "tk_text ?t = tk_text t"
    "tk_last ?t = tk_last t" "tk_drafts ?t = tk_drafts t @ draft_entry (tc_name c) r" "tk_db ?t = d'"
    by (simp_all add: after_tool_def)
  have heard: "draft_known ?t \<and> heard_out ?t \<and> cv_call_id ?s = cv_call_id (tk_conv t)"
    using apply_cases [of "tk_conv t" E "tc_name c" r "tc_args c"]
  proof cases
    case 1
    then have "call_inv k (t\<lparr>tk_conv := ?s\<rparr>)" by (rule settles_inv [OF inv])
    then show ?thesis using 1 by (auto simp: call_inv_def draft_known_def heard_out_def settles_def)
  next
    case 2
    then show ?thesis using draft_entry_fresh [OF 2]
      by (auto simp: draft_known_def heard_out_def fresh_draft_def)
  qed
  have "start_ok ?t" using inv read_to_guest_mono [of "tk_drafts t"] by (auto simp: call_inv_def start_ok_def)
  moreover have "yes_ok ?t"
    using inv c read_to_guest_mono [of "tk_drafts t"]
    by (auto simp: call_inv_def yes_ok_def yes_noted_def after_tool_def)
  moreover have "orders_said k ?t" using inv d heard by (auto simp: call_inv_def orders_said_def)
  ultimately show ?thesis using heard by (simp add: call_inv_def)
qed

lemma y_id_after: "y_id ` set (tk_yes t) \<subseteq> y_id ` set (tk_yes (after_tool E c r d' t))"
  by (auto simp: after_tool_def)

lemma said_call: "call_inv k t \<Longrightarrow> cv_call_id (tk_conv t) = k"
  by (simp add: call_inv_def orders_said_def)

lemma other_tool_inv:
  assumes "call_inv k t" and "yes_noted t c" and "no_other_yes k (tk_db t) d'"
  shows "call_inv k (after_tool E c r d' t)"
proof (rule after_tool_inv [OF assms(1,2)])
  have "orders_said k t" using assms(1) by (simp add: call_inv_def)
  from no_other_yes_said [OF this assms(3)] y_id_after
  show "\<forall>r' \<in> set (orders d'). o_call_id r' = k \<and> o_status r' \<noteq> ODraft \<longrightarrow>
      Some (o_id r') \<in> y_id ` set (tk_yes (after_tool E c r d' t))" by blast
qed

text \<open>A draft adds a draft, and a yes turns the one order it names.\<close>

lemma dispatch_draft_orders:
  assumes "dispatch_draft q now d = (r, d')"
  shows "no_other_yes k d d'"
proof (cases "draft_order q now d")
  case (Inl e)
  then show ?thesis using assms by (auto simp: dispatch_draft_def no_other_yes_def)
next
  case (Inr p)
  obtain a e where p: "p = (a, e)" by fastforce
  then have e: "e = d'" using assms Inr by (simp add: dispatch_draft_def)
  show ?thesis
  proof (cases "order_by_key d (dr_idempotency_key q)")
    case None
    from Inr p e have "draft_order q now d = Inr (a, d')" by simp
    then obtain z p wh d1 cs ads n where "d1 = d\<lparr>customers := cs, addresses := ads, next_id := n\<rparr>"
      and "write_draft q z p wh now d1 = (a, d')"
      by (rule draft_order_new [OF _ None]) (rule that; assumption)
    then have "orders d' = orders d @ [new_order q p wh now d1]" by (simp add: write_draft_rows(1))
    then show ?thesis by (auto simp: no_other_yes_def new_order_def Let_def)
  next
    case (Some x)
    then have "d' = d" using Inr p e by (auto simp: draft_order_def andthen_def Let_def split: option.splits sum.splits)
    then show ?thesis by (auto simp: no_other_yes_def)
  qed
qed

lemma dispatch_confirm_orders:
  assumes "dispatch_confirm q now d = (r, d')" and "x \<in> set (orders d')" and "o_status x \<noteq> ODraft"
  shows "o_id x = cq_entity_id q \<or> (\<exists>y \<in> set (orders d). o_id y = o_id x \<and> o_call_id y = o_call_id x \<and> o_status y \<noteq> ODraft)"
proof (cases "confirm_ordered q now d")
  case (Inl e)
  then show ?thesis using assms by (auto simp: dispatch_confirm_def)
next
  case (Inr p)
  obtain a where "p = (a, d')" using Inr assms(1) by (cases p) (auto simp: dispatch_confirm_def)
  then have "confirm_order q now d = Inr (a, d')"
    using Inr by (auto simp: confirm_ordered_def raise_err_def split: option.splits if_splits)
  then show ?thesis
  proof (rule confirm_order_cases)
    fix y
    assume y: "get_order d (cq_entity_id q) = Some y" and c: "o_status y \<in> set ALREADY_CONFIRMED \<and> a = order_answer y \<and> d' = d \<or>
      o_status y = ODraft \<and> (\<exists>c t. get_config d (cq_tenant_id q) = Some c \<and> get_tenant d (cq_tenant_id q) = Some t \<and>
        require_switched_on y t c (cq_call_id q) now d = Inr () \<and>
        write_confirm q y (t_timezone t) (mn_mode (mode_at d t c now)) c now d = Inr (a, d'))"
    have id: "o_id y = cq_entity_id q" using y by (auto simp: get_order_def dest: find_SomeD)
    from c show ?thesis
    proof
      assume "o_status y = ODraft \<and> (\<exists>c t. get_config d (cq_tenant_id q) = Some c \<and> get_tenant d (cq_tenant_id q) = Some t \<and>
        require_switched_on y t c (cq_call_id q) now d = Inr () \<and>
        write_confirm q y (t_timezone t) (mn_mode (mode_at d t c now)) c now d = Inr (a, d'))"
      then obtain c z m where w: "write_confirm q y z m c now d = Inr (a, d')" by blast
      obtain f where "orders d' = upd_rows (\<lambda>v. o_id v = o_id y) f (orders d)" and "\<And>v. o_id (f v) = o_id v"
        by (rule write_confirm_form [OF w]) (auto simp: put_confirmed_def)
      then show ?thesis using assms(2,3) id by (auto simp: upd_rows_def split: if_splits)
    qed (use assms in auto)
  qed
qed

lemma confirm_inv:
  assumes inv: "call_inv k t" and c: "yes_noted t c" "tc_name c = ''confirm''"
    and q: "id_of (jget ''entity_id'' (tc_args c)) = Some (cq_entity_id q)"
    and d: "dispatch_confirm q now (tk_db t) = (r, d')"
  shows "call_inv k (after_tool E c r d' t)"
proof (rule after_tool_inv [OF inv c(1)], intro ballI impI)
  fix x
  assume x: "x \<in> set (orders d')" "o_call_id x = k \<and> o_status x \<noteq> ODraft"
  have "Some (cq_entity_id q) \<in> y_id ` set (tk_yes (after_tool E c r d' t))"
    using c(2) q by (simp add: after_tool_def)
  moreover have "\<And>y. y \<in> set (orders (tk_db t)) \<Longrightarrow> o_call_id y = k \<Longrightarrow> o_status y \<noteq> ODraft \<Longrightarrow>
      Some (o_id y) \<in> y_id ` set (tk_yes t)"
    using inv by (simp add: call_inv_def orders_said_def)
  ultimately show "Some (o_id x) \<in> y_id ` set (tk_yes (after_tool E c r d' t))"
    using dispatch_confirm_orders [OF d x(1)] x(2) y_id_after [of t] by (metis subsetD)
qed


lemma not_confirm_noted: "tc_name c \<noteq> ''confirm'' \<Longrightarrow> yes_noted t c"
  by (simp add: yes_noted_def)

lemma phase_inv:
  assumes "call_inv k t" and "p \<noteq> Answering"
  shows "call_inv k (t\<lparr>tk_phase := p\<rparr>)" and "call_inv k (t\<lparr>tk_text := x, tk_phase := p\<rparr>)"
  using assms by (simp_all add: call_inv_def draft_known_def heard_out_def start_ok_def yes_ok_def orders_said_def)

lemma turn_inv:
  assumes "call_inv k t"
  shows "call_inv k (t\<lparr>tk_start := begin_turn (tk_conv t), tk_phase := Answering\<rparr>)"
proof -
  have "read_to_guest (tk_drafts t) i (tk_last t)" if "begin_turn (tk_conv t) = Some i" for i
  proof -
    have h: "cv_readback_heard (tk_conv t)" "readback_id (tk_conv t) = Some i"
      using that by (simp_all add: begin_turn_def split: if_splits)
    then have "cv_stage (tk_conv t) = SReadback" by (simp add: readback_id_def split: if_splits)
    then obtain rb say where "cv_readback (tk_conv t) = Some rb" "tk_last t = Some say" "read_out say rb"
      using h(1) assms by (auto simp: call_inv_def heard_out_def)
    then show ?thesis using h(2) assms by (auto simp: call_inv_def draft_known_def read_to_guest_def)
  qed
  then show ?thesis
    using assms by (simp add: call_inv_def draft_known_def heard_out_def start_ok_def yes_ok_def orders_said_def)
qed

lemma note_said_sel [simp]:
  "cv_stage (note_said E say s) = cv_stage s" "cv_order_id (note_said E say s) = cv_order_id s"
  "cv_reservation_id (note_said E say s) = cv_reservation_id s" "cv_readback (note_said E say s) = cv_readback s"
  "cv_call_id (note_said E say s) = cv_call_id s"
  "readback_id (note_said E say s) = readback_id s"
  "cv_readback_heard (note_said E say s) \<longleftrightarrow> (case cv_readback s of None \<Rightarrow> False | Some rb \<Rightarrow> read_out say rb)"
  by (simp_all add: note_said_def Let_def readback_id_def split: option.splits)

lemma says_inv:
  assumes "call_inv k t"
  shows "call_inv k (t\<lparr>tk_conv := note_said E say (tk_conv t), tk_last := Some say, tk_phase := Listening\<rparr>)"
  using assms
  by (auto simp: call_inv_def draft_known_def heard_out_def start_ok_def yes_ok_def orders_said_def split: option.splits)

lemma talk_elsewhere_inv:
  assumes "call_inv k t" and "no_other_yes k (tk_db t) d'"
  shows "call_inv k (t\<lparr>tk_db := d'\<rparr>)"
proof -
  have "orders_said k t" using assms(1) by (simp add: call_inv_def)
  from no_other_yes_said [OF this assms(2)] show ?thesis
    using assms(1) by (simp add: call_inv_def draft_known_def heard_out_def start_ok_def yes_ok_def orders_said_def)
qed

lemma call_step_inv:
  assumes "call_step E t t'" and inv: "call_inv k t"
  shows "call_inv k t'"
  using assms(1)
proof cases
  case (guest w)
  have "call_inv k (t\<lparr>tk_conv := snd (note_guest_details E w (tk_conv t))\<rparr>)"
    by (rule settles_inv [OF inv settles_guest])
  from phase_inv(2) [OF this, of Heard w] guest(1) show ?thesis by simp
next
  case (allergy name)
  then show ?thesis using settles_inv [OF inv settles_ops(1)] by simp
next
  case (intent w)
  then show ?thesis using settles_inv [OF inv settles_ops(6)] by simp
next
  case (aside s)
  then show ?thesis using settles_inv [OF inv] by (simp add: settles_def dropped_def)
next
  case turn
  then show ?thesis using turn_inv [OF inv] by simp
next
  case (patch p)
  then show ?thesis using settles_inv [OF inv settles_patch] by simp
next
  case (cart j)
  then show ?thesis using settles_inv [OF inv settles_cart] by simp
next
  case (refuse c sent r)
  have "settles (tk_conv t) (apply_tool_result E (tc_name c) r (tc_args c) (tk_conv t))"
    using apply_cases [of "tk_conv t" E "tc_name c" r "tc_args c"]
  proof cases
    case 2
    have "\<not> tr_ok r" using refuse(3) by (auto simp: refusal_def refused_def Let_def split: if_splits prod.splits)
    then show ?thesis using 2 by (simp add: fresh_draft_def)
  qed
  then show ?thesis using settles_inv [OF inv] refuse(1) by simp
next
  case (draft c sent q now r d')
  then show ?thesis
    using other_tool_inv [OF inv not_confirm_noted] dispatch_draft_orders by simp
next
  case (confirm c sent q now r d')
  then show ?thesis using confirm_inv [OF inv yes_noted_let_through [OF inv]] by simp
next
  case (tool c sent d' r)
  then show ?thesis using other_tool_inv [OF inv yes_noted_let_through [OF inv]] said_call [OF inv] by simp
next
  case (invalid c sent r)
  moreover have "no_other_yes k (tk_db t) (tk_db t)" by (auto simp: no_other_yes_def)
  ultimately show ?thesis using other_tool_inv [OF inv yes_noted_let_through [OF inv]] by simp
next
  case (core c d' r)
  then show ?thesis using other_tool_inv [OF inv not_confirm_noted] said_call [OF inv] by auto
next
  case (elsewhere d')
  then show ?thesis using talk_elsewhere_inv [OF inv] said_call [OF inv] by simp
next
  case (says say)
  then show ?thesis using says_inv [OF inv] by simp
next
  case silent
  then show ?thesis using phase_inv(1) [OF inv] by simp
qed

interpretation call: machine "call_step E" "call_inv k"
  by unfold_locales (rule call_step_inv)


section \<open>No confirm without a yes to what was read out\<close>

text \<open>C1. In every run of a call, whatever the model answers and whatever it makes of the state, a
  \<open>confirm\<close> is let through only when the sentence the guest just said is a yes and the last sentence
  the guest was told read out the read-back of that very draft, as a tool of this call gave it; and
  every order of the call that is more than a draft is one of those.\<close>

theorem confirm_heard:
  assumes "(call_step E)\<^sup>*\<^sup>* t t'" and "cv_stage (tk_conv t) = SStart" and "tk_phase t \<noteq> Answering"
    and "tk_yes t = []" and "\<forall>r \<in> set (orders (tk_db t)). o_call_id r = cv_call_id (tk_conv t) \<longrightarrow> o_status r = ODraft"
  shows "(\<forall>y \<in> set (tk_yes t'). is_yes (y_text y) \<and>
      (\<exists>i rb say. y_id y = Some i \<and> (i, rb) \<in> set (tk_drafts t') \<and> y_last y = Some say \<and> read_out say rb)) \<and>
    (\<forall>r \<in> set (orders (tk_db t')). o_call_id r = cv_call_id (tk_conv t) \<and> o_status r \<noteq> ODraft \<longrightarrow>
      (\<exists>y \<in> set (tk_yes t'). y_id y = Some (o_id r)))"
proof -
  let ?k = "cv_call_id (tk_conv t)"
  have "call_inv ?k t"
    using assms(2-5) by (simp add: call_inv_def draft_known_def heard_out_def start_ok_def yes_ok_def orders_said_def
        readback_id_def)
  with assms(1) have "call_inv ?k t'" by (rule call.steps_inv)
  then have y: "yes_ok t'" and o: "orders_said ?k t'" by (simp_all add: call_inv_def)
  from o have "\<exists>y \<in> set (tk_yes t'). y_id y = Some (o_id r)"
    if "r \<in> set (orders (tk_db t'))" "o_call_id r = ?k" "o_status r \<noteq> ODraft" for r
    using that by (force simp: orders_said_def)
  with y show ?thesis by (fastforce simp: yes_ok_def read_to_guest_def)
qed

section \<open>A draft that was read out gets its yes\<close>

lemma readback_read_out: "read_out (readback r ls ad nh) (readback r ls ad nh)"
proof -
  have "\<exists>b. readback r ls ad nh = b @ CLOSING \<and> CHR ''M'' \<in> set b"
    unfolding readback_def CLOSING_def append_assoc [symmetric] by (rule exI, rule conjI, rule refl) simp
  moreover have "word_char (lower_char CHR ''M'')" by code_simp
  ultimately show ?thesis using read_out_verbatim by metis
qed

lemma new_draft_answer:
  assumes "draft_order q now d = Inr (a, d')" and "order_by_key d (dr_idempotency_key q) = None"
  shows "od_status a = ODraft" and "read_out (od_readback a) (od_readback a)"
proof -
  obtain z p wh d1 where "write_draft q z p wh now d1 = (a, d')"
    by (rule draft_order_new [OF assms]) (rule that; assumption)
  then obtain r ls ad nh ws where "a = draft_response r (readback r ls ad nh) ws" and "o_status r = ODraft"
    by (auto simp: write_draft_def new_order_def Let_def)
  then show "od_status a = ODraft" and "read_out (od_readback a) (od_readback a)"
    using readback_read_out by (simp_all add: draft_response_def)
qed

lemma guest_quiet:
  assumes "rd_numbers_said E w = []"
  shows "draft_view (snd (note_guest_details E w s)) = draft_view s"
proof -
  have "draft_view (fold note_word ws s) = draft_view s" for ws
    by (induction ws arbitrary: s) (auto simp: note_word_def draft_view_def split: prod.splits)
  then show ?thesis using assms by (simp add: note_guest_details_def Let_def)
qed

text \<open>The call after the answer of the tool, and after the draft was told and the guest answered.\<close>

lemma draft_told:
  assumes "draft_order q now d = Inr (a, d')" and "order_by_key d (dr_idempotency_key q) = None"
    and "s1 = apply_tool_result E ''draft_order'' (fst (dispatch_draft q now d)) args s"
    and "s2 = snd (note_guest_details E w (note_said E (od_readback a) s1))" and "rd_numbers_said E w = []"
  shows "cv_stage s1 = SReadback" and "\<not> cv_readback_heard s1" and "cv_readback s1 = Some (od_readback a)"
    and "readback_id s2 = Some (od_order_id a)" and "cv_readback_heard s2"
proof -
  let ?r = "ok_result (order_draft_json a) None"
  have r: "fst (dispatch_draft q now d) = ?r" using assms(1) by (simp add: dispatch_draft_def)
  have j: "tr_ok ?r" "jget ''order_id'' (tr_data ?r) = Some (JId (od_order_id a))"
    "jget ''readback'' (tr_data ?r) = Some (JStr (od_readback a))" "\<not> decided ''draft_order'' ?r"
    using new_draft_answer(1) [OF assms(1,2)]
    by (simp_all add: ok_result_def order_draft_json_def decided_def order_status_str_def)
  have "fresh_draft ''draft_order'' ?r s s1"
    unfolding assms(3) r by (rule apply_fresh) (use j in \<open>simp_all add: DRAFT_TOOLS_def\<close>)
  then show s1: "cv_stage s1 = SReadback" "\<not> cv_readback_heard s1" "cv_readback s1 = Some (od_readback a)"
    and "readback_id s2 = Some (od_order_id a)" and "cv_readback_heard s2"
    using j view_fields [OF guest_quiet [OF assms(5), of "note_said E (od_readback a) s1"]]
      new_draft_answer(2) [OF assms(1,2)] unfolding assms(4)
    by (simp_all add: fresh_draft_def id_of_def)
qed

text \<open>C6. The core never keeps a guest from a draft: once a new draft of an order is told in the words the
  tool gave, the next \<open>confirm\<close> is let through exactly when it names that draft and the guest said yes
  (and no telephone number, which would be a new detail of the order); and a \<open>confirm\<close> on a yes before
  that makes the core read the draft out itself.\<close>

theorem draft_gets_its_yes:
  assumes "draft_order q now d = Inr (a, d')" and "order_by_key d (dr_idempotency_key q) = None"
    and "s1 = apply_tool_result E ''draft_order'' (fst (dispatch_draft q now d)) args s"
    and "s2 = snd (note_guest_details E w (note_said E (od_readback a) s1))" and "rd_numbers_said E w = []"
    and "tc_name c = ''confirm''"
  shows "(refusal E s2 (begin_turn s2) w c sent = None \<longleftrightarrow>
      is_yes w \<and> id_of (jget ''entity_id'' (tc_args c)) = Some (od_order_id a)) \<and>
    (is_yes v \<longrightarrow> reread_on_yes s1 (begin_turn s1) v (Some c) = Some (od_readback a))"
proof -
  have "refusal E s2 (begin_turn s2) w c sent = None \<longleftrightarrow> may_confirm s2 (begin_turn s2) w c"
    using assms(6) by (simp add: refusal_def notes_of_def NOTED_def)
  then show ?thesis
    using draft_told [OF assms(1-5)] assms(6)
    by (auto simp: may_confirm_def begin_turn_def reread_on_yes_def unheard_readback_def)
qed


section \<open>The call about two ducks\<close>

definition quiet_readers :: readers where
  "quiet_readers = \<lparr>rd_lines = (\<lambda>_. None), rd_flag = (\<lambda>_. None), rd_mentions_allergy = (\<lambda>_. False),
     rd_asks_about_allergies = (\<lambda>_. False), rd_is_question = (\<lambda>_. False), rd_asks_for_phone = (\<lambda>_ b. b),
     rd_names_phone = (\<lambda>_. False), rd_numbers_said = (\<lambda>_. []), rd_words_said = (\<lambda>_. []),
     rd_e164 = (\<lambda>_. []), rd_name_said = (\<lambda>_ _. True), rd_clean_name = (\<lambda>j. j)\<rparr>"

definition ducks_state :: conv where
  "ducks_state = \<lparr>cv_call_id = 3, cv_tenant_id = 7, cv_intent = Some ''delivery'', cv_stage = SStart, cv_slots = [],
     cv_reservation_id = None, cv_order_id = None, cv_readback = None, cv_readback_heard = False,
     cv_transferred = False, cv_booking_say = None, cv_known = [12], cv_offered = [], cv_cart = [],
     cv_booked_cart = [], cv_seen = [], cv_caller_phone = None, cv_said_words = [], cv_said_numbers = [],
     cv_asked_for_phone = False, cv_greeted = True, cv_last_say = None, cv_service = None, cv_customer = None,
     cv_transfer_to = None, cv_allergies = [], cv_allergy_talk = False\<rparr>"

definition ducks_talk :: talk where
  "ducks_talk = \<lparr>tk_conv = ducks_state, tk_phase = Listening, tk_start = None, tk_text = [], tk_last = None,
     tk_drafts = [], tk_yes = [], tk_db = lunch_db\<rparr>"

definition ducks_call :: llm_call where
  "ducks_call = \<lparr>tc_name = ''draft_order'', tc_args = JObj [(''type'', JStr ''delivery''),
     (''items'', JList [JObj [(''menu_item_id'', JId 12), (''quantity'', JInt 2)]])]\<rparr>"

definition yes_call :: llm_call where
  "yes_call = \<lparr>tc_name = ''confirm'', tc_args = JObj [(''entity'', JStr ''order''), (''entity_id'', JId 101)]\<rparr>"

lemma ducks_results: "dispatch_draft ducks noon lunch_db = (ok_result (order_draft_json ducks_draft) None, ducks_db)"
  "dispatch_confirm ducks_yes (noon + MINUTE) ducks_db = (ok_result (confirmation_json a1) None, cooked_db)"
  using ducks_drafted ducks_confirmed by (simp_all add: dispatch_draft_def dispatch_confirm_def)

lemma ja: "is_yes ''Ja''"
  by code_simp


theorem draft_gets_its_yes_witness:
  "\<exists>s1 s2. s1 = apply_tool_result quiet_readers ''draft_order'' (fst (dispatch_draft ducks noon lunch_db)) (tc_args ducks_call) ducks_state \<and>
     refusal quiet_readers s2 (begin_turn s2) ''Ja'' yes_call False = None \<and>
     reread_on_yes s1 (begin_turn s1) ''Ja'' (Some yes_call) = Some (od_readback ducks_draft)"
proof -
  have "tc_name yes_call = ''confirm''" "rd_numbers_said quiet_readers ''Ja'' = []"
    "id_of (jget ''entity_id'' (tc_args yes_call)) = Some (od_order_id ducks_draft)"
    by (simp_all add: yes_call_def quiet_readers_def ducks_draft_def id_of_def)
  with draft_gets_its_yes [OF ducks_drafted lunch_fresh(2) refl refl, of quiet_readers "''Ja''" yes_call] ja
  show ?thesis by blast
qed

lemma quiet_numbers [simp]: "rd_numbers_said quiet_readers w = []" "rd_words_said quiet_readers w = []"
  by (simp_all add: quiet_readers_def)

lemma quiet_guest [simp]: "snd (note_guest_details quiet_readers w s) = s"
  by (simp add: note_guest_details_def)

lemma ducks_run: "\<exists>t. (call_step quiet_readers)\<^sup>*\<^sup>* ducks_talk t \<and> tk_db t = cooked_db \<and>
    tk_drafts t = [(101, od_readback ducks_draft)] \<and>
    tk_yes t = [\<lparr>y_id = Some 101, y_text = ''Ja'', y_last = Some (od_readback ducks_draft)\<rparr>]"
proof -
  let ?E = quiet_readers and ?rb = "od_readback ducks_draft" and ?w = "''Zwei Enten bitte''"
  let ?d = "ok_result (order_draft_json ducks_draft) None" and ?c = "ok_result (confirmation_json a1) None"
  define t2 where "t2 = ducks_talk\<lparr>tk_text := ?w, tk_phase := Answering\<rparr>"
  define s1 where "s1 = apply_tool_result ?E ''draft_order'' ?d (tc_args ducks_call) ducks_state"
  define s2 where "s2 = note_said ?E ?rb s1"
  define t3 where "t3 = after_tool ?E ducks_call ?d ducks_db t2"
  define t4 where "t4 = t3\<lparr>tk_conv := s2, tk_last := Some ?rb, tk_phase := Listening\<rparr>"
  define t6 where "t6 = t4\<lparr>tk_text := ''Ja'', tk_start := begin_turn s2, tk_phase := Answering\<rparr>"
  have q: "s1 = apply_tool_result ?E ''draft_order'' (fst (dispatch_draft ducks noon lunch_db)) (tc_args ducks_call) ducks_state"
    "s2 = snd (note_guest_details ?E ''Ja'' (note_said ?E ?rb s1))" "rd_numbers_said ?E ''Ja'' = []"
    using ducks_results by (simp_all add: s1_def s2_def)
  note told = draft_told [OF ducks_drafted lunch_fresh(2) q]
  have n: "tc_name ducks_call = ''draft_order''" "tc_name yes_call = ''confirm''" by (simp_all add: ducks_call_def yes_call_def)
  have "call_step ?E ducks_talk (ducks_talk\<lparr>tk_text := ?w, tk_phase := Heard\<rparr>)"
    using call_step.guest [of ducks_talk ?E ?w] by (simp add: ducks_talk_def)
  moreover have "call_step ?E (ducks_talk\<lparr>tk_text := ?w, tk_phase := Heard\<rparr>) t2"
    using call_step.turn [of "ducks_talk\<lparr>tk_text := ?w, tk_phase := Heard\<rparr>" ?E]
    by (simp add: t2_def ducks_talk_def ducks_state_def begin_turn_def)
  moreover have "call_step ?E t2 t3"
    unfolding t3_def
  proof (rule call_step.draft [where q = ducks and now = noon and sent = False])
    have "json_list (jget ''items'' (tc_args ducks_call)) = [JObj [(''menu_item_id'', JId 12), (''quantity'', JInt 2)]]"
      "jget ''customer'' (tc_args ducks_call) = None" "jget ''note'' (tc_args ducks_call) = None"
      by (simp_all add: ducks_call_def json_list_def)
    then show "refusal ?E (tk_conv t2) (tk_start t2) (tk_text t2) ducks_call False = None"
      by (simp add: refusal_def n guest_details_def books_under_a_number_def is_object_def all_known_def id_of_def
          notes_of_def NOTED_def map_filter_simps t2_def ducks_talk_def ducks_state_def quiet_readers_def)
    show "dispatch_draft ducks noon (tk_db t2) = (?d, ducks_db)"
      using ducks_results by (simp add: t2_def ducks_talk_def)
  qed (simp_all add: n t2_def ducks_talk_def ducks_state_def ducks_def)
  moreover have c3: "tk_conv t3 = s1"
    by (simp add: t3_def after_tool_def t2_def ducks_talk_def s1_def n)
  moreover have "call_step ?E t3 t4"
    using call_step.says [of ?E t3 ?rb] by (simp add: t4_def s2_def c3)
  moreover have t4: "tk_phase t4 = Listening" "t4\<lparr>tk_conv := tk_conv t4, tk_text := ''Ja'', tk_phase := Heard\<rparr> =
      t4\<lparr>tk_text := ''Ja'', tk_phase := Heard\<rparr>" by (simp_all add: t4_def)
  moreover have "call_step ?E t4 (t4\<lparr>tk_text := ''Ja'', tk_phase := Heard\<rparr>)"
    using call_step.guest [of t4 ?E "''Ja''"] by (simp add: t4)
  moreover have "call_step ?E (t4\<lparr>tk_text := ''Ja'', tk_phase := Heard\<rparr>) t6"
    using call_step.turn [of "t4\<lparr>tk_text := ''Ja'', tk_phase := Heard\<rparr>" ?E] by (simp add: t6_def t4_def)
  moreover have "call_step ?E t6 (after_tool ?E yes_call ?c cooked_db t6)"
  proof (rule call_step.confirm [where q = ducks_yes and now = "noon + MINUTE" and sent = False])
    have "may_confirm s2 (begin_turn s2) ''Ja'' yes_call"
      using told ja by (simp add: may_confirm_def begin_turn_def yes_call_def ducks_draft_def id_of_def)
    then show "refusal ?E (tk_conv t6) (tk_start t6) (tk_text t6) yes_call False = None"
      by (simp add: t6_def t4_def refusal_def notes_of_def NOTED_def n)
    show "dispatch_confirm ducks_yes (noon + MINUTE) (tk_db t6) = (?c, cooked_db)"
      using ducks_results by (simp add: t6_def t4_def t3_def after_tool_def)
    have "cv_call_id s1 = 3" "cv_tenant_id s1 = 7"
      by (simp_all add: s1_def apply_call ducks_state_def)
    then show "cq_call_id ducks_yes = cv_call_id (tk_conv t6)" "cq_tenant_id ducks_yes = cv_tenant_id (tk_conv t6)"
      by (simp_all add: ducks_yes_def t6_def t4_def s2_def note_said_def Let_def)
  qed (simp_all add: n t6_def yes_call_def ducks_yes_def id_of_def)
  ultimately have "(call_step ?E)\<^sup>*\<^sup>* ducks_talk (after_tool ?E yes_call ?c cooked_db t6)"
    by (meson rtranclp.rtrancl_into_rtrancl rtranclp.rtrancl_refl)
  moreover have "draft_entry ''draft_order'' ?d = [(101, ?rb)]" "draft_entry ''confirm'' ?c = []"
    by (simp_all add: draft_entry_def DRAFT_TOOLS_def ok_result_def order_draft_json_def decided_def
        order_status_str_def id_of_def ducks_draft_def)
  ultimately show ?thesis
    by (intro exI [of _ "after_tool ?E yes_call ?c cooked_db t6"])
      (simp add: after_tool_def t6_def t4_def t3_def t2_def ducks_talk_def n, simp add: yes_call_def ducks_call_def id_of_def)
qed

theorem confirm_heard_witness:
  "\<exists>t :: talk. tk_db t = cooked_db \<and> length (tk_yes t) = 1 \<and> (\<forall>y \<in> set (tk_yes t). \<exists>say rb. y_last y = Some say \<and> read_out say rb)"
proof -
  obtain t where r: "(call_step quiet_readers)\<^sup>*\<^sup>* ducks_talk t" and t: "tk_db t = cooked_db" "length (tk_yes t) = 1"
    using ducks_run by fastforce
  have "cv_stage (tk_conv ducks_talk) = SStart" "tk_phase ducks_talk \<noteq> Answering" "tk_yes ducks_talk = []"
    "orders (tk_db ducks_talk) = []"
    by (simp_all add: ducks_talk_def ducks_state_def lunch_db_def empty_db_def)
  then have "\<forall>y \<in> set (tk_yes t). \<exists>say rb. y_last y = Some say \<and> read_out say rb"
    using confirm_heard [OF r] by simp blast
  then show ?thesis using t by (intro exI [of _ t]) simp
qed

end
