(* ===== verification/Callbacks.thy ===== *)
theory Callbacks
  imports Customers Status Kitchen
begin

text \<open>
  A call from its first line to its card (\<open>api/domain/calls/start.py\<close>, \<open>end.py\<close> and \<open>api/domain/callbacks\<close>): the
  log of the call, the handover to the team, and the cards of those who are to be called back. The locks of the
  source make each operation one step.
\<close>

section \<open>api/domain/calls/start.py\<close>

record start_request =
  st_tenant_id :: uuid
  st_session_id :: str
  st_caller_id :: "str option"

definition stored_caller :: "str option \<Rightarrow> str option" where
  "stored_caller raw =
     map_option (\<lambda>s. case normalize_phone DEFAULT_COUNTRY_CODE s of Inr p \<Rightarrow> p | Inl _ \<Rightarrow> s) raw"

text \<open>\<open>_delete_after\<close>: the UTC day, \<open>days\<close> after the start.\<close>

definition deletion_day :: "int \<Rightarrow> instant \<Rightarrow> int" where
  "deletion_day days t = (t + days * DAY) div DAY"

definition running_call :: "uuid \<Rightarrow> str \<Rightarrow> call \<Rightarrow> bool" where
  "running_call tid sid c \<longleftrightarrow> c_tenant_id c = tid \<and> external_session_id c = sid \<and> ended_at c = None"

definition new_call :: "int \<Rightarrow> start_request \<Rightarrow> str \<Rightarrow> instant \<Rightarrow> uuid \<Rightarrow> call" where
  "new_call days req sid now i =
     \<lparr>c_id = i, c_tenant_id = st_tenant_id req, external_session_id = sid, caller_id = stored_caller (st_caller_id req),
      started_at = now, ended_at = None, duration_seconds = None, c_intent = None, c_outcome = None,
      transfer_reason = None, cost_cents = None, c_model = None, tool_calls = [], delete_after = deletion_day days now\<rparr>"

definition start_call :: "int \<Rightarrow> start_request \<Rightarrow> instant \<Rightarrow> db \<Rightarrow> app_error + uuid \<times> db" where
  "start_call days req now d =
     (case get_tenant d (st_tenant_id req) of None \<Rightarrow> raise_err NotFound None
      | Some _ \<Rightarrow>
          let sid = py_strip (st_session_id req) in
          if sid = [] then raise_err InvalidInput None
          else case find (running_call (st_tenant_id req) sid) (calls d) of
              Some c \<Rightarrow> Inr (c_id c, d)
            | None \<Rightarrow> Inr (next_id d, d\<lparr>calls := calls d @ [new_call days req sid now (next_id d)], next_id := Suc (next_id d)\<rparr>))"

section \<open>api/domain/calls/end.py\<close>

record end_request =
  en_tenant_id :: uuid
  en_call_id :: uuid
  en_outcome :: outcome
  en_intent :: "intent option"
  en_cost_cents :: "int option"
  en_model :: "str option"

text \<open>\<open>round\<close> of the seconds: half a second goes to the even one.\<close>

definition round_seconds :: "int \<Rightarrow> int" where
  "round_seconds t =
     (let q = t div SECOND; r = t mod SECOND
      in if 2 * r < SECOND then q else if SECOND < 2 * r then q + 1 else if even q then q else q + 1)"

definition ended_call :: "end_request \<Rightarrow> instant \<Rightarrow> call \<Rightarrow> call" where
  "ended_call req now c =
     c\<lparr>ended_at := Some now, duration_seconds := Some (max 0 (round_seconds (now - started_at c))),
       c_outcome := Some (if en_outcome req = OError then OError
         else case c_outcome c of Some x \<Rightarrow> x | None \<Rightarrow> en_outcome req),
       c_intent := en_intent req, cost_cents := en_cost_cents req, c_model := en_model req\<rparr>"

definition set_call :: "uuid \<Rightarrow> (call \<Rightarrow> call) \<Rightarrow> db \<Rightarrow> db" where
  "set_call i f d = d\<lparr>calls := upd_rows (\<lambda>c. c_id c = i) f (calls d)\<rparr>"

definition call_answer :: "call \<Rightarrow> uuid \<times> int \<times> outcome option" where
  "call_answer c = (c_id c, case duration_seconds c of None \<Rightarrow> 0 | Some n \<Rightarrow> n, c_outcome c)"

definition end_call :: "end_request \<Rightarrow> instant \<Rightarrow> db \<Rightarrow> app_error + (uuid \<times> int \<times> outcome option) \<times> db" where
  "end_call req now d =
     (case get_call d (en_call_id req) of None \<Rightarrow> raise_err NotFound None
      | Some c \<Rightarrow>
          if c_tenant_id c \<noteq> en_tenant_id req then raise_err NotFound None
          else if ended_at c \<noteq> None then Inr (call_answer c, d)
          else Inr (call_answer (ended_call req now c), set_call (en_call_id req) (ended_call req now) d))"

section \<open>api/domain/callbacks/create.py\<close>

record callback_request =
  cbq_tenant_id :: uuid
  cbq_call_id :: uuid
  cbq_phone :: str
  cbq_reason :: callback_reason
  cbq_summary :: str

text \<open>The schema: a request outside its bounds is a ValidationError where it is built.\<close>

definition callback_request_ok :: "callback_request \<Rightarrow> bool" where
  "callback_request_ok req \<longleftrightarrow> 3 \<le> length (cbq_phone req) \<and> length (cbq_phone req) \<le> 40 \<and>
     1 \<le> length (cbq_summary req) \<and> length (cbq_summary req) \<le> 1000"

definition ACTION_CALLBACK :: str where "ACTION_CALLBACK = ''callback.created''"

definition SAY_NOTED :: str where
  "SAY_NOTED = ''Ich habe Ihre Nummer notiert. Das Restaurant ruft Sie so bald wie m'' @ [oe] @ ''glich zur'' @ [ue] @ ''ck.''"

definition reason_str :: "callback_reason \<Rightarrow> str" where
  "reason_str r = (case r of Complaint \<Rightarrow> ''complaint'' | NotUnderstood \<Rightarrow> ''not_understood''
     | HumanRequested \<Rightarrow> ''human_requested'' | OutOfScope \<Rightarrow> ''out_of_scope'')"

record callback_task =
  ct_callback_id :: uuid
  ct_status :: callback_status
  ct_phone :: str
  ct_reason :: callback_reason
  ct_summary :: str
  ct_say :: str

definition task_of :: "callback \<Rightarrow> callback_task" where
  "task_of c = \<lparr>ct_callback_id = cb_id c, ct_status = cb_status c, ct_phone = cb_phone c, ct_reason = cb_reason c,
     ct_summary = cb_summary c, ct_say = SAY_NOTED\<rparr>"

definition open_card :: "uuid \<Rightarrow> uuid \<Rightarrow> callback \<Rightarrow> bool" where
  "open_card tid cid c \<longleftrightarrow> cb_call_id c = cid \<and> cb_tenant_id c = tid \<and> cb_status c = OpenCb \<and> cb_deleted_at c = None"

definition open_for_call :: "db \<Rightarrow> uuid \<Rightarrow> uuid \<Rightarrow> callback option" where
  "open_for_call d tid cid =
     (case sort_key cb_created_at (filter (open_card tid cid) (callbacks d)) of [] \<Rightarrow> None | c # _ \<Rightarrow> Some c)"

definition new_card :: "callback_request \<Rightarrow> str \<Rightarrow> str \<Rightarrow> instant \<Rightarrow> uuid \<Rightarrow> callback" where
  "new_card req phone summary now i =
     \<lparr>cb_id = i, cb_tenant_id = cbq_tenant_id req, cb_call_id = cbq_call_id req, cb_phone = phone,
      cb_reason = cbq_reason req, cb_summary = summary, cb_status = OpenCb, done_by = None, done_at = None,
      cb_created_at = now, cb_deleted_at = None\<rparr>"

definition write_card :: "callback_request \<Rightarrow> str \<Rightarrow> str \<Rightarrow> instant \<Rightarrow> str \<Rightarrow> db \<Rightarrow> app_error + callback_task \<times> db" where
  "write_card req phone summary now who d =
     (let c = new_card req phone summary now (next_id d);
          d = d\<lparr>callbacks := callbacks d @ [c], next_id := Suc (next_id d)\<rparr>;
          d = note_contact (cbq_tenant_id req) (cbq_call_id req) phone now None d;
          d = add_audit (cbq_tenant_id req) who ACTION_CALLBACK ''callback'' (cb_id c)
                (JObj [(''call_id'', JId (cbq_call_id req)), (''reason'', JStr (reason_str (cbq_reason req)))]) d
      in andthen (enqueue (cbq_tenant_id req) CALLBACK_CREATED
           (JObj [(''callback_id'', JId (cb_id c)), (''call_id'', JId (cbq_call_id req)), (''phone'', JStr phone),
                  (''reason'', JStr (reason_str (cbq_reason req))), (''summary'', JStr summary)]) d)
           (\<lambda>(_, d). Inr (task_of c, d)))"

definition create_callback :: "callback_request \<Rightarrow> instant \<Rightarrow> str \<Rightarrow> db \<Rightarrow> app_error + callback_task \<times> db" where
  "create_callback req now who d =
     (case get_tenant d (cbq_tenant_id req) of None \<Rightarrow> raise_err NotFound None
      | Some _ \<Rightarrow> (case get_call d (cbq_call_id req) of None \<Rightarrow> raise_err NotFound (Some SAY_ON_FAILURE)
        | Some call \<Rightarrow>
            if c_tenant_id call \<noteq> cbq_tenant_id req then raise_err NotFound (Some SAY_ON_FAILURE)
            else let summary = py_strip (cbq_summary req) in
              if summary = [] then raise_err InvalidInput None
              else andthen (normalize_phone DEFAULT_COUNTRY_CODE (cbq_phone req)) (\<lambda>phone.
                case open_for_call d (cbq_tenant_id req) (cbq_call_id req) of
                  Some c \<Rightarrow> Inr (task_of c, d)
                | None \<Rightarrow> write_card req phone summary now who d)))"

section \<open>api/domain/callbacks/transfer.py\<close>

datatype transfer_reason_kind = TComplaint | TNotUnderstood | THumanRequested | TOutOfScope | TCancellation

definition transfer_reason_str :: "transfer_reason_kind \<Rightarrow> str" where
  "transfer_reason_str r = (case r of TComplaint \<Rightarrow> ''complaint'' | TNotUnderstood \<Rightarrow> ''not_understood''
     | THumanRequested \<Rightarrow> ''human_requested'' | TOutOfScope \<Rightarrow> ''out_of_scope'' | TCancellation \<Rightarrow> ''cancellation'')"

definition ACTOR_TELEPHONY :: str where "ACTOR_TELEPHONY = ''telephony''"
definition ACTION_TRANSFERRED :: str where "ACTION_TRANSFERRED = ''call.transferred''"
definition MISSED_WINDOW :: int where "MISSED_WINDOW = 120 * MINUTE"

definition SUMMARY_MISSED :: str where
  "SUMMARY_MISSED = ''Ans Team weitergeleitet, dort hat niemand abgenommen.''"
definition SUMMARY_HUNG_UP :: str where "SUMMARY_HUNG_UP = ''Aufgelegt, bevor das Team klingelte.''"

definition summary_by_reason :: "str option \<Rightarrow> str option" where
  "summary_by_reason r = (case r of None \<Rightarrow> Some ''Anliegen nicht bekannt.''
     | Some s \<Rightarrow> if s = ''cancellation'' then Some ''Kunde wollte etwas stornieren.'' else None)"

record transfer_result =
  tr_transfer_to :: str
  tr_available :: bool

definition team_reachable :: "db \<Rightarrow> uuid \<Rightarrow> zone \<Rightarrow> instant \<Rightarrow> bool" where
  "team_reachable d tid z now =
     (let data = load_hours d tid (ldate (astimezone z now)) LOOKAHEAD_DAYS
      in list_ex (\<lambda>s. open_window_at data now s z \<noteq> None) SERVICES)"

definition hand_over :: "uuid \<Rightarrow> call \<Rightarrow> transfer_reason_kind \<Rightarrow> instant \<Rightarrow> db \<Rightarrow> db" where
  "hand_over tid call r now d =
     (let d = set_call (c_id call) (\<lambda>c. c\<lparr>transfer_reason := Some (transfer_reason_str r)\<rparr>) d;
          d = add_audit tid ''agent'' ACTION_TRANSFERRED ''call'' (c_id call) (JObj [(''reason'', JStr (transfer_reason_str r))]) d
      in case number_or_none (caller_id call) of
           Some n \<Rightarrow> if r = TComplaint then note_contact tid (c_id call) n now None d else d
         | None \<Rightarrow> d)"

definition transfer_to_team ::
  "uuid \<Rightarrow> uuid \<Rightarrow> transfer_reason_kind \<Rightarrow> instant \<Rightarrow> db \<Rightarrow> app_error + transfer_result \<times> db" where
  "transfer_to_team tid cid r now d =
     (case (get_tenant d tid, get_config d tid) of
        (Some t, Some cfg) \<Rightarrow>
          (case get_call d cid of None \<Rightarrow> raise_err NotFound (Some SAY_ON_FAILURE)
           | Some call \<Rightarrow>
               if c_tenant_id call \<noteq> tid then raise_err NotFound (Some SAY_ON_FAILURE)
               else let available = team_reachable d tid (t_timezone t) now
                 in Inr (\<lparr>tr_transfer_to = team_phone cfg, tr_available = available\<rparr>,
                      if available \<and> transfer_reason call = None then hand_over tid call r now d else d))
      | _ \<Rightarrow> raise_err NotFound None)"

text \<open>\<open>team_missed\<close>.\<close>

definition missed_call :: "uuid \<Rightarrow> str \<Rightarrow> instant \<Rightarrow> db \<Rightarrow> call option" where
  "missed_call tid sid now d =
     (case sort_key (\<lambda>c. - started_at c) (filter (\<lambda>c. c_tenant_id c = tid \<and> external_session_id c = sid \<and>
         now - MISSED_WINDOW \<le> started_at c) (calls d)) of [] \<Rightarrow> None | c # _ \<Rightarrow> Some c)"

definition card_reason :: "str option \<Rightarrow> callback_reason" where
  "card_reason r = (case r of None \<Rightarrow> OutOfScope
     | Some s \<Rightarrow> case find (\<lambda>x. reason_str x = s) [Complaint, NotUnderstood, HumanRequested, OutOfScope] of
         Some x \<Rightarrow> x | None \<Rightarrow> if s = ''cancellation'' then HumanRequested else OutOfScope)"

definition open_card_phone :: "db \<Rightarrow> call \<Rightarrow> str option" where
  "open_card_phone d c =
     map_option cb_phone (find (\<lambda>b. cb_call_id b = c_id c \<and> cb_status b = OpenCb \<and> cb_deleted_at b = None) (callbacks d))"

definition number_of_missed :: "db \<Rightarrow> call \<Rightarrow> str option \<Rightarrow> str option" where
  "number_of_missed d c phone =
     (case number_or_none phone of Some n \<Rightarrow> Some n
      | None \<Rightarrow> (case number_or_none (caller_id c) of Some n \<Rightarrow> Some n | None \<Rightarrow> open_card_phone d c))"

definition missed_summary :: "bool \<Rightarrow> str option \<Rightarrow> str option \<Rightarrow> str" where
  "missed_summary rang summary r =
     (let first = (if rang then SUMMARY_MISSED else SUMMARY_HUNG_UP);
          more = (case summary of Some (c # cs) \<Rightarrow> Some (c # cs) | _ \<Rightarrow> summary_by_reason r)
      in py_join '' '' (first # (case more of None \<Rightarrow> [] | Some s \<Rightarrow> if s = [] then [] else [s])))"

definition note_missed :: "uuid \<Rightarrow> db \<Rightarrow> db" where
  "note_missed cid d = set_call cid (\<lambda>c. if c_outcome c = Some OError then c else c\<lparr>c_outcome := Some OCallback\<rparr>) d"

definition team_missed ::
  "uuid \<Rightarrow> str \<Rightarrow> str option \<Rightarrow> str option \<Rightarrow> instant \<Rightarrow> bool \<Rightarrow> db \<Rightarrow> app_error + callback_task option \<times> db" where
  "team_missed tid sid phone summary now rang d =
     (case missed_call tid sid now d of None \<Rightarrow> Inr (None, d)
      | Some call \<Rightarrow> (case number_of_missed d call phone of None \<Rightarrow> Inr (None, d)
        | Some number \<Rightarrow>
            let req = \<lparr>cbq_tenant_id = tid, cbq_call_id = c_id call, cbq_phone = number,
                  cbq_reason = card_reason (transfer_reason call),
                  cbq_summary = missed_summary rang summary (transfer_reason call)\<rparr>
            in if \<not> callback_request_ok req then raise_err UncaughtError None
               else andthen (create_callback req now ACTOR_TELEPHONY (note_missed (c_id call) d))
                      (\<lambda>(t, d). Inr (Some t, d))))"

section \<open>api/domain/callbacks/board.py\<close>

definition ACTION_DONE :: str where "ACTION_DONE = ''callback.done''"
definition ACTION_REOPENED :: str where "ACTION_REOPENED = ''callback.reopened''"
definition HISTORY_DAYS :: int where "HISTORY_DAYS = 7"

datatype number_source = FromCall | OtherNumber | Withheld

record shown_callback =
  shown_callback_id :: uuid
  shown_created_at :: instant
  shown_phone :: str
  shown_reason :: callback_reason
  shown_summary :: str
  shown_caller_id :: "str option"

definition number_origin :: "shown_callback \<Rightarrow> number_source" where
  "number_origin oc =
     (if py_strip (case shown_caller_id oc of None \<Rightarrow> [] | Some s \<Rightarrow> s) = [] then Withheld
      else if Some (shown_phone oc) = shown_caller_id oc then FromCall else OtherNumber)"

definition shown_card :: "db \<Rightarrow> callback \<Rightarrow> shown_callback option" where
  "shown_card d c = map_option (\<lambda>call. \<lparr>shown_callback_id = cb_id c, shown_created_at = cb_created_at c, shown_phone = cb_phone c,
     shown_reason = cb_reason c, shown_summary = cb_summary c, shown_caller_id = caller_id call\<rparr>) (get_call d (cb_call_id c))"

definition open_on_board :: "uuid \<Rightarrow> callback \<Rightarrow> bool" where
  "open_on_board tid c \<longleftrightarrow> cb_tenant_id c = tid \<and> cb_status c = OpenCb \<and> cb_deleted_at c = None"

text \<open>ORDER BY complaint first, then the oldest, then the id: three stable sorts, the last key first. A card whose
  call is gone has no partner in the join.\<close>

definition card_order :: "callback list \<Rightarrow> callback list" where
  "card_order cs = sort_key (\<lambda>c. if cb_reason c = Complaint then 0 else 1 :: nat) (sort_key cb_created_at (sort_key cb_id cs))"

definition list_open :: "db \<Rightarrow> uuid \<Rightarrow> shown_callback list" where
  "list_open d tid = List.map_filter (shown_card d) (card_order (filter (open_on_board tid) (callbacks d)))"

definition card_of_tenant :: "db \<Rightarrow> uuid \<Rightarrow> uuid \<Rightarrow> callback option" where
  "card_of_tenant d tid i = find (\<lambda>c. cb_id c = i \<and> cb_tenant_id c = tid \<and> cb_deleted_at c = None) (callbacks d)"

definition set_card :: "uuid \<Rightarrow> (callback \<Rightarrow> callback) \<Rightarrow> db \<Rightarrow> db" where
  "set_card i f d = d\<lparr>callbacks := upd_rows (\<lambda>c. cb_id c = i) f (callbacks d)\<rparr>"

definition mark_done :: "uuid \<Rightarrow> uuid \<Rightarrow> str \<Rightarrow> instant \<Rightarrow> db \<Rightarrow> app_error + callback \<times> db" where
  "mark_done tid i who now d =
     (case card_of_tenant d tid i of None \<Rightarrow> raise_err NotFound None
      | Some c \<Rightarrow>
          if cb_status c = DoneCb then Inr (c, d)
          else let f = (\<lambda>c. c\<lparr>cb_status := DoneCb, done_by := Some who, done_at := Some now\<rparr>)
            in Inr (f c, add_audit tid who ACTION_DONE ''callback'' i
                 (JObj [(''call_id'', JId (cb_call_id c)), (''reason'', JStr (reason_str (cb_reason c)))]) (set_card i f d)))"

definition in_history :: "uuid \<Rightarrow> instant \<Rightarrow> callback \<Rightarrow> bool" where
  "in_history tid now c \<longleftrightarrow> cb_tenant_id c = tid \<and> cb_status c = DoneCb \<and> cb_deleted_at c = None \<and>
     (case done_at c of None \<Rightarrow> False | Some t \<Rightarrow> now - HISTORY_DAYS * DAY \<le> t)"

definition list_history :: "db \<Rightarrow> uuid \<Rightarrow> instant \<Rightarrow> (shown_callback \<times> instant option \<times> str option) list" where
  "list_history d tid now =
     List.map_filter (\<lambda>c. map_option (\<lambda>s. (s, done_at c, done_by c)) (shown_card d c))
       (sort_key (\<lambda>c. - (case done_at c of None \<Rightarrow> 0 | Some t \<Rightarrow> t)) (sort_key cb_id (filter (in_history tid now) (callbacks d))))"

definition reopen :: "uuid \<Rightarrow> uuid \<Rightarrow> str \<Rightarrow> instant \<Rightarrow> db \<Rightarrow> app_error + callback \<times> db" where
  "reopen tid i who now d =
     (case card_of_tenant d tid i of None \<Rightarrow> raise_err NotFound None
      | Some c \<Rightarrow>
          if in_history tid now c
          then let f = (\<lambda>c. c\<lparr>cb_status := OpenCb, done_by := None, done_at := None\<rparr>)
            in Inr (f c, set_card i f (add_audit tid who ACTION_REOPENED ''callback'' i
                 (JObj [(''call_id'', JId (cb_call_id c)), (''reason'', JStr (reason_str (cb_reason c))),
                        (''done_at'', jopt JTime (done_at c)), (''done_by'', jopt JStr (done_by c))]) d))
          else Inr (c, d))"

section \<open>What the operations leave alone\<close>

lemma note_contact_rows [simp, frame_simps]:
  "calls (note_contact t i p a n d) = calls d" "callbacks (note_contact t i p a n d) = callbacks d"
  "next_id (note_contact t i p a n d) = next_id d" "tenants (note_contact t i p a n d) = tenants d"
  "outbox (note_contact t i p a n d) = outbox d"
  by (simp_all add: note_contact_def)

lemma add_audit_calls [simp, frame_simps]:
  "calls (add_audit t w a n i p d) = calls d" "callbacks (add_audit t w a n i p d) = callbacks d"
  by (simp_all add: add_audit_def)

lemma set_call_frame [simp, frame_simps]:
  "callbacks (set_call i f d) = callbacks d" "next_id (set_call i f d) = next_id d" "tenants (set_call i f d) = tenants d"
  "calls (set_call i f d) = upd_rows (\<lambda>c. c_id c = i) f (calls d)"
  by (simp_all add: set_call_def)

lemma set_card_frame [simp, frame_simps]:
  "calls (set_card i f d) = calls d" "next_id (set_card i f d) = next_id d"
  "callbacks (set_card i f d) = upd_rows (\<lambda>c. cb_id c = i) f (callbacks d)"
  by (simp_all add: set_card_def)

lemma write_card_result:
  assumes "write_card req phone summary now who d = Inr (t, d')"
  shows "t = task_of (new_card req phone summary now (next_id d)) \<and>
    callbacks d' = callbacks d @ [new_card req phone summary now (next_id d)] \<and> calls d' = calls d \<and>
    next_id d < next_id d'"
  using assms by (auto simp: write_card_def Let_def enqueue_def andthen_def raise_err_def split: if_splits)

lemma write_card_succeeds: "\<exists>t d'. write_card req phone summary now who d = Inr (t, d')"
  by (simp add: write_card_def Let_def enqueue_def andthen_def EVENT_TYPES_def)

lemma open_for_call_Some:
  assumes "open_for_call d tid cid = Some c" shows "c \<in> set (callbacks d) \<and> open_card tid cid c"
proof -
  let ?cs = "filter (open_card tid cid) (callbacks d)"
  obtain rest where "sort_key cb_created_at ?cs = c # rest" using assms by (auto simp: open_for_call_def split: list.splits)
  then have "c \<in> set (sort_key cb_created_at ?cs)" by simp
  then show ?thesis unfolding set_sort by simp
qed

lemma open_for_call_None: "open_for_call d tid cid = None \<longleftrightarrow> filter (open_card tid cid) (callbacks d) = []"
proof -
  have "sort_key cb_created_at xs = [] \<longleftrightarrow> xs = []" for xs :: "callback list" by (metis length_0_conv length_sort)
  then show ?thesis by (auto simp: open_for_call_def split: list.splits)
qed

text \<open>What a card costs the tables: nothing, or one new row with a new key.\<close>

lemma create_callback_result:
  assumes "create_callback req now who d = Inr (t, d')"
  shows "calls d' = calls d \<and>
    (d' = d \<and> (\<exists>c \<in> set (callbacks d). open_card (cbq_tenant_id req) (cbq_call_id req) c \<and> t = task_of c) \<or>
     filter (open_card (cbq_tenant_id req) (cbq_call_id req)) (callbacks d) = [] \<and> next_id d < next_id d' \<and>
     (\<exists>phone summary. t = task_of (new_card req phone summary now (next_id d)) \<and>
        callbacks d' = callbacks d @ [new_card req phone summary now (next_id d)]))"
proof -
  obtain phone where
    r: "(case open_for_call d (cbq_tenant_id req) (cbq_call_id req) of Some c \<Rightarrow> Inr (task_of c, d)
         | None \<Rightarrow> write_card req phone (py_strip (cbq_summary req)) now who d) = Inr (t, d')"
    using assms
    by (auto simp: create_callback_def Let_def andthen_def raise_err_def split: option.splits if_splits sum.splits)
  show ?thesis
  proof (cases "open_for_call d (cbq_tenant_id req) (cbq_call_id req)")
    case None
    then have "write_card req phone (py_strip (cbq_summary req)) now who d = Inr (t, d')" using r by simp
    from write_card_result [OF this] None [unfolded open_for_call_None] show ?thesis by blast
  next
    case (Some c)
    then show ?thesis using r open_for_call_Some [OF Some] by auto
  qed
qed

section \<open>Which report comes first does not matter\<close>

lemma insort_key_map: "insort_key k (f x) (map f xs) = map f (insort_key (k \<circ> f) x xs)"
  by (induction xs) auto

lemma sort_key_map: "sort_key k (map f xs) = map f (sort_key (k \<circ> f) xs)"
  by (induction xs) (simp_all add: insort_key_map comp_def)

text \<open>Changes of the row that keep what a missed call is found by.\<close>

definition keeps_line :: "(call \<Rightarrow> call) \<Rightarrow> bool" where
  "keeps_line f \<longleftrightarrow> (\<forall>c. c_id (f c) = c_id c \<and> c_tenant_id (f c) = c_tenant_id c \<and>
     external_session_id (f c) = external_session_id c \<and> started_at (f c) = started_at c)"

lemma missed_call_upd:
  assumes "keeps_line f" and "calls d' = upd_rows p f (calls d)"
  shows "missed_call tid sid now d' = map_option (\<lambda>c. if p c then f c else c) (missed_call tid sid now d)"
proof -
  let ?g = "\<lambda>c. if p c then f c else c"
  let ?P = "\<lambda>c. c_tenant_id c = tid \<and> external_session_id c = sid \<and> now - MISSED_WINDOW \<le> started_at c"
  have g: "?P (?g c) = ?P c" "started_at (?g c) = started_at c" for c using assms(1) by (simp_all add: keeps_line_def)
  have "filter ?P (calls d') = map ?g (filter ?P (calls d))"
    unfolding assms(2) upd_rows_def filter_map by (simp add: comp_def g(1))
  then have "sort_key (\<lambda>c. - started_at c) (filter ?P (calls d')) = map ?g (sort_key (\<lambda>c. - started_at c) (filter ?P (calls d)))"
    by (simp add: sort_key_map comp_def g(2))
  then show ?thesis by (auto simp: missed_call_def split: list.splits)
qed

text \<open>The rows of the calls after each of the two reports.\<close>

definition missed_row :: "call \<Rightarrow> call" where
  "missed_row c = (if c_outcome c = Some OError then c else c\<lparr>c_outcome := Some OCallback\<rparr>)"

definition end_row :: "end_request \<Rightarrow> instant \<Rightarrow> call \<Rightarrow> call" where
  "end_row req now c = (if ended_at c = None then ended_call req now c else c)"

lemma rows_commute: "end_row req now (missed_row c) = missed_row (end_row req now c)"
proof (cases "ended_at c")
  case None
  then show ?thesis
    by (cases "c_outcome c"; cases "en_outcome req = OError"; cases "c_outcome c = Some OError")
      (simp_all add: end_row_def missed_row_def ended_call_def)
qed (simp add: end_row_def missed_row_def)

lemma keeps_line_rows [simp]: "keeps_line missed_row" "keeps_line (end_row req now)"
  by (simp_all add: keeps_line_def missed_row_def end_row_def ended_call_def)

lemma end_call_calls:
  assumes "end_call req now d = Inr (a, d')" and "distinct (map c_id (calls d))"
  shows "calls d' = upd_rows (\<lambda>c. c_id c = en_call_id req) (end_row req now) (calls d)"
proof -
  obtain c where c: "get_call d (en_call_id req) = Some c"
    using assms(1) by (auto simp: end_call_def raise_err_def split: option.splits)
  then have m: "c \<in> set (calls d)" "c_id c = en_call_id req" by (auto simp: get_call_def dest: find_SomeD)
  have row: "x = c" if "x \<in> set (calls d)" "c_id x = en_call_id req" for x
    using assms(2) that m by (auto simp: distinct_map inj_on_def)
  show ?thesis
  proof (cases "ended_at c = None")
    case True
    then have "calls d' = upd_rows (\<lambda>c. c_id c = en_call_id req) (ended_call req now) (calls d)"
      using assms(1) c by (auto simp: end_call_def raise_err_def split: if_splits)
    also have "\<dots> = upd_rows (\<lambda>c. c_id c = en_call_id req) (end_row req now) (calls d)"
      unfolding upd_rows_def by (rule map_cong [OF refl]) (use row True in \<open>auto simp: end_row_def\<close>)
    finally show ?thesis .
  next
    case False
    then have "calls d' = calls d" using assms(1) c by (auto simp: end_call_def raise_err_def split: if_splits)
    moreover have "upd_rows (\<lambda>c. c_id c = en_call_id req) (end_row req now) (calls d) = calls d"
      by (rule upd_rows_id) (use row False in \<open>auto simp: end_row_def\<close>)
    ultimately show ?thesis by simp
  qed
qed

lemma team_missed_calls:
  assumes "team_missed tid sid phone summary now rang d = Inr (Some t, d')"
  obtains c where "missed_call tid sid now d = Some c" "calls d' = upd_rows (\<lambda>x. c_id x = c_id c) missed_row (calls d)"
proof -
  obtain c number where c: "missed_call tid sid now d = Some c" and "number_of_missed d c phone = Some number"
    using assms by (auto simp: team_missed_def split: option.splits)
  then obtain req where "create_callback req now ACTOR_TELEPHONY (note_missed (c_id c) d) = Inr (t, d')"
    using assms by (auto simp: team_missed_def Let_def andthen_def raise_err_def split: if_splits sum.splits)
  from create_callback_result [OF this] have "calls d' = calls (note_missed (c_id c) d)" by blast
  then show thesis using that [OF c] by (simp add: note_missed_def missed_row_def [abs_def])
qed

text \<open>C32. Two reports, one outcome: whether the log of a call is closed before or after the line reports that the team
  never picked up, every row of the calls ends the same, and the outcome is the error or the card.\<close>

theorem reports_commute:
  assumes "end_call req te d = Inr (x, d1)" and "team_missed tid sid phone summary tm rang d1 = Inr (Some t1, d2)"
    and "team_missed tid sid phone summary tm rang d = Inr (Some t2, e1)" and "end_call req te e1 = Inr (y, e2)"
    and "distinct (map c_id (calls d))"
  shows "calls d2 = calls e2 \<and>
    (\<exists>c. missed_call tid sid tm d2 = Some c \<and> c_outcome c \<in> {Some OError, Some OCallback})"
proof -
  let ?i = "en_call_id req"
  have c1: "calls d1 = upd_rows (\<lambda>c. c_id c = ?i) (end_row req te) (calls d)" by (rule end_call_calls [OF assms(1,5)])
  obtain c where c: "missed_call tid sid tm d1 = Some c" "calls d2 = upd_rows (\<lambda>x. c_id x = c_id c) missed_row (calls d1)"
    by (rule team_missed_calls [OF assms(2)])
  obtain b where b: "missed_call tid sid tm d = Some b" "calls e1 = upd_rows (\<lambda>x. c_id x = c_id b) missed_row (calls d)"
    by (rule team_missed_calls [OF assms(3)])
  have same: "c_id c = c_id b"
    using missed_call_upd [OF keeps_line_rows(2) c1, of tid sid tm] b(1) c(1)
    by (auto simp: end_row_def ended_call_def split: if_splits)
  have keep: "c_id (end_row req te r) = c_id r" "c_id (missed_row r) = c_id r" for r
    using keeps_line_rows by (auto simp: keeps_line_def)
  have ids: "map c_id (calls e1) = map c_id (calls d)" unfolding b(2) upd_rows_def by (simp add: keep)
  have c2: "calls e2 = upd_rows (\<lambda>c. c_id c = ?i) (end_row req te) (calls e1)"
    by (rule end_call_calls [OF assms(4)]) (use assms(5) ids in simp)
  have eq: "calls d2 = calls e2"
    unfolding c(2) c1 c2 b(2) same upd_rows_def by (simp add: keep rows_commute comp_def) 
  have "missed_call tid sid tm d2 = Some (missed_row c)"
    using missed_call_upd [OF keeps_line_rows(1) c(2), of tid sid tm] c(1) by simp
  moreover have "c_outcome (missed_row c) \<in> {Some OError, Some OCallback}" by (simp add: missed_row_def)
  ultimately show ?thesis using eq by blast
qed

section \<open>Repeated reports\<close>

interpretation call_start: replayable "start_call days req now" for days req now
proof
  fix d i d'
  assume a: "start_call days req now d = Inr (i, d')"
  let ?sid = "py_strip (st_session_id req)"
  have t: "get_tenant d (st_tenant_id req) \<noteq> None" "?sid \<noteq> []"
    using a by (auto simp: start_call_def raise_err_def Let_def split: option.splits if_splits)
  show "start_call days req now d' = Inr (i, d')"
  proof (cases "find (running_call (st_tenant_id req) ?sid) (calls d)")
    case None
    then have d': "i = next_id d" "calls d' = calls d @ [new_call days req ?sid now (next_id d)]" "tenants d' = tenants d"
      using a t by (auto simp: start_call_def Let_def)
    have "find (running_call (st_tenant_id req) ?sid) (calls d') = Some (new_call days req ?sid now (next_id d))"
      unfolding d'(2) find_append_new None by (simp add: running_call_def new_call_def)
    then show ?thesis using t d' by (auto simp: start_call_def Let_def get_tenant_def new_call_def)
  next
    case (Some c)
    then show ?thesis using a t by (auto simp: start_call_def Let_def)
  qed
qed

section \<open>A call the team missed leaves a card\<close>

lemma E164_length: "E164 p \<Longrightarrow> 3 \<le> length p \<and> length p \<le> 40"
  by (auto simp: E164_def split: list.splits)

lemma number_or_none_Some: "number_or_none raw = Some p \<Longrightarrow> E164 p"
  by (auto simp: number_or_none_def normalize_phone_def Let_def split: option.splits if_splits sum.splits)

lemma strip_letter: "x \<in> set s \<Longrightarrow> \<not> py_space x \<Longrightarrow> py_strip s \<noteq> []"
proof
  assume x: "x \<in> set s" "\<not> py_space x" and "py_strip s = []"
  then have "dropWhile py_space (rev (dropWhile py_space s)) = []" by (simp add: py_strip_def)
  then have all: "\<forall>y \<in> set (dropWhile py_space s). py_space y" by (simp add: dropWhile_eq_Nil_conv)
  have "dropWhile py_space s \<noteq> []" using x by (auto simp: dropWhile_eq_Nil_conv)
  then show False using all hd_dropWhile [of py_space s] by auto
qed

lemma missed_summary_letter: "CHR ''A'' \<in> set (missed_summary rang summary r)"
  by (cases "\<exists>s. (case summary of Some (c # cs) \<Rightarrow> Some (c # cs) | _ \<Rightarrow> summary_by_reason r) = Some s \<and> s \<noteq> []")
    (auto simp: missed_summary_def Let_def SUMMARY_MISSED_def SUMMARY_HUNG_UP_def split: option.splits)

lemma missed_call_Some: "missed_call tid sid now d = Some c \<Longrightarrow> c \<in> set (calls d) \<and> c_tenant_id c = tid"
proof -
  let ?P = "\<lambda>c. c_tenant_id c = tid \<and> external_session_id c = sid \<and> now - MISSED_WINDOW \<le> started_at c"
  assume "missed_call tid sid now d = Some c"
  then obtain rest where "sort_key (\<lambda>c. - started_at c) (filter ?P (calls d)) = c # rest"
    by (auto simp: missed_call_def split: list.splits)
  then have "c \<in> set (sort_key (\<lambda>c. - started_at c) (filter ?P (calls d)))" by simp
  then show ?thesis unfolding set_sort by simp
qed

lemma missed_row_keeps: "c_id (missed_row c) = c_id c" "c_tenant_id (missed_row c) = c_tenant_id c"
  using keeps_line_rows(1) by (simp_all add: keeps_line_def)

lemma get_call_missed: "get_call (note_missed i d) j = map_option (\<lambda>c. if c_id c = i then missed_row c else c) (get_call d j)"
  unfolding get_call_def note_missed_def set_call_frame missed_row_def by (rule find_upd_rows) simp

lemma mem_sort_key: "x \<in> set xs \<Longrightarrow> x \<in> set (sort_key k xs)"
  by simp

lemma listed:
  assumes "c \<in> set (callbacks d)" and "open_on_board tid c" and "get_call d (cb_call_id c) = Some call"
  shows "\<exists>oc \<in> set (list_open d tid). shown_callback_id oc = cb_id c \<and> shown_phone oc = cb_phone c \<and> shown_reason oc = cb_reason c"
proof -
  obtain oc where oc: "shown_card d c = Some oc" "shown_callback_id oc = cb_id c" "shown_phone oc = cb_phone c" "shown_reason oc = cb_reason c"
    using assms(3) by (simp add: shown_card_def)
  have "c \<in> set (card_order (filter (open_on_board tid) (callbacks d)))" using assms(1,2) by (simp add: card_order_def)
  then have "oc \<in> set (list_open d tid)" using oc(1) by (force simp: list_open_def List.map_filter_def)
  then show ?thesis using oc by blast
qed

text \<open>C19. Nobody is forgotten: a call of the last two hours that the team did not take and that has a number, named or
  of the line, leaves an open card of that call on the board of its restaurant, a new one or the one that was there
  before, as long as what the card would say fits the 1000 characters of a card. (With a longer text
  \<open>team_missed\<close> raises and no card is written.)\<close>

theorem missed_leaves_card:
  assumes "missed_call tid sid now d = Some c" and "get_tenant d tid \<noteq> None" and "distinct (map c_id (calls d))"
    and "number_or_none phone \<noteq> None \<or> number_or_none (caller_id c) \<noteq> None"
    and "length (missed_summary rang summary (transfer_reason c)) \<le> 1000"
  shows "\<exists>t d'. team_missed tid sid phone summary now rang d = Inr (Some t, d') \<and>
    (\<exists>b \<in> set (callbacks d'). open_card tid (c_id c) b \<and> t = task_of b \<and>
       (\<exists>oc \<in> set (list_open d' tid). shown_callback_id oc = cb_id b \<and> shown_phone oc = cb_phone b))"
proof -
  obtain n where n: "number_of_missed d c phone = Some n" "E164 n"
  proof (cases "number_or_none phone")
    case None
    then obtain m where "number_or_none (caller_id c) = Some m" using assms(4) by auto
    then show ?thesis using None number_or_none_Some that by (simp add: number_of_missed_def)
  next
    case (Some m)
    then show ?thesis using number_or_none_Some that by (simp add: number_of_missed_def)
  qed
  define req where "req = \<lparr>cbq_tenant_id = tid, cbq_call_id = c_id c, cbq_phone = n,
     cbq_reason = card_reason (transfer_reason c), cbq_summary = missed_summary rang summary (transfer_reason c)\<rparr>"
  let ?d = "note_missed (c_id c) d"
  have c: "c \<in> set (calls d)" "c_tenant_id c = tid" using missed_call_Some [OF assms(1)] by simp_all
  have g: "get_call d (c_id c) = Some c"
    unfolding get_call_def using distinct_key_find [OF assms(3) c(1)] by simp
  then have g': "get_call ?d (c_id c) = Some (missed_row c)" by (simp add: get_call_missed)
  have ten: "get_tenant ?d tid \<noteq> None" using assms(2) by (simp add: note_missed_def get_tenant_def)
  have sum: "py_strip (cbq_summary req) \<noteq> []"
    unfolding req_def using strip_letter [OF missed_summary_letter] by (simp add: py_space_def)
  then have "cbq_summary req \<noteq> []" by (auto simp: py_strip_def)
  then have ok: "callback_request_ok req"
    using E164_length [OF n(2)] assms(5) by (cases "cbq_summary req") (auto simp: callback_request_ok_def req_def)
  have "\<exists>t d'. create_callback req now ACTOR_TELEPHONY ?d = Inr (t, d')"
    using ten g' c(2) sum normalize_E164 [OF n(2), of DEFAULT_COUNTRY_CODE] write_card_succeeds
    by (auto simp: create_callback_def Let_def andthen_def req_def missed_row_keeps split: option.splits)
  then obtain t d' where t: "create_callback req now ACTOR_TELEPHONY ?d = Inr (t, d')" by blast
  have r: "team_missed tid sid phone summary now rang d = Inr (Some t, d')"
    using assms(1) n(1) ok t by (simp add: team_missed_def req_def andthen_def)
  have q: "cbq_tenant_id req = tid" "cbq_call_id req = c_id c" by (simp_all add: req_def)
  note res = create_callback_result [OF t, unfolded q]
  obtain b where b: "b \<in> set (callbacks d')" "open_card tid (c_id c) b" "t = task_of b"
  proof -
    have "open_card tid (c_id c) (new_card req p s now i)" for p s i by (simp add: new_card_def open_card_def q)
    then show thesis using res that by fastforce
  qed
  have "get_call d' (c_id c) = Some (missed_row c)" using g' res by (simp add: get_call_def)
  moreover have "open_on_board tid b" "cb_call_id b = c_id c" using b(2) by (simp_all add: open_card_def open_on_board_def)
  ultimately show ?thesis using r b listed [of b d' tid "missed_row c"] by auto
qed

section \<open>One open card for a call\<close>

definition one_card :: "db \<Rightarrow> bool" where
  "one_card d \<longleftrightarrow> (\<forall>tid cid. length (filter (open_card tid cid) (callbacks d)) \<le> 1)"

text \<open>The operations on the cards, but for \<open>reopen\<close>, and everything that leaves the cards alone. (Erasure and
  deletion job blank the number and the text of a card and close none.)\<close>

inductive card_step :: "db \<Rightarrow> db \<Rightarrow> bool" where
  asked: "create_callback req now who d = Inr (t, d') \<Longrightarrow> card_step d d'"
| missed: "team_missed tid sid phone summary now rang d = Inr (t, d') \<Longrightarrow> card_step d d'"
| finished: "mark_done tid i who now d = Inr (c, d') \<Longrightarrow> card_step d d'"
| others: "callbacks d' = callbacks d \<Longrightarrow> card_step d d'"

lemma one_card_create:
  assumes "create_callback req now who d = Inr (t, d')" and "one_card d"
  shows "one_card d'"
proof -
  consider "d' = d" | phone summary where
    "filter (open_card (cbq_tenant_id req) (cbq_call_id req)) (callbacks d) = []"
    "callbacks d' = callbacks d @ [new_card req phone summary now (next_id d)]"
    using create_callback_result [OF assms(1)] by blast
  then show ?thesis
  proof cases
    case 2
    have "length (filter (open_card tid cid) (callbacks d')) \<le> 1" for tid cid
    proof (cases "tid = cbq_tenant_id req \<and> cid = cbq_call_id req")
      case True
      then show ?thesis using 2 by simp
    next
      case False
      then have "\<not> open_card tid cid (new_card req phone summary now (next_id d))"
        by (auto simp: open_card_def new_card_def)
      then show ?thesis using 2(2) assms(2) by (simp add: one_card_def)
    qed
    then show ?thesis by (simp add: one_card_def)
  qed (use assms(2) in simp)
qed

lemma one_card_fewer:
  assumes "one_card d" and "callbacks d' = map f (callbacks d)"
    and "\<And>tid cid c. open_card tid cid (f c) \<Longrightarrow> open_card tid cid c"
  shows "one_card d'"
proof -
  have "length (filter (open_card tid cid) (map f cs)) \<le> length (filter (open_card tid cid) cs)" for tid cid cs
    using assms(3) by (induction cs) auto
  then show ?thesis unfolding one_card_def assms(2) using assms(1) by (meson one_card_def order_trans)
qed

lemma card_step_inv: "card_step d d' \<Longrightarrow> one_card d \<Longrightarrow> one_card d'"
proof (induction rule: card_step.induct)
  case (asked req now who d t d')
  then show ?case using one_card_create by blast
next
  case (missed tid sid phone summary now rang d t d')
  have nm: "one_card (note_missed i d)" for i using missed.prems by (simp add: one_card_def note_missed_def)
  have "d' = d \<or> (\<exists>i req t'. create_callback req now ACTOR_TELEPHONY (note_missed i d) = Inr (t', d'))"
    using missed.hyps
    by (auto simp: team_missed_def Let_def andthen_def raise_err_def split: option.splits if_splits sum.splits)
  then show ?case using one_card_create nm missed.prems by blast
next
  case (finished tid i who now d c d')
  let ?f = "\<lambda>c. if cb_id c = i then c\<lparr>cb_status := DoneCb, done_by := Some who, done_at := Some now\<rparr> else c"
  consider "d' = d" | "callbacks d' = map ?f (callbacks d)"
    using finished.hyps by (auto simp: mark_done_def Let_def raise_err_def upd_rows_def split: option.splits if_splits)
  then show ?case
  proof cases
    case 2
    then show ?thesis by (rule one_card_fewer [OF finished.prems]) (auto simp: open_card_def split: if_splits)
  qed (use finished.prems in simp)
next
  case (others d' d)
  then show ?case by (simp add: one_card_def)
qed

interpretation cards: machine card_step one_card
  by unfold_locales (rule card_step_inv)

text \<open>C35. One call, one card: whatever the agent, the line and the tablets do, in any order and as often as they like,
  short of bringing a finished card back, no call has two open cards.\<close>

theorem one_open_card:
  assumes "card_step\<^sup>*\<^sup>* d d'" and "callbacks d = []"
  shows "length (filter (open_card tid cid) (callbacks d')) \<le> 1"
  using cards.steps_inv [OF assms(1)] assms(2) by (simp add: one_card_def)

section \<open>A call nobody took\<close>

definition run_db :: "app_error + 'a \<times> db \<Rightarrow> db \<Rightarrow> db" where
  "run_db r d = (case r of Inl _ \<Rightarrow> d | Inr (_, d') \<Rightarrow> d')"

lemma run_db: "\<not> isl r \<Longrightarrow> \<exists>x. r = Inr (x, run_db r d)"
  by (cases r) (auto simp: run_db_def split: prod.split)

definition line_call :: call where
  "line_call =
     \<lparr>c_id = 40, c_tenant_id = 7, external_session_id = ''s1'', caller_id = Some ''+4972215551234'',
      started_at = 0, ended_at = None, duration_seconds = None, c_intent = None, c_outcome = None,
      transfer_reason = None, cost_cents = None, c_model = None, tool_calls = [], delete_after = 90\<rparr>"

definition line_db :: db where
  "line_db = empty_db\<lparr>tenants := [\<lparr>t_id = 7, t_name = ''Lotus'', t_timezone = \<lparr>base_offset = 0, transitions = []\<rparr>\<rparr>], calls := [line_call], next_id := 60, tx_now := 5\<rparr>"

definition line_end :: end_request where
  "line_end = \<lparr>en_tenant_id = 7, en_call_id = 40, en_outcome = Transferred, en_intent = None, en_cost_cents = None, en_model = None\<rparr>"

definition end_step :: "db \<Rightarrow> db" where "end_step d = run_db (end_call line_end 10 d) d"
definition missed_step :: "db \<Rightarrow> db" where "missed_step d = run_db (team_missed 7 ''s1'' None None 20 True d) d"

lemma line_steps:
  "\<exists>x. end_call line_end 10 line_db = Inr (x, end_step line_db)"
  "\<exists>t. team_missed 7 ''s1'' None None 20 True (end_step line_db) = Inr (Some t, missed_step (end_step line_db))"
  "\<exists>t. team_missed 7 ''s1'' None None 20 True line_db = Inr (Some t, missed_step line_db)"
  "\<exists>y. end_call line_end 10 (missed_step line_db) = Inr (y, end_step (missed_step line_db))"
proof -
  have some: "\<exists>t. r = Inr (Some t, run_db r d)" if "\<not> isl r" "case r of Inl _ \<Rightarrow> False | Inr (t, _) \<Rightarrow> t \<noteq> None"
    for r :: "app_error + callback_task option \<times> db" and d
    using that by (cases r) (auto simp: run_db_def split: prod.splits)
  have "\<not> isl (end_call line_end 10 line_db)" by code_simp
  then show "\<exists>x. end_call line_end 10 line_db = Inr (x, end_step line_db)" unfolding end_step_def by (rule run_db)
  have "\<not> isl (team_missed 7 ''s1'' None None 20 True (end_step line_db))"
    "case team_missed 7 ''s1'' None None 20 True (end_step line_db) of Inl _ \<Rightarrow> False | Inr (t, _) \<Rightarrow> t \<noteq> None" by code_simp+
  then show "\<exists>t. team_missed 7 ''s1'' None None 20 True (end_step line_db) = Inr (Some t, missed_step (end_step line_db))"
    unfolding missed_step_def by (rule some)
  have "\<not> isl (team_missed 7 ''s1'' None None 20 True line_db)"
    "case team_missed 7 ''s1'' None None 20 True line_db of Inl _ \<Rightarrow> False | Inr (t, _) \<Rightarrow> t \<noteq> None" by code_simp+
  then show "\<exists>t. team_missed 7 ''s1'' None None 20 True line_db = Inr (Some t, missed_step line_db)"
    unfolding missed_step_def by (rule some)
  have "\<not> isl (end_call line_end 10 (missed_step line_db))" by code_simp
  then show "\<exists>y. end_call line_end 10 (missed_step line_db) = Inr (y, end_step (missed_step line_db))"
    unfolding end_step_def by (rule run_db)
qed

theorem reports_commute_witness:
  "calls (missed_step (end_step line_db)) = calls (end_step (missed_step line_db)) \<and>
   map c_outcome (calls (missed_step (end_step line_db))) = [Some OCallback]"
proof -
  obtain x t1 t2 y where r: "end_call line_end 10 line_db = Inr (x, end_step line_db)"
    "team_missed 7 ''s1'' None None 20 True (end_step line_db) = Inr (Some t1, missed_step (end_step line_db))"
    "team_missed 7 ''s1'' None None 20 True line_db = Inr (Some t2, missed_step line_db)"
    "end_call line_end 10 (missed_step line_db) = Inr (y, end_step (missed_step line_db))" using line_steps by blast
  have "distinct (map c_id (calls line_db))" by code_simp
  moreover have "map c_outcome (calls (missed_step (end_step line_db))) = [Some OCallback]" by code_simp
  ultimately show ?thesis using reports_commute [OF r] by blast
qed

theorem missed_leaves_card_witness:
  "\<exists>t d'. team_missed 7 ''s1'' None None 20 True line_db = Inr (Some t, d') \<and> (\<exists>b \<in> set (callbacks d'). open_card 7 40 b \<and> t = task_of b)"
proof -
  have m: "missed_call 7 ''s1'' 20 line_db = Some line_call" by code_simp
  have "get_tenant line_db 7 \<noteq> None" "distinct (map c_id (calls line_db))" "number_or_none (caller_id line_call) \<noteq> None"
    "length (missed_summary True None (transfer_reason line_call)) \<le> 1000" by code_simp+
  moreover have "c_id line_call = 40" by (simp add: line_call_def)
  ultimately show ?thesis using missed_leaves_card [OF m, of None True None] by fastforce
qed

theorem one_open_card_witness:
  "length (filter (open_card 7 40) (callbacks (missed_step (missed_step line_db)))) \<le> 1 \<and> callbacks (missed_step line_db) \<noteq> []"
proof -
  obtain t where t: "team_missed 7 ''s1'' None None 20 True line_db = Inr (Some t, missed_step line_db)" using line_steps(3) by blast
  have "\<not> isl (team_missed 7 ''s1'' None None 20 True (missed_step line_db))" by code_simp
  then obtain u where u: "team_missed 7 ''s1'' None None 20 True (missed_step line_db) = Inr (u, missed_step (missed_step line_db))"
    unfolding missed_step_def [of "missed_step line_db"] using run_db by blast
  have run: "card_step\<^sup>*\<^sup>* line_db (missed_step (missed_step line_db))"
    using card_step.missed [OF t] card_step.missed [OF u] by (blast intro: converse_rtranclp_into_rtranclp)
  have "callbacks line_db = []" "callbacks (missed_step line_db) \<noteq> []" by code_simp+
  then show ?thesis using one_open_card [OF run] by blast
qed

section \<open>A card brought back\<close>

text \<open>\<open>reopen\<close> does not look for another open card of the call: a card is written, marked as done while the call still
  runs, written again when the team misses the call, and the first is brought back. The call has two open cards.\<close>

definition done_step :: "db \<Rightarrow> db" where "done_step d = run_db (mark_done 7 60 ''tablet'' 30 d) d"
definition reopen_step :: "db \<Rightarrow> db" where "reopen_step d = run_db (reopen 7 60 ''tablet'' 40 d) d"

lemma reopened_twice: "length (filter (open_card 7 40) (callbacks (reopen_step (missed_step (done_step (missed_step line_db)))))) = 2"
  by code_simp

end
