(* ===== verification/Turn.thy ===== *)
theory Turn
  imports Allergies CallRun Callbacks
begin

text \<open>
  One sentence of the guest, whole (\<open>api/agent/loop.py\<close>): what the core hears before the model is asked, the model's
  answers and tools up to a sentence, a handover or a limit, and who takes the call when the core cannot. The
  adapters of the tools that write (\<open>api/agent/dispatch.py\<close>) run the operations of the domain; the tools that only
  read, the model and the clock are what they answer. What is sent to the model is left out, since its answers are
  arbitrary.
\<close>

section \<open>What the guest hears\<close>

definition SAY_TIMEOUT :: str where
  "SAY_TIMEOUT = ''Wir sind jetzt schon eine Weile dran. Ich gebe an das Team weiter.''"
definition SAY_STUCK :: str where "SAY_STUCK = ''Da komme ich gerade nicht weiter. Ich gebe an das Team weiter.''"
definition SAY_ESCALATION :: str where "SAY_ESCALATION = ''Ich verbinde Sie sofort mit dem Team.''"
definition SAY_NOT_A_PERSON :: str where "SAY_NOT_A_PERSON = ''Ich bin ein KI-Assistent, kein Mensch.''"
definition SAY_TEAM_OFFER :: str where
  "SAY_TEAM_OFFER = ''M'' @ [oe] @ ''chten Sie lieber mit jemandem aus dem Team sprechen?''"
definition SAY_HUMAN_ANSWER :: str where "SAY_HUMAN_ANSWER = SAY_NOT_A_PERSON @ '' '' @ SAY_TEAM_OFFER"
definition SAY_NOT_UNDERSTOOD :: str where
  "SAY_NOT_UNDERSTOOD = ''Da komme ich gerade nicht weiter. Ich gebe an das Team weiter.''"
definition SAY_CALLBACK_NUMBER :: str where
  "SAY_CALLBACK_NUMBER = ''Unser Team ist gerade nicht erreichbar. Unter welcher Telefonnummer mit '' @
     ''Vorwahl darf es Sie zur'' @ [ue] @ ''ckrufen?''"
definition CALLBACK_NUMBER_ASKS :: int where "CALLBACK_NUMBER_ASKS = 2"
definition SAY_NOBODY_REACHABLE :: str where
  "SAY_NOBODY_REACHABLE = ''Ich kann Ihnen gerade leider nicht weiterhelfen und erreiche im Restaurant '' @
     ''niemanden. Bitte rufen Sie sp'' @ [ae] @ ''ter noch einmal an.''"
definition SAY_ORDER_NOT_PLACED :: str where "SAY_ORDER_NOT_PLACED = ''Ihre Bestellung ist damit noch nicht aufgegeben.''"
definition SAY_TABLE_NOT_BOOKED :: str where
  "SAY_TABLE_NOT_BOOKED = ''Ihre Reservierung ist damit noch nicht best'' @ [ae] @ ''tigt.''"
definition SAY_ALLERGENS_BEYOND :: str where
  "SAY_ALLERGENS_BEYOND = ''Dazu kann ich Ihnen keine verl'' @ [ae] @ ''ssliche Auskunft geben.''"
definition SAY_ALLERGENS_UNKNOWN :: str where
  "SAY_ALLERGENS_UNKNOWN = ''Das kann ich Ihnen nicht sicher sagen, dazu ist bei uns nichts hinterlegt.''"
definition SAY_ORDER_PLACED :: str where "SAY_ORDER_PLACED = ''Ihre Bestellung ist aufgegeben.''"
definition SAY_ORDER_WAITS :: str where
  "SAY_ORDER_WAITS = ''Ihre Bestellung ist aufgenommen, das Team best'' @ [ae] @ ''tigt sie gleich noch.''"
definition SAY_TABLE_BOOKED :: str where "SAY_TABLE_BOOKED = ''Ihre Reservierung ist best'' @ [ae] @ ''tigt.''"
definition SAY_BOOKED_GOODBYE :: str where
  "SAY_BOOKED_GOODBYE = ''Vielen Dank f'' @ [ue] @ ''r Ihren Anruf und bis dann.''"
definition SAY_WHICH_NUMBER :: str where
  "SAY_WHICH_NUMBER = ''Welche Nummer meinen Sie? Bitte sagen Sie mir nur die eine Nummer.''"
definition SAY_WHAT_CAN_I_DO :: str where "SAY_WHAT_CAN_I_DO = ''Was kann ich f'' @ [ue] @ ''r Sie tun?''"
definition SAY_HOW_TO_STOP :: str where
  "SAY_HOW_TO_STOP = ''Sie k'' @ [oe] @ ''nnen die Aufnahme jederzeit mit den Worten Aufnahme stoppen beenden.''"
definition SAY_RECORDING_STOPPED :: str where
  "SAY_RECORDING_STOPPED = ''Die Aufnahme ist gestoppt und gel'' @ [oe] @ ''scht.''"
definition RECORDING_WITHDRAWN :: str where "RECORDING_WITHDRAWN = ''Aufnahme stoppen''"

section \<open>What the team reads on a card\<close>

definition HANDOFF_SUMMARIES :: "(str \<times> str) list" where
  "HANDOFF_SUMMARIES = [(''complaint'', ''Kunde hat sich beschwert.''),
     (''human_requested'', ''Kunde wollte mit einem Menschen sprechen.''),
     (''cancellation'', ''Kunde wollte etwas stornieren.''),
     (''not_understood'', ''Anliegen konnte automatisch nicht gekl'' @ [ae] @ ''rt werden.'')]"
definition DEFAULT_HANDOFF_SUMMARY :: str where
  "DEFAULT_HANDOFF_SUMMARY = ''Anruf konnte nicht automatisch abgeschlossen werden.''"
definition SUMMARY_TEAM_TABLE :: str where
  "SUMMARY_TEAM_TABLE = ''Reservierungswunsch, vom Team zu best'' @ [ae] @ ''tigen:''"
definition SUMMARY_OPEN_ORDER :: str where "SUMMARY_OPEN_ORDER = ''Offene Bestellung, nicht aufgegeben:''"
definition SUMMARY_ALLERGENS :: str where
  "SUMMARY_ALLERGENS = ''Frage zu Allergenen '' @ [ue] @ ''ber die hinterlegten Angaben hinaus, vor einer '' @
     ''Bestellung zu kl'' @ [ae] @ ''ren.''"
definition SUMMARY_KITCHEN_NOTE :: str where
  "SUMMARY_KITCHEN_NOTE = ''Hinweis f'' @ [ue] @ ''r die K'' @ [ue] @ ''che nicht vollst'' @ [ae] @
     ''ndig aufgenommen, mit dem Gast zu kl'' @ [ae] @ ''ren.''"
definition SUMMARY_OPEN_TABLE :: str where
  "SUMMARY_OPEN_TABLE = ''Offene Reservierung, nicht best'' @ [ae] @ ''tigt:''"
definition summary_remedy_booked :: "str \<Rightarrow> str" where
  "summary_remedy_booked remedy = ''Beschwerde, Gast hat zugestimmt, bitte ausf'' @ [ue] @ ''hren: '' @ remedy @ ''.''"
definition summary_remedy_open :: "str \<Rightarrow> str" where
  "summary_remedy_open remedy = ''Kunde hat sich beschwert, Angebot nicht angenommen: '' @ remedy @ ''.''"
definition BOOKED :: str where "BOOKED = '' Bereits gebucht: ''"
definition SUMMARY_DETAIL_MAX :: nat where "SUMMARY_DETAIL_MAX = 400"
definition SUMMARY_MAX :: int where "SUMMARY_MAX = 1000"

text \<open>Python's \<open>s or t\<close> on texts.\<close>

definition or_else :: "str option \<Rightarrow> str \<Rightarrow> str" where
  "or_else s t = (case s of Some (c # cs) \<Rightarrow> c # cs | _ \<Rightarrow> t)"

definition handoff_summary :: "str \<Rightarrow> str option \<Rightarrow> str option \<Rightarrow> str option \<Rightarrow> str" where
  "handoff_summary reason detail booked base =
     (let b = or_else base (case map_of HANDOFF_SUMMARIES reason of Some s \<Rightarrow> s | None \<Rightarrow> DEFAULT_HANDOFF_SUMMARY);
          b = (case detail of Some (c # cs) \<Rightarrow> b @ '' Kunde sagte: '' @ take SUMMARY_DETAIL_MAX (c # cs) | _ \<Rightarrow> b)
      in case booked of Some (c # cs) \<Rightarrow> b @ BOOKED @ (c # cs) | _ \<Rightarrow> b)"

text \<open>The open order: with number, name, options and the notes the kitchen would read, as far as there is room.\<close>

definition cart_note :: "conv \<Rightarrow> cart_line \<Rightarrow> str option" where
  "cart_note s l =
     (case noted None (map_option JStr (cl_note l))
        (filter (\<lambda>a. ingredient a \<noteq> [] \<and> al_item a = Some (cl_item l)) (cv_allergies s)) NOTE_MAX of
      Some (JStr n) \<Rightarrow> Some n | _ \<Rightarrow> None)"

definition cart_order_note :: "conv \<Rightarrow> str option" where
  "cart_order_note s =
     (case noted None None (filter (\<lambda>a. ingredient a \<noteq> [] \<and>
         (case al_item a of None \<Rightarrow> True | Some i \<Rightarrow> i \<notin> cl_item ` set (cv_cart s))) (cv_allergies s)) NOTE_MAX of
      Some (JStr n) \<Rightarrow> Some n | _ \<Rightarrow> None)"

definition line_tail :: "conv \<Rightarrow> cart_line \<Rightarrow> str" where
  "line_tail s l =
     (let extra = py_join ''; '' (map (\<lambda>c. ch_group c @ '': '' @ ch_name c) (cl_options l) @
            (case cart_note s l of Some (c # cs) \<Rightarrow> [c # cs] | _ \<Rightarrow> []))
      in if extra = [] then [] else '' ('' @ extra @ '')'')"

definition seen_label :: "conv \<Rightarrow> cart_line \<Rightarrow> str \<times> str" where
  "seen_label s l = (case map_of (cv_seen s) (cl_item l) of None \<Rightarrow> ([], []) | Some x \<Rightarrow> (si_number x, si_name x))"

definition full_line :: "conv \<Rightarrow> cart_line \<Rightarrow> str" where
  "full_line s l =
     (let (number, name) = seen_label s l;
          dish = or_else (Some (py_join '' '' (filter (\<lambda>x. x \<noteq> []) [number, name]))) ''Gericht''
      in str_int (cl_quantity l) @ ''x '' @ dish @ line_tail s l)"

definition short_line :: "conv \<Rightarrow> cart_line \<Rightarrow> str" where
  "short_line s l =
     (let (number, name) = seen_label s l
      in str_int (cl_quantity l) @ ''x '' @ or_else (Some number) (or_else (Some name) ''Gericht'') @ line_tail s l)"

definition counted_rest :: "str list \<Rightarrow> nat \<Rightarrow> str" where
  "counted_rest short kept =
     (let rest = length short - kept
      in py_join '', '' (take kept short @
           (if rest = 0 then [] else [str_int (int rest) @ '' weitere Position'' @ (if 1 < rest then ''en'' else [])])))"

definition order_lines :: "conv \<Rightarrow> int \<Rightarrow> str" where
  "order_lines s room =
     (let whole = (case cart_order_note s of Some (c # cs) \<Rightarrow> [''f'' @ [ue] @ ''r die ganze Bestellung: '' @ c # cs] | _ \<Rightarrow> []);
          full = py_join '', '' (map (full_line s) (cv_cart s) @ whole);
          short = map (short_line s) (cv_cart s) @ whole
      in if int (length full) \<le> room then full
         else case find (\<lambda>k. int (length (counted_rest short k)) \<le> room) (rev [0..<Suc (length short)]) of
             Some k \<Rightarrow> counted_rest short k
           | None \<Rightarrow> take (nat room) (counted_rest short 0))"

definition with_open_order :: "conv \<Rightarrow> str \<Rightarrow> int \<Rightarrow> str" where
  "with_open_order s summary reserve =
     (if cv_cart s = [] then summary
      else let head = summary @ '' '' @ SUMMARY_OPEN_ORDER @ '' ''
        in head @ order_lines s (SUMMARY_MAX - reserve - int (length head) - 1) @ ''.'')"

text \<open>Health data stays off a card: what \<open>mentions_allergy\<close> reads, other words for it, an ingredient of this call.\<close>

definition reacts_to :: "str \<Rightarrow> bool" where
  "reacts_to s \<longleftrightarrow> py_startswith s ''reagier'' \<and>
     (case dropWhile word_char (drop 7 s) of [] \<Rightarrow> False
      | c # cs \<Rightarrow> py_space c \<and> py_startswith (dropWhile py_space cs) ''auf'')"

definition darf_kein :: "str \<Rightarrow> bool" where
  "darf_kein s \<longleftrightarrow> py_startswith s ''darf'' \<and>
     (case drop 4 s of [] \<Rightarrow> False | c # cs \<Rightarrow> py_space c \<and> py_startswith (dropWhile py_space cs) ''kein'')"

definition health_on_a_card :: "str \<Rightarrow> bool" where
  "health_on_a_card text \<longleftrightarrow>
     (let s = py_lower text
      in says_one [''z'' @ [oe] @ ''liak'', ''zoeliak''] s \<or>
         list_ex (\<lambda>i. reacts_to (drop i s) \<or> darf_kein (drop i s) \<or> word_at s i ''meiden'') [0..<length s])"

definition names_health :: "wish_words \<Rightarrow> conv \<Rightarrow> str \<Rightarrow> bool" where
  "names_health W s text \<longleftrightarrow> mentions W text \<or> health_on_a_card text \<or>
     list_ex (\<lambda>a. ingredient a \<noteq> [] \<and> py_in (casefold (ingredient a)) (casefold text)) (cv_allergies s)"

definition remedy_card :: "(str \<Rightarrow> str) \<Rightarrow> remedy_offer \<Rightarrow> str" where
  "remedy_card sentence r = sentence (ro_name r @ '', '' @ spoken_euro (ro_cents r))"

section \<open>The loop and its tools\<close>

datatype llm_act = Says str | Calls llm_call

record llm_turn =
  lt_act :: llm_act
  lt_patch :: "(str \<times> json) list"
  lt_failure :: "str option"
  lt_cart :: "json option"

text \<open>What a call meets: readers, the answers of the model (\<open>None\<close> is an \<open>LLMError\<close>) and of the tools that only
  read, the clock at its \<open>n\<close>-th reading, the settings, the rules of the catalogue, the free space of the disk.\<close>

record env =
  en_readers :: readers
  en_wishes :: wish_words
  en_claims :: "conv \<Rightarrow> str \<Rightarrow> bool"
  en_llm :: "nat \<Rightarrow> llm_turn option"
  en_reads :: "str \<Rightarrow> json \<Rightarrow> db \<Rightarrow> app_error + json \<times> str option"
  en_draft_args :: "json \<Rightarrow> draft_request option"
  en_table_args :: "json \<Rightarrow> create_reservation_request option"
  en_wish_args :: "json \<Rightarrow> (int \<times> instant) option"
  en_confirm_key :: "json \<Rightarrow> str"
  en_hint :: "str \<Rightarrow> json \<Rightarrow> str"
  en_clock :: "nat \<Rightarrow> int"
  en_started :: int
  en_max_call :: int
  en_deadline :: "int option"
  en_now :: instant
  en_zone :: zone
  en_rules :: "complaint_rule list"
  en_min_free :: int
  en_free :: "int option"
  en_recording_question :: str

text \<open>\<open>ConversationLoop\<close> with its session and state: how often clock and model were asked, the ladder, the turns in a
  row without a word understood.\<close>

record loop =
  lo_line :: call_line
  lo_house :: house
  lo_ladder :: ladder
  lo_unheard :: int
  lo_ticks :: nat
  lo_asked :: nat

type_synonym reply = "str list \<times> bool"

definition conv_of :: "loop \<Rightarrow> conv" where "conv_of w = ln_conv (lo_line w)"
definition db_of :: "loop \<Rightarrow> db" where "db_of w = h_db (lo_house w)"
definition set_conv :: "(conv \<Rightarrow> conv) \<Rightarrow> loop \<Rightarrow> loop" where "set_conv f w = w\<lparr>lo_line := on_conv f (lo_line w)\<rparr>"
definition set_line :: "(call_line \<Rightarrow> call_line) \<Rightarrow> loop \<Rightarrow> loop" where "set_line f w = w\<lparr>lo_line := f (lo_line w)\<rparr>"
definition set_db :: "db \<Rightarrow> loop \<Rightarrow> loop" where "set_db d w = w\<lparr>lo_house := (lo_house w)\<lparr>h_db := d\<rparr>\<rparr>"
definition on_ladder :: "(ladder \<Rightarrow> ladder) \<Rightarrow> loop \<Rightarrow> loop" where "on_ladder f w = w\<lparr>lo_ladder := f (lo_ladder w)\<rparr>"
definition tick :: "loop \<Rightarrow> loop" where "tick w = w\<lparr>lo_ticks := Suc (lo_ticks w)\<rparr>"
definition clock_now :: "env \<Rightarrow> loop \<Rightarrow> int" where "clock_now E w = en_clock E (lo_ticks w)"

definition late :: "env \<Rightarrow> loop \<Rightarrow> bool" where
  "late E w \<longleftrightarrow> en_max_call E < clock_now E w - en_started E"

definition turn_over :: "env \<Rightarrow> int option \<Rightarrow> loop \<Rightarrow> bool" where
  "turn_over E started w \<longleftrightarrow>
     (case (started, en_deadline E) of (Some t, Some d) \<Rightarrow> d - (clock_now E w - t) \<le> 0 | _ \<Rightarrow> False)"

definition turn_tick :: "env \<Rightarrow> int option \<Rightarrow> loop \<Rightarrow> loop" where
  "turn_tick E started w = (if started = None \<or> en_deadline E = None then w else tick w)"

section \<open>api/agent/dispatch.py\<close>

definition reservation_status_str :: "reservation_status \<Rightarrow> str" where
  "reservation_status_str st = (case st of RDraft \<Rightarrow> ''draft'' | RConfirmed \<Rightarrow> ''confirmed'' | RCancelled \<Rightarrow> ''cancelled'')"

definition reservation_draft_json :: "reservation_draft \<Rightarrow> json" where
  "reservation_draft_json a = JObj [(''reservation_id'', JId (rd_reservation_id a)),
     (''status'', JStr (reservation_status_str (rd_status a))), (''reserved_for'', JTime (rd_reserved_for a)),
     (''party_size'', JInt (rd_party_size a)), (''guest_name'', JStr (rd_guest_name a)), (''phone'', JStr (rd_phone a)),
     (''note'', jopt JStr (rd_note a)), (''readback'', JStr (rd_readback a))]"

definition callback_status_str :: "callback_status \<Rightarrow> str" where
  "callback_status_str st = (case st of OpenCb \<Rightarrow> ''open'' | DoneCb \<Rightarrow> ''done'')"

definition callback_json :: "callback_task \<Rightarrow> json" where
  "callback_json t = JObj [(''callback_id'', JId (ct_callback_id t)), (''status'', JStr (callback_status_str (ct_status t))),
     (''phone'', JStr (ct_phone t)), (''reason'', JStr (reason_str (ct_reason t))), (''summary'', JStr (ct_summary t))]"

definition transfer_json :: "transfer_result \<Rightarrow> json" where
  "transfer_json t = JObj [(''transfer_to'', JStr (tr_transfer_to t)), (''available'', JBool (tr_available t))]"

definition CALLBACK_REASONS :: "(str \<times> callback_reason) list" where
  "CALLBACK_REASONS = map (\<lambda>r. (reason_str r, r)) [Complaint, NotUnderstood, HumanRequested, OutOfScope]"

definition TRANSFER_REASONS :: "(str \<times> transfer_reason_kind) list" where
  "TRANSFER_REASONS = map (\<lambda>r. (transfer_reason_str r, r)) [TComplaint, TNotUnderstood, THumanRequested, TOutOfScope, TCancellation]"

text \<open>The requests the adapters build; \<open>None\<close> is a ValidationError.\<close>

definition reason_in :: "(str \<times> 'r) list \<Rightarrow> json \<Rightarrow> 'r option" where
  "reason_in rs args = (case jget ''reason'' args of Some (JStr s) \<Rightarrow> map_of rs s | _ \<Rightarrow> None)"

definition callback_args :: "uuid \<Rightarrow> uuid \<Rightarrow> json \<Rightarrow> callback_request option" where
  "callback_args tid cid args =
     (case (jget ''phone'' args, reason_in CALLBACK_REASONS args, jget ''summary'' args) of
        (Some (JStr p), Some r, Some (JStr s)) \<Rightarrow>
          let q = \<lparr>cbq_tenant_id = tid, cbq_call_id = cid, cbq_phone = p, cbq_reason = r, cbq_summary = s\<rparr>
          in if callback_request_ok q then Some q else None
      | _ \<Rightarrow> None)"

datatype confirm_entity = ReservationEntity | OrderEntity

definition confirm_args :: "env \<Rightarrow> uuid \<Rightarrow> uuid \<Rightarrow> json \<Rightarrow> (confirm_entity \<times> confirm_request) option" where
  "confirm_args E tid cid args =
     (case (jget ''entity'' args, id_of (jget ''entity_id'' args)) of
        (Some (JStr e), Some i) \<Rightarrow>
          let q = \<lparr>cq_tenant_id = tid, cq_call_id = cid, cq_entity_id = i, cq_idempotency_key = en_confirm_key E args\<rparr>
          in if e = ''order'' then Some (OrderEntity, q)
             else if e = ''reservation'' then Some (ReservationEntity, q) else None
      | _ \<Rightarrow> None)"

definition answered_by :: "('a \<Rightarrow> json) \<Rightarrow> ('a \<Rightarrow> str option) \<Rightarrow> db \<Rightarrow> app_error + 'a \<times> db \<Rightarrow> tool_result \<times> db" where
  "answered_by js say d x = (case x of Inl e \<Rightarrow> (failed_result e, d) | Inr (a, d') \<Rightarrow> (ok_result (js a) (say a), d'))"

definition invalid_args :: "env \<Rightarrow> str \<Rightarrow> json \<Rightarrow> tool_result" where
  "invalid_args E name args = \<lparr>tr_ok = False, tr_data = JObj [], tr_say = None,
     tr_error_code = Some (err_code InvalidInput), tr_hint = Some (en_hint E name args)\<rparr>"

definition READING_TOOLS :: "str list" where
  "READING_TOOLS = [''get_service_status'', ''check_slot'', ''search_menu'', ''get_item_details'', ''check_delivery'', ''find_customer'']"

definition run_tool :: "env \<Rightarrow> uuid \<Rightarrow> uuid \<Rightarrow> str \<Rightarrow> json \<Rightarrow> db \<Rightarrow> tool_result \<times> db" where
  "run_tool E tid cid name args d =
     (if name = ''transfer_to_team''
      then (case reason_in TRANSFER_REASONS args of None \<Rightarrow> (invalid_args E name args, d)
        | Some r \<Rightarrow> answered_by transfer_json (\<lambda>_. None) d (transfer_to_team tid cid r (en_now E) d))
      else if name = ''create_callback''
      then (case callback_args tid cid args of None \<Rightarrow> (invalid_args E name args, d)
        | Some q \<Rightarrow> answered_by callback_json (\<lambda>t. Some (ct_say t)) d (create_callback q (en_now E) ''agent'' d))
      else if name = ''draft_order''
      then (case en_draft_args E args of None \<Rightarrow> (invalid_args E name args, d)
        | Some q \<Rightarrow> dispatch_draft (q\<lparr>dr_tenant_id := tid, dr_call_id := cid\<rparr>) (en_now E) d)
      else if name = ''create_reservation''
      then (case en_table_args E args of None \<Rightarrow> (invalid_args E name args, d)
        | Some q \<Rightarrow> answered_by reservation_draft_json (\<lambda>_. None) d
            (create_reservation (q\<lparr>cr_tenant_id := tid, cr_call_id := cid\<rparr>) (en_now E) d))
      else if name = ''confirm''
      then (case confirm_args E tid cid args of None \<Rightarrow> (invalid_args E name args, d)
        | Some (OrderEntity, q) \<Rightarrow> dispatch_confirm q (en_now E) d
        | Some (ReservationEntity, q) \<Rightarrow> answered_by confirmation_json (\<lambda>_. None) d (confirm_table q (en_now E) d))
      else if name \<in> set READING_TOOLS
      then (case en_reads E name args d of Inl e \<Rightarrow> (failed_result e, d) | Inr (j, s) \<Rightarrow> (ok_result j s, d))
      else (failed_result \<lparr>err_kind = InvalidInput, err_say = None\<rparr>, d))"

text \<open>\<open>append_tool_call\<close>, with the tenant in the WHERE. Call and tenant never come from the model.\<close>

definition append_tool_call :: "uuid \<Rightarrow> uuid \<Rightarrow> str \<Rightarrow> tool_result \<Rightarrow> db \<Rightarrow> db" where
  "append_tool_call tid cid name r d =
     d\<lparr>calls := upd_rows (\<lambda>c. c_id c = cid \<and> c_tenant_id c = tid)
        (\<lambda>c. c\<lparr>tool_calls := tool_calls c @ [tool_call.make name (tr_ok r)
           (if or_else (tr_error_code r) [] = [] then None else tr_error_code r)]\<rparr>) (calls d)\<rparr>"

definition own_args :: "json \<Rightarrow> json" where
  "own_args args = (case args of JObj kvs \<Rightarrow> JObj (filter (\<lambda>(k, v). k \<notin> {''call_id'', ''tenant_id''}) kvs) | _ \<Rightarrow> args)"

definition dispatch :: "env \<Rightarrow> str \<Rightarrow> json \<Rightarrow> loop \<Rightarrow> tool_result \<times> loop" where
  "dispatch E name args w =
     (let tid = cv_tenant_id (conv_of w); cid = cv_call_id (conv_of w);
          (r, d) = run_tool E tid cid name (own_args args) (db_of w)
      in (r, set_db (append_tool_call tid cid name r d) w))"

definition log_refused :: "str \<Rightarrow> tool_result \<Rightarrow> loop \<Rightarrow> loop" where
  "log_refused name r w =
     set_db (append_tool_call (cv_tenant_id (conv_of w)) (cv_call_id (conv_of w)) name r (db_of w)) w"

definition take_result :: "env \<Rightarrow> str \<Rightarrow> tool_result \<Rightarrow> json \<Rightarrow> loop \<Rightarrow> loop" where
  "take_result E name r args w = set_conv (apply_tool_result (en_readers E) name r args) w"

definition tells :: "env \<Rightarrow> str \<Rightarrow> loop \<Rightarrow> loop" where
  "tells E say w = set_conv (note_said (en_readers E) say) w"

section \<open>The team takes over\<close>

definition phone_slot :: "conv \<Rightarrow> json option" where
  "phone_slot s = (case map_of (cv_slots s) ''phone'' of None \<Rightarrow> None | Some j \<Rightarrow> if json_truth j then Some j else None)"

definition handoff :: "env \<Rightarrow> str \<Rightarrow> str \<Rightarrow> str option \<Rightarrow> str option \<Rightarrow> bool \<Rightarrow> loop \<Rightarrow> reply \<times> loop" where
  "handoff E fallback reason detail summary ask_number w =
     (let detail = (case detail of None \<Rightarrow> None
            | Some t \<Rightarrow> if t \<noteq> [] \<and> names_health (en_wishes E) (conv_of w) t then None else Some t);
          args = JObj [(''reason'', JStr reason)];
          (transfer, w) = dispatch E ''transfer_to_team'' args w;
          w = take_result E ''transfer_to_team'' transfer (JObj []) w;
          card = handoff_summary reason detail (cv_booking_say (conv_of w)) summary
      in if tr_ok transfer \<and> truth_of (jget ''available'' (tr_data transfer))
         then (([or_else (tr_say transfer) fallback], True), set_line (\<lambda>l. l\<lparr>ln_handoff := Some card\<rparr>) w)
         else let phone = phone_slot (conv_of w);
            (task, w) = (case phone of None \<Rightarrow> (None, w)
              | Some p \<Rightarrow>
                  let (r, w) = dispatch E ''create_callback'' (JObj [(''phone'', p),
                        (''reason'', JStr (if map_of CALLBACK_REASONS reason = None then ''human_requested'' else reason)),
                        (''summary'', JStr card)]) w
                  in (Some r, take_result E ''create_callback'' r (JObj []) w))
          in case task of
               Some r \<Rightarrow> if tr_ok r then (([or_else (tr_say r) fallback], True), w)
                 else (([SAY_NOBODY_REACHABLE], True), set_conv (\<lambda>s. s\<lparr>cv_stage := SEnded\<rparr>) w)
             | None \<Rightarrow>
                 if ask_number \<and> summary \<noteq> None
                 then (([SAY_CALLBACK_NUMBER], False), set_line (\<lambda>l. l\<lparr>ln_waits := summary, ln_wait_reason := reason\<rparr>) w)
                 else (([SAY_NOBODY_REACHABLE], True), set_conv (\<lambda>s. s\<lparr>cv_stage := SEnded\<rparr>) w))"

definition when_str :: "zone \<Rightarrow> instant \<Rightarrow> str" where
  "when_str z t =
     (let dt = astimezone z t; d = ymd_of_date (ldate dt)
      in two_digits (ymd_day d) @ ''.'' @ two_digits (ymd_month d) @ ''.'' @ str_int (ymd_year d) @ '' '' @ strftime_hm dt)"

definition open_table :: "env \<Rightarrow> loop \<Rightarrow> str option" where
  "open_table E w =
     (let s = conv_of w in
      if cv_stage s \<noteq> SReadback then None
      else case cv_reservation_id s of None \<Rightarrow> None
        | Some i \<Rightarrow> map_option (\<lambda>r. str_int (party_size r) @ '' Personen, '' @ when_str (en_zone E) (reserved_for r) @
              '' Uhr, Name '' @ guest_name r) (get_reservation (db_of w) i))"

definition nonempty :: "str option list \<Rightarrow> str list" where
  "nonempty xs = List.map_filter (\<lambda>x. case x of Some (c # cs) \<Rightarrow> Some (c # cs) | _ \<Rightarrow> None) xs"

definition allergens_to_team ::
  "env \<Rightarrow> str option \<Rightarrow> str option \<Rightarrow> str option \<Rightarrow> str \<Rightarrow> loop \<Rightarrow> reply \<times> loop" where
  "allergens_to_team E dish lead table card_text w =
     (let summary = card_text @ (case dish of Some (c # cs) \<Rightarrow> '' Gericht: '' @ (c # cs) @ ''.'' | _ \<Rightarrow> []);
          table = (case open_table E w of Some t \<Rightarrow> Some t | None \<Rightarrow> table);
          summary = (case table of Some (c # cs) \<Rightarrow> summary @ '' '' @ SUMMARY_OPEN_TABLE @ '' '' @ (c # cs) @ ''.'' | _ \<Rightarrow> summary);
          booked = (case cv_booking_say (conv_of w) of Some (c # cs) \<Rightarrow> length (BOOKED @ c # cs) | _ \<Rightarrow> 0);
          reserve = int (booked + length SUMMARY_MISSED + 1);
          ((say, ended), w) = handoff E SAY_ESCALATION ''out_of_scope'' None
             (Some (with_open_order (conv_of w) summary reserve)) True w;
          not_booked = (case table of Some (c # cs) \<Rightarrow> Some SAY_TABLE_NOT_BOOKED
             | _ \<Rightarrow> if cv_cart (conv_of w) \<noteq> [] then Some SAY_ORDER_NOT_PLACED else None);
          say = nonempty (lead # not_booked # map Some say)
      in ((say, ended), if ended then w else tells E (py_join '' '' say) w))"

text \<open>\<open>_table_parts\<close>; \<open>None\<close> where the arguments do not validate.\<close>

definition table_parts :: "env \<Rightarrow> json \<Rightarrow> conv \<Rightarrow> str option" where
  "table_parts E args s =
     (case en_wish_args E args of None \<Rightarrow> None
      | Some (n, t) \<Rightarrow>
          let names = List.map_filter id [jget ''guest_name'' args, map_of (cv_slots s) ''guest_name''];
              name = find (\<lambda>j. rd_name_said (en_readers E) j (cv_said_words s)) names
          in Some (py_join '', '' ([str_int n @ '' Personen'', when_str (en_zone E) t @ '' Uhr''] @
               (case text_of name of [] \<Rightarrow> [] | c # cs \<Rightarrow> [''Name '' @ (c # cs)]))))"

definition note_to_team :: "env \<Rightarrow> llm_call \<Rightarrow> loop \<Rightarrow> reply \<times> loop" where
  "note_to_team E call w =
     (let w = set_line (\<lambda>l. l\<lparr>ln_held := None\<rparr>) w;
          table = (if tc_name call = ''create_reservation'' then table_parts E (tc_args call) (conv_of w) else None);
          w = (if tc_name call = ''create_reservation'' then w
               else case cart_lines (en_readers E) (case jget ''items'' (tc_args call) of None \<Rightarrow> JNull | Some j \<Rightarrow> j) of
                 None \<Rightarrow> w | Some ls \<Rightarrow> set_conv (\<lambda>s. s\<lparr>cv_cart := ls\<rparr>) w)
      in allergens_to_team E None None table SUMMARY_KITCHEN_NOTE w)"

text \<open>\<open>_table_to_team\<close>; \<open>None\<close> is the error of arguments that do not validate, which the tool has read before.\<close>

definition table_to_team :: "env \<Rightarrow> json \<Rightarrow> str option \<Rightarrow> loop \<Rightarrow> (reply \<times> loop) option" where
  "table_to_team E args lead w =
     (case table_parts E args (conv_of w) of None \<Rightarrow> None
      | Some parts \<Rightarrow>
          let card = with_open_order (conv_of w) (SUMMARY_TEAM_TABLE @ '' '' @ parts @ ''.'') 0;
              leads = [lead, if cv_cart (conv_of w) \<noteq> [] then Some SAY_ORDER_NOT_PLACED else None];
              (task, w) = (case phone_slot (conv_of w) of None \<Rightarrow> (None, w)
                | Some p \<Rightarrow>
                    let (r, w) = dispatch E ''create_callback''
                          (JObj [(''phone'', p), (''reason'', JStr ''out_of_scope''), (''summary'', JStr card)]) w
                    in (Some r, take_result E ''create_callback'' r (JObj []) w))
          in Some (case task of
               Some r \<Rightarrow> if tr_ok r then ((nonempty (leads @ [tr_say r]), True), w)
                 else let ((say, ended), w) = handoff E SAY_ESCALATION ''out_of_scope'' (Some card) None False w
                   in ((nonempty (leads @ map Some say), ended), w)
             | None \<Rightarrow> let ((say, ended), w) = handoff E SAY_ESCALATION ''out_of_scope'' (Some card) None False w
                 in ((nonempty (leads @ map Some say), ended), w)))"

section \<open>A complaint with a fixed answer\<close>

definition empty_but_phone :: "call_line \<Rightarrow> bool" where
  "empty_but_phone l \<longleftrightarrow> (let s = ln_conv l in
     cv_stage s = SStart \<and> set (map fst (cv_slots s)) = {''phone''} \<and> cv_cart s = [] \<and> cv_seen s = [] \<and>
     ln_held l = None \<and> cv_allergies s = [] \<and> \<not> cv_allergy_talk s)"

definition offer_remedy :: "env \<Rightarrow> str \<Rightarrow> loop \<Rightarrow> (reply \<times> loop) option" where
  "offer_remedy E text w =
     (if \<not> empty_but_phone (lo_line w) \<or> names_health (en_wishes E) (conv_of w) text \<or>
         \<not> only_a_complaint (ww_words (en_wishes E)) text then None
      else map_option (\<lambda>r. (([cpr_offer_say r], False), tells E (cpr_offer_say r)
             (set_line (\<lambda>l. l\<lparr>ln_offer := Some \<lparr>ro_rule_id = cpr_id r, ro_name = cpr_name r, ro_cents = cpr_cents r,
                ro_offer_say = cpr_offer_say r, ro_granted_say = cpr_granted_say r, ro_complaint = text\<rparr>\<rparr>) w)))
           (matching_rule (en_rules E) (cv_tenant_id (conv_of w)) text))"

definition complaint_card :: "env \<Rightarrow> remedy_offer \<Rightarrow> (str \<Rightarrow> str) \<Rightarrow> loop \<Rightarrow> tool_result \<times> loop" where
  "complaint_card E r sentence w =
     (let (task, w) = dispatch E ''create_callback''
            (JObj [(''phone'', case map_of (cv_slots (conv_of w)) ''phone'' of None \<Rightarrow> JNull | Some p \<Rightarrow> p),
               (''reason'', JStr ''complaint''),
               (''summary'', JStr (handoff_summary ''complaint'' (Some (ro_complaint r)) None (Some (remedy_card sentence r))))]) w
      in (task, take_result E ''create_callback'' task (JObj []) w))"

definition person_first :: "str \<Rightarrow> reply \<Rightarrow> reply" where
  "person_first text r = (if without_human_question text = None then r else (SAY_NOT_A_PERSON # fst r, snd r))"

text \<open>The remedy is noted in the transaction of its card: a card that fails takes the note back.\<close>

definition book_remedy :: "env \<Rightarrow> remedy_offer \<Rightarrow> loop \<Rightarrow> tool_result \<times> loop" where
  "book_remedy E r w =
     (let (task, w') = complaint_card E r summary_remedy_booked
            (set_db (note_remedy (cv_tenant_id (conv_of w)) (cv_call_id (conv_of w)) (ro_rule_id r) (ro_cents r) (db_of w)) w)
      in if tr_ok task then (task, w') else complaint_card E r summary_remedy_booked w)"

definition offer_answered :: "env \<Rightarrow> remedy_offer \<Rightarrow> str \<Rightarrow> loop \<Rightarrow> reply \<times> loop" where
  "offer_answered E r text w =
     (let w = set_line (\<lambda>l. l\<lparr>ln_offer := None\<rparr>) w;
          w = set_conv (\<lambda>s. snd (note_guest_details (en_readers E) text s)) w;
          yes = (cv_last_say (conv_of w) = Some (last_words (ro_offer_say r)) \<and> is_yes text);
          (booked, w) = (if yes then (let (task, w) = book_remedy E r w in (tr_ok task, w)) else (False, w))
      in if booked then (([ro_granted_say r], True), w)
         else let (said, w) = handoff E SAY_ESCALATION ''complaint'' (Some (ro_complaint r @ '' '' @ text))
                    (Some (remedy_card summary_remedy_open r)) False w
           in (person_first text said, w))"

text \<open>\<open>offer_unanswered\<close>: whoever closes the call leaves the complaint with the team.\<close>

definition offer_unanswered :: "env \<Rightarrow> loop \<Rightarrow> loop" where
  "offer_unanswered E w =
     (case ln_offer (lo_line w) of None \<Rightarrow> w
      | Some r \<Rightarrow> snd (complaint_card E r summary_remedy_open (set_line (\<lambda>l. l\<lparr>ln_offer := None\<rparr>) w)))"

section \<open>Questions of the core\<close>

definition callback_answered :: "env \<Rightarrow> str \<Rightarrow> loop \<Rightarrow> reply \<times> loop" where
  "callback_answered E text w =
     (let w = set_conv (\<lambda>s. s\<lparr>cv_asked_for_phone := True\<rparr>) w;
          w = set_conv (\<lambda>s. snd (note_guest_details (en_readers E) text s)) w;
          (said, w) =
            (if phone_slot (conv_of w) = None \<and> ln_wait_asks (lo_line w) < CALLBACK_NUMBER_ASKS \<and>
                consent_answer text NOTE_IT [] \<noteq> No
             then (([SAY_CALLBACK_NUMBER], False),
                   tells E SAY_CALLBACK_NUMBER (set_line (\<lambda>l. l\<lparr>ln_wait_asks := ln_wait_asks l + 1\<rparr>) w))
             else let summary = ln_waits (lo_line w); w = set_line (\<lambda>l. l\<lparr>ln_waits := None\<rparr>) w
               in handoff E SAY_ESCALATION (ln_wait_reason (lo_line w)) None summary False w)
      in (person_first text said, w))"

definition consent_judged :: "env \<Rightarrow> answer \<Rightarrow> loop \<Rightarrow> loop" where
  "consent_judged E a w =
     set_line (\<lambda>l. l\<lparr>ln_consent := Some a\<rparr>)
       (w\<lparr>lo_house := record_consent (cv_tenant_id (conv_of w)) (cv_call_id (conv_of w)) ALLERGY_QUESTION a (en_now E) (lo_house w)\<rparr>)"

definition held_answered :: "env \<Rightarrow> str \<Rightarrow> loop \<Rightarrow> llm_call option \<times> loop" where
  "held_answered E text w =
     (let last = cv_last_say (conv_of w) in
      case ln_held (lo_line w) of None \<Rightarrow> (None, w)
      | Some held \<Rightarrow>
          if last \<noteq> Some ALLERGY_QUESTION \<and> \<not> asked_which last then (None, w)
          else let w = set_line (\<lambda>l. l\<lparr>ln_held := None\<rparr>) w in
            if last = Some ALLERGY_QUESTION
            then (let a = consent_answer text NOTE_IT []; w = consent_judged E a w
                  in (if a = Unclear then None else Some held, w))
            else (if answered (en_wishes E) (conv_of w) text then Some held else None, w))"

text \<open>\<open>_callback_without_number\<close>: what was said, if it ended the turn.\<close>

definition callback_without_number :: "env \<Rightarrow> json \<Rightarrow> str \<Rightarrow> bool \<Rightarrow> loop \<Rightarrow> reply option \<times> loop" where
  "callback_without_number E args text reported w =
     (let reason = (case jget ''reason'' args of
            Some (JStr s) \<Rightarrow> if map_of TRANSFER_REASONS s = None then ''not_understood'' else s | _ \<Rightarrow> ''not_understood'');
          (transfer, w) = dispatch E ''transfer_to_team'' (JObj [(''reason'', JStr reason)]) w;
          w = take_result E ''transfer_to_team'' transfer (JObj []) w
      in if cv_transferred (conv_of w) then (Some ([or_else (tr_say transfer) SAY_ESCALATION], True), w)
         else let counts = (cv_asked_for_phone (conv_of w) \<and> \<not> reported);
                  w = (if counts then on_ladder (\<lambda>l. snd (record_failure ''phone'' l)) w else w)
           in if counts \<and> should_end_call (lo_ladder w) ''phone''
              then (let (said, w) = handoff E SAY_NOT_UNDERSTOOD ''not_understood'' (Some text) None False w in (Some said, w))
              else (None, set_conv (\<lambda>s. s\<lparr>cv_asked_for_phone := True\<rparr>) w))"

section \<open>One hop: the model answers, the core decides\<close>

text \<open>What belongs to this sentence of the guest, and what its hops carry on: failures counted, tools called, tools
  that worked.\<close>

record this_turn =
  th_text :: str
  th_started :: "int option"
  th_start :: "uuid option"
  th_table :: "str option"
  th_wish :: "str option"

record carried =
  ca_reported :: "str list"
  ca_called :: "str list"
  ca_read :: "str list"

datatype hop = Over reply | Next carried | Raised

definition MAX_TOOL_HOPS :: nat where "MAX_TOOL_HOPS = 6"
definition ENDED_STAGES :: "stage list" where "ENDED_STAGES = [STransferred, SEnded]"
definition CART :: str where "CART = ''cart''"
definition SAY :: str where "SAY = ''say''"
definition COMPLAINT_TOOLS :: "str list" where "COMPLAINT_TOOLS = [''transfer_to_team'', ''create_callback'']"

definition over :: "reply \<times> loop \<Rightarrow> hop \<times> loop" where
  "over r = (Over (fst r), snd r)"

definition to_team :: "env \<Rightarrow> this_turn \<Rightarrow> str \<Rightarrow> loop \<Rightarrow> reply \<times> loop" where
  "to_team E th fallback w = handoff E fallback ''not_understood'' (Some (th_text th)) None False w"

definition ended_here :: "loop \<Rightarrow> bool" where
  "ended_here w \<longleftrightarrow> cv_stage (conv_of w) \<in> set ENDED_STAGES"

definition HINT_UNREAD_ALLERGY_QUESTION :: str where
  "HINT_UNREAD_ALLERGY_QUESTION = ''Abgelehnt: der Gast fragt nach einer Allergie, und du hast die Allergene '' @
     ''nicht gelesen. Such das Gericht mit search_menu, nur seinen Namen ohne das '' @
     ''Allergen, und lies sie mit get_item_details.''"

definition HINT_ALLERGEN_CLAIM :: str where
  "HINT_ALLERGEN_CLAIM = ''Abgelehnt: eine Aussage zu Allergenen '' @ [ue] @ ''ber die hinterlegten Werte hinaus. '' @
     ''Der Kern gibt das Gespr'' @ [ae] @ ''ch ans Team.''"

definition unread_allergy_question :: "allergy_words \<Rightarrow> str list \<Rightarrow> str \<Rightarrow> str \<Rightarrow> tool_result option" where
  "unread_allergy_question A read say text =
     (if ''get_item_details'' \<in> set read \<or> \<not> asks_about_allergies A text \<or> py_strip say = SAY_WHICH_NUMBER then None
      else if ''search_menu'' \<in> set read \<and> list_all is_question (sentences (py_replace ''Nr.'' ''Nummer'' say)) \<and>
          \<not> aw_allergen A say then None
      else Some (refused ''invalid_input'' HINT_UNREAD_ALLERGY_QUESTION))"

definition flag_the_allergy_question :: "allergy_words \<Rightarrow> str \<Rightarrow> llm_call \<Rightarrow> llm_call" where
  "flag_the_allergy_question A text c =
     (if tc_name c = ''get_item_details'' \<and> asks_about_allergies A text
      then c\<lparr>tc_args := (case tc_args c of JObj kvs \<Rightarrow> JObj (AList.update ''allergen_question'' (JBool True) kvs) | j \<Rightarrow> j)\<rparr>
      else c)"

definition card_without_allergy :: "wish_words \<Rightarrow> conv \<Rightarrow> llm_call \<Rightarrow> llm_call" where
  "card_without_allergy W s c =
     (if tc_name c \<noteq> ''create_callback'' then c
      else case (jget ''summary'' (tc_args c), tc_args c) of
        (Some (JStr t), JObj kvs) \<Rightarrow>
          if \<not> names_health W s t then c
          else c\<lparr>tc_args := JObj (AList.update ''summary''
            (JStr (handoff_summary (text_of (jget ''reason'' (tc_args c))) None (cv_booking_say s) None)) kvs)\<rparr>
      | _ \<Rightarrow> c)"

definition found_nothing :: "tool_result \<Rightarrow> bool" where
  "found_nothing r \<longleftrightarrow>
     (case json_list (jget ''positions'' (tr_data r)) of
        [] \<Rightarrow> tr_error_code r = Some ''not_found''
      | ps \<Rightarrow> list_all (\<lambda>p. jget ''error_code'' p = Some (JStr ''not_found'')) ps)"

text \<open>A sentence of the model.\<close>

definition call_names :: "carried \<Rightarrow> str \<Rightarrow> carried" where
  "call_names ca name = ca\<lparr>ca_called := ca_called ca @ [name]\<rparr>"

definition sentence_hop :: "env \<Rightarrow> this_turn \<Rightarrow> carried \<Rightarrow> str \<Rightarrow> loop \<Rightarrow> hop \<times> loop" where
  "sentence_hop E th ca say w =
     (let A = ww_words (en_wishes E); team = allergens_to_team E None (Some SAY_ALLERGENS_BEYOND) (th_table th) SUMMARY_ALLERGENS in
      if en_claims E (conv_of w) say
      then over (team (log_refused SAY (refused ''out_of_scope'' HINT_ALLERGEN_CLAIM) w))
      else case unread_allergy_question A (ca_read ca) say (th_text th) of
        Some r \<Rightarrow> (let w = log_refused SAY r w in
            if SAY \<in> set (ca_called ca) then over (team w) else (Next (call_names ca SAY), w))
      | None \<Rightarrow> (case false_booking (conv_of w) say of
          Some r \<Rightarrow> (Next (call_names ca SAY), log_refused SAY r w)
        | None \<Rightarrow> (let w = tells E say w in (Over ([say], ended_here w), w))))"

text \<open>A booking that went through: the core says so, and hands over if it took too long.\<close>

definition order_name :: "env \<Rightarrow> loop \<Rightarrow> str option" where
  "order_name E w =
     (case cv_order_id (conv_of w) of None \<Rightarrow> None
      | Some i \<Rightarrow> (case get_order (db_of w) i of None \<Rightarrow> None
        | Some r \<Rightarrow> if rd_name_said (en_readers E) (JStr (customer_name r)) (cv_said_words (conv_of w))
            then Some (customer_name r) else None))"

definition booked_say :: "conv \<Rightarrow> json \<Rightarrow> str option \<Rightarrow> str" where
  "booked_say s data name =
     (if cv_order_id s = None then SAY_TABLE_BOOKED
      else let waits = (jget ''handover'' data = Some (JStr ''awaiting_approval''))
        in case name of
             Some (c # cs) \<Rightarrow> ''Ihre Bestellung auf den Namen '' @ (c # cs) @ '' ist'' @
               drop (length ''Ihre Bestellung ist'') (if waits then SAY_ORDER_WAITS else SAY_ORDER_PLACED)
           | _ \<Rightarrow> if waits then SAY_ORDER_WAITS else SAY_ORDER_PLACED)"

definition booked_hop :: "env \<Rightarrow> this_turn \<Rightarrow> tool_result \<Rightarrow> loop \<Rightarrow> hop \<times> loop" where
  "booked_hop E th r w =
     (let say = booked_say (conv_of w) (tr_data r) (order_name E w);
          w = set_conv (\<lambda>s. s\<lparr>cv_booking_say := Some say\<rparr>) w;
          open_order = (cv_order_id (conv_of w) = None \<and> cv_cart (conv_of w) \<noteq> []);
          told = py_join '' '' (nonempty [Some say, if open_order then Some SAY_ORDER_NOT_PLACED else None, Some SAY_BOOKED_GOODBYE]);
          first = (\<lambda>((said, ended), w). (Over (say # said, ended), w))
      in if late E w then first (to_team E th SAY_TIMEOUT (tick w))
         else if turn_over E (th_started th) (tick w) then first (to_team E th SAY_ON_FAILURE (turn_tick E (th_started th) (tick w)))
         else let w = tells E told (turn_tick E (th_started th) (tick w)) in (Over ([told], ended_here w), w))"

text \<open>What follows the result of a tool.\<close>

definition dish_of :: "json \<Rightarrow> str option" where
  "dish_of data = (case py_strip (text_of (jget ''number'' data) @ '' '' @ text_of (jget ''name'' data)) of
     [] \<Rightarrow> None | c # cs \<Rightarrow> Some (c # cs))"

definition read_out_hop :: "env \<Rightarrow> this_turn \<Rightarrow> str \<Rightarrow> loop \<Rightarrow> hop \<times> loop" where
  "read_out_hop E th said w =
     (if late E w then over (to_team E th SAY_TIMEOUT (tick w))
      else if turn_over E (th_started th) (tick w) then over (to_team E th SAY_ON_FAILURE (turn_tick E (th_started th) (tick w)))
      else (Over ([said], False), tells E said (turn_tick E (th_started th) (tick w))))"

definition worked :: "carried \<Rightarrow> str \<Rightarrow> tool_result \<Rightarrow> carried" where
  "worked ca name r = (call_names ca name)\<lparr>ca_read := (if tr_ok r then List.insert name (ca_read ca) else ca_read ca)\<rparr>"

definition taken_hop :: "env \<Rightarrow> this_turn \<Rightarrow> carried \<Rightarrow> llm_call \<Rightarrow> tool_result \<Rightarrow> loop \<Rightarrow> hop \<times> loop" where
  "taken_hop E th ca c r w =
     (if truth_of (jget ''team_callback'' (tr_data r))
      then (case table_to_team E (tc_args c) (tr_say r) w of None \<Rightarrow> (Raised, w) | Some x \<Rightarrow> over x)
      else if tc_name c = ''transfer_to_team'' \<and> cv_transferred (conv_of w)
      then (Over ([or_else (tr_say r) SAY_ESCALATION], True), w)
      else (Next (worked ca (tc_name c) r), w))"

definition result_hop ::
  "env \<Rightarrow> this_turn \<Rightarrow> carried \<Rightarrow> bool \<Rightarrow> llm_call \<Rightarrow> tool_result \<Rightarrow> loop \<Rightarrow> hop \<times> loop" where
  "result_hop E th ca from_hold c r w =
     (let name = tc_name c; args = tc_args c in
      if name = ''search_menu'' \<and> found_nothing r \<and> asks_about_allergies (ww_words (en_wishes E)) (th_text th)
      then over (allergens_to_team E None (Some SAY_ALLERGENS_BEYOND) (th_table th) SUMMARY_ALLERGENS w)
      else let w = take_result E name r args w in
        if name = ''get_item_details'' \<and> tr_ok r \<and> tr_say r = Some SAY_ALLERGENS_UNKNOWN
        then over (allergens_to_team E (dish_of (tr_data r)) (Some SAY_ALLERGENS_UNKNOWN) (th_table th) SUMMARY_ALLERGENS w)
        else if from_hold \<and> tr_ok r \<and> or_else (unheard_readback (conv_of w)) [] \<noteq> []
        then read_out_hop E th (or_else (unheard_readback (conv_of w)) []) w
        else if name = ''confirm'' \<and> tr_ok r then booked_hop E th r w
        else if r = refused ''invalid_input'' HINT_CALLBACK_PHONE
        then (case callback_without_number E args (th_text th) (''phone'' \<in> set (ca_reported ca)) w of
            (Some said, w) \<Rightarrow> (Over said, w)
          | (None, w) \<Rightarrow> taken_hop E th (ca\<lparr>ca_reported := List.insert ''phone'' (ca_reported ca)\<rparr>) c r w)
        else taken_hop E th ca c r w)"

text \<open>A tool call of the model, or the draft that was held.\<close>

definition complains :: "this_turn \<Rightarrow> llm_call \<Rightarrow> bool" where
  "complains th c \<longleftrightarrow> tc_name c \<in> set COMPLAINT_TOOLS \<and> jget ''reason'' (tc_args c) = Some (JStr ''complaint'') \<and> th_wish th = None"

definition call_written :: "env \<Rightarrow> this_turn \<Rightarrow> llm_call \<Rightarrow> loop \<Rightarrow> llm_call" where
  "call_written E th c w =
     flag_the_allergy_question (ww_words (en_wishes E)) (th_text th)
       (card_without_allergy (en_wishes E) (conv_of w) (noted_call (ln_consent (lo_line w)) (conv_of w) c))"

definition let_through_hop :: "env \<Rightarrow> this_turn \<Rightarrow> carried \<Rightarrow> bool \<Rightarrow> llm_call \<Rightarrow> loop \<Rightarrow> hop \<times> loop" where
  "let_through_hop E th ca from_hold c w =
     (case (if tc_name c \<in> set NOTED then question (lo_line w) else None) of
        Some q \<Rightarrow>
          if asked_out (lo_line w) q then over (note_to_team E c w)
          else (Over ([q], False), tells E q (set_conv (draft_replaced (tc_name c)) (set_line (\<lambda>l. l\<lparr>ln_held := Some c\<rparr>) w)))
      | None \<Rightarrow>
          let c' = call_written E th c w in
          if \<not> note_fits c' c then over (note_to_team E c w)
          else let (r, w) = dispatch E (tc_name c') (tc_args c') w in result_hop E th ca from_hold c r w)"

definition call_hop :: "env \<Rightarrow> this_turn \<Rightarrow> carried \<Rightarrow> bool \<Rightarrow> bool \<Rightarrow> llm_call \<Rightarrow> loop \<Rightarrow> hop \<times> loop" where
  "call_hop E th ca from_hold cart_sent c w =
     (case (if complains th c then offer_remedy E (th_text th) w else None) of
        Some x \<Rightarrow> (Over (fst x), log_refused (tc_name c)
          \<lparr>tr_ok = False, tr_data = JObj [], tr_say = None, tr_error_code = Some ''conflict'', tr_hint = None\<rparr> (snd x))
      | None \<Rightarrow>
          (case refusal (en_readers E) (conv_of w) (th_start th) (th_text th) c cart_sent of
             Some r \<Rightarrow> result_hop E th ca from_hold c r (log_refused (tc_name c) r w)
           | None \<Rightarrow> let_through_hop E th ca from_hold c w))"

text \<open>The answer of the model, after patch and limits.\<close>

definition call_in :: "llm_turn \<Rightarrow> llm_call option" where
  "call_in t = (case lt_act t of Calls c \<Rightarrow> Some c | Says _ \<Rightarrow> None)"

definition take_patch :: "env \<Rightarrow> (str \<times> json) list \<Rightarrow> loop \<Rightarrow> loop" where
  "take_patch E patch w =
     (let (named, s) = apply_state_patch (en_readers E) patch (conv_of w)
      in on_ladder (fold record_success (map fst named)) (set_conv (\<lambda>_. s) w))"

definition cart_hop :: "env \<Rightarrow> this_turn \<Rightarrow> carried \<Rightarrow> bool \<Rightarrow> llm_turn \<Rightarrow> loop \<Rightarrow> hop \<times> loop" where
  "cart_hop E th ca from_hold t w =
     (let (r, w) = (case lt_cart t of None \<Rightarrow> (None, w)
            | Some j \<Rightarrow> let (r, s) = take_cart (en_readers E) j (conv_of w) in (r, set_conv (\<lambda>_. s) w))
      in case r of
           Some r \<Rightarrow> (Next (call_names ca CART), log_refused CART r w)
         | None \<Rightarrow> (case lt_act t of
             Says say \<Rightarrow> sentence_hop E th ca say w
           | Calls c \<Rightarrow> call_hop E th ca from_hold (lt_cart t \<noteq> None) c w))"

definition counted_failure :: "carried \<Rightarrow> llm_turn \<Rightarrow> str option" where
  "counted_failure ca t = (case lt_failure t of
     Some (c # cs) \<Rightarrow> if c # cs \<in> set (ca_reported ca) then None else Some (c # cs) | _ \<Rightarrow> None)"

definition answer_hop :: "env \<Rightarrow> this_turn \<Rightarrow> carried \<Rightarrow> bool \<Rightarrow> llm_turn \<Rightarrow> loop \<Rightarrow> hop \<times> loop" where
  "answer_hop E th ca from_hold t w =
     (case counted_failure ca t of
        None \<Rightarrow> cart_hop E th ca from_hold t w
      | Some f \<Rightarrow>
          let w = on_ladder (\<lambda>l. snd (record_failure f l)) w in
          if should_end_call (lo_ladder w) f
          then over (to_team E th SAY_NOT_UNDERSTOOD w)
          else cart_hop E th (ca\<lparr>ca_reported := ca_reported ca @ [f]\<rparr>) from_hold t w)"

definition after_answer :: "env \<Rightarrow> this_turn \<Rightarrow> carried \<Rightarrow> bool \<Rightarrow> llm_turn \<Rightarrow> loop \<Rightarrow> hop \<times> loop" where
  "after_answer E th ca from_hold t w =
     (let reread = reread_on_yes (conv_of w) (th_start th) (th_text th) (call_in t);
          w = (if reread = None then take_patch E (lt_patch t) w else w)
      in if late E w then over (to_team E th SAY_TIMEOUT (tick w))
         else if turn_over E (th_started th) (tick w) then over (to_team E th SAY_ON_FAILURE (turn_tick E (th_started th) (tick w)))
         else let w = turn_tick E (th_started th) (tick w) in
           case (reread, call_in t) of
             (Some say, Some c) \<Rightarrow>
               (let w = (case refusal (en_readers E) (conv_of w) (th_start th) (th_text th) c False of
                     None \<Rightarrow> w | Some r \<Rightarrow> log_refused (tc_name c) r w)
                in (Over ([say], False), tells E say w))
           | _ \<Rightarrow> answer_hop E th ca from_hold t w)"

definition one_hop :: "env \<Rightarrow> this_turn \<Rightarrow> carried \<Rightarrow> llm_call option \<Rightarrow> loop \<Rightarrow> hop \<times> loop" where
  "one_hop E th ca held w =
     (if late E w then over (to_team E th SAY_TIMEOUT (tick w))
      else if turn_over E (th_started th) (tick w) then over (to_team E th SAY_ON_FAILURE (turn_tick E (th_started th) (tick w)))
      else let w = turn_tick E (th_started th) (tick w) in
        case held of
          Some c \<Rightarrow> after_answer E th ca True \<lparr>lt_act = Calls c, lt_patch = [], lt_failure = None, lt_cart = None\<rparr> w
        | None \<Rightarrow>
            let asked = lo_asked w; w = w\<lparr>lo_asked := Suc asked\<rparr> in
            (case en_llm E asked of
               None \<Rightarrow> over (to_team E th SAY_ON_FAILURE w)
             | Some t \<Rightarrow> after_answer E th ca False t w))"

primrec hops :: "env \<Rightarrow> this_turn \<Rightarrow> nat \<Rightarrow> carried \<Rightarrow> llm_call option \<Rightarrow> loop \<Rightarrow> (reply \<times> loop) option" where
  "hops E th 0 ca held w = Some (to_team E th SAY_STUCK w)"
| "hops E th (Suc n) ca held w =
     (case one_hop E th ca held w of
        (Over said, w) \<Rightarrow> Some (said, w)
      | (Next ca, w) \<Rightarrow> hops E th n ca None w
      | (Raised, w) \<Rightarrow> None)"

definition converse ::
  "env \<Rightarrow> str \<Rightarrow> int option \<Rightarrow> llm_call option \<Rightarrow> str option \<Rightarrow> str option \<Rightarrow> loop \<Rightarrow> (reply \<times> loop) option" where
  "converse E text started held table wish w =
     hops E \<lparr>th_text = text, th_started = started, th_start = begin_turn (conv_of w), th_table = table, th_wish = wish\<rparr>
       MAX_TOOL_HOPS \<lparr>ca_reported = [], ca_called = [], ca_read = []\<rparr> held w"

section \<open>A sentence of the guest\<close>

text \<open>\<open>_HEARD\<close>: what the core took from the guest; dictionaries and sets count without their order.\<close>

definition heard_view where
  "heard_view l = (let s = ln_conv l in
     ((cv_intent s, cv_stage s, set (cv_slots s), cv_reservation_id s, cv_order_id s, cv_readback s),
      (cv_cart s, set (cv_known s), set (cv_seen s), cv_allergies s), (ln_consent l, ln_held l, ln_waits l, ln_offer l)))"

definition UNHEARD_TURNS :: int where "UNHEARD_TURNS = FAILURES_BEFORE_LEVEL_UP * LEVEL_UPS_BEFORE_END"

definition hear_details :: "env \<Rightarrow> str \<Rightarrow> loop \<Rightarrow> loop" where
  "hear_details E text w =
     (let (numbers, s) = note_guest_details (en_readers E) text (conv_of w); w = set_conv (\<lambda>_. s) w
      in if numbers then on_ladder (record_success ''phone'') w else w)"

definition hear_allergies :: "env \<Rightarrow> str \<Rightarrow> loop \<Rightarrow> loop" where
  "hear_allergies E text w =
     (let noted = cv_allergies (conv_of w); w = set_line (note_allergies (en_wishes E) (db_of w) text) w
      in if cv_allergies (conv_of w) = noted then w
         else set_conv (draft_replaced (if cv_reservation_id (conv_of w) \<noteq> None then ''create_reservation'' else ''draft_order'')) w)"

definition reason_of :: "escalation_reason \<Rightarrow> str" where
  "reason_of r = (case r of EComplaint \<Rightarrow> ''complaint'' | EHuman \<Rightarrow> ''human_requested'' | ECancellation \<Rightarrow> ''cancellation'')"

text \<open>What the core does without the model: a remedy, a handover, the limit behind the question for a person.\<close>

definition escalated :: "env \<Rightarrow> str \<Rightarrow> escalation_reason option \<Rightarrow> bool \<Rightarrow> bool \<Rightarrow> str option \<Rightarrow> loop \<Rightarrow> reply option \<times> loop" where
  "escalated E text reason offered person wish w =
     (case (if reason = Some EComplaint \<and> wish = None then offer_remedy E text w else None) of
        Some (said, w) \<Rightarrow> (Some said, w)
      | None \<Rightarrow>
          (case reason of
             Some r \<Rightarrow> (let (said, w) = handoff E SAY_ESCALATION (reason_of r) (if offered then None else Some text) None False w
               in (Some said, w))
           | None \<Rightarrow>
               if person then (if late E w
                 then (let (said, w) = handoff E SAY_TIMEOUT ''not_understood'' (Some text) None False (tick w) in (Some said, w))
                 else (None, tick w))
               else (None, w)))"

text \<open>The question of the core once more, after a plain yes or no to something else; what was said, if it ended
  the turn.\<close>

definition asked_again :: "env \<Rightarrow> str \<Rightarrow> str \<Rightarrow> loop \<Rightarrow> reply option \<times> loop" where
  "asked_again E text heard w =
     (case ln_held (lo_line w) of None \<Rightarrow> (None, w)
      | Some held \<Rightarrow>
          if late E w
          then (let (said, w) = handoff E SAY_TIMEOUT ''not_understood'' (Some text) None False (tick w) in (Some said, w))
          else let w = tick w in
            case question (lo_line w) of
              None \<Rightarrow> (None, set_line (\<lambda>l. l\<lparr>ln_held := None\<rparr>) w)
            | Some q \<Rightarrow>
                if \<not> bare_answer heard then (None, set_line (\<lambda>l. l\<lparr>ln_held := None\<rparr>) w)
                else if asked_out (lo_line w) q
                then (let (said, w) = note_to_team E held w in (Some (person_first text said), w))
                else (Some (person_first text ([q], False)), tells E q w))"

text \<open>The answer of the model, and the turns in a row that heard nothing.\<close>

definition counted_turn :: "env \<Rightarrow> str \<Rightarrow> bool \<Rightarrow> reply \<Rightarrow> loop \<Rightarrow> reply \<times> loop" where
  "counted_turn E text unchanged said w =
     (if snd said then (said, w)
      else let w = w\<lparr>lo_unheard := (if unchanged then lo_unheard w + 1 else 0)\<rparr> in
        if lo_unheard w < UNHEARD_TURNS then (said, w)
        else let (said, w) = handoff E SAY_NOT_UNDERSTOOD ''not_understood'' (Some text)
               (Some (case map_of HANDOFF_SUMMARIES ''not_understood'' of Some s \<Rightarrow> s | None \<Rightarrow> DEFAULT_HANDOFF_SUMMARY)) True w
          in (said, if snd said then w else tells E SAY_CALLBACK_NUMBER w))"

definition talks_of_allergies :: "env \<Rightarrow> str \<Rightarrow> conv \<Rightarrow> bool" where
  "talks_of_allergies E text s \<longleftrightarrow> cv_allergy_talk s \<or> speaks_of_allergies (ww_words (en_wishes E)) text \<or>
     aw_allergen (ww_words (en_wishes E)) text"

definition model_turn ::
  "env \<Rightarrow> str \<Rightarrow> int option \<Rightarrow> call_line \<Rightarrow> llm_call option \<Rightarrow> str option \<Rightarrow> loop \<Rightarrow> (reply \<times> loop) option" where
  "model_turn E text started earlier held table w =
     (case converse E text started held table (cv_intent (ln_conv earlier)) w of
        None \<Rightarrow> None
      | Some (said, w) \<Rightarrow>
          let (said, w) = counted_turn E text (heard_view (lo_line w) = heard_view earlier) said w
          in Some (person_first text said, w))"

text \<open>The sentence is heard (\<open>held\<close> the draft it answered a question for, \<open>table\<close> the table read back before it).\<close>

definition heard_turn ::
  "env \<Rightarrow> str \<Rightarrow> int option \<Rightarrow> call_line \<Rightarrow> llm_call option \<Rightarrow> str option \<Rightarrow> loop \<Rightarrow> (reply \<times> loop) option" where
  "heard_turn E text started earlier held table w =
     (let rest = without_human_question text; heard = (case rest of None \<Rightarrow> text | Some r \<Rightarrow> r);
          reason = check heard;
          offered = (reason = None \<and> cv_last_say (conv_of w) = Some SAY_HUMAN_ANSWER \<and> is_yes text);
          reason = (if offered then Some EHuman else reason);
          w = (if reason = Some EComplaint then w else set_conv (note_intent text) w);
          (out, w) = escalated E text reason offered (rest \<noteq> None) (cv_intent (ln_conv earlier)) w;
          talk = talks_of_allergies E text (conv_of w);
          (out, w) = (if out = None \<and> asks_beyond_the_allergens text
             then (let (said, w) = allergens_to_team E None (Some SAY_ALLERGENS_BEYOND) table SUMMARY_ALLERGENS w in (Some said, w))
             else (out, w))
      in case out of
           Some said \<Rightarrow> Some (person_first text said, w)
         | None \<Rightarrow>
             let w = set_conv (\<lambda>s. s\<lparr>cv_allergy_talk := talk\<rparr>) w in
             if held = None \<and> (case rest of None \<Rightarrow> False | Some r \<Rightarrow> \<not> asks_more r)
             then Some (([SAY_HUMAN_ANSWER], False), tells E SAY_HUMAN_ANSWER w)
             else (case asked_again E text heard w of
                 (Some said, w) \<Rightarrow> Some (said, w)
               | (None, w) \<Rightarrow> model_turn E text started earlier held table w))"

definition guest_turn :: "env \<Rightarrow> str \<Rightarrow> loop \<Rightarrow> (reply \<times> loop) option" where
  "guest_turn E text w =
     (let started = (if en_deadline E = None then None else Some (clock_now E w));
          w = (if en_deadline E = None then w else tick w)
      in if ln_waits (lo_line w) \<noteq> None then Some (callback_answered E text w)
         else case ln_offer (lo_line w) of
           Some r \<Rightarrow> Some (offer_answered E r text w)
         | None \<Rightarrow>
             let earlier = lo_line w;
                 w = hear_details E text w;
                 table = open_table E w;
                 w = hear_allergies E text w;
                 (held, w) = held_answered E text w
             in heard_turn E text started earlier held table w)"

section \<open>api/agent/recording.py, and the whole sentence\<close>

definition settle :: "env \<Rightarrow> answer \<Rightarrow> loop \<Rightarrow> loop" where
  "settle E a w =
     (let tid = cv_tenant_id (conv_of w); cid = cv_call_id (conv_of w);
          w = set_line (\<lambda>l. l\<lparr>ln_recording := Some RecOff\<rparr>) w;
          h = record_consent tid cid (en_recording_question E) a (en_now E) (lo_house w)
      in if a \<noteq> Yes then w\<lparr>lo_house := h\<rparr>
         else case open_recording (en_min_free E) (en_free E) tid cid (en_now E) h of
           Inl _ \<Rightarrow> w\<lparr>lo_house := h\<rparr>
         | Inr (name, h) \<Rightarrow> set_line (\<lambda>l. l\<lparr>ln_file := Some name, ln_recording := Some RecOn\<rparr>) (w\<lparr>lo_house := h\<rparr>))"

definition withdraw :: "env \<Rightarrow> loop \<Rightarrow> loop" where
  "withdraw E w =
     (let tid = cv_tenant_id (conv_of w); cid = cv_call_id (conv_of w)
      in set_line (\<lambda>l. l\<lparr>ln_recording := Some RecWithdrawn\<rparr>)
           (w\<lparr>lo_house := withdraw_recording tid cid (en_now E)
              (record_consent tid cid RECORDING_WITHDRAWN No (en_now E) (lo_house w))\<rparr>))"

definition opening_say :: "call_line \<Rightarrow> str list" where
  "opening_say l = (if ln_recording l = Some RecOn then [SAY_HOW_TO_STOP, SAY_WHAT_CAN_I_DO] else [SAY_WHAT_CAN_I_DO])"

definition still_open_say :: "conv \<Rightarrow> str" where
  "still_open_say s = (if cv_readback_heard s \<and> or_else (cv_readback s) [] \<noteq> [] then or_else (cv_readback s) []
     else or_else (cv_last_say s) SAY_WHAT_CAN_I_DO)"

text \<open>The rest of a turn once the question for the recording is out of the way.\<close>

definition stopped_turn :: "env \<Rightarrow> str \<Rightarrow> loop \<Rightarrow> (reply \<times> loop) option" where
  "stopped_turn E text w =
     (if ln_recording (lo_line w) \<noteq> Some RecOn \<or> \<not> stops_recording text then guest_turn E text w
      else let w = withdraw E w in
        if only_stops_recording text then Some (([SAY_RECORDING_STOPPED, still_open_say (conv_of w)], False), w)
        else map_option (\<lambda>((say, ended), w). ((SAY_RECORDING_STOPPED # say, ended), w)) (guest_turn E text w))"

definition run_turn :: "env \<Rightarrow> str \<Rightarrow> loop \<Rightarrow> (reply \<times> loop) option" where
  "run_turn E text w =
     (if ln_recording (lo_line w) = Some RecAsked
      then let w = settle E (recording_answer text) w in
        if bare_recording_answer text
        then Some ((opening_say (lo_line w), False), tells E SAY_WHAT_CAN_I_DO w)
        else stopped_turn E (after_recording_answer text) w
      else stopped_turn E text w)"

end
