(* ===== verification/TurnRun.thy ===== *)
theory TurnRun
  imports Turn
begin

text \<open>
  The tool calls of the loop are steps of \<open>CallRun\<close> and no other, with whatever the model, the clock and the
  reading tools answer: a tool call that was let through and one that was refused is a run of \<open>call_step\<close>, and only
  the sentence of this turn is ever taken for a yes.
\<close>

section \<open>Loops as talks\<close>

definition shows_loop :: "talk \<Rightarrow> loop \<Rightarrow> bool" where
  "shows_loop t w \<longleftrightarrow> tk_conv t = conv_of w \<and> tk_db t = db_of w"

definition same_sentence :: "talk \<Rightarrow> talk \<Rightarrow> bool" where
  "same_sentence t t' \<longleftrightarrow> tk_phase t' = tk_phase t \<and> tk_text t' = tk_text t \<and> tk_start t' = tk_start t"

text \<open>The yeses that went out belong to the sentence of this turn and to the draft that was read out before it.\<close>

definition yes_of_turn :: "talk \<Rightarrow> talk \<Rightarrow> bool" where
  "yes_of_turn t t' \<longleftrightarrow> (\<forall>y \<in> set (tk_yes t'). y \<in> set (tk_yes t) \<or>
     y_text y = tk_text t \<and> is_yes (tk_text t) \<and> y_id y = tk_start t \<and> tk_start t \<noteq> None)"

text \<open>\<open>calm\<close>: steps of any phase that leave the turn open; \<open>loud\<close>: steps of any phase; \<open>works\<close>, \<open>ends\<close>: the same within
  the model's part of the turn \<open>th\<close>.\<close>

definition calm :: "env \<Rightarrow> loop \<Rightarrow> loop \<Rightarrow> bool" where
  "calm E w w' \<longleftrightarrow> (\<forall>t. shows_loop t w \<longrightarrow>
     (\<exists>t'. (call_step (en_readers E))\<^sup>*\<^sup>* t t' \<and> shows_loop t' w' \<and> same_sentence t t' \<and> tk_yes t' = tk_yes t))"

definition loud :: "env \<Rightarrow> loop \<Rightarrow> loop \<Rightarrow> bool" where
  "loud E w w' \<longleftrightarrow> (\<forall>t. shows_loop t w \<longrightarrow>
     (\<exists>t'. (call_step (en_readers E))\<^sup>*\<^sup>* t t' \<and> shows_loop t' w' \<and> tk_text t' = tk_text t \<and> tk_yes t' = tk_yes t))"

definition in_turn :: "this_turn \<Rightarrow> talk \<Rightarrow> bool" where
  "in_turn th t \<longleftrightarrow> tk_phase t = Answering \<and> tk_text t = th_text th \<and> tk_start t = th_start th"

definition works :: "env \<Rightarrow> this_turn \<Rightarrow> loop \<Rightarrow> loop \<Rightarrow> bool" where
  "works E th w w' \<longleftrightarrow> (\<forall>t. shows_loop t w \<and> in_turn th t \<longrightarrow>
     (\<exists>t'. (call_step (en_readers E))\<^sup>*\<^sup>* t t' \<and> shows_loop t' w' \<and> in_turn th t' \<and> yes_of_turn t t'))"

definition ends :: "env \<Rightarrow> this_turn \<Rightarrow> loop \<Rightarrow> loop \<Rightarrow> bool" where
  "ends E th w w' \<longleftrightarrow> (\<forall>t. shows_loop t w \<and> in_turn th t \<longrightarrow>
     (\<exists>t'. (call_step (en_readers E))\<^sup>*\<^sup>* t t' \<and> shows_loop t' w' \<and> tk_text t' = tk_text t \<and> yes_of_turn t t'))"

lemma yes_trans: "yes_of_turn a b \<Longrightarrow> tk_text b = tk_text a \<Longrightarrow> tk_start b = tk_start a \<Longrightarrow> yes_of_turn b c \<Longrightarrow> yes_of_turn a c"
  unfolding yes_of_turn_def by metis

lemma yes_same: "tk_yes t' = tk_yes t \<Longrightarrow> yes_of_turn t t'"
  by (simp add: yes_of_turn_def)

lemma calm_refl: "calm E w w"
  unfolding calm_def same_sentence_def by blast

lemma calm_trans: assumes "calm E a b" and "calm E b c" shows "calm E a c"
  unfolding calm_def
proof (intro allI impI)
  fix t assume "shows_loop t a"
  with assms(1) obtain u where u: "(call_step (en_readers E))\<^sup>*\<^sup>* t u" "shows_loop u b" "same_sentence t u" "tk_yes u = tk_yes t"
    unfolding calm_def by blast
  with assms(2) obtain v where "(call_step (en_readers E))\<^sup>*\<^sup>* u v" "shows_loop v c" "same_sentence u v" "tk_yes v = tk_yes u"
    unfolding calm_def by blast
  with u show "\<exists>t'. (call_step (en_readers E))\<^sup>*\<^sup>* t t' \<and> shows_loop t' c \<and> same_sentence t t' \<and> tk_yes t' = tk_yes t"
    by (intro exI [of _ v]) (auto simp: same_sentence_def)
qed

lemma loud_trans: assumes "loud E a b" and "loud E b c" shows "loud E a c"
  unfolding loud_def
proof (intro allI impI)
  fix t assume "shows_loop t a"
  with assms(1) obtain u where u: "(call_step (en_readers E))\<^sup>*\<^sup>* t u" "shows_loop u b" "tk_text u = tk_text t" "tk_yes u = tk_yes t"
    unfolding loud_def by blast
  with assms(2) obtain v where "(call_step (en_readers E))\<^sup>*\<^sup>* u v" "shows_loop v c" "tk_text v = tk_text u" "tk_yes v = tk_yes u"
    unfolding loud_def by blast
  with u show "\<exists>t'. (call_step (en_readers E))\<^sup>*\<^sup>* t t' \<and> shows_loop t' c \<and> tk_text t' = tk_text t \<and> tk_yes t' = tk_yes t"
    by (intro exI [of _ v]) auto
qed

lemma calm_loud: "calm E a b \<Longrightarrow> loud E a b"
  unfolding calm_def loud_def same_sentence_def by meson

lemma calm_works: "calm E a b \<Longrightarrow> works E th a b"
  unfolding calm_def works_def same_sentence_def in_turn_def using yes_same by metis

lemma loud_ends: "loud E a b \<Longrightarrow> ends E th a b"
  unfolding loud_def ends_def using yes_same by meson

lemma works_ends: "works E th a b \<Longrightarrow> ends E th a b"
  unfolding works_def ends_def in_turn_def by metis

lemma works_trans: assumes "works E th a b" and "works E th b c" shows "works E th a c"
  unfolding works_def
proof (intro allI impI)
  fix t assume t: "shows_loop t a \<and> in_turn th t"
  with assms(1) obtain u where u: "(call_step (en_readers E))\<^sup>*\<^sup>* t u" "shows_loop u b" "in_turn th u" "yes_of_turn t u"
    unfolding works_def by blast
  with assms(2) obtain v where "(call_step (en_readers E))\<^sup>*\<^sup>* u v" "shows_loop v c" "in_turn th v" "yes_of_turn u v"
    unfolding works_def by blast
  with u t show "\<exists>t'. (call_step (en_readers E))\<^sup>*\<^sup>* t t' \<and> shows_loop t' c \<and> in_turn th t' \<and> yes_of_turn t t'"
    by (intro exI [of _ v]) (auto simp: in_turn_def intro: yes_trans)
qed

lemma works_then_ends: assumes "works E th a b" and "ends E th b c" shows "ends E th a c"
  unfolding ends_def
proof (intro allI impI)
  fix t assume t: "shows_loop t a \<and> in_turn th t"
  with assms(1) obtain u where u: "(call_step (en_readers E))\<^sup>*\<^sup>* t u" "shows_loop u b" "in_turn th u" "yes_of_turn t u"
    unfolding works_def by blast
  with assms(2) obtain v where "(call_step (en_readers E))\<^sup>*\<^sup>* u v" "shows_loop v c" "tk_text v = tk_text u" "yes_of_turn u v"
    unfolding ends_def by blast
  with u t show "\<exists>t'. (call_step (en_readers E))\<^sup>*\<^sup>* t t' \<and> shows_loop t' c \<and> tk_text t' = tk_text t \<and> yes_of_turn t t'"
    by (intro exI [of _ v]) (auto simp: in_turn_def intro: yes_trans)
qed

section \<open>Single steps\<close>

text \<open>A step without a ghost of its own.\<close>

lemma calm_step:
  assumes "\<And>t. shows_loop t w \<Longrightarrow> call_step (en_readers E) t (t\<lparr>tk_conv := conv_of w', tk_db := db_of w'\<rparr>)"
  shows "calm E w w'"
  unfolding calm_def
proof (intro allI impI)
  fix t assume "shows_loop t w"
  from assms [OF this]
  show "\<exists>t'. (call_step (en_readers E))\<^sup>*\<^sup>* t t' \<and> shows_loop t' w' \<and> same_sentence t t' \<and> tk_yes t' = tk_yes t"
    by (intro exI [of _ "t\<lparr>tk_conv := conv_of w', tk_db := db_of w'\<rparr>"]) (auto simp: shows_loop_def same_sentence_def)
qed

lemma talk_same: "tk_conv t = c \<Longrightarrow> t\<lparr>tk_conv := c\<rparr> = t" "tk_db t = d \<Longrightarrow> t\<lparr>tk_db := d\<rparr> = t"
  "tk_db t = d \<Longrightarrow> t\<lparr>tk_conv := c, tk_db := d\<rparr> = t\<lparr>tk_conv := c\<rparr>"
  by (cases t; simp)+

lemma calm_same: "conv_of w' = conv_of w \<Longrightarrow> db_of w' = db_of w \<Longrightarrow> calm E w w'"
  unfolding calm_def shows_loop_def same_sentence_def by fastforce

lemma calm_conv_step:
  assumes "db_of w' = db_of w" and "\<And>t. tk_conv t = conv_of w \<Longrightarrow> call_step (en_readers E) t (t\<lparr>tk_conv := conv_of w'\<rparr>)"
  shows "calm E w w'"
proof (rule calm_step)
  fix t assume "shows_loop t w"
  then have "tk_conv t = conv_of w" "tk_db t = db_of w'" using assms(1) by (simp_all add: shows_loop_def)
  from assms(2) [OF this(1)] this(2) show "call_step (en_readers E) t (t\<lparr>tk_conv := conv_of w', tk_db := db_of w'\<rparr>)"
    by (simp only: talk_same)
qed

lemma calm_aside:
  assumes "db_of w' = db_of w" and "draft_view (conv_of w') = draft_view (conv_of w) \<or> cv_stage (conv_of w') \<noteq> SReadback"
    and "cv_call_id (conv_of w') = cv_call_id (conv_of w)" and "cv_tenant_id (conv_of w') = cv_tenant_id (conv_of w)"
  shows "calm E w w'"
  using assms by (intro calm_conv_step) (auto intro: call_step.aside)

lemma calm_elsewhere:
  assumes "conv_of w' = conv_of w" and "no_other_yes (cv_call_id (conv_of w)) (db_of w) (db_of w')"
  shows "calm E w w'"
proof (rule calm_step)
  fix t assume "shows_loop t w"
  then have "tk_conv t = conv_of w'" "tk_db t = db_of w" using assms(1) by (simp_all add: shows_loop_def)
  then show "call_step (en_readers E) t (t\<lparr>tk_conv := conv_of w', tk_db := db_of w'\<rparr>)"
    using call_step.elsewhere [of t "db_of w'" "en_readers E"] assms by (simp add: talk_same(1))
qed

lemma no_other_refl: "orders d' = orders d \<Longrightarrow> no_other_yes k d d'"
  by (auto simp: no_other_yes_def)

lemma loud_says: "loud E w (tells E say w)"
  unfolding loud_def
proof (intro allI impI)
  fix t assume t: "shows_loop t w"
  let ?t = "t\<lparr>tk_conv := note_said (en_readers E) say (tk_conv t), tk_last := Some say, tk_phase := Listening\<rparr>"
  have "call_step (en_readers E) t ?t" by (rule call_step.says)
  then show "\<exists>t'. (call_step (en_readers E))\<^sup>*\<^sup>* t t' \<and> shows_loop t' (tells E say w) \<and> tk_text t' = tk_text t \<and> tk_yes t' = tk_yes t"
    using t by (intro exI [of _ ?t]) (auto simp: shows_loop_def tells_def set_conv_def on_conv_def conv_of_def db_of_def)
qed

section \<open>What the tools leave alone\<close>

text \<open>Restaurant, settings and calls stay who they are; \<open>same_orders\<close> besides the orders.\<close>

definition who_calls :: "db \<Rightarrow> (uuid \<times> uuid) list" where
  "who_calls d = map (\<lambda>c. (c_id c, c_tenant_id c)) (calls d)"

definition keeps :: "db \<Rightarrow> db \<Rightarrow> bool" where
  "keeps d d' \<longleftrightarrow> tenants d' = tenants d \<and> service_configs d' = service_configs d \<and> who_calls d' = who_calls d"

definition keeps_orders :: "db \<Rightarrow> db \<Rightarrow> bool" where
  "keeps_orders d d' \<longleftrightarrow> keeps d d' \<and> orders d' = orders d"

lemma keeps_refl [simp]: "keeps d d" "keeps_orders d d"
  by (simp_all add: keeps_def keeps_orders_def)

lemma keeps_trans: "keeps a b \<Longrightarrow> keeps b c \<Longrightarrow> keeps a c"
  by (simp add: keeps_def)

lemma keeps_orders_trans: "keeps_orders a b \<Longrightarrow> keeps_orders b c \<Longrightarrow> keeps_orders a c"
  using keeps_trans by (auto simp: keeps_orders_def)

lemma keeps_upd_calls:
  "(\<And>c. c_id (f c) = c_id c \<and> c_tenant_id (f c) = c_tenant_id c) \<Longrightarrow> keeps_orders d (d\<lparr>calls := upd_rows p f (calls d)\<rparr>)"
  by (simp add: keeps_orders_def keeps_def who_calls_def upd_rows_def)

lemma keeps_log: "keeps_orders d (append_tool_call tid cid name r d)"
  unfolding append_tool_call_def by (rule keeps_upd_calls) simp

lemma orders_log [simp]: "orders (append_tool_call tid cid name r d) = orders d"
  by (simp add: append_tool_call_def)

lemma keeps_contact: "keeps_orders d (note_contact tid cid p at n d)"
  by (simp add: keeps_orders_def keeps_def who_calls_def note_contact_def)

lemma keeps_audit: "keeps_orders d (add_audit t w a n i p d)"
  by (simp add: keeps_orders_def keeps_def who_calls_def add_audit_def)

lemma keeps_enqueue: "enqueue tid ty p d = Inr (e, d') \<Longrightarrow> keeps_orders d d'"
  by (auto simp: enqueue_def raise_err_def Let_def keeps_orders_def keeps_def who_calls_def split: if_splits)

lemma keeps_hand_over: "keeps_orders d (hand_over tid call r now d)"
proof -
  have 1: "keeps_orders d (set_call (c_id call) (\<lambda>c. c\<lparr>transfer_reason := v\<rparr>) d)" for v
    unfolding set_call_def by (rule keeps_upd_calls) simp
  note 2 = keeps_orders_trans [OF 1 keeps_audit]
  show ?thesis
    unfolding hand_over_def Let_def by (auto simp: 2 intro!: 2 keeps_orders_trans [OF 2 keeps_contact] split: option.split)
qed

lemma keeps_transfer: "transfer_to_team tid cid r now d = Inr (t, d') \<Longrightarrow> keeps_orders d d'"
  by (auto simp: transfer_to_team_def raise_err_def Let_def keeps_hand_over split: option.splits if_splits)

lemma keeps_write_card: "write_card req phone summary now who d = Inr (t, d') \<Longrightarrow> keeps_orders d d'"
proof -
  assume w: "write_card req phone summary now who d = Inr (t, d')"
  let ?c = "new_card req phone summary now (next_id d)"
  let ?d1 = "d\<lparr>callbacks := callbacks d @ [?c], next_id := Suc (next_id d)\<rparr>"
  have 1: "keeps_orders d ?d1" by (simp add: keeps_orders_def keeps_def who_calls_def)
  note 2 = keeps_orders_trans [OF keeps_orders_trans [OF 1 keeps_contact] keeps_audit]
  from w obtain x d2 where "enqueue (cbq_tenant_id req) CALLBACK_CREATED x (add_audit (cbq_tenant_id req) who ACTION_CALLBACK ''callback'' (cb_id ?c)
      (JObj [(''call_id'', JId (cbq_call_id req)), (''reason'', JStr (reason_str (cbq_reason req)))])
      (note_contact (cbq_tenant_id req) (cbq_call_id req) phone now None ?d1)) = Inr (d2, d')"
    by (auto simp: write_card_def Let_def andthen_def split: sum.splits)
  from keeps_orders_trans [OF 2 keeps_enqueue [OF this]] show ?thesis .
qed

lemma keeps_callback: "create_callback req now who d = Inr (t, d') \<Longrightarrow> keeps_orders d d'"
  by (auto simp: create_callback_def Let_def raise_err_def andthen_def
      split: option.splits if_splits sum.splits intro: keeps_write_card)

lemma keeps_create_reservation: "create_reservation req now d = Inr (a, d') \<Longrightarrow> keeps_orders d d'"
proof -
  have new: "keeps_orders d (add_audit t w a n i p (d\<lparr>reservations := rs, next_id := k\<rparr>))" for t w a n i p rs k
    by (rule keeps_orders_trans [OF _ keeps_audit]) (simp add: keeps_orders_def keeps_def who_calls_def)
  assume "create_reservation req now d = Inr (a, d')"
  then show ?thesis
    by (auto simp: create_reservation_def Let_def raise_err_def andthen_def new
        split: option.splits if_splits sum.splits)
qed

lemma keeps_confirm_table: "confirm_table req now d = Inr (c, d') \<Longrightarrow> keeps_orders d d'"
proof -
  have book: "keeps_orders d0 d'" if "book_table r who p d0 = Inr d'" for r who p d0 d'
  proof -
    let ?d1 = "set_reservation (r_id r) (\<lambda>r. r\<lparr>r_status := RConfirmed\<rparr>) d0"
    have 1: "keeps_orders d0 ?d1" by (simp add: keeps_orders_def keeps_def who_calls_def set_reservation_def)
    from that obtain e where "enqueue (r_tenant_id r) RESERVATION_CONFIRMED (reservation_event r)
        (add_audit (r_tenant_id r) who ACTION_TABLE_CONFIRMED ''reservation'' (r_id r) p ?d1) = Inr (e, d')"
      by (auto simp: book_table_def Let_def andthen_def split: sum.splits)
    from keeps_orders_trans [OF keeps_orders_trans [OF 1 keeps_audit] keeps_enqueue [OF this]] show ?thesis .
  qed
  assume "confirm_table req now d = Inr (c, d')"
  then show ?thesis
    by (auto simp: confirm_table_def confirm_reservation_def Let_def raise_err_def andthen_def
        split: option.splits if_splits sum.splits dest!: book intro: keeps_orders_trans [OF keeps_contact])
qed

section \<open>The parts of a turn\<close>

lemma loop_sel [simp]:
  "conv_of (set_conv f w) = f (conv_of w)" "db_of (set_conv f w) = db_of w"
  "conv_of (set_line g w) = ln_conv (g (lo_line w))" "db_of (set_line g w) = db_of w"
  "conv_of (set_db d w) = conv_of w" "db_of (set_db d w) = d"
  "conv_of (on_ladder h w) = conv_of w" "db_of (on_ladder h w) = db_of w"
  "conv_of (tick w) = conv_of w" "db_of (tick w) = db_of w"
  "conv_of (w\<lparr>lo_asked := n\<rparr>) = conv_of w" "db_of (w\<lparr>lo_asked := n\<rparr>) = db_of w"
  "conv_of (w\<lparr>lo_unheard := k\<rparr>) = conv_of w" "db_of (w\<lparr>lo_unheard := k\<rparr>) = db_of w"
  "conv_of (w\<lparr>lo_house := hh\<rparr>) = conv_of w" "db_of (w\<lparr>lo_house := hh\<rparr>) = h_db hh"
  by (simp_all add: conv_of_def db_of_def set_conv_def set_line_def set_db_def on_ladder_def tick_def on_conv_def)

lemma loop_sel2 [simp]:
  "conv_of (turn_tick E started w) = conv_of w" "db_of (turn_tick E started w) = db_of w"
  "conv_of (take_result E name r args w) = apply_tool_result (en_readers E) name r args (conv_of w)"
  "db_of (take_result E name r args w) = db_of w"
  "conv_of (log_refused name r w) = conv_of w"
  "db_of (log_refused name r w) = append_tool_call (cv_tenant_id (conv_of w)) (cv_call_id (conv_of w)) name r (db_of w)"
  by (simp_all add: turn_tick_def take_result_def log_refused_def)

lemma calm_tick: "calm E w (tick w)" "calm E w (turn_tick E started w)" "calm E w (on_ladder h w)"
  "calm E w (w\<lparr>lo_asked := n\<rparr>)" "calm E w (w\<lparr>lo_unheard := k\<rparr>)"
  by (rule calm_same; simp)+

lemma calm_log: "calm E w (log_refused name r w)"
  by (rule calm_elsewhere) (simp_all add: no_other_refl)

lemma calm_replaced: "calm E w (set_conv (draft_replaced name) w)"
  by (rule calm_conv_step) (simp, metis call_step.allergy loop_sel(1))

lemma calm_intent: "calm E w (set_conv (note_intent text) w)"
  by (rule calm_conv_step) (simp, metis call_step.intent loop_sel(1))

lemma calm_view:
  "db_of w' = db_of w \<Longrightarrow> draft_view (conv_of w') = draft_view (conv_of w) \<Longrightarrow>
    cv_call_id (conv_of w') = cv_call_id (conv_of w) \<Longrightarrow> cv_tenant_id (conv_of w') = cv_tenant_id (conv_of w) \<Longrightarrow> calm E w w'"
  by (rule calm_aside) simp_all

text \<open>A tool of the core: callback or handover, in any phase.\<close>

definition core_tool :: "str \<Rightarrow> bool" where
  "core_tool name \<longleftrightarrow> name \<in> {''create_callback'', ''transfer_to_team''}"

lemma core_tool_orders: "core_tool name \<Longrightarrow> run_tool E tid cid name args d = (r, d') \<Longrightarrow> keeps_orders d d'"
  by (auto simp: core_tool_def run_tool_def answered_by_def intro: keeps_transfer keeps_callback split: option.splits sum.splits)

lemma dispatch_eq:
  assumes "dispatch E name args w = (r, w')"
  obtains d where "run_tool E (cv_tenant_id (conv_of w)) (cv_call_id (conv_of w)) name (own_args args) (db_of w) = (r, d)"
    and "w' = set_db (append_tool_call (cv_tenant_id (conv_of w)) (cv_call_id (conv_of w)) name r d) w"
  using assms by (auto simp: dispatch_def Let_def split: prod.splits)

text \<open>The row of a tool in the log comes after the tool.\<close>

lemma after_log:
  assumes "\<And>X. conv_of X = c \<Longrightarrow> db_of X = d \<Longrightarrow> works E th w X" and "conv_of w' = c"
    and "db_of w' = append_tool_call tid cid name r d"
  shows "works E th w w'"
proof -
  let ?X = "set_db d w'"
  have "works E th w ?X" by (rule assms(1)) (simp_all add: assms(2))
  moreover have "calm E ?X w'"
    by (rule calm_elsewhere) (simp_all add: assms(2,3) no_other_refl)
  ultimately show ?thesis by (rule works_trans [OF _ calm_works])
qed

lemma calm_core:
  assumes "dispatch E name args w = (r, w')" and n: "core_tool name"
  shows "calm E w (take_result E name r a w')"
proof (rule dispatch_eq [OF assms(1)])
  let ?s = "conv_of w" let ?n = "append_tool_call (cv_tenant_id ?s) (cv_call_id ?s) name r"
  let ?c = "\<lparr>tc_name = name, tc_args = a\<rparr>"
  fix d assume d: "run_tool E (cv_tenant_id ?s) (cv_call_id ?s) name (own_args args) (db_of w) = (r, d)" and w': "w' = set_db (?n d) w"
  have o: "orders (?n d) = orders (db_of w)"
    using core_tool_orders [OF n d] by (simp add: keeps_orders_def)
  show ?thesis
    unfolding calm_def
  proof (intro allI impI)
    fix t assume t: "shows_loop t w"
    have "tk_db t = db_of w" using t by (simp add: shows_loop_def)
    with o have "no_other_yes (cv_call_id (tk_conv t)) (tk_db t) (?n d)" by (intro no_other_refl) simp
    moreover have "tc_name ?c \<in> {''create_callback'', ''transfer_to_team''}" using n by (simp add: core_tool_def)
    ultimately have "call_step (en_readers E) t (after_tool (en_readers E) ?c r (?n d) t)" by (intro call_step.core)
    then show "\<exists>t'. (call_step (en_readers E))\<^sup>*\<^sup>* t t' \<and> shows_loop t' (take_result E name r a w') \<and> same_sentence t t' \<and> tk_yes t' = tk_yes t"
      using n t by (intro exI [of _ "after_tool (en_readers E) ?c r (?n d) t"])
        (use n in \<open>simp add: after_tool_def shows_loop_def same_sentence_def core_tool_def w', auto\<close>)
  qed
qed

text \<open>A call of the model that was let through, and one that was refused.\<close>

lemma jget_own_args: "k \<noteq> ''call_id'' \<Longrightarrow> k \<noteq> ''tenant_id'' \<Longrightarrow> jget k (own_args a) = jget k a"
proof (cases a)
  case (JObj kvs)
  assume "k \<noteq> ''call_id''" "k \<noteq> ''tenant_id''"
  then have "map_of (filter (\<lambda>(k, v). k \<notin> {''call_id'', ''tenant_id''}) kvs) k = map_of kvs k"
    by (induction kvs) auto
  then show ?thesis by (simp add: own_args_def JObj)
qed (simp_all add: own_args_def)

lemma answered_by_cases: "answered_by js say d x = (r, d') \<Longrightarrow> d' = d \<or> (\<exists>a. x = Inr (a, d'))"
  by (auto simp: answered_by_def split: sum.splits)

lemma other_tool_orders:
  assumes "run_tool E tid cid name args d = (r, d')" and "name \<noteq> ''draft_order''" and "name \<noteq> ''confirm''"
  shows "keeps_orders d d'"
  using assms
  by (auto simp: run_tool_def answered_by_def keeps_transfer keeps_callback keeps_create_reservation
      split: if_splits option.splits sum.splits prod.splits)

lemma through_step:
  assumes ref: "refusal (en_readers E) (tk_conv t) (tk_start t) (tk_text t) c sent = None" and ph: "tk_phase t = Answering"
    and run: "run_tool E (cv_tenant_id (tk_conv t)) (cv_call_id (tk_conv t)) (tc_name c) (own_args args) (tk_db t) = (r, d)"
    and conf: "tc_name c = ''confirm'' \<Longrightarrow> args = tc_args c"
  shows "call_step (en_readers E) t (after_tool (en_readers E) c r d t)"
proof -
  have invalid: "call_step (en_readers E) t (after_tool (en_readers E) c (invalid_args E (tc_name c) (own_args args)) (tk_db t) t)"
    by (rule call_step.invalid [OF ph ref]) (simp add: invalid_args_def)
  have tool: "call_step (en_readers E) t (after_tool (en_readers E) c r d t)" if "tc_name c \<noteq> ''draft_order''" "keeps_orders (tk_db t) d"
    by (rule call_step.tool [OF ph ref]) (use that in \<open>simp_all add: keeps_orders_def no_other_refl\<close>)
  consider "tc_name c = ''draft_order''" | "tc_name c = ''confirm''" | "tc_name c \<noteq> ''draft_order''" "tc_name c \<noteq> ''confirm''" by blast
  then show ?thesis
  proof cases
    case 1
    show ?thesis
    proof (cases "en_draft_args E (own_args args)")
      case None
      then show ?thesis using run invalid 1 by (simp add: run_tool_def)
    next
      case (Some q)
      then have "dispatch_draft (q\<lparr>dr_tenant_id := cv_tenant_id (tk_conv t), dr_call_id := cv_call_id (tk_conv t)\<rparr>) (en_now E) (tk_db t) = (r, d)"
        using run 1 by (simp add: run_tool_def)
      then show ?thesis by (intro call_step.draft [OF ph ref 1]) simp_all
    qed
  next
    case 2
    note a = conf [OF 2]
    show ?thesis
    proof (cases "confirm_args E (cv_tenant_id (tk_conv t)) (cv_call_id (tk_conv t)) (own_args args)")
      case None
      then show ?thesis using run invalid 2 by (simp add: run_tool_def)
    next
      case (Some p)
      obtain e q where p: "p = (e, q)" by (cases p)
      from Some have q: "cq_call_id q = cv_call_id (tk_conv t)" "cq_tenant_id q = cv_tenant_id (tk_conv t)"
        "id_of (jget ''entity_id'' (tc_args c)) = Some (cq_entity_id q)"
        by (auto simp: p confirm_args_def Let_def jget_own_args a split: option.splits json.splits if_splits)
      show ?thesis
      proof (cases e)
        case OrderEntity
        then have "dispatch_confirm q (en_now E) (tk_db t) = (r, d)" using run Some 2 by (simp add: run_tool_def p)
        with q show ?thesis by (intro call_step.confirm [OF ph ref 2]) simp_all
      next
        case ReservationEntity
        then have "answered_by confirmation_json (\<lambda>_. None) (tk_db t) (confirm_table q (en_now E) (tk_db t)) = (r, d)"
          using run Some 2 by (simp add: run_tool_def p)
        then have "keeps_orders (tk_db t) d" using answered_by_cases keeps_confirm_table by fastforce
        then show ?thesis using tool 2 by simp
      qed
    qed
  next
    case 3
    then show ?thesis using tool other_tool_orders [OF run] by simp
  qed
qed

lemma works_tool:
  assumes ref: "refusal (en_readers E) (conv_of w) (th_start th) (th_text th) c sent = None"
    and disp: "dispatch E (tc_name c) args w = (r, w')" and conf: "tc_name c = ''confirm'' \<Longrightarrow> args = tc_args c"
  shows "works E th w (take_result E (tc_name c) r (tc_args c) w')"
proof (rule dispatch_eq [OF disp])
  let ?s = "conv_of w" let ?n = "append_tool_call (cv_tenant_id ?s) (cv_call_id ?s) (tc_name c) r"
  fix d assume d: "run_tool E (cv_tenant_id ?s) (cv_call_id ?s) (tc_name c) (own_args args) (db_of w) = (r, d)" and w': "w' = set_db (?n d) w"
  show ?thesis
  proof (rule after_log)
    fix X assume X: "conv_of X = apply_tool_result (en_readers E) (tc_name c) r (tc_args c) ?s" "db_of X = d"
    show "works E th w X"
      unfolding works_def
    proof (intro allI impI)
      fix t assume t: "shows_loop t w \<and> in_turn th t"
      let ?t = "after_tool (en_readers E) c r d t"
      have "call_step (en_readers E) t ?t"
        by (rule through_step [of E t c sent args]) (use ref d conf t in \<open>simp_all add: shows_loop_def in_turn_def\<close>)
      moreover have "yes_of_turn t ?t"
        using refusal_confirm [OF ref] t by (auto simp: yes_of_turn_def after_tool_def may_confirm_def in_turn_def)
      ultimately show "\<exists>t'. (call_step (en_readers E))\<^sup>*\<^sup>* t t' \<and> shows_loop t' X \<and> in_turn th t' \<and> yes_of_turn t t'"
        using X t by (intro exI [of _ ?t] conjI r_into_rtranclp) (simp_all add: after_tool_def shows_loop_def in_turn_def)
    qed
  qed (simp_all add: w')
qed

lemma works_refused:
  assumes "refusal (en_readers E) (conv_of w) (th_start th) (th_text th) c sent = Some r"
  shows "works E th w (take_result E (tc_name c) r (tc_args c) (log_refused (tc_name c) r w))"
proof (rule after_log)
  fix X assume X: "conv_of X = apply_tool_result (en_readers E) (tc_name c) r (tc_args c) (conv_of w)" "db_of X = db_of w"
  show "works E th w X"
    unfolding works_def
  proof (intro allI impI)
    fix t assume t: "shows_loop t w \<and> in_turn th t"
    let ?t = "t\<lparr>tk_conv := apply_tool_result (en_readers E) (tc_name c) r (tc_args c) (tk_conv t)\<rparr>"
    have "call_step (en_readers E) t ?t"
      by (rule call_step.refuse [of t _ c sent]) (use assms t in \<open>simp_all add: shows_loop_def in_turn_def\<close>)
    then show "\<exists>t'. (call_step (en_readers E))\<^sup>*\<^sup>* t t' \<and> shows_loop t' X \<and> in_turn th t' \<and> yes_of_turn t t'"
      using X t by (intro exI [of _ ?t] conjI r_into_rtranclp) (simp_all add: shows_loop_def in_turn_def yes_of_turn_def)
  qed
qed simp_all

end
