(* ===== verification/Conversation.thy ===== *)
theory Conversation
  imports TurnRun
begin

text \<open>
  The loop of the agent takes the steps of \<open>CallRun\<close> and no other: what the core does by itself, every hop of a
  turn and at last \<open>run_turn\<close> itself is a run of \<open>call_step\<close>, whatever the model, the clock and the reading tools answer.
  So an order of the call gets past its draft only with the yes of the guest to the draft that was read out to
  them before.
\<close>

section \<open>What the core does by itself\<close>

lemma house_calm: "orders (h_db h) = orders (db_of w) \<Longrightarrow> calm E w (w\<lparr>lo_house := h\<rparr>)"
  by (rule calm_elsewhere) (simp_all add: no_other_refl)

lemma line_calm: "ln_conv (g (lo_line w)) = conv_of w \<Longrightarrow> calm E w (set_line g w)"
  by (rule calm_same) simp_all

lemma core_tools [simp]: "core_tool ''create_callback''" "core_tool ''transfer_to_team''"
  by (simp_all add: core_tool_def)

lemma handoff_calm: "calm E w (snd (handoff E fb reason detail summary ask w))"
proof -
  let ?a = "JObj [(''reason'', JStr reason)]"
  obtain r v where r: "dispatch E ''transfer_to_team'' ?a w = (r, v)" by fastforce
  define u where "u = take_result E ''transfer_to_team'' r (JObj []) v"
  have u: "calm E w u" unfolding u_def by (rule calm_core [OF r]) simp
  have line: "calm E w (set_line g x)" if "calm E w x" "\<And>l. ln_conv (g l) = ln_conv l" for g x
    by (rule calm_trans [OF that(1) line_calm]) (simp add: that conv_of_def)
  have ended: "calm E w (set_conv (\<lambda>s. s\<lparr>cv_stage := SEnded\<rparr>) x)" if "calm E w x" for x
    by (rule calm_trans [OF that calm_aside]) simp_all
  have card: "calm E w (take_result E ''create_callback'' (fst (dispatch E ''create_callback'' b u)) (JObj [])
      (snd (dispatch E ''create_callback'' b u)))" for b
    by (rule calm_trans [OF u calm_core]) simp_all
  show ?thesis
    unfolding handoff_def Let_def r split_beta fst_conv snd_conv u_def [symmetric]
    by (simp add: u line ended card split: option.split)
qed

lemma handoff_result: "handoff E fb reason detail summary ask w = (said, v) \<Longrightarrow> calm E w v"
  using handoff_calm [of E w fb reason detail summary ask] by simp

lemma to_team_calm: "calm E w (snd (to_team E th fb w))"
  by (simp add: to_team_def handoff_calm)

lemma calm_conv:
  "draft_view (f (conv_of w)) = draft_view (conv_of w) \<Longrightarrow> cv_call_id (f (conv_of w)) = cv_call_id (conv_of w) \<Longrightarrow>
    cv_tenant_id (f (conv_of w)) = cv_tenant_id (conv_of w) \<Longrightarrow> calm E w (set_conv f w)"
  by (rule calm_view) simp_all

lemma settles_calm: "settles (conv_of w) (f (conv_of w)) \<Longrightarrow> calm E w (set_conv f w)"
  by (rule calm_aside) (simp_all add: settles_def dropped_def)

lemma calm_then_loud: "calm E a b \<Longrightarrow> loud E b c \<Longrightarrow> loud E a c"
  by (rule loud_trans [OF calm_loud])

lemma loud_then_calm: "loud E a b \<Longrightarrow> calm E b c \<Longrightarrow> loud E a c"
  by (rule loud_trans [OF _ calm_loud])

lemma calm_then_says: "calm E a b \<Longrightarrow> loud E a (tells E say b)"
  by (rule calm_then_loud [OF _ loud_says])

lemma allergens_to_team_loud: "loud E w (snd (allergens_to_team E dish lead table card_text w))"
proof -
  note 1 = handoff_calm [of E w]
  show ?thesis
    unfolding allergens_to_team_def Let_def split_beta fst_conv snd_conv
    by (simp add: calm_loud [OF 1] calm_then_says [OF 1])
qed

lemma note_to_team_loud: "loud E w (snd (note_to_team E c w))"
proof -
  let ?w = "set_line (\<lambda>l. l\<lparr>ln_held := None\<rparr>) w"
  have 1: "calm E w ?w" by (rule line_calm) (simp add: conv_of_def)
  have "calm E ?w (set_conv (\<lambda>s. s\<lparr>cv_cart := ls\<rparr>) ?w)" for ls by (rule calm_conv) (simp_all add: draft_view_def)
  from calm_trans [OF 1 this] 1 have "calm E w (if b then ?w else case x of None \<Rightarrow> ?w | Some ls \<Rightarrow> set_conv (\<lambda>s. s\<lparr>cv_cart := ls\<rparr>) ?w)"
    for b x by (simp split: option.split)
  then show ?thesis unfolding note_to_team_def Let_def by (rule calm_then_loud [OF _ allergens_to_team_loud])
qed

lemma table_to_team_calm: "table_to_team E args lead w = Some (said, v) \<Longrightarrow> calm E w v"
proof -
  have card: "calm E w (take_result E ''create_callback'' t (JObj []) x)" if "dispatch E ''create_callback'' b w = (t, x)" for b t x
    by (rule calm_core [OF that]) simp
  show "table_to_team E args lead w = Some (said, v) \<Longrightarrow> calm E w v"
    unfolding table_to_team_def Let_def
    by (auto simp: card split: option.splits prod.splits if_splits dest!: handoff_result intro: calm_trans [OF card])
qed

lemma offer_remedy_loud: "offer_remedy E text w = Some (said, v) \<Longrightarrow> loud E w v"
proof -
  have "loud E w (tells E say (set_line (\<lambda>l. l\<lparr>ln_offer := r\<rparr>) w))" for say r
    by (rule calm_then_says, rule line_calm) (simp add: conv_of_def)
  then show "offer_remedy E text w = Some (said, v) \<Longrightarrow> loud E w v"
    by (auto simp: offer_remedy_def split: if_splits)
qed

lemma complaint_card_calm: "calm E w (snd (complaint_card E r f w))"
proof -
  have "calm E w (take_result E ''create_callback'' t (JObj []) x)" if "dispatch E ''create_callback'' b w = (t, x)" for b t x
    by (rule calm_core [OF that]) simp
  then show ?thesis by (simp add: complaint_card_def split: prod.split)
qed

lemma book_remedy_calm: "calm E w (snd (book_remedy E r w))"
proof -
  let ?w = "set_db (note_remedy (cv_tenant_id (conv_of w)) (cv_call_id (conv_of w)) (ro_rule_id r) (ro_cents r) (db_of w)) w"
  have "calm E w ?w" by (rule calm_elsewhere) (simp_all add: no_other_refl note_remedy_def add_audit_def)
  from calm_trans [OF this complaint_card_calm] complaint_card_calm show ?thesis
    by (simp add: book_remedy_def split_beta)
qed

lemma guest_calm: "calm E w (set_conv (\<lambda>s. snd (note_guest_details R text s)) w)"
  by (rule settles_calm) (rule settles_guest)

lemma offer_answered_calm: "calm E w (snd (offer_answered E r text w))"
proof -
  let ?w = "set_conv (\<lambda>s. snd (note_guest_details (en_readers E) text s)) (set_line (\<lambda>l. l\<lparr>ln_offer := None\<rparr>) w)"
  have "calm E w (set_line (\<lambda>l. l\<lparr>ln_offer := None\<rparr>) w)" by (rule line_calm) (simp add: conv_of_def)
  from calm_trans [OF this guest_calm] have 1: "calm E w ?w" .
  have 2: "calm E w (snd (book_remedy E r ?w))" by (rule calm_trans [OF 1 book_remedy_calm])
  show ?thesis
    unfolding offer_answered_def Let_def split_beta fst_conv snd_conv
    by (simp add: 2 calm_trans [OF 1 handoff_calm] calm_trans [OF 2 handoff_calm])
qed

lemma callback_answered_loud: "loud E w (snd (callback_answered E text w))"
proof -
  let ?w = "set_conv (\<lambda>s. snd (note_guest_details (en_readers E) text s)) (set_conv (\<lambda>s. s\<lparr>cv_asked_for_phone := True\<rparr>) w)"
  have "calm E w (set_conv (\<lambda>s. s\<lparr>cv_asked_for_phone := True\<rparr>) w)" by (rule calm_conv) (simp_all add: draft_view_def)
  from calm_trans [OF this guest_calm] have 1: "calm E w ?w" .
  have 2: "calm E w (set_line g ?w)" if "\<And>l. ln_conv (g l) = ln_conv l" for g
    by (rule calm_trans [OF 1 line_calm]) (simp add: that conv_of_def)
  have 3: "loud E w (snd (handoff E fb reason detail summary ask (set_line g ?w)))"
    if "\<And>l. ln_conv (g l) = ln_conv l" for fb reason detail summary ask g
    using calm_trans [OF 2 handoff_calm] that by (intro calm_loud) metis
  show ?thesis
    unfolding callback_answered_def Let_def split_beta fst_conv snd_conv
    by (auto intro!: calm_then_says 2 3)
qed

lemma callback_without_number_calm: "calm E w (snd (callback_without_number E args text rep w))"
proof -
  have 1: "calm E w (take_result E ''transfer_to_team'' t (JObj []) x)" if "dispatch E ''transfer_to_team'' b w = (t, x)" for b t x
    by (rule calm_core [OF that]) simp
  have 2: "calm E w x \<Longrightarrow> calm E w (set_conv (\<lambda>s. s\<lparr>cv_asked_for_phone := True\<rparr>) x)" for x
    by (rule calm_trans [OF _ calm_conv]) (simp_all add: draft_view_def)
  have 3: "calm E w x \<Longrightarrow> calm E w (on_ladder h x)" for x h by (rule calm_trans [OF _ calm_tick(3)])
  show ?thesis
    unfolding callback_without_number_def Let_def
    by (auto split: prod.splits intro!: 1 2 3 dest!: handoff_result intro: calm_trans [OF 3 [OF 1]])
qed

section \<open>The hops of a turn\<close>

definition hop_ok :: "env \<Rightarrow> this_turn \<Rightarrow> loop \<Rightarrow> hop \<times> loop \<Rightarrow> bool" where
  "hop_ok E th w x \<longleftrightarrow> (case fst x of Over _ \<Rightarrow> ends E th w (snd x) | Next _ \<Rightarrow> works E th w (snd x) | Raised \<Rightarrow> True)"

lemma hop_ok_sel [simp]: "hop_ok E th w (Over said, v) = ends E th w v" "hop_ok E th w (Next ca, v) = works E th w v"
  "hop_ok E th w (Raised, v)"
  by (simp_all add: hop_ok_def)

lemma hop_then: "works E th w v \<Longrightarrow> hop_ok E th v x \<Longrightarrow> hop_ok E th w x"
  by (auto simp: hop_ok_def split: hop.splits intro: works_trans works_then_ends)

lemmas calm_hop = hop_then [OF calm_works]

lemma hop_if: "(b \<Longrightarrow> hop_ok E th w x) \<Longrightarrow> (\<not> b \<Longrightarrow> hop_ok E th w y) \<Longrightarrow> hop_ok E th w (if b then x else y)"
  by simp

lemma over_ok: "loud E w (snd x) \<Longrightarrow> hop_ok E th w (over x)"
  by (simp add: over_def loud_ends)

lemma over_team: "hop_ok E th w (over (to_team E th fb (tick w)))" "hop_ok E th w (over (to_team E th fb (turn_tick E st (tick w))))"
  "hop_ok E th w (over (to_team E th fb w))"
  by (rule over_ok, rule calm_loud, rule calm_trans [OF calm_tick(1) to_team_calm])
     (rule over_ok, rule calm_loud, rule calm_trans [OF calm_trans [OF calm_tick(1,2)] to_team_calm],
      rule over_ok, rule calm_loud, rule to_team_calm)

lemma tells_ends: "calm E w v \<Longrightarrow> ends E th w (tells E say v)"
  by (simp add: loud_ends calm_then_says)

lemma team_ends: "calm E w v \<Longrightarrow> to_team E th' fb v = (said, u) \<Longrightarrow> ends E th w u"
  using calm_trans [of E w v u] to_team_calm [of E v th' fb] by (simp add: loud_ends calm_loud)

lemma sentence_ok: "hop_ok E th w (sentence_hop E th ca say w)"
proof -
  have log: "calm E w (log_refused SAY r w)" for r by (rule calm_log)
  have team: "hop_ok E th w (over (allergens_to_team E dish lead table t (log_refused SAY r w)))" for dish lead table t r
    by (rule over_ok) (rule calm_then_loud [OF log allergens_to_team_loud])
  show ?thesis
    unfolding sentence_hop_def Let_def
    by (auto simp: team tells_ends calm_refl calm_works [OF log] split: option.split)
qed

lemma clock_then: "calm E w (turn_tick E st (tick w))"
  by (rule calm_trans [OF calm_tick(1,2)])

lemma booked_ok: "hop_ok E th w (booked_hop E th r w)"
proof -
  define say where "say = booked_say (conv_of w) (tr_data r) (order_name E w)"
  let ?w = "set_conv (\<lambda>s. s\<lparr>cv_booking_say := Some say\<rparr>) w"
  have 1: "calm E w ?w" by (rule calm_conv) (simp_all add: draft_view_def)
  have "calm E w (tick ?w)" "calm E w (turn_tick E (th_started th) (tick ?w))"
    by (rule calm_trans [OF 1 calm_tick(1)]) (rule calm_trans [OF 1 clock_then])
  then show ?thesis
    unfolding booked_hop_def say_def [symmetric] Let_def by (auto simp: tells_ends split: prod.split intro: team_ends)
qed

lemma read_out_ok: "hop_ok E th w (read_out_hop E th said w)"
  by (simp add: read_out_hop_def over_team tells_ends clock_then)

lemma taken_ok: "hop_ok E th w (taken_hop E th ca c r w)"
  by (auto simp: taken_hop_def loud_ends [OF calm_loud] calm_refl calm_works over_def
      split: option.split dest: table_to_team_calm)

text \<open>A result: \<open>v\<close> before it is looked at, then taken into the state.\<close>

lemma result_ok:
  assumes "tc_name c = ''search_menu'' \<Longrightarrow> calm E w v" and "works E th w (take_result E (tc_name c) r (tc_args c) v)"
  shows "hop_ok E th w (result_hop E th ca from_hold c r v)"
proof -
  let ?v = "take_result E (tc_name c) r (tc_args c) v"
  have team: "hop_ok E th w (over (allergens_to_team E dish lead table t v))" if "calm E w v" for dish lead table t
    by (rule over_ok) (rule calm_then_loud [OF that allergens_to_team_loud])
  have after: "hop_ok E th ?v x \<Longrightarrow> hop_ok E th w x" for x by (rule hop_then [OF assms(2)])
  have unknown: "hop_ok E th ?v (over (allergens_to_team E dish lead table t ?v))" for dish lead table t
    by (rule over_ok) (rule allergens_to_team_loud)
  note number = callback_without_number_calm [of E ?v]
  have phone: "hop_ok E th ?v (case callback_without_number E (tc_args c) heard rep ?v of
      (Some said, u) \<Rightarrow> (Over said, u) | (None, u) \<Rightarrow> taken_hop E th ca' c r u)" for heard rep ca'
    using number [of "tc_args c" heard rep]
    by (auto simp: loud_ends calm_loud split: prod.split option.split intro: calm_hop [OF _ taken_ok])
  show ?thesis
    unfolding result_hop_def Let_def
    by (intro hop_if team after [OF unknown] after [OF read_out_ok] after [OF booked_ok] after [OF phone] after [OF taken_ok])
      (simp add: assms(1))
qed

text \<open>What the core writes into a call is not its name, and nothing of a \<open>confirm\<close>.\<close>

lemma noted_name: "tc_name (noted_call k s c) = tc_name c"
  by (simp add: noted_call_def Let_def split: json.split option.split)

lemma card_name: "tc_name (card_without_allergy W s c) = tc_name c"
  by (simp add: card_without_allergy_def split: json.split option.split)

lemma call_written_name: "tc_name (call_written E th c w) = tc_name c"
  by (simp add: call_written_def flag_the_allergy_question_def card_name noted_name)

lemma call_written_confirm: "tc_name c = ''confirm'' \<Longrightarrow> call_written E th c w = c"
  by (simp add: call_written_def flag_the_allergy_question_def card_without_allergy_def noted_call_def Let_def NOTED_def)

lemma search_calm: "dispatch E ''search_menu'' args w = (r, v) \<Longrightarrow> calm E w v"
proof (erule dispatch_eq)
  fix d
  assume r: "run_tool E (cv_tenant_id (conv_of w)) (cv_call_id (conv_of w)) ''search_menu'' (own_args args) (db_of w) = (r, d)"
    and v: "v = set_db (append_tool_call (cv_tenant_id (conv_of w)) (cv_call_id (conv_of w)) ''search_menu'' r d) w"
  have "keeps_orders (db_of w) d" by (rule other_tool_orders [OF r]) simp_all
  then show "calm E w v" unfolding v by (intro calm_elsewhere) (simp_all add: keeps_orders_def no_other_refl)
qed

lemma let_through_ok:
  assumes "refusal (en_readers E) (conv_of w) (th_start th) (th_text th) c sent = None"
  shows "hop_ok E th w (let_through_hop E th ca from_hold c w)"
proof -
  let ?c = "call_written E th c w"
  obtain r v where d: "dispatch E (tc_name c) (tc_args ?c) w = (r, v)" by fastforce
  have 1: "hop_ok E th w (result_hop E th ca from_hold c r v)"
  proof (rule result_ok)
    show "works E th w (take_result E (tc_name c) r (tc_args c) v)"
      by (rule works_tool [OF assms d]) (simp add: call_written_confirm)
  qed (use d search_calm in metis)
  have 2: "hop_ok E th w (over (note_to_team E c w))"
    by (rule over_ok) (rule note_to_team_loud)
  have 3: "calm E w (set_conv (draft_replaced (tc_name c)) (set_line (\<lambda>l. l\<lparr>ln_held := Some c\<rparr>) w))"
    by (rule calm_trans [OF line_calm calm_replaced]) (simp add: conv_of_def)
  show ?thesis
    unfolding let_through_hop_def Let_def call_written_name d by (auto simp: 1 2 tells_ends 3 split: option.split)
qed

lemma call_ok: "hop_ok E th w (call_hop E th ca from_hold cart_sent c w)"
proof (cases "if complains th c then offer_remedy E (th_text th) w else None")
  case (Some x)
  then have "loud E w (snd x)" by (cases x) (auto split: if_splits intro: offer_remedy_loud)
  from loud_then_calm [OF this calm_log] Some show ?thesis by (simp add: call_hop_def loud_ends)
next
  case None
  show ?thesis
  proof (cases "refusal (en_readers E) (conv_of w) (th_start th) (th_text th) c cart_sent")
    case r: None
    from let_through_ok [OF this] show ?thesis unfolding call_hop_def None r by simp
  next
    case (Some r)
    from result_ok [OF calm_log works_refused [OF Some]] show ?thesis unfolding call_hop_def None Some by simp
  qed
qed

lemma cart_ok: "hop_ok E th w (cart_hop E th ca from_hold t w)"
proof -
  have act: "hop_ok E th v (case lt_act t of Says say \<Rightarrow> sentence_hop E th ca say v
      | Calls c \<Rightarrow> call_hop E th ca from_hold b c v)" for v b
    by (simp add: sentence_ok call_ok split: llm_act.split)
  show ?thesis
  proof (cases "lt_cart t")
    case None
    then show ?thesis using act by (simp add: cart_hop_def)
  next
    case (Some j)
    obtain r s where r: "take_cart (en_readers E) j (conv_of w) = (r, s)" by fastforce
    let ?v = "set_conv (\<lambda>_. s) w"
    have v: "calm E w ?v" using settles_cart [of "conv_of w" "en_readers E" j] r by (intro settles_calm) simp
    show ?thesis
    proof (cases r)
      case None
      from calm_hop [OF v act] show ?thesis by (simp add: cart_hop_def Some r None)
    next
      case (Some x)
      then show ?thesis using calm_trans [OF v calm_log] by (simp add: cart_hop_def \<open>lt_cart t = Some j\<close> r calm_works)
    qed
  qed
qed

lemma answer_ok: "hop_ok E th w (answer_hop E th ca from_hold t w)"
  unfolding answer_hop_def Let_def
  by (simp add: cart_ok calm_hop [OF calm_tick(3) over_team(3)] calm_hop [OF calm_tick(3) cart_ok] split: option.split)

lemma patch_calm: "calm E w (take_patch E p w)"
proof -
  obtain named s where p: "apply_state_patch (en_readers E) p (conv_of w) = (named, s)" by fastforce
  then have "calm E w (set_conv (\<lambda>_. s) w)"
    using settles_patch [of "conv_of w" "en_readers E" p] by (intro settles_calm) simp
  from calm_trans [OF this calm_tick(3)] show ?thesis by (simp add: take_patch_def p)
qed

lemma after_answer_ok: "hop_ok E th w (after_answer E th ca from_hold t w)"
proof -
  define v where "v = (if reread_on_yes (conv_of w) (th_start th) (th_text th) (call_in t) = None then take_patch E (lt_patch t) w else w)"
  let ?u = "turn_tick E (th_started th) (tick v)"
  have v: "calm E w v" by (simp add: v_def patch_calm calm_refl)
  have u: "calm E w ?u" by (rule calm_trans [OF v clock_then])
  have reread: "ends E th w (tells E say ?u)" "ends E th w (tells E say (log_refused name r ?u))" for say r name
    by (rule tells_ends, rule u) (rule tells_ends, rule calm_trans [OF u calm_log])
  show ?thesis
    unfolding after_answer_def Let_def v_def [symmetric]
    by (intro hop_if calm_hop [OF v over_team(1)] calm_hop [OF v over_team(2)])
      (auto split: option.split intro: reread calm_hop [OF u answer_ok])
qed

lemma one_hop_ok: "hop_ok E th w (one_hop E th ca held w)"
proof -
  let ?u = "turn_tick E (th_started th) (tick w)"
  have "calm E w (?u\<lparr>lo_asked := n\<rparr>)" for n by (rule calm_trans [OF clock_then calm_tick(4)])
  note hop = calm_hop [OF clock_then after_answer_ok] calm_hop [OF this after_answer_ok] calm_hop [OF this over_team(3)]
  show ?thesis
    unfolding one_hop_def Let_def by (intro hop_if over_team) (auto split: option.split intro: hop)
qed

lemma hops_end: "hops E th n ca held w = Some (said, v) \<Longrightarrow> ends E th w v"
proof (induction n arbitrary: ca held w)
  case 0
  then show ?case using over_team(3) [of E th w SAY_STUCK] by (simp add: over_def)
next
  case (Suc n)
  obtain h u where h: "one_hop E th ca held w = (h, u)" by fastforce
  then have "hop_ok E th w (h, u)" using one_hop_ok by metis
  then show ?case using Suc h by (auto split: hop.splits intro: works_then_ends)
qed

section \<open>A sentence that was heard\<close>

text \<open>The yeses of a turn: to the draft that was read out before it, with one of the sentences \<open>X\<close>.\<close>

definition yes_said :: "str set \<Rightarrow> conv \<Rightarrow> talk \<Rightarrow> talk \<Rightarrow> bool" where
  "yes_said X s t t' \<longleftrightarrow> (\<forall>y \<in> set (tk_yes t'). y \<in> set (tk_yes t) \<or>
     y_text y \<in> X \<and> is_yes (y_text y) \<and> y_id y = begin_turn s \<and> begin_turn s \<noteq> None)"

text \<open>\<open>answers\<close>: from the sentence \<open>x\<close> on that was heard; \<open>hears\<close>: from \<open>Listening\<close> to \<open>Listening\<close>; \<open>still\<close>: the core reads
  the sentence, and the draft that waits is still that one or none.\<close>

definition answers :: "env \<Rightarrow> str \<Rightarrow> loop \<Rightarrow> loop \<Rightarrow> bool" where
  "answers E x w w' \<longleftrightarrow> (\<forall>t. shows_loop t w \<and> tk_phase t = Heard \<and> tk_text t = x \<longrightarrow>
     (\<exists>t'. (call_step (en_readers E))\<^sup>*\<^sup>* t t' \<and> shows_loop t' w' \<and> tk_text t' = x \<and> yes_said {x} (conv_of w) t t'))"

definition hears :: "env \<Rightarrow> str set \<Rightarrow> loop \<Rightarrow> loop \<Rightarrow> bool" where
  "hears E X w w' \<longleftrightarrow> (\<forall>t. shows_loop t w \<and> tk_phase t = Listening \<longrightarrow>
     (\<exists>t'. (call_step (en_readers E))\<^sup>*\<^sup>* t t' \<and> shows_loop t' w' \<and> tk_phase t' = Listening \<and> yes_said X (conv_of w) t t'))"

definition still :: "env \<Rightarrow> loop \<Rightarrow> loop \<Rightarrow> bool" where
  "still E w w' \<longleftrightarrow> calm E w w' \<and> settles (conv_of w) (conv_of w')"

lemma still_refl [simp]: "still E w w"
  by (simp add: still_def calm_refl)

lemma still_trans: "still E a b \<Longrightarrow> still E b c \<Longrightarrow> still E a c"
  unfolding still_def using calm_trans settles_trans by blast

lemma still_same: "calm E w v \<Longrightarrow> conv_of v = conv_of w \<Longrightarrow> still E w v"
  by (simp add: still_def)

lemma still_conv: "settles (conv_of w) (f (conv_of w)) \<Longrightarrow> still E w (set_conv f w)"
  by (simp add: still_def settles_calm)

lemma settles_begin: "settles s s' \<Longrightarrow> begin_turn s' \<noteq> None \<Longrightarrow> begin_turn s = begin_turn s'"
  by (auto simp: settles_def begin_turn_def dropped_id dest: view_fields split: if_splits)

lemma yes_said_mono: "yes_said X s' t t' \<Longrightarrow> settles s s' \<Longrightarrow> X \<subseteq> Y \<Longrightarrow> yes_said Y s t t'"
  unfolding yes_said_def using settles_begin by (metis subsetD)

lemma yes_said_same: "tk_yes t' = tk_yes t \<Longrightarrow> yes_said X s t t'"
  by (simp add: yes_said_def)

lemma yes_said_from: "yes_said X s u t' \<Longrightarrow> tk_yes u = tk_yes t \<Longrightarrow> yes_said X s t t'"
  by (simp add: yes_said_def)

lemma loud_answers: "loud E w v \<Longrightarrow> answers E x w v"
  unfolding loud_def answers_def using yes_said_same by metis

lemma still_then_answers: assumes "still E a b" and "answers E x b c" shows "answers E x a c"
  unfolding answers_def
proof (intro allI impI)
  fix t assume t: "shows_loop t a \<and> tk_phase t = Heard \<and> tk_text t = x"
  with assms(1) obtain u where u: "(call_step (en_readers E))\<^sup>*\<^sup>* t u" "shows_loop u b" "same_sentence t u" "tk_yes u = tk_yes t"
    unfolding still_def calm_def by blast
  with t assms(2) obtain v where v: "(call_step (en_readers E))\<^sup>*\<^sup>* u v" "shows_loop v c" "tk_text v = x" "yes_said {x} (conv_of b) u v"
    unfolding answers_def same_sentence_def by metis
  have "yes_said {x} (conv_of a) t v"
    by (rule yes_said_from [OF yes_said_mono [OF v(4)]]) (use assms(1) u in \<open>simp_all add: still_def\<close>)
  with u v show "\<exists>t'. (call_step (en_readers E))\<^sup>*\<^sup>* t t' \<and> shows_loop t' c \<and> tk_text t' = x \<and> yes_said {x} (conv_of a) t t'"
    by (intro exI [of _ v]) auto
qed

lemma answers_then_loud: assumes "answers E x a b" and "loud E b c" shows "answers E x a c"
  unfolding answers_def
proof (intro allI impI)
  fix t assume t: "shows_loop t a \<and> tk_phase t = Heard \<and> tk_text t = x"
  with assms(1) obtain u where u: "(call_step (en_readers E))\<^sup>*\<^sup>* t u" "shows_loop u b" "tk_text u = x" "yes_said {x} (conv_of a) t u"
    unfolding answers_def by blast
  with assms(2) obtain v where "(call_step (en_readers E))\<^sup>*\<^sup>* u v" "shows_loop v c" "tk_text v = tk_text u" "tk_yes v = tk_yes u"
    unfolding loud_def by blast
  with u show "\<exists>t'. (call_step (en_readers E))\<^sup>*\<^sup>* t t' \<and> shows_loop t' c \<and> tk_text t' = x \<and> yes_said {x} (conv_of a) t t'"
    by (intro exI [of _ v]) (auto simp: yes_said_def)
qed

text \<open>The model's part begins with the step \<open>turn\<close>.\<close>

lemma converse_answers:
  assumes "converse E x started held table wish w = Some (said, v)"
  shows "answers E x w v"
  unfolding answers_def
proof (intro allI impI)
  let ?th = "\<lparr>th_text = x, th_started = started, th_start = begin_turn (conv_of w), th_table = table, th_wish = wish\<rparr>"
  fix t assume t: "shows_loop t w \<and> tk_phase t = Heard \<and> tk_text t = x"
  let ?u = "t\<lparr>tk_start := begin_turn (tk_conv t), tk_phase := Answering\<rparr>"
  have "call_step (en_readers E) t ?u" using t by (intro call_step.turn) simp
  moreover have u: "shows_loop ?u w \<and> in_turn ?th ?u" using t by (simp add: shows_loop_def in_turn_def)
  moreover have "ends E ?th w v" using assms by (intro hops_end) (simp add: converse_def)
  then obtain t' where "(call_step (en_readers E))\<^sup>*\<^sup>* ?u t'" "shows_loop t' v" "tk_text t' = tk_text ?u" "yes_of_turn ?u t'"
    using u unfolding ends_def by blast
  moreover from this(4) have "yes_said {x} (conv_of w) t t'" using t by (auto simp: yes_of_turn_def yes_said_def shows_loop_def)
  ultimately show "\<exists>t'. (call_step (en_readers E))\<^sup>*\<^sup>* t t' \<and> shows_loop t' v \<and> tk_text t' = x \<and> yes_said {x} (conv_of w) t t'"
    using t by (intro exI [of _ t']) (auto intro: converse_rtranclp_into_rtranclp)
qed

text \<open>An answer to the question for an allergy changes nothing but the allergies of the state.\<close>

definition only_allergies :: "conv \<Rightarrow> conv \<Rightarrow> bool" where
  "only_allergies s s' \<longleftrightarrow> (\<exists>as. s' = s\<lparr>cv_allergies := as\<rparr>)"

lemma only_allergies_same [simp]: "only_allergies s s"
  by (auto simp: only_allergies_def intro: exI [of _ "cv_allergies s"])

lemma only_allergies_upd [simp]: "only_allergies s (s\<lparr>cv_allergies := as\<rparr>)"
  by (auto simp: only_allergies_def)

lemma only_allergies_trans: "only_allergies a b \<Longrightarrow> only_allergies b c \<Longrightarrow> only_allergies a c"
  by (auto simp: only_allergies_def)

lemma only_allergies_fold: "(\<And>x s. only_allergies s (f x s)) \<Longrightarrow> only_allergies s (fold f xs s)"
proof (induction xs arbitrary: s)
  case (Cons x xs)
  then show ?case using only_allergies_trans by (metis fold_simps(2))
qed simp

lemma only_allergies_add [simp]: "only_allergies s (add_allergy a s)"
  by (simp add: add_allergy_def Let_def)

lemma only_allergies_wish [simp]: "only_allergies s (note_wish W x s)"
  by (simp add: note_wish_def only_allergies_fold)

lemma only_allergies_which [simp]: "only_allergies s (snd (answer_which W d x dish s))"
proof -
  have "only_allergies s (add_allergy a (s\<lparr>cv_allergies := as\<rparr>))" for a as
    by (rule only_allergies_trans [of s "s\<lparr>cv_allergies := as\<rparr>"]) simp_all
  then show ?thesis
    unfolding answer_which_def Let_def by (auto split: which_answer.split option.split prod.split)
qed

lemma note_allergies_only: "only_allergies (ln_conv l) (ln_conv (note_allergies W d x l))"
proof -
  have "only_allergies (ln_conv l) (fold (note_wish W) xs (snd (answer_which W d y dish (ln_conv l))))" for xs y dish
    by (rule only_allergies_trans [OF only_allergies_which only_allergies_fold]) simp
  then show ?thesis
    by (simp add: note_allergies_def Let_def split_beta split: option.split list.split)
qed

lemma hear_allergies_still: "still E w (hear_allergies E x w)"
proof -
  let ?w = "set_line (note_allergies (en_wishes E) (db_of w) x) w"
  have "draft_view (conv_of ?w) = draft_view (conv_of w) \<and> cv_call_id (conv_of ?w) = cv_call_id (conv_of w) \<and>
      cv_tenant_id (conv_of ?w) = cv_tenant_id (conv_of w)"
    using note_allergies_only [of "lo_line w" "en_wishes E" "db_of w" x]
    by (auto simp: only_allergies_def draft_view_def conv_of_def set_line_def)
  then have 1: "still E w ?w" by (simp add: still_def calm_view settles_view)
  have "still E ?w (set_conv (draft_replaced name) ?w)" for name by (rule still_conv) simp
  from still_trans [OF 1 this] 1 show ?thesis by (simp add: hear_allergies_def Let_def)
qed

lemma held_answered_still: "still E w (snd (held_answered E x w))"
proof -
  let ?w = "set_line (\<lambda>l. l\<lparr>ln_held := None\<rparr>) w"
  have 1: "calm E w ?w" by (rule line_calm) (simp add: conv_of_def)
  have "calm E v (consent_judged E a v)" for a v
    unfolding consent_judged_def
    by (rule calm_trans [OF house_calm line_calm]) (simp_all add: record_consent_def db_of_def conv_of_def)
  note 2 = calm_trans [OF 1 this]
  have c: "conv_of (consent_judged E a ?w) = conv_of w" "conv_of ?w = conv_of w" for a
    by (simp_all add: consent_judged_def conv_of_def set_line_def)
  from still_same [OF 2 c(1)] still_same [OF 1 c(2)] show ?thesis
    by (simp add: held_answered_def Let_def split: option.split)
qed

lemma escalated_loud: "loud E w (snd (escalated E x reason offered person wish w))"
proof -
  have team: "loud E w (snd (handoff E fb rs detail summary ask (tick w)))" "loud E w (snd (handoff E fb rs detail summary ask w))"
    for fb rs detail summary ask
    by (rule calm_loud, rule calm_trans [OF calm_tick(1) handoff_calm]) (rule calm_loud, rule handoff_calm)
  show ?thesis
  proof (cases "if reason = Some EComplaint \<and> wish = None then offer_remedy E x w else None")
    case None
    show ?thesis
      unfolding escalated_def None
      by (auto simp: split_beta Let_def team calm_loud [OF calm_refl] calm_loud [OF calm_tick(1)] split: option.split)
  next
    case (Some p)
    then have "loud E w (snd p)" by (cases p) (auto split: if_splits intro: offer_remedy_loud)
    then show ?thesis unfolding escalated_def Some by (simp add: split_beta)
  qed
qed

text \<open>The turn goes on only where nothing was said.\<close>

lemma tick_still [simp]: "still E w (tick w)"
  by (rule still_same) (simp_all add: calm_tick)

lemma escalated_on: "escalated E x reason offered person wish w = (None, v) \<Longrightarrow> still E w v"
  by (auto simp: escalated_def Let_def split_beta split: option.splits if_splits)

lemma asked_again_loud: "loud E w (snd (asked_again E x heard w))"
proof -
  have "calm E (tick w) (set_line (\<lambda>l. l\<lparr>ln_held := None\<rparr>) (tick w))" by (rule line_calm) (simp add: conv_of_def)
  note cleared = calm_loud [OF calm_trans [OF calm_tick(1) this]]
  note told = calm_then_says [OF calm_tick(1), of E w]
  note note_team = calm_then_loud [OF calm_tick(1) note_to_team_loud, of E w]
  note hand = calm_loud [OF calm_trans [OF calm_tick(1) handoff_calm], of E w]
  show ?thesis
    unfolding asked_again_def
    by (simp add: Let_def split_beta cleared told note_team hand calm_loud [OF calm_refl] split: option.split)
qed

lemma asked_again_on: "asked_again E x heard w = (None, v) \<Longrightarrow> still E w v"
proof -
  have "calm E (tick w) (set_line (\<lambda>l. l\<lparr>ln_held := None\<rparr>) (tick w))" by (rule line_calm) (simp add: conv_of_def)
  from still_same [OF calm_trans [OF calm_tick(1) this]]
  have cleared: "still E w (set_line (\<lambda>l. l\<lparr>ln_held := None\<rparr>) (tick w))" by (simp add: conv_of_def set_line_def tick_def)
  show "asked_again E x heard w = (None, v) \<Longrightarrow> still E w v"
    by (auto simp: asked_again_def Let_def split_beta cleared split: option.splits if_splits)
qed

lemma counted_turn_loud: "loud E w (snd (counted_turn E x unchanged said w))"
proof -
  note hand = calm_trans [OF calm_tick(5) handoff_calm, of E w]
  show ?thesis
    unfolding counted_turn_def
    by (simp add: Let_def split_beta calm_loud [OF hand] calm_then_says [OF hand] calm_loud [OF calm_refl] calm_loud [OF calm_tick(5)])
qed

lemma model_turn_answers: "model_turn E x started before held table w = Some (said, v) \<Longrightarrow> answers E x w v"
  unfolding model_turn_def
  by (auto simp: Let_def split_beta split: option.splits
      intro: answers_then_loud [OF converse_answers counted_turn_loud])

lemma heard_turn_answers:
  assumes "heard_turn E x started before held table w = Some (said, v)"
  shows "answers E x w v"
proof -
  define rest where "rest = without_human_question x"
  define heard where "heard = (case rest of None \<Rightarrow> x | Some r \<Rightarrow> r)"
  define offered where "offered \<longleftrightarrow> check heard = None \<and> cv_last_say (conv_of w) = Some SAY_HUMAN_ANSWER \<and> is_yes x"
  define reason where "reason = (if offered then Some EHuman else check heard)"
  define w1 where "w1 = (if reason = Some EComplaint then w else set_conv (note_intent x) w)"
  obtain out w2 where e: "escalated E x reason offered (rest \<noteq> None) (cv_intent (ln_conv before)) w1 = (out, w2)" by fastforce
  note turn_eq = heard_turn_def [of E x started before held table w, unfolded Let_def, folded rest_def, folded heard_def,
    folded offered_def, folded reason_def, folded w1_def, unfolded e prod.case]
  define w4 where "w4 = set_conv (\<lambda>s. s\<lparr>cv_allergy_talk := talks_of_allergies E x (conv_of w2)\<rparr>) w2"
  have 1: "still E w w1" unfolding w1_def by (simp add: still_conv)
  then have c1: "calm E w w1" by (simp add: still_def)
  have 2: "loud E w w2" using calm_then_loud [OF c1 escalated_loud] e by (metis snd_conv)
  have 4: "still E w w4" if "out = None"
  proof -
    have "still E w w2" using still_trans [OF 1 escalated_on] e that by metis
    moreover have "still E w2 w4" unfolding w4_def by (rule still_conv) (rule settles_view; simp add: draft_view_def)
    ultimately show ?thesis by (rule still_trans)
  qed
  have beyond: "loud E w (snd (allergens_to_team E dish lead tb card_text w2))" for dish lead tb card_text
    by (rule loud_trans [OF 2 allergens_to_team_loud])
  show ?thesis
  proof (cases "out = None \<and> \<not> asks_beyond_the_allergens x")
    case False
    have "loud E w v"
    proof (cases out)
      case (Some s)
      then have "v = w2" using assms by (simp add: turn_eq)
      with 2 show ?thesis by simp
    next
      case None
      then have "v = snd (allergens_to_team E None (Some SAY_ALLERGENS_BEYOND) table SUMMARY_ALLERGENS w2)"
        using assms False by (simp add: turn_eq split_beta)
      with beyond show ?thesis by simp
    qed
    then show ?thesis by (rule loud_answers)
  next
    case True
    obtain oa w5 where a: "asked_again E x heard w4 = (oa, w5)" by fastforce
    have c4: "calm E w w4" using 4 True by (simp add: still_def)
    have 5: "loud E w w5" using calm_then_loud [OF c4 asked_again_loud] a by (metis snd_conv)
    have t: "(if held = None \<and> (case rest of None \<Rightarrow> False | Some r \<Rightarrow> \<not> asks_more r)
       then Some (([SAY_HUMAN_ANSWER], False), tells E SAY_HUMAN_ANSWER w4)
       else (case asked_again E x heard w4 of (Some said, w) \<Rightarrow> Some (said, w)
         | (None, w) \<Rightarrow> model_turn E x started before held table w)) = heard_turn E x started before held table w"
      using True by (simp add: turn_eq w4_def)
    note t = t [unfolded assms]
    show ?thesis
    proof (cases "held = None \<and> (case rest of None \<Rightarrow> False | Some r \<Rightarrow> \<not> asks_more r)")
      case True
      then have "v = tells E SAY_HUMAN_ANSWER w4" using t by simp
      with c4 show ?thesis by (simp add: loud_answers calm_then_says)
    next
      case False
      show ?thesis
      proof (cases oa)
        case None
        then have "still E w w5" using still_trans [OF 4 asked_again_on] a \<open>out = None \<and> _\<close> by metis
        moreover have "answers E x w5 v" using t False a None by (intro model_turn_answers) simp
        ultimately show ?thesis by (rule still_then_answers)
      next
        case (Some s)
        then show ?thesis using t False a 5 by (simp add: loud_answers)
      qed
    qed
  qed
qed

section \<open>The whole turn\<close>

lemma loud_hears: assumes "loud E w v" shows "hears E X w v"
  unfolding hears_def
proof (intro allI impI)
  fix t assume "shows_loop t w \<and> tk_phase t = Listening"
  with assms obtain u where u: "(call_step (en_readers E))\<^sup>*\<^sup>* t u" "shows_loop u v" "tk_yes u = tk_yes t"
    unfolding loud_def by blast
  let ?t = "u\<lparr>tk_phase := Listening\<rparr>"
  have "(call_step (en_readers E))\<^sup>*\<^sup>* t ?t" using u(1) call_step.silent by (rule rtranclp.rtrancl_into_rtrancl)
  then show "\<exists>t'. (call_step (en_readers E))\<^sup>*\<^sup>* t t' \<and> shows_loop t' v \<and> tk_phase t' = Listening \<and> yes_said X (conv_of w) t t'"
    using u by (intro exI [of _ ?t]) (simp add: shows_loop_def yes_said_same)
qed

text \<open>What the core does before it hears the sentence leaves the state alone.\<close>

lemma still_then_hears: assumes "still E a b" and "hears E X b c" and "X \<subseteq> Y" shows "hears E Y a c"
  unfolding hears_def
proof (intro allI impI)
  fix t assume t: "shows_loop t a \<and> tk_phase t = Listening"
  with assms(1) obtain u where u: "(call_step (en_readers E))\<^sup>*\<^sup>* t u" "shows_loop u b" "same_sentence t u" "tk_yes u = tk_yes t"
    unfolding still_def calm_def by blast
  with t assms(2) obtain v where v: "(call_step (en_readers E))\<^sup>*\<^sup>* u v" "shows_loop v c" "tk_phase v = Listening"
      "yes_said X (conv_of b) u v"
    unfolding hears_def same_sentence_def by metis
  have "yes_said Y (conv_of a) t v"
    by (rule yes_said_from [OF yes_said_mono [OF v(4)]]) (use assms u in \<open>simp_all add: still_def\<close>)
  with u v show "\<exists>t'. (call_step (en_readers E))\<^sup>*\<^sup>* t t' \<and> shows_loop t' c \<and> tk_phase t' = Listening \<and> yes_said Y (conv_of a) t t'"
    by (intro exI [of _ v]) auto
qed

text \<open>The sentence is heard: the step \<open>guest\<close>.\<close>

lemma answers_hears: assumes "answers E x (hear_details E x w) v" shows "hears E {x} w v"
  unfolding hears_def
proof (intro allI impI)
  fix t assume t: "shows_loop t w \<and> tk_phase t = Listening"
  let ?u = "t\<lparr>tk_conv := snd (note_guest_details (en_readers E) x (tk_conv t)), tk_text := x, tk_phase := Heard\<rparr>"
  let ?w = "hear_details E x w"
  have c: "conv_of ?w = snd (note_guest_details (en_readers E) x (conv_of w))" "db_of ?w = db_of w"
    by (simp_all add: hear_details_def Let_def split_beta)
  have "call_step (en_readers E) t ?u" using t by (intro call_step.guest) simp
  moreover have "shows_loop ?u ?w" using t by (simp add: shows_loop_def c)
  with assms obtain u where u: "(call_step (en_readers E))\<^sup>*\<^sup>* ?u u" "shows_loop u v" "yes_said {x} (conv_of ?w) ?u u"
    unfolding answers_def by fastforce
  moreover have "call_step (en_readers E) u (u\<lparr>tk_phase := Listening\<rparr>)" by (rule call_step.silent)
  ultimately have "(call_step (en_readers E))\<^sup>*\<^sup>* t (u\<lparr>tk_phase := Listening\<rparr>)"
    by (meson converse_rtranclp_into_rtranclp rtranclp.rtrancl_into_rtrancl)
  moreover have "settles (conv_of w) (conv_of ?w)" unfolding c by (rule settles_guest)
  then have "yes_said {x} (conv_of w) t u" using yes_said_mono [OF u(3)] yes_said_from by fastforce
  ultimately show "\<exists>t'. (call_step (en_readers E))\<^sup>*\<^sup>* t t' \<and> shows_loop t' v \<and> tk_phase t' = Listening \<and> yes_said {x} (conv_of w) t t'"
    using u by (intro exI [of _ "u\<lparr>tk_phase := Listening\<rparr>"]) (simp add: shows_loop_def yes_said_def)
qed

lemma guest_turn_hears:
  assumes "guest_turn E x w = Some (said, v)"
  shows "hears E {x} w v"
proof -
  define w0 where "w0 = (if en_deadline E = None then w else tick w)"
  define started where "started = (if en_deadline E = None then None else Some (clock_now E w))"
  have 0: "still E w w0" by (simp add: w0_def)
  have "hears E {x} w0 v"
  proof (cases "ln_waits (lo_line w0) = None \<and> ln_offer (lo_line w0) = None")
    case True
    let ?d = "hear_details E x w0" let ?a = "hear_allergies E x ?d"
    obtain held u where h: "held_answered E x ?a = (held, u)" by fastforce
    have "heard_turn E x started (lo_line w0) held (open_table E ?d) u = Some (said, v)"
      using assms True h by (simp add: guest_turn_def Let_def w0_def started_def split: if_splits)
    then have "answers E x u v" by (rule heard_turn_answers)
    moreover have "still E ?d u" using still_trans [OF hear_allergies_still held_answered_still] h by (metis snd_conv)
    ultimately show ?thesis by (intro answers_hears) (rule still_then_answers)
  next
    case False
    have "v = snd (callback_answered E x w0) \<or> (\<exists>r. v = snd (offer_answered E r x w0))"
      using assms False by (auto simp: guest_turn_def Let_def w0_def split: option.splits if_splits) (metis snd_conv)+
    then show ?thesis using callback_answered_loud calm_loud [OF offer_answered_calm] by (auto intro: loud_hears)
  qed
  from still_then_hears [OF 0 this] show ?thesis by simp
qed

lemma withdraw_still: "still E w (withdraw E w)"
proof -
  have "calm E w (withdraw E w)"
    unfolding withdraw_def Let_def
    by (rule calm_trans [OF house_calm line_calm]) (simp_all add: record_consent_def withdraw_recording_def db_of_def conv_of_def)
  then show ?thesis by (rule still_same) (simp add: withdraw_def Let_def conv_of_def set_line_def)
qed

lemma settle_still: "still E w (settle E a w)"
proof -
  let ?w = "set_line (\<lambda>l. l\<lparr>ln_recording := Some RecOff\<rparr>) w"
  have "calm E w ?w" by (rule line_calm) (simp add: conv_of_def)
  then have 1: "still E w ?w" by (rule still_same) (simp add: conv_of_def set_line_def)
  have 2: "still E ?w (?w\<lparr>lo_house := h\<rparr>)" if "orders (h_db h) = orders (db_of w)" for h
    by (rule still_same [OF house_calm]) (use that in \<open>simp_all add: conv_of_def\<close>)
  have 3: "still E u (set_line g u)" if "\<And>l. ln_conv (g l) = ln_conv l" for u g
    by (rule still_same [OF line_calm]) (use that in \<open>simp_all add: conv_of_def set_line_def\<close>)
  have o: "orders (h_db h) = orders (db_of w)"
    if "open_recording m f tid cid n (record_consent t c q b k (lo_house w)) = Inr (name, h)" for m f tid cid n t c q b k name h
    using that by (auto simp: open_recording_def record_consent_def db_of_def Let_def split: if_splits option.splits)
  have l: "lo_house ?w = lo_house w" by (simp add: set_line_def)
  show ?thesis
    unfolding settle_def Let_def l
    by (auto simp: record_consent_def db_of_def split: sum.split dest!: o [unfolded record_consent_def db_of_def]
        intro!: still_trans [OF 1 2] still_trans [OF still_trans [OF 1 2] 3])
qed

lemma stopped_turn_hears:
  assumes "stopped_turn E x w = Some (said, v)"
  shows "hears E {x} w v"
proof (cases "ln_recording (lo_line w) \<noteq> Some RecOn \<or> \<not> stops_recording x")
  case True
  then show ?thesis using assms by (auto simp: stopped_turn_def intro: guest_turn_hears)
next
  case False
  show ?thesis
  proof (cases "only_stops_recording x")
    case True
    then have "v = withdraw E w" using assms False by (simp add: stopped_turn_def Let_def)
    then show ?thesis using withdraw_still by (auto simp: still_def intro: loud_hears calm_loud)
  next
    case no: False
    then obtain s where "guest_turn E x (withdraw E w) = Some (s, v)"
      using assms False by (auto simp: stopped_turn_def Let_def)
    from still_then_hears [OF withdraw_still guest_turn_hears [OF this]] show ?thesis by simp
  qed
qed

lemma run_turn_hears:
  assumes "run_turn E x w = Some (said, v)"
  shows "hears E {x, after_recording_answer x} w v"
proof (cases "ln_recording (lo_line w) = Some RecAsked")
  case True
  let ?w = "settle E (recording_answer x) w"
  have "hears E {x, after_recording_answer x} ?w v"
  proof (cases "bare_recording_answer x")
    case b: True
    then have "v = tells E SAY_WHAT_CAN_I_DO ?w" using assms True by (simp add: run_turn_def Let_def)
    then show ?thesis by (simp add: loud_hears loud_says)
  next
    case False
    then have "stopped_turn E (after_recording_answer x) ?w = Some (said, v)" using assms True by (simp add: run_turn_def Let_def)
    from still_then_hears [OF still_refl stopped_turn_hears [OF this]] show ?thesis by simp
  qed
  from still_then_hears [OF settle_still this] show ?thesis by simp
next
  case False
  then have "stopped_turn E x w = Some (said, v)" using assms by (simp add: run_turn_def)
  from still_then_hears [OF still_refl stopped_turn_hears [OF this]] show ?thesis by simp
qed

section \<open>No order without a yes to what was read out\<close>

text \<open>An order of the call that is more than a draft was so before, or has one of the yeses.\<close>

definition orders_known :: "uuid \<Rightarrow> db \<Rightarrow> talk \<Rightarrow> bool" where
  "orders_known k d t \<longleftrightarrow> cv_call_id (tk_conv t) = k \<and>
     (\<forall>r \<in> set (orders (tk_db t)). o_call_id r = k \<and> o_status r \<noteq> ODraft \<longrightarrow>
       Some (o_id r) \<in> y_id ` set (tk_yes t) \<or>
       (\<exists>q \<in> set (orders d). o_id q = o_id r \<and> o_call_id q = k \<and> o_status q \<noteq> ODraft))"

lemma orders_known_conv: "orders_known k d t \<Longrightarrow> settles (tk_conv t) s \<Longrightarrow> orders_known k d (t\<lparr>tk_conv := s\<rparr>)"
  by (simp add: orders_known_def settles_def)

lemma orders_known_tool:
  assumes "orders_known k d t" and "\<And>r'. r' \<in> set (orders d') \<Longrightarrow> o_call_id r' = k \<Longrightarrow> o_status r' \<noteq> ODraft \<Longrightarrow>
      Some (o_id r') \<in> y_id ` set (tk_yes (after_tool E c r d' t)) \<or>
      (\<exists>q \<in> set (orders (tk_db t)). o_id q = o_id r' \<and> o_call_id q = k \<and> o_status q \<noteq> ODraft)"
  shows "orders_known k d (after_tool E c r d' t)"
proof -
  have "tk_db (after_tool E c r d' t) = d'" "cv_call_id (tk_conv (after_tool E c r d' t)) = cv_call_id (tk_conv t)"
    by (simp_all add: after_tool_def apply_call)
  then show ?thesis
    using assms y_id_after [of t E c r d'] unfolding orders_known_def by (metis subsetD)
qed

lemma orders_known_other:
  "orders_known k d t \<Longrightarrow> no_other_yes (cv_call_id (tk_conv t)) (tk_db t) d' \<Longrightarrow> orders_known k d (after_tool E c r d' t)"
  by (rule orders_known_tool) (auto simp: no_other_yes_def orders_known_def)

lemma orders_known_step:
  assumes "call_step E t t'" and inv: "orders_known k d t"
  shows "orders_known k d t'"
  using assms(1)
proof cases
  case (guest w)
  then show ?thesis using orders_known_conv [OF inv settles_guest] by (simp add: orders_known_def)
next
  case (refuse c sent r)
  then show ?thesis using inv by (simp add: orders_known_def apply_call)
next
  case (aside s)
  then show ?thesis using inv by (simp add: orders_known_def)
next
  case (draft c sent q now r d')
  then show ?thesis using orders_known_other [OF inv] dispatch_draft_orders by blast
next
  case (confirm c sent q now r d')
  have "Some (cq_entity_id q) \<in> y_id ` set (tk_yes (after_tool E c r d' t))"
    using confirm by (simp add: after_tool_def)
  moreover have "x \<in> set (orders d') \<Longrightarrow> o_status x \<noteq> ODraft \<Longrightarrow> o_id x = cq_entity_id q \<or>
      (\<exists>y \<in> set (orders (tk_db t)). o_id y = o_id x \<and> o_call_id y = o_call_id x \<and> o_status y \<noteq> ODraft)" for x
    by (rule dispatch_confirm_orders [OF confirm(8)])
  ultimately show ?thesis unfolding confirm(1) by (intro orders_known_tool [OF inv]) metis
next
  case (tool c sent d' r)
  then show ?thesis using orders_known_other [OF inv] by blast
next
  case (invalid c sent r)
  have "no_other_yes k' (tk_db t) (tk_db t)" for k' by (rule no_other_refl) simp
  then show ?thesis using orders_known_other [OF inv] invalid by simp
next
  case (core c d' r)
  then show ?thesis using orders_known_other [OF inv] by blast
next
  case (elsewhere d')
  then show ?thesis using inv unfolding orders_known_def no_other_yes_def by simp metis
next
  case (says say)
  then show ?thesis using inv by (simp add: orders_known_def)
next
  case (allergy name)
  then show ?thesis using orders_known_conv [OF inv settles_ops(1)] by simp
next
  case (intent w)
  then show ?thesis using orders_known_conv [OF inv settles_ops(6)] by simp
next
  case (patch p)
  then show ?thesis using orders_known_conv [OF inv settles_patch] by simp
next
  case (cart j)
  then show ?thesis using orders_known_conv [OF inv settles_cart] by simp
next
  case turn
  then show ?thesis using inv by (simp add: orders_known_def)
next
  case silent
  then show ?thesis using inv by (simp add: orders_known_def)
qed

interpretation known: machine "call_step E" "orders_known k d"
  by unfold_locales (rule orders_known_step)

section \<open>The yes to two ducks\<close>

definition plain_words :: wish_words where
  "plain_words = \<lparr>ww_words = \<lparr>aw_mentions = (\<lambda>_. False), aw_denies = (\<lambda>_. False), aw_only_denies = (\<lambda>_. False), aw_allergen = (\<lambda>_. False)\<rparr>,
     ww_classify = (\<lambda>_. None), ww_candidates = (\<lambda>_. []), ww_which = (\<lambda>_. (NothingNamed, [])), ww_in_full = (\<lambda>_ _. True),
     ww_orders = (\<lambda>_ _ _. False), ww_answers_only = (\<lambda>_. False), ww_named = (\<lambda>_. 0), ww_other_adult = (\<lambda>_. False)\<rparr>"

definition yes_env :: env where
  "yes_env = \<lparr>en_readers = quiet_readers, en_wishes = plain_words, en_claims = (\<lambda>_ _. False),
     en_llm = (\<lambda>_. Some \<lparr>lt_act = Calls yes_call, lt_patch = [], lt_failure = None, lt_cart = None\<rparr>),
     en_reads = (\<lambda>_ _ _. Inr (JNull, None)), en_draft_args = (\<lambda>_. None), en_table_args = (\<lambda>_. None), en_wish_args = (\<lambda>_. None),
     en_confirm_key = (\<lambda>_. ''y1''), en_hint = (\<lambda>_ _. []), en_clock = (\<lambda>_. 0), en_started = 0, en_max_call = 600,
     en_deadline = None, en_now = noon + MINUTE, en_zone = t_timezone example_tenant, en_rules = [], en_min_free = 0, en_free = None,
     en_recording_question = ''Darf ich den Anruf aufnehmen?''\<rparr>"

definition ducks_loop :: loop where
  "ducks_loop = \<lparr>lo_line = \<lparr>ln_conv = ducks_state\<lparr>cv_stage := SReadback, cv_order_id := Some 101, cv_readback := Some ''Zwei Enten. Passt das so?'',
       cv_readback_heard := True, cv_last_say := Some CLOSING\<rparr>,
       ln_consent = None, ln_held = None, ln_which_asks = 0, ln_handoff = None, ln_waits = None, ln_wait_asks = 0,
       ln_wait_reason = [], ln_recording = None, ln_file = None, ln_offer = None\<rparr>,
     lo_house = \<lparr>h_db = ducks_db, recordings = [], consents = [], requests = [], folder = []\<rparr>,
     lo_ladder = [], lo_unheard = 0, lo_ticks = 0, lo_asked = 0\<rparr>"


text \<open>A sentence without a word for the core goes to the model.\<close>

lemma plain_turn:
  assumes "without_human_question x = None" and "check x = None" and "\<not> asks_beyond_the_allergens x"
    and "cv_last_say (conv_of w) \<noteq> Some SAY_HUMAN_ANSWER"
  shows "heard_turn E x started earlier held table w =
    (let w = set_conv (note_intent x) w; w = set_conv (\<lambda>s. s\<lparr>cv_allergy_talk := talks_of_allergies E x s\<rparr>) w
     in case asked_again E x x w of (Some said, w) \<Rightarrow> Some (said, w)
       | (None, w) \<Rightarrow> model_turn E x started earlier held table w)"
proof -
  have "set_conv (\<lambda>s. s\<lparr>cv_allergy_talk := talks_of_allergies E x s\<rparr>) v =
      set_conv (\<lambda>s. s\<lparr>cv_allergy_talk := talks_of_allergies E x (conv_of v)\<rparr>) v" for v
    by (simp add: set_conv_def on_conv_def conv_of_def)
  then show ?thesis using assms by (simp add: heard_turn_def Let_def escalated_def)
qed

lemma ducks_heard:
  "run_turn yes_env ''Ja'' ducks_loop =
    (let w = hear_allergies yes_env ''Ja'' (hear_details yes_env ''Ja'' ducks_loop); w = set_conv (note_intent ''Ja'') w;
         w = set_conv (\<lambda>s. s\<lparr>cv_allergy_talk := talks_of_allergies yes_env ''Ja'' s\<rparr>) w
     in case asked_again yes_env ''Ja'' ''Ja'' w of (Some said, w) \<Rightarrow> Some (said, w)
       | (None, w) \<Rightarrow> model_turn yes_env ''Ja'' None (lo_line ducks_loop) None None w)"
proof -
  let ?d = "hear_details yes_env ''Ja'' ducks_loop" let ?w = "hear_allergies yes_env ''Ja'' ?d"
  have l: "ln_recording (lo_line ducks_loop) = None" "ln_waits (lo_line ducks_loop) = None" "ln_offer (lo_line ducks_loop) = None"
    by (simp_all add: ducks_loop_def)
  have e: "en_deadline yes_env = None" by (simp add: yes_env_def)
  have h: "ln_held (lo_line ?w) = None" "open_table yes_env ?d = None" "cv_last_say (conv_of ?w) \<noteq> Some SAY_HUMAN_ANSWER"
    by code_simp+
  have w: "without_human_question ''Ja'' = None" "check ''Ja'' = None" "\<not> asks_beyond_the_allergens ''Ja''" by code_simp+
  have "run_turn yes_env ''Ja'' ducks_loop = heard_turn yes_env ''Ja'' None (lo_line ducks_loop) None None ?w"
    using l e h(1,2) by (simp add: run_turn_def stopped_turn_def guest_turn_def Let_def held_answered_def)
  also note plain_turn [OF w h(3)]
  finally show ?thesis unfolding Let_def .
qed

lemma yes_turn: "case run_turn yes_env ''Ja'' ducks_loop of None \<Rightarrow> False
   | Some (said, v) \<Rightarrow> (case orders (db_of v) of [r] \<Rightarrow> o_id r = 101 \<and> o_call_id r = 3 \<and> o_status r = OConfirmed | _ \<Rightarrow> False)"
  unfolding ducks_heard by code_simp

section \<open>What holds of every turn\<close>

text \<open>The loop is the machine: one sentence of the guest, whatever model, clock and reading tools answer, is
  a run of the steps of \<open>CallRun\<close> from listening to listening that shows the same state and database; and
  each \<open>confirm\<close> that went out in it named the draft that was read out before the sentence, which is a
  yes.\<close>

theorem turn_refines:
  assumes "run_turn E x w = Some (said, v)" and "shows_loop t w" and "tk_phase t = Listening"
  shows "\<exists>t'. (call_step (en_readers E))\<^sup>*\<^sup>* t t' \<and> shows_loop t' v \<and> tk_phase t' = Listening \<and>
    (\<forall>y \<in> set (tk_yes t') - set (tk_yes t). y_text y \<in> {x, after_recording_answer x} \<and> is_yes (y_text y) \<and>
       y_id y = begin_turn (conv_of w) \<and> begin_turn (conv_of w) \<noteq> None)"
proof -
  obtain t' where "(call_step (en_readers E))\<^sup>*\<^sup>* t t'" "shows_loop t' v" "tk_phase t' = Listening"
    "yes_said {x, after_recording_answer x} (conv_of w) t t'"
    using run_turn_hears [OF assms(1)] assms(2,3) unfolding hears_def by blast
  then show ?thesis by (intro exI [of _ t']) (auto simp: yes_said_def)
qed

text \<open>C31. In one turn an order of the call becomes more than a draft only if it is the draft that the guest heard
  before this turn, read out to the end, and if the sentence of the guest is a yes (behind the answer to the
  question for the recording, where that one was open).\<close>

theorem order_needs_heard_yes:
  assumes "run_turn E x w = Some (said, v)" and "r \<in> set (orders (db_of v))" and "o_call_id r = cv_call_id (conv_of w)"
    and "o_status r \<noteq> ODraft" and "\<forall>q \<in> set (orders (db_of w)). o_id q = o_id r \<longrightarrow> o_status q = ODraft"
  shows "cv_readback_heard (conv_of w) \<and> readback_id (conv_of w) = Some (o_id r) \<and>
    (is_yes x \<or> is_yes (after_recording_answer x))"
proof -
  let ?t = "\<lparr>tk_conv = conv_of w, tk_phase = Listening, tk_start = None, tk_text = [], tk_last = None, tk_drafts = [],
    tk_yes = [], tk_db = db_of w\<rparr>"
  obtain t' where t': "(call_step (en_readers E))\<^sup>*\<^sup>* ?t t'" "shows_loop t' v"
      "yes_said {x, after_recording_answer x} (conv_of w) ?t t'"
  proof -
    have "shows_loop ?t w \<and> tk_phase ?t = Listening" by (simp add: shows_loop_def)
    then show thesis using run_turn_hears [OF assms(1)] that unfolding hears_def by blast
  qed
  have "orders_known (cv_call_id (conv_of w)) (db_of w) ?t" by (auto simp: orders_known_def)
  with t'(1) have "orders_known (cv_call_id (conv_of w)) (db_of w) t'" by (rule known.steps_inv)
  moreover have "r \<in> set (orders (tk_db t'))" using assms(2) t'(2) by (simp add: shows_loop_def)
  ultimately have "Some (o_id r) \<in> y_id ` set (tk_yes t')"
    using assms(3-5) unfolding orders_known_def by metis
  then obtain y where "y \<in> set (tk_yes t')" "y_id y = Some (o_id r)" by force
  then have "begin_turn (conv_of w) = Some (o_id r)" "is_yes (y_text y)" "y_text y \<in> {x, after_recording_answer x}"
    using t'(3) by (auto simp: yes_said_def)
  then show ?thesis by (auto simp: begin_turn_def split: if_splits)
qed

theorem order_needs_heard_yes_witness:
  "cv_readback_heard (conv_of ducks_loop) \<and> readback_id (conv_of ducks_loop) = Some 101 \<and>
   (\<exists>said v r. run_turn yes_env ''Ja'' ducks_loop = Some (said, v) \<and> r \<in> set (orders (db_of v)) \<and> o_status r = OConfirmed)"
proof -
  obtain said v r where v: "run_turn yes_env ''Ja'' ducks_loop = Some (said, v)" and r: "orders (db_of v) = [r]"
    "o_id r = 101" "o_call_id r = 3" "o_status r = OConfirmed"
    using yes_turn by (auto split: option.split_asm prod.split_asm list.split_asm)
  have o: "orders (db_of ducks_loop) = [ducks_order]" "cv_call_id (conv_of ducks_loop) = 3"
    by (simp_all add: ducks_loop_def db_of_def conv_of_def ducks_state_def ducks_db_def)
  have "cv_readback_heard (conv_of ducks_loop) \<and> readback_id (conv_of ducks_loop) = Some (o_id r) \<and>
      (is_yes ''Ja'' \<or> is_yes (after_recording_answer ''Ja''))"
    by (rule order_needs_heard_yes [OF v]) (use o r in \<open>simp_all add: ducks_order_def\<close>)
  with v r show ?thesis by (auto intro!: exI [of _ r])
qed

end
