(* ===== verification/RequestLog.thy ===== *)
theory RequestLog
  imports Requests
begin

text \<open>
  The log of the requests in every sequence of its operations: the lines it holds keep their numbers apart,
  and every line has a deadline of one month or, once extended, of three.
\<close>

section \<open>Numbers\<close>

lemma digits_value_append: "digits_value (xs @ [c]) = 10 * digits_value xs + (of_char c - 48)"
  by (simp add: digits_value_def)

lemma digits_value_str_nat: "digits_value (str_nat n) = n"
proof (induction n rule: str_nat.induct)
  case (1 n)
  show ?case
  proof (cases "n < 10")
    case True
    then show ?thesis by (subst str_nat.simps) (simp add: digits_value_def)
  next
    case False
    then have "digits_value (str_nat n) = 10 * digits_value (str_nat (n div 10)) + n mod 10"
      by (subst str_nat.simps) (simp add: digits_value_append)
    also have "\<dots> = n" using 1 False by simp
    finally show ?thesis .
  qed
qed

lemma digits_value_zeros: "digits_value (replicate k (CHR ''0'') @ s) = digits_value s"
proof (induction k)
  case (Suc k)
  then show ?case by (simp add: digits_value_def)
qed simp

lemma digits_value_three [simp]: "digits_value (three_digits n) = n"
  by (simp add: three_digits_def digits_value_zeros digits_value_str_nat)

lemma three_digits: "3 \<le> length (three_digits n) \<and> list_all is_digit (three_digits n)"
  using str_nat_digits [of n] by (auto simp: three_digits_def list_all_iff is_digit_def)

lemma after_last_underscore_digits:
  assumes "list_all is_digit s"
  shows "after_last_underscore (xs @ CHR ''_'' # s) = s"
proof -
  have "\<forall>c \<in> set (rev s). c \<noteq> CHR ''_''" using assms by (auto simp: list_all_iff is_digit_def)
  then have "takeWhile (\<lambda>c. c \<noteq> CHR ''_'') (rev s @ CHR ''_'' # rev xs) = rev s" by (simp add: takeWhile_append)
  then show ?thesis by (simp add: after_last_underscore_def)
qed

lemma str_nat_length: "10 ^ k \<le> n \<Longrightarrow> n < 10 ^ Suc k \<Longrightarrow> length (str_nat n) = Suc k"
proof (induction k arbitrary: n)
  case 0
  then show ?case by (subst str_nat.simps) simp
next
  case (Suc k)
  then have "length (str_nat (n div 10)) = Suc k" by (intro Suc.IH) auto
  moreover have "\<not> n < 10" using Suc.prems by (simp add: not_less) (metis le_trans mult_le_mono2 nat_mult_1_right one_le_numeral one_le_power)
  ultimately show ?case by (subst str_nat.simps) simp
qed

lemma year_digits:
  assumes "1000 \<le> y" and "y \<le> 9999"
  shows "length (str_int y) = 4 \<and> list_all is_digit (str_int y)"
  using str_nat_length [of 3 "nat y"] str_int_digits [of y] assms by (simp add: str_int_def list_all_iff)

lemma next_reference_ok:
  assumes "1000 \<le> y" and "y \<le> 9999"
  shows "is_reference (next_reference tid y h)" and "find_request tid (next_reference tid y h) h = None"
proof -
  let ?n = "Max (set (0 # taken_numbers tid y h)) + 1"
  have ref: "next_reference tid y h = ''dsr_'' @ str_int y @ ''_'' @ three_digits ?n"
    by (simp add: next_reference_def year_prefix_def)
  then show "is_reference (next_reference tid y h)"
    using year_digits [OF assms] three_digits [of ?n] by (simp add: is_reference_def)
  show "find_request tid (next_reference tid y h) h = None"
    unfolding find_request_def find_None_iff
  proof (intro notI, elim exE conjE)
    fix r assume r: "r \<in> set (requests h)" "dq_tenant_id r = tid" "reference r = next_reference tid y h"
    have "py_startswith (reference r) (year_prefix y)" unfolding r(3) next_reference_def by (simp add: py_startswith_def)
    moreover have "digits_value (after_last_underscore (reference r)) = ?n"
      using after_last_underscore_digits [OF conjunct2 [OF three_digits], of "''dsr_'' @ str_int y" ?n] unfolding r(3) ref by simp
    ultimately have "?n \<in> set (taken_numbers tid y h)" using r(1,2) by (force simp: taken_numbers_def)
    then have "?n \<le> Max (set (0 # taken_numbers tid y h))" by (intro Max_ge) simp_all
    then show False by simp
  qed
qed

section \<open>The machine\<close>

text \<open>What can happen to the log: a line is added, under a number of the interim file or the next one; its
  deadline moves; it is answered; the deletion job takes its details or the line.\<close>

inductive request_step :: "int \<Rightarrow> periods \<Rightarrow> house \<Rightarrow> house \<Rightarrow> bool" for years p where
  logs: "t \<in> set (tenants (h_db h)) \<Longrightarrow> 1000 \<le> ymd_year (ymd_of_date (local_day (t_timezone t) received)) \<Longrightarrow>
    log_request (t_id t) kind channel note received (t_timezone t) ref h = Inr (r, h') \<Longrightarrow> request_step years p h h'"
| extends: "t \<in> set (tenants (h_db h)) \<Longrightarrow> get_request (t_id t) ref h = Inr r \<Longrightarrow>
    extend_deadline r (t_timezone t) h = Inr h' \<Longrightarrow> request_step years p h h'"
| answers: "t \<in> set (tenants (h_db h)) \<Longrightarrow> get_request (t_id t) ref h = Inr r \<Longrightarrow>
    answer_request years r outcome moment (t_timezone t) h = Inr h' \<Longrightarrow> request_step years p h h'"
| details_go: "request_step years p h (fst (request_details_step p now h))"
| rows_go: "t \<in> set (tenants (h_db h)) \<Longrightarrow> request_step years p h (fst (request_rows_of now t h))"

text \<open>A line: a number in the form of the log, a deadline of one month or of three, and an answer with
  everything that goes with it or with nothing of it.\<close>

definition request_line_ok :: "int \<Rightarrow> tenant \<Rightarrow> data_request \<Rightarrow> bool" where
  "request_line_ok years t r \<longleftrightarrow> t_id t = dq_tenant_id r \<and> is_reference (reference r) \<and>
     (months_later (local_day (t_timezone t) (received_at r)) 1 = Inr (dq_deadline r) \<or>
      months_later (local_day (t_timezone t) (received_at r)) LONGEST_DEADLINE_MONTHS = Inr (dq_deadline r)) \<and>
     (case dq_answered_at r of None \<Rightarrow> dq_outcome r = None \<and> dq_delete_after r = None
      | Some a \<Rightarrow> dq_outcome r \<noteq> None \<and> local_day (t_timezone t) (received_at r) \<le> local_day (t_timezone t) a \<and>
          dq_delete_after r = Some (date_of_ymd \<lparr>ymd_year = ymd_year (ymd_of_date (local_day (t_timezone t) a)) + years,
            ymd_month = 12, ymd_day = 31\<rparr>))"

definition request_row_ok :: "int \<Rightarrow> tenant list \<Rightarrow> data_request \<Rightarrow> bool" where
  "request_row_ok years ts r \<longleftrightarrow> (\<exists>t \<in> set ts. request_line_ok years t r)"

definition request_log_ok :: "int \<Rightarrow> house \<Rightarrow> bool" where
  "request_log_ok years h \<longleftrightarrow> distinct (map t_id (tenants (h_db h))) \<and> distinct (map dq_id (requests h)) \<and>
     (\<forall>r \<in> set (requests h). dq_id r < next_id (h_db h)) \<and>
     distinct (map (\<lambda>r. (dq_tenant_id r, reference r)) (requests h)) \<and>
     list_all (request_row_ok years (tenants (h_db h))) (requests h)"

lemma row_ok_note [simp]: "request_row_ok years ts (r\<lparr>verification_note := n\<rparr>) = request_row_ok years ts r"
  by (simp add: request_row_ok_def request_line_ok_def cong: option.case_cong)

lemma get_request_Inr: "get_request tid ref h = Inr r \<Longrightarrow> r \<in> set (requests h) \<and> dq_tenant_id r = tid"
  by (auto simp: get_request_def find_request_def raise_err_def dest: find_SomeD split: option.splits)

lemma put_request_ok:
  assumes "request_log_ok years h" and "r \<in> set (requests h)" and "dq_id r' = dq_id r" "dq_tenant_id r' = dq_tenant_id r"
    "reference r' = reference r" and "request_row_ok years (tenants (h_db h)) r'"
  shows "request_log_ok years (put_request r' h)"
proof -
  have row: "x = r" if "x \<in> set (requests h)" "dq_id x = dq_id r" for x
    using that assms(1,2) by (auto simp: request_log_ok_def distinct_map dest: inj_onD)
  have m: "map k (upd_rows (\<lambda>x. dq_id x = dq_id r') (\<lambda>_. r') (requests h)) = map k (requests h)" if "k r' = k r" for k :: "data_request \<Rightarrow> 'k"
    using row that assms(3) by (auto simp: upd_rows_def)
  show ?thesis
    using assms row m [of dq_id] m [of "\<lambda>r. (dq_tenant_id r, reference r)"]
    by (auto simp: request_log_ok_def put_request_def list_all_iff set_upd_rows)
qed

lemma audit_ok [simp]: "request_log_ok years (request_audit r what payload h) = request_log_ok years h"
  by (simp add: request_log_ok_def request_audit_def add_audit_def)

lemma subset_ok:
  assumes "request_log_ok years h"
  shows "request_log_ok years (h\<lparr>requests := filter q (requests h)\<rparr>)"
  using assms unfolding request_log_ok_def by (auto simp: list_all_iff distinct_map_filter)

lemma new_line_ok:
  assumes ok: "request_log_ok years h" and t: "t \<in> set (tenants (h_db h))"
    and y: "1000 \<le> ymd_year (ymd_of_date (local_day (t_timezone t) received))"
    and l: "log_request (t_id t) kind channel note received (t_timezone t) ref h = Inr (r, h')"
  shows "request_log_ok years h'"
proof -
  let ?y = "ymd_year (ymd_of_date (local_day (t_timezone t) received))"
  obtain s until where s: "pick_reference (t_id t) ?y ref h = Inr s" and u: "months_later (local_day (t_timezone t) received) 1 = Inr until"
    and r: "dq_id r = next_id (h_db h)" "dq_tenant_id r = t_id t" "reference r = s" "received_at r = received" "dq_deadline r = until"
      "dq_answered_at r = None" "dq_outcome r = None" "dq_delete_after r = None"
    and h': "requests h' = requests h @ [r]" "tenants (h_db h') = tenants (h_db h)" "next_id (h_db h') = Suc (next_id (h_db h))"
    using l by (auto simp: log_request_def Let_def request_audit_def add_audit_def)
  have "?y \<le> 9999"
  proof -
    have "ymd_year e + ymd_month e div 12 \<le> 9999" if "add_months e 1 = Some f" for e f
      using that by (simp add: add_months_def Let_def split: if_splits)
    moreover have "0 \<le> ymd_month (ymd_of_date d) div 12" for d using ymd_of_date [of d] by (simp add: pos_imp_zdiv_nonneg_iff)
    moreover obtain f where "add_months (ymd_of_date (local_day (t_timezone t) received)) 1 = Some f"
      using u by (auto simp: months_later_def raise_err_def split: option.splits)
    ultimately show ?thesis by (smt (verit))
  qed
  then have "is_reference s \<and> find_request (t_id t) s h = None"
    using s next_reference_ok [OF y] by (auto simp: pick_reference_def raise_err_def split: option.splits if_splits)
  then have "is_reference s" and "\<forall>x \<in> set (requests h). (dq_tenant_id x, reference x) \<noteq> (t_id t, s)"
    by (auto simp: find_request_def find_None_iff)
  then show ?thesis
    using ok t u r unfolding request_log_ok_def h' by (auto simp: request_row_ok_def request_line_ok_def image_iff)
qed

lemma same_tenant: "request_log_ok years h \<Longrightarrow> t \<in> set (tenants (h_db h)) \<Longrightarrow> u \<in> set (tenants (h_db h)) \<Longrightarrow> t_id u = t_id t \<Longrightarrow> u = t"
  by (auto simp: request_log_ok_def distinct_map dest: inj_onD)

lemma row_of_tenant:
  assumes "request_log_ok years h" and "t \<in> set (tenants (h_db h))" and "get_request (t_id t) ref h = Inr r"
  shows "r \<in> set (requests h)" and "dq_tenant_id r = t_id t" and "is_reference (reference r)"
    and "request_line_ok years t r"
proof -
  show r: "r \<in> set (requests h)" "dq_tenant_id r = t_id t" using get_request_Inr [OF assms(3)] by simp_all
  then have ok: "request_row_ok years (tenants (h_db h)) r" using assms(1) by (simp add: request_log_ok_def list_all_iff)
  then show "is_reference (reference r)" by (auto simp: request_row_ok_def request_line_ok_def)
  obtain u where u: "u \<in> set (tenants (h_db h))" and v: "request_line_ok years u r"
    using ok by (auto simp: request_row_ok_def)
  have "t_id u = dq_tenant_id r" using v by (simp add: request_line_ok_def)
  then have "u = t" using same_tenant [OF assms(1,2) u] r(2) by simp
  with v show "request_line_ok years t r" by simp
qed

lemma row_ok_mono: "request_line_ok years t r \<Longrightarrow> t \<in> set ts \<Longrightarrow> request_row_ok years ts r"
  by (auto simp: request_row_ok_def)

lemma request_step_ok:
  assumes "request_step years p h h'" and ok: "request_log_ok years h"
  shows "request_log_ok years h'"
  using assms(1)
proof cases
  case (logs t received kind channel told ref r)
  then show ?thesis using new_line_ok [OF ok] by blast
next
  case (extends t ref r)
  note r = row_of_tenant [OF ok extends(1,2)]
  obtain longest where l: "months_later (local_day (t_timezone t) (received_at r)) LONGEST_DEADLINE_MONTHS = Inr longest"
    and a: "dq_answered_at r = None"
    and h': "h' = request_audit r ''data_subject.deadline_extended'' [] (put_request (r\<lparr>dq_deadline := longest\<rparr>) h)"
    using extends(3) by (auto simp: extend_deadline_def raise_err_def split: if_splits)
  have "request_line_ok years t (r\<lparr>dq_deadline := longest\<rparr>)" using r(4) l by (simp add: request_line_ok_def a)
  then show ?thesis unfolding h' by (simp add: put_request_ok [OF ok r(1)] row_ok_mono [OF _ extends(1)])
next
  case (answers t ref r outcome moment)
  note r = row_of_tenant [OF ok answers(1,2)]
  let ?day = "local_day (t_timezone t) moment"
  let ?r = "r\<lparr>dq_answered_at := Some moment, dq_outcome := Some outcome,
      dq_delete_after := Some (date_of_ymd \<lparr>ymd_year = ymd_year (ymd_of_date ?day) + years, ymd_month = 12, ymd_day = 31\<rparr>)\<rparr>"
  have d: "local_day (t_timezone t) (received_at r) \<le> ?day"
    and h': "h' = request_audit r ''data_subject.request_answered'' [(''outcome'', JStr (request_outcome_str outcome))] (put_request ?r h)"
    using answers(3) by (auto simp: answer_request_def Let_def raise_err_def split: if_splits)
  have "request_line_ok years t ?r" using r(4) d by (simp add: request_line_ok_def)
  then show ?thesis unfolding h' by (simp add: put_request_ok [OF ok r(1)] row_ok_mono [OF _ answers(1)])
next
  case (details_go now)
  show ?thesis
    using ok unfolding details_go
    by (auto simp: request_log_ok_def request_details_step_def list_all_iff set_upd_rows row_simps)
next
  case (rows_go t now)
  then show ?thesis using subset_ok [OF ok] by (simp add: request_rows_of_def drop_rows_def)
qed

interpretation request_log: machine "request_step years p" "request_log_ok years"
  by unfold_locales (rule request_step_ok)

text \<open>The number of a line, and that a new one is above those of its year.\<close>

definition line_number :: "data_request \<Rightarrow> nat" where
  "line_number r = digits_value (after_last_underscore (reference r))"

lemma next_above:
  assumes "log_request tid kind channel told received z None h = Inr (r, h')" and "x \<in> set (requests h)" "dq_tenant_id x = tid"
    and "py_startswith (reference x) (year_prefix (ymd_year (ymd_of_date (local_day z received))))"
  shows "line_number x < line_number r"
proof -
  let ?y = "ymd_year (ymd_of_date (local_day z received))"
  let ?n = "Max (set (0 # taken_numbers tid ?y h)) + 1"
  have "reference r = (''dsr_'' @ str_int ?y) @ ''_'' @ three_digits ?n"
    using assms(1) by (auto simp: log_request_def Let_def pick_reference_def next_reference_def year_prefix_def)
  then have "line_number r = ?n"
    using after_last_underscore_digits [OF conjunct2 [OF three_digits], of "''dsr_'' @ str_int ?y" ?n] by (simp add: line_number_def)
  moreover have "line_number x \<in> set (taken_numbers tid ?y h)"
    using assms(2-4) by (auto simp: line_number_def taken_numbers_def)
  then have "line_number x \<le> Max (set (0 # taken_numbers tid ?y h))" by (intro Max_ge) simp_all
  ultimately show ?thesis by simp
qed

text \<open>C26. In every sequence of new lines, extensions, answers and passes of the deletion job no two lines the log
  holds bear the same number, not even beside the numbers of the interim file, and the next number is
  above every one of its year that is in the log; every deadline is one month after the day the
  request came, or three; and an answered line has its outcome, a day not before the request, and a last
  day. (A line the job has taken leaves its number free, so that only a request entered under a year
  that long past could get it once more.)\<close>

theorem requests_numbered:
  assumes "(request_step years p)\<^sup>*\<^sup>* h h'" and "requests h = []" and "distinct (map t_id (tenants (h_db h)))"
  shows "distinct (map (\<lambda>r. (dq_tenant_id r, reference r)) (requests h')) \<and>
    list_all (request_row_ok years (tenants (h_db h'))) (requests h') \<and>
    (\<forall>tid kind channel told received z r h2. log_request tid kind channel told received z None h' = Inr (r, h2) \<longrightarrow>
       (\<forall>x \<in> set (requests h'). dq_tenant_id x = tid \<and>
          py_startswith (reference x) (year_prefix (ymd_year (ymd_of_date (local_day z received)))) \<longrightarrow> line_number x < line_number r))"
proof -
  have "request_log_ok years h" using assms(2,3) by (simp add: request_log_ok_def)
  from request_log.steps_inv [OF assms(1) this] show ?thesis
    using next_above by (auto simp: request_log_ok_def)
qed

text \<open>Two requests of one year.\<close>

definition empty_house :: house where
  "empty_house = \<lparr>h_db = empty_db\<lparr>tenants := [\<lparr>t_id = 7, t_name = ''Maex'', t_timezone = berlin\<rparr>]\<rparr>, recordings = [], consents = [],
     requests = [], folder = []\<rparr>"

lemma case_resE:
  assumes "case m of Inl _ \<Rightarrow> False | Inr (_, h) \<Rightarrow> P h"
  obtains a h where "m = Inr (a, h)" and "P h"
  using assms by (cases m) auto

theorem requests_numbered_witness:
  "\<exists>h. (request_step 3 default_periods)\<^sup>*\<^sup>* empty_house h \<and> map reference (requests h) = [''dsr_1970_007'', ''dsr_1970_008''] \<and>
     list_all (request_row_ok 3 (tenants (h_db h))) (requests h)"
proof -
  let ?z = "berlin" and ?t = "\<lparr>t_id = 7, t_name = ''Maex'', t_timezone = berlin\<rparr>"
  let ?log = "\<lambda>ref. log_request 7 Access ByMail None HOUR ?z ref"
  have day: "local_day berlin HOUR = 0" "ymd_of_date 0 = \<lparr>ymd_year = 1970, ymd_month = 1, ymd_day = 1\<rparr>" "months_later 0 1 = Inr 31"
    by code_simp+
  have num: "is_reference ''dsr_1970_007''" "digits_value (after_last_underscore ''dsr_1970_007'') = 7" "year_prefix 1970 = ''dsr_1970_''"
      "three_digits 8 = ''008''" by code_simp+
  have "case ?log (Some ''dsr_1970_007'') empty_house of Inl _ \<Rightarrow> False | Inr (_, h1) \<Rightarrow>
      (case ?log None h1 of Inl _ \<Rightarrow> False | Inr (_, h2) \<Rightarrow> map reference (requests h2) = [''dsr_1970_007'', ''dsr_1970_008''])"
    by (simp add: log_request_def Let_def day num pick_reference_def find_request_def empty_house_def request_audit_def add_audit_def
        next_reference_def taken_numbers_def py_startswith_def)
  from case_resE [OF this] obtain r1 h1 where l1: "?log (Some ''dsr_1970_007'') empty_house = Inr (r1, h1)"
    and "case ?log None h1 of Inl _ \<Rightarrow> False | Inr (_, h2) \<Rightarrow> map reference (requests h2) = [''dsr_1970_007'', ''dsr_1970_008'']" .
  from case_resE [OF this(2)] obtain r2 h2 where l2: "?log None h1 = Inr (r2, h2)"
    and refs: "map reference (requests h2) = [''dsr_1970_007'', ''dsr_1970_008'']" .
  note l = l1 l2
  have y: "1000 \<le> ymd_year (ymd_of_date (local_day (t_timezone ?t) HOUR))" by (simp add: day)
  have t0: "?t \<in> set (tenants (h_db empty_house))" by (simp add: empty_house_def)
  have t1: "?t \<in> set (tenants (h_db h1))" using l(1) t0 by (auto simp: log_request_def Let_def request_audit_def add_audit_def)
  have "request_step 3 default_periods empty_house h1" using logs [OF t0 y] l(1) by simp
  moreover have "request_step 3 default_periods h1 h2" using logs [OF t1 y] l(2) by simp
  ultimately have "(request_step 3 default_periods)\<^sup>*\<^sup>* empty_house h2" by simp
  with requests_numbered [OF this] refs show ?thesis by (auto simp: empty_house_def)
qed

end
