(* ===== verification/Bridge.thy ===== *)
theory Bridge
  imports KitchenRun
begin

text \<open>
  The program beside the printer (\<open>printbridge/bridge.py\<close>, \<open>state.py\<close>): it fetches due tickets, prints each
  one at most once and reports what became of it. The printer, the disk and the network are what they
  answer: a table of errors per ticket.
\<close>

section \<open>The log of what is printed\<close>

text \<open>\<open>PrintedLog\<close>: the revision each order was last printed in, the oldest entry first.\<close>

type_synonym printed_log = "(uuid \<times> int) list"

definition KEEP :: nat where "KEEP = 2000"

definition already :: "printed_log \<Rightarrow> uuid \<Rightarrow> int \<Rightarrow> bool" where
  "already log oid rv \<longleftrightarrow> rv \<le> (case map_of log oid of None \<Rightarrow> -1 | Some v \<Rightarrow> v)"

definition drop_oldest :: "nat \<Rightarrow> 'a list \<Rightarrow> 'a list" where
  "drop_oldest cap xs = drop (length xs - cap) xs"

definition log_record :: "nat \<Rightarrow> uuid \<Rightarrow> int \<Rightarrow> printed_log \<Rightarrow> printed_log" where
  "log_record cap oid rv log = drop_oldest cap (filter (\<lambda>(x, _). x \<noteq> oid) log @ [(oid, rv)])"

text \<open>\<open>__init__\<close>: what the file holds, \<open>None\<close> when there is none or it is broken.\<close>

definition log_load :: "printed_log option \<Rightarrow> printed_log" where
  "log_load stored = (case stored of None \<Rightarrow> [] | Some log \<Rightarrow> log)"

section \<open>One pass\<close>

text \<open>The order and the revision of a slip; \<open>None\<close> is the KeyError of a slip without an order.\<close>

definition slip_key :: "json \<Rightarrow> (uuid \<times> int) option" where
  "slip_key t = (case jget ''order_id'' t of
     Some (JId i) \<Rightarrow> Some (i, case payload_revision t of None \<Rightarrow> 0 | Some n \<Rightarrow> n) | _ \<Rightarrow> None)"

text \<open>What the surroundings answer for a ticket: the error of the print, whether the log can be written, and
  whether the report is answered.\<close>

record surroundings =
  print_error :: "uuid \<Rightarrow> str option"
  log_writes :: "uuid \<Rightarrow> bool"
  report_heard :: "uuid \<Rightarrow> bool"

text \<open>The bridge: its log in memory and on disk, the papers that came out, the reports that were heard, the
  number of the ones that were not, and how many slips this pass printed.\<close>

record bridge =
  log_mem :: printed_log
  log_file :: "printed_log option"
  papers :: "(uuid \<times> uuid \<times> int) list"
  heard :: "(uuid \<times> bool \<times> str option) list"
  unheard :: nat
  printed :: int

definition report :: "surroundings \<Rightarrow> uuid \<Rightarrow> bool \<Rightarrow> str option \<Rightarrow> bridge \<Rightarrow> bridge" where
  "report out eid good err b =
     (if report_heard out eid then b\<lparr>heard := heard b @ [(eid, good, err)]\<rparr> else b\<lparr>unheard := Suc (unheard b)\<rparr>)"

definition print_paper :: "nat \<Rightarrow> surroundings \<Rightarrow> uuid \<Rightarrow> uuid \<Rightarrow> int \<Rightarrow> bridge \<Rightarrow> bridge" where
  "print_paper cap out eid oid rv b =
     (let log = log_record cap oid rv (log_mem b)
      in b\<lparr>papers := papers b @ [(eid, oid, rv)], log_mem := log,
           log_file := (if log_writes out eid then Some log else log_file b)\<rparr>)"

text \<open>One ticket: known already, not printed, or printed; then the log, then the report.\<close>

definition serve_ticket :: "nat \<Rightarrow> surroundings \<Rightarrow> kitchen_ticket \<Rightarrow> bridge \<Rightarrow> bridge option" where
  "serve_ticket cap out t b =
     (case slip_key (tk_slip t) of None \<Rightarrow> None
      | Some (oid, rv) \<Rightarrow>
          if already (log_mem b) oid rv then Some (report out (tk_id t) True None b)
          else case print_error out (tk_id t) of
              Some err \<Rightarrow> Some (report out (tk_id t) False (Some err) b)
            | None \<Rightarrow> Some ((report out (tk_id t) True None (print_paper cap out (tk_id t) oid rv b))\<lparr>printed := printed b + 1\<rparr>))"

text \<open>\<open>run_once\<close> over the tickets the server gave; a slip without an order ends the pass. The result is
  the bridge and whether the pass raised.\<close>

fun serve_all :: "nat \<Rightarrow> surroundings \<Rightarrow> kitchen_ticket list \<Rightarrow> bridge \<Rightarrow> bridge \<times> bool" where
  "serve_all cap out [] b = (b, 0 < unheard b)"
| "serve_all cap out (t # ts) b =
     (case serve_ticket cap out t b of None \<Rightarrow> (b, True) | Some b' \<Rightarrow> serve_all cap out ts b')"

definition run_once :: "surroundings \<Rightarrow> kitchen_ticket list \<Rightarrow> bridge \<Rightarrow> bridge \<times> bool" where
  "run_once out ts b = serve_all KEEP out ts (b\<lparr>printed := 0, unheard := 0\<rparr>)"

text \<open>A new start of the program reads the file.\<close>

definition restart :: "bridge \<Rightarrow> bridge" where
  "restart b = b\<lparr>log_mem := log_load (log_file b), printed := 0, unheard := 0\<rparr>"

section \<open>The log is the last papers\<close>

text \<open>What the log stands for: of the orders printed, latest last, the last \<open>cap\<close>, each with the revision of
  its last paper.\<close>

definition orders_of :: "(uuid \<times> uuid \<times> int) list \<Rightarrow> uuid list" where
  "orders_of ps = remdups (map (\<lambda>(_, oid, _). oid) ps)"

definition last_revision :: "(uuid \<times> uuid \<times> int) list \<Rightarrow> uuid \<Rightarrow> int" where
  "last_revision ps oid = (let qs = filter (\<lambda>(_, x, _). x = oid) ps in if qs = [] then -1 else snd (snd (last qs)))"

definition log_of :: "nat \<Rightarrow> (uuid \<times> uuid \<times> int) list \<Rightarrow> printed_log" where
  "log_of cap ps = map (\<lambda>x. (x, last_revision ps x)) (drop_oldest cap (orders_of ps))"

lemma remdups_snoc: "remdups (xs @ [x]) = filter (\<lambda>y. y \<noteq> x) (remdups xs) @ [x]"
  by (induction xs) auto

lemma orders_of_snoc: "orders_of (ps @ [(i, x, r)]) = filter (\<lambda>y. y \<noteq> x) (orders_of ps) @ [x]"
  by (simp add: orders_of_def remdups_snoc)

lemma last_revision_snoc: "last_revision (ps @ [(i, x, r)]) oid = (if oid = x then r else last_revision ps oid)"
  by (simp add: last_revision_def)

lemma drop_oldest_short [simp]: "length xs \<le> cap \<Longrightarrow> drop_oldest cap xs = xs"
  by (simp add: drop_oldest_def)

lemma drop_oldest_Cons: "drop_oldest cap (x # xs) = (if cap \<le> length xs then drop_oldest cap xs else x # xs)"
  by (auto simp: drop_oldest_def Suc_diff_le)

lemma drop_oldest_map: "drop_oldest cap (map f xs) = map f (drop_oldest cap xs)"
  by (simp add: drop_oldest_def drop_map)

lemma drop_oldest_set: "set (drop_oldest cap xs) \<subseteq> set xs"
  by (simp add: drop_oldest_def set_drop_subset)

text \<open>One entry more, then the oldest out: as if nothing had been out before.\<close>

lemma drop_oldest_record:
  assumes "distinct xs" and "0 < cap"
  shows "drop_oldest cap (filter (\<lambda>y. y \<noteq> x) (drop_oldest cap xs) @ [x]) = drop_oldest cap (filter (\<lambda>y. y \<noteq> x) xs @ [x])"
  using assms(1)
proof (induction xs)
  case (Cons y ys)
  show ?case
  proof (cases "cap \<le> length ys")
    case True
    have "cap \<le> length (filter (\<lambda>y. y \<noteq> x) ys @ [x])"
    proof -
      have "filter (\<lambda>y. y \<noteq> x) ys = remove1 x ys"
        using Cons.prems by (simp add: distinct_remove1_removeAll removeAll_filter_not_eq eq_commute)
      then show ?thesis using True by (cases ys) (auto simp: length_remove1)
    qed
    then show ?thesis using True Cons by (simp add: drop_oldest_Cons)
  qed (simp add: drop_oldest_Cons)
qed simp

lemma log_of_snoc:
  assumes "0 < cap"
  shows "log_record cap x r (log_of cap ps) = log_of cap (ps @ [(i, x, r)])"
proof -
  let ?f = "\<lambda>y. (y, last_revision (ps @ [(i, x, r)]) y)" and ?os = "drop_oldest cap (orders_of ps)"
  have "filter (\<lambda>(y, _). y \<noteq> x) (log_of cap ps) = map (\<lambda>y. (y, last_revision ps y)) (filter (\<lambda>y. y \<noteq> x) ?os)"
    by (simp add: log_of_def filter_map comp_def)
  also have "\<dots> = map ?f (filter (\<lambda>y. y \<noteq> x) ?os)" by (simp add: last_revision_snoc)
  finally have "filter (\<lambda>(y, _). y \<noteq> x) (log_of cap ps) @ [(x, r)] = map ?f (filter (\<lambda>y. y \<noteq> x) ?os @ [x])"
    by (simp add: last_revision_snoc)
  then have "log_record cap x r (log_of cap ps) = map ?f (drop_oldest cap (filter (\<lambda>y. y \<noteq> x) ?os @ [x]))"
    by (simp only: log_record_def drop_oldest_map)
  also have "drop_oldest cap (filter (\<lambda>y. y \<noteq> x) ?os @ [x]) = drop_oldest cap (orders_of (ps @ [(i, x, r)]))"
    unfolding orders_of_snoc by (rule drop_oldest_record [OF _ assms]) (simp add: orders_of_def)
  finally show ?thesis by (simp add: log_of_def)
qed

lemma already_log_of: "already (log_of cap ps) x r \<longleftrightarrow>
    r \<le> (if x \<in> set (drop_oldest cap (orders_of ps)) then last_revision ps x else -1)"
proof -
  have "map_of (map (\<lambda>y. (y, f y)) ys) x = (if x \<in> set ys then Some (f x) else None)" for f :: "uuid \<Rightarrow> int" and ys
    by (induction ys) auto
  then show ?thesis by (simp add: already_def log_of_def)
qed

text \<open>While an order is among the last \<open>cap\<close>, the log knows its revision.\<close>

lemma orders_of_append: "orders_of (ps @ qs) = filter (\<lambda>y. y \<notin> set (orders_of qs)) (orders_of ps) @ orders_of qs"
proof (induction qs rule: rev_induct)
  case (snoc q qs)
  obtain j y s where q: "q = (j, y, s)" by (cases q)
  have "orders_of (ps @ qs @ [q]) = filter (\<lambda>z. z \<noteq> y) (orders_of (ps @ qs)) @ [y]"
    using orders_of_snoc [of "ps @ qs" j y s] by (simp add: q)
  then show ?case using snoc by (simp add: q orders_of_snoc) (rule filter_cong, auto)
qed (simp add: orders_of_def)

lemma orders_of_Cons_le: "length (orders_of bs) \<le> length (orders_of (bs @ [b]))"
proof -
  obtain j y s where b: "b = (j, y, s)" by (cases b)
  have "distinct (orders_of bs)" by (simp add: orders_of_def)
  then have "filter (\<lambda>z. z \<noteq> y) (orders_of bs) = remove1 y (orders_of bs)"
    by (simp add: distinct_remove1_removeAll removeAll_filter_not_eq eq_commute)
  then show ?thesis by (cases "orders_of bs") (auto simp: b orders_of_snoc length_remove1)
qed

lemma in_log:
  assumes "length (orders_of bs) < cap"
  shows "x \<in> set (drop_oldest cap (orders_of (as @ (i, x, r) # bs)))"
proof -
  let ?other = "\<lambda>y. y \<notin> set (orders_of bs)"
  have "orders_of (as @ (i, x, r) # bs) = orders_of ((as @ [(i, x, r)]) @ bs)" by simp
  also have "\<dots> = filter ?other (filter (\<lambda>y. y \<noteq> x) (orders_of as)) @ filter ?other [x] @ orders_of bs"
    by (subst orders_of_append) (simp add: orders_of_snoc)
  finally obtain pre where pre: "orders_of (as @ (i, x, r) # bs) = pre @ filter ?other [x] @ orders_of bs" by blast
  let ?last = "filter ?other [x] @ orders_of bs"
  have "drop_oldest cap (pre @ ?last) = drop (length (pre @ ?last) - cap) pre @ ?last"
    using assms by (simp add: drop_oldest_def)
  then show ?thesis unfolding pre by auto
qed

definition covered :: "nat \<Rightarrow> (uuid \<times> uuid \<times> int) list \<Rightarrow> bool" where
  "covered cap ps \<longleftrightarrow> (\<forall>as i x r bs. ps = as @ (i, x, r) # bs \<and> length (orders_of bs) < cap \<longrightarrow>
     already (log_of cap ps) x r)"

lemma covered_snoc:
  assumes "covered cap ps" and "\<not> already (log_of cap ps) y s" and "0 < cap"
  shows "covered cap (ps @ [(j, y, s)])"
  unfolding covered_def
proof (intro allI impI, elim conjE)
  fix as i x r bs
  assume e: "ps @ [(j, y, s)] = as @ (i, x, r) # bs" and l: "length (orders_of bs) < cap"
  have now: "x \<in> set (drop_oldest cap (orders_of (ps @ [(j, y, s)])))" unfolding e by (rule in_log [OF l])
  show "already (log_of cap (ps @ [(j, y, s)])) x r"
  proof (cases bs rule: rev_cases)
    case Nil
    then show ?thesis using e now by (simp add: already_log_of last_revision_snoc)
  next
    case (snoc cs c)
    then have ps: "ps = as @ (i, x, r) # cs" using e by simp
    have lc: "length (orders_of cs) < cap" using l orders_of_Cons_le [of cs c] snoc by simp
    have "already (log_of cap ps) x r" using assms(1) ps lc unfolding covered_def by blast
    moreover have "x \<in> set (drop_oldest cap (orders_of ps))" unfolding ps by (rule in_log [OF lc])
    ultimately have "r \<le> last_revision ps x" by (simp add: already_log_of)
    moreover have "last_revision ps x \<le> last_revision (ps @ [(j, y, s)]) x"
      using assms(2) \<open>x \<in> set (drop_oldest cap (orders_of ps))\<close>
      by (cases "x = y") (simp_all add: already_log_of last_revision_snoc)
    ultimately show ?thesis using now by (simp add: already_log_of)
  qed
qed

text \<open>Of two papers of one order the later one is newer, unless \<open>cap\<close> other orders came between them.\<close>

definition papers_follow :: "nat \<Rightarrow> (uuid \<times> uuid \<times> int) list \<Rightarrow> bool" where
  "papers_follow cap ps \<longleftrightarrow> (\<forall>as i x r bs j s cs. ps = as @ (i, x, r) # bs @ (j, x, s) # cs \<longrightarrow>
     r < s \<or> cap \<le> length (orders_of bs))"

lemma papers_follow_snoc:
  assumes "papers_follow cap ps" and "covered cap ps" and "\<not> already (log_of cap ps) x s"
  shows "papers_follow cap (ps @ [(j, x, s)])"
  unfolding papers_follow_def
proof (intro allI impI)
  fix as i y r bs k u cs
  assume e: "ps @ [(j, x, s)] = as @ (i, y, r) # bs @ (k, y, u) # cs"
  show "r < u \<or> cap \<le> length (orders_of bs)"
  proof (cases cs rule: rev_cases)
    case Nil
    then have ps: "ps = as @ (i, y, r) # bs" "y = x" "u = s" using e by simp_all
    have "r < s" if "length (orders_of bs) < cap"
    proof -
      have "already (log_of cap ps) x r" using assms(2) ps that unfolding covered_def by blast
      then show ?thesis using assms(3) by (auto simp: already_log_of)
    qed
    then show ?thesis using ps by fastforce
  next
    case (snoc ds d)
    then have "ps = as @ (i, y, r) # bs @ (k, y, u) # ds" using e by simp
    then show ?thesis using assms(1) unfolding papers_follow_def by blast
  qed
qed

section \<open>Server and bridge together\<close>

text \<open>\<open>Server.ack\<close>: an empty error is left out, a long one is cut.\<close>

definition sent_error :: "str option \<Rightarrow> str option" where
  "sent_error err = (case err of None \<Rightarrow> None | Some s \<Rightarrow> (if s = [] then None else Some (take 500 s)))"

text \<open>What the bridge says of a ticket.\<close>

definition said :: "surroundings \<Rightarrow> kitchen_ticket \<Rightarrow> bridge \<Rightarrow> bool \<times> str option" where
  "said out t b = (case slip_key (tk_slip t) of None \<Rightarrow> (True, None)
     | Some (oid, rv) \<Rightarrow> if already (log_mem b) oid rv then (True, None)
         else case print_error out (tk_id t) of None \<Rightarrow> (True, None) | Some err \<Rightarrow> (False, Some err))"

text \<open>The server with the tickets the bridge may still print, the bridge, and what is left of the tickets it
  fetched.\<close>

record shop =
  k_held :: "uuid set"
  k_db :: db
  k_bridge :: bridge
  k_batch :: "kitchen_ticket list"

text \<open>A report that is not answered may have reached the server all the same, and the log may not be written: the bridge
  then goes by what it has in memory. What is not part of the machine is a restart that finds a log without the last
  papers, because the disk failed or the bridge died between a paper and its entry (\<open>state.py\<close> accepts a second paper
  there), and the deletion of old rows of the outbox.\<close>

inductive shop_step :: "shop \<Rightarrow> shop \<Rightarrow> bool" where
  server: "kitchen_step (k_held s, k_db s) (held, d) \<Longrightarrow> k_held s \<subseteq> held \<Longrightarrow>
    shop_step s (s\<lparr>k_held := held, k_db := d\<rparr>)"
| fetch: "k_batch s = [] \<Longrightarrow> claim_tickets locked tid now limit (k_db s) = Inr (ts, d) \<Longrightarrow>
    shop_step s (s\<lparr>k_held := k_held s \<union> tk_id ` set ts, k_db := d, k_batch := ts,
      k_bridge := (k_bridge s)\<lparr>printed := 0, unheard := 0\<rparr>\<rparr>)"
| serve: "k_batch s = t # ts \<Longrightarrow> serve_ticket KEEP out t (k_bridge s) = Some b \<Longrightarrow>
    said out t (k_bridge s) = (good, err) \<Longrightarrow>
    ack_ticket tid (tk_id t) good now (sent_error err) (k_db s) = Inr (st, d) \<Longrightarrow>
    shop_step s (s\<lparr>k_held := (if good then k_held s else k_held s - {tk_id t}), k_db := d, k_bridge := b, k_batch := ts\<rparr>)"
| unreported: "k_batch s = t # ts \<Longrightarrow> serve_ticket KEEP out t (k_bridge s) = Some b \<Longrightarrow>
    \<not> report_heard out (tk_id t) \<Longrightarrow> shop_step s (s\<lparr>k_bridge := b, k_batch := ts\<rparr>)"
| abort: "shop_step s (s\<lparr>k_batch := []\<rparr>)"
| reboot: "log_load (log_file (k_bridge s)) = log_mem (k_bridge s) \<Longrightarrow> shop_step s (s\<lparr>k_batch := [], k_bridge := restart (k_bridge s)\<rparr>)"

text \<open>A row of the outbox that has been handed out, and what its slip says.\<close>

definition given :: "db \<Rightarrow> uuid \<Rightarrow> outbox_event \<Rightarrow> bool" where
  "given d i e \<longleftrightarrow> e \<in> set (outbox d) \<and> ev_id e = i \<and> attempts e > 0 \<and> event_type e \<in> set KITCHEN"

definition batch_ok :: "shop \<Rightarrow> bool" where
  "batch_ok s \<longleftrightarrow> distinct (map tk_id (k_batch s)) \<and>
     (\<forall>t \<in> set (k_batch s). tk_id t \<in> k_held s \<and> (\<exists>e. given (k_db s) (tk_id t) e \<and> tk_slip t = slip (ev_payload e)))"

definition papers_ok :: "shop \<Rightarrow> bool" where
  "papers_ok s \<longleftrightarrow>
     (\<forall>(i, x, r) \<in> set (papers (k_bridge s)). \<exists>e. given (k_db s) i e \<and> slip_key (slip (ev_payload e)) = Some (x, r))"

definition log_ok :: "bridge \<Rightarrow> bool" where
  "log_ok b \<longleftrightarrow> log_mem b = log_of KEEP (papers b) \<and> covered KEEP (papers b) \<and> papers_follow KEEP (papers b)"

definition recent_held :: "shop \<Rightarrow> bool" where
  "recent_held s \<longleftrightarrow> (\<forall>as i x r bs. papers (k_bridge s) = as @ (i, x, r) # bs \<and> length (orders_of bs) < KEEP \<longrightarrow> i \<in> k_held s)"

definition shop_inv :: "shop \<Rightarrow> bool" where
  "shop_inv s \<longleftrightarrow> held_inv (k_held s, k_db s) \<and> batch_ok s \<and> papers_ok s \<and> log_ok (k_bridge s) \<and> recent_held s"

section \<open>Every step keeps the books\<close>

lemma evolves_mono: "evolves Q d d' \<Longrightarrow> (\<And>x y. Q x y \<Longrightarrow> R x y) \<Longrightarrow> evolves R d d'"
  unfolding evolves_def by blast

lemma kitchen_step_same:
  assumes "kitchen_step (held, d) (held', d')" and "keys_ok d"
  shows "evolves same_ticket d d'"
  using assms
proof (cases rule: kitchen_step_cases)
  case (1 ts locked tid now limit)
  show ?thesis by (rule evolves_mono [OF claim_evolves(1) [OF 1(1) assms(2)]]) (simp add: keeps_held_def)
next
  case (2 tid eid now err st)
  show ?thesis by (rule evolves_mono [OF ack_bad_evolves [OF 2(1) assms(2)]]) (simp add: keeps_held_but_def)
next
  case 3
  show ?thesis by (rule evolves_mono [OF 3(1)]) (simp add: keeps_held_def)
qed

lemma given_kept:
  assumes "evolves same_ticket d d'" and "given d i e"
  shows "\<exists>e'. given d' i e' \<and> ev_payload e' = ev_payload e"
proof -
  obtain f new where o: "outbox d' = map f (outbox d) @ new"
    and f: "\<forall>e \<in> set (outbox d). ev_id (f e) = ev_id e \<and> same_ticket e (f e)" using assms(1) by (auto simp: evolves_def)
  then have "given d' i (f e) \<and> ev_payload (f e) = ev_payload e"
    using assms(2) by (auto simp: given_def same_ticket_def)
  then show ?thesis by blast
qed

lemma given_unique: "keys_ok d \<Longrightarrow> given d i e \<Longrightarrow> given d i x \<Longrightarrow> x = e"
  using rows_of_id [of "outbox d" e x] by (simp add: keys_ok_def given_def)

lemma batch_moves:
  assumes "batch_ok s" and "evolves same_ticket (k_db s) d" and "set ts \<subseteq> set (k_batch s)"
    and "distinct (map tk_id ts)" and "\<forall>t \<in> set ts. tk_id t \<in> held"
  shows "batch_ok (s\<lparr>k_held := held, k_db := d, k_bridge := b, k_batch := ts\<rparr>)"
  unfolding batch_ok_def
proof (intro conjI ballI)
  fix t
  assume t: "t \<in> set (k_batch (s\<lparr>k_held := held, k_db := d, k_bridge := b, k_batch := ts\<rparr>))"
  then obtain e where e: "given (k_db s) (tk_id t) e" "tk_slip t = slip (ev_payload e)"
    using assms(1,3) by (auto simp: batch_ok_def)
  show "\<exists>e. given (k_db (s\<lparr>k_held := held, k_db := d, k_bridge := b, k_batch := ts\<rparr>)) (tk_id t) e \<and>
      tk_slip t = slip (ev_payload e)"
    using given_kept [OF assms(2) e(1)] e(2) by auto
qed (use assms in auto)

lemma papers_move:
  assumes "papers_ok s" and "evolves same_ticket (k_db s) (k_db s')" and "papers (k_bridge s') = papers (k_bridge s)"
  shows "papers_ok s'"
proof -
  have "\<exists>e. given (k_db s') i e \<and> slip_key (slip (ev_payload e)) = Some (x, r)"
    if p: "(i, x, r) \<in> set (papers (k_bridge s'))" for i x r
  proof -
    obtain e where e: "given (k_db s) i e" "slip_key (slip (ev_payload e)) = Some (x, r)"
      using p assms(1,3) unfolding papers_ok_def by fastforce
    then show ?thesis using given_kept [OF assms(2) e(1)] by metis
  qed
  then show ?thesis by (auto simp: papers_ok_def)
qed

text \<open>The two outcomes of a served ticket for the papers and the log.\<close>

lemma serve_cases:
  assumes "serve_ticket KEEP out t b = Some b'"
  obtains (quiet) x r where "slip_key (tk_slip t) = Some (x, r)" "papers b' = papers b" "log_mem b' = log_mem b"
      "fst (said out t b) \<or> \<not> already (log_mem b) x r"
  | (paper) x r where "slip_key (tk_slip t) = Some (x, r)" "\<not> already (log_mem b) x r" "fst (said out t b)"
      "papers b' = papers b @ [(tk_id t, x, r)]" "log_mem b' = log_record KEEP x r (log_mem b)"
proof -
  obtain x r where k: "slip_key (tk_slip t) = Some (x, r)"
    using assms(1) by (auto simp: serve_ticket_def split: option.splits)
  have rep: "papers (report out i g e b1) = papers b1" "log_mem (report out i g e b1) = log_mem b1"
    "log_file (report out i g e b1) = log_file b1" for i g e b1 by (simp_all add: report_def)
  consider "already (log_mem b) x r" | err where "\<not> already (log_mem b) x r" "print_error out (tk_id t) = Some err"
    | "\<not> already (log_mem b) x r" "print_error out (tk_id t) = None" by (cases "print_error out (tk_id t)") auto
  then show thesis
  proof cases
    case 1
    then show ?thesis using assms k by (intro quiet) (auto simp: serve_ticket_def said_def rep)
  next
    case 2
    then show ?thesis using assms k by (intro quiet) (auto simp: serve_ticket_def said_def rep)
  next
    case 3
    then have b': "b' = report out (tk_id t) True None (print_paper KEEP out (tk_id t) x r b)\<lparr>printed := printed b + 1\<rparr>"
      using assms k by (simp add: serve_ticket_def)
    show ?thesis using 3 k by (intro paper) (simp_all add: b' said_def rep print_paper_def Let_def)
  qed
qed

lemma log_ok_paper:
  assumes "log_ok b" and "\<not> already (log_mem b) x r" and "papers b' = papers b @ [(i, x, r)]"
    and "log_mem b' = log_record KEEP x r (log_mem b)"
  shows "log_ok b'"
proof -
  have k: "0 < KEEP" by (simp add: KEEP_def)
  have n: "\<not> already (log_of KEEP (papers b)) x r" using assms(1,2) by (simp add: log_ok_def)
  have "log_mem b' = log_of KEEP (papers b')"
    using assms log_of_snoc [OF k, of x r "papers b" i] by (simp add: log_ok_def)
  moreover have "covered KEEP (papers b')" unfolding assms(3)
    by (rule covered_snoc [OF _ n k]) (use assms(1) in \<open>simp add: log_ok_def\<close>)
  moreover have "papers_follow KEEP (papers b')" unfolding assms(3)
    by (rule papers_follow_snoc [OF _ _ n]) (use assms(1) in \<open>simp_all add: log_ok_def\<close>)
  ultimately show ?thesis by (simp add: log_ok_def)
qed

lemma log_ok_quiet:
  "log_ok b \<Longrightarrow> papers b' = papers b \<Longrightarrow> log_mem b' = log_mem b \<Longrightarrow> log_ok b'"
  by (simp add: log_ok_def)

lemma recent_mono:
  assumes "recent_held s" and "papers (k_bridge s') = papers (k_bridge s)" and "k_held s \<subseteq> k_held s'"
  shows "recent_held s'"
  using assms unfolding recent_held_def by (metis subsetD)

text \<open>A paper more: it is held, and what was recent before is.\<close>

lemma recent_snoc:
  assumes "recent_held s" and "papers (k_bridge s') = papers (k_bridge s) @ [(i, x, r)]"
    and "i \<in> k_held s" and "k_held s' = k_held s"
  shows "recent_held s'"
  unfolding recent_held_def
proof (intro allI impI, elim conjE)
  fix as j y q bs
  assume p: "papers (k_bridge s') = as @ (j, y, q) # bs" and l: "length (orders_of bs) < KEEP"
  show "j \<in> k_held s'"
  proof (cases bs rule: rev_cases)
    case Nil
    then show ?thesis using p assms by simp
  next
    case (snoc cs c)
    then have "papers (k_bridge s) = as @ (j, y, q) # cs" using p assms(2) by simp
    moreover have "length (orders_of cs) < KEEP" using l snoc orders_of_Cons_le [of cs c] by simp
    ultimately show ?thesis using assms(1,4) unfolding recent_held_def by blast
  qed
qed

text \<open>A print error is reported only of a slip the log does not know: none of the recent papers is its.\<close>

lemma recent_drop:
  assumes "shop_inv s" and "k_batch s = t # ts" and "slip_key (tk_slip t) = Some (x, r)"
    and "\<not> already (log_mem (k_bridge s)) x r" and "papers (k_bridge s') = papers (k_bridge s)"
    and "k_held s' = k_held s - {tk_id t}"
  shows "recent_held s'"
  unfolding recent_held_def
proof (intro allI impI, elim conjE)
  fix as j y q bs
  assume p: "papers (k_bridge s') = as @ (j, y, q) # bs" and l: "length (orders_of bs) < KEEP"
  have inv: "keys_ok (k_db s)" "batch_ok s" "papers_ok s" "log_ok (k_bridge s)" "recent_held s"
    using assms(1) by (simp_all add: shop_inv_def held_inv_def)
  have "j \<noteq> tk_id t"
  proof
    assume j: "j = tk_id t"
    obtain e where e: "given (k_db s) j e" "tk_slip t = slip (ev_payload e)"
      using inv(2) assms(2) j by (auto simp: batch_ok_def)
    have "(j, y, q) \<in> set (papers (k_bridge s))" using p assms(5) by simp
    then obtain e' where e': "given (k_db s) j e'" "slip_key (slip (ev_payload e')) = Some (y, q)"
      using inv(3) unfolding papers_ok_def by fastforce
    have "y = x" "q = r" using given_unique [OF inv(1) e(1) e'(1)] e(2) e'(2) assms(3) by simp_all
    moreover have "already (log_of KEEP (papers (k_bridge s))) y q"
      using inv(4) p l assms(5) unfolding log_ok_def covered_def by metis
    ultimately show False using inv(4) assms(4) by (simp add: log_ok_def)
  qed
  moreover have "j \<in> k_held s" using inv(5) p l assms(5) unfolding recent_held_def by metis
  ultimately show "j \<in> k_held s'" using assms(6) by simp
qed

lemma serve_invariant:
  assumes inv: "shop_inv s" and batch: "k_batch s = t # ts"
    and serve: "serve_ticket KEEP out t (k_bridge s) = Some b"
    and report: "held = k_held s \<or> \<not> fst (said out t (k_bridge s)) \<and> held = k_held s - {tk_id t}"
    and db: "evolves same_ticket (k_db s) d" "held_inv (held, d)"
  shows "shop_inv (s\<lparr>k_held := held, k_db := d, k_bridge := b, k_batch := ts\<rparr>)" (is "shop_inv ?s'")
proof -
  have i: "batch_ok s" "papers_ok s" "log_ok (k_bridge s)" "recent_held s" using inv by (simp_all add: shop_inv_def)
  have b': "batch_ok ?s'"
    by (rule batch_moves [OF i(1) db(1)]) (use i(1) batch report in \<open>auto simp: batch_ok_def image_iff\<close>)
  show ?thesis
  using serve proof (cases rule: serve_cases)
    case (quiet x r)
    have "recent_held ?s'"
    proof (cases "held = k_held s")
      case True
      then show ?thesis using i(4) quiet by (simp add: recent_held_def)
    next
      case False
      then show ?thesis using report quiet by (intro recent_drop [OF inv batch quiet(1)]) auto
    qed
    then show ?thesis
      using b' db papers_move [OF i(2), of ?s'] log_ok_quiet [OF i(3), of b] quiet by (simp add: shop_inv_def)
  next
    case (paper x r)
    obtain e where e: "given (k_db s) (tk_id t) e" "tk_slip t = slip (ev_payload e)" and h: "tk_id t \<in> k_held s"
      using i(1) batch by (auto simp: batch_ok_def)
    have same: "held = k_held s" using report paper(3) by simp
    have old: "papers_ok (s\<lparr>k_db := d\<rparr>)" by (rule papers_move [OF i(2)]) (use db in simp_all)
    have "papers_ok ?s'"
      using old given_kept [OF db(1) e(1)] e(2) paper(1,4) by (auto simp: papers_ok_def)
    moreover have "recent_held ?s'" by (rule recent_snoc [OF i(4) _ h]) (simp_all add: paper(4) same)
    ultimately show ?thesis using b' db log_ok_paper [OF i(3) paper(2,4,5)] by (simp add: shop_inv_def)
  qed
qed

lemma shop_step_inv: "shop_step s s' \<Longrightarrow> shop_inv s \<Longrightarrow> shop_inv s'"
proof (induction rule: shop_step.induct)
  case (server s held d)
  have k: "held_inv (k_held s, k_db s)" "keys_ok (k_db s)" using server.prems by (simp_all add: shop_inv_def held_inv_def)
  have ev: "evolves same_ticket (k_db s) d" by (rule kitchen_step_same [OF server.hyps(1) k(2)])
  have "batch_ok (s\<lparr>k_held := held, k_db := d, k_bridge := k_bridge s, k_batch := k_batch s\<rparr>)"
    by (rule batch_moves [OF _ ev]) (use server in \<open>auto simp: shop_inv_def batch_ok_def\<close>)
  moreover have "papers_ok (s\<lparr>k_held := held, k_db := d\<rparr>)"
    by (rule papers_move) (use server.prems ev in \<open>simp_all add: shop_inv_def\<close>)
  moreover have "recent_held (s\<lparr>k_held := held, k_db := d\<rparr>)"
    by (rule recent_mono [of s]) (use server in \<open>simp_all add: shop_inv_def\<close>)
  ultimately show ?case
    using kitchen_step_inv [OF server.hyps(1) k(1)] server.prems by (simp add: shop_inv_def)
next
  case (fetch s locked tid now limit ts d)
  let ?held = "k_held s \<union> tk_id ` set ts"
  have inv: "held_inv (k_held s, k_db s)" and k: "keys_ok (k_db s)"
    using fetch.prems by (simp_all add: shop_inv_def held_inv_def)
  have "kitchen_step (k_held s, k_db s) (?held, d)" by (rule kitchen_step.pickup [OF fetch.hyps(2)])
  then have step: "held_inv (?held, d)" "evolves same_ticket (k_db s) d"
    using kitchen_step_inv [OF _ inv] kitchen_step_same [OF _ k] by blast+
  let ?s' = "s\<lparr>k_held := ?held, k_db := d, k_batch := ts, k_bridge := (k_bridge s)\<lparr>printed := 0, unheard := 0\<rparr>\<rparr>"
  have dist: "distinct (map ev_id (outbox (k_db s)))" using k by (simp add: keys_ok_def)
  note c = claimed_current [OF fetch.hyps(2) dist]
  have "\<exists>e. given d (tk_id t) e \<and> tk_slip t = slip (ev_payload e)" if "t \<in> set ts" for t
  proof -
    obtain e where e: "claimable tid now e" "tk_id t = ev_id e" "tk_slip t = slip (ev_payload e)" "lease now e \<in> set (outbox d)"
      using c \<open>t \<in> set ts\<close> by blast
    then have "given d (tk_id t) (lease now e)" by (simp add: given_def claimable_def)
    then show ?thesis using e(3) by (intro exI [of _ "lease now e"]) simp
  qed
  then have "batch_ok ?s'" using c by (simp add: batch_ok_def)
  moreover have "papers_ok ?s'" by (rule papers_move) (use fetch.prems step in \<open>simp_all add: shop_inv_def\<close>)
  moreover have "recent_held ?s'" by (rule recent_mono [of s]) (use fetch.prems in \<open>auto simp: shop_inv_def\<close>)
  ultimately show ?case using step fetch.prems by (simp add: shop_inv_def log_ok_def)
next
  case (serve s t ts out b good err tid now st d)
  have inv: "held_inv (k_held s, k_db s)" and k: "keys_ok (k_db s)"
    using serve.prems by (simp_all add: shop_inv_def held_inv_def)
  let ?held = "if good then k_held s else k_held s - {tk_id t}"
  have "kitchen_step (k_held s, k_db s) (?held, d)"
    using serve.hyps(4) by (cases good) (auto intro: kitchen_step.printed kitchen_step.print_error)
  then have "held_inv (?held, d)" "evolves same_ticket (k_db s) d"
    using kitchen_step_inv [OF _ inv] kitchen_step_same [OF _ k] by blast+
  then show ?case using serve.hyps(3) by (intro serve_invariant [OF serve.prems serve.hyps(1,2)]) auto
next
  case (unreported s t ts out b)
  have "shop_inv (s\<lparr>k_held := k_held s, k_db := k_db s, k_bridge := b, k_batch := ts\<rparr>)"
    by (rule serve_invariant [OF unreported.prems unreported.hyps(1,2)])
      (use unreported.prems in \<open>auto simp: shop_inv_def evolves_same same_ticket_def\<close>)
  then show ?case by simp
next
  case (abort s)
  then show ?case by (simp add: shop_inv_def batch_ok_def papers_ok_def recent_held_def)
next
  case (reboot s)
  then show ?case
    by (simp add: shop_inv_def batch_ok_def papers_ok_def recent_held_def log_ok_def restart_def)
qed

interpretation shop: machine shop_step shop_inv
  by unfold_locales (rule shop_step_inv)

definition idle_bridge :: bridge where
  "idle_bridge = \<lparr>log_mem = [], log_file = None, papers = [], heard = [], unheard = 0, printed = 0\<rparr>"

definition shop_start :: "db \<Rightarrow> shop" where
  "shop_start d = \<lparr>k_held = {}, k_db = d, k_bridge = idle_bridge, k_batch = []\<rparr>"

lemma shop_start_inv: "keys_ok d \<Longrightarrow> shop_inv (shop_start d)"
  by (simp add: shop_start_def idle_bridge_def shop_inv_def held_inv_def batch_ok_def papers_ok_def recent_held_def
      log_ok_def log_of_def orders_of_def log_load_def covered_def papers_follow_def)

text \<open>C18. No second paper: while no data is deleted, whatever reports are lost or repeated, whatever is resent and however
  often the bridge is restarted with a log that is complete, of two papers of one order that came out of the printer the later one has a
  higher revision, unless 2000 papers of other orders lie in between.\<close>

theorem paper_once:
  assumes "shop_step\<^sup>*\<^sup>* (shop_start d) s" and "keys_ok d"
    and "papers (k_bridge s) = as @ (i, x, r) # bs @ (j, x, q) # cs"
  shows "r < q \<or> KEEP \<le> length (orders_of bs)"
  using shop.steps_inv [OF assms(1) shop_start_inv [OF assms(2)]] assms(3)
  unfolding shop_inv_def log_ok_def papers_follow_def by blast

text \<open>C7. A paper is known: while no data is deleted, fewer than 2000 other orders were printed since and no restart of the bridge
  finds an incomplete log, the program knows that a slip of the order of a paper may exist; and when that order is
  cancelled, the note that voids the paper lies in the outbox, due and not fetched yet.\<close>

theorem paper_is_known:
  assumes "shop_step\<^sup>*\<^sup>* (shop_start d) s" and "keys_ok d"
    and "papers (k_bridge s) = as @ (i, o_id ord, r) # bs" and "length (orders_of bs) < KEEP"
    and "\<forall>e \<in> set (outbox (k_db s)). ev_id e = i \<longrightarrow> ev_tenant_id e = o_tenant_id ord"
  shows "may_hold_a_slip (k_db s) ord \<and>
    (\<forall>locked md5 seen who now x d'. live_order (k_db s) (o_tenant_id ord) (o_id ord) = Some ord \<and> o_status ord \<noteq> OCancelled \<and>
       cancel_order locked md5 (o_tenant_id ord) (o_id ord) seen who now (k_db s) = Inr (x, d') \<longrightarrow>
       o_status x = OCancelled \<and> handover_state x = Some PENDING \<and>
       (\<exists>es e. outbox d' = es @ [e] \<and> length es = length (outbox (k_db s)) \<and> voids (o_tenant_id ord) (o_id ord) e))"
proof -
  have inv: "shop_inv s" by (rule shop.steps_inv [OF assms(1) shop_start_inv [OF assms(2)]])
  then have h: "held_inv (k_held s, k_db s)" and k: "keys_ok (k_db s)" by (simp_all add: shop_inv_def held_inv_def)
  have i: "i \<in> k_held s" using inv assms(3,4) unfolding shop_inv_def recent_held_def by blast
  obtain e where e: "given (k_db s) i e" "slip_key (slip (ev_payload e)) = Some (o_id ord, r)"
    using inv assms(3) unfolding shop_inv_def papers_ok_def by fastforce
  have "jget ''order_id'' (ev_payload e) = Some (JId (o_id ord))"
    using e(2) by (auto simp: slip_key_def slip_get split: option.splits json.splits if_splits)
  then have t: "\<forall>x \<in> set (outbox (k_db s)). ev_id x = i \<longrightarrow> ticket_of (o_tenant_id ord) (o_id ord) x"
    using rows_of_id [of "outbox (k_db s)" e] e(1) k assms(5) by (auto simp: given_def keys_ok_def ticket_of_def)
  have "may_hold_a_slip (k_db s) ord" by (rule held_slip [OF h i t])
  moreover have "fst (withdraw_tickets locked ord now (k_db s))" for locked now by (rule withdraw_knows [OF h i t])
  ultimately show ?thesis using cancel_voids by blast
qed

section \<open>An order, its correction and their two papers\<close>

definition good_printer :: surroundings where
  "good_printer = \<lparr>print_error = (\<lambda>_. None), log_writes = (\<lambda>_. True), report_heard = (\<lambda>_. True)\<rparr>"

definition bridge_after :: "kitchen_ticket list \<Rightarrow> bridge \<Rightarrow> bridge" where
  "bridge_after ts b = (case serve_ticket KEEP good_printer (hd ts) (b\<lparr>printed := 0, unheard := 0\<rparr>) of
     None \<Rightarrow> b | Some b' \<Rightarrow> b')"

definition corrected_db :: db where
  "corrected_db = printed_db\<lparr>audit := audit printed_db @ [example_draft_audit\<lparr>action := ACTION_CORRECTED\<rparr>]\<rparr>"

definition resent_db :: db where
  "resent_db = (case send_ticket nobody example_order (Some ''other'') corrected_db of Inl _ \<Rightarrow> corrected_db | Inr (_, d) \<Rightarrow> d)"

definition new_tickets :: "kitchen_ticket list" where
  "new_tickets = (case claim_tickets nobody 7 30 5 resent_db of Inl _ \<Rightarrow> [] | Inr (ts, _) \<Rightarrow> ts)"

definition new_leased_db :: db where
  "new_leased_db = (case claim_tickets nobody 7 30 5 resent_db of Inl _ \<Rightarrow> resent_db | Inr (_, d) \<Rightarrow> d)"

definition new_printed_db :: db where
  "new_printed_db = (case ack_ticket 7 (tk_id (hd new_tickets)) True 40 None new_leased_db of
     Inl _ \<Rightarrow> new_leased_db | Inr (_, d) \<Rightarrow> d)"

definition two_papers :: bridge where
  "two_papers = bridge_after new_tickets (bridge_after leased_tickets idle_bridge)"

lemma serve_good:
  assumes "length ts = 1" and "slip_key (tk_slip (hd ts)) = Some (x, r)" and "\<not> already (log_mem b) x r"
    and "ack_ticket tid (tk_id (hd ts)) True now None d = Inr (st, d')"
    and "claim_tickets locked tid' now' limit d0 = Inr (ts, d)"
  shows "shop_step\<^sup>*\<^sup>* \<lparr>k_held = h, k_db = d0, k_bridge = b, k_batch = []\<rparr>
     \<lparr>k_held = h \<union> tk_id ` set ts, k_db = d', k_bridge = bridge_after ts b, k_batch = []\<rparr>"
proof -
  let ?b = "b\<lparr>printed := 0, unheard := 0\<rparr>"
  let ?s = "\<lparr>k_held = h, k_db = d0, k_bridge = b, k_batch = []\<rparr>"
  obtain t where ts: "ts = [t]" using assms(1) by (cases ts) auto
  have s: "serve_ticket KEEP good_printer t ?b = Some (bridge_after ts b)" "said good_printer t ?b = (True, None)"
    using assms(2,3) by (simp_all add: ts bridge_after_def serve_ticket_def said_def good_printer_def)
  have "shop_step ?s \<lparr>k_held = h \<union> tk_id ` set ts, k_db = d, k_bridge = ?b, k_batch = ts\<rparr>"
    using shop_step.fetch [where s = ?s and ts = ts and d = d and locked = locked and tid = tid' and now = now' and limit = limit]
      assms(5) by simp
  moreover have "shop_step \<lparr>k_held = h \<union> tk_id ` set ts, k_db = d, k_bridge = ?b, k_batch = ts\<rparr>
     \<lparr>k_held = h \<union> tk_id ` set ts, k_db = d', k_bridge = bridge_after ts b, k_batch = []\<rparr>"
    using shop_step.serve [of "\<lparr>k_held = h \<union> tk_id ` set ts, k_db = d, k_bridge = ?b, k_batch = ts\<rparr>" t "[]"
        good_printer "bridge_after ts b" True None tid now st d'] s assms(4)
    by (simp add: ts sent_error_def good_printer_def)
  ultimately show ?thesis by (blast intro: rtranclp.rtrancl_into_rtrancl)
qed

lemma first_paper:
  "shop_step\<^sup>*\<^sup>* (shop_start ticket_db)
     \<lparr>k_held = {} \<union> tk_id ` set leased_tickets, k_db = printed_db, k_bridge = bridge_after leased_tickets idle_bridge, k_batch = []\<rparr>"
  unfolding shop_start_def
proof (rule serve_good [OF _ _ _ _ example_claim])
  have i: "map tk_id leased_tickets = [100]" by code_simp
  then show "length leased_tickets = 1" by (metis length_map length_Cons list.size(3) One_nat_def)
  have "tk_id (hd leased_tickets) = 100" by code_simp
  then show "ack_ticket 7 (tk_id (hd leased_tickets)) True 20 None leased_db = Inr (SENT, printed_db)"
    using example_ack by simp
  show "slip_key (tk_slip (hd leased_tickets)) = Some (50, 0)" by code_simp
  show "\<not> already (log_mem idle_bridge) 50 0" by code_simp
qed

lemma correction_sent:
  "shop_step\<^sup>*\<^sup>* \<lparr>k_held = h, k_db = printed_db, k_bridge = b, k_batch = []\<rparr>
     \<lparr>k_held = h, k_db = resent_db, k_bridge = b, k_batch = []\<rparr>"
proof -
  let ?s = "\<lambda>d. \<lparr>k_held = h, k_db = d, k_bridge = b, k_batch = []\<rparr>"
  have "\<not> isl (send_ticket nobody example_order (Some ''other'') corrected_db)" by code_simp
  from result_parts [OF this, of "new_event 7 ORDER_CONFIRMED JNull order_db" corrected_db]
  obtain e where e: "send_ticket nobody example_order (Some ''other'') corrected_db = Inr (e, resent_db)"
    by (rule that [unfolded resent_db_def])
  have "shop_step (?s printed_db) (?s corrected_db)"
    using shop_step.server [of "?s printed_db" h corrected_db] kitchen_step.elsewhere [of corrected_db printed_db h]
    by (simp add: corrected_db_def)
  moreover have "shop_step (?s corrected_db) (?s resent_db)"
    using shop_step.server [of "?s corrected_db" h resent_db] kitchen_step.send [OF e, of h] by simp
  ultimately show ?thesis by (blast intro: rtranclp.rtrancl_into_rtrancl)
qed

lemma new_claim: "claim_tickets nobody 7 30 5 resent_db = Inr (new_tickets, new_leased_db)"
  unfolding new_tickets_def new_leased_db_def by (rule result_parts) code_simp

lemma second_paper:
  "shop_step\<^sup>*\<^sup>* \<lparr>k_held = h, k_db = resent_db, k_bridge = bridge_after leased_tickets idle_bridge, k_batch = []\<rparr>
     \<lparr>k_held = h \<union> tk_id ` set new_tickets, k_db = new_printed_db, k_bridge = two_papers, k_batch = []\<rparr>"
proof -
  let ?r = "ack_ticket 7 (tk_id (hd new_tickets)) True 40 None new_leased_db"
  have "\<not> isl ?r" by code_simp
  from result_parts [OF this, of PENDING new_leased_db]
  obtain st where a: "?r = Inr (st, new_printed_db)" by (rule that [unfolded new_printed_db_def])
  have k: "length new_tickets = 1" "slip_key (tk_slip (hd new_tickets)) = Some (50, 1)"
    "\<not> already (log_mem (bridge_after leased_tickets idle_bridge)) 50 1" by code_simp+
  show ?thesis unfolding two_papers_def by (rule serve_good [OF k a new_claim])
qed

lemma two_papers: "papers two_papers = [] @ (100, 50, 0) # [] @ (101, 50, 1) # []"
  by code_simp

lemma both_papers:
  "shop_step\<^sup>*\<^sup>* (shop_start ticket_db) \<lparr>k_held = ({} \<union> tk_id ` set leased_tickets) \<union> tk_id ` set new_tickets,
     k_db = new_printed_db, k_bridge = two_papers, k_batch = []\<rparr>"
  by (rule rtranclp_trans [OF first_paper rtranclp_trans [OF correction_sent second_paper]])

theorem paper_once_witness:
  "\<exists>s. shop_step\<^sup>*\<^sup>* (shop_start ticket_db) s \<and> papers (k_bridge s) = [(100, 50, 0), (101, 50, 1)] \<and> (0::int) < 1"
proof -
  have "(0::int) < 1 \<or> KEEP \<le> length (orders_of [])"
    by (rule paper_once [OF both_papers ticket_db_keys]) (simp only: shop.select_convs two_papers)
  then have "(0::int) < 1" by (simp add: KEEP_def orders_of_def)
  then show ?thesis using both_papers two_papers by (intro exI conjI) (assumption, simp_all)
qed

lemma paper_cancelled:
  "\<exists>x d'. cancel_order nobody plain_md5 7 50 [] ''tablet'' 99 printed_db = Inr (x, d')"
proof -
  have "\<not> isl (cancel_order nobody plain_md5 7 50 [] ''tablet'' 99 printed_db)" by code_simp
  from result_parts [OF this, of example_order printed_db] show ?thesis by blast
qed

theorem paper_is_known_witness:
  "may_hold_a_slip printed_db (example_order\<lparr>handover_state := Some SENT\<rparr>) \<and>
   (\<exists>x d' es e. cancel_order nobody plain_md5 7 50 [] ''tablet'' 99 printed_db = Inr (x, d') \<and> outbox d' = es @ [e] \<and> voids 7 50 e)"
proof -
  let ?o = "example_order\<lparr>handover_state := Some SENT\<rparr>"
  have p: "papers (bridge_after leased_tickets idle_bridge) = [] @ (100, o_id ?o, 0) # []" by code_simp
  have "list_all (\<lambda>e. ev_tenant_id e = 7) (outbox printed_db)" by code_simp
  then have t: "\<forall>e \<in> set (outbox printed_db). ev_id e = 100 \<longrightarrow> ev_tenant_id e = o_tenant_id ?o"
    by (simp add: list_all_iff example_order_def)
  have o: "live_order printed_db 7 50 = Some ?o" "o_status ?o \<noteq> OCancelled" "o_tenant_id ?o = 7" "o_id ?o = 50"
    by code_simp+
  have "length (orders_of []) < KEEP" by (simp add: orders_of_def KEEP_def)
  note known = paper_is_known [OF first_paper ticket_db_keys, unfolded shop.select_convs, OF p this t]
  obtain x d' where c: "cancel_order nobody plain_md5 7 50 [] ''tablet'' 99 printed_db = Inr (x, d')"
    using paper_cancelled by blast
  show ?thesis using known c o by metis
qed

end
