(* ===== verification/Wrap.thy ===== *)
theory Wrap
  imports PyStr
begin

text \<open>
  The wrapping of a text to the width of a paper, as the slips use it: Python's \<open>textwrap.wrap\<close> with its
  defaults, over Latin-1. A line that does not end (an indent as wide as the paper before a blank text) is the
  value \<open>None\<close>.
\<close>

section \<open>The characters of the splitting expression\<close>

definition ascii_space :: "char \<Rightarrow> bool" where
  "ascii_space c \<longleftrightarrow> (let n = (of_char c :: nat) in 9 \<le> n \<and> n \<le> 13 \<or> n = 32)"

text \<open>\<open>\w\<close> and \<open>[^\d\W]\<close>.\<close>

definition letter :: "char \<Rightarrow> bool" where
  "letter c \<longleftrightarrow> (let n = (of_char c :: nat)
     in 65 \<le> n \<and> n \<le> 90 \<or> n = 95 \<or> 97 \<le> n \<and> n \<le> 122 \<or> n \<in> {170, 178, 179, 181, 185, 186, 188, 189, 190}
        \<or> 192 \<le> n \<and> n \<noteq> 215 \<and> n \<noteq> 247)"

definition re_word :: "char \<Rightarrow> bool" where
  "re_word c \<longleftrightarrow> letter c \<or> is_digit c"

definition word_punct :: "char \<Rightarrow> bool" where
  "word_punct c \<longleftrightarrow> re_word c \<or> c \<in> {CHR ''!'', CHR 0x22, CHR 0x27, CHR ''&'', CHR ''.'', CHR '','', CHR ''?''}"

abbreviation dash :: char where "dash \<equiv> CHR ''-''"
abbreviation blank :: char where "blank \<equiv> CHR '' ''"

section \<open>Chunks\<close>

text \<open>\<open>expandtabs\<close> and the translation of whitespace.\<close>

fun expand_tabs :: "nat \<Rightarrow> str \<Rightarrow> str" where
  "expand_tabs col [] = []"
| "expand_tabs col (c # cs) =
     (if c = CHR 0x09 then replicate (8 - col mod 8) blank @ expand_tabs 0 cs
      else if c = CHR 0x0A \<or> c = CHR 0x0D then c # expand_tabs 0 cs
      else c # expand_tabs (Suc col) cs)"

definition munge_whitespace :: "str \<Rightarrow> str" where
  "munge_whitespace s = map (\<lambda>c. if ascii_space c then blank else c) (expand_tabs 0 s)"

text \<open>At a position of the text, \<open>prior\<close> is what precedes it, the nearest character first.\<close>

definition after_punct :: "str \<Rightarrow> bool" where
  "after_punct prior = (case prior of [] \<Rightarrow> False | c # _ \<Rightarrow> word_punct c)"

definition em_dash :: "str \<Rightarrow> bool" where
  "em_dash rest =
     (2 \<le> length (takeWhile (\<lambda>c. c = dash) rest) \<and>
      (case dropWhile (\<lambda>c. c = dash) rest of [] \<Rightarrow> False | c # _ \<Rightarrow> re_word c))"

fun two_letters :: "str \<Rightarrow> bool" where
  "two_letters (a # b # _) = (letter a \<and> letter b)" | "two_letters _ = False"

fun letter_dash_letter :: "str \<Rightarrow> bool" where
  "letter_dash_letter (a # b # c # _) = (letter a \<and> b = dash \<and> letter c)" | "letter_dash_letter _ = False"

definition hyphen_break :: "str \<Rightarrow> str \<Rightarrow> bool" where
  "hyphen_break prior rest =
     ((two_letters prior \<or> letter_dash_letter prior) \<and> (two_letters rest \<or> letter_dash_letter rest))"

text \<open>A word from its second character on: up to a hyphen, whitespace, the end, or a long dash.\<close>

fun scan_word :: "str \<Rightarrow> str \<Rightarrow> str \<Rightarrow> str \<times> str" where
  "scan_word prior acc [] = (rev acc, [])"
| "scan_word prior acc (c # cs) =
     (if c = dash \<and> hyphen_break prior cs then (rev (c # acc), cs)
      else if ascii_space c then (rev acc, c # cs)
      else if after_punct prior \<and> em_dash (c # cs) then (rev acc, c # cs)
      else scan_word (c # prior) (c # acc) cs)"

definition next_chunk :: "str \<Rightarrow> char \<Rightarrow> str \<Rightarrow> str \<times> str" where
  "next_chunk prior c cs =
     (if ascii_space c then (takeWhile ascii_space (c # cs), dropWhile ascii_space (c # cs))
      else if after_punct prior \<and> em_dash (c # cs)
      then (takeWhile (\<lambda>c. c = dash) (c # cs), dropWhile (\<lambda>c. c = dash) (c # cs))
      else scan_word (c # prior) [c] cs)"

lemma scan_word_append: "scan_word prior acc rest = (w, r) \<Longrightarrow> w @ r = rev acc @ rest \<and> length acc \<le> length w"
  by (induction prior acc rest rule: scan_word.induct) (auto split: if_splits)

lemma em_dash_Cons: "em_dash (c # cs) \<Longrightarrow> c = dash"
  by (auto simp: em_dash_def split: if_splits)

lemma next_chunk_append:
  assumes "next_chunk prior c cs = (w, r)"
  shows "w @ r = c # cs \<and> w \<noteq> []"
  using assms scan_word_append [of "c # prior" "[c]" cs w r] em_dash_Cons [of c cs]
  by (auto simp: next_chunk_def split: if_splits)

lemma next_chunk_shorter: "next_chunk prior c cs = (w, r) \<Longrightarrow> length r < Suc (length cs)"
proof -
  assume "next_chunk prior c cs = (w, r)"
  then have a: "w @ r = c # cs" "w \<noteq> []" using next_chunk_append by blast+
  have "length w + length r = Suc (length cs)" using arg_cong [OF a(1), of length] by simp
  then show ?thesis using a(2) by (cases w) auto
qed

function split_chunks :: "str \<Rightarrow> str \<Rightarrow> str list" where
  "split_chunks prior [] = []"
| "split_chunks prior (c # cs) = (case next_chunk prior c cs of (w, r) \<Rightarrow> w # split_chunks (rev w @ prior) r)"
  by pat_completeness auto
termination by (relation "measure (\<lambda>(_, rest). length rest)") (auto dest: next_chunk_shorter [OF sym])

section \<open>Lines\<close>

text \<open>Chunks as long as they fit into \<open>width\<close>.\<close>

fun fill_line :: "int \<Rightarrow> nat \<Rightarrow> str list \<Rightarrow> str list \<times> str list" where
  "fill_line width cur [] = ([], [])"
| "fill_line width cur (c # cs) =
     (if int (cur + length c) \<le> width
      then (case fill_line width (cur + length c) cs of (line, rest) \<Rightarrow> (c # line, rest)) else ([], c # cs))"

definition last_dash :: "str \<Rightarrow> nat option" where
  "last_dash s = (if dash \<in> set s then Some (length s - 1 - length (takeWhile (\<lambda>c. c \<noteq> dash) (rev s))) else None)"

text \<open>\<open>_handle_long_word\<close>: where the chunk breaks.\<close>

definition break_at :: "int \<Rightarrow> nat \<Rightarrow> str \<Rightarrow> nat" where
  "break_at width cur chunk =
     (let space_left = (if width < 1 then 1 else nat (width - int cur))
      in if space_left < length chunk
         then case last_dash (take space_left chunk) of None \<Rightarrow> space_left
           | Some h \<Rightarrow> if 0 < h \<and> list_ex (\<lambda>c. c \<noteq> dash) (take h chunk) then h + 1 else space_left
         else space_left)"

definition chunk_blank :: "str \<Rightarrow> bool" where
  "chunk_blank c \<longleftrightarrow> py_strip c = []"

text \<open>One line of \<open>_wrap_chunks\<close>: its chunks, and the chunks that are left.\<close>

definition wrap_line :: "int \<Rightarrow> bool \<Rightarrow> str list \<Rightarrow> str list \<times> str list" where
  "wrap_line width started chunks =
     (let chunks = (if started \<and> chunk_blank (hd chunks) then tl chunks else chunks);
          (line, rest) = fill_line width 0 chunks;
          (line, rest) = (case rest of [] \<Rightarrow> (line, rest)
             | c # cs \<Rightarrow> if width < int (length c)
                 then let n = break_at width (length (concat line)) c in (line @ [take n c], drop n c # cs)
                 else (line, rest))
      in (if line \<noteq> [] \<and> chunk_blank (last line) then butlast line else line, rest))"

partial_function (option) wrap_chunks :: "int \<Rightarrow> str \<Rightarrow> str \<Rightarrow> bool \<Rightarrow> str list \<Rightarrow> str list option" where
  "wrap_chunks w first_indent next_indent started chunks =
     (if chunks = [] then Some []
      else let indent = (if started then next_indent else first_indent);
               (line, rest) = wrap_line (w - int (length indent)) started chunks
           in if line = [] then wrap_chunks w first_indent next_indent started rest
              else Option.bind (wrap_chunks w first_indent next_indent True rest)
                     (\<lambda>ls. Some ((indent @ concat line) # ls)))"

declare wrap_chunks.simps [code]

text \<open>\<open>textwrap.wrap\<close>; a width that is not positive is its ValueError, here \<open>None\<close> as well.\<close>

definition text_wrap :: "int \<Rightarrow> str \<Rightarrow> str \<Rightarrow> str \<Rightarrow> str list option" where
  "text_wrap w first_indent next_indent s =
     (if w \<le> 0 then None
      else wrap_chunks w first_indent next_indent False (split_chunks [] (munge_whitespace s)))"

section \<open>Wrapping returns, fits, and loses nothing but blanks\<close>

lemma concat_split_chunks: "concat (split_chunks prior s) = s \<and> [] \<notin> set (split_chunks prior s)"
proof (induction prior s rule: split_chunks.induct)
  case (2 prior c cs)
  obtain w r where w: "next_chunk prior c cs = (w, r)" by (cases "next_chunk prior c cs")
  show ?case using 2 [OF w [symmetric]] next_chunk_append [OF w] by (auto simp: w)
qed simp

lemma fill_line_append: "fill_line width cur cs = (line, rest) \<Longrightarrow> line @ rest = cs"
  by (induction width cur cs arbitrary: line rest rule: fill_line.induct) (auto split: if_splits prod.splits)

lemma fill_line_fits:
  "fill_line width cur cs = (line, rest) \<Longrightarrow>
     (line = [] \<or> int (cur + length (concat line)) \<le> width) \<and>
     (rest = [] \<or> width < int (cur + length (concat line) + length (hd rest)))"
proof (induction width cur cs arbitrary: line rest rule: fill_line.induct)
  case (2 width cur c cs)
  obtain l r where f: "fill_line width (cur + length c) cs = (l, r)" by force
  show ?case
  proof (cases "int (cur + length c) \<le> width")
    case True
    then show ?thesis using "2.IH" [OF True f] f "2.prems" by (auto simp: add.assoc)
  qed (use "2.prems" in auto)
qed simp

lemma fill_line_stops:
  "fill_line width cur cs = (line, rest) \<Longrightarrow> int cur \<le> width \<Longrightarrow> int (cur + length (concat line)) \<le> width"
  using fill_line_fits by fastforce

lemma last_dash_less: "last_dash s = Some h \<Longrightarrow> h < length s"
  by (cases s rule: rev_cases) (auto simp: last_dash_def split: if_splits)

lemma break_at_le: "1 \<le> width \<Longrightarrow> break_at width cur chunk \<le> nat (width - int cur)"
  by (auto simp: break_at_def Let_def split: option.splits dest!: last_dash_less)

lemma break_at_pos: "1 \<le> width \<Longrightarrow> 0 < break_at width 0 chunk"
  by (auto simp: break_at_def Let_def split: option.splits)

text \<open>What \<open>wanted\<close> keeps is never a blank.\<close>

definition dark :: "(char \<Rightarrow> bool) \<Rightarrow> bool" where
  "dark wanted \<longleftrightarrow> (\<forall>c. wanted c \<longrightarrow> \<not> py_space c)"

lemma strip_empty: "py_strip s = [] \<Longrightarrow> \<forall>c \<in> set s. py_space c"
proof
  fix c
  assume s: "py_strip s = []" and c: "c \<in> set s"
  then have "\<forall>x \<in> set (dropWhile py_space s). py_space x" by (simp add: py_strip_def dropWhile_eq_Nil_conv)
  then have "dropWhile py_space s = []" using hd_dropWhile [of py_space s] by (cases "dropWhile py_space s") auto
  then show "py_space c" using c by (simp add: dropWhile_eq_Nil_conv)
qed

lemma blank_chunk: "dark wanted \<Longrightarrow> chunk_blank c \<Longrightarrow> filter wanted c = []"
  using strip_empty [of c] by (auto simp: chunk_blank_def dark_def filter_empty_conv)

lemma wrap_line_spec:
  assumes r: "wrap_line width started chunks = (line, rest)" and c: "chunks \<noteq> []" "[] \<notin> set chunks" and w: "1 \<le> width"
  shows "[] \<notin> set rest \<and> length (concat rest) < length (concat chunks) \<and> int (length (concat line)) \<le> width \<and>
     set (concat line) \<union> set (concat rest) \<subseteq> set (concat chunks) \<and>
     (dark wanted \<longrightarrow> filter wanted (concat line) @ filter wanted (concat rest) = filter wanted (concat chunks))"
proof -
  define cs where "cs = (if started \<and> chunk_blank (hd chunks) then tl chunks else chunks)"
  obtain l0 r0 where f: "fill_line width 0 cs = (l0, r0)" by force
  define cur where "cur = length (concat l0)"
  define broken where "broken \<longleftrightarrow> r0 \<noteq> [] \<and> width < int (length (hd r0))"
  define n where "n = break_at width cur (hd r0)"
  define l1 where "l1 = (if broken then l0 @ [take n (hd r0)] else l0)"
  have rest: "rest = (if broken then drop n (hd r0) # tl r0 else r0)"
    and line: "line = (if l1 \<noteq> [] \<and> chunk_blank (last l1) then butlast l1 else l1)"
    using r f by (auto simp: wrap_line_def Let_def cs_def cur_def broken_def n_def l1_def split: list.splits if_splits)
  have app: "l0 @ r0 = cs" by (rule fill_line_append [OF f])
  have l0: "int cur \<le> width" using fill_line_stops [OF f] w by (simp add: cur_def)
  have n: "n \<le> nat (width - int cur)" unfolding n_def by (rule break_at_le [OF w])
  have kept: "concat l1 @ concat rest = concat cs"
  proof (cases r0)
    case (Cons a as)
    then show ?thesis by (simp add: l1_def rest broken_def flip: app)
  qed (simp add: l1_def rest broken_def flip: app)
  have fits: "int (length (concat l1)) \<le> width"
    using l0 n by (auto simp: l1_def cur_def)
  have dropped: "dark wanted \<longrightarrow> filter wanted (concat cs) = filter wanted (concat chunks)" if "chunks \<noteq> []" for wanted
    using that blank_chunk by (cases chunks) (auto simp: cs_def)
  have cs: "[] \<notin> set cs" "length (concat cs) \<le> length (concat chunks)"
    "cs = [] \<or> cs = chunks \<or> length (concat cs) < length (concat chunks)"
    using c by (cases chunks; auto simp: cs_def)+
  have rest_ok: "[] \<notin> set rest"
  proof -
    have "int n < int (length (hd r0))" if broken using n l0 w that by (auto simp: broken_def)
    then show ?thesis using cs(1) app by (cases r0) (auto simp: rest broken_def)
  qed
  have less: "length (concat rest) < length (concat chunks)"
  proof (cases "cs = []")
    case True
    then have "concat l1 @ concat rest = []" using kept by simp
    then have "concat rest = []" by blast
    moreover have "0 < length (concat chunks)" using c by (cases chunks) auto
    ultimately show ?thesis by (simp only: list.size)
  next
    case False
    have "concat l1 \<noteq> []"
    proof (cases l0)
      case Nil
      then have "r0 = cs" "cur = 0" using app by (simp_all add: cur_def)
      moreover have broken using fill_line_fits [OF f] Nil \<open>r0 = cs\<close> False by (simp add: broken_def)
      ultimately show ?thesis using break_at_pos [OF w, of "hd r0"] cs(1) False
        by (cases cs) (auto simp: l1_def n_def Nil)
    next
      case (Cons a as)
      then show ?thesis using cs(1) app by (auto simp: l1_def)
    qed
    then have "length (concat rest) < length (concat cs)" using arg_cong [OF kept, of length] by (cases "concat l1") auto
    then show ?thesis using cs(2) by simp
  qed
  have cut: "filter wanted (concat line) = filter wanted (concat l1)" if "dark wanted" for wanted
  proof (cases l1 rule: rev_cases)
    case (snoc xs x)
    then show ?thesis using blank_chunk [OF that, of x] by (simp add: line)
  qed (simp add: line)
  have "length (concat line) \<le> length (concat l1)" and "set (concat line) \<subseteq> set (concat l1)"
    by (cases l1 rule: rev_cases; auto simp: line)+
  moreover have "set (concat l1 @ concat rest) \<subseteq> set (concat chunks)"
    unfolding kept using c(1) by (cases chunks) (auto simp: cs_def)
  moreover have "dark wanted \<longrightarrow> filter wanted (concat line) @ filter wanted (concat rest) = filter wanted (concat chunks)"
    using cut dropped [OF c(1)] kept by (metis filter_append)
  ultimately show ?thesis using rest_ok less fits unfolding set_append by auto
qed

lemma wrap_chunks_spec:
  assumes "[] \<notin> set chunks" and "int (length first_indent) < w" and "int (length next_indent) < w"
    and "set first_indent \<subseteq> {blank}" and "set next_indent \<subseteq> {blank}"
  shows "\<exists>ls. wrap_chunks w first_indent next_indent started chunks = Some ls \<and> (\<forall>l \<in> set ls. int (length l) \<le> w) \<and>
     set (concat ls) \<subseteq> insert blank (set (concat chunks)) \<and>
     (dark wanted \<longrightarrow> filter wanted (concat ls) = filter wanted (concat chunks))"
  using assms(1)
proof (induction "length (concat chunks)" arbitrary: chunks started rule: less_induct)
  case less
  show ?case
  proof (cases "chunks = []")
    case True
    then show ?thesis by (subst wrap_chunks.simps) simp
  next
    case False
    define indent where "indent = (if started then next_indent else first_indent)"
    obtain line rest where l: "wrap_line (w - int (length indent)) started chunks = (line, rest)" by force
    have w: "1 \<le> w - int (length indent)" using assms(2,3) by (simp add: indent_def)
    note s = wrap_line_spec [OF l False less.prems w]
    have ind: "dark wanted \<Longrightarrow> filter wanted indent = []"
      using assms(4,5) by (auto simp: indent_def dark_def filter_empty_conv py_space_def Let_def)
    obtain ls where ls: "wrap_chunks w first_indent next_indent (started \<or> line \<noteq> []) rest = Some ls"
      "\<forall>l \<in> set ls. int (length l) \<le> w" "set (concat ls) \<subseteq> insert blank (set (concat rest))" "dark wanted \<longrightarrow> filter wanted (concat ls) = filter wanted (concat rest)"
      using less.hyps [of rest "started \<or> line \<noteq> []"] s by blast
    have eq: "wrap_chunks w first_indent next_indent started chunks =
        (if line = [] then Some ls else Some ((indent @ concat line) # ls))"
      using False l ls(1) by (subst wrap_chunks.simps) (auto simp: indent_def Let_def)
    have "int (length (indent @ concat line)) \<le> w" using s [of wanted] by simp
    moreover have sub: "set (concat line) \<subseteq> set (concat chunks)" "set (concat rest) \<subseteq> set (concat chunks)"
      and "set indent \<subseteq> {blank}" using s [of wanted] assms(4,5) by (simp_all add: indent_def)
    then have "set (indent @ concat line) \<subseteq> insert blank (set (concat chunks))"
      "set (concat ls) \<subseteq> insert blank (set (concat chunks))"
      using ls(3) unfolding set_append by blast+
    ultimately show ?thesis unfolding eq using s ls(2,4) ind by (cases "line = []") auto
  qed
qed

text \<open>Of a text that is wrapped with room for a character in every line: there is a result, every line fits, and
  the lines hold the text, in its order, but for whitespace.\<close>

lemma text_wrap_spec:
  assumes "int (length first_indent) < w" and "int (length next_indent) < w"
    and "set first_indent \<subseteq> {blank}" and "set next_indent \<subseteq> {blank}"
  shows "\<exists>ls. text_wrap w first_indent next_indent s = Some ls \<and> (\<forall>l \<in> set ls. int (length l) \<le> w) \<and>
     set (concat ls) \<subseteq> insert blank (set (munge_whitespace s)) \<and>
     (dark wanted \<longrightarrow> filter wanted (concat ls) = filter wanted (munge_whitespace s))"
  using wrap_chunks_spec [OF _ assms, of "split_chunks [] (munge_whitespace s)" False wanted]
    concat_split_chunks [of "[]" "munge_whitespace s"] assms(1)
  by (simp add: text_wrap_def)

lemma filter_expand_tabs: "dark wanted \<Longrightarrow> filter wanted (expand_tabs col s) = filter wanted s"
proof (induction col s rule: expand_tabs.induct)
  case (2 col c cs)
  have "\<not> wanted blank" "\<not> wanted (CHR 0x09)" "\<not> wanted (CHR 0x0A)" "\<not> wanted (CHR 0x0D)"
    using 2 by (auto simp: dark_def py_space_def Let_def)
  then show ?case using 2 by (auto simp: filter_replicate)
qed simp

lemma filter_munge: "dark wanted \<Longrightarrow> filter wanted (munge_whitespace s) = filter wanted s"
proof -
  assume d: "dark wanted"
  have "filter wanted (map (\<lambda>c. if ascii_space c then blank else c) t) = filter wanted t" for t
    using d by (induction t) (auto simp: dark_def py_space_def ascii_space_def Let_def)
  then show ?thesis using filter_expand_tabs [OF d] by (simp add: munge_whitespace_def)
qed

lemma set_munge: "set (munge_whitespace s) \<subseteq> insert blank (set s)"
proof -
  have "set (expand_tabs col t) \<subseteq> insert blank (set t)" for col t
    by (induction col t rule: expand_tabs.induct) auto
  then show ?thesis by (fastforce simp: munge_whitespace_def)
qed

end
