(* ===== verification/Escpos.thy ===== *)
theory Escpos
  imports Wrap Kitchen "HOL-Library.Word" "HOL-Library.Sublist"
begin

text \<open>
  The slip as bytes for the printer (\<open>printbridge/escpos.py\<close>). Texts are Latin-1, of which the code page of the
  printer knows every letter; the values of a ticket are texts, whole numbers, lists and objects, as the server
  writes them.
\<close>

section \<open>Bytes\<close>

type_synonym byte = "8 word"
type_synonym bytes = "byte list"

definition INIT :: bytes where "INIT = [0x1B, 0x40]"
definition CODEPAGE :: bytes where "CODEPAGE = [0x1B, 0x74, 0x13]"
definition BOLD_ON :: bytes where "BOLD_ON = [0x1B, 0x45, 0x01]"
definition BOLD_OFF :: bytes where "BOLD_OFF = [0x1B, 0x45, 0x00]"
definition BIG_ON :: bytes where "BIG_ON = [0x1B, 0x21, 0x30]"
definition BIG_OFF :: bytes where "BIG_OFF = [0x1B, 0x21, 0x00]"
definition INVERT_ON :: bytes where "INVERT_ON = [0x1D, 0x42, 0x01]"
definition INVERT_OFF :: bytes where "INVERT_OFF = [0x1D, 0x42, 0x00]"
definition CENTER :: bytes where "CENTER = [0x1B, 0x61, 0x01]"
definition LEFT :: bytes where "LEFT = [0x1B, 0x61, 0x00]"
definition FEED :: bytes where "FEED = [0x1B, 0x64, 0x04]"
definition CUT :: bytes where "CUT = [0x1D, 0x56, 0x42, 0x00]"

text \<open>The code page 858 on the characters from 160 on; below 128 a byte is its character.\<close>

definition CP858_UPPER :: "nat list" where
  "CP858_UPPER =
     [255, 173, 189, 156, 207, 190, 221, 245, 249, 184, 166, 174, 170, 240, 169, 238, 248, 241, 253, 252, 239, 230, 244,
      250, 247, 251, 167, 175, 172, 171, 243, 168, 183, 181, 182, 199, 142, 143, 146, 128, 212, 144, 210, 211, 222, 214,
      215, 216, 209, 165, 227, 224, 226, 229, 153, 158, 157, 235, 233, 234, 154, 237, 232, 225, 133, 160, 131, 198, 132,
      134, 145, 135, 138, 130, 136, 137, 141, 161, 140, 139, 208, 164, 149, 162, 147, 228, 148, 246, 155, 151, 163, 150,
      129, 236, 231, 152]"

definition cp858 :: "char \<Rightarrow> byte" where
  "cp858 c = (let n = (of_char c :: nat) in word_of_nat (if n < 160 then n else CP858_UPPER ! (n - 160)))"

definition encode :: "str \<Rightarrow> bytes" where
  "encode s = map cp858 s"

text \<open>The category Cc.\<close>

definition is_control :: "char \<Rightarrow> bool" where
  "is_control c \<longleftrightarrow> (let n = (of_char c :: nat) in n < 32 \<or> 127 \<le> n \<and> n < 160)"

definition printable :: "str \<Rightarrow> str" where
  "printable s = map (\<lambda>c. if is_control c then blank else c) s"

definition text_line :: "str \<Rightarrow> bytes" where
  "text_line s = encode (printable s) @ [0x0A]"

definition wrapped :: "str \<Rightarrow> int \<Rightarrow> str \<Rightarrow> bytes option" where
  "wrapped s width indent =
     Option.bind (text_wrap width indent (indent @ ''  '') s) (\<lambda>ls.
       Some (concat (map text_line (if ls = [] then [indent] else ls))))"

definition tall :: "bytes \<Rightarrow> bytes" where
  "tall bs = concat (map (\<lambda>b. if b = 0x0A then [0x0A, 0x0A] else [b]) bs)"

text \<open>\<open>str.center\<close>: on an odd rest the side that Python chooses.\<close>

definition center :: "nat \<Rightarrow> str \<Rightarrow> str" where
  "center width s =
     (let pad = width - length s; left = pad div 2 + (if odd pad \<and> odd width then 1 else 0)
      in replicate left blank @ s @ replicate (pad - left) blank)"

definition notice_bar :: "nat \<Rightarrow> str \<Rightarrow> bytes" where
  "notice_bar block l = BIG_ON @ INVERT_ON @ encode (blank # center block l @ [blank]) @ INVERT_OFF @ BIG_OFF @ tall [0x0A]"

definition notice_block :: "str \<Rightarrow> int \<Rightarrow> bytes option" where
  "notice_block s width =
     Option.bind (text_wrap (width div 2 - 2) [] [] (printable s)) (\<lambda>ls.
       Some (if ls = [] then []
             else CENTER @ concat (map (notice_bar (Max (set (map length ls)))) ls) @ LEFT))"

section \<open>Values of a ticket\<close>

definition field :: "str \<Rightarrow> json \<Rightarrow> json" where
  "field k t = (case jget k t of None \<Rightarrow> JNull | Some v \<Rightarrow> v)"

fun truthy :: "json \<Rightarrow> bool" where
  "truthy JNull = False"
| "truthy (JBool b) = b"
| "truthy (JInt n) = (n \<noteq> 0)"
| "truthy (JStr s) = (s \<noteq> [])"
| "truthy (JId _) = True"
| "truthy (JTime _) = True"
| "truthy (JList js) = (js \<noteq> [])"
| "truthy (JObj kvs) = (kvs \<noteq> [])"

text \<open>The machine of the bridge: its clock, its zone, and what \<open>str\<close> writes of a value that is neither a text nor
  a number.\<close>

record desk =
  desk_now :: instant
  desk_zone :: zone
  desk_repr :: "json \<Rightarrow> str"

fun shown :: "desk \<Rightarrow> json \<Rightarrow> str" where
  "shown dk (JStr s) = s"
| "shown dk (JInt n) = str_int n"
| "shown dk v = desk_repr dk v"

definition shown_or_blank :: "desk \<Rightarrow> json \<Rightarrow> str" where
  "shown_or_blank dk v = (if truthy v then shown dk v else [])"

definition shown_key :: "desk \<Rightarrow> str \<Rightarrow> json \<Rightarrow> str" where
  "shown_key dk k t = (case jget k t of None \<Rightarrow> [] | Some v \<Rightarrow> shown dk v)"

fun elements :: "json \<Rightarrow> json list" where
  "elements (JList js) = js" | "elements _ = []"

definition cents_of :: "json \<Rightarrow> int" where
  "cents_of v = (case v of JInt n \<Rightarrow> n | _ \<Rightarrow> 0)"

definition euro :: "json \<Rightarrow> str" where
  "euro v = (let cents = cents_of v in str_int (cents div 100) @ '','' @ two_digits (cents mod 100) @ '' EUR'')"

definition clock_of :: "desk \<Rightarrow> json \<Rightarrow> str option" where
  "clock_of dk v = (case v of JTime u \<Rightarrow> Some (strftime_hm (astimezone (desk_zone dk) u)) | _ \<Rightarrow> None)"

definition option_text :: "desk \<Rightarrow> json \<Rightarrow> str" where
  "option_text dk v = (case v of
     JObj _ \<Rightarrow> (if truthy (field ''option'' v) then shown dk (field ''option'' v)
                else shown_or_blank dk (field ''name'' v))
   | _ \<Rightarrow> shown dk v)"

definition rjust :: "int \<Rightarrow> str \<Rightarrow> str" where
  "rjust width s = replicate (nat width - length s) blank @ s"

definition rule_line :: "int \<Rightarrow> bytes" where
  "rule_line width = text_line (replicate (nat width) dash)"

section \<open>The slip\<close>

text \<open>A part that cannot be wrapped ends the slip: \<open>None\<close>.\<close>

definition join_parts :: "bytes option list \<Rightarrow> bytes option" where
  "join_parts ps = map_option concat (all_some ps)"

definition SLIP_TYPES :: "(str \<times> str) list" where
  "SLIP_TYPES = [(''pickup'', ''ABHOLUNG''), (''delivery'', ''LIEFERUNG'')]"

definition SLIP_REASONS :: "(str \<times> str) list" where
  "SLIP_REASONS = [(''wrong_item'', ''falsches Gericht''), (''wrong_quantity'', ''falsche Menge''),
     (''wrong_address'', ''falsche Adresse''), (''other'', ''sonstiges'')]"

definition big_block :: "bytes \<Rightarrow> bytes" where
  "big_block bs = BIG_ON @ INVERT_ON @ bs @ INVERT_OFF @ BIG_OFF"

definition address_parts :: "desk \<Rightarrow> json \<Rightarrow> int \<Rightarrow> bytes option list" where
  "address_parts dk t width =
     (if field ''type'' t \<noteq> JStr ''delivery'' then []
      else let a = field ''address'' t in
        if \<not> truthy a then [Some BOLD_ON, Some (text_line ''ADRESSE FEHLT''), Some BOLD_OFF]
        else [Some BOLD_ON, wrapped (shown_key dk ''street'' a @ '' '' @ shown_key dk ''house_number'' a) width [],
              wrapped (shown_key dk ''postal_code'' a @ '' '' @ shown_key dk ''city'' a) width [], Some BOLD_OFF]
             @ (if truthy (field ''floor_note'' a)
                then [wrapped (''Hinweis: '' @ shown dk (field ''floor_note'' a)) width []] else []))"

definition head_parts :: "desk \<Rightarrow> json \<Rightarrow> bytes option list" where
  "head_parts dk t =
     (let reason = field ''correction_reason'' t in
      if reason = JStr CANCELLED
      then [Some (text_line ''Nicht in die Kasse eingeben.''),
            Some (text_line ''Schon eingegeben: in der Kasse stornieren.''),
            Some (text_line ''Ersetzt den vorigen Bon dieser Bestellung.'')]
      else [Some (big_block (encode (printable '' NICHT IN KASSE ''))), Some (tall [0x0A]),
            Some (text_line ''Bitte in die Kasse eingeben.'')]
           @ (if truthy reason
              then [Some (big_block (tall (text_line '' KORREKTUR ''))),
                    Some (text_line (''Grund: '' @ (case reason of
                        JStr s \<Rightarrow> (case map_of SLIP_REASONS s of None \<Rightarrow> s | Some r \<Rightarrow> r) | _ \<Rightarrow> shown dk reason))),
                    Some (text_line ''Ersetzt den vorigen Bon dieser Bestellung.'')]
              else []))"

definition kind_of_slip :: "desk \<Rightarrow> json \<Rightarrow> str" where
  "kind_of_slip dk t =
     (let kind = shown_or_blank dk (field ''type'' t)
      in case map_of SLIP_TYPES kind of Some k \<Rightarrow> k | None \<Rightarrow> upper kind)"

definition guest_parts :: "desk \<Rightarrow> json \<Rightarrow> str option \<Rightarrow> int \<Rightarrow> bytes option list" where
  "guest_parts dk t ready_time width =
     (let cancelled = (field ''correction_reason'' t = JStr CANCELLED);
          code = shown_or_blank dk (field ''pickup_code'' t);
          ready = (case ready_time of Some (c # cs) \<Rightarrow> Some (c # cs) | _ \<Rightarrow> clock_of dk (field ''ready_at'' t))
      in [Some BIG_ON, map_option tall (wrapped (py_strip (kind_of_slip dk t @ '' '' @ code)) (width div 2) []), Some BIG_OFF]
         @ (case ready of None \<Rightarrow> [] | Some r \<Rightarrow> [Some BOLD_ON, Some (text_line (''Fertig um '' @ r)), Some BOLD_OFF])
         @ (if truthy (field ''customer_name'' t)
            then [wrapped (''Name: '' @ shown dk (field ''customer_name'' t)) width []] else [])
         @ (if cancelled then [] else address_parts dk t width)
         @ (if truthy (field ''note'' t) \<and> \<not> cancelled
            then [Some BOLD_ON, wrapped (''! '' @ shown dk (field ''note'' t)) width [], Some BOLD_OFF] else []))"

definition item_quantity :: "desk \<Rightarrow> json \<Rightarrow> str" where
  "item_quantity dk it = (case jget ''quantity'' it of None \<Rightarrow> ''1'' | Some v \<Rightarrow> shown dk v)"

definition item_label :: "desk \<Rightarrow> json \<Rightarrow> str" where
  "item_label dk it =
     py_join '' '' (py_split (item_quantity dk it @ ''x '' @ shown_or_blank dk (field ''number'' it) @ '' '' @
       shown_or_blank dk (field ''name'' it)))"

definition item_parts :: "desk \<Rightarrow> bool \<Rightarrow> int \<Rightarrow> json \<Rightarrow> bytes option list" where
  "item_parts dk cancelled width it =
     [Some BOLD_ON, wrapped (item_label dk it) width [], Some BOLD_OFF]
     @ map (\<lambda>x. wrapped (''+ '' @ x) width ''   '')
         (filter (\<lambda>x. x \<noteq> []) (map (option_text dk) (elements (field ''options'' it))))
     @ (if truthy (field ''note'' it) \<and> \<not> cancelled
        then [Some BOLD_ON, wrapped (''! '' @ shown dk (field ''note'' it)) width ''   '', Some BOLD_OFF] else [])"

definition sum_parts :: "json \<Rightarrow> int \<Rightarrow> bytes option list" where
  "sum_parts t width =
     (let fee = field ''delivery_fee_cents'' t in
      (if truthy fee
       then [Some (text_line (rjust width (''Waren '' @ euro (field ''items_total_cents'' t)))),
             Some (text_line (rjust width (''Liefergeb'' @ [ue] @ ''hr '' @ euro fee)))] else [])
      @ [Some (text_line (rjust width (''Summe '' @ euro (field ''total_cents'' t))))])"

definition footer :: "desk \<Rightarrow> json \<Rightarrow> str option \<Rightarrow> str" where
  "footer dk t print_time =
     (let stamp = (case print_time of Some (c # cs) \<Rightarrow> c # cs
            | _ \<Rightarrow> strftime_hm (astimezone (desk_zone dk) (desk_now dk)));
          revision = cents_of (field ''revision'' t)
      in ''Gedruckt '' @ stamp @ (if revision \<noteq> 0 then '' - Stand '' @ str_int revision else []))"

text \<open>\<open>notice\<close> is the block of the test slip; \<open>run_once\<close> gives none.\<close>

definition render :: "desk \<Rightarrow> json \<Rightarrow> str option \<Rightarrow> str option \<Rightarrow> int \<Rightarrow> str option \<Rightarrow> bytes option" where
  "render dk t ready_time print_time width notice =
     (let cancelled = (field ''correction_reason'' t = JStr CANCELLED);
          block = (if cancelled then Some ''STORNIERT'' else notice);
          notice_part = (case block of None \<Rightarrow> Some [] | Some s \<Rightarrow> (if s = [] then Some [] else notice_block s width))
      in join_parts ([Some INIT, Some CODEPAGE, notice_part]
           @ head_parts dk t @ guest_parts dk t ready_time width @ [Some (rule_line width)]
           @ concat (map (item_parts dk cancelled width) (elements (field ''items'' t)))
           @ [Some (rule_line width)] @ sum_parts t width
           @ [Some (text_line (footer dk t print_time)), notice_part, Some FEED, Some CUT]))"

text \<open>What the bridge sends for a ticket.\<close>

definition slip_bytes :: "desk \<Rightarrow> int \<Rightarrow> kitchen_ticket \<Rightarrow> bytes option" where
  "slip_bytes dk width tk = render dk (tk_slip tk) (tk_ready_time tk) (Some (tk_print_time tk)) width None"

section \<open>What the printer makes of the bytes\<close>

text \<open>The printer's side: a known command, a line feed, a glyph; anything else is no slip of this program.\<close>

datatype token = Command bytes | LineFeed | Glyph byte

definition COMMANDS :: "bytes list" where
  "COMMANDS = [INIT, CODEPAGE, BOLD_ON, BOLD_OFF, BIG_ON, BIG_OFF, INVERT_ON, INVERT_OFF, CENTER, LEFT, FEED, CUT]"

definition command_at :: "bytes \<Rightarrow> bytes option" where
  "command_at bs = find (\<lambda>c. take (length c) bs = c) COMMANDS"

lemma commands_nonempty: "c \<in> set COMMANDS \<Longrightarrow> c \<noteq> []"
  by (auto simp: COMMANDS_def INIT_def CODEPAGE_def BOLD_ON_def BOLD_OFF_def BIG_ON_def BIG_OFF_def INVERT_ON_def
      INVERT_OFF_def CENTER_def LEFT_def FEED_def CUT_def)

lemma command_at_SomeD: "command_at bs = Some c \<Longrightarrow> c \<in> set COMMANDS \<and> take (length c) bs = c \<and> c \<noteq> []"
  by (auto simp: command_at_def dest: find_SomeD commands_nonempty)

function printer_reads :: "bytes \<Rightarrow> token list option" where
  "printer_reads [] = Some []"
| "printer_reads (b # bs) =
     (case command_at (b # bs) of
        Some c \<Rightarrow> map_option ((#) (Command c)) (printer_reads (drop (length c) (b # bs)))
      | None \<Rightarrow>
          if b = 0x0A then map_option ((#) LineFeed) (printer_reads bs)
          else if 32 \<le> b then map_option ((#) (Glyph b)) (printer_reads bs)
          else None)"
  by pat_completeness auto
termination
  by (relation "measure length") (auto dest: command_at_SomeD)

definition prefix_free :: "'a list list \<Rightarrow> bool" where
  "prefix_free cs \<longleftrightarrow> (\<forall>c \<in> set cs. \<forall>d \<in> set cs. take (length c) d = c \<longrightarrow> c = d)"

lemma commands_prefix_free: "prefix_free COMMANDS"
  unfolding prefix_free_def COMMANDS_def INIT_def CODEPAGE_def BOLD_ON_def BOLD_OFF_def BIG_ON_def BIG_OFF_def
    INVERT_ON_def INVERT_OFF_def CENTER_def LEFT_def FEED_def CUT_def
  by simp

lemma command_at_append:
  assumes "command_at bs = Some c" shows "command_at (bs @ cs) = Some c"
proof -
  have c: "c \<in> set COMMANDS" "take (length c) bs = c" using command_at_SomeD [OF assms] by auto
  have "length c \<le> length bs" using arg_cong [OF c(2), of length] by simp
  then have pre: "take (length c) (bs @ cs) = c" using c(2) by simp
  have same: "d = c" if d: "d \<in> set COMMANDS" "take (length d) (bs @ cs) = d" for d
  proof (cases "length d \<le> length c")
    case True
    have "take (length d) (take (length c) (bs @ cs)) = d" by (simp only: take_take min_absorb1 [OF True] d(2))
    then have "take (length d) c = d" by (simp only: pre)
    then show ?thesis using commands_prefix_free d(1) c(1) unfolding prefix_free_def by blast
  next
    case False
    then have le: "length c \<le> length d" by simp
    have "take (length c) (take (length d) (bs @ cs)) = c" by (simp only: take_take min_absorb1 [OF le] pre)
    then have "take (length c) d = c" by (simp only: d(2))
    then show ?thesis using commands_prefix_free d(1) c(1) unfolding prefix_free_def by blast
  qed
  have "command_at (bs @ cs) \<noteq> None" using c(1) pre by (auto simp: command_at_def find_None_iff)
  then obtain d where d: "command_at (bs @ cs) = Some d" by blast
  then have "d \<in> set COMMANDS" "take (length d) (bs @ cs) = d" using command_at_SomeD by blast+
  then show ?thesis using same d by simp
qed

text \<open>A byte that starts no command.\<close>

definition no_command :: "byte \<Rightarrow> bool" where
  "no_command b \<longleftrightarrow> b \<noteq> 0x1B \<and> b \<noteq> 0x1D"

lemma command_at_plain: "no_command b \<Longrightarrow> command_at (b # bs) = None"
  by (auto simp: no_command_def command_at_def find_None_iff COMMANDS_def INIT_def CODEPAGE_def BOLD_ON_def BOLD_OFF_def BIG_ON_def
      BIG_OFF_def INVERT_ON_def INVERT_OFF_def CENTER_def LEFT_def FEED_def CUT_def)

text \<open>Texts that are read to their end are read one after the other.\<close>

lemma printer_reads_append:
  assumes "printer_reads as = Some ts" and "printer_reads bs = Some us"
  shows "printer_reads (as @ bs) = Some (ts @ us)"
  using assms(1)
proof (induction as arbitrary: ts rule: printer_reads.induct)
  case (2 b cs)
  show ?case
  proof (cases "command_at (b # cs)")
    case None
    show ?thesis
    proof (cases "no_command b")
      case True
      then show ?thesis using 2 None command_at_plain [OF True] by (auto split: if_splits)
    next
      case False
      then have "b < 32" "b \<noteq> 0x0A" by (auto simp: no_command_def)
      then show ?thesis using 2 None by (auto simp: not_le [symmetric])
    qed
  next
    case (Some c)
    have at: "command_at (b # cs @ bs) = Some c" using command_at_append [OF Some, of bs] by simp
    have "take (length c) (b # cs) = c" using command_at_SomeD [OF Some] by simp
    from arg_cong [OF this, of length] have "length c \<le> length (b # cs)" by simp
    then have "drop (length c) ((b # cs) @ bs) = drop (length c) (b # cs) @ bs" by (simp only: drop_append) simp
    then have "drop (length c) (b # cs @ bs) = drop (length c) (b # cs) @ bs" by simp
    then show ?thesis using 2 Some at by auto
  qed
qed (simp add: assms(2))

section \<open>Texts are glyphs\<close>

lemma of_char_less: "(of_char c :: nat) < 256"
  using nat_of_char_less_256 [of c] by simp

lemma upper_table: "length CP858_UPPER = 96" "\<forall>n < 96. 128 \<le> CP858_UPPER ! n \<and> CP858_UPPER ! n < 256 \<and> (CP858_UPPER ! n = 255 \<longleftrightarrow> n = 0)"
proof -
  show l: "length CP858_UPPER = 96" by (simp add: CP858_UPPER_def)
  have rest: "list_all (\<lambda>v. 128 \<le> v \<and> v < 255) (tl CP858_UPPER)" by (simp add: CP858_UPPER_def)
  have "CP858_UPPER = 255 # tl CP858_UPPER" by (simp add: CP858_UPPER_def)
  then obtain vs where vs: "CP858_UPPER = 255 # vs" by blast
  have "128 \<le> (255 # vs) ! n \<and> (255 # vs) ! n < 256 \<and> ((255 # vs) ! n = 255 \<longleftrightarrow> n = 0)" if n: "n < 96" for n
  proof (cases n)
    case (Suc m)
    moreover have "length vs = 95" using l unfolding vs by simp
    ultimately have "m < length vs" using n by simp
    moreover have "list_all (\<lambda>v. 128 \<le> v \<and> v < 255) vs" using rest unfolding vs by simp
    ultimately have "128 \<le> vs ! m \<and> vs ! m < 255" unfolding list_all_length by blast
    then show ?thesis using Suc by simp
  qed simp
  then show "\<forall>n < 96. 128 \<le> CP858_UPPER ! n \<and> CP858_UPPER ! n < 256 \<and> (CP858_UPPER ! n = 255 \<longleftrightarrow> n = 0)"
    by (simp add: vs)
qed

lemma upper_entry:
  "128 \<le> CP858_UPPER ! (of_char c - 160)" "CP858_UPPER ! (of_char c - 160) < 256"
  "CP858_UPPER ! (of_char c - 160) = 255 \<longleftrightarrow> of_char c - 160 = (0::nat)"
proof -
  have "of_char c - 160 < (96::nat)" using of_char_less [of c] by linarith
  from upper_table(2) [rule_format, OF this]
  show "128 \<le> CP858_UPPER ! (of_char c - 160)" "CP858_UPPER ! (of_char c - 160) < 256"
    "CP858_UPPER ! (of_char c - 160) = 255 \<longleftrightarrow> of_char c - 160 = (0::nat)" by simp_all
qed

lemma unat_byte: "n < 256 \<Longrightarrow> unat (word_of_nat n :: byte) = n"
  by (simp add: unat_of_nat)

lemma unat_cp858: "\<not> is_control c \<Longrightarrow>
    unat (cp858 c) = (if of_char c < (160::nat) then of_char c else CP858_UPPER ! (of_char c - 160))"
proof -
  have "CP858_UPPER ! (of_char c - 160) < 256"
    by (rule upper_entry(2))
  then show ?thesis using of_char_less [of c] by (simp add: cp858_def Let_def unat_byte)
qed

text \<open>A character that leaves ink: not a control character, not a blank. In bytes: not the blank and not 255, which
  is the blank that does not break.\<close>

definition inked :: "char \<Rightarrow> bool" where
  "inked c \<longleftrightarrow> \<not> is_control c \<and> \<not> py_space c"

definition dark_byte :: "byte \<Rightarrow> bool" where
  "dark_byte b \<longleftrightarrow> b \<noteq> 32 \<and> b \<noteq> 255"

lemma dark_inked [simp]: "dark inked"
  by (simp add: dark_def inked_def)

lemma cp858_glyph:
  assumes "\<not> is_control c" shows "32 \<le> cp858 c \<and> (dark_byte (cp858 c) \<longleftrightarrow> inked c)"
proof -
  let ?n = "of_char c :: nat"
  have n: "32 \<le> ?n" "?n < 127 \<or> 160 \<le> ?n" using assms by (auto simp: is_control_def Let_def)
  have u: "unat (cp858 c) = (if ?n < 160 then ?n else CP858_UPPER ! (?n - 160))" by (rule unat_cp858 [OF assms])
  have t: "160 \<le> ?n \<Longrightarrow> 128 \<le> CP858_UPPER ! (?n - 160) \<and> (CP858_UPPER ! (?n - 160) = 255 \<longleftrightarrow> ?n - 160 = 0)"
    using upper_entry by simp
  have "dark_byte (cp858 c) \<longleftrightarrow> unat (cp858 c) \<noteq> 32 \<and> unat (cp858 c) \<noteq> 255"
    by (simp add: dark_byte_def unsigned_word_eqI word_unat_eq_iff)
  moreover have "py_space c \<longleftrightarrow> ?n = 32 \<or> ?n = 160" using n by (auto simp: py_space_def Let_def)
  ultimately show ?thesis using n u t assms by (auto simp: word_le_nat_alt inked_def)
qed

definition str_ink :: "str \<Rightarrow> bytes" where
  "str_ink s = map cp858 (filter inked s)"

lemma printable_chars: "c \<in> set (printable s) \<Longrightarrow> \<not> is_control c"
  by (auto simp: printable_def is_control_def Let_def)

lemma ink_of_printable: "filter dark_byte (encode (printable s)) = str_ink s"
proof -
  have "\<not> is_control blank" "\<not> inked blank" by code_simp+
  then have "\<not> dark_byte (cp858 blank)" using cp858_glyph by blast
  then show ?thesis
    by (induction s) (auto simp: encode_def printable_def str_ink_def cp858_glyph inked_def)
qed

fun glyph :: "token \<Rightarrow> byte option" where
  "glyph (Glyph b) = Some b" | "glyph _ = None"

text \<open>The ink of what the printer reads.\<close>

definition ink_of :: "token list \<Rightarrow> bytes" where
  "ink_of ts = filter dark_byte (List.map_filter glyph ts)"

lemma ink_of_simps [simp]:
  "ink_of [] = []" "ink_of (LineFeed # ts) = ink_of ts" "ink_of (Command c # ts) = ink_of ts"
  "ink_of (ts @ us) = ink_of ts @ ink_of us" "ink_of (map Glyph bs) = filter dark_byte bs"
  by (simp_all add: ink_of_def List.map_filter_def comp_def)

lemma reads_glyphs: "\<forall>b \<in> set bs. 32 \<le> b \<Longrightarrow> printer_reads bs = Some (map Glyph bs)"
proof (induction bs)
  case (Cons b bs)
  have "32 \<le> b" using Cons.prems by simp
  then have "no_command b" "b \<noteq> 0x0A" by (auto simp: no_command_def)
  then show ?case using Cons command_at_plain [of b bs] by simp
qed simp

lemma reads_printable: "printer_reads (encode (printable s)) = Some (map Glyph (encode (printable s)))"
  by (rule reads_glyphs) (auto simp: encode_def dest!: printable_chars cp858_glyph)

lemma reads_feed: "printer_reads [0x0A] = Some [LineFeed]"
  using command_at_plain [of "0x0A" "[]"] by (simp add: no_command_def)

lemma reads_line: "printer_reads (text_line s) = Some (map Glyph (encode (printable s)) @ [LineFeed])"
  unfolding text_line_def by (rule printer_reads_append [OF reads_printable reads_feed])

section \<open>Parts of the slip\<close>

text \<open>A part that the printer reads to its end, that does not cut, and leaves this ink.\<close>

definition prints :: "bytes option \<Rightarrow> bytes \<Rightarrow> bool" where
  "prints p ink \<longleftrightarrow> (\<exists>bs ts. p = Some bs \<and> printer_reads bs = Some ts \<and> Command CUT \<notin> set ts \<and> ink_of ts = ink)"

lemma prints_append: "prints (Some a) x \<Longrightarrow> prints (Some b) y \<Longrightarrow> prints (Some (a @ b)) (x @ y)"
  using printer_reads_append [of a _ b] by (fastforce simp: prints_def)

lemma prints_nil: "prints (Some []) []"
  by (simp add: prints_def)

lemma prints_concat: "\<forall>b \<in> set bs. prints (Some b) (f b) \<Longrightarrow> prints (Some (concat bs)) (concat (map f bs))"
  by (induction bs) (auto intro: prints_nil prints_append)

lemma prints_text [intro]: "prints (Some (encode (printable s))) (str_ink s)"
  by (auto simp: prints_def reads_printable ink_of_printable)

lemma prints_line [intro]: "prints (Some (text_line s)) (str_ink s)"
  by (auto simp: prints_def reads_line ink_of_printable)

lemma prints_command:
  assumes "printer_reads c = Some [Command c]" and "c \<noteq> CUT" shows "prints (Some c) []"
  using assms by (simp add: prints_def)

lemma reads_commands:
  "list_all (\<lambda>c. printer_reads c = Some [Command c] \<and> (c = CUT \<longleftrightarrow> c = last COMMANDS)) COMMANDS"
  by code_simp

lemma prints_commands [intro]:
  "prints (Some INIT) []" "prints (Some CODEPAGE) []" "prints (Some BOLD_ON) []" "prints (Some BOLD_OFF) []"
  "prints (Some BIG_ON) []" "prints (Some BIG_OFF) []" "prints (Some INVERT_ON) []" "prints (Some INVERT_OFF) []"
  "prints (Some CENTER) []" "prints (Some LEFT) []" "prints (Some FEED) []"
  by (rule prints_command, code_simp, code_simp)+

lemma tall_append: "tall (a @ b) = tall a @ tall b"
  by (simp add: tall_def)

lemma tall_text: "tall (encode (printable s)) = encode (printable s)"
proof -
  have "b \<noteq> 0x0A" if "b \<in> set (encode (printable s))" for b
    using that by (auto simp: encode_def dest!: printable_chars cp858_glyph)
  then have "map (\<lambda>b. if b = 0x0A then [0x0A, 0x0A] else [b]) (encode (printable s)) = map (\<lambda>b. [b]) (encode (printable s))"
    by (intro map_cong) auto
  then show ?thesis unfolding tall_def by (simp only: concat_map_singleton map_ident)
qed

lemma prints_feed [intro]: "prints (Some [0x0A]) []"
  unfolding prints_def by (intro exI conjI) (rule refl, rule reads_feed, simp_all)

lemma prints_tall_feed [intro]: "prints (Some (tall [0x0A])) []"
  using prints_append [OF prints_feed prints_feed] by (simp add: tall_def)

lemma prints_tall_line: "prints (Some (tall (text_line s))) (str_ink s)"
  using prints_append [OF prints_text [of s] prints_tall_feed] by (simp add: text_line_def tall_append tall_text)

lemma tall_lines: "tall (concat (map text_line ls)) = concat (map (\<lambda>l. tall (text_line l)) ls)"
  by (induction ls) (simp_all add: tall_append tall_def)

lemma str_ink_append [simp]: "str_ink [] = []" "str_ink (a @ b) = str_ink a @ str_ink b"
  by (simp_all add: str_ink_def)

lemma str_ink_concat: "concat (map str_ink ls) = str_ink (concat ls)"
  by (induction ls) simp_all

lemma str_ink_blanks: "set s \<subseteq> {blank} \<Longrightarrow> str_ink s = []"
  by (induction s) (auto simp: str_ink_def inked_def py_space_def Let_def)

lemma prints_lines: "prints (Some (concat (map text_line ls))) (str_ink (concat ls))"
  "prints (Some (tall (concat (map text_line ls)))) (str_ink (concat ls))"
proof -
  show "prints (Some (concat (map text_line ls))) (str_ink (concat ls))"
    by (induction ls) (auto simp: prints_nil intro: prints_append)
  show "prints (Some (tall (concat (map text_line ls)))) (str_ink (concat ls))"
    unfolding tall_lines by (induction ls) (auto simp: prints_nil intro: prints_append prints_tall_line)
qed

lemma wrapped_lines:
  assumes "int (length indent) + 2 < width" and "set indent \<subseteq> {blank}"
  shows "\<exists>ls. wrapped s width indent = Some (concat (map text_line ls)) \<and> ls \<noteq> [] \<and>
     (\<forall>l \<in> set ls. int (length l) \<le> width) \<and> filter inked (concat ls) = filter inked s"
proof -
  obtain ls where ls: "text_wrap width indent (indent @ ''  '') s = Some ls" "\<forall>l \<in> set ls. int (length l) \<le> width"
    "filter inked (concat ls) = filter inked s"
    using text_wrap_spec [of indent width "indent @ ''  ''" s inked] assms by (auto simp: filter_munge)
  have "filter inked indent = []" using assms(2) by (auto simp: filter_empty_conv inked_def py_space_def Let_def)
  then show ?thesis using ls assms(1)
    by (intro exI [of _ "if ls = [] then [indent] else ls"]) (auto simp: wrapped_def)
qed

lemma prints_wrapped:
  assumes "int (length indent) + 2 < width" and "set indent \<subseteq> {blank}"
  shows "prints (wrapped s width indent) (str_ink s)" "prints (map_option tall (wrapped s width indent)) (str_ink s)"
proof -
  obtain ls where ls: "wrapped s width indent = Some (concat (map text_line ls))"
    "filter inked (concat ls) = filter inked s" using wrapped_lines [OF assms, of s] by blast
  have "str_ink (concat ls) = str_ink s" using ls(2) by (simp add: str_ink_def)
  then show "prints (wrapped s width indent) (str_ink s)" "prints (map_option tall (wrapped s width indent)) (str_ink s)"
    using prints_lines [of ls] by (simp_all add: ls(1))
qed

section \<open>The whole slip\<close>

lemma join_parts_Cons: "join_parts (p # ps) = Option.bind p (\<lambda>b. map_option ((@) b) (join_parts ps))"
  by (cases p; cases "all_some ps") (auto simp: join_parts_def)

text \<open>What every part prints, the whole prints, in this order; \<open>ink\<close> names what each part leaves.\<close>

lemma prints_join:
  "list_all2 prints ps inks \<Longrightarrow> prints (join_parts ps) (concat inks)"
proof (induction ps inks rule: list_all2_induct)
  case Nil
  then show ?case by (simp add: join_parts_def prints_nil)
next
  case (Cons p ps i inks)
  then obtain a b where "p = Some a" "join_parts ps = Some b" by (auto simp: prints_def)
  then show ?case using Cons prints_append [of a i b] by (simp add: join_parts_Cons)
qed

lemma sublist_after: "sublist i ink \<Longrightarrow> sublist i (a @ ink)"
  unfolding sublist_def by (metis append.assoc)

text \<open>Enough to follow each part: a list of parts that all print leaves some ink, and the ink of each part in it.\<close>

definition all_print :: "bytes option list \<Rightarrow> bool" where
  "all_print ps \<longleftrightarrow> (\<forall>p \<in> set ps. \<exists>ink. prints p ink)"

lemma all_print_simps [simp]:
  "all_print []" "all_print (p # ps) \<longleftrightarrow> (\<exists>ink. prints p ink) \<and> all_print ps"
  "all_print (ps @ qs) \<longleftrightarrow> all_print ps \<and> all_print qs"
  by (auto simp: all_print_def)

lemma all_print_concat: "all_print (concat (map f xs)) \<longleftrightarrow> (\<forall>x \<in> set xs. all_print (f x))"
  by (auto simp: all_print_def)

lemma all_print_join:
  assumes "all_print ps"
  shows "\<exists>ink. prints (join_parts ps) ink \<and> (\<forall>p \<in> set ps. \<forall>i. prints p i \<longrightarrow> sublist i ink)"
  using assms
proof (induction ps)
  case Nil
  then show ?case by (simp add: join_parts_def) (use prints_nil in blast)
next
  case (Cons p ps)
  then obtain ink i where i: "prints (join_parts ps) ink" "\<forall>p \<in> set ps. \<forall>i. prints p i \<longrightarrow> sublist i ink" "prints p i"
    by auto
  obtain a b where ab: "p = Some a" "join_parts ps = Some b" using i by (auto simp: prints_def)
  have "prints (join_parts (p # ps)) (i @ ink)" using prints_append i(1,3) ab by (simp add: join_parts_Cons)
  moreover have "j = i" if "prints p j" for j using that i(3) by (auto simp: prints_def)
  ultimately show ?case using i(2) by (intro exI [of _ "i @ ink"]) (auto intro: sublist_after)
qed

lemma prints_someI: "prints p i \<Longrightarrow> \<exists>i. prints p i" by blast

lemma prints_pre: "prints (Some c) [] \<Longrightarrow> prints (Some b) i \<Longrightarrow> prints (Some (c @ b)) i"
  using prints_append [of c "[]" b i] by simp

lemma prints_post: "prints (Some b) i \<Longrightarrow> prints (Some c) [] \<Longrightarrow> prints (Some (b @ c)) i"
  using prints_append [of b i c "[]"] by simp

lemma prints_big_block: "prints (Some b) i \<Longrightarrow> prints (Some (big_block b)) i"
  unfolding big_block_def
  by (rule prints_pre [OF prints_commands(5) prints_pre [OF prints_commands(7)
    prints_post [OF _ prints_pre [OF prints_commands(8) prints_commands(6)]]]])

lemma control_blank: "\<not> is_control blank"
  by code_simp

lemma printable_id: "\<forall>c \<in> set s. \<not> is_control c \<Longrightarrow> printable s = s"
  by (induction s) (auto simp: printable_def)

lemma prints_bar:
  assumes "\<forall>c \<in> set l. \<not> is_control c" shows "\<exists>i. prints (Some (notice_bar block l)) i"
proof -
  let ?s = "blank # center block l @ [blank]"
  have "printable ?s = ?s"
    by (rule printable_id) (use assms control_blank in \<open>auto simp: center_def Let_def\<close>)
  then have "prints (Some (encode ?s)) (str_ink ?s)" using prints_text [of ?s] by (simp only:)
  from prints_pre [OF prints_commands(5) prints_pre [OF prints_commands(7)
    prints_post [OF this prints_pre [OF prints_commands(8) prints_pre [OF prints_commands(6) prints_tall_feed]]]]]
  show ?thesis unfolding notice_bar_def by blast
qed

lemma text_wrap_printable:
  assumes "0 < w"
  shows "\<exists>ls. text_wrap w [] [] (printable s) = Some ls \<and> (\<forall>l \<in> set ls. \<forall>c \<in> set l. \<not> is_control c)"
proof -
  obtain ls where ls: "text_wrap w [] [] (printable s) = Some ls"
    "set (concat ls) \<subseteq> insert blank (set (munge_whitespace (printable s)))"
    using text_wrap_spec [of "[]" w "[]" "printable s" inked] assms by auto
  then have "set (concat ls) \<subseteq> insert blank (set (printable s))" using set_munge by blast
  then have "\<forall>l \<in> set ls. \<forall>c \<in> set l. \<not> is_control c" using control_blank printable_chars by fastforce
  then show ?thesis using ls(1) by blast
qed

lemma prints_notice: "6 \<le> width \<Longrightarrow> \<exists>i. prints (notice_block s width) i"
proof -
  assume "6 \<le> width"
  then have "0 < width div 2 - 2" by linarith
  then obtain ls where ls: "text_wrap (width div 2 - 2) [] [] (printable s) = Some ls"
    "\<forall>l \<in> set ls. \<forall>c \<in> set l. \<not> is_control c" using text_wrap_printable by blast
  let ?bar = "notice_bar (Max (set (map length ls)))"
  have "\<forall>b \<in> set (map ?bar ls). \<exists>i. prints (Some b) i" using ls(2) prints_bar by auto
  then obtain f where "\<forall>b \<in> set (map ?bar ls). prints (Some b) (f b)" by metis
  from prints_pre [OF prints_commands(9) prints_post [OF prints_concat [OF this] prints_commands(10)]] prints_nil
  show ?thesis by (auto simp: notice_block_def ls(1))
qed

lemma blanks: "set '''' \<subseteq> {blank}" "set ''   '' \<subseteq> {blank}"
  by simp_all

lemmas some_print = prints_someI [OF prints_line] prints_someI [OF prints_tall_feed] prints_commands [THEN prints_someI]
  prints_someI [OF prints_big_block [OF prints_text]] prints_someI [OF prints_big_block [OF prints_tall_line]]

lemma wrapped_prints:
  assumes "6 \<le> width"
  shows "\<exists>i. prints (wrapped s width []) i" "\<exists>i. prints (wrapped s width ''   '') i"
    "\<exists>i. prints (map_option tall (wrapped s (width div 2) [])) i"
proof -
  have "2 < width div 2" using assms by linarith
  then show "\<exists>i. prints (wrapped s width []) i" "\<exists>i. prints (wrapped s width ''   '') i"
    "\<exists>i. prints (map_option tall (wrapped s (width div 2) [])) i"
    using prints_wrapped(1) [OF _ blanks(1), of width s] prints_wrapped(1) [OF _ blanks(2), of width s]
      prints_wrapped(2) [OF _ blanks(1), of "width div 2" s] assms by auto
qed

lemma parts_print:
  assumes "6 \<le> width"
  shows "all_print (head_parts dk t)" "all_print (guest_parts dk t rt width)" "all_print (item_parts dk c width it)"
    "all_print (sum_parts t width)"
proof -
  note w = some_print wrapped_prints [OF assms]
  show "all_print (head_parts dk t)" by (simp add: head_parts_def Let_def w)
  have "all_print (address_parts dk t width)" by (simp add: address_parts_def Let_def w)
  then show "all_print (guest_parts dk t rt width)"
    by (simp add: guest_parts_def Let_def w split: option.splits)
  have "all_print (map (\<lambda>x. wrapped (''+ '' @ x) width ''   '') xs)" for xs
    by (induction xs) (simp_all add: w)
  then show "all_print (item_parts dk c width it)" by (simp add: item_parts_def w)
  show "all_print (sum_parts t width)" by (simp add: sum_parts_def Let_def w)
qed

lemma join_parts_snoc: "join_parts (ps @ [Some c]) = map_option (\<lambda>b. b @ c) (join_parts ps)"
proof (induction ps)
  case (Cons p ps)
  then show ?case by (cases p; cases "join_parts ps") (simp_all add: join_parts_Cons)
qed (simp add: join_parts_def)

lemma reads_cut: "printer_reads CUT = Some [Command CUT]"
  by code_simp

text \<open>A slip: read to its end, cut once, there; what a part leaves is on it.\<close>

lemma render_reads:
  assumes "6 \<le> width"
  shows "\<exists>bs ts. render dk t rt pt width notice = Some bs \<and> printer_reads bs = Some (ts @ [Command CUT]) \<and>
     Command CUT \<notin> set ts \<and>
     (\<forall>p \<in> set (guest_parts dk t rt width) \<union> set (sum_parts t width) \<union>
        (\<Union>it \<in> set (elements (field ''items'' t)). set (item_parts dk (field ''correction_reason'' t = JStr CANCELLED) width it)).
        \<forall>i. prints p i \<longrightarrow> sublist i (ink_of ts))"
proof -
  define cancelled where "cancelled \<longleftrightarrow> field ''correction_reason'' t = JStr CANCELLED"
  define np where "np = (case if cancelled then Some ''STORNIERT'' else notice of None \<Rightarrow> Some []
     | Some s \<Rightarrow> if s = [] then Some [] else notice_block s width)"
  define ps where "ps = [Some INIT, Some CODEPAGE, np] @ head_parts dk t @ guest_parts dk t rt width @ [Some (rule_line width)]
     @ concat (map (item_parts dk cancelled width) (elements (field ''items'' t)))
     @ [Some (rule_line width)] @ sum_parts t width @ [Some (text_line (footer dk t pt)), np, Some FEED]"
  have r: "render dk t rt pt width notice = join_parts (ps @ [Some CUT])"
    by (simp add: render_def Let_def ps_def np_def cancelled_def)
  have "\<exists>i. prints np i"
    using prints_notice [OF assms] prints_nil by (auto simp: np_def split: option.splits)
  then have "all_print ps"
    by (simp add: ps_def parts_print [OF assms] all_print_concat some_print rule_line_def)
  from all_print_join [OF this] obtain ink where
    ink: "prints (join_parts ps) ink" "\<forall>p \<in> set ps. \<forall>i. prints p i \<longrightarrow> sublist i ink" by blast
  then obtain bs ts where b: "join_parts ps = Some bs" "printer_reads bs = Some ts" "Command CUT \<notin> set ts" "ink_of ts = ink"
    by (auto simp: prints_def)
  have "render dk t rt pt width notice = Some (bs @ CUT)" by (simp add: r join_parts_snoc b(1))
  moreover have "printer_reads (bs @ CUT) = Some (ts @ [Command CUT])" by (rule printer_reads_append [OF b(2) reads_cut])
  moreover have "set (guest_parts dk t rt width) \<union> set (sum_parts t width) \<union>
        (\<Union>it \<in> set (elements (field ''items'' t)). set (item_parts dk cancelled width it)) \<subseteq> set ps"
    by (auto simp: ps_def)
  ultimately show ?thesis using b(3,4) ink(2) by (intro exI conjI) (auto simp: cancelled_def)
qed

section \<open>What reaches the paper\<close>

lemma split_run_ink: "filter inked (concat (split_run cur s)) = filter inked (rev cur @ s)"
proof (induction cur s rule: split_run.induct)
  case (2 cur c cs)
  have "py_space c \<Longrightarrow> \<not> inked c" by (simp add: inked_def)
  then show ?case using 2 by auto
qed simp

lemma py_join_ink: "filter inked (py_join '' '' ws) = filter inked (concat ws)"
proof -
  have "\<not> inked blank" by code_simp
  then show ?thesis by (induction "'' ''" ws rule: py_join.induct) auto
qed

lemma label_ink: "str_ink (item_label dk it) =
    str_ink (item_quantity dk it @ ''x'' @ shown_or_blank dk (field ''number'' it) @ shown_or_blank dk (field ''name'' it))"
proof -
  have "\<not> inked blank" by code_simp
  then show ?thesis by (simp add: str_ink_def item_label_def py_split_def split_run_ink py_join_ink)
qed

lemma sublist_end: "sublist (a @ b) ink \<Longrightarrow> sublist b ink"
  unfolding sublist_def by (metis append.assoc)

lemma sublist_str_end: "sublist (str_ink (a @ b)) ink \<Longrightarrow> sublist (str_ink b) ink"
  using sublist_end by simp

text \<open>What a slip must show of an item: quantity, number and name, every option, and its note.\<close>

definition item_shown :: "desk \<Rightarrow> bool \<Rightarrow> bytes \<Rightarrow> json \<Rightarrow> bool" where
  "item_shown dk cancelled ink it \<longleftrightarrow>
     sublist (str_ink (item_quantity dk it @ ''x'' @ shown_or_blank dk (field ''number'' it) @ shown_or_blank dk (field ''name'' it))) ink \<and>
     (\<forall>x \<in> set (elements (field ''options'' it)). sublist (str_ink (option_text dk x)) ink) \<and>
     (\<not> cancelled \<longrightarrow> (\<forall>s. field ''note'' it = JStr s \<longrightarrow> sublist (str_ink s) ink))"

lemma sublist_no_ink [simp]: "sublist (str_ink []) ink"
  by simp

lemma item_shown:
  assumes "6 \<le> width" and "\<forall>p \<in> set (item_parts dk cancelled width it). \<forall>i. prints p i \<longrightarrow> sublist i ink"
  shows "item_shown dk cancelled ink it"
  unfolding item_shown_def
proof (intro conjI ballI impI allI)
  have w: "prints (wrapped s width []) (str_ink s)" "prints (wrapped s width ''   '') (str_ink s)" for s
    using prints_wrapped(1) [OF _ blanks(1), of width s] prints_wrapped(1) [OF _ blanks(2), of width s] assms(1) by auto
  have "sublist (str_ink (item_label dk it)) ink" using assms(2) w(1) by (auto simp: item_parts_def)
  then show "sublist (str_ink (item_quantity dk it @ ''x'' @ shown_or_blank dk (field ''number'' it) @
      shown_or_blank dk (field ''name'' it))) ink" by (simp only: label_ink)
  show "sublist (str_ink (option_text dk x)) ink" if x: "x \<in> set (elements (field ''options'' it))" for x
  proof (cases "option_text dk x = []")
    case False
    then have "wrapped (''+ '' @ option_text dk x) width ''   '' \<in> set (item_parts dk cancelled width it)"
      using x by (auto simp: item_parts_def)
    then have "sublist (str_ink (''+ '' @ option_text dk x)) ink" using assms(2) w(2) by blast
    then show ?thesis by (rule sublist_str_end)
  qed simp
  show "sublist (str_ink s) ink" if n: "\<not> cancelled" "field ''note'' it = JStr s" for s
  proof (cases "s = []")
    case False
    then have "wrapped (''! '' @ s) width ''   '' \<in> set (item_parts dk cancelled width it)"
      using n by (auto simp: item_parts_def)
    then have "sublist (str_ink (''! '' @ s)) ink" using assms(2) w(2) by blast
    then show ?thesis by (rule sublist_str_end)
  qed simp
qed

lemma note_shown:
  assumes "6 \<le> width" and "\<forall>p \<in> set (guest_parts dk t rt width). \<forall>i. prints p i \<longrightarrow> sublist i ink"
    and "field ''correction_reason'' t \<noteq> JStr CANCELLED" and "field ''note'' t = JStr s"
  shows "sublist (str_ink s) ink"
proof (cases "s = []")
  case False
  then have "wrapped (''! '' @ s) width [] \<in> set (guest_parts dk t rt width)"
    using assms(3,4) by (auto simp: guest_parts_def Let_def)
  moreover have "prints (wrapped (''! '' @ s) width []) (str_ink (''! '' @ s))"
    by (rule prints_wrapped(1) [OF _ blanks(1)]) (use assms(1) in simp)
  ultimately have "sublist (str_ink (''! '' @ s)) ink" using assms(2) by blast
  then show ?thesis by (rule sublist_str_end)
qed simp

text \<open>C14. The printer understands every slip to its end, whatever a guest said and a model wrote down: each byte is a
  glyph, a line feed or one of the twelve commands of the program, and it cuts once, at the end.\<close>

theorem slip_is_cut_once:
  assumes "6 \<le> width"
  shows "\<exists>bs ts. slip_bytes dk width tk = Some bs \<and> printer_reads bs = Some (ts @ [Command CUT]) \<and> Command CUT \<notin> set ts"
  unfolding slip_bytes_def using render_reads [OF assms] by blast

text \<open>C21. Nothing of an order is lost on the way to the paper: the letters of its note, and of every position the
  quantity, number, name, options and note stand on the slip, complete and in order, whatever had to be wrapped.\<close>

theorem slip_shows_order:
  assumes "6 \<le> width"
  shows "\<exists>bs ts. slip_bytes dk width tk = Some bs \<and> printer_reads bs = Some ts \<and>
     (field ''correction_reason'' (tk_slip tk) \<noteq> JStr CANCELLED \<longrightarrow>
        (\<forall>s. field ''note'' (tk_slip tk) = JStr s \<longrightarrow> sublist (str_ink s) (ink_of ts))) \<and>
     (\<forall>it \<in> set (elements (field ''items'' (tk_slip tk))).
        item_shown dk (field ''correction_reason'' (tk_slip tk) = JStr CANCELLED) (ink_of ts) it)"
proof -
  let ?t = "tk_slip tk" and ?rt = "tk_ready_time tk"
  let ?c = "field ''correction_reason'' ?t = JStr CANCELLED"
  obtain bs ts where r: "slip_bytes dk width tk = Some bs" "printer_reads bs = Some (ts @ [Command CUT])"
    "\<forall>p \<in> set (guest_parts dk ?t ?rt width) \<union> set (sum_parts ?t width) \<union>
        (\<Union>it \<in> set (elements (field ''items'' ?t)). set (item_parts dk ?c width it)).
        \<forall>i. prints p i \<longrightarrow> sublist i (ink_of ts)"
    unfolding slip_bytes_def using render_reads [OF assms, of dk ?t ?rt "Some (tk_print_time tk)" None] by blast
  have "item_shown dk ?c (ink_of ts) it" if "it \<in> set (elements (field ''items'' ?t))" for it
    by (rule item_shown [OF assms]) (use r(3) that in blast)
  moreover have "sublist (str_ink s) (ink_of ts)" if "\<not> ?c" "field ''note'' ?t = JStr s" for s
    by (rule note_shown [OF assms _ that]) (use r(3) in blast)
  ultimately show ?thesis using r(1,2) by (intro exI [of _ bs] exI [of _ "ts @ [Command CUT]"]) simp
qed

text \<open>A text on the slip is wrapped into lines that fit the paper, and they hold all its letters.\<close>

theorem wrapped_fits:
  assumes "int (length indent) + 2 < width" and "set indent \<subseteq> {blank}"
  shows "\<exists>ls. wrapped s width indent = Some (concat (map text_line ls)) \<and> ls \<noteq> [] \<and>
     (\<forall>l \<in> set ls. int (length l) \<le> width) \<and> filter inked (concat ls) = filter inked s"
  by (rule wrapped_lines [OF assms])

section \<open>The note of a cancelled order\<close>

text \<open>Two tickets that differ at most in the address, the notes and the order of their keys.\<close>

definition same_but_private :: "json \<Rightarrow> json \<Rightarrow> bool" where
  "same_but_private t u \<longleftrightarrow>
     (\<forall>k. k \<notin> {''address'', ''note'', ''items''} \<longrightarrow> jget k t = jget k u) \<and>
     list_all2 (\<lambda>i j. \<forall>k. k \<noteq> ''note'' \<longrightarrow> jget k i = jget k j) (elements (field ''items'' t)) (elements (field ''items'' u))"

lemma same_field: "same_but_private t u \<Longrightarrow> k \<notin> {''address'', ''note'', ''items''} \<Longrightarrow> field k t = field k u"
  by (simp add: same_but_private_def field_def)

lemma item_parts_same:
  assumes "\<forall>k. k \<noteq> ''note'' \<longrightarrow> jget k i = jget k j"
  shows "item_parts dk True width i = item_parts dk True width j"
proof -
  have "field k i = field k j" if "k \<noteq> ''note''" for k using assms that by (simp add: field_def)
  moreover have "jget ''quantity'' i = jget ''quantity'' j" using assms by simp
  ultimately show ?thesis by (simp add: item_parts_def item_label_def item_quantity_def)
qed

lemma items_same:
  "list_all2 (\<lambda>i j. \<forall>k. k \<noteq> ''note'' \<longrightarrow> jget k i = jget k j) xs ys \<Longrightarrow>
     map (item_parts dk True width) xs = map (item_parts dk True width) ys"
  by (induction rule: list_all2_induct) (simp_all add: item_parts_same)

text \<open>C38. The note that voids a slip shows neither the address nor any note of the guest: two cancelled orders that
  differ in nothing else give the same bytes.\<close>

theorem cancelled_slip_hides:
  assumes "field ''correction_reason'' t = JStr CANCELLED" and "same_but_private t u"
  shows "render dk t rt pt width notice = render dk u rt pt width notice"
proof -
  note f = same_field [OF assms(2)]
  have c: "field ''correction_reason'' u = JStr CANCELLED" using assms(1) f [of "''correction_reason''"] by simp
  have items: "map (item_parts dk True width) (elements (field ''items'' t)) =
      map (item_parts dk True width) (elements (field ''items'' u))"
    by (rule items_same) (use assms(2) in \<open>simp only: same_but_private_def\<close>)
  have "head_parts dk t = head_parts dk u" by (simp add: head_parts_def assms(1) c)
  moreover have "guest_parts dk t rt width = guest_parts dk u rt width"
  proof -
    have e: "field ''ready_at'' t = field ''ready_at'' u" "field ''type'' t = field ''type'' u"
      "field ''pickup_code'' t = field ''pickup_code'' u" "field ''customer_name'' t = field ''customer_name'' u"
      by (rule f, simp)+
    show ?thesis unfolding guest_parts_def kind_of_slip_def Let_def e assms(1) c by simp
  qed
  moreover have "sum_parts t width = sum_parts u width" using f by (simp add: sum_parts_def Let_def)
  moreover have "footer dk t pt = footer dk u pt" using f by (simp add: footer_def)
  ultimately show ?thesis by (simp add: render_def Let_def assms(1) c items)
qed

section \<open>A slip with an allergy\<close>

definition example_desk :: desk where
  "example_desk = \<lparr>desk_now = 0, desk_zone = berlin, desk_repr = (\<lambda>_. [])\<rparr>"

definition allergy_slip :: json where
  "allergy_slip = JObj [(''order_id'', JId 50), (''type'', JStr ''pickup''), (''pickup_code'', JStr ''A1''),
     (''note'', JStr ([CHR 0x1B] @ ''p0 allergisch gegen Erdnuss'')), (''revision'', JInt 0), (''total_cents'', JInt 1900),
     (''items'', JList [JObj [(''number'', JStr ''12''), (''name'', JStr ''Ente''), (''quantity'', JInt 2),
        (''options'', JList [JStr ''scharf'']), (''note'', JStr ''ohne Nuss'')]])]"

definition allergy_ticket :: kitchen_ticket where
  "allergy_ticket = \<lparr>tk_id = 100, tk_attempt = 1, tk_slip = allergy_slip, tk_ready_time = Some ''18:30'', tk_print_time = ''18:02''\<rparr>"

definition void_slip :: "str \<Rightarrow> json" where
  "void_slip n = JObj [(''order_id'', JId 50), (''type'', JStr ''pickup''), (''correction_reason'', JStr CANCELLED),
     (''note'', JStr n), (''items'', JList [])]"

text \<open>An escape character that a guest spelled out does not open the drawer.\<close>

theorem slip_is_cut_once_witness:
  "\<exists>bs ts. slip_bytes example_desk 48 allergy_ticket = Some bs \<and> printer_reads bs = Some (ts @ [Command CUT]) \<and>
     Command CUT \<notin> set ts"
  by (rule slip_is_cut_once) simp

theorem slip_shows_order_witness:
  "\<exists>ts. Option.bind (slip_bytes example_desk 12 allergy_ticket) printer_reads = Some ts \<and>
     sublist (str_ink ''allergischgegenErdnuss'') (ink_of ts) \<and> sublist (str_ink ''2x12Ente'') (ink_of ts)"
proof -
  have f: "field ''correction_reason'' allergy_slip = JNull"
    "field ''note'' allergy_slip = JStr ([CHR 0x1B] @ ''p0 allergisch gegen Erdnuss'')" by code_simp+
  obtain bs ts where r: "slip_bytes example_desk 12 allergy_ticket = Some bs" "printer_reads bs = Some ts"
    "sublist (str_ink ([CHR 0x1B] @ ''p0 allergisch gegen Erdnuss'')) (ink_of ts)"
    "\<forall>it \<in> set (elements (field ''items'' allergy_slip)). item_shown example_desk False (ink_of ts) it"
    using slip_shows_order [of 12 example_desk allergy_ticket] f by (auto simp: allergy_ticket_def)
  have "str_ink ([CHR 0x1B] @ ''p0 allergisch gegen Erdnuss'') = str_ink ''p0'' @ str_ink ''allergischgegenErdnuss''"
    by code_simp
  then have "sublist (str_ink ''allergischgegenErdnuss'') (ink_of ts)" using r(3) sublist_end by metis
  moreover have "sublist (str_ink ''2x12Ente'') (ink_of ts)"
  proof -
    let ?it = "hd (elements (field ''items'' allergy_slip))"
    have "elements (field ''items'' allergy_slip) \<noteq> []" by code_simp
    then have "item_shown example_desk False (ink_of ts) ?it" using r(4) by simp
    moreover have "item_quantity example_desk ?it @ ''x'' @ shown_or_blank example_desk (field ''number'' ?it) @
        shown_or_blank example_desk (field ''name'' ?it) = ''2x12Ente''" by code_simp
    ultimately show ?thesis by (simp only: item_shown_def)
  qed
  ultimately show ?thesis using r(1,2) by auto
qed

theorem wrapped_fits_witness:
  "\<exists>ls. wrapped ''+ ohne Erdnuss'' 12 ''   '' = Some (concat (map text_line ls)) \<and> ls \<noteq> [] \<and>
     (\<forall>l \<in> set ls. int (length l) \<le> 12) \<and> filter inked (concat ls) = filter inked ''+ ohne Erdnuss''"
  by (rule wrapped_fits) simp_all

theorem cancelled_slip_hides_witness:
  "render example_desk (void_slip ''Erdnuss'') None None 48 None = render example_desk (void_slip []) None None 48 None"
proof (rule cancelled_slip_hides)
  show "field ''correction_reason'' (void_slip ''Erdnuss'') = JStr CANCELLED" by code_simp
  show "same_but_private (void_slip ''Erdnuss'') (void_slip [])"
    by (simp add: same_but_private_def void_slip_def field_def)
qed

end
