(* ===== verification/Printer.thy ===== *)
theory Printer
  imports PyStr "HOL-Library.Word"
begin

text \<open>
  The way to the printer (\<open>printbridge/transport.py\<close>): over the network, or through the queue of Windows. The
  socket and the queue are what they answer; the result is the error, if any, and the calls that were made.
\<close>

unbundle bit_operations_syntax

section \<open>Over the network\<close>

text \<open>What the socket does: whether it connects, what it answers to each of the two questions (\<open>None\<close>: the
  connection breaks; \<open>Some None\<close>: no answer in time, or an empty one), and whether it takes the slip.\<close>

record tcp_peer =
  tcp_connects :: bool
  tcp_status :: "nat \<Rightarrow> 8 word option option"
  tcp_takes :: bool

datatype printer_failure = Offline | PaperOut | Unreachable | PrinterUnknown | SwitchedOff | Blocking "32 word" | JobStuck | QueueFails

text \<open>The error and whether the slip was sent, as far as the socket took it.\<close>

definition tcp_send :: "tcp_peer \<Rightarrow> printer_failure option \<times> bool" where
  "tcp_send p =
     (if \<not> tcp_connects p then (Some Unreachable, False)
      else case tcp_status p 1 of None \<Rightarrow> (Some Unreachable, False)
      | Some printer \<Rightarrow>
          if (case printer of Some s \<Rightarrow> s AND 0x08 \<noteq> 0 | None \<Rightarrow> False) then (Some Offline, False)
          else case tcp_status p 4 of None \<Rightarrow> (Some Unreachable, False)
          | Some paper \<Rightarrow>
              if (case paper of Some s \<Rightarrow> s AND 0x60 = 0x60 | None \<Rightarrow> False) then (Some PaperOut, False)
              else if tcp_takes p then (None, True) else (Some Unreachable, True))"

section \<open>Through the queue\<close>

definition PRINTER_STATUS_BLOCKING :: "32 word list" where
  "PRINTER_STATUS_BLOCKING = [0x00000002, 0x00000008, 0x00000010, 0x00000080, 0x00400000]"

definition PRINTER_ATTRIBUTE_WORK_OFFLINE :: "32 word" where "PRINTER_ATTRIBUTE_WORK_OFFLINE = 0x00000400"

definition JOB_STATUS_ERROR :: "32 word" where
  "JOB_STATUS_ERROR = 0x00000002 OR 0x00000020 OR 0x00000040 OR 0x00000200 OR 0x00000400"

definition JOB_STATUS_PRINTED :: "32 word" where "JOB_STATUS_PRINTED = 0x00000080"

text \<open>A call that raises answers \<open>None\<close>. \<open>job_at k\<close> is the answer to the question number \<open>k\<close> for the job: not
  in the queue, or there with its state.\<close>

record win_queue =
  opens :: bool
  printer_info :: "(32 word \<times> 32 word) option"
  job_started :: "nat option"
  page_written :: bool
  job_at :: "nat \<Rightarrow> 32 word option option"
  delete_works :: bool

datatype queue_call = OpenPrinter | GetPrinter | StartDoc | WritePage | EndDoc | EnumJobs | Sleep | DeleteJob nat | ClosePrinter

definition check_ready :: "win_queue \<Rightarrow> printer_failure option" where
  "check_ready q =
     (case printer_info q of None \<Rightarrow> Some QueueFails
      | Some (attributes, status) \<Rightarrow>
          if attributes AND PRINTER_ATTRIBUTE_WORK_OFFLINE \<noteq> 0 then Some SwitchedOff
          else map_option Blocking (find (\<lambda>b. status AND b \<noteq> 0) PRINTER_STATUS_BLOCKING))"

text \<open>\<open>_wait_done\<close>: \<open>limit\<close> is \<open>wait_seconds\<close> in the half seconds between two questions, \<open>k\<close> the number of the
  question. \<open>QueueFails\<close> is an exception of the queue, which \<open>send\<close> answers by deleting the job itself.\<close>

function wait_done :: "win_queue \<Rightarrow> nat \<Rightarrow> nat \<Rightarrow> nat \<Rightarrow> printer_failure option \<times> queue_call list" where
  "wait_done q limit job k =
     (case job_at q k of
        None \<Rightarrow> (Some QueueFails, [EnumJobs])
      | Some None \<Rightarrow> (None, [EnumJobs])
      | Some (Some st) \<Rightarrow>
          if st AND JOB_STATUS_PRINTED \<noteq> 0 then (None, [EnumJobs])
          else if st AND JOB_STATUS_ERROR \<noteq> 0 \<or> limit \<le> k
          then (Some (if delete_works q then JobStuck else QueueFails), [EnumJobs, DeleteJob job])
          else case wait_done q limit job (Suc k) of (r, calls) \<Rightarrow> (r, [EnumJobs, Sleep] @ calls))"
  by pat_completeness auto
termination by (relation "measure (\<lambda>(q, limit, job, k). limit - k)") auto

declare wait_done.simps [simp del]

definition WAIT_HALF_SECONDS :: nat where "WAIT_HALF_SECONDS = 30"

definition write_page :: "win_queue \<Rightarrow> nat \<Rightarrow> printer_failure option \<times> queue_call list" where
  "write_page q job =
     (if page_written q then case wait_done q WAIT_HALF_SECONDS job 0 of (r, calls) \<Rightarrow> (r, [WritePage, EndDoc] @ calls)
      else (Some QueueFails, [WritePage, EndDoc]))"

definition queue_send :: "win_queue \<Rightarrow> printer_failure option \<times> queue_call list" where
  "queue_send q =
     (if \<not> opens q then (Some PrinterUnknown, [OpenPrinter])
      else case check_ready q of
        Some e \<Rightarrow> (Some e, [OpenPrinter, GetPrinter, ClosePrinter])
      | None \<Rightarrow>
          (case job_started q of None \<Rightarrow> (Some QueueFails, [OpenPrinter, GetPrinter, StartDoc, ClosePrinter])
           | Some job \<Rightarrow>
               (case write_page q job of (r, calls) \<Rightarrow>
                  (r, [OpenPrinter, GetPrinter, StartDoc] @ calls
                      @ (if r = Some QueueFails then [DeleteJob job] else []) @ [ClosePrinter]))))"

section \<open>A print that is reported as failed is taken out of the queue\<close>

text \<open>The job is known to have left: not in the queue, or marked as printed.\<close>

definition job_gone :: "win_queue \<Rightarrow> nat \<Rightarrow> bool" where
  "job_gone q n \<longleftrightarrow> (case job_at q n of Some None \<Rightarrow> True
     | Some (Some st) \<Rightarrow> st AND JOB_STATUS_PRINTED \<noteq> 0 | None \<Rightarrow> False)"

text \<open>The five ways a question to the queue can end.\<close>

lemma wait_done_cases:
  obtains (broken) "job_at q k = None" | (left) "job_at q k = Some None"
    | (printed) st where "job_at q k = Some (Some st)" "st AND JOB_STATUS_PRINTED \<noteq> 0"
    | (stuck) st where "job_at q k = Some (Some st)" "st AND JOB_STATUS_PRINTED = 0" "st AND JOB_STATUS_ERROR \<noteq> 0 \<or> limit \<le> k"
    | (again) st where "job_at q k = Some (Some st)" "st AND JOB_STATUS_PRINTED = 0" "\<not> (st AND JOB_STATUS_ERROR \<noteq> 0 \<or> limit \<le> k)"
proof (cases "job_at q k")
  case (Some a)
  then show thesis using left printed stuck again by (cases a) blast+
qed (rule broken)

lemma wait_done_polls: "wait_done q limit job k = (r, calls) \<Longrightarrow> length (filter (\<lambda>c. c = EnumJobs) calls) \<le> Suc (limit - k)"
proof (induction q limit job k arbitrary: r calls rule: wait_done.induct)
  case (1 q limit job k)
  obtain r' calls' where w: "wait_done q limit job (Suc k) = (r', calls')" by force
  show ?case
  proof (cases rule: wait_done_cases [where q = q and k = k and limit = limit])
    case (again st)
    then have "calls = [EnumJobs, Sleep] @ calls'" using "1.prems" w by (auto simp: wait_done.simps [of q limit job k])
    moreover have "length (filter (\<lambda>c. c = EnumJobs) calls') \<le> Suc (limit - Suc k)"
      using "1.IH" [OF again(1) refl _ again(3) w] again(2) by simp
    moreover have "Suc (limit - Suc k) = limit - k" using again(3) by auto
    ultimately show ?thesis by simp
  qed (use "1.prems" in \<open>auto simp: wait_done.simps [of q limit job k] split: if_splits\<close>)
qed

lemma wait_done_result:
  "wait_done q limit job k = (r, calls) \<Longrightarrow>
     (r = None \<longrightarrow> (\<exists>n \<ge> k. n \<le> max k limit \<and> job_gone q n)) \<and>
     (r \<noteq> None \<longrightarrow> r = Some QueueFails \<or> DeleteJob job \<in> set calls)"
proof (induction q limit job k arbitrary: r calls rule: wait_done.induct)
  case (1 q limit job k)
  obtain r' calls' where w: "wait_done q limit job (Suc k) = (r', calls')" by force
  show ?case
  proof (cases rule: wait_done_cases [where q = q and k = k and limit = limit])
    case (again st)
    have ih: "(r' = None \<longrightarrow> (\<exists>n \<ge> Suc k. n \<le> max (Suc k) limit \<and> job_gone q n)) \<and>
       (r' \<noteq> None \<longrightarrow> r' = Some QueueFails \<or> DeleteJob job \<in> set calls')"
      using "1.IH" [OF again(1) refl _ again(3) w] again(2) by simp
    moreover have "r = r'" "calls = [EnumJobs, Sleep] @ calls'" using "1.prems" again w by (auto simp: wait_done.simps [of q limit job k])
    moreover have "max (Suc k) limit = max k limit" using again(3) by simp
    ultimately show ?thesis by (auto dest: Suc_leD)
  qed (use "1.prems" in \<open>auto simp: job_gone_def wait_done.simps [of q limit job k] split: if_splits\<close>)
qed

text \<open>C28. A print through the queue: success means the job was seen to have left within fifteen seconds; a failure after
  the job was handed over deletes it, so that Windows does not print it later, beside the repetition; the queue is asked
  at most 31 times, and the printer is always closed.\<close>

theorem failed_print_is_deleted:
  assumes "queue_send q = (r, calls)"
  shows "(r = None \<longrightarrow> (\<exists>job n. job_started q = Some job \<and> n \<le> WAIT_HALF_SECONDS \<and> job_gone q n)) \<and>
    (\<forall>job. r \<noteq> None \<and> WritePage \<in> set calls \<and> job_started q = Some job \<longrightarrow> DeleteJob job \<in> set calls) \<and>
    length (filter (\<lambda>c. c = EnumJobs) calls) \<le> 31 \<and> (opens q \<longrightarrow> last calls = ClosePrinter)"
proof (cases "opens q \<and> check_ready q = None \<and> job_started q \<noteq> None")
  case True
  then obtain job where job: "job_started q = Some job" by blast
  obtain w ws where w: "write_page q job = (w, ws)" by force
  obtain u us where u: "wait_done q WAIT_HALF_SECONDS job 0 = (u, us)" by force
  have r: "r = w" "calls = [OpenPrinter, GetPrinter, StartDoc] @ ws @ (if w = Some QueueFails then [DeleteJob job] else []) @ [ClosePrinter]"
    using assms True job w by (auto simp: queue_send_def)
  note res = wait_done_result [OF u] and polls = wait_done_polls [OF u]
  show ?thesis
  proof (cases "page_written q")
    case True
    then have "w = u" "ws = [WritePage, EndDoc] @ us" using w u by (simp_all add: write_page_def)
    then show ?thesis using res polls job by (auto simp: r WAIT_HALF_SECONDS_def)
  next
    case False
    then have "w = Some QueueFails" "ws = [WritePage, EndDoc]" using w by (simp_all add: write_page_def)
    then show ?thesis using job by (simp add: r)
  qed
next
  case False
  then show ?thesis using assms by (auto simp: queue_send_def split: if_splits option.splits)
qed

text \<open>A printer that ran out of paper behind the queue: the job hangs and is deleted.\<close>

definition hanging_queue :: win_queue where
  "hanging_queue = \<lparr>opens = True, printer_info = Some (0, 0), job_started = Some 4, page_written = True,
     job_at = (\<lambda>k. Some (Some (if k < 2 then 0 else 0x40))), delete_works = True\<rparr>"

theorem failed_print_is_deleted_witness:
  "fst (queue_send hanging_queue) = Some JobStuck \<and> DeleteJob 4 \<in> set (snd (queue_send hanging_queue))"
proof -
  obtain r calls where q: "queue_send hanging_queue = (r, calls)" by force
  have "fst (queue_send hanging_queue) = Some JobStuck" "list_ex (\<lambda>c. c = WritePage) (snd (queue_send hanging_queue))"
    "job_started hanging_queue = Some 4" by code_simp+
  then show ?thesis using failed_print_is_deleted [OF q] q by (auto simp: list_ex_iff)
qed

end
