(* ===== verification/Spec2Isabelle.thy ===== *)
theory Spec2Isabelle
  imports KitchenRun Evening Release Saving OrderHouse Conversation Retention Privacy RequestLog Bridge Escpos Printer
begin

text \<open>
  A verification library of the telephone agent of a restaurant.

  The program answers the telephone of a restaurant: it takes orders and table bookings, hands over to the team
  what it may not decide, prints the slips in the kitchen and forgets the guests when their time is over. A
  language model speaks with the guest, but everything that counts is decided by deterministic code (the core in
  \<open>src/api\<close>), and that code is modelled here: as HOL functions on one record \<open>db\<close> of the tables, one function per
  function of the source, each branch and each German sentence included.

  How the parts interact. A call starts (\<open>calls/start.py\<close>), is routed to agent or team (\<open>calls/routing.py\<close>), and
  the loop of the agent takes one sentence of the guest after the other: the guards read the sentence and the
  wish of the model and let a tool call through or refuse it; the tools are the operations of \<open>domain/\<close>. An order
  or a table is a draft first, is read back, and becomes firm by a yes. A firm order writes an event to the outbox;
  the outbox is drained by the dispatcher (towards the workflow engine) and by the bridge beside the printer
  (towards the kitchen). The tablet of the team changes the same rows: switches, cards, corrections, bookings by
  hand. At night the deletion job removes what has no reason to stay, and guests may ask for their data at any time.

  Theories and sources (below \<open>src/\<close>, domain files below \<open>src/api/domain/\<close>), in the order they build on another:

    \<^item> \<open>Prelude\<close>: Python types, German letters, row operations, list lemmas, the interfaces. \<open>PyStr\<close>, \<open>PyTime\<close>: the
      part of Python's strings and of \<open>datetime\<close>/\<open>zoneinfo\<close> the code uses; \<open>api/core/time.py\<close>.
    \<^item> \<open>Store\<close>: \<open>api/models/\<close> as records, JSON columns, \<open>api/core/errors.py\<close>; \<open>db\<close> is what a transaction sees.
    \<^item> \<open>Outbox\<close>: \<open>api/events/\<close> (types, outbox, dispatcher).
    \<^item> \<open>Spoken\<close>: \<open>reservations/spoken.py\<close>, \<open>ordering/readback.py\<close>. \<open>Hours\<close>, \<open>Status\<close>, \<open>Switches\<close>: \<open>status/\<close> and
      \<open>calls/routing.py\<close>.
    \<^item> \<open>Menu\<close>, \<open>Delivery\<close>, \<open>Ticket\<close>, \<open>Ordering\<close>, \<open>Release\<close>: \<open>menu/items.py\<close>, \<open>delivery/\<close>, and of \<open>ordering/\<close> pricing,
      validation, labels, ticket, draft, confirm.
    \<^item> \<open>Kitchen\<close>, \<open>KitchenRun\<close>: \<open>ordering/handover.py\<close>, one operation each, then the machine of all of them.
    \<^item> \<open>Correction\<close>, \<open>Saving\<close>, \<open>Board\<close>: \<open>ordering/correction.py\<close>, \<open>ordering/board.py\<close>.
    \<^item> \<open>OrderLife\<close>, \<open>OrderRun\<close>, \<open>OrderHouse\<close>: the abstract life of an order, the machine of the work on orders, and the
      machine of the whole house with erasure and deletion job, which lives that life.
    \<^item> \<open>Customers\<close>: \<open>customers/phone.py\<close>, \<open>lookup.py\<close>, \<open>contact.py\<close>.
    \<^item> \<open>Capacity\<close>, \<open>Slots\<close>, \<open>Booking\<close>, \<open>BookingRun\<close>, \<open>Evening\<close>: \<open>reservations/\<close> and the table part of \<open>confirm.py\<close>.
    \<^item> \<open>Consent\<close>, \<open>Dialogue\<close>, \<open>Guards\<close>, \<open>CallRun\<close>: \<open>api/agent/\<close> (consent, intent, state, guards, and the order of the
      steps as a relation).
    \<^item> \<open>Ladder\<close>, \<open>Escalation\<close>, \<open>Allergies\<close>: \<open>agent/ladder.py\<close> and \<open>outcome.py\<close>, \<open>escalation.py\<close> and
      \<open>complaint_rules.py\<close>, \<open>allergies.py\<close>.
    \<^item> \<open>Turn\<close>, \<open>TurnRun\<close>, \<open>Conversation\<close>: \<open>agent/loop.py\<close>, \<open>dispatch.py\<close> and the consent of the recording in a call, as
      one function from the state of the call and a sentence to the answer and the next state; its tool calls as steps
      of \<open>CallRun\<close>, and then the whole turn as a run of that machine.
    \<^item> \<open>Vault\<close>, \<open>Retention\<close>, \<open>Requests\<close>, \<open>RequestLog\<close>, \<open>Privacy\<close>: \<open>calls/recordings.py\<close>, \<open>calls/consent.py\<close>,
      \<open>customers/personal.py\<close>, \<open>customers/requests.py\<close>, \<open>api/jobs/retention.py\<close>, \<open>api/jobs/data_requests.py\<close>.
    \<^item> \<open>Callbacks\<close>: \<open>calls/start.py\<close>, \<open>calls/end.py\<close>, \<open>callbacks/\<close>.
    \<^item> \<open>Bridge\<close>, \<open>Wrap\<close>, \<open>Escpos\<close>, \<open>Printer\<close>: \<open>printbridge/\<close>, with Python's \<open>textwrap.wrap\<close>.

  How state and operations correspond. A table is a list of records in the order of insertion, an enumeration under
  a CHECK constraint a datatype, \<open>gen_random_uuid()\<close> the counter \<open>next_id\<close>, \<open>now()\<close> of a transaction \<open>tx_now\<close>, an
  instant the whole number of microseconds in UTC, a zone the list of its transitions. An operation takes its
  arguments and a \<open>db\<close> and gives \<open>Inl\<close> an error of \<open>app_error\<close> or \<open>Inr\<close> an answer and the new \<open>db\<close>; one that raises
  has changed nothing, as the transaction is rolled back. Where the code locks rows or takes an advisory lock, the
  operation is one step of a machine: an inductive relation over operations in any order and with any arguments.
  \<open>kitchen_step\<close>, \<open>shop_step\<close> (with the bridge) and \<open>order_step\<close> hold the work on orders and slips: drafts, yeses, taps,
  corrections, pickups, reports, watchdog. The erasure of a person and the deletion job, which drop slips and entries
  of the log, are steps of \<open>house_step\<close> only; what is said of the others holds while no data is deleted.
  \<open>booking_step\<close> holds drafts, yeses and taps of tables under a fixed plan of seats and special days. \<open>call_step\<close> is the
  order of the steps of a call, \<open>request_step\<close> the log of the requests with the job that shortens it, \<open>card_step\<close> the
  callbacks without the tap that brings a finished card back.

  Interfaces. \<open>replayable\<close> (an operation that answers a repetition alike and writes nothing more) is interpreted by the
  yes to a table, the yes to an order, a good report of the bridge and the start of a call; \<open>machine\<close> (every step
  keeps the invariant) by each of the machines above; \<open>window_family\<close> (the first half-open window that holds an
  instant) by the opening hours and the capacity windows; \<open>drain\<close> (a worker that empties a table of due entries) by
  the dispatcher; \<open>fading_steps\<close> (steps that only remove, each with a goal the others keep) by the deletion job.

  What the lemmas show. Per component: what every operation answers and writes on each branch. Over the machines: a
  confirm needs a yes of the guest to the draft that was read out (\<open>CallRun\<close>, and for the loop as it is
  written \<open>Conversation\<close>); the kitchen gets only what was confirmed and released and pickup codes have no
  gap (\<open>OrderRun\<close>); every order lives the abstract life, whatever is erased or purged
  (\<open>OrderHouse\<close>); a slip that may be on paper is known, and voided when its order is cancelled, from the
  row of the outbox to the paper itself (\<open>KitchenRun\<close>, \<open>Bridge\<close>, \<open>Escpos\<close>); no
  window is overbooked and no table given twice (\<open>BookingRun\<close>); one open card for a call
  (\<open>Callbacks\<close>). Over the data of guests: the deletion job forgets what is past its period and nothing
  else (\<open>Retention\<close>); an erasure is complete, needs proof of the person, and is on the ledger before it
  is committed (\<open>Privacy\<close>).

  Bounds and fuel. Characters are Latin-1 (HOL's \<open>char\<close>); the case mapping and the word classes are those of Python
  on this range. Numbers are Python's unbounded integers, bytes of a slip are 8-bit words, the status of a job of the
  queue of Windows a 32-bit word. Loops of the source are structural recursions or have a termination proof; the search
  for the next opening looks as many days ahead as the source (\<open>LOOKAHEAD_DAYS\<close>), the wait for the printer counts the
  half seconds of the source (\<open>WAIT_HALF_SECONDS\<close>), the log of the bridge keeps the last 2000 orders (\<open>KEEP\<close>) and the
  statements about paper hold within this number. Wrapping a line may not end for a hopeless indent; this is the value
  \<open>None\<close> of a \<open>partial_function\<close>, and the slips are proved to be wrapped for every paper of six columns or more.

  Parameters. What is not the program's code is an argument: the answer of the language model and the readers of
  guest text beyond \<open>consent.py\<close>, the order of the collation and the md5 of a version, rows another transaction has
  locked, files that cannot be removed, the answers of printer, disk, network and workflow engine. The properties hold for
  all of them unless a hypothesis says otherwise.

  Not modelled, and why: prompts and the client of the model (a service); the fuzzy search of the menu with its word
  lists (the trigram extension of the database decides); the import of the register's files (formats of another
  program); telephony, speech and the web pages (asynchronous input and output around the operations modelled here);
  the reading of guest details and of allergen questions (word lists; the loop takes them as readers); migrations,
  simulation, evaluation, scripts and deployment (not part of the running core). Fingerprints for the event stream of the
  tablet and log lines are left out throughout.
\<close>

end
